(* ===== verification/Prelude.thy ===== *)
theory Prelude
  imports Main "HOL-Library.Word" "HOL-Library.Monad_Syntax"
begin

text \<open>
  Shared vocabulary of the development: the C++ types the sources use, the vector
  operations with their out-of-range behaviour, wrap-around arithmetic, and the two
  interfaces that several components implement (byte fields and invariant-preserving
  machines).

  Conventions used in every theory:
  \<^item> a value of type \<open>option\<close> returned by an operation that also returns a value in C++ is
    \<open>None\<close> exactly when the C++ code leaves through an uncaught exception, an abort or
    undefined behaviour (an out-of-range \<open>at\<close>, a null dereference);
  \<^item> an \<open>unsigned int\<close> is a \<open>nat\<close> below \<open>2 ^ 32\<close> and every C++ addition or subtraction on it is
    written with \<open>u32\<close>; \<open>size_t\<close> and \<open>uint64_t\<close> use \<open>u64\<close>;
  \<^item> a byte is an \<open>8 word\<close>.
\<close>

unbundle bit_operations_syntax

named_theorems vec_simps \<open>facts about vector reads and writes\<close>
named_theorems wf_intros \<open>rules that establish the well-formedness invariants\<close>

type_synonym byte = "8 word"
type_synonym bytes = "byte list"

lemma ex_bool [simp]: "\<exists>b. b" "\<exists>b. \<not> b"
  by blast+

section \<open>Wrap-around\<close>

definition u16 :: "nat \<Rightarrow> nat" where
  "u16 n = n mod 2 ^ 16"

definition u32 :: "nat \<Rightarrow> nat" where
  "u32 n = n mod 2 ^ 32"

definition u64 :: "nat \<Rightarrow> nat" where
  "u64 n = n mod 2 ^ 64"

definition sub32 :: "nat \<Rightarrow> nat \<Rightarrow> nat" where
  "sub32 a b = (a + (2 ^ 32 - b mod 2 ^ 32)) mod 2 ^ 32"

definition sub64 :: "nat \<Rightarrow> nat \<Rightarrow> nat" where
  "sub64 a b = (a + (2 ^ 64 - b mod 2 ^ 64)) mod 2 ^ 64"

lemma u32_id [simp]: "n < 4294967296 \<Longrightarrow> u32 n = n"
  by (simp add: u32_def)

lemma u32_less [simp]: "u32 n < 4294967296"
  by (simp add: u32_def)

lemma u64_id [simp]: "n < 18446744073709551616 \<Longrightarrow> u64 n = n"
  by (simp add: u64_def)

lemma u16_id [simp]: "n < 65536 \<Longrightarrow> u16 n = n"
  by (simp add: u16_def)

lemma sub32_le: "b \<le> a \<Longrightarrow> a < 4294967296 \<Longrightarrow> sub32 a b = a - b"
proof -
  assume "b \<le> a" "a < 4294967296"
  then have "a + (4294967296 - b mod 4294967296) = (a - b) + 4294967296" by simp
  then show ?thesis using \<open>a < 4294967296\<close>
    by (simp add: sub32_def del: mod_add_self2) simp
qed

lemma sub64_le: "b \<le> a \<Longrightarrow> a < 18446744073709551616 \<Longrightarrow> sub64 a b = a - b"
proof -
  assume "b \<le> a" "a < 18446744073709551616"
  then have "a + (18446744073709551616 - b mod 18446744073709551616)
             = (a - b) + 18446744073709551616" by simp
  then show ?thesis using \<open>a < 18446744073709551616\<close>
    by (simp add: sub64_def del: mod_add_self2) simp
qed

lemma unat_bound: "unat (x :: 'l::len word) < 2 ^ LENGTH('l)"
  by (rule unsigned_less)

section \<open>Vectors\<close>

text \<open>\<open>std::vector::at\<close> and the assignment through it: out of range throws.\<close>

definition vec_at :: "'a list \<Rightarrow> nat \<Rightarrow> 'a option" where
  "vec_at xs i = (if i < length xs then Some (xs ! i) else None)"

definition vec_put :: "'a list \<Rightarrow> nat \<Rightarrow> 'a \<Rightarrow> 'a list option" where
  "vec_put xs i v = (if i < length xs then Some (xs[i := v]) else None)"

text \<open>\<open>resize\<close> keeps a prefix and pads with the default value.\<close>

definition vec_resize :: "'a \<Rightarrow> nat \<Rightarrow> 'a list \<Rightarrow> 'a list" where
  "vec_resize d n xs = take n xs @ replicate (n - length xs) d"

text \<open>Overwriting a range that lies inside the vector (\<open>fill\<close>, \<open>memcpy\<close>).\<close>

definition vec_write :: "nat \<Rightarrow> 'a list \<Rightarrow> 'a list \<Rightarrow> 'a list" where
  "vec_write off ys xs = take off xs @ ys @ drop (off + length ys) xs"

definition subvec :: "nat \<Rightarrow> nat \<Rightarrow> 'a list \<Rightarrow> 'a list" where
  "subvec off n xs = take n (drop off xs)"

lemma vec_at_Some [vec_simps]: "i < length xs \<Longrightarrow> vec_at xs i = Some (xs ! i)"
  by (simp add: vec_at_def)

lemma vec_at_eq_Some: "vec_at xs i = Some v \<longleftrightarrow> i < length xs \<and> v = xs ! i"
  by (auto simp: vec_at_def)

lemma vec_put_Some [vec_simps]: "i < length xs \<Longrightarrow> vec_put xs i v = Some (xs[i := v])"
  by (simp add: vec_put_def)

lemma vec_put_eq_Some: "vec_put xs i v = Some ys \<longleftrightarrow> i < length xs \<and> ys = xs[i := v]"
  by (auto simp: vec_put_def)

lemma length_vec_resize [simp]: "length (vec_resize d n xs) = n"
  by (simp add: vec_resize_def)

lemma nth_vec_resize [vec_simps]:
  "i < n \<Longrightarrow> vec_resize d n xs ! i = (if i < length xs then xs ! i else d)"
  by (auto simp: vec_resize_def nth_append)

lemma length_vec_write [simp]:
  "off + length ys \<le> length xs \<Longrightarrow> length (vec_write off ys xs) = length xs"
  by (simp add: vec_write_def)

lemma nth_vec_write [vec_simps]:
  assumes "off + length ys \<le> length xs" "i < length xs"
  shows "vec_write off ys xs ! i
    = (if off \<le> i \<and> i < off + length ys then ys ! (i - off) else xs ! i)"
  using assms by (auto simp: vec_write_def nth_append)

lemma subvec_vec_write:
  "off + length ys \<le> length xs \<Longrightarrow> subvec off (length ys) (vec_write off ys xs) = ys"
  by (simp add: subvec_def vec_write_def)

lemma subvec_vec_write_other:
  assumes "off + length ys \<le> length xs" "o2 + n \<le> length xs"
    and "o2 + n \<le> off \<or> off + length ys \<le> o2"
  shows "subvec o2 n (vec_write off ys xs) = subvec o2 n xs"
proof (rule nth_equalityI)
  show "length (subvec o2 n (vec_write off ys xs)) = length (subvec o2 n xs)"
    using assms by (simp add: subvec_def)
next
  fix i assume "i < length (subvec o2 n (vec_write off ys xs))"
  then have "i < n" by (simp add: subvec_def)
  then show "subvec o2 n (vec_write off ys xs) ! i = subvec o2 n xs ! i"
    using assms by (auto simp: subvec_def nth_vec_write)
qed

lemma subvec_vec_resize:
  "o2 + n \<le> length xs \<Longrightarrow> length xs \<le> m \<Longrightarrow> subvec o2 n (vec_resize d m xs) = subvec o2 n xs"
  by (simp add: subvec_def vec_resize_def)

lemma length_subvec [simp]: "off + n \<le> length xs \<Longrightarrow> length (subvec off n xs) = n"
  by (simp add: subvec_def)

lemma subvec_0_length [simp]: "subvec 0 (length xs) xs = xs"
  by (simp add: subvec_def)

section \<open>Counting the set bits of a bitmap\<close>

definition popcount :: "bool list \<Rightarrow> nat" where
  "popcount bs = length (filter id bs)"

lemma popcount_Nil [simp]: "popcount [] = 0"
  by (simp add: popcount_def)

lemma popcount_Cons [simp]: "popcount (b # bs) = (if b then 1 else 0) + popcount bs"
  by (simp add: popcount_def)

lemma popcount_replicate_False [simp]: "popcount (replicate n False) = 0"
  by (simp add: popcount_def)

lemma popcount_append [simp]: "popcount (xs @ ys) = popcount xs + popcount ys"
  by (simp add: popcount_def)

lemma popcount_le_length: "popcount bs \<le> length bs"
  by (simp add: popcount_def)

lemma popcount_card: "popcount bs = card {i. i < length bs \<and> bs ! i}"
  by (simp add: popcount_def length_filter_conv_card)

lemma popcount_list_update_True:
  "i < length bs \<Longrightarrow> \<not> bs ! i \<Longrightarrow> popcount (bs[i := True]) = popcount bs + 1"
proof (induction bs arbitrary: i)
  case (Cons b bs)
  then show ?case by (cases i) auto
qed simp

section \<open>The byte-field interface\<close>

text \<open>
  A field codec writes a value at an offset of a byte stream, growing the stream when it is
  too short, and reads it back. \<open>Serializable\<close>, \<open>BIGNUMSerialize\<close> and \<open>ECPOINTSerialize\<close>
  all promise this contract; structures made of several fields compose it.
\<close>

locale byte_field =
  fixes put :: "bytes \<Rightarrow> nat \<Rightarrow> 'v \<Rightarrow> bytes"
    and get :: "bytes \<Rightarrow> nat \<Rightarrow> 'v option"
    and width :: nat
    and ok :: "'v \<Rightarrow> bool"
  assumes put_length:
      "ok v \<Longrightarrow> off + width < 2 ^ 32 \<Longrightarrow> length (put dst off v) = max (length dst) (off + width)"
    and put_frame:
      "ok v \<Longrightarrow> off + width < 2 ^ 32 \<Longrightarrow> o2 + n \<le> length dst \<Longrightarrow> o2 + n \<le> off \<or> off + width \<le> o2
       \<Longrightarrow> subvec o2 n (put dst off v) = subvec o2 n dst"
    and get_put:
      "ok v \<Longrightarrow> off + width < 2 ^ 32 \<Longrightarrow> get (put dst off v) off = Some v"
    and get_local:
      "off + width < 2 ^ 32 \<Longrightarrow> off + width \<le> length a \<Longrightarrow> off + width \<le> length b
       \<Longrightarrow> subvec off width a = subvec off width b \<Longrightarrow> get a off = get b off"
begin

lemma get_put_other:
  assumes "ok v" "off + width < 2 ^ 32" "o2 + n \<le> length dst"
    and "o2 + n \<le> off \<or> off + width \<le> o2"
  shows "subvec o2 n (put dst off v) = subvec o2 n dst \<and> o2 + n \<le> length (put dst off v)"
  using assms by (simp add: put_frame put_length)

end

text \<open>Two fields one after the other are again a field: this is how \<open>Signature\<close> (challenge,
  response) and \<open>Peer\<close> (address, port) serialise.\<close>

locale two_fields =
  a: byte_field put1 get1 width1 ok1 + b: byte_field put2 get2 width2 ok2
  for put1 :: "bytes \<Rightarrow> nat \<Rightarrow> 'a \<Rightarrow> bytes" and get1 width1 ok1
    and put2 :: "bytes \<Rightarrow> nat \<Rightarrow> 'b \<Rightarrow> bytes" and get2 width2 ok2
begin

definition put_pair :: "bytes \<Rightarrow> nat \<Rightarrow> 'a \<times> 'b \<Rightarrow> bytes" where
  "put_pair dst off p = put2 (put1 dst off (fst p)) (off + width1) (snd p)"

definition get_pair :: "bytes \<Rightarrow> nat \<Rightarrow> ('a \<times> 'b) option" where
  "get_pair src off =
     (case (get1 src off, get2 src (off + width1)) of
        (Some x, Some y) \<Rightarrow> Some (x, y) | _ \<Rightarrow> None)"

definition ok_pair :: "'a \<times> 'b \<Rightarrow> bool" where
  "ok_pair p \<longleftrightarrow> ok1 (fst p) \<and> ok2 (snd p)"

lemma pair_get_put:
  assumes "ok_pair p" "off + (width1 + width2) < 2 ^ 32"
  shows "get_pair (put_pair dst off p) off = Some p"
proof -
  obtain x y where p: "p = (x, y)" by (cases p)
  have ok: "ok1 x" "ok2 y" using assms(1) by (auto simp: ok_pair_def p)
  have bound: "off + width1 < 2 ^ 32" "off + width1 + width2 < 2 ^ 32" using assms(2) by auto
  let ?d = "put1 dst off x"
  have len: "off + width1 \<le> length ?d" using ok bound by (simp add: a.put_length)
  have same: "subvec off width1 (put2 ?d (off + width1) y) = subvec off width1 ?d"
    using b.put_frame [OF ok(2), of "off + width1" off width1 ?d] bound len by simp
  have "get1 (put2 ?d (off + width1) y) off = get1 ?d off"
    using a.get_local [OF bound(1) _ len same] len bound ok by (simp add: b.put_length)
  also have "\<dots> = Some x" using ok bound by (simp add: a.get_put)
  finally have 1: "get1 (put2 ?d (off + width1) y) off = Some x" .
  have 2: "get2 (put2 ?d (off + width1) y) (off + width1) = Some y"
    using b.get_put [OF ok(2), of "off + width1"] bound by simp
  show ?thesis using 1 2 by (simp add: get_pair_def put_pair_def p)
qed

lemma pair_length:
  assumes "ok_pair p" "off + (width1 + width2) < 2 ^ 32"
  shows "length (put_pair dst off p) = max (length dst) (off + (width1 + width2))"
  using assms by (cases p) (auto simp: ok_pair_def put_pair_def a.put_length b.put_length)

end

sublocale two_fields \<subseteq> pair: byte_field put_pair get_pair "width1 + width2" ok_pair
proof
  fix v dst off
  assume "ok_pair v" "off + (width1 + width2) < 2 ^ 32"
  then show "length (put_pair dst off v) = max (length dst) (off + (width1 + width2))"
    by (rule pair_length)
next
  fix v o2 n off and dst :: bytes
  assume ok: "ok_pair v" and bound: "off + (width1 + width2) < 2 ^ 32"
    and le: "o2 + n \<le> length dst" and sep: "o2 + n \<le> off \<or> off + (width1 + width2) \<le> o2"
  have 1: "subvec o2 n (put1 dst off (fst v)) = subvec o2 n dst
           \<and> o2 + n \<le> length (put1 dst off (fst v))"
    by (rule a.get_put_other) (use ok bound le sep in \<open>auto simp: ok_pair_def\<close>)
  have 2: "subvec o2 n (put_pair dst off v) = subvec o2 n (put1 dst off (fst v))"
    unfolding put_pair_def
    by (rule b.put_frame) (use ok bound 1 sep in \<open>auto simp: ok_pair_def\<close>)
  show "subvec o2 n (put_pair dst off v) = subvec o2 n dst" using 1 2 by simp
next
  fix v dst off
  assume "ok_pair v" "off + (width1 + width2) < 2 ^ 32"
  then show "get_pair (put_pair dst off v) off = Some v" by (rule pair_get_put)
next
  fix off and x y :: bytes
  assume bound: "off + (width1 + width2) < 2 ^ 32"
    and len: "off + (width1 + width2) \<le> length x" "off + (width1 + width2) \<le> length y"
    and eq: "subvec off (width1 + width2) x = subvec off (width1 + width2) y"
  have eq1: "subvec off width1 x = subvec off width1 y"
    using arg_cong [OF eq, of "take width1"] by (simp add: subvec_def)
  have eq2: "subvec (off + width1) width2 x = subvec (off + width1) width2 y"
    using arg_cong [OF eq, of "drop width1"] by (simp add: subvec_def drop_take add.commute)
  show "get_pair x off = get_pair y off"
    using a.get_local [of off x y] b.get_local [of "off + width1" x y] eq1 eq2 len bound
    by (simp add: get_pair_def)
qed

section \<open>Machines with an invariant\<close>

text \<open>A sequence of events handled one after the other, and whether every event of it is admissible in
  the state it meets.\<close>

primrec run_events :: "('e \<Rightarrow> 's \<Rightarrow> 's option) \<Rightarrow> 'e list \<Rightarrow> 's \<Rightarrow> 's option" where
  "run_events handle [] s = Some s"
| "run_events handle (e # es) s = Option.bind (handle e s) (run_events handle es)"

primrec admissible_run :: "('e \<Rightarrow> 's \<Rightarrow> 's option) \<Rightarrow> ('s \<Rightarrow> 'e \<Rightarrow> bool) \<Rightarrow> 's \<Rightarrow> 'e list \<Rightarrow> bool" where
  "admissible_run handle admissible s [] = True"
| "admissible_run handle admissible s (e # es) =
     (admissible s e
      \<and> (case handle e s of None \<Rightarrow> True | Some t \<Rightarrow> admissible_run handle admissible t es))"

text \<open>
  A component that reacts to events: every event handler keeps an invariant, and while it holds the
  handler of an admissible event leaves through an exception exactly if the event is one that
  crashes it.
\<close>

locale crashing_machine =
  fixes inv :: "'s \<Rightarrow> bool"
    and handle :: "'e \<Rightarrow> 's \<Rightarrow> 's option"
    and admissible :: "'s \<Rightarrow> 'e \<Rightarrow> bool"
    and crashes :: "'s \<Rightarrow> 'e \<Rightarrow> bool"
  assumes handle_keeps: "inv s \<Longrightarrow> admissible s e \<Longrightarrow> handle e s = Some t \<Longrightarrow> inv t"
    and handle_crashes: "inv s \<Longrightarrow> admissible s e \<Longrightarrow> handle e s = None \<longleftrightarrow> crashes s e"
begin

lemma run_keeps:
  "inv s \<Longrightarrow> admissible_run handle admissible s es \<Longrightarrow> run_events handle es s = Some t \<Longrightarrow> inv t"
proof (induction es arbitrary: s)
  case (Cons e es)
  then obtain u where "handle e s = Some u" by (cases "handle e s") auto
  with Cons handle_keeps show ?case by auto
qed simp

lemma run_crashes:
  "inv s \<Longrightarrow> admissible_run handle admissible s es \<Longrightarrow>
   run_events handle es s = None
     \<longleftrightarrow> (\<exists>pre e post t. es = pre @ e # post \<and> run_events handle pre s = Some t \<and> crashes t e)"
proof (induction es arbitrary: s)
  case (Cons e es)
  have adm: "admissible s e" using Cons.prems(2) by simp
  show ?case
  proof (cases "handle e s")
    case None
    then have "e # es = [] @ e # es \<and> run_events handle [] s = Some s \<and> crashes s e"
      using handle_crashes [OF Cons.prems(1) adm] by simp
    then show ?thesis using None by (metis run_events.simps(2) bind.bind_lzero)
  next
    case (Some u)
    have crash: "\<not> crashes s e" using handle_crashes [OF Cons.prems(1) adm] Some by simp
    have IH: "run_events handle es u = None
        \<longleftrightarrow> (\<exists>pre e' post t. es = pre @ e' # post \<and> run_events handle pre u = Some t \<and> crashes t e')"
      using Cons.IH [of u] Cons.prems handle_keeps [OF Cons.prems(1) adm Some] Some by simp
    have shift: "(e # es = pre @ e' # post \<and> run_events handle pre s = Some t \<and> crashes t e')
        \<longleftrightarrow> (\<exists>pre'. pre = e # pre' \<and> es = pre' @ e' # post \<and> run_events handle pre' u = Some t \<and> crashes t e')"
      for pre e' post t
      using Some crash by (cases pre) auto
    show ?thesis unfolding shift using IH Some by simp blast
  qed
qed simp

end

text \<open>A machine none of whose handlers leaves through an exception.\<close>

locale event_machine =
  fixes inv :: "'s \<Rightarrow> bool"
    and handle :: "'e \<Rightarrow> 's \<Rightarrow> 's option"
    and admissible :: "'s \<Rightarrow> 'e \<Rightarrow> bool"
  assumes handle_safe:
    "inv s \<Longrightarrow> admissible s e \<Longrightarrow> \<exists>t. handle e s = Some t \<and> inv t"

sublocale event_machine \<subseteq> safe: crashing_machine inv handle admissible "\<lambda>s e. False"
  by unfold_locales (use handle_safe in force)+

context event_machine begin

lemma run_safe:
  "inv s \<Longrightarrow> admissible_run handle admissible s es \<Longrightarrow> \<exists>t. run_events handle es s = Some t \<and> inv t"
  using safe.run_crashes [of s es] safe.run_keeps [of s es] by (cases "run_events handle es s") auto

end

text \<open>A machine whose states have a rank that no event raises and that every tick lowers: after as many
  ticks as the rank, the rank is zero.\<close>

locale ranked_machine = event_machine +
  fixes rank :: "'s \<Rightarrow> nat" and tick :: "'e \<Rightarrow> bool"
  assumes rank_step:
    "inv s \<Longrightarrow> admissible s e \<Longrightarrow> handle e s = Some t \<Longrightarrow> rank t \<le> rank s - (if tick e then 1 else 0)"
begin

lemma run_rank:
  "inv s \<Longrightarrow> admissible_run handle admissible s es \<Longrightarrow>
   \<exists>t. run_events handle es s = Some t \<and> inv t \<and> rank t \<le> rank s - length (filter tick es)"
proof (induction es arbitrary: s)
  case (Cons e es)
  have adm: "admissible s e" using Cons.prems(2) by simp
  then obtain t where t: "handle e s = Some t" "inv t" using handle_safe [OF Cons.prems(1)] by blast
  then obtain u where "run_events handle es t = Some u" "inv u" "rank u \<le> rank t - length (filter tick es)"
    using Cons by auto
  then show ?case using t rank_step [OF Cons.prems(1) adm t(1)] by (auto split: if_splits)
qed simp

end

end
