(* ===== verification/ByteCodec.thy ===== *)
theory ByteCodec
  imports Prelude
begin

text \<open>
  Byte-level encodings: \<open>Serializable::GetNumber / SetNumber\<close> (\<open>common/Serializable.h\<close>), the
  OpenSSL conversions between a \<open>BIGNUM\<close> and its big-endian octets that
  \<open>libCrypto/BIGNUMSerialize.cpp\<close> uses, that file itself, and \<open>libUtils/BitVector.cpp\<close>.
  The lemmas show that each writer keeps the bytes outside its field and that each reader
  recovers the value written; the codecs of fixed width are instances of the byte-field
  interface of the prelude.
\<close>

section \<open>Big-endian octets\<close>

fun be_bytes :: "nat \<Rightarrow> nat \<Rightarrow> bytes" where
  "be_bytes 0 v = []"
| "be_bytes (Suc r) v = of_nat (v div 256 ^ r) # be_bytes r v"

definition be_val :: "bytes \<Rightarrow> nat" where
  "be_val bs = foldl (\<lambda>a b. 256 * a + unat b) 0 bs"

lemma length_be_bytes [simp]: "length (be_bytes r v) = r"
  by (induction r) auto

lemma foldl_be: "foldl (\<lambda>a b. 256 * a + unat b) a (bs :: bytes) = a * 256 ^ length bs + be_val bs"
proof (induction bs arbitrary: a)
  case Nil
  then show ?case by (simp add: be_val_def)
next
  case (Cons b bs)
  show ?case
    using Cons.IH [of "256 * a + unat b"] Cons.IH [of "unat b"]
    by (simp add: be_val_def algebra_simps)
qed

lemma be_val_Nil [simp]: "be_val [] = 0"
  by (simp add: be_val_def)

lemma be_val_Cons [simp]: "be_val (b # bs) = unat b * 256 ^ length bs + be_val bs"
  using foldl_be [of "unat b" bs] by (simp add: be_val_def)

lemma unat_of_nat_byte: "unat (of_nat n :: byte) = n mod 256"
  by (simp add: unat_of_nat)

lemma mod_power_Suc: "(v :: nat) mod 256 ^ Suc r = (v div 256 ^ r mod 256) * 256 ^ r + v mod 256 ^ r"
  by (metis mod_mult2_eq mult.commute power_Suc2)

lemma be_val_be_bytes: "be_val (be_bytes r v) = v mod 256 ^ r"
proof (induction r)
  case (Suc r)
  then show ?case by (simp only: be_bytes.simps be_val_Cons unat_of_nat_byte length_be_bytes mod_power_Suc)
qed simp

lemma be_val_less: "be_val bs < 256 ^ length bs"
proof (induction bs)
  case (Cons b bs)
  let ?X = "256 ^ length bs :: nat"
  have "unat b < 256" using unsigned_less [of b] by simp
  then have "Suc (unat b) * ?X \<le> 256 * ?X" by (intro mult_le_mono1) simp
  then have "unat b * ?X + ?X \<le> 256 * ?X" by simp
  moreover have "be_val bs < ?X" using Cons.IH .
  ultimately have "unat b * ?X + be_val bs < 256 * ?X" by linarith
  then show ?case by simp
qed simp

lemma be_val_zeros: "be_val (replicate n 0 @ bs) = be_val bs"
  by (induction n) auto

section \<open>Numbers in a byte stream (common/Serializable.h)\<close>

fun SetNumber_loop :: "bytes \<Rightarrow> nat \<Rightarrow> nat \<Rightarrow> nat \<Rightarrow> bytes option" where
  "SetNumber_loop dst off value 0 = Some dst"
| "SetNumber_loop dst off value (Suc r) = do {
     dst' \<leftarrow> vec_put dst off (of_nat (value div 256 ^ r));
     SetNumber_loop dst' (u32 (off + 1)) value r }"

definition Serializable_SetNumber :: "bytes \<Rightarrow> nat \<Rightarrow> nat \<Rightarrow> nat \<Rightarrow> bytes option" where
  "Serializable_SetNumber dst offset value len =
     (let length_available = u32 (sub64 (length dst) offset);
          dst' = (if length_available < len
                  then vec_resize 0 (length dst + len - length_available) dst else dst)
      in SetNumber_loop dst' offset value len)"

fun GetNumber_loop :: "nat \<Rightarrow> bytes \<Rightarrow> nat \<Rightarrow> nat \<Rightarrow> nat \<Rightarrow> nat option" where
  "GetNumber_loop bits src off result 0 = Some result"
| "GetNumber_loop bits src off result (Suc r) = do {
     tmp \<leftarrow> vec_at src off;
     GetNumber_loop bits src (u32 (off + 1)) ((result + unat tmp * 256 ^ r) mod 2 ^ bits) r }"

definition Serializable_GetNumber :: "nat \<Rightarrow> bytes \<Rightarrow> nat \<Rightarrow> nat \<Rightarrow> nat option" where
  "Serializable_GetNumber bits src offset len =
     (if u32 (offset + len) \<le> length src then GetNumber_loop bits src offset 0 len else Some 0)"

lemma SetNumber_loop_write:
  "off + r \<le> length dst \<Longrightarrow> off + r < 2 ^ 32
   \<Longrightarrow> SetNumber_loop dst off v r = Some (vec_write off (be_bytes r v) dst)"
proof (induction r arbitrary: dst off)
  case 0
  then show ?case by (simp add: vec_write_def)
next
  case (Suc r)
  let ?b = "of_nat (v div 256 ^ r) :: byte"
  have "SetNumber_loop (dst[off := ?b]) (off + 1) v r
        = Some (vec_write (off + 1) (be_bytes r v) (dst[off := ?b]))"
    using Suc.prems by (intro Suc.IH) auto
  moreover have "vec_write (off + 1) (be_bytes r v) (dst[off := ?b])
                 = vec_write off (be_bytes (Suc r) v) dst"
  proof (rule nth_equalityI)
    show "length (vec_write (off + 1) (be_bytes r v) (dst[off := ?b]))
          = length (vec_write off (be_bytes (Suc r) v) dst)"
      using Suc.prems by simp
  next
    fix i assume "i < length (vec_write (off + 1) (be_bytes r v) (dst[off := ?b]))"
    then have "i < length dst" using Suc.prems by simp
    then show "vec_write (off + 1) (be_bytes r v) (dst[off := ?b]) ! i
               = vec_write off (be_bytes (Suc r) v) dst ! i"
      using Suc.prems
      by (auto simp: nth_vec_write nth_Cons nth_list_update Suc_diff_Suc [symmetric] split: nat.splits)
  qed
  ultimately show ?case using Suc.prems by (simp add: vec_put_def)
qed

lemma subvec_Suc: "off < length src \<Longrightarrow> subvec off (Suc r) src = src ! off # subvec (off + 1) r src"
  by (simp add: subvec_def Cons_nth_drop_Suc [symmetric])

lemma GetNumber_loop_val:
  "off + r \<le> length src \<Longrightarrow> off + r < 2 ^ 32 \<Longrightarrow> acc + be_val (subvec off r src) < 2 ^ bits
   \<Longrightarrow> GetNumber_loop bits src off acc r = Some (acc + be_val (subvec off r src))"
proof (induction r arbitrary: off acc)
  case 0
  then show ?case by (simp add: subvec_def)
next
  case (Suc r)
  have split: "subvec off (Suc r) src = src ! off # subvec (Suc off) r src"
    using Suc.prems subvec_Suc [of off src r] by simp
  have len: "length (subvec (Suc off) r src) = r" using Suc.prems by simp
  have "acc + unat (src ! off) * 256 ^ r < 2 ^ bits"
    using Suc.prems(3) by (simp add: split len)
  moreover have "GetNumber_loop bits src (off + 1) (acc + unat (src ! off) * 256 ^ r) r
        = Some (acc + unat (src ! off) * 256 ^ r + be_val (subvec (Suc off) r src))"
    using Suc.IH [of "off + 1"] Suc.prems by (simp add: split len)
  ultimately show ?case
    using Suc.prems by (simp add: vec_at_def split len)
qed

text \<open>The stream after \<open>SetNumber\<close> when the field starts inside it or right at its end.\<close>

definition number_field_put :: "nat \<Rightarrow> bytes \<Rightarrow> nat \<Rightarrow> nat \<Rightarrow> bytes" where
  "number_field_put len dst offset value =
     vec_write offset (be_bytes len value) (vec_resize 0 (max (length dst) (offset + len)) dst)"

lemma Serializable_SetNumber_eq:
  assumes "offset \<le> length dst" "offset + len < 2 ^ 32" "length dst < 2 ^ 32"
  shows "Serializable_SetNumber dst offset value len = Some (number_field_put len dst offset value)"
proof -
  have avail: "u32 (sub64 (length dst) offset) = length dst - offset"
    using assms by (simp add: sub64_le)
  have pad: "(if length dst - offset < len
              then vec_resize 0 (length dst + len - (length dst - offset)) dst else dst)
             = vec_resize 0 (max (length dst) (offset + len)) dst"
    using assms(1) by (auto simp: max_def vec_resize_def)
  show ?thesis
    using assms
    by (simp add: Serializable_SetNumber_def avail pad number_field_put_def SetNumber_loop_write
             del: vec_resize_def)
qed

lemma number_field:
  assumes "256 ^ len \<le> (2 :: nat) ^ bits"
  shows "byte_field (number_field_put len) (\<lambda>src off. Serializable_GetNumber bits src off len) len
           (\<lambda>v. v < 256 ^ len)"
proof
  fix v :: nat and off and dst :: bytes
  assume "v < 256 ^ len" "off + len < 2 ^ 32"
  then show "length (number_field_put len dst off v) = max (length dst) (off + len)"
    by (simp add: number_field_put_def)
next
  fix v :: nat and off o2 n and dst :: bytes
  assume "off + len < 2 ^ 32" "o2 + n \<le> length dst" "o2 + n \<le> off \<or> off + len \<le> o2"
  then show "subvec o2 n (number_field_put len dst off v) = subvec o2 n dst"
    by (auto simp: number_field_put_def subvec_vec_write_other subvec_vec_resize)
next
  fix v :: nat and off and dst :: bytes
  assume v: "v < 256 ^ len" and bound: "off + len < 2 ^ 32"
  let ?d = "number_field_put len dst off v"
  have sub: "subvec off len ?d = be_bytes len v"
    using subvec_vec_write [of off "be_bytes len v" "vec_resize 0 (max (length dst) (off + len)) dst"]
    by (simp add: number_field_put_def)
  have "be_val (subvec off len ?d) = v" using v by (simp add: sub be_val_be_bytes)
  moreover have "v < 2 ^ bits" using v assms by simp
  ultimately show "Serializable_GetNumber bits ?d off len = Some v"
    using bound GetNumber_loop_val [of off len ?d 0 bits]
    by (simp add: Serializable_GetNumber_def number_field_put_def)
next
  fix off and x y :: bytes
  assume bound: "off + len < 2 ^ 32" and len: "off + len \<le> length x" "off + len \<le> length y"
    and eq: "subvec off len x = subvec off len y"
  have "be_val (subvec off len z) < 2 ^ bits" if "off + len \<le> length z" for z
    using be_val_less [of "subvec off len z"] that assms by simp
  then show "Serializable_GetNumber bits x off len = Serializable_GetNumber bits y off len"
    using bound len eq GetNumber_loop_val [of off len x 0 bits] GetNumber_loop_val [of off len y 0 bits]
    by (simp add: Serializable_GetNumber_def)
qed

interpretation uint128: byte_field "number_field_put 16" "\<lambda>src off. Serializable_GetNumber 128 src off 16"
  16 "\<lambda>v. v < 256 ^ 16"
  by (rule number_field) simp

interpretation uint32: byte_field "number_field_put 4" "\<lambda>src off. Serializable_GetNumber 32 src off 4"
  4 "\<lambda>v. v < 256 ^ 4"
  by (rule number_field) simp

section \<open>BIGNUM octets (OpenSSL's BN\_bin2bn, BN\_bn2bin, BN\_num\_bytes)\<close>

definition BN_bin2bn :: "bytes \<Rightarrow> int" where
  "BN_bin2bn s = int (be_val s)"

fun num_bytes :: "nat \<Rightarrow> nat" where
  "num_bytes n = (if n = 0 then 0 else Suc (num_bytes (n div 256)))"

declare num_bytes.simps [simp del]

definition BN_num_bytes :: "int \<Rightarrow> nat" where
  "BN_num_bytes a = num_bytes (nat \<bar>a\<bar>)"

definition BN_bn2bin :: "int \<Rightarrow> bytes" where
  "BN_bn2bin a = be_bytes (BN_num_bytes a) (nat \<bar>a\<bar>)"

lemma num_bytes_le: "v < 256 ^ w \<Longrightarrow> num_bytes v \<le> w"
proof (induction w arbitrary: v)
  case 0
  then show ?case by (simp add: num_bytes.simps)
next
  case (Suc w)
  have "v div 256 < 256 ^ w" using Suc.prems by (simp add: less_mult_imp_div_less)
  then have "num_bytes (v div 256) \<le> w" by (rule Suc.IH)
  then show ?case by (subst num_bytes.simps) simp
qed

lemma less_num_bytes: "v < 256 ^ num_bytes v"
proof (induction v rule: num_bytes.induct)
  case (1 n)
  show ?case
  proof (cases "n = 0")
    case True
    then show ?thesis by (simp add: num_bytes.simps)
  next
    case False
    then have "n div 256 < 256 ^ num_bytes (n div 256)" by (rule 1)
    then have "n < 256 * 256 ^ num_bytes (n div 256)" by (simp add: div_less_iff_less_mult mult.commute)
    with False show ?thesis by (subst num_bytes.simps) simp
  qed
qed

lemma bn2bin_val: "be_val (BN_bn2bin a) = nat \<bar>a\<bar>"
  using less_num_bytes [of "nat \<bar>a\<bar>"] by (simp add: BN_bn2bin_def BN_num_bytes_def be_val_be_bytes)

section \<open>BIGNUMSerialize (libCrypto/BIGNUMSerialize.cpp)\<close>

text \<open>The numbers that fit a field of the given number of octets.\<close>

definition bn_fits :: "nat \<Rightarrow> int \<Rightarrow> bool" where
  "bn_fits w v \<longleftrightarrow> 0 \<le> v \<and> v < 256 ^ w"

text \<open>\<open>static_cast<int>\<close> of an unsigned value.\<close>

definition s32 :: "nat \<Rightarrow> int" where
  "s32 n = (if n < 2 ^ 31 then int n else int n - 2 ^ 32)"

text \<open>\<open>None\<close> is the null pointer the function returns on a bad range.\<close>

definition BIGNUMSerialize_GetNumber :: "bytes \<Rightarrow> nat \<Rightarrow> nat \<Rightarrow> int option" where
  "BIGNUMSerialize_GetNumber src offset sz =
     (if u32 (offset + sz) < sz then None
      else if u32 (offset + sz) > length src then None
      else Some (BN_bin2bn (subvec offset sz src)))"

definition BIGNUMSerialize_SetNumber :: "bytes \<Rightarrow> nat \<Rightarrow> nat \<Rightarrow> int \<Rightarrow> bytes" where
  "BIGNUMSerialize_SetNumber dst offset sz value =
     (if u32 (offset + sz) < sz then dst
      else
        let actual_bn_size = BN_num_bytes value
        in if int actual_bn_size \<le> s32 sz then
             let dst' = (if u32 (offset + sz) > length dst
                         then vec_resize 0 (u32 (offset + sz)) dst else dst);
                 size_diff = sz - actual_bn_size;
                 dst'' = vec_write offset (replicate size_diff 0) dst'
             in vec_write (offset + size_diff) (BN_bn2bin value) dst''
           else dst)"

lemma vec_write_adjacent:
  assumes "off + length xs + length ys \<le> length d"
  shows "vec_write (off + length xs) ys (vec_write off xs d) = vec_write off (xs @ ys) d"
  using assms by (intro nth_equalityI) (auto simp: nth_vec_write nth_append)

lemma if_resize: "(if n > length dst then vec_resize 0 n dst else dst)
    = vec_resize 0 (max (length dst) n) dst"
  by (auto simp: max_def vec_resize_def)

lemma BIGNUMSerialize_SetNumber_eq:
  assumes v: "0 \<le> v" "v < 256 ^ w" and w: "w < 2 ^ 31" "offset + w < 2 ^ 32"
  shows "BIGNUMSerialize_SetNumber dst offset w v
    = vec_write offset (replicate (w - BN_num_bytes v) 0 @ BN_bn2bin v)
        (vec_resize 0 (max (length dst) (offset + w)) dst)"
proof -
  have "nat v < 256 ^ w" using v by (simp add: nat_less_iff)
  then have nb: "BN_num_bytes v \<le> w" using v by (simp add: BN_num_bytes_def num_bytes_le)
  have len: "length (BN_bn2bin v) = BN_num_bytes v" by (simp add: BN_bn2bin_def)
  have "vec_write (offset + length (replicate (w - BN_num_bytes v) (0 :: byte))) (BN_bn2bin v)
          (vec_write offset (replicate (w - BN_num_bytes v) 0)
             (vec_resize 0 (max (length dst) (offset + w)) dst))
        = vec_write offset (replicate (w - BN_num_bytes v) 0 @ BN_bn2bin v)
             (vec_resize 0 (max (length dst) (offset + w)) dst)"
    by (rule vec_write_adjacent) (use nb len in simp)
  moreover have "(if offset + w > length dst then vec_resize 0 (offset + w) dst else dst)
      = vec_resize 0 (max (length dst) (offset + w)) dst" by (rule if_resize)
  moreover have wrap: "u32 (offset + w) = offset + w" using w by simp
  ultimately show ?thesis
    using nb w unfolding BIGNUMSerialize_SetNumber_def wrap
    by (simp add: s32_def Let_def split del: if_split)
qed

lemma bignum_field:
  assumes w: "w < 2 ^ 31"
  shows "byte_field (\<lambda>dst off. BIGNUMSerialize_SetNumber dst off w)
    (\<lambda>src off. BIGNUMSerialize_GetNumber src off w) w (bn_fits w)"
proof
  have octets: "length (replicate (w - BN_num_bytes v) 0 @ BN_bn2bin v) = w
      \<and> BN_bin2bn (replicate (w - BN_num_bytes v) 0 @ BN_bn2bin v) = v"
    if "0 \<le> v \<and> v < 256 ^ w" for v :: int
  proof -
    have "nat v < 256 ^ w" using that by (simp add: nat_less_iff)
    then have "BN_num_bytes v \<le> w" using that by (simp add: BN_num_bytes_def num_bytes_le)
    then show ?thesis using that
      by (simp add: BN_bin2bn_def be_val_zeros bn2bin_val) (simp add: BN_bn2bin_def)
  qed
  fix v :: int and off o2 n and dst :: bytes
  assume fits: "bn_fits w v" and bound: "off + w < 2 ^ 32"
  then have v: "0 \<le> v \<and> v < 256 ^ w" by (simp add: bn_fits_def)
  let ?o = "replicate (w - BN_num_bytes v) 0 @ BN_bn2bin v"
  let ?d = "vec_resize 0 (max (length dst) (off + w)) dst :: bytes"
  have put: "BIGNUMSerialize_SetNumber dst off w v = vec_write off ?o ?d"
    using BIGNUMSerialize_SetNumber_eq v w bound by blast
  have lo: "length ?o = w" and val: "BN_bin2bn ?o = v" using octets [OF v] by auto
  then have fits: "off + length ?o \<le> length ?d" by simp
  show "length (BIGNUMSerialize_SetNumber dst off w v) = max (length dst) (off + w)"
    using fits by (simp only: put length_vec_write length_vec_resize)
  show "subvec o2 n (BIGNUMSerialize_SetNumber dst off w v) = subvec o2 n dst"
    if "o2 + n \<le> length dst" "o2 + n \<le> off \<or> off + w \<le> o2"
    using subvec_vec_write_other [OF fits, of o2 n] that lo
    by (simp only: put) (simp add: subvec_vec_resize)
  have "subvec off w (BIGNUMSerialize_SetNumber dst off w v) = ?o"
    using subvec_vec_write [OF fits] by (simp only: put lo)
  moreover have "length (BIGNUMSerialize_SetNumber dst off w v) = max (length dst) (off + w)"
    using fits by (simp only: put length_vec_write length_vec_resize)
  ultimately show "BIGNUMSerialize_GetNumber (BIGNUMSerialize_SetNumber dst off w v) off w = Some v"
    using bound val by (simp add: BIGNUMSerialize_GetNumber_def)
next
  fix off and x y :: bytes
  assume "off + w < 2 ^ 32" "off + w \<le> length x" "off + w \<le> length y"
    "subvec off w x = subvec off w y"
  then show "BIGNUMSerialize_GetNumber x off w = BIGNUMSerialize_GetNumber y off w"
    by (simp add: BIGNUMSerialize_GetNumber_def)
qed

interpretation bn32: byte_field "\<lambda>dst off. BIGNUMSerialize_SetNumber dst off 32"
  "\<lambda>src off. BIGNUMSerialize_GetNumber src off 32" 32 "bn_fits 32"
  by (rule bignum_field) simp

interpretation bn33: byte_field "\<lambda>dst off. BIGNUMSerialize_SetNumber dst off 33"
  "\<lambda>src off. BIGNUMSerialize_GetNumber src off 33" 33 "bn_fits 33"
  by (rule bignum_field) simp

section \<open>Properties\<close>

text \<open>a number that fits its field, written by \<open>BIGNUMSerialize::SetNumber\<close> at any offset of any
  stream, is read back by \<open>GetNumber\<close>, and no byte of the stream outside the field changes.\<close>

lemma BIGNUMSerialize_roundtrip:
  assumes "bn_fits w v" "w < 2 ^ 31" "offset + w < 2 ^ 32"
  shows "BIGNUMSerialize_GetNumber (BIGNUMSerialize_SetNumber dst offset w v) offset w = Some v
    \<and> length (BIGNUMSerialize_SetNumber dst offset w v) = max (length dst) (offset + w)
    \<and> (\<forall>o2 n. o2 + n \<le> length dst \<and> (o2 + n \<le> offset \<or> offset + w \<le> o2)
         \<longrightarrow> subvec o2 n (BIGNUMSerialize_SetNumber dst offset w v) = subvec o2 n dst)"
  using byte_field.get_put [OF bignum_field [OF assms(2)] assms(1,3)]
    byte_field.put_length [OF bignum_field [OF assms(2)] assms(1,3)]
    byte_field.put_frame [OF bignum_field [OF assms(2)] assms(1,3)] by simp

text \<open>Whatever offset and size it is given, \<open>BIGNUMSerialize::GetNumber\<close> either reports failure or
  reads inside the stream: the test against wrap-around closes every case.\<close>

lemma BIGNUMSerialize_GetNumber_safe:
  assumes "BIGNUMSerialize_GetNumber src offset sz = Some v"
    and "offset < 2 ^ 32" "sz < 2 ^ 32"
  shows "offset + sz \<le> length src \<and> v = BN_bin2bn (subvec offset sz src)"
proof -
  have no_wrap: "u32 (offset + sz) = offset + sz" if "\<not> u32 (offset + sz) < sz"
  proof (cases "offset + sz < 2 ^ 32")
    case False
    then have "(offset + sz) mod 2 ^ 32 = offset + sz - 2 ^ 32"
      using assms(2,3) by (simp add: le_mod_geq)
    then have "u32 (offset + sz) < sz" using False assms(2) by (simp add: u32_def)
    with that show ?thesis by simp
  qed simp
  then show ?thesis using assms(1) by (auto simp: BIGNUMSerialize_GetNumber_def split: if_splits)
qed

end
