(* ===== verification/OpenSSL.thy ===== *)
theory OpenSSL
  imports ByteCodec
begin

text \<open>
  The elliptic-curve and hash primitives that \<open>libCrypto\<close> calls, as a parameter of the model.
  The record lists the OpenSSL functions the sources use on \<open>secp256k1\<close>; a function that
  reports failure by returning 0 or a null pointer returns \<open>None\<close> here, so the failure branches
  of the sources stay in the model. Allocation (\<open>BN_new\<close>, \<open>EC_POINT_new\<close>, \<open>BN_CTX_new\<close>) and
  copying (\<open>BN_copy\<close>, \<open>EC_POINT_copy\<close>) can only fail when memory is exhausted and are taken to
  succeed. \<open>openssl_ok\<close> states the documented behaviour the sources rely on: \<open>g k\<close> is the
  point \<open>k * G\<close> of a cyclic group whose order is \<open>EC_GROUP_get_order\<close>.

  The theory also has the wrapper \<open>libCrypto/Sha2.h\<close> and \<open>libCrypto/ECPOINTSerialize.cpp\<close>.
\<close>

record 'pt openssl =
  ec_order :: int
  EC_POINT_new :: 'pt
  EC_POINT_mul :: "int \<Rightarrow> ('pt \<times> int) option \<Rightarrow> 'pt option"
  EC_POINT_add :: "'pt \<Rightarrow> 'pt \<Rightarrow> 'pt option"
  EC_POINT_is_at_infinity :: "'pt \<Rightarrow> bool"
  EC_POINT_cmp :: "'pt \<Rightarrow> 'pt \<Rightarrow> int"
  EC_POINT_point2oct :: "'pt \<Rightarrow> bytes"
  EC_POINT_point2bn :: "'pt \<Rightarrow> int option"
  EC_POINT_bn2point :: "int \<Rightarrow> 'pt option"
  BN_nnmod :: "int \<Rightarrow> int \<Rightarrow> int option"
  BN_mod_mul :: "int \<Rightarrow> int \<Rightarrow> int \<Rightarrow> int option"
  BN_mod_sub :: "int \<Rightarrow> int \<Rightarrow> int \<Rightarrow> int option"
  BN_mod_add :: "int \<Rightarrow> int \<Rightarrow> int \<Rightarrow> int option"
  SHA256 :: "bytes \<Rightarrow> bytes"

text \<open>The schemes of this development need the order to exceed one; \<open>secp256k1\<close>'s is a prime
  of 256 bits, hence the bound. Primality is asked for separately where a proof needs it.\<close>

definition openssl_ok :: "'pt openssl \<Rightarrow> (int \<Rightarrow> 'pt) \<Rightarrow> bool" where
  "openssl_ok B g \<longleftrightarrow>
     1 < ec_order B \<and> ec_order B < 2 ^ 256
     \<and> (\<forall>k k'. g k = g k' \<longleftrightarrow> k mod ec_order B = k' mod ec_order B)
     \<and> (\<forall>k. EC_POINT_mul B k None = Some (g k))
     \<and> (\<forall>s a r. EC_POINT_mul B s (Some (g a, r)) = Some (g (s + r * a)))
     \<and> (\<forall>a b. EC_POINT_add B (g a) (g b) = Some (g (a + b)))
     \<and> (\<forall>k. EC_POINT_is_at_infinity B (g k) \<longleftrightarrow> k mod ec_order B = 0)
     \<and> (\<forall>a b. EC_POINT_cmp B (g a) (g b) = 0 \<longleftrightarrow> g a = g b)
     \<and> (\<forall>k. k mod ec_order B \<noteq> 0 \<longrightarrow> length (EC_POINT_point2oct B (g k)) = 33)
     \<and> (\<forall>a m. m > 0 \<longrightarrow> BN_nnmod B a m = Some (a mod m))
     \<and> (\<forall>a b m. m > 0 \<longrightarrow> BN_mod_mul B a b m = Some (a * b mod m))
     \<and> (\<forall>a b m. m > 0 \<longrightarrow> BN_mod_sub B a b m = Some ((a - b) mod m))
     \<and> (\<forall>a b m. m > 0 \<longrightarrow> BN_mod_add B a b m = Some ((a + b) mod m))"

text \<open>Compressed points as numbers: 33 octets, and reading them back.\<close>

definition openssl_points_ok :: "'pt openssl \<Rightarrow> ('pt \<Rightarrow> bool) \<Rightarrow> bool" where
  "openssl_points_ok B enc \<longleftrightarrow>
     (\<forall>p. enc p \<longrightarrow> (\<exists>v. EC_POINT_point2bn B p = Some v \<and> bn_fits 33 v
                      \<and> EC_POINT_bn2point B v = Some p))"

section \<open>SHA2 (libCrypto/Sha2.h)\<close>

text \<open>The context is the octet string hashed so far.\<close>

definition SHA2_Reset :: bytes where
  "SHA2_Reset = []"

definition SHA2_Update :: "bytes \<Rightarrow> bytes \<Rightarrow> bytes" where
  "SHA2_Update context input = (if length input = 0 then context else context @ input)"

text \<open>The ranged update aborts (\<open>LOG_GENERAL(FATAL)\<close>) when its range check fails. The check
  adds two \<open>unsigned int\<close>s, so a range that wraps past \<open>2 ^ 32\<close> can pass it and read outside the
  vector; both cases are \<open>None\<close>.\<close>

definition SHA2_Update_range :: "bytes \<Rightarrow> bytes \<Rightarrow> nat \<Rightarrow> nat \<Rightarrow> bytes option" where
  "SHA2_Update_range context input offset sz =
     (if u32 (offset + sz) > length input then None
      else if offset + sz > length input then None
      else Some (context @ subvec offset sz input))"

definition SHA2_Finalize :: "'pt openssl \<Rightarrow> bytes \<Rightarrow> bytes" where
  "SHA2_Finalize B context = SHA256 B context"

lemma SHA2_Update_append [simp]: "SHA2_Update c i = c @ i"
  by (simp add: SHA2_Update_def)

lemma SHA2_Update_range_Some:
  "offset + sz < 2 ^ 32 \<Longrightarrow> offset + sz \<le> length input
   \<Longrightarrow> SHA2_Update_range c input offset sz = Some (c @ subvec offset sz input)"
  by (simp add: SHA2_Update_range_def)

lemma SHA2_Update_range_whole [simp]:
  "length input < 4294967296 \<Longrightarrow> SHA2_Update_range c input 0 (length input) = Some (c @ input)"
  by (simp add: SHA2_Update_range_def)

section \<open>ECPOINTSerialize (libCrypto/ECPOINTSerialize.cpp)\<close>

definition ECPOINTSerialize_GetNumber :: "'pt openssl \<Rightarrow> bytes \<Rightarrow> nat \<Rightarrow> nat \<Rightarrow> 'pt option" where
  "ECPOINTSerialize_GetNumber B src offset sz =
     (case BIGNUMSerialize_GetNumber src offset sz of
        None \<Rightarrow> None
      | Some bnvalue \<Rightarrow> EC_POINT_bn2point B bnvalue)"

definition ECPOINTSerialize_SetNumber :: "'pt openssl \<Rightarrow> bytes \<Rightarrow> nat \<Rightarrow> nat \<Rightarrow> 'pt \<Rightarrow> bytes" where
  "ECPOINTSerialize_SetNumber B dst offset sz v =
     (case EC_POINT_point2bn B v of
        None \<Rightarrow> dst
      | Some bnvalue \<Rightarrow> BIGNUMSerialize_SetNumber dst offset sz bnvalue)"

lemma ecpoint_field:
  assumes "openssl_points_ok B enc"
  shows "byte_field (\<lambda>dst off. ECPOINTSerialize_SetNumber B dst off 33)
    (\<lambda>src off. ECPOINTSerialize_GetNumber B src off 33) 33 enc"
proof
  fix v and off o2 n :: nat and dst :: bytes
  assume "enc v" and bound: "off + 33 < 2 ^ 32"
  with assms obtain b where b: "EC_POINT_point2bn B v = Some b" "bn_fits 33 b"
      "EC_POINT_bn2point B b = Some v"
    unfolding openssl_points_ok_def by blast
  have put: "ECPOINTSerialize_SetNumber B dst off 33 v = BIGNUMSerialize_SetNumber dst off 33 b"
    by (simp add: ECPOINTSerialize_SetNumber_def b)
  show "length (ECPOINTSerialize_SetNumber B dst off 33 v) = max (length dst) (off + 33)"
    unfolding put by (rule bn33.put_length) (use b bound in auto)
  show "subvec o2 n (ECPOINTSerialize_SetNumber B dst off 33 v) = subvec o2 n dst"
    if "o2 + n \<le> length dst" "o2 + n \<le> off \<or> off + 33 \<le> o2"
    unfolding put by (rule bn33.put_frame) (use b bound that in auto)
  show "ECPOINTSerialize_GetNumber B (ECPOINTSerialize_SetNumber B dst off 33 v) off 33 = Some v"
    unfolding put ECPOINTSerialize_GetNumber_def
    using bn33.get_put [of b off dst] b bound by simp
next
  fix off and x y :: bytes
  assume "off + 33 < 2 ^ 32" "off + 33 \<le> length x" "off + 33 \<le> length y"
    "subvec off 33 x = subvec off 33 y"
  then have "BIGNUMSerialize_GetNumber x off 33 = BIGNUMSerialize_GetNumber y off 33"
    by (rule bn33.get_local)
  then show "ECPOINTSerialize_GetNumber B x off 33 = ECPOINTSerialize_GetNumber B y off 33"
    by (simp add: ECPOINTSerialize_GetNumber_def)
qed

section \<open>Facts about the group\<close>

named_theorems ossl \<open>the primitives on points of the form k * G\<close>

lemma openssl_order [ossl]:
  "openssl_ok B g \<Longrightarrow> 0 < ec_order B" "openssl_ok B g \<Longrightarrow> ec_order B < 2 ^ 256"
  by (auto simp: openssl_ok_def)

lemma openssl_mul_base [ossl]: "openssl_ok B g \<Longrightarrow> EC_POINT_mul B k None = Some (g k)"
  by (simp add: openssl_ok_def)

lemma openssl_mul2 [ossl]:
  "openssl_ok B g \<Longrightarrow> EC_POINT_mul B s (Some (g a, r)) = Some (g (s + r * a))"
  by (simp add: openssl_ok_def)

lemma openssl_add [ossl]: "openssl_ok B g \<Longrightarrow> EC_POINT_add B (g a) (g b) = Some (g (a + b))"
  by (simp add: openssl_ok_def)

lemma openssl_infinity [ossl]:
  "openssl_ok B g \<Longrightarrow> EC_POINT_is_at_infinity B (g k) \<longleftrightarrow> k mod ec_order B = 0"
  by (simp add: openssl_ok_def)

lemma openssl_cmp [ossl]: "openssl_ok B g \<Longrightarrow> EC_POINT_cmp B (g a) (g b) = 0 \<longleftrightarrow> g a = g b"
  by (simp add: openssl_ok_def)

lemma openssl_oct [ossl]:
  "openssl_ok B g \<Longrightarrow> k mod ec_order B \<noteq> 0 \<Longrightarrow> length (EC_POINT_point2oct B (g k)) = 33"
  by (simp add: openssl_ok_def)

lemma openssl_bn [ossl]:
  assumes "openssl_ok B g"
  shows "BN_nnmod B a (ec_order B) = Some (a mod ec_order B)"
    and "BN_mod_mul B a b (ec_order B) = Some (a * b mod ec_order B)"
    and "BN_mod_sub B a b (ec_order B) = Some ((a - b) mod ec_order B)"
    and "BN_mod_add B a b (ec_order B) = Some ((a + b) mod ec_order B)"
  using assms by (simp_all add: openssl_ok_def)

lemma openssl_point_eq:
  "openssl_ok B g \<Longrightarrow> g k = g k' \<longleftrightarrow> k mod ec_order B = k' mod ec_order B"
  by (simp add: openssl_ok_def)

text \<open>The point of a scalar only depends on the scalar modulo the order, which is how a
  response \<open>k - c * d\<close> computed modulo the order regenerates the commitment.\<close>

lemma response_regenerates:
  assumes "openssl_ok B g"
  shows "g ((k - c * d mod ec_order B) mod ec_order B + c * d) = g k"
  unfolding openssl_point_eq [OF assms]
  by (metis add.commute diff_add_cancel mod_add_left_eq mod_diff_right_eq)

section \<open>A small instance\<close>

text \<open>
  The additive group of the integers modulo 13 with a toy digest satisfies both conditions.
  It serves to evaluate the schemes on concrete inputs.
\<close>

definition toy_oct :: "int \<Rightarrow> bytes" where
  "toy_oct p = (if p mod 13 = 0 then [0] else replicate 32 2 @ [of_int (p mod 13)])"

definition toy_digest :: "bytes \<Rightarrow> bytes" where
  "toy_digest bs = [of_nat (sum_list (map unat bs) mod 11 + 1)]"

definition toy :: "int openssl" where
  "toy = \<lparr>ec_order = 13, EC_POINT_new = 0,
     EC_POINT_mul = (\<lambda>k q. Some ((case q of None \<Rightarrow> k | Some (p, r) \<Rightarrow> k + r * p) mod 13)),
     EC_POINT_add = (\<lambda>a b. Some ((a + b) mod 13)),
     EC_POINT_is_at_infinity = (\<lambda>p. p mod 13 = 0),
     EC_POINT_cmp = (\<lambda>a b. if a = b then 0 else 1),
     EC_POINT_point2oct = toy_oct,
     EC_POINT_point2bn = (\<lambda>p. Some (p mod 13)),
     EC_POINT_bn2point = (\<lambda>v. Some (v mod 13)),
     BN_nnmod = (\<lambda>a m. Some (a mod m)),
     BN_mod_mul = (\<lambda>a b m. Some (a * b mod m)),
     BN_mod_sub = (\<lambda>a b m. Some ((a - b) mod m)),
     BN_mod_add = (\<lambda>a b m. Some ((a + b) mod m)),
     SHA256 = toy_digest\<rparr>"

lemma mod_13_mul: "(s + r * (a mod 13)) mod 13 = (s + r * a) mod (13 :: int)"
  by (metis mod_add_right_eq mod_mult_right_eq)

lemma toy_ok: "openssl_ok toy (\<lambda>k. k mod 13)"
  by (auto simp: openssl_ok_def toy_def toy_oct_def mod_simps mod_13_mul)

lemma toy_points_ok: "openssl_points_ok toy (\<lambda>p. 0 \<le> p \<and> p < 13)"
  by (auto simp: openssl_points_ok_def toy_def bn_fits_def)

lemmas toy_eval = toy_def toy_oct_def toy_digest_def BN_bin2bn_def SHA2_Reset_def SHA2_Finalize_def
  SHA2_Update_range_def subvec_def sum_list_replicate Let_def

end
