(* ===== verification/Schnorr.thy ===== *)
theory Schnorr
  imports OpenSSL
begin

text \<open>
  Keys, signatures and the EC-Schnorr scheme of \<open>libCrypto\<close>: \<open>PrivKey.cpp\<close>, \<open>PubKey.cpp\<close>,
  \<open>Signature.cpp\<close> and \<open>Schnorr.cpp\<close>. A private key is its scalar, a public key its point.
  Randomness is an argument: the list of values \<open>BN_rand_range\<close> or \<open>BN_generate_dsa_nonce\<close>
  return on successive calls (\<open>None\<close> when the call reports failure). The rejection loops consume
  that list, so running out of draws is a value of the result type and the theorems say which
  draws make the loop return.
\<close>

section \<open>Keys\<close>

type_synonym PrivKey = int
type_synonym 'pt PubKey = 'pt

text \<open>\<open>PrivKey()\<close>: draw until the scalar is not zero; a failed draw leaves the last value.\<close>

fun PrivKey_generate :: "int \<Rightarrow> int option list \<Rightarrow> PrivKey option" where
  "PrivKey_generate m_d [] = None"
| "PrivKey_generate m_d (None # draws) = Some m_d"
| "PrivKey_generate m_d (Some v # draws) = (if v = 0 then PrivKey_generate v draws else Some v)"

definition PrivKey_Serialize :: "bytes \<Rightarrow> nat \<Rightarrow> PrivKey \<Rightarrow> bytes \<times> nat" where
  "PrivKey_Serialize dst offset m_d = (BIGNUMSerialize_SetNumber dst offset 32 m_d, 32)"

text \<open>\<open>Deserialize\<close> returns -1 and keeps the old scalar when the number cannot be read.\<close>

definition PrivKey_Deserialize :: "PrivKey \<Rightarrow> bytes \<Rightarrow> nat \<Rightarrow> PrivKey \<times> int" where
  "PrivKey_Deserialize m_d src offset =
     (case BIGNUMSerialize_GetNumber src offset 32 of
        None \<Rightarrow> (m_d, -1)
      | Some result \<Rightarrow> (result, 0))"

definition PrivKey_from_bytes :: "bytes \<Rightarrow> nat \<Rightarrow> PrivKey" where
  "PrivKey_from_bytes src offset = fst (PrivKey_Deserialize 0 src offset)"

definition PrivKey_eq :: "PrivKey \<Rightarrow> PrivKey \<Rightarrow> bool" where
  "PrivKey_eq l r \<longleftrightarrow> l = r"

definition PubKey_default :: "'pt openssl \<Rightarrow> 'pt PubKey" where
  "PubKey_default B = EC_POINT_new B"

definition PubKey_from_PrivKey :: "'pt openssl \<Rightarrow> PrivKey \<Rightarrow> 'pt PubKey" where
  "PubKey_from_PrivKey B privkey =
     (if privkey = 0 \<or> \<not> privkey < ec_order B then EC_POINT_new B
      else case EC_POINT_mul B privkey None of
             None \<Rightarrow> EC_POINT_new B
           | Some P \<Rightarrow> P)"

definition PubKey_Serialize :: "'pt openssl \<Rightarrow> bytes \<Rightarrow> nat \<Rightarrow> 'pt PubKey \<Rightarrow> bytes \<times> nat" where
  "PubKey_Serialize B dst offset m_P = (ECPOINTSerialize_SetNumber B dst offset 33 m_P, 33)"

definition PubKey_Deserialize ::
    "'pt openssl \<Rightarrow> 'pt PubKey \<Rightarrow> bytes \<Rightarrow> nat \<Rightarrow> 'pt PubKey \<times> int" where
  "PubKey_Deserialize B m_P src offset =
     (case ECPOINTSerialize_GetNumber B src offset 33 of
        None \<Rightarrow> (m_P, -1)
      | Some result \<Rightarrow> (result, 0))"

definition PubKey_from_bytes :: "'pt openssl \<Rightarrow> bytes \<Rightarrow> nat \<Rightarrow> 'pt PubKey" where
  "PubKey_from_bytes B src offset = fst (PubKey_Deserialize B (EC_POINT_new B) src offset)"

text \<open>The comparison operators read both points as compressed numbers. \<open>None\<close> stands for a failed allocation in OpenSSL, where
  the code logs a fatal error and aborts; the operators below go on with false there, as the source is written. The points
  of \<open>openssl_points_ok\<close> never give \<open>None\<close>.\<close>

definition PubKey_comparePreChecks ::
    "'pt openssl \<Rightarrow> 'pt PubKey \<Rightarrow> 'pt PubKey \<Rightarrow> (int \<times> int) option" where
  "PubKey_comparePreChecks B l r =
     (case (EC_POINT_point2bn B l, EC_POINT_point2bn B r) of
        (Some lhs, Some rhs) \<Rightarrow> Some (lhs, rhs) | _ \<Rightarrow> None)"

definition PubKey_less :: "'pt openssl \<Rightarrow> 'pt PubKey \<Rightarrow> 'pt PubKey \<Rightarrow> bool" where
  "PubKey_less B l r =
     (case PubKey_comparePreChecks B l r of None \<Rightarrow> False | Some (a, b) \<Rightarrow> a < b)"

definition PubKey_greater :: "'pt openssl \<Rightarrow> 'pt PubKey \<Rightarrow> 'pt PubKey \<Rightarrow> bool" where
  "PubKey_greater B l r = PubKey_less B r l"

definition PubKey_eq :: "'pt openssl \<Rightarrow> 'pt PubKey \<Rightarrow> 'pt PubKey \<Rightarrow> bool" where
  "PubKey_eq B l r =
     (case PubKey_comparePreChecks B l r of None \<Rightarrow> False | Some (a, b) \<Rightarrow> a = b)"

definition GenKeyPair :: "'pt openssl \<Rightarrow> int option list \<Rightarrow> (PrivKey \<times> 'pt PubKey) option" where
  "GenKeyPair B draws =
     (case PrivKey_generate 0 draws of
        None \<Rightarrow> None
      | Some privkey \<Rightarrow> Some (privkey, PubKey_from_PrivKey B privkey))"

section \<open>Signatures (libCrypto/Signature.cpp)\<close>

record Signature =
  m_r :: int
  m_s :: int

definition Signature_default :: Signature where
  "Signature_default = \<lparr>m_r = 0, m_s = 0\<rparr>"

definition Signature_Serialize :: "bytes \<Rightarrow> nat \<Rightarrow> Signature \<Rightarrow> bytes \<times> nat" where
  "Signature_Serialize dst offset sig =
     (let dst1 = BIGNUMSerialize_SetNumber dst offset 32 (m_r sig);
          dst2 = BIGNUMSerialize_SetNumber dst1 (u32 (offset + 32)) 32 (m_s sig)
      in (dst2, 64))"

definition Signature_Deserialize :: "Signature \<Rightarrow> bytes \<Rightarrow> nat \<Rightarrow> Signature \<times> int" where
  "Signature_Deserialize sig src offset =
     (case (BIGNUMSerialize_GetNumber src offset 32,
            BIGNUMSerialize_GetNumber src (u32 (offset + 32)) 32) of
        (Some result_r, Some result_s) \<Rightarrow> (\<lparr>m_r = result_r, m_s = result_s\<rparr>, 0)
      | _ \<Rightarrow> (sig, -1))"

definition Signature_from_bytes :: "bytes \<Rightarrow> nat \<Rightarrow> Signature" where
  "Signature_from_bytes src offset = fst (Signature_Deserialize Signature_default src offset)"

definition Signature_eq :: "Signature \<Rightarrow> Signature \<Rightarrow> bool" where
  "Signature_eq l r \<longleftrightarrow> m_r l = m_r r \<and> m_s l = m_s r"

section \<open>Sign and Verify (libCrypto/Schnorr.cpp)\<close>

datatype sign_result =
    SignTrue Signature
  | SignFalse
  | SignOutOfDraws
  | SignFault

fun Schnorr_Sign_loop ::
    "'pt openssl \<Rightarrow> bytes \<Rightarrow> nat \<Rightarrow> nat \<Rightarrow> PrivKey \<Rightarrow> 'pt PubKey \<Rightarrow> int option list \<Rightarrow> sign_result" where
  "Schnorr_Sign_loop B message offset sz privkey pubkey [] = SignOutOfDraws"
| "Schnorr_Sign_loop B message offset sz privkey pubkey (None # draws) = SignFalse"
| "Schnorr_Sign_loop B message offset sz privkey pubkey (Some k # draws) =
     (if k = 0 then Schnorr_Sign_loop B message offset sz privkey pubkey draws
      else
        (case EC_POINT_mul B k None of
           None \<Rightarrow> SignFalse
         | Some Q \<Rightarrow>
             if length (EC_POINT_point2oct B Q) \<noteq> 33 then SignFalse
             else if length (EC_POINT_point2oct B pubkey) \<noteq> 33 then SignFalse
             else
               let sha2 = SHA2_Update (SHA2_Update SHA2_Reset (EC_POINT_point2oct B Q))
                            (EC_POINT_point2oct B pubkey)
               in (case SHA2_Update_range sha2 message offset sz of
                     None \<Rightarrow> SignFault
                   | Some sha2' \<Rightarrow>
                       let digest = SHA2_Finalize B sha2'
                       in (case BN_nnmod B (BN_bin2bn digest) (ec_order B) of
                             None \<Rightarrow> SignFalse
                           | Some r \<Rightarrow>
                               (case BN_mod_mul B r privkey (ec_order B) of
                                  None \<Rightarrow> SignFalse
                                | Some rd \<Rightarrow>
                                    (case BN_mod_sub B k rd (ec_order B) of
                                       None \<Rightarrow> SignFalse
                                     | Some s \<Rightarrow>
                                         if r = 0 \<or> s = 0
                                         then Schnorr_Sign_loop B message offset sz privkey pubkey draws
                                         else SignTrue \<lparr>m_r = r, m_s = s\<rparr>))))))"

definition Schnorr_Sign_range ::
    "'pt openssl \<Rightarrow> bytes \<Rightarrow> nat \<Rightarrow> nat \<Rightarrow> PrivKey \<Rightarrow> 'pt PubKey \<Rightarrow> int option list \<Rightarrow> sign_result" where
  "Schnorr_Sign_range B message offset sz privkey pubkey draws =
     (if length message = 0 then SignFalse
      else if length message < u32 (offset + sz) then SignFalse
      else Schnorr_Sign_loop B message offset sz privkey pubkey draws)"

definition Schnorr_Sign ::
    "'pt openssl \<Rightarrow> bytes \<Rightarrow> PrivKey \<Rightarrow> 'pt PubKey \<Rightarrow> int option list \<Rightarrow> sign_result" where
  "Schnorr_Sign B message privkey pubkey draws =
     Schnorr_Sign_range B message 0 (u32 (length message)) privkey pubkey draws"

text \<open>\<open>None\<close> is the read outside the message described at \<open>SHA2_Update_range\<close>.\<close>

definition Schnorr_Verify_range ::
    "'pt openssl \<Rightarrow> bytes \<Rightarrow> nat \<Rightarrow> nat \<Rightarrow> Signature \<Rightarrow> 'pt PubKey \<Rightarrow> bool option" where
  "Schnorr_Verify_range B message offset sz toverify pubkey =
     (if length message = 0 then Some False
      else if length message < u32 (offset + sz) then Some False
      else if m_r toverify = 0 \<or> m_r toverify < 0 \<or> \<not> m_r toverify < ec_order B then Some False
      else if m_s toverify = 0 \<or> m_s toverify < 0 \<or> \<not> m_s toverify < ec_order B then Some False
      else
        (case EC_POINT_mul B (m_s toverify) (Some (pubkey, m_r toverify)) of
           None \<Rightarrow> Some False
         | Some Q \<Rightarrow>
             if EC_POINT_is_at_infinity B Q then Some False
             else if length (EC_POINT_point2oct B Q) \<noteq> 33 then Some False
             else if length (EC_POINT_point2oct B pubkey) \<noteq> 33 then Some False
             else
               let sha2 = SHA2_Update (SHA2_Update SHA2_Reset (EC_POINT_point2oct B Q))
                            (EC_POINT_point2oct B pubkey)
               in (case SHA2_Update_range sha2 message offset sz of
                     None \<Rightarrow> None
                   | Some sha2' \<Rightarrow>
                       (case BN_nnmod B (BN_bin2bn (SHA2_Finalize B sha2')) (ec_order B) of
                          None \<Rightarrow> Some False
                        | Some challenge_built \<Rightarrow> Some (challenge_built = m_r toverify)))))"

definition Schnorr_Verify :: "'pt openssl \<Rightarrow> bytes \<Rightarrow> Signature \<Rightarrow> 'pt PubKey \<Rightarrow> bool option" where
  "Schnorr_Verify B message toverify pubkey =
     Schnorr_Verify_range B message 0 (u32 (length message)) toverify pubkey"

section \<open>Serialisation of signatures and keys\<close>

interpretation sigf: two_fields
  "\<lambda>dst off. BIGNUMSerialize_SetNumber dst off 32" "\<lambda>src off. BIGNUMSerialize_GetNumber src off 32"
  32 "bn_fits 32"
  "\<lambda>dst off. BIGNUMSerialize_SetNumber dst off 32" "\<lambda>src off. BIGNUMSerialize_GetNumber src off 32"
  32 "bn_fits 32"
  by unfold_locales

definition Signature_fits :: "Signature \<Rightarrow> bool" where
  "Signature_fits sig \<longleftrightarrow> bn_fits 32 (m_r sig) \<and> bn_fits 32 (m_s sig)"

lemma Signature_Serialize_pair:
  "offset + 64 < 2 ^ 32 \<Longrightarrow>
   Signature_Serialize dst offset sig = (sigf.put_pair dst offset (m_r sig, m_s sig), 64)"
  by (simp add: Signature_Serialize_def sigf.put_pair_def)

lemma Signature_Deserialize_pair:
  "offset + 64 < 2 ^ 32 \<Longrightarrow> sigf.get_pair src offset = Some (r, s) \<Longrightarrow>
   Signature_Deserialize sig src offset = (\<lparr>m_r = r, m_s = s\<rparr>, 0)"
  by (auto simp: Signature_Deserialize_def sigf.get_pair_def split: option.splits)

lemma Signature_roundtrip_aux:
  assumes "Signature_fits sig" "offset + 64 < 2 ^ 32"
  shows "Signature_Deserialize old (fst (Signature_Serialize dst offset sig)) offset = (sig, 0)"
    and "length (fst (Signature_Serialize dst offset sig)) = max (length dst) (offset + 64)"
proof -
  have ok: "sigf.ok_pair (m_r sig, m_s sig)"
    using assms(1) by (simp add: sigf.ok_pair_def Signature_fits_def)
  have "sigf.get_pair (sigf.put_pair dst offset (m_r sig, m_s sig)) offset = Some (m_r sig, m_s sig)"
    by (rule sigf.pair_get_put [OF ok]) (use assms(2) in simp)
  then show "Signature_Deserialize old (fst (Signature_Serialize dst offset sig)) offset = (sig, 0)"
    using assms(2) by (simp add: Signature_Serialize_pair Signature_Deserialize_pair)
  show "length (fst (Signature_Serialize dst offset sig)) = max (length dst) (offset + 64)"
    using sigf.pair_length [OF ok, of offset dst] assms(2) by (simp add: Signature_Serialize_pair)
qed

lemma Signature_Serialize_frame:
  assumes "Signature_fits sig" "offset + 64 < 2 ^ 32" "o2 + n \<le> length dst" "o2 + n \<le> offset"
  shows "subvec o2 n (fst (Signature_Serialize dst offset sig)) = subvec o2 n dst"
  using sigf.pair.put_frame [of "(m_r sig, m_s sig)" offset o2 n dst] assms
  by (simp add: Signature_Serialize_pair sigf.ok_pair_def Signature_fits_def)

section \<open>Correctness of the scheme\<close>

text \<open>The challenge both sides compute.\<close>

definition schnorr_challenge :: "'pt openssl \<Rightarrow> 'pt \<Rightarrow> 'pt \<Rightarrow> bytes \<Rightarrow> int" where
  "schnorr_challenge B Q pubkey part =
     BN_bin2bn (SHA256 B (EC_POINT_point2oct B Q @ EC_POINT_point2oct B pubkey @ part)) mod ec_order B"

lemma Schnorr_Verify_range_iff:
  assumes B: "openssl_ok B g" and P: "d mod ec_order B \<noteq> 0"
    and range: "offset + sz < 2 ^ 32" "offset + sz \<le> length message" "message \<noteq> []"
  shows "Schnorr_Verify_range B message offset sz sig (g d) = Some True \<longleftrightarrow>
    (0 < m_r sig \<and> m_r sig < ec_order B \<and> 0 < m_s sig \<and> m_s sig < ec_order B
     \<and> (m_s sig + m_r sig * d) mod ec_order B \<noteq> 0
     \<and> schnorr_challenge B (g (m_s sig + m_r sig * d)) (g d) (subvec offset sz message) = m_r sig)"
proof -
  have guard: "\<not> length message < u32 (offset + sz)" using range by simp
  have oct: "length (EC_POINT_point2oct B (g d)) = 33" using openssl_oct [OF B P] .
  show ?thesis
    using range guard oct openssl_oct [OF B, of "m_s sig + m_r sig * d"]
    by (auto simp: Schnorr_Verify_range_def openssl_mul2 [OF B] openssl_infinity [OF B]
        openssl_bn [OF B] SHA2_Update_range_Some SHA2_Finalize_def SHA2_Reset_def schnorr_challenge_def)
qed

lemma Schnorr_Verify_range_total:
  "offset + sz < 2 ^ 32 \<Longrightarrow> Schnorr_Verify_range B message offset sz sig pubkey \<noteq> None"
  by (auto simp: Schnorr_Verify_range_def SHA2_Update_range_def Let_def split: option.splits)

text \<open>One iteration of the signing loop on working primitives.\<close>

lemma Schnorr_Sign_step:
  assumes B: "openssl_ok B g" and P: "d mod ec_order B \<noteq> 0" and k: "0 < k" "k < ec_order B"
    and range: "offset + sz < 2 ^ 32" "offset + sz \<le> length message"
  shows "Schnorr_Sign_loop B message offset sz d (g d) (Some k # draws) =
    (let r = schnorr_challenge B (g k) (g d) (subvec offset sz message);
         s = (k - r * d mod ec_order B) mod ec_order B
     in if r = 0 \<or> s = 0 then Schnorr_Sign_loop B message offset sz d (g d) draws
        else SignTrue \<lparr>m_r = r, m_s = s\<rparr>)"
proof -
  have "k mod ec_order B \<noteq> 0" using k by simp
  then show ?thesis
    using k openssl_oct [OF B, of k] openssl_oct [OF B P]
    by (simp add: openssl_mul_base [OF B] openssl_bn [OF B] SHA2_Update_range_Some [OF range]
        SHA2_Finalize_def SHA2_Reset_def schnorr_challenge_def Let_def)
qed

lemma schnorr_honest_accepts:
  assumes B: "openssl_ok B g" and P: "d mod ec_order B \<noteq> 0" and k: "k mod ec_order B \<noteq> 0"
    and range: "offset + sz < 2 ^ 32" "offset + sz \<le> length message" "message \<noteq> []"
    and r: "r = schnorr_challenge B (g k) (g d) (subvec offset sz message)" "r \<noteq> 0"
    and s: "s = (k - r * d mod ec_order B) mod ec_order B" "s \<noteq> 0"
  shows "Schnorr_Verify_range B message offset sz \<lparr>m_r = r, m_s = s\<rparr> (g d) = Some True"
proof -
  have n: "0 < ec_order B" by (rule openssl_order [OF B])
  have "0 \<le> r \<and> r < ec_order B" using n by (simp add: r(1) schnorr_challenge_def)
  then have r': "0 < r" "r < ec_order B" using r(2) by auto
  have "0 \<le> s \<and> s < ec_order B" using n by (simp add: s(1))
  then have s': "0 < s" "s < ec_order B" using s(2) by auto
  have Q: "g (s + r * d) = g k"
    unfolding s(1) by (rule response_regenerates [OF B])
  then have "(s + r * d) mod ec_order B \<noteq> 0"
    using k by (simp add: openssl_point_eq [OF B])
  then show ?thesis
    unfolding Schnorr_Verify_range_iff [OF B P range] using r' s' Q r(1) [symmetric] by simp
qed

lemma Schnorr_Sign_loop_verifies:
  assumes B: "openssl_ok B g" and P: "d mod ec_order B \<noteq> 0"
    and range: "offset + sz < 2 ^ 32" "offset + sz \<le> length message" "message \<noteq> []"
    and draws: "\<forall>k. Some k \<in> set draws \<longrightarrow> 0 \<le> k \<and> k < ec_order B"
    and sign: "Schnorr_Sign_loop B message offset sz d (g d) draws = SignTrue sig"
  shows "Schnorr_Verify_range B message offset sz sig (g d) = Some True"
  using draws sign
proof (induction draws)
  case (Cons dr draws)
  then have IH: "Schnorr_Sign_loop B message offset sz d (g d) draws = SignTrue sig
      \<Longrightarrow> Schnorr_Verify_range B message offset sz sig (g d) = Some True" by auto
  from Cons.prems obtain k where dr: "dr = Some k" by (cases dr) auto
  with Cons.prems have k: "0 \<le> k" "k < ec_order B" by auto
  show ?case
  proof (cases "k = 0")
    case True
    with Cons.prems dr IH show ?thesis by simp
  next
    case False
    with k have k': "0 < k" by simp
    then have kn: "k mod ec_order B \<noteq> 0" using k by simp
    let ?r = "schnorr_challenge B (g k) (g d) (subvec offset sz message)"
    let ?s = "(k - ?r * d mod ec_order B) mod ec_order B"
    show ?thesis
    proof (cases "?r = 0 \<or> ?s = 0")
      case True
      then show ?thesis using Cons.prems(2) IH
        unfolding dr Schnorr_Sign_step [OF B P k' k(2) range(1,2)] by (simp add: Let_def)
    next
      case False
      then have "sig = \<lparr>m_r = ?r, m_s = ?s\<rparr>" using Cons.prems(2)
        unfolding dr Schnorr_Sign_step [OF B P k' k(2) range(1,2)] by (auto simp: Let_def)
      then show ?thesis using schnorr_honest_accepts [OF B P kn range refl _ refl] False by simp
    qed
  qed
qed simp

text \<open>A draw is good when neither the challenge nor the response it leads to is zero.\<close>

definition good_draw :: "'pt openssl \<Rightarrow> (int \<Rightarrow> 'pt) \<Rightarrow> int \<Rightarrow> bytes \<Rightarrow> int \<Rightarrow> bool" where
  "good_draw B g d part k \<longleftrightarrow>
     (let r = schnorr_challenge B (g k) (g d) part
      in k \<noteq> 0 \<and> r \<noteq> 0 \<and> (k - r * d mod ec_order B) mod ec_order B \<noteq> 0)"

lemma Schnorr_Sign_loop_returns:
  assumes B: "openssl_ok B g" and P: "d mod ec_order B \<noteq> 0"
    and range: "offset + sz < 2 ^ 32" "offset + sz \<le> length message"
    and ks: "\<forall>k \<in> set ks. 0 \<le> k \<and> k < ec_order B"
    and good: "\<exists>k \<in> set ks. good_draw B g d (subvec offset sz message) k"
  shows "\<exists>sig. Schnorr_Sign_loop B message offset sz d (g d) (map Some ks) = SignTrue sig"
  using ks good
proof (induction ks)
  case (Cons k ks)
  show ?case
  proof (cases "k = 0")
    case True
    with Cons show ?thesis by (simp add: good_draw_def)
  next
    case False
    with Cons.prems have k: "0 < k" "k < ec_order B" by auto
    show ?thesis
    proof (cases "good_draw B g d (subvec offset sz message) k")
      case True
      then show ?thesis
        using Schnorr_Sign_step [OF B P k range, of "map Some ks"]
        by (simp add: good_draw_def Let_def)
    next
      case bad: False
      with Cons have "\<exists>sig. Schnorr_Sign_loop B message offset sz d (g d) (map Some ks) = SignTrue sig"
        by simp
      then show ?thesis
        using Schnorr_Sign_step [OF B P k range, of "map Some ks"] bad False
        by (auto simp: good_draw_def Let_def)
    qed
  qed
qed simp

section \<open>Signing and verifying return\<close>

lemma Schnorr_Verify_total [simp]: "Schnorr_Verify B message sig key \<noteq> None"
proof -
  have "u32 (length message) \<le> length message" by (simp add: u32_def)
  then show ?thesis
    by (auto simp: Schnorr_Verify_def Schnorr_Verify_range_def SHA2_Update_range_def Let_def
        split: option.splits)
qed

lemma Schnorr_Sign_loop_no_fault:
  "sz \<le> length message \<Longrightarrow> sz < 2 ^ 32 \<Longrightarrow>
   Schnorr_Sign_loop B message 0 sz d pub draws \<noteq> SignFault"
proof (induction draws)
  case (Cons k draws)
  then have upd: "SHA2_Update_range c message 0 sz = Some (c @ subvec 0 sz message)" for c
    by (simp add: SHA2_Update_range_Some)
  from Cons show ?case
    by (cases k) (auto simp: upd Let_def split: option.splits)
qed simp

lemma Schnorr_Sign_no_fault: "Schnorr_Sign B message d pub draws \<noteq> SignFault"
proof -
  have "u32 (length message) \<le> length message" by (simp add: u32_def)
  moreover have "u32 (length message) < 2 ^ 32" by simp
  ultimately show ?thesis
    by (simp add: Schnorr_Sign_def Schnorr_Sign_range_def Schnorr_Sign_loop_no_fault)
qed

text \<open>Draws with which signing a message of any length ends.\<close>

definition draws_suffice :: "'pt openssl \<Rightarrow> PrivKey \<Rightarrow> 'pt PubKey \<Rightarrow> int option list \<Rightarrow> bool" where
  "draws_suffice B d pub draws \<longleftrightarrow> (\<forall>message. Schnorr_Sign B message d pub draws \<noteq> SignOutOfDraws)"

text \<open>A random source that reports failure does not run out: signing then fails, as the code does.\<close>

lemma Schnorr_Sign_loop_failing_source:
  "None \<in> set ks \<Longrightarrow> Schnorr_Sign_loop B message offset sz d pub ks \<noteq> SignOutOfDraws"
proof (induction ks)
  case (Cons k ks)
  then show ?case by (cases k) (auto simp: Let_def split: option.splits)
qed simp

lemma failing_source_suffices: "None \<in> set ks \<Longrightarrow> draws_suffice B d pub ks"
  by (simp add: draws_suffice_def Schnorr_Sign_def Schnorr_Sign_range_def Schnorr_Sign_loop_failing_source)

section \<open>Properties\<close>

text \<open>C18: every signature \<open>Schnorr::Sign\<close> returns is accepted by \<open>Schnorr::Verify\<close> under the public key
  that belongs to the private key.\<close>

theorem Schnorr_Sign_Verify:
  assumes B: "openssl_ok B g" and d: "0 < d" "d < ec_order B"
    and m: "length message < 2 ^ 32"
    and draws: "\<forall>k. Some k \<in> set draws \<longrightarrow> 0 \<le> k \<and> k < ec_order B"
    and sign: "Schnorr_Sign B message d (PubKey_from_PrivKey B d) draws = SignTrue sig"
  shows "Schnorr_Verify B message sig (PubKey_from_PrivKey B d) = Some True"
proof -
  have pub: "PubKey_from_PrivKey B d = g d"
    using d by (simp add: PubKey_from_PrivKey_def openssl_mul_base [OF B])
  have ne: "message \<noteq> []"
    and loop: "Schnorr_Sign_loop B message 0 (length message) d (g d) draws = SignTrue sig"
    using sign m by (auto simp: Schnorr_Sign_def Schnorr_Sign_range_def pub split: if_splits)
  show ?thesis
    using Schnorr_Sign_loop_verifies [OF B _ _ _ ne draws loop] d m by (simp add: Schnorr_Verify_def pub)
qed

theorem Schnorr_Sign_Verify_witness:
  "Schnorr_Sign toy [5, 6] 3 (PubKey_from_PrivKey toy 3) [Some 0, Some 4] = SignTrue \<lparr>m_r = 4, m_s = 5\<rparr>
   \<and> Schnorr_Verify toy [5, 6] \<lparr>m_r = 4, m_s = 5\<rparr> (PubKey_from_PrivKey toy 3) = Some True"
proof -
  have sign: "Schnorr_Sign toy [5, 6] 3 (PubKey_from_PrivKey toy 3) [Some 0, Some 4]
      = SignTrue \<lparr>m_r = 4, m_s = 5\<rparr>"
    by (simp add: Schnorr_Sign_def Schnorr_Sign_range_def PubKey_from_PrivKey_def toy_eval)
  show ?thesis
    using Schnorr_Sign_Verify [OF toy_ok _ _ _ _ sign] sign by (simp add: toy_def)
qed

text \<open>The rejection loop of \<open>Schnorr::Sign\<close> ends with a signature as soon as one of the nonces drawn
  leads to a challenge and a response that are not zero.\<close>

lemma Schnorr_Sign_returns:
  assumes B: "openssl_ok B g" and d: "0 < d" "d < ec_order B"
    and m: "message \<noteq> []" "length message < 2 ^ 32"
    and ks: "\<forall>k \<in> set ks. 0 \<le> k \<and> k < ec_order B"
    and good: "\<exists>k \<in> set ks. good_draw B g d message k"
  shows "\<exists>sig. Schnorr_Sign B message d (g d) (map Some ks) = SignTrue sig"
  using Schnorr_Sign_loop_returns [OF B, of d 0 "length message" message ks] d m ks good
  by (simp add: Schnorr_Sign_def Schnorr_Sign_range_def)

text \<open>C35: \<open>Schnorr::Verify\<close> accepts exactly the pairs whose components lie strictly between zero and the
  group order, whose regenerated point is not the identity, and whose challenge is the hash of
  that point, the public key and the message; it never faults on a whole message.\<close>

theorem Schnorr_Verify_spec:
  assumes B: "openssl_ok B g" and d: "d mod ec_order B \<noteq> 0"
    and m: "message \<noteq> []" "length message < 2 ^ 32"
  shows "Schnorr_Verify B message sig (g d) = Some
    (0 < m_r sig \<and> m_r sig < ec_order B \<and> 0 < m_s sig \<and> m_s sig < ec_order B
     \<and> (m_s sig + m_r sig * d) mod ec_order B \<noteq> 0
     \<and> schnorr_challenge B (g (m_s sig + m_r sig * d)) (g d) message = m_r sig)"
proof -
  have total: "Schnorr_Verify B message sig (g d) \<noteq> None"
    unfolding Schnorr_Verify_def by (rule Schnorr_Verify_range_total) (use m in simp)
  have "Schnorr_Verify B message sig (g d) = Some True \<longleftrightarrow>
    (0 < m_r sig \<and> m_r sig < ec_order B \<and> 0 < m_s sig \<and> m_s sig < ec_order B
     \<and> (m_s sig + m_r sig * d) mod ec_order B \<noteq> 0
     \<and> schnorr_challenge B (g (m_s sig + m_r sig * d)) (g d) message = m_r sig)"
    using Schnorr_Verify_range_iff [OF B d, of 0 "length message" message sig] m
    by (simp add: Schnorr_Verify_def)
  with total show ?thesis by (cases "Schnorr_Verify B message sig (g d)") auto
qed

theorem Schnorr_Verify_spec_witness:
  "Schnorr_Verify toy [5, 6] \<lparr>m_r = 4, m_s = 5\<rparr> (3 mod 13) = Some True
   \<and> Schnorr_Verify toy [5, 6] \<lparr>m_r = 4, m_s = 6\<rparr> (3 mod 13) = Some False"
proof -
  have c: "schnorr_challenge toy (17 mod 13) (3 mod 13) [5, 6] = 4"
    "schnorr_challenge toy (18 mod 13) (3 mod 13) [5, 6] \<noteq> 4" by code_simp+
  have "3 mod ec_order toy \<noteq> 0" by (simp add: toy_def)
  from Schnorr_Verify_spec [OF toy_ok this, of "[5, 6]"] c show ?thesis by (simp add: toy_def)
qed

text \<open>a signature serialised at any offset of any stream is deserialised to the same signature, with
  the 64-byte size the code announces, and the bytes before it stay.\<close>

lemma Signature_roundtrip:
  assumes "Signature_fits sig" "offset + 64 < 2 ^ 32" "offset \<le> length dst"
  shows "Signature_Deserialize old (fst (Signature_Serialize dst offset sig)) offset = (sig, 0)
    \<and> snd (Signature_Serialize dst offset sig) = 64
    \<and> length (fst (Signature_Serialize dst offset sig)) = max (length dst) (offset + 64)
    \<and> take offset (fst (Signature_Serialize dst offset sig)) = take offset dst"
  using Signature_roundtrip_aux [OF assms(1,2)] Signature_Serialize_frame [OF assms(1,2), of 0 offset dst]
    assms(3)
  by (simp add: subvec_def) (simp add: Signature_Serialize_def Let_def)

text \<open>The range check of \<open>Schnorr::Verify\<close> adds two \<open>unsigned int\<close>s. With offset \<open>2 ^ 32 - 1\<close> and
  size 2 the sum wraps to 1 and the check passes although the range lies outside the message.\<close>

lemma Schnorr_Verify_guard_wraps:
  "Schnorr_Verify_range toy [5, 6] 4294967295 2 \<lparr>m_r = 4, m_s = 5\<rparr> 3 = None"
  by (simp add: Schnorr_Verify_range_def u32_def toy_eval)

end
