(* ===== verification/Account.thy ===== *)
theory Account
  imports Schnorr
begin

text \<open>
  Accounts and transactions: \<open>libData/AccountData/Account.cpp\<close> (the members of \<open>AccountBase\<close> and the operations
  on them), \<open>Transaction.h\<close> and \<open>Transaction.cpp\<close>, and the part of \<open>TransactionReceipt.cpp\<close> that the account
  stores write. An address is a \<open>160 word\<close>, read big-endian from the array of \<open>dev::h160\<close>; hashes are octet
  strings of length 32; \<open>uint128_t\<close>, \<open>uint64_t\<close> and \<open>uint32_t\<close> are words of their width.

  \<open>SafeMath.tpp\<close> is not part of the sources: the checked operations are a parameter. They take the two
  operands and the old content of the result and give success and new content; \<open>usafe_ok\<close> states what the
  code relies on: an operation succeeds with the exact result when it fits, and reports failure when it
  does not. The content of the result after a failure is left open.
\<close>

section \<open>Checked arithmetic\<close>

record 'w usafe =
  USafe_add :: "'w \<Rightarrow> 'w \<Rightarrow> 'w \<Rightarrow> bool \<times> 'w"
  USafe_sub :: "'w \<Rightarrow> 'w \<Rightarrow> 'w \<Rightarrow> bool \<times> 'w"
  USafe_mul :: "'w \<Rightarrow> 'w \<Rightarrow> 'w \<Rightarrow> bool \<times> 'w"
  USafe_div :: "'w \<Rightarrow> 'w \<Rightarrow> 'w \<Rightarrow> bool \<times> 'w"

definition usafe_ok :: "'l::len word usafe \<Rightarrow> bool" where
  "usafe_ok M \<longleftrightarrow>
     (\<forall>a b r. if unat a + unat b < 2 ^ LENGTH('l) then USafe_add M a b r = (True, a + b)
              else \<not> fst (USafe_add M a b r))
     \<and> (\<forall>a b r. if unat b \<le> unat a then USafe_sub M a b r = (True, a - b) else \<not> fst (USafe_sub M a b r))
     \<and> (\<forall>a b r. if unat a * unat b < 2 ^ LENGTH('l) then USafe_mul M a b r = (True, a * b)
                else \<not> fst (USafe_mul M a b r))
     \<and> (\<forall>a b r. if b \<noteq> 0 then USafe_div M a b r = (True, a div b) else \<not> fst (USafe_div M a b r))"

lemma usafe_add:
  "usafe_ok M \<Longrightarrow> unat a + unat (b :: 'l::len word) < 2 ^ LENGTH('l) \<Longrightarrow> USafe_add M a b r = (True, a + b)"
  unfolding usafe_ok_def by presburger

lemma usafe_add_fail:
  "usafe_ok M \<Longrightarrow> \<not> unat a + unat (b :: 'l::len word) < 2 ^ LENGTH('l) \<Longrightarrow> \<not> fst (USafe_add M a b r)"
  unfolding usafe_ok_def by presburger

lemma usafe_sub: "usafe_ok M \<Longrightarrow> unat b \<le> unat a \<Longrightarrow> USafe_sub M a b r = (True, a - b)"
  unfolding usafe_ok_def by presburger

lemma usafe_sub_fail: "usafe_ok M \<Longrightarrow> \<not> unat b \<le> unat a \<Longrightarrow> \<not> fst (USafe_sub M a b r)"
  unfolding usafe_ok_def by presburger

lemma usafe_mul:
  "usafe_ok M \<Longrightarrow> unat a * unat (b :: 'l::len word) < 2 ^ LENGTH('l) \<Longrightarrow> USafe_mul M a b r = (True, a * b)"
  unfolding usafe_ok_def by presburger

lemma usafe_mul_fail:
  "usafe_ok M \<Longrightarrow> \<not> unat a * unat (b :: 'l::len word) < 2 ^ LENGTH('l) \<Longrightarrow> \<not> fst (USafe_mul M a b r)"
  unfolding usafe_ok_def by presburger

lemma usafe_div: "usafe_ok M \<Longrightarrow> b \<noteq> 0 \<Longrightarrow> USafe_div M a b r = (True, a div b)"
  unfolding usafe_ok_def by presburger

lemma usafe_div_fail: "usafe_ok M \<Longrightarrow> \<not> fst (USafe_div M a 0 r)"
  unfolding usafe_ok_def by presburger

text \<open>An instance, for evaluation.\<close>

definition exact_usafe :: "'l::len word usafe" where
  "exact_usafe = \<lparr>
     USafe_add = (\<lambda>a b r. if unat a + unat b < 2 ^ LENGTH('l) then (True, a + b) else (False, r)),
     USafe_sub = (\<lambda>a b r. if unat b \<le> unat a then (True, a - b) else (False, r)),
     USafe_mul = (\<lambda>a b r. if unat a * unat b < 2 ^ LENGTH('l) then (True, a * b) else (False, r)),
     USafe_div = (\<lambda>a b r. if b \<noteq> 0 then (True, a div b) else (False, r))\<rparr>"

lemma exact_usafe_ok: "usafe_ok exact_usafe"
  by (simp add: usafe_ok_def exact_usafe_def)

text \<open>Sums and products that fit are exact.\<close>

lemma unat_add_fits: "unat a + unat b < 2 ^ LENGTH('l) \<Longrightarrow> unat (a + b :: 'l::len word) = unat a + unat b"
  by (simp add: unat_word_ariths)

lemma unat_mul_fits: "unat a * unat b < 2 ^ LENGTH('l) \<Longrightarrow> unat (a * b :: 'l::len word) = unat a * unat b"
  by (simp add: unat_word_ariths)

lemma unat_sub_fits: "unat b \<le> unat a \<Longrightarrow> unat (a - b :: 'l::len word) = unat a - unat b"
  by (simp add: unat_sub word_le_nat_alt)

section \<open>Addresses\<close>

type_synonym Address = "160 word"

definition ACC_ADDR_SIZE :: nat where "ACC_ADDR_SIZE = 20"

definition NullAddress :: Address where "NullAddress = 0"

definition addr_bytes :: "Address \<Rightarrow> bytes" where
  "addr_bytes a = be_bytes ACC_ADDR_SIZE (unat a)"

definition addr_of_bytes :: "bytes \<Rightarrow> Address" where
  "addr_of_bytes bs = of_nat (be_val bs)"

definition h256_zero :: bytes where "h256_zero = replicate 32 0"

text \<open>The octets of a string literal.\<close>

definition ascii :: "string \<Rightarrow> bytes" where
  "ascii s = map (\<lambda>c. of_nat (of_char c)) s"

section \<open>\<open>AccountBase\<close>\<close>

record AccountBase =
  m_version :: "32 word"
  m_balance :: "128 word"
  m_nonce :: "64 word"
  m_storageRoot :: bytes
  m_codeHash :: bytes

record Account = AccountBase +
  m_codeCache :: bytes
  acc_address :: Address

text \<open>The constructor with balance, nonce and version.\<close>

definition Account_new :: "128 word \<Rightarrow> 64 word \<Rightarrow> 32 word \<Rightarrow> Account" where
  "Account_new balance nonce version =
     \<lparr>m_version = version, m_balance = balance, m_nonce = nonce, m_storageRoot = h256_zero,
      m_codeHash = h256_zero, m_codeCache = [], acc_address = 0\<rparr>"

definition Account_IncreaseBalance ::
    "128 word usafe \<Rightarrow> 128 word \<Rightarrow> 'z AccountBase_scheme \<Rightarrow> bool \<times> 'z AccountBase_scheme" where
  "Account_IncreaseBalance M delta acc =
     (case USafe_add M (m_balance acc) delta (m_balance acc) of (ok, r) \<Rightarrow> (ok, acc\<lparr>m_balance := r\<rparr>))"

definition Account_DecreaseBalance ::
    "128 word usafe \<Rightarrow> 128 word \<Rightarrow> 'z AccountBase_scheme \<Rightarrow> bool \<times> 'z AccountBase_scheme" where
  "Account_DecreaseBalance M delta acc =
     (if m_balance acc < delta then (False, acc)
      else case USafe_sub M (m_balance acc) delta (m_balance acc) of (ok, r) \<Rightarrow> (ok, acc\<lparr>m_balance := r\<rparr>))"

text \<open>The change is a signed 256-bit number; the conversion to \<open>uint128_t\<close> keeps the low bits.\<close>

definition Account_ChangeBalance ::
    "128 word usafe \<Rightarrow> int \<Rightarrow> 'z AccountBase_scheme \<Rightarrow> bool \<times> 'z AccountBase_scheme" where
  "Account_ChangeBalance M delta acc =
     (if delta \<ge> 0 then Account_IncreaseBalance M (of_int delta) acc
      else Account_DecreaseBalance M (of_int (- delta)) acc)"

definition Account_IncreaseNonceBy ::
    "64 word usafe \<Rightarrow> 64 word \<Rightarrow> 'z AccountBase_scheme \<Rightarrow> bool \<times> 'z AccountBase_scheme" where
  "Account_IncreaseNonceBy M nonceDelta acc =
     (case USafe_add M (m_nonce acc) nonceDelta (m_nonce acc) of (ok, r) \<Rightarrow> (ok, acc\<lparr>m_nonce := r\<rparr>))"

definition Account_IncreaseNonce ::
    "64 word usafe \<Rightarrow> 'z AccountBase_scheme \<Rightarrow> bool \<times> 'z AccountBase_scheme" where
  "Account_IncreaseNonce M acc =
     (case USafe_add M (m_nonce acc) 1 (m_nonce acc) of (ok, r) \<Rightarrow> (ok, acc\<lparr>m_nonce := r\<rparr>))"

definition isContract :: "'z AccountBase_scheme \<Rightarrow> bool" where
  "isContract acc \<longleftrightarrow> m_codeHash acc \<noteq> h256_zero"

section \<open>\<open>Account\<close>\<close>

text \<open>The address is set once.\<close>

definition Account_SetAddress :: "Address \<Rightarrow> Account \<Rightarrow> Account" where
  "Account_SetAddress addr acc = (if acc_address acc = 0 then acc\<lparr>acc_address := addr\<rparr> else acc)"

definition Account_SetCode :: "'pt openssl \<Rightarrow> bytes \<Rightarrow> Account \<Rightarrow> bool \<times> Account" where
  "Account_SetCode B code acc =
     (if length code = 0 then (False, acc)
      else (True, acc\<lparr>m_codeCache := code, m_codeHash := SHA2_Finalize B (SHA2_Update SHA2_Reset code)\<rparr>))"

text \<open>The last 20 octets of a digest. Addresses come from the key of their owner or, for contracts,
  from the creator and its nonce.\<close>

definition addr_of_digest :: "bytes \<Rightarrow> Address" where
  "addr_of_digest d = addr_of_bytes (drop (length d - ACC_ADDR_SIZE) d)"

definition GetAddressFromPublicKey :: "'pt openssl \<Rightarrow> 'pt PubKey \<Rightarrow> Address" where
  "GetAddressFromPublicKey B pubKey =
     addr_of_digest (SHA2_Finalize B (SHA2_Update SHA2_Reset (fst (PubKey_Serialize B [] 0 pubKey))))"

definition GetAddressForContract :: "'pt openssl \<Rightarrow> Address \<Rightarrow> 64 word \<Rightarrow> Address option" where
  "GetAddressForContract B sender nonce =
     map_option (\<lambda>conBytes. addr_of_digest (SHA2_Finalize B (SHA2_Update SHA2_Reset conBytes)))
       (Serializable_SetNumber (addr_bytes sender) (length (addr_bytes sender)) (unat nonce) 8)"

section \<open>Transactions\<close>

record 'pt TransactionCoreInfo =
  tx_version :: "32 word"
  tx_nonce :: "64 word"
  tx_toAddr :: Address
  tx_senderPubKey :: "'pt PubKey"
  tx_amount :: "128 word"
  tx_gasPrice :: "128 word"
  tx_gasLimit :: "64 word"
  tx_code :: bytes
  tx_data :: bytes

datatype ContractType = NON_CONTRACT | CONTRACT_CREATION | CONTRACT_CALL | ERROR

definition GetTransactionType :: "'pt TransactionCoreInfo \<Rightarrow> ContractType" where
  "GetTransactionType tx =
     (if tx_data tx \<noteq> [] \<and> tx_toAddr tx \<noteq> NullAddress \<and> tx_code tx = [] then CONTRACT_CALL
      else if tx_code tx \<noteq> [] \<and> tx_toAddr tx = NullAddress then CONTRACT_CREATION
      else if tx_data tx = [] \<and> tx_toAddr tx \<noteq> NullAddress \<and> tx_code tx = [] then NON_CONTRACT
      else ERROR)"

text \<open>The shard of an address: its last four octets modulo the number of shards.\<close>

definition GetShardIndex :: "Address \<Rightarrow> nat \<Rightarrow> nat" where
  "GetShardIndex fromAddr numShards =
     (if numShards = 0 then 0
      else unat (foldl (\<lambda>x i. push_bit 8 x OR ucast (addr_bytes fromAddr ! (ACC_ADDR_SIZE - 4 + i)))
                   (0 :: 32 word) [0..<4])
           mod numShards)"

definition GetSenderAddr :: "'pt openssl \<Rightarrow> 'pt TransactionCoreInfo \<Rightarrow> Address" where
  "GetSenderAddr B tx = GetAddressFromPublicKey B (tx_senderPubKey tx)"

section \<open>Receipts\<close>

datatype ReceiptError = CHECKER_FAILED | RUNNER_FAILED | BALANCE_TRANSFER_FAILED | EXECUTE_CMD_FAILED
  | EXECUTE_CMD_TIMEOUT | NO_GAS_REMAINING_FOUND | NO_ACCEPTED_FOUND | CALL_CONTRACT_FAILED
  | CREATE_CONTRACT_FAILED | JSON_OUTPUT_CORRUPTED | CONTRACT_NOT_EXIST | STATE_CORRUPTED
  | LOG_ENTRY_INSTALL_FAILED | MESSAGE_CORRUPTED | RECEIPT_IS_NULL | MAX_DEPTH_REACHED
  | CHAIN_CALL_DIFF_SHARD | PREPARATION_FAILED | NO_OUTPUT | OUTPUT_ILLEGAL

text \<open>The members of the receipt object the code sets: \<open>success\<close>, \<open>cumulative_gas\<close>, \<open>epoch_num\<close>, the event logs and the
  errors of each depth of a chain of contract calls. Its text form, which \<open>update\<close> refreshes, is a
  function of them.\<close>

record 'ev TransactionReceipt =
  r_success :: "bool option"
  r_cumGas :: "64 word"
  r_depth :: nat
  r_errors :: "nat \<Rightarrow> ReceiptError list"
  r_event_logs :: "'ev list"
  r_epoch_num :: "64 word option"

definition TransactionReceipt_new :: "'ev TransactionReceipt" where
  "TransactionReceipt_new =
     \<lparr>r_success = None, r_cumGas = 0, r_depth = 0, r_errors = (\<lambda>_. []), r_event_logs = [], r_epoch_num = None\<rparr>"

definition SetResult :: "bool \<Rightarrow> 'ev TransactionReceipt \<Rightarrow> 'ev TransactionReceipt" where
  "SetResult res r = r\<lparr>r_success := Some res\<rparr>"

definition SetCumGas :: "64 word \<Rightarrow> 'ev TransactionReceipt \<Rightarrow> 'ev TransactionReceipt" where
  "SetCumGas g r = r\<lparr>r_cumGas := g\<rparr>"

definition SetEpochNum :: "64 word \<Rightarrow> 'ev TransactionReceipt \<Rightarrow> 'ev TransactionReceipt" where
  "SetEpochNum epochNum r = r\<lparr>r_epoch_num := Some epochNum\<rparr>"

definition AddDepth :: "'ev TransactionReceipt \<Rightarrow> 'ev TransactionReceipt" where
  "AddDepth r = r\<lparr>r_depth := r_depth r + 1, r_errors := (r_errors r)(r_depth r + 1 := [])\<rparr>"

definition AddError :: "ReceiptError \<Rightarrow> 'ev TransactionReceipt \<Rightarrow> 'ev TransactionReceipt" where
  "AddError e r = r\<lparr>r_errors := (r_errors r)(r_depth r := r_errors r (r_depth r) @ [e])\<rparr>"

definition AddEntry :: "'ev \<Rightarrow> 'ev TransactionReceipt \<Rightarrow> 'ev TransactionReceipt" where
  "AddEntry e r = r\<lparr>r_event_logs := r_event_logs r @ [e]\<rparr>"

lemmas receipt_defs = SetResult_def SetCumGas_def AddDepth_def AddError_def AddEntry_def

section \<open>Laws\<close>

lemma Account_IncreaseBalance_fits:
  assumes "usafe_ok M" "unat (m_balance acc) + unat d < 2 ^ 128"
  shows "Account_IncreaseBalance M d acc = (True, acc\<lparr>m_balance := m_balance acc + d\<rparr>)"
  using usafe_add [OF assms(1), of "m_balance acc" d] assms(2) by (simp add: Account_IncreaseBalance_def)

lemma Account_DecreaseBalance_eq:
  assumes "usafe_ok M"
  shows "Account_DecreaseBalance M d acc
    = (if unat d \<le> unat (m_balance acc) then (True, acc\<lparr>m_balance := m_balance acc - d\<rparr>) else (False, acc))"
  using usafe_sub [OF assms, of d "m_balance acc"]
  by (simp add: Account_DecreaseBalance_def word_less_nat_alt)

lemma Account_IncreaseNonce_fits:
  assumes "usafe_ok M" "unat (m_nonce acc) + 1 < 2 ^ 64"
  shows "Account_IncreaseNonce M acc = (True, acc\<lparr>m_nonce := m_nonce acc + 1\<rparr>)"
  using usafe_add [OF assms(1), of "m_nonce acc" 1] assms(2) by (simp add: Account_IncreaseNonce_def)

lemma Account_IncreaseNonceBy_fits:
  assumes "usafe_ok M" "unat (m_nonce acc) + unat d < 2 ^ 64"
  shows "Account_IncreaseNonceBy M d acc = (True, acc\<lparr>m_nonce := m_nonce acc + d\<rparr>)"
  using usafe_add [OF assms(1), of "m_nonce acc" d] assms(2) by (simp add: Account_IncreaseNonceBy_def)

end
