(* ===== verification/AccountStoreBase.thy ===== *)
theory AccountStoreBase
  imports Account "HOL-Library.AList"
begin

text \<open>
  The class \<open>AccountStoreBase\<close> (\<open>libData/AccountData/AccountStoreBase.tpp\<close>): the operations on balances and nonces
  that every account store inherits, and the execution of a plain payment.

  \<open>GetAccount\<close> is virtual. The record \<open>store_vt\<close> is the virtual table: how a store finds an account (this may
  copy the account from a parent into the own map, so the store changes) and its own map
  \<open>m_addressToAccount\<close>. A map is an association list with distinct keys; a pointer returned by \<open>GetAccount\<close>
  points into the own map, so writing through it is an update of the map at that key. \<open>None\<close> is the
  process abort of \<open>LOG_GENERAL(FATAL, ..)\<close>.

  The locale \<open>account_store\<close> is the contract of a store: it behaves as one map from addresses to accounts,
  its view. The lemmas on transfers and payments are proved once inside it, for every store.
\<close>

section \<open>The store interface and the inherited operations\<close>

type_synonym amap = "(Address \<times> Account) list"

record 's store_vt =
  vt_GetAccount :: "Address \<Rightarrow> 's \<Rightarrow> Account option \<times> 's"
  vt_update :: "(amap \<Rightarrow> amap) \<Rightarrow> 's \<Rightarrow> 's"

text \<open>Constants read from the configuration file.\<close>

record ledger_env =
  SafeMath128 :: "128 word usafe"
  SafeMath64 :: "64 word usafe"
  NORMAL_TRAN_GAS :: "32 word"
  CONTRACT_CREATE_GAS :: "32 word"
  CONTRACT_INVOKE_GAS :: "32 word"
  MAX_CONTRACT_DEPTH :: nat
  ACCOUNT_VERSION :: "32 word"

definition ledger_env_ok :: "ledger_env \<Rightarrow> bool" where
  "ledger_env_ok E \<longleftrightarrow> usafe_ok (SafeMath128 E) \<and> usafe_ok (SafeMath64 E)"

text \<open>\<open>insert\<close> of a map keeps an entry that is there; \<open>write_account\<close> is a write through the pointer.\<close>

definition map_insert :: "Address \<Rightarrow> Account \<Rightarrow> amap \<Rightarrow> amap" where
  "map_insert a acc m = (if map_of m a = None then m @ [(a, acc)] else m)"

definition write_account :: "'s store_vt \<Rightarrow> Address \<Rightarrow> Account \<Rightarrow> 's \<Rightarrow> 's" where
  "write_account V a acc s = vt_update V (AList.update a acc) s"

definition IsAccountExist :: "'s store_vt \<Rightarrow> Address \<Rightarrow> 's \<Rightarrow> bool \<times> 's" where
  "IsAccountExist V a s = (case vt_GetAccount V a s of (r, s1) \<Rightarrow> (r \<noteq> None, s1))"

definition AddAccount :: "'s store_vt \<Rightarrow> Address \<Rightarrow> Account \<Rightarrow> 's \<Rightarrow> 's" where
  "AddAccount V a acc s =
     (case IsAccountExist V a s of (found, s1) \<Rightarrow> if found then s1 else vt_update V (map_insert a acc) s1)"

definition RemoveAccount :: "'s store_vt \<Rightarrow> Address \<Rightarrow> 's \<Rightarrow> 's" where
  "RemoveAccount V a s =
     (case IsAccountExist V a s of (found, s1) \<Rightarrow> if found then vt_update V (AList.delete a) s1 else s1)"

definition IncreaseBalance :: "'s store_vt \<Rightarrow> ledger_env \<Rightarrow> Address \<Rightarrow> 128 word \<Rightarrow> 's \<Rightarrow> bool \<times> 's" where
  "IncreaseBalance V E a delta s =
     (if delta = 0 then (True, s)
      else case vt_GetAccount V a s of
             (Some acc, s1) \<Rightarrow>
               (case Account_IncreaseBalance (SafeMath128 E) delta acc of
                  (ok, acc') \<Rightarrow> (ok, write_account V a acc' s1))
           | (None, s1) \<Rightarrow> (True, AddAccount V a (Account_new delta 0 (ACCOUNT_VERSION E)) s1))"

definition DecreaseBalance :: "'s store_vt \<Rightarrow> ledger_env \<Rightarrow> Address \<Rightarrow> 128 word \<Rightarrow> 's \<Rightarrow> bool \<times> 's" where
  "DecreaseBalance V E a delta s =
     (if delta = 0 then (True, s)
      else case vt_GetAccount V a s of
             (None, s1) \<Rightarrow> (False, s1)
           | (Some acc, s1) \<Rightarrow>
               (case Account_DecreaseBalance (SafeMath128 E) delta acc of
                  (ok, acc') \<Rightarrow> (ok, write_account V a acc' s1)))"

definition TransferBalance ::
    "'s store_vt \<Rightarrow> ledger_env \<Rightarrow> Address \<Rightarrow> Address \<Rightarrow> 128 word \<Rightarrow> 's \<Rightarrow> (bool \<times> 's) option" where
  "TransferBalance V E src dst delta s =
     (case DecreaseBalance V E src delta s of
        (False, s1) \<Rightarrow> Some (False, s1)
      | (True, s1) \<Rightarrow>
          (case IncreaseBalance V E dst delta s1 of
             (True, s2) \<Rightarrow> Some (True, s2)
           | (False, s2) \<Rightarrow>
               (case IncreaseBalance V E src delta s2 of
                  (True, s3) \<Rightarrow> Some (False, s3)
                | (False, s3) \<Rightarrow> None)))"

definition GetBalance :: "'s store_vt \<Rightarrow> Address \<Rightarrow> 's \<Rightarrow> 128 word \<times> 's" where
  "GetBalance V a s =
     (case vt_GetAccount V a s of (r, s1) \<Rightarrow> (case r of None \<Rightarrow> 0 | Some acc \<Rightarrow> m_balance acc, s1))"

definition GetNonce :: "'s store_vt \<Rightarrow> Address \<Rightarrow> 's \<Rightarrow> 64 word \<times> 's" where
  "GetNonce V a s =
     (case vt_GetAccount V a s of (r, s1) \<Rightarrow> (case r of None \<Rightarrow> 0 | Some acc \<Rightarrow> m_nonce acc, s1))"

definition IncreaseNonce :: "'s store_vt \<Rightarrow> ledger_env \<Rightarrow> Address \<Rightarrow> 's \<Rightarrow> bool \<times> 's" where
  "IncreaseNonce V E a s =
     (case vt_GetAccount V a s of
        (None, s1) \<Rightarrow> (False, s1)
      | (Some acc, s1) \<Rightarrow>
          (case Account_IncreaseNonce (SafeMath64 E) acc of (ok, acc') \<Rightarrow> (ok, write_account V a acc' s1)))"

definition CalculateGasRefund :: "ledger_env \<Rightarrow> 128 word \<Rightarrow> 64 word \<Rightarrow> 128 word \<Rightarrow> 128 word option" where
  "CalculateGasRefund E gasDeposit gasUnit price =
     (case USafe_mul (SafeMath128 E) (ucast gasUnit) price 0 of
        (False, _) \<Rightarrow> None
      | (True, gasFee) \<Rightarrow>
          (case USafe_sub (SafeMath128 E) gasDeposit gasFee 0 of (ok, gasRefund) \<Rightarrow> if ok then Some gasRefund else None))"

text \<open>A payment. The sum of amount and deposit in the balance check wraps at 128 bits.\<close>

definition UpdateAccounts_base ::
    "'s store_vt \<Rightarrow> ledger_env \<Rightarrow> 'pt openssl \<Rightarrow> 'pt TransactionCoreInfo \<Rightarrow> 'ev TransactionReceipt \<Rightarrow> 's
     \<Rightarrow> (bool \<times> 'ev TransactionReceipt \<times> 's) option" where
  "UpdateAccounts_base V E B tx receipt s =
     (let fromAddr = GetAddressFromPublicKey B (tx_senderPubKey tx)
      in case vt_GetAccount V fromAddr s of
           (None, s1) \<Rightarrow> Some (False, receipt, s1)
         | (Some fromAccount, s1) \<Rightarrow>
             if tx_gasLimit tx < ucast (NORMAL_TRAN_GAS E) then Some (False, receipt, s1)
             else case USafe_mul (SafeMath128 E) (ucast (tx_gasLimit tx)) (tx_gasPrice tx) 0 of
               (False, _) \<Rightarrow> Some (False, receipt, s1)
             | (True, gasDeposit) \<Rightarrow>
                 if m_balance fromAccount < tx_amount tx + gasDeposit then Some (False, receipt, s1)
                 else case DecreaseBalance V E fromAddr gasDeposit s1 of
                   (False, s2) \<Rightarrow> Some (False, receipt, s2)
                 | (True, s2) \<Rightarrow>
                     (case TransferBalance V E fromAddr (tx_toAddr tx) (tx_amount tx) s2 of
                        None \<Rightarrow> None
                      | Some (False, s3) \<Rightarrow>
                          (case IncreaseBalance V E fromAddr gasDeposit s3 of
                             (True, s4) \<Rightarrow> Some (False, receipt, s4)
                           | (False, s4) \<Rightarrow> None)
                      | Some (True, s3) \<Rightarrow>
                          (case CalculateGasRefund E gasDeposit (ucast (NORMAL_TRAN_GAS E)) (tx_gasPrice tx) of
                             None \<Rightarrow> Some (False, receipt, s3)
                           | Some gasRefund \<Rightarrow>
                               (case IncreaseBalance V E fromAddr gasRefund s3 of
                                  (False, s4) \<Rightarrow> None
                                | (True, s4) \<Rightarrow>
                                    (case IncreaseNonce V E fromAddr s4 of
                                       (False, s5) \<Rightarrow> Some (False, receipt, s5)
                                     | (True, s5) \<Rightarrow>
                                         Some (True, SetCumGas (ucast (NORMAL_TRAN_GAS E)) (SetResult True receipt), s5))))))"

section \<open>Ledgers\<close>

text \<open>The specification: a ledger is a map from addresses to accounts; a transfer moves an amount between
  two balances of it.\<close>

type_synonym ledger = "Address \<rightharpoonup> Account"

definition bal :: "ledger \<Rightarrow> Address \<Rightarrow> nat" where
  "bal v a = (case v a of None \<Rightarrow> 0 | Some acc \<Rightarrow> unat (m_balance acc))"

definition nonce_of :: "ledger \<Rightarrow> Address \<Rightarrow> nat" where
  "nonce_of v a = (case v a of None \<Rightarrow> 0 | Some acc \<Rightarrow> unat (m_nonce acc))"

definition total_balance :: "ledger \<Rightarrow> nat" where
  "total_balance v = (\<Sum>a\<in>UNIV. bal v a)"

definition credit :: "ledger_env \<Rightarrow> Address \<Rightarrow> 128 word \<Rightarrow> ledger \<Rightarrow> ledger" where
  "credit E a d v =
     (if d = 0 then v
      else v(a \<mapsto> (case v a of None \<Rightarrow> Account_new d 0 (ACCOUNT_VERSION E)
                    | Some acc \<Rightarrow> acc\<lparr>m_balance := m_balance acc + d\<rparr>)))"

definition debit :: "Address \<Rightarrow> 128 word \<Rightarrow> ledger \<Rightarrow> ledger" where
  "debit a d v =
     (case v a of None \<Rightarrow> v | Some acc \<Rightarrow> if d = 0 then v else v(a \<mapsto> acc\<lparr>m_balance := m_balance acc - d\<rparr>))"

definition bump_nonce :: "Address \<Rightarrow> ledger \<Rightarrow> ledger" where
  "bump_nonce a v = (case v a of None \<Rightarrow> v | Some acc \<Rightarrow> v(a \<mapsto> acc\<lparr>m_nonce := m_nonce acc + 1\<rparr>))"

definition supply_fits :: "ledger \<Rightarrow> bool" where
  "supply_fits v \<longleftrightarrow> total_balance v < 2 ^ 128"

lemma bal_upd [simp]: "bal (v(a \<mapsto> acc)) b = (if a = b then unat (m_balance acc) else bal v b)"
  by (simp add: bal_def)

lemma bal_upd_None [simp]: "bal (v(a := None)) b = (if a = b then 0 else bal v b)"
  by (simp add: bal_def)

lemma nonce_of_upd [simp]: "nonce_of (v(a \<mapsto> acc)) b = (if a = b then unat (m_nonce acc) else nonce_of v b)"
  by (simp add: nonce_of_def)

text \<open>The sum splits at one address.\<close>

lemma total_split: "total_balance v = bal v a + (\<Sum>b\<in>UNIV - {a}. bal v b)"
  unfolding total_balance_def by (rule sum.remove) simp_all

lemma total_rest_cong:
  assumes "\<And>b. b \<noteq> a \<Longrightarrow> bal v b = bal w b"
  shows "total_balance v + bal w a = total_balance w + bal v a"
proof -
  have "(\<Sum>b\<in>UNIV - {a}. bal v b) = (\<Sum>b\<in>UNIV - {a}. bal w b)"
    using assms by (intro sum.cong) auto
  then show ?thesis using total_split [of v a] total_split [of w a] by simp
qed

lemma bal_le_total: "bal v a \<le> total_balance v"
  using total_split [of v a] by simp

lemma bal_fits: "supply_fits v \<Longrightarrow> bal v a < 2 ^ 128"
  using bal_le_total [of v a] by (simp add: supply_fits_def)

text \<open>Two addresses never hold more than the total.\<close>

lemma two_bal_le_total: "a \<noteq> b \<Longrightarrow> bal v a + bal v b \<le> total_balance v"
proof -
  assume "a \<noteq> b"
  then have "bal v b \<le> (\<Sum>c\<in>UNIV - {a}. bal v c)" by (intro member_le_sum) auto
  then show ?thesis using total_split [of v a] by simp
qed

lemma bal_credit:
  assumes "bal v a + unat d < 2 ^ 128"
  shows "bal (credit E a d v) b = (if b = a then bal v a + unat d else bal v b)"
  using assms unat_add_fits [where ?'l = 128]
  by (auto simp: credit_def Account_new_def bal_def split: option.splits)

lemma bal_debit:
  assumes "unat d \<le> bal v a"
  shows "bal (debit a d v) b = (if b = a then bal v a - unat d else bal v b)"
  using assms unat_sub_fits by (auto simp: debit_def bal_def split: option.splits)

lemma total_credit:
  assumes "bal v a + unat d < 2 ^ 128"
  shows "total_balance (credit E a d v) = total_balance v + unat d"
  using total_rest_cong [of a "credit E a d v" v] bal_credit [OF assms] by simp

lemma total_debit:
  assumes "unat d \<le> bal v a"
  shows "total_balance (debit a d v) = total_balance v - unat d" "unat d \<le> total_balance v"
  using total_rest_cong [of a "debit a d v" v] bal_debit [OF assms] assms bal_le_total [of v a] by simp_all

lemma bal_bump_nonce [simp]: "bal (bump_nonce a v) b = bal v b"
  by (simp add: bump_nonce_def bal_def split: option.splits)

lemma total_bump_nonce [simp]: "total_balance (bump_nonce a v) = total_balance v"
  by (simp add: total_balance_def)

lemma nonce_of_credit [simp]: "nonce_of (credit E a d v) b = nonce_of v b"
  by (simp add: credit_def nonce_of_def Account_new_def split: option.splits)

lemma nonce_of_debit [simp]: "nonce_of (debit a d v) b = nonce_of v b"
  by (simp add: debit_def nonce_of_def split: option.splits)

lemma nonce_of_bump:
  "v a \<noteq> None \<Longrightarrow> nonce_of v a + 1 < 2 ^ 64 \<Longrightarrow>
   nonce_of (bump_nonce a v) b = (if b = a then nonce_of v a + 1 else nonce_of v b)"
  using unat_add_fits [where ?'l = 64 and ?b = 1] by (auto simp: bump_nonce_def nonce_of_def)

lemma credit_exists [simp]: "v a \<noteq> None \<Longrightarrow> credit E b d v a \<noteq> None"
  by (simp add: credit_def)

lemma debit_exists [simp]: "debit b d v a = None \<longleftrightarrow> v a = None"
  by (auto simp: debit_def split: option.splits)

lemma credit_debit:
  assumes "unat d \<le> bal v a"
  shows "credit E a d (debit a d v) = v"
  using assms by (auto simp: credit_def debit_def bal_def fun_eq_iff unsigned_eq_0_iff split: option.splits)

text \<open>A payment on a ledger: when it is accepted, and its effect. The fee is burnt.\<close>

definition gas_cost :: "64 word \<Rightarrow> 'pt TransactionCoreInfo \<Rightarrow> nat" where
  "gas_cost g tx = unat g * unat (tx_gasPrice tx)"

abbreviation normal_gas :: "ledger_env \<Rightarrow> 64 word" where
  "normal_gas E \<equiv> ucast (NORMAL_TRAN_GAS E)"

definition payment_ok :: "ledger_env \<Rightarrow> Address \<Rightarrow> 'pt TransactionCoreInfo \<Rightarrow> ledger \<Rightarrow> bool" where
  "payment_ok E src tx v \<longleftrightarrow>
     v src \<noteq> None \<and> unat (normal_gas E) \<le> unat (tx_gasLimit tx)
     \<and> unat (tx_amount tx) + gas_cost (tx_gasLimit tx) tx \<le> bal v src"

definition pay :: "ledger_env \<Rightarrow> Address \<Rightarrow> 'pt TransactionCoreInfo \<Rightarrow> ledger \<Rightarrow> ledger" where
  "pay E src tx v =
     bump_nonce src
       (credit E src (ucast (tx_gasLimit tx) * tx_gasPrice tx - ucast (normal_gas E) * tx_gasPrice tx)
         (credit E (tx_toAddr tx) (tx_amount tx)
           (debit src (tx_amount tx) (debit src (ucast (tx_gasLimit tx) * tx_gasPrice tx) v))))"

lemma unat_ucast_up:
  "LENGTH('a::len) \<le> LENGTH('b::len) \<Longrightarrow> unat (ucast (w :: 'a word) :: 'b word) = unat w"
proof -
  assume le: "LENGTH('a) \<le> LENGTH('b)"
  have "unat w < 2 ^ LENGTH('a)" by (rule unsigned_less)
  then have "unat w < 2 ^ LENGTH('b)" using le by (meson one_le_numeral order_less_le_trans power_increasing)
  then show ?thesis by (simp add: unsigned_ucast_eq take_bit_nat_eq_self)
qed

lemma bal_fits_supply: "supply_fits v \<Longrightarrow> n \<le> bal v a \<Longrightarrow> n < 2 ^ 128"
  using bal_fits [of v a] by simp

lemma gas_product:
  assumes "gas_cost g tx < 2 ^ 128"
  shows "unat (ucast g * tx_gasPrice tx :: 128 word) = gas_cost g tx"
  using assms unat_mul_fits [of "ucast g :: 128 word" "tx_gasPrice tx"]
  by (simp add: gas_cost_def unat_ucast_up)

lemma gas_cost_mono: "unat g \<le> unat h \<Longrightarrow> gas_cost g tx \<le> gas_cost h tx"
  by (simp add: gas_cost_def)

section \<open>What a store promises\<close>

text \<open>\<open>view\<close> is the ledger a store represents and \<open>below\<close> what shows through when an entry of the own map is
  erased.\<close>

locale account_store =
  fixes V :: "'s store_vt"
    and view :: "'s \<Rightarrow> ledger"
    and below :: "'s \<Rightarrow> ledger"
  assumes get_view: "vt_GetAccount V a s = (r, s') \<Longrightarrow> r = view s a \<and> view s' = view s \<and> below s' = below s"
    and write_view: "view (vt_update V (AList.update a acc) s) = (view s)(a \<mapsto> acc)"
    and insert_view: "view s a = None \<Longrightarrow> view (vt_update V (map_insert a acc) s) = (view s)(a \<mapsto> acc)"
    and erase_view: "view (vt_update V (AList.delete a) s) = (view s)(a := below s a)"
    and update_below: "below (vt_update V f s) = below s"
    and none_below: "view s a = None \<Longrightarrow> below s a = None"
begin

lemma GetAccount_cases:
  obtains s' where "vt_GetAccount V a s = (view s a, s')" "view s' = view s" "below s' = below s"
  using get_view [of a s] by (cases "vt_GetAccount V a s") blast

lemma write_account_view [simp]: "view (write_account V a acc s) = (view s)(a \<mapsto> acc)"
  by (simp add: write_account_def write_view)

lemma AddAccount_view:
  "view (AddAccount V a acc s) = (if view s a = None then (view s)(a \<mapsto> acc) else view s)"
  by (rule GetAccount_cases [of a s]) (auto simp: AddAccount_def IsAccountExist_def insert_view)

lemma AddAccount_below [simp]: "below (AddAccount V a acc s) = below s"
  by (rule GetAccount_cases [of a s]) (auto simp: AddAccount_def IsAccountExist_def update_below)

lemma write_account_below [simp]: "below (write_account V a acc s) = below s"
  by (simp add: write_account_def update_below)

lemma RemoveAccount_view:
  "view (RemoveAccount V a s) = (if view s a = None then view s else (view s)(a := below s a))"
  by (rule GetAccount_cases [of a s]) (auto simp: RemoveAccount_def IsAccountExist_def erase_view)

lemma RemoveAccount_below [simp]: "below (RemoveAccount V a s) = below s"
  by (rule GetAccount_cases [of a s]) (auto simp: RemoveAccount_def IsAccountExist_def update_below)

lemma IncreaseBalance_fits:
  assumes "ledger_env_ok E" "bal (view s) a + unat d < 2 ^ 128"
  obtains s' where "IncreaseBalance V E a d s = (True, s')" "view s' = credit E a d (view s)" "below s' = below s"
proof (cases "d = 0")
  case True
  then show ?thesis using that [of s] by (simp add: IncreaseBalance_def credit_def)
next
  case False
  obtain s1 where get: "vt_GetAccount V a s = (view s a, s1)" "view s1 = view s" "below s1 = below s"
    by (rule GetAccount_cases)
  show ?thesis
  proof (cases "view s a")
    case None
    show ?thesis
      by (rule that [of "AddAccount V a (Account_new d 0 (ACCOUNT_VERSION E)) s1"])
        (use get None False in \<open>simp_all add: IncreaseBalance_def AddAccount_view credit_def\<close>)
  next
    case (Some acc)
    have "Account_IncreaseBalance (SafeMath128 E) d acc = (True, acc\<lparr>m_balance := m_balance acc + d\<rparr>)"
      using assms Some by (intro Account_IncreaseBalance_fits) (simp_all add: ledger_env_ok_def bal_def)
    then show ?thesis
      using that [of "write_account V a (acc\<lparr>m_balance := m_balance acc + d\<rparr>) s1"] get Some False
      by (simp add: IncreaseBalance_def credit_def)
  qed
qed

lemma DecreaseBalance_covered:
  assumes "ledger_env_ok E" "unat d \<le> bal (view s) a"
  obtains s' where "DecreaseBalance V E a d s = (True, s')" "view s' = debit a d (view s)" "below s' = below s"
proof (cases "d = 0")
  case True
  then show ?thesis using that [of s] by (simp add: DecreaseBalance_def debit_def split: option.splits)
next
  case False
  obtain s1 where get: "vt_GetAccount V a s = (view s a, s1)" "view s1 = view s" "below s1 = below s"
    by (rule GetAccount_cases)
  have "unat d \<noteq> 0" using False by (simp add: unsigned_eq_0_iff)
  then obtain acc where acc: "view s a = Some acc" "unat d \<le> unat (m_balance acc)"
    using assms(2) by (cases "view s a") (simp_all add: bal_def)
  have "Account_DecreaseBalance (SafeMath128 E) d acc = (True, acc\<lparr>m_balance := m_balance acc - d\<rparr>)"
    using assms acc by (simp add: Account_DecreaseBalance_eq ledger_env_ok_def)
  then show ?thesis
    using that [of "write_account V a (acc\<lparr>m_balance := m_balance acc - d\<rparr>) s1"] get acc False
    by (simp add: DecreaseBalance_def debit_def)
qed

lemma DecreaseBalance_uncovered:
  assumes "ledger_env_ok E" "\<not> unat d \<le> bal (view s) a"
  obtains s' where "DecreaseBalance V E a d s = (False, s')" "view s' = view s" "below s' = below s"
proof -
  have d: "d \<noteq> 0" using assms(2) by auto
  obtain s1 where get: "vt_GetAccount V a s = (view s a, s1)" "view s1 = view s" "below s1 = below s"
    by (rule GetAccount_cases)
  show ?thesis
  proof (cases "view s a")
    case None
    then show ?thesis using that [of s1] get d by (simp add: DecreaseBalance_def)
  next
    case (Some acc)
    have "Account_DecreaseBalance (SafeMath128 E) d acc = (False, acc)"
      using assms Some by (simp add: Account_DecreaseBalance_eq ledger_env_ok_def bal_def)
    then show ?thesis
      using that [of "write_account V a acc s1"] get Some d
      by (simp add: DecreaseBalance_def fun_upd_idem)
  qed
qed

text \<open>A transfer that the sender can cover succeeds and moves the amount; any other leaves the ledger
  as it is. The process does not abort.\<close>

lemma TransferBalance_covered:
  assumes "ledger_env_ok E" "supply_fits (view s)" "unat d \<le> bal (view s) src"
  obtains s' where "TransferBalance V E src dst d s = Some (True, s')"
    "view s' = credit E dst d (debit src d (view s))" "below s' = below s"
proof -
  obtain s1 where s1: "DecreaseBalance V E src d s = (True, s1)" "view s1 = debit src d (view s)" "below s1 = below s"
    using DecreaseBalance_covered [OF assms(1,3)] .
  have "bal (view s1) dst + unat d \<le> total_balance (view s)"
    using bal_le_total [of "view s1" dst] total_debit [OF assms(3)] s1 by simp
  then have "bal (view s1) dst + unat d < 2 ^ 128" using assms(2) by (simp add: supply_fits_def)
  then obtain s2 where "IncreaseBalance V E dst d s1 = (True, s2)" "view s2 = credit E dst d (view s1)" "below s2 = below s1"
    using IncreaseBalance_fits [OF assms(1)] by blast
  then show ?thesis using that [of s2] s1 by (simp add: TransferBalance_def)
qed

lemma TransferBalance_total:
  assumes "supply_fits v" "unat d \<le> bal v src"
  shows "total_balance (credit E dst d (debit src d v)) = total_balance v"
proof -
  have "bal (debit src d v) dst + unat d \<le> total_balance v"
    using bal_le_total [of "debit src d v" dst] total_debit [OF assms(2)] by simp
  then have "bal (debit src d v) dst + unat d < 2 ^ 128" using assms(1) by (simp add: supply_fits_def)
  then show ?thesis using total_credit total_debit [OF assms(2)] by simp
qed

lemma TransferBalance_uncovered:
  assumes "ledger_env_ok E" "\<not> unat d \<le> bal (view s) src"
  obtains s' where "TransferBalance V E src dst d s = Some (False, s')" "view s' = view s" "below s' = below s"
proof -
  obtain s1 where "DecreaseBalance V E src d s = (False, s1)" "view s1 = view s" "below s1 = below s"
    using DecreaseBalance_uncovered [OF assms] .
  then show ?thesis using that [of s1] by (simp add: TransferBalance_def)
qed

lemma IncreaseNonce_fits:
  assumes "ledger_env_ok E" "view s a \<noteq> None" "nonce_of (view s) a + 1 < 2 ^ 64"
  obtains s' where "IncreaseNonce V E a s = (True, s')" "view s' = bump_nonce a (view s)" "below s' = below s"
proof -
  obtain s1 where get: "vt_GetAccount V a s = (view s a, s1)" "view s1 = view s" "below s1 = below s"
    by (rule GetAccount_cases)
  obtain acc where acc: "view s a = Some acc" using assms(2) by blast
  have "Account_IncreaseNonce (SafeMath64 E) acc = (True, acc\<lparr>m_nonce := m_nonce acc + 1\<rparr>)"
    using assms acc by (intro Account_IncreaseNonce_fits) (simp_all add: ledger_env_ok_def nonce_of_def)
  then show ?thesis
    using that [of "write_account V a (acc\<lparr>m_nonce := m_nonce acc + 1\<rparr>) s1"] get acc
    by (simp add: IncreaseNonce_def bump_nonce_def)
qed

lemma CalculateGasRefund_eq:
  assumes "ledger_env_ok E" "unat g \<le> unat (tx_gasLimit tx)" "gas_cost (tx_gasLimit tx) tx < 2 ^ 128"
  shows "CalculateGasRefund E (ucast (tx_gasLimit tx) * tx_gasPrice tx) g (tx_gasPrice tx)
    = Some (ucast (tx_gasLimit tx) * tx_gasPrice tx - ucast g * tx_gasPrice tx)"
proof -
  have le: "gas_cost g tx \<le> gas_cost (tx_gasLimit tx) tx" by (rule gas_cost_mono [OF assms(2)])
  then have "gas_cost g tx < 2 ^ 128" using assms(3) by simp
  then have "USafe_mul (SafeMath128 E) (ucast g) (tx_gasPrice tx) 0 = (True, ucast g * tx_gasPrice tx)"
    using assms(1) by (intro usafe_mul) (simp_all add: ledger_env_ok_def gas_cost_def unat_ucast_up)
  moreover have "USafe_sub (SafeMath128 E) (ucast (tx_gasLimit tx) * tx_gasPrice tx) (ucast g * tx_gasPrice tx) 0
      = (True, ucast (tx_gasLimit tx) * tx_gasPrice tx - ucast g * tx_gasPrice tx)"
    using assms le \<open>gas_cost g tx < 2 ^ 128\<close> by (intro usafe_sub) (simp_all add: ledger_env_ok_def gas_product)
  ultimately show ?thesis by (simp add: CalculateGasRefund_def)
qed

lemma payment_accepted:
  assumes "ledger_env_ok E" "supply_fits (view s)" "payment_ok E (GetSenderAddr B tx) tx (view s)"
    and "nonce_of (view s) (GetSenderAddr B tx) + 1 < 2 ^ 64"
  obtains s' where "UpdateAccounts_base V E B tx r s = Some (True, SetCumGas (normal_gas E) (SetResult True r), s')"
    "view s' = pay E (GetSenderAddr B tx) tx (view s)" "below s' = below s"
proof -
  let ?a = "GetSenderAddr B tx" and ?v = "view s" and ?dep = "ucast (tx_gasLimit tx) * tx_gasPrice tx :: 128 word"
  let ?ref = "?dep - ucast (normal_gas E) * tx_gasPrice tx"
  note ok = assms(3) [unfolded payment_ok_def]
  have fits: "gas_cost (tx_gasLimit tx) tx < 2 ^ 128" "unat (tx_amount tx) + gas_cost (tx_gasLimit tx) tx < 2 ^ 128"
    using ok bal_fits [OF assms(2), of ?a] by auto
  have dep: "unat ?dep = gas_cost (tx_gasLimit tx) tx" using fits(1) by (rule gas_product)
  obtain s1 where s1: "vt_GetAccount V ?a s = (?v ?a, s1)" "view s1 = ?v" "below s1 = below s"
    by (rule GetAccount_cases)
  obtain acc where acc: "?v ?a = Some acc" using ok by auto
  have mul: "USafe_mul (SafeMath128 E) (ucast (tx_gasLimit tx)) (tx_gasPrice tx) 0 = (True, ?dep)"
    using assms(1) fits by (intro usafe_mul) (simp_all add: ledger_env_ok_def gas_cost_def unat_ucast_up)
  have guard: "\<not> m_balance acc < tx_amount tx + ?dep"
    using ok acc dep fits unat_add_fits [of "tx_amount tx" ?dep] by (simp add: word_less_nat_alt bal_def)
  have d1: "unat ?dep \<le> bal ?v ?a" using ok dep by simp
  obtain s2 where s2: "DecreaseBalance V E ?a ?dep s1 = (True, s2)" "view s2 = debit ?a ?dep ?v" "below s2 = below s"
    using DecreaseBalance_covered [OF assms(1), of ?dep s1 ?a] d1 s1 by metis
  have b2: "bal (view s2) ?a = bal ?v ?a - gas_cost (tx_gasLimit tx) tx" using bal_debit [OF d1, of ?a] s2(2) dep by simp
  have sup2: "supply_fits (view s2)" "unat (tx_amount tx) \<le> bal (view s2) ?a"
    using total_debit(1) [OF d1] assms(2) s2(2) b2 ok by (auto simp: supply_fits_def)
  obtain s3 where s3: "TransferBalance V E ?a (tx_toAddr tx) (tx_amount tx) s2 = Some (True, s3)"
    "view s3 = credit E (tx_toAddr tx) (tx_amount tx) (debit ?a (tx_amount tx) (view s2))" "below s3 = below s"
    using TransferBalance_covered [OF assms(1) sup2, of "tx_toAddr tx"] s2 by metis
  have tot3: "total_balance (view s3) = total_balance (view s2)"
    using TransferBalance_total [OF sup2] s3 by simp
  have "unat ?ref \<le> unat ?dep"
    using gas_product [of "normal_gas E" tx] gas_cost_mono [of "normal_gas E" "tx_gasLimit tx" tx] ok fits dep
    by (simp add: unat_sub_fits)
  then have "bal (view s3) ?a + unat ?ref < 2 ^ 128"
    using bal_le_total [of "view s3" ?a] tot3 s2(2) total_debit [OF d1] assms(2) by (simp add: supply_fits_def)
  then obtain s4 where s4: "IncreaseBalance V E ?a ?ref s3 = (True, s4)" "view s4 = credit E ?a ?ref (view s3)" "below s4 = below s"
    using IncreaseBalance_fits [OF assms(1)] s3 by metis
  have "view s4 ?a \<noteq> None" "nonce_of (view s4) ?a + 1 < 2 ^ 64"
    using s4 s3 s2 acc assms(4) by simp_all
  then obtain s5 where "IncreaseNonce V E ?a s4 = (True, s5)" "view s5 = bump_nonce ?a (view s4)" "below s5 = below s"
    using IncreaseNonce_fits [OF assms(1)] s4 by metis
  then show ?thesis
    using that [of s5] s1 s2 s3 s4 acc mul guard ok CalculateGasRefund_eq [OF assms(1) _ fits(1), of "normal_gas E"]
    by (simp add: UpdateAccounts_base_def GetSenderAddr_def pay_def word_less_nat_alt Let_def)
qed

lemma payment_rejected:
  assumes "ledger_env_ok E" "supply_fits (view s)" "\<not> payment_ok E (GetSenderAddr B tx) tx (view s)"
  obtains s' where "UpdateAccounts_base V E B tx r s = Some (False, r, s')" "view s' = view s" "below s' = below s"
proof -
  let ?a = "GetSenderAddr B tx" and ?v = "view s" and ?dep = "ucast (tx_gasLimit tx) * tx_gasPrice tx :: 128 word"
  obtain s1 where s1: "vt_GetAccount V ?a s = (?v ?a, s1)" "view s1 = ?v" "below s1 = below s"
    by (rule GetAccount_cases)
  note defs = UpdateAccounts_base_def GetSenderAddr_def Let_def word_less_nat_alt
  consider (early) "?v ?a = None \<or> unat (tx_gasLimit tx) < unat (normal_gas E)"
    | (mul) acc where "?v ?a = Some acc" "\<not> unat (tx_gasLimit tx) < unat (normal_gas E)" "\<not> gas_cost (tx_gasLimit tx) tx < 2 ^ 128"
    | (short) acc where "?v ?a = Some acc" "\<not> unat (tx_gasLimit tx) < unat (normal_gas E)" "gas_cost (tx_gasLimit tx) tx < 2 ^ 128"
    by (cases "?v ?a") auto
  then show ?thesis
  proof cases
    case early
    then show ?thesis using that [of s1] s1 by (cases "?v ?a") (simp_all add: defs)
  next
    case mul
    then have "\<not> fst (USafe_mul (SafeMath128 E) (ucast (tx_gasLimit tx)) (tx_gasPrice tx) 0)"
      using assms(1) by (intro usafe_mul_fail) (simp_all add: ledger_env_ok_def gas_cost_def unat_ucast_up)
    then show ?thesis using that [of s1] s1 mul
      by (cases "USafe_mul (SafeMath128 E) (ucast (tx_gasLimit tx)) (tx_gasPrice tx) 0") (simp add: defs)
  next
    case short
    have dep: "unat ?dep = gas_cost (tx_gasLimit tx) tx" using short by (intro gas_product)
    have m: "USafe_mul (SafeMath128 E) (ucast (tx_gasLimit tx)) (tx_gasPrice tx) 0 = (True, ?dep)"
      using assms(1) short by (intro usafe_mul) (simp_all add: ledger_env_ok_def gas_cost_def unat_ucast_up)
    have more: "bal ?v ?a < unat (tx_amount tx) + unat ?dep" using assms(3) short dep by (simp add: payment_ok_def)
    show ?thesis
    proof (cases "unat ?dep \<le> bal ?v ?a")
      case False
      obtain s2 where "DecreaseBalance V E ?a ?dep s1 = (False, s2)" "view s2 = ?v" "below s2 = below s"
        using DecreaseBalance_uncovered [OF assms(1), of ?dep s1 ?a] False s1 by metis
      then show ?thesis using that s1 short m by (cases "m_balance (the (?v ?a)) < tx_amount tx + ?dep") (simp_all add: defs)
    next
      case True
      obtain s2 where s2: "DecreaseBalance V E ?a ?dep s1 = (True, s2)" "view s2 = debit ?a ?dep ?v" "below s2 = below s"
        using DecreaseBalance_covered [OF assms(1), of ?dep s1 ?a] True s1 by metis
      have "\<not> unat (tx_amount tx) \<le> bal (view s2) ?a" using bal_debit [OF True, of ?a] s2(2) more True by (simp add: not_le)
      then obtain s3 where s3: "TransferBalance V E ?a (tx_toAddr tx) (tx_amount tx) s2 = Some (False, s3)" "view s3 = view s2" "below s3 = below s"
        using TransferBalance_uncovered [OF assms(1), of "tx_amount tx" s2 ?a "tx_toAddr tx"] s2 by metis
      have "bal (view s3) ?a + unat ?dep < 2 ^ 128"
        using bal_debit [OF True, of ?a] s2 s3 True bal_fits [OF assms(2), of ?a] by simp
      then obtain s4 where "IncreaseBalance V E ?a ?dep s3 = (True, s4)" "view s4 = credit E ?a ?dep (view s3)" "below s4 = below s"
        using IncreaseBalance_fits [OF assms(1)] s3 by metis
      then show ?thesis using that s1 s2 s3 short m credit_debit [OF True]
        by (cases "m_balance (the (?v ?a)) < tx_amount tx + ?dep") (simp_all add: defs)
    qed
  qed
qed

end

section \<open>What the operations leave alone\<close>

text \<open>Every inherited operation is a sequence of lookups, writes and insertions, so a relation that these
  respect holds between the store before and after.\<close>

locale store_frame =
  fixes V :: "'s store_vt" and R :: "'s \<Rightarrow> 's \<Rightarrow> bool"
  assumes frame_refl: "R s s"
    and frame_trans: "R s t \<Longrightarrow> R t u \<Longrightarrow> R s u"
    and frame_get: "vt_GetAccount V a s = (r, s') \<Longrightarrow> R s s'"
    and frame_write: "R s (vt_update V (AList.update a acc) s)"
    and frame_insert: "R s (vt_update V (map_insert a acc) s)"
begin

lemma frame_write_after_get: "vt_GetAccount V a s = (r, s') \<Longrightarrow> R s (write_account V b acc s')"
  using frame_trans [OF frame_get frame_write] by (simp add: write_account_def)

lemma frame_AddAccount: "R s (AddAccount V a acc s)"
  using frame_trans [OF frame_get frame_insert] frame_get [of a s]
  by (auto simp: AddAccount_def IsAccountExist_def split: prod.splits)

lemma frame_IncreaseBalance: "IncreaseBalance V E a d s = (ok, s') \<Longrightarrow> R s s'"
  using frame_trans [OF frame_get frame_AddAccount] frame_write_after_get
  by (fastforce simp: IncreaseBalance_def frame_refl split: prod.splits option.splits if_splits)

lemma frame_DecreaseBalance: "DecreaseBalance V E a d s = (ok, s') \<Longrightarrow> R s s'"
  using frame_get frame_write_after_get
  by (fastforce simp: DecreaseBalance_def frame_refl split: prod.splits option.splits if_splits)

lemma frame_IncreaseNonce: "IncreaseNonce V E a s = (ok, s') \<Longrightarrow> R s s'"
  using frame_get frame_write_after_get
  by (fastforce simp: IncreaseNonce_def split: prod.splits option.splits)

lemma frame_TransferBalance:
  assumes "TransferBalance V E src dst d s = Some (ok, s')"
  shows "R s s'"
proof -
  obtain ok1 s1 where s1: "DecreaseBalance V E src d s = (ok1, s1)" by fastforce
  obtain ok2 s2 where s2: "IncreaseBalance V E dst d s1 = (ok2, s2)" by fastforce
  obtain ok3 s3 where s3: "IncreaseBalance V E src d s2 = (ok3, s3)" by fastforce
  have "R s s1" "R s1 s2" "R s2 s3"
    using frame_DecreaseBalance [OF s1] frame_IncreaseBalance [OF s2] frame_IncreaseBalance [OF s3] .
  moreover have "s' = s1 \<or> s' = s2 \<or> s' = s3"
    using assms s1 s2 s3 by (auto simp: TransferBalance_def split: bool.splits)
  ultimately show ?thesis using frame_trans by blast
qed

end

end
