(* ===== verification/LevelDB.thy ===== *)
theory LevelDB
  imports ByteCodec
begin

text \<open>
  The database wrapper of \<open>depends/libDatabase/LevelDB.cpp\<close> and the text forms of its keys: decimal
  numbers (\<open>convert_to<string>\<close>, \<open>std::to_string\<close>) and hexadecimal hashes (\<open>FixedHash::hex\<close>). Texts are octet
  strings.

  The LevelDB library itself is a parameter: a record of its calls on the files of one database. A
  database name may have files in several directories, so every call names the directory. The
  documented behaviour that the code relies on is \<open>leveldb_ok\<close>. A call on an object whose \<open>m_db\<close> is null is
  \<open>None\<close>.
\<close>

section \<open>Texts of numbers and hashes\<close>

fun to_decimal :: "nat \<Rightarrow> bytes" where
  "to_decimal n =
     (if n < 10 then [of_nat (48 + n)] else to_decimal (n div 10) @ [of_nat (48 + n mod 10)])"

declare to_decimal.simps [simp del]

definition is_digit :: "byte \<Rightarrow> bool" where
  "is_digit b \<longleftrightarrow> 48 \<le> unat b \<and> unat b \<le> 57"

definition digits_value :: "bytes \<Rightarrow> nat" where
  "digits_value = foldl (\<lambda>a b. 10 * a + (unat b - 48)) 0"

text \<open>\<open>std::stoul\<close> and \<open>std::stoull\<close> (both 64 bits wide): white space, an optional sign, digits; trailing
  characters are ignored. Without digits, or out of range, an exception is thrown.\<close>

definition is_space :: "byte \<Rightarrow> bool" where
  "is_space b \<longleftrightarrow> b = 32 \<or> (9 \<le> unat b \<and> unat b \<le> 13)"

definition stoul :: "bytes \<Rightarrow> nat option" where
  "stoul s =
     (let t = dropWhile is_space s;
          neg = (t \<noteq> [] \<and> hd t = 45);
          u = (if t \<noteq> [] \<and> (hd t = 45 \<or> hd t = 43) then tl t else t);
          ds = takeWhile is_digit u
      in if ds = [] \<or> digits_value ds \<ge> 2 ^ 64 then None
         else Some (if neg then sub64 0 (digits_value ds) else digits_value ds))"

definition hexdigit :: "nat \<Rightarrow> byte" where
  "hexdigit n = (if n < 10 then of_nat (48 + n) else of_nat (87 + n))"

definition toHex :: "bytes \<Rightarrow> bytes" where
  "toHex bs = concat (map (\<lambda>b. [hexdigit (unat b div 16), hexdigit (unat b mod 16)]) bs)"

definition fromHexChar :: "byte \<Rightarrow> int" where
  "fromHexChar c =
     (let i = int (unat c)
      in if 48 \<le> i \<and> i \<le> 57 then i - 48
         else if 97 \<le> i \<and> i \<le> 102 then i - 97 + 10
         else if 65 \<le> i \<and> i \<le> 70 then i - 65 + 10
         else -1)"

text \<open>\<open>fromHex\<close> as \<open>FixedHash\<close> calls it: a character that is no hexadecimal digit throws.\<close>

fun fromHex_pairs :: "bytes \<Rightarrow> bytes option" where
  "fromHex_pairs (c # d # cs) =
     (if fromHexChar c \<noteq> -1 \<and> fromHexChar d \<noteq> -1
      then map_option ((#) (of_int (fromHexChar c * 16 + fromHexChar d))) (fromHex_pairs cs)
      else None)"
| "fromHex_pairs [] = Some []"
| "fromHex_pairs [c] = None"

definition fromHex :: "bytes \<Rightarrow> bytes option" where
  "fromHex s =
     (let t = (if length s \<ge> 2 \<and> s ! 0 = 48 \<and> s ! 1 = 120 then drop 2 s else s)
      in if odd (length s)
         then (case t of
                 [] \<Rightarrow> None
               | c # cs \<Rightarrow>
                   if fromHexChar c \<noteq> -1 then map_option ((#) (of_int (fromHexChar c))) (fromHex_pairs cs)
                   else None)
         else fromHex_pairs t)"

text \<open>A hash of 32 octets read from hexadecimal text; a text of another length gives the zero hash.\<close>

definition FixedHash_from_hex :: "bytes \<Rightarrow> bytes option" where
  "FixedHash_from_hex s =
     map_option (\<lambda>bs. if length bs = 32 then bs else replicate 32 0) (fromHex s)"

section \<open>The library\<close>

datatype db_path = Cwd | Persistence bytes

record 'd leveldb =
  ldb_Get :: "'d \<Rightarrow> db_path \<Rightarrow> bytes \<Rightarrow> bytes option"
  ldb_Put :: "'d \<Rightarrow> db_path \<Rightarrow> bytes \<Rightarrow> bytes \<Rightarrow> 'd \<times> bool"
  ldb_Delete :: "'d \<Rightarrow> db_path \<Rightarrow> bytes \<Rightarrow> 'd \<times> bool"
  ldb_Entries :: "'d \<Rightarrow> db_path \<Rightarrow> (bytes \<times> bytes) list"
  ldb_DestroyDB :: "'d \<Rightarrow> db_path \<Rightarrow> 'd \<times> bool"
  ldb_remove_all :: "'d \<Rightarrow> db_path \<Rightarrow> 'd"
  ldb_Open :: "'d \<Rightarrow> db_path \<Rightarrow> 'd \<times> bool"
  ldb_Write :: "'d \<Rightarrow> db_path \<Rightarrow> (bytes \<times> bytes) list \<Rightarrow> 'd \<times> bool"

text \<open>A successful write or deletion changes the one key, an iterator visits the entries in some order,
  a removed directory has no entries and opening changes none. A write batch is atomic: it puts its
  entries one after the other, or fails and puts none.\<close>

definition leveldb_ok :: "'d leveldb \<Rightarrow> bool" where
  "leveldb_ok D \<longleftrightarrow>
     (\<forall>d p k v d'. ldb_Put D d p k v = (d', True) \<longrightarrow> ldb_Get D d' p = (ldb_Get D d p)(k \<mapsto> v))
     \<and> (\<forall>d p k d'. ldb_Delete D d p k = (d', True) \<longrightarrow> ldb_Get D d' p = (ldb_Get D d p)(k := None))
     \<and> (\<forall>d p. map_of (ldb_Entries D d p) = ldb_Get D d p)
     \<and> (\<forall>d p. ldb_Get D (ldb_remove_all D d p) p = Map.empty)
     \<and> (\<forall>d p. ldb_Get D (fst (ldb_Open D d p)) p = ldb_Get D d p)
     \<and> (\<forall>d p kvs d'. ldb_Write D d p kvs = (d', True) \<longrightarrow> ldb_Get D d' p = ldb_Get D d p ++ map_of (rev kvs))
     \<and> (\<forall>d p kvs d'. ldb_Write D d p kvs = (d', False) \<longrightarrow> ldb_Get D d' p = ldb_Get D d p)"

section \<open>The wrapper\<close>

text \<open>\<open>m_db\<close> is the directory in which the database is open, \<open>None\<close> for a null pointer.\<close>

record 'd LevelDB =
  m_subdirectory :: bytes
  m_db :: "db_path option"
  m_files :: 'd

definition LevelDB_Lookup :: "'d leveldb \<Rightarrow> 'd LevelDB \<Rightarrow> bytes \<Rightarrow> bytes option" where
  "LevelDB_Lookup D L key = do {
     p \<leftarrow> m_db L;
     Some (case ldb_Get D (m_files L) p key of None \<Rightarrow> [] | Some v \<Rightarrow> v) }"

definition LevelDB_Lookup_found :: "'d leveldb \<Rightarrow> 'd LevelDB \<Rightarrow> bytes \<Rightarrow> (bytes \<times> bool) option" where
  "LevelDB_Lookup_found D L key = do {
     p \<leftarrow> m_db L;
     Some (case ldb_Get D (m_files L) p key of None \<Rightarrow> ([], False) | Some v \<Rightarrow> (v, True)) }"

definition LevelDB_Insert ::
    "'d leveldb \<Rightarrow> 'd LevelDB \<Rightarrow> bytes \<Rightarrow> bytes \<Rightarrow> ('d LevelDB \<times> int) option" where
  "LevelDB_Insert D L key body = do {
     p \<leftarrow> m_db L;
     (case ldb_Put D (m_files L) p key body of
        (d, ok) \<Rightarrow> Some (L\<lparr>m_files := d\<rparr>, if ok then 0 else -1)) }"

definition LevelDB_DeleteKey :: "'d leveldb \<Rightarrow> 'd LevelDB \<Rightarrow> bytes \<Rightarrow> ('d LevelDB \<times> int) option" where
  "LevelDB_DeleteKey D L key = do {
     p \<leftarrow> m_db L;
     (case ldb_Delete D (m_files L) p key of
        (d, ok) \<Rightarrow> Some (L\<lparr>m_files := d\<rparr>, if ok then 0 else -1)) }"

text \<open>The batch insertion of string pairs leaves out empty values.\<close>

definition LevelDB_BatchInsert ::
    "'d leveldb \<Rightarrow> 'd LevelDB \<Rightarrow> (bytes \<times> bytes) list \<Rightarrow> ('d LevelDB \<times> bool) option" where
  "LevelDB_BatchInsert D L kv_map = do {
     p \<leftarrow> m_db L;
     (case ldb_Write D (m_files L) p (filter (\<lambda>e. snd e \<noteq> []) kv_map) of
        (d, ok) \<Rightarrow> Some (L\<lparr>m_files := d\<rparr>, ok)) }"

definition LevelDB_Exists :: "'d leveldb \<Rightarrow> 'd LevelDB \<Rightarrow> bytes \<Rightarrow> bool option" where
  "LevelDB_Exists D L key = map_option (\<lambda>v. v \<noteq> []) (LevelDB_Lookup D L key)"

definition LevelDB_Entries :: "'d leveldb \<Rightarrow> 'd LevelDB \<Rightarrow> (bytes \<times> bytes) list option" where
  "LevelDB_Entries D L = map_option (ldb_Entries D (m_files L)) (m_db L)"

text \<open>Deleting closes the database first. A lookup node destroys a directory below the working
  directory, not below the persistence path.\<close>

definition DeleteDBForNormalNode :: "'d leveldb \<Rightarrow> 'd LevelDB \<Rightarrow> 'd LevelDB \<times> int" where
  "DeleteDBForNormalNode D L =
     (case ldb_DestroyDB D (m_files L) (Persistence (m_subdirectory L)) of
        (d, ok) \<Rightarrow>
          if \<not> ok then (L\<lparr>m_db := None, m_files := d\<rparr>, -1)
          else (L\<lparr>m_db := None,
                  m_files := (if m_subdirectory L \<noteq> [] then ldb_remove_all D d (Persistence (m_subdirectory L)) else d)\<rparr>, 0))"

definition DeleteDBForLookupNode :: "'d leveldb \<Rightarrow> 'd LevelDB \<Rightarrow> 'd LevelDB \<times> int" where
  "DeleteDBForLookupNode D L =
     (case ldb_DestroyDB D (m_files L) Cwd of
        (d, ok) \<Rightarrow> (L\<lparr>m_db := None, m_files := d\<rparr>, if ok then 0 else -1))"

text \<open>A failing \<open>Open\<close> leaves a null pointer; resetting still returns true then.\<close>

definition reopen_empty :: "'d leveldb \<Rightarrow> 'd LevelDB \<Rightarrow> 'd LevelDB" where
  "reopen_empty D L =
     (case ldb_Open D (ldb_remove_all D (m_files L) (Persistence [])) (Persistence []) of
        (d, ok) \<Rightarrow> L\<lparr>m_db := (if ok then Some (Persistence []) else None), m_files := d\<rparr>)"

definition ResetDBForNormalNode :: "'d leveldb \<Rightarrow> 'd LevelDB \<Rightarrow> 'd LevelDB \<times> bool" where
  "ResetDBForNormalNode D L =
     (case DeleteDBForNormalNode D L of
        (L1, rc) \<Rightarrow> if rc = 0 \<and> m_subdirectory L1 = [] then (reopen_empty D L1, True) else (L1, False))"

definition ResetDBForLookupNode :: "'d leveldb \<Rightarrow> 'd LevelDB \<Rightarrow> 'd LevelDB \<times> bool" where
  "ResetDBForLookupNode D L =
     (case DeleteDBForLookupNode D L of
        (L1, rc) \<Rightarrow> if rc = 0 then (reopen_empty D L1, True) else (L1, False))"

definition LevelDB_ResetDB :: "bool \<Rightarrow> 'd leveldb \<Rightarrow> 'd LevelDB \<Rightarrow> 'd LevelDB \<times> bool" where
  "LevelDB_ResetDB LOOKUP_NODE_MODE D L =
     (if LOOKUP_NODE_MODE then ResetDBForLookupNode D L else ResetDBForNormalNode D L)"

definition LevelDB_RefreshDB :: "'d leveldb \<Rightarrow> 'd LevelDB \<Rightarrow> 'd LevelDB \<times> bool" where
  "LevelDB_RefreshDB D L =
     (case ldb_Open D (m_files L) (Persistence []) of
        (d, ok) \<Rightarrow> (L\<lparr>m_db := (if ok then Some (Persistence []) else None), m_files := d\<rparr>, ok))"

section \<open>Texts read back\<close>

lemma to_decimal_digits: "b \<in> set (to_decimal n) \<Longrightarrow> is_digit b"
proof (induction n rule: to_decimal.induct)
  case (1 n)
  have small: "is_digit (of_nat (48 + k))" if "k < 10" for k :: nat
    using that by (simp add: is_digit_def unat_of_nat_byte del: of_nat_add)
  show ?case
  proof (cases "n < 10")
    case True
    then show ?thesis using 1 small by (simp add: to_decimal.simps [of n] del: of_nat_add)
  next
    case False
    then have "b \<in> set (to_decimal (n div 10)) \<or> b = of_nat (48 + n mod 10)"
      using 1(2) by (auto simp: to_decimal.simps [of n] simp del: of_nat_add)
    then show ?thesis using 1(1) [OF False] small [of "n mod 10"] by auto
  qed
qed

lemma digits_value_snoc: "digits_value (ds @ [b]) = 10 * digits_value ds + (unat b - 48)"
  by (simp add: digits_value_def)

lemma digits_value_to_decimal: "digits_value (to_decimal n) = n"
proof (induction n rule: to_decimal.induct)
  case (1 n)
  have small: "unat (of_nat (48 + k) :: byte) - 48 = k" if "k < 10" for k :: nat
    using that by (simp add: unat_of_nat_byte del: of_nat_add)
  show ?case
  proof (cases "n < 10")
    case True
    then show ?thesis using small by (simp add: to_decimal.simps [of n] digits_value_def del: of_nat_add)
  next
    case False
    then show ?thesis using 1 small [of "n mod 10"]
      by (simp add: to_decimal.simps [of n] digits_value_snoc del: of_nat_add)
  qed
qed

lemma to_decimal_eq_iff [simp]: "to_decimal m = to_decimal n \<longleftrightarrow> m = n"
  using digits_value_to_decimal by metis

lemma to_decimal_not_Nil [simp]: "to_decimal n \<noteq> []"
  by (subst to_decimal.simps) simp

lemma stoul_to_decimal:
  assumes "n < 2 ^ 64"
  shows "stoul (to_decimal n) = Some n"
proof -
  let ?s = "to_decimal n"
  obtain b bs where s: "?s = b # bs" using to_decimal_not_Nil [of n] by (cases ?s) auto
  have "is_digit b" using to_decimal_digits [of b n] s by simp
  then have not: "\<not> is_space b" "b \<noteq> 45" "b \<noteq> 43" by (auto simp: is_digit_def is_space_def)
  have "takeWhile is_digit ?s = ?s" using to_decimal_digits by (simp add: takeWhile_eq_all_conv)
  then show ?thesis using not assms digits_value_to_decimal [of n] s
    by (simp add: stoul_def Let_def)
qed

lemma fromHexChar_hexdigit: "n < 16 \<Longrightarrow> fromHexChar (hexdigit n) = int n"
proof -
  assume n: "n < 16"
  have "int (unat (hexdigit n)) = (if n < 10 then 48 + int n else 87 + int n)"
    using n by (simp add: hexdigit_def unat_of_nat_byte del: of_nat_add of_nat_unat)
  then show ?thesis using n unfolding fromHexChar_def Let_def by auto
qed

lemma fromHex_pairs_toHex: "fromHex_pairs (toHex bs) = Some bs"
proof (induction bs)
  case (Cons b bs)
  have "unat b < 256" using unsigned_less [where ?w = b and ?'a = nat] by simp
  then have "unat b div 16 < 16" by simp
  moreover have "of_int (int (unat b div 16) * 16 + int (unat b mod 16)) = b"
  proof -
    have "int (unat b div 16) * 16 + int (unat b mod 16) = int (unat b)"
      by (metis div_mult_mod_eq of_nat_add of_nat_mult of_nat_numeral)
    then show ?thesis by (simp only:) simp
  qed
  ultimately show ?case using Cons by (simp add: toHex_def fromHexChar_hexdigit)
qed (simp add: toHex_def)

lemma length_toHex: "length (toHex bs) = 2 * length bs"
  by (induction bs) (simp_all add: toHex_def)

lemma hexdigit_not_x: "n < 16 \<Longrightarrow> hexdigit n \<noteq> 120"
proof
  assume n: "n < 16" and "hexdigit n = 120"
  then have "fromHexChar 120 = int n" using fromHexChar_hexdigit [OF n] by simp
  then show False by (simp add: fromHexChar_def)
qed

lemma fromHex_toHex: "fromHex (toHex bs) = Some bs"
proof (cases bs)
  case (Cons b cs)
  then have "toHex bs ! 1 \<noteq> 120" using hexdigit_not_x [of "unat b mod 16"] by (simp add: toHex_def)
  then show ?thesis by (simp add: fromHex_def Let_def length_toHex fromHex_pairs_toHex)
qed (simp add: fromHex_def toHex_def)

lemma toHex_eq_iff [simp]: "toHex a = toHex b \<longleftrightarrow> a = b"
  using fromHex_toHex by (metis option.inject)

lemma FixedHash_hex: "length h = 32 \<Longrightarrow> FixedHash_from_hex (toHex h) = Some h"
  by (simp add: FixedHash_from_hex_def fromHex_toHex)

section \<open>The contents of an open database\<close>

text \<open>What the client of the wrapper sees: the map of the entries in the directory that is open.\<close>

definition contents :: "'d leveldb \<Rightarrow> 'd LevelDB \<Rightarrow> bytes \<rightharpoonup> bytes" where
  "contents D L = (case m_db L of None \<Rightarrow> Map.empty | Some p \<Rightarrow> ldb_Get D (m_files L) p)"

definition is_open :: "'d LevelDB \<Rightarrow> bool" where
  "is_open L \<longleftrightarrow> m_db L \<noteq> None"

lemma LevelDB_Lookup_contents:
  "is_open L \<Longrightarrow> LevelDB_Lookup D L k = Some (case contents D L k of None \<Rightarrow> [] | Some v \<Rightarrow> v)"
  by (auto simp: LevelDB_Lookup_def contents_def is_open_def)

lemma LevelDB_Lookup_found_contents:
  "is_open L \<Longrightarrow>
   LevelDB_Lookup_found D L k = Some (case contents D L k of None \<Rightarrow> ([], False) | Some v \<Rightarrow> (v, True))"
  by (auto simp: LevelDB_Lookup_found_def contents_def is_open_def)

lemma LevelDB_Insert_contents:
  assumes "leveldb_ok D" "LevelDB_Insert D L k v = Some (L', rc)" "rc = 0"
  shows "contents D L' = (contents D L)(k \<mapsto> v)" "is_open L'" "is_open L"
  using assms by (auto simp: LevelDB_Insert_def contents_def is_open_def leveldb_ok_def
      split: bind_splits prod.splits if_splits)

lemma LevelDB_Insert_total: "is_open L \<Longrightarrow> \<exists>L' rc. LevelDB_Insert D L k v = Some (L', rc) \<and> is_open L'"
  by (auto simp: LevelDB_Insert_def is_open_def split: prod.splits)

lemma LevelDB_DeleteKey_contents:
  assumes "leveldb_ok D" "LevelDB_DeleteKey D L k = Some (L', rc)" "rc = 0"
  shows "contents D L' = (contents D L)(k := None)" "is_open L'"
  using assms by (auto simp: LevelDB_DeleteKey_def contents_def is_open_def leveldb_ok_def
      split: bind_splits prod.splits if_splits)

lemma LevelDB_DeleteKey_total: "is_open L \<Longrightarrow> \<exists>L' rc. LevelDB_DeleteKey D L k = Some (L', rc) \<and> is_open L'"
  by (auto simp: LevelDB_DeleteKey_def is_open_def split: prod.splits)

lemma LevelDB_BatchInsert_contents:
  assumes "leveldb_ok D" "LevelDB_BatchInsert D L kvs = Some (L', ok)"
  shows "contents D L' = (if ok then contents D L ++ map_of (rev (filter (\<lambda>e. snd e \<noteq> []) kvs)) else contents D L)"
    and "is_open L'" "is_open L"
  using assms by (auto simp: LevelDB_BatchInsert_def contents_def is_open_def leveldb_ok_def
      split: bind_splits prod.splits if_splits)

lemma LevelDB_BatchInsert_total: "is_open L \<Longrightarrow> \<exists>L' ok. LevelDB_BatchInsert D L kvs = Some (L', ok)"
  by (auto simp: LevelDB_BatchInsert_def is_open_def split: prod.splits)

lemma LevelDB_ResetDB_contents:
  assumes "leveldb_ok D" "LevelDB_ResetDB mode D L = (L', True)"
  shows "contents D L' = Map.empty"
proof -
  have "contents D (reopen_empty D K) = Map.empty" for K
  proof -
    let ?o = "ldb_Open D (ldb_remove_all D (m_files K) (Persistence [])) (Persistence [])"
    have "ldb_Get D (fst ?o) (Persistence []) = Map.empty" using assms(1) by (simp add: leveldb_ok_def)
    then show ?thesis by (cases ?o) (simp add: contents_def reopen_empty_def)
  qed
  then show ?thesis using assms(2)
    by (auto simp: LevelDB_ResetDB_def ResetDBForNormalNode_def ResetDBForLookupNode_def
        split: if_splits prod.splits)
qed

section \<open>An instance\<close>

text \<open>Files as maps, every call successful.\<close>

definition map_db :: "(db_path \<Rightarrow> (bytes \<times> bytes) list) leveldb" where
  "map_db = \<lparr>
     ldb_Get = (\<lambda>d p. map_of (d p)),
     ldb_Put = (\<lambda>d p k v. (d(p := (k, v) # d p), True)),
     ldb_Delete = (\<lambda>d p k. (d(p := filter (\<lambda>e. fst e \<noteq> k) (d p)), True)),
     ldb_Entries = (\<lambda>d p. d p),
     ldb_DestroyDB = (\<lambda>d p. (d(p := []), True)),
     ldb_remove_all = (\<lambda>d p. d(p := [])),
     ldb_Open = (\<lambda>d p. (d, True)),
     ldb_Write = (\<lambda>d p kvs. (d(p := rev kvs @ d p), True))\<rparr>"

lemma map_db_ok: "leveldb_ok map_db"
proof -
  have "map_of (filter (\<lambda>e. fst e \<noteq> k) xs) = (map_of xs)(k := None)" for k :: bytes and xs :: "(bytes \<times> bytes) list"
    by (induction xs) (auto simp: fun_eq_iff)
  then show ?thesis by (auto simp: leveldb_ok_def map_db_def)
qed

definition fresh_db :: "(db_path \<Rightarrow> (bytes \<times> bytes) list) LevelDB" where
  "fresh_db = \<lparr>m_subdirectory = [], m_db = Some (Persistence []), m_files = (\<lambda>_. [])\<rparr>"

end
