(* ===== verification/MultiSig.thy ===== *)
theory MultiSig
  imports Schnorr
begin

text \<open>
  The collective-signature objects and operations of \<open>libCrypto/MultiSig.cpp\<close>. Each object is a
  value with an \<open>m_initialized\<close> flag. Two details of the source matter later and are kept:
  the copy constructor and the assignment operator of every object set the flag of the result
  whatever the flag of the source is, and \<open>Deserialize\<close> reports success even when the value
  could not be read. An object whose value pointer is null after such a failed read is \<open>None\<close>.
\<close>

section \<open>Objects with an initialisation flag\<close>

record 'v flagged =
  fval :: 'v
  finit :: bool

type_synonym CommitSecret = "int flagged"
type_synonym 'pt CommitPoint = "'pt flagged"
type_synonym CommitPointHash = "int flagged"
type_synonym Challenge = "int flagged"
type_synonym Response = "int flagged"

definition Initialized :: "'v flagged option \<Rightarrow> bool" where
  "Initialized x = (case x of None \<Rightarrow> False | Some y \<Rightarrow> finit y)"

definition copied :: "'v flagged \<Rightarrow> 'v flagged" where
  "copied src = \<lparr>fval = fval src, finit = True\<rparr>"

definition scalar_eq :: "int flagged \<Rightarrow> int flagged \<Rightarrow> bool" where
  "scalar_eq l r \<longleftrightarrow> finit l \<and> finit r \<and> fval l = fval r"

definition scalar_Serialize :: "bytes \<Rightarrow> nat \<Rightarrow> int flagged \<Rightarrow> bytes \<times> nat" where
  "scalar_Serialize dst offset x =
     ((if finit x then BIGNUMSerialize_SetNumber dst offset 32 (fval x) else dst), 32)"

definition scalar_Deserialize :: "bytes \<Rightarrow> nat \<Rightarrow> int flagged option \<times> int" where
  "scalar_Deserialize src offset =
     (case BIGNUMSerialize_GetNumber src offset 32 of
        None \<Rightarrow> (None, 0)
      | Some v \<Rightarrow> (Some \<lparr>fval = v, finit = True\<rparr>, 0))"

subsection \<open>CommitSecret\<close>

fun CommitSecret_generate :: "int \<Rightarrow> int option list \<Rightarrow> CommitSecret option" where
  "CommitSecret_generate cur [] = None"
| "CommitSecret_generate cur (None # draws) = Some \<lparr>fval = cur, finit = False\<rparr>"
| "CommitSecret_generate cur (Some v # draws) =
     (if v = 0 then CommitSecret_generate v draws else Some \<lparr>fval = v, finit = True\<rparr>)"

definition CommitSecret_copy :: "CommitSecret \<Rightarrow> CommitSecret" where
  "CommitSecret_copy src = copied src"

definition CommitSecret_assign :: "CommitSecret \<Rightarrow> CommitSecret \<Rightarrow> CommitSecret" where
  "CommitSecret_assign this src = copied src"

definition CommitSecret_Serialize :: "bytes \<Rightarrow> nat \<Rightarrow> CommitSecret \<Rightarrow> bytes \<times> nat" where
  "CommitSecret_Serialize dst offset x = scalar_Serialize dst offset x"

definition CommitSecret_Deserialize :: "bytes \<Rightarrow> nat \<Rightarrow> CommitSecret option \<times> int" where
  "CommitSecret_Deserialize src offset = scalar_Deserialize src offset"

definition CommitSecret_eq :: "CommitSecret \<Rightarrow> CommitSecret \<Rightarrow> bool" where
  "CommitSecret_eq l r = scalar_eq l r"

subsection \<open>CommitPoint\<close>

definition CommitPoint_default :: "'pt openssl \<Rightarrow> 'pt CommitPoint" where
  "CommitPoint_default B = \<lparr>fval = EC_POINT_new B, finit = False\<rparr>"

definition CommitPoint_Set :: "'pt openssl \<Rightarrow> 'pt CommitPoint \<Rightarrow> CommitSecret \<Rightarrow> 'pt CommitPoint" where
  "CommitPoint_Set B this secret =
     (if \<not> finit secret then this
      else case EC_POINT_mul B (fval secret) None of
             None \<Rightarrow> this\<lparr>finit := False\<rparr>
           | Some Q \<Rightarrow> \<lparr>fval = Q, finit = True\<rparr>)"

definition CommitPoint_from_secret :: "'pt openssl \<Rightarrow> CommitSecret \<Rightarrow> 'pt CommitPoint" where
  "CommitPoint_from_secret B secret = CommitPoint_Set B (CommitPoint_default B) secret"

definition CommitPoint_copy :: "'pt CommitPoint \<Rightarrow> 'pt CommitPoint" where
  "CommitPoint_copy src = copied src"

definition CommitPoint_assign :: "'pt CommitPoint \<Rightarrow> 'pt CommitPoint \<Rightarrow> 'pt CommitPoint" where
  "CommitPoint_assign this src = copied src"

definition CommitPoint_Serialize :: "'pt openssl \<Rightarrow> bytes \<Rightarrow> nat \<Rightarrow> 'pt CommitPoint \<Rightarrow> bytes \<times> nat" where
  "CommitPoint_Serialize B dst offset x =
     ((if finit x then ECPOINTSerialize_SetNumber B dst offset 33 (fval x) else dst), 33)"

definition CommitPoint_Deserialize :: "'pt openssl \<Rightarrow> bytes \<Rightarrow> nat \<Rightarrow> 'pt CommitPoint option \<times> int" where
  "CommitPoint_Deserialize B src offset =
     (case ECPOINTSerialize_GetNumber B src offset 33 of
        None \<Rightarrow> (None, 0)
      | Some p \<Rightarrow> (Some \<lparr>fval = p, finit = True\<rparr>, 0))"

definition CommitPoint_eq :: "'pt openssl \<Rightarrow> 'pt CommitPoint \<Rightarrow> 'pt CommitPoint \<Rightarrow> bool" where
  "CommitPoint_eq B l r \<longleftrightarrow> finit l \<and> finit r \<and> EC_POINT_cmp B (fval l) (fval r) = 0"

subsection \<open>CommitPointHash\<close>

definition CommitPointHash_default :: CommitPointHash where
  "CommitPointHash_default = \<lparr>fval = 0, finit = False\<rparr>"

definition CommitPointHash_Set ::
    "'pt openssl \<Rightarrow> CommitPointHash \<Rightarrow> 'pt CommitPoint \<Rightarrow> CommitPointHash" where
  "CommitPointHash_Set B this point =
     (if \<not> finit point then this
      else if length (EC_POINT_point2oct B (fval point)) \<noteq> 33 then this\<lparr>finit := False\<rparr>
      else
        let sha2 = SHA2_Update (SHA2_Update SHA2_Reset [0x01]) (EC_POINT_point2oct B (fval point));
            digest = SHA2_Finalize B sha2
        in case BN_nnmod B (BN_bin2bn digest) (ec_order B) of
             None \<Rightarrow> \<lparr>fval = BN_bin2bn digest, finit = False\<rparr>
           | Some h \<Rightarrow> \<lparr>fval = h, finit = True\<rparr>)"

definition CommitPointHash_from_point :: "'pt openssl \<Rightarrow> 'pt CommitPoint \<Rightarrow> CommitPointHash" where
  "CommitPointHash_from_point B point = CommitPointHash_Set B CommitPointHash_default point"

definition CommitPointHash_copy :: "CommitPointHash \<Rightarrow> CommitPointHash" where
  "CommitPointHash_copy src = copied src"

definition CommitPointHash_assign :: "CommitPointHash \<Rightarrow> CommitPointHash \<Rightarrow> CommitPointHash" where
  "CommitPointHash_assign this src = copied src"

definition CommitPointHash_Serialize :: "bytes \<Rightarrow> nat \<Rightarrow> CommitPointHash \<Rightarrow> bytes \<times> nat" where
  "CommitPointHash_Serialize dst offset x = scalar_Serialize dst offset x"

definition CommitPointHash_Deserialize :: "bytes \<Rightarrow> nat \<Rightarrow> CommitPointHash option \<times> int" where
  "CommitPointHash_Deserialize src offset = scalar_Deserialize src offset"

definition CommitPointHash_eq :: "CommitPointHash \<Rightarrow> CommitPointHash \<Rightarrow> bool" where
  "CommitPointHash_eq l r = scalar_eq l r"

subsection \<open>Challenge\<close>

definition Challenge_default :: Challenge where
  "Challenge_default = \<lparr>fval = 0, finit = False\<rparr>"

text \<open>\<open>None\<close> is a read outside the message (see \<open>SHA2_Update_range\<close>).\<close>

definition Challenge_Set ::
    "'pt openssl \<Rightarrow> Challenge \<Rightarrow> 'pt CommitPoint \<Rightarrow> 'pt PubKey \<Rightarrow> bytes \<Rightarrow> nat \<Rightarrow> nat \<Rightarrow> Challenge option" where
  "Challenge_Set B this aggregatedCommit aggregatedPubkey message offset sz =
     (if \<not> finit aggregatedCommit then Some this
      else if length message = 0 then Some this
      else if length message < u32 (offset + sz) then Some this
      else if length (EC_POINT_point2oct B (fval aggregatedCommit)) \<noteq> 33
           then Some (this\<lparr>finit := False\<rparr>)
      else if length (EC_POINT_point2oct B aggregatedPubkey) \<noteq> 33
           then Some (this\<lparr>finit := False\<rparr>)
      else
        let sha2 = SHA2_Update (SHA2_Update (SHA2_Update SHA2_Reset [0x11])
                     (EC_POINT_point2oct B (fval aggregatedCommit)))
                     (EC_POINT_point2oct B aggregatedPubkey)
        in case SHA2_Update_range sha2 message offset sz of
             None \<Rightarrow> None
           | Some sha2' \<Rightarrow>
               let digest = SHA2_Finalize B sha2'
               in Some (case BN_nnmod B (BN_bin2bn digest) (ec_order B) of
                          None \<Rightarrow> \<lparr>fval = BN_bin2bn digest, finit = False\<rparr>
                        | Some c \<Rightarrow> \<lparr>fval = c, finit = True\<rparr>))"

definition Challenge_from ::
    "'pt openssl \<Rightarrow> 'pt CommitPoint \<Rightarrow> 'pt PubKey \<Rightarrow> bytes \<Rightarrow> Challenge option" where
  "Challenge_from B aggregatedCommit aggregatedPubkey message =
     Challenge_Set B Challenge_default aggregatedCommit aggregatedPubkey message 0 (u32 (length message))"

definition Challenge_copy :: "Challenge \<Rightarrow> Challenge" where
  "Challenge_copy src = copied src"

definition Challenge_assign :: "Challenge \<Rightarrow> Challenge \<Rightarrow> Challenge" where
  "Challenge_assign this src = copied src"

definition Challenge_Serialize :: "bytes \<Rightarrow> nat \<Rightarrow> Challenge \<Rightarrow> bytes \<times> nat" where
  "Challenge_Serialize dst offset x = scalar_Serialize dst offset x"

definition Challenge_Deserialize :: "bytes \<Rightarrow> nat \<Rightarrow> Challenge option \<times> int" where
  "Challenge_Deserialize src offset = scalar_Deserialize src offset"

definition Challenge_eq :: "Challenge \<Rightarrow> Challenge \<Rightarrow> bool" where
  "Challenge_eq l r = scalar_eq l r"

subsection \<open>Response\<close>

definition Response_default :: Response where
  "Response_default = \<lparr>fval = 0, finit = False\<rparr>"

definition Response_Set ::
    "'pt openssl \<Rightarrow> Response \<Rightarrow> CommitSecret \<Rightarrow> Challenge \<Rightarrow> PrivKey \<Rightarrow> Response" where
  "Response_Set B this secret challenge privkey =
     (if finit this then this
      else if \<not> finit secret then this
      else if \<not> finit challenge then this
      else case BN_mod_mul B (fval challenge) privkey (ec_order B) of
             None \<Rightarrow> this\<lparr>finit := False\<rparr>
           | Some cd \<Rightarrow>
               (case BN_mod_sub B (fval secret) cd (ec_order B) of
                  None \<Rightarrow> \<lparr>fval = cd, finit = False\<rparr>
                | Some r \<Rightarrow> \<lparr>fval = r, finit = True\<rparr>))"

definition Response_from :: "'pt openssl \<Rightarrow> CommitSecret \<Rightarrow> Challenge \<Rightarrow> PrivKey \<Rightarrow> Response" where
  "Response_from B secret challenge privkey = Response_Set B Response_default secret challenge privkey"

definition Response_copy :: "Response \<Rightarrow> Response" where
  "Response_copy src = copied src"

definition Response_assign :: "Response \<Rightarrow> Response \<Rightarrow> Response" where
  "Response_assign this src = copied src"

definition Response_Serialize :: "bytes \<Rightarrow> nat \<Rightarrow> Response \<Rightarrow> bytes \<times> nat" where
  "Response_Serialize dst offset x = scalar_Serialize dst offset x"

definition Response_Deserialize :: "bytes \<Rightarrow> nat \<Rightarrow> Response option \<times> int" where
  "Response_Deserialize src offset = scalar_Deserialize src offset"

definition Response_eq :: "Response \<Rightarrow> Response \<Rightarrow> bool" where
  "Response_eq l r = scalar_eq l r"

section \<open>Aggregation and verification\<close>

text \<open>\<open>None\<close> is the null pointer these functions return on failure.\<close>

fun aggregate_loop :: "('a \<Rightarrow> 'a \<Rightarrow> 'a option) \<Rightarrow> 'a \<Rightarrow> 'a list \<Rightarrow> 'a option" where
  "aggregate_loop add acc [] = Some acc"
| "aggregate_loop add acc (x # xs) =
     (case add acc x of None \<Rightarrow> None | Some acc' \<Rightarrow> aggregate_loop add acc' xs)"

definition AggregatePubKeys :: "'pt openssl \<Rightarrow> 'pt PubKey list \<Rightarrow> 'pt PubKey option" where
  "AggregatePubKeys B pubkeys =
     (case pubkeys of
        [] \<Rightarrow> None
      | k # ks \<Rightarrow> aggregate_loop (EC_POINT_add B) k ks)"

definition MultiSig_AggregateCommits ::
    "'pt openssl \<Rightarrow> 'pt CommitPoint list \<Rightarrow> 'pt CommitPoint option" where
  "MultiSig_AggregateCommits B commitPoints =
     (case commitPoints of
        [] \<Rightarrow> None
      | p # ps \<Rightarrow>
          map_option (\<lambda>q. \<lparr>fval = q, finit = finit (CommitPoint_copy p)\<rparr>)
            (aggregate_loop (EC_POINT_add B) (fval (CommitPoint_copy p)) (map fval ps)))"

definition MultiSig_AggregateResponses :: "'pt openssl \<Rightarrow> Response list \<Rightarrow> Response option" where
  "MultiSig_AggregateResponses B responses =
     (case responses of
        [] \<Rightarrow> None
      | r # rs \<Rightarrow>
          map_option (\<lambda>q. \<lparr>fval = q, finit = finit (Response_copy r)\<rparr>)
            (aggregate_loop (\<lambda>a b. BN_mod_add B a b (ec_order B)) (fval (Response_copy r)) (map fval rs)))"

definition MultiSig_AggregateSign :: "Challenge \<Rightarrow> Response \<Rightarrow> Signature option" where
  "MultiSig_AggregateSign challenge aggregatedResponse =
     (if \<not> finit challenge then None
      else if \<not> finit aggregatedResponse then None
      else Some \<lparr>m_r = fval challenge, m_s = fval aggregatedResponse\<rparr>)"

definition VerifyResponse ::
    "'pt openssl \<Rightarrow> Response option \<Rightarrow> Challenge \<Rightarrow> 'pt PubKey \<Rightarrow> 'pt CommitPoint \<Rightarrow> bool" where
  "VerifyResponse B response challenge pubkey commitPoint =
     (case response of
        None \<Rightarrow> False
      | Some r \<Rightarrow>
          if \<not> finit r then False
          else if \<not> finit challenge then False
          else if \<not> finit commitPoint then False
          else if fval r = 0 \<or> \<not> fval r < ec_order B then False
          else case EC_POINT_mul B (fval r) (Some (pubkey, fval challenge)) of
                 None \<Rightarrow> False
               | Some Q \<Rightarrow> EC_POINT_cmp B Q (fval commitPoint) = 0)"

definition MultiSigVerify_range ::
    "'pt openssl \<Rightarrow> bytes \<Rightarrow> nat \<Rightarrow> nat \<Rightarrow> Signature \<Rightarrow> 'pt PubKey \<Rightarrow> bool option" where
  "MultiSigVerify_range B message offset sz toverify pubkey =
     (if length message = 0 then Some False
      else if length message < u32 (offset + sz) then Some False
      else if m_r toverify = 0 \<or> m_r toverify < 0 \<or> \<not> m_r toverify < ec_order B then Some False
      else if m_s toverify = 0 \<or> m_s toverify < 0 \<or> \<not> m_s toverify < ec_order B then Some False
      else
        (case EC_POINT_mul B (m_s toverify) (Some (pubkey, m_r toverify)) of
           None \<Rightarrow> Some False
         | Some Q \<Rightarrow>
             if EC_POINT_is_at_infinity B Q then Some False
             else if length (EC_POINT_point2oct B Q) \<noteq> 33 then Some False
             else if length (EC_POINT_point2oct B pubkey) \<noteq> 33 then Some False
             else
               let sha2 = SHA2_Update (SHA2_Update (SHA2_Update SHA2_Reset [0x11])
                            (EC_POINT_point2oct B Q)) (EC_POINT_point2oct B pubkey)
               in (case SHA2_Update_range sha2 message offset sz of
                     None \<Rightarrow> None
                   | Some sha2' \<Rightarrow>
                       (case BN_nnmod B (BN_bin2bn (SHA2_Finalize B sha2')) (ec_order B) of
                          None \<Rightarrow> Some False
                        | Some challenge_built \<Rightarrow> Some (challenge_built = m_r toverify)))))"

definition MultiSigVerify :: "'pt openssl \<Rightarrow> bytes \<Rightarrow> Signature \<Rightarrow> 'pt PubKey \<Rightarrow> bool option" where
  "MultiSigVerify B message toverify pubkey =
     MultiSigVerify_range B message 0 (u32 (length message)) toverify pubkey"

definition MultiSig_SignKey ::
    "'pt openssl \<Rightarrow> bytes \<Rightarrow> PrivKey \<times> 'pt PubKey \<Rightarrow> int option list \<Rightarrow> sign_result" where
  "MultiSig_SignKey B messageWithPubKey keyPair draws =
     Schnorr_Sign B messageWithPubKey (fst keyPair) (snd keyPair) draws"

definition MultiSig_VerifyKey :: "'pt openssl \<Rightarrow> bytes \<Rightarrow> Signature \<Rightarrow> 'pt PubKey \<Rightarrow> bool option" where
  "MultiSig_VerifyKey B messageWithPubKey signature pubKey =
     Schnorr_Verify B messageWithPubKey signature pubKey"

section \<open>Aggregation on the group\<close>

lemma aggregate_points:
  "openssl_ok B g \<Longrightarrow> aggregate_loop (EC_POINT_add B) (g a) (map g xs) = Some (g (a + sum_list xs))"
  by (induction xs arbitrary: a) (simp_all add: openssl_add add.assoc)

lemma AggregatePubKeys_g:
  "openssl_ok B g \<Longrightarrow> ds \<noteq> [] \<Longrightarrow> AggregatePubKeys B (map g ds) = Some (g (sum_list ds))"
  by (cases ds) (simp_all add: AggregatePubKeys_def aggregate_points)

lemma AggregateCommits_g:
  assumes "openssl_ok B g" "ks \<noteq> []" "map fval cps = map g ks"
  shows "MultiSig_AggregateCommits B cps = Some \<lparr>fval = g (sum_list ks), finit = True\<rparr>"
  using assms
  by (cases ks; cases cps)
     (auto simp: MultiSig_AggregateCommits_def CommitPoint_copy_def copied_def aggregate_points)

lemma aggregate_scalars:
  "openssl_ok B g \<Longrightarrow> 0 \<le> a \<Longrightarrow> a < ec_order B \<Longrightarrow>
   aggregate_loop (\<lambda>a b. BN_mod_add B a b (ec_order B)) a xs = Some ((a + sum_list xs) mod ec_order B)"
proof (induction xs arbitrary: a)
  case (Cons x xs)
  then show ?case
    using openssl_order(1) [OF Cons.prems(1)]
    by (simp add: openssl_bn [OF Cons.prems(1)] add.assoc mod_add_left_eq)
qed simp

lemma AggregateResponses_mod:
  assumes "openssl_ok B g" "rs \<noteq> []" "\<forall>r \<in> set rs. 0 \<le> fval r \<and> fval r < ec_order B"
  shows "MultiSig_AggregateResponses B rs
    = Some \<lparr>fval = sum_list (map fval rs) mod ec_order B, finit = True\<rparr>"
  using assms
  by (cases rs) (auto simp: MultiSig_AggregateResponses_def Response_copy_def copied_def aggregate_scalars)

text \<open>The challenge over an aggregated commitment and key.\<close>

definition multisig_challenge :: "'pt openssl \<Rightarrow> 'pt \<Rightarrow> 'pt \<Rightarrow> bytes \<Rightarrow> int" where
  "multisig_challenge B Q pubkey part =
     BN_bin2bn (SHA256 B (0x11 # EC_POINT_point2oct B Q @ EC_POINT_point2oct B pubkey @ part))
       mod ec_order B"

lemma Challenge_from_value:
  assumes B: "openssl_ok B g" and "K mod ec_order B \<noteq> 0" "D mod ec_order B \<noteq> 0"
    and "message \<noteq> []" "length message < 2 ^ 32"
  shows "Challenge_from B \<lparr>fval = g K, finit = True\<rparr> (g D) message
    = Some \<lparr>fval = multisig_challenge B (g K) (g D) message, finit = True\<rparr>"
  using assms openssl_oct [OF B, of K] openssl_oct [OF B, of D]
  by (simp add: Challenge_from_def Challenge_Set_def SHA2_Finalize_def SHA2_Reset_def
      multisig_challenge_def openssl_bn [OF B])

text \<open>\<open>MultiSigVerify\<close> is \<open>Schnorr::Verify\<close> with the domain-separated hash.\<close>

lemma MultiSigVerify_range_is_Schnorr:
  "MultiSigVerify_range B message offset sz sig pubkey
   = Schnorr_Verify_range (B\<lparr>SHA256 := \<lambda>x. SHA256 B (0x11 # x)\<rparr>) message offset sz sig pubkey"
  by (simp add: MultiSigVerify_range_def Schnorr_Verify_range_def SHA2_Update_range_def
      SHA2_Finalize_def SHA2_Reset_def Let_def split: option.splits)

lemma openssl_ok_SHA256: "openssl_ok (B\<lparr>SHA256 := H\<rparr>) g = openssl_ok B g"
  by (simp add: openssl_ok_def)

lemma MultiSigVerify_iff:
  assumes B: "openssl_ok B g" and D: "D mod ec_order B \<noteq> 0"
    and m: "message \<noteq> []" "length message < 2 ^ 32"
  shows "MultiSigVerify B message sig (g D) = Some True \<longleftrightarrow>
    (0 < m_r sig \<and> m_r sig < ec_order B \<and> 0 < m_s sig \<and> m_s sig < ec_order B
     \<and> (m_s sig + m_r sig * D) mod ec_order B \<noteq> 0
     \<and> multisig_challenge B (g (m_s sig + m_r sig * D)) (g D) message = m_r sig)"
proof -
  have B': "openssl_ok (B\<lparr>SHA256 := \<lambda>x. SHA256 B (0x11 # x)\<rparr>) g"
    using B by (simp add: openssl_ok_SHA256)
  show ?thesis
    using Schnorr_Verify_range_iff [OF B', of D 0 "length message" message sig] D m
    by (simp add: MultiSigVerify_def MultiSigVerify_range_is_Schnorr schnorr_challenge_def
        multisig_challenge_def)
qed

section \<open>Responses\<close>

lemma VerifyResponse_iff:
  assumes B: "openssl_ok B g"
  shows "VerifyResponse B (Some r) c (g d) cp \<and> fval cp = g k \<longleftrightarrow>
    finit r \<and> finit c \<and> finit cp \<and> fval cp = g k \<and> fval r \<noteq> 0 \<and> fval r < ec_order B
     \<and> g (fval r + fval c * d) = g k"
  by (auto simp: VerifyResponse_def openssl_mul2 [OF B] openssl_cmp [OF B])

lemma Response_from_value:
  assumes B: "openssl_ok B g" and "finit secret" "finit c"
  shows "Response_from B secret c d
    = \<lparr>fval = (fval secret - fval c * d mod ec_order B) mod ec_order B, finit = True\<rparr>"
  using assms by (simp add: Response_from_def Response_Set_def Response_default_def openssl_bn [OF B])

text \<open>Each verified response contributes its own relation; they add up.\<close>

lemma responses_sum:
  assumes B: "openssl_ok B g"
    and "list_all2 (\<lambda>r (d, k). g (r + c * d) = g k) rs dks"
  shows "g (sum_list rs + c * sum_list (map fst dks)) = g (sum_list (map snd dks))"
  using assms(2)
proof (induction rs dks rule: list_all2_induct)
  case (Cons r rs dk dks)
  obtain d k where dk: "dk = (d, k)" by (cases dk)
  let ?n = "ec_order B"
  have 1: "(r + c * d) mod ?n = k mod ?n" using Cons.hyps(1) dk by (simp add: openssl_point_eq [OF B])
  have 2: "(sum_list rs + c * sum_list (map fst dks)) mod ?n = sum_list (map snd dks) mod ?n"
    using Cons.IH by (simp add: openssl_point_eq [OF B])
  have "((r + c * d) + (sum_list rs + c * sum_list (map fst dks))) mod ?n
        = (k + sum_list (map snd dks)) mod ?n"
    by (rule mod_add_cong [OF 1 2])
  moreover have "(r + c * d) + (sum_list rs + c * sum_list (map fst dks))
      = sum_list (r # rs) + c * sum_list (map fst (dk # dks))"
    by (simp add: dk algebra_simps)
  ultimately show ?case by (simp add: openssl_point_eq [OF B] dk)
qed simp

text \<open>The collective signature over verified responses.\<close>

lemma collective_signature_accepts:
  assumes B: "openssl_ok B g" and ne: "dks \<noteq> []"
    and D: "sum_list (map fst dks) mod ec_order B \<noteq> 0"
    and K: "sum_list (map snd dks) mod ec_order B \<noteq> 0"
    and m: "message \<noteq> []" "length message < 2 ^ 32"
    and c: "c = multisig_challenge B (g (sum_list (map snd dks))) (g (sum_list (map fst dks))) message"
           "c \<noteq> 0"
    and rs: "list_all2 (\<lambda>r (d, k). g (r + c * d) = g k) rs dks"
    and s: "sum_list rs mod ec_order B \<noteq> 0"
  shows "MultiSigVerify B message \<lparr>m_r = c, m_s = sum_list rs mod ec_order B\<rparr>
           (g (sum_list (map fst dks))) = Some True"
proof -
  let ?n = "ec_order B" and ?D = "sum_list (map fst dks)" and ?K = "sum_list (map snd dks)"
  let ?s = "sum_list rs mod ?n"
  have n: "0 < ?n" by (rule openssl_order [OF B])
  have "0 \<le> c \<and> c < ?n" using n by (simp add: c(1) multisig_challenge_def)
  then have c': "0 < c" "c < ?n" using c(2) by auto
  have "0 \<le> ?s \<and> ?s < ?n" using n by simp
  then have s': "0 < ?s" "?s < ?n" using s by auto
  have "g (?s + c * ?D) = g (sum_list rs + c * ?D)"
    by (simp add: openssl_point_eq [OF B] mod_add_left_eq)
  also have "\<dots> = g ?K" by (rule responses_sum [OF B rs])
  finally have Q: "g (?s + c * ?D) = g ?K" .
  then have "(?s + c * ?D) mod ?n \<noteq> 0" using K by (simp add: openssl_point_eq [OF B])
  then show ?thesis
    unfolding MultiSigVerify_iff [OF B D m] using c' s' Q c(1) [symmetric] by simp
qed

section \<open>Recovering a key from two responses to one commitment\<close>

definition recover_key :: "int \<Rightarrow> int \<Rightarrow> int \<Rightarrow> int \<Rightarrow> int \<Rightarrow> int" where
  "recover_key n c1 r1 c2 r2 =
     (let e = (c2 - c1) mod n
      in (r1 - r2) * fst (bezw (nat e) (nat n)) mod n)"

lemma recover_key_correct:
  assumes n: "1 < n" and d: "0 \<le> d" "d < n"
    and cop: "coprime ((c2 - c1) mod n) n"
    and r: "r1 = (k - c1 * d mod n) mod n" "r2 = (k - c2 * d mod n) mod n"
  shows "recover_key n c1 r1 c2 r2 = d"
proof -
  define e where "e = (c2 - c1) mod n"
  define u where "u = fst (bezw (nat e) (nat n))"
  have e: "0 \<le> e" using n by (simp add: e_def)
  have "gcd e n = 1" using cop by (simp add: coprime_iff_gcd_eq_1 e_def)
  moreover have "gcd e n = int (gcd (nat e) (nat n))" using e n by (simp add: gcd_int_def)
  ultimately have gcd1: "gcd (nat e) (nat n) = 1" by simp
  have "u * int (nat e) + snd (bezw (nat e) (nat n)) * int (nat n) = int (gcd (nat e) (nat n))"
    using bezw_aux [of "nat e" "nat n"] by (simp add: u_def)
  then have "u * e + snd (bezw (nat e) (nat n)) * n = 1" using e n gcd1 by simp
  then have inv: "u * e mod n = 1 mod n" by (metis mod_mult_self1 mult.commute)
  have "(r1 - r2) mod n = ((k - c1 * d) - (k - c2 * d)) mod n"
    unfolding r by (simp add: mod_simps)
  also have "\<dots> = (c2 - c1) * d mod n" by (simp add: algebra_simps)
  also have "\<dots> = e * d mod n" by (simp add: e_def mod_mult_left_eq)
  finally have diff: "(r1 - r2) mod n = e * d mod n" .
  have "recover_key n c1 r1 c2 r2 = (r1 - r2) * u mod n"
    by (simp add: recover_key_def Let_def e_def u_def)
  also have "\<dots> = ((r1 - r2) mod n) * u mod n" by (simp only: mod_mult_left_eq)
  also have "\<dots> = (e * d) * u mod n" unfolding diff by (simp only: mod_mult_left_eq)
  also have "\<dots> = (u * e) * d mod n" by (simp add: mult.commute mult.left_commute)
  also have "\<dots> = (u * e mod n) * d mod n" by (simp only: mod_mult_left_eq)
  also have "\<dots> = d" unfolding inv using d n by simp
  finally show ?thesis .
qed

section \<open>Properties\<close>

text \<open>One verified response of a signer with key \<open>d\<close> and commitment \<open>k\<close>.\<close>

lemma VerifyResponse_relation:
  assumes "openssl_ok B g" "VerifyResponse B (Some r) c (g d) cp" "fval cp = g k"
  shows "g (fval r + fval c * d) = g k"
  using VerifyResponse_iff [OF assms(1), of r c d cp k] assms(2,3) by blast

lemma verified_responses:
  assumes B: "openssl_ok B g"
    and "list_all2 (\<lambda>(r, cp) (d, k). VerifyResponse B (Some r) c (g d) cp \<and> fval cp = g k) rcs dks"
  shows "list_all2 (\<lambda>r (d, k). g (r + fval c * d) = g k) (map (fval \<circ> fst) rcs) dks"
    and "map (fval \<circ> snd) rcs = map (g \<circ> snd) dks"
  using assms(2)
proof (induction rcs dks rule: list_all2_induct)
  case (Cons rc rcs dk dks)
  {
    case 1
    from Cons show ?case by (auto simp: VerifyResponse_relation [OF B])
  next
    case 2
    from Cons show ?case by auto
  }
qed simp_all

text \<open>C17: the round of collective signing is correct: when the committee's commitments are aggregated, the
  challenge is derived from them, every member's response passes \<open>VerifyResponse\<close> and the responses
  are aggregated, the signature \<open>AggregateSign\<close> forms passes \<open>MultiSigVerify\<close> under the aggregated
  key.\<close>

theorem collective_signature_verifies:
  assumes B: "openssl_ok B g" and ne: "dks \<noteq> []"
    and D: "sum_list (map fst dks) mod ec_order B \<noteq> 0"
    and K: "sum_list (map snd dks) mod ec_order B \<noteq> 0"
    and m: "message \<noteq> []" "length message < 2 ^ 32"
    and key: "AggregatePubKeys B (map (g \<circ> fst) dks) = Some ak"
    and commit: "MultiSig_AggregateCommits B (map snd rcs) = Some ac"
    and chal: "Challenge_from B ac ak message = Some c"
    and resp: "list_all2 (\<lambda>(r, cp) (d, k). VerifyResponse B (Some r) c (g d) cp \<and> fval cp = g k) rcs dks"
    and range: "\<forall>r \<in> set (map fst rcs). 0 \<le> fval r \<and> fval r < ec_order B"
    and agg: "MultiSig_AggregateResponses B (map fst rcs) = Some ar"
    and sign: "MultiSig_AggregateSign c ar = Some sig"
    and nz: "fval c \<noteq> 0" "fval ar \<noteq> 0"
  shows "MultiSigVerify B message sig ak = Some True"
proof -
  let ?D = "sum_list (map fst dks)" and ?K = "sum_list (map snd dks)"
  note rel = verified_responses [OF B resp]
  have len: "rcs \<noteq> []" using ne list_all2_lengthD [OF resp] by auto
  have ak: "ak = g ?D" using AggregatePubKeys_g [OF B, of "map fst dks"] ne key by simp
  have ac: "ac = \<lparr>fval = g ?K, finit = True\<rparr>"
    using AggregateCommits_g [OF B, of "map snd dks" "map snd rcs"] ne rel(2) commit by simp
  have c: "c = \<lparr>fval = multisig_challenge B (g ?K) (g ?D) message, finit = True\<rparr>"
    using Challenge_from_value [OF B K D m] chal by (simp add: ak ac)
  have ar: "ar = \<lparr>fval = sum_list (map (fval \<circ> fst) rcs) mod ec_order B, finit = True\<rparr>"
    using AggregateResponses_mod [OF B _ range] len agg by simp
  have "sig = \<lparr>m_r = fval c, m_s = sum_list (map (fval \<circ> fst) rcs) mod ec_order B\<rparr>"
    using sign by (simp add: MultiSig_AggregateSign_def c ar)
  then show ?thesis
    using collective_signature_accepts [OF B ne D K m _ nz(1) rel(1)] nz(2) by (simp add: ak c ar)
qed

theorem collective_signature_verifies_witness:
  "MultiSigVerify toy [1, 2, 3] \<lparr>m_r = 4, m_s = 5\<rparr> 5 = Some True"
proof (rule collective_signature_verifies [OF toy_ok, of "[(2, 5), (3, 7)]" "[1, 2, 3]" 5
      "[(\<lparr>fval = 10, finit = True\<rparr>, \<lparr>fval = 5, finit = True\<rparr>),
        (\<lparr>fval = 8, finit = True\<rparr>, \<lparr>fval = 7, finit = True\<rparr>)]"
      "\<lparr>fval = 12, finit = True\<rparr>" "\<lparr>fval = 4, finit = True\<rparr>" "\<lparr>fval = 5, finit = True\<rparr>"])
  show "Challenge_from toy \<lparr>fval = 12, finit = True\<rparr> 5 [1, 2, 3] = Some \<lparr>fval = 4, finit = True\<rparr>"
    by (simp add: Challenge_from_def Challenge_Set_def toy_eval)
qed (simp_all add: toy_def AggregatePubKeys_def MultiSig_AggregateCommits_def
    MultiSig_AggregateResponses_def MultiSig_AggregateSign_def VerifyResponse_def
    CommitPoint_copy_def Response_copy_def copied_def)

text \<open>the response a member computes from its commit secret, the challenge and its private key passes
  \<open>VerifyResponse\<close> against its public key and commit point, unless it happens to be zero.\<close>

lemma honest_response_verifies:
  assumes B: "openssl_ok B g" and secret: "finit secret" "finit c" and d: "0 < d" "d < ec_order B"
    and nz: "fval (Response_from B secret c d) \<noteq> 0"
  shows "VerifyResponse B (Some (Response_from B secret c d)) c (PubKey_from_PrivKey B d)
    (CommitPoint_from_secret B secret)"
proof -
  have pub: "PubKey_from_PrivKey B d = g d"
    using d by (simp add: PubKey_from_PrivKey_def openssl_mul_base [OF B])
  have point: "CommitPoint_from_secret B secret = \<lparr>fval = g (fval secret), finit = True\<rparr>"
    using secret by (simp add: CommitPoint_from_secret_def CommitPoint_Set_def openssl_mul_base [OF B])
  have resp: "Response_from B secret c d
      = \<lparr>fval = (fval secret - fval c * d mod ec_order B) mod ec_order B, finit = True\<rparr>"
    by (rule Response_from_value [OF B secret])
  have "fval (Response_from B secret c d) < ec_order B"
    using openssl_order(1) [OF B] by (simp add: resp)
  then have "VerifyResponse B (Some (Response_from B secret c d)) c (g d)
      (CommitPoint_from_secret B secret) \<and> fval (CommitPoint_from_secret B secret) = g (fval secret)"
    unfolding VerifyResponse_iff [OF B] using nz secret response_regenerates [OF B]
    by (simp add: point resp)
  then show ?thesis by (simp add: pub)
qed

text \<open>C36: \<open>MultiSigVerify\<close> is \<open>Schnorr::Verify\<close> with the byte \<open>0x11\<close> in front of what is hashed, on every
  branch and for every argument; the two routines repeat the same code and differ in nothing else.\<close>

theorem MultiSigVerify_equiv_Schnorr_Verify:
  "MultiSigVerify_range B message offset sz sig pubkey
     = Schnorr_Verify_range (B\<lparr>SHA256 := \<lambda>x. SHA256 B (0x11 # x)\<rparr>) message offset sz sig pubkey
   \<and> MultiSigVerify B message sig pubkey
     = Schnorr_Verify (B\<lparr>SHA256 := \<lambda>x. SHA256 B (0x11 # x)\<rparr>) message sig pubkey"
  by (simp add: MultiSigVerify_range_is_Schnorr MultiSigVerify_def Schnorr_Verify_def)

text \<open>two responses that a member computes from the same commit secret for two different challenges
  determine its private key: \<open>(r1 - r2) / (c2 - c1)\<close> modulo the group order is the key.\<close>

lemma nonce_reuse_reveals_key:
  assumes B: "openssl_ok B g" and d: "0 \<le> d" "d < ec_order B"
    and init: "finit secret" "finit c1" "finit c2"
    and cop: "coprime ((fval c2 - fval c1) mod ec_order B) (ec_order B)"
  shows "recover_key (ec_order B) (fval c1) (fval (Response_from B secret c1 d))
           (fval c2) (fval (Response_from B secret c2 d)) = d"
proof (rule recover_key_correct [OF _ d cop])
  show "1 < ec_order B" using B by (simp add: openssl_ok_def)
qed (simp_all add: Response_from_value [OF B init(1)] init)

text \<open>A copy of an object that was never initialised reports that it is.\<close>

lemma copy_of_uninitialised_is_initialised:
  "\<not> Initialized (Some (CommitPoint_default B)) \<and> Initialized (Some (CommitPoint_copy (CommitPoint_default B)))
   \<and> Initialized (Some (Challenge_assign c Challenge_default))"
  by (simp add: Initialized_def CommitPoint_default_def CommitPoint_copy_def Challenge_assign_def copied_def)

end
