(* ===== verification/Peer.thy ===== *)
theory Peer
  imports ByteCodec
begin

text \<open>
  Network addresses (\<open>libNetwork/Peer.cpp\<close>): an IPv4-in-128-bit address and a port, their
  comparison operators and their 20-byte serialisation, which is two number fields one after
  the other.
\<close>

record Peer =
  m_ipAddress :: nat
  m_listenPortHost :: nat

definition Peer_default :: Peer where
  "Peer_default = \<lparr>m_ipAddress = 0, m_listenPortHost = 0\<rparr>"

definition Peer_eq :: "Peer \<Rightarrow> Peer \<Rightarrow> bool" where
  "Peer_eq l r \<longleftrightarrow> m_ipAddress l = m_ipAddress r \<and> m_listenPortHost l = m_listenPortHost r"

definition Peer_neq :: "Peer \<Rightarrow> Peer \<Rightarrow> bool" where
  "Peer_neq l r \<longleftrightarrow> m_ipAddress l \<noteq> m_ipAddress r \<or> m_listenPortHost l \<noteq> m_listenPortHost r"

definition Peer_less :: "Peer \<Rightarrow> Peer \<Rightarrow> bool" where
  "Peer_less l r \<longleftrightarrow> m_ipAddress l < m_ipAddress r
     \<or> (m_ipAddress l = m_ipAddress r \<and> m_listenPortHost l < m_listenPortHost r)"

definition Peer_Serialize :: "bytes \<Rightarrow> nat \<Rightarrow> Peer \<Rightarrow> (bytes \<times> nat) option" where
  "Peer_Serialize dst offset p = do {
     dst1 \<leftarrow> Serializable_SetNumber dst offset (m_ipAddress p) 16;
     dst2 \<leftarrow> Serializable_SetNumber dst1 (u32 (offset + 16)) (m_listenPortHost p) 4;
     Some (dst2, 20) }"

text \<open>An exception of a read is caught: the function then returns -1 with the fields read so far.\<close>

definition Peer_Deserialize :: "Peer \<Rightarrow> bytes \<Rightarrow> nat \<Rightarrow> Peer \<times> int" where
  "Peer_Deserialize this src offset =
     (case Serializable_GetNumber 128 src offset 16 of
        None \<Rightarrow> (this, -1)
      | Some ip \<Rightarrow>
          (case Serializable_GetNumber 32 src (u32 (offset + 16)) 4 of
             None \<Rightarrow> (this\<lparr>m_ipAddress := ip\<rparr>, -1)
           | Some port \<Rightarrow> (\<lparr>m_ipAddress = ip, m_listenPortHost = port\<rparr>, 0)))"

definition Peer_from_bytes :: "bytes \<Rightarrow> nat \<Rightarrow> Peer" where
  "Peer_from_bytes src offset = fst (Peer_Deserialize Peer_default src offset)"

section \<open>Comparison\<close>

lemma Peer_eq_iff: "Peer_eq l r \<longleftrightarrow> l = r"
  by (cases l; cases r) (simp add: Peer_eq_def)

text \<open>Inequality is the negation of equality, and \<open>operator<\<close> is a strict total order, as the
  ordered containers keyed by addresses need.\<close>

lemma Peer_order:
  "Peer_neq l r \<longleftrightarrow> \<not> Peer_eq l r"
  "\<not> Peer_less l l"
  "Peer_less l m \<Longrightarrow> Peer_less m r \<Longrightarrow> Peer_less l r"
  "Peer_less l r \<or> Peer_eq l r \<or> Peer_less r l"
  by (auto simp: Peer_neq_def Peer_eq_def Peer_less_def)

section \<open>Serialisation\<close>

interpretation peerf: two_fields
  "number_field_put 16" "\<lambda>src off. Serializable_GetNumber 128 src off 16" 16 "\<lambda>v. v < 256 ^ 16"
  "number_field_put 4" "\<lambda>src off. Serializable_GetNumber 32 src off 4" 4 "\<lambda>v. v < 256 ^ 4"
  by unfold_locales

definition Peer_fits :: "Peer \<Rightarrow> bool" where
  "Peer_fits p \<longleftrightarrow> m_ipAddress p < 2 ^ 128 \<and> m_listenPortHost p < 2 ^ 32"

lemma Peer_fits_ok: "Peer_fits p \<Longrightarrow> peerf.ok_pair (m_ipAddress p, m_listenPortHost p)"
  unfolding peerf.ok_pair_def by (simp add: Peer_fits_def)

lemma Peer_Serialize_pair:
  assumes "Peer_fits p" "offset + 20 < 2 ^ 32" "offset \<le> length dst" "length dst < 2 ^ 32"
  shows "Peer_Serialize dst offset p
    = Some (peerf.put_pair dst offset (m_ipAddress p, m_listenPortHost p), 20)"
proof -
  let ?d = "number_field_put 16 dst offset (m_ipAddress p)"
  have "length ?d = max (length dst) (offset + 16)"
    by (rule uint128.put_length) (use assms in \<open>simp_all add: Peer_fits_def\<close>)
  then show ?thesis
    using assms by (simp add: Peer_Serialize_def Serializable_SetNumber_eq peerf.put_pair_def)
qed

lemma Peer_Deserialize_pair:
  "offset + 20 < 2 ^ 32 \<Longrightarrow> peerf.get_pair src offset = Some (ip, port) \<Longrightarrow>
   Peer_Deserialize this src offset = (\<lparr>m_ipAddress = ip, m_listenPortHost = port\<rparr>, 0)"
  by (auto simp: Peer_Deserialize_def peerf.get_pair_def split: option.splits)

section \<open>Properties\<close>

text \<open>An address serialised at any position of a stream is deserialised to the same address, and the
  announced size is the number of bytes the field takes.\<close>

lemma Peer_roundtrip:
  assumes "Peer_fits p" "offset + 20 < 2 ^ 32" "offset \<le> length dst" "length dst < 2 ^ 32"
  shows "\<exists>dst'. Peer_Serialize dst offset p = Some (dst', 20)
    \<and> length dst' = max (length dst) (offset + 20) \<and> take offset dst' = take offset dst
    \<and> Peer_Deserialize this dst' offset = (p, 0)"
proof -
  let ?v = "(m_ipAddress p, m_listenPortHost p)"
  note ok = Peer_fits_ok [OF assms(1)]
  have "peerf.get_pair (peerf.put_pair dst offset ?v) offset = Some ?v"
    by (rule peerf.pair_get_put [OF ok]) (use assms in simp)
  then have "Peer_Deserialize this (peerf.put_pair dst offset ?v) offset = (p, 0)"
    using assms(2) by (simp add: Peer_Deserialize_pair)
  moreover have "length (peerf.put_pair dst offset ?v) = max (length dst) (offset + 20)"
    using peerf.pair_length [OF ok, of offset dst] assms(2) by simp
  moreover have "take offset (peerf.put_pair dst offset ?v) = take offset dst"
    using peerf.pair.put_frame [OF ok, of offset 0 offset dst] assms(2,3) by (simp add: subvec_def)
  ultimately show ?thesis using Peer_Serialize_pair [OF assms] by blast
qed

end
