(* ===== verification/Messenger.thy ===== *)
theory Messenger
  imports MultiSig Peer
begin

text \<open>
  The consensus messages of \<open>libMessage/Messenger.cpp\<close>. A consensus message is a protobuf
  message made of an info part (consensus id, block number, block hash, sender id, payload), the
  sender's public key and its signature over the serialised info part. The protobuf runtime and
  the code it generates from \<open>ZilliqaMessage.proto\<close> are a parameter: a record of the parser and
  the two serialisers per message type, with \<open>protobuf_ok\<close> as the documented behaviour (a
  serialised message parses to itself). \<open>ParseFromArray\<close> followed by \<open>IsInitialized\<close> is one
  function into \<open>option\<close>; the \<open>IsInitialized\<close> tests on messages the code has just filled
  field by field hold by construction and are left out.

  A getter returns \<open>None\<close> when it crashes, \<open>Some None\<close> when it returns false and
  \<open>Some (Some x)\<close> when it returns true with outputs \<open>x\<close>. A crash is possible: reading a short
  field leaves a null pointer in a \<open>CommitPoint\<close>, \<open>Challenge\<close> or \<open>Response\<close> without reporting an
  error, and \<open>emplace_back\<close> copies the object, which dereferences it.
\<close>

section \<open>Protobuf messages\<close>

record 'p ConsensusInfo =
  consensusid :: nat
  blocknumber :: nat
  blockhash :: bytes
  memberid :: nat
  payload :: 'p

record 'p ConsensusMsg =
  consensusinfo :: "'p ConsensusInfo"
  msg_pubkey :: bytes
  msg_signature :: bytes

record 'p protobuf =
  ParseFromArray :: "bytes \<Rightarrow> 'p ConsensusMsg option"
  InfoToArray :: "'p ConsensusInfo \<Rightarrow> bytes"
  MsgToArray :: "'p ConsensusMsg \<Rightarrow> bytes"

type_synonym commit_payload = "bytes \<times> bytes"
type_synonym challenge_payload = "(bytes \<times> bytes \<times> bytes) list"
type_synonym response_payload = "bytes list"
type_synonym collectivesig_payload = "bytes \<times> bool list"
type_synonym commitfailure_payload = "bytes"
type_synonym consensusfailure_payload = "unit"

record protobufs =
  ConsensusCommit :: "commit_payload protobuf"
  ConsensusChallenge :: "challenge_payload protobuf"
  ConsensusResponse :: "response_payload protobuf"
  ConsensusCollectiveSig :: "collectivesig_payload protobuf"
  ConsensusCommitFailure :: "commitfailure_payload protobuf"
  ConsensusConsensusFailure :: "consensusfailure_payload protobuf"

text \<open>What the code relies on: a message within protobuf's size limit parses back to itself, and
  the info part is a non-empty part of the message.\<close>

definition protobuf_ok :: "'p protobuf \<Rightarrow> bool" where
  "protobuf_ok p \<longleftrightarrow>
     (\<forall>m. length (MsgToArray p m) < 2 ^ 31 \<longrightarrow> ParseFromArray p (MsgToArray p m) = Some m)
     \<and> (\<forall>m. 0 < length (InfoToArray p (consensusinfo m))
            \<and> length (InfoToArray p (consensusinfo m)) \<le> length (MsgToArray p m))"

text \<open>The parts of a challenge message, as the callers see them.\<close>

record 'pt ChallengeSubsetInfo =
  si_aggregatedCommit :: "'pt CommitPoint"
  si_aggregatedKey :: "'pt PubKey"
  si_challenge :: Challenge

type_synonym 'pt PairOfNode = "'pt PubKey \<times> Peer"
type_synonym 'pt DequeOfNode = "'pt PairOfNode list"
type_synonym 'pt PairOfKey = "PrivKey \<times> 'pt PubKey"

section \<open>Shared parts\<close>

text \<open>\<open>SerializeToArray\<close> grows the destination when needed. The protobuf runtime refuses messages of
  2 GB and more; writing past the end of the destination (possible only when the sum of offset
  and size wraps) is \<open>None\<close>.\<close>

definition SerializeToArray :: "bytes \<Rightarrow> bytes \<Rightarrow> nat \<Rightarrow> (bytes \<times> bool) option" where
  "SerializeToArray raw dst offset =
     (if length raw \<ge> 2 ^ 31 then Some (dst, False)
      else
        let dst' = (if u32 (offset + length raw) > length dst
                    then vec_resize 0 (u32 (offset + length raw)) dst else dst)
        in if offset + length raw > length dst' then None
           else Some (vec_write offset raw dst', True))"

text \<open>The tail every setter shares: sign the info part, attach key and signature, serialise.
  \<open>None\<close> also stands for a signing loop that has used up its draws.\<close>

definition sign_and_serialize ::
    "'pt openssl \<Rightarrow> 'p protobuf \<Rightarrow> bytes \<Rightarrow> nat \<Rightarrow> 'p ConsensusInfo \<Rightarrow> 'pt PairOfKey
     \<Rightarrow> int option list \<Rightarrow> (bytes \<times> bool) option" where
  "sign_and_serialize B p dst offset info key draws =
     (case Schnorr_Sign B (InfoToArray p info) (fst key) (snd key) draws of
        SignTrue sig \<Rightarrow>
          SerializeToArray
            (MsgToArray p \<lparr>consensusinfo = info,
               msg_pubkey = fst (PubKey_Serialize B [] 0 (snd key)),
               msg_signature = fst (Signature_Serialize [] 0 sig)\<rparr>) dst offset
      | SignFalse \<Rightarrow> Some (dst, False)
      | SignOutOfDraws \<Rightarrow> None
      | SignFault \<Rightarrow> None)"

text \<open>The head every getter shares: bounds, parsing, and the checks of the consensus id, the
  block number and the block hash.\<close>

definition open_consensus_message ::
    "'p protobuf \<Rightarrow> bytes \<Rightarrow> nat \<Rightarrow> nat \<Rightarrow> nat \<Rightarrow> bytes \<Rightarrow> 'p ConsensusMsg option" where
  "open_consensus_message p src offset consensusID blockNumber blockHash =
     (if offset \<ge> length src then None
      else case ParseFromArray p (drop offset src) of
             None \<Rightarrow> None
           | Some result \<Rightarrow>
               if consensusid (consensusinfo result) \<noteq> consensusID then None
               else if blocknumber (consensusinfo result) \<noteq> blockNumber then None
               else if blockhash (consensusinfo result) \<noteq> blockHash then None
               else Some result)"

text \<open>The tail every getter shares: read the signature and verify it over the info part.\<close>

definition check_info_signature ::
    "'pt openssl \<Rightarrow> 'p protobuf \<Rightarrow> 'p ConsensusMsg \<Rightarrow> 'pt PubKey \<Rightarrow> bool option" where
  "check_info_signature B p result key =
     (case Signature_Deserialize Signature_default (msg_signature result) 0 of
        (sig, rc) \<Rightarrow>
          if rc \<noteq> 0 then Some False
          else Schnorr_Verify B (InfoToArray p (consensusinfo result)) sig key)"

section \<open>Commit\<close>

definition SetConsensusCommit ::
    "'pt openssl \<Rightarrow> protobufs \<Rightarrow> bytes \<Rightarrow> nat \<Rightarrow> nat \<Rightarrow> nat \<Rightarrow> bytes \<Rightarrow> nat \<Rightarrow> 'pt CommitPoint
     \<Rightarrow> CommitPointHash \<Rightarrow> 'pt PairOfKey \<Rightarrow> int option list \<Rightarrow> (bytes \<times> bool) option" where
  "SetConsensusCommit B P dst offset consensusID blockNumber blockHash backupID commitPoint
       commitPointHash backupKey draws =
     sign_and_serialize B (ConsensusCommit P) dst offset
       \<lparr>consensusid = consensusID, blocknumber = blockNumber, blockhash = blockHash,
        memberid = backupID,
        payload = (fst (CommitPoint_Serialize B [] 0 commitPoint),
                   fst (CommitPointHash_Serialize [] 0 commitPointHash))\<rparr>
       backupKey draws"

definition GetConsensusCommit ::
    "'pt openssl \<Rightarrow> protobufs \<Rightarrow> bytes \<Rightarrow> nat \<Rightarrow> nat \<Rightarrow> nat \<Rightarrow> bytes \<Rightarrow> 'pt DequeOfNode
     \<Rightarrow> (nat \<times> 'pt CommitPoint option \<times> CommitPointHash option) option option" where
  "GetConsensusCommit B P src offset consensusID blockNumber blockHash committeeKeys =
     (case open_consensus_message (ConsensusCommit P) src offset consensusID blockNumber blockHash of
        None \<Rightarrow> Some None
      | Some result \<Rightarrow>
          let backupID = u16 (memberid (consensusinfo result));
              (cp, cph) = payload (consensusinfo result)
          in if backupID \<ge> length committeeKeys then Some None
             else
               (case (CommitPoint_Deserialize B cp 0, CommitPointHash_Deserialize cph 0) of
                  ((commitPoint, rc), (commitPointHash, rc')) \<Rightarrow>
                    if rc \<noteq> 0 then Some None
                    else if rc' \<noteq> 0 then Some None
                    else case check_info_signature B (ConsensusCommit P) result
                                (fst (committeeKeys ! backupID)) of
                           None \<Rightarrow> None
                         | Some ok \<Rightarrow>
                             Some (if ok then Some (backupID, commitPoint, commitPointHash) else None)))"

section \<open>Challenge\<close>

definition SetConsensusChallenge ::
    "'pt openssl \<Rightarrow> protobufs \<Rightarrow> bytes \<Rightarrow> nat \<Rightarrow> nat \<Rightarrow> nat \<Rightarrow> bytes \<Rightarrow> nat
     \<Rightarrow> 'pt ChallengeSubsetInfo list \<Rightarrow> 'pt PairOfKey \<Rightarrow> int option list \<Rightarrow> (bytes \<times> bool) option" where
  "SetConsensusChallenge B P dst offset consensusID blockNumber blockHash leaderID subsetInfo
       leaderKey draws =
     sign_and_serialize B (ConsensusChallenge P) dst offset
       \<lparr>consensusid = consensusID, blocknumber = blockNumber, blockhash = blockHash,
        memberid = leaderID,
        payload = map (\<lambda>si. (fst (CommitPoint_Serialize B [] 0 (si_aggregatedCommit si)),
                             fst (PubKey_Serialize B [] 0 (si_aggregatedKey si)),
                             fst (Challenge_Serialize [] 0 (si_challenge si)))) subsetInfo\<rparr>
       leaderKey draws"

text \<open>One entry of the loop over \<open>subsetinfo\<close>: \<open>None\<close> is the crash of \<open>emplace_back\<close> on a null
  commit point or challenge, \<open>Some None\<close> an unreadable key.\<close>

definition read_challenge_subset ::
    "'pt openssl \<Rightarrow> bytes \<times> bytes \<times> bytes \<Rightarrow> 'pt ChallengeSubsetInfo option option" where
  "read_challenge_subset B e =
     (case e of (commit, key, chal) \<Rightarrow>
        (case PubKey_Deserialize B (PubKey_default B) key 0 of
           (aggregatedKey, rc) \<Rightarrow>
             if rc \<noteq> 0 then Some None
             else
               (case (fst (CommitPoint_Deserialize B commit 0), fst (Challenge_Deserialize chal 0)) of
                  (Some cp, Some c) \<Rightarrow>
                    Some (Some \<lparr>si_aggregatedCommit = CommitPoint_copy cp,
                                si_aggregatedKey = aggregatedKey, si_challenge = Challenge_copy c\<rparr>)
                | _ \<Rightarrow> None)))"

fun read_challenge_subsets ::
    "'pt openssl \<Rightarrow> challenge_payload \<Rightarrow> 'pt ChallengeSubsetInfo list option option" where
  "read_challenge_subsets B [] = Some (Some [])"
| "read_challenge_subsets B (e # es) =
     (case read_challenge_subset B e of
        None \<Rightarrow> None
      | Some None \<Rightarrow> Some None
      | Some (Some si) \<Rightarrow>
          (case read_challenge_subsets B es of
             None \<Rightarrow> None
           | Some None \<Rightarrow> Some None
           | Some (Some sis) \<Rightarrow> Some (Some (si # sis))))"

definition GetConsensusChallenge ::
    "'pt openssl \<Rightarrow> protobufs \<Rightarrow> bytes \<Rightarrow> nat \<Rightarrow> nat \<Rightarrow> nat \<Rightarrow> bytes \<Rightarrow> nat \<Rightarrow> 'pt PubKey
     \<Rightarrow> 'pt ChallengeSubsetInfo list option option" where
  "GetConsensusChallenge B P src offset consensusID blockNumber blockHash leaderID leaderKey =
     (case open_consensus_message (ConsensusChallenge P) src offset consensusID blockNumber blockHash of
        None \<Rightarrow> Some None
      | Some result \<Rightarrow>
          if memberid (consensusinfo result) \<noteq> leaderID then Some None
          else
            (case read_challenge_subsets B (payload (consensusinfo result)) of
               None \<Rightarrow> None
             | Some None \<Rightarrow> Some None
             | Some (Some subsetInfo) \<Rightarrow>
                 (case check_info_signature B (ConsensusChallenge P) result leaderKey of
                    None \<Rightarrow> None
                  | Some ok \<Rightarrow> Some (if ok then Some subsetInfo else None))))"

section \<open>Response\<close>

definition SetConsensusResponse ::
    "'pt openssl \<Rightarrow> protobufs \<Rightarrow> bytes \<Rightarrow> nat \<Rightarrow> nat \<Rightarrow> nat \<Rightarrow> bytes \<Rightarrow> nat \<Rightarrow> Response list
     \<Rightarrow> 'pt PairOfKey \<Rightarrow> int option list \<Rightarrow> (bytes \<times> bool) option" where
  "SetConsensusResponse B P dst offset consensusID blockNumber blockHash backupID subsetInfo
       backupKey draws =
     sign_and_serialize B (ConsensusResponse P) dst offset
       \<lparr>consensusid = consensusID, blocknumber = blockNumber, blockhash = blockHash,
        memberid = backupID, payload = map (\<lambda>r. fst (Response_Serialize [] 0 r)) subsetInfo\<rparr>
       backupKey draws"

fun read_response_subsets :: "response_payload \<Rightarrow> Response list option" where
  "read_response_subsets [] = Some []"
| "read_response_subsets (e # es) =
     (case fst (Response_Deserialize e 0) of
        None \<Rightarrow> None
      | Some r \<Rightarrow>
          (case read_response_subsets es of
             None \<Rightarrow> None
           | Some rs \<Rightarrow> Some (Response_copy r # rs)))"

definition GetConsensusResponse ::
    "'pt openssl \<Rightarrow> protobufs \<Rightarrow> bytes \<Rightarrow> nat \<Rightarrow> nat \<Rightarrow> nat \<Rightarrow> bytes \<Rightarrow> 'pt DequeOfNode
     \<Rightarrow> (nat \<times> Response list) option option" where
  "GetConsensusResponse B P src offset consensusID blockNumber blockHash committeeKeys =
     (case open_consensus_message (ConsensusResponse P) src offset consensusID blockNumber blockHash of
        None \<Rightarrow> Some None
      | Some result \<Rightarrow>
          let backupID = u16 (memberid (consensusinfo result))
          in if backupID \<ge> length committeeKeys then Some None
             else
               (case read_response_subsets (payload (consensusinfo result)) of
                  None \<Rightarrow> None
                | Some subsetInfo \<Rightarrow>
                    (case check_info_signature B (ConsensusResponse P) result
                            (fst (committeeKeys ! backupID)) of
                       None \<Rightarrow> None
                     | Some ok \<Rightarrow> Some (if ok then Some (backupID, subsetInfo) else None))))"

section \<open>Collective signature\<close>

definition SetConsensusCollectiveSig ::
    "'pt openssl \<Rightarrow> protobufs \<Rightarrow> bytes \<Rightarrow> nat \<Rightarrow> nat \<Rightarrow> nat \<Rightarrow> bytes \<Rightarrow> nat \<Rightarrow> Signature
     \<Rightarrow> bool list \<Rightarrow> 'pt PairOfKey \<Rightarrow> int option list \<Rightarrow> (bytes \<times> bool) option" where
  "SetConsensusCollectiveSig B P dst offset consensusID blockNumber blockHash leaderID collectiveSig
       bitmap leaderKey draws =
     sign_and_serialize B (ConsensusCollectiveSig P) dst offset
       \<lparr>consensusid = consensusID, blocknumber = blockNumber, blockhash = blockHash,
        memberid = leaderID, payload = (fst (Signature_Serialize [] 0 collectiveSig), bitmap)\<rparr>
       leaderKey draws"

text \<open>The bitmap and the signature are the caller's members, passed by reference: the function
  appends to the first and overwrites the second before the signature of the message is checked.\<close>

definition GetConsensusCollectiveSig ::
    "'pt openssl \<Rightarrow> protobufs \<Rightarrow> bytes \<Rightarrow> nat \<Rightarrow> nat \<Rightarrow> nat \<Rightarrow> bytes \<Rightarrow> nat \<Rightarrow> bool list \<Rightarrow> Signature
     \<Rightarrow> 'pt PubKey \<Rightarrow> (bool \<times> bool list \<times> Signature) option" where
  "GetConsensusCollectiveSig B P src offset consensusID blockNumber blockHash leaderID bitmap
       collectiveSig leaderKey =
     (case open_consensus_message (ConsensusCollectiveSig P) src offset consensusID blockNumber blockHash of
        None \<Rightarrow> Some (False, bitmap, collectiveSig)
      | Some result \<Rightarrow>
          if memberid (consensusinfo result) \<noteq> leaderID then Some (False, bitmap, collectiveSig)
          else
            (case payload (consensusinfo result) of (cs, bits) \<Rightarrow>
               (case Signature_Deserialize collectiveSig cs 0 of
                  (collectiveSig', rc) \<Rightarrow>
                    if rc \<noteq> 0 then Some (False, bitmap, collectiveSig')
                    else
                      (case check_info_signature B (ConsensusCollectiveSig P) result leaderKey of
                         None \<Rightarrow> None
                       | Some ok \<Rightarrow> Some (ok, bitmap @ bits, collectiveSig')))))"

section \<open>Commit failure and consensus failure\<close>

definition SetConsensusCommitFailure ::
    "'pt openssl \<Rightarrow> protobufs \<Rightarrow> bytes \<Rightarrow> nat \<Rightarrow> nat \<Rightarrow> nat \<Rightarrow> bytes \<Rightarrow> nat \<Rightarrow> bytes
     \<Rightarrow> 'pt PairOfKey \<Rightarrow> int option list \<Rightarrow> (bytes \<times> bool) option" where
  "SetConsensusCommitFailure B P dst offset consensusID blockNumber blockHash backupID errorMsg
       backupKey draws =
     sign_and_serialize B (ConsensusCommitFailure P) dst offset
       \<lparr>consensusid = consensusID, blocknumber = blockNumber, blockhash = blockHash,
        memberid = backupID, payload = errorMsg\<rparr>
       backupKey draws"

definition GetConsensusCommitFailure ::
    "'pt openssl \<Rightarrow> protobufs \<Rightarrow> bytes \<Rightarrow> nat \<Rightarrow> nat \<Rightarrow> nat \<Rightarrow> bytes \<Rightarrow> 'pt DequeOfNode
     \<Rightarrow> (nat \<times> bytes) option option" where
  "GetConsensusCommitFailure B P src offset consensusID blockNumber blockHash committeeKeys =
     (case open_consensus_message (ConsensusCommitFailure P) src offset consensusID blockNumber blockHash of
        None \<Rightarrow> Some None
      | Some result \<Rightarrow>
          let backupID = u16 (memberid (consensusinfo result))
          in if backupID \<ge> length committeeKeys then Some None
             else
               (case check_info_signature B (ConsensusCommitFailure P) result
                       (fst (committeeKeys ! backupID)) of
                  None \<Rightarrow> None
                | Some ok \<Rightarrow>
                    Some (if ok then Some (backupID, payload (consensusinfo result)) else None)))"

definition SetConsensusConsensusFailure ::
    "'pt openssl \<Rightarrow> protobufs \<Rightarrow> bytes \<Rightarrow> nat \<Rightarrow> nat \<Rightarrow> nat \<Rightarrow> bytes \<Rightarrow> nat
     \<Rightarrow> 'pt PairOfKey \<Rightarrow> int option list \<Rightarrow> (bytes \<times> bool) option" where
  "SetConsensusConsensusFailure B P dst offset consensusID blockNumber blockHash leaderID
       leaderKey draws =
     sign_and_serialize B (ConsensusConsensusFailure P) dst offset
       \<lparr>consensusid = consensusID, blocknumber = blockNumber, blockhash = blockHash,
        memberid = leaderID, payload = ()\<rparr>
       leaderKey draws"

definition GetConsensusConsensusFailure ::
    "'pt openssl \<Rightarrow> protobufs \<Rightarrow> bytes \<Rightarrow> nat \<Rightarrow> nat \<Rightarrow> nat \<Rightarrow> bytes \<Rightarrow> nat \<Rightarrow> 'pt PubKey
     \<Rightarrow> bool option" where
  "GetConsensusConsensusFailure B P src offset consensusID blockNumber blockHash leaderID leaderKey =
     (case open_consensus_message (ConsensusConsensusFailure P) src offset consensusID blockNumber blockHash of
        None \<Rightarrow> Some False
      | Some result \<Rightarrow>
          if memberid (consensusinfo result) \<noteq> leaderID then Some False
          else check_info_signature B (ConsensusConsensusFailure P) result leaderKey)"

section \<open>Facts about the shared parts\<close>

lemma open_consensus_message_Some:
  "open_consensus_message p src offset cid bn bh = Some m \<longleftrightarrow>
     offset < length src \<and> ParseFromArray p (drop offset src) = Some m
     \<and> consensusid (consensusinfo m) = cid \<and> blocknumber (consensusinfo m) = bn
     \<and> blockhash (consensusinfo m) = bh"
  by (auto simp: open_consensus_message_def split: option.splits if_splits)

lemma check_info_signature_True:
  "check_info_signature B p m key = Some True \<longleftrightarrow>
     snd (Signature_Deserialize Signature_default (msg_signature m) 0) = 0
     \<and> Schnorr_Verify B (InfoToArray p (consensusinfo m)) (Signature_from_bytes (msg_signature m) 0) key
         = Some True"
  by (auto simp: check_info_signature_def Signature_from_bytes_def split: prod.splits if_splits)

lemma check_info_signature_total [simp]: "check_info_signature B p m key \<noteq> None"
  by (auto simp: check_info_signature_def simp del: not_None_eq split: prod.splits)

text \<open>A signature the signing loop returns fits its field.\<close>

lemma Schnorr_Sign_loop_fits:
  assumes B: "openssl_ok B g"
  shows "Schnorr_Sign_loop B message offset sz d pub draws = SignTrue sig \<Longrightarrow> Signature_fits sig"
proof (induction draws)
  case (Cons k draws)
  have n: "0 < ec_order B" "ec_order B < 256 ^ 32" using openssl_order [OF B] by simp_all
  have fits: "bn_fits 32 (x mod ec_order B)" for x
  proof -
    have "0 \<le> x mod ec_order B" "x mod ec_order B < ec_order B" using n by simp_all
    then show ?thesis using n unfolding bn_fits_def by linarith
  qed
  from Cons show ?case
    by (cases k) (auto simp: Let_def openssl_bn [OF B] Signature_fits_def fits
        split: if_splits option.splits)
qed simp

lemma Schnorr_Sign_fits:
  "openssl_ok B g \<Longrightarrow> Schnorr_Sign B message d pub draws = SignTrue sig \<Longrightarrow> Signature_fits sig"
  by (auto simp: Schnorr_Sign_def Schnorr_Sign_range_def split: if_splits intro: Schnorr_Sign_loop_fits)

lemma SerializeToArray_at_end:
  assumes "SerializeToArray raw dst (length dst) = Some (dst', True)"
  shows "dst' = dst @ raw"
proof (cases "u32 (length dst + length raw) > length dst")
  case True
  with assms show ?thesis
    by (auto simp: SerializeToArray_def Let_def vec_resize_def vec_write_def u32_def split: if_splits)
next
  case False
  with assms show ?thesis
    by (auto simp: SerializeToArray_def Let_def vec_write_def split: if_splits)
qed

lemma SerializeToArray_total:
  "length dst = offset \<Longrightarrow> offset < 2 ^ 31 \<Longrightarrow> SerializeToArray raw dst offset \<noteq> None"
  by (cases "length raw < 2 ^ 31") (auto simp: SerializeToArray_def Let_def)

text \<open>What a setter leaves behind the header bytes is a message that parses to the info part and
  whose signature verifies under the signer's key.\<close>

lemma sign_and_serialize_opens:
  assumes B: "openssl_ok B g" and p: "protobuf_ok p" and d: "0 < d" "d < ec_order B"
    and draws: "\<forall>k. Some k \<in> set draws \<longrightarrow> 0 \<le> k \<and> k < ec_order B"
    and set: "sign_and_serialize B p dst (length dst) info (d, g d) draws = Some (dst', True)"
    and len: "length dst' < 2 ^ 31"
  shows "\<exists>m. open_consensus_message p dst' (length dst) (consensusid info) (blocknumber info) (blockhash info)
             = Some m
           \<and> consensusinfo m = info \<and> check_info_signature B p m (g d) = Some True"
proof -
  obtain sig where sig: "Schnorr_Sign B (InfoToArray p info) d (g d) draws = SignTrue sig"
    using set by (auto simp: sign_and_serialize_def split: sign_result.splits)
  let ?m = "\<lparr>consensusinfo = info, msg_pubkey = fst (PubKey_Serialize B [] 0 (g d)),
             msg_signature = fst (Signature_Serialize [] 0 sig)\<rparr>"
  have "SerializeToArray (MsgToArray p ?m) dst (length dst) = Some (dst', True)"
    using set sig by (simp add: sign_and_serialize_def)
  then have dst': "dst' = dst @ MsgToArray p ?m" using SerializeToArray_at_end by blast
  then have short: "length (MsgToArray p ?m) < 2 ^ 31" using len by simp
  have info: "0 < length (InfoToArray p info)" "length (InfoToArray p info) \<le> length (MsgToArray p ?m)"
    using p unfolding protobuf_ok_def by (metis ConsensusMsg.select_convs(1))+
  have parse: "ParseFromArray p (drop (length dst) dst') = Some ?m"
    using p short by (simp add: protobuf_ok_def dst')
  have "Signature_Deserialize Signature_default (fst (Signature_Serialize [] 0 sig)) 0 = (sig, 0)"
    by (rule Signature_roundtrip_aux [OF Schnorr_Sign_fits [OF B sig]]) simp
  moreover have "Schnorr_Verify B (InfoToArray p info) sig (g d) = Some True"
  proof -
    have "length (InfoToArray p info) < 4294967296" using info short by simp
    then show ?thesis
      using Schnorr_Sign_loop_verifies [OF B _ _ _ _ draws, of d 0 "length (InfoToArray p info)"
          "InfoToArray p info" sig] sig d info
      by (auto simp: Schnorr_Sign_def Schnorr_Sign_range_def Schnorr_Verify_def split: if_splits)
  qed
  ultimately have "check_info_signature B p ?m (g d) = Some True"
    by (simp add: check_info_signature_def)
  moreover have "0 < length (MsgToArray p ?m)" using info by linarith
  then have "length dst < length dst'" using dst' by simp
  ultimately show ?thesis using parse unfolding open_consensus_message_Some by auto
qed

text \<open>The objects inside the messages survive their trip through a byte field.\<close>

lemma CommitPoint_field:
  assumes "openssl_points_ok B enc" "enc (fval cp)" "finit cp"
  shows "CommitPoint_Deserialize B (fst (CommitPoint_Serialize B [] 0 cp)) 0 = (Some cp, 0)"
  using byte_field.get_put [OF ecpoint_field [OF assms(1)] assms(2), of 0 "[]"] assms(3)
  by (cases cp) (simp add: CommitPoint_Deserialize_def CommitPoint_Serialize_def)

lemma PubKey_field:
  assumes "openssl_points_ok B enc" "enc key"
  shows "PubKey_Deserialize B old (fst (PubKey_Serialize B [] 0 key)) 0 = (key, 0)"
  using byte_field.get_put [OF ecpoint_field [OF assms(1)] assms(2), of 0 "[]"]
  by (simp add: PubKey_Deserialize_def PubKey_Serialize_def)

lemma scalar_field:
  assumes "bn_fits 32 (fval x)" "finit x"
  shows "scalar_Deserialize (fst (scalar_Serialize [] 0 x)) 0 = (Some x, 0)"
  using bn32.get_put [OF assms(1), of 0 "[]"] assms(2)
  by (cases x) (simp add: scalar_Deserialize_def scalar_Serialize_def)

lemmas scalar_fields = scalar_field
  [folded CommitPointHash_Deserialize_def CommitPointHash_Serialize_def]
  scalar_field [folded Challenge_Deserialize_def Challenge_Serialize_def]
  scalar_field [folded Response_Deserialize_def Response_Serialize_def]

lemma copied_id: "finit x \<Longrightarrow> copied x = x"
  by (cases x) (simp add: copied_def)

lemma read_responses_written:
  "\<forall>r \<in> set rs. finit r \<and> bn_fits 32 (fval r) \<Longrightarrow>
   read_response_subsets (map (\<lambda>r. fst (Response_Serialize [] 0 r)) rs) = Some rs"
  by (induction rs) (simp_all add: scalar_fields Response_copy_def copied_id)

lemma read_challenges_written:
  assumes "openssl_points_ok B enc"
  shows "\<forall>si \<in> set sis. finit (si_aggregatedCommit si) \<and> enc (fval (si_aggregatedCommit si))
      \<and> enc (si_aggregatedKey si) \<and> finit (si_challenge si) \<and> bn_fits 32 (fval (si_challenge si)) \<Longrightarrow>
   read_challenge_subsets B
     (map (\<lambda>si. (fst (CommitPoint_Serialize B [] 0 (si_aggregatedCommit si)),
                 fst (PubKey_Serialize B [] 0 (si_aggregatedKey si)),
                 fst (Challenge_Serialize [] 0 (si_challenge si)))) sis) = Some (Some sis)"
  by (induction sis)
     (simp_all add: read_challenge_subset_def CommitPoint_field [OF assms] PubKey_field [OF assms]
       scalar_fields CommitPoint_copy_def Challenge_copy_def copied_id)

text \<open>The other setters and getters, for a message written right behind its header bytes.\<close>

lemma ConsensusCommit_written:
  assumes B: "openssl_ok B g" and pts: "openssl_points_ok B enc" and P: "protobuf_ok (ConsensusCommit P)"
    and d: "0 < d" "d < ec_order B"
    and draws: "\<forall>k. Some k \<in> set draws \<longrightarrow> 0 \<le> k \<and> k < ec_order B"
    and member: "backupID < length committee" "backupID < 2 ^ 16" "fst (committee ! backupID) = g d"
    and cp: "finit cp" "enc (fval cp)" and cph: "finit cph" "bn_fits 32 (fval cph)"
    and set: "SetConsensusCommit B P dst (length dst) cid bn bh backupID cp cph (d, g d) draws
                = Some (dst', True)" "length dst' < 2 ^ 31"
  shows "GetConsensusCommit B P dst' (length dst) cid bn bh committee
    = Some (Some (backupID, Some cp, Some cph))"
proof -
  let ?info = "\<lparr>consensusid = cid, blocknumber = bn, blockhash = bh, memberid = backupID,
     payload = (fst (CommitPoint_Serialize B [] 0 cp), fst (CommitPointHash_Serialize [] 0 cph))\<rparr>"
  have "sign_and_serialize B (ConsensusCommit P) dst (length dst) ?info (d, g d) draws = Some (dst', True)"
    using set(1) by (simp add: SetConsensusCommit_def)
  from sign_and_serialize_opens [OF B P d draws this set(2)] show ?thesis
    using member cp cph
    by (auto simp: GetConsensusCommit_def CommitPoint_field [OF pts] scalar_fields)
qed

lemma ConsensusResponse_written:
  assumes B: "openssl_ok B g" and P: "protobuf_ok (ConsensusResponse P)"
    and d: "0 < d" "d < ec_order B"
    and draws: "\<forall>k. Some k \<in> set draws \<longrightarrow> 0 \<le> k \<and> k < ec_order B"
    and member: "backupID < length committee" "backupID < 2 ^ 16" "fst (committee ! backupID) = g d"
    and rs: "\<forall>r \<in> set rs. finit r \<and> bn_fits 32 (fval r)"
    and set: "SetConsensusResponse B P dst (length dst) cid bn bh backupID rs (d, g d) draws
                = Some (dst', True)" "length dst' < 2 ^ 31"
  shows "GetConsensusResponse B P dst' (length dst) cid bn bh committee = Some (Some (backupID, rs))"
proof -
  from sign_and_serialize_opens [OF B P d draws set(1) [unfolded SetConsensusResponse_def] set(2)]
  show ?thesis using member by (auto simp: GetConsensusResponse_def read_responses_written [OF rs])
qed

lemma ConsensusCollectiveSig_written:
  assumes B: "openssl_ok B g" and P: "protobuf_ok (ConsensusCollectiveSig P)"
    and d: "0 < d" "d < ec_order B"
    and draws: "\<forall>k. Some k \<in> set draws \<longrightarrow> 0 \<le> k \<and> k < ec_order B"
    and sig: "Signature_fits sig"
    and set: "SetConsensusCollectiveSig B P dst (length dst) cid bn bh leaderID sig bits (d, g d) draws
                = Some (dst', True)" "length dst' < 2 ^ 31"
  shows "GetConsensusCollectiveSig B P dst' (length dst) cid bn bh leaderID [] old (g d)
    = Some (True, bits, sig)"
proof -
  have "Signature_Deserialize old (fst (Signature_Serialize [] 0 sig)) 0 = (sig, 0)"
    by (rule Signature_roundtrip_aux [OF sig]) simp
  with sign_and_serialize_opens [OF B P d draws set(1) [unfolded SetConsensusCollectiveSig_def] set(2)]
  show ?thesis by (auto simp: GetConsensusCollectiveSig_def)
qed

text \<open>What a getter that returns true has checked.\<close>

definition authentic ::
    "'pt openssl \<Rightarrow> 'p protobuf \<Rightarrow> bytes \<Rightarrow> nat \<Rightarrow> nat \<Rightarrow> nat \<Rightarrow> bytes \<Rightarrow> 'pt PubKey
     \<Rightarrow> 'p ConsensusMsg \<Rightarrow> bool" where
  "authentic B p src offset cid bn bh key m \<longleftrightarrow>
     offset < length src \<and> ParseFromArray p (drop offset src) = Some m
     \<and> consensusid (consensusinfo m) = cid \<and> blocknumber (consensusinfo m) = bn
     \<and> blockhash (consensusinfo m) = bh
     \<and> Schnorr_Verify B (InfoToArray p (consensusinfo m)) (Signature_from_bytes (msg_signature m) 0) key
         = Some True"

lemma opened_authentic:
  assumes "open_consensus_message p src offset cid bn bh = Some m"
    "check_info_signature B p m key = Some True"
  shows "authentic B p src offset cid bn bh key m"
  using assms by (simp add: authentic_def open_consensus_message_Some check_info_signature_True)

lemma GetConsensusCommit_SomeE:
  assumes "GetConsensusCommit B P src offset cid bn bh committee = Some (Some (backupID, cp, cph))"
  obtains m where "authentic B (ConsensusCommit P) src offset cid bn bh (fst (committee ! backupID)) m"
    "backupID < length committee" "backupID = u16 (memberid (consensusinfo m))"
    "cp = fst (CommitPoint_Deserialize B (fst (payload (consensusinfo m))) 0)"
    "cph = fst (CommitPointHash_Deserialize (snd (payload (consensusinfo m))) 0)"
  using assms
  by (auto simp: GetConsensusCommit_def Let_def split: option.splits prod.splits if_splits
      intro!: that opened_authentic)

lemma GetConsensusResponse_SomeE:
  assumes "GetConsensusResponse B P src offset cid bn bh committee = Some (Some (backupID, rs))"
  obtains m where "authentic B (ConsensusResponse P) src offset cid bn bh (fst (committee ! backupID)) m"
    "backupID < length committee" "backupID = u16 (memberid (consensusinfo m))"
    "read_response_subsets (payload (consensusinfo m)) = Some rs"
  using assms
  by (auto simp: GetConsensusResponse_def Let_def split: option.splits if_splits
      intro!: that opened_authentic)

lemma GetConsensusCommitFailure_SomeE:
  assumes "GetConsensusCommitFailure B P src offset cid bn bh committee = Some (Some (backupID, err))"
  obtains m where "authentic B (ConsensusCommitFailure P) src offset cid bn bh (fst (committee ! backupID)) m"
    "backupID < length committee" "backupID = u16 (memberid (consensusinfo m))"
    "err = payload (consensusinfo m)"
  using assms
  by (auto simp: GetConsensusCommitFailure_def Let_def split: option.splits if_splits
      intro!: that opened_authentic)

lemma GetConsensusCommit_total: "GetConsensusCommit B P src offset cid bn bh committee \<noteq> None"
  by (auto simp: GetConsensusCommit_def Let_def split: option.splits prod.splits)

lemma GetConsensusCommitFailure_total:
  "GetConsensusCommitFailure B P src offset cid bn bh committee \<noteq> None"
  by (auto simp: GetConsensusCommitFailure_def Let_def split: option.splits)

lemma GetConsensusCollectiveSig_total:
  "GetConsensusCollectiveSig B P src offset cid bn bh leaderID bitmap sig key \<noteq> None"
  by (auto simp: GetConsensusCollectiveSig_def split: option.splits prod.splits)

lemma GetConsensusConsensusFailure_total:
  "GetConsensusConsensusFailure B P src offset cid bn bh leaderID key \<noteq> None"
  by (auto simp: GetConsensusConsensusFailure_def simp del: not_None_eq split: option.splits)

lemma read_response_subsets_None:
  "read_response_subsets es = None \<longleftrightarrow> (\<exists>e \<in> set es. length e < 32)"
  by (induction es)
     (auto simp: Response_Deserialize_def scalar_Deserialize_def BIGNUMSerialize_GetNumber_def
       split: option.splits if_splits)

lemma read_response_subsets_facts:
  "read_response_subsets es = Some rs \<Longrightarrow>
     length rs = length es \<and> (\<forall>r \<in> set rs. finit r \<and> 0 \<le> fval r)"
  by (induction es arbitrary: rs)
     (auto simp: Response_copy_def copied_def Response_Deserialize_def scalar_Deserialize_def
       BIGNUMSerialize_GetNumber_def BN_bin2bn_def split: option.splits if_splits)

text \<open>The setters never crash when their message starts right behind the three header bytes.\<close>

lemma sign_and_serialize_total:
  assumes "draws_suffice B (fst key) (snd key) draws" "length dst = offset" "offset < 2 ^ 31"
  shows "sign_and_serialize B p dst offset info key draws \<noteq> None"
proof -
  have "Schnorr_Sign B (InfoToArray p info) (fst key) (snd key) draws \<noteq> SignOutOfDraws"
    using assms(1) by (simp add: draws_suffice_def)
  then show ?thesis
    using SerializeToArray_total [OF assms(2,3)]
      Schnorr_Sign_no_fault [of B "InfoToArray p info" "fst key" "snd key" draws]
    by (auto simp: sign_and_serialize_def simp del: not_None_eq split: sign_result.splits)
qed

section \<open>A small protobuf runtime\<close>

text \<open>
  A self-delimiting encoding that satisfies \<open>protobuf_ok\<close> for every payload type of the
  consensus messages: numbers in unary, octet strings and lists with their length in front.
\<close>

definition prefix_codec :: "('a \<Rightarrow> bytes) \<Rightarrow> (bytes \<Rightarrow> 'a \<times> bytes) \<Rightarrow> bool" where
  "prefix_codec enc dec \<longleftrightarrow> (\<forall>x rest. dec (enc x @ rest) = (x, rest))"

lemma prefix_codecD: "prefix_codec enc dec \<Longrightarrow> dec (enc x @ rest) = (x, rest)"
  by (simp add: prefix_codec_def)

definition enc_nat :: "nat \<Rightarrow> bytes" where
  "enc_nat n = replicate n 1 @ [0]"

definition dec_nat :: "bytes \<Rightarrow> nat \<times> bytes" where
  "dec_nat bs = (let n = length (takeWhile (\<lambda>b. b = 1) bs) in (n, drop (Suc n) bs))"

definition enc_bytes :: "bytes \<Rightarrow> bytes" where
  "enc_bytes xs = enc_nat (length xs) @ xs"

definition dec_bytes :: "bytes \<Rightarrow> bytes \<times> bytes" where
  "dec_bytes bs = (case dec_nat bs of (n, r) \<Rightarrow> (take n r, drop n r))"

definition enc_pair :: "('a \<Rightarrow> bytes) \<Rightarrow> ('b \<Rightarrow> bytes) \<Rightarrow> 'a \<times> 'b \<Rightarrow> bytes" where
  "enc_pair f g p = f (fst p) @ g (snd p)"

definition dec_pair :: "(bytes \<Rightarrow> 'a \<times> bytes) \<Rightarrow> (bytes \<Rightarrow> 'b \<times> bytes) \<Rightarrow> bytes \<Rightarrow> ('a \<times> 'b) \<times> bytes" where
  "dec_pair f g bs = (case f bs of (x, r) \<Rightarrow> (case g r of (y, r') \<Rightarrow> ((x, y), r')))"

definition enc_list :: "('a \<Rightarrow> bytes) \<Rightarrow> 'a list \<Rightarrow> bytes" where
  "enc_list f xs = enc_nat (length xs) @ concat (map f xs)"

fun dec_many :: "(bytes \<Rightarrow> 'a \<times> bytes) \<Rightarrow> nat \<Rightarrow> bytes \<Rightarrow> 'a list \<times> bytes" where
  "dec_many f 0 bs = ([], bs)"
| "dec_many f (Suc n) bs = (case f bs of (x, r) \<Rightarrow> (case dec_many f n r of (xs, r') \<Rightarrow> (x # xs, r')))"

definition dec_list :: "(bytes \<Rightarrow> 'a \<times> bytes) \<Rightarrow> bytes \<Rightarrow> 'a list \<times> bytes" where
  "dec_list f bs = (case dec_nat bs of (n, r) \<Rightarrow> dec_many f n r)"

definition enc_bool :: "bool \<Rightarrow> bytes" where
  "enc_bool b = [if b then 1 else 0]"

definition dec_bool :: "bytes \<Rightarrow> bool \<times> bytes" where
  "dec_bool bs = (hd bs = 1, tl bs)"

definition dec_unit :: "bytes \<Rightarrow> unit \<times> bytes" where
  "dec_unit bs = ((), bs)"

lemma nat_codec: "prefix_codec enc_nat dec_nat"
  by (simp add: prefix_codec_def enc_nat_def dec_nat_def Let_def takeWhile_tail)

lemma bytes_codec: "prefix_codec enc_bytes dec_bytes"
  by (simp add: prefix_codec_def enc_bytes_def dec_bytes_def prefix_codecD [OF nat_codec])

lemma bool_codec: "prefix_codec enc_bool dec_bool"
  by (simp add: prefix_codec_def enc_bool_def dec_bool_def)

lemma unit_codec: "prefix_codec (\<lambda>_. []) dec_unit"
  by (simp add: prefix_codec_def dec_unit_def)

lemma pair_codec:
  assumes "prefix_codec f f'" "prefix_codec g g'"
  shows "prefix_codec (enc_pair f g) (dec_pair f' g')"
  using assms by (auto simp: enc_pair_def dec_pair_def prefix_codec_def)

lemma list_codec:
  assumes "prefix_codec f f'"
  shows "prefix_codec (enc_list f) (dec_list f')"
  unfolding prefix_codec_def
proof (intro allI)
  fix xs rest
  have "dec_many f' (length xs) (concat (map f xs) @ rest) = (xs, rest)"
    using assms by (induction xs) (simp_all add: prefix_codec_def)
  then show "dec_list f' (enc_list f xs @ rest) = (xs, rest)"
    by (simp add: enc_list_def dec_list_def prefix_codecD [OF nat_codec])
qed

definition toy_info :: "('p \<Rightarrow> bytes) \<Rightarrow> 'p ConsensusInfo \<Rightarrow> bytes" where
  "toy_info f i = enc_nat (consensusid i) @ enc_nat (blocknumber i) @ enc_bytes (blockhash i)
     @ enc_nat (memberid i) @ f (payload i)"

definition toy_msg :: "('p \<Rightarrow> bytes) \<Rightarrow> 'p ConsensusMsg \<Rightarrow> bytes" where
  "toy_msg f m = toy_info f (consensusinfo m) @ enc_bytes (msg_pubkey m) @ enc_bytes (msg_signature m)"

definition toy_parse :: "(bytes \<Rightarrow> 'p \<times> bytes) \<Rightarrow> bytes \<Rightarrow> 'p ConsensusMsg option" where
  "toy_parse f bs =
     (case dec_nat bs of (cid, r1) \<Rightarrow> case dec_nat r1 of (bn, r2) \<Rightarrow> case dec_bytes r2 of (bh, r3) \<Rightarrow>
      case dec_nat r3 of (mid, r4) \<Rightarrow> case f r4 of (pl, r5) \<Rightarrow> case dec_bytes r5 of (pk, r6) \<Rightarrow>
      case dec_bytes r6 of (sg, r7) \<Rightarrow>
        Some \<lparr>consensusinfo = \<lparr>consensusid = cid, blocknumber = bn, blockhash = bh, memberid = mid,
                payload = pl\<rparr>, msg_pubkey = pk, msg_signature = sg\<rparr>)"

definition toy_protobuf :: "('p \<Rightarrow> bytes) \<Rightarrow> (bytes \<Rightarrow> 'p \<times> bytes) \<Rightarrow> 'p protobuf" where
  "toy_protobuf f f' = \<lparr>ParseFromArray = toy_parse f', InfoToArray = toy_info f, MsgToArray = toy_msg f\<rparr>"

lemma toy_protobuf_ok:
  assumes "prefix_codec f f'"
  shows "protobuf_ok (toy_protobuf f f')"
proof -
  have bytes_end: "dec_bytes (enc_bytes x) = (x, [])" for x using prefix_codecD [OF bytes_codec, of x "[]"] by simp
  have parse: "toy_parse f' (toy_msg f m) = Some m" for m
    using assms
    by (simp add: toy_parse_def toy_msg_def toy_info_def prefix_codecD [OF nat_codec] prefix_codecD [OF bytes_codec] bytes_end
        prefix_codecD)
  have "0 < length (toy_info f i)" for i by (simp add: toy_info_def enc_nat_def)
  with parse show ?thesis by (simp add: protobuf_ok_def toy_protobuf_def) (simp add: toy_msg_def)
qed

definition toy_protobufs :: protobufs where
  "toy_protobufs = \<lparr>
     ConsensusCommit = toy_protobuf (enc_pair enc_bytes enc_bytes) (dec_pair dec_bytes dec_bytes),
     ConsensusChallenge = toy_protobuf (enc_list (enc_pair enc_bytes (enc_pair enc_bytes enc_bytes)))
                            (dec_list (dec_pair dec_bytes (dec_pair dec_bytes dec_bytes))),
     ConsensusResponse = toy_protobuf (enc_list enc_bytes) (dec_list dec_bytes),
     ConsensusCollectiveSig = toy_protobuf (enc_pair enc_bytes (enc_list enc_bool))
                                (dec_pair dec_bytes (dec_list dec_bool)),
     ConsensusCommitFailure = toy_protobuf enc_bytes dec_bytes,
     ConsensusConsensusFailure = toy_protobuf (\<lambda>_. []) dec_unit\<rparr>"

lemma toy_protobufs_ok:
  "protobuf_ok (ConsensusCommit toy_protobufs)" "protobuf_ok (ConsensusChallenge toy_protobufs)"
  "protobuf_ok (ConsensusResponse toy_protobufs)" "protobuf_ok (ConsensusCollectiveSig toy_protobufs)"
  "protobuf_ok (ConsensusCommitFailure toy_protobufs)"
  "protobuf_ok (ConsensusConsensusFailure toy_protobufs)"
  by (simp_all add: toy_protobufs_def toy_protobuf_ok pair_codec list_codec
      bytes_codec bool_codec unit_codec)

lemma toy_digest_val: "be_val (toy_digest bs) = sum_list (map unat bs) mod 11 + 1"
proof -
  have "sum_list (map unat bs) mod 11 + 1 < 256" using mod_less_divisor [of 11 "sum_list (map unat bs)"] by linarith
  moreover have "be_val [of_nat n :: byte] = n" if "n < 256" for n using that by (simp add: unat_of_nat)
  ultimately show ?thesis by (simp only: toy_digest_def)
qed

text \<open>With the toy digest the nonce 12 always signs under the private key 1.\<close>

lemma toy_signs:
  assumes "message \<noteq> []" "length message < 2 ^ 32"
  shows "\<exists>sig. Schnorr_Sign toy message 1 1 [Some 12] = SignTrue sig"
proof -
  have "1 \<le> schnorr_challenge toy Q P m \<and> schnorr_challenge toy Q P m \<le> 11" for Q P m
  proof -
    let ?s = "sum_list (map unat (EC_POINT_point2oct toy Q @ EC_POINT_point2oct toy P @ m)) mod 11"
    have "?s < 11" by simp
    moreover have "schnorr_challenge toy Q P m = int (?s + 1) mod 13"
      by (simp only: schnorr_challenge_def BN_bin2bn_def) (simp add: toy_def toy_digest_val)
    ultimately show ?thesis by (simp add: zmod_trivial_iff)
  qed
  from this [of 12 1 message]
  have "schnorr_challenge toy 12 1 message \<noteq> 0" "schnorr_challenge toy 12 1 message mod 13 \<le> 11"
    by simp_all
  then have "schnorr_challenge toy 12 1 message \<noteq> 0"
    "(12 - schnorr_challenge toy 12 1 message mod 13) mod 13 \<noteq> 0"
    by (simp_all add: mod_pos_pos_trivial)
  then have "\<exists>k \<in> set [12]. good_draw toy (\<lambda>k. k mod 13) 1 message k"
    by (simp add: good_draw_def Let_def toy_def)
  then show ?thesis
    using Schnorr_Sign_loop_returns [OF toy_ok, of 1 0 "length message" message "[12]"] assms
    by (simp add: Schnorr_Sign_def Schnorr_Sign_range_def toy_def)
qed

lemma SerializeToArray_succeeds:
  "length dst + length raw < 2 ^ 31 \<Longrightarrow> SerializeToArray raw dst (length dst) = Some (dst @ raw, True)"
  by (simp add: SerializeToArray_def Let_def vec_resize_def vec_write_def)

lemma toy_sign_and_serialize:
  assumes "length (toy_info f info) + length dst < 2 ^ 30"
  shows "\<exists>dst'. sign_and_serialize toy (toy_protobuf f f') dst (length dst) info (1, 1) [Some 12]
           = Some (dst', True) \<and> length dst' < 2 ^ 31"
proof -
  have ne: "toy_info f info \<noteq> []" by (simp add: toy_info_def enc_nat_def)
  then obtain sig where sig: "Schnorr_Sign toy (toy_info f info) 1 1 [Some 12] = SignTrue sig"
    using toy_signs [of "toy_info f info"] assms by auto
  have key: "length (fst (PubKey_Serialize toy [] 0 1)) = 33"
    using byte_field.put_length [OF ecpoint_field [OF toy_points_ok], of 1 0 "[]"]
    by (simp add: PubKey_Serialize_def)
  have sgn: "length (fst (Signature_Serialize [] 0 sig)) = 64"
    using Signature_roundtrip_aux(2) [OF Schnorr_Sign_fits [OF toy_ok sig], of 0 "[]"] by simp
  let ?m = "\<lparr>consensusinfo = info, msg_pubkey = fst (PubKey_Serialize toy [] 0 1),
             msg_signature = fst (Signature_Serialize [] 0 sig)\<rparr>"
  have "length (toy_msg f ?m) = length (toy_info f info) + 196"
    by (simp add: toy_msg_def enc_bytes_def enc_nat_def key sgn)
  then have "length dst + length (toy_msg f ?m) < 2 ^ 31" using assms by simp
  then show ?thesis
    using sig SerializeToArray_succeeds [of dst "toy_msg f ?m"]
    by (simp add: sign_and_serialize_def toy_protobuf_def)
qed

lemma toy_commit_serializes:
  assumes "length dst < 1000" "bid < 100" "0 \<le> p" "p < 13" "bn_fits 32 h"
  shows "\<exists>dst'. SetConsensusCommit toy toy_protobufs dst (length dst) 7 8 [9] bid \<lparr>fval = p, finit = True\<rparr>
      \<lparr>fval = h, finit = True\<rparr> (1, 1) [Some 12] = Some (dst', True) \<and> length dst' < 2 ^ 31"
proof -
  let ?cp = "\<lparr>fval = p, finit = True\<rparr> :: int CommitPoint" and ?cph = "\<lparr>fval = h, finit = True\<rparr> :: CommitPointHash"
  let ?f = "enc_pair enc_bytes enc_bytes"
  let ?info = "\<lparr>consensusid = 7, blocknumber = 8, blockhash = [9], memberid = bid,
     payload = (fst (CommitPoint_Serialize toy [] 0 ?cp), fst (CommitPointHash_Serialize [] 0 ?cph))\<rparr>"
  have "length (fst (CommitPoint_Serialize toy [] 0 ?cp)) = 33"
    using byte_field.put_length [OF ecpoint_field [OF toy_points_ok], of p 0 "[]"] assms
    by (simp add: CommitPoint_Serialize_def)
  moreover have "length (fst (CommitPointHash_Serialize [] 0 ?cph)) = 32"
    using bn32.put_length [of h 0 "[]"] assms
    by (simp add: CommitPointHash_Serialize_def scalar_Serialize_def)
  ultimately have "length (toy_info ?f ?info) + length dst < 2 ^ 30"
    using assms(1,2) by (simp add: toy_info_def enc_pair_def enc_bytes_def enc_nat_def)
  from toy_sign_and_serialize [OF this, of "dec_pair dec_bytes dec_bytes"] show ?thesis
    by (auto simp: SetConsensusCommit_def toy_protobufs_def)
qed

lemma toy_commit_message:
  assumes "bid < length committee" "bid < 100" "fst (committee ! bid) = 1" "0 \<le> p" "p < 13" "bn_fits 32 h"
  shows "\<exists>src. GetConsensusCommit toy toy_protobufs src 3 7 8 [9] committee
     = Some (Some (bid, Some \<lparr>fval = p, finit = True\<rparr>, Some \<lparr>fval = h, finit = True\<rparr>))"
proof -
  let ?cp = "\<lparr>fval = p, finit = True\<rparr> :: int CommitPoint" and ?cph = "\<lparr>fval = h, finit = True\<rparr> :: CommitPointHash"
  obtain dst' where dst': "SetConsensusCommit toy toy_protobufs [1, 2, 3] (length [1, 2, 3 :: byte]) 7 8 [9] bid
      ?cp ?cph (1, 1 mod 13) [Some 12] = Some (dst', True)" "length dst' < 2 ^ 31"
    using toy_commit_serializes [of "[1, 2, 3]" bid p h] assms by auto
  have "GetConsensusCommit toy toy_protobufs dst' (length [1, 2, 3 :: byte]) 7 8 [9] committee
     = Some (Some (bid, Some ?cp, Some ?cph))"
    by (rule ConsensusCommit_written [OF toy_ok toy_points_ok toy_protobufs_ok(1) _ _ _ _ _ _ _ _ _ _ dst'])
       (use assms in \<open>simp_all add: toy_def\<close>)
  then show ?thesis by (auto simp: eval_nat_numeral)
qed

lemma toy_collectivesig_serializes:
  assumes "Signature_fits sig" "length bits < 100" "length dst < 1000"
  shows "\<exists>dst'. SetConsensusCollectiveSig toy toy_protobufs dst (length dst) 7 8 [9] 0
      sig bits (1, 1) [Some 12] = Some (dst', True) \<and> length dst' < 2 ^ 31"
proof -
  let ?f = "enc_pair enc_bytes (enc_list enc_bool)"
  let ?info = "\<lparr>consensusid = 7, blocknumber = 8, blockhash = [9], memberid = 0,
     payload = (fst (Signature_Serialize [] 0 sig), bits)\<rparr>"
  have "length (fst (Signature_Serialize [] 0 sig)) = 64"
    using Signature_roundtrip_aux(2) [OF assms(1), of 0 "[]"] by simp
  moreover have "length (concat (map enc_bool bits)) = length bits" by (induction bits) (simp_all add: enc_bool_def)
  ultimately have "length (toy_info ?f ?info) + length dst < 2 ^ 30"
    using assms(2,3) by (simp add: toy_info_def enc_pair_def enc_bytes_def enc_nat_def enc_list_def)
  from toy_sign_and_serialize [OF this, of "dec_pair dec_bytes (dec_list dec_bool)"]
  show ?thesis by (auto simp: SetConsensusCollectiveSig_def toy_protobufs_def)
qed

lemma toy_collectivesig_message:
  assumes "Signature_fits sig" "length bits < 100"
  shows "\<exists>src. \<forall>old. GetConsensusCollectiveSig toy toy_protobufs src 3 7 8 [9] 0 [] old 1
     = Some (True, bits, sig)"
proof -
  obtain dst' where dst': "SetConsensusCollectiveSig toy toy_protobufs [1, 2, 3] (length [1, 2, 3 :: byte]) 7 8 [9] 0
      sig bits (1, 1 mod 13) [Some 12] = Some (dst', True)" "length dst' < 2 ^ 31"
    using toy_collectivesig_serializes [OF assms, of "[1, 2, 3]"] by auto
  have "GetConsensusCollectiveSig toy toy_protobufs dst' (length [1, 2, 3 :: byte]) 7 8 [9] 0 [] old (1 mod 13)
     = Some (True, bits, sig)" for old
    by (rule ConsensusCollectiveSig_written [OF toy_ok toy_protobufs_ok(4) _ _ _ _ dst'])
       (use assms in \<open>simp_all add: toy_def\<close>)
  then show ?thesis by (auto simp: eval_nat_numeral)
qed

section \<open>Properties\<close>

text \<open>The leader's challenge message with one entry per subset is read back by every backup that
  knows the leader's key.\<close>

lemma ConsensusChallenge_roundtrip:
  assumes B: "openssl_ok B g" and pts: "openssl_points_ok B enc" and P: "protobuf_ok (ConsensusChallenge P)"
    and d: "0 < d" "d < ec_order B"
    and draws: "\<forall>k. Some k \<in> set draws \<longrightarrow> 0 \<le> k \<and> k < ec_order B"
    and sis: "\<forall>si \<in> set sis. finit (si_aggregatedCommit si) \<and> enc (fval (si_aggregatedCommit si))
      \<and> enc (si_aggregatedKey si) \<and> finit (si_challenge si) \<and> bn_fits 32 (fval (si_challenge si))"
    and set: "SetConsensusChallenge B P dst (length dst) cid bn bh leaderID sis (d, g d) draws
                = Some (dst', True)" "length dst' < 2 ^ 31"
  shows "GetConsensusChallenge B P dst' (length dst) cid bn bh leaderID (g d) = Some (Some sis)"
proof -
  from sign_and_serialize_opens [OF B P d draws set(1) [unfolded SetConsensusChallenge_def] set(2)]
  show ?thesis
    by (auto simp: GetConsensusChallenge_def read_challenges_written [OF pts sis])
qed

text \<open>A commit that the leader's getter accepts comes from a message of this session, addressed with
  the id of a committee member and signed under that member's key.\<close>

lemma GetConsensusCommit_authentic:
  assumes "GetConsensusCommit B P src offset cid bn bh committee = Some (Some (backupID, cp, cph))"
  shows "backupID < length committee
    \<and> (\<exists>m. authentic B (ConsensusCommit P) src offset cid bn bh (fst (committee ! backupID)) m
         \<and> u16 (memberid (consensusinfo m)) = backupID)"
  using assms by (auto elim: GetConsensusCommit_SomeE)

text \<open>A response message with a response field shorter than 32 bytes crashes the leader while it is
  parsed, whatever key signed it: the reader leaves a null pointer, reports success, and the copy
  made by \<open>emplace_back\<close> dereferences it before the signature of the message is looked at.\<close>

lemma GetConsensusResponse_short_field_crashes:
  assumes "ParseFromArray (ConsensusResponse P) (drop offset src) = Some m" "offset < length src"
    and "consensusid (consensusinfo m) = cid" "blocknumber (consensusinfo m) = bn"
    "blockhash (consensusinfo m) = bh" "u16 (memberid (consensusinfo m)) < length committee"
  shows "GetConsensusResponse B P src offset cid bn bh committee = None
     \<longleftrightarrow> (\<exists>e \<in> set (payload (consensusinfo m)). length e < 32)"
proof -
  have "open_consensus_message (ConsensusResponse P) src offset cid bn bh = Some m"
    using assms by (simp add: open_consensus_message_Some)
  then show ?thesis
    using assms(6)
    by (auto simp: GetConsensusResponse_def Let_def read_response_subsets_None [symmetric]
        split: option.splits)
qed

end
