(* ===== verification/ContractStorage.thy ===== *)
theory ContractStorage
  imports Account LevelDB Messenger "HOL-Library.AList"
begin

text \<open>
  The storage of contract code and contract states, \<open>libPersistence/ContractStorage.cpp\<close>, with the two messages
  of \<open>libMessage/Messenger.cpp\<close> it stores. A state is kept in up to three layers: the temporary maps \<open>t_\<close> of the
  epoch that is being executed, the maps \<open>m_\<close> of the states that are final but not yet on disk, and the
  databases. \<open>r_\<close> remembers what a revertible commit has overwritten and \<open>p_\<close> the temporary maps before a
  chain of contract calls. In-memory maps are association lists with distinct keys; their keys are
  hexadecimal texts. As in \<open>LevelDB\<close>, \<open>None\<close> is a call through a null database pointer; where it is also the
  value of an endless loop or of undefined behaviour the definition says so.
\<close>

section \<open>The messages\<close>

type_synonym StateEntry = "bytes \<times> bool \<times> bytes \<times> bytes"
type_synonym Index = bytes

record ProtoStateData =
  psd_version :: "nat option"
  psd_vname :: "bytes option"
  psd_ismutable :: "bool option"
  psd_type :: "bytes option"
  psd_value :: "bytes option"

record state_protobuf =
  StateIndexToArray :: "bytes list \<Rightarrow> bytes"
  StateIndexFromArray :: "bytes \<Rightarrow> bytes list"
  StateDataToArray :: "ProtoStateData \<Rightarrow> bytes"
  StateDataFromArray :: "bytes \<Rightarrow> ProtoStateData"

text \<open>What the code relies on: lists of hashes are read back; a list that is not empty has a text that is
  not empty and below 2 GB.\<close>

definition indexes_fit :: "bytes list \<Rightarrow> bool" where
  "indexes_fit xs \<longleftrightarrow> (\<forall>x\<in>set xs. length x = 32) \<and> length xs < 2 ^ 20"

definition state_protobuf_ok :: "state_protobuf \<Rightarrow> bool" where
  "state_protobuf_ok P \<longleftrightarrow>
     (\<forall>xs. indexes_fit xs \<longrightarrow> StateIndexFromArray P (StateIndexToArray P xs) = xs
        \<and> length (StateIndexToArray P xs) < 2 ^ 31 \<and> (StateIndexToArray P xs = [] \<longleftrightarrow> xs = []))"

definition Messenger_SetStateIndex :: "state_protobuf \<Rightarrow> bytes \<Rightarrow> nat \<Rightarrow> Index list \<Rightarrow> (bytes \<times> bool) option" where
  "Messenger_SetStateIndex P dst offset indexes = SerializeToArray (StateIndexToArray P indexes) dst offset"

definition h256_of_prefix :: "bytes \<Rightarrow> bytes" where
  "h256_of_prefix x = take 32 x @ replicate (32 - length x) 0"

definition Messenger_GetStateIndex :: "state_protobuf \<Rightarrow> bytes \<Rightarrow> nat \<Rightarrow> Index list option" where
  "Messenger_GetStateIndex P src offset =
     (if offset \<ge> length src then None
      else Some (map h256_of_prefix (StateIndexFromArray P (drop offset src))))"

text \<open>Quotes at both ends of a value are removed. The text must not be empty, before and after the first
  removal.\<close>

definition strip_quotes :: "bytes \<Rightarrow> bytes option" where
  "strip_quotes v = do {
     v1 \<leftarrow> (if v = [] then None else Some (if hd v = 34 then tl v else v));
     (if v1 = [] then None else Some (if last v1 = 34 then butlast v1 else v1)) }"

definition StateDataToProtobuf :: "nat \<Rightarrow> StateEntry \<Rightarrow> ProtoStateData option" where
  "StateDataToProtobuf CONTRACT_STATE_VERSION entry =
     (case entry of (vname, ismutable, ty, v) \<Rightarrow>
        map_option (\<lambda>v'. \<lparr>psd_version = Some CONTRACT_STATE_VERSION, psd_vname = Some vname,
                          psd_ismutable = Some ismutable, psd_type = Some ty, psd_value = Some v'\<rparr>)
          (strip_quotes v))"

definition Messenger_SetStateData ::
    "state_protobuf \<Rightarrow> nat \<Rightarrow> bytes \<Rightarrow> nat \<Rightarrow> StateEntry \<Rightarrow> (bytes \<times> bool) option" where
  "Messenger_SetStateData P ver dst offset entry = do {
     m \<leftarrow> StateDataToProtobuf ver entry;
     SerializeToArray (StateDataToArray P m) dst offset }"

definition CheckRequiredFieldsProtoStateData :: "ProtoStateData \<Rightarrow> bool" where
  "CheckRequiredFieldsProtoStateData m \<longleftrightarrow>
     psd_version m \<noteq> None \<and> psd_vname m \<noteq> None \<and> psd_ismutable m \<noteq> None \<and> psd_type m \<noteq> None \<and> psd_value m \<noteq> None"

definition Messenger_GetStateData :: "state_protobuf \<Rightarrow> bytes \<Rightarrow> nat \<Rightarrow> (StateEntry \<times> nat) option" where
  "Messenger_GetStateData P src offset =
     (if offset \<ge> length src then None
      else let m = StateDataFromArray P (drop offset src)
           in if \<not> CheckRequiredFieldsProtoStateData m then None
              else Some ((the (psd_vname m), the (psd_ismutable m), the (psd_type m), the (psd_value m)), the (psd_version m)))"

section \<open>State\<close>

type_synonym smap = "(bytes \<times> bytes) list"

record 'd ContractStorage =
  m_codeDB :: "'d LevelDB"
  m_stateIndexDB :: "'d LevelDB"
  m_stateDataDB :: "'d LevelDB"
  m_stateIndexMap :: smap
  m_stateDataMap :: smap
  t_stateIndexMap :: smap
  t_stateDataMap :: smap
  r_stateIndexMap :: smap
  r_stateDataMap :: smap
  p_stateIndexMap :: smap
  p_stateDataMap :: smap

text \<open>\<open>operator[]\<close> of a map: the default value when the key is missing.\<close>

definition smap_default :: "smap \<Rightarrow> bytes \<Rightarrow> bytes" where
  "smap_default m k = (case map_of m k of None \<Rightarrow> [] | Some v \<Rightarrow> v)"

section \<open>Code\<close>

definition addr_hex :: "Address \<Rightarrow> bytes" where
  "addr_hex a = toHex (addr_bytes a)"

definition PutContractCode ::
    "'d leveldb \<Rightarrow> Address \<Rightarrow> bytes \<Rightarrow> 'd ContractStorage \<Rightarrow> (bool \<times> 'd ContractStorage) option" where
  "PutContractCode D a code C = do {
     (db, rc) \<leftarrow> LevelDB_Insert D (m_codeDB C) (addr_hex a) code;
     Some (rc = 0, C\<lparr>m_codeDB := db\<rparr>) }"

definition PutContractCodeBatch ::
    "'d leveldb \<Rightarrow> smap \<Rightarrow> 'd ContractStorage \<Rightarrow> (bool \<times> 'd ContractStorage) option" where
  "PutContractCodeBatch D batch C = do {
     (db, ok) \<leftarrow> LevelDB_BatchInsert D (m_codeDB C) batch;
     Some (ok, C\<lparr>m_codeDB := db\<rparr>) }"

definition GetContractCode :: "'d leveldb \<Rightarrow> Address \<Rightarrow> 'd ContractStorage \<Rightarrow> bytes option" where
  "GetContractCode D a C = LevelDB_Lookup D (m_codeDB C) (addr_hex a)"

definition DeleteContractCode ::
    "'d leveldb \<Rightarrow> Address \<Rightarrow> 'd ContractStorage \<Rightarrow> (bool \<times> 'd ContractStorage) option" where
  "DeleteContractCode D a C = do {
     (db, rc) \<leftarrow> LevelDB_DeleteKey D (m_codeDB C) (addr_hex a);
     Some (rc = 0, C\<lparr>m_codeDB := db\<rparr>) }"

section \<open>Indexes\<close>

definition GetIndex :: "'pt openssl \<Rightarrow> Address \<Rightarrow> bytes \<Rightarrow> nat \<Rightarrow> Index" where
  "GetIndex B a key counter =
     (let c = SHA2_Update (SHA2_Update SHA2_Reset (addr_bytes a)) key
      in SHA2_Finalize B (if counter \<noteq> 0 then SHA2_Update c (to_decimal counter) else c))"

definition CheckIndexExists :: "'d leveldb \<Rightarrow> 'd ContractStorage \<Rightarrow> Index \<Rightarrow> bool option" where
  "CheckIndexExists D C index =
     (if map_of (t_stateDataMap C) (toHex index) \<noteq> None \<or> map_of (m_stateDataMap C) (toHex index) \<noteq> None
      then Some True
      else LevelDB_Exists D (m_stateDataDB C) (toHex index))"

text \<open>The search for a free index ends at the first counter whose index belongs to the contract already
  or is not in use; a search that never ends is \<open>None\<close>.\<close>

partial_function (option) GetNewIndex_loop ::
    "'d leveldb \<Rightarrow> 'pt openssl \<Rightarrow> 'd ContractStorage \<Rightarrow> Address \<Rightarrow> bytes \<Rightarrow> Index list \<Rightarrow> nat \<Rightarrow> Index option" where
  "GetNewIndex_loop D B C a key existing counter =
     (let index = GetIndex B a key counter
      in if index \<in> set existing then Some index
         else case CheckIndexExists D C index of
                None \<Rightarrow> None
              | Some used \<Rightarrow> if used then GetNewIndex_loop D B C a key existing (u32 (counter + 1)) else Some index)"

definition GetNewIndex ::
    "'d leveldb \<Rightarrow> 'pt openssl \<Rightarrow> 'd ContractStorage \<Rightarrow> Address \<Rightarrow> bytes \<Rightarrow> Index list \<Rightarrow> Index option" where
  "GetNewIndex D B C a key existing = GetNewIndex_loop D B C a key existing 0"

definition GetContractStateIndexes ::
    "'d leveldb \<Rightarrow> state_protobuf \<Rightarrow> Address \<Rightarrow> bool \<Rightarrow> 'd ContractStorage \<Rightarrow> Index list option" where
  "GetContractStateIndexes D P a temp C =
     (let k = addr_hex a;
          decode = (\<lambda>raw. case Messenger_GetStateIndex P raw 0 of None \<Rightarrow> [] | Some xs \<Rightarrow> xs)
      in if temp \<and> map_of (t_stateIndexMap C) k \<noteq> None then Some (decode (smap_default (t_stateIndexMap C) k))
         else if map_of (m_stateIndexMap C) k \<noteq> None then Some (decode (smap_default (m_stateIndexMap C) k))
         else do {
           found \<leftarrow> LevelDB_Exists D (m_stateIndexDB C) k;
           (if found then map_option decode (LevelDB_Lookup D (m_stateIndexDB C) k) else Some []) })"

definition SetContractStateIndexes ::
    "state_protobuf \<Rightarrow> Address \<Rightarrow> Index list \<Rightarrow> bool \<Rightarrow> bool \<Rightarrow> 'd ContractStorage
     \<Rightarrow> (bool \<times> 'd ContractStorage) option" where
  "SetContractStateIndexes P a indexes temp revertible C = do {
     (raw, ok) \<leftarrow> Messenger_SetStateIndex P [] 0 indexes;
     (let k = addr_hex a
      in if \<not> ok then Some (False, C)
         else if temp then Some (True, C\<lparr>t_stateIndexMap := AList.update k raw (t_stateIndexMap C)\<rparr>)
         else let C1 = (if revertible
                        then C\<lparr>r_stateIndexMap := AList.update k (smap_default (m_stateIndexMap C) k) (r_stateIndexMap C)\<rparr>
                        else C)
              in Some (True, C1\<lparr>m_stateIndexMap := AList.update k raw (m_stateIndexMap C1)\<rparr>)) }"

section \<open>Reading states\<close>

definition read_raw_state :: "'d leveldb \<Rightarrow> bool \<Rightarrow> 'd ContractStorage \<Rightarrow> Index \<Rightarrow> bytes option" where
  "read_raw_state D temp C index =
     (let k = toHex index
      in if temp \<and> map_of (t_stateDataMap C) k \<noteq> None then Some (smap_default (t_stateDataMap C) k)
         else if map_of (m_stateDataMap C) k \<noteq> None then Some (smap_default (m_stateDataMap C) k)
         else do {
           found \<leftarrow> LevelDB_Exists D (m_stateDataDB C) k;
           (if found then LevelDB_Lookup D (m_stateDataDB C) k else Some []) })"

fun read_raw_states :: "'d leveldb \<Rightarrow> bool \<Rightarrow> 'd ContractStorage \<Rightarrow> Index list \<Rightarrow> bytes list option" where
  "read_raw_states D temp C [] = Some []"
| "read_raw_states D temp C (i # is) = do {
     x \<leftarrow> read_raw_state D temp C i;
     xs \<leftarrow> read_raw_states D temp C is;
     Some (x # xs) }"

definition GetContractStatesData ::
    "'d leveldb \<Rightarrow> state_protobuf \<Rightarrow> Address \<Rightarrow> bool \<Rightarrow> 'd ContractStorage \<Rightarrow> bytes list option" where
  "GetContractStatesData D P a temp C =
     (if a = 0 then Some []
      else do {
        indexes \<leftarrow> GetContractStateIndexes D P a temp C;
        read_raw_states D temp C indexes })"

definition GetContractStateData :: "'d leveldb \<Rightarrow> Index \<Rightarrow> bool \<Rightarrow> 'd ContractStorage \<Rightarrow> bytes option" where
  "GetContractStateData D index temp C =
     (let k = toHex index
      in if temp \<and> map_of (t_stateDataMap C) k \<noteq> None then Some (smap_default (t_stateDataMap C) k)
         else if map_of (m_stateDataMap C) k \<noteq> None then Some (smap_default (m_stateDataMap C) k)
         else LevelDB_Lookup D (m_stateDataDB C) k)"

definition GetContractStateHash ::
    "'d leveldb \<Rightarrow> state_protobuf \<Rightarrow> 'pt openssl \<Rightarrow> Address \<Rightarrow> bool \<Rightarrow> 'd ContractStorage \<Rightarrow> bytes option" where
  "GetContractStateHash D P B a temp C =
     (if a = 0 then Some h256_zero
      else map_option (\<lambda>raws. SHA2_Finalize B (foldl SHA2_Update SHA2_Reset raws))
             (GetContractStatesData D P a temp C))"

section \<open>Writing states\<close>

text \<open>One entry: the index is appended to the indexes of the contract unless it is there, and the value
  goes to the temporary or to the final map. A revertible write saves the value it replaces.\<close>

definition put_entry ::
    "bool \<Rightarrow> bool \<Rightarrow> Index \<times> bytes \<Rightarrow> Index list \<times> 'd ContractStorage \<Rightarrow> Index list \<times> 'd ContractStorage" where
  "put_entry temp revertible entry st =
     (case (entry, st) of
        ((index, v), (indexes, C)) \<Rightarrow>
          let k = toHex index;
              indexes' = (if index \<in> set indexes then indexes else indexes @ [index])
          in if temp then (indexes', C\<lparr>t_stateDataMap := AList.update k v (t_stateDataMap C)\<rparr>)
             else let C1 = (if revertible
                            then C\<lparr>r_stateDataMap := AList.update k (smap_default (m_stateDataMap C) k) (r_stateDataMap C)\<rparr>
                            else C)
                  in (indexes', C1\<lparr>m_stateDataMap := AList.update k v (m_stateDataMap C1)\<rparr>))"

definition PutContractState_entries ::
    "'d leveldb \<Rightarrow> state_protobuf \<Rightarrow> 'pt openssl \<Rightarrow> Address \<Rightarrow> (Index \<times> bytes) list \<Rightarrow> bytes \<Rightarrow> bool \<Rightarrow> bool
     \<Rightarrow> Index list option \<Rightarrow> 'd ContractStorage \<Rightarrow> (bool \<times> bytes \<times> 'd ContractStorage) option" where
  "PutContractState_entries D P B a entries stateHash temp revertible existing C =
     (if a = 0 then Some (False, stateHash, C)
      else do {
        indexes \<leftarrow> (case existing of Some xs \<Rightarrow> Some xs | None \<Rightarrow> GetContractStateIndexes D P a temp C);
        let (indexes', C1) = fold (put_entry temp revertible) entries (indexes, C);
        (ok, C2) \<leftarrow> SetContractStateIndexes P a indexes' temp revertible C1;
        (if \<not> ok then Some (False, stateHash, C2)
         else map_option (\<lambda>h. (True, h, C2)) (GetContractStateHash D P B a temp C2)) })"

text \<open>Named states: each gets an index; a failing serialisation writes nothing.\<close>

fun index_entries ::
    "'d leveldb \<Rightarrow> state_protobuf \<Rightarrow> 'pt openssl \<Rightarrow> nat \<Rightarrow> Address \<Rightarrow> Index list \<Rightarrow> 'd ContractStorage
     \<Rightarrow> StateEntry list \<Rightarrow> (Index \<times> bytes) list option option" where
  "index_entries D P B ver a existing C [] = Some (Some [])"
| "index_entries D P B ver a existing C (st # sts) = do {
     index \<leftarrow> GetNewIndex D B C a (fst st) existing;
     (raw, ok) \<leftarrow> Messenger_SetStateData P ver [] 0 st;
     (if \<not> ok then Some None
      else map_option (map_option ((#) (index, raw))) (index_entries D P B ver a existing C sts)) }"

definition PutContractState ::
    "'d leveldb \<Rightarrow> state_protobuf \<Rightarrow> 'pt openssl \<Rightarrow> nat \<Rightarrow> Address \<Rightarrow> StateEntry list \<Rightarrow> bytes \<Rightarrow> bool
     \<Rightarrow> 'd ContractStorage \<Rightarrow> (bool \<times> bytes \<times> 'd ContractStorage) option" where
  "PutContractState D P B ver a states stateHash temp C = do {
     existing \<leftarrow> GetContractStateIndexes D P a True C;
     entries \<leftarrow> index_entries D P B ver a existing C states;
     (case entries of
        None \<Rightarrow> Some (False, stateHash, C)
      | Some es \<Rightarrow> PutContractState_entries D P B a es stateHash temp False (Some existing) C) }"

section \<open>Buffering, reverting and committing\<close>

definition BufferCurrentState :: "'d ContractStorage \<Rightarrow> 'd ContractStorage" where
  "BufferCurrentState C = C\<lparr>p_stateIndexMap := t_stateIndexMap C, p_stateDataMap := t_stateDataMap C\<rparr>"

text \<open>The buffered maps are moved from, which leaves them empty.\<close>

definition RevertPrevState :: "'d ContractStorage \<Rightarrow> 'd ContractStorage" where
  "RevertPrevState C =
     C\<lparr>t_stateIndexMap := p_stateIndexMap C, t_stateDataMap := p_stateDataMap C,
       p_stateIndexMap := [], p_stateDataMap := []\<rparr>"

definition revert_map :: "smap \<Rightarrow> smap \<Rightarrow> smap" where
  "revert_map r m = fold (\<lambda>(k, v) m. if v = [] then AList.delete k m else AList.update k v m) r m"

definition RevertContractStates :: "'d ContractStorage \<Rightarrow> 'd ContractStorage" where
  "RevertContractStates C =
     C\<lparr>m_stateIndexMap := revert_map (r_stateIndexMap C) (m_stateIndexMap C),
       m_stateDataMap := revert_map (r_stateDataMap C) (m_stateDataMap C)\<rparr>"

definition ContractStorage_InitRevertibles :: "'d ContractStorage \<Rightarrow> 'd ContractStorage" where
  "ContractStorage_InitRevertibles C = C\<lparr>r_stateIndexMap := [], r_stateDataMap := []\<rparr>"

definition InitTempState :: "'d ContractStorage \<Rightarrow> 'd ContractStorage" where
  "InitTempState C = C\<lparr>t_stateIndexMap := [], t_stateDataMap := []\<rparr>"

text \<open>Committing writes the index map and the data map to their databases; when the second batch fails,
  the first database is reset key by key.\<close>

fun lookup_all :: "'d leveldb \<Rightarrow> 'd LevelDB \<Rightarrow> smap \<Rightarrow> smap option" where
  "lookup_all D L [] = Some []"
| "lookup_all D L ((k, v) # m) = do {
     old \<leftarrow> LevelDB_Lookup D L k;
     rest \<leftarrow> lookup_all D L m;
     Some ((k, old) # rest) }"

fun reset_keys :: "'d leveldb \<Rightarrow> smap \<Rightarrow> 'd LevelDB \<Rightarrow> 'd LevelDB option" where
  "reset_keys D [] L = Some L"
| "reset_keys D ((k, old) # buf) L = do {
     (L1, rc) \<leftarrow> (if old = [] then LevelDB_DeleteKey D L k else LevelDB_Insert D L k old);
     reset_keys D buf L1 }"

definition CommitStateDB :: "'d leveldb \<Rightarrow> 'd ContractStorage \<Rightarrow> (bool \<times> 'd ContractStorage) option" where
  "CommitStateDB D C = do {
     reset_buffer \<leftarrow> lookup_all D (m_stateIndexDB C) (m_stateIndexMap C);
     (idb, ok) \<leftarrow> LevelDB_BatchInsert D (m_stateIndexDB C) (m_stateIndexMap C);
     (if \<not> ok then Some (False, C\<lparr>m_stateIndexDB := idb\<rparr>)
      else do {
        (ddb, ok2) \<leftarrow> LevelDB_BatchInsert D (m_stateDataDB C) (m_stateDataMap C);
        (if \<not> ok2
         then map_option (\<lambda>idb'. (False, C\<lparr>m_stateIndexDB := idb', m_stateDataDB := ddb\<rparr>)) (reset_keys D reset_buffer idb)
         else Some (True, InitTempState (C\<lparr>m_stateIndexDB := idb, m_stateDataDB := ddb,
                                            m_stateIndexMap := [], m_stateDataMap := []\<rparr>))) }) }"

definition ContractStorage_Reset :: "bool \<Rightarrow> 'd leveldb \<Rightarrow> 'd ContractStorage \<Rightarrow> 'd ContractStorage" where
  "ContractStorage_Reset mode D C =
     C\<lparr>m_codeDB := fst (LevelDB_ResetDB mode D (m_codeDB C)),
       m_stateIndexDB := fst (LevelDB_ResetDB mode D (m_stateIndexDB C)),
       m_stateDataDB := fst (LevelDB_ResetDB mode D (m_stateDataDB C))\<rparr>"

definition ContractStorage_RefreshAll :: "'d leveldb \<Rightarrow> 'd ContractStorage \<Rightarrow> bool \<times> 'd ContractStorage" where
  "ContractStorage_RefreshAll D C =
     (case LevelDB_RefreshDB D (m_codeDB C) of
        (cdb, ok) \<Rightarrow>
          let C1 = C\<lparr>m_codeDB := cdb\<rparr>
          in if \<not> ok then (False, C1)
             else case LevelDB_RefreshDB D (m_stateIndexDB C1) of
               (idb, ok2) \<Rightarrow>
                 let C2 = C1\<lparr>m_stateIndexDB := idb\<rparr>
                 in if \<not> ok2 then (False, C2)
                    else case LevelDB_RefreshDB D (m_stateDataDB C2) of
                      (ddb, ok3) \<Rightarrow> (ok3, C2\<lparr>m_stateDataDB := ddb\<rparr>))"

section \<open>What a reader sees\<close>

text \<open>The value of a key through the layers, the empty text when no layer has it.\<close>

definition layered :: "smap \<Rightarrow> (bytes \<rightharpoonup> bytes) \<Rightarrow> bytes \<Rightarrow> bytes" where
  "layered m db k = (case map_of m k of Some v \<Rightarrow> v | None \<Rightarrow> (case db k of None \<Rightarrow> [] | Some v \<Rightarrow> v))"

definition final_view :: "'d leveldb \<Rightarrow> 'd ContractStorage \<Rightarrow> bytes \<Rightarrow> bytes" where
  "final_view D C k = layered (m_stateDataMap C) (contents D (m_stateDataDB C)) k"

definition temp_view :: "'d leveldb \<Rightarrow> 'd ContractStorage \<Rightarrow> bytes \<Rightarrow> bytes" where
  "temp_view D C k = (case map_of (t_stateDataMap C) k of Some v \<Rightarrow> v | None \<Rightarrow> final_view D C k)"

definition index_view :: "'d leveldb \<Rightarrow> 'd ContractStorage \<Rightarrow> bytes \<Rightarrow> bytes" where
  "index_view D C k = layered (m_stateIndexMap C) (contents D (m_stateIndexDB C)) k"

definition cs_open :: "'d ContractStorage \<Rightarrow> bool" where
  "cs_open C \<longleftrightarrow> is_open (m_codeDB C) \<and> is_open (m_stateIndexDB C) \<and> is_open (m_stateDataDB C)"

lemmas view_defs = temp_view_def final_view_def index_view_def layered_def smap_default_def

lemma GetContractStateData_view:
  assumes "cs_open C"
  shows "GetContractStateData D i temp C = Some ((if temp then temp_view D C else final_view D C) (toHex i))"
  using assms by (auto simp: GetContractStateData_def view_defs cs_open_def LevelDB_Lookup_contents Let_def
      split: option.splits)

lemma read_raw_state_view:
  assumes "cs_open C"
  shows "read_raw_state D temp C i = Some ((if temp then temp_view D C else final_view D C) (toHex i))"
  using assms by (auto simp: read_raw_state_def view_defs cs_open_def LevelDB_Lookup_contents LevelDB_Exists_def
      Let_def split: option.splits)

lemma read_raw_states_total: "cs_open C \<Longrightarrow> \<exists>xs. read_raw_states D temp C is = Some xs"
  by (induction "is") (auto simp: read_raw_state_view)

lemma GetContractStateIndexes_total: "cs_open C \<Longrightarrow> \<exists>xs. GetContractStateIndexes D P a temp C = Some xs"
  by (auto simp: GetContractStateIndexes_def Let_def cs_open_def LevelDB_Exists_def LevelDB_Lookup_contents)

lemma GetContractStateHash_total: "cs_open C \<Longrightarrow> \<exists>h. GetContractStateHash D P B a temp C = Some h"
  using GetContractStateIndexes_total [of C D P a temp] read_raw_states_total [of C D temp]
  by (auto simp: GetContractStateHash_def GetContractStatesData_def)

section \<open>Effects of a write\<close>

text \<open>A write touches the map of its layer, the undo map and nothing else.\<close>

lemma put_entry_frame:
  assumes "put_entry temp rv e (ix, C) = (ix', C')"
  shows "m_codeDB C' = m_codeDB C" "m_stateIndexDB C' = m_stateIndexDB C" "m_stateDataDB C' = m_stateDataDB C"
    and "m_stateIndexMap C' = m_stateIndexMap C" "t_stateIndexMap C' = t_stateIndexMap C"
    and "r_stateIndexMap C' = r_stateIndexMap C"
    and "map_of (t_stateDataMap C') = (if temp then (map_of (t_stateDataMap C))(toHex (fst e) \<mapsto> snd e) else map_of (t_stateDataMap C))"
    and "map_of (m_stateDataMap C') = (if temp then map_of (m_stateDataMap C) else (map_of (m_stateDataMap C))(toHex (fst e) \<mapsto> snd e))"
  using assms by (cases e; auto simp: put_entry_def Let_def update_conv' split: if_splits)+

lemma put_entries_frame:
  assumes "fold (put_entry temp rv) es (ix, C) = (ix', C')"
  shows "m_codeDB C' = m_codeDB C \<and> m_stateIndexDB C' = m_stateIndexDB C \<and> m_stateDataDB C' = m_stateDataDB C
    \<and> m_stateIndexMap C' = m_stateIndexMap C \<and> t_stateIndexMap C' = t_stateIndexMap C \<and> r_stateIndexMap C' = r_stateIndexMap C"
  using assms
proof (induction es arbitrary: ix C)
  case (Cons e es)
  obtain ix1 C1 where e: "put_entry temp rv e (ix, C) = (ix1, C1)" by fastforce
  show ?case using Cons.IH [of ix1 C1] Cons.prems e put_entry_frame [OF e] by simp
qed simp

lemma put_entries_maps:
  assumes "fold (put_entry temp rv) es (ix, C) = (ix', C')"
  shows "map_of (t_stateDataMap C') = (if temp then map_of (t_stateDataMap C) ++ map_of (rev (map (apfst toHex) es)) else map_of (t_stateDataMap C))"
    and "map_of (m_stateDataMap C') = (if temp then map_of (m_stateDataMap C) else map_of (m_stateDataMap C) ++ map_of (rev (map (apfst toHex) es)))"
proof -
  have "map_of (t_stateDataMap C') = (if temp then map_of (t_stateDataMap C) ++ map_of (rev (map (apfst toHex) es)) else map_of (t_stateDataMap C))
    \<and> map_of (m_stateDataMap C') = (if temp then map_of (m_stateDataMap C) else map_of (m_stateDataMap C) ++ map_of (rev (map (apfst toHex) es)))"
    using assms
  proof (induction es arbitrary: ix C)
    case (Cons e es)
    obtain ix1 C1 where e: "put_entry temp rv e (ix, C) = (ix1, C1)" by fastforce
    have "map_of (rev (map (apfst toHex) (e # es))) = [toHex (fst e) \<mapsto> snd e] ++ map_of (rev (map (apfst toHex) es))"
      by (cases e) (simp add: map_of_append)
    then show ?case using Cons.IH [of ix1 C1] Cons.prems e put_entry_frame(7,8) [OF e] by simp
  qed simp
  then show "map_of (t_stateDataMap C') = (if temp then map_of (t_stateDataMap C) ++ map_of (rev (map (apfst toHex) es)) else map_of (t_stateDataMap C))"
    and "map_of (m_stateDataMap C') = (if temp then map_of (m_stateDataMap C) else map_of (m_stateDataMap C) ++ map_of (rev (map (apfst toHex) es)))"
    by blast+
qed

lemma SetContractStateIndexes_frame:
  assumes "SetContractStateIndexes P a ixs temp rv C = Some (ok, C')"
  shows "m_codeDB C' = m_codeDB C" "m_stateIndexDB C' = m_stateIndexDB C" "m_stateDataDB C' = m_stateDataDB C"
    and "m_stateDataMap C' = m_stateDataMap C" "t_stateDataMap C' = t_stateDataMap C" "r_stateDataMap C' = r_stateDataMap C"
  using assms by (auto simp: SetContractStateIndexes_def Let_def split: bind_splits if_splits)

text \<open>The stages of a write of raw entries.\<close>

lemma PutContractState_entries_cases:
  assumes "PutContractState_entries D P B a es h temp rv existing C = Some (True, h', C')"
  obtains ix ix' C1 where "fold (put_entry temp rv) es (ix, C) = (ix', C1)"
    "SetContractStateIndexes P a ix' temp rv C1 = Some (True, C')"
    "GetContractStateHash D P B a temp C' = Some h'" "a \<noteq> 0"
  using assms by (fastforce simp: PutContractState_entries_def split: bind_splits if_splits prod.splits)

lemma layered_override:
  "layered m db k = (case map_of m k of Some v \<Rightarrow> v | None \<Rightarrow> layered [] db k)"
  by (simp add: layered_def split: option.splits)

lemma map_of_rev_distinct:
  assumes "distinct (map fst es)" "(i, v) \<in> set es"
  shows "map_of (rev (map (apfst toHex) es)) (toHex i) = Some v"
proof (rule map_of_is_SomeI)
  have "distinct (map (toHex \<circ> fst) es)"
    using assms(1) unfolding map_map [symmetric] by (simp add: distinct_map inj_on_def)
  moreover have "map fst (rev (map (apfst toHex) es)) = rev (map (toHex \<circ> fst) es)"
    by (simp add: rev_map comp_def)
  ultimately show "distinct (map fst (rev (map (apfst toHex) es)))" by simp
  show "(toHex i, v) \<in> set (rev (map (apfst toHex) es))" using assms(2) by force
qed

lemma map_of_rev_other:
  assumes "i \<notin> fst ` set es"
  shows "map_of (rev (map (apfst toHex) es)) (toHex i) = None"
proof -
  have "toHex i \<notin> fst ` set (rev (map (apfst toHex) es))" using assms by force
  then show ?thesis by (simp add: map_of_eq_None_iff)
qed

text \<open>An encoding of index lists that satisfies \<open>state_protobuf_ok\<close>, and an empty storage.\<close>

definition toy_state_protobuf :: state_protobuf where
  "toy_state_protobuf = \<lparr>
     StateIndexToArray = (\<lambda>xs. if xs = [] then [] else enc_list enc_bytes xs),
     StateIndexFromArray = (\<lambda>bs. if bs = [] then [] else fst (dec_list dec_bytes bs)),
     StateDataToArray = (\<lambda>p. enc_bytes (case psd_value p of None \<Rightarrow> [] | Some v \<Rightarrow> v)),
     StateDataFromArray = (\<lambda>bs. \<lparr>psd_version = Some 0, psd_vname = Some [], psd_ismutable = Some True, psd_type = Some [],
                                  psd_value = Some (fst (dec_bytes bs))\<rparr>)\<rparr>"

definition fresh_contracts :: "(db_path \<Rightarrow> (bytes \<times> bytes) list) ContractStorage" where
  "fresh_contracts = \<lparr>m_codeDB = fresh_db, m_stateIndexDB = fresh_db, m_stateDataDB = fresh_db, m_stateIndexMap = [], m_stateDataMap = [],
     t_stateIndexMap = [], t_stateDataMap = [], r_stateIndexMap = [], r_stateDataMap = [], p_stateIndexMap = [], p_stateDataMap = []\<rparr>"

text \<open>C22: Contract states that have been written are read back. After a successful write of raw entries
  with distinct indexes, reading the index of an entry in the layer written gives its value and
  every other index the value it had; a write to the temporary layer changes no read of the final
  states.
\<close>

theorem contract_states_read_back:
  assumes "cs_open C" "distinct (map fst es)"
    and "PutContractState_entries D P B a es h temp rv existing C = Some (True, h', C')"
  shows "GetContractStateData D i temp C'
      = (case map_of es i of Some v \<Rightarrow> Some v | None \<Rightarrow> GetContractStateData D i temp C)
    \<and> (temp \<longrightarrow> GetContractStateData D i False C' = GetContractStateData D i False C)"
proof -
  obtain ix ix' C1 where f: "fold (put_entry temp rv) es (ix, C) = (ix', C1)"
    and s: "SetContractStateIndexes P a ix' temp rv C1 = Some (True, C')"
    using assms(3) by (rule PutContractState_entries_cases)
  note fr = put_entries_frame [OF f] SetContractStateIndexes_frame [OF s] put_entries_maps [OF f]
  have op: "cs_open C'" using assms(1) fr by (simp add: cs_open_def)
  have "temp \<longrightarrow> GetContractStateData D i False C' = GetContractStateData D i False C"
    using op assms(1) fr by (simp add: GetContractStateData_view final_view_def layered_def)
  moreover have "GetContractStateData D i temp C'
      = (case map_of es i of Some v \<Rightarrow> Some v | None \<Rightarrow> GetContractStateData D i temp C)"
  proof (cases "map_of es i")
    case None
    then have "map_of (rev (map (apfst toHex) es)) (toHex i) = None"
      by (intro map_of_rev_other) (simp add: map_of_eq_None_iff)
    then show ?thesis using None op assms(1) fr
      by (simp add: GetContractStateData_view view_defs map_add_def split: option.splits)
  next
    case (Some v)
    then have "map_of (rev (map (apfst toHex) es)) (toHex i) = Some v"
      by (intro map_of_rev_distinct assms(2) map_of_SomeD)
    then show ?thesis using Some op assms(1) fr
      by (simp add: GetContractStateData_view view_defs map_add_def split: option.splits)
  qed
  ultimately show ?thesis by blast
qed

theorem contract_states_read_back_witness:
  "\<exists>h C'. PutContractState_entries map_db toy_state_protobuf toy 5 [(replicate 32 1, [7, 8])] h256_zero True False (Some []) fresh_contracts
      = Some (True, h, C')
    \<and> GetContractStateData map_db (replicate 32 1) True C' = Some [7, 8] \<and> GetContractStateData map_db (replicate 32 1) False C' = Some []"
proof -
  let ?es = "[(replicate 32 1, [7, 8])] :: (Index \<times> bytes) list"
  have op: "cs_open fresh_contracts" by (simp add: cs_open_def is_open_def fresh_contracts_def fresh_db_def)
  let ?i = "replicate 32 1 :: Index"
  let ?C1 = "fresh_contracts\<lparr>t_stateDataMap := [(toHex ?i, [7, 8])]\<rparr>"
  let ?raw = "enc_list enc_bytes [?i]"
  have short: "length ?raw < 2 ^ 31" by (simp add: enc_list_def enc_bytes_def enc_nat_def)
  have ser: "Messenger_SetStateIndex toy_state_protobuf [] 0 [?i] = Some (?raw, True)"
    using SerializeToArray_succeeds [of "[]" ?raw] short by (simp add: Messenger_SetStateIndex_def toy_state_protobuf_def)
  let ?C2 = "?C1\<lparr>t_stateIndexMap := [(addr_hex 5, ?raw)]\<rparr>"
  have "cs_open ?C2" using op by (simp add: cs_open_def)
  then obtain h where h: "GetContractStateHash map_db toy_state_protobuf toy 5 True ?C2 = Some h" using GetContractStateHash_total by blast
  have run: "PutContractState_entries map_db toy_state_protobuf toy 5 ?es h256_zero True False (Some []) fresh_contracts = Some (True, h, ?C2)"
    using ser h by (simp add: PutContractState_entries_def put_entry_def SetContractStateIndexes_def fresh_contracts_def)
  have "GetContractStateData map_db ?i False fresh_contracts = Some []"
    by (simp add: GetContractStateData_def fresh_contracts_def LevelDB_Lookup_def fresh_db_def map_db_def)
  then show ?thesis using contract_states_read_back [OF op _ run, of "replicate 32 1"] run by simp
qed

section \<open>Undoing a revertible write\<close>

text \<open>The undo map remembers the original value of every key that has changed since it was cleared; the
  empty text stands for a key that was missing.\<close>

definition undo_ok :: "smap \<Rightarrow> smap \<Rightarrow> smap \<Rightarrow> bool" where
  "undo_ok m0 r m \<longleftrightarrow> distinct (map fst r)
     \<and> (\<forall>k. map_of r k = None \<longrightarrow> map_of m k = map_of m0 k)
     \<and> (\<forall>k v. map_of r k = Some v \<longrightarrow> v = smap_default m0 k)"

definition no_empty :: "smap \<Rightarrow> bool" where
  "no_empty m \<longleftrightarrow> (\<forall>k. map_of m k \<noteq> Some [])"

lemma undo_start: "undo_ok m [] m"
  by (simp add: undo_ok_def)

lemma undo_step:
  assumes "undo_ok m0 r m" "map_of r k = None"
  shows "undo_ok m0 (AList.update k (smap_default m k) r) (AList.update k v m)"
proof -
  have "smap_default m k = smap_default m0 k" using assms by (simp add: undo_ok_def smap_default_def)
  then show ?thesis using assms by (simp add: undo_ok_def update_conv' distinct_update)
qed

lemma revert_map_lookup:
  assumes "distinct (map fst r)"
  shows "map_of (revert_map r m) k
    = (case map_of r k of Some v \<Rightarrow> (if v = [] then None else Some v) | None \<Rightarrow> map_of m k)"
  using assms
proof (induction r arbitrary: m)
  case (Cons e r)
  obtain k' v' where e: "e = (k', v')" by fastforce
  have "map_of r k' = None" using Cons.prems e by (simp add: map_of_eq_None_iff)
  then show ?case using Cons.IH Cons.prems e
    by (auto simp: revert_map_def update_conv' delete_conv' split: option.splits)
qed (simp add: revert_map_def)

lemma undo_revert:
  assumes "undo_ok m0 r m" "no_empty m0"
  shows "map_of (revert_map r m) = map_of m0"
proof
  fix k
  have d: "distinct (map fst r)" using assms(1) by (simp add: undo_ok_def)
  show "map_of (revert_map r m) k = map_of m0 k"
  proof (cases "map_of r k")
    case None
    then show ?thesis using assms(1) revert_map_lookup [OF d, of m k] by (simp add: undo_ok_def)
  next
    case (Some v)
    then have "v = smap_default m0 k" using assms(1) unfolding undo_ok_def by blast
    then show ?thesis using assms(2) revert_map_lookup [OF d, of m k] Some
      by (cases "map_of m0 k") (simp_all add: smap_default_def no_empty_def, metis)
  qed
qed

text \<open>The storage can be undone to \<open>C0\<close>.\<close>

definition undoes :: "'d ContractStorage \<Rightarrow> 'd ContractStorage \<Rightarrow> bool" where
  "undoes C0 C \<longleftrightarrow>
     undo_ok (m_stateIndexMap C0) (r_stateIndexMap C) (m_stateIndexMap C)
     \<and> undo_ok (m_stateDataMap C0) (r_stateDataMap C) (m_stateDataMap C)
     \<and> m_codeDB C = m_codeDB C0 \<and> m_stateIndexDB C = m_stateIndexDB C0 \<and> m_stateDataDB C = m_stateDataDB C0"

lemma undoes_start: "undoes C (ContractStorage_InitRevertibles C)"
  by (simp add: undoes_def ContractStorage_InitRevertibles_def undo_start)

lemma undoes_RevertContractStates:
  assumes "undoes C0 C" "no_empty (m_stateIndexMap C0)" "no_empty (m_stateDataMap C0)"
  shows "final_view D (RevertContractStates C) = final_view D C0"
    and "index_view D (RevertContractStates C) = index_view D C0"
  using assms undo_revert [of "m_stateDataMap C0"] undo_revert [of "m_stateIndexMap C0"]
  by (auto simp: undoes_def RevertContractStates_def view_defs fun_eq_iff)

lemma put_entries_undo:
  assumes "fold (put_entry False True) es (ix, C) = (ix', C')"
    and "undo_ok m0 (r_stateDataMap C) (m_stateDataMap C)"
    and "distinct (map fst es)" "\<forall>i\<in>fst ` set es. map_of (r_stateDataMap C) (toHex i) = None"
  shows "undo_ok m0 (r_stateDataMap C') (m_stateDataMap C')"
    and "dom (map_of (r_stateDataMap C')) = dom (map_of (r_stateDataMap C)) \<union> toHex ` fst ` set es"
proof -
  have "undo_ok m0 (r_stateDataMap C') (m_stateDataMap C')
    \<and> dom (map_of (r_stateDataMap C')) = dom (map_of (r_stateDataMap C)) \<union> toHex ` fst ` set es"
    using assms
  proof (induction es arbitrary: ix C)
    case (Cons e es)
    obtain i v where e: "e = (i, v)" by fastforce
    obtain ix1 C1 where st: "put_entry False True e (ix, C) = (ix1, C1)" by fastforce
    have C1: "r_stateDataMap C1 = AList.update (toHex i) (smap_default (m_stateDataMap C) (toHex i)) (r_stateDataMap C)"
      "m_stateDataMap C1 = AList.update (toHex i) v (m_stateDataMap C)"
      using st e by (auto simp: put_entry_def Let_def)
    have u: "undo_ok m0 (r_stateDataMap C1) (m_stateDataMap C1)"
      unfolding C1 using Cons.prems e by (intro undo_step) auto
    have f: "\<forall>j\<in>fst ` set es. map_of (r_stateDataMap C1) (toHex j) = None"
      using Cons.prems(3,4) e by (auto simp: C1 update_conv')
    show ?case using Cons.IH [of ix1 C1] u f Cons.prems st e by (auto simp: C1 update_conv')
  qed auto
  then show "undo_ok m0 (r_stateDataMap C') (m_stateDataMap C')"
    and "dom (map_of (r_stateDataMap C')) = dom (map_of (r_stateDataMap C)) \<union> toHex ` fst ` set es"
    by blast+
qed

section \<open>Committing to disk\<close>

lemma lookup_all_spec:
  assumes "is_open L"
  shows "lookup_all D L m = Some (map (\<lambda>(k, v). (k, case contents D L k of None \<Rightarrow> [] | Some v \<Rightarrow> v)) m)"
  using assms by (induction m) (auto simp: LevelDB_Lookup_contents)

definition reads_as :: "(bytes \<rightharpoonup> bytes) \<Rightarrow> bytes \<Rightarrow> bytes" where
  "reads_as db k = (case db k of None \<Rightarrow> [] | Some v \<Rightarrow> v)"

definition single_writes_succeed :: "'d leveldb \<Rightarrow> bool" where
  "single_writes_succeed D \<longleftrightarrow> (\<forall>d p k v. snd (ldb_Put D d p k v)) \<and> (\<forall>d p k. snd (ldb_Delete D d p k))"

lemma reset_one:
  assumes "leveldb_ok D" "single_writes_succeed D" "is_open L"
  obtains L1 rc where "(if old = [] then LevelDB_DeleteKey D L k else LevelDB_Insert D L k old) = Some (L1, rc)"
    "reads_as (contents D L1) = (reads_as (contents D L))(k := old)" "is_open L1"
proof (cases "old = []")
  case True
  obtain L1 rc where L1: "LevelDB_DeleteKey D L k = Some (L1, rc)" using LevelDB_DeleteKey_total [OF assms(3)] by blast
  then have "rc = 0" using assms(2)
    by (auto simp: LevelDB_DeleteKey_def single_writes_succeed_def split: bind_splits prod.splits if_splits) (metis snd_conv)
  then show ?thesis using that [of L1 rc] L1 True LevelDB_DeleteKey_contents [OF assms(1) L1]
    by (auto simp: reads_as_def fun_eq_iff)
next
  case False
  obtain L1 rc where L1: "LevelDB_Insert D L k old = Some (L1, rc)" using LevelDB_Insert_total [OF assms(3)] by blast
  then have "rc = 0" using assms(2)
    by (auto simp: LevelDB_Insert_def single_writes_succeed_def split: bind_splits prod.splits if_splits) (metis snd_conv)
  then show ?thesis using that [of L1 rc] L1 False LevelDB_Insert_contents [OF assms(1) L1]
    by (auto simp: reads_as_def fun_eq_iff)
qed

lemma reset_keys_spec:
  assumes "leveldb_ok D" "single_writes_succeed D" "is_open L"
  shows "\<exists>L'. reset_keys D (map (\<lambda>(k, v). (k, f k)) m) L = Some L' \<and> is_open L'
    \<and> reads_as (contents D L') = (\<lambda>k. if k \<in> fst ` set m then f k else reads_as (contents D L) k)"
  using assms(3)
proof (induction m arbitrary: L)
  case (Cons e m)
  obtain k v where e: "e = (k, v)" by fastforce
  obtain L1 rc where L1: "(if f k = [] then LevelDB_DeleteKey D L k else LevelDB_Insert D L k (f k)) = Some (L1, rc)"
    "reads_as (contents D L1) = (reads_as (contents D L))(k := f k)" "is_open L1"
    using reset_one [OF assms(1,2) Cons.prems] .
  then show ?case using Cons.IH [OF L1(3)] e by (auto simp: fun_eq_iff)
qed simp

lemma layered_reads: "layered m db k = (case map_of m k of Some v \<Rightarrow> v | None \<Rightarrow> reads_as db k)"
  by (simp add: layered_def reads_as_def split: option.splits)

lemma batch_reads:
  assumes "no_empty m" "distinct (map fst m)"
  shows "map_of (rev (filter (\<lambda>e. snd e \<noteq> []) m)) = map_of m"
proof -
  have "snd e \<noteq> []" if "e \<in> set m" for e
  proof -
    have "map_of m (fst e) = Some (snd e)" using that assms(2) by simp
    then show ?thesis using assms(1) unfolding no_empty_def by metis
  qed
  then have f: "filter (\<lambda>e. snd e \<noteq> []) m = m" by simp
  have "map_of (rev m) = map_of m" using assms(2) by (intro map_of_eqI) (auto simp: rev_map [symmetric])
  then show ?thesis using f by simp
qed

lemma batch_contents:
  assumes "leveldb_ok D" "LevelDB_BatchInsert D L m = Some (L', True)" "no_empty m" "distinct (map fst m)"
  shows "contents D L' = contents D L ++ map_of m" "is_open L'"
  using LevelDB_BatchInsert_contents [OF assms(1,2)] batch_reads [OF assms(3,4)] by simp_all

lemma view_eqs:
  "final_view D C = layered (m_stateDataMap C) (contents D (m_stateDataDB C))"
  "index_view D C = layered (m_stateIndexMap C) (contents D (m_stateIndexDB C))"
  by (simp_all add: fun_eq_iff final_view_def index_view_def)

lemma layered_persisted: "layered [] (db ++ map_of m) k = layered m db k"
  by (simp add: layered_def map_add_def split: option.splits)

definition maps_wf :: "'d ContractStorage \<Rightarrow> bool" where
  "maps_wf C \<longleftrightarrow> no_empty (m_stateIndexMap C) \<and> no_empty (m_stateDataMap C)
     \<and> distinct (map fst (m_stateIndexMap C)) \<and> distinct (map fst (m_stateDataMap C))"

text \<open>C23: Committing the contract states to disk is atomic for readers. On an open storage the commit
  returns; whether it reports success or failure, every state and every index list reads as before.
  After a success the databases alone hold what was read and the maps are empty; after a failure the
  databases read as before the call, provided single writes to the database succeed.
\<close>

theorem commit_keeps_states:
  assumes "leveldb_ok D" "single_writes_succeed D" "cs_open C" "maps_wf C"
  shows "\<exists>ok C'. CommitStateDB D C = Some (ok, C') \<and> cs_open C'
    \<and> final_view D C' = final_view D C \<and> index_view D C' = index_view D C
    \<and> (if ok then m_stateIndexMap C' = [] \<and> m_stateDataMap C' = []
                 \<and> reads_as (contents D (m_stateDataDB C')) = final_view D C
                 \<and> reads_as (contents D (m_stateIndexDB C')) = index_view D C
       else m_stateIndexMap C' = m_stateIndexMap C \<and> m_stateDataMap C' = m_stateDataMap C
            \<and> reads_as (contents D (m_stateDataDB C')) = reads_as (contents D (m_stateDataDB C))
            \<and> reads_as (contents D (m_stateIndexDB C')) = reads_as (contents D (m_stateIndexDB C)))"
proof -
  let ?I = "m_stateIndexDB C" and ?mi = "m_stateIndexMap C" and ?md = "m_stateDataMap C"
  let ?old = "\<lambda>k. reads_as (contents D ?I) k"
  note wf = assms(4) [unfolded maps_wf_def]
  have op: "is_open ?I" "is_open (m_stateDataDB C)" using assms(3) by (simp_all add: cs_open_def)
  have buf: "lookup_all D ?I ?mi = Some (map (\<lambda>(k, v). (k, ?old k)) ?mi)"
    using lookup_all_spec [OF op(1)] by (simp add: reads_as_def)
  have lr: "layered [] db = reads_as db" for db by (simp add: fun_eq_iff layered_reads)
  obtain idb ok1 where idb: "LevelDB_BatchInsert D ?I ?mi = Some (idb, ok1)"
    using LevelDB_BatchInsert_total [OF op(1)] by blast
  note ic = LevelDB_BatchInsert_contents [OF assms(1) idb]
  obtain ddb ok2 where ddb: "LevelDB_BatchInsert D (m_stateDataDB C) ?md = Some (ddb, ok2)"
    using LevelDB_BatchInsert_total [OF op(2)] by blast
  note dc = LevelDB_BatchInsert_contents [OF assms(1) ddb]
  show ?thesis
  proof (cases "ok1 \<and> ok2")
    case True
    have c: "contents D idb = contents D ?I ++ map_of ?mi" "contents D ddb = contents D (m_stateDataDB C) ++ map_of ?md"
      using batch_contents [OF assms(1), of ?I ?mi idb] batch_contents [OF assms(1), of "m_stateDataDB C" ?md ddb] idb ddb True wf
      by simp_all
    let ?C' = "InitTempState (C\<lparr>m_stateIndexDB := idb, m_stateDataDB := ddb, m_stateIndexMap := [], m_stateDataMap := []\<rparr>)"
    have "CommitStateDB D C = Some (True, ?C')" using buf idb ddb True by (simp add: CommitStateDB_def)
    moreover have "final_view D ?C' = final_view D C" "index_view D ?C' = index_view D C"
      by (rule ext, simp add: final_view_def index_view_def InitTempState_def c layered_persisted)+
    moreover have "reads_as (contents D ddb) = final_view D C" "reads_as (contents D idb) = index_view D C"
      unfolding c lr [symmetric] by (rule ext, simp add: final_view_def index_view_def layered_persisted)+
    ultimately show ?thesis using assms(3) ic dc
      by (intro exI [of _ True] exI [of _ ?C']) (simp add: cs_open_def InitTempState_def)
  next
    case False
    then consider "\<not> ok1" | "ok1" "\<not> ok2" by blast
    then show ?thesis
    proof cases
      case 1
      have "CommitStateDB D C = Some (False, C\<lparr>m_stateIndexDB := idb\<rparr>)" using buf idb 1 by (simp add: CommitStateDB_def)
      then show ?thesis using assms(3) ic 1
        by (intro exI [of _ False] exI [of _ "C\<lparr>m_stateIndexDB := idb\<rparr>"])
          (simp add: cs_open_def view_eqs)
    next
      case 2
      obtain L' where L': "reset_keys D (map (\<lambda>(k, v). (k, ?old k)) ?mi) idb = Some L'" "is_open L'"
        "reads_as (contents D L') = (\<lambda>k. if k \<in> fst ` set ?mi then ?old k else reads_as (contents D idb) k)"
        using reset_keys_spec [OF assms(1,2), of idb ?old ?mi] ic by blast
      have "contents D idb = contents D ?I ++ map_of ?mi"
        using batch_contents [OF assms(1), of ?I ?mi idb] idb 2 wf by simp
      then have same: "reads_as (contents D L') = reads_as (contents D ?I)"
        unfolding L' by (auto simp: fun_eq_iff reads_as_def map_add_def map_of_eq_None_iff split: option.splits)
      let ?C' = "C\<lparr>m_stateIndexDB := L', m_stateDataDB := ddb\<rparr>"
      have "CommitStateDB D C = Some (False, ?C')" using buf idb ddb 2 L' by (simp add: CommitStateDB_def)
      moreover have "index_view D ?C' = index_view D C"
        by (rule ext) (simp add: index_view_def layered_reads same split: option.splits)
      ultimately show ?thesis using assms(3) L'(2) dc 2 same
        by (intro exI [of _ False] exI [of _ ?C']) (simp add: cs_open_def view_eqs)
    qed
  qed
qed

theorem commit_keeps_states_witness:
  "\<exists>C'. CommitStateDB map_db (fresh_contracts\<lparr>m_stateDataMap := [([65], [1, 2])]\<rparr>) = Some (True, C')
    \<and> reads_as (contents map_db (m_stateDataDB C')) [65] = [1, 2] \<and> m_stateDataMap C' = []"
proof -
  let ?C = "fresh_contracts\<lparr>m_stateDataMap := [([65], [1, 2])]\<rparr>"
  have wf: "single_writes_succeed map_db" "cs_open ?C" "maps_wf ?C"
    by (simp_all add: single_writes_succeed_def map_db_def cs_open_def is_open_def fresh_contracts_def fresh_db_def maps_wf_def no_empty_def)
  have "case CommitStateDB map_db ?C of Some (True, _) \<Rightarrow> True | _ \<Rightarrow> False"
    by (simp add: CommitStateDB_def LevelDB_BatchInsert_def map_db_def fresh_contracts_def fresh_db_def LevelDB_Lookup_def)
  then obtain C' where run: "CommitStateDB map_db ?C = Some (True, C')" by (auto split: option.splits prod.splits bool.splits)
  have "final_view map_db ?C [65] = [1, 2]" by (simp add: final_view_def layered_def fresh_contracts_def)
  then show ?thesis using commit_keeps_states [OF map_db_ok wf] run by auto
qed

end
