(* ===== verification/AccountStoreSC.thy ===== *)
theory AccountStoreSC
  imports AccountStoreBase ContractStorage
begin

text \<open>
  The execution of transactions, \<open>libData/AccountData/AccountStoreSC.tpp\<close> and \<open>AccountStoreAtomic.tpp\<close>, with the
  operations of \<open>Account.cpp\<close> that use the contract storage. A store of this class has a second store on top of
  it, the atomic store, in which the transfers of a chain of contract calls are collected; they are
  copied down when the whole chain has succeeded.

  External to the sources, and therefore the parameter \<open>scilla_world\<close>: the contract checker and the
  interpreter, which run as processes, the files they exchange with the node, and the JSON library. The
  record holds what the code learns from them: whether a process could be started and was cut off by
  the timeout, and the answers of the JSON library to the queries the code makes on an output. \<open>None\<close> is
  an abort (\<open>FATAL\<close>), an exception that leaves \<open>UpdateAccounts\<close>, or a null pointer.
\<close>

section \<open>Contract accounts\<close>

record ('d, 'pt) sc_env =
  sc_ledger :: ledger_env
  sc_ossl :: "'pt openssl"
  sc_ldb :: "'d leveldb"
  sc_proto :: state_protobuf
  CONTRACT_STATE_VERSION :: nat

definition Account_SetStorage ::
    "('d, 'pt) sc_env \<Rightarrow> StateEntry list \<Rightarrow> bool \<Rightarrow> Account \<Rightarrow> 'd ContractStorage
     \<Rightarrow> (bool \<times> Account \<times> 'd ContractStorage) option" where
  "Account_SetStorage X entries temp acc C =
     (if \<not> isContract acc then Some (False, acc, C)
      else do {
        (ok, root, C') \<leftarrow> PutContractState (sc_ldb X) (sc_proto X) (sc_ossl X) (CONTRACT_STATE_VERSION X)
                            (acc_address acc) entries (m_storageRoot acc) temp C;
        Some (ok, acc\<lparr>m_storageRoot := root\<rparr>, C') })"

definition Account_SetStorage_raw ::
    "('d, 'pt) sc_env \<Rightarrow> Address \<Rightarrow> (Index \<times> bytes) list \<Rightarrow> bool \<Rightarrow> bool \<Rightarrow> Account \<Rightarrow> 'd ContractStorage
     \<Rightarrow> (bool \<times> Account \<times> 'd ContractStorage) option" where
  "Account_SetStorage_raw X addr entries temp revertible acc C =
     (if \<not> isContract acc then Some (False, acc, C)
      else do {
        (ok, root, C') \<leftarrow> PutContractState_entries (sc_ldb X) (sc_proto X) (sc_ossl X) addr entries
                            (m_storageRoot acc) temp revertible None C;
        (if \<not> ok then Some (False, acc\<lparr>m_storageRoot := root\<rparr>, C')
         else Some (True, Account_SetAddress addr (acc\<lparr>m_storageRoot := root\<rparr>), C')) })"

definition Account_GetRawStorage :: "('d, 'pt) sc_env \<Rightarrow> Index \<Rightarrow> bool \<Rightarrow> Account \<Rightarrow> 'd ContractStorage \<Rightarrow> bytes option" where
  "Account_GetRawStorage X k temp acc C =
     (if \<not> isContract acc then Some [] else GetContractStateData (sc_ldb X) k temp C)"

definition Account_GetStorageKeyHashes ::
    "('d, 'pt) sc_env \<Rightarrow> bool \<Rightarrow> Account \<Rightarrow> 'd ContractStorage \<Rightarrow> Index list option" where
  "Account_GetStorageKeyHashes X temp acc C =
     (if \<not> isContract acc then Some []
      else GetContractStateIndexes (sc_ldb X) (sc_proto X) (acc_address acc) temp C)"

definition Account_GetCode :: "('d, 'pt) sc_env \<Rightarrow> Account \<Rightarrow> 'd ContractStorage \<Rightarrow> bytes option" where
  "Account_GetCode X acc C =
     (if \<not> isContract acc then Some []
      else if m_codeCache acc = [] then GetContractCode (sc_ldb X) (acc_address acc) C
      else Some (m_codeCache acc))"

section \<open>What the interpreter answers\<close>

text \<open>A variable of the initial data or of the resulting states: its three members as text, or
  something missing, or a conversion that throws.\<close>

datatype json_var = JVar bytes bytes bytes | JMissing | JThrows

datatype exec_result = ExecOk | ExecFailed | ExecThrew

text \<open>What a run leaves to be parsed. \<open>convertStrtoJson\<close> accepts objects and arrays; an array has no members, and
  asking it for one throws.\<close>

datatype 'o scilla_output = NoOutput | Unparsable | OutputThrew | ParsedArray | Parsed 'o

text \<open>\<open>gas_remaining\<close>: a text that is no number is noticed; an object or an array has no text, and its conversion
  throws once more in the handler that reports it. \<open>_accepted\<close> is converted outside any handler.\<close>

datatype gas_field = GasMissing | GasNotNumeric | GasThrows | GasValue "64 word"

datatype accepted_field = AcceptedMissing | AcceptedThrows | Accepted bool

record create_json =
  cj_gas :: gas_field
  cj_has_message_states_events :: bool
  cj_has_errors :: bool
  cj_types_ok :: bool

record event =
  ev_has_eventname :: bool
  ev_has_params :: bool
  ev_params_complete :: "bool list"

text \<open>A member is \<open>None\<close> when its conversion throws: it has no text, or the text of the recipient is no hexadecimal
  address. \<open>Some None\<close> is an amount that is no number.\<close>

record call_message =
  msg_amount :: "128 word option option"
  msg_recipient :: "Address option"
  msg_tag_empty :: "bool option"

datatype message = MsgNull | MsgNotObject | MsgIncomplete | Msg call_message

record call_json =
  cl_gas :: gas_field
  cl_has_message_states_events :: bool
  cl_has_errors :: bool
  cl_accepted :: accepted_field
  cl_states :: "json_var list"
  cl_events :: "event list"
  cl_message :: message

record 'o run =
  run_exec :: exec_result
  run_timeout :: bool
  run_output :: "'o scilla_output"

record 'd scilla_world =
  w_init_vars :: "bytes \<Rightarrow> json_var list option"
  w_quote :: "bytes \<Rightarrow> bytes"
  w_export_create :: "Account \<Rightarrow> 'd ContractStorage \<Rightarrow> bool"
  w_checker :: "unit run"
  w_create :: "64 word \<Rightarrow> create_json run"
  w_export_call :: "nat \<Rightarrow> Account \<Rightarrow> 'd ContractStorage \<Rightarrow> bool"
  w_call :: "nat \<Rightarrow> 64 word \<Rightarrow> call_json run"

text \<open>Initial data: the variables of the transaction and two that the node appends. Values are stored as
  JSON text.\<close>

definition PrepareInitDataJson :: "'d scilla_world \<Rightarrow> bytes \<Rightarrow> Address \<Rightarrow> nat \<Rightarrow> json_var list option" where
  "PrepareInitDataJson W initData addr blockNum =
     (if initData = [] then None
      else map_option (\<lambda>vars. vars @
             [JVar (ascii ''_creation_block'') (ascii ''BNum'') (w_quote W (to_decimal blockNum)),
              JVar (ascii ''_this_address'') (ascii ''ByStr20'') (w_quote W (48 # 120 # addr_hex addr))])
           (w_init_vars W initData))"

fun init_entries :: "json_var list \<Rightarrow> StateEntry list option" where
  "init_entries [] = Some []"
| "init_entries (JVar n t v # vs) = map_option ((#) (n, False, t, v)) (init_entries vs)"
| "init_entries (_ # vs) = None"

text \<open>An exception in the initialisation is caught by the caller and has the effect of \<open>false\<close>.\<close>

definition InitContract ::
    "('d, 'pt) sc_env \<Rightarrow> 'd scilla_world \<Rightarrow> bytes \<Rightarrow> bytes \<Rightarrow> Address \<Rightarrow> nat \<Rightarrow> bool \<Rightarrow> Account \<Rightarrow> 'd ContractStorage
     \<Rightarrow> (bool \<times> Account \<times> 'd ContractStorage) option" where
  "InitContract X W c initData addr blockNum temp acc C =
     (if isContract acc then Some (False, acc, C)
      else case PrepareInitDataJson W initData addr blockNum of
        None \<Rightarrow> Some (False, acc, C)
      | Some vars \<Rightarrow>
          (case init_entries vars of
             None \<Rightarrow> Some (False, acc, C)
           | Some entries \<Rightarrow> do {
               (ok, root, C1) \<leftarrow> PutContractState (sc_ldb X) (sc_proto X) (sc_ossl X) (CONTRACT_STATE_VERSION X)
                                   addr entries (m_storageRoot acc) temp C;
               let acc1 = acc\<lparr>m_storageRoot := root\<rparr>;
               (if \<not> ok then Some (False, acc1, C1)
                else case Account_SetCode (sc_ossl X) c acc1 of
                       (False, acc2) \<Rightarrow> Some (False, acc2, C1)
                     | (True, acc2) \<Rightarrow> Some (True, Account_SetAddress addr acc2, C1)) }))"

section \<open>The store and its atomic store\<close>

record ('s, 'd) SC =
  sc_store :: 's
  sc_atomic :: amap
  sc_storage :: "'d ContractStorage"
  m_curContractAddr :: Address
  m_curSenderAddr :: Address
  m_curAmount :: "128 word"
  m_curGasLimit :: "64 word"
  m_curGasPrice :: "128 word"
  m_curBlockNum :: nat
  m_curNumShards :: nat
  m_curIsDS :: bool
  m_curDepth :: nat

text \<open>The virtual table of the store itself and that of the atomic store, whose parent it is.\<close>

definition this_vt :: "'s store_vt \<Rightarrow> ('s, 'd) SC store_vt" where
  "this_vt V = \<lparr>
     vt_GetAccount = (\<lambda>a S. case vt_GetAccount V a (sc_store S) of (r, s) \<Rightarrow> (r, S\<lparr>sc_store := s\<rparr>)),
     vt_update = (\<lambda>f S. S\<lparr>sc_store := vt_update V f (sc_store S)\<rparr>)\<rparr>"

definition AccountStoreAtomic_GetAccount :: "'s store_vt \<Rightarrow> Address \<Rightarrow> ('s, 'd) SC \<Rightarrow> Account option \<times> ('s, 'd) SC" where
  "AccountStoreAtomic_GetAccount V a S =
     (case map_of (sc_atomic S) a of
        Some acc \<Rightarrow> (Some acc, S)
      | None \<Rightarrow>
          (case vt_GetAccount (this_vt V) a S of
             (Some acc, S1) \<Rightarrow> (Some acc, S1\<lparr>sc_atomic := map_insert a acc (sc_atomic S1)\<rparr>)
           | (None, S1) \<Rightarrow> (None, S1)))"

definition atomic_vt :: "'s store_vt \<Rightarrow> ('s, 'd) SC store_vt" where
  "atomic_vt V = \<lparr>
     vt_GetAccount = AccountStoreAtomic_GetAccount V,
     vt_update = (\<lambda>f S. S\<lparr>sc_atomic := f (sc_atomic S)\<rparr>)\<rparr>"

definition DiscardTransferAtomic :: "('s, 'd) SC \<Rightarrow> ('s, 'd) SC" where
  "DiscardTransferAtomic S = S\<lparr>sc_atomic := []\<rparr>"

definition commit_entry :: "'s store_vt \<Rightarrow> Address \<times> Account \<Rightarrow> ('s, 'd) SC \<Rightarrow> ('s, 'd) SC" where
  "commit_entry V e S =
     (case vt_GetAccount (this_vt V) (fst e) S of
        (Some _, S1) \<Rightarrow> write_account (this_vt V) (fst e) (snd e) S1
      | (None, S1) \<Rightarrow> AddAccount (this_vt V) (fst e) (snd e) S1)"

definition CommitTransferAtomic :: "'s store_vt \<Rightarrow> ('s, 'd) SC \<Rightarrow> ('s, 'd) SC" where
  "CommitTransferAtomic V S = fold (commit_entry V) (sc_atomic S) S"

definition TransferBalanceAtomic ::
    "'s store_vt \<Rightarrow> ledger_env \<Rightarrow> Address \<Rightarrow> Address \<Rightarrow> 128 word \<Rightarrow> ('s, 'd) SC \<Rightarrow> (bool \<times> ('s, 'd) SC) option" where
  "TransferBalanceAtomic V E src dst delta S = TransferBalance (atomic_vt V) E src dst delta S"

section \<open>Reading the outputs\<close>

text \<open>Both functions throw before they change the gas or the receipt.\<close>

definition ParseCreateContractJsonOutput ::
    "ledger_env \<Rightarrow> create_json \<Rightarrow> 64 word \<Rightarrow> 'ev TransactionReceipt \<Rightarrow> (bool \<times> 64 word \<times> 'ev TransactionReceipt) option" where
  "ParseCreateContractJsonOutput E j g r =
     (case cj_gas j of
        GasMissing \<Rightarrow>
          Some (False, if ucast (CONTRACT_CREATE_GAS E) < g then g - ucast (CONTRACT_CREATE_GAS E) else 0,
            AddError NO_GAS_REMAINING_FOUND r)
      | GasNotNumeric \<Rightarrow> Some (False, g, r)
      | GasThrows \<Rightarrow> None
      | GasValue x \<Rightarrow>
          let g' = min g x
          in Some (if \<not> cj_has_message_states_events j
                   then (False, g', AddError (if cj_has_errors j then CREATE_CONTRACT_FAILED else OUTPUT_ILLEGAL) r)
                   else if cj_types_ok j then (True, g', r)
                   else (False, g', AddError OUTPUT_ILLEGAL r)))"

definition ParseCreateContract ::
    "ledger_env \<Rightarrow> create_json scilla_output \<Rightarrow> 64 word \<Rightarrow> 'ev TransactionReceipt
     \<Rightarrow> (bool \<times> 64 word \<times> 'ev TransactionReceipt) option" where
  "ParseCreateContract E out g r =
     (case out of
        NoOutput \<Rightarrow> Some (False, g, AddError NO_OUTPUT r)
      | Unparsable \<Rightarrow> Some (False, g, AddError JSON_OUTPUT_CORRUPTED r)
      | OutputThrew \<Rightarrow> None
      | ParsedArray \<Rightarrow> None
      | Parsed j \<Rightarrow> ParseCreateContractJsonOutput E j g r)"

definition ParseContractCheckerOutput :: "unit scilla_output \<Rightarrow> 'ev TransactionReceipt \<Rightarrow> bool \<times> 'ev TransactionReceipt" where
  "ParseContractCheckerOutput out r =
     (case out of Parsed _ \<Rightarrow> (True, r) | ParsedArray \<Rightarrow> (True, r) | OutputThrew \<Rightarrow> (False, r)
      | _ \<Rightarrow> (False, AddError JSON_OUTPUT_CORRUPTED r))"

text \<open>Running a process: an error of the start and the timeout are noted in the receipt.\<close>

definition execute_process :: "'o run \<Rightarrow> 'ev TransactionReceipt \<Rightarrow> bool \<times> 'ev TransactionReceipt" where
  "execute_process x r =
     (let (ok, r1) = (case run_exec x of ExecOk \<Rightarrow> (True, r) | ExecFailed \<Rightarrow> (False, AddError EXECUTE_CMD_FAILED r)
                      | ExecThrew \<Rightarrow> (False, r))
      in if run_timeout x then (False, AddError EXECUTE_CMD_TIMEOUT r1) else (ok, r1))"

text \<open>The states of an output without \<open>_balance\<close>; \<open>Inl\<close> tells whether something was missing (an error in the
  receipt) or a conversion threw.\<close>

fun call_entries :: "json_var list \<Rightarrow> bool + StateEntry list" where
  "call_entries [] = Inr []"
| "call_entries (JMissing # vs) = Inl True"
| "call_entries (JThrows # vs) = Inl False"
| "call_entries (JVar n t v # vs) =
     (case call_entries vs of
        Inl e \<Rightarrow> Inl e
      | Inr es \<Rightarrow> Inr (if n \<noteq> ascii ''_balance'' then (n, True, t, v) # es else es))"

text \<open>\<open>LogEntry::Install\<close>, for all events in order; the entries before a bad one stay in the receipt.\<close>

definition LogEntry_Install :: "event \<Rightarrow> bool" where
  "LogEntry_Install e \<longleftrightarrow> ev_has_eventname e \<and> ev_has_params e \<and> list_all id (ev_params_complete e)"

fun install_events :: "event list \<Rightarrow> event TransactionReceipt \<Rightarrow> bool \<times> event TransactionReceipt" where
  "install_events [] r = (True, r)"
| "install_events (e # es) r =
     (if LogEntry_Install e then install_events es (AddEntry e r) else (False, AddError LOG_ENTRY_INSTALL_FAILED r))"

section \<open>Contract calls\<close>

text \<open>The files of a call can be written only for a contract account (\<open>GetStorageJson\<close>).\<close>

definition ExportCallContractFiles :: "'d scilla_world \<Rightarrow> nat \<Rightarrow> Account \<Rightarrow> 'd ContractStorage \<Rightarrow> bool" where
  "ExportCallContractFiles W n acc C \<longleftrightarrow> isContract acc \<and> w_export_call W n acc C"

definition ExportCreateContractFiles :: "'d scilla_world \<Rightarrow> Account \<Rightarrow> 'd ContractStorage \<Rightarrow> bool" where
  "ExportCreateContractFiles W acc C \<longleftrightarrow> isContract acc \<and> w_export_create W acc C"

text \<open>Storing the states through \<open>contractAccount\<close>, the pointer into the atomic map.\<close>

definition set_contract_storage ::
    "('d, 'pt) sc_env \<Rightarrow> StateEntry list \<Rightarrow> bool \<Rightarrow> ('s, 'd) SC \<Rightarrow> (bool \<times> ('s, 'd) SC) option" where
  "set_contract_storage X entries temp S = do {
     acc \<leftarrow> map_of (sc_atomic S) (m_curContractAddr S);
     (ok, acc', C') \<leftarrow> Account_SetStorage X entries temp acc (sc_storage S);
     Some (ok, S\<lparr>sc_atomic := AList.update (m_curContractAddr S) acc' (sc_atomic S), sc_storage := C'\<rparr>) }"

text \<open>The answer to one call up to the decision what comes next: the call ends with a result, or another
  contract is to be called.\<close>

datatype 'st next_step = Ended bool "64 word" "event TransactionReceipt" 'st
  | CallNext Address "64 word" "event TransactionReceipt" 'st

text \<open>The recipient of a message is looked up in the atomic store; when it is unknown, an empty account is
  added to the store below and looked up again.\<close>

definition fetch_recipient :: "'s store_vt \<Rightarrow> ledger_env \<Rightarrow> Address \<Rightarrow> ('s, 'd) SC \<Rightarrow> ('s, 'd) SC" where
  "fetch_recipient V E recipient S =
     (case vt_GetAccount (atomic_vt V) recipient S of
        (Some _, S1) \<Rightarrow> S1
      | (None, S1) \<Rightarrow>
          snd (vt_GetAccount (atomic_vt V) recipient
            (AddAccount (this_vt V) recipient (Account_new 0 0 (ACCOUNT_VERSION E)) S1)))"

text \<open>The outgoing message: whether the chain ends here, and the recipient otherwise.\<close>

definition handle_message ::
    "'s store_vt \<Rightarrow> ('d, 'pt) sc_env \<Rightarrow> message \<Rightarrow> event TransactionReceipt \<Rightarrow> ('s, 'd) SC
     \<Rightarrow> ((event TransactionReceipt \<times> ('s, 'd) SC) + (bool \<times> Address \<times> event TransactionReceipt \<times> ('s, 'd) SC)) option" where
  "handle_message V X msg r S =
     (case msg of
        MsgNull \<Rightarrow> Some (Inr (True, 0, r, S))
      | MsgNotObject \<Rightarrow> Some (Inl (r, S))
      | MsgIncomplete \<Rightarrow> Some (Inl (AddError MESSAGE_CORRUPTED r, S))
      | Msg m \<Rightarrow> do {
          q \<leftarrow> msg_amount m;
          (case q of
             None \<Rightarrow> Some (Inl (r, S))
           | Some amt \<Rightarrow> do {
               let S1 = S\<lparr>m_curAmount := amt\<rparr>;
               recipient \<leftarrow> msg_recipient m;
               (if recipient = 0 then Some (Inl (AddError RECEIPT_IS_NULL r, S1))
                else do {
                  let S3 = fetch_recipient V (sc_ledger X) recipient S1;
                  account \<leftarrow> map_of (sc_atomic S3) recipient;
                  (if \<not> isContract account
                   then do {
                     (ok, S4) \<leftarrow> TransferBalanceAtomic V (sc_ledger X) (m_curContractAddr S3) recipient amt S3;
                     (if \<not> ok then Some (Inl (AddError BALANCE_TRANSFER_FAILED r, S4))
                      else map_option (\<lambda>tag_empty. Inr (True, recipient, r, S4)) (msg_tag_empty m)) }
                   else map_option (\<lambda>tag_empty. Inr (tag_empty, recipient, r, S3)) (msg_tag_empty m)) }) }) })"

text \<open>From \<open>_accepted\<close> to the message.\<close>

definition accept_amount ::
    "'s store_vt \<Rightarrow> ('d, 'pt) sc_env \<Rightarrow> bool \<Rightarrow> event TransactionReceipt \<Rightarrow> ('s, 'd) SC
     \<Rightarrow> (bool \<times> event TransactionReceipt \<times> ('s, 'd) SC) option" where
  "accept_amount V X accepted r S = do {
     (ok, S1) \<leftarrow> (if accepted
                   then TransferBalanceAtomic V (sc_ledger X) (m_curSenderAddr S) (m_curContractAddr S) (m_curAmount S) S
                   else Some (True, S));
     (if \<not> ok then Some (False, AddError BALANCE_TRANSFER_FAILED r, S1)
      else case vt_GetAccount (atomic_vt V) (m_curContractAddr S1) S1 of
             (None, S2) \<Rightarrow> Some (False, AddError CONTRACT_NOT_EXIST r, S2)
           | (Some _, S2) \<Rightarrow> Some (True, r, S2)) }"

text \<open>Storing the states and checking that another call is allowed.\<close>

definition finish_level ::
    "('d, 'pt) sc_env \<Rightarrow> 'd scilla_world \<Rightarrow> bool \<Rightarrow> bool \<Rightarrow> StateEntry list \<Rightarrow> bool \<Rightarrow> Address \<Rightarrow> 64 word
     \<Rightarrow> event TransactionReceipt \<Rightarrow> ('s, 'd) SC \<Rightarrow> ('s, 'd) SC next_step option" where
  "finish_level X W first temp entries ret recipient g r S =
     (if first \<and> ret then map_option (\<lambda>(ok, S1). Ended ok g r S1) (set_contract_storage X entries temp S)
      else do {
        (_, S1) \<leftarrow> set_contract_storage X entries temp
                    (if first then S\<lparr>sc_storage := BufferCurrentState (sc_storage S)\<rparr> else S);
        (if ret then Some (Ended True g r S1)
         else let S2 = S1\<lparr>m_curDepth := m_curDepth S1 + 1\<rparr>
              in if MAX_CONTRACT_DEPTH (sc_ledger X) < m_curDepth S2
                 then Some (Ended False g (AddError MAX_DEPTH_REACHED r) S2)
                 else let r2 = AddDepth r
                      in if \<not> m_curIsDS S2
                            \<and> GetShardIndex (m_curContractAddr S2) (m_curNumShards S2) \<noteq> GetShardIndex recipient (m_curNumShards S2)
                         then Some (Ended False g (AddError CHAIN_CALL_DIFF_SHARD r2) S2)
                         else do {
                           account \<leftarrow> map_of (sc_atomic S2) recipient;
                           (if ExportCallContractFiles W (m_curDepth S2) account (sc_storage S2)
                            then Some (CallNext recipient g r2 S2)
                            else Some (Ended False g (AddError PREPARATION_FAILED r2) S2)) }) })"

definition call_level ::
    "'s store_vt \<Rightarrow> ('d, 'pt) sc_env \<Rightarrow> 'd scilla_world \<Rightarrow> bool \<Rightarrow> bool \<Rightarrow> call_json \<Rightarrow> 64 word \<Rightarrow> event TransactionReceipt
     \<Rightarrow> ('s, 'd) SC \<Rightarrow> ('s, 'd) SC next_step option" where
  "call_level V X W first temp j g r S =
     (case cl_gas j of
        GasMissing \<Rightarrow>
          Some (Ended False
            (if ucast (CONTRACT_INVOKE_GAS (sc_ledger X)) < g then g - ucast (CONTRACT_INVOKE_GAS (sc_ledger X)) else 0)
            (AddError NO_GAS_REMAINING_FOUND r) S)
      | GasNotNumeric \<Rightarrow> Some (Ended False g r S)
      | GasThrows \<Rightarrow> None
      | GasValue x \<Rightarrow>
          let g' = min g x
          in if \<not> cl_has_message_states_events j
             then Some (Ended False g' (AddError (if cl_has_errors j then CALL_CONTRACT_FAILED else OUTPUT_ILLEGAL) r) S)
             else case cl_accepted j of
               AcceptedMissing \<Rightarrow> Some (Ended False g' (AddError NO_ACCEPTED_FOUND r) S)
             | AcceptedThrows \<Rightarrow> None
             | Accepted accepted \<Rightarrow> do {
                 (ok, r1, S1) \<leftarrow> accept_amount V X accepted r S;
                 (if \<not> ok then Some (Ended False g' r1 S1)
                  else case call_entries (cl_states j) of
                    Inl missing \<Rightarrow> Some (Ended False g' (if missing then AddError STATE_CORRUPTED r1 else r1) S1)
                  | Inr entries \<Rightarrow>
                      (case install_events (cl_events j) r1 of
                         (False, r2) \<Rightarrow> Some (Ended False g' r2 S1)
                       | (True, r2) \<Rightarrow> do {
                           res \<leftarrow> handle_message V X (cl_message j) r2 S1;
                           (case res of
                              Inl (r3, S2) \<Rightarrow> Some (Ended False g' r3 S2)
                            | Inr (ret, recipient, r3, S2) \<Rightarrow> finish_level X W first temp entries ret recipient g' r3 S2) })) })"

text \<open>Reading the output of a call. What throws while it is read is caught; an array is read, and throws out of
  \<open>UpdateAccounts\<close> when it is asked for its first member.\<close>

definition read_call_output ::
    "call_json scilla_output \<Rightarrow> event TransactionReceipt \<Rightarrow> (call_json option \<times> event TransactionReceipt) option" where
  "read_call_output out r =
     (case out of
        NoOutput \<Rightarrow> Some (None, AddError NO_OUTPUT r)
      | Unparsable \<Rightarrow> Some (None, AddError JSON_OUTPUT_CORRUPTED r)
      | OutputThrew \<Rightarrow> Some (None, r)
      | ParsedArray \<Rightarrow> None
      | Parsed j \<Rightarrow> Some (Some j, r))"

text \<open>The chain of calls. Every further call raises \<open>m_curDepth\<close>, which is bounded, so the recursion is given
  one unit of fuel per call; \<open>ParseCallContract\<close> provides enough.\<close>

fun call_chain ::
    "nat \<Rightarrow> 's store_vt \<Rightarrow> ('d, 'pt) sc_env \<Rightarrow> 'd scilla_world \<Rightarrow> bool \<Rightarrow> bool \<Rightarrow> call_json scilla_output \<Rightarrow> 64 word
     \<Rightarrow> event TransactionReceipt \<Rightarrow> ('s, 'd) SC \<Rightarrow> (bool \<times> 64 word \<times> event TransactionReceipt \<times> ('s, 'd) SC) option" where
  "call_chain 0 V X W first temp out g r S = None"
| "call_chain (Suc n) V X W first temp out g r S =
     (case read_call_output out r of
        None \<Rightarrow> None
      | Some (None, r1) \<Rightarrow> Some (False, g, r1, S)
      | Some (Some j, r1) \<Rightarrow> do {
          st \<leftarrow> call_level V X W first temp j g r1 S;
          (case st of
             Ended ok g' r' S' \<Rightarrow> Some (ok, g', r', S')
           | CallNext recipient g' r' S' \<Rightarrow>
               let x = w_call W (m_curDepth S') g'
               in case execute_process x r' of
                    (False, r2) \<Rightarrow> Some (False, g', r2, S')
                  | (True, r2) \<Rightarrow> do {
                      let caller = m_curContractAddr S';
                      (ok, g3, r3, S3) \<leftarrow> call_chain n V X W False temp (run_output x) g' r2
                        (S'\<lparr>m_curSenderAddr := caller, m_curContractAddr := recipient\<rparr>);
                      (if \<not> ok then Some (False, g3, r3, S3)
                       else case IncreaseNonce (this_vt V) (sc_ledger X) caller S3 of
                              (ok', S4) \<Rightarrow> Some (ok', g3, r3, S4)) }) })"

definition ParseCallContract ::
    "'s store_vt \<Rightarrow> ('d, 'pt) sc_env \<Rightarrow> 'd scilla_world \<Rightarrow> bool \<Rightarrow> call_json scilla_output \<Rightarrow> 64 word
     \<Rightarrow> event TransactionReceipt \<Rightarrow> ('s, 'd) SC \<Rightarrow> (bool \<times> 64 word \<times> event TransactionReceipt \<times> ('s, 'd) SC) option" where
  "ParseCallContract V X W temp out g r S =
     call_chain (MAX_CONTRACT_DEPTH (sc_ledger X) + 1) V X W True temp out g r S"

section \<open>Executing a transaction\<close>

type_synonym ('s, 'd) update_result = "(bool \<times> event TransactionReceipt \<times> ('s, 'd) SC) option"

text \<open>\<open>std::max\<close> of a gas constant and a size converted to \<open>unsigned int\<close>.\<close>

definition gas_penalty :: "32 word \<Rightarrow> nat \<Rightarrow> 64 word" where
  "gas_penalty c n = ucast (max c (of_nat n))"

text \<open>The common end of the branches that return true with a failed receipt.\<close>

definition end_failed ::
    "'s store_vt \<Rightarrow> ledger_env \<Rightarrow> Address \<Rightarrow> Address \<Rightarrow> bool \<Rightarrow> event TransactionReceipt \<Rightarrow> ('s, 'd) SC \<Rightarrow> ('s, 'd) update_result" where
  "end_failed V E fromAddr created remove r S =
     (case IncreaseNonce (this_vt V) E fromAddr S of
        (False, S1) \<Rightarrow> Some (False, r, if remove then RemoveAccount (this_vt V) created S1 else S1)
      | (True, S1) \<Rightarrow> Some (True, r, S1))"

text \<open>Running the checker and the interpreter on a new contract: the result of the checker, the result of
  the interpreter and the gas that is left. A failure costs at least the penalty, except when the output
  throws while it is parsed: the handler only records the failure, and all the gas is left.\<close>

definition run_create ::
    "('d, 'pt) sc_env \<Rightarrow> 'd scilla_world \<Rightarrow> 64 word \<Rightarrow> 64 word \<Rightarrow> event TransactionReceipt
     \<Rightarrow> bool \<times> bool \<times> 64 word \<times> event TransactionReceipt" where
  "run_create X W limit penalty r =
     (let (okc, r1) = execute_process (w_checker W) r;
          (ret_checker, r2) = (if okc then ParseContractCheckerOutput (run_output (w_checker W)) r1 else (False, r1))
      in if \<not> ret_checker then (False, True, min (limit - penalty) limit, r2)
         else let x = w_create W limit;
                  (okr, r3) = execute_process x r2;
                  parsed = (if okr then ParseCreateContract (sc_ledger X) (run_output x) limit r3 else Some (False, limit, r3))
              in case parsed of
                   None \<Rightarrow> (True, False, limit, r3)
                 | Some (ret, g, r4) \<Rightarrow> (True, ret, if ret then g else min (limit - penalty) g, r4))"

text \<open>The refund, the removal of a contract that failed, the transfer of the amount and the receipt.\<close>

definition settle_create ::
    "'s store_vt \<Rightarrow> ledger_env \<Rightarrow> 'pt TransactionCoreInfo \<Rightarrow> Address \<Rightarrow> Address \<Rightarrow> bool \<Rightarrow> bool \<Rightarrow> bool \<Rightarrow> 64 word
     \<Rightarrow> event TransactionReceipt \<Rightarrow> ('s, 'd) SC \<Rightarrow> ('s, 'd) update_result" where
  "settle_create V E tx fromAddr created validToTransferBalance ret_checker ret g r S =
     (let T = this_vt V
      in case USafe_mul (SafeMath128 E) (ucast g) (tx_gasPrice tx) 0 of
           (False, _) \<Rightarrow> Some (False, r, RemoveAccount T created S)
         | (True, gasRefund) \<Rightarrow>
             (case IncreaseBalance T E fromAddr gasRefund S of
                (False, S6) \<Rightarrow> None
              | (True, S6) \<Rightarrow>
                  if \<not> ret \<or> \<not> ret_checker
                  then let S7 = vt_update T (AList.delete created) S6;
                           r2 = SetResult False r;
                           r3 = (if \<not> ret then AddError RUNNER_FAILED r2 else r2);
                           r4 = (if \<not> ret_checker then AddError CHECKER_FAILED r3 else r3)
                       in end_failed V E fromAddr created True (SetCumGas (tx_gasLimit tx - g) r4) S7
                  else if tx_gasLimit tx < g then Some (False, r, S6)
                  else do {
                    (moved, S7) \<leftarrow> (if validToTransferBalance
                                     then TransferBalance T E fromAddr created (tx_amount tx) S6 else Some (True, S6));
                    (if \<not> moved
                     then end_failed V E fromAddr created True
                            (SetCumGas (tx_gasLimit tx - g) (AddError BALANCE_TRANSFER_FAILED (SetResult False r))) S7
                     else let r2 = SetCumGas (tx_gasLimit tx - g) r
                          in case IncreaseNonce T E fromAddr S7 of
                               (False, S8) \<Rightarrow> Some (False, r2, S8)
                             | (True, S8) \<Rightarrow> Some (True, SetResult True r2, S8)) }))"

definition UpdateAccounts_create ::
    "'s store_vt \<Rightarrow> ('d, 'pt) sc_env \<Rightarrow> 'd scilla_world \<Rightarrow> nat \<Rightarrow> 'pt TransactionCoreInfo \<Rightarrow> 128 word \<Rightarrow> bool
     \<Rightarrow> event TransactionReceipt \<Rightarrow> ('s, 'd) SC \<Rightarrow> ('s, 'd) update_result" where
  "UpdateAccounts_create V X W blockNum tx gasDeposit temp r S =
     (let E = sc_ledger X; T = this_vt V; fromAddr = GetSenderAddr (sc_ossl X) tx;
          penalty = gas_penalty (CONTRACT_CREATE_GAS E) (length (tx_code tx) + length (tx_data tx))
      in case vt_GetAccount T fromAddr S of
        (None, S1) \<Rightarrow> Some (False, r, S1)
      | (Some fromAccount, S1) \<Rightarrow>
          if tx_gasLimit tx < penalty then Some (False, r, S1)
          else if m_balance fromAccount < gasDeposit then Some (False, r, S1)
          else let validToTransferBalance = (\<not> m_balance fromAccount < gasDeposit + tx_amount tx)
          in do {
            created \<leftarrow> GetAddressForContract (sc_ossl X) fromAddr (m_nonce fromAccount);
            (case vt_GetAccount T created (AddAccount T created (Account_new 0 0 (ACCOUNT_VERSION E)) S1) of
               (None, S3) \<Rightarrow> Some (False, r, S3)
             | (Some toAccount, S3) \<Rightarrow> do {
                 (ok, acc', C') \<leftarrow> InitContract X W (tx_code tx) (tx_data tx) created blockNum temp toAccount (sc_storage S3);
                 let S4 = (write_account T created acc' S3)\<lparr>sc_storage := C', m_curBlockNum := blockNum\<rparr>;
                 let (initd, S5) = (if ok \<and> ExportCreateContractFiles W acc' C' then DecreaseBalance T E fromAddr gasDeposit S4
                                    else (False, S4));
                 (if \<not> initd then Some (False, r, RemoveAccount T created S5)
                  else let (ret_checker, ret, g, r1) = run_create X W (tx_gasLimit tx) penalty r
                       in settle_create V E tx fromAddr created validToTransferBalance ret_checker ret g r1 S5) }) })"

text \<open>Running the called contract and its chain. A chain that failed after another contract had been
  called has its temporary states restored.\<close>

definition run_call ::
    "'s store_vt \<Rightarrow> ('d, 'pt) sc_env \<Rightarrow> 'd scilla_world \<Rightarrow> 64 word \<Rightarrow> bool \<Rightarrow> event TransactionReceipt \<Rightarrow> ('s, 'd) SC
     \<Rightarrow> (bool \<times> 64 word \<times> event TransactionReceipt \<times> ('s, 'd) SC) option" where
  "run_call V X W limit temp r S =
     (let x = w_call W 0 limit
      in case execute_process x r of
           (False, r1) \<Rightarrow> Some (False, limit, r1, S)
         | (True, r1) \<Rightarrow> do {
             (ok, g, r2, S1) \<leftarrow> ParseCallContract V X W temp (run_output x) limit r1 S;
             Some (ok, g, r2, if \<not> ok \<and> 0 < m_curDepth S1 then S1\<lparr>sc_storage := RevertPrevState (sc_storage S1)\<rparr> else S1) })"

text \<open>Committing or discarding the transfers, the refund and the receipt.\<close>

definition settle_call ::
    "'s store_vt \<Rightarrow> ledger_env \<Rightarrow> 'pt TransactionCoreInfo \<Rightarrow> Address \<Rightarrow> 64 word \<Rightarrow> bool \<Rightarrow> 64 word
     \<Rightarrow> event TransactionReceipt \<Rightarrow> ('s, 'd) SC \<Rightarrow> ('s, 'd) update_result" where
  "settle_call V E tx fromAddr penalty ret g r S =
     (let T = this_vt V;
          (g', S1) = (if ret then (g, CommitTransferAtomic V S)
                      else (min (tx_gasLimit tx - penalty) g, DiscardTransferAtomic S))
      in case USafe_mul (SafeMath128 E) (ucast g') (tx_gasPrice tx) 0 of
           (False, _) \<Rightarrow> Some (False, r, S1)
         | (True, gasRefund) \<Rightarrow>
             let S2 = snd (IncreaseBalance T E fromAddr gasRefund S1)
             in if tx_gasLimit tx < g' then Some (False, r, S2)
                else let r2 = SetCumGas (tx_gasLimit tx - g') r
                     in if \<not> ret then end_failed V E fromAddr 0 False (SetResult False r2) S2
                        else case IncreaseNonce T E fromAddr S2 of
                               (False, S3) \<Rightarrow> Some (False, r2, S3)
                             | (True, S3) \<Rightarrow> Some (True, SetResult True r2, S3))"

definition UpdateAccounts_call ::
    "'s store_vt \<Rightarrow> ('d, 'pt) sc_env \<Rightarrow> 'd scilla_world \<Rightarrow> nat \<Rightarrow> nat \<Rightarrow> 'pt TransactionCoreInfo \<Rightarrow> 128 word \<Rightarrow> bool
     \<Rightarrow> event TransactionReceipt \<Rightarrow> ('s, 'd) SC \<Rightarrow> ('s, 'd) update_result" where
  "UpdateAccounts_call V X W blockNum numShards tx gasDeposit temp r S =
     (let E = sc_ledger X; T = this_vt V; fromAddr = GetSenderAddr (sc_ossl X) tx;
          penalty = gas_penalty (CONTRACT_INVOKE_GAS E) (length (tx_data tx))
      in case vt_GetAccount T fromAddr S of
        (None, S1) \<Rightarrow> Some (False, r, S1)
      | (Some fromAccount, S1) \<Rightarrow>
          if tx_gasLimit tx < penalty then Some (False, r, S1)
          else if m_balance fromAccount < gasDeposit + tx_amount tx then Some (False, r, S1)
          else let S2 = S1\<lparr>m_curSenderAddr := fromAddr, m_curDepth := 0\<rparr>
          in case vt_GetAccount T (tx_toAddr tx) S2 of
               (None, S3) \<Rightarrow> Some (False, r, S3)
             | (Some toAccount, S3) \<Rightarrow>
                 let S4 = S3\<lparr>m_curBlockNum := blockNum\<rparr>
                 in if \<not> ExportCallContractFiles W 0 toAccount (sc_storage S4) then Some (False, r, S4)
                    else case DecreaseBalance T E fromAddr gasDeposit (DiscardTransferAtomic S4) of
                      (False, S5) \<Rightarrow> Some (False, r, S5)
                    | (True, S5) \<Rightarrow> do {
                        let S6 = S5\<lparr>m_curGasLimit := tx_gasLimit tx, m_curGasPrice := tx_gasPrice tx,
                                    m_curContractAddr := tx_toAddr tx, m_curAmount := tx_amount tx, m_curNumShards := numShards\<rparr>;
                        (ret, g, r2, S7) \<leftarrow> run_call V X W (tx_gasLimit tx) temp r S6;
                        settle_call V E tx fromAddr penalty ret g r2 S7 })"

definition UpdateAccounts ::
    "'s store_vt \<Rightarrow> ('d, 'pt) sc_env \<Rightarrow> 'd scilla_world \<Rightarrow> nat \<Rightarrow> nat \<Rightarrow> bool \<Rightarrow> 'pt TransactionCoreInfo \<Rightarrow> bool
     \<Rightarrow> event TransactionReceipt \<Rightarrow> ('s, 'd) SC \<Rightarrow> ('s, 'd) update_result" where
  "UpdateAccounts V X W blockNum numShards isDS tx temp r S =
     (let S0 = S\<lparr>m_curIsDS := isDS\<rparr>
      in case USafe_mul (SafeMath128 (sc_ledger X)) (ucast (tx_gasLimit tx)) (tx_gasPrice tx) 0 of
           (False, _) \<Rightarrow> Some (False, r, S0)
         | (True, gasDeposit) \<Rightarrow>
             (case GetTransactionType tx of
                NON_CONTRACT \<Rightarrow>
                  (case vt_GetAccount (this_vt V) (tx_toAddr tx) S0 of
                     (Some toAccount, S1) \<Rightarrow>
                       if isContract toAccount then Some (False, r, S1)
                       else UpdateAccounts_base (this_vt V) (sc_ledger X) (sc_ossl X) tx r S1
                   | (None, S1) \<Rightarrow> UpdateAccounts_base (this_vt V) (sc_ledger X) (sc_ossl X) tx r S1)
              | CONTRACT_CREATION \<Rightarrow> UpdateAccounts_create V X W blockNum tx gasDeposit temp r S0
              | CONTRACT_CALL \<Rightarrow> UpdateAccounts_call V X W blockNum numShards tx gasDeposit temp r S0
              | ERROR \<Rightarrow> Some (False, r, S0)))"

definition AccountStoreSC_Init :: "('s \<Rightarrow> 's) \<Rightarrow> ('s, 'd) SC \<Rightarrow> ('s, 'd) SC" where
  "AccountStoreSC_Init base_init S =
     S\<lparr>sc_store := base_init (sc_store S), m_curContractAddr := 0, m_curSenderAddr := 0, m_curAmount := 0,
       m_curGasLimit := 0, m_curGasPrice := 0\<rparr>"

end
