(* ===== verification/AccountSafety.thy ===== *)
theory AccountSafety
  imports AccountStoreSC
begin

text \<open>
  What a transaction does to the ledger, for every account store: the laws of the atomic store, the
  invariant of a chain of contract calls, and the conservation of money by \<open>UpdateAccounts\<close>.
\<close>

section \<open>The store and the atomic store as account stores\<close>

definition same_context :: "('s, 'd) SC \<Rightarrow> ('s, 'd) SC \<Rightarrow> bool" where
  "same_context S S' \<longleftrightarrow> m_curContractAddr S' = m_curContractAddr S \<and> m_curSenderAddr S' = m_curSenderAddr S
     \<and> m_curAmount S' = m_curAmount S \<and> m_curDepth S' = m_curDepth S \<and> m_curIsDS S' = m_curIsDS S
     \<and> m_curNumShards S' = m_curNumShards S"

text \<open>What operations on the store leave alone, and what operations on its atomic store leave alone.\<close>

definition this_frame :: "('s, 'd) SC \<Rightarrow> ('s, 'd) SC \<Rightarrow> bool" where
  "this_frame S S' \<longleftrightarrow> same_context S S' \<and> sc_storage S' = sc_storage S \<and> sc_atomic S' = sc_atomic S"

definition atomic_frame :: "(('s, 'd) SC \<Rightarrow> ledger) \<Rightarrow> ('s, 'd) SC \<Rightarrow> ('s, 'd) SC \<Rightarrow> bool" where
  "atomic_frame view S S' \<longleftrightarrow> same_context S S' \<and> sc_storage S' = sc_storage S
     \<and> view S' = view S
     \<and> (distinct (map fst (sc_atomic S)) \<longrightarrow> distinct (map fst (sc_atomic S')))
     \<and> dom (map_of (sc_atomic S)) \<subseteq> dom (map_of (sc_atomic S'))"

lemma same_context_refl [simp]: "same_context S S"
  by (simp add: same_context_def)

lemma map_of_map_insert: "map_of (map_insert a acc m) = (if map_of m a = None then (map_of m)(a \<mapsto> acc) else map_of m)"
  by (auto simp: map_insert_def map_of_append fun_eq_iff map_add_def split: option.splits)

lemma distinct_map_insert [simp]: "distinct (map fst m) \<Longrightarrow> distinct (map fst (map_insert a acc m))"
  by (auto simp: map_insert_def map_of_eq_None_iff)

text \<open>The effect of a transaction on a ledger: one that is executed burns its fee and raises the nonce of
  the sender by one, no other nonce changes; one that is refused changes nothing.\<close>

definition tx_effect :: "Address \<Rightarrow> 'pt TransactionCoreInfo \<Rightarrow> bool \<Rightarrow> 'ev TransactionReceipt \<Rightarrow> ledger \<Rightarrow> ledger \<Rightarrow> bool" where
  "tx_effect src tx ok r v v' \<longleftrightarrow>
     (if ok
      then total_balance v' + gas_cost (r_cumGas r) tx = total_balance v \<and> r_cumGas r \<le> tx_gasLimit tx
           \<and> nonce_of v' src = nonce_of v src + 1 \<and> (\<forall>a. a \<noteq> src \<longrightarrow> nonce_of v' a = nonce_of v a)
      else v' = v)"

lemma gas_cost_diff: "g \<le> limit \<Longrightarrow> gas_cost (limit - g) tx + gas_cost g tx = gas_cost limit tx"
  by (simp add: gas_cost_def unat_sub word_le_nat_alt diff_mult_distrib)

lemma receipt_cumGas [simp]:
  "r_cumGas (SetCumGas g r) = g" "r_cumGas (SetResult b r) = r_cumGas r" "r_cumGas (AddError e r) = r_cumGas r"
  "r_cumGas (AddDepth r) = r_cumGas r"
  by (simp_all add: receipt_defs)

text \<open>The address of a new contract holds no account yet.\<close>

definition fresh_address :: "('d, 'pt) sc_env \<Rightarrow> 'pt TransactionCoreInfo \<Rightarrow> ledger \<Rightarrow> bool" where
  "fresh_address X tx v \<longleftrightarrow> (\<forall>acc c. v (GetSenderAddr (sc_ossl X) tx) = Some acc
     \<and> GetAddressForContract (sc_ossl X) (GetSenderAddr (sc_ossl X) tx) (m_nonce acc) = Some c \<longrightarrow> v c = None)"

locale contract_store = account_store V view below
  for V :: "'s store_vt" and view :: "'s \<Rightarrow> ledger" and below :: "'s \<Rightarrow> ledger" +
  fixes X :: "('d, 'pt) sc_env"
begin

definition tv :: "('s, 'd) SC \<Rightarrow> ledger" where
  "tv S = view (sc_store S)"

definition av :: "('s, 'd) SC \<Rightarrow> ledger" where
  "av S = view (sc_store S) ++ map_of (sc_atomic S)"

lemma this_store:
  "account_store (this_vt V :: ('s, 'd) SC store_vt) tv (\<lambda>S. below (sc_store S))"
proof
  show "r = tv S a \<and> tv S' = tv S \<and> below (sc_store S') = below (sc_store S)"
    if "vt_GetAccount (this_vt V) a S = (r, S')" for a and S S' :: "('s, 'd) SC" and r
    using that get_view [of a "sc_store S"] by (auto simp: this_vt_def tv_def split: prod.splits)
qed (simp_all add: this_vt_def tv_def write_view insert_view erase_view update_below none_below)

sublocale this: account_store "this_vt V :: ('s, 'd) SC store_vt" tv "\<lambda>S. below (sc_store S)"
  by (rule this_store)

lemma this_GetAccount_frame: "vt_GetAccount (this_vt V) a S = (r, S') \<Longrightarrow> this_frame S S'"
  by (auto simp: this_vt_def this_frame_def same_context_def split: prod.splits)

lemma atomic_GetAccount_found:
  "map_of (sc_atomic S) a = Some acc \<Longrightarrow> AccountStoreAtomic_GetAccount V a S = (Some acc, S)"
  by (simp add: AccountStoreAtomic_GetAccount_def)

lemma atomic_GetAccount_copied:
  fixes S :: "('s, 'd) SC"
  assumes "map_of (sc_atomic S) a = None"
  obtains S1 where "tv S1 = tv S" "this_frame S S1"
    "AccountStoreAtomic_GetAccount V a S
      = (tv S a, case tv S a of None \<Rightarrow> S1 | Some acc \<Rightarrow> S1\<lparr>sc_atomic := map_insert a acc (sc_atomic S)\<rparr>)"
proof -
  obtain S1 where g: "vt_GetAccount (this_vt V) a S = (tv S a, S1)" "tv S1 = tv S"
    using this.GetAccount_cases [of a S] by metis
  have f: "this_frame S S1" by (rule this_GetAccount_frame [OF g(1)])
  then have "sc_atomic S1 = sc_atomic S" by (simp add: this_frame_def)
  then show ?thesis using that [of S1] g f assms
    by (cases "tv S a") (simp_all add: AccountStoreAtomic_GetAccount_def)
qed

lemma atomic_store:
  "account_store (atomic_vt V :: ('s, 'd) SC store_vt) av tv"
proof
  show "r = av S a
      \<and> av S' = av S
      \<and> tv S' = tv S"
    if "vt_GetAccount (atomic_vt V) a S = (r, S')" for a and S S' :: "('s, 'd) SC" and r
  proof -
    have g: "AccountStoreAtomic_GetAccount V a S = (r, S')" using that by (simp add: atomic_vt_def)
    show ?thesis
    proof (cases "map_of (sc_atomic S) a")
      case (Some acc)
      then show ?thesis using g by (auto simp: atomic_GetAccount_found av_def map_add_def split: option.splits)
    next
      case None
      obtain S1 where S1: "tv S1 = tv S" "this_frame S S1"
        "AccountStoreAtomic_GetAccount V a S
          = (tv S a, case tv S a of None \<Rightarrow> S1 | Some acc \<Rightarrow> S1\<lparr>sc_atomic := map_insert a acc (sc_atomic S)\<rparr>)"
        using atomic_GetAccount_copied [OF None] .
      show ?thesis using S1 g None
        by (cases "tv S a")
          (auto simp: tv_def av_def map_add_def map_of_map_insert this_frame_def fun_eq_iff split: option.splits)
    qed
  qed
  show "av (vt_update (atomic_vt V) (AList.delete a) S) = (av S)(a := tv S a)" for a and S :: "('s, 'd) SC"
    by (auto simp: tv_def av_def atomic_vt_def delete_conv' map_add_def fun_eq_iff)
qed (auto simp: tv_def av_def atomic_vt_def update_conv' map_of_map_insert map_add_def fun_eq_iff split: option.splits)

sublocale atomic: account_store "atomic_vt V :: ('s, 'd) SC store_vt" av tv
  by (rule atomic_store)

sublocale thisf: store_frame "this_vt V :: ('s, 'd) SC store_vt" this_frame
proof
  show "this_frame S S'" if "vt_GetAccount (this_vt V) a S = (r, S')" for a r and S S' :: "('s, 'd) SC"
    using that by (rule this_GetAccount_frame)
qed (auto simp: this_frame_def same_context_def this_vt_def)

sublocale atomicf: store_frame "atomic_vt V :: ('s, 'd) SC store_vt" "atomic_frame tv"
proof
  show "atomic_frame tv S S'" if "vt_GetAccount (atomic_vt V) a S = (r, S')" for a r and S S' :: "('s, 'd) SC"
  proof -
    have g: "AccountStoreAtomic_GetAccount V a S = (r, S')" using that by (simp add: atomic_vt_def)
    show ?thesis
    proof (cases "map_of (sc_atomic S) a")
      case (Some acc)
      then show ?thesis using g by (simp add: atomic_GetAccount_found atomic_frame_def)
    next
      case None
      obtain S1 where S1: "tv S1 = tv S" "this_frame S S1"
        "AccountStoreAtomic_GetAccount V a S
          = (tv S a, case tv S a of None \<Rightarrow> S1 | Some acc \<Rightarrow> S1\<lparr>sc_atomic := map_insert a acc (sc_atomic S)\<rparr>)"
        using atomic_GetAccount_copied [OF None] .
      show ?thesis using S1 g None
        by (cases "tv S a")
          (auto simp: atomic_frame_def tv_def this_frame_def same_context_def map_of_map_insert)
    qed
  qed
qed (auto simp: atomic_frame_def tv_def same_context_def atomic_vt_def update_conv' distinct_update map_of_map_insert)

section \<open>The invariant of a chain of calls\<close>

text \<open>During a chain the store keeps the balances \<open>v0\<close> it had at the start, while the atomic store moves them
  without creating any; nonces seen through the atomic store do not change.\<close>

definition chain_inv :: "ledger \<Rightarrow> ('s, 'd) SC \<Rightarrow> bool" where
  "chain_inv v0 S \<longleftrightarrow> distinct (map fst (sc_atomic S)) \<and> (\<forall>a. bal (tv S) a = bal v0 a)
     \<and> total_balance (av S) = total_balance v0 \<and> (\<forall>a. nonce_of (av S) a = nonce_of v0 a)
     \<and> (\<forall>a. v0 a \<noteq> None \<longrightarrow> tv S a \<noteq> None) \<and> (\<forall>a. av S a \<noteq> None \<longrightarrow> tv S a \<noteq> None)"

definition chain_step :: "('s, 'd) SC \<Rightarrow> ('s, 'd) SC \<Rightarrow> bool" where
  "chain_step S S' \<longleftrightarrow> dom (map_of (sc_atomic S)) \<subseteq> dom (map_of (sc_atomic S'))
     \<and> (\<forall>a. nonce_of (tv S') a = nonce_of (tv S) a) \<and> dom (tv S) \<subseteq> dom (tv S')
     \<and> m_curContractAddr S' = m_curContractAddr S \<and> m_curDepth S' = m_curDepth S"

lemma chain_step_refl [simp]: "chain_step S S"
  by (simp add: chain_step_def)

lemma chain_step_trans: "chain_step S T \<Longrightarrow> chain_step T U \<Longrightarrow> chain_step S U"
  unfolding chain_step_def using subset_trans by (intro conjI; simp; blast)

lemma chain_inv_cong:
  "sc_store S' = sc_store S \<Longrightarrow> sc_atomic S' = sc_atomic S \<Longrightarrow> chain_inv v0 S' = chain_inv v0 S"
  by (simp add: chain_inv_def tv_def av_def)

lemma chain_inv_bal: "chain_inv v0 S \<Longrightarrow> supply_fits v0 \<Longrightarrow> supply_fits (av S)"
  by (simp add: chain_inv_def supply_fits_def)

lemma atomic_frame_step: "atomic_frame tv S S' \<Longrightarrow> chain_step S S'"
  by (simp add: atomic_frame_def chain_step_def same_context_def)

lemma chain_inv_atomic:
  assumes "chain_inv v0 S" "atomic_frame tv S S'"
    and "total_balance (av S') = total_balance (av S)" "\<And>a. nonce_of (av S') a = nonce_of (av S) a"
    and "\<And>a. av S' a \<noteq> None \<Longrightarrow> av S a \<noteq> None"
  shows "chain_inv v0 S'"
proof -
  have "tv S' = tv S" "distinct (map fst (sc_atomic S'))" using assms(1,2) by (simp_all add: chain_inv_def atomic_frame_def)
  then show ?thesis using assms(1,3-5) by (simp add: chain_inv_def)
qed

lemma atomic_GetAccount_inv:
  fixes S :: "('s, 'd) SC"
  assumes "chain_inv v0 S" "vt_GetAccount (atomic_vt V) a S = (r, S')"
  shows "chain_inv v0 S'" "chain_step S S'" "r = av S a" "r \<noteq> None \<Longrightarrow> a \<in> dom (map_of (sc_atomic S'))"
    "av S' = av S" "tv S' = tv S" "same_context S S'"
proof -
  note g = atomic.get_view [OF assms(2)] and f = atomicf.frame_get [OF assms(2)]
  show "chain_inv v0 S'" using g by (intro chain_inv_atomic [OF assms(1) f]) simp_all
  show "chain_step S S'" by (rule atomic_frame_step [OF f])
  show "r = av S a" "av S' = av S" "tv S' = tv S" using g by simp_all
  show "same_context S S'" using f by (simp add: atomic_frame_def)
  have q: "AccountStoreAtomic_GetAccount V a S = (r, S')" using assms(2) by (simp add: atomic_vt_def)
  show "a \<in> dom (map_of (sc_atomic S'))" if "r \<noteq> None"
  proof (cases "map_of (sc_atomic S) a")
    case (Some acc)
    then have "S' = S" using q by (simp add: atomic_GetAccount_found)
    then show ?thesis using Some by blast
  next
    case None
    then show ?thesis using q that
      by (rule_tac atomic_GetAccount_copied [OF None]) (auto simp: map_of_map_insert split: option.splits)
  qed
qed

lemma atomic_transfer_inv:
  fixes S :: "('s, 'd) SC"
  assumes "ledger_env_ok E" "supply_fits v0" "chain_inv v0 S" "av S dst \<noteq> None"
    and "TransferBalanceAtomic V E src dst d S = Some (ok, S')"
  shows "chain_inv v0 S'" "chain_step S S'" "same_context S S'" "tv S' = tv S"
proof -
  have run: "TransferBalance (atomic_vt V) E src dst d S = Some (ok, S')"
    using assms(5) by (simp add: TransferBalanceAtomic_def)
  have f: "atomic_frame tv S S'" by (rule atomicf.frame_TransferBalance [OF run])
  have sup: "supply_fits (av S)" using assms(2,3) by (rule chain_inv_bal [rotated])
  show "chain_step S S'" by (rule atomic_frame_step [OF f])
  show "same_context S S'" "tv S' = tv S" using f by (simp_all add: atomic_frame_def)
  show "chain_inv v0 S'"
  proof (cases "unat d \<le> bal (av S) src")
    case True
    have av: "av S' = credit E dst d (debit src d (av S))"
      using atomic.TransferBalance_covered [OF assms(1) sup True] run by (metis option.inject prod.inject)
    have "total_balance (av S') = total_balance (av S)"
      unfolding av by (rule this.TransferBalance_total [OF sup True])
    moreover have "nonce_of (av S') a = nonce_of (av S) a" for a unfolding av by simp
    moreover have "av S a \<noteq> None" if "av S' a \<noteq> None" for a
      using that assms(4) debit_exists [of src d "av S" a] unfolding av credit_def by (auto split: if_splits simp del: debit_exists)
    ultimately show ?thesis by (intro chain_inv_atomic [OF assms(3) f])
  next
    case False
    have "av S' = av S"
      using atomic.TransferBalance_uncovered [OF assms(1) False] run by (metis option.inject prod.inject)
    then show ?thesis by (intro chain_inv_atomic [OF assms(3) f]) simp_all
  qed
qed

text \<open>A chain step together with the invariant.\<close>

definition chain_ok :: "ledger \<Rightarrow> ('s, 'd) SC \<Rightarrow> ('s, 'd) SC \<Rightarrow> bool" where
  "chain_ok v0 S S' \<longleftrightarrow> chain_inv v0 S' \<and> chain_step S S'"

lemma chain_ok_trans: "chain_step S T \<Longrightarrow> chain_ok v0 T U \<Longrightarrow> chain_ok v0 S U"
  using chain_step_trans by (auto simp: chain_ok_def)

lemma accept_amount_inv:
  fixes S :: "('s, 'd) SC"
  assumes "ledger_env_ok (sc_ledger X)" "supply_fits v0" "chain_inv v0 S" "tv S (m_curContractAddr S) \<noteq> None"
    and "accept_amount V X accepted r S = Some (ok, r', S')"
  shows "chain_ok v0 S S'" "ok \<Longrightarrow> m_curContractAddr S \<in> dom (map_of (sc_atomic S'))"
proof -
  have dst: "av S (m_curContractAddr S) \<noteq> None" using assms(4) by (auto simp: av_def tv_def)
  obtain ok1 S1 where m: "(if accepted then TransferBalanceAtomic V (sc_ledger X) (m_curSenderAddr S) (m_curContractAddr S) (m_curAmount S) S
      else Some (True, S)) = Some (ok1, S1)"
    using assms(5) by (auto simp: accept_amount_def split: bind_splits if_splits)
  have 1: "chain_inv v0 S1" "chain_step S S1" "m_curContractAddr S1 = m_curContractAddr S"
    using m atomic_transfer_inv [OF assms(1-3) dst] assms(3) by (auto simp: same_context_def split: if_splits)
  obtain q S2 where g: "vt_GetAccount (atomic_vt V) (m_curContractAddr S1) S1 = (q, S2)" by fastforce
  note 2 = atomic_GetAccount_inv [OF 1(1) g]
  have "S' = S1 \<and> \<not> ok \<or> S' = S2 \<and> (ok \<longrightarrow> q \<noteq> None)"
    using assms(5) m g by (auto simp: accept_amount_def split: if_splits option.splits)
  then show "chain_ok v0 S S'" "ok \<Longrightarrow> m_curContractAddr S \<in> dom (map_of (sc_atomic S'))"
    using 1 2 chain_step_trans [OF 1(2) 2(2)] by (auto simp: chain_ok_def)
qed

text \<open>A new account without money in the store, for a recipient that neither store has.\<close>

lemma AddAccount_zero_inv:
  fixes S :: "('s, 'd) SC"
  assumes "chain_inv v0 S" "av S a = None"
  shows "chain_ok v0 S (AddAccount (this_vt V) a (Account_new 0 0 ver) S)" (is "chain_ok v0 S ?S'")
    and "tv (AddAccount (this_vt V) a (Account_new 0 0 ver) S) a \<noteq> None"
proof -
  have n: "tv S a = None" using assms(2) by (simp add: av_def tv_def map_add_None)
  have t: "tv ?S' = (tv S)(a \<mapsto> Account_new 0 0 ver)" using n by (simp add: this.AddAccount_view)
  have f: "this_frame S ?S'" by (rule thisf.frame_AddAccount)
  have m: "map_of (sc_atomic S) a = None" using assms(2) by (simp add: av_def map_add_None)
  have av: "av ?S' = (av S)(a \<mapsto> Account_new 0 0 ver)"
    using t f m by (auto simp: av_def tv_def this_frame_def map_add_def fun_eq_iff split: option.splits)
  have b: "bal (w(a \<mapsto> Account_new 0 0 ver)) = bal w" "nonce_of (w(a \<mapsto> Account_new 0 0 ver)) = nonce_of w"
    if "w a = None" for w using that by (auto simp: bal_def nonce_of_def Account_new_def fun_eq_iff)
  have eqs: "bal (tv ?S') = bal (tv S)" "nonce_of (tv ?S') = nonce_of (tv S)" "bal (av ?S') = bal (av S)" "nonce_of (av ?S') = nonce_of (av S)"
    unfolding t av using b [of "tv S"] b [of "av S"] n assms(2) by simp_all
  have tot: "total_balance (av ?S') = total_balance (av S)" by (simp only: total_balance_def eqs)
  show "tv ?S' a \<noteq> None" using t by simp
  have "chain_inv v0 ?S'" using assms(1) f eqs tot by (auto simp: chain_inv_def this_frame_def t av)
  moreover have "chain_step S ?S'" using f eqs by (auto simp: chain_step_def this_frame_def same_context_def t)
  ultimately show "chain_ok v0 S ?S'" by (simp add: chain_ok_def)
qed

lemma fetch_recipient_inv:
  fixes S :: "('s, 'd) SC"
  assumes "chain_inv v0 S"
  shows "chain_ok v0 S (fetch_recipient V E rcp S)" "tv (fetch_recipient V E rcp S) rcp \<noteq> None"
proof -
  obtain q S2 where g: "vt_GetAccount (atomic_vt V) rcp S = (q, S2)" by fastforce
  note 2 = atomic_GetAccount_inv [OF assms g]
  let ?S' = "AddAccount (this_vt V) rcp (Account_new 0 0 (ACCOUNT_VERSION E)) S2"
  have "chain_ok v0 S (fetch_recipient V E rcp S) \<and> tv (fetch_recipient V E rcp S) rcp \<noteq> None"
  proof (cases q)
    case (Some acc)
    then show ?thesis using 2 g by (auto simp: fetch_recipient_def chain_ok_def chain_inv_def)
  next
    case None
    have a: "chain_ok v0 S2 ?S'" "tv ?S' rcp \<noteq> None"
      using AddAccount_zero_inv [OF 2(1), of rcp] 2(3,5) None by auto
    have inv: "chain_inv v0 ?S'" using a by (simp add: chain_ok_def)
    obtain q' S4 where g': "vt_GetAccount (atomic_vt V) rcp ?S' = (q', S4)" by fastforce
    note 4 = atomic_GetAccount_inv [OF inv g']
    have "fetch_recipient V E rcp S = S4" using None g g' by (simp add: fetch_recipient_def)
    then show ?thesis
      using 4 a chain_step_trans [OF 2(2) chain_step_trans [of S2 ?S' S4]] by (simp add: chain_ok_def)
  qed
  then show "chain_ok v0 S (fetch_recipient V E rcp S)" "tv (fetch_recipient V E rcp S) rcp \<noteq> None" by blast+
qed

lemma handle_message_inv:
  fixes S :: "('s, 'd) SC"
  assumes "ledger_env_ok (sc_ledger X)" "supply_fits v0" "chain_inv v0 S" "handle_message V X msg r S = Some res"
  shows "res = Inl (r', S') \<Longrightarrow> chain_ok v0 S S'"
    and "res = Inr (ret, recipient, r', S') \<Longrightarrow> chain_ok v0 S S' \<and> (\<not> ret \<longrightarrow> tv S' recipient \<noteq> None)"
proof -
  have main: "(\<exists>r' S'. res = Inl (r', S') \<and> chain_ok v0 S S')
    \<or> (\<exists>ret rcp r' S'. res = Inr (ret, rcp, r', S') \<and> chain_ok v0 S S' \<and> (\<not> ret \<longrightarrow> tv S' rcp \<noteq> None))"
  proof (cases "\<exists>m amt rcp. msg = Msg m \<and> msg_amount m = Some (Some amt) \<and> msg_recipient m = Some rcp \<and> rcp \<noteq> 0")
    case False
    have up: "chain_ok v0 S (S\<lparr>m_curAmount := amt\<rparr>)" for amt
      using assms(3) by (simp add: chain_ok_def chain_step_def chain_inv_cong [of "S\<lparr>m_curAmount := amt\<rparr>" S] tv_def)
    show ?thesis
      using False assms(3,4) up
      by (auto simp: handle_message_def Let_def chain_ok_def split: message.splits option.splits bind_splits if_splits)
  next
    case True
    then obtain m amt rcp where m: "msg = Msg m" "msg_amount m = Some (Some amt)" "msg_recipient m = Some rcp" "rcp \<noteq> 0" by blast
    define S1 where "S1 = S\<lparr>m_curAmount := amt\<rparr>"
    have c1: "chain_inv v0 S1" "chain_step S S1"
      using assms(3) chain_inv_cong [of S1 S] by (simp_all add: S1_def chain_step_def tv_def)
    define S3 where "S3 = fetch_recipient V (sc_ledger X) rcp S1"
    have c3: "chain_ok v0 S1 S3" "tv S3 rcp \<noteq> None"
      unfolding S3_def by (rule fetch_recipient_inv [OF c1(1)])+
    have c3i: "chain_inv v0 S3" using c3 by (simp add: chain_ok_def)
    have s3: "chain_ok v0 S S3" by (rule chain_ok_trans [OF c1(2) c3(1)])
    have run: "handle_message V X msg r S = do {
        account \<leftarrow> map_of (sc_atomic S3) rcp;
        (if \<not> isContract account
         then do {
           (ok, S4) \<leftarrow> TransferBalanceAtomic V (sc_ledger X) (m_curContractAddr S3) rcp amt S3;
           (if \<not> ok then Some (Inl (AddError BALANCE_TRANSFER_FAILED r, S4))
            else map_option (\<lambda>tag_empty. Inr (True, rcp, r, S4)) (msg_tag_empty m)) }
         else map_option (\<lambda>tag_empty. Inr (tag_empty, rcp, r, S3)) (msg_tag_empty m)) }"
      unfolding S3_def S1_def using m by (simp add: handle_message_def Let_def)
    have dst: "av S3 rcp \<noteq> None" using c3 by (auto simp: av_def tv_def)
    obtain account where acc: "map_of (sc_atomic S3) rcp = Some account"
      using assms(4) unfolding run by (cases "map_of (sc_atomic S3) rcp") simp_all
    show ?thesis
    proof (cases "isContract account")
      case True
      then show ?thesis using assms(4) s3 c3(2) acc unfolding run by auto
    next
      case False
      then obtain ok S4 where t: "TransferBalanceAtomic V (sc_ledger X) (m_curContractAddr S3) rcp amt S3 = Some (ok, S4)"
        using assms(4) acc unfolding run by (auto split: bind_splits)
      have "chain_ok v0 S3 S4" using atomic_transfer_inv [OF assms(1,2) c3i dst t] by (simp add: chain_ok_def)
      moreover have "chain_step S S3" using s3 by (simp add: chain_ok_def)
      ultimately have "chain_ok v0 S S4" by (rule chain_ok_trans [rotated])
      then show ?thesis using assms(4) acc False t unfolding run by (auto split: if_splits)
    qed
  qed
  show "res = Inl (r', S') \<Longrightarrow> chain_ok v0 S S'" using main by auto
  show "res = Inr (ret, recipient, r', S') \<Longrightarrow> chain_ok v0 S S' \<and> (\<not> ret \<longrightarrow> tv S' recipient \<noteq> None)" using main by auto
qed

lemma Account_SetStorage_money:
  "Account_SetStorage X entries temp acc C = Some (ok, acc', C') \<Longrightarrow> m_balance acc' = m_balance acc \<and> m_nonce acc' = m_nonce acc"
  by (auto simp: Account_SetStorage_def split: bind_splits if_splits)

lemma set_contract_storage_inv:
  fixes S :: "('s, 'd) SC"
  assumes "chain_inv v0 S" "set_contract_storage X entries temp S = Some (ok, S')"
  shows "chain_ok v0 S S'"
proof -
  let ?c = "m_curContractAddr S"
  obtain acc acc' C' where a: "map_of (sc_atomic S) ?c = Some acc"
    "Account_SetStorage X entries temp acc (sc_storage S) = Some (ok, acc', C')"
    "S' = S\<lparr>sc_atomic := AList.update ?c acc' (sc_atomic S), sc_storage := C'\<rparr>"
    using assms(2) by (auto simp: set_contract_storage_def split: bind_splits)
  have av: "av S ?c = Some acc" "av S' = (av S)(?c \<mapsto> acc')" "tv S' = tv S"
    using a by (auto simp: av_def tv_def update_conv' map_add_def fun_eq_iff)
  have eqs: "bal (av S') = bal (av S)" "nonce_of (av S') = nonce_of (av S)"
    using av Account_SetStorage_money [OF a(2)] by (auto simp: fun_eq_iff bal_def nonce_of_def)
  have "total_balance (av S') = total_balance (av S)" by (simp only: total_balance_def eqs)
  then have "chain_inv v0 S'"
    using assms(1) eqs av a(1,3) by (auto simp: chain_inv_def distinct_update)
  moreover have "chain_step S S'" using a av by (auto simp: chain_step_def update_conv')
  ultimately show ?thesis by (simp add: chain_ok_def)
qed

lemma finish_level_inv:
  fixes S :: "('s, 'd) SC"
  assumes "chain_inv v0 S" "finish_level X W first temp entries ret recipient g r S = Some st"
  shows "st = Ended ok g' r' S' \<Longrightarrow> g' = g \<and> chain_inv v0 S' \<and> (\<forall>a. nonce_of (tv S') a = nonce_of (tv S) a)
      \<and> dom (map_of (sc_atomic S)) \<subseteq> dom (map_of (sc_atomic S')) \<and> dom (tv S) \<subseteq> dom (tv S')"
    and "st = CallNext rcp g' r' S' \<Longrightarrow> g' = g \<and> rcp = recipient \<and> \<not> ret \<and> m_curDepth S' = m_curDepth S + 1
      \<and> m_curDepth S' \<le> MAX_CONTRACT_DEPTH (sc_ledger X) \<and> chain_ok v0 (S\<lparr>m_curDepth := m_curDepth S + 1\<rparr>) S'"
proof -
  let ?S0 = "if first \<and> \<not> ret then S\<lparr>sc_storage := BufferCurrentState (sc_storage S)\<rparr> else S"
  obtain ok1 S1 where S1: "set_contract_storage X entries temp ?S0 = Some (ok1, S1)"
    using assms(2) by (auto simp: finish_level_def split: if_splits bind_splits)
  have i0: "chain_inv v0 ?S0" using assms(1) chain_inv_cong [of ?S0 S] by simp
  have 1: "chain_inv v0 S1" "chain_step ?S0 S1" using set_contract_storage_inv [OF i0 S1] by (simp_all add: chain_ok_def)
  then have c: "dom (map_of (sc_atomic S)) \<subseteq> dom (map_of (sc_atomic S1))" "\<forall>a. nonce_of (tv S1) a = nonce_of (tv S) a"
    "dom (tv S) \<subseteq> dom (tv S1)" "m_curContractAddr S1 = m_curContractAddr S" "m_curDepth S1 = m_curDepth S"
    by (auto simp: chain_step_def tv_def split: if_splits)
  let ?S2 = "S1\<lparr>m_curDepth := m_curDepth S1 + 1\<rparr>"
  have 2: "chain_inv v0 ?S2" "tv ?S2 = tv S1" using 1 chain_inv_cong [of ?S2 S1] by (simp_all add: tv_def)
  have ends: "S' = S1 \<or> S' = ?S2" "g' = g" if "st = Ended ok g' r' S'"
    using assms(2) S1 that by (auto simp: finish_level_def Let_def split: if_splits bind_splits)
  show "st = Ended ok g' r' S' \<Longrightarrow> g' = g \<and> chain_inv v0 S' \<and> (\<forall>a. nonce_of (tv S') a = nonce_of (tv S) a)
      \<and> dom (map_of (sc_atomic S)) \<subseteq> dom (map_of (sc_atomic S')) \<and> dom (tv S) \<subseteq> dom (tv S')"
    using ends 1 2 c by auto
  have nxt: "S' = ?S2" "g' = g" "rcp = recipient" "\<not> ret" "\<not> MAX_CONTRACT_DEPTH (sc_ledger X) < m_curDepth S'"
    if "st = CallNext rcp g' r' S'"
    using assms(2) S1 that by (auto simp: finish_level_def Let_def split: if_splits bind_splits)
  show "st = CallNext rcp g' r' S' \<Longrightarrow> g' = g \<and> rcp = recipient \<and> \<not> ret \<and> m_curDepth S' = m_curDepth S + 1
      \<and> m_curDepth S' \<le> MAX_CONTRACT_DEPTH (sc_ledger X) \<and> chain_ok v0 (S\<lparr>m_curDepth := m_curDepth S + 1\<rparr>) S'"
    using nxt 2 c by (simp add: chain_ok_def chain_step_def tv_def)
qed

text \<open>The result of one level: the invariant, the gas and the nonces of the store.\<close>

definition level_result :: "ledger \<Rightarrow> 64 word \<Rightarrow> ('s, 'd) SC \<Rightarrow> ('s, 'd) SC next_step \<Rightarrow> bool" where
  "level_result v0 g S st \<longleftrightarrow>
     (case st of
        Ended ok g' r' S' \<Rightarrow> g' \<le> g \<and> chain_inv v0 S' \<and> (\<forall>a. nonce_of (tv S') a = nonce_of (tv S) a)
          \<and> dom (map_of (sc_atomic S)) \<subseteq> dom (map_of (sc_atomic S')) \<and> dom (tv S) \<subseteq> dom (tv S')
      | CallNext rcp g' r' S' \<Rightarrow> g' \<le> g \<and> chain_inv v0 S' \<and> (\<forall>a. nonce_of (tv S') a = nonce_of (tv S) a)
          \<and> dom (map_of (sc_atomic S)) \<subseteq> dom (map_of (sc_atomic S')) \<and> dom (tv S) \<subseteq> dom (tv S')
          \<and> m_curContractAddr S' \<in> dom (map_of (sc_atomic S')) \<and> tv S' (m_curContractAddr S') \<noteq> None \<and> tv S' rcp \<noteq> None
          \<and> m_curDepth S' = m_curDepth S + 1 \<and> m_curDepth S' \<le> MAX_CONTRACT_DEPTH (sc_ledger X))"

lemma level_ended:
  "chain_ok v0 S S' \<Longrightarrow> g' \<le> g \<Longrightarrow> level_result v0 g S (Ended ok g' r' S')"
  by (simp add: level_result_def chain_ok_def chain_step_def)

lemma call_level_accepted:
  fixes S :: "('s, 'd) SC"
  assumes "ledger_env_ok (sc_ledger X)" "supply_fits v0" "chain_inv v0 S" "tv S (m_curContractAddr S) \<noteq> None"
    and "accept_amount V X accepted r S = Some (True, r1, S1)" "g' \<le> g"
    and "handle_message V X msg r2 S1 = Some (Inr (ret, recipient, r3, S2))"
    and "finish_level X W first temp entries ret recipient g' r3 S2 = Some st"
  shows "level_result v0 g S st"
proof -
  note a = accept_amount_inv [OF assms(1-5)]
  have i1: "chain_inv v0 S1" "chain_step S S1" using a by (simp_all add: chain_ok_def)
  have b: "chain_ok v0 S1 S2" "\<not> ret \<longrightarrow> tv S2 recipient \<noteq> None"
    using handle_message_inv(2) [OF assms(1,2) i1(1) assms(7)] by auto
  have i2: "chain_inv v0 S2" "chain_step S S2" using b i1 chain_step_trans by (auto simp: chain_ok_def)
  have d: "m_curContractAddr S \<in> dom (map_of (sc_atomic S2))"
    using a(2) b(1) by (auto simp: chain_ok_def chain_step_def)
  note f = finish_level_inv [OF i2(1) assms(8)]
  show ?thesis
  proof (cases st)
    case (Ended ok g2 r' S')
    have q: "g2 = g'" "chain_inv v0 S'" "\<forall>a. nonce_of (tv S') a = nonce_of (tv S2) a"
      "dom (map_of (sc_atomic S2)) \<subseteq> dom (map_of (sc_atomic S'))" "dom (tv S2) \<subseteq> dom (tv S')"
      using f(1) [OF Ended] by blast+
    have "dom (map_of (sc_atomic S)) \<subseteq> dom (map_of (sc_atomic S'))" "dom (tv S) \<subseteq> dom (tv S')"
      using i2(2) q(4,5) unfolding chain_step_def by blast+
    then show ?thesis using Ended q i2(2) assms(6) by (simp add: level_result_def chain_step_def)
  next
    case (CallNext rcp g2 r' S')
    have q: "g2 = g'" "rcp = recipient" "\<not> ret" "m_curDepth S' = m_curDepth S2 + 1"
      "m_curDepth S' \<le> MAX_CONTRACT_DEPTH (sc_ledger X)" "chain_inv v0 S'" "m_curContractAddr S' = m_curContractAddr S2"
      "\<forall>a. nonce_of (tv S') a = nonce_of (tv S2) a" "dom (map_of (sc_atomic S2)) \<subseteq> dom (map_of (sc_atomic S'))"
      "dom (tv S2) \<subseteq> dom (tv S')"
      using f(2) [OF CallNext] by (simp_all add: chain_ok_def chain_step_def tv_def)
    have r: "dom (map_of (sc_atomic S)) \<subseteq> dom (map_of (sc_atomic S'))" "dom (tv S) \<subseteq> dom (tv S')"
      "m_curContractAddr S' = m_curContractAddr S" "m_curDepth S' = m_curDepth S + 1"
      using i2(2) q unfolding chain_step_def by (blast, blast, simp, simp)
    have "tv S' rcp \<noteq> None" using b(2) q(2,3,10) by auto
    moreover have "tv S' (m_curContractAddr S') \<noteq> None" using assms(4) r by auto
    moreover have "m_curContractAddr S' \<in> dom (map_of (sc_atomic S'))" using d q(9) r(3) by auto
    ultimately show ?thesis using CallNext q r i2(2) assms(6) by (simp add: level_result_def chain_step_def)
  qed
qed

lemma call_level_inv:
  fixes S :: "('s, 'd) SC"
  assumes "ledger_env_ok (sc_ledger X)" "supply_fits v0" "chain_inv v0 S" "tv S (m_curContractAddr S) \<noteq> None"
    and run: "call_level V X W first temp j g r S = Some st"
  shows "level_result v0 g S st"
proof -
  have same: "chain_ok v0 S S" using assms(3) by (simp add: chain_ok_def)
  show ?thesis
  proof (cases "cl_gas j")
    case GasMissing
    have "(if ucast (CONTRACT_INVOKE_GAS (sc_ledger X)) < g then g - ucast (CONTRACT_INVOKE_GAS (sc_ledger X)) else 0) \<le> g"
      by (simp add: word_sub_le)
    then show ?thesis using run GasMissing level_ended [OF same] by (auto simp: call_level_def)
  next
    case GasNotNumeric
    then show ?thesis using run level_ended [OF same] by (auto simp: call_level_def)
  next
    case GasThrows
    then show ?thesis using run by (simp add: call_level_def)
  next
    case (GasValue x)
    let ?g = "min g x"
    have g: "?g \<le> g" by simp
    show ?thesis
    proof (cases "cl_has_message_states_events j \<and> (\<exists>accepted. cl_accepted j = Accepted accepted)")
      case False
      then show ?thesis using run GasValue level_ended [OF same g]
        by (auto simp: call_level_def Let_def split: if_splits accepted_field.splits)
    next
      case True
      then obtain accepted where acc: "cl_has_message_states_events j" "cl_accepted j = Accepted accepted" by blast
      obtain ok r1 S1 where a: "accept_amount V X accepted r S = Some (ok, r1, S1)"
        using run GasValue acc by (auto simp: call_level_def Let_def split: bind_splits)
      have e1: "chain_ok v0 S S1" by (rule accept_amount_inv [OF assms(1-4) a])
      have i1: "chain_inv v0 S1" "chain_step S S1" using e1 by (simp_all add: chain_ok_def)
      obtain okev r2 where ev: "install_events (cl_events j) r1 = (okev, r2)" by fastforce
      show ?thesis
      proof (cases "ok \<and> (\<exists>es. call_entries (cl_states j) = Inr es) \<and> okev")
        case False
        then show ?thesis using run GasValue acc a ev level_ended [OF e1 g]
          by (auto simp: call_level_def Let_def split: if_splits sum.splits)
      next
        case True
        then obtain es where es: "ok" "call_entries (cl_states j) = Inr es" "okev" by blast
        have eq: "call_level V X W first temp j g r S = do {
            res \<leftarrow> handle_message V X (cl_message j) r2 S1;
            (case res of
               Inl (r3, S2) \<Rightarrow> Some (Ended False ?g r3 S2)
             | Inr (ret, recipient, r3, S2) \<Rightarrow> finish_level X W first temp es ret recipient ?g r3 S2) }"
          using GasValue acc a es ev by (simp add: call_level_def Let_def)
        obtain res where res: "handle_message V X (cl_message j) r2 S1 = Some res"
          using run unfolding eq by (auto split: bind_splits)
        show ?thesis
        proof (cases res)
          case (Inl p)
          then obtain r3 S2 where p: "res = Inl (r3, S2)" by (cases p) auto
          have "chain_ok v0 S S2"
            using chain_ok_trans [OF i1(2)] handle_message_inv(1) [OF assms(1,2) i1(1) res p] by blast
          then show ?thesis using run level_ended [OF _ g] res p unfolding eq by auto
        next
          case (Inr p)
          then obtain ret recipient r3 S2 where p: "res = Inr (ret, recipient, r3, S2)" by (cases p) auto
          have fin: "finish_level X W first temp es ret recipient ?g r3 S2 = Some st"
            using run res p unfolding eq by simp
          show ?thesis
            by (rule call_level_accepted [OF assms(1-4) _ g _ fin, of accepted r r1 S1 "cl_message j" r2]) (use a es res p in auto)
        qed
      qed
    qed
  qed
qed

text \<open>A chain of calls keeps the invariant. When it fails no nonce of the store has changed.\<close>

definition chain_pre :: "ledger \<Rightarrow> nat \<Rightarrow> ('s, 'd) SC \<Rightarrow> bool" where
  "chain_pre v0 n S \<longleftrightarrow> chain_inv v0 S \<and> tv S (m_curContractAddr S) \<noteq> None
     \<and> m_curDepth S + n = MAX_CONTRACT_DEPTH (sc_ledger X) + 1 \<and> (\<forall>a. nonce_of (tv S) a + n < 2 ^ 64)"

lemma chain_pre_next:
  assumes "chain_pre v0 (Suc n) S" "level_result v0 g S (CallNext rcp g' r' S')"
  shows "chain_pre v0 n (S'\<lparr>m_curSenderAddr := m_curContractAddr S', m_curContractAddr := rcp\<rparr>)"
proof -
  let ?S = "S'\<lparr>m_curSenderAddr := m_curContractAddr S', m_curContractAddr := rcp\<rparr>"
  have "tv ?S = tv S'" "chain_inv v0 ?S = chain_inv v0 S'" by (simp add: tv_def) (rule chain_inv_cong, simp_all)
  moreover have "nonce_of (tv S') a + n < 2 ^ 64" for a
  proof -
    have "nonce_of (tv S) a + Suc n < 2 ^ 64" using assms(1) unfolding chain_pre_def by blast
    moreover have "nonce_of (tv S') a = nonce_of (tv S) a" using assms(2) by (simp add: level_result_def)
    ultimately show ?thesis by linarith
  qed
  ultimately show ?thesis using assms by (simp add: chain_pre_def level_result_def)
qed

lemma IncreaseNonce_shadowed:
  fixes S :: "('s, 'd) SC"
  assumes "ledger_env_ok E" "chain_inv v0 S" "c \<in> dom (map_of (sc_atomic S))" "tv S c \<noteq> None" "nonce_of (tv S) c + 1 < 2 ^ 64"
  obtains S' where "IncreaseNonce (this_vt V) E c S = (True, S')" "chain_inv v0 S'" "sc_atomic S' = sc_atomic S"
    "tv S' = bump_nonce c (tv S)"
proof -
  obtain S' where S': "IncreaseNonce (this_vt V) E c S = (True, S')" "tv S' = bump_nonce c (tv S)"
    using this.IncreaseNonce_fits [OF assms(1,4,5)] by metis
  have f: "sc_atomic S' = sc_atomic S" using thisf.frame_IncreaseNonce [OF S'(1)] by (simp add: this_frame_def)
  have b: "tv S' a = None \<longleftrightarrow> tv S a = None" for a unfolding S' by (auto simp: bump_nonce_def split: option.splits)
  have "av S' = av S"
  proof
    fix a
    have "tv S' a = tv S a" if "a \<noteq> c" using that unfolding S' by (simp add: bump_nonce_def split: option.splits)
    then show "av S' a = av S a" using assms(3) f
      by (cases "a = c") (auto simp: av_def tv_def map_add_def split: option.splits)
  qed
  moreover have "bal (tv S') a = bal (tv S) a" for a unfolding S' by simp
  ultimately have "chain_inv v0 S'" using assms(2) f b by (simp add: chain_inv_def)
  then show ?thesis using that S' f by blast
qed

lemma call_chain_inv:
  fixes S :: "('s, 'd) SC"
  assumes "ledger_env_ok (sc_ledger X)" "supply_fits v0"
  shows "chain_pre v0 n S \<Longrightarrow> call_chain n V X W first temp out g r S = Some (ok, g', r', S') \<Longrightarrow>
    chain_inv v0 S' \<and> g' \<le> g \<and> dom (map_of (sc_atomic S)) \<subseteq> dom (map_of (sc_atomic S')) \<and> dom (tv S) \<subseteq> dom (tv S')
    \<and> (\<not> ok \<longrightarrow> (\<forall>a. nonce_of (tv S') a = nonce_of (tv S) a)) \<and> (\<forall>a. nonce_of (tv S') a \<le> nonce_of (tv S) a + n)"
proof (induction n arbitrary: first out g r S ok g' r' S')
  case (Suc n)
  note pre = Suc.prems(1) [unfolded chain_pre_def]
  obtain q r1 where q: "read_call_output out r = Some (q, r1)" using Suc.prems(2) by (cases "read_call_output out r") auto
  show ?case
  proof (cases q)
    case None
    then show ?thesis using Suc.prems q pre by auto
  next
    case (Some j)
    obtain st where st: "call_level V X W first temp j g r1 S = Some st"
      using Suc.prems(2) q Some by (auto split: bind_splits)
    have lr: "level_result v0 g S st"
      using call_level_inv [OF assms, of S] pre st by blast
    show ?thesis
    proof (cases st)
      case (Ended ok1 g1 r2 S1)
      then show ?thesis using Suc.prems(2) q Some st lr by (auto simp: level_result_def)
    next
      case (CallNext rcp g1 r2 S1)
      note lv = lr [unfolded CallNext level_result_def, simplified]
      let ?x = "w_call W (m_curDepth S1) g1" and ?c = "m_curContractAddr S1"
      let ?S1 = "S1\<lparr>m_curSenderAddr := ?c, m_curContractAddr := rcp\<rparr>"
      obtain okx r3 where x: "execute_process ?x r2 = (okx, r3)" by fastforce
      show ?thesis
      proof (cases okx)
        case False
        then show ?thesis using Suc.prems(2) q Some st CallNext x lv by auto
      next
        case True
        obtain ok2 g2 r4 S2 where rec: "call_chain n V X W False temp (run_output ?x) g1 r3 ?S1 = Some (ok2, g2, r4, S2)"
          using Suc.prems(2) q Some st CallNext x True by (auto simp: Let_def split: bind_splits)
        have tvs: "tv ?S1 = tv S1" by (simp add: tv_def)
        have ih: "chain_inv v0 S2" "g2 \<le> g1" "dom (map_of (sc_atomic S1)) \<subseteq> dom (map_of (sc_atomic S2))" "dom (tv S1) \<subseteq> dom (tv S2)"
          "\<not> ok2 \<longrightarrow> (\<forall>a. nonce_of (tv S2) a = nonce_of (tv S1) a)" "\<forall>a. nonce_of (tv S2) a \<le> nonce_of (tv S1) a + n"
          using Suc.IH [OF chain_pre_next [OF Suc.prems(1) lr [unfolded CallNext]] rec] tvs by simp_all
        have doms: "dom (map_of (sc_atomic S)) \<subseteq> dom (map_of (sc_atomic S2))" "dom (tv S) \<subseteq> dom (tv S2)" "g2 \<le> g"
          using lv ih(2-4) by (blast, blast, auto)
        show ?thesis
        proof (cases ok2)
          case False
          then have r: "ok = False" "g' = g2" "S' = S2" using Suc.prems(2) q Some st CallNext x True rec by (simp_all add: Let_def)
          have "nonce_of (tv S') a = nonce_of (tv S) a" for a using r ih(5) False lv by simp
          then show ?thesis using r ih doms lv by simp
        next
          case ok: True
          have "nonce_of (tv S2) ?c + 1 < 2 ^ 64"
          proof -
            have "nonce_of (tv S2) ?c \<le> nonce_of (tv S) ?c + n" using ih(6) lv by metis
            moreover have "nonce_of (tv S) ?c + Suc n < 2 ^ 64" using pre by blast
            ultimately show ?thesis by linarith
          qed
          moreover have "?c \<in> dom (map_of (sc_atomic S2))" "tv S2 ?c \<noteq> None" using lv ih(3,4) by auto
          ultimately obtain S3 where S3: "IncreaseNonce (this_vt V) (sc_ledger X) ?c S2 = (True, S3)" "chain_inv v0 S3"
            "sc_atomic S3 = sc_atomic S2" "tv S3 = bump_nonce ?c (tv S2)"
            using IncreaseNonce_shadowed [OF assms(1) ih(1)] by metis
          have r: "ok = True" "g' = g2" "S' = S3" using Suc.prems(2) q Some st CallNext x True rec ok S3 by (simp_all add: Let_def)
          have nb: "nonce_of (tv S3) a \<le> nonce_of (tv S2) a + 1" for a
            using \<open>nonce_of (tv S2) ?c + 1 < 2 ^ 64\<close> \<open>tv S2 ?c \<noteq> None\<close> nonce_of_bump [of "tv S2" ?c a] S3(4) by simp
          have n3: "nonce_of (tv S3) a \<le> nonce_of (tv S) a + Suc n" for a
          proof -
            have "nonce_of (tv S1) a = nonce_of (tv S) a" using lv by simp
            then show ?thesis using ih(6) [rule_format, of a] nb [of a] by linarith
          qed
          have "dom (tv S3) = dom (tv S2)" unfolding S3 by (auto simp: bump_nonce_def split: option.splits)
          then show ?thesis using r S3 ih(2) doms lv n3 by auto
        qed
      qed
    qed
  qed
qed simp

section \<open>Committing the atomic store\<close>

lemma commit_entry_view:
  fixes S :: "('s, 'd) SC"
  shows "tv (commit_entry V e S) = (tv S)(fst e \<mapsto> snd e)" "this_frame S (commit_entry V e S)"
proof -
  obtain S1 where g: "vt_GetAccount (this_vt V) (fst e) S = (tv S (fst e), S1)" "tv S1 = tv S"
    using this.GetAccount_cases [of "fst e" S] by metis
  show "tv (commit_entry V e S) = (tv S)(fst e \<mapsto> snd e)"
    using g by (cases "tv S (fst e)") (simp_all add: commit_entry_def this.AddAccount_view)
  have "this_frame S S1" by (rule this_GetAccount_frame [OF g(1)])
  then show "this_frame S (commit_entry V e S)"
    using g thisf.frame_write_after_get [OF g(1)] thisf.frame_trans [OF _ thisf.frame_AddAccount]
    by (cases "tv S (fst e)") (simp_all add: commit_entry_def)
qed

lemma commit_fold_view:
  fixes S :: "('s, 'd) SC"
  shows "tv (fold (commit_entry V) es S) = tv S ++ map_of (rev es) \<and> this_frame S (fold (commit_entry V) es S)"
proof (induction es arbitrary: S)
  case Nil
  then show ?case by (simp add: thisf.frame_refl)
next
  case (Cons e es)
  have "map_of (rev (e # es)) = [fst e \<mapsto> snd e] ++ map_of (rev es)" by (cases e) (simp add: map_of_append)
  moreover have "this_frame S (fold (commit_entry V) es (commit_entry V e S))"
    using Cons.IH [of "commit_entry V e S"] commit_entry_view(2) thisf.frame_trans by blast
  moreover have "tv S ++ ([fst e \<mapsto> snd e] ++ map_of (rev es)) = (tv S)(fst e \<mapsto> snd e) ++ map_of (rev es)"
    by (auto simp: fun_eq_iff map_add_def split: option.splits)
  moreover have "tv (fold (commit_entry V) es (commit_entry V e S)) = (tv S)(fst e \<mapsto> snd e) ++ map_of (rev es)"
    using conjunct1 [OF Cons.IH [of "commit_entry V e S"]] unfolding commit_entry_view(1) .
  ultimately show ?case unfolding fold_simps by argo
qed

lemma CommitTransferAtomic_view:
  fixes S :: "('s, 'd) SC"
  assumes "distinct (map fst (sc_atomic S))"
  shows "tv (CommitTransferAtomic V S) = av S"
proof -
  have "map_of (rev (sc_atomic S)) = map_of (sc_atomic S)"
    using assms by (intro map_of_eqI) (auto simp: rev_map [symmetric])
  then show ?thesis using commit_fold_view [of "sc_atomic S" S] by (simp add: CommitTransferAtomic_def av_def tv_def)
qed

section \<open>Refund and nonce\<close>

lemma refund:
  fixes S :: "('s, 'd) SC"
  assumes "ledger_env_ok E" "supply_fits v" "g \<le> tx_gasLimit tx" "gas_cost (tx_gasLimit tx) tx < 2 ^ 128"
    and "total_balance (tv S) + gas_cost (tx_gasLimit tx) tx = total_balance v"
  obtains ref S' where "USafe_mul (SafeMath128 E) (ucast g) (tx_gasPrice tx) 0 = (True, ref)"
    "IncreaseBalance (this_vt V) E a ref S = (True, S')" "tv S' = credit E a ref (tv S)"
    "total_balance (tv S') + gas_cost (tx_gasLimit tx - g) tx = total_balance v"
    "\<And>b. nonce_of (tv S') b = nonce_of (tv S) b" "below (sc_store S') = below (sc_store S)"
proof -
  let ?ref = "ucast g * tx_gasPrice tx :: 128 word"
  have le: "gas_cost g tx \<le> gas_cost (tx_gasLimit tx) tx"
    using assms(3) by (intro gas_cost_mono) (simp add: word_le_nat_alt)
  have fits: "gas_cost g tx < 2 ^ 128" using le assms(4) by simp
  have r: "unat ?ref = gas_cost g tx" by (rule gas_product [OF fits])
  have m: "USafe_mul (SafeMath128 E) (ucast g) (tx_gasPrice tx) 0 = (True, ?ref)"
    using assms(1) fits by (intro usafe_mul) (simp_all add: ledger_env_ok_def gas_cost_def unat_ucast_up)
  have b: "bal (tv S) a + unat ?ref < 2 ^ 128"
    using bal_le_total [of "tv S" a] le r assms(2,5) unfolding supply_fits_def by linarith
  obtain S' where S': "IncreaseBalance (this_vt V) E a ?ref S = (True, S')" "tv S' = credit E a ?ref (tv S)"
    "below (sc_store S') = below (sc_store S)"
    using this.IncreaseBalance_fits [OF assms(1) b] by metis
  have "total_balance (tv S') = total_balance (tv S) + gas_cost g tx"
    unfolding S' total_credit [OF b] r ..
  then have "total_balance (tv S') + gas_cost (tx_gasLimit tx - g) tx = total_balance v"
    using gas_cost_diff [OF assms(3), of tx] assms(5) by linarith
  then show ?thesis using that [OF m S'(1,2)] S' by simp
qed

lemma bump:
  fixes S :: "('s, 'd) SC"
  assumes "ledger_env_ok E" "tv S src \<noteq> None" "nonce_of v src + 1 < 2 ^ 64"
    and "total_balance (tv S) + gas_cost (r_cumGas r) tx = total_balance v" "r_cumGas r \<le> tx_gasLimit tx"
    and "\<And>a. nonce_of (tv S) a = nonce_of v a"
  obtains S' where "IncreaseNonce (this_vt V) E src S = (True, S')" "tx_effect src tx True r v (tv S')"
proof -
  have n: "nonce_of (tv S) src + 1 < 2 ^ 64" using assms(3,6) by simp
  obtain S' where S': "IncreaseNonce (this_vt V) E src S = (True, S')" "tv S' = bump_nonce src (tv S)"
    using this.IncreaseNonce_fits [OF assms(1,2) n] by metis
  have "tx_effect src tx True r v (tv S')"
    unfolding S' using nonce_of_bump [OF assms(2) n] assms(4-6) by (simp add: tx_effect_def)
  then show ?thesis using that S' by blast
qed

section \<open>Contract calls\<close>

definition call_result :: "ledger \<Rightarrow> 64 word \<Rightarrow> bool \<Rightarrow> 64 word \<Rightarrow> ('s, 'd) SC \<Rightarrow> bool" where
  "call_result v0 limit ok g S \<longleftrightarrow> chain_inv v0 S \<and> g \<le> limit \<and> (\<not> ok \<longrightarrow> (\<forall>a. nonce_of (tv S) a = nonce_of v0 a))"

lemma run_call_inv:
  fixes S :: "('s, 'd) SC"
  assumes "ledger_env_ok (sc_ledger X)" "supply_fits (tv S)"
    and "chain_pre (tv S) (MAX_CONTRACT_DEPTH (sc_ledger X) + 1) S" "run_call V X W limit temp r S = Some (ok, g, r', S')"
  shows "call_result (tv S) limit ok g S'"
proof -
  let ?x = "w_call W 0 limit"
  have inv: "chain_inv (tv S) S" using assms(3) by (simp add: chain_pre_def)
  obtain okx r1 where x: "execute_process ?x r = (okx, r1)" by fastforce
  show ?thesis
  proof (cases okx)
    case False
    then show ?thesis using assms(4) x inv by (auto simp: run_call_def call_result_def)
  next
    case True
    then obtain S1 where P: "ParseCallContract V X W temp (run_output ?x) limit r1 S = Some (ok, g, r', S1)"
      and S': "sc_store S' = sc_store S1" "sc_atomic S' = sc_atomic S1"
      using assms(4) x by (auto simp: run_call_def split: bind_splits if_splits)
    have "chain_inv (tv S) S1" "g \<le> limit" "\<not> ok \<longrightarrow> (\<forall>a. nonce_of (tv S1) a = nonce_of (tv S) a)"
      using call_chain_inv [OF assms(1,2,3) P [unfolded ParseCallContract_def]] by simp_all
    then show ?thesis using S' chain_inv_cong [of S' S1] by (simp add: call_result_def tv_def)
  qed
qed

lemma settle_call_effect:
  fixes S :: "('s, 'd) SC"
  assumes env: "ledger_env_ok E" and sup: "supply_fits v" and fits: "gas_cost (tx_gasLimit tx) tx < 2 ^ 128"
    and v0: "total_balance v0 + gas_cost (tx_gasLimit tx) tx = total_balance v" "\<And>a. nonce_of v0 a = nonce_of v a" "v0 src \<noteq> None"
    and res: "call_result v0 (tx_gasLimit tx) ret g S"
    and run: "settle_call V E tx src pen ret g r S = Some (ok, r', S')"
    and more: "nonce_of v src + 1 < 2 ^ 64" "\<not> tx_gasLimit tx < pen"
  shows "tx_effect src tx ok r' v (tv S')"
proof -
  define g' where "g' = (if ret then g else min (tx_gasLimit tx - pen) g)"
  define S1 where "S1 = (if ret then CommitTransferAtomic V S else DiscardTransferAtomic S)"
  note inv = res [unfolded call_result_def chain_inv_def]
  have g': "g' \<le> tx_gasLimit tx" using inv unfolding g'_def by (simp add: min.coboundedI2)
  have bals: "total_balance (tv S) = total_balance v0" using inv by (simp add: total_balance_def)
  have t1: "tv S1 = (if ret then av S else tv S)"
    unfolding S1_def using CommitTransferAtomic_view [of S] inv by (simp add: DiscardTransferAtomic_def tv_def)
  have s1: "total_balance (tv S1) + gas_cost (tx_gasLimit tx) tx = total_balance v" "nonce_of (tv S1) a = nonce_of v a" "tv S1 src \<noteq> None" for a
    using inv bals v0 t1 by (auto simp: av_def tv_def map_add_def split: option.splits)
  obtain ref S2 where S2: "USafe_mul (SafeMath128 E) (ucast g') (tx_gasPrice tx) 0 = (True, ref)"
    "IncreaseBalance (this_vt V) E src ref S1 = (True, S2)" "tv S2 = credit E src ref (tv S1)"
    "total_balance (tv S2) + gas_cost (tx_gasLimit tx - g') tx = total_balance v" "\<And>b. nonce_of (tv S2) b = nonce_of (tv S1) b"
    using refund [OF env sup g' fits s1(1)] by metis
  define r2 where "r2 = SetCumGas (tx_gasLimit tx - g') r"
  have c: "r_cumGas (SetResult ret r2) = tx_gasLimit tx - g'" by (simp add: r2_def)
  have "tv S2 src \<noteq> None" unfolding S2(3) using s1(3) by simp
  moreover have "r_cumGas (SetResult ret r2) \<le> tx_gasLimit tx" unfolding c using g' by (simp add: word_sub_le)
  ultimately obtain S3 where S3: "IncreaseNonce (this_vt V) E src S2 = (True, S3)" "tx_effect src tx True (SetResult ret r2) v (tv S3)"
    using bump [OF env, of S2 src v "SetResult ret r2" tx] more(1) S2(4,5) s1(2) c by metis
  have nl: "\<not> tx_gasLimit tx < g'" using g' by (simp add: not_less)
  have "settle_call V E tx src pen ret g r S = Some (True, SetResult ret r2, S3)"
  proof (cases ret)
    case True
    then have e: "g = g'" "CommitTransferAtomic V S = S1" by (simp_all add: g'_def S1_def)
    show ?thesis using True S2(1,2) S3(1) nl unfolding settle_call_def e by (simp add: Let_def r2_def)
  next
    case False
    then have e: "min (tx_gasLimit tx - pen) g = g'" "DiscardTransferAtomic S = S1" by (simp_all add: g'_def S1_def)
    show ?thesis using False S2(1,2) S3(1) nl unfolding settle_call_def end_failed_def e by (simp add: Let_def r2_def)
  qed
  then show ?thesis using run S3(2) by simp
qed

lemma UpdateAccounts_call_effect:
  fixes S :: "('s, 'd) SC"
  assumes env: "ledger_env_ok (sc_ledger X)" and sup: "supply_fits (tv S)"
    and fits: "gas_cost (tx_gasLimit tx) tx < 2 ^ 128"
    and nb: "\<forall>a. nonce_of (tv S) a + MAX_CONTRACT_DEPTH (sc_ledger X) + 1 < 2 ^ 64"
    and run: "UpdateAccounts_call V X W blk sh tx (ucast (tx_gasLimit tx) * tx_gasPrice tx) temp r S = Some (ok, r', S')"
  shows "tx_effect (GetSenderAddr (sc_ossl X) tx) tx ok r' (tv S) (tv S')"
proof -
  let ?E = "sc_ledger X" and ?T = "this_vt V :: ('s, 'd) SC store_vt" and ?a = "GetSenderAddr (sc_ossl X) tx" and ?v = "tv S"
  let ?dep = "ucast (tx_gasLimit tx) * tx_gasPrice tx :: 128 word"
  let ?pen = "gas_penalty (CONTRACT_INVOKE_GAS ?E) (length (tx_data tx))"
  have dep: "unat ?dep = gas_cost (tx_gasLimit tx) tx" by (rule gas_product [OF fits])
  have refused: "tx_effect ?a tx False r' ?v ?v" by (simp add: tx_effect_def)
  note defs = UpdateAccounts_call_def Let_def
  obtain S1 where S1: "vt_GetAccount ?T ?a S = (?v ?a, S1)" "tv S1 = ?v" using this.GetAccount_cases [of ?a S] by metis
  show ?thesis
  proof (cases "\<exists>acc. ?v ?a = Some acc \<and> \<not> tx_gasLimit tx < ?pen \<and> \<not> m_balance acc < ?dep + tx_amount tx")
    case False
    then have "ok = False \<and> tv S' = ?v"
      using run S1 by (cases "?v ?a") (auto simp: defs split: if_splits)
    then show ?thesis using refused by simp
  next
    case True
    then obtain acc where acc: "?v ?a = Some acc" "\<not> tx_gasLimit tx < ?pen" "\<not> m_balance acc < ?dep + tx_amount tx" by blast
    let ?S2 = "S1\<lparr>m_curSenderAddr := ?a, m_curDepth := 0\<rparr>"
    have t2: "tv ?S2 = ?v" using S1(2) by (simp add: tv_def)
    obtain S3 where S3: "vt_GetAccount ?T (tx_toAddr tx) ?S2 = (?v (tx_toAddr tx), S3)" "tv S3 = ?v" "this_frame ?S2 S3"
      using this.GetAccount_cases [of "tx_toAddr tx" ?S2] this_GetAccount_frame t2 by metis
    show ?thesis
    proof (cases "\<exists>toAcc. ?v (tx_toAddr tx) = Some toAcc \<and> ExportCallContractFiles W 0 toAcc (sc_storage S3)")
      case False
      then have "ok = False \<and> tv S' = ?v"
        using run S1(1) S3(1,2) acc by (cases "?v (tx_toAddr tx)") (auto simp: defs tv_def)
      then show ?thesis using refused by simp
    next
      case True
      then obtain toAcc where toAcc: "?v (tx_toAddr tx) = Some toAcc" "ExportCallContractFiles W 0 toAcc (sc_storage S3)" by blast
      let ?S4 = "DiscardTransferAtomic (S3\<lparr>m_curBlockNum := blk\<rparr>)"
      have t4: "tv ?S4 = ?v" using S3(2) by (simp add: tv_def DiscardTransferAtomic_def)
      show ?thesis
      proof (cases "unat ?dep \<le> bal ?v ?a")
        case False
        then obtain S5 where "DecreaseBalance ?T ?E ?a ?dep ?S4 = (False, S5)" "tv S5 = ?v"
          using this.DecreaseBalance_uncovered [OF env, of ?dep ?S4 ?a] t4 by metis
        then have "ok = False \<and> tv S' = ?v" using run S1(1) S3(1) acc toAcc by (simp add: defs)
        then show ?thesis using refused by simp
      next
        case True
        then obtain S5 where S5: "DecreaseBalance ?T ?E ?a ?dep ?S4 = (True, S5)" "tv S5 = debit ?a ?dep ?v"
          using this.DecreaseBalance_covered [OF env, of ?dep ?S4 ?a] t4 by metis
        have f5: "this_frame ?S4 S5" by (rule thisf.frame_DecreaseBalance [OF S5(1)])
        define S6 where "S6 = S5\<lparr>m_curGasLimit := tx_gasLimit tx, m_curGasPrice := tx_gasPrice tx,
           m_curContractAddr := tx_toAddr tx, m_curAmount := tx_amount tx, m_curNumShards := sh\<rparr>"
        have s6: "tv S6 = debit ?a ?dep ?v" "sc_atomic S6 = []" "m_curDepth S6 = 0" "m_curContractAddr S6 = tx_toAddr tx"
          using S5(2) f5 S3(3) by (simp_all add: S6_def tv_def this_frame_def same_context_def DiscardTransferAtomic_def)
        have tot6: "total_balance (tv S6) + gas_cost (tx_gasLimit tx) tx = total_balance ?v"
          using total_debit [OF True] dep unfolding s6 by linarith
        have n6: "nonce_of (tv S6) b = nonce_of ?v b" for b unfolding s6 by simp
        have sup6: "supply_fits (tv S6)" using tot6 sup unfolding supply_fits_def by linarith
        have a6: "tv S6 ?a \<noteq> None" unfolding s6 using acc(1) by simp
        obtain ret g r2 S7 where P: "run_call V X W (tx_gasLimit tx) temp r S6 = Some (ret, g, r2, S7)"
          and fin: "settle_call V ?E tx ?a ?pen ret g r2 S7 = Some (ok, r', S')"
          using run S1(1) S3(1) acc toAcc S5(1) unfolding S6_def by (auto simp: defs split: bind_splits)
        have pre: "chain_pre (tv S6) (MAX_CONTRACT_DEPTH ?E + 1) S6"
          using s6 toAcc(1) nb n6 by (auto simp: chain_pre_def chain_inv_def av_def tv_def)
        show ?thesis
          by (rule settle_call_effect [OF env sup fits tot6 n6 a6 run_call_inv [OF env sup6 pre P] fin])
            (use nb [rule_format, of ?a] acc(2) in simp_all)
      qed
    qed
  qed
qed

section \<open>Contract creation\<close>

lemma InitContract_money:
  "InitContract X W c dat addr blk temp acc C = Some (ok, acc', C') \<Longrightarrow> m_balance acc' = m_balance acc \<and> m_nonce acc' = m_nonce acc"
  by (auto simp: InitContract_def Account_SetCode_def Account_SetAddress_def Let_def split: bind_splits if_splits option.splits prod.splits)

lemma run_create_gas:
  "run_create X W limit pen r = (okc, ret, g, r') \<Longrightarrow> g \<le> limit"
  by (auto simp: run_create_def ParseCreateContract_def ParseCreateContractJsonOutput_def Let_def min.coboundedI1 min.coboundedI2 word_sub_le
      split: if_splits prod.splits option.splits scilla_output.splits gas_field.splits)

text \<open>The ledger with a new account that holds nothing has the money and the nonces of the old one.\<close>

lemma fresh_account_money:
  assumes "v c = None" "m_balance acc = 0" "m_nonce acc = 0"
  shows "bal (v(c \<mapsto> acc)) a = bal v a" "nonce_of (v(c \<mapsto> acc)) a = nonce_of v a" "total_balance (v(c \<mapsto> acc)) = total_balance v"
proof -
  show b: "bal (v(c \<mapsto> acc)) a = bal v a" for a using assms by (simp add: bal_def)
  show "nonce_of (v(c \<mapsto> acc)) a = nonce_of v a" using assms by (simp add: nonce_of_def)
  show "total_balance (v(c \<mapsto> acc)) = total_balance v" unfolding total_balance_def b ..
qed

lemma settle_create_effect:
  fixes S :: "('s, 'd) SC"
  assumes env: "ledger_env_ok E" and sup: "supply_fits v" and fits: "gas_cost (tx_gasLimit tx) tx < 2 ^ 128"
    and new: "v c = None" "m_balance acc = 0" "m_nonce acc = 0" "src \<noteq> c" "v src \<noteq> None"
    and tS: "tv S = debit src d (v(c \<mapsto> acc))" "unat d = gas_cost (tx_gasLimit tx) tx" "unat d \<le> bal v src"
    and bel: "below (sc_store S) c = None"
    and g: "g \<le> tx_gasLimit tx" and n: "nonce_of v src + 1 < 2 ^ 64"
    and run: "settle_create V E tx src c valid okc ret g r S = Some (ok, r', S')"
  shows "tx_effect src tx ok r' v (tv S')"
proof -
  let ?T = "this_vt V :: ('s, 'd) SC store_vt"
  note money = fresh_account_money [of v c acc, OF new(1-3)]
  have "unat d \<le> bal (v(c \<mapsto> acc)) src" using tS(3) money by simp
  note td = total_debit [OF this]
  have t0: "total_balance (tv S) + gas_cost (tx_gasLimit tx) tx = total_balance v"
    using td money(3) tS by simp
  obtain ref S6 where S6: "USafe_mul (SafeMath128 E) (ucast g) (tx_gasPrice tx) 0 = (True, ref)"
    "IncreaseBalance ?T E src ref S = (True, S6)" "tv S6 = credit E src ref (tv S)"
    "total_balance (tv S6) + gas_cost (tx_gasLimit tx - g) tx = total_balance v" "\<And>b. nonce_of (tv S6) b = nonce_of (tv S) b"
    "below (sc_store S6) = below (sc_store S)"
    using refund [OF env sup g fits t0] by metis
  have n6: "nonce_of (tv S6) b = nonce_of v b" for b using S6(5) tS(1) money(2) by simp
  have s6: "tv S6 src \<noteq> None" "tv S6 c = Some acc"
    using S6(3) tS(1) new by (auto simp: credit_def debit_def)
  have nl: "\<not> tx_gasLimit tx < g" using g by (simp add: not_less)
  have finish: "\<exists>S8. IncreaseNonce ?T E src S7 = (True, S8) \<and> (\<forall>q :: event TransactionReceipt. r_cumGas q = tx_gasLimit tx - g \<longrightarrow> tx_effect src tx True q v (tv S8))"
    if t: "tv S7 src \<noteq> None" "total_balance (tv S7) = total_balance (tv S6)" "\<And>b. nonce_of (tv S7) b = nonce_of v b" for S7 :: "('s, 'd) SC"
  proof -
    have le: "tx_gasLimit tx - g \<le> tx_gasLimit tx" using g by (simp add: word_sub_le)
    obtain S8 where "IncreaseNonce ?T E src S7 = (True, S8)" "tx_effect src tx True (SetCumGas (tx_gasLimit tx - g) r) v (tv S8)"
      using bump [OF env t(1) n, of "SetCumGas (tx_gasLimit tx - g) r" tx] t(2,3) S6(4) le by auto
    then show ?thesis by (auto simp: tx_effect_def)
  qed
  show ?thesis
  proof (cases "ret \<and> okc")
    case False
    let ?S7 = "vt_update ?T (AList.delete c) S6"
    have v7: "tv ?S7 = (tv S6)(c := None)" using this.erase_view [of c S6] S6(6) bel by simp
    have "bal (tv ?S7) b = bal (tv S6) b \<and> nonce_of (tv ?S7) b = nonce_of v b" for b
      unfolding v7 using s6(2) new n6 [of b] by (auto simp: bal_def nonce_of_def)
    then have "total_balance (tv ?S7) = total_balance (tv S6)" "nonce_of (tv ?S7) b = nonce_of v b" for b by (simp_all add: total_balance_def)
    moreover have "tv ?S7 src \<noteq> None" unfolding v7 using s6(1) new(4) by simp
    ultimately obtain S8 where S8: "IncreaseNonce ?T E src ?S7 = (True, S8)"
      "\<forall>q :: event TransactionReceipt. r_cumGas q = tx_gasLimit tx - g \<longrightarrow> tx_effect src tx True q v (tv S8)" using finish by blast
    have "ok = True \<and> r_cumGas r' = tx_gasLimit tx - g \<and> S' = S8"
      using run S6(1,2) S8(1) False unfolding settle_create_def end_failed_def by (auto simp: Let_def)
    then show ?thesis using S8(2) by simp
  next
    case True
    obtain moved S7 where m: "(if valid then TransferBalance ?T E src c (tx_amount tx) S6 else Some (True, S6)) = Some (moved, S7)"
      and v7: "total_balance (tv S7) = total_balance (tv S6)" "\<And>b. nonce_of (tv S7) b = nonce_of v b" "tv S7 src \<noteq> None"
    proof (cases "valid \<and> unat (tx_amount tx) \<le> bal (tv S6) src")
      case T: True
      have sup6: "supply_fits (tv S6)" using S6(4) sup unfolding supply_fits_def by linarith
      obtain S7 where S7: "TransferBalance ?T E src c (tx_amount tx) S6 = Some (True, S7)"
        "tv S7 = credit E c (tx_amount tx) (debit src (tx_amount tx) (tv S6))"
        using this.TransferBalance_covered [OF env sup6 conjunct2 [OF T]] by metis
      show ?thesis
        by (rule that [of True S7]) (use T S7(1) s6(1) n6 this.TransferBalance_total [OF sup6 conjunct2 [OF T]] in \<open>simp_all add: S7(2)\<close>)
    next
      case F: False
      show ?thesis
      proof (cases valid)
        case True
        then obtain S7 where "TransferBalance ?T E src c (tx_amount tx) S6 = Some (False, S7)" "tv S7 = tv S6"
          using this.TransferBalance_uncovered [OF env, of "tx_amount tx" S6 src c] F by metis
        then show ?thesis using that [of False S7] True n6 s6(1) by simp
      qed (use that [of True S6] n6 s6(1) in simp)
    qed
    obtain S8 where S8: "IncreaseNonce ?T E src S7 = (True, S8)"
      "\<forall>q :: event TransactionReceipt. r_cumGas q = tx_gasLimit tx - g \<longrightarrow> tx_effect src tx True q v (tv S8)" using finish [OF v7(3,1,2)] by blast
    have "ok = True \<and> r_cumGas r' = tx_gasLimit tx - g \<and> S' = S8"
      using run S6(1,2) S8(1) True nl m unfolding settle_create_def end_failed_def by (cases moved) (auto simp: Let_def)
    then show ?thesis using S8(2) by simp
  qed
qed

lemma UpdateAccounts_create_effect:
  fixes S :: "('s, 'd) SC"
  assumes env: "ledger_env_ok (sc_ledger X)" and sup: "supply_fits (tv S)"
    and fits: "gas_cost (tx_gasLimit tx) tx < 2 ^ 128" and fr: "fresh_address X tx (tv S)"
    and nb: "nonce_of (tv S) (GetSenderAddr (sc_ossl X) tx) + 1 < 2 ^ 64"
    and run: "UpdateAccounts_create V X W blk tx (ucast (tx_gasLimit tx) * tx_gasPrice tx) temp r S = Some (ok, r', S')"
  shows "tx_effect (GetSenderAddr (sc_ossl X) tx) tx ok r' (tv S) (tv S')"
proof -
  let ?E = "sc_ledger X" and ?T = "this_vt V :: ('s, 'd) SC store_vt" and ?a = "GetSenderAddr (sc_ossl X) tx" and ?v = "tv S"
  let ?dep = "ucast (tx_gasLimit tx) * tx_gasPrice tx :: 128 word"
  let ?pen = "gas_penalty (CONTRACT_CREATE_GAS ?E) (length (tx_code tx) + length (tx_data tx))"
  have dep: "unat ?dep = gas_cost (tx_gasLimit tx) tx" by (rule gas_product [OF fits])
  have refused: "tx_effect ?a tx False r' ?v ?v" by (simp add: tx_effect_def)
  note defs = UpdateAccounts_create_def Let_def
  obtain S1 where S1: "vt_GetAccount ?T ?a S = (?v ?a, S1)" "tv S1 = ?v" "below (sc_store S1) = below (sc_store S)"
    using this.GetAccount_cases [of ?a S] by metis
  show ?thesis
  proof (cases "\<exists>acc. ?v ?a = Some acc \<and> \<not> tx_gasLimit tx < ?pen \<and> \<not> m_balance acc < ?dep")
    case False
    then have "ok = False \<and> tv S' = ?v" using run S1 by (cases "?v ?a") (auto simp: defs split: if_splits)
    then show ?thesis using refused by simp
  next
    case True
    then obtain acc where acc: "?v ?a = Some acc" "\<not> tx_gasLimit tx < ?pen" "\<not> m_balance acc < ?dep" by blast
    obtain c where c: "GetAddressForContract (sc_ossl X) ?a (m_nonce acc) = Some c"
      using run S1(1) acc by (auto simp: defs split: bind_splits)
    have new: "?v c = None" "?a \<noteq> c" using fr c acc(1) by (auto simp: fresh_address_def)
    let ?new = "Account_new 0 0 (ACCOUNT_VERSION ?E)"
    let ?S2 = "AddAccount ?T c ?new S1"
    have v2: "tv ?S2 = ?v(c \<mapsto> ?new)" using this.AddAccount_view [of c ?new S1] S1(2) new by simp
    obtain S3 where S3: "vt_GetAccount ?T c ?S2 = (Some ?new, S3)" "tv S3 = ?v(c \<mapsto> ?new)" "below (sc_store S3) = below (sc_store S)"
      using this.GetAccount_cases [of c ?S2] v2 S1(3) this.AddAccount_below [of c ?new S1] by (metis fun_upd_same)
    obtain oki acc' C' where I: "InitContract X W (tx_code tx) (tx_data tx) c blk temp ?new (sc_storage S3) = Some (oki, acc', C')"
      using run S1(1) acc c S3(1) by (auto simp: defs split: bind_splits)
    have acc': "m_balance acc' = 0" "m_nonce acc' = 0" using InitContract_money [OF I] by (simp_all add: Account_new_def)
    define S4 where "S4 = (write_account ?T c acc' S3)\<lparr>sc_storage := C', m_curBlockNum := blk\<rparr>"
    have v4: "tv S4 = ?v(c \<mapsto> acc')" "below (sc_store S4) c = None"
      using this.write_account_view [of c acc' S3] this.write_account_below [of c acc' S3] S3(2,3) none_below [of "sc_store S" c] new(1)
      by (simp_all add: S4_def tv_def)
    have undo: "tv (RemoveAccount ?T c T) = ?v" if "tv T = ?v(c \<mapsto> acc')" "below (sc_store T) c = None" for T
      using this.RemoveAccount_view [of c T] that fun_upd_idem [of ?v c None] new(1) by simp
    have b4: "bal (tv S4) ?a = bal ?v ?a" using v4 new(2) by simp
    have cov: "unat ?dep \<le> bal ?v ?a" using acc by (simp add: bal_def word_less_nat_alt)
    then obtain S5 where S5: "DecreaseBalance ?T ?E ?a ?dep S4 = (True, S5)" "tv S5 = debit ?a ?dep (?v(c \<mapsto> acc'))"
      "below (sc_store S5) = below (sc_store S4)"
      using this.DecreaseBalance_covered [OF env, of ?dep S4 ?a] b4 v4(1) by metis
    show ?thesis
    proof (cases "oki \<and> ExportCreateContractFiles W acc' C'")
      case False
      then have "ok = False \<and> S' = RemoveAccount ?T c S4" using run S1(1) acc c S3(1) I unfolding S4_def by (auto simp: defs)
      then show ?thesis using refused undo [OF v4] by simp
    next
      case True
      obtain okc ret g r1 where R: "run_create X W (tx_gasLimit tx) ?pen r = (okc, ret, g, r1)" by (metis prod_cases4)
      have fin: "settle_create V ?E tx ?a c (\<not> m_balance acc < ?dep + tx_amount tx) okc ret g r1 S5 = Some (ok, r', S')"
        using run S1(1) acc c S3(1) I True R S5(1) unfolding S4_def by (simp add: defs)
      have "below (sc_store S5) c = None" using S5(3) v4(2) by simp
      then show ?thesis using settle_create_effect [OF env sup fits new(1) acc' new(2) _ S5(2) dep cov _ run_create_gas [OF R] nb fin] acc(1)
        by simp
    qed
  qed
qed

section \<open>Every transaction\<close>

lemma pay_effect:
  fixes r :: "'e TransactionReceipt"
  assumes "supply_fits v" "payment_ok E src tx v" "nonce_of v src + 1 < 2 ^ 64"
  shows "tx_effect src tx True (SetCumGas (normal_gas E) (SetResult True r)) v (pay E src tx v)"
proof -
  let ?dep = "ucast (tx_gasLimit tx) * tx_gasPrice tx :: 128 word" and ?fee = "ucast (normal_gas E) * tx_gasPrice tx :: 128 word"
  let ?amt = "tx_amount tx" and ?to = "tx_toAddr tx"
  note ok = assms(2) [unfolded payment_ok_def]
  have fits: "gas_cost (tx_gasLimit tx) tx < 2 ^ 128" using ok bal_fits [OF assms(1), of src] by linarith
  have le: "gas_cost (normal_gas E) tx \<le> gas_cost (tx_gasLimit tx) tx" using ok by (intro gas_cost_mono) simp
  have u: "unat ?dep = gas_cost (tx_gasLimit tx) tx" "unat ?fee = gas_cost (normal_gas E) tx"
    using gas_product [OF fits] gas_product [of "normal_gas E" tx] le fits by simp_all
  have ref: "unat (?dep - ?fee) = gas_cost (tx_gasLimit tx) tx - gas_cost (normal_gas E) tx"
    using u le by (simp add: unat_sub_fits)
  let ?v1 = "debit src ?dep v"
  have d: "unat ?dep \<le> bal v src" using ok u by simp
  have t1: "total_balance ?v1 + gas_cost (tx_gasLimit tx) tx = total_balance v" using total_debit [OF d] u by linarith
  have s1: "supply_fits ?v1" using t1 assms(1) unfolding supply_fits_def by linarith
  have a1: "unat ?amt \<le> bal ?v1 src" using bal_debit [OF d, of src] u ok by auto
  let ?v2 = "credit E ?to ?amt (debit src ?amt ?v1)"
  have t2: "total_balance ?v2 = total_balance ?v1" by (rule this.TransferBalance_total [OF s1 a1])
  have "bal ?v2 src + unat (?dep - ?fee) < 2 ^ 128"
    using bal_le_total [of ?v2 src] t1 t2 ref assms(1) unfolding supply_fits_def by linarith
  note t3 = total_credit [OF this, of E]
  have "tx_effect src tx True q v (pay E src tx v)" if q: "r_cumGas q = normal_gas E" for q :: "'e TransactionReceipt"
  proof -
    have ex: "credit E src (?dep - ?fee) ?v2 src \<noteq> None" using ok by simp
    note nb = nonce_of_bump [of "credit E src (?dep - ?fee) ?v2" src, OF ex]
    show ?thesis using nb assms(3) t3 t1 t2 ref le ok q
      by (simp add: tx_effect_def pay_def word_le_nat_alt)
  qed
  then show ?thesis by simp
qed

lemma UpdateAccounts_effect:
  fixes S :: "('s, 'd) SC"
  assumes env: "ledger_env_ok (sc_ledger X)" and sup: "supply_fits (tv S)"
    and fr: "GetTransactionType tx = CONTRACT_CREATION \<longrightarrow> fresh_address X tx (tv S)"
    and nb: "\<forall>a. nonce_of (tv S) a + MAX_CONTRACT_DEPTH (sc_ledger X) + 1 < 2 ^ 64"
    and run: "UpdateAccounts V X W blk sh isDS tx temp r S = Some (ok, r', S')"
  shows "tx_effect (GetSenderAddr (sc_ossl X) tx) tx ok r' (tv S) (tv S')"
proof -
  let ?E = "sc_ledger X" and ?T = "this_vt V :: ('s, 'd) SC store_vt" and ?a = "GetSenderAddr (sc_ossl X) tx" and ?v = "tv S"
  let ?S0 = "S\<lparr>m_curIsDS := isDS\<rparr>"
  have t0: "tv ?S0 = ?v" by (simp add: tv_def)
  have n: "nonce_of ?v ?a + 1 < 2 ^ 64" using nb [rule_format, of ?a] by linarith
  have refused: "tx_effect ?a tx False r' ?v ?v" by (simp add: tx_effect_def)
  show ?thesis
  proof (cases "gas_cost (tx_gasLimit tx) tx < 2 ^ 128")
    case False
    then have "\<not> fst (USafe_mul (SafeMath128 ?E) (ucast (tx_gasLimit tx)) (tx_gasPrice tx) 0)"
      using env by (intro usafe_mul_fail) (simp_all add: ledger_env_ok_def gas_cost_def unat_ucast_up)
    then have "ok = False \<and> S' = ?S0" using run
      by (cases "USafe_mul (SafeMath128 ?E) (ucast (tx_gasLimit tx)) (tx_gasPrice tx) 0") (simp add: UpdateAccounts_def)
    then show ?thesis using refused t0 by simp
  next
    case True
    then have m: "USafe_mul (SafeMath128 ?E) (ucast (tx_gasLimit tx)) (tx_gasPrice tx) 0 = (True, ucast (tx_gasLimit tx) * tx_gasPrice tx)"
      using env by (intro usafe_mul) (simp_all add: ledger_env_ok_def gas_cost_def unat_ucast_up)
    note run' = run [unfolded UpdateAccounts_def Let_def m, simplified]
    show ?thesis
    proof (cases "GetTransactionType tx")
      case NON_CONTRACT
      obtain S1 where S1: "vt_GetAccount ?T (tx_toAddr tx) ?S0 = (?v (tx_toAddr tx), S1)" "tv S1 = ?v"
        using this.GetAccount_cases [of "tx_toAddr tx" ?S0] t0 by metis
      have "tx_effect ?a tx ok r' ?v (tv S')" if "UpdateAccounts_base ?T ?E (sc_ossl X) tx r S1 = Some (ok, r', S')"
      proof (cases "payment_ok ?E ?a tx ?v")
        case True
        then obtain S2 where "UpdateAccounts_base ?T ?E (sc_ossl X) tx r S1 = Some (True, SetCumGas (normal_gas ?E) (SetResult True r), S2)"
          "tv S2 = pay ?E ?a tx ?v"
          using this.payment_accepted [OF env, of S1 "sc_ossl X" tx r] sup n S1(2) by metis
        then show ?thesis using that pay_effect [OF sup True n] by simp
      next
        case False
        then obtain S2 where "UpdateAccounts_base ?T ?E (sc_ossl X) tx r S1 = Some (False, r, S2)" "tv S2 = ?v"
          using this.payment_rejected [OF env, of S1 "sc_ossl X" tx r] sup S1(2) by metis
        then show ?thesis using that refused by simp
      qed
      then show ?thesis using run' NON_CONTRACT S1 refused by (auto split: option.splits if_splits)
    next
      case CONTRACT_CREATION
      then show ?thesis using UpdateAccounts_create_effect [OF env, of ?S0 tx W blk temp r ok r' S'] run' sup True fr n t0 by simp
    next
      case CONTRACT_CALL
      then show ?thesis using UpdateAccounts_call_effect [OF env, of ?S0 tx W blk sh temp r ok r' S'] run' sup True nb t0 by simp
    next
      case ERROR
      then show ?thesis using run' refused t0 by simp
    qed
  qed
qed

end

end
