(* ===== verification/AccountFrame.thy ===== *)
theory AccountFrame
  imports AccountStoreSC
begin

text \<open>
  What the execution of a transaction leaves alone, whatever the store is: the depth of a call changes only
  with a further call, so a chain of calls ends; and a relation between stores that lookups and updates
  of the own map respect holds between the store before and after a transaction.
\<close>

section \<open>The chain of calls ends\<close>

text \<open>No operation on the store or its atomic store changes the depth of the call, so only a further call does.\<close>

definition same_depth :: "('s, 'd) SC \<Rightarrow> ('s, 'd) SC \<Rightarrow> bool" where
  "same_depth S S' \<longleftrightarrow> m_curDepth S' = m_curDepth S"

lemma this_vt_depth: "vt_GetAccount (this_vt V) a S = (r, S') \<Longrightarrow> m_curDepth S' = m_curDepth S"
  "m_curDepth (vt_update (this_vt V) f S) = m_curDepth S"
  by (auto simp: this_vt_def split: prod.splits)

interpretation this_depth: store_frame "this_vt V :: ('s, 'd) SC store_vt" same_depth for V
  by unfold_locales (auto simp: same_depth_def this_vt_depth)

interpretation atomic_depth: store_frame "atomic_vt V :: ('s, 'd) SC store_vt" same_depth for V
proof
  show "same_depth S S'" if "vt_GetAccount (atomic_vt V) a S = (r, S')" for a r and S S' :: "('s, 'd) SC"
    using that this_vt_depth(1) [of V a S]
    by (auto simp: same_depth_def atomic_vt_def AccountStoreAtomic_GetAccount_def split: option.splits prod.splits)
qed (auto simp: same_depth_def atomic_vt_def)

lemma fetch_recipient_depth: "m_curDepth (fetch_recipient V E a S) = m_curDepth S"
proof -
  obtain r1 S1 where g: "vt_GetAccount (atomic_vt V) a S = (r1, S1)" by fastforce
  let ?S2 = "AddAccount (this_vt V) a (Account_new 0 0 (ACCOUNT_VERSION E)) S1"
  obtain r2 S3 where h: "vt_GetAccount (atomic_vt V) a ?S2 = (r2, S3)" by fastforce
  show ?thesis using g h atomic_depth.frame_get [OF g] atomic_depth.frame_get [OF h]
      this_depth.frame_AddAccount [of S1 V a "Account_new 0 0 (ACCOUNT_VERSION E)"]
    by (simp add: fetch_recipient_def same_depth_def split: option.splits)
qed

lemma transfer_depth: "TransferBalanceAtomic V E src dst d S = Some (ok, S') \<Longrightarrow> m_curDepth S' = m_curDepth S"
  using atomic_depth.frame_TransferBalance by (auto simp: TransferBalanceAtomic_def same_depth_def)

lemma accept_amount_depth: "accept_amount V X accepted r S = Some (ok, r', S') \<Longrightarrow> m_curDepth S' = m_curDepth S"
  using atomic_depth.frame_get transfer_depth
  by (fastforce simp: accept_amount_def same_depth_def split: bind_splits if_splits prod.splits option.splits)

lemma handle_message_depth:
  "handle_message V X msg r S = Some (Inr (ret, a, r', S')) \<Longrightarrow> m_curDepth S' = m_curDepth S"
  by (auto simp: handle_message_def fetch_recipient_depth Let_def dest!: transfer_depth
      split: message.splits option.splits bind_splits if_splits)

lemma finish_level_depth:
  "finish_level X W first temp es ret a g r S = Some (CallNext b g' r' S')
   \<Longrightarrow> m_curDepth S' = m_curDepth S + 1 \<and> m_curDepth S' \<le> MAX_CONTRACT_DEPTH (sc_ledger X)"
  by (auto simp: finish_level_def set_contract_storage_def Let_def split: bind_splits if_splits)

lemma call_level_depth:
  assumes "call_level V X W first temp j g r S = Some (CallNext a g' r' S')"
  shows "m_curDepth S' = m_curDepth S + 1 \<and> m_curDepth S' \<le> MAX_CONTRACT_DEPTH (sc_ledger X)"
proof -
  obtain accepted ok r1 S1 es r2 ret b r3 S2 g2 where
    "accept_amount V X accepted r S = Some (ok, r1, S1)" "handle_message V X (cl_message j) r2 S1 = Some (Inr (ret, b, r3, S2))"
    and f: "finish_level X W first temp es ret b g2 r3 S2 = Some (CallNext a g' r' S')"
    using assms by (auto simp: call_level_def Let_def split: gas_field.splits accepted_field.splits if_splits option.splits bind_splits sum.splits prod.splits bool.splits)
  then have "m_curDepth S2 = m_curDepth S" using accept_amount_depth handle_message_depth by metis
  then show ?thesis using finish_level_depth [OF f] by simp
qed

text \<open>More fuel than one unit per remaining level does not change the outcome, so the fuel of
  \<open>ParseCallContract\<close> is enough.\<close>

lemma call_chain_fuel:
  assumes "MAX_CONTRACT_DEPTH (sc_ledger X) < m_curDepth S + n" "m_curDepth S \<le> MAX_CONTRACT_DEPTH (sc_ledger X)"
  shows "call_chain (n + k) V X W first temp out g r S = call_chain n V X W first temp out g r S"
  using assms
proof (induction n arbitrary: first out g r S)
  case (Suc n)
  have rec: "call_chain (n + k) V X W False temp out' g2 r2 (S'\<lparr>m_curSenderAddr := c, m_curContractAddr := a\<rparr>)
      = call_chain n V X W False temp out' g2 r2 (S'\<lparr>m_curSenderAddr := c, m_curContractAddr := a\<rparr>)"
    if "call_level V X W first temp j g1 r1 S = Some (CallNext a g' r' S')" for j g1 r1 a g' r' S' out' g2 r2 c
    using call_level_depth [OF that] Suc.prems by (intro Suc.IH) simp_all
  show ?case
  proof (cases "\<exists>j r1. read_call_output out r = Some (Some j, r1)")
    case True
    then obtain j r1 where q: "read_call_output out r = Some (Some j, r1)" by blast
    show ?thesis
    proof (cases "call_level V X W first temp j g r1 S")
      case l: (Some st)
      then show ?thesis using q by (cases st) (simp_all add: Let_def rec split: prod.splits bool.splits)
    qed (simp add: q)
  qed (auto split: option.splits prod.splits)
qed simp

section \<open>Frames of a transaction\<close>

locale store_relation =
  fixes V :: "'s store_vt" and X :: "('d, 'pt) sc_env" and R :: "'s \<Rightarrow> 's \<Rightarrow> bool"
  assumes rel_refl: "R s s"
    and rel_trans: "R s t \<Longrightarrow> R t u \<Longrightarrow> R s u"
    and rel_get: "vt_GetAccount V a s = (r, s') \<Longrightarrow> R s s'"
    and rel_update: "R s (vt_update V f s)"
begin

definition rel :: "('s, 'd) SC \<Rightarrow> ('s, 'd) SC \<Rightarrow> bool" where
  "rel S S' \<longleftrightarrow> R (sc_store S) (sc_store S')"

lemma rel_rules: "rel S S" "rel S T \<Longrightarrow> rel T U \<Longrightarrow> rel S U" "sc_store S' = sc_store S \<Longrightarrow> rel S S'"
  by (simp_all add: rel_def rel_refl) (rule rel_trans)

lemma rel_step: "rel S S' \<Longrightarrow> rel S' S'' \<Longrightarrow> rel S S''"
  by (rule rel_rules)

lemma rel_this_update: "rel S (vt_update (this_vt V) f S)"
  by (simp add: rel_def this_vt_def rel_update)

lemma rel_this_get: "vt_GetAccount (this_vt V) a S = (r, S') \<Longrightarrow> rel S S'"
  using rel_get by (auto simp: rel_def this_vt_def split: prod.splits)

sublocale this: store_frame "this_vt V :: ('s, 'd) SC store_vt" rel
  by unfold_locales (use rel_rules rel_this_get rel_this_update in blast)+

sublocale atomic: store_frame "atomic_vt V :: ('s, 'd) SC store_vt" rel
proof
  show "rel S S'" if "vt_GetAccount (atomic_vt V) a S = (r, S')" for a r and S S' :: "('s, 'd) SC"
  proof -
    obtain q T where g: "vt_GetAccount (this_vt V) a S = (q, T)" by fastforce
    have "sc_store S' = sc_store S \<or> sc_store S' = sc_store T"
      using that g by (auto simp: atomic_vt_def AccountStoreAtomic_GetAccount_def split: option.splits)
    then show ?thesis using rel_this_get [OF g] rel_refl by (auto simp: rel_def)
  qed
qed (use rel_rules in \<open>auto simp: atomic_vt_def\<close>)

lemmas rel_transfer = atomic.frame_TransferBalance [folded TransferBalanceAtomic_def]

lemma rel_cong: "sc_store S' = sc_store S \<Longrightarrow> rel S' T = rel S T" "sc_store T' = sc_store T \<Longrightarrow> rel S T' = rel S T"
  by (simp_all add: rel_def)

lemma rel_fetch: "rel S (fetch_recipient V E a S)"
proof -
  obtain r1 S1 where g: "vt_GetAccount (atomic_vt V) a S = (r1, S1)" by fastforce
  let ?S2 = "AddAccount (this_vt V) a (Account_new 0 0 (ACCOUNT_VERSION E)) S1"
  obtain r2 S3 where h: "vt_GetAccount (atomic_vt V) a ?S2 = (r2, S3)" by fastforce
  have "rel S S1" "rel S1 ?S2" "rel ?S2 S3" using atomic.frame_get [OF g] this.frame_AddAccount atomic.frame_get [OF h] .
  then have "rel S S1" "rel S S3" using rel_step by blast+
  then show ?thesis using g h by (simp add: fetch_recipient_def split: option.splits)
qed

lemma rel_accept:
  assumes "accept_amount V X accepted r S = Some (ok, r', S')"
  shows "rel S S'"
proof -
  obtain ok1 S1 where m: "(if accepted then TransferBalanceAtomic V (sc_ledger X) (m_curSenderAddr S) (m_curContractAddr S) (m_curAmount S) S
      else Some (True, S)) = Some (ok1, S1)"
    using assms by (auto simp: accept_amount_def split: bind_splits if_splits)
  have 1: "rel S S1" using m rel_transfer rel_rules(1) by (auto split: if_splits)
  obtain q S2 where g: "vt_GetAccount (atomic_vt V) (m_curContractAddr S1) S1 = (q, S2)" by fastforce
  have "S' = S1 \<or> S' = S2" using assms m g by (auto simp: accept_amount_def split: if_splits option.splits)
  then show ?thesis using 1 rel_step [OF 1 atomic.frame_get [OF g]] by blast
qed

lemma rel_message:
  assumes "handle_message V X msg r S = Some res"
  shows "res = Inl (r', S') \<Longrightarrow> rel S S'" "res = Inr (ret, a, r'', S'') \<Longrightarrow> rel S S''"
proof -
  have main: "rel S (case res of Inl (_, T) \<Rightarrow> T | Inr (_, _, _, T) \<Rightarrow> T)"
  proof (cases msg)
    case (Msg m)
    show ?thesis
    proof (cases "\<exists>amt. msg_amount m = Some (Some amt)")
      case True
      then obtain amt where amt: "msg_amount m = Some (Some amt)" by blast
      let ?S1 = "S\<lparr>m_curAmount := amt\<rparr>"
      obtain b where b: "msg_recipient m = Some b" using assms Msg amt by (auto simp: handle_message_def Let_def split: bind_splits)
      let ?S3 = "fetch_recipient V (sc_ledger X) b ?S1"
      have 3: "rel S ?S3" using rel_fetch [of ?S1 "sc_ledger X" b] rel_cong(1) [of ?S1 S] by simp
      have t: "TransferBalanceAtomic V (sc_ledger X) c b amt ?S3 = Some (ok, T) \<Longrightarrow> rel S T" for c ok T
        using rel_step [OF 3 rel_transfer] .
      show ?thesis using assms Msg amt b 3 t rel_rules(3) [of ?S1 S]
        by (auto simp: handle_message_def Let_def split: bind_splits if_splits)
    qed (use assms Msg rel_rules(1) in \<open>auto simp: handle_message_def split: bind_splits option.splits\<close>)
  qed (use assms rel_rules(1) in \<open>auto simp: handle_message_def\<close>)
  show "res = Inl (r', S') \<Longrightarrow> rel S S'" "res = Inr (ret, a, r'', S'') \<Longrightarrow> rel S S''" using main by auto
qed

lemma rel_storage: "set_contract_storage X es temp S = Some (ok, S') \<Longrightarrow> sc_store S' = sc_store S"
  by (auto simp: set_contract_storage_def split: bind_splits)

fun step_state :: "('s, 'd) SC next_step \<Rightarrow> ('s, 'd) SC" where
  "step_state (Ended ok g r S) = S"
| "step_state (CallNext a g r S) = S"

lemma rel_finish:
  assumes "finish_level X W first temp es ret a g r S = Some st"
  shows "sc_store (step_state st) = sc_store S"
  using assms by (auto simp: finish_level_def Let_def split: bind_splits if_splits dest!: rel_storage)

lemma rel_level:
  assumes "call_level V X W first temp j g r S = Some st"
  shows "rel S (step_state st)"
proof -
  have acc: "rel S S1" if "accept_amount V X b r S = Some (ok, r1, S1)" for b ok r1 S1 using that by (rule rel_accept)
  have fin: "rel S (step_state st)" if "accept_amount V X b r S = Some (ok, r1, S1)" "handle_message V X m r2 S1 = Some (Inr (ret, a, r3, S2))"
      "finish_level X W first temp es ret a g' r3 S2 = Some st" for b ok r1 S1 m r2 ret a r3 S2 es g'
  proof -
    have "rel S S2" using rel_step [OF acc [OF that(1)] rel_message(2) [OF that(2)]] by simp
    then show ?thesis using rel_finish [OF that(3)] rel_cong(2) [of "step_state st" S2 S] by simp
  qed
  have msg: "rel S S2" if "accept_amount V X b r S = Some (ok, r1, S1)" "handle_message V X m r2 S1 = Some (Inl (r3, S2))" for b ok r1 S1 m r2 r3 S2
    using rel_step [OF acc [OF that(1)] rel_message(1) [OF that(2)]] by simp
  show ?thesis using assms
    by (auto simp: call_level_def Let_def rel_rules(1) dest: acc msg fin
        split: gas_field.splits accepted_field.splits if_splits option.splits bind_splits sum.splits prod.splits bool.splits)
qed

lemma rel_chain:
  "call_chain n V X W first temp out g r S = Some (ok, g', r', S') \<Longrightarrow> rel S S'"
proof (induction n arbitrary: first out g r S ok g' r' S')
  case (Suc n)
  obtain jo r1 where q: "read_call_output out r = Some (jo, r1)" using Suc.prems by (cases "read_call_output out r") auto
  show ?case
  proof (cases jo)
    case None
    then show ?thesis using Suc.prems q rel_rules(1) by simp
  next
    case (Some j)
    obtain st where st: "call_level V X W first temp j g r1 S = Some st"
      using Suc.prems q Some by (auto split: bind_splits)
    show ?thesis
    proof (cases st)
      case (Ended ok1 g1 r2 S1)
      then show ?thesis using Suc.prems q Some st rel_level [OF st] by simp
    next
      case (CallNext a g1 r2 S1)
      let ?x = "w_call W (m_curDepth S1) g1" and ?S2 = "S1\<lparr>m_curSenderAddr := m_curContractAddr S1, m_curContractAddr := a\<rparr>"
      have 1: "rel S S1" "rel S ?S2" using rel_level [OF st] CallNext rel_cong(2) [of ?S2 S1 S] by simp_all
      obtain okx r3 where x: "execute_process ?x r2 = (okx, r3)" by fastforce
      show ?thesis
      proof (cases okx)
        case False
        then show ?thesis using Suc.prems q Some st CallNext x 1 by (simp add: Let_def)
      next
        case True
        then obtain ok2 g2 r4 S3 where c: "call_chain n V X W False temp (run_output ?x) g1 r3 ?S2 = Some (ok2, g2, r4, S3)"
          using Suc.prems q Some st CallNext x by (auto simp: Let_def split: bind_splits)
        have 3: "rel S S3" using rel_step [OF 1(2) Suc.IH [OF c]] .
        obtain ok3 S4 where i: "IncreaseNonce (this_vt V) (sc_ledger X) (m_curContractAddr S1) S3 = (ok3, S4)" by fastforce
        have "S' = S3 \<or> S' = S4" using Suc.prems q Some st CallNext x True c i by (auto simp: Let_def split: if_splits)
        then show ?thesis using 3 rel_step [OF 3 this.frame_IncreaseNonce [OF i]] by blast
      qed
    qed
  qed
qed simp

lemma rel_erase: "rel S (vt_update (this_vt V) (AList.delete a) S)" "rel S (RemoveAccount (this_vt V) a S)"
proof -
  show 1: "rel S (vt_update (this_vt V) (AList.delete a) S)" for S by (rule rel_this_update)
  obtain q T where g: "vt_GetAccount (this_vt V) a S = (q, T)" by fastforce
  have "rel S T" by (rule rel_this_get [OF g])
  then show "rel S (RemoveAccount (this_vt V) a S)"
    using g rel_step [OF _ 1] by (simp add: RemoveAccount_def IsAccountExist_def)
qed

lemma rel_commit: "rel S (CommitTransferAtomic V S)"
proof -
  have 1: "rel T (commit_entry V e T)" for e T
  proof -
    obtain q U where g: "vt_GetAccount (this_vt V) (fst e) T = (q, U)" by fastforce
    show ?thesis using g this.frame_write_after_get [OF g] rel_step [OF rel_this_get [OF g] this.frame_AddAccount]
      by (simp add: commit_entry_def split: option.splits)
  qed
  have "rel S (fold (commit_entry V) es T)" if "rel S T" for es T
    using that by (induction es arbitrary: T) (simp, metis 1 rel_step fold_simps(2))
  then show ?thesis using rel_rules(1) by (simp add: CommitTransferAtomic_def)
qed

lemma rel_end_failed: "end_failed V E a c remove r S = Some (ok, r', S') \<Longrightarrow> rel S S'"
proof -
  assume e: "end_failed V E a c remove r S = Some (ok, r', S')"
  obtain q T where i: "IncreaseNonce (this_vt V) E a S = (q, T)" by fastforce
  have 1: "rel S T" by (rule this.frame_IncreaseNonce [OF i])
  show ?thesis using e i 1 rel_step [OF 1 rel_erase(2)] by (auto simp: end_failed_def split: bool.splits if_splits)
qed

lemma rel_nonce: "rel S T \<Longrightarrow> IncreaseNonce (this_vt V) E a T = (ok, U) \<Longrightarrow> rel S U"
  using rel_step this.frame_IncreaseNonce by blast

lemma rel_settle_call:
  assumes "settle_call V E tx a pen ret g r S = Some (ok, r', S')"
  shows "rel S S'"
proof -
  define g' where "g' = (if ret then g else min (tx_gasLimit tx - pen) g)"
  define S1 where "S1 = (if ret then CommitTransferAtomic V S else DiscardTransferAtomic S)"
  obtain okm ref where m: "USafe_mul (SafeMath128 E) (ucast g') (tx_gasPrice tx) 0 = (okm, ref)" by fastforce
  obtain oki S2 where i: "IncreaseBalance (this_vt V) E a ref S1 = (oki, S2)" by fastforce
  have 1: "rel S S1" using rel_commit rel_rules(3) by (simp add: S1_def DiscardTransferAtomic_def)
  have 2: "rel S S2" by (rule rel_step [OF 1 this.frame_IncreaseBalance [OF i]])
  obtain okn S3 where n: "IncreaseNonce (this_vt V) E a S2 = (okn, S3)" by fastforce
  have f: "rel S U" if "end_failed V E a 0 False q S2 = Some (ok, r', U)" for q U
    by (rule rel_step [OF 2 rel_end_failed [OF that]])
  note facts = m i n 1 2 rel_nonce [OF 2 n]
  show ?thesis
  proof (cases ret)
    case True
    then have e: "g = g'" "CommitTransferAtomic V S = S1" by (simp_all add: g'_def S1_def)
    show ?thesis using assms True facts unfolding settle_call_def e by (auto simp: Let_def split: bool.splits if_splits)
  next
    case False
    then have e: "min (tx_gasLimit tx - pen) g = g'" "DiscardTransferAtomic S = S1" by (simp_all add: g'_def S1_def)
    show ?thesis using assms False facts f unfolding settle_call_def e by (auto simp: Let_def split: bool.splits if_splits)
  qed
qed

lemma rel_settle_create:
  assumes "settle_create V E tx a c valid okc ret g r S = Some (ok, r', S')"
  shows "rel S S'"
proof -
  obtain okm ref where m: "USafe_mul (SafeMath128 E) (ucast g) (tx_gasPrice tx) 0 = (okm, ref)" by fastforce
  obtain oki S6 where i: "IncreaseBalance (this_vt V) E a ref S = (oki, S6)" by fastforce
  have 6: "rel S S6" by (rule this.frame_IncreaseBalance [OF i])
  have fail: "rel S T" if "end_failed V E a c True q U = Some (ok, r', T)" "rel S U" for q T U
    using rel_step [OF that(2) rel_end_failed [OF that(1)]] .
  have mv: "rel S T" if "(if valid then TransferBalance (this_vt V) E a c (tx_amount tx) S6 else Some (True, S6)) = Some (b, T)" for b T
    using that 6 rel_step [OF 6 this.frame_TransferBalance] by (auto split: if_splits)
  show ?thesis
  proof (cases "ret \<and> okc")
    case False
    then show ?thesis using assms m i 6 fail rel_erase rel_step [OF 6 rel_erase(1)]
      by (auto simp: settle_create_def Let_def split: bool.splits if_splits)
  next
    case True
    show ?thesis
    proof (cases "if valid then TransferBalance (this_vt V) E a c (tx_amount tx) S6 else Some (True, S6)")
      case None
      then have "S' = S6 \<or> S' = RemoveAccount (this_vt V) c S" using assms m i True
        by (auto simp: settle_create_def Let_def split: bool.splits if_splits)
      then show ?thesis using 6 rel_erase(2) by blast
    next
      case (Some p)
      obtain moved S7 where p: "p = (moved, S7)" by fastforce
      have 7: "rel S S7" using mv [OF Some [unfolded p]] .
      obtain okn S8 where n: "IncreaseNonce (this_vt V) E a S7 = (okn, S8)" by fastforce
      have "S' = S6 \<or> S' = RemoveAccount (this_vt V) c S \<or> S' = S8 \<or> (\<exists>q. end_failed V E a c True q S7 = Some (ok, r', S'))"
        using assms m i True Some p n by (auto simp: settle_create_def Let_def split: bool.splits if_splits)
      then show ?thesis using 6 rel_erase(2) rel_nonce [OF 7 n] fail [OF _ 7] by blast
    qed
  qed
qed

lemma rel_create:
  assumes "UpdateAccounts_create V X W blk tx dep temp r S = Some (ok, r', S')"
  shows "rel S S'"
proof -
  let ?T = "this_vt V :: ('s, 'd) SC store_vt" and ?E = "sc_ledger X" and ?a = "GetSenderAddr (sc_ossl X) tx"
  note defs = UpdateAccounts_create_def Let_def
  obtain q S1 where g1: "vt_GetAccount ?T ?a S = (q, S1)" by fastforce
  note 1 = rel_this_get [OF g1]
  show ?thesis
  proof (cases "\<exists>acc c. q = Some acc \<and> GetAddressForContract (sc_ossl X) ?a (m_nonce acc) = Some c")
    case False
    then show ?thesis using assms g1 1 by (auto simp: defs split: option.splits if_splits bind_splits)
  next
    case True
    then obtain acc c where c: "q = Some acc" "GetAddressForContract (sc_ossl X) ?a (m_nonce acc) = Some c" by blast
    let ?S2 = "AddAccount ?T c (Account_new 0 0 (ACCOUNT_VERSION ?E)) S1"
    obtain q3 S3 where g3: "vt_GetAccount ?T c ?S2 = (q3, S3)" by fastforce
    have 3: "rel S S3" by (rule rel_step [OF rel_step [OF 1 this.frame_AddAccount] rel_this_get [OF g3]])
    have 4: "rel S ((write_account ?T c acc' S3)\<lparr>sc_storage := C', m_curBlockNum := blk\<rparr>)" for acc' C'
      using rel_step [OF 3, of "write_account ?T c acc' S3"] rel_this_update rel_cong(2) [of "(write_account ?T c acc' S3)\<lparr>sc_storage := C', m_curBlockNum := blk\<rparr>" "write_account ?T c acc' S3" S]
      by (simp add: write_account_def)
    have fin: "rel S U" if "rel S T" "settle_create V ?E tx ?a c valid okc ret g rr T = Some (okk, rr', U)"
      for T U valid okc ret g rr okk rr' using rel_step [OF that(1) rel_settle_create [OF that(2)]] .
    have rem: "rel S (RemoveAccount ?T c T)" if "rel S T" for T using rel_step [OF that rel_erase(2)] .
    show ?thesis
    proof (cases "\<exists>acc3 oki acc' C'. q3 = Some acc3
        \<and> InitContract X W (tx_code tx) (tx_data tx) c blk temp acc3 (sc_storage S3) = Some (oki, acc', C')")
      case False
      then show ?thesis using assms g1 1 c g3 3 by (auto simp: defs split: option.splits if_splits bind_splits)
    next
      case True
      then obtain acc3 oki acc' C' where I: "q3 = Some acc3"
        "InitContract X W (tx_code tx) (tx_data tx) c blk temp acc3 (sc_storage S3) = Some (oki, acc', C')" by blast
      define S4 where "S4 = (write_account ?T c acc' S3)\<lparr>sc_storage := C', m_curBlockNum := blk\<rparr>"
      obtain okd S5 where d: "DecreaseBalance ?T ?E ?a dep S4 = (okd, S5)" by fastforce
      have r4: "rel S S4" unfolding S4_def by (rule 4)
      have r5: "rel S S5" by (rule rel_step [OF r4 this.frame_DecreaseBalance [OF d]])
      obtain okc ret g r1 where R: "run_create X W (tx_gasLimit tx) (gas_penalty (CONTRACT_CREATE_GAS ?E) (length (tx_code tx) + length (tx_data tx))) r = (okc, ret, g, r1)"
        by (metis prod_cases4)
      have "S' = S1 \<or> S' = RemoveAccount ?T c S4 \<or> S' = RemoveAccount ?T c S5
          \<or> (\<exists>valid. settle_create V ?E tx ?a c valid okc ret g r1 S5 = Some (ok, r', S'))"
        using assms g1 c g3 I d R unfolding S4_def [symmetric]
        by (auto simp: defs S4_def [symmetric] split: if_splits)
      then show ?thesis using 1 rem [OF r4] rem [OF r5] fin [OF r5] by blast
    qed
  qed
qed

lemma rel_run_call:
  assumes "run_call V X W limit temp r S = Some (ok, g, r', S')"
  shows "rel S S'"
proof -
  let ?x = "w_call W 0 limit"
  obtain okx r1 where x: "execute_process ?x r = (okx, r1)" by fastforce
  show ?thesis
  proof (cases okx)
    case False
    then show ?thesis using assms x rel_rules(1) by (simp add: run_call_def)
  next
    case True
    then obtain S1 where P: "ParseCallContract V X W temp (run_output ?x) limit r1 S = Some (ok, g, r', S1)" "sc_store S' = sc_store S1"
      using assms x by (auto simp: run_call_def split: bind_splits if_splits)
    then show ?thesis using rel_chain [OF P(1) [unfolded ParseCallContract_def]] rel_cong(2) [of S' S1 S] by simp
  qed
qed

lemma rel_call:
  assumes "UpdateAccounts_call V X W blk sh tx dep temp r S = Some (ok, r', S')"
  shows "rel S S'"
proof -
  let ?T = "this_vt V :: ('s, 'd) SC store_vt" and ?E = "sc_ledger X" and ?a = "GetSenderAddr (sc_ossl X) tx"
  note defs = UpdateAccounts_call_def Let_def
  obtain q S1 where g1: "vt_GetAccount ?T ?a S = (q, S1)" by fastforce
  note 1 = rel_this_get [OF g1]
  let ?S2 = "S1\<lparr>m_curSenderAddr := ?a, m_curDepth := 0\<rparr>"
  have 2: "rel S ?S2" using 1 rel_cong(2) [of ?S2 S1] by simp
  obtain q3 S3 where g3: "vt_GetAccount ?T (tx_toAddr tx) ?S2 = (q3, S3)" by fastforce
  have 3: "rel S S3" by (rule rel_step [OF 2 rel_this_get [OF g3]])
  let ?S4 = "DiscardTransferAtomic (S3\<lparr>m_curBlockNum := blk\<rparr>)"
  have 4: "rel S ?S4" "rel S (S3\<lparr>m_curBlockNum := blk\<rparr>)"
    using 3 rel_cong(2) [of ?S4 S3] rel_cong(2) [of "S3\<lparr>m_curBlockNum := blk\<rparr>" S3] by (simp_all add: DiscardTransferAtomic_def)
  obtain okd S5 where d: "DecreaseBalance ?T ?E ?a dep ?S4 = (okd, S5)" by fastforce
  have 5: "rel S S5" by (rule rel_step [OF 4(1) this.frame_DecreaseBalance [OF d]])
  let ?S6 = "S5\<lparr>m_curGasLimit := tx_gasLimit tx, m_curGasPrice := tx_gasPrice tx,
      m_curContractAddr := tx_toAddr tx, m_curAmount := tx_amount tx, m_curNumShards := sh\<rparr>"
  have 6: "rel S ?S6" using 5 rel_cong(2) [of ?S6 S5] by simp
  have fin: "rel S U" if "run_call V X W (tx_gasLimit tx) temp r ?S6 = Some (ret, g, r2, T)" "settle_call V ?E tx ?a pen ret g r2 T = Some (ok, r', U)"
    for ret g r2 T U pen using rel_step [OF 6 rel_step [OF rel_run_call [OF that(1)] rel_settle_call [OF that(2)]]] .
  show ?thesis using assms g1 1 g3 3 4 d 5 fin
    by (auto simp: defs split: option.splits if_splits bind_splits bool.splits)
qed

lemma rel_payment:
  assumes "UpdateAccounts_base (this_vt V) E B tx r S = Some (ok, r', S')"
  shows "rel S S'"
proof -
  let ?T = "this_vt V :: ('s, 'd) SC store_vt" and ?a = "GetAddressFromPublicKey B (tx_senderPubKey tx)"
  obtain q S1 where g1: "vt_GetAccount ?T ?a S = (q, S1)" by fastforce
  note 1 = rel_this_get [OF g1]
  obtain okm dep where m: "USafe_mul (SafeMath128 E) (ucast (tx_gasLimit tx)) (tx_gasPrice tx) 0 = (okm, dep)" by fastforce
  obtain okd S2 where d: "DecreaseBalance ?T E ?a dep S1 = (okd, S2)" by fastforce
  have 2: "rel S S2" by (rule rel_step [OF 1 this.frame_DecreaseBalance [OF d]])
  have t: "rel S T" if "TransferBalance ?T E ?a (tx_toAddr tx) (tx_amount tx) S2 = Some (b, T)" for b T
    by (rule rel_step [OF 2 this.frame_TransferBalance [OF that]])
  show ?thesis
  proof (cases "TransferBalance ?T E ?a (tx_toAddr tx) (tx_amount tx) S2")
    case None
    then show ?thesis using assms g1 m d 1 2 by (auto simp: UpdateAccounts_base_def Let_def split: option.splits if_splits bool.splits)
  next
    case (Some p)
    obtain b S3 where p: "p = (b, S3)" by fastforce
    have 3: "rel S S3" using t Some p by blast
    obtain oki S4 where i: "IncreaseBalance ?T E ?a dep S3 = (oki, S4)" by fastforce
    define ref where "ref = the (CalculateGasRefund E dep (normal_gas E) (tx_gasPrice tx))"
    obtain okr S5 where j: "IncreaseBalance ?T E ?a ref S3 = (okr, S5)" by fastforce
    obtain okn S6 where n: "IncreaseNonce ?T E ?a S5 = (okn, S6)" by fastforce
    have 4: "rel S S4" "rel S S5" using rel_step [OF 3 this.frame_IncreaseBalance] i j by blast+
    have "S' \<in> {S1, S2, S3, S4, S5, S6}" using assms g1 m d Some p i j n
      by (cases b) (auto simp: UpdateAccounts_base_def ref_def Let_def split: option.splits if_splits bool.splits)
    then show ?thesis using 1 2 3 4 rel_nonce [OF 4(2) n] by blast
  qed
qed

lemma UpdateAccounts_frame:
  assumes "UpdateAccounts V X W blk sh isDS tx temp r S = Some (ok, r', S')"
  shows "R (sc_store S) (sc_store S')"
proof -
  let ?S0 = "S\<lparr>m_curIsDS := isDS\<rparr>"
  have 0: "rel ?S0 T = rel S T" for T by (simp add: rel_def)
  obtain q S1 where g: "vt_GetAccount (this_vt V) (tx_toAddr tx) ?S0 = (q, S1)" by fastforce
  have 1: "rel ?S0 S1" by (rule rel_this_get [OF g])
  have pay: "UpdateAccounts_base (this_vt V) (sc_ledger X) (sc_ossl X) tx r S1 = Some (ok, r', S') \<Longrightarrow> rel ?S0 S'"
    using rel_step [OF 1 rel_payment] .
  have "rel ?S0 S'" using assms g 1 pay rel_create rel_call rel_rules(1) [of ?S0]
    by (auto simp: UpdateAccounts_def Let_def split: prod.splits bool.splits option.splits if_splits ContractType.splits)
  then show ?thesis by (simp add: rel_def)
qed

end

end
