(* ===== verification/BlockStorage.thy ===== *)
theory BlockStorage
  imports Messenger LevelDB
begin

text \<open>
  The persistent storage of \<open>libPersistence/BlockStorage.cpp\<close>: one database per kind of record, the
  diagnostic counters, and the block links of \<open>Messenger::SetBlockLink\<close> and \<open>GetBlockLink\<close> that it stores; and
  \<open>Retriever::CleanExtraTxBodies\<close>, the recovery step that uses two of the databases together.

  An operation returns \<open>None\<close> when it dereferences a null pointer (a database that could not be
  opened, or one that only lookup nodes have) and otherwise its result and the new state. The
  constructors that read blocks from octets are parameters.
\<close>

section \<open>Block links\<close>

text \<open>\<open>BlockType\<close> is an enumeration over \<open>unsigned int\<close>; a value read from a message is cast into it
  unchecked and may be none of the enumerators.\<close>

type_synonym BlockType = nat

definition BlockType_DS :: BlockType where "BlockType_DS = 0"
definition BlockType_Tx :: BlockType where "BlockType_Tx = 1"
definition BlockType_VC :: BlockType where "BlockType_VC = 2"
definition BlockType_FB :: BlockType where "BlockType_FB = 3"

record BlockLink =
  bl_version :: nat
  bl_index :: nat
  bl_dsindex :: nat
  bl_blocktype :: BlockType
  bl_blockhash :: bytes

definition BlockLink_default :: BlockLink where
  "BlockLink_default =
     \<lparr>bl_version = 0, bl_index = 0, bl_dsindex = 0, bl_blocktype = BlockType_DS, bl_blockhash = replicate 32 0\<rparr>"

text \<open>The protobuf message; a field that is not set is \<open>None\<close>.\<close>

record ProtoBlockLink =
  pbl_version :: "nat option"
  pbl_index :: "nat option"
  pbl_dsindex :: "nat option"
  pbl_blocktype :: "nat option"
  pbl_blockhash :: "bytes option"

record blocklink_protobuf =
  BlockLinkFromArray :: "bytes \<Rightarrow> ProtoBlockLink"
  BlockLinkToArray :: "ProtoBlockLink \<Rightarrow> bytes"

definition proto_of_link :: "BlockLink \<Rightarrow> ProtoBlockLink" where
  "proto_of_link blocklink =
     \<lparr>pbl_version = Some (bl_version blocklink), pbl_index = Some (bl_index blocklink),
      pbl_dsindex = Some (bl_dsindex blocklink), pbl_blocktype = Some (bl_blocktype blocklink),
      pbl_blockhash = Some (bl_blockhash blocklink)\<rparr>"

text \<open>A link whose members have the widths of the C++ types.\<close>

definition link_fits :: "BlockLink \<Rightarrow> bool" where
  "link_fits x \<longleftrightarrow> bl_version x < 2 ^ 32 \<and> bl_index x < 2 ^ 64 \<and> bl_dsindex x < 2 ^ 64 \<and> bl_blocktype x < 2 ^ 32
     \<and> length (bl_blockhash x) = 32"

definition blocklink_protobuf_ok :: "blocklink_protobuf \<Rightarrow> bool" where
  "blocklink_protobuf_ok P \<longleftrightarrow>
     (\<forall>m. length (BlockLinkToArray P m) < 2 ^ 31 \<longrightarrow> BlockLinkFromArray P (BlockLinkToArray P m) = m)
     \<and> (\<forall>x. link_fits x \<longrightarrow> BlockLinkToArray P (proto_of_link x) \<noteq> []
            \<and> length (BlockLinkToArray P (proto_of_link x)) < 2 ^ 31)"

definition CheckRequiredFieldsProtoBlockLink :: "ProtoBlockLink \<Rightarrow> bool" where
  "CheckRequiredFieldsProtoBlockLink m \<longleftrightarrow>
     pbl_version m \<noteq> None \<and> pbl_index m \<noteq> None \<and> pbl_dsindex m \<noteq> None \<and> pbl_blocktype m \<noteq> None
     \<and> pbl_blockhash m \<noteq> None"

definition Messenger_SetBlockLink ::
    "blocklink_protobuf \<Rightarrow> bytes \<Rightarrow> nat \<Rightarrow> BlockLink \<Rightarrow> (bytes \<times> bool) option" where
  "Messenger_SetBlockLink P dst offset blocklink =
     SerializeToArray (BlockLinkToArray P (proto_of_link blocklink)) dst offset"

definition Messenger_GetBlockLink :: "blocklink_protobuf \<Rightarrow> bytes \<Rightarrow> nat \<Rightarrow> BlockLink option" where
  "Messenger_GetBlockLink P src offset =
     (if offset \<ge> length src then None
      else let result = BlockLinkFromArray P (drop offset src)
           in if \<not> CheckRequiredFieldsProtoBlockLink result then None
              else if length (the (pbl_blockhash result)) \<noteq> 32 then None
              else Some \<lparr>bl_version = the (pbl_version result), bl_index = the (pbl_index result),
                         bl_dsindex = the (pbl_dsindex result), bl_blocktype = the (pbl_blocktype result),
                         bl_blockhash = the (pbl_blockhash result)\<rparr>)"

section \<open>State\<close>

text \<open>The two databases of transaction bodies exist on lookup nodes only. \<open>m_txnHistoricalDB\<close> and
  \<open>m_MBHistoricalDB\<close> exist once \<open>InitiateHistoricalDB\<close> has been called.\<close>

record 'd BlockStorage =
  m_metadataDB :: "'d LevelDB"
  m_dsBlockchainDB :: "'d LevelDB"
  m_txBlockchainDB :: "'d LevelDB"
  m_txBodyDB :: "'d LevelDB option"
  m_microBlockDB :: "'d LevelDB"
  m_txBodyTmpDB :: "'d LevelDB option"
  m_dsCommitteeDB :: "'d LevelDB"
  m_VCBlockDB :: "'d LevelDB"
  m_fallbackBlockDB :: "'d LevelDB"
  m_blockLinkDB :: "'d LevelDB"
  m_shardStructureDB :: "'d LevelDB"
  m_stateDeltaDB :: "'d LevelDB"
  m_tempStateDB :: "'d LevelDB"
  m_diagnosticDBNodes :: "'d LevelDB"
  m_diagnosticDBCoinbase :: "'d LevelDB"
  m_stateRootDB :: "'d LevelDB"
  m_diagnosticDBNodesCounter :: nat
  m_diagnosticDBCoinbaseCounter :: nat

datatype DBTYPE = META | DS_BLOCK | TX_BLOCK | TX_BODY | TX_BODY_TMP | MICROBLOCK | DS_COMMITTEE
  | VC_BLOCK | FB_BLOCK | BLOCKLINK | SHARD_STRUCTURE | STATE_DELTA | TEMP_STATE | DIAGNOSTIC_NODES
  | DIAGNOSTIC_COINBASE | STATE_ROOT

definition STATEROOT :: nat where "STATEROOT = 0"
definition DSINCOMPLETED :: nat where "DSINCOMPLETED = 1"
definition LATESTACTIVEDSBLOCKNUM :: nat where "LATESTACTIVEDSBLOCKNUM = 2"
definition WAKEUPFORUPGRADE :: nat where "WAKEUPFORUPGRADE = 3"
definition LATEST_EPOCH_STATES_UPDATED :: nat where "LATEST_EPOCH_STATES_UPDATED = 4"

section \<open>Blocks\<close>

definition PutMetadata ::
    "'d leveldb \<Rightarrow> nat \<Rightarrow> bytes \<Rightarrow> 'd BlockStorage \<Rightarrow> (bool \<times> 'd BlockStorage) option" where
  "PutMetadata D type data S = do {
     (L, ret) \<leftarrow> LevelDB_Insert D (m_metadataDB S) (to_decimal type) data;
     Some (ret = 0, S\<lparr>m_metadataDB := L\<rparr>) }"

definition DeleteDSBlock ::
    "'d leveldb \<Rightarrow> nat \<Rightarrow> 'd BlockStorage \<Rightarrow> (bool \<times> 'd BlockStorage) option" where
  "DeleteDSBlock D blocknum S = do {
     (L, ret) \<leftarrow> LevelDB_DeleteKey D (m_dsBlockchainDB S) (to_decimal blocknum);
     Some (ret = 0, S\<lparr>m_dsBlockchainDB := L\<rparr>) }"

definition PutBlock ::
    "'d leveldb \<Rightarrow> nat \<Rightarrow> bytes \<Rightarrow> BlockType \<Rightarrow> 'd BlockStorage \<Rightarrow> (bool \<times> 'd BlockStorage) option" where
  "PutBlock D blockNum body blockType S =
     (if blockType = BlockType_DS then do {
        (L, ret) \<leftarrow> LevelDB_Insert D (m_dsBlockchainDB S) (to_decimal blockNum) body;
        Some (ret = 0, S\<lparr>m_dsBlockchainDB := L\<rparr>) }
      else if blockType = BlockType_Tx then do {
        (L, ret) \<leftarrow> LevelDB_Insert D (m_txBlockchainDB S) (to_decimal blockNum) body;
        Some (ret = 0, S\<lparr>m_txBlockchainDB := L\<rparr>) }
      else Some (False, S))"

definition PutDSBlock ::
    "'d leveldb \<Rightarrow> nat \<Rightarrow> bytes \<Rightarrow> 'd BlockStorage \<Rightarrow> (bool \<times> 'd BlockStorage) option" where
  "PutDSBlock D blockNum body S = do {
     (stored, S1) \<leftarrow> PutBlock D blockNum body BlockType_DS S;
     if stored then do {
       (marked, S2) \<leftarrow> PutMetadata D DSINCOMPLETED [49] S1;
       if marked then Some (True, S2)
       else do { (_, S3) \<leftarrow> DeleteDSBlock D blockNum S2; Some (False, S3) } }
     else Some (False, S1) }"

definition PutTxBlock ::
    "'d leveldb \<Rightarrow> nat \<Rightarrow> bytes \<Rightarrow> 'd BlockStorage \<Rightarrow> (bool \<times> 'd BlockStorage) option" where
  "PutTxBlock D blockNum body S = PutBlock D blockNum body BlockType_Tx S"

definition PutVCBlock ::
    "'d leveldb \<Rightarrow> bytes \<Rightarrow> bytes \<Rightarrow> 'd BlockStorage \<Rightarrow> (bool \<times> 'd BlockStorage) option" where
  "PutVCBlock D blkhash body S = do {
     (L, ret) \<leftarrow> LevelDB_Insert D (m_VCBlockDB S) (toHex blkhash) body;
     Some (ret = 0, S\<lparr>m_VCBlockDB := L\<rparr>) }"

definition PutFallbackBlock ::
    "'d leveldb \<Rightarrow> bytes \<Rightarrow> bytes \<Rightarrow> 'd BlockStorage \<Rightarrow> (bool \<times> 'd BlockStorage) option" where
  "PutFallbackBlock D blkhash body S = do {
     (L, ret) \<leftarrow> LevelDB_Insert D (m_fallbackBlockDB S) (toHex blkhash) body;
     Some (ret = 0, S\<lparr>m_fallbackBlockDB := L\<rparr>) }"

definition PutMicroBlock ::
    "'d leveldb \<Rightarrow> bytes \<Rightarrow> bytes \<Rightarrow> 'd BlockStorage \<Rightarrow> (bool \<times> 'd BlockStorage) option" where
  "PutMicroBlock D blockHash body S = do {
     (L, ret) \<leftarrow> LevelDB_Insert D (m_microBlockDB S) (toHex blockHash) body;
     Some (ret = 0, S\<lparr>m_microBlockDB := L\<rparr>) }"

definition PutBlockLink ::
    "'d leveldb \<Rightarrow> nat \<Rightarrow> bytes \<Rightarrow> 'd BlockStorage \<Rightarrow> (bool \<times> 'd BlockStorage) option" where
  "PutBlockLink D index body S = do {
     (L, ret) \<leftarrow> LevelDB_Insert D (m_blockLinkDB S) (to_decimal index) body;
     Some (ret = 0, S\<lparr>m_blockLinkDB := L\<rparr>) }"

text \<open>The body every reader of a block shares: an empty string is not found.\<close>

definition read_block :: "'d leveldb \<Rightarrow> 'd LevelDB \<Rightarrow> bytes \<Rightarrow> (bytes \<Rightarrow> 'b) \<Rightarrow> 'b option option" where
  "read_block D L key construct = do {
     blockString \<leftarrow> LevelDB_Lookup D L key;
     Some (if blockString = [] then None else Some (construct blockString)) }"

definition GetDSBlock :: "'d leveldb \<Rightarrow> (bytes \<Rightarrow> 'b) \<Rightarrow> nat \<Rightarrow> 'd BlockStorage \<Rightarrow> 'b option option" where
  "GetDSBlock D DSBlock blockNum S = read_block D (m_dsBlockchainDB S) (to_decimal blockNum) DSBlock"

definition GetTxBlock :: "'d leveldb \<Rightarrow> (bytes \<Rightarrow> 'b) \<Rightarrow> nat \<Rightarrow> 'd BlockStorage \<Rightarrow> 'b option option" where
  "GetTxBlock D TxBlock blockNum S = read_block D (m_txBlockchainDB S) (to_decimal blockNum) TxBlock"

definition GetVCBlock :: "'d leveldb \<Rightarrow> (bytes \<Rightarrow> 'b) \<Rightarrow> bytes \<Rightarrow> 'd BlockStorage \<Rightarrow> 'b option option" where
  "GetVCBlock D VCBlock blkhash S = read_block D (m_VCBlockDB S) (toHex blkhash) VCBlock"

definition GetFallbackBlock :: "'d leveldb \<Rightarrow> (bytes \<Rightarrow> 'b) \<Rightarrow> bytes \<Rightarrow> 'd BlockStorage \<Rightarrow> 'b option option" where
  "GetFallbackBlock D FallbackBlock blkhash S =
     read_block D (m_fallbackBlockDB S) (toHex blkhash) FallbackBlock"

definition GetMicroBlock :: "'d leveldb \<Rightarrow> (bytes \<Rightarrow> 'b) \<Rightarrow> bytes \<Rightarrow> 'd BlockStorage \<Rightarrow> 'b option option" where
  "GetMicroBlock D MicroBlock blockHash S = read_block D (m_microBlockDB S) (toHex blockHash) MicroBlock"

definition GetBlockLink ::
    "'d leveldb \<Rightarrow> blocklink_protobuf \<Rightarrow> nat \<Rightarrow> nat \<Rightarrow> 'd BlockStorage \<Rightarrow> BlockLink option option" where
  "GetBlockLink D P BLOCKLINK_VERSION index S = do {
     blockString \<leftarrow> LevelDB_Lookup D (m_blockLinkDB S) (to_decimal index);
     Some (if blockString = [] then None
           else case Messenger_GetBlockLink P blockString 0 of
                  None \<Rightarrow> None
                | Some blnk \<Rightarrow> if bl_version blnk \<noteq> BLOCKLINK_VERSION then None else Some blnk) }"

definition DeleteVCBlock :: "'d leveldb \<Rightarrow> bytes \<Rightarrow> 'd BlockStorage \<Rightarrow> (bool \<times> 'd BlockStorage) option" where
  "DeleteVCBlock D blkhash S = do {
     (L, ret) \<leftarrow> LevelDB_DeleteKey D (m_VCBlockDB S) (toHex blkhash);
     Some (ret = 0, S\<lparr>m_VCBlockDB := L\<rparr>) }"

definition DeleteFallbackBlock :: "'d leveldb \<Rightarrow> bytes \<Rightarrow> 'd BlockStorage \<Rightarrow> (bool \<times> 'd BlockStorage) option" where
  "DeleteFallbackBlock D blkhash S = do {
     (L, ret) \<leftarrow> LevelDB_DeleteKey D (m_fallbackBlockDB S) (toHex blkhash);
     Some (ret = 0, S\<lparr>m_fallbackBlockDB := L\<rparr>) }"

definition DeleteTxBlock :: "'d leveldb \<Rightarrow> nat \<Rightarrow> 'd BlockStorage \<Rightarrow> (bool \<times> 'd BlockStorage) option" where
  "DeleteTxBlock D blocknum S = do {
     (L, ret) \<leftarrow> LevelDB_DeleteKey D (m_txBlockchainDB S) (to_decimal blocknum);
     Some (ret = 0, S\<lparr>m_txBlockchainDB := L\<rparr>) }"

text \<open>The loop of \<open>GetAllDSBlocks\<close> and \<open>GetAllTxBlocks\<close>, and the one of \<open>GetAllBlockLink\<close>.\<close>

fun read_all_blocks :: "(bytes \<Rightarrow> 'b) \<Rightarrow> (bytes \<times> bytes) list \<Rightarrow> 'b list \<Rightarrow> bool \<times> 'b list" where
  "read_all_blocks construct [] blocks = (blocks \<noteq> [], blocks)"
| "read_all_blocks construct ((key, blockString) # entries) blocks =
     (if blockString = [] then (False, blocks)
      else read_all_blocks construct entries (blocks @ [construct blockString]))"

definition GetAllDSBlocks ::
    "'d leveldb \<Rightarrow> (bytes \<Rightarrow> 'b) \<Rightarrow> 'b list \<Rightarrow> 'd BlockStorage \<Rightarrow> (bool \<times> 'b list) option" where
  "GetAllDSBlocks D DSBlock blocks S = do {
     entries \<leftarrow> LevelDB_Entries D (m_dsBlockchainDB S);
     Some (read_all_blocks DSBlock entries blocks) }"

definition GetAllTxBlocks ::
    "'d leveldb \<Rightarrow> (bytes \<Rightarrow> 'b) \<Rightarrow> 'b list \<Rightarrow> 'd BlockStorage \<Rightarrow> (bool \<times> 'b list) option" where
  "GetAllTxBlocks D TxBlock blocks S = do {
     entries \<leftarrow> LevelDB_Entries D (m_txBlockchainDB S);
     Some (read_all_blocks TxBlock entries blocks) }"

fun read_all_links ::
    "blocklink_protobuf \<Rightarrow> nat \<Rightarrow> (bytes \<times> bytes) list \<Rightarrow> BlockLink list \<Rightarrow> bool \<times> BlockLink list" where
  "read_all_links P ver [] blocklinks = (blocklinks \<noteq> [], blocklinks)"
| "read_all_links P ver ((key, blockString) # entries) blocklinks =
     (if blockString = [] then (False, blocklinks)
      else case Messenger_GetBlockLink P blockString 0 of
             None \<Rightarrow> (False, blocklinks)
           | Some blcklink \<Rightarrow>
               if bl_version blcklink \<noteq> ver then (False, blocklinks)
               else read_all_links P ver entries (blocklinks @ [blcklink]))"

definition GetAllBlockLink ::
    "'d leveldb \<Rightarrow> blocklink_protobuf \<Rightarrow> nat \<Rightarrow> BlockLink list \<Rightarrow> 'd BlockStorage
     \<Rightarrow> (bool \<times> BlockLink list) option" where
  "GetAllBlockLink D P BLOCKLINK_VERSION blocklinks S = do {
     entries \<leftarrow> LevelDB_Entries D (m_blockLinkDB S);
     Some (read_all_links P BLOCKLINK_VERSION entries blocklinks) }"

section \<open>Transaction bodies\<close>

text \<open>\<open>ret\<close> is the logical conjunction of two return codes: the second insertion runs only when the first
  one failed, and the result is success unless both failed.\<close>

definition PutTxBody ::
    "bool \<Rightarrow> 'd leveldb \<Rightarrow> bytes \<Rightarrow> bytes \<Rightarrow> 'd BlockStorage \<Rightarrow> (bool \<times> 'd BlockStorage) option" where
  "PutTxBody LOOKUP_NODE_MODE D key body S =
     (if \<not> LOOKUP_NODE_MODE then Some (False, S)
      else do {
        bodyDB \<leftarrow> m_txBodyDB S;
        (L, rc) \<leftarrow> LevelDB_Insert D bodyDB (toHex key) body;
        let S1 = S\<lparr>m_txBodyDB := Some L\<rparr>;
        if rc = 0 then Some (True, S1)
        else do {
          tmpDB \<leftarrow> m_txBodyTmpDB S1;
          (L', rc') \<leftarrow> LevelDB_Insert D tmpDB (toHex key) body;
          Some (rc' = 0, S1\<lparr>m_txBodyTmpDB := Some L'\<rparr>) } })"

definition GetTxBody :: "'d leveldb \<Rightarrow> (bytes \<Rightarrow> 'b) \<Rightarrow> bytes \<Rightarrow> 'd BlockStorage \<Rightarrow> 'b option option" where
  "GetTxBody D TxBody key S = do {
     L \<leftarrow> m_txBodyDB S;
     read_block D L (toHex key) TxBody }"

definition DeleteTxBody ::
    "bool \<Rightarrow> 'd leveldb \<Rightarrow> bytes \<Rightarrow> 'd BlockStorage \<Rightarrow> (bool \<times> 'd BlockStorage) option" where
  "DeleteTxBody LOOKUP_NODE_MODE D key S =
     (if \<not> LOOKUP_NODE_MODE then Some (False, S)
      else do {
        bodyDB \<leftarrow> m_txBodyDB S;
        (L, ret) \<leftarrow> LevelDB_DeleteKey D bodyDB (toHex key);
        Some (ret = 0, S\<lparr>m_txBodyDB := Some L\<rparr>) })"

fun read_hashes :: "(bytes \<times> bytes) list \<Rightarrow> bytes list \<Rightarrow> (bool \<times> bytes list) option" where
  "read_hashes [] txnHashes = Some (True, txnHashes)"
| "read_hashes ((hashString, body) # entries) txnHashes =
     (if hashString = [] then Some (False, txnHashes)
      else do {
        txnHash \<leftarrow> FixedHash_from_hex hashString;
        read_hashes entries (txnHashes @ [txnHash]) })"

definition GetAllTxBodiesTmp ::
    "bool \<Rightarrow> 'd leveldb \<Rightarrow> bytes list \<Rightarrow> 'd BlockStorage \<Rightarrow> (bool \<times> bytes list) option" where
  "GetAllTxBodiesTmp LOOKUP_NODE_MODE D txnHashes S =
     (if \<not> LOOKUP_NODE_MODE then Some (True, txnHashes)
      else do {
        L \<leftarrow> m_txBodyTmpDB S;
        entries \<leftarrow> LevelDB_Entries D L;
        read_hashes entries txnHashes })"

section \<open>Metadata, state root, state deltas\<close>

definition PutStateRoot :: "'d leveldb \<Rightarrow> bytes \<Rightarrow> 'd BlockStorage \<Rightarrow> (bool \<times> 'd BlockStorage) option" where
  "PutStateRoot D data S = do {
     (L, ret) \<leftarrow> LevelDB_Insert D (m_stateRootDB S) (to_decimal STATEROOT) data;
     Some (ret = 0, S\<lparr>m_stateRootDB := L\<rparr>) }"

definition PutLatestEpochStatesUpdated ::
    "'d leveldb \<Rightarrow> nat \<Rightarrow> 'd BlockStorage \<Rightarrow> (bool \<times> 'd BlockStorage) option" where
  "PutLatestEpochStatesUpdated D epochNum S = do {
     (L, ret) \<leftarrow> LevelDB_Insert D (m_stateRootDB S) (to_decimal LATEST_EPOCH_STATES_UPDATED) (to_decimal epochNum);
     Some (ret = 0, S\<lparr>m_stateRootDB := L\<rparr>) }"

definition GetMetadata :: "'d leveldb \<Rightarrow> nat \<Rightarrow> 'd BlockStorage \<Rightarrow> bytes option option" where
  "GetMetadata D type S = read_block D (m_metadataDB S) (to_decimal type) (\<lambda>s. s)"

definition GetStateRoot :: "'d leveldb \<Rightarrow> 'd BlockStorage \<Rightarrow> bytes option option" where
  "GetStateRoot D S = read_block D (m_stateRootDB S) (to_decimal STATEROOT) (\<lambda>s. s)"

definition GetLatestEpochStatesUpdated :: "'d leveldb \<Rightarrow> 'd BlockStorage \<Rightarrow> nat option option" where
  "GetLatestEpochStatesUpdated D S = do {
     epochNumStr \<leftarrow> LevelDB_Lookup D (m_stateRootDB S) (to_decimal LATEST_EPOCH_STATES_UPDATED);
     Some (if epochNumStr = [] then None else stoul epochNumStr) }"

definition PutStateDelta ::
    "'d leveldb \<Rightarrow> nat \<Rightarrow> bytes \<Rightarrow> 'd BlockStorage \<Rightarrow> (bool \<times> 'd BlockStorage) option" where
  "PutStateDelta D finalBlockNum stateDelta S = do {
     (L, ret) \<leftarrow> LevelDB_Insert D (m_stateDeltaDB S) (to_decimal finalBlockNum) stateDelta;
     Some (ret = 0, S\<lparr>m_stateDeltaDB := L\<rparr>) }"

definition GetStateDelta :: "'d leveldb \<Rightarrow> nat \<Rightarrow> 'd BlockStorage \<Rightarrow> bytes option option" where
  "GetStateDelta D finalBlockNum S = do {
     (dataStr, found) \<leftarrow> LevelDB_Lookup_found D (m_stateDeltaDB S) (to_decimal finalBlockNum);
     Some (if found then Some dataStr else None) }"

section \<open>The DS committee\<close>

text \<open>The leader's number is stored under 0 and the members from 1 on. One buffer serves all members.\<close>

fun put_members ::
    "'pt openssl \<Rightarrow> 'd leveldb \<Rightarrow> nat \<Rightarrow> bytes \<Rightarrow> 'pt DequeOfNode \<Rightarrow> 'd LevelDB \<Rightarrow> (bool \<times> 'd LevelDB) option" where
  "put_members B D index data [] L = Some (True, L)"
| "put_members B D index data ((key, peer) # ds) L = do {
     (data2, _) \<leftarrow> Peer_Serialize (fst (PubKey_Serialize B data 0 key)) (snd (PubKey_Serialize B data 0 key)) peer;
     (L', rc) \<leftarrow> LevelDB_Insert D L (to_decimal index) data2;
     if rc \<noteq> 0 then Some (False, L')
     else put_members B D (u32 (index + 1)) data2 ds L' }"

definition PutDSCommittee ::
    "bool \<Rightarrow> 'pt openssl \<Rightarrow> 'd leveldb \<Rightarrow> 'pt DequeOfNode \<Rightarrow> nat \<Rightarrow> 'd BlockStorage
     \<Rightarrow> (bool \<times> 'd BlockStorage) option" where
  "PutDSCommittee LOOKUP_NODE_MODE B D dsCommittee consensusLeaderID S = do {
     let L = fst (LevelDB_ResetDB LOOKUP_NODE_MODE D (m_dsCommitteeDB S));
     (L1, rc) \<leftarrow> LevelDB_Insert D L (to_decimal 0) (to_decimal consensusLeaderID);
     if rc \<noteq> 0 then Some (False, S\<lparr>m_dsCommitteeDB := L1\<rparr>)
     else do {
       (ok, L2) \<leftarrow> put_members B D 1 [] dsCommittee L1;
       Some (ok, S\<lparr>m_dsCommitteeDB := L2\<rparr>) } }"

text \<open>The reading loop stops at the first number without an entry. It does not return when there is
  an entry for every 32-bit number.\<close>

partial_function (option) read_members ::
    "'pt openssl \<Rightarrow> 'd leveldb \<Rightarrow> 'd LevelDB \<Rightarrow> nat \<Rightarrow> 'pt DequeOfNode \<Rightarrow> 'pt DequeOfNode option" where
  "read_members B D L index dsCommittee =
     (case LevelDB_Lookup D L (to_decimal index) of
        None \<Rightarrow> None
      | Some dataStr \<Rightarrow>
          if dataStr = [] then Some dsCommittee
          else if length dataStr < 33 then None
          else read_members B D L (u32 (index + 1))
                 (dsCommittee @ [(PubKey_from_bytes B (take 33 dataStr) 0, Peer_from_bytes (drop 33 dataStr) 0)]))"

declare read_members.simps [code]

definition GetDSCommittee ::
    "'pt openssl \<Rightarrow> 'd leveldb \<Rightarrow> 'pt DequeOfNode \<Rightarrow> 'd BlockStorage \<Rightarrow> ('pt DequeOfNode \<times> nat) option option" where
  "GetDSCommittee B D dsCommittee S = do {
     strConsensusLeaderID \<leftarrow> LevelDB_Lookup D (m_dsCommitteeDB S) (to_decimal 0);
     if strConsensusLeaderID = [] then Some None
     else case stoul strConsensusLeaderID of
            None \<Rightarrow> Some None
          | Some leader \<Rightarrow> do {
              members \<leftarrow> read_members B D (m_dsCommitteeDB S) 1 dsCommittee;
              Some (Some (members, u16 leader)) } }"

section \<open>Diagnostic data\<close>

text \<open>The serialisers of \<open>Messenger\<close> are parameters: \<open>data\<close> is what they produce, \<open>None\<close> for a failure.\<close>

definition PutDiagnosticDataNodes ::
    "'d leveldb \<Rightarrow> nat \<Rightarrow> bytes option \<Rightarrow> 'd BlockStorage \<Rightarrow> (bool \<times> 'd BlockStorage) option" where
  "PutDiagnosticDataNodes D dsBlockNum data S =
     (case data of
        None \<Rightarrow> Some (False, S)
      | Some bs \<Rightarrow> do {
          (L, rc) \<leftarrow> LevelDB_Insert D (m_diagnosticDBNodes S) (to_decimal dsBlockNum) bs;
          let S1 = S\<lparr>m_diagnosticDBNodes := L\<rparr>;
          if rc \<noteq> 0 then Some (False, S1)
          else Some (True, S1\<lparr>m_diagnosticDBNodesCounter := u32 (m_diagnosticDBNodesCounter S + 1)\<rparr>) })"

definition PutDiagnosticDataCoinbase ::
    "'d leveldb \<Rightarrow> nat \<Rightarrow> bytes option \<Rightarrow> 'd BlockStorage \<Rightarrow> (bool \<times> 'd BlockStorage) option" where
  "PutDiagnosticDataCoinbase D dsBlockNum data S =
     (case data of
        None \<Rightarrow> Some (False, S)
      | Some bs \<Rightarrow> do {
          (L, rc) \<leftarrow> LevelDB_Insert D (m_diagnosticDBCoinbase S) (to_decimal dsBlockNum) bs;
          let S1 = S\<lparr>m_diagnosticDBCoinbase := L\<rparr>;
          if rc \<noteq> 0 then Some (False, S1)
          else Some (True, S1\<lparr>m_diagnosticDBCoinbaseCounter := u32 (m_diagnosticDBCoinbaseCounter S + 1)\<rparr>) })"

definition GetDiagnosticDataNodesCount :: "'d BlockStorage \<Rightarrow> nat" where
  "GetDiagnosticDataNodesCount S = m_diagnosticDBNodesCounter S"

definition GetDiagnosticDataCoinbaseCount :: "'d BlockStorage \<Rightarrow> nat" where
  "GetDiagnosticDataCoinbaseCount S = m_diagnosticDBCoinbaseCounter S"

definition DeleteDiagnosticDataNodes ::
    "'d leveldb \<Rightarrow> nat \<Rightarrow> 'd BlockStorage \<Rightarrow> (bool \<times> 'd BlockStorage) option" where
  "DeleteDiagnosticDataNodes D dsBlockNum S = do {
     (L, rc) \<leftarrow> LevelDB_DeleteKey D (m_diagnosticDBNodes S) (to_decimal dsBlockNum);
     let S1 = S\<lparr>m_diagnosticDBNodes := L\<rparr>;
     if rc = 0 then Some (True, S1\<lparr>m_diagnosticDBNodesCounter := sub32 (m_diagnosticDBNodesCounter S) 1\<rparr>)
     else Some (False, S1) }"

definition DeleteDiagnosticDataCoinbase ::
    "'d leveldb \<Rightarrow> nat \<Rightarrow> 'd BlockStorage \<Rightarrow> (bool \<times> 'd BlockStorage) option" where
  "DeleteDiagnosticDataCoinbase D dsBlockNum S = do {
     (L, rc) \<leftarrow> LevelDB_DeleteKey D (m_diagnosticDBCoinbase S) (to_decimal dsBlockNum);
     let S1 = S\<lparr>m_diagnosticDBCoinbase := L\<rparr>;
     if rc = 0 then Some (True, S1\<lparr>m_diagnosticDBCoinbaseCounter := sub32 (m_diagnosticDBCoinbaseCounter S) 1\<rparr>)
     else Some (False, S1) }"

section \<open>Resetting and refreshing\<close>

text \<open>The database a type names, \<open>None\<close> for a null pointer, and the state with it replaced.\<close>

fun db_of :: "DBTYPE \<Rightarrow> 'd BlockStorage \<Rightarrow> 'd LevelDB option" where
  "db_of META S = Some (m_metadataDB S)"
| "db_of DS_BLOCK S = Some (m_dsBlockchainDB S)"
| "db_of TX_BLOCK S = Some (m_txBlockchainDB S)"
| "db_of TX_BODY S = m_txBodyDB S"
| "db_of TX_BODY_TMP S = m_txBodyTmpDB S"
| "db_of MICROBLOCK S = Some (m_microBlockDB S)"
| "db_of DS_COMMITTEE S = Some (m_dsCommitteeDB S)"
| "db_of VC_BLOCK S = Some (m_VCBlockDB S)"
| "db_of FB_BLOCK S = Some (m_fallbackBlockDB S)"
| "db_of BLOCKLINK S = Some (m_blockLinkDB S)"
| "db_of SHARD_STRUCTURE S = Some (m_shardStructureDB S)"
| "db_of STATE_DELTA S = Some (m_stateDeltaDB S)"
| "db_of TEMP_STATE S = Some (m_tempStateDB S)"
| "db_of DIAGNOSTIC_NODES S = Some (m_diagnosticDBNodes S)"
| "db_of DIAGNOSTIC_COINBASE S = Some (m_diagnosticDBCoinbase S)"
| "db_of STATE_ROOT S = Some (m_stateRootDB S)"

fun set_db :: "DBTYPE \<Rightarrow> 'd LevelDB \<Rightarrow> 'd BlockStorage \<Rightarrow> 'd BlockStorage" where
  "set_db META L S = S\<lparr>m_metadataDB := L\<rparr>"
| "set_db DS_BLOCK L S = S\<lparr>m_dsBlockchainDB := L\<rparr>"
| "set_db TX_BLOCK L S = S\<lparr>m_txBlockchainDB := L\<rparr>"
| "set_db TX_BODY L S = S\<lparr>m_txBodyDB := Some L\<rparr>"
| "set_db TX_BODY_TMP L S = S\<lparr>m_txBodyTmpDB := Some L\<rparr>"
| "set_db MICROBLOCK L S = S\<lparr>m_microBlockDB := L\<rparr>"
| "set_db DS_COMMITTEE L S = S\<lparr>m_dsCommitteeDB := L\<rparr>"
| "set_db VC_BLOCK L S = S\<lparr>m_VCBlockDB := L\<rparr>"
| "set_db FB_BLOCK L S = S\<lparr>m_fallbackBlockDB := L\<rparr>"
| "set_db BLOCKLINK L S = S\<lparr>m_blockLinkDB := L\<rparr>"
| "set_db SHARD_STRUCTURE L S = S\<lparr>m_shardStructureDB := L\<rparr>"
| "set_db STATE_DELTA L S = S\<lparr>m_stateDeltaDB := L\<rparr>"
| "set_db TEMP_STATE L S = S\<lparr>m_tempStateDB := L\<rparr>"
| "set_db DIAGNOSTIC_NODES L S = S\<lparr>m_diagnosticDBNodes := L\<rparr>"
| "set_db DIAGNOSTIC_COINBASE L S = S\<lparr>m_diagnosticDBCoinbase := L\<rparr>"
| "set_db STATE_ROOT L S = S\<lparr>m_stateRootDB := L\<rparr>"

definition zero_counter :: "DBTYPE \<Rightarrow> 'd BlockStorage \<Rightarrow> 'd BlockStorage" where
  "zero_counter t S =
     (if t = DIAGNOSTIC_NODES then S\<lparr>m_diagnosticDBNodesCounter := 0\<rparr>
      else if t = DIAGNOSTIC_COINBASE then S\<lparr>m_diagnosticDBCoinbaseCounter := 0\<rparr>
      else S)"

definition BlockStorage_ResetDB ::
    "bool \<Rightarrow> 'd leveldb \<Rightarrow> DBTYPE \<Rightarrow> 'd BlockStorage \<Rightarrow> (bool \<times> 'd BlockStorage) option" where
  "BlockStorage_ResetDB LOOKUP_NODE_MODE D t S = do {
     L \<leftarrow> db_of t S;
     (case LevelDB_ResetDB LOOKUP_NODE_MODE D L of
        (L', ret) \<Rightarrow> Some (ret, if ret then zero_counter t (set_db t L' S) else set_db t L' S)) }"

definition BlockStorage_RefreshDB ::
    "'d leveldb \<Rightarrow> DBTYPE \<Rightarrow> 'd BlockStorage \<Rightarrow> (bool \<times> 'd BlockStorage) option" where
  "BlockStorage_RefreshDB D t S = do {
     L \<leftarrow> db_of t S;
     (case LevelDB_RefreshDB D L of
        (L', ret) \<Rightarrow> Some (ret, if ret then zero_counter t (set_db t L' S) else set_db t L' S)) }"

text \<open>\<open>ResetAll\<close> uses the bitwise conjunction so that every database is attempted.\<close>

fun reset_each ::
    "bool \<Rightarrow> 'd leveldb \<Rightarrow> DBTYPE list \<Rightarrow> 'd BlockStorage \<Rightarrow> (bool \<times> 'd BlockStorage) option" where
  "reset_each mode D [] S = Some (True, S)"
| "reset_each mode D (t # ts) S = do {
     (ret, S1) \<leftarrow> BlockStorage_ResetDB mode D t S;
     (rest, S2) \<leftarrow> reset_each mode D ts S1;
     Some (ret \<and> rest, S2) }"

definition reset_order :: "bool \<Rightarrow> DBTYPE list" where
  "reset_order LOOKUP_NODE_MODE =
     [META, DS_BLOCK, TX_BLOCK] @ (if LOOKUP_NODE_MODE then [TX_BODY, TX_BODY_TMP] else [])
     @ [MICROBLOCK, DS_COMMITTEE, VC_BLOCK, FB_BLOCK, BLOCKLINK, SHARD_STRUCTURE, STATE_DELTA, TEMP_STATE,
        DIAGNOSTIC_NODES, DIAGNOSTIC_COINBASE, STATE_ROOT]"

definition ResetAll :: "bool \<Rightarrow> 'd leveldb \<Rightarrow> 'd BlockStorage \<Rightarrow> (bool \<times> 'd BlockStorage) option" where
  "ResetAll LOOKUP_NODE_MODE D S = reset_each LOOKUP_NODE_MODE D (reset_order LOOKUP_NODE_MODE) S"

section \<open>Recovery\<close>

fun delete_bodies ::
    "bool \<Rightarrow> 'd leveldb \<Rightarrow> bytes list \<Rightarrow> 'd BlockStorage \<Rightarrow> 'd BlockStorage option" where
  "delete_bodies mode D [] S = Some S"
| "delete_bodies mode D (i # txnHashes) S = do {
     (_, S1) \<leftarrow> DeleteTxBody mode D i S;
     delete_bodies mode D txnHashes S1 }"

definition CleanExtraTxBodies ::
    "bool \<Rightarrow> 'd leveldb \<Rightarrow> 'd BlockStorage \<Rightarrow> (bool \<times> 'd BlockStorage) option" where
  "CleanExtraTxBodies LOOKUP_NODE_MODE D S =
     (if \<not> LOOKUP_NODE_MODE then Some (True, S)
      else do {
        (found, txnHashes) \<leftarrow> GetAllTxBodiesTmp LOOKUP_NODE_MODE D [] S;
        S1 \<leftarrow> (if found then delete_bodies LOOKUP_NODE_MODE D txnHashes S else Some S);
        BlockStorage_ResetDB LOOKUP_NODE_MODE D TX_BODY_TMP S1 })"

section \<open>Tables\<close>

text \<open>
  What the clients of a database rely on: after a successful write a key has the value written and
  the other keys have what they had. Every table of the storage promises this.
\<close>

primrec put_all :: "('k \<Rightarrow> 'v \<Rightarrow> 's \<Rightarrow> (bool \<times> 's) option) \<Rightarrow> ('k \<times> 'v) list \<Rightarrow> 's \<Rightarrow> 's option" where
  "put_all put [] s = Some s"
| "put_all put (e # es) s =
     (case put (fst e) (snd e) s of None \<Rightarrow> None | Some (r, t) \<Rightarrow> if r then put_all put es t else None)"

locale keyed_store =
  fixes inv :: "'s \<Rightarrow> bool"
    and put :: "'k \<Rightarrow> 'v \<Rightarrow> 's \<Rightarrow> (bool \<times> 's) option"
    and get :: "'k \<Rightarrow> 's \<Rightarrow> 'v option option"
    and storable :: "'v \<Rightarrow> bool"
  assumes put_inv: "inv s \<Longrightarrow> put k v s = Some (r, t) \<Longrightarrow> inv t"
    and get_put: "inv s \<Longrightarrow> storable v \<Longrightarrow> put k v s = Some (True, t) \<Longrightarrow>
      get k' t = (if k' = k then Some (Some v) else get k' s)"
begin

lemma get_put_all:
  assumes "inv s" "\<forall>e \<in> set es. storable (snd e)" "put_all put es s = Some t"
  shows "get k t = (case map_of (rev es) k of None \<Rightarrow> get k s | Some v \<Rightarrow> Some (Some v))"
  using assms
proof (induction es arbitrary: s)
  case (Cons e es)
  obtain k0 v0 where e: "e = (k0, v0)" by (cases e)
  obtain u where u: "put k0 v0 s = Some (True, u)" "put_all put es u = Some t"
    using Cons.prems(3) e by (auto split: option.splits if_splits)
  note step = get_put [OF Cons.prems(1) _ u(1)]
  have "get k t = (case map_of (rev es) k of None \<Rightarrow> get k u | Some v \<Rightarrow> Some (Some v))"
    using Cons.IH [OF put_inv [OF Cons.prems(1) u(1)] _ u(2)] Cons.prems(2) by simp
  then show ?case using step [of k] Cons.prems(2) e
    by (auto simp: map_add_def split: option.splits)
qed simp

end

text \<open>The library travels with the state so that its laws are part of the invariant.\<close>

definition on_store ::
    "('d leveldb \<Rightarrow> 'd BlockStorage \<Rightarrow> (bool \<times> 'd BlockStorage) option) \<Rightarrow> 'd leveldb \<times> 'd BlockStorage
     \<Rightarrow> (bool \<times> 'd leveldb \<times> 'd BlockStorage) option" where
  "on_store f DS = map_option (\<lambda>(r, S). (r, fst DS, S)) (f (fst DS) (snd DS))"

lemma on_store_Some: "on_store f (D, S) = Some (r, D', S') \<longleftrightarrow> D' = D \<and> f D S = Some (r, S')"
  by (auto simp: on_store_def)

lemma read_block_contents:
  "read_block D L key (\<lambda>s. s)
   = (if is_open L then Some (case contents D L key of None \<Rightarrow> None | Some v \<Rightarrow> if v = [] then None else Some v) else None)"
  by (auto simp: read_block_def is_open_def LevelDB_Lookup_def contents_def split: option.splits)

lemma read_block_after_insert:
  assumes "leveldb_ok D" "LevelDB_Insert D L key v = Some (L', 0)" "v \<noteq> []"
  shows "read_block D L' key' (\<lambda>s. s) = (if key' = key then Some (Some v) else read_block D L key' (\<lambda>s. s))"
  using LevelDB_Insert_contents [OF assms(1,2)] assms(3) by (simp add: read_block_contents)

lemma table_keyed_store:
  fixes tab :: "'d BlockStorage \<Rightarrow> 'd LevelDB" and key :: "'k \<Rightarrow> bytes"
  assumes put: "\<And>D k v S S'. put D k v S = Some (True, S') \<Longrightarrow> LevelDB_Insert D (tab S) (key k) v = Some (tab S', 0)"
    and get: "\<And>D k S. get D k S = read_block D (tab S) (key k) (\<lambda>s. s)"
    and key: "\<And>k k'. key k = key k' \<longleftrightarrow> k = k'"
  shows "keyed_store (\<lambda>DS. leveldb_ok (fst DS)) (\<lambda>k v. on_store (\<lambda>D. put D k v))
    (\<lambda>k DS. get (fst DS) k (snd DS)) (\<lambda>v. v \<noteq> [])"
proof
  fix s t :: "'d leveldb \<times> 'd BlockStorage" and k k' :: 'k and v :: bytes and r
  obtain D S D' S' where st: "s = (D, S)" "t = (D', S')" by (cases s; cases t)
  show "leveldb_ok (fst t)" if "leveldb_ok (fst s)" "on_store (\<lambda>D. put D k v) s = Some (r, t)"
    using that by (simp add: st on_store_Some)
  assume "leveldb_ok (fst s)" "v \<noteq> []" "on_store (\<lambda>D. put D k v) s = Some (True, t)"
  then show "get (fst t) k' (snd t) = (if k' = k then Some (Some v) else get (fst s) k' (snd s))"
    using read_block_after_insert [OF _ put, of D k v S S' "key k'"]
    by (simp add: st on_store_Some get key)
qed

interpretation ds_blocks: keyed_store "\<lambda>DS. leveldb_ok (fst DS)" "\<lambda>n body. on_store (\<lambda>D. PutDSBlock D n body)"
    "\<lambda>n DS. GetDSBlock (fst DS) (\<lambda>s. s) n (snd DS)" "\<lambda>v. v \<noteq> []"
  by (rule table_keyed_store [where tab = m_dsBlockchainDB and key = to_decimal])
    (auto simp: PutDSBlock_def PutBlock_def PutMetadata_def GetDSBlock_def split: bind_splits if_splits)

interpretation tx_blocks: keyed_store "\<lambda>DS. leveldb_ok (fst DS)" "\<lambda>n body. on_store (\<lambda>D. PutTxBlock D n body)"
    "\<lambda>n DS. GetTxBlock (fst DS) (\<lambda>s. s) n (snd DS)" "\<lambda>v. v \<noteq> []"
  by (rule table_keyed_store [where tab = m_txBlockchainDB and key = to_decimal])
    (auto simp: PutTxBlock_def PutBlock_def BlockType_DS_def BlockType_Tx_def GetTxBlock_def split: bind_splits if_splits)

interpretation vc_blocks: keyed_store "\<lambda>DS. leveldb_ok (fst DS)" "\<lambda>n body. on_store (\<lambda>D. PutVCBlock D n body)"
    "\<lambda>n DS. GetVCBlock (fst DS) (\<lambda>s. s) n (snd DS)" "\<lambda>v. v \<noteq> []"
  by (rule table_keyed_store [where tab = m_VCBlockDB and key = toHex])
    (auto simp: PutVCBlock_def GetVCBlock_def split: bind_splits)

interpretation fallback_blocks: keyed_store "\<lambda>DS. leveldb_ok (fst DS)" "\<lambda>n body. on_store (\<lambda>D. PutFallbackBlock D n body)"
    "\<lambda>n DS. GetFallbackBlock (fst DS) (\<lambda>s. s) n (snd DS)" "\<lambda>v. v \<noteq> []"
  by (rule table_keyed_store [where tab = m_fallbackBlockDB and key = toHex])
    (auto simp: PutFallbackBlock_def GetFallbackBlock_def split: bind_splits)

interpretation micro_blocks: keyed_store "\<lambda>DS. leveldb_ok (fst DS)" "\<lambda>n body. on_store (\<lambda>D. PutMicroBlock D n body)"
    "\<lambda>n DS. GetMicroBlock (fst DS) (\<lambda>s. s) n (snd DS)" "\<lambda>v. v \<noteq> []"
  by (rule table_keyed_store [where tab = m_microBlockDB and key = toHex])
    (auto simp: PutMicroBlock_def GetMicroBlock_def split: bind_splits)

interpretation metadata: keyed_store "\<lambda>DS. leveldb_ok (fst DS)" "\<lambda>n body. on_store (\<lambda>D. PutMetadata D n body)"
    "\<lambda>n DS. GetMetadata (fst DS) n (snd DS)" "\<lambda>v. v \<noteq> []"
  by (rule table_keyed_store [where tab = m_metadataDB and key = to_decimal])
    (auto simp: PutMetadata_def GetMetadata_def split: bind_splits)

section \<open>The DS committee read back\<close>

lemma ResetDB_open_empty:
  assumes "leveldb_ok D" "is_open (fst (LevelDB_ResetDB mode D L))"
  shows "contents D (fst (LevelDB_ResetDB mode D L)) = Map.empty"
proof (cases "LevelDB_ResetDB mode D L")
  case (Pair L' r)
  moreover have "r" using assms(2) Pair
    by (auto simp: LevelDB_ResetDB_def ResetDBForNormalNode_def ResetDBForLookupNode_def is_open_def
        DeleteDBForNormalNode_def DeleteDBForLookupNode_def split: if_splits prod.splits)
  ultimately show ?thesis using LevelDB_ResetDB_contents [OF assms(1)] by simp
qed

text \<open>An entry that is read as a member.\<close>

definition holds_member :: "'pt openssl \<Rightarrow> bytes \<Rightarrow> 'pt PairOfNode \<Rightarrow> bool" where
  "holds_member B v m \<longleftrightarrow> 33 \<le> length v \<and> PubKey_from_bytes B (take 33 v) 0 = fst m
     \<and> Peer_from_bytes (drop 33 v) 0 = snd m"

definition holds_members ::
    "'pt openssl \<Rightarrow> 'd leveldb \<Rightarrow> 'd LevelDB \<Rightarrow> nat \<Rightarrow> 'pt DequeOfNode \<Rightarrow> bool" where
  "holds_members B D L i ms \<longleftrightarrow>
     (\<forall>j < length ms. \<exists>v. contents D L (to_decimal (i + j)) = Some v \<and> holds_member B v (ms ! j))"

definition storable_member :: "('pt \<Rightarrow> bool) \<Rightarrow> 'pt PairOfNode \<Rightarrow> bool" where
  "storable_member enc m \<longleftrightarrow> enc (fst m) \<and> Peer_fits (snd m)"

lemma GetNumber_loop_drop:
  "k \<le> length src \<Longrightarrow> k + off + r < 2 ^ 32 \<Longrightarrow>
   GetNumber_loop bits (drop k src) off acc r = GetNumber_loop bits src (k + off) acc r"
proof (induction r arbitrary: off acc)
  case (Suc r)
  have "vec_at (drop k src) off = vec_at src (k + off)" using Suc.prems by (auto simp: vec_at_def)
  moreover have "GetNumber_loop bits (drop k src) (off + 1) a r = GetNumber_loop bits src (k + off + 1) a r" for a
    using Suc.IH [of "off + 1" a] Suc.prems by (simp add: add.assoc)
  ultimately show ?case using Suc.prems by (cases "vec_at src (k + off)") simp_all
qed simp

lemma Peer_Deserialize_drop:
  assumes "length v = 53"
  shows "Peer_Deserialize p (drop 33 v) 0 = Peer_Deserialize p v 33"
proof -
  have eqs: "Serializable_GetNumber 128 (drop 33 v) 0 16 = Serializable_GetNumber 128 v 33 16"
      "Serializable_GetNumber 32 (drop 33 v) (u32 (0 + 16)) 4 = Serializable_GetNumber 32 v (u32 (33 + 16)) 4"
    using assms GetNumber_loop_drop [of 33 v] by (simp_all add: Serializable_GetNumber_def)
  show ?thesis unfolding Peer_Deserialize_def eqs ..
qed

lemma member_written:
  assumes pts: "openssl_points_ok B enc" and m: "enc key" "Peer_fits peer"
    and len: "length data = 0 \<or> length data = 53"
  shows "\<exists>v. Peer_Serialize (fst (PubKey_Serialize B data 0 key)) 33 peer = Some (v, 20)
    \<and> length v = 53 \<and> holds_member B v (key, peer)"
proof -
  note field = ecpoint_field [OF pts]
  let ?d = "ECPOINTSerialize_SetNumber B data 0 33 key"
  have d: "length ?d = max (length data) 33" using byte_field.put_length [OF field m(1), of 0 data] by simp
  obtain v where v: "Peer_Serialize ?d 33 peer = Some (v, 20)" "length v = max (length ?d) 53"
      "take 33 v = take 33 ?d" "Peer_Deserialize Peer_default v 33 = (peer, 0)"
    using Peer_roundtrip [OF m(2), of 33 ?d Peer_default] d len by auto
  have len53: "length v = 53" using v(2) d len by auto
  have "ECPOINTSerialize_GetNumber B (take 33 v) 0 33 = ECPOINTSerialize_GetNumber B ?d 0 33"
    by (rule byte_field.get_local [OF field]) (use v d len53 in \<open>simp_all add: subvec_def\<close>)
  also have "\<dots> = Some key" using byte_field.get_put [OF field m(1), of 0 data] by simp
  finally have "PubKey_from_bytes B (take 33 v) 0 = key" by (simp add: PubKey_from_bytes_def PubKey_Deserialize_def)
  moreover have "Peer_from_bytes (drop 33 v) 0 = peer"
    using v(4) by (simp add: Peer_from_bytes_def Peer_Deserialize_drop [OF len53])
  ultimately show ?thesis using v(1) len53 by (simp add: PubKey_Serialize_def holds_member_def)
qed

lemma put_members_contents:
  assumes D: "leveldb_ok D" and pts: "openssl_points_ok B enc"
  shows "put_members B D i data ms L = Some (True, L') \<Longrightarrow> \<forall>m \<in> set ms. storable_member enc m \<Longrightarrow>
    i + length ms < 2 ^ 32 \<Longrightarrow> length data = 0 \<or> length data = 53 \<Longrightarrow> is_open L \<Longrightarrow>
    holds_members B D L' i ms \<and> is_open L'
    \<and> (\<forall>k. (\<forall>j < length ms. k \<noteq> to_decimal (i + j)) \<longrightarrow> contents D L' k = contents D L k)"
proof (induction ms arbitrary: i data L)
  case Nil
  then show ?case by (simp add: holds_members_def)
next
  case (Cons m ms)
  obtain key peer where m: "m = (key, peer)" by (cases m)
  have ok: "enc key" "Peer_fits peer" using Cons.prems(2) by (simp_all add: m storable_member_def)
  obtain v where v: "Peer_Serialize (fst (PubKey_Serialize B data 0 key)) 33 peer = Some (v, 20)"
      "length v = 53" "holds_member B v (key, peer)"
    using member_written [OF pts ok Cons.prems(4)] by blast
  obtain L1 where L1: "LevelDB_Insert D L (to_decimal i) v = Some (L1, 0)"
      "put_members B D (i + 1) v ms L1 = Some (True, L')"
    using Cons.prems(1,3) v(1) by (auto simp: m PubKey_Serialize_def split: bind_splits if_splits)
  note ins = LevelDB_Insert_contents [OF D L1(1) refl]
  have rest: "holds_members B D L' (i + 1) ms" "is_open L'"
      "\<And>k. (\<forall>j < length ms. k \<noteq> to_decimal (i + 1 + j)) \<Longrightarrow> contents D L' k = contents D L1 k"
    using Cons.IH [OF L1(2)] Cons.prems(2,3) v(2) ins(2) by auto
  have first: "contents D L' (to_decimal i) = Some v" using rest(3) [of "to_decimal i"] ins(1) by simp
  have "\<exists>w. contents D L' (to_decimal (i + j)) = Some w \<and> holds_member B w ((m # ms) ! j)"
    if "j < Suc (length ms)" for j
    using that first v(3) rest(1) by (cases j) (auto simp: m holds_members_def)
  moreover have "contents D L' k = contents D L k" if "\<forall>j < Suc (length ms). k \<noteq> to_decimal (i + j)" for k
  proof -
    have "k \<noteq> to_decimal i" using that by (metis add_0_right zero_less_Suc)
    moreover have "\<forall>j < length ms. k \<noteq> to_decimal (i + 1 + j)"
      using that by (metis Suc_less_eq add.assoc add.commute plus_1_eq_Suc)
    ultimately show ?thesis using rest(3) [of k] ins(1) by simp
  qed
  ultimately show ?case using rest(2) by (simp add: holds_members_def)
qed

lemma read_members_returns:
  "holds_members B D L i ms \<Longrightarrow> contents D L (to_decimal (i + length ms)) = None \<Longrightarrow> is_open L \<Longrightarrow>
   i + length ms < 2 ^ 32 \<Longrightarrow> read_members B D L i acc = Some (acc @ ms)"
proof (induction ms arbitrary: i acc)
  case Nil
  then show ?case by (subst read_members.simps) (simp add: LevelDB_Lookup_contents)
next
  case (Cons m ms)
  obtain v where v: "contents D L (to_decimal i) = Some v" "holds_member B v m"
    using Cons.prems(1) by (auto simp: holds_members_def)
  have "holds_members B D L (i + 1) ms"
    using Cons.prems(1) unfolding holds_members_def by (metis add.assoc add.commute length_Cons not_less_eq nth_Cons_Suc plus_1_eq_Suc)
  then have "read_members B D L (i + 1) (acc @ [m]) = Some ((acc @ [m]) @ ms)"
    using Cons.IH Cons.prems(2-4) by simp
  moreover have "v \<noteq> []" "\<not> length v < 33" using v(2) by (auto simp: holds_member_def)
  moreover have "(PubKey_from_bytes B (take 33 v) 0, Peer_from_bytes (drop 33 v) 0) = m"
    using v(2) by (cases m) (simp add: holds_member_def)
  ultimately show ?case
    using v(1) Cons.prems(3,4) by (subst read_members.simps) (simp add: LevelDB_Lookup_contents)
qed

section \<open>Properties\<close>

text \<open>the DS blocks that were stored, each with success, are read back: under every block number the
  last block stored there, and under the other numbers what was there before.\<close>

lemma ds_blocks_read_back:
  assumes "leveldb_ok D" "\<forall>e \<in> set blocks. snd e \<noteq> []"
    and "put_all (PutDSBlock D) blocks S = Some S'"
  shows "GetDSBlock D (\<lambda>s. s) n S'
    = (case map_of (rev blocks) n of None \<Rightarrow> GetDSBlock D (\<lambda>s. s) n S | Some body \<Rightarrow> Some (Some body))"
proof -
  have "put_all (\<lambda>n body. on_store (\<lambda>D. PutDSBlock D n body)) blocks (D, S) = Some (D, S')"
    using assms(3) by (induction blocks arbitrary: S) (auto simp: on_store_def split: option.splits if_splits)
  from ds_blocks.get_put_all [OF _ assms(2) this, of n] show ?thesis
    using assms(1) by (cases "map_of (rev blocks) n") simp_all
qed

definition fresh_storage :: "(db_path \<Rightarrow> (bytes \<times> bytes) list) BlockStorage" where
  "fresh_storage = \<lparr>m_metadataDB = fresh_db, m_dsBlockchainDB = fresh_db, m_txBlockchainDB = fresh_db,
     m_txBodyDB = Some fresh_db, m_microBlockDB = fresh_db, m_txBodyTmpDB = Some fresh_db,
     m_dsCommitteeDB = fresh_db, m_VCBlockDB = fresh_db, m_fallbackBlockDB = fresh_db,
     m_blockLinkDB = fresh_db, m_shardStructureDB = fresh_db, m_stateDeltaDB = fresh_db,
     m_tempStateDB = fresh_db, m_diagnosticDBNodes = fresh_db, m_diagnosticDBCoinbase = fresh_db,
     m_stateRootDB = fresh_db, m_diagnosticDBNodesCounter = 0, m_diagnosticDBCoinbaseCounter = 0\<rparr>"

lemma map_db_PutDSBlock:
  assumes "m_db (m_dsBlockchainDB S) \<noteq> None" "m_db (m_metadataDB S) \<noteq> None"
  shows "\<exists>S'. PutDSBlock map_db n body S = Some (True, S') \<and> m_db (m_dsBlockchainDB S') \<noteq> None
    \<and> m_db (m_metadataDB S') \<noteq> None"
  using assms by (auto simp: PutDSBlock_def PutBlock_def PutMetadata_def LevelDB_Insert_def map_db_def)

text \<open>A DS committee that was stored is read back, members in order and leader number, whatever the
  table held before.\<close>

lemma DSCommittee_roundtrip:
  assumes D: "leveldb_ok D" and pts: "openssl_points_ok B enc"
    and ms: "\<forall>m \<in> set dsCommittee. storable_member enc m" "length dsCommittee < 2 ^ 32 - 1"
    and leader: "leader < 2 ^ 16"
    and put: "PutDSCommittee mode B D dsCommittee leader S = Some (True, S')"
  shows "GetDSCommittee B D [] S' = Some (Some (dsCommittee, leader))"
proof -
  let ?L = "fst (LevelDB_ResetDB mode D (m_dsCommitteeDB S))"
  obtain L1 where L1: "LevelDB_Insert D ?L (to_decimal 0) (to_decimal leader) = Some (L1, 0)"
      "put_members B D 1 [] dsCommittee L1 = Some (True, m_dsCommitteeDB S')"
    using put by (auto simp: PutDSCommittee_def Let_def split: bind_splits if_splits)
  note ins = LevelDB_Insert_contents [OF D L1(1) refl]
  have all: "holds_members B D (m_dsCommitteeDB S') 1 dsCommittee" "is_open (m_dsCommitteeDB S')"
      "\<And>k. (\<forall>j < length dsCommittee. k \<noteq> to_decimal (1 + j)) \<Longrightarrow>
         contents D (m_dsCommitteeDB S') k = contents D L1 k"
    using put_members_contents [OF D pts L1(2) ms(1)] ms(2) ins(2) by auto
  have "contents D (m_dsCommitteeDB S') (to_decimal 0) = Some (to_decimal leader)"
    using all(3) [of "to_decimal 0"] ins(1) by simp
  moreover have "contents D (m_dsCommitteeDB S') (to_decimal (1 + length dsCommittee)) = None"
    using all(3) [of "to_decimal (1 + length dsCommittee)"] ins(1) ResetDB_open_empty [OF D ins(3)] by simp
  then have "read_members B D (m_dsCommitteeDB S') 1 [] = Some dsCommittee"
    using read_members_returns [OF all(1) _ all(2)] ms(2) by simp
  ultimately show ?thesis
    using leader all(2) by (simp add: GetDSCommittee_def LevelDB_Lookup_contents stoul_to_decimal)
qed

lemma map_db_Insert: "is_open L \<Longrightarrow> \<exists>L'. LevelDB_Insert map_db L k v = Some (L', 0) \<and> is_open L'"
  by (auto simp: LevelDB_Insert_def map_db_def is_open_def)

lemma map_db_put_members:
  assumes pts: "openssl_points_ok B enc"
  shows "\<forall>m \<in> set ms. storable_member enc m \<Longrightarrow> length data = 0 \<or> length data = 53 \<Longrightarrow> is_open L \<Longrightarrow>
    \<exists>L'. put_members B map_db i data ms L = Some (True, L')"
proof (induction ms arbitrary: i data L)
  case (Cons m ms)
  obtain key peer where m: "m = (key, peer)" by (cases m)
  then obtain v where v: "Peer_Serialize (fst (PubKey_Serialize B data 0 key)) 33 peer = Some (v, 20)" "length v = 53"
    using member_written [OF pts, of key peer data] Cons.prems by (auto simp: storable_member_def)
  obtain L1 where L1: "LevelDB_Insert map_db L (to_decimal i) v = Some (L1, 0)" "is_open L1"
    using map_db_Insert [OF Cons.prems(3)] by blast
  obtain L' where "put_members B map_db (u32 (i + 1)) v ms L1 = Some (True, L')"
    using Cons.IH [OF _ _ L1(2), of v "u32 (i + 1)"] Cons.prems(1) v(2) by auto
  then show ?case using v L1 by (simp add: m PubKey_Serialize_def)
qed simp

text \<open>On a lookup node whose writes succeed, \<open>PutTxBody\<close> never reaches its second insertion: however many
  bodies are stored, the temporary table stays empty and \<open>CleanExtraTxBodies\<close>, which is meant to delete the
  bodies stored since the last complete epoch, deletes none of them.\<close>

lemma stored_bodies_survive_cleanup:
  assumes D: "leveldb_ok D" and writes: "\<And>d p k v. snd (ldb_Put D d p k v)"
    and tmp: "m_txBodyTmpDB S = Some T" "is_open T" "contents D T = Map.empty"
    and put: "put_all (PutTxBody True D) bodies S = Some S'"
  shows "m_txBodyTmpDB S' = Some T
    \<and> (\<exists>r S''. CleanExtraTxBodies True D S' = Some (r, S'') \<and> m_txBodyDB S'' = m_txBodyDB S')"
proof -
  have one: "m_txBodyTmpDB S2 = m_txBodyTmpDB S1" if "PutTxBody True D k v S1 = Some (r, S2)" for k v r S1 S2
  proof -
    have "rc = 0" if "LevelDB_Insert D L key body = Some (L', rc)" for L key body L' rc
      using that writes by (auto simp: LevelDB_Insert_def split: bind_splits prod.splits if_splits) (metis snd_conv)
    then show ?thesis using that by (auto simp: PutTxBody_def Let_def split: bind_splits if_splits)
  qed
  have same: "m_txBodyTmpDB S' = Some T"
    using put tmp(1) by (induction bodies arbitrary: S) (auto dest: one split: option.splits if_splits)
  have none: "LevelDB_Entries D T = Some []"
    using D tmp(2,3) by (auto simp: LevelDB_Entries_def is_open_def contents_def leveldb_ok_def)
      (metis map_of_eq_empty_iff)
  have "GetAllTxBodiesTmp True D [] S' = Some (True, [])" by (simp add: GetAllTxBodiesTmp_def same none)
  then show ?thesis using same
    by (auto simp: CleanExtraTxBodies_def BlockStorage_ResetDB_def zero_counter_def split: prod.split)
qed

text \<open>The converse failure: success is reported for a body that the table of bodies does not hold.\<close>

lemma PutTxBody_false_success:
  assumes "m_txBodyDB S = Some L" "m_db L = Some p" "ldb_Put D (m_files L) p (toHex key) body = (d, False)"
    and "m_txBodyTmpDB S = Some T" "m_db T = Some q" "snd (ldb_Put D (m_files T) q (toHex key) body)"
  shows "\<exists>S'. PutTxBody True D key body S = Some (True, S') \<and> m_txBodyDB S' = Some (L\<lparr>m_files := d\<rparr>)"
  using assms by (auto simp: PutTxBody_def LevelDB_Insert_def split: prod.splits)

end
