(* ===== verification/AccountStore.thy ===== *)
theory AccountStore
  imports AccountSafety AccountFrame BlockStorage
begin

text \<open>
  The account store of a node: \<open>libData/AccountData/AccountStoreTrie.tpp\<close>, \<open>AccountStoreTemp.cpp\<close> and
  \<open>AccountStore.cpp\<close>, with the account messages of \<open>libMessage/Messenger.cpp\<close>. The permanent states live in a
  map over a Merkle trie; a temporary store on top of it executes the transactions of an epoch. The
  difference of the two, the state delta, is serialised, agreed on and then committed to the permanent
  states, possibly in a way that can be reverted.

  The trie with its database (vendored from another project) and the protobuf runtime are parameters.
  The permanent store also inherits the execution of transactions, but no caller uses it there, so its
  execution fields are left out. \<open>RepopulateStateTrie\<close> is not modelled.
\<close>

section \<open>Account messages\<close>

record ProtoAccountBase =
  pab_version :: "32 word option"
  pab_balance :: "bytes option"
  pab_nonce :: "64 word option"
  pab_codehash :: "bytes option"
  pab_storageroot :: "bytes option"

record ProtoAccount =
  pa_base :: "ProtoAccountBase option"
  pa_code :: "bytes option"
  pa_storage :: "(bytes \<times> bytes) list"
  pa_numbersign :: "bool option"

text \<open>The runtime: a parser is \<open>None\<close> when the message lacks a required field.\<close>

record account_protobuf =
  AccountBaseToArray :: "ProtoAccountBase \<Rightarrow> bytes"
  AccountBaseFromArray :: "bytes \<Rightarrow> ProtoAccountBase option"
  AccountStoreToArray :: "(bytes \<times> ProtoAccount) list \<Rightarrow> bytes"
  AccountStoreFromArray :: "bytes \<Rightarrow> (bytes \<times> ProtoAccount) list option"

definition UINT128_SIZE :: nat where "UINT128_SIZE = 16"

definition AccountBaseToProtobuf :: "'z AccountBase_scheme \<Rightarrow> ProtoAccountBase option" where
  "AccountBaseToProtobuf acc = do {
     b \<leftarrow> Serializable_SetNumber [] 0 (unat (m_balance acc)) UINT128_SIZE;
     Some \<lparr>pab_version = Some (m_version acc), pab_balance = Some b, pab_nonce = Some (m_nonce acc),
           pab_codehash = (if m_codeHash acc \<noteq> h256_zero then Some (m_codeHash acc) else None),
           pab_storageroot = (if m_storageRoot acc \<noteq> h256_zero then Some (m_storageRoot acc) else None)\<rparr> }"

definition CopyWithSizeCheck :: "nat \<Rightarrow> bytes \<Rightarrow> bytes option" where
  "CopyWithSizeCheck n arr = (if length arr \<noteq> n then None else Some arr)"

text \<open>\<open>None\<close> is the result false; every caller then drops the account.\<close>

definition ProtobufToAccountBase :: "ProtoAccountBase \<Rightarrow> 'z AccountBase_scheme \<Rightarrow> 'z AccountBase_scheme option" where
  "ProtobufToAccountBase p acc = do {
     ver \<leftarrow> pab_version p;
     b \<leftarrow> pab_balance p;
     n \<leftarrow> pab_nonce p;
     tmpNumber \<leftarrow> Serializable_GetNumber 128 b 0 UINT128_SIZE;
     let acc1 = acc\<lparr>m_version := ver, m_balance := of_nat tmpNumber, m_nonce := n\<rparr>;
     acc2 \<leftarrow> (case pab_codehash p of
                None \<Rightarrow> Some acc1
              | Some h \<Rightarrow> map_option (\<lambda>tmpCodeHash. acc1\<lparr>m_codeHash := tmpCodeHash\<rparr>) (CopyWithSizeCheck 32 h));
     (case pab_storageroot p of
        None \<Rightarrow> Some acc2
      | Some h \<Rightarrow> map_option (\<lambda>tmpStorageRoot. acc2\<lparr>m_storageRoot := tmpStorageRoot\<rparr>) (CopyWithSizeCheck 32 h)) }"

definition Account_SerializeBase :: "account_protobuf \<Rightarrow> 'z AccountBase_scheme \<Rightarrow> (bytes \<times> bool) option" where
  "Account_SerializeBase Q acc = do {
     p \<leftarrow> AccountBaseToProtobuf acc;
     SerializeToArray (AccountBaseToArray Q p) [] 0 }"

definition Account_DeserializeBase :: "account_protobuf \<Rightarrow> bytes \<Rightarrow> 'z AccountBase_scheme \<Rightarrow> 'z AccountBase_scheme option" where
  "Account_DeserializeBase Q src acc =
     (if src = [] then None
      else do {
        p \<leftarrow> AccountBaseFromArray Q src;
        ProtobufToAccountBase p acc })"

lemma AccountBaseToProtobuf_eq:
  "AccountBaseToProtobuf acc = Some \<lparr>pab_version = Some (m_version acc),
     pab_balance = Some (number_field_put UINT128_SIZE [] 0 (unat (m_balance acc))), pab_nonce = Some (m_nonce acc),
     pab_codehash = (if m_codeHash acc \<noteq> h256_zero then Some (m_codeHash acc) else None),
     pab_storageroot = (if m_storageRoot acc \<noteq> h256_zero then Some (m_storageRoot acc) else None)\<rparr>"
  by (simp add: AccountBaseToProtobuf_def Serializable_SetNumber_eq UINT128_SIZE_def)

lemma number128_roundtrip:
  "Serializable_GetNumber 128 (number_field_put UINT128_SIZE [] 0 (unat (x :: 128 word))) 0 UINT128_SIZE = Some (unat x)"
proof -
  have "256 ^ UINT128_SIZE \<le> (2 :: nat) ^ 128" by (simp add: UINT128_SIZE_def)
  note f = number_field [OF this]
  have "unat x < 256 ^ UINT128_SIZE" using unat_bound [of x] by (simp add: UINT128_SIZE_def)
  then show ?thesis using byte_field.get_put [OF f, of "unat x" 0 "[]"] by (simp add: UINT128_SIZE_def)
qed

lemma SerializeToArray_start: "\<exists>dst ok. SerializeToArray raw [] 0 = Some (dst, ok)"
  by (cases "length raw < 2 ^ 31") (simp_all add: SerializeToArray_def Let_def u32_def)

section \<open>The store over the trie\<close>

text \<open>The trie: lookup (empty for an absent key), insertion, removal, the root, going to a root (the flag is false
  when the root is not in the database, which throws), the commit of the overlay to the database and its
  rollback, \<open>init\<close> and \<open>ResetDB\<close>.\<close>

record 't trie =
  trie_at :: "'t \<Rightarrow> Address \<Rightarrow> bytes"
  trie_insert :: "Address \<Rightarrow> bytes \<Rightarrow> 't \<Rightarrow> 't"
  trie_remove :: "Address \<Rightarrow> 't \<Rightarrow> 't"
  trie_root :: "'t \<Rightarrow> bytes"
  trie_setRoot :: "bytes \<Rightarrow> 't \<Rightarrow> bool \<times> 't"
  trie_commit :: "'t \<Rightarrow> 't"
  trie_rollback :: "'t \<Rightarrow> 't"
  trie_init :: "'t \<Rightarrow> 't"
  trie_ResetDB :: "'t \<Rightarrow> 't"

record ('t, 'd, 'pt) as_env =
  as_sc :: "('d, 'pt) sc_env"
  as_trie :: "'t trie"
  as_proto :: account_protobuf
  MAX_CODE_SIZE_IN_BYTES :: nat

abbreviation as_ledger :: "('t, 'd, 'pt) as_env \<Rightarrow> ledger_env" where
  "as_ledger Y \<equiv> sc_ledger (as_sc Y)"

record 't trie_store =
  m_addressToAccount :: amap
  m_state :: 't
  m_prevRoot :: bytes

definition Account_default :: "ledger_env \<Rightarrow> Account" where
  "Account_default E = Account_new 0 0 (ACCOUNT_VERSION E)"

definition AccountStoreTrie_GetAccount ::
    "('t, 'd, 'pt) as_env \<Rightarrow> Address \<Rightarrow> 't trie_store \<Rightarrow> Account option \<times> 't trie_store" where
  "AccountStoreTrie_GetAccount Y a s =
     (case map_of (m_addressToAccount s) a of
        Some account \<Rightarrow> (Some account, s)
      | None \<Rightarrow>
          let rawAccountBase = trie_at (as_trie Y) (m_state s) a
          in if rawAccountBase = [] then (None, s)
             else case Account_DeserializeBase (as_proto Y) rawAccountBase (Account_default (as_ledger Y)) of
                    None \<Rightarrow> (None, s)
                  | Some account \<Rightarrow>
                      let account' = (if isContract account then Account_SetAddress a account else account)
                      in (Some account', s\<lparr>m_addressToAccount := map_insert a account' (m_addressToAccount s)\<rparr>))"

definition trie_vt :: "('t, 'd, 'pt) as_env \<Rightarrow> 't trie_store store_vt" where
  "trie_vt Y = \<lparr>vt_GetAccount = AccountStoreTrie_GetAccount Y,
                vt_update = (\<lambda>f s. s\<lparr>m_addressToAccount := f (m_addressToAccount s)\<rparr>)\<rparr>"

definition UpdateStateTrie :: "('t, 'd, 'pt) as_env \<Rightarrow> Address \<Rightarrow> Account \<Rightarrow> 't trie_store \<Rightarrow> (bool \<times> 't trie_store) option" where
  "UpdateStateTrie Y a account s = do {
     (rawBytes, ok) \<leftarrow> Account_SerializeBase (as_proto Y) account;
     (if \<not> ok then Some (False, s)
      else Some (True, s\<lparr>m_state := trie_insert (as_trie Y) a rawBytes (m_state s)\<rparr>)) }"

definition RemoveFromTrie :: "('t, 'd, 'pt) as_env \<Rightarrow> Address \<Rightarrow> 't trie_store \<Rightarrow> 't trie_store" where
  "RemoveFromTrie Y a s = s\<lparr>m_state := trie_remove (as_trie Y) a (m_state s)\<rparr>"

fun UpdateStateTrieAll_loop ::
    "('t, 'd, 'pt) as_env \<Rightarrow> amap \<Rightarrow> 't trie_store \<Rightarrow> (bool \<times> 't trie_store) option" where
  "UpdateStateTrieAll_loop Y [] s = Some (True, s)"
| "UpdateStateTrieAll_loop Y ((a, account) # es) s = do {
     (ok, s1) \<leftarrow> UpdateStateTrie Y a account s;
     (if ok then UpdateStateTrieAll_loop Y es s1 else Some (False, s1)) }"

definition UpdateStateTrieAll :: "('t, 'd, 'pt) as_env \<Rightarrow> 't trie_store \<Rightarrow> (bool \<times> 't trie_store) option" where
  "UpdateStateTrieAll Y s = UpdateStateTrieAll_loop Y (m_addressToAccount s) s"

definition InitTrie :: "('t, 'd, 'pt) as_env \<Rightarrow> 't trie_store \<Rightarrow> 't trie_store" where
  "InitTrie Y s =
     (let t = trie_init (as_trie Y) (m_state s) in s\<lparr>m_state := t, m_prevRoot := trie_root (as_trie Y) t\<rparr>)"

definition AccountStoreTrie_Init :: "('t, 'd, 'pt) as_env \<Rightarrow> 't trie_store \<Rightarrow> 't trie_store" where
  "AccountStoreTrie_Init Y s = InitTrie Y (s\<lparr>m_addressToAccount := []\<rparr>)"

section \<open>The temporary store\<close>

text \<open>\<open>tmp_parent\<close> is the permanent store behind the reference \<open>m_parent\<close>.\<close>

record 't temp_store =
  tmp_map :: amap
  tmp_parent :: "'t trie_store"

definition AccountStoreTemp_GetAccount ::
    "('t, 'd, 'pt) as_env \<Rightarrow> Address \<Rightarrow> 't temp_store \<Rightarrow> Account option \<times> 't temp_store" where
  "AccountStoreTemp_GetAccount Y a s =
     (case map_of (tmp_map s) a of
        Some account \<Rightarrow> (Some account, s)
      | None \<Rightarrow>
          (case AccountStoreTrie_GetAccount Y a (tmp_parent s) of
             (None, p) \<Rightarrow> (None, s\<lparr>tmp_parent := p\<rparr>)
           | (Some account, p) \<Rightarrow>
               (Some account, s\<lparr>tmp_parent := p, tmp_map := map_insert a account (tmp_map s)\<rparr>)))"

definition temp_vt :: "('t, 'd, 'pt) as_env \<Rightarrow> 't temp_store store_vt" where
  "temp_vt Y = \<lparr>vt_GetAccount = AccountStoreTemp_GetAccount Y, vt_update = (\<lambda>f s. s\<lparr>tmp_map := f (tmp_map s)\<rparr>)\<rparr>"

section \<open>Both are account stores\<close>

text \<open>What the trie holds for an address, and the ledgers of the two stores.\<close>

definition trie_account :: "('t, 'd, 'pt) as_env \<Rightarrow> 't \<Rightarrow> ledger" where
  "trie_account Y t a =
     (if trie_at (as_trie Y) t a = [] then None
      else map_option (\<lambda>account. if isContract account then Account_SetAddress a account else account)
             (Account_DeserializeBase (as_proto Y) (trie_at (as_trie Y) t a) (Account_default (as_ledger Y))))"

definition trie_view :: "('t, 'd, 'pt) as_env \<Rightarrow> 't trie_store \<Rightarrow> ledger" where
  "trie_view Y s = trie_account Y (m_state s) ++ map_of (m_addressToAccount s)"

definition temp_ledger :: "('t, 'd, 'pt) as_env \<Rightarrow> 't temp_store \<Rightarrow> ledger" where
  "temp_ledger Y s = trie_view Y (tmp_parent s) ++ map_of (tmp_map s)"

lemma AccountStoreTrie_GetAccount_view:
  assumes "AccountStoreTrie_GetAccount Y a s = (r, s')"
  shows "r = trie_view Y s a \<and> trie_view Y s' = trie_view Y s \<and> m_state s' = m_state s \<and> m_prevRoot s' = m_prevRoot s"
proof (cases "map_of (m_addressToAccount s) a")
  case (Some acc)
  then show ?thesis using assms by (auto simp: AccountStoreTrie_GetAccount_def trie_view_def map_add_def split: option.splits)
next
  case None
  have v: "trie_view Y s a = trie_account Y (m_state s) a" using None by (simp add: trie_view_def map_add_def)
  show ?thesis
  proof (cases "trie_account Y (m_state s) a")
    case n: None
    then have "r = None \<and> s' = s" using assms None
      by (auto simp: AccountStoreTrie_GetAccount_def trie_account_def Let_def split: if_splits option.splits)
    then show ?thesis using v n by simp
  next
    case (Some acc)
    then have "r = Some acc \<and> s' = s\<lparr>m_addressToAccount := map_insert a acc (m_addressToAccount s)\<rparr>" using assms None
      by (auto simp: AccountStoreTrie_GetAccount_def trie_account_def Let_def split: if_splits option.splits)
    moreover have "trie_account Y (m_state s) ++ map_of (map_insert a acc (m_addressToAccount s))
        = trie_account Y (m_state s) ++ map_of (m_addressToAccount s)"
      using Some None by (auto simp: map_of_map_insert map_add_def fun_eq_iff split: option.splits)
    ultimately show ?thesis using v Some by (simp add: trie_view_def)
  qed
qed

interpretation trie_store: account_store "trie_vt Y" "trie_view Y" "\<lambda>s. trie_account Y (m_state s)"
  for Y :: "('t, 'd, 'pt) as_env"
proof
  show "r = trie_view Y s a \<and> trie_view Y s' = trie_view Y s \<and> trie_account Y (m_state s') = trie_account Y (m_state s)"
    if "vt_GetAccount (trie_vt Y) a s = (r, s')" for a s r s'
    using AccountStoreTrie_GetAccount_view [of Y a s r s'] that by (simp add: trie_vt_def)
qed (auto simp: trie_vt_def trie_view_def update_conv' delete_conv' map_of_map_insert map_add_def fun_eq_iff split: option.splits)

lemma AccountStoreTemp_GetAccount_view:
  assumes "AccountStoreTemp_GetAccount Y a s = (r, s')"
  shows "r = temp_ledger Y s a \<and> temp_ledger Y s' = temp_ledger Y s \<and> trie_view Y (tmp_parent s') = trie_view Y (tmp_parent s)
    \<and> m_state (tmp_parent s') = m_state (tmp_parent s)"
proof (cases "map_of (tmp_map s) a")
  case (Some acc)
  then show ?thesis using assms by (auto simp: AccountStoreTemp_GetAccount_def temp_ledger_def map_add_def split: option.splits)
next
  case None
  obtain q p where g: "AccountStoreTrie_GetAccount Y a (tmp_parent s) = (q, p)" by fastforce
  note v = AccountStoreTrie_GetAccount_view [OF g]
  have va: "temp_ledger Y s a = q" using None v by (simp add: temp_ledger_def map_add_def)
  show ?thesis
  proof (cases q)
    case n: None
    then have "r = None" "s' = s\<lparr>tmp_parent := p\<rparr>" using assms None g by (simp_all add: AccountStoreTemp_GetAccount_def)
    moreover have "temp_ledger Y (s\<lparr>tmp_parent := p\<rparr>) = temp_ledger Y s" using v by (simp add: temp_ledger_def)
    ultimately show ?thesis using n v va by simp
  next
    case (Some acc)
    have "temp_ledger Y (s\<lparr>tmp_parent := p, tmp_map := map_insert a acc (tmp_map s)\<rparr>) = temp_ledger Y s"
      using Some None v unfolding temp_ledger_def by (auto simp: map_of_map_insert map_add_def fun_eq_iff split: option.splits)
    moreover have "r = Some acc" "s' = s\<lparr>tmp_parent := p, tmp_map := map_insert a acc (tmp_map s)\<rparr>"
      using assms None g Some by (simp_all add: AccountStoreTemp_GetAccount_def)
    ultimately show ?thesis using Some v va by simp
  qed
qed

lemma temp_is_store: "account_store (temp_vt Y) (temp_ledger Y) (\<lambda>s. trie_view Y (tmp_parent s))"
proof
  show "r = temp_ledger Y s a \<and> temp_ledger Y s' = temp_ledger Y s \<and> trie_view Y (tmp_parent s') = trie_view Y (tmp_parent s)"
    if "vt_GetAccount (temp_vt Y) a s = (r, s')" for a s r s'
    using AccountStoreTemp_GetAccount_view [of Y a s r s'] that by (simp add: temp_vt_def)
qed (auto simp: temp_vt_def temp_ledger_def update_conv' delete_conv' map_of_map_insert map_add_def fun_eq_iff split: option.splits)

interpretation temp_store: contract_store "temp_vt Y" "temp_ledger Y" "\<lambda>s. trie_view Y (tmp_parent s)" "as_sc Y"
  for Y :: "('t, 'd, 'pt) as_env"
  unfolding contract_store_def by (rule temp_is_store)

section \<open>State deltas\<close>

text \<open>The difference of two accounts. A nonce that went down leaves the message without its base, which the
  receiver refuses. \<open>None\<close> is a null database pointer.\<close>

fun delta_storage ::
    "('d, 'pt) sc_env \<Rightarrow> bool \<Rightarrow> Account \<Rightarrow> Account \<Rightarrow> 'd ContractStorage \<Rightarrow> Index list \<Rightarrow> (bytes \<times> bytes) list option" where
  "delta_storage X fullCopy old new C [] = Some []"
| "delta_storage X fullCopy old new C (keyHash # ks) = do {
     rlpStr \<leftarrow> Account_GetRawStorage X keyHash True new C;
     changed \<leftarrow> (if fullCopy then Some True
                  else map_option (\<lambda>x. rlpStr \<noteq> x) (Account_GetRawStorage X keyHash False old C));
     rest \<leftarrow> delta_storage X fullCopy old new C ks;
     Some (if changed then (keyHash, rlpStr) # rest else rest) }"

definition AccountDeltaToProtobuf ::
    "('t, 'd, 'pt) as_env \<Rightarrow> Account option \<Rightarrow> Account \<Rightarrow> 'd ContractStorage \<Rightarrow> ProtoAccount option" where
  "AccountDeltaToProtobuf Y oldAccount newAccount C =
     (let X = as_sc Y;
          fullCopy = (oldAccount = None);
          old = (case oldAccount of None \<Rightarrow> Account_default (as_ledger Y) | Some acc \<Rightarrow> acc);
          balanceDelta = int (unat (m_balance newAccount)) - int (unat (m_balance old));
          pa = \<lparr>pa_base = None, pa_code = None, pa_storage = [], pa_numbersign = Some (balanceDelta > 0)\<rparr>
      in case USafe_sub (SafeMath64 (as_ledger Y)) (m_nonce newAccount) (m_nonce old) 0 of
           (False, _) \<Rightarrow> Some pa
         | (True, nonceDelta) \<Rightarrow> do {
             let accbase = \<lparr>m_version = m_version newAccount, m_balance = of_int \<bar>balanceDelta\<bar>, m_nonce = nonceDelta,
                            m_storageRoot = h256_zero, m_codeHash = h256_zero\<rparr>;
             (accbase', pa') \<leftarrow>
               (if \<not> isContract newAccount then Some (accbase, pa)
                else do {
                  newCode \<leftarrow> (if fullCopy then Account_GetCode X newAccount C else Some []);
                  let accbase1 = (if fullCopy then accbase\<lparr>m_codeHash := m_codeHash newAccount\<rparr> else accbase);
                  let pa1 = (if fullCopy then pa\<lparr>pa_code := Some newCode\<rparr> else pa);
                  (if fullCopy \<or> m_storageRoot newAccount \<noteq> m_storageRoot old
                   then do {
                     keys \<leftarrow> Account_GetStorageKeyHashes X True newAccount C;
                     storage \<leftarrow> delta_storage X fullCopy old newAccount C keys;
                     Some (accbase1\<lparr>m_storageRoot := m_storageRoot newAccount\<rparr>, pa1\<lparr>pa_storage := storage\<rparr>) }
                   else Some (accbase1, pa1)) });
             base \<leftarrow> AccountBaseToProtobuf accbase';
             Some (pa'\<lparr>pa_base := Some base\<rparr>) })"

fun copy_hashes :: "(bytes \<times> bytes) list \<Rightarrow> (Index \<times> bytes) list option" where
  "copy_hashes [] = Some []"
| "copy_hashes ((k, d) # es) = do {
     tmpHash \<leftarrow> CopyWithSizeCheck 32 k;
     map_option ((#) (tmpHash, d)) (copy_hashes es) }"

text \<open>Applying a difference. The result of \<open>ChangeBalance\<close> is not looked at. The outer \<open>None\<close> is a null
  database pointer, the flag the result.\<close>

definition apply_code ::
    "('t, 'd, 'pt) as_env \<Rightarrow> ProtoAccount \<Rightarrow> AccountBase \<Rightarrow> Account \<Rightarrow> 'd ContractStorage \<Rightarrow> (bool \<times> Account) option" where
  "apply_code Y pa accbase acc C =
     (let newCode = (case pa_code pa of None \<Rightarrow> [] | Some c \<Rightarrow> c)
      in if MAX_CODE_SIZE_IN_BYTES Y < length newCode then Some (False, acc)
         else do {
           oldCode \<leftarrow> Account_GetCode (as_sc Y) acc C;
           let acc1 = (if newCode \<noteq> oldCode then snd (Account_SetCode (sc_ossl (as_sc Y)) newCode acc) else acc);
           Some (m_codeHash acc1 = m_codeHash accbase, acc1) })"

definition apply_storage ::
    "('t, 'd, 'pt) as_env \<Rightarrow> ProtoAccount \<Rightarrow> AccountBase \<Rightarrow> Address \<Rightarrow> bool \<Rightarrow> bool \<Rightarrow> Account \<Rightarrow> 'd ContractStorage
     \<Rightarrow> (bool \<times> Account \<times> 'd ContractStorage) option" where
  "apply_storage Y pa accbase addr temp revertible acc C =
     (if m_storageRoot accbase = m_storageRoot acc then Some (True, acc, C)
      else case copy_hashes (pa_storage pa) of
             None \<Rightarrow> Some (False, acc, C)
           | Some entries \<Rightarrow> do {
               (ok, acc1, C1) \<leftarrow> Account_SetStorage_raw (as_sc Y) addr entries temp revertible acc C;
               Some (ok \<and> \<not> (entries \<noteq> [] \<and> m_storageRoot accbase \<noteq> m_storageRoot acc1), acc1, C1) })"

definition ProtobufToAccountDelta ::
    "('t, 'd, 'pt) as_env \<Rightarrow> ProtoAccount \<Rightarrow> Address \<Rightarrow> bool \<Rightarrow> bool \<Rightarrow> bool \<Rightarrow> Account \<Rightarrow> 'd ContractStorage
     \<Rightarrow> (bool \<times> Account \<times> 'd ContractStorage) option" where
  "ProtobufToAccountDelta Y pa addr fullCopy temp revertible acc C =
     (case pa_base pa of
        None \<Rightarrow> Some (False, acc, C)
      | Some base \<Rightarrow>
          (case ProtobufToAccountBase base
                  \<lparr>m_version = ACCOUNT_VERSION (as_ledger Y), m_balance = 0, m_nonce = 0, m_storageRoot = h256_zero, m_codeHash = h256_zero\<rparr> of
             None \<Rightarrow> Some (False, acc, C)
           | Some accbase \<Rightarrow>
               if m_version accbase \<noteq> ACCOUNT_VERSION (as_ledger Y) then Some (False, acc, C)
               else case pa_numbersign pa of
                      None \<Rightarrow> Some (False, acc, C)
                    | Some sign \<Rightarrow>
                        let balanceDelta = (if sign then int (unat (m_balance accbase)) else - int (unat (m_balance accbase)));
                            acc1 = snd (Account_ChangeBalance (SafeMath128 (as_ledger Y)) balanceDelta acc)
                        in case Account_IncreaseNonceBy (SafeMath64 (as_ledger Y)) (m_nonce accbase) acc1 of
                             (False, acc2) \<Rightarrow> Some (False, acc2, C)
                           | (True, acc2) \<Rightarrow>
                               if (\<exists>c. pa_code pa = Some c \<and> c \<noteq> []) \<or> isContract acc2
                               then do {
                                 (ok, acc3) \<leftarrow> (if fullCopy then apply_code Y pa accbase acc2 C else Some (True, acc2));
                                 (if ok then apply_storage Y pa accbase addr temp revertible acc3 C else Some (False, acc3, C)) }
                               else Some (True, acc2, C)))"

text \<open>The delta of the temporary store against its parent. \<open>std::map\<close> is iterated in the order of the
  addresses, so every node produces the same octets.\<close>

fun delta_entries ::
    "('t, 'd, 'pt) as_env \<Rightarrow> 'd ContractStorage \<Rightarrow> amap \<Rightarrow> 't trie_store \<Rightarrow> ((bytes \<times> ProtoAccount) list \<times> 't trie_store) option" where
  "delta_entries Y C [] s = Some ([], s)"
| "delta_entries Y C ((a, account) # es) s = do {
     let (old, s1) = AccountStoreTrie_GetAccount Y a s;
     pa \<leftarrow> AccountDeltaToProtobuf Y old account C;
     (rest, s2) \<leftarrow> delta_entries Y C es s1;
     Some ((addr_bytes a, pa) # rest, s2) }"

definition SetAccountStoreDelta ::
    "('t, 'd, 'pt) as_env \<Rightarrow> bytes \<Rightarrow> nat \<Rightarrow> 'd ContractStorage \<Rightarrow> 't temp_store \<Rightarrow> (bytes \<times> bool \<times> 't temp_store) option" where
  "SetAccountStoreDelta Y dst offset C s = do {
     (entries, p) \<leftarrow> delta_entries Y C (sort_key fst (tmp_map s)) (tmp_parent s);
     (dst', ok) \<leftarrow> SerializeToArray (AccountStoreToArray (as_proto Y) entries) dst offset;
     Some (dst', ok, s\<lparr>tmp_parent := p\<rparr>) }"

definition addr_of_prefix :: "bytes \<Rightarrow> Address" where
  "addr_of_prefix x = addr_of_bytes (take ACC_ADDR_SIZE x @ replicate (ACC_ADDR_SIZE - length x) 0)"

section \<open>The account store\<close>

record ('t, 'd) AccountStore =
  m_accountStoreTemp :: "('t temp_store, 'd) SC"
  m_addressToAccountRevChanged :: amap
  m_addressToAccountRevCreated :: amap
  m_stateDeltaSerialized :: bytes

text \<open>The permanent store and the contract storage, both reached through the temporary store.\<close>

definition primary :: "('t, 'd) AccountStore \<Rightarrow> 't trie_store" where
  "primary A = tmp_parent (sc_store (m_accountStoreTemp A))"

definition upd_primary :: "('t trie_store \<Rightarrow> 't trie_store) \<Rightarrow> ('t, 'd) AccountStore \<Rightarrow> ('t, 'd) AccountStore" where
  "upd_primary f A =
     A\<lparr>m_accountStoreTemp := (m_accountStoreTemp A)\<lparr>sc_store := (sc_store (m_accountStoreTemp A))\<lparr>tmp_parent := f (primary A)\<rparr>\<rparr>\<rparr>"

definition storage :: "('t, 'd) AccountStore \<Rightarrow> 'd ContractStorage" where
  "storage A = sc_storage (m_accountStoreTemp A)"

definition upd_storage :: "('d ContractStorage \<Rightarrow> 'd ContractStorage) \<Rightarrow> ('t, 'd) AccountStore \<Rightarrow> ('t, 'd) AccountStore" where
  "upd_storage f A = A\<lparr>m_accountStoreTemp := (m_accountStoreTemp A)\<lparr>sc_storage := f (storage A)\<rparr>\<rparr>"

definition AddAccountDuringDeserialization ::
    "('t, 'd, 'pt) as_env \<Rightarrow> Address \<Rightarrow> Account \<Rightarrow> Account \<Rightarrow> bool \<Rightarrow> bool \<Rightarrow> ('t, 'd) AccountStore \<Rightarrow> ('t, 'd) AccountStore option" where
  "AddAccountDuringDeserialization Y a account oriAccount fullCopy revertible A = do {
     let A1 = upd_primary (\<lambda>s. s\<lparr>m_addressToAccount := AList.update a account (m_addressToAccount s)\<rparr>) A;
     let A2 = (if \<not> revertible then A1
               else if fullCopy then A1\<lparr>m_addressToAccountRevCreated := AList.update a account (m_addressToAccountRevCreated A1)\<rparr>
               else A1\<lparr>m_addressToAccountRevChanged := AList.update a oriAccount (m_addressToAccountRevChanged A1)\<rparr>);
     (_, s) \<leftarrow> UpdateStateTrie Y a account (primary A2);
     Some (upd_primary (\<lambda>_. s) A2) }"

text \<open>One entry of a delta on the permanent store, and all of them. An account that is new is added to the
  map before its difference is applied.\<close>

definition apply_delta_entry ::
    "('t, 'd, 'pt) as_env \<Rightarrow> bool \<Rightarrow> bool \<Rightarrow> bytes \<times> ProtoAccount \<Rightarrow> ('t, 'd) AccountStore \<Rightarrow> (bool \<times> ('t, 'd) AccountStore) option" where
  "apply_delta_entry Y revertible temp e A =
     (let a = addr_of_prefix (fst e)
      in case AccountStoreTrie_GetAccount Y a (primary A) of (found, s1) \<Rightarrow>
           (let fullCopy = (found = None);
                (ori, s2) = (if fullCopy
                             then AccountStoreTrie_GetAccount Y a (AddAccount (trie_vt Y) a (Account_default (as_ledger Y)) s1)
                             else (found, s1));
                A1 = upd_primary (\<lambda>_. s2) A
            in case ori of
                 None \<Rightarrow> Some (False, A1)
               | Some oriAccount \<Rightarrow> do {
                   (ok, account, C) \<leftarrow> ProtobufToAccountDelta Y (snd e) a fullCopy temp revertible oriAccount (storage A1);
                   let A2 = upd_storage (\<lambda>_. C) A1;
                   (if \<not> ok then Some (False, A2)
                    else map_option (Pair True) (AddAccountDuringDeserialization Y a account oriAccount fullCopy revertible A2)) }))"

fun apply_delta_entries ::
    "('t, 'd, 'pt) as_env \<Rightarrow> bool \<Rightarrow> bool \<Rightarrow> (bytes \<times> ProtoAccount) list \<Rightarrow> ('t, 'd) AccountStore \<Rightarrow> (bool \<times> ('t, 'd) AccountStore) option" where
  "apply_delta_entries Y revertible temp [] A = Some (True, A)"
| "apply_delta_entries Y revertible temp (e # es) A = do {
     (ok, A1) \<leftarrow> apply_delta_entry Y revertible temp e A;
     (if ok then apply_delta_entries Y revertible temp es A1 else Some (False, A1)) }"

definition GetAccountStoreDelta ::
    "('t, 'd, 'pt) as_env \<Rightarrow> bytes \<Rightarrow> nat \<Rightarrow> bool \<Rightarrow> bool \<Rightarrow> ('t, 'd) AccountStore \<Rightarrow> (bool \<times> ('t, 'd) AccountStore) option" where
  "GetAccountStoreDelta Y src offset revertible temp A =
     (case AccountStoreFromArray (as_proto Y) (drop offset src) of
        None \<Rightarrow> Some (False, A)
      | Some entries \<Rightarrow> apply_delta_entries Y revertible temp entries A)"

text \<open>The same on the temporary store, for a delta received from another committee.\<close>

definition apply_temp_entry ::
    "('t, 'd, 'pt) as_env \<Rightarrow> bool \<Rightarrow> bytes \<times> ProtoAccount \<Rightarrow> ('t temp_store, 'd) SC \<Rightarrow> (bool \<times> ('t temp_store, 'd) SC) option" where
  "apply_temp_entry Y temp e S =
     (let a = addr_of_prefix (fst e); V = temp_vt Y
      in case vt_GetAccount V a (sc_store S) of (found, s1) \<Rightarrow>
           (let fullCopy = (found = None);
                s2 = (if fullCopy then AddAccount V a (Account_default (as_ledger Y)) s1 else s1)
            in case vt_GetAccount V a s2 of
                 (None, s3) \<Rightarrow> Some (False, S\<lparr>sc_store := s3\<rparr>)
               | (Some oriAccount, s3) \<Rightarrow> do {
                   (ok, account, C) \<leftarrow> ProtobufToAccountDelta Y (snd e) a fullCopy temp False oriAccount (sc_storage S);
                   (if \<not> ok then Some (False, S\<lparr>sc_store := s3, sc_storage := C\<rparr>)
                    else Some (True, S\<lparr>sc_store := vt_update V (AList.update a account) s3, sc_storage := C\<rparr>)) }))"

fun apply_temp_entries ::
    "('t, 'd, 'pt) as_env \<Rightarrow> bool \<Rightarrow> (bytes \<times> ProtoAccount) list \<Rightarrow> ('t temp_store, 'd) SC \<Rightarrow> (bool \<times> ('t temp_store, 'd) SC) option" where
  "apply_temp_entries Y temp [] S = Some (True, S)"
| "apply_temp_entries Y temp (e # es) S = do {
     (ok, S1) \<leftarrow> apply_temp_entry Y temp e S;
     (if ok then apply_temp_entries Y temp es S1 else Some (False, S1)) }"

definition DeserializeDeltaTemp ::
    "('t, 'd, 'pt) as_env \<Rightarrow> bytes \<Rightarrow> nat \<Rightarrow> ('t, 'd) AccountStore \<Rightarrow> (bool \<times> ('t, 'd) AccountStore) option" where
  "DeserializeDeltaTemp Y src offset A =
     (case AccountStoreFromArray (as_proto Y) (drop offset src) of
        None \<Rightarrow> Some (False, A)
      | Some entries \<Rightarrow>
          map_option (\<lambda>(ok, S). (ok, A\<lparr>m_accountStoreTemp := S\<rparr>)) (apply_temp_entries Y True entries (m_accountStoreTemp A)))"

definition SerializeDelta :: "('t, 'd, 'pt) as_env \<Rightarrow> ('t, 'd) AccountStore \<Rightarrow> (bool \<times> ('t, 'd) AccountStore) option" where
  "SerializeDelta Y A = do {
     (dst, ok, s) \<leftarrow> SetAccountStoreDelta Y [] 0 (storage A) (sc_store (m_accountStoreTemp A));
     Some (ok, A\<lparr>m_accountStoreTemp := (m_accountStoreTemp A)\<lparr>sc_store := s\<rparr>, m_stateDeltaSerialized := dst\<rparr>) }"

definition GetSerializedDelta :: "('t, 'd) AccountStore \<Rightarrow> bytes" where
  "GetSerializedDelta A = m_stateDeltaSerialized A"

definition DeserializeDelta ::
    "('t, 'd, 'pt) as_env \<Rightarrow> bytes \<Rightarrow> nat \<Rightarrow> bool \<Rightarrow> ('t, 'd) AccountStore \<Rightarrow> (bool \<times> ('t, 'd) AccountStore) option" where
  "DeserializeDelta Y src offset revertible A = GetAccountStoreDelta Y src offset revertible False A"

definition InitTemp :: "('t, 'd) AccountStore \<Rightarrow> ('t, 'd) AccountStore" where
  "InitTemp A =
     upd_storage InitTempState
       (A\<lparr>m_accountStoreTemp := AccountStoreSC_Init (\<lambda>s. s\<lparr>tmp_map := []\<rparr>) (m_accountStoreTemp A), m_stateDeltaSerialized := []\<rparr>)"

definition InitRevertibles :: "('t, 'd) AccountStore \<Rightarrow> ('t, 'd) AccountStore" where
  "InitRevertibles A =
     upd_storage ContractStorage_InitRevertibles
       (A\<lparr>m_addressToAccountRevChanged := [], m_addressToAccountRevCreated := []\<rparr>)"

definition InitSoft :: "('t, 'd, 'pt) as_env \<Rightarrow> ('t, 'd) AccountStore \<Rightarrow> ('t, 'd) AccountStore" where
  "InitSoft Y A = InitTemp (InitRevertibles (upd_primary (AccountStoreTrie_Init Y) A))"

definition AccountStore_Init :: "bool \<Rightarrow> ('t, 'd, 'pt) as_env \<Rightarrow> ('t, 'd) AccountStore \<Rightarrow> ('t, 'd) AccountStore" where
  "AccountStore_Init LOOKUP_NODE_MODE Y A =
     upd_primary (\<lambda>s. s\<lparr>m_state := trie_ResetDB (as_trie Y) (m_state s)\<rparr>)
       (upd_storage (ContractStorage_Reset LOOKUP_NODE_MODE (sc_ldb (as_sc Y))) (InitSoft Y A))"

definition CommitTemp :: "('t, 'd, 'pt) as_env \<Rightarrow> ('t, 'd) AccountStore \<Rightarrow> ('t, 'd) AccountStore option" where
  "CommitTemp Y A = map_option snd (DeserializeDelta Y (m_stateDeltaSerialized A) 0 False A)"

definition CommitTempRevertible :: "('t, 'd, 'pt) as_env \<Rightarrow> ('t, 'd) AccountStore \<Rightarrow> ('t, 'd) AccountStore option" where
  "CommitTempRevertible Y A =
     (let A1 = InitRevertibles A in map_option snd (DeserializeDelta Y (m_stateDeltaSerialized A1) 0 True A1))"

fun revert_changed :: "('t, 'd, 'pt) as_env \<Rightarrow> amap \<Rightarrow> 't trie_store \<Rightarrow> 't trie_store option" where
  "revert_changed Y [] s = Some s"
| "revert_changed Y ((a, account) # es) s = do {
     (_, s1) \<leftarrow> UpdateStateTrie Y a account (s\<lparr>m_addressToAccount := AList.update a account (m_addressToAccount s)\<rparr>);
     revert_changed Y es s1 }"

definition revert_created :: "('t, 'd, 'pt) as_env \<Rightarrow> Address \<times> Account \<Rightarrow> 't trie_store \<Rightarrow> 't trie_store" where
  "revert_created Y e s = RemoveFromTrie Y (fst e) (RemoveAccount (trie_vt Y) (fst e) s)"

definition RevertCommitTemp :: "('t, 'd, 'pt) as_env \<Rightarrow> ('t, 'd) AccountStore \<Rightarrow> ('t, 'd) AccountStore option" where
  "RevertCommitTemp Y A = do {
     s1 \<leftarrow> revert_changed Y (m_addressToAccountRevChanged A) (primary A);
     let s2 = fold (revert_created Y) (m_addressToAccountRevCreated A) s1;
     Some (upd_storage RevertContractStates (upd_primary (\<lambda>_. s2) A)) }"

text \<open>Operations on the temporary store.\<close>

definition GetAccountTemp :: "('t, 'd, 'pt) as_env \<Rightarrow> Address \<Rightarrow> ('t, 'd) AccountStore \<Rightarrow> Account option \<times> ('t, 'd) AccountStore" where
  "GetAccountTemp Y a A =
     (case vt_GetAccount (this_vt (temp_vt Y)) a (m_accountStoreTemp A) of (r, S) \<Rightarrow> (r, A\<lparr>m_accountStoreTemp := S\<rparr>))"

definition AddAccountTemp :: "('t, 'd, 'pt) as_env \<Rightarrow> Address \<Rightarrow> Account \<Rightarrow> ('t, 'd) AccountStore \<Rightarrow> ('t, 'd) AccountStore" where
  "AddAccountTemp Y a account A = A\<lparr>m_accountStoreTemp := AddAccount (this_vt (temp_vt Y)) a account (m_accountStoreTemp A)\<rparr>"

definition IncreaseBalanceTemp ::
    "('t, 'd, 'pt) as_env \<Rightarrow> Address \<Rightarrow> 128 word \<Rightarrow> ('t, 'd) AccountStore \<Rightarrow> bool \<times> ('t, 'd) AccountStore" where
  "IncreaseBalanceTemp Y a delta A =
     (case IncreaseBalance (this_vt (temp_vt Y)) (as_ledger Y) a delta (m_accountStoreTemp A) of
        (ok, S) \<Rightarrow> (ok, A\<lparr>m_accountStoreTemp := S\<rparr>))"

definition GetNonceTemp :: "('t, 'd, 'pt) as_env \<Rightarrow> Address \<Rightarrow> ('t, 'd) AccountStore \<Rightarrow> 128 word \<times> ('t, 'd) AccountStore" where
  "GetNonceTemp Y a A =
     (if map_of (tmp_map (sc_store (m_accountStoreTemp A))) a \<noteq> None
      then case GetNonce (this_vt (temp_vt Y)) a (m_accountStoreTemp A) of (n, S) \<Rightarrow> (ucast n, A\<lparr>m_accountStoreTemp := S\<rparr>)
      else case GetNonce (trie_vt Y) a (primary A) of (n, s) \<Rightarrow> (ucast n, upd_primary (\<lambda>_. s) A))"

definition UpdateAccountsTemp ::
    "('t, 'd, 'pt) as_env \<Rightarrow> 'd scilla_world \<Rightarrow> nat \<Rightarrow> nat \<Rightarrow> bool \<Rightarrow> 'pt TransactionCoreInfo \<Rightarrow> event TransactionReceipt
     \<Rightarrow> ('t, 'd) AccountStore \<Rightarrow> (bool \<times> event TransactionReceipt \<times> ('t, 'd) AccountStore) option" where
  "UpdateAccountsTemp Y W blockNum numShards isDS tx receipt A =
     map_option (\<lambda>(ok, r, S). (ok, r, A\<lparr>m_accountStoreTemp := S\<rparr>))
       (UpdateAccounts (temp_vt Y) (as_sc Y) W blockNum numShards isDS tx True receipt (m_accountStoreTemp A))"

definition UpdateCoinbaseTemp ::
    "('t, 'd, 'pt) as_env \<Rightarrow> Address \<Rightarrow> Address \<Rightarrow> 128 word \<Rightarrow> ('t, 'd) AccountStore \<Rightarrow> (bool \<times> ('t, 'd) AccountStore) option" where
  "UpdateCoinbaseTemp Y rewardee genesisAddress amt A =
     (let T = this_vt (temp_vt Y)
      in case vt_GetAccount T rewardee (m_accountStoreTemp A) of (found, S1) \<Rightarrow>
           (let S2 = (if found = None then AddAccount T rewardee (Account_default (as_ledger Y)) S1 else S1)
            in map_option (\<lambda>(ok, S). (ok, A\<lparr>m_accountStoreTemp := S\<rparr>))
                 (TransferBalance T (as_ledger Y) genesisAddress rewardee amt S2)))"

definition GetStateDeltaHash :: "('t, 'd, 'pt) as_env \<Rightarrow> ('t, 'd) AccountStore \<Rightarrow> bytes" where
  "GetStateDeltaHash Y A =
     (if list_all (\<lambda>i. i = 0) (m_stateDeltaSerialized A) then h256_zero
      else SHA2_Finalize (sc_ossl (as_sc Y)) (SHA2_Update SHA2_Reset (m_stateDeltaSerialized A)))"

section \<open>Permanent storage\<close>

text \<open>The codes of contracts that the database does not have yet.\<close>

fun missing_codes :: "('t, 'd, 'pt) as_env \<Rightarrow> 'd ContractStorage \<Rightarrow> amap \<Rightarrow> (Address \<times> bytes) list option" where
  "missing_codes Y C [] = Some []"
| "missing_codes Y C ((a, acc) # es) = do {
     rest \<leftarrow> missing_codes Y C es;
     (if \<not> isContract acc then Some rest
      else do {
        stored \<leftarrow> GetContractCode (sc_ldb (as_sc Y)) a C;
        (if stored \<noteq> [] then Some rest
         else map_option (\<lambda>c. (a, c) # rest) (Account_GetCode (as_sc Y) acc C)) }) }"

fun delete_codes :: "('t, 'd, 'pt) as_env \<Rightarrow> (Address \<times> bytes) list \<Rightarrow> 'd ContractStorage \<Rightarrow> 'd ContractStorage option" where
  "delete_codes Y [] C = Some C"
| "delete_codes Y ((a, c) # es) C = do {
     (_, C1) \<leftarrow> DeleteContractCode (sc_ldb (as_sc Y)) a C;
     delete_codes Y es C1 }"

text \<open>\<open>MoveUpdatesToDisk(false)\<close>. The trie is committed also when the contract states could not be.\<close>

definition MoveUpdatesToDisk ::
    "('t, 'd, 'pt) as_env \<Rightarrow> ('t, 'd) AccountStore \<Rightarrow> 'd BlockStorage
     \<Rightarrow> (bool \<times> ('t, 'd) AccountStore \<times> 'd BlockStorage) option" where
  "MoveUpdatesToDisk Y A B = do {
     let D = sc_ldb (as_sc Y);
     code_batch \<leftarrow> missing_codes Y (storage A) (m_addressToAccount (primary A));
     (ok, C1) \<leftarrow> PutContractCodeBatch D (map (\<lambda>(a, c). (addr_hex a, c)) code_batch) (storage A);
     (if \<not> ok then Some (False, upd_storage (\<lambda>_. C1) A, B)
      else do {
        (ret, C2) \<leftarrow> CommitStateDB D C1;
        C3 \<leftarrow> (if ret then Some C2 else delete_codes Y code_batch C2);
        let t = trie_commit (as_trie Y) (m_state (primary A));
        let root = trie_root (as_trie Y) t;
        let A1 = upd_primary (\<lambda>s. s\<lparr>m_state := t, m_prevRoot := root\<rparr>) (upd_storage (\<lambda>_. C3) A);
        (put, B1) \<leftarrow> PutStateRoot D root B;
        (if \<not> put then Some (False, A1, B1)
         else Some (True, upd_primary (\<lambda>s. s\<lparr>m_addressToAccount := []\<rparr>) A1, B1)) }) }"

definition DiscardUnsavedUpdates :: "('t, 'd, 'pt) as_env \<Rightarrow> ('t, 'd) AccountStore \<Rightarrow> ('t, 'd) AccountStore" where
  "DiscardUnsavedUpdates Y A =
     upd_primary (\<lambda>s. let t = trie_rollback (as_trie Y) (m_state s)
                      in case trie_setRoot (as_trie Y) (m_prevRoot s) t of
                           (False, t') \<Rightarrow> s\<lparr>m_state := t'\<rparr>
                         | (True, t') \<Rightarrow> s\<lparr>m_state := t', m_addressToAccount := []\<rparr>) A"

definition RetrieveFromDisk ::
    "('t, 'd, 'pt) as_env \<Rightarrow> ('t, 'd) AccountStore \<Rightarrow> 'd BlockStorage
     \<Rightarrow> (bool \<times> ('t, 'd) AccountStore \<times> 'd BlockStorage) option" where
  "RetrieveFromDisk Y A B = do {
     let D = sc_ldb (as_sc Y);
     let A1 = InitSoft Y A;
     let use_root = (\<lambda>rootBytes B1.
           let root = (if length rootBytes = 32 then rootBytes else h256_zero)
           in case trie_setRoot (as_trie Y) root (m_state (primary A1)) of
                (found, t) \<Rightarrow> Some (found, upd_primary (\<lambda>s. s\<lparr>m_state := t\<rparr>) A1, B1));
     stored \<leftarrow> GetStateRoot D B;
     (case stored of
        Some rootBytes \<Rightarrow> use_root rootBytes B
      | None \<Rightarrow> do {
          old \<leftarrow> GetMetadata D STATEROOT B;
          (case old of
             None \<Rightarrow> Some (False, A1, B)
           | Some rootBytes \<Rightarrow> do {
               (put, B1) \<leftarrow> PutStateRoot D rootBytes B;
               (if put then use_root rootBytes B1 else Some (False, A1, B1)) }) }) }"

section \<open>A small instance\<close>

text \<open>A trie that is a map, an encoding of the account messages that reads back what it wrote, and a
  configuration.\<close>

definition toy_trie :: "(Address \<Rightarrow> bytes) trie" where
  "toy_trie = \<lparr>trie_at = (\<lambda>t a. t a), trie_insert = (\<lambda>a b t. t(a := b)), trie_remove = (\<lambda>a t. t(a := [])), trie_root = (\<lambda>_. []),
     trie_setRoot = (\<lambda>_ t. (True, t)), trie_commit = (\<lambda>t. t), trie_rollback = (\<lambda>t. t), trie_init = (\<lambda>_ _. []), trie_ResetDB = (\<lambda>_ _. [])\<rparr>"

definition enc_opt :: "('a \<Rightarrow> bytes) \<Rightarrow> 'a option \<Rightarrow> bytes" where
  "enc_opt f x = (case x of None \<Rightarrow> [0] | Some y \<Rightarrow> 1 # f y)"

definition dec_opt :: "(bytes \<Rightarrow> 'a \<times> bytes) \<Rightarrow> bytes \<Rightarrow> 'a option \<times> bytes" where
  "dec_opt f bs = (if hd bs = 0 then (None, tl bs) else case f (tl bs) of (y, r) \<Rightarrow> (Some y, r))"

definition enc_word :: "'l::len word \<Rightarrow> bytes" where
  "enc_word w = enc_nat (unat w)"

definition dec_word :: "bytes \<Rightarrow> 'l::len word \<times> bytes" where
  "dec_word bs = (case dec_nat bs of (n, r) \<Rightarrow> (of_nat n, r))"

lemma opt_codec: "prefix_codec f f' \<Longrightarrow> prefix_codec (enc_opt f) (dec_opt f')"
  by (auto simp: prefix_codec_def enc_opt_def dec_opt_def split: option.splits)

lemma word_codec: "prefix_codec (enc_word :: 'l::len word \<Rightarrow> bytes) dec_word"
  using nat_codec by (simp add: prefix_codec_def enc_word_def dec_word_def)

definition toy_enc_base :: "ProtoAccountBase \<Rightarrow> bytes" where
  "toy_enc_base p = enc_opt enc_word (pab_version p) @ enc_opt enc_bytes (pab_balance p) @ enc_opt enc_word (pab_nonce p)
     @ enc_opt enc_bytes (pab_codehash p) @ enc_opt enc_bytes (pab_storageroot p)"

definition toy_dec_base :: "bytes \<Rightarrow> ProtoAccountBase \<times> bytes" where
  "toy_dec_base bs =
     (case dec_opt dec_word bs of (ver, r1) \<Rightarrow> case dec_opt dec_bytes r1 of (b, r2) \<Rightarrow> case dec_opt dec_word r2 of (n, r3) \<Rightarrow>
      case dec_opt dec_bytes r3 of (c, r4) \<Rightarrow> case dec_opt dec_bytes r4 of (s, r5) \<Rightarrow>
        (\<lparr>pab_version = ver, pab_balance = b, pab_nonce = n, pab_codehash = c, pab_storageroot = s\<rparr>, r5))"

lemma toy_base_codec: "prefix_codec toy_enc_base toy_dec_base"
  by (simp add: prefix_codec_def toy_enc_base_def toy_dec_base_def prefix_codecD [OF opt_codec [OF word_codec]] prefix_codecD [OF opt_codec [OF bytes_codec]])

definition toy_enc_account :: "ProtoAccount \<Rightarrow> bytes" where
  "toy_enc_account p = enc_opt toy_enc_base (pa_base p) @ enc_opt enc_bytes (pa_code p)
     @ enc_list (enc_pair enc_bytes enc_bytes) (pa_storage p) @ enc_opt enc_bool (pa_numbersign p)"

definition toy_dec_account :: "bytes \<Rightarrow> ProtoAccount \<times> bytes" where
  "toy_dec_account bs =
     (case dec_opt toy_dec_base bs of (b, r1) \<Rightarrow> case dec_opt dec_bytes r1 of (c, r2) \<Rightarrow>
      case dec_list (dec_pair dec_bytes dec_bytes) r2 of (st, r3) \<Rightarrow> case dec_opt dec_bool r3 of (n, r4) \<Rightarrow>
        (\<lparr>pa_base = b, pa_code = c, pa_storage = st, pa_numbersign = n\<rparr>, r4))"

lemma toy_account_codec: "prefix_codec toy_enc_account toy_dec_account"
  by (simp add: prefix_codec_def toy_enc_account_def toy_dec_account_def prefix_codecD [OF opt_codec [OF toy_base_codec]]
      prefix_codecD [OF opt_codec [OF bytes_codec]] prefix_codecD [OF list_codec [OF pair_codec [OF bytes_codec bytes_codec]]]
      prefix_codecD [OF opt_codec [OF bool_codec]])

definition toy_account_protobuf :: account_protobuf where
  "toy_account_protobuf = \<lparr>
     AccountBaseToArray = toy_enc_base, AccountBaseFromArray = (\<lambda>bs. Some (fst (toy_dec_base bs))),
     AccountStoreToArray = enc_list (enc_pair enc_bytes toy_enc_account),
     AccountStoreFromArray = (\<lambda>bs. Some (fst (dec_list (dec_pair dec_bytes toy_dec_account) bs)))\<rparr>"

lemma toy_store_reads_back: "AccountStoreFromArray toy_account_protobuf (AccountStoreToArray toy_account_protobuf es) = Some es"
  using prefix_codecD [OF list_codec [OF pair_codec [OF bytes_codec toy_account_codec]], of es "[]"]
  by (simp add: toy_account_protobuf_def)

definition toy_ledger :: ledger_env where
  "toy_ledger = \<lparr>SafeMath128 = exact_usafe, SafeMath64 = exact_usafe, NORMAL_TRAN_GAS = 1, CONTRACT_CREATE_GAS = 50,
     CONTRACT_INVOKE_GAS = 10, MAX_CONTRACT_DEPTH = 6, ACCOUNT_VERSION = 1\<rparr>"

text \<open>The group of \<open>toy\<close> with a digest that is the length of the message.\<close>

definition toy_lengths :: "int openssl" where
  "toy_lengths = toy\<lparr>SHA256 := (\<lambda>bs. [of_nat (length bs)])\<rparr>"

definition toy_ledger_env :: "(Address \<Rightarrow> bytes, db_path \<Rightarrow> (bytes \<times> bytes) list, int) as_env" where
  "toy_ledger_env = \<lparr>as_sc = \<lparr>sc_ledger = toy_ledger, sc_ossl = toy_lengths, sc_ldb = map_db, sc_proto = toy_state_protobuf, CONTRACT_STATE_VERSION = 1\<rparr>,
     as_trie = toy_trie, as_proto = toy_account_protobuf, MAX_CODE_SIZE_IN_BYTES = 1000\<rparr>"

lemma toy_ledger_env_ok: "ledger_env_ok (as_ledger toy_ledger_env)"
  by (simp add: toy_ledger_env_def toy_ledger_def ledger_env_ok_def exact_usafe_ok)

text \<open>A store with the given permanent accounts and the given temporary ones.\<close>

definition toy_store :: "amap \<Rightarrow> amap \<Rightarrow> (Address \<Rightarrow> bytes, db_path \<Rightarrow> (bytes \<times> bytes) list) AccountStore" where
  "toy_store perm tmp = \<lparr>m_accountStoreTemp =
       \<lparr>sc_store = \<lparr>tmp_map = tmp, tmp_parent = \<lparr>m_addressToAccount = perm, m_state = (\<lambda>_. []), m_prevRoot = []\<rparr>\<rparr>, sc_atomic = [],
        sc_storage = fresh_contracts, m_curContractAddr = 0, m_curSenderAddr = 0, m_curAmount = 0, m_curGasLimit = 0, m_curGasPrice = 0,
        m_curBlockNum = 0, m_curNumShards = 0, m_curIsDS = False, m_curDepth = 0\<rparr>,
     m_addressToAccountRevChanged = [], m_addressToAccountRevCreated = [], m_stateDeltaSerialized = []\<rparr>"

end
