(* ===== verification/StateDelta.thy ===== *)
theory StateDelta
  imports AccountStore
begin

text \<open>
  What the account store guarantees: a transaction and a whole epoch on the temporary store conserve money
  and leave the permanent ledger alone; a state delta carries the balances and nonces of the temporary
  ledger to every node with the same permanent ledger; a revertible commit can be taken back; unsaved
  updates can be discarded.
\<close>

section \<open>Transactions on the temporary store\<close>

definition temp_accounts :: "('t, 'd, 'pt) as_env \<Rightarrow> ('t, 'd) AccountStore \<Rightarrow> ledger" where
  "temp_accounts Y A = temp_ledger Y (sc_store (m_accountStoreTemp A))"

definition perm_accounts :: "('t, 'd, 'pt) as_env \<Rightarrow> ('t, 'd) AccountStore \<Rightarrow> ledger" where
  "perm_accounts Y A = trie_view Y (primary A)"

definition same_parent :: "('t, 'd, 'pt) as_env \<Rightarrow> 't temp_store \<Rightarrow> 't temp_store \<Rightarrow> bool" where
  "same_parent Y s s' \<longleftrightarrow> trie_view Y (tmp_parent s') = trie_view Y (tmp_parent s)
     \<and> m_state (tmp_parent s') = m_state (tmp_parent s)"

interpretation parent_frame: store_relation "temp_vt Y" "as_sc Y" "same_parent Y"
  for Y :: "('t, 'd, 'pt) as_env"
proof
  show "same_parent Y s s'" if "vt_GetAccount (temp_vt Y) a s = (r, s')" for a s r s'
    using AccountStoreTemp_GetAccount_view [of Y a s r s'] that by (simp add: temp_vt_def same_parent_def)
qed (auto simp: same_parent_def temp_vt_def)

lemma same_parent_perm:
  "same_parent Y (sc_store (m_accountStoreTemp A)) (sc_store S) \<Longrightarrow> perm_accounts Y (A\<lparr>m_accountStoreTemp := S\<rparr>) = perm_accounts Y A"
  by (simp add: same_parent_def perm_accounts_def primary_def)

text \<open>The nonces of a ledger leave room for a transaction.\<close>

definition nonces_fit :: "ledger_env \<Rightarrow> ledger \<Rightarrow> bool" where
  "nonces_fit E v \<longleftrightarrow> (\<forall>a. nonce_of v a + MAX_CONTRACT_DEPTH E + 1 < 2 ^ 64)"

lemma UpdateAccountsTemp_effect:
  assumes "ledger_env_ok (as_ledger Y)" "supply_fits (temp_accounts Y A)" "nonces_fit (as_ledger Y) (temp_accounts Y A)"
    and "GetTransactionType tx = CONTRACT_CREATION \<longrightarrow> fresh_address (as_sc Y) tx (temp_accounts Y A)"
    and "UpdateAccountsTemp Y W blk sh isDS tx r A = Some (ok, r', A')"
  shows "tx_effect (GetSenderAddr (sc_ossl (as_sc Y)) tx) tx ok r' (temp_accounts Y A) (temp_accounts Y A') \<and> perm_accounts Y A' = perm_accounts Y A"
proof -
  obtain S where U: "UpdateAccounts (temp_vt Y) (as_sc Y) W blk sh isDS tx True r (m_accountStoreTemp A) = Some (ok, r', S)"
    and A': "A' = A\<lparr>m_accountStoreTemp := S\<rparr>"
    using assms(5) by (auto simp: UpdateAccountsTemp_def)
  note tv = temp_store.tv_def
  have "tx_effect (GetSenderAddr (sc_ossl (as_sc Y)) tx) tx ok r' (temp_accounts Y A) (temp_accounts Y A')"
    using temp_store.UpdateAccounts_effect [OF assms(1) _ _ _ U] assms(2-4) A' unfolding tv by (simp add: temp_accounts_def nonces_fit_def)
  moreover have "perm_accounts Y A' = perm_accounts Y A"
    unfolding A' by (rule same_parent_perm [OF parent_frame.UpdateAccounts_frame [OF U]])
  ultimately show ?thesis ..
qed

lemma UpdateCoinbaseTemp_effect:
  fixes A :: "('t, 'd) AccountStore"
  assumes "ledger_env_ok (as_ledger Y)" "supply_fits (temp_accounts Y A)"
    and "UpdateCoinbaseTemp Y rewardee genesis amt A = Some (ok, A')"
  shows "total_balance (temp_accounts Y A') = total_balance (temp_accounts Y A)" "nonce_of (temp_accounts Y A') a = nonce_of (temp_accounts Y A) a"
    "perm_accounts Y A' = perm_accounts Y A"
    "bal (temp_accounts Y A') rewardee = (if ok \<and> rewardee \<noteq> genesis then bal (temp_accounts Y A) rewardee + unat amt else bal (temp_accounts Y A) rewardee)"
    "bal (temp_accounts Y A) genesis \<le> bal (temp_accounts Y A') genesis + (if ok then unat amt else 0)"
proof -
  let ?T = "this_vt (temp_vt Y) :: ('t temp_store, 'd) SC store_vt" and ?E = "as_ledger Y" and ?S = "m_accountStoreTemp A"
  let ?new = "Account_default ?E"
  note tv = temp_store.tv_def
  obtain q S1 where g: "vt_GetAccount ?T rewardee ?S = (q, S1)" by fastforce
  have v1: "temp_ledger Y (sc_store S1) = temp_accounts Y A" "q = temp_accounts Y A rewardee"
    using temp_store.this.get_view [OF g] unfolding tv by (simp_all add: temp_accounts_def)
  define S2 where "S2 = (if q = None then AddAccount ?T rewardee ?new S1 else S1)"
  have v2: "temp_ledger Y (sc_store S2) = (if q = None then (temp_accounts Y A)(rewardee \<mapsto> ?new) else temp_accounts Y A)"
    using temp_store.this.AddAccount_view [of Y rewardee ?new S1] v1 unfolding S2_def tv by simp
  have money: "bal (temp_ledger Y (sc_store S2)) b = bal (temp_accounts Y A) b" "nonce_of (temp_ledger Y (sc_store S2)) b = nonce_of (temp_accounts Y A) b" for b
    using v1(2) by (auto simp: v2 bal_def nonce_of_def Account_default_def Account_new_def)
  have tot: "total_balance (temp_ledger Y (sc_store S2)) = total_balance (temp_accounts Y A)" by (simp add: total_balance_def money)
  obtain S3 where t: "TransferBalance ?T ?E genesis rewardee amt S2 = Some (ok, S3)" and A': "A' = A\<lparr>m_accountStoreTemp := S3\<rparr>"
    using assms(3) g by (auto simp: UpdateCoinbaseTemp_def S2_def Let_def)
  have "same_parent Y (sc_store ?S) (sc_store S1)"
    using parent_frame.rel_this_get [OF g] unfolding parent_frame.rel_def .
  moreover have "same_parent Y (sc_store S1) (sc_store S2)"
    unfolding S2_def using parent_frame.this.frame_AddAccount [of Y S1 rewardee ?new] unfolding parent_frame.rel_def by (simp add: same_parent_def)
  moreover have "same_parent Y (sc_store S2) (sc_store S3)"
    using parent_frame.this.frame_TransferBalance [OF t] unfolding parent_frame.rel_def .
  ultimately have "same_parent Y (sc_store ?S) (sc_store S3)" using parent_frame.rel_trans by blast
  then show "perm_accounts Y A' = perm_accounts Y A" unfolding A' by (rule same_parent_perm)
  have sup2: "supply_fits (temp_ledger Y (sc_store S2))" using assms(2) tot by (simp add: supply_fits_def)
  have res: "ok \<and> unat amt \<le> bal (temp_accounts Y A) genesis \<and> temp_accounts Y A' = credit ?E rewardee amt (debit genesis amt (temp_ledger Y (sc_store S2)))
      \<or> \<not> ok \<and> temp_accounts Y A' = temp_ledger Y (sc_store S2)"
  proof (cases "unat amt \<le> bal (temp_ledger Y (sc_store S2)) genesis")
    case True
    then obtain S4 where "TransferBalance ?T ?E genesis rewardee amt S2 = Some (True, S4)"
      "temp_ledger Y (sc_store S4) = credit ?E rewardee amt (debit genesis amt (temp_ledger Y (sc_store S2)))"
      using temp_store.this.TransferBalance_covered [OF assms(1), of Y S2 amt genesis rewardee] sup2 unfolding tv by metis
    then show ?thesis using t A' True money(1) by (simp add: temp_accounts_def)
  next
    case False
    then obtain S4 where "TransferBalance ?T ?E genesis rewardee amt S2 = Some (False, S4)" "temp_ledger Y (sc_store S4) = temp_ledger Y (sc_store S2)"
      using temp_store.this.TransferBalance_uncovered [OF assms(1), of amt Y S2 genesis rewardee] unfolding tv by metis
    then show ?thesis using t A' by (simp add: temp_accounts_def)
  qed
  have c: "unat amt \<le> bal (temp_ledger Y (sc_store S2)) genesis" if ok using res that money(1) by simp
  have room: "bal (debit genesis amt (temp_ledger Y (sc_store S2))) rewardee + unat amt < 2 ^ 128" if ok
    using bal_le_total [of "debit genesis amt (temp_ledger Y (sc_store S2))" rewardee] total_debit [OF c [OF that]] sup2 unfolding supply_fits_def by linarith
  show "total_balance (temp_accounts Y A') = total_balance (temp_accounts Y A)"
    using res temp_store.TransferBalance_total [OF sup2 c] tot by auto
  show "nonce_of (temp_accounts Y A') a = nonce_of (temp_accounts Y A) a" using res money(2) by auto
  show "bal (temp_accounts Y A') rewardee = (if ok \<and> rewardee \<noteq> genesis then bal (temp_accounts Y A) rewardee + unat amt else bal (temp_accounts Y A) rewardee)"
  proof (cases ok)
    case True
    then have e: "temp_accounts Y A' = credit ?E rewardee amt (debit genesis amt (temp_ledger Y (sc_store S2)))" using res by simp
    show ?thesis unfolding e bal_credit [OF room [OF True]] bal_debit [OF c [OF True]] money(1) using True c [OF True] money(1) by auto
  qed (use res money(1) in simp)
  show "bal (temp_accounts Y A) genesis \<le> bal (temp_accounts Y A') genesis + (if ok then unat amt else 0)"
  proof (cases ok)
    case True
    then have e: "temp_accounts Y A' = credit ?E rewardee amt (debit genesis amt (temp_ledger Y (sc_store S2)))" using res by simp
    show ?thesis unfolding e bal_credit [OF room [OF True]] bal_debit [OF c [OF True]] money(1) using True by auto
  qed (use res money(1) in simp)
qed

lemma UpdateCoinbaseTemp_returns:
  fixes A :: "('t, 'd) AccountStore"
  assumes "ledger_env_ok (as_ledger Y)" "supply_fits (temp_accounts Y A)"
  obtains ok A' where "UpdateCoinbaseTemp Y rewardee genesis amt A = Some (ok, A')"
proof -
  let ?T = "this_vt (temp_vt Y) :: ('t temp_store, 'd) SC store_vt" and ?E = "as_ledger Y"
  let ?new = "Account_default ?E"
  note tv = temp_store.tv_def
  obtain q S1 where g: "vt_GetAccount ?T rewardee (m_accountStoreTemp A) = (q, S1)" by fastforce
  have v1: "temp_ledger Y (sc_store S1) = temp_accounts Y A" "q = temp_accounts Y A rewardee"
    using temp_store.this.get_view [OF g] unfolding tv by (simp_all add: temp_accounts_def)
  define S2 where "S2 = (if q = None then AddAccount ?T rewardee ?new S1 else S1)"
  have v2: "temp_ledger Y (sc_store S2) = (if q = None then (temp_accounts Y A)(rewardee \<mapsto> ?new) else temp_accounts Y A)"
    using temp_store.this.AddAccount_view [of Y rewardee ?new S1] v1 unfolding S2_def tv by simp
  have "bal (temp_ledger Y (sc_store S2)) b = bal (temp_accounts Y A) b" for b
    using v1(2) by (auto simp: v2 bal_def Account_default_def Account_new_def)
  then have "total_balance (temp_ledger Y (sc_store S2)) = total_balance (temp_accounts Y A)" by (simp add: total_balance_def)
  then have sup: "supply_fits (temp_ledger Y (sc_store S2))" using assms(2) by (simp add: supply_fits_def)
  obtain ok S3 where "TransferBalance ?T ?E genesis rewardee amt S2 = Some (ok, S3)"
    using temp_store.this.TransferBalance_covered [OF assms(1), of Y S2 amt genesis rewardee]
      temp_store.this.TransferBalance_uncovered [OF assms(1), of amt Y S2 genesis rewardee] sup unfolding tv by (metis not_le)
  then show ?thesis using that g by (simp add: UpdateCoinbaseTemp_def S2_def Let_def)
qed

section \<open>An epoch\<close>

text \<open>An epoch executes transactions and pays rewards on the temporary store; \<open>burnt\<close> adds up the fees of the
  transactions that were executed. Two things are asked of each transaction: a contract is deployed at an address where
  no account exists (\<open>fresh_address\<close>), and no nonce is so large that it could wrap around (\<open>nonces_fit\<close>).\<close>

inductive epoch :: "('t, 'd, 'pt) as_env \<Rightarrow> ('t, 'd) AccountStore \<Rightarrow> nat \<Rightarrow> ('t, 'd) AccountStore \<Rightarrow> bool"
  for Y :: "('t, 'd, 'pt) as_env" and A :: "('t, 'd) AccountStore" where
  epoch_start: "epoch Y A 0 A"
| epoch_transaction:
    "epoch Y A burnt B \<Longrightarrow> nonces_fit (as_ledger Y) (temp_accounts Y B)
     \<Longrightarrow> (GetTransactionType tx = CONTRACT_CREATION \<longrightarrow> fresh_address (as_sc Y) tx (temp_accounts Y B))
     \<Longrightarrow> UpdateAccountsTemp Y W blk sh isDS tx r B = Some (ok, r', B')
     \<Longrightarrow> epoch Y A (burnt + (if ok then gas_cost (r_cumGas r') tx else 0)) B'"
| epoch_reward:
    "epoch Y A burnt B \<Longrightarrow> UpdateCoinbaseTemp Y rewardee genesis amt B = Some (ok, B') \<Longrightarrow> epoch Y A burnt B'"

lemma tx_effect_cases:
  assumes "tx_effect src tx ok r v v'"
  shows "total_balance v' + (if ok then gas_cost (r_cumGas r) tx else 0) = total_balance v" "nonce_of v a \<le> nonce_of v' a"
  using assms by (cases "a = src"; auto simp: tx_effect_def split: if_splits)+

text \<open>C5: over a whole epoch of payments, contract calls with their chains of further calls, refused transactions, rewards,
  and contract deployments at addresses where no account exists, no money is created or lost: what the temporary ledger
  holds at the end, together with the fees that were burnt, is what it held at the start. The permanent ledger does not
  change and no nonce goes down. All balances together must fit into 128 bits and the nonces must be below their limit.
  The condition on deployments cannot be dropped: one that fails erases the entry of its address from the temporary
  store (\<open>AccountStoreSC.tpp\<close>), and with it the money an account at that address had received in the epoch.\<close>

theorem epoch_conserves_money:
  assumes "epoch Y A burnt B" "ledger_env_ok (as_ledger Y)" "supply_fits (temp_accounts Y A)"
  shows "total_balance (temp_accounts Y B) + burnt = total_balance (temp_accounts Y A)
    \<and> perm_accounts Y B = perm_accounts Y A \<and> (\<forall>a. nonce_of (temp_accounts Y A) a \<le> nonce_of (temp_accounts Y B) a)"
  using assms(1)
proof (induction rule: epoch.induct)
  case (epoch_transaction burnt B tx W blk sh isDS r ok r' B')
  have sup: "supply_fits (temp_accounts Y B)" using epoch_transaction.IH assms(3) unfolding supply_fits_def by linarith
  note eff = UpdateAccountsTemp_effect [OF assms(2) sup epoch_transaction.hyps(2,3,4)]
  note tot = tx_effect_cases(1) [OF conjunct1 [OF eff]] and non = tx_effect_cases(2) [OF conjunct1 [OF eff]]
  have "nonce_of (temp_accounts Y A) a \<le> nonce_of (temp_accounts Y B') a" for a
    using epoch_transaction.IH non [of a] order_trans by blast
  then show ?case using epoch_transaction.IH tot eff by (auto split: if_splits)
next
  case (epoch_reward burnt B rewardee genesis amt ok B')
  have sup: "supply_fits (temp_accounts Y B)" using epoch_reward.IH assms(3) unfolding supply_fits_def by linarith
  show ?case using epoch_reward.IH UpdateCoinbaseTemp_effect(1-3) [OF assms(2) sup epoch_reward.hyps(2)] by simp
qed simp

text \<open>A payment of 100 from the account of the key 3 to the address 7, on a ledger with one account.\<close>

definition toy_payment :: "int TransactionCoreInfo" where
  "toy_payment = \<lparr>tx_version = 1, tx_nonce = 1, tx_toAddr = 7, tx_senderPubKey = 3, tx_amount = 100, tx_gasPrice = 5, tx_gasLimit = 10,
     tx_code = [], tx_data = []\<rparr>"

definition toy_world :: "(db_path \<Rightarrow> (bytes \<times> bytes) list) scilla_world" where
  "toy_world = \<lparr>w_init_vars = (\<lambda>_. None), w_quote = (\<lambda>x. x), w_export_create = (\<lambda>_ _. False),
     w_checker = \<lparr>run_exec = ExecFailed, run_timeout = False, run_output = NoOutput\<rparr>,
     w_create = (\<lambda>_. \<lparr>run_exec = ExecFailed, run_timeout = False, run_output = NoOutput\<rparr>), w_export_call = (\<lambda>_ _ _. False),
     w_call = (\<lambda>_ _. \<lparr>run_exec = ExecFailed, run_timeout = False, run_output = NoOutput\<rparr>)\<rparr>"

lemma toy_addr: "addr_of_digest (SHA2_Finalize toy_lengths (SHA2_Reset @ bs)) = of_nat (unat (of_nat (length bs) :: byte))"
  by (simp add: addr_of_digest_def ACC_ADDR_SIZE_def addr_of_bytes_def toy_lengths_def SHA2_Finalize_def SHA2_Reset_def)

lemma toy_sender: "GetSenderAddr toy_lengths toy_payment = 33"
proof -
  have "openssl_points_ok toy_lengths (\<lambda>p. 0 \<le> p \<and> p < 13)" using toy_points_ok by (simp add: openssl_points_ok_def toy_lengths_def)
  then have "length (fst (PubKey_Serialize toy_lengths [] 0 3)) = 33"
    using byte_field.put_length [OF ecpoint_field, of toy_lengths "\<lambda>p. 0 \<le> p \<and> p < 13" 3 0 "[]"] by (simp add: PubKey_Serialize_def)
  then show ?thesis by (simp add: GetSenderAddr_def toy_payment_def GetAddressFromPublicKey_def toy_addr)
qed

lemma toy_contract_address: "GetAddressForContract toy_lengths 33 0 = Some 28"
  by (simp add: GetAddressForContract_def toy_addr addr_bytes_def ACC_ADDR_SIZE_def Serializable_SetNumber_eq number_field_put_def)

lemma toy_views:
  "perm_accounts toy_ledger_env (toy_store perm tmp) = map_of perm" "temp_accounts toy_ledger_env (toy_store perm tmp) = map_of perm ++ map_of tmp"
  by (simp_all add: perm_accounts_def temp_accounts_def temp_ledger_def trie_view_def trie_account_def primary_def toy_store_def toy_ledger_env_def toy_trie_def
      map_add_def fun_eq_iff split: option.splits)

lemma total_single: "total_balance [a \<mapsto> acc] = unat (m_balance acc)"
  using total_rest_cong [of a "[a \<mapsto> acc]" Map.empty] by (simp add: bal_def total_balance_def)


text \<open>The store before the payment.\<close>

abbreviation toy_start :: "(Address \<Rightarrow> bytes, db_path \<Rightarrow> (bytes \<times> bytes) list) AccountStore" where
  "toy_start \<equiv> toy_store [(33, Account_new 1000 0 1)] []"

lemma toy_start_ok:
  "supply_fits (temp_accounts toy_ledger_env toy_start)" "nonces_fit (as_ledger toy_ledger_env) (temp_accounts toy_ledger_env toy_start)"
  "fresh_address (as_sc toy_ledger_env) toy_payment (temp_accounts toy_ledger_env toy_start)"
proof -
  have v: "temp_accounts toy_ledger_env toy_start = [33 \<mapsto> Account_new 1000 0 1]" by (auto simp: toy_views fun_eq_iff)
  show "supply_fits (temp_accounts toy_ledger_env toy_start)" unfolding v supply_fits_def total_single by (simp add: Account_new_def)
  show "nonces_fit (as_ledger toy_ledger_env) (temp_accounts toy_ledger_env toy_start)" unfolding v nonces_fit_def
    by (simp add: nonce_of_def Account_new_def toy_ledger_env_def toy_ledger_def)
  show "fresh_address (as_sc toy_ledger_env) toy_payment (temp_accounts toy_ledger_env toy_start)" unfolding v fresh_address_def
    using toy_contract_address by (auto simp: toy_ledger_env_def toy_sender Account_new_def)
qed

lemma toy_payment_runs_on:
  assumes "temp_accounts toy_ledger_env A = [33 \<mapsto> Account_new 1000 0 1]"
  shows "\<exists>r B. UpdateAccountsTemp toy_ledger_env W blk sh isDS toy_payment r0 A = Some (True, r, B) \<and> r_cumGas r = 1"
proof -
  let ?S = "(m_accountStoreTemp A)\<lparr>m_curIsDS := isDS\<rparr>" and ?T = "this_vt (temp_vt toy_ledger_env)"
  have v: "temp_ledger toy_ledger_env (sc_store ?S) = [33 \<mapsto> Account_new 1000 0 1]"
    using assms by (simp add: temp_accounts_def)
  obtain S1 where g: "vt_GetAccount ?T 7 ?S = (None, S1)" "temp_ledger toy_ledger_env (sc_store S1) = [33 \<mapsto> Account_new 1000 0 1]"
    using temp_store.this.GetAccount_cases [of toy_ledger_env 7 ?S] v unfolding temp_store.tv_def by auto
  have p: "payment_ok (as_ledger toy_ledger_env) (GetSenderAddr (sc_ossl (as_sc toy_ledger_env)) toy_payment) toy_payment (temp_ledger toy_ledger_env (sc_store S1))"
    unfolding g(2) by (simp add: payment_ok_def toy_ledger_env_def toy_sender toy_ledger_def gas_cost_def bal_def Account_new_def) (simp add: toy_payment_def)
  have s: "supply_fits (temp_ledger toy_ledger_env (sc_store S1))" unfolding g(2) supply_fits_def total_single by (simp add: Account_new_def)
  have n: "nonce_of (temp_ledger toy_ledger_env (sc_store S1)) (GetSenderAddr (sc_ossl (as_sc toy_ledger_env)) toy_payment) + 1 < 2 ^ 64"
    unfolding g(2) by (simp add: nonce_of_def Account_new_def)
  obtain S2 where u: "UpdateAccounts_base ?T (as_ledger toy_ledger_env) (sc_ossl (as_sc toy_ledger_env)) toy_payment r0 S1
      = Some (True, SetCumGas (normal_gas (as_ledger toy_ledger_env)) (SetResult True r0), S2)"
    using temp_store.this.payment_accepted [OF toy_ledger_env_ok, of toy_ledger_env S1 "sc_ossl (as_sc toy_ledger_env)" toy_payment r0] s p n
    unfolding temp_store.tv_def by metis
  have t: "GetTransactionType toy_payment = NON_CONTRACT" "tx_toAddr toy_payment = 7"
    "USafe_mul (SafeMath128 (as_ledger toy_ledger_env)) (ucast (tx_gasLimit toy_payment)) (tx_gasPrice toy_payment) 0 = (True, 50)"
    by (simp_all add: GetTransactionType_def toy_payment_def toy_ledger_env_def toy_ledger_def exact_usafe_def NullAddress_def)
  have "UpdateAccountsTemp toy_ledger_env W blk sh isDS toy_payment r0 A
      = Some (True, SetCumGas (normal_gas (as_ledger toy_ledger_env)) (SetResult True r0), A\<lparr>m_accountStoreTemp := S2\<rparr>)"
    using g(1) u t unfolding UpdateAccountsTemp_def UpdateAccounts_def by (simp add: Let_def)
  then show ?thesis by (auto simp: toy_ledger_env_def toy_ledger_def SetCumGas_def)
qed

lemma toy_payment_runs:
  "\<exists>r B. UpdateAccountsTemp toy_ledger_env toy_world 0 1 False toy_payment TransactionReceipt_new toy_start = Some (True, r, B) \<and> r_cumGas r = 1"
  by (rule toy_payment_runs_on) (auto simp: toy_views fun_eq_iff)

theorem epoch_conserves_money_witness:
  "\<exists>B. epoch toy_ledger_env toy_start 5 B \<and> total_balance (temp_accounts toy_ledger_env B) = 995 \<and> perm_accounts toy_ledger_env B = [33 \<mapsto> Account_new 1000 0 1]"
proof -
  obtain r B where run: "UpdateAccountsTemp toy_ledger_env toy_world 0 1 False toy_payment TransactionReceipt_new toy_start = Some (True, r, B)" "r_cumGas r = 1"
    using toy_payment_runs by blast
  have "epoch toy_ledger_env toy_start (0 + (if True then gas_cost (r_cumGas r) toy_payment else 0)) B"
    by (rule epoch_transaction [OF epoch_start toy_start_ok(2) impI [OF toy_start_ok(3)] run(1)])
  then have e: "epoch toy_ledger_env toy_start 5 B" by (simp add: run(2) gas_cost_def toy_payment_def)
  have v: "temp_accounts toy_ledger_env toy_start = [33 \<mapsto> Account_new 1000 0 1]" "perm_accounts toy_ledger_env toy_start = [33 \<mapsto> Account_new 1000 0 1]"
    by (auto simp: toy_views fun_eq_iff)
  have "total_balance (temp_accounts toy_ledger_env toy_start) = 1000" unfolding v total_single by (simp add: Account_new_def)
  then show ?thesis using epoch_conserves_money [OF e toy_ledger_env_ok toy_start_ok(1)] e v(2) by (intro exI [of _ B]) simp
qed

section \<open>Chains of contract calls end\<close>

lemma call_level_gas:
  assumes "call_level V X W first temp j g r S = Some st"
  shows "case st of Ended ok g' r' S' \<Rightarrow> g' \<le> g | CallNext a g' r' S' \<Rightarrow> g' \<le> g"
proof -
  have fin: "case st of Ended ok g' r' S' \<Rightarrow> g' = h | CallNext a g' r' S' \<Rightarrow> g' = h"
    if "finish_level X W first temp es ret a h r2 S2 = Some st" for es ret a h r2 S2
    using that by (auto simp: finish_level_def Let_def split: bind_splits if_splits)
  have inv: "g - ucast c \<le> g" if "ucast c < g" for c :: "32 word"
    using that by (simp add: word_le_nat_alt word_less_nat_alt unat_sub_fits)
  show ?thesis using assms inv
    by (auto simp: call_level_def Let_def split: gas_field.splits accepted_field.splits if_splits option.splits bind_splits sum.splits prod.splits bool.splits next_step.splits dest!: fin)
qed

lemma call_chain_gas: "call_chain n V X W first temp out g r S = Some (ok, g', r', S') \<Longrightarrow> g' \<le> g"
proof (induction n arbitrary: first out g r S ok g' r' S')
  case (Suc n)
  obtain jo r1 where q: "read_call_output out r = Some (jo, r1)" using Suc.prems by (cases "read_call_output out r") auto
  show ?case
  proof (cases jo)
    case (Some j)
    obtain st where st: "call_level V X W first temp j g r1 S = Some st"
      using Suc.prems q Some by (auto split: bind_splits)
    note lv = call_level_gas [OF st]
    show ?thesis
    proof (cases st)
      case (CallNext a g1 r2 S1)
      let ?x = "w_call W (m_curDepth S1) g1"
      obtain okx r3 where x: "execute_process ?x r2 = (okx, r3)" by fastforce
      show ?thesis
      proof (cases okx)
        case True
        then obtain ok2 g2 r4 S3 where c: "call_chain n V X W False temp (run_output ?x) g1 r3
            (S1\<lparr>m_curSenderAddr := m_curContractAddr S1, m_curContractAddr := a\<rparr>) = Some (ok2, g2, r4, S3)"
          using Suc.prems q Some st CallNext x by (auto simp: Let_def split: bind_splits)
        have "g' = g2" using Suc.prems q Some st CallNext x True c by (auto simp: Let_def split: if_splits prod.splits)
        then show ?thesis using Suc.IH [OF c] lv CallNext by (auto intro: order_trans)
      qed (use Suc.prems q Some st CallNext x lv in \<open>simp add: Let_def\<close>)
    qed (use Suc.prems q Some st lv in simp)
  qed (use Suc.prems q in simp)
qed simp

text \<open>C20: A chain of contract calls ends, however the called contracts answer: every further call takes one level
  of the bounded depth, so the outcome with one unit of fuel per level is the outcome with any larger
  amount, and no chain returns more gas than it was given.\<close>

theorem contract_calls_end:
  assumes "m_curDepth S = 0"
  shows "call_chain (MAX_CONTRACT_DEPTH (sc_ledger X) + 1 + k) V X W True temp out g r S = ParseCallContract V X W temp out g r S
    \<and> (\<forall>ok g' r' S'. ParseCallContract V X W temp out g r S = Some (ok, g', r', S') \<longrightarrow> g' \<le> g)"
proof
  show "call_chain (MAX_CONTRACT_DEPTH (sc_ledger X) + 1 + k) V X W True temp out g r S = ParseCallContract V X W temp out g r S"
    unfolding ParseCallContract_def using assms by (intro call_chain_fuel) simp_all
  show "\<forall>ok g' r' S'. ParseCallContract V X W temp out g r S = Some (ok, g', r', S') \<longrightarrow> g' \<le> g"
    unfolding ParseCallContract_def using call_chain_gas by blast
qed

text \<open>A contract that answers without a message.\<close>

definition toy_answer :: "call_json scilla_output" where
  "toy_answer = Parsed \<lparr>cl_gas = GasValue 7, cl_has_message_states_events = False, cl_has_errors = True, cl_accepted = AcceptedMissing, cl_states = [],
     cl_events = [], cl_message = MsgNull\<rparr>"

theorem contract_calls_end_witness:
  "\<exists>r' S'. ParseCallContract (temp_vt toy_ledger_env) (as_sc toy_ledger_env) toy_world False toy_answer 10 TransactionReceipt_new (m_accountStoreTemp toy_start)
      = Some (False, 7, r', S')
    \<and> call_chain 107 (temp_vt toy_ledger_env) (as_sc toy_ledger_env) toy_world True False toy_answer 10 TransactionReceipt_new (m_accountStoreTemp toy_start)
      = Some (False, 7, r', S')"
proof -
  have d: "m_curDepth (m_accountStoreTemp toy_start) = 0" by (simp add: toy_store_def)
  have m: "MAX_CONTRACT_DEPTH (sc_ledger (as_sc toy_ledger_env)) = 6" by (simp add: toy_ledger_env_def toy_ledger_def)
  note c = contract_calls_end [OF d, of "as_sc toy_ledger_env" 100 "temp_vt toy_ledger_env" toy_world False toy_answer 10 TransactionReceipt_new, THEN conjunct1]
  obtain r' S' where "ParseCallContract (temp_vt toy_ledger_env) (as_sc toy_ledger_env) toy_world False toy_answer 10 TransactionReceipt_new (m_accountStoreTemp toy_start)
      = Some (False, 7, r', S')"
    by (simp add: ParseCallContract_def toy_answer_def read_call_output_def call_level_def)
  then show ?thesis using c unfolding m by simp
qed

section \<open>Reverting a commit\<close>

text \<open>What the code relies on: an insertion changes one key of the trie and a removal empties it.\<close>

definition trie_ok :: "'t trie \<Rightarrow> bool" where
  "trie_ok T \<longleftrightarrow>
     (\<forall>t a b c. trie_at T (trie_insert T a b t) c = (if c = a then b else trie_at T t c))
     \<and> (\<forall>t a c. trie_at T (trie_remove T a t) c = (if c = a then [] else trie_at T t c))"

lemma UpdateStateTrie_cases:
  fixes Y :: "('t, 'd, 'pt) as_env"
  assumes "trie_ok (as_trie Y)"
  obtains ok s' where "UpdateStateTrie Y a acc s = Some (ok, s')" "m_addressToAccount s' = m_addressToAccount s"
    "\<And>c. c \<noteq> a \<Longrightarrow> trie_account Y (m_state s') c = trie_account Y (m_state s) c"
proof -
  obtain dst ok where "Account_SerializeBase (as_proto Y) acc = Some (dst, ok)"
    unfolding Account_SerializeBase_def AccountBaseToProtobuf_eq using SerializeToArray_start by (metis bind.bind_lunit)
  then show ?thesis using that assms by (cases ok) (auto simp: UpdateStateTrie_def trie_account_def trie_ok_def)
qed

lemma view_write:
  assumes "map_of (m_addressToAccount s') = (map_of (m_addressToAccount s))(a \<mapsto> acc)"
    and "\<And>c. c \<noteq> a \<Longrightarrow> trie_account Y (m_state s') c = trie_account Y (m_state s) c"
  shows "trie_view Y s' = (trie_view Y s)(a \<mapsto> acc)"
  using assms by (auto simp: trie_view_def map_add_def fun_eq_iff split: option.splits)

text \<open>An account is written to the map and to the trie: the view changes at one address.\<close>

lemma write_through:
  fixes Y :: "('t, 'd, 'pt) as_env"
  assumes "trie_ok (as_trie Y)"
  obtains ok s' where "UpdateStateTrie Y a acc (s\<lparr>m_addressToAccount := AList.update a acc (m_addressToAccount s)\<rparr>) = Some (ok, s')"
    "trie_view Y s' = (trie_view Y s)(a \<mapsto> acc)"
proof -
  obtain ok s' where "UpdateStateTrie Y a acc (s\<lparr>m_addressToAccount := AList.update a acc (m_addressToAccount s)\<rparr>) = Some (ok, s')"
    "m_addressToAccount s' = AList.update a acc (m_addressToAccount s)"
    "\<And>c. c \<noteq> a \<Longrightarrow> trie_account Y (m_state s') c = trie_account Y (m_state s) c"
    using UpdateStateTrie_cases [OF assms, of a acc "s\<lparr>m_addressToAccount := AList.update a acc (m_addressToAccount s)\<rparr>"] by auto
  then show ?thesis using that view_write [of s' s a acc Y] by (simp add: update_conv')
qed

lemma primary_upd [simp]: "primary (upd_primary f A) = f (primary A)" "primary (upd_storage g A) = primary A"
  "storage (upd_storage g A) = g (storage A)" "storage (upd_primary f A) = storage A"
  by (simp_all add: primary_def upd_primary_def upd_storage_def storage_def)

lemma revs_upd [simp]:
  "m_addressToAccountRevChanged (upd_primary f A) = m_addressToAccountRevChanged A"
  "m_addressToAccountRevCreated (upd_primary f A) = m_addressToAccountRevCreated A"
  "m_addressToAccountRevChanged (upd_storage g A) = m_addressToAccountRevChanged A"
  "m_addressToAccountRevCreated (upd_storage g A) = m_addressToAccountRevCreated A"
  by (simp_all add: upd_primary_def upd_storage_def)

lemma revs_frame [simp]:
  "primary (A\<lparr>m_addressToAccountRevCreated := x\<rparr>) = primary A" "primary (A\<lparr>m_addressToAccountRevChanged := x\<rparr>) = primary A"
  "storage (A\<lparr>m_addressToAccountRevCreated := x\<rparr>) = storage A" "storage (A\<lparr>m_addressToAccountRevChanged := x\<rparr>) = storage A"
  by (simp_all add: primary_def storage_def)

text \<open>The effect of one entry: the address is written and recorded, or the commit stops.\<close>

definition entry_effect :: "('t, 'd, 'pt) as_env \<Rightarrow> bool \<Rightarrow> Address \<Rightarrow> ('t, 'd) AccountStore \<Rightarrow> ('t, 'd) AccountStore \<Rightarrow> Account \<Rightarrow> bool" where
  "entry_effect Y revertible a A A' acc \<longleftrightarrow>
     perm_accounts Y A' = (perm_accounts Y A)(a \<mapsto> acc)
     \<and> m_addressToAccountRevChanged A' = (if revertible \<and> perm_accounts Y A a \<noteq> None
          then AList.update a (the (perm_accounts Y A a)) (m_addressToAccountRevChanged A) else m_addressToAccountRevChanged A)
     \<and> m_addressToAccountRevCreated A' = (if revertible \<and> perm_accounts Y A a = None
          then AList.update a acc (m_addressToAccountRevCreated A) else m_addressToAccountRevCreated A)"

lemma AddAccountDuringDeserialization_effect:
  fixes Y :: "('t, 'd, 'pt) as_env"
  assumes "trie_ok (as_trie Y)"
  obtains A' where "AddAccountDuringDeserialization Y a acc ori full rv A = Some A'"
    "perm_accounts Y A' = (perm_accounts Y A)(a \<mapsto> acc)" "storage A' = storage A"
    "m_addressToAccountRevChanged A' = (if rv \<and> \<not> full then AList.update a ori (m_addressToAccountRevChanged A) else m_addressToAccountRevChanged A)"
    "m_addressToAccountRevCreated A' = (if rv \<and> full then AList.update a acc (m_addressToAccountRevCreated A) else m_addressToAccountRevCreated A)"
proof -
  obtain ok s' where s': "UpdateStateTrie Y a acc ((primary A)\<lparr>m_addressToAccount := AList.update a acc (m_addressToAccount (primary A))\<rparr>) = Some (ok, s')"
    "trie_view Y s' = (trie_view Y (primary A))(a \<mapsto> acc)"
    using write_through [OF assms] .
  let ?A1 = "upd_primary (\<lambda>s. s\<lparr>m_addressToAccount := AList.update a acc (m_addressToAccount s)\<rparr>) A"
  let ?A2 = "if \<not> rv then ?A1 else if full then ?A1\<lparr>m_addressToAccountRevCreated := AList.update a acc (m_addressToAccountRevCreated ?A1)\<rparr>
     else ?A1\<lparr>m_addressToAccountRevChanged := AList.update a ori (m_addressToAccountRevChanged ?A1)\<rparr>"
  show ?thesis
    by (rule that [of "upd_primary (\<lambda>_. s') ?A2"])
      (use s' in \<open>simp_all add: AddAccountDuringDeserialization_def perm_accounts_def\<close>)
qed

lemma apply_delta_entry_effect:
  fixes Y :: "('t, 'd, 'pt) as_env"
  assumes "trie_ok (as_trie Y)" "apply_delta_entry Y rv temp e A = Some (True, A')"
  defines "a \<equiv> addr_of_prefix (fst e)"
  shows "\<exists>acc C. ProtobufToAccountDelta Y (snd e) a (perm_accounts Y A a = None) temp rv
        (case perm_accounts Y A a of None \<Rightarrow> Account_default (as_ledger Y) | Some acc \<Rightarrow> acc) (storage A) = Some (True, acc, C)
      \<and> entry_effect Y rv a A A' acc"
proof -
  let ?a = "addr_of_prefix (fst e)" and ?new = "Account_default (as_ledger Y)"
  obtain found s1 where g: "AccountStoreTrie_GetAccount Y ?a (primary A) = (found, s1)" by fastforce
  note v1 = AccountStoreTrie_GetAccount_view [OF g]
  obtain ori s2 where o: "(if found = None then AccountStoreTrie_GetAccount Y ?a (AddAccount (trie_vt Y) ?a ?new s1) else (found, s1)) = (ori, s2)"
    by fastforce
  have v2: "ori = Some (if found = None then ?new else the found)"
    "trie_view Y s2 = (if found = None then (trie_view Y (primary A))(?a \<mapsto> ?new) else trie_view Y (primary A))"
    using o v1 AccountStoreTrie_GetAccount_view [of Y ?a "AddAccount (trie_vt Y) ?a ?new s1" ori s2] trie_store.AddAccount_view [of Y ?a ?new s1]
    by (auto split: if_splits)
  let ?A1 = "upd_primary (\<lambda>_. s2) A" and ?ori = "if found = None then ?new else the found"
  obtain ok acc C where p: "ProtobufToAccountDelta Y (snd e) ?a (found = None) temp rv ?ori (storage ?A1) = Some (ok, acc, C)"
    using assms(2) g o v2(1) by (auto simp: apply_delta_entry_def Let_def split: bind_splits)
  let ?A2 = "upd_storage (\<lambda>_. C) ?A1"
  obtain A3 where a3: "AddAccountDuringDeserialization Y ?a acc ?ori (found = None) rv ?A2 = Some A3"
    "perm_accounts Y A3 = (perm_accounts Y ?A2)(?a \<mapsto> acc)" "storage A3 = storage ?A2"
    "m_addressToAccountRevChanged A3 = (if rv \<and> \<not> found = None then AList.update ?a ?ori (m_addressToAccountRevChanged ?A2) else m_addressToAccountRevChanged ?A2)"
    "m_addressToAccountRevCreated A3 = (if rv \<and> found = None then AList.update ?a acc (m_addressToAccountRevCreated ?A2) else m_addressToAccountRevCreated ?A2)"
    by (rule AddAccountDuringDeserialization_effect [OF assms(1)])
  have A': "ok" "A' = A3" using assms(2) g o v2(1) p a3(1) by (auto simp: apply_delta_entry_def Let_def split: if_splits)
  moreover have "perm_accounts Y A3 = (perm_accounts Y A)(?a \<mapsto> acc)" using a3(2) v2(2) by (auto simp: perm_accounts_def)
  moreover have f: "found = perm_accounts Y A ?a" using v1 by (simp add: perm_accounts_def)
  ultimately have eff: "entry_effect Y rv ?a A A' acc" using a3(4,5) by (simp add: entry_effect_def)
  have "?ori = (case found of None \<Rightarrow> ?new | Some acc \<Rightarrow> acc)" by (cases found) simp_all
  then have "ProtobufToAccountDelta Y (snd e) ?a (found = None) temp rv (case found of None \<Rightarrow> ?new | Some acc \<Rightarrow> acc) (storage A) = Some (True, acc, C)"
    using p A'(1) by simp
  then show ?thesis using eff unfolding f a_def by blast
qed

text \<open>What a revertible commit records relative to the ledger \<open>v0\<close> before it.\<close>

definition recorded :: "('t, 'd, 'pt) as_env \<Rightarrow> ledger \<Rightarrow> ('t, 'd) AccountStore \<Rightarrow> bool" where
  "recorded Y v0 A \<longleftrightarrow>
     distinct (map fst (m_addressToAccountRevChanged A))
     \<and> (\<forall>a acc. map_of (m_addressToAccountRevChanged A) a = Some acc \<longrightarrow> v0 a = Some acc)
     \<and> (\<forall>a. map_of (m_addressToAccountRevCreated A) a \<noteq> None \<longrightarrow> v0 a = None)
     \<and> (\<forall>a. map_of (m_addressToAccountRevChanged A) a = None \<and> map_of (m_addressToAccountRevCreated A) a = None
          \<longrightarrow> perm_accounts Y A a = v0 a)"

lemma entry_recorded:
  assumes "recorded Y v0 A" "entry_effect Y True a A A' acc"
    and "map_of (m_addressToAccountRevChanged A) a = None" "map_of (m_addressToAccountRevCreated A) a = None"
  shows "recorded Y v0 A'"
    "b \<noteq> a \<Longrightarrow> map_of (m_addressToAccountRevChanged A') b = map_of (m_addressToAccountRevChanged A) b
       \<and> map_of (m_addressToAccountRevCreated A') b = map_of (m_addressToAccountRevCreated A) b"
proof -
  have v: "perm_accounts Y A a = v0 a" using assms(1,3,4) by (simp add: recorded_def)
  show "recorded Y v0 A'"
  proof (cases "v0 a")
    case None
    then show ?thesis using assms v by (auto simp: recorded_def entry_effect_def update_conv' split: if_splits)
  next
    case (Some old)
    then show ?thesis using assms v by (auto simp: recorded_def entry_effect_def update_conv' distinct_update split: if_splits)
  qed
  show "b \<noteq> a \<Longrightarrow> map_of (m_addressToAccountRevChanged A') b = map_of (m_addressToAccountRevChanged A) b
       \<and> map_of (m_addressToAccountRevCreated A') b = map_of (m_addressToAccountRevCreated A) b"
    using assms(2) by (simp add: entry_effect_def update_conv')
qed

lemma entries_recorded:
  fixes Y :: "('t, 'd, 'pt) as_env"
  assumes "trie_ok (as_trie Y)"
  shows "apply_delta_entries Y True temp es A = Some (True, A') \<Longrightarrow> recorded Y v0 A
    \<Longrightarrow> distinct (map (addr_of_prefix \<circ> fst) es)
    \<Longrightarrow> \<forall>e\<in>set es. map_of (m_addressToAccountRevChanged A) (addr_of_prefix (fst e)) = None
          \<and> map_of (m_addressToAccountRevCreated A) (addr_of_prefix (fst e)) = None
    \<Longrightarrow> recorded Y v0 A'"
proof (induction es arbitrary: A)
  case (Cons e es)
  obtain A1 where A1: "apply_delta_entry Y True temp e A = Some (True, A1)" "apply_delta_entries Y True temp es A1 = Some (True, A')"
    using Cons.prems(1) by (auto split: bind_splits if_splits)
  let ?a = "addr_of_prefix (fst e)"
  obtain acc where eff: "entry_effect Y True ?a A A1 acc" using apply_delta_entry_effect [OF assms A1(1)] by blast
  have free: "map_of (m_addressToAccountRevChanged A) ?a = None" "map_of (m_addressToAccountRevCreated A) ?a = None"
    using Cons.prems(4) by simp_all
  note step = entry_recorded [OF Cons.prems(2) eff free]
  have "\<forall>e'\<in>set es. map_of (m_addressToAccountRevChanged A1) (addr_of_prefix (fst e')) = None
      \<and> map_of (m_addressToAccountRevCreated A1) (addr_of_prefix (fst e')) = None"
  proof
    fix e' assume e': "e' \<in> set es"
    then have "addr_of_prefix (fst e') \<noteq> ?a" using Cons.prems(3) by (force simp: image_iff)
    then show "map_of (m_addressToAccountRevChanged A1) (addr_of_prefix (fst e')) = None
      \<and> map_of (m_addressToAccountRevCreated A1) (addr_of_prefix (fst e')) = None"
      using step(2) Cons.prems(4) e' by auto
  qed
  then show ?case using Cons.IH [OF A1(2) step(1)] Cons.prems(3) by simp
qed simp

lemma revert_changed_view:
  fixes Y :: "('t, 'd, 'pt) as_env"
  assumes "trie_ok (as_trie Y)"
  shows "distinct (map fst es) \<Longrightarrow> \<exists>s'. revert_changed Y es s = Some s' \<and> trie_view Y s' = trie_view Y s ++ map_of es"
proof (induction es arbitrary: s)
  case (Cons e es)
  obtain a acc where e: "e = (a, acc)" by fastforce
  obtain ok s1 where s1: "UpdateStateTrie Y a acc (s\<lparr>m_addressToAccount := AList.update a acc (m_addressToAccount s)\<rparr>) = Some (ok, s1)"
    "trie_view Y s1 = (trie_view Y s)(a \<mapsto> acc)"
    using write_through [OF assms] .
  obtain s' where s': "revert_changed Y es s1 = Some s'" "trie_view Y s' = trie_view Y s1 ++ map_of es"
    using Cons.IH [of s1] Cons.prems by auto
  have "a \<notin> dom (map_of es)" using Cons.prems e by (simp add: dom_map_of_conv_image_fst)
  then have "(trie_view Y s)(a \<mapsto> acc) ++ map_of es = (trie_view Y s ++ map_of es)(a \<mapsto> acc)" by (rule map_add_upd_left)
  moreover have "map_of (e # es) = (map_of es)(a \<mapsto> acc)" by (auto simp: e fun_eq_iff)
  ultimately have "trie_view Y s' = trie_view Y s ++ map_of (e # es)" unfolding s'(2) s1(2) by (simp only: map_add_upd)
  moreover have "revert_changed Y (e # es) s = Some s'" using s1(1) s'(1) e by simp
  ultimately show ?case by blast
qed simp

lemma revert_created_view:
  fixes Y :: "('t, 'd, 'pt) as_env"
  assumes "trie_ok (as_trie Y)"
  shows "trie_view Y (revert_created Y e s) = (trie_view Y s)(fst e := None)"
proof -
  let ?a = "fst e"
  obtain q s1 where g: "AccountStoreTrie_GetAccount Y ?a s = (q, s1)" by fastforce
  note v = AccountStoreTrie_GetAccount_view [OF g]
  let ?s2 = "RemoveAccount (trie_vt Y) ?a s"
  have v2: "trie_view Y ?s2 c = trie_view Y s c" if "c \<noteq> ?a" for c
    using trie_store.RemoveAccount_view [of Y ?a s] that by simp
  have st: "m_state ?s2 = m_state s" using g v by (auto simp: RemoveAccount_def IsAccountExist_def trie_vt_def)
  have m2: "map_of (m_addressToAccount ?s2) ?a = None"
  proof (cases q)
    case None
    then have "trie_view Y s1 ?a = None" using v by simp
    then show ?thesis using g None by (simp add: RemoveAccount_def IsAccountExist_def trie_vt_def trie_view_def)
  next
    case (Some acc)
    then show ?thesis using g by (simp add: RemoveAccount_def IsAccountExist_def trie_vt_def delete_conv')
  qed
  show ?thesis
  proof
    fix c
    show "trie_view Y (revert_created Y e s) c = ((trie_view Y s)(?a := None)) c"
    proof (cases "c = ?a")
      case True
      then show ?thesis using m2 assms
        by (simp add: revert_created_def RemoveFromTrie_def trie_view_def map_add_def trie_account_def trie_ok_def)
    next
      case False
      have "trie_account Y (trie_remove (as_trie Y) ?a (m_state ?s2)) c = trie_account Y (m_state ?s2) c"
        unfolding trie_account_def using False assms by (simp add: trie_ok_def)
      then have "trie_view Y (revert_created Y e s) c = trie_view Y ?s2 c"
        by (simp add: revert_created_def RemoveFromTrie_def trie_view_def map_add_def split: option.splits)
      then show ?thesis using v2 [OF False] False by simp
    qed
  qed
qed

lemma revert_created_fold:
  fixes Y :: "('t, 'd, 'pt) as_env"
  assumes "trie_ok (as_trie Y)"
  shows "trie_view Y (fold (revert_created Y) es s) a = (if map_of es a \<noteq> None then None else trie_view Y s a)"
proof (induction es arbitrary: s)
  case (Cons e es)
  have "trie_view Y (fold (revert_created Y) (e # es) s) a = (if map_of es a \<noteq> None then None else ((trie_view Y s)(fst e := None)) a)"
    using Cons.IH [of "revert_created Y e s"] revert_created_view [OF assms, of e s] by simp
  then show ?case by (cases e) auto
qed simp

text \<open>C12: A revertible commit can be taken back. When every entry of a state delta has been applied to the
  permanent store in the revertible way, the revert does not fail and the permanent ledger is the one
  before the commit, in every field of every account: changed accounts have their old values and created
  ones are gone, from the map and from the trie.\<close>

theorem revert_undoes_commit:
  fixes Y :: "('t, 'd, 'pt) as_env"
  assumes "trie_ok (as_trie Y)"
    and "AccountStoreFromArray (as_proto Y) (m_stateDeltaSerialized A) = Some es" "distinct (map (addr_of_prefix \<circ> fst) es)"
    and "DeserializeDelta Y (m_stateDeltaSerialized A) 0 True (InitRevertibles A) = Some (True, A1)"
  shows "CommitTempRevertible Y A = Some A1 \<and> (\<exists>A2. RevertCommitTemp Y A1 = Some A2 \<and> perm_accounts Y A2 = perm_accounts Y A)"
proof -
  let ?A0 = "InitRevertibles A" and ?v0 = "perm_accounts Y A"
  have d: "m_stateDeltaSerialized ?A0 = m_stateDeltaSerialized A" by (simp add: InitRevertibles_def upd_storage_def)
  have revs: "m_addressToAccountRevChanged ?A0 = []" "m_addressToAccountRevCreated ?A0 = []" "perm_accounts Y ?A0 = ?v0"
    by (simp_all add: InitRevertibles_def perm_accounts_def upd_storage_def primary_def)
  have run: "apply_delta_entries Y True False es ?A0 = Some (True, A1)"
    using assms(2,4) by (simp add: DeserializeDelta_def GetAccountStoreDelta_def)
  have rec: "recorded Y ?v0 A1"
    by (rule entries_recorded [OF assms(1) run _ assms(3)]) (use revs in \<open>simp_all add: recorded_def\<close>)
  obtain s1 where s1: "revert_changed Y (m_addressToAccountRevChanged A1) (primary A1) = Some s1"
    "trie_view Y s1 = trie_view Y (primary A1) ++ map_of (m_addressToAccountRevChanged A1)"
    using revert_changed_view [OF assms(1)] rec unfolding recorded_def by blast
  let ?s2 = "fold (revert_created Y) (m_addressToAccountRevCreated A1) s1"
  let ?A2 = "upd_storage RevertContractStates (upd_primary (\<lambda>_. ?s2) A1)"
  have "trie_view Y ?s2 a = ?v0 a" for a
    using revert_created_fold [OF assms(1), of "m_addressToAccountRevCreated A1" s1 a] s1(2) rec [unfolded recorded_def]
    by (cases "map_of (m_addressToAccountRevChanged A1) a") (auto simp: perm_accounts_def map_add_def)
  then have "perm_accounts Y ?A2 = ?v0" by (auto simp: perm_accounts_def [of Y ?A2])
  moreover have "RevertCommitTemp Y A1 = Some ?A2" using s1(1) by (simp add: RevertCommitTemp_def)
  moreover have "CommitTempRevertible Y A = Some A1" using assms(4) d by (simp add: CommitTempRevertible_def Let_def)
  ultimately show ?thesis by blast
qed

section \<open>A state delta carries the ledger\<close>

text \<open>A signed difference of two balances turns one into the other.\<close>

lemma unat_abs_diff: "unat (of_int \<bar>int (unat (n :: 128 word)) - int (unat (m :: 128 word))\<bar> :: 128 word) = nat \<bar>int (unat n) - int (unat m)\<bar>"
proof -
  let ?k = "nat \<bar>int (unat n) - int (unat m)\<bar>"
  have b: "unat x < 2 ^ 128" for x :: "128 word" using unat_bound [of x] by simp
  have "?k < 2 ^ 128" using b [of n] b [of m] by linarith
  moreover have "\<bar>int (unat n) - int (unat m)\<bar> = int ?k" by simp
  ultimately show ?thesis using take_bit_nat_eq_self [of ?k 128] unsigned_of_nat [of ?k, where ?'b = 128, where ?'a = nat] by simp
qed

lemma ChangeBalance_diff:
  assumes "usafe_ok M"
  shows "Account_ChangeBalance M (int (unat n) - int (unat (m_balance acc))) acc = (True, acc\<lparr>m_balance := n\<rparr>)"
proof (cases "unat (m_balance acc) \<le> unat n")
  case True
  then have "of_int (int (unat n) - int (unat (m_balance acc))) = n - m_balance acc" by simp
  moreover have "unat (n - m_balance acc) = unat n - unat (m_balance acc)" using True by (rule unat_sub_fits)
  ultimately show ?thesis using True assms unat_bound [of n]
    by (simp add: Account_ChangeBalance_def Account_IncreaseBalance_fits del: of_nat_unat)
next
  case False
  then have "of_int (- (int (unat n) - int (unat (m_balance acc)))) = m_balance acc - n" by simp
  moreover have "unat (m_balance acc - n) = unat (m_balance acc) - unat n" using False by (intro unat_sub_fits) simp
  ultimately show ?thesis using False assms
    by (simp add: Account_ChangeBalance_def Account_DecreaseBalance_eq del: of_nat_unat)
qed

text \<open>An entry without contract data.\<close>

definition plain_change :: "ledger_env \<Rightarrow> Account option \<Rightarrow> Account \<Rightarrow> bool" where
  "plain_change E old new \<longleftrightarrow> \<not> isContract new \<and> m_version new = ACCOUNT_VERSION E
     \<and> (\<forall>acc. old = Some acc \<longrightarrow> \<not> isContract acc \<and> unat (m_nonce acc) \<le> unat (m_nonce new))"

definition moved_to :: "ledger_env \<Rightarrow> Account option \<Rightarrow> Account \<Rightarrow> Account" where
  "moved_to E old new = (case old of None \<Rightarrow> Account_default E | Some acc \<Rightarrow> acc)\<lparr>m_balance := m_balance new, m_nonce := m_nonce new\<rparr>"

lemma delta_entry_transfers:
  fixes Y :: "('t, 'd, 'pt) as_env" and C' :: "'d ContractStorage"
  assumes "ledger_env_ok (as_ledger Y)" "plain_change (as_ledger Y) old new"
  obtains pa where "AccountDeltaToProtobuf Y old new C = Some pa"
    "\<And>C'. ProtobufToAccountDelta Y pa a (old = None) temp rv (case old of None \<Rightarrow> Account_default (as_ledger Y) | Some acc \<Rightarrow> acc) C'
       = Some (True, moved_to (as_ledger Y) old new, C')"
proof -
  let ?E = "as_ledger Y"
  define o' where "o' = (case old of None \<Rightarrow> Account_default ?E | Some acc \<Rightarrow> acc)"
  define d where "d = int (unat (m_balance new)) - int (unat (m_balance o'))"
  have M: "usafe_ok (SafeMath128 ?E)" "usafe_ok (SafeMath64 ?E)" using assms(1) by (simp_all add: ledger_env_ok_def)
  have o': "\<not> isContract o'" "unat (m_nonce o') \<le> unat (m_nonce new)"
    using assms(2) by (auto simp: plain_change_def o'_def isContract_def Account_default_def Account_new_def split: option.splits)
  have new: "\<not> isContract new" "m_version new = ACCOUNT_VERSION ?E" using assms(2) by (simp_all add: plain_change_def)
  have nd: "USafe_sub (SafeMath64 ?E) (m_nonce new) (m_nonce o') 0 = (True, m_nonce new - m_nonce o')"
    by (rule usafe_sub [OF M(2) o'(2)])
  let ?base = "\<lparr>pab_version = Some (m_version new), pab_balance = Some (number_field_put UINT128_SIZE [] 0 (unat (of_int \<bar>d\<bar> :: 128 word))),
     pab_nonce = Some (m_nonce new - m_nonce o'), pab_codehash = None, pab_storageroot = None\<rparr>"
  let ?pa = "\<lparr>pa_base = Some ?base, pa_code = None, pa_storage = [], pa_numbersign = Some (d > 0)\<rparr>"
  have set: "AccountDeltaToProtobuf Y old new C = Some ?pa"
    unfolding AccountDeltaToProtobuf_def Let_def o'_def [symmetric] d_def [symmetric]
    using nd new(1) by (simp add: AccountBaseToProtobuf_eq)
  have i: "int (unat (of_int \<bar>d\<bar> :: 128 word)) = \<bar>d\<bar>"
    using unat_abs_diff [of "m_balance new" "m_balance o'"] unfolding d_def [symmetric] by linarith
  have bd: "(if d > 0 then int (unat (of_int \<bar>d\<bar> :: 128 word)) else - int (unat (of_int \<bar>d\<bar> :: 128 word))) = d"
    unfolding i by simp
  have cb: "Account_ChangeBalance (SafeMath128 ?E) d o' = (True, o'\<lparr>m_balance := m_balance new\<rparr>)"
    unfolding d_def by (rule ChangeBalance_diff [OF M(1)])
  have "unat (m_nonce o') + unat (m_nonce new - m_nonce o') < 2 ^ LENGTH(64)"
    using unat_sub_fits [OF o'(2)] o'(2) unat_bound [of "m_nonce new"] by simp
  then have nb: "Account_IncreaseNonceBy (SafeMath64 ?E) (m_nonce new - m_nonce o') (o'\<lparr>m_balance := m_balance new\<rparr>)
      = (True, o'\<lparr>m_balance := m_balance new, m_nonce := m_nonce new\<rparr>)"
    using usafe_add [OF M(2), of "m_nonce o'" "m_nonce new - m_nonce o'"] by (simp add: Account_IncreaseNonceBy_def)
  define x :: "128 word" where "x = of_int \<bar>d\<bar>"
  define sg where "sg = (d > 0)"
  have b: "(if sg then uint x else - uint x) = d" using bd unfolding x_def [symmetric] sg_def [symmetric] by (simp split: if_splits)
  have "ProtobufToAccountDelta Y ?pa a (old = None) temp rv o' C' = Some (True, o'\<lparr>m_balance := m_balance new, m_nonce := m_nonce new\<rparr>, C')" for C'
    unfolding x_def [symmetric] sg_def [symmetric] using b cb nb new(2) o'(1)
    by (simp add: ProtobufToAccountDelta_def ProtobufToAccountBase_def number128_roundtrip isContract_def Let_def split: if_splits)
  then show ?thesis using that [OF set] by (simp add: o'_def moved_to_def)
qed

text \<open>Any entry, contracts included. When the receiver accepts it, the balance and the nonce are those of the sender. So is
  the code hash, if the entry says enough: a contract that is new to the receiver comes with code that the sender
  could read, one that is not has kept its code; and so is then the storage root, if the entry lists states.\<close>

definition code_sent :: "('t, 'd, 'pt) as_env \<Rightarrow> 'd ContractStorage \<Rightarrow> Account option \<Rightarrow> Account \<Rightarrow> bool" where
  "code_sent Y C old new \<longleftrightarrow> isContract new
     \<and> (case old of None \<Rightarrow> (\<exists>code. Account_GetCode (as_sc Y) new C = Some code \<and> code \<noteq> []) | Some acc \<Rightarrow> m_codeHash acc = m_codeHash new)"

definition states_sent :: "('t, 'd, 'pt) as_env \<Rightarrow> 'd ContractStorage \<Rightarrow> Account option \<Rightarrow> Account \<Rightarrow> bool" where
  "states_sent Y C old new \<longleftrightarrow> (\<exists>pa. AccountDeltaToProtobuf Y old new C = Some pa \<and> pa_storage pa \<noteq> [])"

definition carried :: "('t, 'd, 'pt) as_env \<Rightarrow> 'd ContractStorage \<Rightarrow> Account option \<Rightarrow> Account \<Rightarrow> Account \<Rightarrow> bool" where
  "carried Y C old new acc \<longleftrightarrow> m_balance acc = m_balance new \<and> m_nonce acc = m_nonce new
     \<and> (code_sent Y C old new \<longrightarrow> m_codeHash acc = m_codeHash new \<and> (states_sent Y C old new \<longrightarrow> m_storageRoot acc = m_storageRoot new))"

lemma delta_written:
  fixes Y :: "('t, 'd, 'pt) as_env"
  assumes "ledger_env_ok (as_ledger Y)" "AccountDeltaToProtobuf Y old new C = Some pa" "pa_base pa = Some base"
  defines "ori \<equiv> (case old of None \<Rightarrow> Account_default (as_ledger Y) | Some acc \<Rightarrow> acc)"
  defines "d \<equiv> int (unat (m_balance new)) - int (unat (m_balance ori))"
  shows "unat (m_nonce ori) \<le> unat (m_nonce new)" "pab_version base = Some (m_version new)"
    "pab_balance base = Some (number_field_put UINT128_SIZE [] 0 (unat (of_int \<bar>d\<bar> :: 128 word)))"
    "pab_nonce base = Some (m_nonce new - m_nonce ori)" "pa_numbersign pa = Some (d > 0)"
    "isContract new \<Longrightarrow> old = None \<Longrightarrow> pa_code pa = Account_GetCode (as_sc Y) new C \<and> pab_codehash base = Some (m_codeHash new)"
    "pa_storage pa \<noteq> [] \<Longrightarrow> pab_storageroot base = (if m_storageRoot new \<noteq> h256_zero then Some (m_storageRoot new) else None)"
proof -
  have M: "usafe_ok (SafeMath64 (as_ledger Y))" using assms(1) by (simp add: ledger_env_ok_def)
  show n: "unat (m_nonce ori) \<le> unat (m_nonce new)"
  proof (rule ccontr)
    assume "\<not> ?thesis"
    then obtain r where "USafe_sub (SafeMath64 (as_ledger Y)) (m_nonce new) (m_nonce ori) 0 = (False, r)"
      using usafe_sub_fail [OF M, of "m_nonce ori" "m_nonce new" 0] by (cases "USafe_sub (SafeMath64 (as_ledger Y)) (m_nonce new) (m_nonce ori) 0") auto
    then show False using assms(2,3) unfolding AccountDeltaToProtobuf_def Let_def ori_def [symmetric] by auto
  qed
  note sub = usafe_sub [OF M n]
  show "pab_version base = Some (m_version new)" "pab_nonce base = Some (m_nonce new - m_nonce ori)" "pa_numbersign pa = Some (d > 0)"
      "pab_balance base = Some (number_field_put UINT128_SIZE [] 0 (unat (of_int \<bar>d\<bar> :: 128 word)))"
      "isContract new \<Longrightarrow> old = None \<Longrightarrow> pa_code pa = Account_GetCode (as_sc Y) new C \<and> pab_codehash base = Some (m_codeHash new)"
      "pa_storage pa \<noteq> [] \<Longrightarrow> pab_storageroot base = (if m_storageRoot new \<noteq> h256_zero then Some (m_storageRoot new) else None)"
    using assms(2,3) sub unfolding AccountDeltaToProtobuf_def Let_def ori_def [symmetric] d_def [symmetric]
    by (auto simp: AccountBaseToProtobuf_eq isContract_def split: bind_splits if_splits)
qed

lemma ProtobufToAccountBase_parts:
  assumes "ProtobufToAccountBase p acc = Some accbase"
  shows "pab_version p = Some (m_version accbase)" "pab_nonce p = Some (m_nonce accbase)"
    "pab_balance p = Some (number_field_put UINT128_SIZE [] 0 (unat x)) \<Longrightarrow> m_balance accbase = x"
    "m_codeHash accbase = (case pab_codehash p of None \<Rightarrow> m_codeHash acc | Some h \<Rightarrow> h)"
    "m_storageRoot accbase = (case pab_storageroot p of None \<Rightarrow> m_storageRoot acc | Some h \<Rightarrow> h)"
  using assms number128_roundtrip [of x]
  by (auto simp: ProtobufToAccountBase_def CopyWithSizeCheck_def Let_def split: bind_splits option.splits if_splits)

lemma apply_storage_keeps:
  assumes "apply_storage Y pa accbase a temp rv acc C = Some (True, acc', C')"
  shows "m_balance acc' = m_balance acc \<and> m_nonce acc' = m_nonce acc \<and> m_codeHash acc' = m_codeHash acc
    \<and> (pa_storage pa \<noteq> [] \<longrightarrow> m_storageRoot acc' = m_storageRoot accbase)"
proof -
  have "es \<noteq> []" if "copy_hashes ps = Some es" "ps \<noteq> []" for ps es using that by (cases ps) (auto split: bind_splits)
  then show ?thesis
    using assms by (auto simp: apply_storage_def Account_SetStorage_raw_def Account_SetAddress_def split: if_splits option.splits bind_splits)
qed

lemma apply_code_keeps:
  assumes "apply_code Y pa accbase acc C = Some (True, acc')"
  shows "m_balance acc' = m_balance acc \<and> m_nonce acc' = m_nonce acc \<and> m_codeHash acc' = m_codeHash accbase"
  using assms by (auto simp: apply_code_def Account_SetCode_def Let_def split: if_splits bind_splits)

lemma delta_entry_carries:
  fixes Y :: "('t, 'd, 'pt) as_env"
  assumes ok: "ledger_env_ok (as_ledger Y)" and put: "AccountDeltaToProtobuf Y old new C = Some pa"
    and get: "ProtobufToAccountDelta Y pa a (old = None) temp rv (case old of None \<Rightarrow> Account_default (as_ledger Y) | Some acc \<Rightarrow> acc) C'
      = Some (True, acc', C'')"
  shows "carried Y C old new acc'"
proof -
  let ?E = "as_ledger Y"
  let ?b = "\<lparr>m_version = ACCOUNT_VERSION ?E, m_balance = 0, m_nonce = 0, m_storageRoot = h256_zero, m_codeHash = h256_zero\<rparr>"
  define ori where "ori = (case old of None \<Rightarrow> Account_default ?E | Some acc \<Rightarrow> acc)"
  define d where "d = int (unat (m_balance new)) - int (unat (m_balance ori))"
  obtain base accbase where base: "pa_base pa = Some base" "ProtobufToAccountBase base ?b = Some accbase"
    using get by (auto simp: ProtobufToAccountDelta_def split: option.splits)
  note w = delta_written [OF ok put base(1), folded ori_def, folded d_def]
  note r = ProtobufToAccountBase_parts [OF base(2)]
  have bal: "m_balance accbase = of_int \<bar>d\<bar>" by (rule r(3)) (simp add: w(3))
  have i: "int (unat (of_int \<bar>d\<bar> :: 128 word)) = \<bar>d\<bar>"
    using unat_abs_diff [of "m_balance new" "m_balance ori"] unfolding d_def [symmetric] by linarith
  have M: "usafe_ok (SafeMath128 ?E)" "usafe_ok (SafeMath64 ?E)" using ok by (simp_all add: ledger_env_ok_def)
  have cb: "Account_ChangeBalance (SafeMath128 ?E) d ori = (True, ori\<lparr>m_balance := m_balance new\<rparr>)"
    unfolding d_def by (rule ChangeBalance_diff [OF M(1)])
  have sg: "(if d > 0 then int (unat (m_balance accbase)) else - int (unat (m_balance accbase))) = d" unfolding bal i by simp
  let ?acc2 = "ori\<lparr>m_balance := m_balance new, m_nonce := m_nonce new\<rparr>"
  have "unat (m_nonce ori) + unat (m_nonce new - m_nonce ori) < 2 ^ LENGTH(64)"
    using unat_sub_fits [OF w(1)] w(1) unat_bound [of "m_nonce new"] by simp
  then have nb: "Account_IncreaseNonceBy (SafeMath64 ?E) (m_nonce accbase) (ori\<lparr>m_balance := m_balance new\<rparr>) = (True, ?acc2)"
    using usafe_add [OF M(2), of "m_nonce ori" "m_nonce new - m_nonce ori"] r(2) w(4) by (simp add: Account_IncreaseNonceBy_def)
  let ?enter = "(\<exists>c. pa_code pa = Some c \<and> c \<noteq> []) \<or> isContract ?acc2"
  have run: "(if ?enter then do {
       (ok, acc3) \<leftarrow> (if old = None then apply_code Y pa accbase ?acc2 C' else Some (True, ?acc2));
       (if ok then apply_storage Y pa accbase a temp rv acc3 C' else Some (False, acc3, C')) }
     else Some (True, ?acc2, C')) = Some (True, acc', C'')"
    using get base sg cb nb w(5) unfolding ProtobufToAccountDelta_def ori_def [symmetric] Let_def by (auto split: if_splits)
  have root: "m_storageRoot accbase = m_storageRoot new" if "states_sent Y C old new"
    using that put w(7) r(5) by (auto simp: states_sent_def)
  have code: "?enter \<and> (old = None \<longrightarrow> m_codeHash accbase = m_codeHash new) \<and> (old \<noteq> None \<longrightarrow> m_codeHash ori = m_codeHash new)"
    if "code_sent Y C old new"
    using that w(6) r(4) by (cases old) (auto simp: code_sent_def isContract_def ori_def)
  show ?thesis
  proof (cases ?enter)
    case True
    then obtain acc3 where acc3: "apply_storage Y pa accbase a temp rv acc3 C' = Some (True, acc', C'')"
        "(if old = None then apply_code Y pa accbase ?acc2 C' else Some (True, ?acc2)) = Some (True, acc3)"
      using run by (auto split: bind_splits if_splits)
    have "m_balance acc3 = m_balance new \<and> m_nonce acc3 = m_nonce new \<and> (code_sent Y C old new \<longrightarrow> m_codeHash acc3 = m_codeHash new)"
      using acc3(2) code apply_code_keeps [of Y pa accbase ?acc2 C' acc3] by (auto split: if_splits)
    then show ?thesis using apply_storage_keeps [OF acc3(1)] root put by (auto simp: carried_def states_sent_def)
  next
    case False
    then have "\<not> code_sent Y C old new" using code by blast
    moreover have "acc' = ?acc2" using run unfolding if_not_P [OF False] by simp
    ultimately show ?thesis by (simp add: carried_def)
  qed
qed

lemma addr_roundtrip [simp]: "addr_of_prefix (addr_bytes a) = a"
proof -
  have "unat a < 256 ^ 20" using unat_bound [of a] by simp
  then show ?thesis by (simp add: addr_of_prefix_def addr_bytes_def addr_of_bytes_def ACC_ADDR_SIZE_def be_val_be_bytes)
qed

lemma apply_delta_entry_forward:
  fixes Y :: "('t, 'd, 'pt) as_env"
  assumes "trie_ok (as_trie Y)" "addr_of_prefix (fst e) = a"
    and "\<And>C'. ProtobufToAccountDelta Y (snd e) a (perm_accounts Y N a = None) temp rv
           (case perm_accounts Y N a of None \<Rightarrow> Account_default (as_ledger Y) | Some acc \<Rightarrow> acc) C' = Some (True, acc', C')"
  obtains N' where "apply_delta_entry Y rv temp e N = Some (True, N')" "perm_accounts Y N' = (perm_accounts Y N)(a \<mapsto> acc')"
proof -
  let ?new = "Account_default (as_ledger Y)"
  obtain found s1 where g: "AccountStoreTrie_GetAccount Y a (primary N) = (found, s1)" by fastforce
  note v1 = AccountStoreTrie_GetAccount_view [OF g]
  have f: "perm_accounts Y N a = found" using v1 by (simp add: perm_accounts_def)
  obtain ori s2 where o: "(if found = None then AccountStoreTrie_GetAccount Y a (AddAccount (trie_vt Y) a ?new s1) else (found, s1)) = (ori, s2)"
    by fastforce
  have v2: "ori = Some (case found of None \<Rightarrow> ?new | Some acc \<Rightarrow> acc)"
    "trie_view Y s2 = (if found = None then (trie_view Y (primary N))(a \<mapsto> ?new) else trie_view Y (primary N))"
    using o v1 AccountStoreTrie_GetAccount_view [of Y a "AddAccount (trie_vt Y) a ?new s1" ori s2] trie_store.AddAccount_view [of Y a ?new s1]
    by (auto split: if_splits)
  let ?N1 = "upd_primary (\<lambda>_. s2) N" and ?ori = "case found of None \<Rightarrow> ?new | Some acc \<Rightarrow> acc"
  let ?N2 = "upd_storage (\<lambda>_. storage ?N1) ?N1"
  obtain N3 where n3: "AddAccountDuringDeserialization Y a acc' ?ori (found = None) rv ?N2 = Some N3"
    "perm_accounts Y N3 = (perm_accounts Y ?N2)(a \<mapsto> acc')" "storage N3 = storage ?N2"
    "m_addressToAccountRevChanged N3 = (if rv \<and> \<not> found = None then AList.update a ?ori (m_addressToAccountRevChanged ?N2) else m_addressToAccountRevChanged ?N2)"
    "m_addressToAccountRevCreated N3 = (if rv \<and> found = None then AList.update a acc' (m_addressToAccountRevCreated ?N2) else m_addressToAccountRevCreated ?N2)"
    by (rule AddAccountDuringDeserialization_effect [OF assms(1)])
  have "apply_delta_entry Y rv temp e N = Some (True, N3)"
    using g o v2(1) n3(1) assms(2) assms(3) [of "storage ?N1", unfolded f] by (simp add: apply_delta_entry_def Let_def)
  moreover have "perm_accounts Y N3 = (perm_accounts Y N)(a \<mapsto> acc')" using n3(2) v2(2) by (auto simp: perm_accounts_def)
  ultimately show ?thesis by (rule that)
qed

definition delta_pair :: "('t, 'd, 'pt) as_env \<Rightarrow> 'd ContractStorage \<Rightarrow> ledger \<Rightarrow> Address \<times> Account \<Rightarrow> bytes \<times> ProtoAccount \<Rightarrow> bool" where
  "delta_pair Y C v x e \<longleftrightarrow> fst e = addr_bytes (fst x) \<and> AccountDeltaToProtobuf Y (v (fst x)) (snd x) C = Some (snd e)"

lemma delta_entries_pairs:
  "delta_entries Y C es s = Some (ents, s') \<Longrightarrow> trie_view Y s = v \<Longrightarrow> list_all2 (delta_pair Y C v) es ents \<and> trie_view Y s' = v"
proof (induction es arbitrary: s ents)
  case (Cons x es)
  obtain a acc where x: "x = (a, acc)" by fastforce
  obtain old s1 where g: "AccountStoreTrie_GetAccount Y a s = (old, s1)" by fastforce
  note v1 = AccountStoreTrie_GetAccount_view [OF g]
  obtain pa rest where r: "AccountDeltaToProtobuf Y old acc C = Some pa" "delta_entries Y C es s1 = Some (rest, s')" "ents = (addr_bytes a, pa) # rest"
    using Cons.prems(1) g x by (auto split: bind_splits)
  show ?case using Cons.IH [OF r(2)] v1 r Cons.prems(2) x by (simp add: delta_pair_def)
qed simp

lemma apply_delta_pairs:
  fixes Y :: "('t, 'd, 'pt) as_env"
  assumes "trie_ok (as_trie Y)" "ledger_env_ok (as_ledger Y)"
  shows "list_all2 (delta_pair Y C v) es ents \<Longrightarrow> distinct (map fst es)
    \<Longrightarrow> \<forall>x\<in>set es. plain_change (as_ledger Y) (v (fst x)) (snd x) \<and> perm_accounts Y N (fst x) = v (fst x)
    \<Longrightarrow> \<exists>N'. apply_delta_entries Y rv temp ents N = Some (True, N')
          \<and> (\<forall>a. perm_accounts Y N' a = (case map_of es a of None \<Rightarrow> perm_accounts Y N a | Some acc \<Rightarrow> Some (moved_to (as_ledger Y) (v a) acc)))"
proof (induction es arbitrary: ents N)
  case (Cons x es)
  obtain a acc where x: "x = (a, acc)" by fastforce
  obtain e rest where e: "ents = e # rest" "delta_pair Y C v x e" "list_all2 (delta_pair Y C v) es rest"
    using Cons.prems(1) by (auto simp: list_all2_Cons1)
  have pl: "plain_change (as_ledger Y) (v a) acc" "perm_accounts Y N a = v a" using Cons.prems(3) x by simp_all
  obtain pa where pa: "AccountDeltaToProtobuf Y (v a) acc C = Some pa"
    "\<And>C'. ProtobufToAccountDelta Y pa a (v a = None) temp rv (case v a of None \<Rightarrow> Account_default (as_ledger Y) | Some acc \<Rightarrow> acc) C'
       = Some (True, moved_to (as_ledger Y) (v a) acc, C')"
    using delta_entry_transfers [OF assms(2) pl(1)] by metis
  have "snd e = pa" "addr_of_prefix (fst e) = a" using e(2) pa(1) x by (simp_all add: delta_pair_def)
  then obtain N1 where N1: "apply_delta_entry Y rv temp e N = Some (True, N1)"
    "perm_accounts Y N1 = (perm_accounts Y N)(a \<mapsto> moved_to (as_ledger Y) (v a) acc)"
    using apply_delta_entry_forward [OF assms(1), of e a N temp rv "moved_to (as_ledger Y) (v a) acc"] pa(2) pl(2) by auto
  have na: "a \<notin> fst ` set es" using Cons.prems(2) x by simp
  have rest: "\<forall>x\<in>set es. plain_change (as_ledger Y) (v (fst x)) (snd x) \<and> perm_accounts Y N1 (fst x) = v (fst x)"
    using Cons.prems(3) na unfolding N1(2) by auto
  have "distinct (map fst es)" using Cons.prems(2) by simp
  from Cons.IH [OF e(3) this rest] obtain N' where N': "apply_delta_entries Y rv temp rest N1 = Some (True, N')"
    "\<And>b. perm_accounts Y N' b = (case map_of es b of None \<Rightarrow> perm_accounts Y N1 b | Some acc \<Rightarrow> Some (moved_to (as_ledger Y) (v b) acc))"
    by blast
  have "map_of es a = None" using na by (simp add: map_of_eq_None_iff)
  then show ?case using N1 N' e(1) x by (auto split: option.splits)
qed simp

lemma apply_pairs_carry:
  fixes Y :: "('t, 'd, 'pt) as_env"
  assumes "trie_ok (as_trie Y)" "ledger_env_ok (as_ledger Y)"
  shows "list_all2 (delta_pair Y C v) es ents \<Longrightarrow> distinct (map fst es) \<Longrightarrow> \<forall>x\<in>set es. perm_accounts Y N (fst x) = v (fst x)
    \<Longrightarrow> apply_delta_entries Y rv temp ents N = Some (True, N')
    \<Longrightarrow> (\<forall>x\<in>set es. \<exists>acc. perm_accounts Y N' (fst x) = Some acc \<and> carried Y C (v (fst x)) (snd x) acc)
      \<and> (\<forall>a. a \<notin> fst ` set es \<longrightarrow> perm_accounts Y N' a = perm_accounts Y N a)"
proof (induction es arbitrary: ents N)
  case (Cons x es)
  obtain a new where x: "x = (a, new)" by fastforce
  obtain e rest where e: "ents = e # rest" "delta_pair Y C v x e" "list_all2 (delta_pair Y C v) es rest"
    using Cons.prems(1) by (auto simp: list_all2_Cons1)
  obtain N1 where N1: "apply_delta_entry Y rv temp e N = Some (True, N1)" "apply_delta_entries Y rv temp rest N1 = Some (True, N')"
    using Cons.prems(4) e(1) by (auto split: bind_splits if_splits)
  have a: "addr_of_prefix (fst e) = a" "AccountDeltaToProtobuf Y (v a) new C = Some (snd e)" "perm_accounts Y N a = v a"
    using e(2) x Cons.prems(3) by (simp_all add: delta_pair_def)
  obtain acc C' where get: "ProtobufToAccountDelta Y (snd e) a (v a = None) temp rv
        (case v a of None \<Rightarrow> Account_default (as_ledger Y) | Some acc \<Rightarrow> acc) (storage N) = Some (True, acc, C')"
      "entry_effect Y rv a N N1 acc"
    using apply_delta_entry_effect [OF assms(1) N1(1)] unfolding a(1,3) by blast
  have N1v: "perm_accounts Y N1 = (perm_accounts Y N)(a \<mapsto> acc)" using get(2) by (simp add: entry_effect_def)
  have c: "carried Y C (v a) new acc" by (rule delta_entry_carries [OF assms(2) a(2) get(1)])
  have na: "a \<notin> fst ` set es" "distinct (map fst es)" using Cons.prems(2) x by simp_all
  have "\<forall>x\<in>set es. perm_accounts Y N1 (fst x) = v (fst x)" using Cons.prems(3) na(1) unfolding N1v by auto
  from Cons.IH [OF e(3) na(2) this N1(2)] show ?case using c na(1) x unfolding N1v by auto
qed simp

text \<open>The protobuf runtime reads back the deltas it wrote.\<close>

definition account_protobuf_ok :: "account_protobuf \<Rightarrow> bool" where
  "account_protobuf_ok Q \<longleftrightarrow>
     (\<forall>es. length (AccountStoreToArray Q es) < 2 ^ 31 \<longrightarrow> AccountStoreFromArray Q (AccountStoreToArray Q es) = Some es)"

text \<open>A temporary store whose accounts are no contracts, have the current version and a nonce that has not gone down.\<close>

definition plain_epoch :: "('t, 'd, 'pt) as_env \<Rightarrow> ('t, 'd) AccountStore \<Rightarrow> bool" where
  "plain_epoch Y A \<longleftrightarrow> (\<forall>x\<in>set (tmp_map (sc_store (m_accountStoreTemp A))). plain_change (as_ledger Y) (perm_accounts Y A (fst x)) (snd x))"

lemma SerializeDelta_pairs:
  assumes "account_protobuf_ok (as_proto Y)" "SerializeDelta Y A = Some (True, A1)"
  obtains ents where "list_all2 (delta_pair Y (storage A) (perm_accounts Y A)) (sort_key fst (tmp_map (sc_store (m_accountStoreTemp A)))) ents"
    "\<And>rv N. DeserializeDelta Y (GetSerializedDelta A1) 0 rv N = apply_delta_entries Y rv False ents N"
proof -
  let ?es = "sort_key fst (tmp_map (sc_store (m_accountStoreTemp A)))"
  obtain ents p dst where d: "delta_entries Y (storage A) ?es (primary A) = Some (ents, p)"
    "SerializeToArray (AccountStoreToArray (as_proto Y) ents) [] 0 = Some (dst, True)" "m_stateDeltaSerialized A1 = dst"
    using assms(2) by (auto simp: SerializeDelta_def SetAccountStoreDelta_def primary_def split: bind_splits)
  have raw: "dst = AccountStoreToArray (as_proto Y) ents" "length dst < 2 ^ 31"
    using SerializeToArray_at_end [of "AccountStoreToArray (as_proto Y) ents" "[]" dst] d(2)
    by (auto simp: SerializeToArray_def Let_def split: if_splits)
  show ?thesis
  proof (rule that)
    show "list_all2 (delta_pair Y (storage A) (perm_accounts Y A)) ?es ents"
      using delta_entries_pairs [OF d(1)] by (simp add: perm_accounts_def)
    show "DeserializeDelta Y (GetSerializedDelta A1) 0 rv N = apply_delta_entries Y rv False ents N" for rv N
      using d(3) raw assms(1) by (simp add: DeserializeDelta_def GetAccountStoreDelta_def GetSerializedDelta_def account_protobuf_ok_def)
  qed
qed

text \<open>C11: the state delta that a node serialises carries the outcome of the epoch to a node with the same permanent ledger.
  When that node accepts it, its permanent ledger has the accounts of the temporary ledger, each with its balance and
  nonce; a contract whose code was readable by the sender, if it is new, or has not changed, if it is not, has the
  code hash of the temporary ledger, and its storage root too if the entry lists states. The delta of an epoch
  whose temporary store holds no contract account, only accounts of the current version and nonces that have not gone
  down, is always accepted. That a node accepts the states of a contract is not claimed: it depends on its contract
  database, which the entry does not contain.\<close>

theorem delta_carries_ledger:
  fixes Y :: "('t, 'd, 'pt) as_env"
  assumes env: "trie_ok (as_trie Y)" "ledger_env_ok (as_ledger Y)" "account_protobuf_ok (as_proto Y)"
    and dist: "distinct (map fst (tmp_map (sc_store (m_accountStoreTemp A))))" and ser: "SerializeDelta Y A = Some (True, A1)"
    and same: "perm_accounts Y N = perm_accounts Y A"
  shows "(plain_epoch Y A \<longrightarrow> (\<exists>N'. DeserializeDelta Y (GetSerializedDelta A1) 0 rv N = Some (True, N')))
    \<and> (\<forall>N'. DeserializeDelta Y (GetSerializedDelta A1) 0 rv N = Some (True, N') \<longrightarrow>
        (\<forall>a. bal (perm_accounts Y N') a = bal (temp_accounts Y A) a \<and> nonce_of (perm_accounts Y N') a = nonce_of (temp_accounts Y A) a
          \<and> (perm_accounts Y N' a = None \<longleftrightarrow> temp_accounts Y A a = None))
        \<and> (\<forall>a new. temp_accounts Y A a = Some new \<and> code_sent Y (storage A) (perm_accounts Y A a) new \<longrightarrow>
             (\<exists>acc. perm_accounts Y N' a = Some acc \<and> m_codeHash acc = m_codeHash new
               \<and> (states_sent Y (storage A) (perm_accounts Y A a) new \<longrightarrow> m_storageRoot acc = m_storageRoot new))))"
proof -
  let ?v = "perm_accounts Y A" and ?s = "sc_store (m_accountStoreTemp A)" and ?E = "as_ledger Y"
  let ?es = "sort_key fst (tmp_map ?s)"
  have dist': "distinct (map fst ?es)" using dist by (simp add: distinct_map)
  obtain ents where pairs: "list_all2 (delta_pair Y (storage A) ?v) ?es ents"
    and run: "DeserializeDelta Y (GetSerializedDelta A1) 0 rv N = apply_delta_entries Y rv False ents N"
    by (rule SerializeDelta_pairs [OF env(3) ser]) blast
  have m: "map_of ?es = map_of (tmp_map ?s)" using dist dist' by (intro map_of_eqI) (auto simp: map_of_eq_Some_iff)
  have t: "temp_accounts Y A a = (case map_of (tmp_map ?s) a of None \<Rightarrow> ?v a | Some acc \<Rightarrow> Some acc)" for a
    by (simp add: temp_accounts_def temp_ledger_def perm_accounts_def primary_def map_add_def split: option.splits)
  have plain: "\<exists>N'. apply_delta_entries Y rv False ents N = Some (True, N')" if "plain_epoch Y A"
  proof -
    have "\<forall>x\<in>set ?es. plain_change ?E (?v (fst x)) (snd x) \<and> perm_accounts Y N (fst x) = ?v (fst x)"
      using that same by (simp add: plain_epoch_def)
    from apply_delta_pairs [OF env(1,2) pairs dist' this] show ?thesis by blast
  qed
  have view: "case map_of (tmp_map ?s) a of None \<Rightarrow> perm_accounts Y N' a = ?v a
      | Some new \<Rightarrow> \<exists>acc. perm_accounts Y N' a = Some acc \<and> carried Y (storage A) (?v a) new acc"
    if "apply_delta_entries Y rv False ents N = Some (True, N')" for N' a
  proof -
    have "\<forall>x\<in>set ?es. perm_accounts Y N (fst x) = ?v (fst x)" using same by simp
    note c = apply_pairs_carry [OF env(1,2) pairs dist' this that]
    show ?thesis
    proof (cases "map_of (tmp_map ?s) a")
      case None
      then have "a \<notin> fst ` set ?es" by (simp add: map_of_eq_None_iff)
      then show ?thesis using c same None by simp
    next
      case (Some new)
      then have "(a, new) \<in> set ?es" using map_of_SomeD [of ?es a new] m by simp
      then show ?thesis using c Some by fastforce
    qed
  qed
  have "bal (perm_accounts Y N') a = bal (temp_accounts Y A) a \<and> nonce_of (perm_accounts Y N') a = nonce_of (temp_accounts Y A) a
      \<and> (perm_accounts Y N' a = None \<longleftrightarrow> temp_accounts Y A a = None)"
    if "apply_delta_entries Y rv False ents N = Some (True, N')" for N' a
    using view [OF that, of a] by (auto simp: bal_def nonce_of_def t carried_def split: option.splits)
  moreover have "\<exists>acc. perm_accounts Y N' a = Some acc \<and> m_codeHash acc = m_codeHash new
      \<and> (states_sent Y (storage A) (?v a) new \<longrightarrow> m_storageRoot acc = m_storageRoot new)"
    if "apply_delta_entries Y rv False ents N = Some (True, N')" "temp_accounts Y A a = Some new" "code_sent Y (storage A) (?v a) new" for N' a new
    using view [OF that(1), of a] that(2,3) by (auto simp: t carried_def split: option.splits)
  ultimately show ?thesis unfolding run using plain by blast
qed

text \<open>The store after the payment above, and its delta: the sender has paid and its nonce has gone up, the recipient is new.\<close>

abbreviation toy_paid :: "(Address \<Rightarrow> bytes, db_path \<Rightarrow> (bytes \<times> bytes) list) AccountStore" where
  "toy_paid \<equiv> toy_store [(33, Account_new 1000 0 1)] [(33, Account_new 895 1 1), (7, Account_new 100 0 1)]"

definition toy_entry :: "Address \<Rightarrow> nat \<Rightarrow> 64 word \<Rightarrow> bool \<Rightarrow> bytes \<times> ProtoAccount" where
  "toy_entry a b n sg = (addr_bytes a, \<lparr>pa_base = Some \<lparr>pab_version = Some 1, pab_balance = Some (number_field_put UINT128_SIZE [] 0 b), pab_nonce = Some n,
     pab_codehash = None, pab_storageroot = None\<rparr>, pa_code = None, pa_storage = [], pa_numbersign = Some sg\<rparr>)"

lemma toy_entry_length: "length (enc_pair enc_bytes toy_enc_account (toy_entry a b n sg)) = 87 + unat n"
  by (simp add: toy_entry_def enc_pair_def enc_bytes_def enc_nat_def toy_enc_account_def toy_enc_base_def enc_opt_def enc_word_def enc_list_def enc_bool_def
      addr_bytes_def ACC_ADDR_SIZE_def number_field_put_def UINT128_SIZE_def)

lemma toy_sort: "sort_key fst [(33, x), (7 :: Address, y)] = [(7, y), (33, x)]"
  by simp

lemma toy_delta_entries:
  "delta_entries toy_ledger_env C [(7, Account_new 100 0 1), (33, Account_new 895 1 1)] \<lparr>m_addressToAccount = [(33, Account_new 1000 0 1)], m_state = (\<lambda>_. []), m_prevRoot = []\<rparr>
     = Some ([toy_entry 7 100 0 True, toy_entry 33 105 1 False], \<lparr>m_addressToAccount = [(33, Account_new 1000 0 1)], m_state = (\<lambda>_. []), m_prevRoot = []\<rparr>)"
  by (simp add: AccountStoreTrie_GetAccount_def toy_ledger_env_def toy_trie_def AccountDeltaToProtobuf_def toy_ledger_def exact_usafe_def Account_new_def
      AccountBaseToProtobuf_eq isContract_def toy_entry_def Account_default_def Let_def h256_zero_def)

lemma toy_delta: "SerializeDelta toy_ledger_env toy_paid = Some (True, toy_paid\<lparr>m_stateDeltaSerialized :=
    AccountStoreToArray toy_account_protobuf [toy_entry 7 100 0 True, toy_entry 33 105 1 False]\<rparr>)"
proof -
  let ?raw = "AccountStoreToArray toy_account_protobuf [toy_entry 7 100 0 True, toy_entry 33 105 1 False]"
  have "length ?raw = 178" by (simp add: toy_account_protobuf_def enc_list_def enc_nat_def toy_entry_length)
  then have s: "SerializeToArray ?raw [] 0 = Some (?raw, True)" using SerializeToArray_at_end [of ?raw "[]"] by (simp add: SerializeToArray_def Let_def)
  have "SetAccountStoreDelta toy_ledger_env [] 0 (storage toy_paid) (sc_store (m_accountStoreTemp toy_paid)) = Some (?raw, True, sc_store (m_accountStoreTemp toy_paid))"
    using s toy_delta_entries [of "storage toy_paid"] unfolding SetAccountStoreDelta_def by (simp add: toy_store_def toy_ledger_env_def toy_sort)
  then show ?thesis by (simp add: SerializeDelta_def toy_store_def)
qed

lemma toy_proto_ok: "account_protobuf_ok (as_proto toy_ledger_env)"
  using toy_store_reads_back by (simp add: account_protobuf_ok_def toy_ledger_env_def)

lemma toy_trie_ok: "trie_ok (as_trie toy_ledger_env)"
  by (auto simp: trie_ok_def toy_ledger_env_def toy_trie_def)

lemma toy_distinct: "distinct (map fst (tmp_map (sc_store (m_accountStoreTemp toy_paid))))"
  by (simp add: toy_store_def)

lemma toy_plain: "plain_epoch toy_ledger_env toy_paid"
  unfolding plain_epoch_def toy_views by (simp add: toy_store_def plain_change_def isContract_def Account_new_def toy_ledger_env_def toy_ledger_def h256_zero_def)

theorem delta_carries_ledger_witness:
  "\<exists>A1 N'. SerializeDelta toy_ledger_env toy_paid = Some (True, A1) \<and> DeserializeDelta toy_ledger_env (GetSerializedDelta A1) 0 True toy_start = Some (True, N')
    \<and> bal (perm_accounts toy_ledger_env N') 33 = 895 \<and> nonce_of (perm_accounts toy_ledger_env N') 33 = 1 \<and> bal (perm_accounts toy_ledger_env N') 7 = 100"
proof -
  have "perm_accounts toy_ledger_env toy_start = perm_accounts toy_ledger_env toy_paid" unfolding toy_views ..
  from delta_carries_ledger [OF toy_trie_ok toy_ledger_env_ok toy_proto_ok toy_distinct toy_delta this, of True] toy_plain
  obtain N' where N': "DeserializeDelta toy_ledger_env (GetSerializedDelta (toy_paid\<lparr>m_stateDeltaSerialized :=
      AccountStoreToArray toy_account_protobuf [toy_entry 7 100 0 True, toy_entry 33 105 1 False]\<rparr>)) 0 True toy_start = Some (True, N')"
    "\<And>a. bal (perm_accounts toy_ledger_env N') a = bal (temp_accounts toy_ledger_env toy_paid) a \<and> nonce_of (perm_accounts toy_ledger_env N') a = nonce_of (temp_accounts toy_ledger_env toy_paid) a"
    by blast
  have "bal (perm_accounts toy_ledger_env N') 33 = 895" "nonce_of (perm_accounts toy_ledger_env N') 33 = 1" "bal (perm_accounts toy_ledger_env N') 7 = 100"
    unfolding N'(2) [THEN conjunct1] N'(2) [THEN conjunct2] toy_views by (simp_all add: bal_def nonce_of_def Account_new_def)
  then show ?thesis using N'(1) toy_delta by blast
qed

text \<open>The same delta committed in the revertible way on the store that computed it.\<close>

theorem revert_undoes_commit_witness:
  "\<exists>A1 A2. CommitTempRevertible toy_ledger_env (toy_start\<lparr>m_stateDeltaSerialized :=
       AccountStoreToArray toy_account_protobuf [toy_entry 7 100 0 True, toy_entry 33 105 1 False]\<rparr>) = Some A1
    \<and> RevertCommitTemp toy_ledger_env A1 = Some A2 \<and> perm_accounts toy_ledger_env A2 = [33 \<mapsto> Account_new 1000 0 1]"
proof -
  let ?es = "[toy_entry 7 100 0 True, toy_entry 33 105 1 False]"
  let ?A = "toy_start\<lparr>m_stateDeltaSerialized := AccountStoreToArray toy_account_protobuf ?es\<rparr>"
  have v: "perm_accounts toy_ledger_env (InitRevertibles ?A) = perm_accounts toy_ledger_env toy_start" "perm_accounts toy_ledger_env ?A = perm_accounts toy_ledger_env toy_start"
    by (simp_all add: perm_accounts_def InitRevertibles_def upd_storage_def primary_def)
  obtain A1 where "apply_delta_entries toy_ledger_env True False ?es (InitRevertibles ?A) = Some (True, A1)"
  proof -
    have "list_all2 (delta_pair toy_ledger_env (storage toy_paid) (perm_accounts toy_ledger_env toy_paid)) [(7, Account_new 100 0 1), (33, Account_new 895 1 1)] ?es"
      using delta_entries_pairs [OF toy_delta_entries [of "storage toy_paid"] refl]
      by (simp add: perm_accounts_def primary_def toy_store_def)
    note app = apply_delta_pairs [OF toy_trie_ok toy_ledger_env_ok this, of "InitRevertibles ?A" True False]
    show ?thesis using app that toy_plain unfolding v toy_views plain_epoch_def by (auto simp: toy_store_def)
  qed
  then have run: "DeserializeDelta toy_ledger_env (m_stateDeltaSerialized ?A) 0 True (InitRevertibles ?A) = Some (True, A1)"
    using toy_store_reads_back by (simp add: DeserializeDelta_def GetAccountStoreDelta_def toy_ledger_env_def)
  have read: "AccountStoreFromArray (as_proto toy_ledger_env) (m_stateDeltaSerialized ?A) = Some ?es"
    using toy_store_reads_back by (simp add: toy_ledger_env_def)
  have dist: "distinct (map (addr_of_prefix \<circ> fst) ?es)" by (simp add: toy_entry_def)
  have start: "perm_accounts toy_ledger_env toy_start = [33 \<mapsto> Account_new 1000 0 1]" by (auto simp: toy_views fun_eq_iff)
  show ?thesis using revert_undoes_commit [OF toy_trie_ok read dist run] unfolding v start by blast
qed

end
