(* ===== verification/Coinbase.thy ===== *)
theory Coinbase
  imports StateDelta "HOL-Library.Multiset"
begin

text \<open>
  The rewards of a directory service epoch, \<open>libDirectoryService/Coinbase.cpp\<close>: who signed is recorded per epoch and
  shard, and at the end of the epoch the reward is split into base rewards, rewards for signatures and
  rewards for lookup nodes, paid from the coinbase account; what is left goes to a lucky node.

  Configuration, committee and guard lists, which live in other objects, are the fields of \<open>coinbase_env\<close>.
  Committee and shards are lists of keys; a map is an association list, iterated in the order of its keys.
\<close>

section \<open>State and configuration\<close>

type_synonym 'pt rewardees = "(nat \<times> (int \<times> 'pt PubKey list) list) list"

record 'pt CoinbaseState =
  m_coinbaseRewardees :: "'pt rewardees"
  m_mapNodeReputation :: "('pt PubKey \<times> nat) list"
  m_totalTxnFees :: "128 word"

record 'pt coinbase_env =
  LOOKUP_NODE_MODE :: bool
  GUARD_MODE :: bool
  COINBASE_REWARD_PER_DS :: "128 word"
  BASE_REWARD_IN_PERCENT :: "32 word"
  LOOKUP_REWARD_IN_PERCENT :: "32 word"
  MAX_ENTRIES_FOR_DIAGNOSTIC_DATA :: nat
  IsNodeInDSGuardList :: "'pt PubKey \<Rightarrow> bool"
  IsNodeInShardGuardList :: "'pt PubKey \<Rightarrow> bool"
  GetLookupNodesStatic :: "'pt PubKey list"
  m_DSCommittee :: "'pt PubKey list"
  m_shards :: "'pt PubKey list list"
  m_currentEpochNum :: nat
  lastTxBlockHash :: bytes
  lastDSBlockNum :: nat

definition FINALBLOCK_REWARD :: int where "FINALBLOCK_REWARD = -1"

definition LOOKUP_REWARD :: int where "LOOKUP_REWARD = -2"

definition MAX_REPUTATION :: nat where "MAX_REPUTATION = 4096"

section \<open>Recording signatures\<close>

definition shard_of :: "nat \<Rightarrow> 'pt rewardees \<Rightarrow> (int \<times> 'pt PubKey list) list" where
  "shard_of epochNum m = (case map_of m epochNum of None \<Rightarrow> [] | Some s \<Rightarrow> s)"

definition push_rewardee :: "nat \<Rightarrow> int \<Rightarrow> 'pt PubKey \<Rightarrow> 'pt rewardees \<Rightarrow> 'pt rewardees" where
  "push_rewardee epochNum shard_id pk m =
     (let s = shard_of epochNum m; old = (case map_of s shard_id of None \<Rightarrow> [] | Some ks \<Rightarrow> ks)
      in AList.update epochNum (AList.update shard_id (old @ [pk]) s) m)"

definition reputation :: "'pt CoinbaseState \<Rightarrow> 'pt PubKey \<Rightarrow> nat" where
  "reputation c pk = (case map_of (m_mapNodeReputation c) pk of None \<Rightarrow> 0 | Some r \<Rightarrow> r)"

text \<open>One signature of a node: \<open>operator[]\<close> also enters a node that is not below the maximum.\<close>

definition reward_signature :: "nat \<Rightarrow> int \<Rightarrow> 'pt PubKey \<Rightarrow> 'pt CoinbaseState \<Rightarrow> 'pt CoinbaseState" where
  "reward_signature epochNum shard_id pk c =
     (let r = reputation c pk
      in c\<lparr>m_coinbaseRewardees := push_rewardee epochNum shard_id pk (m_coinbaseRewardees c),
           m_mapNodeReputation := AList.update pk (if r < MAX_REPUTATION then r + 1 else r) (m_mapNodeReputation c)\<rparr>)"

fun save_loop :: "nat \<Rightarrow> int \<Rightarrow> bool list \<Rightarrow> bool list \<Rightarrow> 'pt PubKey list \<Rightarrow> 'pt CoinbaseState \<Rightarrow> 'pt CoinbaseState" where
  "save_loop epochNum shard_id (x # b1) (y # b2) (pk # shard) c =
     (let c1 = (if x then reward_signature epochNum shard_id pk c else c);
          c2 = (if y then reward_signature epochNum shard_id pk c1 else c1)
      in save_loop epochNum shard_id b1 b2 shard c2)"
| "save_loop epochNum shard_id _ _ _ c = c"

definition SaveCoinbaseCore ::
    "'pt coinbase_env \<Rightarrow> bool list \<Rightarrow> bool list \<Rightarrow> 'pt PubKey list \<Rightarrow> int \<Rightarrow> nat \<Rightarrow> 'pt CoinbaseState \<Rightarrow> bool \<times> 'pt CoinbaseState" where
  "SaveCoinbaseCore K b1 b2 shard shard_id epochNum c =
     (if LOOKUP_NODE_MODE K then (True, c)
      else if map_of (shard_of epochNum (m_coinbaseRewardees c)) shard_id \<noteq> None then (False, c)
      else if length shard \<noteq> length b1 then (False, c)
      else if length shard \<noteq> length b2 then (False, c)
      else (True, save_loop epochNum shard_id b1 b2 shard c))"

text \<open>\<open>None\<close> is the exception for a shard that does not exist.\<close>

definition SaveCoinbase ::
    "'pt coinbase_env \<Rightarrow> bool list \<Rightarrow> bool list \<Rightarrow> int \<Rightarrow> nat \<Rightarrow> 'pt CoinbaseState \<Rightarrow> (bool \<times> 'pt CoinbaseState) option" where
  "SaveCoinbase K b1 b2 shard_id epochNum c =
     (if LOOKUP_NODE_MODE K then Some (True, c)
      else if shard_id = int (length (m_shards K)) then Some (True, c)
      else if shard_id = FINALBLOCK_REWARD then Some (SaveCoinbaseCore K b1 b2 (m_DSCommittee K) shard_id epochNum c)
      else if 0 \<le> shard_id \<and> shard_id < int (length (m_shards K))
      then Some (SaveCoinbaseCore K b1 b2 (m_shards K ! nat shard_id) shard_id epochNum c)
      else None)"

section \<open>Splitting the reward\<close>

record reward_plan =
  p_total :: "128 word"
  p_base_each :: "128 word"
  p_each :: "128 word"
  p_each_lookup :: "128 word"
  p_node_count :: "128 word"

definition sig_count :: "'pt rewardees \<Rightarrow> nat" where
  "sig_count m = sum_list (map (\<lambda>(e, s). sum_list (map (\<lambda>(i, ks). if i = LOOKUP_REWARD then 0 else length ks) s)) m)"

definition lookup_count :: "'pt rewardees \<Rightarrow> nat" where
  "lookup_count m = sum_list (map (\<lambda>(e, s). sum_list (map (\<lambda>(i, ks). if i = LOOKUP_REWARD then length ks else 0) s)) m)"

definition node_count :: "'pt coinbase_env \<Rightarrow> nat" where
  "node_count K = length (m_DSCommittee K) + sum_list (map length (m_shards K))"

text \<open>\<open>None\<close> is the early return of \<open>InitCoinbase\<close> after an unsafe operation. \<open>nodeReward\<close> is a plain difference.\<close>

definition plan_rewards :: "128 word usafe \<Rightarrow> 'pt coinbase_env \<Rightarrow> 128 word \<Rightarrow> 'pt rewardees \<Rightarrow> reward_plan option" where
  "plan_rewards M K fees m =
     (let sigs = of_nat (sig_count m) :: 128 word;
          lookups = of_nat (u32 (lookup_count m)) :: 128 word;
          nodes = of_nat (node_count K) :: 128 word
      in case USafe_add M (COINBASE_REWARD_PER_DS K) fees 0 of
           (False, _) \<Rightarrow> None
         | (True, total_reward) \<Rightarrow>
             (case USafe_mul M total_reward (ucast (BASE_REWARD_IN_PERCENT K)) 0 of
                (False, _) \<Rightarrow> None
              | (True, base100) \<Rightarrow>
                  let base_reward = base100 div 100
                  in case USafe_div M base_reward nodes 0 of
                       (False, _) \<Rightarrow> None
                     | (True, base_reward_each) \<Rightarrow>
                         (case USafe_mul M total_reward (ucast (LOOKUP_REWARD_IN_PERCENT K)) 0 of
                            (False, _) \<Rightarrow> None
                          | (True, lookup100) \<Rightarrow>
                              let lookupReward = lookup100 div 100;
                                  nodeReward = total_reward - lookupReward - base_reward
                              in case USafe_div M nodeReward sigs 0 of
                                   (False, _) \<Rightarrow> None
                                 | (True, reward_each) \<Rightarrow>
                                     (case USafe_div M lookupReward lookups 0 of
                                        (False, _) \<Rightarrow> None
                                      | (True, reward_each_lookup) \<Rightarrow>
                                          Some \<lparr>p_total = total_reward, p_base_each = base_reward_each, p_each = reward_each,
                                                p_each_lookup = reward_each_lookup, p_node_count = nodes\<rparr>))))"

section \<open>Paying\<close>

record ('t, 'd, 'pt) payout =
  po_store :: "('t, 'd) AccountStore"
  po_nonGuard :: "Address list"
  po_isGuard :: "'pt PubKey \<Rightarrow> bool"
  po_suc :: "128 word"
  po_suc_lookup :: "128 word"

definition coinbaseAddress :: Address where "coinbaseAddress = 0"

definition pay_one ::
    "('t, 'd, 'pt) as_env \<Rightarrow> 128 word \<Rightarrow> Address \<Rightarrow> ('t, 'd, 'pt) payout \<Rightarrow> (bool \<times> ('t, 'd, 'pt) payout) option" where
  "pay_one Y amt addr p =
     map_option (\<lambda>(ok, A). (ok, p\<lparr>po_store := A\<rparr>)) (UpdateCoinbaseTemp Y addr coinbaseAddress amt (po_store p))"

text \<open>The base reward, for the committee and then for the shards; guards get none.\<close>

fun base_loop ::
    "('t, 'd, 'pt) as_env \<Rightarrow> 'pt coinbase_env \<Rightarrow> ('pt PubKey \<Rightarrow> bool) \<Rightarrow> 128 word \<Rightarrow> 'pt PubKey list
     \<Rightarrow> ('t, 'd, 'pt) payout \<Rightarrow> ('t, 'd, 'pt) payout option" where
  "base_loop Y K inGuardList amt [] p = Some p"
| "base_loop Y K inGuardList amt (pk # pks) p =
     (let p1 = (if GUARD_MODE K then p\<lparr>po_isGuard := (po_isGuard p)(pk := inGuardList pk)\<rparr> else p)
      in if GUARD_MODE K \<and> inGuardList pk then base_loop Y K inGuardList amt pks p1
         else do {
           let addr = GetAddressFromPublicKey (sc_ossl (as_sc Y)) pk;
           (_, p2) \<leftarrow> pay_one Y amt addr (p1\<lparr>po_nonGuard := po_nonGuard p1 @ [addr]\<rparr>);
           base_loop Y K inGuardList amt pks p2 })"

fun lookup_loop ::
    "('t, 'd, 'pt) as_env \<Rightarrow> 128 word \<Rightarrow> 'pt PubKey list \<Rightarrow> ('t, 'd, 'pt) payout \<Rightarrow> ('t, 'd, 'pt) payout option" where
  "lookup_loop Y amt [] p = Some p"
| "lookup_loop Y amt (pk # pks) p = do {
     let addr = GetAddressFromPublicKey (sc_ossl (as_sc Y)) pk;
     (ok, p1) \<leftarrow> pay_one Y amt addr p;
     lookup_loop Y amt pks
       (if ok then p1\<lparr>po_nonGuard := po_nonGuard p1 @ [addr], po_suc_lookup := po_suc_lookup p1 + 1\<rparr> else p1) }"

fun cosig_loop ::
    "('t, 'd, 'pt) as_env \<Rightarrow> 'pt coinbase_env \<Rightarrow> 128 word \<Rightarrow> 'pt PubKey list \<Rightarrow> ('t, 'd, 'pt) payout \<Rightarrow> ('t, 'd, 'pt) payout option" where
  "cosig_loop Y K amt [] p = Some p"
| "cosig_loop Y K amt (pk # pks) p =
     (if GUARD_MODE K \<and> po_isGuard p pk then cosig_loop Y K amt pks (p\<lparr>po_suc := po_suc p + 1\<rparr>)
      else do {
        (ok, p1) \<leftarrow> pay_one Y amt (GetAddressFromPublicKey (sc_ossl (as_sc Y)) pk) p;
        cosig_loop Y K amt pks (if ok then p1\<lparr>po_suc := po_suc p1 + 1\<rparr> else p1) })"

fun reward_loop ::
    "('t, 'd, 'pt) as_env \<Rightarrow> 'pt coinbase_env \<Rightarrow> reward_plan \<Rightarrow> (int \<times> 'pt PubKey list) list
     \<Rightarrow> ('t, 'd, 'pt) payout \<Rightarrow> ('t, 'd, 'pt) payout option" where
  "reward_loop Y K pl [] p = Some p"
| "reward_loop Y K pl ((shardId, rewardees) # ss) p = do {
     p1 \<leftarrow> (if shardId = LOOKUP_REWARD then lookup_loop Y (p_each_lookup pl) rewardees p
             else cosig_loop Y K (p_each pl) rewardees p);
     reward_loop Y K pl ss p1 }"

definition balance_left :: "reward_plan \<Rightarrow> 128 word \<Rightarrow> 128 word \<Rightarrow> 128 word" where
  "balance_left pl suc_counter suc_lookup_counter =
     p_total pl - suc_counter * p_each pl - suc_lookup_counter * p_each_lookup pl - p_node_count pl * p_base_each pl"

definition charArrTo16Bits :: "bytes \<Rightarrow> nat" where
  "charArrTo16Bits a = (if a = [] then 0 else unat (a ! (length a - 2)) * 256 + unat (a ! (length a - 1)))"

text \<open>The lists of rewardees in the order of the maps.\<close>

definition in_order :: "'pt rewardees \<Rightarrow> (int \<times> 'pt PubKey list) list" where
  "in_order m = concat (map (\<lambda>(e, s). sort_key fst s) (sort_key fst m))"

definition StoreCoinbaseInDiagnosticDB ::
    "'d leveldb \<Rightarrow> 'pt coinbase_env \<Rightarrow> bytes option \<Rightarrow> 'd BlockStorage \<Rightarrow> 'd BlockStorage option" where
  "StoreCoinbaseInDiagnosticDB D K entry B = do {
     (canPutNewEntry, B1) \<leftarrow>
       (if 0 < MAX_ENTRIES_FOR_DIAGNOSTIC_DATA K
           \<and> MAX_ENTRIES_FOR_DIAGNOSTIC_DATA K \<le> GetDiagnosticDataCoinbaseCount B
           \<and> MAX_ENTRIES_FOR_DIAGNOSTIC_DATA K \<le> lastDSBlockNum K
        then DeleteDiagnosticDataCoinbase D (lastDSBlockNum K - MAX_ENTRIES_FOR_DIAGNOSTIC_DATA K) B
        else Some (True, B));
     (if canPutNewEntry then map_option snd (PutDiagnosticDataCoinbase D (lastDSBlockNum K) entry B1) else Some B1) }"

text \<open>All payments of an epoch, with the lucky draw at the end.\<close>

definition pay_rewards ::
    "('t, 'd, 'pt) as_env \<Rightarrow> 'pt coinbase_env \<Rightarrow> reward_plan \<Rightarrow> 'pt rewardees \<Rightarrow> ('t, 'd) AccountStore \<Rightarrow> ('t, 'd) AccountStore option" where
  "pay_rewards Y K pl m A = do {
     let p0 = \<lparr>po_store = A, po_nonGuard = [], po_isGuard = (\<lambda>_. False), po_suc = 0, po_suc_lookup = 0\<rparr>;
     p1 \<leftarrow> base_loop Y K (IsNodeInDSGuardList K) (p_base_each pl) (m_DSCommittee K) p0;
     p2 \<leftarrow> base_loop Y K (IsNodeInShardGuardList K) (p_base_each pl) (concat (m_shards K)) p1;
     p3 \<leftarrow> reward_loop Y K pl (in_order m) p2;
     (if po_nonGuard p3 = [] then Some (po_store p3)
      else map_option (\<lambda>r. po_store (snd r))
             (pay_one Y (balance_left pl (po_suc p3) (po_suc_lookup p3))
               (po_nonGuard p3 ! (charArrTo16Bits (lastTxBlockHash K) mod length (po_nonGuard p3))) p3)) }"

definition add_lookups :: "'pt coinbase_env \<Rightarrow> 'pt rewardees \<Rightarrow> 'pt rewardees" where
  "add_lookups K m = fold (push_rewardee (m_currentEpochNum K) LOOKUP_REWARD) (GetLookupNodesStatic K) m"

text \<open>\<open>entry\<close> is the serialised record for the diagnostic database.\<close>

definition InitCoinbase ::
    "('t, 'd, 'pt) as_env \<Rightarrow> 'pt coinbase_env \<Rightarrow> bytes option \<Rightarrow> 'pt CoinbaseState \<Rightarrow> ('t, 'd) AccountStore \<Rightarrow> 'd BlockStorage
     \<Rightarrow> ('pt CoinbaseState \<times> ('t, 'd) AccountStore \<times> 'd BlockStorage) option" where
  "InitCoinbase Y K entry c A B =
     (if LOOKUP_NODE_MODE K then Some (c, A, B)
      else let m = add_lookups K (m_coinbaseRewardees c);
               c1 = c\<lparr>m_coinbaseRewardees := m\<rparr>
           in case plan_rewards (SafeMath128 (as_ledger Y)) K (m_totalTxnFees c) m of
                None \<Rightarrow> Some (c1, A, B)
              | Some pl \<Rightarrow> do {
                  A1 \<leftarrow> pay_rewards Y K pl m (snd (IncreaseBalanceTemp Y coinbaseAddress (m_totalTxnFees c) A));
                  B1 \<leftarrow> StoreCoinbaseInDiagnosticDB (sc_ldb (as_sc Y)) K entry B;
                  Some (c1, A1, B1) })"

section \<open>The rewards stay within the budget\<close>

lemma usafe_results:
  fixes M :: "128 word usafe"
  assumes "usafe_ok M"
  shows "USafe_add M a b r = (True, x) \<Longrightarrow> unat a + unat b < 2 ^ 128 \<and> x = a + b"
    "USafe_mul M a b r = (True, x) \<Longrightarrow> unat a * unat b < 2 ^ 128 \<and> x = a * b"
    "USafe_div M a b r = (True, x) \<Longrightarrow> b \<noteq> 0 \<and> x = a div b"
  using usafe_add [OF assms, of a b r] usafe_add_fail [OF assms, of a b r] usafe_mul [OF assms, of a b r] usafe_mul_fail [OF assms, of a b r]
    usafe_div [OF assms, of b a r] usafe_div_fail [OF assms, of a r]
  by (auto, metis fst_conv)

text \<open>The parts of a plan as natural numbers.\<close>

definition base_part :: "'pt coinbase_env \<Rightarrow> nat \<Rightarrow> nat" where
  "base_part K t = t * unat (BASE_REWARD_IN_PERCENT K) div 100"

definition lookup_part :: "'pt coinbase_env \<Rightarrow> nat \<Rightarrow> nat" where
  "lookup_part K t = t * unat (LOOKUP_REWARD_IN_PERCENT K) div 100"

definition percents_ok :: "'pt coinbase_env \<Rightarrow> bool" where
  "percents_ok K \<longleftrightarrow> unat (BASE_REWARD_IN_PERCENT K) + unat (LOOKUP_REWARD_IN_PERCENT K) \<le> 100"

lemma parts_fit: "percents_ok K \<Longrightarrow> base_part K t + lookup_part K t \<le> t"
proof -
  assume "percents_ok K"
  then have "t * unat (BASE_REWARD_IN_PERCENT K) + t * unat (LOOKUP_REWARD_IN_PERCENT K) \<le> t * 100"
    unfolding percents_ok_def distrib_left [symmetric] by (intro mult_le_mono2)
  then show ?thesis unfolding base_part_def lookup_part_def by linarith
qed

lemma percent_word:
  fixes t :: "128 word" and q :: "32 word"
  assumes "unat t * unat q < 2 ^ 128"
  shows "unat (t * ucast q div 100) = unat t * unat q div 100"
  using assms unat_mul_fits [of t "ucast q :: 128 word"] by (simp add: unat_ucast_up unat_div)

definition counts_fit :: "'pt coinbase_env \<Rightarrow> 'pt rewardees \<Rightarrow> bool" where
  "counts_fit K m \<longleftrightarrow> sig_count m < 2 ^ 128 \<and> lookup_count m < 2 ^ 32 \<and> node_count K < 2 ^ 128"

lemma unat_of_nat128: "n < 2 ^ 128 \<Longrightarrow> unat (of_nat n :: 128 word) = n"
  by (simp add: unsigned_of_nat take_bit_nat_eq_self)

lemma plan_parts:
  assumes M: "usafe_ok M" and cnt: "counts_fit K m" and pct: "percents_ok K" and plan: "plan_rewards M K fees m = Some pl"
  shows "unat (p_total pl) = unat (COINBASE_REWARD_PER_DS K) + unat fees"
    "unat (p_base_each pl) = base_part K (unat (p_total pl)) div node_count K"
    "unat (p_each_lookup pl) = lookup_part K (unat (p_total pl)) div lookup_count m"
    "unat (p_each pl) = (unat (p_total pl) - lookup_part K (unat (p_total pl)) - base_part K (unat (p_total pl))) div sig_count m"
    "p_node_count pl = of_nat (node_count K)"
proof -
  let ?B = "ucast (BASE_REWARD_IN_PERCENT K) :: 128 word" and ?L = "ucast (LOOKUP_REWARD_IN_PERCENT K) :: 128 word"
  obtain t b100 be l100 re le where
    c: "USafe_add M (COINBASE_REWARD_PER_DS K) fees 0 = (True, t)" "USafe_mul M t ?B 0 = (True, b100)"
      "USafe_div M (b100 div 100) (of_nat (node_count K)) 0 = (True, be)" "USafe_mul M t ?L 0 = (True, l100)"
      "USafe_div M (t - l100 div 100 - b100 div 100) (of_nat (sig_count m)) 0 = (True, re)"
      "USafe_div M (l100 div 100) (of_nat (u32 (lookup_count m))) 0 = (True, le)"
    and pl: "pl = \<lparr>p_total = t, p_base_each = be, p_each = re, p_each_lookup = le, p_node_count = of_nat (node_count K)\<rparr>"
    using plan by (auto simp: plan_rewards_def Let_def split: prod.splits bool.splits)
  note r = usafe_results [OF M]
  have t: "unat t = unat (COINBASE_REWARD_PER_DS K) + unat fees"
    using r(1) [OF c(1)] unat_add_fits [of "COINBASE_REWARD_PER_DS K" fees] by simp
  have fit: "unat t * unat (BASE_REWARD_IN_PERCENT K) < 2 ^ 128" "unat t * unat (LOOKUP_REWARD_IN_PERCENT K) < 2 ^ 128"
    using r(2) [OF c(2)] r(2) [OF c(4)] by (simp_all add: unat_ucast_up)
  have b: "unat (b100 div 100) = base_part K (unat t)" using percent_word [OF fit(1)] r(2) [OF c(2)] by (simp add: base_part_def)
  have l: "unat (l100 div 100) = lookup_part K (unat t)" using percent_word [OF fit(2)] r(2) [OF c(4)] by (simp add: lookup_part_def)
  have pf: "base_part K (unat t) + lookup_part K (unat t) \<le> unat t" by (rule parts_fit [OF pct])
  have n: "unat (t - l100 div 100 - b100 div 100) = unat t - lookup_part K (unat t) - base_part K (unat t)"
    using pf b l unat_sub_fits [of "l100 div 100" t] unat_sub_fits [of "b100 div 100" "t - l100 div 100"] by simp
  have u: "unat (of_nat (node_count K) :: 128 word) = node_count K" "unat (of_nat (sig_count m) :: 128 word) = sig_count m"
    "unat (of_nat (u32 (lookup_count m)) :: 128 word) = lookup_count m"
    using cnt by (auto simp: counts_fit_def u32_def intro!: unat_of_nat128)
  show "unat (p_total pl) = unat (COINBASE_REWARD_PER_DS K) + unat fees" using t pl by simp
  show "unat (p_base_each pl) = base_part K (unat (p_total pl)) div node_count K"
    using r(3) [OF c(3)] b u pl by (simp add: unat_div)
  show "unat (p_each_lookup pl) = lookup_part K (unat (p_total pl)) div lookup_count m"
    using r(3) [OF c(6)] l u pl by (simp add: unat_div)
  show "unat (p_each pl) = (unat (p_total pl) - lookup_part K (unat (p_total pl)) - base_part K (unat (p_total pl))) div sig_count m"
    using r(3) [OF c(5)] n u pl by (simp add: unat_div)
  show "p_node_count pl = of_nat (node_count K)" using pl by simp
qed

lemma plan_budget:
  assumes "usafe_ok M" "counts_fit K m" "percents_ok K" "plan_rewards M K fees m = Some pl"
    and "n1 \<le> sig_count m" "n2 \<le> lookup_count m"
  shows "n1 * unat (p_each pl) + n2 * unat (p_each_lookup pl) + node_count K * unat (p_base_each pl) \<le> unat (p_total pl)"
proof -
  let ?t = "unat (p_total pl)"
  note p = plan_parts [OF assms(1-4)]
  have "n1 * unat (p_each pl) \<le> sig_count m * unat (p_each pl)" using assms(5) by (rule mult_le_mono1)
  also have "\<dots> \<le> ?t - lookup_part K ?t - base_part K ?t" unfolding p(4) by (rule times_div_less_eq_dividend)
  finally have 1: "n1 * unat (p_each pl) \<le> ?t - lookup_part K ?t - base_part K ?t" .
  have "n2 * unat (p_each_lookup pl) \<le> lookup_count m * unat (p_each_lookup pl)" using assms(6) by (rule mult_le_mono1)
  also have "\<dots> \<le> lookup_part K ?t" unfolding p(3) by (rule times_div_less_eq_dividend)
  finally have 2: "n2 * unat (p_each_lookup pl) \<le> lookup_part K ?t" .
  have 3: "node_count K * unat (p_base_each pl) \<le> base_part K ?t" unfolding p(2) by (rule times_div_less_eq_dividend)
  show ?thesis using 1 2 3 parts_fit [OF assms(3), of ?t] by linarith
qed

text \<open>What is left is the exact difference: it does not wrap.\<close>

lemma balance_left_exact:
  assumes "usafe_ok M" "counts_fit K m" "percents_ok K" "plan_rewards M K fees m = Some pl"
    and "n1 \<le> sig_count m" "n2 \<le> lookup_count m"
  shows "unat (balance_left pl (of_nat n1) (of_nat n2)) + n1 * unat (p_each pl) + n2 * unat (p_each_lookup pl)
    + node_count K * unat (p_base_each pl) = unat (p_total pl)"
proof -
  note b = plan_budget [OF assms]
  have tb: "unat (p_total pl) < 2 ^ 128" using unat_bound [of "p_total pl"] by simp
  have u: "unat (of_nat n1 :: 128 word) = n1" "unat (of_nat n2 :: 128 word) = n2" "unat (of_nat (node_count K) :: 128 word) = node_count K"
    using assms(2,5,6) by (auto simp: counts_fit_def intro!: unat_of_nat128)
  have f: "unat (of_nat n1 * p_each pl) = n1 * unat (p_each pl)" "unat (of_nat n2 * p_each_lookup pl) = n2 * unat (p_each_lookup pl)"
    "unat (of_nat (node_count K) * p_base_each pl) = node_count K * unat (p_base_each pl)"
    using b tb u unat_mul_fits [of "of_nat n1" "p_each pl"] unat_mul_fits [of "of_nat n2" "p_each_lookup pl"]
      unat_mul_fits [of "of_nat (node_count K)" "p_base_each pl"] by simp_all
  let ?x = "p_total pl - of_nat n1 * p_each pl"
  have x: "unat ?x = unat (p_total pl) - n1 * unat (p_each pl)" using b f(1) by (simp add: unat_sub_fits)
  let ?y = "?x - of_nat n2 * p_each_lookup pl"
  have y: "unat ?y = unat (p_total pl) - n1 * unat (p_each pl) - n2 * unat (p_each_lookup pl)"
    using b f(2) x by (simp add: unat_sub_fits)
  have "unat (?y - of_nat (node_count K) * p_base_each pl)
      = unat (p_total pl) - n1 * unat (p_each pl) - n2 * unat (p_each_lookup pl) - node_count K * unat (p_base_each pl)"
    using b f(3) y by (simp add: unat_sub_fits)
  then show ?thesis using b plan_parts(5) [OF assms(1-4)] by (simp add: balance_left_def)
qed

text \<open>What a sequence of payments from the coinbase account does to the temporary ledger: it costs that
  account at most \<open>c\<close> and changes neither the total nor a nonce nor the permanent ledger.\<close>

definition pays :: "('t, 'd, 'pt) as_env \<Rightarrow> ('t, 'd) AccountStore \<Rightarrow> ('t, 'd) AccountStore \<Rightarrow> nat \<Rightarrow> bool" where
  "pays Y A A' c \<longleftrightarrow> total_balance (temp_accounts Y A') = total_balance (temp_accounts Y A) \<and> perm_accounts Y A' = perm_accounts Y A
     \<and> (\<forall>a. nonce_of (temp_accounts Y A') a = nonce_of (temp_accounts Y A) a)
     \<and> bal (temp_accounts Y A) coinbaseAddress \<le> bal (temp_accounts Y A') coinbaseAddress + c"

lemma pays_refl: "pays Y A A 0"
  by (simp add: pays_def)

lemma pays_trans: "pays Y A B c \<Longrightarrow> pays Y B C d \<Longrightarrow> pays Y A C (c + d)"
  unfolding pays_def by (intro conjI; simp?; linarith)

lemma pays_mono: "pays Y A B c \<Longrightarrow> c \<le> d \<Longrightarrow> pays Y A B d"
  by (simp add: pays_def)

lemma pays_supply: "pays Y A B c \<Longrightarrow> supply_fits (temp_accounts Y A) \<Longrightarrow> supply_fits (temp_accounts Y B)"
  by (simp add: pays_def supply_fits_def)

lemma pay_one_pays:
  assumes "ledger_env_ok (as_ledger Y)" "supply_fits (temp_accounts Y (po_store p))" "pay_one Y amt a p = Some (ok, p')"
  shows "pays Y (po_store p) (po_store p') (if ok then unat amt else 0)" "po_suc p' = po_suc p" "po_suc_lookup p' = po_suc_lookup p"
proof -
  obtain A where u: "UpdateCoinbaseTemp Y a coinbaseAddress amt (po_store p) = Some (ok, A)" "p' = p\<lparr>po_store := A\<rparr>"
    using assms(3) by (auto simp: pay_one_def)
  show "pays Y (po_store p) (po_store p') (if ok then unat amt else 0)"
    using UpdateCoinbaseTemp_effect [OF assms(1,2) u(1)] u(2) by (simp add: pays_def)
  show "po_suc p' = po_suc p" "po_suc_lookup p' = po_suc_lookup p" using u(2) by simp_all
qed

lemma base_loop_pays:
  assumes "ledger_env_ok (as_ledger Y)"
  shows "base_loop Y K g amt pks p = Some p' \<Longrightarrow> supply_fits (temp_accounts Y (po_store p))
    \<Longrightarrow> pays Y (po_store p) (po_store p') (length pks * unat amt) \<and> po_suc p' = po_suc p \<and> po_suc_lookup p' = po_suc_lookup p"
proof (induction pks arbitrary: p)
  case (Cons pk pks)
  let ?p1 = "if GUARD_MODE K then p\<lparr>po_isGuard := (po_isGuard p)(pk := g pk)\<rparr> else p"
  have 1: "po_store ?p1 = po_store p" "po_suc ?p1 = po_suc p" "po_suc_lookup ?p1 = po_suc_lookup p" by simp_all
  show ?case
  proof (cases "GUARD_MODE K \<and> g pk")
    case True
    then have "base_loop Y K g amt pks ?p1 = Some p'" using Cons.prems(1) by (simp add: Let_def)
    note i = Cons.IH [OF this, unfolded 1, OF Cons.prems(2)]
    have "pays Y (po_store p) (po_store p') (length (pk # pks) * unat amt)" by (rule pays_mono [OF conjunct1 [OF i]]) simp
    then show ?thesis using i by blast
  next
    case False
    let ?a = "GetAddressFromPublicKey (sc_ossl (as_sc Y)) pk"
    let ?q = "?p1\<lparr>po_nonGuard := po_nonGuard ?p1 @ [?a]\<rparr>"
    obtain ok p2 where o: "pay_one Y amt ?a ?q = Some (ok, p2)" "base_loop Y K g amt pks p2 = Some p'"
      using Cons.prems(1) False by (auto simp: Let_def split: bind_splits)
    have q: "po_store ?q = po_store p" "po_suc ?q = po_suc p" "po_suc_lookup ?q = po_suc_lookup p" by simp_all
    have sup: "supply_fits (temp_accounts Y (po_store ?q))" using Cons.prems(2) q(1) by simp
    note s = pay_one_pays [OF assms sup o(1)]
    note i = Cons.IH [OF o(2) pays_supply [OF s(1) sup]]
    have "pays Y (po_store p) (po_store p') ((if ok then unat amt else 0) + length pks * unat amt)"
      using pays_trans [OF s(1) conjunct1 [OF i]] q(1) by simp
    then have "pays Y (po_store p) (po_store p') (length (pk # pks) * unat amt)" by (rule pays_mono) simp
    then show ?thesis using i s q by simp
  qed
qed (simp add: pays_refl)

lemma lookup_loop_pays:
  assumes "ledger_env_ok (as_ledger Y)"
  shows "lookup_loop Y amt pks p = Some p' \<Longrightarrow> supply_fits (temp_accounts Y (po_store p))
    \<Longrightarrow> \<exists>n\<le>length pks. pays Y (po_store p) (po_store p') (n * unat amt) \<and> po_suc p' = po_suc p
          \<and> po_suc_lookup p' = po_suc_lookup p + of_nat n"
proof (induction pks arbitrary: p)
  case (Cons pk pks)
  let ?a = "GetAddressFromPublicKey (sc_ossl (as_sc Y)) pk"
  obtain ok p1 where o: "pay_one Y amt ?a p = Some (ok, p1)"
    "lookup_loop Y amt pks (if ok then p1\<lparr>po_nonGuard := po_nonGuard p1 @ [?a], po_suc_lookup := po_suc_lookup p1 + 1\<rparr> else p1) = Some p'"
    using Cons.prems(1) by (auto simp: Let_def split: bind_splits)
  note s = pay_one_pays [OF assms Cons.prems(2) o(1)]
  let ?q = "if ok then p1\<lparr>po_nonGuard := po_nonGuard p1 @ [?a], po_suc_lookup := po_suc_lookup p1 + 1\<rparr> else p1"
  have q: "po_store ?q = po_store p1" "po_suc ?q = po_suc p1" "po_suc_lookup ?q = po_suc_lookup p1 + of_nat (if ok then 1 else 0)" by simp_all
  obtain n where n: "n \<le> length pks" "pays Y (po_store ?q) (po_store p') (n * unat amt)" "po_suc p' = po_suc ?q"
    "po_suc_lookup p' = po_suc_lookup ?q + of_nat n"
    using Cons.IH [OF o(2)] pays_supply [OF s(1) Cons.prems(2)] q(1) by metis
  have "pays Y (po_store p) (po_store p') ((if ok then unat amt else 0) + n * unat amt)" using pays_trans [OF s(1), of "po_store p'"] n(2) q(1) by simp
  then show ?case using n s q by (intro exI [of _ "n + (if ok then 1 else 0)"]) (auto simp: algebra_simps)
qed (simp add: pays_refl)

lemma cosig_loop_pays:
  assumes "ledger_env_ok (as_ledger Y)"
  shows "cosig_loop Y K amt pks p = Some p' \<Longrightarrow> supply_fits (temp_accounts Y (po_store p))
    \<Longrightarrow> \<exists>n\<le>length pks. pays Y (po_store p) (po_store p') (n * unat amt) \<and> po_suc p' = po_suc p + of_nat n
          \<and> po_suc_lookup p' = po_suc_lookup p"
proof (induction pks arbitrary: p)
  case (Cons pk pks)
  let ?a = "GetAddressFromPublicKey (sc_ossl (as_sc Y)) pk"
  obtain ok q where o: "pays Y (po_store p) (po_store q) (if ok then unat amt else 0)" "po_suc q = po_suc p + of_nat (if ok then 1 else 0)"
    "po_suc_lookup q = po_suc_lookup p" "cosig_loop Y K amt pks q = Some p'"
  proof (cases "GUARD_MODE K \<and> po_isGuard p pk")
    case True
    moreover have "pays Y (po_store p) (po_store p) (unat amt)" by (rule pays_mono [OF pays_refl]) simp
    ultimately show ?thesis using that [of "p\<lparr>po_suc := po_suc p + 1\<rparr>" True] Cons.prems(1) by simp
  next
    case False
    then obtain ok p1 where one: "pay_one Y amt ?a p = Some (ok, p1)" "cosig_loop Y K amt pks (if ok then p1\<lparr>po_suc := po_suc p1 + 1\<rparr> else p1) = Some p'"
      using Cons.prems(1) by (auto split: bind_splits)
    then show ?thesis using that [of "if ok then p1\<lparr>po_suc := po_suc p1 + 1\<rparr> else p1" ok] pay_one_pays [OF assms Cons.prems(2) one(1)]
      by (cases ok) simp_all
  qed
  obtain n where n: "n \<le> length pks" "pays Y (po_store q) (po_store p') (n * unat amt)" "po_suc p' = po_suc q + of_nat n"
    "po_suc_lookup p' = po_suc_lookup q"
    using Cons.IH [OF o(4) pays_supply [OF o(1) Cons.prems(2)]] by blast
  have "pays Y (po_store p) (po_store p') ((if ok then unat amt else 0) + n * unat amt)" by (rule pays_trans [OF o(1) n(2)])
  then show ?case using n o by (intro exI [of _ "n + (if ok then 1 else 0)"]) (auto simp: algebra_simps)
qed (simp add: pays_refl)

definition sigs_in :: "(int \<times> 'pt PubKey list) list \<Rightarrow> nat" where
  "sigs_in ss = sum_list (map (\<lambda>(i, ks). if i = LOOKUP_REWARD then 0 else length ks) ss)"

definition lookups_in :: "(int \<times> 'pt PubKey list) list \<Rightarrow> nat" where
  "lookups_in ss = sum_list (map (\<lambda>(i, ks). if i = LOOKUP_REWARD then length ks else 0) ss)"

lemma reward_loop_pays:
  assumes "ledger_env_ok (as_ledger Y)"
  shows "reward_loop Y K pl ss p = Some p' \<Longrightarrow> supply_fits (temp_accounts Y (po_store p))
    \<Longrightarrow> \<exists>n1 n2. n1 \<le> sigs_in ss \<and> n2 \<le> lookups_in ss
          \<and> pays Y (po_store p) (po_store p') (n1 * unat (p_each pl) + n2 * unat (p_each_lookup pl))
          \<and> po_suc p' = po_suc p + of_nat n1 \<and> po_suc_lookup p' = po_suc_lookup p + of_nat n2"
proof (induction ss arbitrary: p)
  case (Cons x ss)
  obtain i ks where x: "x = (i, ks)" by fastforce
  obtain p1 where p1: "(if i = LOOKUP_REWARD then lookup_loop Y (p_each_lookup pl) ks p else cosig_loop Y K (p_each pl) ks p) = Some p1"
    "reward_loop Y K pl ss p1 = Some p'"
    using Cons.prems(1) x by (auto split: bind_splits)
  obtain m1 m2 where m: "m1 \<le> sigs_in [x]" "m2 \<le> lookups_in [x]"
    "pays Y (po_store p) (po_store p1) (m1 * unat (p_each pl) + m2 * unat (p_each_lookup pl))"
    "po_suc p1 = po_suc p + of_nat m1" "po_suc_lookup p1 = po_suc_lookup p + of_nat m2"
  proof (cases "i = LOOKUP_REWARD")
    case True
    then obtain n where "n \<le> length ks" "pays Y (po_store p) (po_store p1) (n * unat (p_each_lookup pl))" "po_suc p1 = po_suc p"
      "po_suc_lookup p1 = po_suc_lookup p + of_nat n"
      using lookup_loop_pays [OF assms, of "p_each_lookup pl" ks p p1] p1(1) Cons.prems(2) by auto
    then show ?thesis using that [of 0 n] True x by (simp add: lookups_in_def sigs_in_def)
  next
    case False
    then obtain n where "n \<le> length ks" "pays Y (po_store p) (po_store p1) (n * unat (p_each pl))" "po_suc p1 = po_suc p + of_nat n"
      "po_suc_lookup p1 = po_suc_lookup p"
      using cosig_loop_pays [OF assms, of K "p_each pl" ks p p1] p1(1) Cons.prems(2) by auto
    then show ?thesis using that [of n 0] False x by (simp add: lookups_in_def sigs_in_def)
  qed
  obtain n1 n2 where n: "n1 \<le> sigs_in ss" "n2 \<le> lookups_in ss"
    "pays Y (po_store p1) (po_store p') (n1 * unat (p_each pl) + n2 * unat (p_each_lookup pl))"
    "po_suc p' = po_suc p1 + of_nat n1" "po_suc_lookup p' = po_suc_lookup p1 + of_nat n2"
    using Cons.IH [OF p1(2) pays_supply [OF m(3) Cons.prems(2)]] by blast
  have c: "sigs_in (x # ss) = sigs_in [x] + sigs_in ss" "lookups_in (x # ss) = lookups_in [x] + lookups_in ss"
    by (simp_all add: sigs_in_def lookups_in_def)
  show ?case using pays_trans [OF m(3) n(3)] m n c
    by (intro exI [of _ "m1 + n1"] exI [of _ "m2 + n2"]) (simp add: algebra_simps)
qed (use pays_refl in \<open>simp add: sigs_in_def lookups_in_def\<close>)

lemma sum_sort_key: "sum_list (map f (sort_key k xs)) = sum_list (map f xs)" for f :: "'a \<Rightarrow> nat"
  by (metis mset_map mset_sort sum_mset_sum_list)

lemma sum_map_concat: "sum_list (map f (concat xss)) = sum_list (map (\<lambda>xs. sum_list (map f xs)) xss)" for f :: "'a \<Rightarrow> nat"
  by (induction xss) simp_all

lemma in_order_counts: "sigs_in (in_order m) = sig_count m" "lookups_in (in_order m) = lookup_count m"
proof -
  have "sum_list (map f (in_order m)) = sum_list (map (\<lambda>(e, s). sum_list (map f s)) m)" for f :: "int \<times> 'a PubKey list \<Rightarrow> nat"
  proof -
    have "sum_list (map f (in_order m)) = sum_list (map (\<lambda>(e, s). sum_list (map f (sort_key fst s))) (sort_key fst m))"
      by (simp add: in_order_def sum_map_concat comp_def case_prod_beta')
    then show ?thesis by (simp add: sum_sort_key)
  qed
  then show "sigs_in (in_order m) = sig_count m" "lookups_in (in_order m) = lookup_count m"
    by (simp_all add: sigs_in_def sig_count_def lookups_in_def lookup_count_def)
qed

lemma pay_rewards_pays:
  assumes env: "ledger_env_ok (as_ledger Y)" and cnt: "counts_fit K m" "percents_ok K"
    and plan: "plan_rewards (SafeMath128 (as_ledger Y)) K fees m = Some pl"
    and sup: "supply_fits (temp_accounts Y A)" and run: "pay_rewards Y K pl m A = Some A'"
  shows "pays Y A A' (unat (p_total pl))"
proof -
  let ?p0 = "\<lparr>po_store = A, po_nonGuard = [], po_isGuard = (\<lambda>_. False), po_suc = 0, po_suc_lookup = 0\<rparr>"
  have M: "usafe_ok (SafeMath128 (as_ledger Y))" using env by (simp add: ledger_env_ok_def)
  obtain p1 p2 p3 where p: "base_loop Y K (IsNodeInDSGuardList K) (p_base_each pl) (m_DSCommittee K) ?p0 = Some p1"
    "base_loop Y K (IsNodeInShardGuardList K) (p_base_each pl) (concat (m_shards K)) p1 = Some p2"
    "reward_loop Y K pl (in_order m) p2 = Some p3"
    using run by (auto simp: pay_rewards_def Let_def split: bind_splits)
  have s0: "supply_fits (temp_accounts Y (po_store ?p0))" using sup by simp
  note b1 = base_loop_pays [OF env p(1) s0]
  note s1 = pays_supply [OF conjunct1 [OF b1] s0]
  note b2 = base_loop_pays [OF env p(2) s1]
  note s2 = pays_supply [OF conjunct1 [OF b2] s1]
  obtain n1 n2 where n: "n1 \<le> sig_count m" "n2 \<le> lookup_count m"
    "pays Y (po_store p2) (po_store p3) (n1 * unat (p_each pl) + n2 * unat (p_each_lookup pl))"
    "po_suc p3 = po_suc p2 + of_nat n1" "po_suc_lookup p3 = po_suc_lookup p2 + of_nat n2"
    using reward_loop_pays [OF env p(3) s2] unfolding in_order_counts by blast
  have suc: "po_suc p3 = of_nat n1" "po_suc_lookup p3 = of_nat n2" using n(4,5) b1 b2 by simp_all
  let ?left = "balance_left pl (of_nat n1) (of_nat n2)"
  have nodes: "length (m_DSCommittee K) * u + length (concat (m_shards K)) * u = node_count K * u" for u
    by (simp add: node_count_def length_concat add_mult_distrib)
  have 3: "pays Y A (po_store p3) (node_count K * unat (p_base_each pl) + (n1 * unat (p_each pl) + n2 * unat (p_each_lookup pl)))"
    using pays_trans [OF pays_trans [OF conjunct1 [OF b1] conjunct1 [OF b2]] n(3)] nodes by simp
  note left = balance_left_exact [OF M cnt plan n(1,2)]
  show ?thesis
  proof (cases "po_nonGuard p3 = []")
    case True
    then have "A' = po_store p3" using run p by (simp add: pay_rewards_def Let_def)
    then show ?thesis using pays_mono [OF 3] left by simp
  next
    case False
    then obtain a ok p4 where o: "pay_one Y ?left a p3 = Some (ok, p4)" "A' = po_store p4"
      using run p suc by (auto simp: pay_rewards_def Let_def)
    note f = pay_one_pays(1) [OF env pays_supply [OF 3 sup] o(1)]
    show ?thesis using pays_mono [OF pays_trans [OF 3 f]] left o(2) by simp
  qed
qed

text \<open>No payment ends in the error of \<open>TransferBalance\<close>: the loops run to their end.\<close>

lemma pay_one_returns:
  assumes "ledger_env_ok (as_ledger Y)" "supply_fits (temp_accounts Y (po_store p))"
  obtains ok p' where "pay_one Y amt a p = Some (ok, p')" "supply_fits (temp_accounts Y (po_store p'))"
proof -
  obtain ok A' where "UpdateCoinbaseTemp Y a coinbaseAddress amt (po_store p) = Some (ok, A')"
    using UpdateCoinbaseTemp_returns [OF assms] .
  then have o: "pay_one Y amt a p = Some (ok, p\<lparr>po_store := A'\<rparr>)" by (simp add: pay_one_def)
  show ?thesis using that o pays_supply [OF pay_one_pays(1) [OF assms o] assms(2)] by blast
qed

lemma base_loop_returns:
  assumes "ledger_env_ok (as_ledger Y)"
  shows "supply_fits (temp_accounts Y (po_store p)) \<Longrightarrow> \<exists>p'. base_loop Y K g amt pks p = Some p'"
proof (induction pks arbitrary: p)
  case (Cons pk pks)
  let ?p1 = "if GUARD_MODE K then p\<lparr>po_isGuard := (po_isGuard p)(pk := g pk)\<rparr> else p"
  let ?a = "GetAddressFromPublicKey (sc_ossl (as_sc Y)) pk"
  let ?q = "?p1\<lparr>po_nonGuard := po_nonGuard ?p1 @ [?a]\<rparr>"
  have "supply_fits (temp_accounts Y (po_store ?q))" "supply_fits (temp_accounts Y (po_store ?p1))" using Cons.prems by simp_all
  then obtain ok p2 where "pay_one Y amt ?a ?q = Some (ok, p2)" "supply_fits (temp_accounts Y (po_store p2))"
    "supply_fits (temp_accounts Y (po_store ?p1))"
    using pay_one_returns [OF assms] by metis
  then show ?case using Cons.IH [of p2] Cons.IH [of ?p1] by (auto simp: Let_def)
qed simp

lemma lookup_loop_returns:
  assumes "ledger_env_ok (as_ledger Y)"
  shows "supply_fits (temp_accounts Y (po_store p)) \<Longrightarrow> \<exists>p'. lookup_loop Y amt pks p = Some p'"
proof (induction pks arbitrary: p)
  case (Cons pk pks)
  let ?a = "GetAddressFromPublicKey (sc_ossl (as_sc Y)) pk"
  obtain ok p2 where p2: "pay_one Y amt ?a p = Some (ok, p2)" "supply_fits (temp_accounts Y (po_store p2))"
    using pay_one_returns [OF assms Cons.prems] .
  let ?q = "if ok then p2\<lparr>po_nonGuard := po_nonGuard p2 @ [?a], po_suc_lookup := po_suc_lookup p2 + 1\<rparr> else p2"
  have "supply_fits (temp_accounts Y (po_store ?q))" using p2(2) by simp
  then show ?case using Cons.IH [of ?q] p2(1) by (simp add: Let_def)
qed simp

lemma cosig_loop_returns:
  assumes "ledger_env_ok (as_ledger Y)"
  shows "supply_fits (temp_accounts Y (po_store p)) \<Longrightarrow> \<exists>p'. cosig_loop Y K amt pks p = Some p'"
proof (induction pks arbitrary: p)
  case (Cons pk pks)
  let ?a = "GetAddressFromPublicKey (sc_ossl (as_sc Y)) pk"
  obtain ok p2 where p2: "pay_one Y amt ?a p = Some (ok, p2)" "supply_fits (temp_accounts Y (po_store p2))"
    using pay_one_returns [OF assms Cons.prems] .
  have "supply_fits (temp_accounts Y (po_store (if ok then p2\<lparr>po_suc := po_suc p2 + 1\<rparr> else p2)))"
    "supply_fits (temp_accounts Y (po_store (p\<lparr>po_suc := po_suc p + 1\<rparr>)))" using p2(2) Cons.prems by simp_all
  then show ?case using Cons.IH p2(1) by simp
qed simp

lemma reward_loop_returns:
  assumes "ledger_env_ok (as_ledger Y)"
  shows "supply_fits (temp_accounts Y (po_store p)) \<Longrightarrow> \<exists>p'. reward_loop Y K pl ss p = Some p'"
proof (induction ss arbitrary: p)
  case (Cons x ss)
  obtain i ks where x: "x = (i, ks)" by fastforce
  obtain p1 where p1: "(if i = LOOKUP_REWARD then lookup_loop Y (p_each_lookup pl) ks p else cosig_loop Y K (p_each pl) ks p) = Some p1"
    using lookup_loop_returns [OF assms Cons.prems] cosig_loop_returns [OF assms Cons.prems] by metis
  have "supply_fits (temp_accounts Y (po_store p1))"
    using p1 lookup_loop_pays [OF assms _ Cons.prems] cosig_loop_pays [OF assms _ Cons.prems] Cons.prems pays_supply by (metis (no_types, lifting))
  then show ?case using Cons.IH [of p1] p1 x by (auto split: if_splits)
qed simp

lemma pay_rewards_returns:
  assumes "ledger_env_ok (as_ledger Y)" "supply_fits (temp_accounts Y A)"
  shows "\<exists>A'. pay_rewards Y K pl m A = Some A'"
proof -
  let ?p0 = "\<lparr>po_store = A, po_nonGuard = [], po_isGuard = (\<lambda>_. False), po_suc = 0, po_suc_lookup = 0\<rparr>"
  have s0: "supply_fits (temp_accounts Y (po_store ?p0))" using assms(2) by simp
  obtain p1 where p1: "base_loop Y K (IsNodeInDSGuardList K) (p_base_each pl) (m_DSCommittee K) ?p0 = Some p1"
    using base_loop_returns [OF assms(1) s0] by blast
  note s1 = pays_supply [OF conjunct1 [OF base_loop_pays [OF assms(1) p1 s0]] s0]
  obtain p2 where p2: "base_loop Y K (IsNodeInShardGuardList K) (p_base_each pl) (concat (m_shards K)) p1 = Some p2"
    using base_loop_returns [OF assms(1) s1] by blast
  note s2 = pays_supply [OF conjunct1 [OF base_loop_pays [OF assms(1) p2 s1]] s1]
  obtain p3 where p3: "reward_loop Y K pl (in_order m) p2 = Some p3" using reward_loop_returns [OF assms(1) s2] by blast
  have s3: "supply_fits (temp_accounts Y (po_store p3))" using reward_loop_pays [OF assms(1) p3 s2] pays_supply s2 by blast
  obtain ok p4 where "pay_one Y (balance_left pl (po_suc p3) (po_suc_lookup p3))
      (po_nonGuard p3 ! (charArrTo16Bits (lastTxBlockHash K) mod length (po_nonGuard p3))) p3 = Some (ok, p4)"
    using pay_one_returns [OF assms(1) s3] by metis
  then show ?thesis using p1 p2 p3 by (cases "po_nonGuard p3 = []") (simp_all add: pay_rewards_def Let_def)
qed

text \<open>C19: The rewards of a directory service epoch stay within the budget. Whatever the signatures, guards and
  failures of single payments: \<open>InitCoinbase\<close> returns, takes at most the fixed reward of the epoch from the
  coinbase account, the ledger grows by at most the transaction fees that were burnt before, no nonce
  changes and neither does the permanent ledger.\<close>

theorem coinbase_within_budget:
  assumes env: "ledger_env_ok (as_ledger Y)" and cnt: "counts_fit K (add_lookups K (m_coinbaseRewardees c))" "percents_ok K"
    and sup: "total_balance (temp_accounts Y A) + unat (m_totalTxnFees c) < 2 ^ 128"
    and diag: "StoreCoinbaseInDiagnosticDB (sc_ldb (as_sc Y)) K entry B \<noteq> None"
  shows "\<exists>c' A' B'. InitCoinbase Y K entry c A B = Some (c', A', B')
    \<and> bal (temp_accounts Y A) coinbaseAddress \<le> bal (temp_accounts Y A') coinbaseAddress + unat (COINBASE_REWARD_PER_DS K)
    \<and> total_balance (temp_accounts Y A') \<in> {total_balance (temp_accounts Y A), total_balance (temp_accounts Y A) + unat (m_totalTxnFees c)}
    \<and> (\<forall>a. nonce_of (temp_accounts Y A') a = nonce_of (temp_accounts Y A) a) \<and> perm_accounts Y A' = perm_accounts Y A"
proof (cases "LOOKUP_NODE_MODE K \<or> plan_rewards (SafeMath128 (as_ledger Y)) K (m_totalTxnFees c) (add_lookups K (m_coinbaseRewardees c)) = None")
  case True
  then show ?thesis by (auto simp: InitCoinbase_def Let_def)
next
  case False
  let ?m = "add_lookups K (m_coinbaseRewardees c)" and ?fees = "m_totalTxnFees c" and ?S = "m_accountStoreTemp A"
  let ?T = "this_vt (temp_vt Y)"
  obtain pl where pl: "plan_rewards (SafeMath128 (as_ledger Y)) K ?fees ?m = Some pl" using False by blast
  have room: "bal (temp_ledger Y (sc_store ?S)) coinbaseAddress + unat ?fees < 2 ^ 128"
    using bal_le_total [of "temp_accounts Y A" coinbaseAddress] sup unfolding temp_accounts_def by linarith
  obtain S1 where S1: "IncreaseBalance ?T (as_ledger Y) coinbaseAddress ?fees ?S = (True, S1)"
    "temp_ledger Y (sc_store S1) = credit (as_ledger Y) coinbaseAddress ?fees (temp_ledger Y (sc_store ?S))"
    using temp_store.this.IncreaseBalance_fits [OF env, of Y ?S coinbaseAddress ?fees] room unfolding temp_store.tv_def by metis
  let ?A1 = "A\<lparr>m_accountStoreTemp := S1\<rparr>"
  have A1: "snd (IncreaseBalanceTemp Y coinbaseAddress ?fees A) = ?A1" using S1(1) by (simp add: IncreaseBalanceTemp_def)
  have v1: "temp_accounts Y ?A1 = credit (as_ledger Y) coinbaseAddress ?fees (temp_accounts Y A)" using S1(2) by (simp add: temp_accounts_def)
  have r: "bal (temp_accounts Y A) coinbaseAddress + unat ?fees < 2 ^ 128" using room by (simp add: temp_accounts_def)
  have t1: "total_balance (temp_accounts Y ?A1) = total_balance (temp_accounts Y A) + unat ?fees"
    "bal (temp_accounts Y ?A1) coinbaseAddress = bal (temp_accounts Y A) coinbaseAddress + unat ?fees"
    unfolding v1 using total_credit [OF r] bal_credit [OF r] by simp_all
  have "same_parent Y (sc_store ?S) (sc_store S1)"
    using parent_frame.this.frame_IncreaseBalance [OF S1(1)] unfolding parent_frame.rel_def .
  then have pm: "perm_accounts Y ?A1 = perm_accounts Y A" by (rule same_parent_perm)
  have s1: "supply_fits (temp_accounts Y ?A1)" using t1(1) sup by (simp add: supply_fits_def)
  obtain A' where A': "pay_rewards Y K pl ?m ?A1 = Some A'" using pay_rewards_returns [OF env s1] by blast
  obtain B' where "StoreCoinbaseInDiagnosticDB (sc_ldb (as_sc Y)) K entry B = Some B'" using diag by blast
  then have run: "InitCoinbase Y K entry c A B = Some (c\<lparr>m_coinbaseRewardees := ?m\<rparr>, A', B')"
    using A' False pl A1 by (simp add: InitCoinbase_def Let_def)
  note pay = pay_rewards_pays [OF env cnt pl s1 A']
  have M: "usafe_ok (SafeMath128 (as_ledger Y))" using env by (simp add: ledger_env_ok_def)
  note tot = plan_parts(1) [OF M cnt pl]
  have "nonce_of (temp_accounts Y ?A1) a = nonce_of (temp_accounts Y A) a" for a unfolding v1 by simp
  then show ?thesis using pay tot t1 pm run unfolding pays_def by simp
qed

text \<open>A committee of one node with one signature and one lookup node, on a coinbase account with 1000.\<close>

definition toy_coinbase :: "int coinbase_env" where
  "toy_coinbase = \<lparr>LOOKUP_NODE_MODE = False, GUARD_MODE = False, COINBASE_REWARD_PER_DS = 100, BASE_REWARD_IN_PERCENT = 20,
     LOOKUP_REWARD_IN_PERCENT = 10, MAX_ENTRIES_FOR_DIAGNOSTIC_DATA = 5, IsNodeInDSGuardList = (\<lambda>_. False),
     IsNodeInShardGuardList = (\<lambda>_. False), GetLookupNodesStatic = [5], m_DSCommittee = [3], m_shards = [], m_currentEpochNum = 9,
     lastTxBlockHash = replicate 32 1, lastDSBlockNum = 2\<rparr>"

abbreviation toy_rewardees :: "int CoinbaseState" where
  "toy_rewardees \<equiv> \<lparr>m_coinbaseRewardees = [(8, [(-1, [3])])], m_mapNodeReputation = [(3, 1)], m_totalTxnFees = 5\<rparr>"

theorem coinbase_within_budget_witness:
  "\<exists>c' A' B'. InitCoinbase toy_ledger_env toy_coinbase None toy_rewardees (toy_store [(0, Account_new 1000 0 1)] []) fresh_storage = Some (c', A', B')
    \<and> plan_rewards exact_usafe toy_coinbase 5 (add_lookups toy_coinbase (m_coinbaseRewardees toy_rewardees)) \<noteq> None
    \<and> 900 \<le> bal (temp_accounts toy_ledger_env A') 0 \<and> total_balance (temp_accounts toy_ledger_env A') \<in> {1000, 1005}"
proof -
  let ?A = "toy_store [(0, Account_new 1000 0 1)] []"
  have v: "temp_accounts toy_ledger_env ?A = [0 \<mapsto> Account_new 1000 0 1]" by (auto simp: toy_views fun_eq_iff)
  have b: "bal (temp_accounts toy_ledger_env ?A) 0 = 1000" "total_balance (temp_accounts toy_ledger_env ?A) = 1000"
    unfolding v total_single by (simp_all add: bal_def Account_new_def)
  have m: "add_lookups toy_coinbase (m_coinbaseRewardees toy_rewardees) = [(8, [(-1, [3])]), (9, [(-2, [5])])]"
    by (simp add: add_lookups_def toy_coinbase_def push_rewardee_def shard_of_def LOOKUP_REWARD_def)
  have cnt: "counts_fit toy_coinbase (add_lookups toy_coinbase (m_coinbaseRewardees toy_rewardees))" "percents_ok toy_coinbase"
    unfolding m by (simp_all add: counts_fit_def sig_count_def lookup_count_def node_count_def percents_ok_def toy_coinbase_def LOOKUP_REWARD_def)
  have plan: "plan_rewards exact_usafe toy_coinbase 5 (add_lookups toy_coinbase (m_coinbaseRewardees toy_rewardees)) \<noteq> None"
    unfolding m by (simp add: plan_rewards_def exact_usafe_def toy_coinbase_def sig_count_def lookup_count_def node_count_def LOOKUP_REWARD_def u32_def Let_def)
  have sup: "total_balance (temp_accounts toy_ledger_env ?A) + unat (m_totalTxnFees toy_rewardees) < 2 ^ 128" unfolding b(2) by simp
  have diag: "StoreCoinbaseInDiagnosticDB (sc_ldb (as_sc toy_ledger_env)) toy_coinbase None fresh_storage \<noteq> None"
    by (simp add: StoreCoinbaseInDiagnosticDB_def toy_coinbase_def PutDiagnosticDataCoinbase_def)
  show ?thesis using coinbase_within_budget [OF toy_ledger_env_ok cnt sup diag] plan unfolding b coinbaseAddress_def
    by (auto simp: b toy_coinbase_def)
qed

section \<open>Signatures are recorded once\<close>

text \<open>The nodes a pair of bitmaps names, once for each bit, in the order of the shard.\<close>

fun signers :: "bool list \<Rightarrow> bool list \<Rightarrow> 'pt PubKey list \<Rightarrow> 'pt PubKey list" where
  "signers (x # b1) (y # b2) (pk # shard) = (if x then [pk] else []) @ (if y then [pk] else []) @ signers b1 b2 shard"
| "signers _ _ _ = []"

definition rewarded :: "nat \<Rightarrow> int \<Rightarrow> 'pt CoinbaseState \<Rightarrow> 'pt PubKey list" where
  "rewarded epochNum shard_id c =
     (case map_of (shard_of epochNum (m_coinbaseRewardees c)) shard_id of None \<Rightarrow> [] | Some ks \<Rightarrow> ks)"

lemma rewarded_signature:
  "rewarded e' i' (reward_signature e i pk c) = (if e' = e \<and> i' = i then rewarded e i c @ [pk] else rewarded e' i' c)"
  by (auto simp: rewarded_def reward_signature_def Let_def push_rewardee_def shard_of_def update_conv' split: option.splits)

lemma reputation_signature:
  "reputation c pk \<le> MAX_REPUTATION
    \<Longrightarrow> reputation (reward_signature e i pk' c) pk = min MAX_REPUTATION (reputation c pk + (if pk = pk' then 1 else 0))"
  by (auto simp: reputation_def reward_signature_def Let_def update_conv' split: option.splits)

lemma save_loop_records:
  "rewarded e' i' (save_loop e i b1 b2 shard c) = rewarded e' i' c @ (if e' = e \<and> i' = i then signers b1 b2 shard else [])"
  by (induction e i b1 b2 shard c rule: save_loop.induct) (auto simp: Let_def rewarded_signature)

lemma save_loop_reputation:
  "reputation c pk \<le> MAX_REPUTATION
    \<Longrightarrow> reputation (save_loop e i b1 b2 shard c) pk = min MAX_REPUTATION (reputation c pk + count_list (signers b1 b2 shard) pk)"
proof (induction e i b1 b2 shard c rule: save_loop.induct)
  case (1 e i x b1 y b2 pk' shard c)
  define c1 where "c1 = (if x then reward_signature e i pk' c else c)"
  define c2 where "c2 = (if y then reward_signature e i pk' c1 else c1)"
  have r1: "reputation c1 pk = min MAX_REPUTATION (reputation c pk + (if x \<and> pk = pk' then 1 else 0))"
    using "1.prems" by (simp add: c1_def reputation_signature)
  have r2: "reputation c2 pk = min MAX_REPUTATION (reputation c1 pk + (if y \<and> pk = pk' then 1 else 0))"
    using r1 by (simp add: c2_def reputation_signature)
  have "reputation (save_loop e i b1 b2 shard c2) pk = min MAX_REPUTATION (reputation c2 pk + count_list (signers b1 b2 shard) pk)"
    using "1.IH" [OF c1_def c2_def] r2 by simp
  then show ?case using r1 r2 "1.prems" by (auto simp: Let_def c1_def [symmetric] c2_def [symmetric] min_def)
qed auto

text \<open>C21: A signature earns its reward once. Saving the bitmaps of a shard for an epoch succeeds exactly when
  nothing is recorded for that shard and epoch and the bitmaps have the size of the shard; it records
  every node whose bit is set, once per bit, and nothing for other shards or epochs; reputations go up by
  the number of signatures and stop at the maximum. Once at least one signature was recorded, a second attempt for
  the same shard and epoch, whatever its bitmaps, is refused and changes nothing. The node is not a lookup node, and
  no reputation exceeds the maximum before.\<close>

theorem signatures_rewarded_once:
  assumes "\<not> LOOKUP_NODE_MODE K" "\<forall>pk. reputation c pk \<le> MAX_REPUTATION"
    and "SaveCoinbaseCore K b1 b2 shard i e c = (ok, c')"
  shows "(ok \<longleftrightarrow> map_of (shard_of e (m_coinbaseRewardees c)) i = None \<and> length b1 = length shard \<and> length b2 = length shard)
    \<and> (if ok then rewarded e i c' = signers b1 b2 shard \<and> (\<forall>e' i'. (e', i') \<noteq> (e, i) \<longrightarrow> rewarded e' i' c' = rewarded e' i' c)
          \<and> (\<forall>pk. reputation c' pk = min MAX_REPUTATION (reputation c pk + count_list (signers b1 b2 shard) pk))
          \<and> (signers b1 b2 shard \<noteq> [] \<longrightarrow> (\<forall>d1 d2 shard'. SaveCoinbaseCore K d1 d2 shard' i e c' = (False, c')))
       else c' = c)"
proof (cases "map_of (shard_of e (m_coinbaseRewardees c)) i = None \<and> length b1 = length shard \<and> length b2 = length shard")
  case True
  then have c': "ok" "c' = save_loop e i b1 b2 shard c" using assms(1,3) by (simp_all add: SaveCoinbaseCore_def)
  have "rewarded e i c = []" using True by (simp add: rewarded_def)
  then have r: "rewarded e' i' c' = (if e' = e \<and> i' = i then signers b1 b2 shard else rewarded e' i' c)" for e' i'
    unfolding c'(2) save_loop_records by auto
  have "SaveCoinbaseCore K d1 d2 shard' i e c' = (False, c')" if "signers b1 b2 shard \<noteq> []" for d1 d2 shard'
  proof -
    have "map_of (shard_of e (m_coinbaseRewardees c')) i \<noteq> None" using r [of e i] that by (auto simp: rewarded_def split: option.splits)
    then show ?thesis using assms(1) by (simp add: SaveCoinbaseCore_def)
  qed
  then show ?thesis using True c' r save_loop_reputation [of c] assms(2) by simp
next
  case False
  then have "\<not> ok \<and> c' = c" using assms(1,3) unfolding SaveCoinbaseCore_def by (auto split: if_splits)
  then show ?thesis using False by simp
qed

theorem signatures_rewarded_once_witness:
  "\<exists>c'. SaveCoinbaseCore toy_coinbase [True, False] [True, True] [3, 4] 0 8 toy_rewardees = (True, c')
    \<and> rewarded 8 0 c' = [3, 3, 4] \<and> rewarded 8 (-1) c' = [3] \<and> reputation c' 3 = 3
    \<and> SaveCoinbaseCore toy_coinbase [True] [True] [4] 0 8 c' = (False, c')"
proof -
  let ?c = "save_loop 8 0 [True, False] [True, True] [3, 4] toy_rewardees"
  have mode: "\<not> LOOKUP_NODE_MODE toy_coinbase" by (simp add: toy_coinbase_def)
  have rep: "\<forall>pk. reputation toy_rewardees pk \<le> MAX_REPUTATION" by (simp add: reputation_def MAX_REPUTATION_def)
  have run: "SaveCoinbaseCore toy_coinbase [True, False] [True, True] [3, 4] 0 8 toy_rewardees = (True, ?c)"
    by (simp add: SaveCoinbaseCore_def mode shard_of_def)
  have start: "reputation toy_rewardees 3 = 1" "rewarded 8 (-1) toy_rewardees = [3]" by (simp_all add: reputation_def rewarded_def shard_of_def)
  have "(rewarded 8 0 ?c = [3, 3, 4] \<and> (\<forall>e' i'. (e', i') \<noteq> (8, 0) \<longrightarrow> rewarded e' i' ?c = rewarded e' i' toy_rewardees)
      \<and> (\<forall>pk. reputation ?c pk = min MAX_REPUTATION (reputation toy_rewardees pk + count_list [3, 3, 4] pk))
      \<and> (\<forall>d1 d2 shard'. SaveCoinbaseCore toy_coinbase d1 d2 shard' 0 8 ?c = (False, ?c)))"
    using signatures_rewarded_once [OF mode rep run] by (simp del: save_loop.simps)
  then show ?thesis using run start by (intro exI [of _ ?c]) (simp add: MAX_REPUTATION_def del: save_loop.simps)
qed

end
