(* ===== verification/SWInfo.thy ===== *)
theory SWInfo
  imports ByteCodec
begin

text \<open>
  The software version a directory block announces, \<open>libUtils/SWInfo.cpp\<close>: ten numbers, their
  serialisation one after the other and the comparison of versions. The query of the latest release over the
  network is not modelled.
\<close>

record SWInfo =
  m_zilliqaMajorVersion :: "32 word"
  m_zilliqaMinorVersion :: "32 word"
  m_zilliqaFixVersion :: "32 word"
  m_zilliqaUpgradeDS :: "64 word"
  m_zilliqaCommit :: "32 word"
  m_scillaMajorVersion :: "32 word"
  m_scillaMinorVersion :: "32 word"
  m_scillaFixVersion :: "32 word"
  m_scillaUpgradeDS :: "64 word"
  m_scillaCommit :: "32 word"

definition SWInfo_default :: SWInfo where
  "SWInfo_default =
     \<lparr>m_zilliqaMajorVersion = 0, m_zilliqaMinorVersion = 0, m_zilliqaFixVersion = 0, m_zilliqaUpgradeDS = 0, m_zilliqaCommit = 0,
      m_scillaMajorVersion = 0, m_scillaMinorVersion = 0, m_scillaFixVersion = 0, m_scillaUpgradeDS = 0, m_scillaCommit = 0\<rparr>"

definition SWInfo_SIZE :: nat where "SWInfo_SIZE = 48"

text \<open>The numbers with the sizes of their fields, in the order in which they are written.\<close>

definition SWInfo_fields :: "SWInfo \<Rightarrow> (nat \<times> nat) list" where
  "SWInfo_fields s =
     [(4, unat (m_zilliqaMajorVersion s)), (4, unat (m_zilliqaMinorVersion s)), (4, unat (m_zilliqaFixVersion s)),
      (8, unat (m_zilliqaUpgradeDS s)), (4, unat (m_zilliqaCommit s)),
      (4, unat (m_scillaMajorVersion s)), (4, unat (m_scillaMinorVersion s)), (4, unat (m_scillaFixVersion s)),
      (8, unat (m_scillaUpgradeDS s)), (4, unat (m_scillaCommit s))]"

fun write_numbers :: "(nat \<times> nat) list \<Rightarrow> nat \<Rightarrow> bytes \<Rightarrow> bytes option" where
  "write_numbers [] curOffset dst = Some dst"
| "write_numbers ((n, v) # ns) curOffset dst = do {
     dst1 \<leftarrow> Serializable_SetNumber dst curOffset v n;
     write_numbers ns (u32 (curOffset + n)) dst1 }"

definition SWInfo_Serialize :: "bytes \<Rightarrow> nat \<Rightarrow> SWInfo \<Rightarrow> (bytes \<times> nat) option" where
  "SWInfo_Serialize dst offset s = do {
     let dst1 = (if u32 (offset + SWInfo_SIZE) > length dst then vec_resize 0 (u32 (offset + SWInfo_SIZE)) dst else dst);
     dst2 \<leftarrow> write_numbers (SWInfo_fields s) offset dst1;
     Some (dst2, SWInfo_SIZE) }"

text \<open>The members are assigned one after the other; an exception of a read leaves the ones assigned so far.\<close>

definition SWInfo_setters :: "(nat \<times> (nat \<Rightarrow> SWInfo \<Rightarrow> SWInfo)) list" where
  "SWInfo_setters =
     [(4, \<lambda>v s. s\<lparr>m_zilliqaMajorVersion := of_nat v\<rparr>), (4, \<lambda>v s. s\<lparr>m_zilliqaMinorVersion := of_nat v\<rparr>),
      (4, \<lambda>v s. s\<lparr>m_zilliqaFixVersion := of_nat v\<rparr>), (8, \<lambda>v s. s\<lparr>m_zilliqaUpgradeDS := of_nat v\<rparr>),
      (4, \<lambda>v s. s\<lparr>m_zilliqaCommit := of_nat v\<rparr>), (4, \<lambda>v s. s\<lparr>m_scillaMajorVersion := of_nat v\<rparr>),
      (4, \<lambda>v s. s\<lparr>m_scillaMinorVersion := of_nat v\<rparr>), (4, \<lambda>v s. s\<lparr>m_scillaFixVersion := of_nat v\<rparr>),
      (8, \<lambda>v s. s\<lparr>m_scillaUpgradeDS := of_nat v\<rparr>), (4, \<lambda>v s. s\<lparr>m_scillaCommit := of_nat v\<rparr>)]"

fun read_numbers :: "(nat \<times> (nat \<Rightarrow> 's \<Rightarrow> 's)) list \<Rightarrow> bytes \<Rightarrow> nat \<Rightarrow> 's \<Rightarrow> 's \<times> int" where
  "read_numbers [] src curOffset s = (s, 0)"
| "read_numbers ((n, assign) # setters) src curOffset s =
     (case Serializable_GetNumber (8 * n) src curOffset n of
        None \<Rightarrow> (s, -1)
      | Some v \<Rightarrow> read_numbers setters src (u32 (curOffset + n)) (assign v s))"

definition SWInfo_Deserialize :: "SWInfo \<Rightarrow> bytes \<Rightarrow> nat \<Rightarrow> SWInfo \<times> int" where
  "SWInfo_Deserialize this src offset = read_numbers SWInfo_setters src offset this"

text \<open>The comparison of tuples is lexicographic.\<close>

fun tie_less :: "nat list \<Rightarrow> nat list \<Rightarrow> bool" where
  "tie_less (x # xs) (y # ys) \<longleftrightarrow> x < y \<or> (\<not> y < x \<and> tie_less xs ys)"
| "tie_less _ _ \<longleftrightarrow> False"

definition SWInfo_less :: "SWInfo \<Rightarrow> SWInfo \<Rightarrow> bool" where
  "SWInfo_less l r = tie_less (map snd (SWInfo_fields l)) (map snd (SWInfo_fields r))"

definition SWInfo_greater :: "SWInfo \<Rightarrow> SWInfo \<Rightarrow> bool" where
  "SWInfo_greater l r = SWInfo_less r l"

definition SWInfo_eq :: "SWInfo \<Rightarrow> SWInfo \<Rightarrow> bool" where
  "SWInfo_eq l r \<longleftrightarrow> map snd (SWInfo_fields l) = map snd (SWInfo_fields r)"

definition SWInfo_neq :: "SWInfo \<Rightarrow> SWInfo \<Rightarrow> bool" where
  "SWInfo_neq l r \<longleftrightarrow> \<not> SWInfo_eq l r"

section \<open>Comparison\<close>

lemma SWInfo_eq_iff: "SWInfo_eq l r \<longleftrightarrow> l = r"
  by (cases l; cases r) (simp add: SWInfo_eq_def SWInfo_fields_def word_unat_eq_iff)

lemma tie_less_total: "length xs = length ys \<Longrightarrow> tie_less xs ys \<or> xs = ys \<or> tie_less ys xs"
  by (induction xs ys rule: list_induct2) auto

lemma tie_less_irrefl: "\<not> tie_less xs xs"
  by (induction xs) auto

lemma tie_less_trans: "tie_less xs ys \<Longrightarrow> tie_less ys zs \<Longrightarrow> tie_less xs zs"
proof (induction xs ys arbitrary: zs rule: tie_less.induct)
  case (1 x xs y ys)
  then show ?case by (cases zs) auto
qed simp_all

text \<open>\<open>operator<\<close> is a strict total order of versions.\<close>

lemma SWInfo_order:
  "\<not> SWInfo_less l l"
  "SWInfo_less l m \<Longrightarrow> SWInfo_less m r \<Longrightarrow> SWInfo_less l r"
  "SWInfo_less l r \<or> SWInfo_eq l r \<or> SWInfo_greater l r"
proof -
  show "\<not> SWInfo_less l l" by (simp add: SWInfo_less_def tie_less_irrefl)
  show "SWInfo_less l m \<Longrightarrow> SWInfo_less m r \<Longrightarrow> SWInfo_less l r" unfolding SWInfo_less_def by (rule tie_less_trans)
  have "length (map snd (SWInfo_fields l)) = length (map snd (SWInfo_fields r))" by (simp add: SWInfo_fields_def)
  from tie_less_total [OF this] show "SWInfo_less l r \<or> SWInfo_eq l r \<or> SWInfo_greater l r"
    by (auto simp: SWInfo_less_def SWInfo_eq_def SWInfo_greater_def)
qed

section \<open>Serialisation\<close>

text \<open>Numbers written into a buffer that is large enough: the bytes of the fields one after the other.\<close>

definition field_bytes :: "(nat \<times> nat) list \<Rightarrow> bytes" where
  "field_bytes ns = concat (map (\<lambda>(n, v). be_bytes n v) ns)"

lemma field_bytes_Cons [simp]: "field_bytes ((n, v) # ns) = be_bytes n v @ field_bytes ns"
  by (simp add: field_bytes_def)

lemma write_numbers_inside:
  "curOffset + length (field_bytes ns) \<le> length dst \<Longrightarrow> length dst < 2 ^ 32
   \<Longrightarrow> write_numbers ns curOffset dst = Some (vec_write curOffset (field_bytes ns) dst)"
proof (induction ns arbitrary: curOffset dst)
  case Nil
  then show ?case by (simp add: vec_write_def field_bytes_def)
next
  case (Cons f ns)
  obtain n v where f: "f = (n, v)" by (cases f)
  have off: "curOffset + n + length (field_bytes ns) \<le> length dst" using Cons.prems f by simp
  have one: "Serializable_SetNumber dst curOffset v n = Some (vec_write curOffset (be_bytes n v) dst)"
    using off Cons.prems(2) by (simp add: Serializable_SetNumber_eq number_field_put_def max_def vec_resize_def)
  have "write_numbers ns (curOffset + n) (vec_write curOffset (be_bytes n v) dst)
    = Some (vec_write (curOffset + n) (field_bytes ns) (vec_write curOffset (be_bytes n v) dst))"
    using Cons.IH [of "curOffset + n" "vec_write curOffset (be_bytes n v) dst"] off Cons.prems(2) by simp
  moreover have "vec_write (curOffset + n) (field_bytes ns) (vec_write curOffset (be_bytes n v) dst)
    = vec_write curOffset (be_bytes n v @ field_bytes ns) dst"
    using off by (auto simp: vec_write_def min_def ac_simps)
  moreover have "u32 (curOffset + n) = curOffset + n" using off Cons.prems(2) by (simp add: u32_def)
  ultimately show ?case by (simp add: f one)
qed

definition fields_fit :: "(nat \<times> nat) list \<Rightarrow> bool" where
  "fields_fit ns \<longleftrightarrow> list_all (\<lambda>(n, v). v < 256 ^ n) ns"

lemma GetNumber_field:
  assumes "v < 256 ^ n" "length pre + n < 2 ^ 32"
  shows "Serializable_GetNumber (8 * n) (pre @ be_bytes n v @ post) (length pre) n = Some v"
proof -
  have "(256 :: nat) ^ n = 2 ^ (8 * n)" by (simp add: power_mult)
  then have "be_val (be_bytes n v) < 2 ^ (8 * n)" using assms(1) by (simp add: be_val_be_bytes)
  moreover have "subvec (length pre) n (pre @ be_bytes n v @ post) = be_bytes n v" by (simp add: subvec_def)
  ultimately show ?thesis
    using assms GetNumber_loop_val [of "length pre" n "pre @ be_bytes n v @ post" 0 "8 * n"]
    by (simp add: Serializable_GetNumber_def be_val_be_bytes)
qed

lemma read_numbers_fields:
  "map fst setters = map fst ns \<Longrightarrow> fields_fit ns \<Longrightarrow> length pre + length (field_bytes ns) < 2 ^ 32
   \<Longrightarrow> read_numbers setters (pre @ field_bytes ns @ post) (length pre) s
       = (fold (\<lambda>((n, assign), (m, v)). assign v) (zip setters ns) s, 0)"
proof (induction setters ns arbitrary: pre s rule: list_induct2')
  case (4 f setters g ns)
  obtain n assign v where fg: "f = (n, assign)" "g = (n, v)" using "4.prems"(1) by (cases f; cases g) auto
  have v: "v < 256 ^ n" "fields_fit ns" using "4.prems"(2) by (simp_all add: fields_fit_def fg)
  have bound: "length pre + n + length (field_bytes ns) < 2 ^ 32" using "4.prems"(3) by (simp add: fg)
  have "Serializable_GetNumber (8 * n) (pre @ be_bytes n v @ field_bytes ns @ post) (length pre) n = Some v"
    using GetNumber_field [OF v(1), of pre "field_bytes ns @ post"] bound by simp
  moreover have "u32 (length pre + n) = length (pre @ be_bytes n v)" using bound by (simp add: u32_def)
  ultimately show ?case
    using "4.IH" [of "pre @ be_bytes n v" "assign v s"] "4.prems"(1) v(2) bound by (simp add: fg)
qed simp_all

lemma SWInfo_fields_fit: "fields_fit (SWInfo_fields s)"
proof -
  have "unat (w :: 32 word) < 256 ^ 4" for w using unat_bound [of w] by simp
  moreover have "unat (w :: 64 word) < 256 ^ 8" for w using unat_bound [of w] by simp
  ultimately show ?thesis by (simp add: fields_fit_def SWInfo_fields_def)
qed

lemma SWInfo_bytes_length: "length (field_bytes (SWInfo_fields s)) = SWInfo_SIZE"
  by (simp add: field_bytes_def SWInfo_fields_def SWInfo_SIZE_def)

text \<open>Serialised to a fresh buffer, a version reads back.\<close>

lemma SWInfo_roundtrip:
  "SWInfo_Serialize [] 0 s = Some (field_bytes (SWInfo_fields s), SWInfo_SIZE)"
  "SWInfo_Deserialize old (field_bytes (SWInfo_fields s)) 0 = (s, 0)"
proof -
  show "SWInfo_Serialize [] 0 s = Some (field_bytes (SWInfo_fields s), SWInfo_SIZE)"
    using write_numbers_inside [of 0 "SWInfo_fields s" "replicate 48 0"] SWInfo_bytes_length [of s]
    by (simp add: SWInfo_Serialize_def SWInfo_SIZE_def u32_def vec_resize_def vec_write_def)
  have "map fst SWInfo_setters = map fst (SWInfo_fields s)" by (simp add: SWInfo_setters_def SWInfo_fields_def)
  from read_numbers_fields [OF this SWInfo_fields_fit, of "[]" "[]" "old"]
  have "SWInfo_Deserialize old (field_bytes (SWInfo_fields s)) 0 = (fold (\<lambda>((n, assign), (m, v)). assign v) (zip SWInfo_setters (SWInfo_fields s)) old, 0)"
    by (simp add: SWInfo_Deserialize_def SWInfo_bytes_length SWInfo_SIZE_def)
  also have "fold (\<lambda>((n, assign), (m, v)). assign v) (zip SWInfo_setters (SWInfo_fields s)) old = s"
    by (cases old; cases s) (simp add: SWInfo_setters_def SWInfo_fields_def)
  finally show "SWInfo_Deserialize old (field_bytes (SWInfo_fields s)) 0 = (s, 0)" .
qed

end
