(* ===== verification/Chain.thy ===== *)
theory Chain
  imports BlockStorage
begin

text \<open>
  The in-memory chains: the ring buffer of \<open>libData/DataStructures/CircularArray.h\<close>, the block chains of
  \<open>libData/BlockChainData/BlockChain.h\<close> and the chain of block links of \<open>BlockLinkChain.cpp\<close>. A chain keeps the
  last 50 entries in memory and reads older ones from the storage.

  \<open>BlockChain\<close> is a template over the block class: \<open>block_class\<close> holds what it uses of that class, the block
  number and the block its default constructor makes. A \<open>throw\<close> without an operand outside of a handler ends
  the program, even within the \<open>try\<close> of \<open>GetLastBlock\<close>; it is \<open>None\<close>.
\<close>

section \<open>CircularArray\<close>

record 'a CircularArray =
  m_array :: "'a list"
  m_capacity :: nat
  m_size :: nat
  m_index :: nat

text \<open>The constructor leaves \<open>m_index\<close> as it finds it in memory.\<close>

definition CircularArray_new :: "nat \<Rightarrow> 'a CircularArray" where
  "CircularArray_new memory = \<lparr>m_array = [], m_capacity = 0, m_size = 0, m_index = memory\<rparr>"

definition CircularArray_resize :: "'a \<Rightarrow> nat \<Rightarrow> 'a CircularArray \<Rightarrow> 'a CircularArray" where
  "CircularArray_resize T capacity c =
     c\<lparr>m_array := replicate capacity T, m_size := 0, m_index := 0, m_capacity := capacity\<rparr>"

definition CircularArray_at :: "'a CircularArray \<Rightarrow> nat \<Rightarrow> 'a option" where
  "CircularArray_at c index =
     (if m_array c = [] then None else vec_at (m_array c) (index mod m_capacity c))"

definition insert_new :: "nat \<Rightarrow> 'a \<Rightarrow> 'a CircularArray \<Rightarrow> 'a CircularArray option" where
  "insert_new index element c =
     (if m_array c = [] then None
      else do {
        let i = index mod m_capacity c;
        array \<leftarrow> vec_put (m_array c) i element;
        Some (c\<lparr>m_index := i, m_array := array, m_size := u64 (m_size c + 1)\<rparr>) })"

definition CircularArray_back :: "'a CircularArray \<Rightarrow> 'a option" where
  "CircularArray_back c = (if m_array c = [] then None else vec_at (m_array c) (m_index c))"

definition increase_size :: "nat \<Rightarrow> 'a CircularArray \<Rightarrow> 'a CircularArray" where
  "increase_size n c = c\<lparr>m_size := u64 (m_size c + n)\<rparr>"

section \<open>BlockChain\<close>

record 'b block_class =
  GetBlockNum :: "'b \<Rightarrow> nat"
  dummy_block :: 'b

definition INIT_BLOCK_NUMBER :: nat where "INIT_BLOCK_NUMBER = 2 ^ 64 - 1"

definition BLOCKCHAIN_SIZE :: nat where "BLOCKCHAIN_SIZE = 50"

definition block_class_ok :: "'b block_class \<Rightarrow> bool" where
  "block_class_ok T \<longleftrightarrow> GetBlockNum T (dummy_block T) = INIT_BLOCK_NUMBER \<and> (\<forall>b. GetBlockNum T b < 2 ^ 64)"

definition BlockChain_Reset :: "'b block_class \<Rightarrow> 'b CircularArray \<Rightarrow> 'b CircularArray" where
  "BlockChain_Reset T m_blocks = CircularArray_resize (dummy_block T) BLOCKCHAIN_SIZE m_blocks"

definition BlockChain_new :: "'b block_class \<Rightarrow> nat \<Rightarrow> 'b CircularArray" where
  "BlockChain_new T memory = BlockChain_Reset T (CircularArray_new memory)"

definition GetBlockCount :: "'b CircularArray \<Rightarrow> nat" where
  "GetBlockCount m_blocks = m_size m_blocks"

definition GetLastBlock :: "'b CircularArray \<Rightarrow> 'b option" where
  "GetLastBlock m_blocks = CircularArray_back m_blocks"

text \<open>\<open>GetBlockFromPersistentStorage\<close> of the derived classes; \<open>GetBlock\<close> is given the one of its class.\<close>

definition DSBlockChain_GetBlockFromPersistentStorage ::
    "'d leveldb \<Rightarrow> (bytes \<Rightarrow> 'b) \<Rightarrow> 'b block_class \<Rightarrow> 'd BlockStorage \<Rightarrow> nat \<Rightarrow> 'b option" where
  "DSBlockChain_GetBlockFromPersistentStorage D DSBlock T S blockNum = do {
     found \<leftarrow> GetDSBlock D DSBlock blockNum S;
     Some (case found of None \<Rightarrow> dummy_block T | Some block \<Rightarrow> block) }"

definition TxBlockChain_GetBlockFromPersistentStorage ::
    "'d leveldb \<Rightarrow> (bytes \<Rightarrow> 'b) \<Rightarrow> 'b block_class \<Rightarrow> 'd BlockStorage \<Rightarrow> nat \<Rightarrow> 'b option" where
  "TxBlockChain_GetBlockFromPersistentStorage D TxBlock T S blockNum = do {
     found \<leftarrow> GetTxBlock D TxBlock blockNum S;
     Some (case found of None \<Rightarrow> dummy_block T | Some block \<Rightarrow> block) }"

text \<open>The other two classes throw.\<close>

definition VCBlockChain_GetBlockFromPersistentStorage :: "nat \<Rightarrow> 'b option" where
  "VCBlockChain_GetBlockFromPersistentStorage blockNum = None"

definition FallbackBlockChain_GetBlockFromPersistentStorage :: "nat \<Rightarrow> 'b option" where
  "FallbackBlockChain_GetBlockFromPersistentStorage blockNum = None"

definition GetBlock :: "'b block_class \<Rightarrow> (nat \<Rightarrow> 'b option) \<Rightarrow> nat \<Rightarrow> 'b CircularArray \<Rightarrow> 'b option" where
  "GetBlock T GetBlockFromPersistentStorage blockNum m_blocks = do {
     too_high \<leftarrow> (if m_size m_blocks > 0
        then map_option (\<lambda>b. GetBlockNum T b < blockNum) (CircularArray_back m_blocks) else Some False);
     if too_high then Some (dummy_block T)
     else if u64 (blockNum + m_capacity m_blocks) < m_size m_blocks then GetBlockFromPersistentStorage blockNum
     else do {
       b \<leftarrow> CircularArray_at m_blocks blockNum;
       Some (if GetBlockNum T b \<noteq> blockNum then dummy_block T else b) } }"

definition AddBlock :: "'b block_class \<Rightarrow> 'b \<Rightarrow> 'b CircularArray \<Rightarrow> (int \<times> 'b CircularArray) option" where
  "AddBlock T block m_blocks = do {
     let blockNumOfNewBlock = GetBlockNum T block;
     existing \<leftarrow> CircularArray_at m_blocks blockNumOfNewBlock;
     if GetBlockNum T existing < blockNumOfNewBlock \<or> INIT_BLOCK_NUMBER = GetBlockNum T existing
     then do {
       blocks1 \<leftarrow> (if m_size m_blocks > 0 then do {
           last_block \<leftarrow> CircularArray_back m_blocks;
           let blockNumMissed = sub64 (sub64 blockNumOfNewBlock (GetBlockNum T last_block)) 1;
           Some (if blockNumMissed > 0 then increase_size blockNumMissed m_blocks else m_blocks) }
         else Some m_blocks);
       blocks2 \<leftarrow> insert_new blockNumOfNewBlock block blocks1;
       Some (1, blocks2) }
     else Some (-1, m_blocks) }"

section \<open>BlockLinkChain\<close>

record 'pt BlockLinkChain =
  m_blockLinkChain :: "BlockLink CircularArray"
  m_builtDsCommittee :: "'pt DequeOfNode"

definition BlockLinkChain_Reset :: "'pt BlockLinkChain \<Rightarrow> 'pt BlockLinkChain" where
  "BlockLinkChain_Reset c =
     c\<lparr>m_blockLinkChain := CircularArray_resize BlockLink_default BLOCKCHAIN_SIZE (m_blockLinkChain c)\<rparr>"

definition BlockLinkChain_new :: "nat \<Rightarrow> 'pt BlockLinkChain" where
  "BlockLinkChain_new memory =
     BlockLinkChain_Reset \<lparr>m_blockLinkChain = CircularArray_new memory, m_builtDsCommittee = []\<rparr>"

definition BlockLinkChain_GetFromPersistentStorage ::
    "'d leveldb \<Rightarrow> blocklink_protobuf \<Rightarrow> nat \<Rightarrow> 'd BlockStorage \<Rightarrow> nat \<Rightarrow> BlockLink option" where
  "BlockLinkChain_GetFromPersistentStorage D P BLOCKLINK_VERSION S index = do {
     found \<leftarrow> GetBlockLink D P BLOCKLINK_VERSION index S;
     Some (case found of None \<Rightarrow> BlockLink_default | Some blnk \<Rightarrow> blnk) }"

definition BlockLinkChain_GetBlockLink ::
    "'d leveldb \<Rightarrow> blocklink_protobuf \<Rightarrow> nat \<Rightarrow> nat \<Rightarrow> 'pt BlockLinkChain \<times> 'd BlockStorage \<Rightarrow> BlockLink option" where
  "BlockLinkChain_GetBlockLink D P BLOCKLINK_VERSION index cS =
     (let ring = m_blockLinkChain (fst cS)
      in if m_size ring \<le> index then Some BlockLink_default
         else if u64 (index + m_capacity ring) < m_size ring
         then BlockLinkChain_GetFromPersistentStorage D P BLOCKLINK_VERSION (snd cS) index
         else do {
           link \<leftarrow> CircularArray_at ring index;
           Some (if bl_index link \<noteq> index then BlockLink_default else link) })"

definition GetLatestIndex :: "'pt BlockLinkChain \<Rightarrow> nat option" where
  "GetLatestIndex c =
     (if m_size (m_blockLinkChain c) = 0 then Some 0
      else map_option bl_index (CircularArray_back (m_blockLinkChain c)))"

text \<open>The link is inserted in memory before it is serialised and stored; a failure of either leaves it
  there.\<close>

definition AddBlockLink ::
    "'d leveldb \<Rightarrow> blocklink_protobuf \<Rightarrow> nat \<Rightarrow> nat \<Rightarrow> nat \<Rightarrow> BlockType \<Rightarrow> bytes
     \<Rightarrow> 'pt BlockLinkChain \<times> 'd BlockStorage \<Rightarrow> (bool \<times> 'pt BlockLinkChain \<times> 'd BlockStorage) option" where
  "AddBlockLink D P BLOCKLINK_VERSION index dsindex blocktype blkhash cS = do {
     let c = fst cS;
     let ring = m_blockLinkChain c;
     latestIndex \<leftarrow> GetLatestIndex c;
     if m_size ring > 0 \<and> index \<le> latestIndex then Some (False, cS)
     else if m_size ring = 0 \<and> index > 0 then Some (False, cS)
     else do {
       let link = \<lparr>bl_version = BLOCKLINK_VERSION, bl_index = index, bl_dsindex = dsindex,
                   bl_blocktype = blocktype, bl_blockhash = blkhash\<rparr>;
       ring1 \<leftarrow> insert_new index link ring;
       let c1 = c\<lparr>m_blockLinkChain := ring1\<rparr>;
       (dst, ok) \<leftarrow> Messenger_SetBlockLink P [] 0 link;
       if \<not> ok then Some (False, c1, snd cS)
       else do {
         (stored, S1) \<leftarrow> PutBlockLink D index dst (snd cS);
         Some (stored, c1, S1) } } }"

definition SetBuiltDSComm :: "'pt DequeOfNode \<Rightarrow> 'pt BlockLinkChain \<Rightarrow> 'pt BlockLinkChain" where
  "SetBuiltDSComm dsComm c = c\<lparr>m_builtDsCommittee := dsComm\<rparr>"

definition GetBuiltDSComm :: "'pt BlockLinkChain \<Rightarrow> 'pt DequeOfNode" where
  "GetBuiltDSComm c = m_builtDsCommittee c"

definition GetLatestBlockLink :: "'pt BlockLinkChain \<Rightarrow> BlockLink option" where
  "GetLatestBlockLink c = CircularArray_back (m_blockLinkChain c)"

section \<open>The ring\<close>

text \<open>A ring that holds the elements \<open>xs\<close>, inserted in this order under their keys: every slot has the newest
  element whose key falls on it, or the default value.\<close>

definition newest :: "('a \<Rightarrow> nat) \<Rightarrow> nat \<Rightarrow> 'a \<Rightarrow> nat \<Rightarrow> 'a list \<Rightarrow> 'a" where
  "newest key n d i xs = last (d # filter (\<lambda>x. key x mod n = i) xs)"

definition ring_holds :: "('a \<Rightarrow> nat) \<Rightarrow> 'a \<Rightarrow> 'a CircularArray \<Rightarrow> 'a list \<Rightarrow> bool" where
  "ring_holds key d c xs \<longleftrightarrow>
     m_capacity c = BLOCKCHAIN_SIZE \<and> length (m_array c) = m_capacity c
     \<and> (\<forall>i < m_capacity c. m_array c ! i = newest key (m_capacity c) d i xs)
     \<and> (xs \<noteq> [] \<longrightarrow> m_index c = key (last xs) mod m_capacity c)"

lemma ring_holds_resize: "ring_holds key d (CircularArray_resize d BLOCKCHAIN_SIZE c) []"
  by (simp add: ring_holds_def CircularArray_resize_def newest_def)

lemma ring_at:
  assumes "ring_holds key d c xs"
  shows "CircularArray_at c n = Some (newest key BLOCKCHAIN_SIZE d (n mod BLOCKCHAIN_SIZE) xs)"
proof -
  have "n mod BLOCKCHAIN_SIZE < BLOCKCHAIN_SIZE" by (simp add: BLOCKCHAIN_SIZE_def)
  then show ?thesis using assms by (auto simp: ring_holds_def CircularArray_at_def vec_at_def)
qed

lemma newest_last: "xs \<noteq> [] \<Longrightarrow> newest key n d (key (last xs) mod n) xs = last xs"
  by (cases xs rule: rev_cases) (simp_all add: newest_def)

lemma ring_back:
  assumes "ring_holds key d c xs" "xs \<noteq> []"
  shows "CircularArray_back c = Some (last xs)"
proof -
  have "key (last xs) mod BLOCKCHAIN_SIZE < BLOCKCHAIN_SIZE" by (simp add: BLOCKCHAIN_SIZE_def)
  then show ?thesis using assms by (auto simp: ring_holds_def CircularArray_back_def vec_at_def newest_last)
qed

lemma ring_insert:
  assumes "ring_holds key d c xs"
  shows "\<exists>c'. insert_new (key x) x c = Some c' \<and> ring_holds key d c' (xs @ [x]) \<and> m_size c' = u64 (m_size c + 1)"
proof -
  have "key x mod BLOCKCHAIN_SIZE < BLOCKCHAIN_SIZE" by (simp add: BLOCKCHAIN_SIZE_def)
  then show ?thesis using assms
    by (auto simp: ring_holds_def insert_new_def vec_put_def Let_def nth_list_update newest_def)
qed

lemma ring_holds_size: "ring_holds key d (increase_size n c) xs = ring_holds key d c xs"
  by (simp add: ring_holds_def increase_size_def)

text \<open>With increasing keys an element in the window of the last 50 keys has not been overwritten.\<close>

lemma mod_window: "a mod n = b mod n \<Longrightarrow> a < b \<Longrightarrow> a + n \<le> (b :: nat)"
  by (metis add.commute add_leD2 dvd_imp_le le_add_diff_inverse less_imp_le_nat mod_eq_dvd_iff_nat nat_add_left_cancel_le
      zero_less_diff)

lemma newest_in_window:
  assumes "sorted_wrt (<) (map key xs)" "x \<in> set xs" "\<And>y. y \<in> set xs \<Longrightarrow> key y < key x + n"
  shows "newest key n d (key x mod n) xs = x"
proof -
  obtain as bs where xs: "xs = as @ x # bs" using assms(2) by (meson split_list)
  have "key y mod n \<noteq> key x mod n" if "y \<in> set bs" for y
  proof
    assume "key y mod n = key x mod n"
    moreover have "key x < key y" using assms(1) that by (simp add: xs sorted_wrt_append)
    ultimately have "key x + n \<le> key y" using mod_window [of "key x" n "key y"] by simp
    then show False using assms(3) [of y] that by (simp add: xs)
  qed
  then have "filter (\<lambda>y. key y mod n = key x mod n) bs = []" by (simp add: filter_empty_conv)
  then show ?thesis by (simp add: newest_def xs)
qed

lemma newest_cases: "newest key n d i xs = d \<or> newest key n d i xs \<in> set xs"
  using last_in_set [of "filter (\<lambda>x. key x mod n = i) xs"] by (auto simp: newest_def)

section \<open>Chains as logs\<close>

text \<open>
  What a chain promises: it represents the list of the elements added so far, and its lookups are a
  function of that list.
\<close>

primrec grows :: "('a list \<Rightarrow> 'a \<Rightarrow> bool) \<Rightarrow> 'a list \<Rightarrow> 'a list \<Rightarrow> bool" where
  "grows follows xs [] = True"
| "grows follows xs (y # ys) = (follows xs y \<and> grows follows (xs @ [y]) ys)"

lemma grows_snoc: "grows follows xs (ys @ [y]) \<longleftrightarrow> grows follows xs ys \<and> follows (xs @ ys) y"
  by (induction ys arbitrary: xs) auto

primrec add_each :: "('a \<Rightarrow> 's \<Rightarrow> 's option) \<Rightarrow> 'a list \<Rightarrow> 's \<Rightarrow> 's option" where
  "add_each add [] s = Some s"
| "add_each add (x # xs) s = Option.bind (add x s) (add_each add xs)"

locale log_chain =
  fixes rep :: "'s \<Rightarrow> 'a list \<Rightarrow> bool"
    and add :: "'a \<Rightarrow> 's \<Rightarrow> 's option"
    and find :: "nat \<Rightarrow> 's \<Rightarrow> 'a option"
    and follows :: "'a list \<Rightarrow> 'a \<Rightarrow> bool"
    and entry :: "'a list \<Rightarrow> nat \<Rightarrow> 'a option"
  assumes add_rep: "rep s xs \<Longrightarrow> follows xs x \<Longrightarrow> \<exists>t. add x s = Some t \<and> rep t (xs @ [x])"
    and find_rep: "rep s xs \<Longrightarrow> find n s = entry xs n"
begin

lemma add_each_rep:
  "rep s xs \<Longrightarrow> grows follows xs ys \<Longrightarrow> \<exists>t. add_each add ys s = Some t \<and> rep t (xs @ ys)"
proof (induction ys arbitrary: s xs)
  case (Cons y ys)
  obtain t where t: "add y s = Some t" "rep t (xs @ [y])" using add_rep [OF Cons.prems(1)] Cons.prems(2) by auto
  then show ?case using Cons.IH [OF t(2)] Cons.prems(2) by simp
qed simp

lemma refines:
  assumes "rep s []" "grows follows [] xs"
  shows "\<exists>t. add_each add xs s = Some t \<and> (\<forall>n. find n t = entry xs n)"
  using add_each_rep [OF assms] find_rep by auto

end

section \<open>The block chain as a log\<close>

text \<open>The blocks have increasing numbers, the first one \<open>f\<close>. \<open>block_entry\<close> is what a lookup answers.\<close>

definition block_follows :: "'b block_class \<Rightarrow> nat \<Rightarrow> 'b list \<Rightarrow> 'b \<Rightarrow> bool" where
  "block_follows T f xs b \<longleftrightarrow> GetBlockNum T b + BLOCKCHAIN_SIZE < 2 ^ 64
     \<and> (if xs = [] then GetBlockNum T b = f else GetBlockNum T (last xs) < GetBlockNum T b)"

definition block_rep :: "'b block_class \<Rightarrow> nat \<Rightarrow> 'b CircularArray \<Rightarrow> 'b list \<Rightarrow> bool" where
  "block_rep T f c xs \<longleftrightarrow>
     block_class_ok T \<and> ring_holds (GetBlockNum T) (dummy_block T) c xs \<and> sorted_wrt (<) (map (GetBlockNum T) xs)
     \<and> (if xs = [] then m_size c = 0
        else GetBlockNum T (hd xs) = f \<and> GetBlockNum T (last xs) + BLOCKCHAIN_SIZE < 2 ^ 64
          \<and> m_size c = GetBlockNum T (last xs) - f + 1)"

definition append_block :: "'b block_class \<Rightarrow> 'b \<Rightarrow> 'b CircularArray \<Rightarrow> 'b CircularArray option" where
  "append_block T b c = (case AddBlock T b c of None \<Rightarrow> None | Some (r, c') \<Rightarrow> if r = 1 then Some c' else None)"

definition block_entry :: "'b block_class \<Rightarrow> nat \<Rightarrow> (nat \<Rightarrow> 'b option) \<Rightarrow> 'b list \<Rightarrow> nat \<Rightarrow> 'b option" where
  "block_entry T f stored xs n =
     (if xs \<noteq> [] \<and> GetBlockNum T (last xs) < n then Some (dummy_block T)
      else if xs \<noteq> [] \<and> n + BLOCKCHAIN_SIZE + f \<le> GetBlockNum T (last xs) then stored n
      else let b = newest (GetBlockNum T) BLOCKCHAIN_SIZE (dummy_block T) (n mod BLOCKCHAIN_SIZE) xs
           in Some (if GetBlockNum T b \<noteq> n then dummy_block T else b))"

lemma sorted_keys:
  assumes "sorted_wrt (<) (map key xs)" "y \<in> set xs"
  shows "key (hd xs) \<le> key y" "key y \<le> (key (last xs) :: nat)"
proof -
  show "key (hd xs) \<le> key y" using assms by (cases xs) auto
  show "key y \<le> key (last xs)" using assms by (cases xs rule: rev_cases) (auto simp: sorted_wrt_append)
qed

lemma block_rep_new: "block_class_ok T \<Longrightarrow> block_rep T f (BlockChain_new T memory) []"
  by (simp add: block_rep_def BlockChain_new_def BlockChain_Reset_def ring_holds_resize)
    (simp add: CircularArray_resize_def)

lemma AddBlock_appends:
  assumes rep: "block_rep T f c xs" and fol: "block_follows T f xs b"
  shows "\<exists>c'. AddBlock T b c = Some (1, c') \<and> block_rep T f c' (xs @ [b])"
proof -
  let ?num = "GetBlockNum T" and ?n = "GetBlockNum T b"
  note ring = rep [unfolded block_rep_def, THEN conjunct2, THEN conjunct1]
  have sorted: "sorted_wrt (<) (map ?num xs)" using rep by (simp add: block_rep_def)
  have above: "?num y < ?n" if "y \<in> set xs" for y
    using sorted_keys(2) [OF sorted that] fol that by (cases "xs = []") (auto simp: block_follows_def)
  let ?e = "newest ?num BLOCKCHAIN_SIZE (dummy_block T) (?n mod BLOCKCHAIN_SIZE) xs"
  have free: "?num ?e < ?n \<or> INIT_BLOCK_NUMBER = ?num ?e"
    using newest_cases [of ?num BLOCKCHAIN_SIZE "dummy_block T" "?n mod BLOCKCHAIN_SIZE" xs] above rep
    by (auto simp: block_rep_def block_class_ok_def)
  define c1 where "c1 = (if xs \<noteq> [] \<and> ?n - ?num (last xs) - 1 > 0
    then increase_size (?n - ?num (last xs) - 1) c else c)"
  have ring1: "ring_holds ?num (dummy_block T) c1 xs" using ring by (simp add: c1_def ring_holds_size)
  obtain c2 where c2: "insert_new ?n b c1 = Some c2" "ring_holds ?num (dummy_block T) c2 (xs @ [b])"
      "m_size c2 = u64 (m_size c1 + 1)"
    using ring_insert [OF ring1] by blast
  have n: "?n < 2 ^ 64" using fol by (simp add: block_follows_def)
  have "AddBlock T b c = Some (1, c2)"
  proof (cases "xs = []")
    case True
    then have "m_size c = 0" using rep by (simp add: block_rep_def)
    then show ?thesis using c2(1) free True by (simp add: AddBlock_def ring_at [OF ring] c1_def Let_def)
  next
    case False
    then have less: "?num (last xs) < ?n" and pos: "0 < m_size c" using above rep by (auto simp: block_rep_def)
    have "sub64 (sub64 ?n (?num (last xs))) 1 = ?n - ?num (last xs) - 1"
      using less n by (simp add: sub64_le)
    then show ?thesis using c2(1) free False pos
      by (auto simp: AddBlock_def ring_at [OF ring] ring_back [OF ring False] c1_def Let_def split: if_splits)
  qed
  moreover have "m_size c2 = ?n - f + 1"
  proof (cases "xs = []")
    case True
    then show ?thesis using rep fol c2(3) by (simp add: block_rep_def block_follows_def c1_def)
  next
    case False
    then have "f \<le> ?num (last xs)" "?num (last xs) < ?n" "m_size c = ?num (last xs) - f + 1"
      using rep above sorted_keys(1) [OF sorted, of "last xs"] by (auto simp: block_rep_def)
    then have "m_size c1 = ?n - f" using n False by (auto simp: c1_def increase_size_def)
    moreover have "?n - f + 1 < 2 ^ 64" using fol by (auto simp: block_follows_def BLOCKCHAIN_SIZE_def)
    ultimately show ?thesis using c2(3) by simp
  qed
  moreover have "sorted_wrt (<) (map ?num (xs @ [b]))" using sorted above by (simp add: sorted_wrt_append)
  ultimately show ?thesis using rep fol c2(2)
    by (auto simp: block_rep_def block_follows_def hd_append split: if_splits)
qed

lemma GetBlock_entry:
  assumes rep: "block_rep T f c xs"
  shows "GetBlock T stored n c = block_entry T f stored xs n"
proof -
  note ring = rep [unfolded block_rep_def, THEN conjunct2, THEN conjunct1]
  have cap: "m_capacity c = BLOCKCHAIN_SIZE" using ring by (simp add: ring_holds_def)
  show ?thesis
  proof (cases "xs = []")
    case True
    then show ?thesis using rep
      by (simp add: GetBlock_def block_entry_def ring_at [OF ring] block_rep_def Let_def)
  next
    case False
    let ?last = "GetBlockNum T (last xs)"
    have f: "m_size c = ?last - f + 1" "?last + BLOCKCHAIN_SIZE < 2 ^ 64" "f \<le> ?last"
      using rep False sorted_keys(1) [of "GetBlockNum T" xs "last xs"] by (auto simp: block_rep_def)
    have "u64 (n + BLOCKCHAIN_SIZE) < m_size c \<longleftrightarrow> n + BLOCKCHAIN_SIZE + f \<le> ?last" if "n \<le> ?last"
      using f that by auto
    then show ?thesis using False f(1)
      by (auto simp: GetBlock_def block_entry_def ring_at [OF ring] ring_back [OF ring False] cap Let_def)
  qed
qed

interpretation blocks: log_chain "block_rep T f" "append_block T" "GetBlock T stored" "block_follows T f"
    "block_entry T f stored" for T :: "'b block_class" and f stored
proof
  show "\<exists>t. append_block T x s = Some t \<and> block_rep T f t (xs @ [x])"
    if "block_rep T f s xs" "block_follows T f xs x" for s xs x
    using AddBlock_appends [OF that] by (auto simp: append_block_def)
qed (rule GetBlock_entry)

section \<open>The chain of block links as a log\<close>

text \<open>A link follows when its index is the number of links so far; the hypotheses on the library and on
  the size of a serialised link are part of the relation.\<close>

definition link_follows :: "nat \<Rightarrow> BlockLink list \<Rightarrow> BlockLink \<Rightarrow> bool" where
  "link_follows ver xs x \<longleftrightarrow> bl_index x = length xs \<and> bl_version x = ver \<and> link_fits x
     \<and> length xs + BLOCKCHAIN_SIZE + 1 < 2 ^ 64"

definition writes_succeed :: "'d leveldb \<Rightarrow> bool" where
  "writes_succeed D \<longleftrightarrow> leveldb_ok D \<and> (\<forall>d p k v. snd (ldb_Put D d p k v))"

definition link_rep ::
    "'d leveldb \<Rightarrow> blocklink_protobuf \<Rightarrow> nat \<Rightarrow> 'pt BlockLinkChain \<times> 'd BlockStorage \<Rightarrow> BlockLink list \<Rightarrow> bool" where
  "link_rep D P ver cS xs \<longleftrightarrow>
     writes_succeed D \<and> blocklink_protobuf_ok P
     \<and> ring_holds bl_index BlockLink_default (m_blockLinkChain (fst cS)) xs
     \<and> map bl_index xs = [0..<length xs] \<and> m_size (m_blockLinkChain (fst cS)) = length xs
     \<and> length xs + BLOCKCHAIN_SIZE < 2 ^ 64 \<and> is_open (m_blockLinkDB (snd cS))
     \<and> (\<forall>i < length xs. GetBlockLink D P ver i (snd cS) = Some (Some (xs ! i)))"

definition append_link ::
    "'d leveldb \<Rightarrow> blocklink_protobuf \<Rightarrow> nat \<Rightarrow> BlockLink \<Rightarrow> 'pt BlockLinkChain \<times> 'd BlockStorage
     \<Rightarrow> ('pt BlockLinkChain \<times> 'd BlockStorage) option" where
  "append_link D P ver x cS =
     (case AddBlockLink D P ver (bl_index x) (bl_dsindex x) (bl_blocktype x) (bl_blockhash x) cS of
        None \<Rightarrow> None | Some (r, cS') \<Rightarrow> if r then Some cS' else None)"

definition link_entry :: "BlockLink list \<Rightarrow> nat \<Rightarrow> BlockLink option" where
  "link_entry xs n = Some (if n < length xs then xs ! n else BlockLink_default)"

text \<open>A link is stored and read back through its protobuf form.\<close>

lemma stored_link:
  assumes D: "writes_succeed D" and P: "blocklink_protobuf_ok P" and op: "is_open (m_blockLinkDB S)"
    and x: "bl_version x = ver" "link_fits x"
  shows "\<exists>dst S'. Messenger_SetBlockLink P [] 0 x = Some (dst, True) \<and> PutBlockLink D n dst S = Some (True, S')
    \<and> is_open (m_blockLinkDB S')
    \<and> (\<forall>k. GetBlockLink D P ver k S' = (if k = n then Some (Some x) else GetBlockLink D P ver k S))"
proof -
  let ?dst = "BlockLinkToArray P (proto_of_link x)"
  have small: "length ?dst < 2 ^ 31" and nonempty: "?dst \<noteq> []"
    using P x(2) by (auto simp: blocklink_protobuf_ok_def)
  have set: "Messenger_SetBlockLink P [] 0 x = Some (?dst, True)"
    using small SerializeToArray_succeeds [of "[]" ?dst] by (simp add: Messenger_SetBlockLink_def)
  have get: "Messenger_GetBlockLink P ?dst 0 = Some x"
  proof -
    have "BlockLinkFromArray P ?dst = proto_of_link x" using P small by (simp add: blocklink_protobuf_ok_def)
    then show ?thesis using nonempty x(2)
      by (cases x) (simp add: Messenger_GetBlockLink_def CheckRequiredFieldsProtoBlockLink_def Let_def
          proto_of_link_def link_fits_def)
  qed
  obtain L rc where L: "LevelDB_Insert D (m_blockLinkDB S) (to_decimal n) ?dst = Some (L, rc)" "is_open L"
    using LevelDB_Insert_total [OF op] by blast
  moreover have rc: "rc = 0" using L D
    by (auto simp: LevelDB_Insert_def writes_succeed_def split: bind_splits prod.splits if_splits) (metis snd_conv)
  moreover have "contents D L = (contents D (m_blockLinkDB S))(to_decimal n \<mapsto> ?dst)"
    using LevelDB_Insert_contents(1) [OF _ L(1) rc] D by (simp add: writes_succeed_def)
  ultimately show ?thesis using set get nonempty x(1) op
    by (auto simp: PutBlockLink_def GetBlockLink_def LevelDB_Lookup_contents)
qed

lemma AddBlockLink_appends:
  assumes rep: "link_rep D P ver cS xs" and fol: "link_follows ver xs x"
  shows "\<exists>cS'. AddBlockLink D P ver (bl_index x) (bl_dsindex x) (bl_blocktype x) (bl_blockhash x) cS = Some (True, cS')
    \<and> link_rep D P ver cS' (xs @ [x])"
proof -
  obtain c S where cS: "cS = (c, S)" by (cases cS)
  let ?ring = "m_blockLinkChain c"
  have ring: "ring_holds bl_index BlockLink_default ?ring xs" and idx: "map bl_index xs = [0..<length xs]"
    and size: "m_size ?ring = length xs" and D: "writes_succeed D" and P: "blocklink_protobuf_ok P"
    and op: "is_open (m_blockLinkDB S)"
    and old: "\<forall>i < length xs. GetBlockLink D P ver i S = Some (Some (xs ! i))"
    using rep by (simp_all add: link_rep_def cS)
  have x: "bl_index x = length xs" "bl_version x = ver" "link_fits x" using fol by (simp_all add: link_follows_def)
  have new: "\<lparr>bl_version = ver, bl_index = bl_index x, bl_dsindex = bl_dsindex x, bl_blocktype = bl_blocktype x,
      bl_blockhash = bl_blockhash x\<rparr> = x" using x(2) by (cases x) simp
  have latest: "GetLatestIndex c = Some (length xs - 1)"
  proof (cases "xs = []")
    case False
    then have "bl_index (last xs) = last (map bl_index xs)" by (simp add: last_map)
    also have "\<dots> = length xs - 1" using False unfolding idx by (simp add: last_upt)
    finally show ?thesis using False size by (simp add: GetLatestIndex_def ring_back [OF ring False])
  qed (simp add: GetLatestIndex_def size)
  obtain ring1 where r1: "insert_new (bl_index x) x ?ring = Some ring1"
      "ring_holds bl_index BlockLink_default ring1 (xs @ [x])" "m_size ring1 = u64 (m_size ?ring + 1)"
    using ring_insert [OF ring] by blast
  obtain dst S' where S': "Messenger_SetBlockLink P [] 0 x = Some (dst, True)"
      "PutBlockLink D (bl_index x) dst S = Some (True, S')" "is_open (m_blockLinkDB S')"
      "\<forall>k. GetBlockLink D P ver k S' = (if k = bl_index x then Some (Some x) else GetBlockLink D P ver k S)"
    using stored_link [OF D P op x(2,3), of "bl_index x"] by blast
  let ?c1 = "c\<lparr>m_blockLinkChain := ring1\<rparr>"
  have "AddBlockLink D P ver (bl_index x) (bl_dsindex x) (bl_blocktype x) (bl_blockhash x) cS = Some (True, ?c1, S')"
  proof -
    have guards: "\<not> (0 < m_size ?ring \<and> bl_index x \<le> length xs - 1)" "\<not> (m_size ?ring = 0 \<and> 0 < bl_index x)"
      using size x(1) by (cases xs; simp)+
    show ?thesis unfolding AddBlockLink_def Let_def cS fst_conv snd_conv latest Option.bind_lunit if_not_P [OF guards(1)]
        if_not_P [OF guards(2)] new r1(1) S'(1)
      by (simp add: S'(2))
  qed
  moreover have "link_rep D P ver (?c1, S') (xs @ [x])"
    using D P r1(2,3) idx size x(1) S'(3,4) old fol
    by (auto simp: link_rep_def link_follows_def nth_append)
  ultimately show ?thesis by blast
qed

lemma GetBlockLink_entry:
  assumes rep: "link_rep D P ver cS xs"
  shows "BlockLinkChain_GetBlockLink D P ver n cS = link_entry xs n"
proof -
  let ?ring = "m_blockLinkChain (fst cS)"
  have ring: "ring_holds bl_index BlockLink_default ?ring xs" and idx: "map bl_index xs = [0..<length xs]"
    and size: "m_size ?ring = length xs" and bound: "length xs + BLOCKCHAIN_SIZE < 2 ^ 64"
    using rep by (simp_all add: link_rep_def)
  have cap: "m_capacity ?ring = BLOCKCHAIN_SIZE" using ring by (simp add: ring_holds_def)
  show ?thesis
  proof (cases "n < length xs")
    case True
    have nth: "bl_index (xs ! i) = i" if "i < length xs" for i
      using arg_cong [OF idx, of "\<lambda>l. l ! i"] that by simp
    show ?thesis
    proof (cases "n + BLOCKCHAIN_SIZE < length xs")
      case True
      then show ?thesis using rep \<open>n < length xs\<close> bound
        by (simp add: BlockLinkChain_GetBlockLink_def Let_def size cap BlockLinkChain_GetFromPersistentStorage_def
            link_entry_def link_rep_def)
    next
      case False
      have "newest bl_index BLOCKCHAIN_SIZE BlockLink_default (bl_index (xs ! n) mod BLOCKCHAIN_SIZE) xs = xs ! n"
      proof (rule newest_in_window)
        show "sorted_wrt (<) (map bl_index xs)" by (simp add: idx)
        show "xs ! n \<in> set xs" using \<open>n < length xs\<close> by simp
        show "bl_index y < bl_index (xs ! n) + BLOCKCHAIN_SIZE" if "y \<in> set xs" for y
          using that False nth \<open>n < length xs\<close> by (auto simp: in_set_conv_nth)
      qed
      then show ?thesis using nth [OF \<open>n < length xs\<close>] \<open>n < length xs\<close> False bound
        by (simp add: BlockLinkChain_GetBlockLink_def Let_def size cap ring_at [OF ring] link_entry_def)
    qed
  qed (simp add: BlockLinkChain_GetBlockLink_def Let_def size link_entry_def)
qed

interpretation links: log_chain "link_rep D P ver" "append_link D P ver" "BlockLinkChain_GetBlockLink D P ver"
    "link_follows ver" link_entry for D P ver
proof
  show "\<exists>t. append_link D P ver x s = Some t \<and> link_rep D P ver t (xs @ [x])"
    if "link_rep D P ver s xs" "link_follows ver xs x" for s xs x
    using AddBlockLink_appends [OF that] by (auto simp: append_link_def)
qed (rule GetBlockLink_entry)

section \<open>Properties\<close>

lemma sorted_blocks_grow:
  assumes "sorted_wrt (<) (map (GetBlockNum T) bs)" "\<forall>b \<in> set bs. GetBlockNum T b + BLOCKCHAIN_SIZE < 2 ^ 64"
  shows "grows (block_follows T (GetBlockNum T (hd bs))) [] bs"
proof -
  have "grows (block_follows T f) [] bs" if "bs \<noteq> [] \<longrightarrow> f = GetBlockNum T (hd bs)" for f
    using assms that
  proof (induction bs rule: rev_induct)
    case (snoc b bs)
    then show ?case
      by (cases "bs = []") (auto simp: grows_snoc block_follows_def sorted_wrt_append)
  qed simp
  then show ?thesis by simp
qed

text \<open>C15: the block chain implements a log with a window. Any blocks with increasing numbers that start with
  block 0 are accepted; then the count is one more than the last number, the last block is the one added last,
  and a lookup answers a number that is too high with the dummy block, a number at least 50 behind the last with
  what the storage has, and every other number with the block of that number in the log, or with the dummy
  block if there is none.\<close>

theorem block_chain_implements_log:
  assumes T: "block_class_ok T" and sorted: "sorted_wrt (<) (map (GetBlockNum T) bs)"
    and bs: "bs \<noteq> []" "GetBlockNum T (hd bs) = 0"
    and bound: "\<forall>b \<in> set bs. GetBlockNum T b + BLOCKCHAIN_SIZE < 2 ^ 64"
  shows "\<exists>c. add_each (append_block T) bs (BlockChain_new T memory) = Some c
    \<and> GetBlockCount c = GetBlockNum T (last bs) + 1 \<and> GetLastBlock c = Some (last bs)
    \<and> (\<forall>n. GetBlock T stored n c =
         (if GetBlockNum T (last bs) < n then Some (dummy_block T)
          else if n + BLOCKCHAIN_SIZE \<le> GetBlockNum T (last bs) then stored n
          else Some (case find (\<lambda>b. GetBlockNum T b = n) bs of None \<Rightarrow> dummy_block T | Some b \<Rightarrow> b)))"
proof -
  let ?num = "GetBlockNum T"
  obtain c where c: "add_each (append_block T) bs (BlockChain_new T memory) = Some c" "block_rep T 0 c bs"
    using blocks.add_each_rep [OF block_rep_new [OF T], of 0 bs memory] sorted_blocks_grow [OF sorted bound] bs(2)
    by auto
  have "GetBlockCount c = ?num (last bs) + 1" using c(2) bs(1) by (simp add: block_rep_def GetBlockCount_def)
  moreover have "GetLastBlock c = Some (last bs)"
    using c(2) bs(1) ring_back [of ?num "dummy_block T" c bs] by (simp add: block_rep_def GetLastBlock_def)
  moreover have "(if ?num b \<noteq> n then dummy_block T else b)
      = (case find (\<lambda>b. ?num b = n) bs of None \<Rightarrow> dummy_block T | Some b \<Rightarrow> b)"
    if b: "b = newest ?num BLOCKCHAIN_SIZE (dummy_block T) (n mod BLOCKCHAIN_SIZE) bs"
      and n: "\<not> n + BLOCKCHAIN_SIZE \<le> ?num (last bs)" for b n
  proof (cases "find (\<lambda>b. ?num b = n) bs")
    case None
    then have "b = dummy_block T" if "?num b = n"
      using that newest_cases [of ?num BLOCKCHAIN_SIZE "dummy_block T" "n mod BLOCKCHAIN_SIZE" bs] b
      by (auto simp: find_None_iff)
    then show ?thesis using None by simp
  next
    case (Some x)
    then have x: "x \<in> set bs" "?num x = n" by (auto simp: find_Some_iff in_set_conv_nth)
    have "newest ?num BLOCKCHAIN_SIZE (dummy_block T) (?num x mod BLOCKCHAIN_SIZE) bs = x"
      by (rule newest_in_window [OF sorted x(1)])
        (use n x(2) sorted_keys(2) [OF sorted] in \<open>fastforce\<close>)
    then show ?thesis using Some b x(2) by simp
  qed
  ultimately show ?thesis using c bs(1) by (auto simp: blocks.find_rep block_entry_def Let_def)
qed

definition toy_blocks :: "(nat \<times> bytes) block_class" where
  "toy_blocks = \<lparr>GetBlockNum = (\<lambda>b. fst b mod 2 ^ 64), dummy_block = (INIT_BLOCK_NUMBER, [])\<rparr>"

lemma toy_blocks_ok: "block_class_ok toy_blocks"
  by (simp add: block_class_ok_def toy_blocks_def INIT_BLOCK_NUMBER_def)

theorem block_chain_implements_log_witness:
  "\<exists>c. add_each (append_block toy_blocks) [(0, [1]), (3, [2]), (60, [3])] (BlockChain_new toy_blocks 9) = Some c
    \<and> GetBlockCount c = 61 \<and> GetBlock toy_blocks (\<lambda>n. Some (n, [7])) 3 c = Some (3, [7])
    \<and> GetBlock toy_blocks (\<lambda>n. Some (n, [7])) 60 c = Some (60, [3])
    \<and> GetBlock toy_blocks (\<lambda>n. Some (n, [7])) 59 c = Some (dummy_block toy_blocks)"
proof -
  let ?bs = "[(0, [1]), (3, [2]), (60, [3])] :: (nat \<times> bytes) list"
  have num [simp]: "GetBlockNum toy_blocks (n, b) = n mod 2 ^ 64" for n and b :: bytes by (simp add: toy_blocks_def)
  have hyps: "sorted_wrt (<) (map (GetBlockNum toy_blocks) ?bs)" "?bs \<noteq> []" "GetBlockNum toy_blocks (hd ?bs) = 0"
      "\<forall>b \<in> set ?bs. GetBlockNum toy_blocks b + BLOCKCHAIN_SIZE < 2 ^ 64"
    by (simp_all add: BLOCKCHAIN_SIZE_def)
  have end60: "GetBlockNum toy_blocks (last ?bs) = 60" by simp
  from block_chain_implements_log [OF toy_blocks_ok hyps, of 9 "\<lambda>n. Some (n, [7])", unfolded end60 BLOCKCHAIN_SIZE_def]
  obtain c where c: "add_each (append_block toy_blocks) ?bs (BlockChain_new toy_blocks 9) = Some c"
      "GetBlockCount c = 60 + 1"
      "\<And>n. GetBlock toy_blocks (\<lambda>n. Some (n, [7])) n c =
         (if 60 < n then Some (dummy_block toy_blocks) else if n + 50 \<le> 60 then Some (n, [7])
          else Some (case find (\<lambda>b. GetBlockNum toy_blocks b = n) ?bs of None \<Rightarrow> dummy_block toy_blocks | Some b \<Rightarrow> b))"
    by blast
  then show ?thesis by (intro exI [of _ c]) simp
qed

text \<open>C13: the chain of block links, memory and storage together, implements a list: links added one after the
  other from index 0 are all accepted, and from then on every one of them is found under its index,
  whether it is among the last 50 or only stored.\<close>

theorem block_links_implement_list:
  assumes D: "writes_succeed D" "is_open (m_blockLinkDB S)" and P: "blocklink_protobuf_ok P"
    and xs: "\<forall>i < length xs. bl_index (xs ! i) = i \<and> bl_version (xs ! i) = ver \<and> link_fits (xs ! i)"
      "length xs + BLOCKCHAIN_SIZE < 2 ^ 64"
  shows "\<exists>c S'. add_each (append_link D P ver) xs (BlockLinkChain_new memory, S) = Some (c, S')
    \<and> (\<forall>n. BlockLinkChain_GetBlockLink D P ver n (c, S')
           = Some (if n < length xs then xs ! n else BlockLink_default))"
proof -
  have "grows (link_follows ver) [] xs"
    using xs
  proof (induction xs rule: rev_induct)
    case (snoc x xs)
    have "bl_index (xs ! i) = i \<and> bl_version (xs ! i) = ver \<and> link_fits (xs ! i)" if "i < length xs" for i
      using snoc.prems(1) [THEN spec, of i] that by (simp add: nth_append)
    then have "grows (link_follows ver) [] xs" using snoc.IH snoc.prems(2) by simp
    moreover have "link_follows ver xs x"
      using snoc.prems(1) [THEN spec, of "length xs"] snoc.prems(2) by (simp add: link_follows_def)
    ultimately show ?case by (simp add: grows_snoc)
  qed simp
  moreover have "link_rep D P ver (BlockLinkChain_new memory, S) []"
    using D P by (simp add: link_rep_def BlockLinkChain_new_def BlockLinkChain_Reset_def ring_holds_resize)
      (simp add: CircularArray_resize_def BLOCKCHAIN_SIZE_def)
  ultimately show ?thesis using links.refines by (fastforce simp: link_entry_def)
qed

text \<open>A protobuf form of links with fixed widths, for the witness.\<close>

definition toy_link_fits :: "ProtoBlockLink \<Rightarrow> bool" where
  "toy_link_fits m \<longleftrightarrow> (\<exists>x. link_fits x \<and> m = proto_of_link x)"

definition toy_links :: blocklink_protobuf where
  "toy_links = \<lparr>
     BlockLinkFromArray = (\<lambda>bs. \<lparr>pbl_version = Some (be_val (subvec 0 4 bs)), pbl_index = Some (be_val (subvec 4 8 bs)),
       pbl_dsindex = Some (be_val (subvec 12 8 bs)), pbl_blocktype = Some (be_val (subvec 20 4 bs)),
       pbl_blockhash = Some (subvec 24 32 bs)\<rparr>),
     BlockLinkToArray = (\<lambda>m. if toy_link_fits m
       then be_bytes 4 (the (pbl_version m)) @ be_bytes 8 (the (pbl_index m)) @ be_bytes 8 (the (pbl_dsindex m))
         @ be_bytes 4 (the (pbl_blocktype m)) @ the (pbl_blockhash m)
       else replicate (2 ^ 31) 0)\<rparr>"

lemma toy_links_ok: "blocklink_protobuf_ok toy_links"
proof -
  have "BlockLinkFromArray toy_links (BlockLinkToArray toy_links (proto_of_link x)) = proto_of_link x
      \<and> length (BlockLinkToArray toy_links (proto_of_link x)) = 56" if x: "link_fits x" for x
  proof -
    have "toy_link_fits (proto_of_link x)" using x by (auto simp: toy_link_fits_def)
    then show ?thesis using x
      by (simp add: toy_links_def proto_of_link_def link_fits_def subvec_def be_val_be_bytes length_be_bytes)
  qed
  moreover have "toy_link_fits m" if "length (BlockLinkToArray toy_links m) < 2 ^ 31" for m
    using that by (auto simp: toy_links_def split: if_splits)
  ultimately show ?thesis by (fastforce simp: blocklink_protobuf_ok_def toy_link_fits_def)
qed

theorem block_links_implement_list_witness:
  "\<exists>(c :: int BlockLinkChain) S'. add_each (append_link map_db toy_links 1)
       (map (\<lambda>i. \<lparr>bl_version = 1, bl_index = i, bl_dsindex = 0, bl_blocktype = 0, bl_blockhash = replicate 32 1\<rparr>) [0..<70])
       (BlockLinkChain_new 5, fresh_storage) = Some (c, S')
    \<and> BlockLinkChain_GetBlockLink map_db toy_links 1 3 (c, S')
      = Some \<lparr>bl_version = 1, bl_index = 3, bl_dsindex = 0, bl_blocktype = 0, bl_blockhash = replicate 32 1\<rparr>"
proof -
  let ?link = "\<lambda>i. \<lparr>bl_version = 1, bl_index = i, bl_dsindex = 0, bl_blocktype = 0, bl_blockhash = replicate 32 1\<rparr>"
  define xs where "xs = map ?link [0..<70]"
  have nth: "length xs = 70" "\<And>i. i < 70 \<Longrightarrow> xs ! i = ?link i" by (simp_all add: xs_def del: upt_rec_numeral)
  have D: "writes_succeed map_db" using map_db_ok by (simp add: writes_succeed_def) (simp add: map_db_def)
  have op: "is_open (m_blockLinkDB fresh_storage)" by (simp add: fresh_storage_def fresh_db_def is_open_def)
  have xs: "\<forall>i < length xs. bl_index (xs ! i) = i \<and> bl_version (xs ! i) = 1 \<and> link_fits (xs ! i)"
    using nth by (auto simp: link_fits_def)
  have len: "length xs + BLOCKCHAIN_SIZE < 2 ^ 64" by (simp add: BLOCKCHAIN_SIZE_def nth)
  obtain c :: "int BlockLinkChain" and S' where
    r: "add_each (append_link map_db toy_links 1) xs (BlockLinkChain_new 5, fresh_storage) = Some (c, S')"
      "\<forall>n. BlockLinkChain_GetBlockLink map_db toy_links 1 n (c, S') = Some (if n < length xs then xs ! n else BlockLink_default)"
    using block_links_implement_list [OF D op toy_links_ok xs len, of 5] by (elim exE conjE)
  have "(if 3 < length xs then xs ! 3 else BlockLink_default) = ?link 3" using nth by simp
  from r(2) [THEN spec, of 3, unfolded this]
  have third: "BlockLinkChain_GetBlockLink map_db toy_links 1 3 (c, S') = Some (?link 3)" .
  show ?thesis by (rule exI [of _ c], rule exI [of _ S'], rule conjI, rule r(1) [unfolded xs_def], rule third)
qed

section \<open>Where the chains deviate\<close>

text \<open>A chain whose first block has a number above 0 answers an old block with the dummy block although
  the storage has it: the test against the count assumes that the chain starts with block 0.\<close>

lemma late_start_hides_stored_blocks:
  assumes rep: "block_rep T f c bs" and bs: "\<forall>i < length bs. GetBlockNum T (bs ! i) = f + i" "bs \<noteq> []"
    and n: "f \<le> n" "n + BLOCKCHAIN_SIZE \<le> GetBlockNum T (last bs)" "GetBlockNum T (last bs) < n + BLOCKCHAIN_SIZE + f"
  shows "GetBlock T stored n c = Some (dummy_block T)"
proof -
  let ?last = "GetBlockNum T (last bs)"
  have last: "?last = f + (length bs - 1)" using bs by (simp add: last_conv_nth)
  have nth: "bs ! (n + BLOCKCHAIN_SIZE - f) \<in> set bs" "GetBlockNum T (bs ! (n + BLOCKCHAIN_SIZE - f)) = n + BLOCKCHAIN_SIZE"
  proof -
    have "0 < length bs" using bs(2) by simp
    then have "n + BLOCKCHAIN_SIZE - f < length bs" using n(1,2) unfolding last by linarith
    then show "bs ! (n + BLOCKCHAIN_SIZE - f) \<in> set bs" "GetBlockNum T (bs ! (n + BLOCKCHAIN_SIZE - f)) = n + BLOCKCHAIN_SIZE"
      using bs(1) n(1) by simp_all
  qed
  have sorted: "sorted_wrt (<) (map (GetBlockNum T) bs)" using rep by (simp add: block_rep_def)
  let ?b = "newest (GetBlockNum T) BLOCKCHAIN_SIZE (dummy_block T) (n mod BLOCKCHAIN_SIZE) bs"
  have "GetBlockNum T ?b \<noteq> n"
  proof -
    obtain as cs where split: "bs = as @ bs ! (n + BLOCKCHAIN_SIZE - f) # cs" using nth(1) by (meson split_list)
    let ?y = "bs ! (n + BLOCKCHAIN_SIZE - f)" and ?slot = "\<lambda>x. GetBlockNum T x mod BLOCKCHAIN_SIZE = n mod BLOCKCHAIN_SIZE"
    have "filter ?slot bs = filter ?slot as @ ?y # filter ?slot cs" by (subst split) (simp add: nth(2))
    then have "?b = last (?y # filter ?slot cs)" by (simp add: newest_def)
    then have "?b \<in> set (?y # filter ?slot cs)" using last_in_set by (metis list.distinct(1))
    moreover have "n + BLOCKCHAIN_SIZE \<le> GetBlockNum T z" if "z \<in> set cs" for z
    proof -
      have "sorted_wrt (<) (map (GetBlockNum T) (as @ ?y # cs))" using sorted split by metis
      then show ?thesis using that nth(2) by (auto simp: sorted_wrt_append)
    qed
    ultimately have "n + BLOCKCHAIN_SIZE \<le> GetBlockNum T ?b" using nth(2) by auto
    then show ?thesis by (simp add: BLOCKCHAIN_SIZE_def)
  qed
  then show ?thesis using n bs(2) by (auto simp: GetBlock_entry [OF rep] block_entry_def Let_def)
qed

text \<open>A block older than the last one is accepted when its slot is empty, and becomes the last block: the
  blocks above it are then answered as too high.\<close>

lemma older_block_becomes_last:
  assumes ring: "ring_holds (GetBlockNum T) (dummy_block T) c xs" and T: "block_class_ok T"
    and free: "\<forall>x \<in> set xs. GetBlockNum T x mod BLOCKCHAIN_SIZE \<noteq> GetBlockNum T b mod BLOCKCHAIN_SIZE"
    and xs: "xs \<noteq> []"
  shows "\<exists>c'. AddBlock T b c = Some (1, c') \<and> GetLastBlock c' = Some b"
proof -
  have "newest (GetBlockNum T) BLOCKCHAIN_SIZE (dummy_block T) (GetBlockNum T b mod BLOCKCHAIN_SIZE) xs = dummy_block T"
    using free by (simp add: newest_def filter_empty_conv)
  then have at: "CircularArray_at c (GetBlockNum T b) = Some (dummy_block T)" by (simp add: ring_at [OF ring])
  have any: "\<exists>c'. insert_new (GetBlockNum T b) b c1 = Some c' \<and> GetLastBlock c' = Some b"
    if "ring_holds (GetBlockNum T) (dummy_block T) c1 xs" for c1
    using ring_insert [OF that, of b] ring_back [of "GetBlockNum T" "dummy_block T" _ "xs @ [b]"]
    by (auto simp: GetLastBlock_def)
  define c1 where "c1 = (if m_size c > 0 \<and> sub64 (sub64 (GetBlockNum T b) (GetBlockNum T (last xs))) 1 > 0
    then increase_size (sub64 (sub64 (GetBlockNum T b) (GetBlockNum T (last xs))) 1) c else c)"
  have "ring_holds (GetBlockNum T) (dummy_block T) c1 xs" using ring by (simp add: c1_def ring_holds_size)
  from any [OF this] obtain c' where "insert_new (GetBlockNum T b) b c1 = Some c'" "GetLastBlock c' = Some b" by blast
  then show ?thesis using T
    by (auto simp: AddBlock_def at ring_back [OF ring xs] block_class_ok_def Let_def c1_def split: if_splits)
qed

text \<open>A link whose index skips a number is accepted and cannot be read back.\<close>

lemma skipped_index_hides_link:
  assumes rep: "link_rep D P ver (c, S) [x]" and y: "bl_version y = ver" "link_fits y" "1 < bl_index y"
  shows "\<exists>c' S'. AddBlockLink D P ver (bl_index y) (bl_dsindex y) (bl_blocktype y) (bl_blockhash y) (c, S)
      = Some (True, c', S')
    \<and> GetLatestIndex c' = Some (bl_index y)
    \<and> BlockLinkChain_GetBlockLink D P ver (bl_index y) (c', S') = Some BlockLink_default"
proof -
  let ?ring = "m_blockLinkChain c"
  have ring: "ring_holds bl_index BlockLink_default ?ring [x]" and size: "m_size ?ring = 1" and x: "bl_index x = 0"
    and D: "writes_succeed D" and P: "blocklink_protobuf_ok P" and op: "is_open (m_blockLinkDB S)"
    using rep by (simp_all add: link_rep_def)
  have new: "\<lparr>bl_version = ver, bl_index = bl_index y, bl_dsindex = bl_dsindex y, bl_blocktype = bl_blocktype y,
      bl_blockhash = bl_blockhash y\<rparr> = y" using y(1) by (cases y) simp
  obtain ring1 where r1: "insert_new (bl_index y) y ?ring = Some ring1"
      "ring_holds bl_index BlockLink_default ring1 ([x] @ [y])" "m_size ring1 = u64 (m_size ?ring + 1)"
    using ring_insert [OF ring] by blast
  obtain dst S' where S': "Messenger_SetBlockLink P [] 0 y = Some (dst, True)"
      "PutBlockLink D (bl_index y) dst S = Some (True, S')"
    using stored_link [OF D P op y(1,2), of "bl_index y"] by blast
  have "AddBlockLink D P ver (bl_index y) (bl_dsindex y) (bl_blocktype y) (bl_blockhash y) (c, S)
      = Some (True, c\<lparr>m_blockLinkChain := ring1\<rparr>, S')"
    using y(3) ring_back [OF ring] by (simp add: AddBlockLink_def Let_def GetLatestIndex_def size x new r1(1) S')
  moreover have "m_size ring1 = 2" using r1(3) size by simp
  ultimately show ?thesis using y(3) ring_back [OF r1(2)]
    by (auto simp: GetLatestIndex_def BlockLinkChain_GetBlockLink_def)
qed

end
