(* ===== verification/BitVector.thy ===== *)
theory BitVector
  imports Prelude
begin

text \<open>
  The bitmap codec of \<open>libUtils/BitVector.cpp\<close>: two bytes of length, then one bit per entry,
  most significant bit first. Consensus appends bitmaps to the message it co-signs and the
  validator rebuilds them, so writer and reader have to agree bit by bit.
\<close>

section \<open>Operations\<close>

definition GetBitVectorLengthInBytes :: "nat \<Rightarrow> nat" where
  "GetBitVectorLengthInBytes length_in_bits =
     (if length_in_bits mod 8 > 0 then u32 (length_in_bits div 8 + 1) else length_in_bits div 8)"

definition GetBitVectorSerializedSize :: "nat \<Rightarrow> nat" where
  "GetBitVectorSerializedSize length_in_bits = u32 (2 + GetBitVectorLengthInBytes length_in_bits)"

definition bit_mask :: "nat \<Rightarrow> byte" where
  "bit_mask index = push_bit (7 - index mod 8) 1"

fun GetBitVector_loop :: "bytes \<Rightarrow> nat \<Rightarrow> nat \<Rightarrow> nat \<Rightarrow> bool list option" where
  "GetBitVector_loop src offset index 0 = Some []"
| "GetBitVector_loop src offset index (Suc r) = do {
     b \<leftarrow> vec_at src (u32 (offset + 2 + index div 8));
     rest \<leftarrow> GetBitVector_loop src offset (index + 1) r;
     Some ((b AND bit_mask index \<noteq> 0) # rest) }"

definition BitVector_header :: "bytes \<Rightarrow> nat \<Rightarrow> nat option" where
  "BitVector_header src offset =
     (if sub64 (length src) offset \<ge> 2
      then do { hi \<leftarrow> vec_at src offset; lo \<leftarrow> vec_at src (u32 (offset + 1));
                Some (unat hi * 256 + unat lo) }
      else Some 0)"

definition GetBitVector :: "bytes \<Rightarrow> nat \<Rightarrow> bool list option" where
  "GetBitVector src offset = do {
     actual_length \<leftarrow> BitVector_header src offset;
     let actual_length_bytes = GetBitVectorLengthInBytes actual_length
     in if sub64 (sub64 (length src) offset) 2 \<ge> actual_length_bytes
        then GetBitVector_loop src offset 0 actual_length
        else Some [] }"

definition GetBitVector_expected :: "bytes \<Rightarrow> nat \<Rightarrow> nat \<Rightarrow> bool list option" where
  "GetBitVector_expected src offset expected_length = do {
     actual_length \<leftarrow> BitVector_header src offset;
     let actual_length_bytes = GetBitVectorLengthInBytes actual_length
     in if actual_length_bytes = expected_length
           \<and> sub64 (sub64 (length src) offset) 2 \<ge> actual_length_bytes
        then GetBitVector_loop src offset 0 actual_length
        else Some [] }"

fun SetBitVector_loop :: "bytes \<Rightarrow> nat \<Rightarrow> nat \<Rightarrow> bool list \<Rightarrow> bytes option" where
  "SetBitVector_loop dst offset index [] = Some dst"
| "SetBitVector_loop dst offset index (b # bs) = do {
     dst' \<leftarrow> (if b
              then do { x \<leftarrow> vec_at dst (u32 (offset + 2 + index div 8));
                        vec_put dst (u32 (offset + 2 + index div 8)) (x OR bit_mask index) }
              else Some dst);
     SetBitVector_loop dst' offset (index + 1) bs }"

definition SetBitVector :: "bytes \<Rightarrow> nat \<Rightarrow> bool list \<Rightarrow> (bytes \<times> nat) option" where
  "SetBitVector dst offset value =
     (let length_needed = GetBitVectorSerializedSize (u32 (length value));
          dst1 = (if u32 (offset + length_needed) > length dst
                  then vec_resize 0 (u32 (offset + length_needed)) dst else dst)
      in if offset + length_needed > length dst1 then None
         else do {
           let dst2 = vec_write offset (replicate length_needed 0) dst1;
           dst3 \<leftarrow> vec_put dst2 offset (of_nat (length value div 256));
           dst4 \<leftarrow> vec_put dst3 (u32 (offset + 1)) (of_nat (length value));
           dst5 \<leftarrow> SetBitVector_loop dst4 offset 0 value;
           Some (dst5, length_needed) })"

section \<open>Round trip\<close>

lemma bit_mask_iff: "bit (bit_mask index) k \<longleftrightarrow> k = 7 - index mod 8"
  by (auto simp: bit_mask_def bit_simps)

lemma and_mask_nonzero: "(b AND bit_mask index \<noteq> 0) \<longleftrightarrow> bit b (7 - index mod 8)"
proof -
  have "(b AND bit_mask index = 0) \<longleftrightarrow> \<not> bit b (7 - index mod 8)"
  proof
    assume "b AND bit_mask index = 0"
    then have "\<not> bit (b AND bit_mask index) (7 - index mod 8)" by simp
    then show "\<not> bit b (7 - index mod 8)" by (simp add: bit_and_iff bit_mask_iff)
  next
    assume "\<not> bit b (7 - index mod 8)"
    then show "b AND bit_mask index = 0"
      by (intro bit_word_eqI) (auto simp: bit_and_iff bit_mask_iff)
  qed
  then show ?thesis by simp
qed

text \<open>The bit position that belongs to an entry is its own: two entries never share one.\<close>

lemma position_inject:
  "i div 8 = j div 8 \<Longrightarrow> 7 - i mod 8 = 7 - j mod 8 \<Longrightarrow> i = (j :: nat)"
proof -
  assume d: "i div 8 = j div 8" and m: "7 - i mod 8 = 7 - j mod 8"
  have "i mod 8 < 8" "j mod 8 < 8" by simp_all
  with m have "i mod 8 = j mod 8" by linarith
  with d show ?thesis by (metis div_mod_decomp)
qed

lemma SetBitVector_loop_bits:
  assumes "offset + 2 + (index + length bs + 7) div 8 \<le> length dst"
    and "length dst < 2 ^ 32"
  shows "\<exists>dst'. SetBitVector_loop dst offset index bs = Some dst' \<and> length dst' = length dst
     \<and> (\<forall>j. j < offset + 2 \<longrightarrow> dst' ! j = dst ! j)
     \<and> (\<forall>i. bit (dst' ! (offset + 2 + i div 8)) (7 - i mod 8)
            = (bit (dst ! (offset + 2 + i div 8)) (7 - i mod 8)
               \<or> (index \<le> i \<and> i < index + length bs \<and> bs ! (i - index))))"
  using assms
proof (induction bs arbitrary: dst index)
  case Nil
  then show ?case by auto
next
  case (Cons b bs)
  let ?p = "offset + 2 + index div 8"
  have p: "?p < length dst" using Cons.prems by simp
  have wrap: "u32 ?p = ?p" using p Cons.prems by simp
  define d where "d = (if b then dst[?p := dst ! ?p OR bit_mask index] else dst)"
  have len: "length d = length dst" by (simp add: d_def)
  have d_bit: "bit (d ! (offset + 2 + i div 8)) (7 - i mod 8)
      = (bit (dst ! (offset + 2 + i div 8)) (7 - i mod 8) \<or> (i = index \<and> b))" for i
  proof (cases "i div 8 = index div 8")
    case True
    then show ?thesis using p
      by (auto simp: d_def bit_or_iff bit_mask_iff dest: position_inject)
  next
    case False
    then show ?thesis by (auto simp: d_def)
  qed
  have d_low: "d ! j = dst ! j" if "j < offset + 2" for j using that by (simp add: d_def)
  have step: "SetBitVector_loop dst offset index (b # bs) = SetBitVector_loop d offset (index + 1) bs"
    using p wrap by (simp add: d_def vec_at_def vec_put_def)
  obtain dst' where dst': "SetBitVector_loop d offset (index + 1) bs = Some dst'"
      "length dst' = length d" "\<forall>j. j < offset + 2 \<longrightarrow> dst' ! j = d ! j"
      "\<forall>i. bit (dst' ! (offset + 2 + i div 8)) (7 - i mod 8)
            = (bit (d ! (offset + 2 + i div 8)) (7 - i mod 8)
               \<or> (index + 1 \<le> i \<and> i < index + 1 + length bs \<and> bs ! (i - (index + 1))))"
  proof -
    have "offset + 2 + (index + 1 + length bs + 7) div 8 \<le> length d" "length d < 2 ^ 32"
      using Cons.prems by (simp_all add: len)
    from Cons.IH [OF this] that show ?thesis by blast
  qed
  have entry: "((i = index \<and> b)
        \<or> (index + 1 \<le> i \<and> i < index + 1 + length bs \<and> bs ! (i - (index + 1))))
      = (index \<le> i \<and> i < index + length (b # bs) \<and> (b # bs) ! (i - index))" for i
    by (cases "i = index") (auto simp: nth_Cons' Suc_le_eq)
  have bits: "bit (dst' ! (offset + 2 + i div 8)) (7 - i mod 8)
      = (bit (dst ! (offset + 2 + i div 8)) (7 - i mod 8)
         \<or> (index \<le> i \<and> i < index + length (b # bs) \<and> (b # bs) ! (i - index)))" for i
    using dst'(4) d_bit [of i] entry [of i] by blast
  show ?case
  proof (intro exI conjI allI impI)
    show "SetBitVector_loop dst offset index (b # bs) = Some dst'" using step dst'(1) by simp
    show "length dst' = length dst" using dst'(2) len by simp
    show "dst' ! j = dst ! j" if "j < offset + 2" for j using dst'(3) d_low that by simp
  qed (rule bits)
qed

lemma GetBitVector_loop_bits:
  assumes "offset + 2 + (index + r + 7) div 8 \<le> length src" "length src < 2 ^ 32"
  shows "GetBitVector_loop src offset index r
    = Some (map (\<lambda>i. bit (src ! (offset + 2 + i div 8)) (7 - i mod 8)) [index..<index + r])"
  using assms
proof (induction r arbitrary: index)
  case (Suc r)
  have p: "offset + 2 + index div 8 < length src" using Suc.prems by simp
  moreover have "GetBitVector_loop src offset (index + 1) r
    = Some (map (\<lambda>i. bit (src ! (offset + 2 + i div 8)) (7 - i mod 8)) [index + 1..<index + 1 + r])"
    using Suc.prems by (intro Suc.IH) simp_all
  moreover have "[index..<index + Suc r] = index # [index + 1..<index + 1 + r]"
    by (simp add: upt_conv_Cons del: upt_Suc)
  ultimately show ?case
    using Suc.prems by (simp add: vec_at_def and_mask_nonzero del: upt_Suc)
qed simp

lemma ceil_div_8: "(if n mod 8 > 0 then n div 8 + 1 else n div 8) = (n + 7) div (8 :: nat)"
proof -
  have "n + 7 = 8 * (n div 8) + (n mod 8 + 7)" by simp
  then have "(n + 7) div 8 = n div 8 + (n mod 8 + 7) div 8"
    by (metis add.commute div_mult_self2 zero_neq_numeral)
  moreover have "(n mod 8 + 7) div 8 = (if n mod 8 > 0 then 1 else 0)"
    by (auto intro: div_nat_eqI)
  ultimately show ?thesis by simp
qed

lemma GetBitVectorLengthInBytes_ceil:
  assumes "n < 2 ^ 32"
  shows "GetBitVectorLengthInBytes n = (n + 7) div 8"
proof -
  have "n div 8 + 1 < 4294967296" using assms by simp
  then have "u32 (n div 8 + 1) = n div 8 + 1" by (rule u32_id)
  then show ?thesis by (simp only: GetBitVectorLengthInBytes_def ceil_div_8)
qed

lemma GetBitVectorSerializedSize_eq:
  "n < 65536 \<Longrightarrow> GetBitVectorSerializedSize n = 2 + (n + 7) div 8"
  by (simp add: GetBitVectorSerializedSize_def GetBitVectorLengthInBytes_ceil)

text \<open>What \<open>SetBitVector\<close> leaves in the stream, when the bitmap and the offset fit.\<close>

lemma SetBitVector_result:
  assumes v: "length value < 65536"
    and fit: "offset + 2 + (length value + 7) div 8 < 2 ^ 32" "length dst < 2 ^ 32"
  shows "\<exists>dst'. SetBitVector dst offset value = Some (dst', 2 + (length value + 7) div 8)
    \<and> length dst' = max (length dst) (offset + 2 + (length value + 7) div 8)
    \<and> unat (dst' ! offset) = length value div 256
    \<and> unat (dst' ! (offset + 1)) = length value mod 256
    \<and> (\<forall>i < length value. bit (dst' ! (offset + 2 + i div 8)) (7 - i mod 8) = value ! i)
    \<and> (\<forall>j < offset. j < length dst \<longrightarrow> dst' ! j = dst ! j)"
proof -
  let ?n = "2 + (length value + 7) div 8"
  let ?d1 = "vec_resize 0 (max (length dst) (offset + ?n)) dst"
  let ?d2 = "vec_write offset (replicate ?n 0) ?d1"
  let ?d4 = "?d2[offset := of_nat (length value div 256), offset + 1 := of_nat (length value)]"
  have size: "GetBitVectorSerializedSize (u32 (length value)) = ?n"
    using v by (simp add: GetBitVectorSerializedSize_eq)
  have wrap: "u32 (offset + ?n) = offset + ?n" using fit by simp
  have d1: "(if offset + ?n > length dst then vec_resize 0 (offset + ?n) dst else dst) = ?d1"
    by (auto simp: max_def vec_resize_def)
  have len4: "length ?d4 = max (length dst) (offset + ?n)" by simp
  have zero: "\<not> bit (?d4 ! (offset + 2 + i div 8)) k" if "i < length value" for i k
  proof -
    have "(i + 8) div 8 \<le> (length value + 7) div 8" using that by (intro div_le_mono) simp
    then have "i div 8 < (length value + 7) div 8" by simp
    then have "?d2 ! (offset + 2 + i div 8) = 0" by (subst nth_vec_write) auto
    then show ?thesis by simp
  qed
  obtain d5 where d5: "SetBitVector_loop ?d4 offset 0 value = Some d5" "length d5 = length ?d4"
      "\<forall>j. j < offset + 2 \<longrightarrow> d5 ! j = ?d4 ! j"
      "\<forall>i. bit (d5 ! (offset + 2 + i div 8)) (7 - i mod 8)
           = (bit (?d4 ! (offset + 2 + i div 8)) (7 - i mod 8)
              \<or> (0 \<le> i \<and> i < 0 + length value \<and> value ! (i - 0)))"
  proof -
    have "offset + 2 + (0 + length value + 7) div 8 \<le> length ?d4" "length ?d4 < 2 ^ 32"
      unfolding len4 using fit by simp_all
    from SetBitVector_loop_bits [OF this] that show ?thesis by blast
  qed
  have run: "SetBitVector dst offset value = Some (d5, ?n)"
    unfolding SetBitVector_def size wrap Let_def d1
    using d5(1) fit by (simp add: vec_put_def)
  have hi: "unat (d5 ! offset) = length value div 256"
    using d5(3) v by (simp add: nth_list_update unat_of_nat)
  have lo: "unat (d5 ! (offset + 1)) = length value mod 256"
    using d5(3) by (simp add: nth_list_update unat_of_nat)
  have bits: "bit (d5 ! (offset + 2 + i div 8)) (7 - i mod 8) = value ! i" if "i < length value" for i
    using d5(4) zero [OF that] that by simp
  have low: "d5 ! j = dst ! j" if "j < offset" "j < length dst" for j
    using d5(3) that by (simp add: nth_list_update nth_vec_write nth_vec_resize)
  show ?thesis
    by (intro exI conjI allI impI, rule run)
       (use d5(2) len4 hi lo bits low in \<open>simp_all add: add.assoc\<close>)
qed

lemma GetBitVector_result:
  assumes n: "unat (src ! offset) * 256 + unat (src ! (offset + 1)) = n" "n < 65536"
    and len: "offset + 2 + (n + 7) div 8 \<le> length src" "length src < 2 ^ 32"
  shows "GetBitVector src offset
    = Some (map (\<lambda>i. bit (src ! (offset + 2 + i div 8)) (7 - i mod 8)) [0..<n])"
    and "GetBitVector_expected src offset ((n + 7) div 8)
    = Some (map (\<lambda>i. bit (src ! (offset + 2 + i div 8)) (7 - i mod 8)) [0..<n])"
proof -
  have "2 \<le> length src - offset" using len by linarith
  then have header: "BitVector_header src offset = Some n"
    using n len by (simp add: BitVector_header_def sub64_le vec_at_def)
  have bytes: "GetBitVectorLengthInBytes n = (n + 7) div 8"
    using n by (simp add: GetBitVectorLengthInBytes_ceil)
  have avail: "sub64 (sub64 (length src) offset) 2 = length src - offset - 2"
    using len by (simp add: sub64_le)
  have loop: "GetBitVector_loop src offset 0 n
      = Some (map (\<lambda>i. bit (src ! (offset + 2 + i div 8)) (7 - i mod 8)) [0..<n])"
    using GetBitVector_loop_bits [of offset 0 n src] len by simp
  show "GetBitVector src offset
      = Some (map (\<lambda>i. bit (src ! (offset + 2 + i div 8)) (7 - i mod 8)) [0..<n])"
    using len by (simp add: GetBitVector_def header bytes avail loop)
  show "GetBitVector_expected src offset ((n + 7) div 8)
      = Some (map (\<lambda>i. bit (src ! (offset + 2 + i div 8)) (7 - i mod 8)) [0..<n])"
    using len by (simp add: GetBitVector_expected_def header bytes avail loop)
qed

section \<open>Properties\<close>

text \<open>A bitmap written by \<open>SetBitVector\<close> at any offset is read back by \<open>GetBitVector\<close>, and the stream
  before the bitmap keeps its bytes.\<close>

lemma BitVector_roundtrip:
  assumes "length bits < 65536" "offset + 2 + (length bits + 7) div 8 < 2 ^ 32" "length dst < 2 ^ 32"
  shows "\<exists>dst'. SetBitVector dst offset bits = Some (dst', GetBitVectorSerializedSize (length bits))
    \<and> GetBitVector dst' offset = Some bits
    \<and> GetBitVector_expected dst' offset (GetBitVectorLengthInBytes (length bits)) = Some bits
    \<and> (\<forall>j < offset. j < length dst \<longrightarrow> dst' ! j = dst ! j)"
proof -
  let ?n = "length bits"
  have sizes: "GetBitVectorSerializedSize ?n = 2 + (?n + 7) div 8"
    "GetBitVectorLengthInBytes ?n = (?n + 7) div 8"
    using assms(1) by (simp_all add: GetBitVectorSerializedSize_eq GetBitVectorLengthInBytes_ceil)
  obtain d where d: "SetBitVector dst offset bits = Some (d, 2 + (?n + 7) div 8)"
      "length d = max (length dst) (offset + 2 + (?n + 7) div 8)"
      "unat (d ! offset) = ?n div 256" "unat (d ! (offset + 1)) = ?n mod 256"
      "\<forall>i < ?n. bit (d ! (offset + 2 + i div 8)) (7 - i mod 8) = bits ! i"
      "\<forall>j < offset. j < length dst \<longrightarrow> d ! j = dst ! j"
    using SetBitVector_result [OF assms] by blast
  have header: "unat (d ! offset) * 256 + unat (d ! (offset + 1)) = ?n" by (simp only: d(3,4)) simp
  have "map (\<lambda>i. bit (d ! (offset + 2 + i div 8)) (7 - i mod 8)) [0..<?n] = bits"
    using d(5) by (intro nth_equalityI) simp_all
  moreover have "offset + 2 + (?n + 7) div 8 \<le> length d" "length d < 2 ^ 32"
    using d(2) assms by simp_all
  ultimately have "GetBitVector d offset = Some bits"
      "GetBitVector_expected d offset ((?n + 7) div 8) = Some bits"
    using GetBitVector_result [OF header assms(1)] by simp_all
  then show ?thesis using d(1,6) by (simp add: sizes)
qed

end
