(* ===== verification/Quorum.thy ===== *)
theory Quorum
  imports Prelude
begin

text \<open>
  \<open>ConsensusCommon::NumForConsensus\<close> computes \<open>ceil(shardSize * 0.667)\<close> in \<open>double\<close>. The literal
  0.667 is the binary fraction \<open>3003900951456121 / 2^52\<close>, the product is rounded to 53
  significant bits (to nearest, ties to even) and \<open>ceil\<close> of a \<open>double\<close> is exact. The theory models
  that computation on integers scaled by \<open>2^52\<close> and shows what it means for quorums.
\<close>

section \<open>Rounding to 53 bits\<close>

fun nat_bits :: "nat \<Rightarrow> nat" where
  "nat_bits n = (if n = 0 then 0 else Suc (nat_bits (n div 2)))"

declare nat_bits.simps [simp del]

definition round_double :: "nat \<Rightarrow> nat" where
  "round_double p =
     (let s = nat_bits p - 53; q = p div 2 ^ s; r = p mod 2 ^ s
      in if 2 ^ s < 2 * r \<or> (2 * r = 2 ^ s \<and> odd q) then (q + 1) * 2 ^ s else q * 2 ^ s)"

definition TOLERANCE_FRACTION :: nat where
  "TOLERANCE_FRACTION = 3003900951456121"

definition NumForConsensus :: "nat \<Rightarrow> nat" where
  "NumForConsensus shardSize =
     u32 ((round_double (shardSize * TOLERANCE_FRACTION) + (2 ^ 52 - 1)) div 2 ^ 52)"

section \<open>Error bounds\<close>

lemma nat_bits_lower: "0 < n \<Longrightarrow> 2 ^ nat_bits n \<le> 2 * n"
proof (induction n rule: nat_bits.induct)
  case (1 n)
  show ?case
  proof (cases "n div 2 = 0")
    case True
    with 1 have "n = 1" by simp
    then show ?thesis by (simp add: nat_bits.simps)
  next
    case False
    then have "2 ^ nat_bits (n div 2) \<le> 2 * (n div 2)" using 1 by simp
    also have "\<dots> \<le> n" by simp
    finally show ?thesis using 1(2) by (subst nat_bits.simps) simp
  qed
qed

lemma round_double_error:
  "2 ^ 53 * round_double p \<le> (2 ^ 53 + 1) * p" "(2 ^ 53 - 1) * p \<le> 2 ^ 53 * round_double p"
proof -
  define s q r where "s = nat_bits p - 53" and "q = p div 2 ^ s" and "r = p mod 2 ^ s"
  have p: "p = q * 2 ^ s + r" by (simp only: q_def r_def div_mult_mod_eq)
  have r: "r < 2 ^ s" by (simp add: r_def)
  have small: "2 ^ 52 * 2 ^ s \<le> p" if "s \<noteq> 0"
  proof -
    have "s + 53 = nat_bits p" using that by (simp add: s_def)
    moreover have "0 < p"
    proof (rule ccontr)
      assume "\<not> 0 < p"
      then have "s = 0" by (simp add: s_def nat_bits.simps [of 0])
      with that show False by simp
    qed
    ultimately have "2 ^ (s + 53) \<le> 2 * p" using nat_bits_lower by metis
    then show ?thesis by (simp add: power_add)
  qed
  have half: "2 * round_double p \<le> 2 * p + 2 ^ s" "2 * p \<le> 2 * round_double p + 2 ^ s"
    unfolding round_double_def Let_def s_def [symmetric] q_def [symmetric] r_def [symmetric]
    using p r by (auto simp: distrib_right not_less)
  show "2 ^ 53 * round_double p \<le> (2 ^ 53 + 1) * p" "(2 ^ 53 - 1) * p \<le> 2 ^ 53 * round_double p"
  proof (atomize (full), cases "s = 0")
    case True
    then have "round_double p = p"
      by (simp add: round_double_def Let_def s_def [symmetric])
    then show "2 ^ 53 * round_double p \<le> (2 ^ 53 + 1) * p \<and> (2 ^ 53 - 1) * p \<le> 2 ^ 53 * round_double p"
      by simp
  next
    case False
    then show "2 ^ 53 * round_double p \<le> (2 ^ 53 + 1) * p \<and> (2 ^ 53 - 1) * p \<le> 2 ^ 53 * round_double p"
      using half small by simp
  qed
qed

section \<open>The threshold\<close>

lemma ceil_le_iff: "(x + (2 ^ 52 - 1)) div 2 ^ 52 \<le> k \<longleftrightarrow> x \<le> k * (2 ^ 52 :: nat)"
proof -
  have "(x + (2 ^ 52 - 1)) div 2 ^ 52 < Suc k \<longleftrightarrow> x + (2 ^ 52 - 1) < Suc k * (2 ^ 52 :: nat)"
    by (rule div_less_iff_less_mult) simp
  then show ?thesis by (auto simp: less_Suc_eq_le)
qed

lemma NumForConsensus_le:
  assumes "n < 2 ^ 32"
  shows "NumForConsensus n \<le> n" "NumForConsensus n \<le> k \<longleftrightarrow> round_double (n * TOLERANCE_FRACTION) \<le> k * 2 ^ 52"
proof -
  let ?p = "n * TOLERANCE_FRACTION"
  have "round_double ?p \<le> n * 2 ^ 52"
    using round_double_error(1) [of ?p] by (simp add: TOLERANCE_FRACTION_def)
  then have le: "(round_double ?p + (2 ^ 52 - 1)) div 2 ^ 52 \<le> n" by (simp only: ceil_le_iff)
  then have no_wrap: "NumForConsensus n = (round_double ?p + (2 ^ 52 - 1)) div 2 ^ 52"
    using order.strict_trans1 [OF le assms] by (simp add: NumForConsensus_def)
  show "NumForConsensus n \<le> n" using le by (simp only: no_wrap)
  show "NumForConsensus n \<le> k \<longleftrightarrow> round_double ?p \<le> k * 2 ^ 52"
    by (simp only: no_wrap ceil_le_iff)
qed

lemma NumForConsensus_two_thirds:
  assumes "0 < n" "n < 2 ^ 32"
  shows "2 * n < 3 * NumForConsensus n"
proof -
  let ?p = "n * TOLERANCE_FRACTION"
  have "round_double ?p \<le> NumForConsensus n * 2 ^ 52"
    using NumForConsensus_le(2) [OF assms(2)] by blast
  then show ?thesis
    using round_double_error(2) [of ?p] assms(1) by (simp add: TOLERANCE_FRACTION_def)
qed

lemma NumForConsensus_ge_2: "2 \<le> n \<Longrightarrow> n < 2 ^ 32 \<Longrightarrow> 2 \<le> NumForConsensus n"
  using NumForConsensus_two_thirds [of n] by simp

lemma NumForConsensus_pos: "0 < n \<Longrightarrow> n < 2 ^ 32 \<Longrightarrow> 0 < NumForConsensus n"
  using NumForConsensus_two_thirds [of n] by simp

text \<open>Away from multiples of 1000 the rounding never matters.\<close>

lemma NumForConsensus_between:
  assumes n: "n < 2 ^ 32" and a: "667 * n = 1000 * q + r" "0 < r" "r < 1000"
  shows "NumForConsensus n = q + 1"
proof (rule antisym)
  let ?p = "n * TOLERANCE_FRACTION"
  have p: "1000 * ?p = (1000 * q + r) * 2 ^ 52 + n * 168"
    using a(1) by (simp add: TOLERANCE_FRACTION_def)
  have err: "round_double ?p \<le> ?p + n" "?p \<le> round_double ?p + n"
    using round_double_error [of ?p] by (simp_all add: TOLERANCE_FRACTION_def)
  show "NumForConsensus n \<le> q + 1"
    unfolding NumForConsensus_le(2) [OF n] using p err a n by simp
  have "\<not> round_double ?p \<le> q * 2 ^ 52" using p err a n by simp
  then show "q + 1 \<le> NumForConsensus n"
    using NumForConsensus_le(2) [OF n, of q] by simp
qed

section \<open>Multiples of a thousand\<close>

lemma nat_bits_eq: "2 ^ k \<le> n \<Longrightarrow> n < 2 ^ Suc k \<Longrightarrow> nat_bits n = Suc k"
proof (induction k arbitrary: n)
  case 0
  then have "n = 1" by simp
  then show ?case by (simp add: nat_bits.simps)
next
  case (Suc k)
  have "nat_bits (n div 2) = Suc k" using Suc.prems by (intro Suc.IH) auto
  then show ?case using Suc.prems by (subst nat_bits.simps) auto
qed

text \<open>\<open>1000 k * 0.667\<close> is \<open>667 k\<close> plus \<open>168 k / 2^52\<close>; as long as the excess is below half a unit
  in the last place of \<open>667 k\<close> the rounding removes it.\<close>

lemma round_double_multiple:
  assumes k: "2 ^ t \<le> 667 * k" "667 * k < 2 ^ Suc t" "336 * k < 2 ^ t" "t \<le> 52"
  shows "round_double (1000 * k * TOLERANCE_FRACTION) = 667 * k * 2 ^ 52"
proof -
  let ?p = "1000 * k * TOLERANCE_FRACTION"
  have p: "?p = 667 * k * 2 ^ 52 + 168 * k" by (simp add: TOLERANCE_FRACTION_def)
  have "2 ^ t * 2 ^ 52 \<le> 667 * k * (2 :: nat) ^ 52" using k(1) by (rule mult_le_mono1)
  then have low: "2 ^ (t + 52) \<le> ?p" by (simp add: p power_add)
  have "Suc (667 * k) * 2 ^ 52 \<le> 2 ^ Suc t * (2 :: nat) ^ 52" using k(2) by (intro mult_le_mono1) simp
  moreover have "168 * k < (2 :: nat) ^ 52"
    using k(3,4) power_increasing [of t 52 "2 :: nat"] by simp
  ultimately have high: "?p < 2 ^ Suc (t + 52)" by (simp add: p power_add)
  have s: "nat_bits ?p - 53 = t" using nat_bits_eq [OF low high] by simp
  obtain w where w: "(2 :: nat) ^ 52 = 2 ^ t * w" using k(4) by (metis le_imp_power_dvd dvd_def)
  have p': "?p = 2 ^ t * (667 * k * w) + 168 * k"
    unfolding p w by (simp only: mult.commute mult.left_commute mult.assoc)
  have small: "168 * k < (2 :: nat) ^ t" using k(3) by simp
  have q: "?p div 2 ^ t = 667 * k * w" and r: "?p mod 2 ^ t = 168 * k"
    unfolding p' using small by simp_all
  have "\<not> (2 ^ t < 2 * (168 * k) \<or> (2 * (168 * k) = 2 ^ t \<and> odd (667 * k * w)))" using k(3) by simp
  then have "round_double ?p = 667 * k * w * 2 ^ t"
    unfolding round_double_def Let_def s q r by (rule if_not_P)
  also have "\<dots> = 667 * k * 2 ^ 52"
    unfolding w by (simp only: mult.commute mult.left_commute mult.assoc)
  finally show ?thesis .
qed

lemma NumForConsensus_multiple:
  assumes "k < 49"
  shows "NumForConsensus (1000 * k) = 667 * k"
proof -
  have "k = 0 \<or> (\<exists>t. 2 ^ t \<le> 667 * k \<and> 667 * k < 2 ^ Suc t \<and> 336 * k < 2 ^ t \<and> t \<le> (52 :: nat))"
  proof -
    consider "k = 0" | "k = 1" | "2 \<le> k \<and> k \<le> 3" | "4 \<le> k \<and> k \<le> 6" | "7 \<le> k \<and> k \<le> 12"
      | "13 \<le> k \<and> k \<le> 24" | "25 \<le> k \<and> k \<le> 48" using assms by linarith
    then show ?thesis
    proof cases
      case 2
      then show ?thesis by (intro disjI2 exI [of _ 9]) simp
    next
      case 3
      then show ?thesis by (intro disjI2 exI [of _ 10]) simp
    next
      case 4
      then show ?thesis by (intro disjI2 exI [of _ 11]) simp
    next
      case 5
      then show ?thesis by (intro disjI2 exI [of _ 12]) simp
    next
      case 6
      then show ?thesis by (intro disjI2 exI [of _ 13]) simp
    next
      case 7
      then show ?thesis by (intro disjI2 exI [of _ 14]) simp
    qed simp
  qed
  then show ?thesis
  proof
    assume "k = 0"
    then show ?thesis by (simp add: NumForConsensus_def round_double_def nat_bits.simps [of 0])
  next
    assume "\<exists>t. 2 ^ t \<le> 667 * k \<and> 667 * k < 2 ^ Suc t \<and> 336 * k < 2 ^ t \<and> t \<le> (52 :: nat)"
    then have "round_double (1000 * k * TOLERANCE_FRACTION) = 667 * k * 2 ^ 52"
      using round_double_multiple by blast
    then have "NumForConsensus (1000 * k) \<le> m \<longleftrightarrow> 667 * k * 2 ^ 52 \<le> m * 2 ^ 52" for m
      using NumForConsensus_le(2) [of "1000 * k" m] assms by simp
    then have "NumForConsensus (1000 * k) \<le> m \<longleftrightarrow> 667 * k \<le> m" for m by simp
    then show ?thesis by (meson antisym order_refl)
  qed
qed

section \<open>Properties\<close>

text \<open>up to 48999 members, the double-precision computation of \<open>NumForConsensus\<close> gives exactly the
  smallest integer that is at least 66.7 percent of the committee.\<close>

lemma NumForConsensus_exact:
  assumes "n < 49000"
  shows "NumForConsensus n = (667 * n + 999) div 1000"
proof (cases "(667 * n) mod 1000 = 0")
  case True
  then have "1000 dvd 667 * n" by (rule mod_0_imp_dvd)
  then obtain j where "667 * n = 1000 * j" by (rule dvdE)
  then have k: "n = 1000 * (3 * j - 2 * n)" by arith
  then show ?thesis using NumForConsensus_multiple [of "3 * j - 2 * n"] assms by simp
next
  case False
  then obtain q r where qr: "667 * n = 1000 * q + r" "0 < r" "r < 1000"
    by (metis div_mult_mod_eq mod_less_divisor mult.commute neq0_conv zero_less_numeral)
  then have "NumForConsensus n = q + 1"
    by (rule NumForConsensus_between [rotated]) (use assms in simp)
  moreover have "(667 * n + 999) div 1000 = q + 1"
    unfolding qr(1) using qr(2,3) by (intro div_nat_eqI) simp_all
  ultimately show ?thesis by simp
qed

text \<open>C39: any two groups of \<open>NumForConsensus\<close> members of a committee have more than a third of the
  committee in common, and a committee can always supply such a group.\<close>

theorem NumForConsensus_quorum:
  assumes "0 < n" "n < 2 ^ 32"
  shows "NumForConsensus n \<le> n
    \<and> (\<forall>A B. A \<subseteq> {..<n} \<and> B \<subseteq> {..<n} \<and> card A = NumForConsensus n \<and> card B = NumForConsensus n
         \<longrightarrow> n < 3 * card (A \<inter> B))"
proof (intro conjI allI impI)
  show "NumForConsensus n \<le> n" by (rule NumForConsensus_le(1) [OF assms(2)])
next
  fix A B
  assume AB: "A \<subseteq> {..<n} \<and> B \<subseteq> {..<n} \<and> card A = NumForConsensus n \<and> card B = NumForConsensus n"
  then have fin: "finite A" "finite B" using finite_subset by blast+
  have "card (A \<union> B) \<le> n" using AB card_mono [of "{..<n}" "A \<union> B"] by simp
  moreover have "card (A \<union> B) + card (A \<inter> B) = 2 * NumForConsensus n"
    using card_Un_Int [OF fin] AB by simp
  ultimately show "n < 3 * card (A \<inter> B)"
    using NumForConsensus_two_thirds [OF assms] by linarith
qed

theorem NumForConsensus_quorum_witness:
  "NumForConsensus 4 = 3 \<and> 4 < 3 * card ({0, 1, 2} \<inter> {1, 2, 3 :: nat})"
proof -
  have three: "NumForConsensus 4 = 3"
    using NumForConsensus_between [of 4 2 668] by simp
  moreover have "{0, 1, 2} \<subseteq> {..<4 :: nat} \<and> {1, 2, 3} \<subseteq> {..<4 :: nat}
      \<and> card {0, 1, 2 :: nat} = 3 \<and> card {1, 2, 3 :: nat} = 3" by auto
  ultimately show ?thesis using NumForConsensus_quorum [of 4] by auto
qed

text \<open>At 49000 members the rounded product is just above the integer 32683, and one more member is
  required than the exact fraction asks for.\<close>

lemma NumForConsensus_49000: "NumForConsensus 49000 = 32684"
proof -
  have "nat_bits (49000 * TOLERANCE_FRACTION) = Suc 66"
    by (rule nat_bits_eq) (simp_all add: TOLERANCE_FRACTION_def)
  then show ?thesis by (simp add: NumForConsensus_def round_double_def TOLERANCE_FRACTION_def)
qed

end
