(* ===== verification/ConsensusCommon.thy ===== *)
theory ConsensusCommon
  imports Messenger BitVector Quorum
begin

text \<open>
  The base class of the consensus roles, \<open>libConsensus/ConsensusCommon.cpp\<close>: session state, error
  codes, the threshold, aggregation helpers. The members are a record which the roles extend,
  as the C++ classes extend the base class.

  One field has no counterpart in the class: \<open>m_outbox\<close> lists, in order, the calls made to
  \<open>P2PComm\<close>, to the failure handlers and to \<open>DetachedFunction\<close>. Handlers run one at a time (the
  sources serialise them with \<open>m_mutex\<close>); a handler returns \<open>None\<close> when it leaves through an
  uncaught exception or dereferences a null pointer.
\<close>

section \<open>Enumerations\<close>

datatype State =
    INITIAL | ANNOUNCE_DONE | COMMIT_DONE | CHALLENGE_DONE | RESPONSE_DONE
  | COLLECTIVESIG_DONE | FINALCOMMIT_DONE | FINALCHALLENGE_DONE | FINALRESPONSE_DONE | DONE
  | ERROR

fun state_num :: "State \<Rightarrow> nat" where
  "state_num INITIAL = 0"
| "state_num ANNOUNCE_DONE = 1"
| "state_num COMMIT_DONE = 2"
| "state_num CHALLENGE_DONE = 3"
| "state_num RESPONSE_DONE = 4"
| "state_num COLLECTIVESIG_DONE = 5"
| "state_num FINALCOMMIT_DONE = 6"
| "state_num FINALCHALLENGE_DONE = 7"
| "state_num FINALRESPONSE_DONE = 8"
| "state_num DONE = 9"
| "state_num ERROR = 10"

instantiation State :: linorder
begin

definition less_eq_State :: "State \<Rightarrow> State \<Rightarrow> bool" where
  "less_eq_State a b \<longleftrightarrow> state_num a \<le> state_num b"

definition less_State :: "State \<Rightarrow> State \<Rightarrow> bool" where
  "less_State a b \<longleftrightarrow> state_num a < state_num b"

instance
proof
  fix x y z :: State
  show "(x < y) = (x \<le> y \<and> \<not> y \<le> x)" by (auto simp: less_eq_State_def less_State_def)
  show "x \<le> x" by (simp add: less_eq_State_def)
  show "x \<le> y \<Longrightarrow> y \<le> z \<Longrightarrow> x \<le> z" by (simp add: less_eq_State_def)
  show "x \<le> y \<Longrightarrow> y \<le> x \<Longrightarrow> x = y" by (cases x; cases y) (simp_all add: less_eq_State_def)
  show "x \<le> y \<or> y \<le> x" by (auto simp: less_eq_State_def)
qed

end

datatype ConsensusErrorCode =
    NO_ERROR | GENERIC_ERROR | INVALID_DSBLOCK
  | INVALID_MICROBLOCK | INVALID_FINALBLOCK | INVALID_VIEWCHANGEBLOCK
  | INVALID_DSBLOCK_VERSION | INVALID_MICROBLOCK_VERSION | INVALID_FINALBLOCK_VERSION
  | INVALID_FINALBLOCK_NUMBER | INVALID_PREV_FINALBLOCK_HASH | INVALID_VIEWCHANGEBLOCK_VERSION
  | INVALID_TIMESTAMP | INVALID_BLOCK_HASH | INVALID_MICROBLOCK_ROOT_HASH
  | MISSING_TXN | WRONG_TXN_ORDER | WRONG_GASUSED
  | WRONG_REWARDS | FINALBLOCK_MISSING_MICROBLOCKS | FINALBLOCK_INVALID_MICROBLOCK_ROOT_HASH
  | FINALBLOCK_MICROBLOCK_TXNROOT_ERROR | FINALBLOCK_MBS_LEGITIMACY_ERROR | INVALID_DS_MICROBLOCK
  | INVALID_MICROBLOCK_STATE_DELTA_HASH | INVALID_MICROBLOCK_SHARD_ID | INVALID_MICROBLOCK_TRAN_RECEIPT_HASH
  | INVALID_FINALBLOCK_STATE_ROOT | INVALID_FINALBLOCK_STATE_DELTA_HASH | INVALID_COMMHASH

definition CONSENSUSERRORMSG :: "(ConsensusErrorCode \<times> string) list" where
  "CONSENSUSERRORMSG =
    [(NO_ERROR, ''NO_ERROR''),
     (GENERIC_ERROR, ''GENERIC_ERROR''),
     (INVALID_DSBLOCK, ''INVALID_DSBLOCK''),
     (INVALID_MICROBLOCK, ''INVALID_MICROBLOCK''),
     (INVALID_FINALBLOCK, ''INVALID_FINALBLOCK''),
     (INVALID_VIEWCHANGEBLOCK, ''INVALID_VIEWCHANGEBLOCK''),
     (INVALID_DSBLOCK_VERSION, ''INVALID_DSBLOCK_VERSION''),
     (INVALID_MICROBLOCK_VERSION, ''INVALID_MICROBLOCK_VERSION''),
     (INVALID_FINALBLOCK_VERSION, ''INVALID_FINALBLOCK_VERSION''),
     (INVALID_FINALBLOCK_NUMBER, ''INVALID_FINALBLOCK_NUMBER''),
     (INVALID_PREV_FINALBLOCK_HASH, ''INVALID_PREV_FINALBLOCK_HASH''),
     (INVALID_VIEWCHANGEBLOCK_VERSION, ''INVALID_VIEWCHANGEBLOCK_VERSION''),
     (INVALID_TIMESTAMP, ''INVALID_TIMESTAMP''),
     (INVALID_BLOCK_HASH, ''INVALID_BLOCK_HASH''),
     (INVALID_MICROBLOCK_ROOT_HASH, ''INVALID_MICROBLOCK_ROOT_HASH''),
     (MISSING_TXN, ''MISSING_TXN''),
     (WRONG_TXN_ORDER, ''WRONG_TXN_ORDER''),
     (WRONG_GASUSED, ''WRONG_GASUSED''),
     (WRONG_REWARDS, ''WRONG_REWARDS''),
     (INVALID_DS_MICROBLOCK, ''INVALID_DS_MICROBLOCK''),
     (FINALBLOCK_MISSING_MICROBLOCKS, ''FINALBLOCK_MISSING_MICROBLOCKS''),
     (FINALBLOCK_INVALID_MICROBLOCK_ROOT_HASH, ''FINALBLOCK_INVALID_MICROBLOCK_ROOT_HASH''),
     (FINALBLOCK_MICROBLOCK_TXNROOT_ERROR, ''FINALBLOCK_MICROBLOCK_TXNROOT_ERROR''),
     (FINALBLOCK_MBS_LEGITIMACY_ERROR, ''FINALBLOCK_MBS_LEGITIMACY_ERROR''),
     (INVALID_MICROBLOCK_STATE_DELTA_HASH, ''INVALID_MICROBLOCK_STATE_DELTA_HASH''),
     (INVALID_MICROBLOCK_SHARD_ID, ''INVALID_MICROBLOCK_SHARD_ID''),
     (INVALID_FINALBLOCK_STATE_ROOT, ''INVALID_FINALBLOCK_STATE_ROOT''),
     (INVALID_FINALBLOCK_STATE_DELTA_HASH, ''INVALID_FINALBLOCK_STATE_DELTA_HASH''),
     (INVALID_COMMHASH, ''INVALID_COMMHASH'')]"

definition GetConsensusErrorMsg :: "ConsensusErrorCode \<Rightarrow> string" where
  "GetConsensusErrorMsg code =
     (case map_of CONSENSUSERRORMSG code of
        None \<Rightarrow> ''Error. No such error code.''
      | Some m \<Rightarrow> m)"

definition ConsensusStateStrings :: "(State \<times> string) list" where
  "ConsensusStateStrings =
    [(INITIAL, ''INITIAL''),
     (ANNOUNCE_DONE, ''ANNOUNCE_DONE''),
     (COMMIT_DONE, ''COMMIT_DONE''),
     (CHALLENGE_DONE, ''CHALLENGE_DONE''),
     (RESPONSE_DONE, ''RESPONSE_DONE''),
     (COLLECTIVESIG_DONE, ''COLLECTIVESIG_DONE''),
     (FINALCOMMIT_DONE, ''FINALCOMMIT_DONE''),
     (FINALCHALLENGE_DONE, ''FINALCHALLENGE_DONE''),
     (FINALRESPONSE_DONE, ''FINALRESPONSE_DONE''),
     (DONE, ''DONE''),
     (ERROR, ''ERROR'')]"

definition GetStateString :: "State \<Rightarrow> string" where
  "GetStateString st =
     (case map_of ConsensusStateStrings st of None \<Rightarrow> ''UNKNOWN'' | Some m \<Rightarrow> m)"

datatype ConsensusMessageType =
    ANNOUNCE | COMMIT | CHALLENGE | RESPONSE | COLLECTIVESIG | FINALCOMMIT | FINALCHALLENGE
  | FINALRESPONSE | FINALCOLLECTIVESIG | COMMITFAILURE | CONSENSUSFAILURE

fun type_byte :: "ConsensusMessageType \<Rightarrow> byte" where
  "type_byte ANNOUNCE = 0x00"
| "type_byte COMMIT = 0x01"
| "type_byte CHALLENGE = 0x02"
| "type_byte RESPONSE = 0x03"
| "type_byte COLLECTIVESIG = 0x04"
| "type_byte FINALCOMMIT = 0x05"
| "type_byte FINALCHALLENGE = 0x06"
| "type_byte FINALRESPONSE = 0x07"
| "type_byte FINALCOLLECTIVESIG = 0x08"
| "type_byte COMMITFAILURE = 0x09"
| "type_byte CONSENSUSFAILURE = 0x10"

section \<open>Session state\<close>

datatype effect =
    SendMessage "Peer list" bytes
  | SpreadRumor bytes
  | NodeCommitFailureHandler bytes Peer
  | ShardCommitFailureHandler "(nat \<times> bytes) list"
  | StartCommitWindow

record 'pt ConsensusCommon =
  m_state :: State
  m_consensusErrorCode :: ConsensusErrorCode
  m_consensusID :: nat
  m_blockNumber :: nat
  m_blockHash :: bytes
  m_myID :: nat
  m_myPrivKey :: PrivKey
  m_committee :: "'pt DequeOfNode"
  m_messageToCosign :: bytes
  m_classByte :: byte
  m_insByte :: byte
  m_collectiveSig :: Signature
  m_responseMap :: "bool list"
  m_CS1 :: Signature
  m_B1 :: "bool list"
  m_CS2 :: Signature
  m_B2 :: "bool list"
  m_commitSecret :: "CommitSecret option"
  m_commitPoint :: "'pt CommitPoint option"
  m_outbox :: "effect list"

definition emit :: "effect \<Rightarrow> ('pt, 'z) ConsensusCommon_scheme \<Rightarrow> ('pt, 'z) ConsensusCommon_scheme" where
  "emit out s = s\<lparr>m_outbox := m_outbox s @ [out]\<rparr>"

section \<open>Operations\<close>

definition GetCommitteeMember :: "'pt openssl \<Rightarrow> ('pt, 'z) ConsensusCommon_scheme \<Rightarrow> nat \<Rightarrow> 'pt PairOfNode" where
  "GetCommitteeMember B s index =
     (if length (m_committee s) \<le> index then (PubKey_default B, Peer_default)
      else m_committee s ! index)"

definition SignMessage ::
    "'pt openssl \<Rightarrow> ('pt, 'z) ConsensusCommon_scheme \<Rightarrow> bytes \<Rightarrow> nat \<Rightarrow> nat \<Rightarrow> int option list
     \<Rightarrow> Signature option" where
  "SignMessage B s msg offset sz draws =
     (case Schnorr_Sign_range B msg offset sz (m_myPrivKey s)
             (fst (GetCommitteeMember B s (m_myID s))) draws of
        SignTrue sig \<Rightarrow> Some sig
      | SignFalse \<Rightarrow> Some Signature_default
      | SignOutOfDraws \<Rightarrow> None
      | SignFault \<Rightarrow> None)"

definition VerifyMessage ::
    "'pt openssl \<Rightarrow> ('pt, 'z) ConsensusCommon_scheme \<Rightarrow> bytes \<Rightarrow> nat \<Rightarrow> nat \<Rightarrow> Signature \<Rightarrow> nat
     \<Rightarrow> bool option" where
  "VerifyMessage B s msg offset sz toverify peer_id =
     Schnorr_Verify_range B msg offset sz toverify (fst (GetCommitteeMember B s peer_id))"

text \<open>The loop of \<open>AggregateKeys\<close> advances an iterator of the committee with the bitmap; a set bit
  past the end of the committee reads outside the deque.\<close>

fun select_keys :: "bool list \<Rightarrow> 'pt DequeOfNode \<Rightarrow> 'pt PubKey list option" where
  "select_keys [] j = Some []"
| "select_keys (False # peer_map) j = select_keys peer_map (tl j)"
| "select_keys (True # peer_map) [] = None"
| "select_keys (True # peer_map) (node # j) =
     map_option (\<lambda>keys. fst node # keys) (select_keys peer_map j)"

definition AggregateKeys :: "'pt openssl \<Rightarrow> 'pt DequeOfNode \<Rightarrow> bool list \<Rightarrow> 'pt PubKey option" where
  "AggregateKeys B committee peer_map = do {
     keys \<leftarrow> select_keys peer_map committee;
     Some (case AggregatePubKeys B keys of None \<Rightarrow> PubKey_default B | Some result \<Rightarrow> result) }"

definition AggregateCommits :: "'pt openssl \<Rightarrow> 'pt CommitPoint list \<Rightarrow> 'pt CommitPoint" where
  "AggregateCommits B commits =
     (case MultiSig_AggregateCommits B commits of
        None \<Rightarrow> CommitPoint_default B
      | Some aggregated_commit \<Rightarrow> CommitPoint_copy aggregated_commit)"

definition AggregateResponses :: "'pt openssl \<Rightarrow> Response list \<Rightarrow> Response" where
  "AggregateResponses B responses =
     (case MultiSig_AggregateResponses B responses of
        None \<Rightarrow> Response_default
      | Some aggregated_response \<Rightarrow> Response_copy aggregated_response)"

definition AggregateSign :: "Challenge \<Rightarrow> Response \<Rightarrow> Signature" where
  "AggregateSign challenge aggregated_response =
     (case MultiSig_AggregateSign challenge aggregated_response of
        None \<Rightarrow> Signature_default
      | Some result \<Rightarrow> result)"

definition GetChallenge ::
    "'pt openssl \<Rightarrow> bytes \<Rightarrow> 'pt CommitPoint \<Rightarrow> 'pt PubKey \<Rightarrow> Challenge option" where
  "GetChallenge B msg aggregated_commit aggregated_key =
     Challenge_from B aggregated_commit aggregated_key msg"

definition SetConsensusErrorCode ::
    "ConsensusErrorCode \<Rightarrow> ('pt, 'z) ConsensusCommon_scheme \<Rightarrow> ('pt, 'z) ConsensusCommon_scheme" where
  "SetConsensusErrorCode ErrorCode s = s\<lparr>m_consensusErrorCode := ErrorCode\<rparr>"

definition RecoveryAndProcessFromANewState ::
    "State \<Rightarrow> ('pt, 'z) ConsensusCommon_scheme \<Rightarrow> ('pt, 'z) ConsensusCommon_scheme" where
  "RecoveryAndProcessFromANewState newState s = s\<lparr>m_state := newState\<rparr>"

definition CanProcessMessage :: "('pt, 'z) ConsensusCommon_scheme \<Rightarrow> bytes \<Rightarrow> nat \<Rightarrow> bool" where
  "CanProcessMessage s message offset =
     (if length message \<le> offset then False
      else
        let messageType = message ! offset
        in if messageType = type_byte COLLECTIVESIG then m_state s \<noteq> INITIAL
           else if messageType = type_byte FINALCOLLECTIVESIG
                then \<not> (m_state s = INITIAL \<or> m_state s = COMMIT_DONE \<or> m_state s = RESPONSE_DONE)
           else True)"

text \<open>The key pair a role signs with, and the three bytes in front of every consensus message.\<close>

definition myKey :: "'pt openssl \<Rightarrow> ('pt, 'z) ConsensusCommon_scheme \<Rightarrow> 'pt PairOfKey" where
  "myKey B s = (m_myPrivKey s, fst (GetCommitteeMember B s (m_myID s)))"

definition message_header :: "('pt, 'z) ConsensusCommon_scheme \<Rightarrow> ConsensusMessageType \<Rightarrow> bytes" where
  "message_header s type = [m_classByte s, m_insByte s, type_byte type]"

section \<open>Environment\<close>

text \<open>The OpenSSL and protobuf parameters and the constants read from the configuration
  (\<open>common/Constants.cpp\<close>, \<open>libNetwork/Guard.cpp\<close>).\<close>

record 'pt env =
  ossl :: "'pt openssl"
  pb :: protobufs
  GUARD_MODE :: bool
  NumOfDSGuard :: nat
  DS_NUM_CONSENSUS_SUBSETS :: nat
  SHARD_NUM_CONSENSUS_SUBSETS :: nat
  COMMIT_TOLERANCE_PERCENT :: nat
  BROADCAST_GOSSIP_MODE :: bool

section \<open>Facts shared by the roles\<close>

lemma select_keys_fits:
  "length peer_map \<le> length committee \<Longrightarrow>
   select_keys peer_map committee
   = Some (map fst (map snd (filter fst (zip peer_map committee))))"
proof (induction peer_map arbitrary: committee)
  case (Cons b peer_map)
  then show ?case by (cases b; cases committee) auto
qed simp

lemma AggregateKeys_total:
  "length peer_map \<le> length committee \<Longrightarrow> AggregateKeys B committee peer_map \<noteq> None"
  by (simp add: AggregateKeys_def select_keys_fits)

lemma GetChallenge_total: "GetChallenge B msg ac ak \<noteq> None"
proof -
  have "u32 (length msg) \<le> length msg" by (simp add: u32_def)
  then show ?thesis
    by (auto simp: GetChallenge_def Challenge_from_def Challenge_Set_def SHA2_Update_range_def Let_def
        split: option.splits)
qed

lemma MultiSigVerify_total: "MultiSigVerify B message sig key \<noteq> None"
proof -
  have "u32 (length message) \<le> length message" by (simp add: u32_def)
  then show ?thesis
    by (auto simp: MultiSigVerify_def MultiSigVerify_range_def SHA2_Update_range_def Let_def
        split: option.splits)
qed

text \<open>The message of the second round: the first message, its collective signature, its bitmap.\<close>

definition extended :: "bytes \<Rightarrow> Signature \<Rightarrow> bool list \<Rightarrow> bytes \<Rightarrow> bool" where
  "extended base sig bits message \<longleftrightarrow>
     (\<exists>sz. let m1 = fst (Signature_Serialize base (u32 (length base)) sig)
           in SetBitVector m1 (u32 (length m1)) bits = Some (message, sz))"

lemma MultiSigVerify_fits:
  assumes "openssl_ok B g" "MultiSigVerify B message sig key = Some True"
  shows "Signature_fits sig"
  using assms openssl_order(2) [OF assms(1)]
  by (auto simp: MultiSigVerify_def MultiSigVerify_range_def Signature_fits_def bn_fits_def
      split: if_splits)

lemma extend_message:
  assumes fits: "Signature_fits sig" and small: "length m < 2 ^ 31" and bits: "length bits < 2 ^ 16"
  shows "\<exists>msg sz. SetBitVector (fst (Signature_Serialize m (u32 (length m)) sig))
      (u32 (length (fst (Signature_Serialize m (u32 (length m)) sig)))) bits = Some (msg, sz)
    \<and> extended m sig bits msg"
proof -
  let ?m1 = "fst (Signature_Serialize m (u32 (length m)) sig)"
  have len: "length ?m1 = length m + 64"
    using Signature_roundtrip_aux(2) [OF fits, of "u32 (length m)" m] small by simp
  have "u32 (length ?m1) + 2 + (length bits + 7) div 8 < 2 ^ 32" using len small bits by simp
  from SetBitVector_result [OF _ this, of ?m1] obtain msg sz where
    "SetBitVector ?m1 (u32 (length ?m1)) bits = Some (msg, sz)"
    using len small bits by auto
  then show ?thesis by (auto simp: extended_def Let_def)
qed

lemma message_header_length [simp]: "length (message_header s t) = 3"
  by (simp add: message_header_def)

section \<open>A small environment\<close>

definition toy_env :: "int env" where
  "toy_env = \<lparr>ossl = toy, pb = toy_protobufs, GUARD_MODE = False, NumOfDSGuard = 0,
     DS_NUM_CONSENSUS_SUBSETS = 1, SHARD_NUM_CONSENSUS_SUBSETS = 2, COMMIT_TOLERANCE_PERCENT = 80,
     BROADCAST_GOSSIP_MODE = False\<rparr>"

section \<open>Properties\<close>

text \<open>Every error code has a message of its own name in \<open>CONSENSUSERRORMSG\<close>, except
  \<open>INVALID_MICROBLOCK_TRAN_RECEIPT_HASH\<close>, which the table leaves out.\<close>

lemma GetConsensusErrorMsg_table:
  "GetConsensusErrorMsg code = ''Error. No such error code.''
     \<longleftrightarrow> code = INVALID_MICROBLOCK_TRAN_RECEIPT_HASH"
  by (cases code) (simp_all add: GetConsensusErrorMsg_def CONSENSUSERRORMSG_def)

end
