(* ===== verification/Blocks.thy ===== *)
theory Blocks
  imports SWInfo AccountStore Chain ConsensusCommon
begin

text \<open>
  The blocks of \<open>libData/BlockData\<close> and their messages in \<open>libMessage/Messenger.cpp\<close>: directory (DS), view change
  (VC), fallback, final (Tx) and micro blocks. A block is a header, the co-signatures of the consensus that agreed on
  it, a time stamp and the hash of its header; a body where it has one. The classes are records: a header class
  extends \<open>BlockHeaderBase\<close>, a block class extends \<open>BlockBase\<close>, and the members have the prefix of their class
  (\<open>dsh_blockNum\<close> is \<open>m_blockNum\<close> of \<open>DSBlockHeader\<close>). Numbers are words of the width of the C++ type.

  The protobuf runtime is a parameter: per message type a serialiser, and a parser that is \<open>None\<close> when the message is
  not initialised. An unset field is \<open>None\<close>; the fields that the schema keeps for old versions and the code does not
  use are left out. The clock and the contents of memory that the code leaves uninitialised are parameters too.

  A \<open>ProtobufTo\<close> function returns the object it was given, as far as it has been assigned, and its result. \<open>None\<close> is an
  exception of the number writer, which no call here reaches.
\<close>

section \<open>Sharding structure\<close>

type_synonym 'pt ShardNode = "'pt PubKey \<times> Peer \<times> 16 word"
type_synonym 'pt Shard = "'pt ShardNode list"
type_synonym 'pt DequeOfShard = "'pt Shard list"

section \<open>Classes\<close>

record CoSignatures =
  cs_CS1 :: Signature
  cs_B1 :: "bool list"
  cs_CS2 :: Signature
  cs_B2 :: "bool list"

definition CoSignatures_new :: "nat \<Rightarrow> CoSignatures" where
  "CoSignatures_new bitmaplen = \<lparr>cs_CS1 = Signature_default, cs_B1 = replicate bitmaplen False, cs_CS2 = Signature_default,
     cs_B2 = replicate bitmaplen False\<rparr>"

record BlockBase =
  bb_blockHash :: bytes
  bb_timestamp :: "64 word"
  bb_cosigs :: CoSignatures

record BlockHeaderBase =
  hb_version :: "32 word"
  hb_committeeHash :: bytes
  hb_prevHash :: bytes

record 'pt DSBlockHeader = BlockHeaderBase +
  dsh_dsDifficulty :: "8 word"
  dsh_difficulty :: "8 word"
  dsh_leaderPubKey :: "'pt PubKey"
  dsh_blockNum :: "64 word"
  dsh_epochNum :: "64 word"
  dsh_gasPrice :: "128 word"
  dsh_swInfo :: SWInfo
  dsh_PoWDSWinners :: "('pt PubKey \<times> Peer) list"
  dsh_shardingHash :: bytes
  dsh_reservedField :: bytes

record 'pt TxBlockHeader = BlockHeaderBase +
  txh_gasLimit :: "64 word"
  txh_gasUsed :: "64 word"
  txh_rewards :: "128 word"
  txh_blockNum :: "64 word"
  txh_stateRootHash :: bytes
  txh_stateDeltaHash :: bytes
  txh_mbInfoHash :: bytes
  txh_numTxs :: "32 word"
  txh_minerPubKey :: "'pt PubKey"
  txh_dsBlockNum :: "64 word"

record 'pt VCBlockHeader = BlockHeaderBase +
  vch_ViewChangeDSEpochNo :: "64 word"
  vch_ViewChangeEpochNo :: "64 word"
  vch_ViewChangeState :: "8 word"
  vch_CandidateLeaderNetworkInfo :: Peer
  vch_CandidateLeaderPubKey :: "'pt PubKey"
  vch_VCCounter :: "32 word"
  vch_FaultyLeaders :: "'pt PairOfNode list"

record 'pt FallbackBlockHeader = BlockHeaderBase +
  fbh_fallbackDSEpochNo :: "64 word"
  fbh_fallbackEpochNo :: "64 word"
  fbh_fallbackState :: "8 word"
  fbh_stateRootHash :: bytes
  fbh_leaderConsensusId :: "16 word"
  fbh_leaderNetworkInfo :: Peer
  fbh_leaderPubKey :: "'pt PubKey"
  fbh_shardId :: "32 word"

record 'pt MicroBlockHeader = BlockHeaderBase +
  mbh_shardId :: "32 word"
  mbh_gasLimit :: "64 word"
  mbh_gasUsed :: "64 word"
  mbh_rewards :: "128 word"
  mbh_epochNum :: "64 word"
  mbh_txRootHash :: bytes
  mbh_stateDeltaHash :: bytes
  mbh_tranReceiptHash :: bytes
  mbh_numTxs :: "32 word"
  mbh_minerPubKey :: "'pt PubKey"
  mbh_dsBlockNum :: "64 word"

record MicroBlockInfo =
  mbi_microBlockHash :: bytes
  mbi_txnRootHash :: bytes
  mbi_shardId :: "32 word"

record 'pt DSBlock = BlockBase +
  ds_header :: "'pt DSBlockHeader"

record 'pt TxBlock = BlockBase +
  tx_header :: "'pt TxBlockHeader"
  tx_mbInfos :: "MicroBlockInfo list"

record 'pt VCBlock = BlockBase +
  vc_header :: "'pt VCBlockHeader"

record 'pt FallbackBlock = BlockBase +
  fb_header :: "'pt FallbackBlockHeader"

record 'pt MicroBlock = BlockBase +
  mb_header :: "'pt MicroBlockHeader"
  mb_tranHashes :: "bytes list"

record 'pt FallbackBlockWShardingStructure =
  fbs_fallbackblock :: "'pt FallbackBlock"
  fbs_shards :: "'pt DequeOfShard"

definition SetCoSignatures :: "('pt, 'z) ConsensusCommon_scheme \<Rightarrow> 'y BlockBase_scheme \<Rightarrow> 'y BlockBase_scheme" where
  "SetCoSignatures src b = b\<lparr>bb_cosigs := \<lparr>cs_CS1 = m_CS1 src, cs_B1 = m_B1 src, cs_CS2 = m_CS2 src, cs_B2 = m_B2 src\<rparr>\<rparr>"

section \<open>Messages\<close>

record ProtoBlockHeaderBase =
  phb_version :: "32 word option"
  phb_committeehash :: "bytes option"
  phb_prevhash :: "bytes option"

record ProtoCoSignatures =
  pcs_cs1 :: "bytes option"
  pcs_b1 :: "bool list"
  pcs_cs2 :: "bytes option"
  pcs_b2 :: "bool list"

record ProtoBlockBase =
  pbb_blockhash :: "bytes option"
  pbb_cosigs :: "ProtoCoSignatures option"
  pbb_timestamp :: "64 word option"

record ProtoNode =
  pn_pubkey :: "bytes option"
  pn_peer :: "bytes option"

record ProtoDSBlockHeader =
  pds_blockheaderbase :: "ProtoBlockHeaderBase option"
  pds_dsdifficulty :: "32 word option"
  pds_difficulty :: "32 word option"
  pds_leaderpubkey :: "bytes option"
  pds_blocknum :: "64 word option"
  pds_epochnum :: "64 word option"
  pds_gasprice :: "bytes option"
  pds_swinfo :: "bytes option"
  pds_dswinners :: "ProtoNode list"
  pds_hash :: "(bytes option \<times> bytes option) option"

record ProtoTxBlockHeader =
  ptx_blockheaderbase :: "ProtoBlockHeaderBase option"
  ptx_gaslimit :: "64 word option"
  ptx_gasused :: "64 word option"
  ptx_rewards :: "bytes option"
  ptx_blocknum :: "64 word option"
  ptx_hash :: "(bytes option \<times> bytes option \<times> bytes option) option"
  ptx_numtxs :: "32 word option"
  ptx_minerpubkey :: "bytes option"
  ptx_dsblocknum :: "64 word option"

record ProtoMbInfo =
  pmi_mbhash :: "bytes option"
  pmi_txroot :: "bytes option"
  pmi_shardid :: "32 word option"

record ProtoVCBlockHeader =
  pvc_blockheaderbase :: "ProtoBlockHeaderBase option"
  pvc_viewchangedsepochno :: "64 word option"
  pvc_viewchangeepochno :: "64 word option"
  pvc_viewchangestate :: "32 word option"
  pvc_candidateleadernetworkinfo :: "bytes option"
  pvc_candidateleaderpubkey :: "bytes option"
  pvc_vccounter :: "32 word option"
  pvc_faultyleaders :: "ProtoNode list"

record ProtoFallbackBlockHeader =
  pfb_blockheaderbase :: "ProtoBlockHeaderBase option"
  pfb_fallbackdsepochno :: "64 word option"
  pfb_fallbackepochno :: "64 word option"
  pfb_fallbackstate :: "32 word option"
  pfb_stateroothash :: "bytes option"
  pfb_leaderconsensusid :: "32 word option"
  pfb_leadernetworkinfo :: "bytes option"
  pfb_leaderpubkey :: "bytes option"
  pfb_shardid :: "32 word option"

record ProtoMicroBlockHeader =
  pmb_blockheaderbase :: "ProtoBlockHeaderBase option"
  pmb_shardid :: "32 word option"
  pmb_gaslimit :: "64 word option"
  pmb_gasused :: "64 word option"
  pmb_rewards :: "bytes option"
  pmb_epochnum :: "64 word option"
  pmb_txroothash :: "bytes option"
  pmb_numtxs :: "32 word option"
  pmb_minerpubkey :: "bytes option"
  pmb_dsblocknum :: "64 word option"
  pmb_statedeltahash :: "bytes option"
  pmb_tranreceipthash :: "bytes option"

text \<open>A block message: header, body and block base. Directory, view change and fallback blocks have no body.\<close>

record ('h, 'b) ProtoBlock =
  pb_header :: "'h option"
  pb_body :: 'b
  pb_blockbase :: "ProtoBlockBase option"

record ProtoShardMember =
  psm_pubkey :: "bytes option"
  psm_peerinfo :: "bytes option"
  psm_reputation :: "32 word option"

record ProtoShardingStructure =
  pss_version :: "32 word option"
  pss_shards :: "ProtoShardMember list list"

type_synonym ProtoDSBlock = "(ProtoDSBlockHeader, unit) ProtoBlock"
type_synonym ProtoTxBlock = "(ProtoTxBlockHeader, ProtoMbInfo list) ProtoBlock"
type_synonym ProtoVCBlock = "(ProtoVCBlockHeader, unit) ProtoBlock"
type_synonym ProtoFallbackBlock = "(ProtoFallbackBlockHeader, unit) ProtoBlock"
type_synonym ProtoMicroBlock = "(ProtoMicroBlockHeader, bytes list) ProtoBlock"
type_synonym ProtoFallbackWSharding = "ProtoFallbackBlock option \<times> ProtoShardingStructure option"

record 'm wire =
  ToArray :: "'m \<Rightarrow> bytes"
  FromArray :: "bytes \<Rightarrow> 'm option"

record block_protobuf =
  wDSBlockHeader :: "ProtoDSBlockHeader wire"
  wDSBlock :: "ProtoDSBlock wire"
  wTxBlockHeader :: "ProtoTxBlockHeader wire"
  wTxBlock :: "ProtoTxBlock wire"
  wVCBlockHeader :: "ProtoVCBlockHeader wire"
  wVCBlock :: "ProtoVCBlock wire"
  wFallbackBlockHeader :: "ProtoFallbackBlockHeader wire"
  wFallbackBlock :: "ProtoFallbackBlock wire"
  wFallbackWSharding :: "ProtoFallbackWSharding wire"
  wMicroBlockHeader :: "ProtoMicroBlockHeader wire"
  wMicroBlock :: "ProtoMicroBlock wire"
  wMbInfo :: "ProtoMbInfo wire"
  wShardingStructure :: "ProtoShardingStructure wire"
  wCommittee :: "bytes list wire"

record 'pt block_env =
  be_ossl :: "'pt openssl"
  be_proto :: block_protobuf
  be_now :: "64 word"
  be_memory :: bytes
  SHARDINGSTRUCTURE_VERSION :: "32 word"

section \<open>Fields\<close>

definition SerializableToProtobufByteArray :: "(bytes \<Rightarrow> nat \<Rightarrow> (bytes \<times> nat) option) \<Rightarrow> bytes option" where
  "SerializableToProtobufByteArray Serialize = map_option fst (Serialize [] 0)"

definition ProtobufByteArrayToSerializable :: "(bytes \<Rightarrow> nat \<Rightarrow> 'x \<times> int) \<Rightarrow> bytes \<Rightarrow> 'x option" where
  "ProtobufByteArrayToSerializable Deserialize byteArray =
     (case Deserialize byteArray 0 of (x, rc) \<Rightarrow> if rc = 0 then Some x else None)"

definition NumberToProtobufByteArray :: "128 word \<Rightarrow> bytes option" where
  "NumberToProtobufByteArray number = Serializable_SetNumber [] 0 (unat number) UINT128_SIZE"

definition ProtobufByteArrayToNumber :: "bytes \<Rightarrow> 128 word option" where
  "ProtobufByteArrayToNumber byteArray = map_option of_nat (Serializable_GetNumber 128 byteArray 0 UINT128_SIZE)"

abbreviation PubKey_out :: "'pt openssl \<Rightarrow> 'pt PubKey \<Rightarrow> bytes option" where
  "PubKey_out B k \<equiv> SerializableToProtobufByteArray (\<lambda>dst offset. Some (PubKey_Serialize B dst offset k))"

abbreviation PubKey_in :: "'pt openssl \<Rightarrow> bytes \<Rightarrow> 'pt PubKey option" where
  "PubKey_in B \<equiv> ProtobufByteArrayToSerializable (PubKey_Deserialize B (PubKey_default B))"

abbreviation Peer_out :: "Peer \<Rightarrow> bytes option" where
  "Peer_out p \<equiv> SerializableToProtobufByteArray (\<lambda>dst offset. Peer_Serialize dst offset p)"

abbreviation Peer_in :: "bytes \<Rightarrow> Peer option" where
  "Peer_in \<equiv> ProtobufByteArrayToSerializable (Peer_Deserialize Peer_default)"

abbreviation Signature_out :: "Signature \<Rightarrow> bytes option" where
  "Signature_out s \<equiv> SerializableToProtobufByteArray (\<lambda>dst offset. Some (Signature_Serialize dst offset s))"

abbreviation Signature_in :: "bytes \<Rightarrow> Signature option" where
  "Signature_in \<equiv> ProtobufByteArrayToSerializable (Signature_Deserialize Signature_default)"

abbreviation SWInfo_out :: "SWInfo \<Rightarrow> bytes option" where
  "SWInfo_out s \<equiv> SerializableToProtobufByteArray (\<lambda>dst offset. SWInfo_Serialize dst offset s)"

abbreviation SWInfo_in :: "bytes \<Rightarrow> SWInfo option" where
  "SWInfo_in \<equiv> ProtobufByteArrayToSerializable (SWInfo_Deserialize SWInfo_default)"

text \<open>The copy of at most \<open>length memory\<close> bytes over an array that has the contents \<open>memory\<close>.\<close>

definition copy_over :: "bytes \<Rightarrow> bytes \<Rightarrow> bytes" where
  "copy_over memory src = take (length memory) src @ drop (length src) memory"

text \<open>The bytes of a field that may be unset, where the code does not check it.\<close>

definition bytes_or_empty :: "bytes option \<Rightarrow> bytes" where
  "bytes_or_empty f = (case f of None \<Rightarrow> [] | Some b \<Rightarrow> b)"

text \<open>An ordered map as the list of its entries: the assignment through \<open>operator[]\<close>.\<close>

fun map_assign :: "('k \<Rightarrow> 'k \<Rightarrow> bool) \<Rightarrow> 'k \<Rightarrow> 'v \<Rightarrow> ('k \<times> 'v) list \<Rightarrow> ('k \<times> 'v) list" where
  "map_assign lt k v [] = [(k, v)]"
| "map_assign lt k v ((k', v') # xs) =
     (if lt k' k then (k', v') # map_assign lt k v xs
      else if lt k k' then (k, v) # (k', v') # xs
      else (k', v) # xs)"

section \<open>Block base and header base\<close>

definition CheckRequiredFieldsProtoBlockBaseCoSignatures :: "ProtoCoSignatures \<Rightarrow> bool" where
  "CheckRequiredFieldsProtoBlockBaseCoSignatures p \<longleftrightarrow> pcs_cs1 p \<noteq> None \<and> pcs_cs2 p \<noteq> None"

definition CheckRequiredFieldsProtoBlockBase :: "ProtoBlockBase \<Rightarrow> bool" where
  "CheckRequiredFieldsProtoBlockBase p \<longleftrightarrow>
     pbb_blockhash p \<noteq> None \<and> pbb_cosigs p \<noteq> None \<and> pbb_timestamp p \<noteq> None
     \<and> CheckRequiredFieldsProtoBlockBaseCoSignatures (the (pbb_cosigs p))"

definition CheckRequiredFieldsProtoBlockHeaderBase :: "ProtoBlockHeaderBase \<Rightarrow> bool" where
  "CheckRequiredFieldsProtoBlockHeaderBase p \<longleftrightarrow>
     phb_version p \<noteq> None \<and> phb_committeehash p \<noteq> None \<and> phb_prevhash p \<noteq> None"

definition BlockBaseToProtobuf :: "'z BlockBase_scheme \<Rightarrow> ProtoBlockBase option" where
  "BlockBaseToProtobuf base = do {
     let c = bb_cosigs base;
     cs1 \<leftarrow> Signature_out (cs_CS1 c);
     cs2 \<leftarrow> Signature_out (cs_CS2 c);
     Some \<lparr>pbb_blockhash = Some (bb_blockHash base),
           pbb_cosigs = Some \<lparr>pcs_cs1 = Some cs1, pcs_b1 = cs_B1 c, pcs_cs2 = Some cs2, pcs_b2 = cs_B2 c\<rparr>,
           pbb_timestamp = Some (bb_timestamp base)\<rparr> }"

definition ProtobufToBlockBase :: "ProtoBlockBase \<Rightarrow> 'z BlockBase_scheme \<Rightarrow> 'z BlockBase_scheme \<times> bool" where
  "ProtobufToBlockBase p base =
     (if \<not> CheckRequiredFieldsProtoBlockBase p then (base, False)
      else let c = the (pbb_cosigs p)
           in case (Signature_in (the (pcs_cs1 c)), Signature_in (the (pcs_cs2 c))) of
                (Some cs1, Some cs2) \<Rightarrow>
                  (let base1 = base\<lparr>bb_cosigs := \<lparr>cs_CS1 = cs1, cs_B1 = pcs_b1 c, cs_CS2 = cs2, cs_B2 = pcs_b2 c\<rparr>\<rparr>
                   in case CopyWithSizeCheck 32 (the (pbb_blockhash p)) of
                        None \<Rightarrow> (base1, False)
                      | Some blockHash \<Rightarrow> (base1\<lparr>bb_blockHash := blockHash, bb_timestamp := the (pbb_timestamp p)\<rparr>, True))
              | _ \<Rightarrow> (base, False))"

definition BlockHeaderBaseToProtobuf :: "'z BlockHeaderBase_scheme \<Rightarrow> ProtoBlockHeaderBase" where
  "BlockHeaderBaseToProtobuf base =
     \<lparr>phb_version = Some (hb_version base), phb_committeehash = Some (hb_committeeHash base), phb_prevhash = Some (hb_prevHash base)\<rparr>"

definition ProtobufToBlockHeaderBase ::
    "ProtoBlockHeaderBase \<Rightarrow> 'z BlockHeaderBase_scheme \<Rightarrow> 'z BlockHeaderBase_scheme \<times> bool" where
  "ProtobufToBlockHeaderBase p base =
     (if \<not> CheckRequiredFieldsProtoBlockHeaderBase p then (base, False)
      else let base1 = base\<lparr>hb_version := the (phb_version p)\<rparr>
           in case CopyWithSizeCheck 32 (the (phb_committeehash p)) of
                None \<Rightarrow> (base1, False)
              | Some committeeHash \<Rightarrow>
                  (let base2 = base1\<lparr>hb_committeeHash := committeeHash\<rparr>
                   in case CopyWithSizeCheck 32 (the (phb_prevhash p)) of
                        None \<Rightarrow> (base2, False)
                      | Some prevHash \<Rightarrow> (base2\<lparr>hb_prevHash := prevHash\<rparr>, True)))"

text \<open>The tail of every header reader: the constructor leaves version and hashes at zero, then the base is read.\<close>

definition read_header_base :: "'h BlockHeaderBase_scheme option \<Rightarrow> ProtoBlockHeaderBase option \<Rightarrow> 'h BlockHeaderBase_scheme
    \<Rightarrow> 'h BlockHeaderBase_scheme \<times> bool" where
  "read_header_base h base old = (case h of None \<Rightarrow> (old, False) | Some h' \<Rightarrow> ProtobufToBlockHeaderBase (the base) h')"

text \<open>Serialisation and reading of a whole message, the common body of the \<open>Set\<close> and \<open>Get\<close> functions.\<close>

definition set_message :: "'m wire \<Rightarrow> 'm option \<Rightarrow> bytes \<Rightarrow> nat \<Rightarrow> (bytes \<times> bool) option" where
  "set_message w m dst offset = do {
     result \<leftarrow> m;
     SerializeToArray (ToArray w result) dst offset }"

definition get_message :: "'m wire \<Rightarrow> ('m \<Rightarrow> 'x \<Rightarrow> ('x \<times> bool) option) \<Rightarrow> bytes \<Rightarrow> nat \<Rightarrow> 'x \<Rightarrow> ('x \<times> bool) option" where
  "get_message w read src offset x =
     (if offset \<ge> length src then Some (x, False)
      else case FromArray w (drop offset src) of
             None \<Rightarrow> Some (x, False)
           | Some result \<Rightarrow> read result x)"

text \<open>\<open>BlockHeaderBase::GetMyHash\<close>; the result of \<open>Serialize\<close> is ignored.\<close>

definition GetMyHash :: "'pt openssl \<Rightarrow> (bytes \<Rightarrow> nat \<Rightarrow> (bytes \<times> bool) option) \<Rightarrow> bytes option" where
  "GetMyHash B Serialize = do {
     (vec, _) \<leftarrow> Serialize [] 0;
     Some (SHA2_Finalize B (SHA2_Update SHA2_Reset vec)) }"

section \<open>Directory blocks\<close>

definition CheckRequiredFieldsProtoDSBlockPowDSWinner :: "ProtoNode \<Rightarrow> bool" where
  "CheckRequiredFieldsProtoDSBlockPowDSWinner p \<longleftrightarrow> pn_pubkey p \<noteq> None \<and> pn_peer p \<noteq> None"

definition CheckRequiredFieldsProtoDSBlockDSBlockHashSet :: "bytes option \<times> bytes option \<Rightarrow> bool" where
  "CheckRequiredFieldsProtoDSBlockDSBlockHashSet p \<longleftrightarrow> fst p \<noteq> None \<and> snd p \<noteq> None"

definition CheckRequiredFieldsProtoDSBlockDSBlockHeader :: "ProtoDSBlockHeader \<Rightarrow> bool" where
  "CheckRequiredFieldsProtoDSBlockDSBlockHeader p \<longleftrightarrow>
     pds_leaderpubkey p \<noteq> None \<and> pds_blocknum p \<noteq> None \<and> pds_epochnum p \<noteq> None \<and> pds_swinfo p \<noteq> None
     \<and> pds_hash p \<noteq> None \<and> pds_blockheaderbase p \<noteq> None
     \<and> CheckRequiredFieldsProtoDSBlockDSBlockHashSet (the (pds_hash p))"

text \<open>The check of every block message.\<close>

definition CheckRequiredFieldsProtoBlock :: "('h, 'b) ProtoBlock \<Rightarrow> bool" where
  "CheckRequiredFieldsProtoBlock p \<longleftrightarrow> pb_header p \<noteq> None \<and> pb_blockbase p \<noteq> None"

fun nodes_out :: "'pt openssl \<Rightarrow> 'pt PairOfNode list \<Rightarrow> ProtoNode list option" where
  "nodes_out B [] = Some []"
| "nodes_out B (n # ns) = do {
     key \<leftarrow> PubKey_out B (fst n);
     peer \<leftarrow> Peer_out (snd n);
     rest \<leftarrow> nodes_out B ns;
     Some (\<lparr>pn_pubkey = Some key, pn_peer = Some peer\<rparr> # rest) }"

definition DSBlockHeaderToProtobuf :: "'pt block_env \<Rightarrow> 'pt DSBlockHeader \<Rightarrow> bool \<Rightarrow> ProtoDSBlockHeader option" where
  "DSBlockHeaderToProtobuf E h concreteVarsOnly = do {
     gasprice \<leftarrow> (if \<not> concreteVarsOnly then map_option Some (NumberToProtobufByteArray (dsh_gasPrice h)) else Some None);
     winners \<leftarrow> (if \<not> concreteVarsOnly then nodes_out (be_ossl E) (dsh_PoWDSWinners h) else Some []);
     leader \<leftarrow> PubKey_out (be_ossl E) (dsh_leaderPubKey h);
     swinfo \<leftarrow> SWInfo_out (dsh_swInfo h);
     Some \<lparr>pds_blockheaderbase = Some (BlockHeaderBaseToProtobuf h),
           pds_dsdifficulty = (if \<not> concreteVarsOnly then Some (ucast (dsh_dsDifficulty h)) else None),
           pds_difficulty = (if \<not> concreteVarsOnly then Some (ucast (dsh_difficulty h)) else None),
           pds_leaderpubkey = Some leader, pds_blocknum = Some (dsh_blockNum h), pds_epochnum = Some (dsh_epochNum h),
           pds_gasprice = gasprice, pds_swinfo = Some swinfo, pds_dswinners = winners,
           pds_hash = Some (Some (dsh_shardingHash h), Some (dsh_reservedField h))\<rparr> }"

fun read_winners :: "'pt openssl \<Rightarrow> ProtoNode list \<Rightarrow> ('pt PubKey \<times> Peer) list \<Rightarrow> ('pt PubKey \<times> Peer) list option" where
  "read_winners B [] powDSWinners = Some powDSWinners"
| "read_winners B (w # ws) powDSWinners =
     (if \<not> CheckRequiredFieldsProtoDSBlockPowDSWinner w then None
      else do {
        tempPubKey \<leftarrow> PubKey_in B (the (pn_pubkey w));
        tempWinnerNetworkInfo \<leftarrow> Peer_in (the (pn_peer w));
        read_winners B ws (map_assign (PubKey_less B) tempPubKey tempWinnerNetworkInfo powDSWinners) })"

text \<open>The reserved field is an array on the stack: a shorter field leaves the rest of it uninitialised.\<close>

definition ProtobufToDSBlockHeader ::
    "'pt block_env \<Rightarrow> ProtoDSBlockHeader \<Rightarrow> 'pt DSBlockHeader \<Rightarrow> ('pt DSBlockHeader \<times> bool) option" where
  "ProtobufToDSBlockHeader E p h =
     (if \<not> CheckRequiredFieldsProtoDSBlockDSBlockHeader p then Some (h, False)
      else Some (read_header_base (do {
        leaderPubKey \<leftarrow> PubKey_in (be_ossl E) (the (pds_leaderpubkey p));
        swInfo \<leftarrow> SWInfo_in (the (pds_swinfo p));
        powDSWinners \<leftarrow> read_winners (be_ossl E) (pds_dswinners p) [];
        shardingHash \<leftarrow> CopyWithSizeCheck 32 (the (fst (the (pds_hash p))));
        gasprice \<leftarrow> (case pds_gasprice p of None \<Rightarrow> Some 0 | Some b \<Rightarrow> ProtobufByteArrayToNumber b);
        Some \<lparr>hb_version = 0, hb_committeeHash = h256_zero, hb_prevHash = h256_zero,
              dsh_dsDifficulty = (case pds_dsdifficulty p of None \<Rightarrow> 0 | Some d \<Rightarrow> ucast d),
              dsh_difficulty = (case pds_difficulty p of None \<Rightarrow> 0 | Some d \<Rightarrow> ucast d),
              dsh_leaderPubKey = leaderPubKey, dsh_blockNum = the (pds_blocknum p), dsh_epochNum = the (pds_epochnum p),
              dsh_gasPrice = gasprice, dsh_swInfo = swInfo, dsh_PoWDSWinners = powDSWinners, dsh_shardingHash = shardingHash,
              dsh_reservedField = copy_over (be_memory E) (the (snd (the (pds_hash p))))\<rparr> }) (pds_blockheaderbase p) h))"

definition Messenger_SetDSBlockHeader ::
    "'pt block_env \<Rightarrow> bytes \<Rightarrow> nat \<Rightarrow> 'pt DSBlockHeader \<Rightarrow> bool \<Rightarrow> (bytes \<times> bool) option" where
  "Messenger_SetDSBlockHeader E dst offset h concreteVarsOnly =
     set_message (wDSBlockHeader (be_proto E)) (DSBlockHeaderToProtobuf E h concreteVarsOnly) dst offset"

definition Messenger_GetDSBlockHeader ::
    "'pt block_env \<Rightarrow> bytes \<Rightarrow> nat \<Rightarrow> 'pt DSBlockHeader \<Rightarrow> ('pt DSBlockHeader \<times> bool) option" where
  "Messenger_GetDSBlockHeader E = get_message (wDSBlockHeader (be_proto E)) (ProtobufToDSBlockHeader E)"

definition DSBlockHeader_Serialize :: "'pt block_env \<Rightarrow> 'pt DSBlockHeader \<Rightarrow> bytes \<Rightarrow> nat \<Rightarrow> (bytes \<times> bool) option" where
  "DSBlockHeader_Serialize E h dst offset = Messenger_SetDSBlockHeader E dst offset h False"

definition GetHashForRandom :: "'pt block_env \<Rightarrow> 'pt DSBlockHeader \<Rightarrow> bytes option" where
  "GetHashForRandom E h = do {
     (vec, ok) \<leftarrow> Messenger_SetDSBlockHeader E [] 0 h True;
     Some (if \<not> ok then h256_zero else SHA2_Finalize (be_ossl E) (SHA2_Update SHA2_Reset vec)) }"

definition DSBlock_new :: "'pt block_env \<Rightarrow> 'pt DSBlockHeader \<Rightarrow> CoSignatures \<Rightarrow> 'pt DSBlock option" where
  "DSBlock_new E header cosigs = do {
     hash \<leftarrow> GetMyHash (be_ossl E) (DSBlockHeader_Serialize E header);
     Some \<lparr>bb_blockHash = hash, bb_timestamp = be_now E, bb_cosigs = cosigs, ds_header = header\<rparr> }"

definition DSBlockToProtobuf :: "'pt block_env \<Rightarrow> 'pt DSBlock \<Rightarrow> ProtoDSBlock option" where
  "DSBlockToProtobuf E b = do {
     header \<leftarrow> DSBlockHeaderToProtobuf E (ds_header b) False;
     base \<leftarrow> BlockBaseToProtobuf b;
     Some \<lparr>pb_header = Some header, pb_body = (), pb_blockbase = Some base\<rparr> }"

definition DSBlockHeader_default :: "'pt openssl \<Rightarrow> 'pt DSBlockHeader" where
  "DSBlockHeader_default B =
     \<lparr>hb_version = 0, hb_committeeHash = h256_zero, hb_prevHash = h256_zero, dsh_dsDifficulty = 0, dsh_difficulty = 0,
      dsh_leaderPubKey = PubKey_default B, dsh_blockNum = of_nat INIT_BLOCK_NUMBER, dsh_epochNum = - 1, dsh_gasPrice = 0,
      dsh_swInfo = SWInfo_default, dsh_PoWDSWinners = [], dsh_shardingHash = h256_zero, dsh_reservedField = replicate 128 0\<rparr>"

definition DSBlock_default :: "'pt openssl \<Rightarrow> 'pt DSBlock" where
  "DSBlock_default B =
     \<lparr>bb_blockHash = h256_zero, bb_timestamp = 0, bb_cosigs = CoSignatures_new 1, ds_header = DSBlockHeader_default B\<rparr>"

definition ProtobufToDSBlock :: "'pt block_env \<Rightarrow> ProtoDSBlock \<Rightarrow> 'pt DSBlock \<Rightarrow> ('pt DSBlock \<times> bool) option" where
  "ProtobufToDSBlock E p b =
     (if \<not> CheckRequiredFieldsProtoBlock p then Some (b, False)
      else do {
        (header, ok) \<leftarrow> ProtobufToDSBlockHeader E (the (pb_header p)) (DSBlockHeader_default (be_ossl E));
        if \<not> ok then Some (b, False)
        else do {
          dsBlock \<leftarrow> DSBlock_new E header (CoSignatures_new 1);
          Some (ProtobufToBlockBase (the (pb_blockbase p)) dsBlock) } })"

definition Messenger_SetDSBlock :: "'pt block_env \<Rightarrow> bytes \<Rightarrow> nat \<Rightarrow> 'pt DSBlock \<Rightarrow> (bytes \<times> bool) option" where
  "Messenger_SetDSBlock E dst offset b = set_message (wDSBlock (be_proto E)) (DSBlockToProtobuf E b) dst offset"

definition Messenger_GetDSBlock :: "'pt block_env \<Rightarrow> bytes \<Rightarrow> nat \<Rightarrow> 'pt DSBlock \<Rightarrow> ('pt DSBlock \<times> bool) option" where
  "Messenger_GetDSBlock E = get_message (wDSBlock (be_proto E)) (ProtobufToDSBlock E)"

text \<open>The constructor from bytes keeps what has been read when it fails.\<close>

definition DSBlock_from_bytes :: "'pt block_env \<Rightarrow> bytes \<Rightarrow> 'pt DSBlock option" where
  "DSBlock_from_bytes E src = map_option fst (Messenger_GetDSBlock E src 0 (DSBlock_default (be_ossl E)))"

section \<open>Final blocks\<close>

definition CheckRequiredFieldsProtoTxBlockTxBlockHashSet :: "bytes option \<times> bytes option \<times> bytes option \<Rightarrow> bool" where
  "CheckRequiredFieldsProtoTxBlockTxBlockHashSet p \<longleftrightarrow> fst p \<noteq> None \<and> fst (snd p) \<noteq> None \<and> snd (snd p) \<noteq> None"

definition CheckRequiredFieldsProtoMbInfo :: "ProtoMbInfo \<Rightarrow> bool" where
  "CheckRequiredFieldsProtoMbInfo p \<longleftrightarrow> pmi_mbhash p \<noteq> None \<and> pmi_txroot p \<noteq> None \<and> pmi_shardid p \<noteq> None"

definition CheckRequiredFieldsProtoTxBlockTxBlockHeader :: "ProtoTxBlockHeader \<Rightarrow> bool" where
  "CheckRequiredFieldsProtoTxBlockTxBlockHeader p \<longleftrightarrow>
     ptx_gaslimit p \<noteq> None \<and> ptx_gasused p \<noteq> None \<and> ptx_rewards p \<noteq> None \<and> ptx_blocknum p \<noteq> None \<and> ptx_hash p \<noteq> None
     \<and> ptx_numtxs p \<noteq> None \<and> ptx_minerpubkey p \<noteq> None \<and> ptx_dsblocknum p \<noteq> None \<and> ptx_blockheaderbase p \<noteq> None
     \<and> CheckRequiredFieldsProtoTxBlockTxBlockHashSet (the (ptx_hash p))"

definition MbInfoToProtobuf :: "MicroBlockInfo \<Rightarrow> ProtoMbInfo" where
  "MbInfoToProtobuf m =
     \<lparr>pmi_mbhash = Some (mbi_microBlockHash m), pmi_txroot = Some (mbi_txnRootHash m), pmi_shardid = Some (mbi_shardId m)\<rparr>"

definition ProtobufToMbInfo :: "ProtoMbInfo \<Rightarrow> MicroBlockInfo option" where
  "ProtobufToMbInfo p =
     (if \<not> CheckRequiredFieldsProtoMbInfo p then None
      else Some \<lparr>mbi_microBlockHash = copy_over h256_zero (the (pmi_mbhash p)),
                 mbi_txnRootHash = copy_over h256_zero (the (pmi_txroot p)), mbi_shardId = the (pmi_shardid p)\<rparr>)"

fun read_mbinfos :: "ProtoMbInfo list \<Rightarrow> MicroBlockInfo list option" where
  "read_mbinfos [] = Some []"
| "read_mbinfos (p # ps) = do {
     mbInfo \<leftarrow> ProtobufToMbInfo p;
     rest \<leftarrow> read_mbinfos ps;
     Some (mbInfo # rest) }"

definition TxBlockHeaderToProtobuf :: "'pt block_env \<Rightarrow> 'pt TxBlockHeader \<Rightarrow> ProtoTxBlockHeader option" where
  "TxBlockHeaderToProtobuf E h = do {
     rewards \<leftarrow> NumberToProtobufByteArray (txh_rewards h);
     miner \<leftarrow> PubKey_out (be_ossl E) (txh_minerPubKey h);
     Some \<lparr>ptx_blockheaderbase = Some (BlockHeaderBaseToProtobuf h), ptx_gaslimit = Some (txh_gasLimit h),
           ptx_gasused = Some (txh_gasUsed h), ptx_rewards = Some rewards, ptx_blocknum = Some (txh_blockNum h),
           ptx_hash = Some (Some (txh_stateRootHash h), Some (txh_stateDeltaHash h), Some (txh_mbInfoHash h)),
           ptx_numtxs = Some (txh_numTxs h), ptx_minerpubkey = Some miner, ptx_dsblocknum = Some (txh_dsBlockNum h)\<rparr> }"

definition ProtobufToTxBlockHeader ::
    "'pt block_env \<Rightarrow> ProtoTxBlockHeader \<Rightarrow> 'pt TxBlockHeader \<Rightarrow> ('pt TxBlockHeader \<times> bool) option" where
  "ProtobufToTxBlockHeader E p h =
     (if \<not> CheckRequiredFieldsProtoTxBlockTxBlockHeader p then Some (h, False)
      else do {
        rewards \<leftarrow> ProtobufByteArrayToNumber (the (ptx_rewards p));
        Some (read_header_base (do {
          minerPubKey \<leftarrow> PubKey_in (be_ossl E) (the (ptx_minerpubkey p));
          Some \<lparr>hb_version = 0, hb_committeeHash = h256_zero, hb_prevHash = h256_zero, txh_gasLimit = the (ptx_gaslimit p),
                txh_gasUsed = the (ptx_gasused p), txh_rewards = rewards, txh_blockNum = the (ptx_blocknum p),
                txh_stateRootHash = copy_over h256_zero (the (fst (the (ptx_hash p)))),
                txh_stateDeltaHash = copy_over h256_zero (the (fst (snd (the (ptx_hash p))))),
                txh_mbInfoHash = copy_over h256_zero (the (snd (snd (the (ptx_hash p))))),
                txh_numTxs = the (ptx_numtxs p), txh_minerPubKey = minerPubKey, txh_dsBlockNum = the (ptx_dsblocknum p)\<rparr> })
          (ptx_blockheaderbase p) h) })"

definition Messenger_SetTxBlockHeader ::
    "'pt block_env \<Rightarrow> bytes \<Rightarrow> nat \<Rightarrow> 'pt TxBlockHeader \<Rightarrow> (bytes \<times> bool) option" where
  "Messenger_SetTxBlockHeader E dst offset h =
     set_message (wTxBlockHeader (be_proto E)) (TxBlockHeaderToProtobuf E h) dst offset"

definition Messenger_GetTxBlockHeader ::
    "'pt block_env \<Rightarrow> bytes \<Rightarrow> nat \<Rightarrow> 'pt TxBlockHeader \<Rightarrow> ('pt TxBlockHeader \<times> bool) option" where
  "Messenger_GetTxBlockHeader E = get_message (wTxBlockHeader (be_proto E)) (ProtobufToTxBlockHeader E)"

definition TxBlockHeader_Serialize :: "'pt block_env \<Rightarrow> 'pt TxBlockHeader \<Rightarrow> bytes \<Rightarrow> nat \<Rightarrow> (bytes \<times> bool) option" where
  "TxBlockHeader_Serialize E h dst offset = Messenger_SetTxBlockHeader E dst offset h"

definition TxBlockHeader_default :: "'pt openssl \<Rightarrow> 'pt TxBlockHeader" where
  "TxBlockHeader_default B =
     \<lparr>hb_version = 0, hb_committeeHash = h256_zero, hb_prevHash = h256_zero, txh_gasLimit = 0, txh_gasUsed = 0, txh_rewards = 0,
      txh_blockNum = of_nat INIT_BLOCK_NUMBER, txh_stateRootHash = h256_zero, txh_stateDeltaHash = h256_zero,
      txh_mbInfoHash = h256_zero, txh_numTxs = 0, txh_minerPubKey = PubKey_default B, txh_dsBlockNum = of_nat INIT_BLOCK_NUMBER\<rparr>"

definition TxBlock_new :: "'pt block_env \<Rightarrow> 'pt TxBlockHeader \<Rightarrow> MicroBlockInfo list \<Rightarrow> CoSignatures \<Rightarrow> 'pt TxBlock option" where
  "TxBlock_new E header mbInfos cosigs = do {
     hash \<leftarrow> GetMyHash (be_ossl E) (TxBlockHeader_Serialize E header);
     Some \<lparr>bb_blockHash = hash, bb_timestamp = be_now E, bb_cosigs = cosigs, tx_header = header, tx_mbInfos = mbInfos\<rparr> }"

definition TxBlockToProtobuf :: "'pt block_env \<Rightarrow> 'pt TxBlock \<Rightarrow> ProtoTxBlock option" where
  "TxBlockToProtobuf E b = do {
     header \<leftarrow> TxBlockHeaderToProtobuf E (tx_header b);
     base \<leftarrow> BlockBaseToProtobuf b;
     Some \<lparr>pb_header = Some header, pb_body = map MbInfoToProtobuf (tx_mbInfos b), pb_blockbase = Some base\<rparr> }"

definition TxBlock_default :: "'pt openssl \<Rightarrow> 'pt TxBlock" where
  "TxBlock_default B =
     \<lparr>bb_blockHash = h256_zero, bb_timestamp = 0, bb_cosigs = CoSignatures_new 1, tx_header = TxBlockHeader_default B, tx_mbInfos = []\<rparr>"

definition ProtobufToTxBlock :: "'pt block_env \<Rightarrow> ProtoTxBlock \<Rightarrow> 'pt TxBlock \<Rightarrow> ('pt TxBlock \<times> bool) option" where
  "ProtobufToTxBlock E p b =
     (if \<not> CheckRequiredFieldsProtoBlock p then Some (b, False)
      else do {
        (header, ok) \<leftarrow> ProtobufToTxBlockHeader E (the (pb_header p)) (TxBlockHeader_default (be_ossl E));
        if \<not> ok then Some (b, False)
        else case read_mbinfos (pb_body p) of
               None \<Rightarrow> Some (b, False)
             | Some mbInfos \<Rightarrow> do {
                 txBlock \<leftarrow> TxBlock_new E header mbInfos (CoSignatures_new 1);
                 Some (ProtobufToBlockBase (the (pb_blockbase p)) txBlock) } })"

definition Messenger_SetTxBlock :: "'pt block_env \<Rightarrow> bytes \<Rightarrow> nat \<Rightarrow> 'pt TxBlock \<Rightarrow> (bytes \<times> bool) option" where
  "Messenger_SetTxBlock E dst offset b = set_message (wTxBlock (be_proto E)) (TxBlockToProtobuf E b) dst offset"

definition Messenger_GetTxBlock :: "'pt block_env \<Rightarrow> bytes \<Rightarrow> nat \<Rightarrow> 'pt TxBlock \<Rightarrow> ('pt TxBlock \<times> bool) option" where
  "Messenger_GetTxBlock E = get_message (wTxBlock (be_proto E)) (ProtobufToTxBlock E)"

definition TxBlock_from_bytes :: "'pt block_env \<Rightarrow> bytes \<Rightarrow> 'pt TxBlock option" where
  "TxBlock_from_bytes E src = map_option fst (Messenger_GetTxBlock E src 0 (TxBlock_default (be_ossl E)))"

section \<open>View change blocks\<close>

definition CheckRequiredFieldsProtoVCBlockVCBlockHeader :: "ProtoVCBlockHeader \<Rightarrow> bool" where
  "CheckRequiredFieldsProtoVCBlockVCBlockHeader p \<longleftrightarrow>
     pvc_viewchangedsepochno p \<noteq> None \<and> pvc_viewchangeepochno p \<noteq> None \<and> pvc_viewchangestate p \<noteq> None
     \<and> pvc_candidateleadernetworkinfo p \<noteq> None \<and> pvc_candidateleaderpubkey p \<noteq> None \<and> pvc_vccounter p \<noteq> None
     \<and> pvc_blockheaderbase p \<noteq> None"

definition FaultyLeaderToProtobuf :: "'pt openssl \<Rightarrow> 'pt PairOfNode list \<Rightarrow> ProtoNode list option" where
  "FaultyLeaderToProtobuf B faultyLeaders = nodes_out B faultyLeaders"

text \<open>The fields of a faulty leader are read without a check that they are set.\<close>

fun ProtobufToFaultyDSMembers :: "'pt openssl \<Rightarrow> ProtoNode list \<Rightarrow> 'pt PairOfNode list option" where
  "ProtobufToFaultyDSMembers B [] = Some []"
| "ProtobufToFaultyDSMembers B (p # ps) = do {
     pubkey \<leftarrow> PubKey_in B (bytes_or_empty (pn_pubkey p));
     peer \<leftarrow> Peer_in (bytes_or_empty (pn_peer p));
     rest \<leftarrow> ProtobufToFaultyDSMembers B ps;
     Some ((pubkey, peer) # rest) }"

definition VCBlockHeaderToProtobuf :: "'pt block_env \<Rightarrow> 'pt VCBlockHeader \<Rightarrow> ProtoVCBlockHeader option" where
  "VCBlockHeaderToProtobuf E h = do {
     info \<leftarrow> Peer_out (vch_CandidateLeaderNetworkInfo h);
     key \<leftarrow> PubKey_out (be_ossl E) (vch_CandidateLeaderPubKey h);
     faulty \<leftarrow> FaultyLeaderToProtobuf (be_ossl E) (vch_FaultyLeaders h);
     Some \<lparr>pvc_blockheaderbase = Some (BlockHeaderBaseToProtobuf h), pvc_viewchangedsepochno = Some (vch_ViewChangeDSEpochNo h),
           pvc_viewchangeepochno = Some (vch_ViewChangeEpochNo h), pvc_viewchangestate = Some (ucast (vch_ViewChangeState h)),
           pvc_candidateleadernetworkinfo = Some info, pvc_candidateleaderpubkey = Some key,
           pvc_vccounter = Some (vch_VCCounter h), pvc_faultyleaders = faulty\<rparr> }"

definition ProtobufToVCBlockHeader ::
    "'pt block_env \<Rightarrow> ProtoVCBlockHeader \<Rightarrow> 'pt VCBlockHeader \<Rightarrow> ('pt VCBlockHeader \<times> bool) option" where
  "ProtobufToVCBlockHeader E p h =
     (if \<not> CheckRequiredFieldsProtoVCBlockVCBlockHeader p then Some (h, False)
      else Some (read_header_base (do {
        candidateLeaderNetworkInfo \<leftarrow> Peer_in (the (pvc_candidateleadernetworkinfo p));
        candidateLeaderPubKey \<leftarrow> PubKey_in (be_ossl E) (the (pvc_candidateleaderpubkey p));
        faultyLeaders \<leftarrow> ProtobufToFaultyDSMembers (be_ossl E) (pvc_faultyleaders p);
        Some \<lparr>hb_version = 0, hb_committeeHash = h256_zero, hb_prevHash = h256_zero,
              vch_ViewChangeDSEpochNo = the (pvc_viewchangedsepochno p), vch_ViewChangeEpochNo = the (pvc_viewchangeepochno p),
              vch_ViewChangeState = ucast (the (pvc_viewchangestate p)),
              vch_CandidateLeaderNetworkInfo = candidateLeaderNetworkInfo, vch_CandidateLeaderPubKey = candidateLeaderPubKey,
              vch_VCCounter = the (pvc_vccounter p), vch_FaultyLeaders = faultyLeaders\<rparr> }) (pvc_blockheaderbase p) h))"

definition Messenger_SetVCBlockHeader ::
    "'pt block_env \<Rightarrow> bytes \<Rightarrow> nat \<Rightarrow> 'pt VCBlockHeader \<Rightarrow> (bytes \<times> bool) option" where
  "Messenger_SetVCBlockHeader E dst offset h =
     set_message (wVCBlockHeader (be_proto E)) (VCBlockHeaderToProtobuf E h) dst offset"

definition Messenger_GetVCBlockHeader ::
    "'pt block_env \<Rightarrow> bytes \<Rightarrow> nat \<Rightarrow> 'pt VCBlockHeader \<Rightarrow> ('pt VCBlockHeader \<times> bool) option" where
  "Messenger_GetVCBlockHeader E = get_message (wVCBlockHeader (be_proto E)) (ProtobufToVCBlockHeader E)"

definition VCBlockHeader_Serialize :: "'pt block_env \<Rightarrow> 'pt VCBlockHeader \<Rightarrow> bytes \<Rightarrow> nat \<Rightarrow> (bytes \<times> bool) option" where
  "VCBlockHeader_Serialize E h dst offset = Messenger_SetVCBlockHeader E dst offset h"

definition VCBlockHeader_default :: "'pt openssl \<Rightarrow> 'pt VCBlockHeader" where
  "VCBlockHeader_default B =
     \<lparr>hb_version = 0, hb_committeeHash = h256_zero, hb_prevHash = h256_zero, vch_ViewChangeDSEpochNo = - 1, vch_ViewChangeEpochNo = - 1,
      vch_ViewChangeState = 0, vch_CandidateLeaderNetworkInfo = Peer_default, vch_CandidateLeaderPubKey = PubKey_default B,
      vch_VCCounter = 0, vch_FaultyLeaders = []\<rparr>"

definition VCBlock_new :: "'pt block_env \<Rightarrow> 'pt VCBlockHeader \<Rightarrow> CoSignatures \<Rightarrow> 'pt VCBlock option" where
  "VCBlock_new E header cosigs = do {
     hash \<leftarrow> GetMyHash (be_ossl E) (VCBlockHeader_Serialize E header);
     Some \<lparr>bb_blockHash = hash, bb_timestamp = be_now E, bb_cosigs = cosigs, vc_header = header\<rparr> }"

definition VCBlockToProtobuf :: "'pt block_env \<Rightarrow> 'pt VCBlock \<Rightarrow> ProtoVCBlock option" where
  "VCBlockToProtobuf E b = do {
     header \<leftarrow> VCBlockHeaderToProtobuf E (vc_header b);
     base \<leftarrow> BlockBaseToProtobuf b;
     Some \<lparr>pb_header = Some header, pb_body = (), pb_blockbase = Some base\<rparr> }"

definition VCBlock_default :: "'pt openssl \<Rightarrow> 'pt VCBlock" where
  "VCBlock_default B =
     \<lparr>bb_blockHash = h256_zero, bb_timestamp = 0, bb_cosigs = CoSignatures_new 1, vc_header = VCBlockHeader_default B\<rparr>"

definition ProtobufToVCBlock :: "'pt block_env \<Rightarrow> ProtoVCBlock \<Rightarrow> 'pt VCBlock \<Rightarrow> ('pt VCBlock \<times> bool) option" where
  "ProtobufToVCBlock E p b =
     (if \<not> CheckRequiredFieldsProtoBlock p then Some (b, False)
      else do {
        (header, ok) \<leftarrow> ProtobufToVCBlockHeader E (the (pb_header p)) (VCBlockHeader_default (be_ossl E));
        if \<not> ok then Some (b, False)
        else do {
          vcBlock \<leftarrow> VCBlock_new E header (CoSignatures_new 1);
          Some (ProtobufToBlockBase (the (pb_blockbase p)) vcBlock) } })"

definition Messenger_SetVCBlock :: "'pt block_env \<Rightarrow> bytes \<Rightarrow> nat \<Rightarrow> 'pt VCBlock \<Rightarrow> (bytes \<times> bool) option" where
  "Messenger_SetVCBlock E dst offset b = set_message (wVCBlock (be_proto E)) (VCBlockToProtobuf E b) dst offset"

definition Messenger_GetVCBlock :: "'pt block_env \<Rightarrow> bytes \<Rightarrow> nat \<Rightarrow> 'pt VCBlock \<Rightarrow> ('pt VCBlock \<times> bool) option" where
  "Messenger_GetVCBlock E = get_message (wVCBlock (be_proto E)) (ProtobufToVCBlock E)"

definition VCBlock_from_bytes :: "'pt block_env \<Rightarrow> bytes \<Rightarrow> 'pt VCBlock option" where
  "VCBlock_from_bytes E src = map_option fst (Messenger_GetVCBlock E src 0 (VCBlock_default (be_ossl E)))"

section \<open>Fallback blocks\<close>

definition CheckRequiredFieldsProtoFallbackBlockFallbackBlockHeader :: "ProtoFallbackBlockHeader \<Rightarrow> bool" where
  "CheckRequiredFieldsProtoFallbackBlockFallbackBlockHeader p \<longleftrightarrow>
     pfb_fallbackdsepochno p \<noteq> None \<and> pfb_fallbackepochno p \<noteq> None \<and> pfb_fallbackstate p \<noteq> None \<and> pfb_stateroothash p \<noteq> None
     \<and> pfb_leaderconsensusid p \<noteq> None \<and> pfb_leadernetworkinfo p \<noteq> None \<and> pfb_leaderpubkey p \<noteq> None
     \<and> pfb_blockheaderbase p \<noteq> None \<and> pfb_shardid p \<noteq> None"

definition FallbackBlockHeaderToProtobuf :: "'pt block_env \<Rightarrow> 'pt FallbackBlockHeader \<Rightarrow> ProtoFallbackBlockHeader option" where
  "FallbackBlockHeaderToProtobuf E h = do {
     info \<leftarrow> Peer_out (fbh_leaderNetworkInfo h);
     key \<leftarrow> PubKey_out (be_ossl E) (fbh_leaderPubKey h);
     Some \<lparr>pfb_blockheaderbase = Some (BlockHeaderBaseToProtobuf h), pfb_fallbackdsepochno = Some (fbh_fallbackDSEpochNo h),
           pfb_fallbackepochno = Some (fbh_fallbackEpochNo h), pfb_fallbackstate = Some (ucast (fbh_fallbackState h)),
           pfb_stateroothash = Some (fbh_stateRootHash h), pfb_leaderconsensusid = Some (ucast (fbh_leaderConsensusId h)),
           pfb_leadernetworkinfo = Some info, pfb_leaderpubkey = Some key, pfb_shardid = Some (fbh_shardId h)\<rparr> }"

definition ProtobufToFallbackBlockHeader ::
    "'pt block_env \<Rightarrow> ProtoFallbackBlockHeader \<Rightarrow> 'pt FallbackBlockHeader \<Rightarrow> ('pt FallbackBlockHeader \<times> bool) option" where
  "ProtobufToFallbackBlockHeader E p h =
     (if \<not> CheckRequiredFieldsProtoFallbackBlockFallbackBlockHeader p then Some (h, False)
      else Some (read_header_base (do {
        leaderNetworkInfo \<leftarrow> Peer_in (the (pfb_leadernetworkinfo p));
        leaderPubKey \<leftarrow> PubKey_in (be_ossl E) (the (pfb_leaderpubkey p));
        Some \<lparr>hb_version = 0, hb_committeeHash = h256_zero, hb_prevHash = h256_zero,
              fbh_fallbackDSEpochNo = the (pfb_fallbackdsepochno p), fbh_fallbackEpochNo = the (pfb_fallbackepochno p),
              fbh_fallbackState = ucast (the (pfb_fallbackstate p)),
              fbh_stateRootHash = copy_over h256_zero (the (pfb_stateroothash p)),
              fbh_leaderConsensusId = ucast (the (pfb_leaderconsensusid p)), fbh_leaderNetworkInfo = leaderNetworkInfo,
              fbh_leaderPubKey = leaderPubKey, fbh_shardId = the (pfb_shardid p)\<rparr> }) (pfb_blockheaderbase p) h))"

definition Messenger_SetFallbackBlockHeader ::
    "'pt block_env \<Rightarrow> bytes \<Rightarrow> nat \<Rightarrow> 'pt FallbackBlockHeader \<Rightarrow> (bytes \<times> bool) option" where
  "Messenger_SetFallbackBlockHeader E dst offset h =
     set_message (wFallbackBlockHeader (be_proto E)) (FallbackBlockHeaderToProtobuf E h) dst offset"

definition Messenger_GetFallbackBlockHeader ::
    "'pt block_env \<Rightarrow> bytes \<Rightarrow> nat \<Rightarrow> 'pt FallbackBlockHeader \<Rightarrow> ('pt FallbackBlockHeader \<times> bool) option" where
  "Messenger_GetFallbackBlockHeader E = get_message (wFallbackBlockHeader (be_proto E)) (ProtobufToFallbackBlockHeader E)"

definition FallbackBlockHeader_Serialize :: "'pt block_env \<Rightarrow> 'pt FallbackBlockHeader \<Rightarrow> bytes \<Rightarrow> nat \<Rightarrow> (bytes \<times> bool) option" where
  "FallbackBlockHeader_Serialize E h dst offset = Messenger_SetFallbackBlockHeader E dst offset h"

definition FallbackBlockHeader_default :: "'pt openssl \<Rightarrow> 'pt FallbackBlockHeader" where
  "FallbackBlockHeader_default B =
     \<lparr>hb_version = 0, hb_committeeHash = h256_zero, hb_prevHash = h256_zero, fbh_fallbackDSEpochNo = - 1, fbh_fallbackEpochNo = - 1,
      fbh_fallbackState = 0, fbh_stateRootHash = h256_zero, fbh_leaderConsensusId = 0, fbh_leaderNetworkInfo = Peer_default,
      fbh_leaderPubKey = PubKey_default B, fbh_shardId = 0\<rparr>"

definition FallbackBlock_new :: "'pt block_env \<Rightarrow> 'pt FallbackBlockHeader \<Rightarrow> CoSignatures \<Rightarrow> 'pt FallbackBlock option" where
  "FallbackBlock_new E header cosigs = do {
     hash \<leftarrow> GetMyHash (be_ossl E) (FallbackBlockHeader_Serialize E header);
     Some \<lparr>bb_blockHash = hash, bb_timestamp = be_now E, bb_cosigs = cosigs, fb_header = header\<rparr> }"

definition FallbackBlockToProtobuf :: "'pt block_env \<Rightarrow> 'pt FallbackBlock \<Rightarrow> ProtoFallbackBlock option" where
  "FallbackBlockToProtobuf E b = do {
     header \<leftarrow> FallbackBlockHeaderToProtobuf E (fb_header b);
     base \<leftarrow> BlockBaseToProtobuf b;
     Some \<lparr>pb_header = Some header, pb_body = (), pb_blockbase = Some base\<rparr> }"

definition FallbackBlock_default :: "'pt openssl \<Rightarrow> 'pt FallbackBlock" where
  "FallbackBlock_default B =
     \<lparr>bb_blockHash = h256_zero, bb_timestamp = 0, bb_cosigs = CoSignatures_new 1, fb_header = FallbackBlockHeader_default B\<rparr>"

definition ProtobufToFallbackBlock :: "'pt block_env \<Rightarrow> ProtoFallbackBlock \<Rightarrow> 'pt FallbackBlock \<Rightarrow> ('pt FallbackBlock \<times> bool) option" where
  "ProtobufToFallbackBlock E p b =
     (if \<not> CheckRequiredFieldsProtoBlock p then Some (b, False)
      else do {
        (header, ok) \<leftarrow> ProtobufToFallbackBlockHeader E (the (pb_header p)) (FallbackBlockHeader_default (be_ossl E));
        if \<not> ok then Some (b, False)
        else do {
          fallbackBlock \<leftarrow> FallbackBlock_new E header (CoSignatures_new 1);
          Some (ProtobufToBlockBase (the (pb_blockbase p)) fallbackBlock) } })"

definition Messenger_SetFallbackBlock :: "'pt block_env \<Rightarrow> bytes \<Rightarrow> nat \<Rightarrow> 'pt FallbackBlock \<Rightarrow> (bytes \<times> bool) option" where
  "Messenger_SetFallbackBlock E dst offset b = set_message (wFallbackBlock (be_proto E)) (FallbackBlockToProtobuf E b) dst offset"

text \<open>The getter of fallback blocks does not look at the result of the conversion.\<close>

definition Messenger_GetFallbackBlock ::
    "'pt block_env \<Rightarrow> bytes \<Rightarrow> nat \<Rightarrow> 'pt FallbackBlock \<Rightarrow> ('pt FallbackBlock \<times> bool) option" where
  "Messenger_GetFallbackBlock E = get_message (wFallbackBlock (be_proto E))
     (\<lambda>result b. map_option (\<lambda>r. (fst r, True)) (ProtobufToFallbackBlock E result b))"

definition FallbackBlock_from_bytes :: "'pt block_env \<Rightarrow> bytes \<Rightarrow> 'pt FallbackBlock option" where
  "FallbackBlock_from_bytes E src = map_option fst (Messenger_GetFallbackBlock E src 0 (FallbackBlock_default (be_ossl E)))"

section \<open>Micro blocks\<close>

definition CheckRequiredFieldsProtoMicroBlockMicroBlockHeader :: "ProtoMicroBlockHeader \<Rightarrow> bool" where
  "CheckRequiredFieldsProtoMicroBlockMicroBlockHeader p \<longleftrightarrow>
     pmb_shardid p \<noteq> None \<and> pmb_gaslimit p \<noteq> None \<and> pmb_gasused p \<noteq> None \<and> pmb_rewards p \<noteq> None \<and> pmb_epochnum p \<noteq> None
     \<and> pmb_txroothash p \<noteq> None \<and> pmb_numtxs p \<noteq> None \<and> pmb_minerpubkey p \<noteq> None \<and> pmb_dsblocknum p \<noteq> None
     \<and> pmb_statedeltahash p \<noteq> None \<and> pmb_tranreceipthash p \<noteq> None \<and> pmb_blockheaderbase p \<noteq> None"

definition MicroBlockHeaderToProtobuf :: "'pt block_env \<Rightarrow> 'pt MicroBlockHeader \<Rightarrow> ProtoMicroBlockHeader option" where
  "MicroBlockHeaderToProtobuf E h = do {
     rewards \<leftarrow> NumberToProtobufByteArray (mbh_rewards h);
     miner \<leftarrow> PubKey_out (be_ossl E) (mbh_minerPubKey h);
     Some \<lparr>pmb_blockheaderbase = Some (BlockHeaderBaseToProtobuf h), pmb_shardid = Some (mbh_shardId h),
           pmb_gaslimit = Some (mbh_gasLimit h), pmb_gasused = Some (mbh_gasUsed h), pmb_rewards = Some rewards,
           pmb_epochnum = Some (mbh_epochNum h), pmb_txroothash = Some (mbh_txRootHash h), pmb_numtxs = Some (mbh_numTxs h),
           pmb_minerpubkey = Some miner, pmb_dsblocknum = Some (mbh_dsBlockNum h),
           pmb_statedeltahash = Some (mbh_stateDeltaHash h), pmb_tranreceipthash = Some (mbh_tranReceiptHash h)\<rparr> }"

definition ProtobufToMicroBlockHeader ::
    "'pt block_env \<Rightarrow> ProtoMicroBlockHeader \<Rightarrow> 'pt MicroBlockHeader \<Rightarrow> ('pt MicroBlockHeader \<times> bool) option" where
  "ProtobufToMicroBlockHeader E p h =
     (if \<not> CheckRequiredFieldsProtoMicroBlockMicroBlockHeader p then Some (h, False)
      else do {
        rewards \<leftarrow> ProtobufByteArrayToNumber (the (pmb_rewards p));
        Some (read_header_base (do {
          txRootHash \<leftarrow> CopyWithSizeCheck 32 (the (pmb_txroothash p));
          minerPubKey \<leftarrow> PubKey_in (be_ossl E) (the (pmb_minerpubkey p));
          stateDeltaHash \<leftarrow> CopyWithSizeCheck 32 (the (pmb_statedeltahash p));
          tranReceiptHash \<leftarrow> CopyWithSizeCheck 32 (the (pmb_tranreceipthash p));
          Some \<lparr>hb_version = 0, hb_committeeHash = h256_zero, hb_prevHash = h256_zero, mbh_shardId = the (pmb_shardid p),
                mbh_gasLimit = the (pmb_gaslimit p), mbh_gasUsed = the (pmb_gasused p), mbh_rewards = rewards,
                mbh_epochNum = the (pmb_epochnum p), mbh_txRootHash = txRootHash, mbh_stateDeltaHash = stateDeltaHash,
                mbh_tranReceiptHash = tranReceiptHash, mbh_numTxs = the (pmb_numtxs p), mbh_minerPubKey = minerPubKey,
                mbh_dsBlockNum = the (pmb_dsblocknum p)\<rparr> }) (pmb_blockheaderbase p) h) })"

definition Messenger_SetMicroBlockHeader ::
    "'pt block_env \<Rightarrow> bytes \<Rightarrow> nat \<Rightarrow> 'pt MicroBlockHeader \<Rightarrow> (bytes \<times> bool) option" where
  "Messenger_SetMicroBlockHeader E dst offset h =
     set_message (wMicroBlockHeader (be_proto E)) (MicroBlockHeaderToProtobuf E h) dst offset"

definition Messenger_GetMicroBlockHeader ::
    "'pt block_env \<Rightarrow> bytes \<Rightarrow> nat \<Rightarrow> 'pt MicroBlockHeader \<Rightarrow> ('pt MicroBlockHeader \<times> bool) option" where
  "Messenger_GetMicroBlockHeader E = get_message (wMicroBlockHeader (be_proto E)) (ProtobufToMicroBlockHeader E)"

definition MicroBlockHeader_Serialize :: "'pt block_env \<Rightarrow> 'pt MicroBlockHeader \<Rightarrow> bytes \<Rightarrow> nat \<Rightarrow> (bytes \<times> bool) option" where
  "MicroBlockHeader_Serialize E h dst offset = Messenger_SetMicroBlockHeader E dst offset h"

definition MicroBlockHeader_default :: "'pt openssl \<Rightarrow> 'pt MicroBlockHeader" where
  "MicroBlockHeader_default B =
     \<lparr>hb_version = 0, hb_committeeHash = h256_zero, hb_prevHash = h256_zero, mbh_shardId = 0, mbh_gasLimit = 0, mbh_gasUsed = 0,
      mbh_rewards = 0, mbh_epochNum = - 1, mbh_txRootHash = h256_zero, mbh_stateDeltaHash = h256_zero,
      mbh_tranReceiptHash = h256_zero, mbh_numTxs = 0, mbh_minerPubKey = PubKey_default B, mbh_dsBlockNum = of_nat INIT_BLOCK_NUMBER\<rparr>"

definition MicroBlock_new :: "'pt block_env \<Rightarrow> 'pt MicroBlockHeader \<Rightarrow> bytes list \<Rightarrow> CoSignatures \<Rightarrow> 'pt MicroBlock option" where
  "MicroBlock_new E header tranHashes cosigs = do {
     hash \<leftarrow> GetMyHash (be_ossl E) (MicroBlockHeader_Serialize E header);
     Some \<lparr>bb_blockHash = hash, bb_timestamp = be_now E, bb_cosigs = cosigs, mb_header = header, mb_tranHashes = tranHashes\<rparr> }"

definition MicroBlockToProtobuf :: "'pt block_env \<Rightarrow> 'pt MicroBlock \<Rightarrow> ProtoMicroBlock option" where
  "MicroBlockToProtobuf E b = do {
     header \<leftarrow> MicroBlockHeaderToProtobuf E (mb_header b);
     base \<leftarrow> BlockBaseToProtobuf b;
     Some \<lparr>pb_header = Some header, pb_body = mb_tranHashes b, pb_blockbase = Some base\<rparr> }"

definition MicroBlock_default :: "'pt openssl \<Rightarrow> 'pt MicroBlock" where
  "MicroBlock_default B =
     \<lparr>bb_blockHash = h256_zero, bb_timestamp = 0, bb_cosigs = CoSignatures_new 1, mb_header = MicroBlockHeader_default B, mb_tranHashes = []\<rparr>"

definition ProtobufToMicroBlock :: "'pt block_env \<Rightarrow> ProtoMicroBlock \<Rightarrow> 'pt MicroBlock \<Rightarrow> ('pt MicroBlock \<times> bool) option" where
  "ProtobufToMicroBlock E p b =
     (if \<not> CheckRequiredFieldsProtoBlock p then Some (b, False)
      else do {
        (header, ok) \<leftarrow> ProtobufToMicroBlockHeader E (the (pb_header p)) (MicroBlockHeader_default (be_ossl E));
        if \<not> ok then Some (b, False)
        else do {
          microBlock \<leftarrow> MicroBlock_new E header (map (copy_over h256_zero) (pb_body p)) (CoSignatures_new 1);
          Some (ProtobufToBlockBase (the (pb_blockbase p)) microBlock) } })"

definition Messenger_SetMicroBlock :: "'pt block_env \<Rightarrow> bytes \<Rightarrow> nat \<Rightarrow> 'pt MicroBlock \<Rightarrow> (bytes \<times> bool) option" where
  "Messenger_SetMicroBlock E dst offset b = set_message (wMicroBlock (be_proto E)) (MicroBlockToProtobuf E b) dst offset"

definition Messenger_GetMicroBlock :: "'pt block_env \<Rightarrow> bytes \<Rightarrow> nat \<Rightarrow> 'pt MicroBlock \<Rightarrow> ('pt MicroBlock \<times> bool) option" where
  "Messenger_GetMicroBlock E = get_message (wMicroBlock (be_proto E)) (ProtobufToMicroBlock E)"

text \<open>A micro block is refused when its header does not count its transactions.\<close>

definition MicroBlock_Serialize :: "'pt block_env \<Rightarrow> 'pt MicroBlock \<Rightarrow> bytes \<Rightarrow> nat \<Rightarrow> (bytes \<times> bool) option" where
  "MicroBlock_Serialize E b dst offset =
     (if unat (mbh_numTxs (mb_header b)) \<noteq> length (mb_tranHashes b) then Some (dst, False)
      else Messenger_SetMicroBlock E dst offset b)"

definition MicroBlock_Deserialize :: "'pt block_env \<Rightarrow> 'pt MicroBlock \<Rightarrow> bytes \<Rightarrow> nat \<Rightarrow> ('pt MicroBlock \<times> bool) option" where
  "MicroBlock_Deserialize E b src offset = do {
     (b1, ok) \<leftarrow> Messenger_GetMicroBlock E src offset b;
     Some (b1, ok \<and> unat (mbh_numTxs (mb_header b1)) = length (mb_tranHashes b1)) }"

definition MicroBlock_from_bytes :: "'pt block_env \<Rightarrow> bytes \<Rightarrow> 'pt MicroBlock option" where
  "MicroBlock_from_bytes E src = map_option fst (MicroBlock_Deserialize E (MicroBlock_default (be_ossl E)) src 0)"

section \<open>Committees and the sharding structure\<close>

definition DSCommitteeToProtoCommittee :: "'pt openssl \<Rightarrow> 'pt DequeOfNode \<Rightarrow> bytes list" where
  "DSCommitteeToProtoCommittee B dsCommittee = map (\<lambda>node. fst (PubKey_Serialize B [] 0 (fst node))) dsCommittee"

definition ShardToProtoCommittee :: "'pt openssl \<Rightarrow> 'pt Shard \<Rightarrow> bytes list" where
  "ShardToProtoCommittee B shard = map (\<lambda>node. fst (PubKey_Serialize B [] 0 (fst node))) shard"

text \<open>The three hash functions end alike; \<open>Some None\<close> is the result false.\<close>

definition hash_message :: "'pt openssl \<Rightarrow> 'm wire \<Rightarrow> 'm option \<Rightarrow> bytes option option" where
  "hash_message B w m = do {
     (tmp, ok) \<leftarrow> set_message w m [] 0;
     Some (if \<not> ok then None else Some (SHA2_Finalize B (SHA2_Update SHA2_Reset tmp))) }"

definition GetDSCommitteeHash :: "'pt block_env \<Rightarrow> 'pt DequeOfNode \<Rightarrow> bytes option option" where
  "GetDSCommitteeHash E dsCommittee =
     hash_message (be_ossl E) (wCommittee (be_proto E)) (Some (DSCommitteeToProtoCommittee (be_ossl E) dsCommittee))"

definition GetShardHash :: "'pt block_env \<Rightarrow> 'pt Shard \<Rightarrow> bytes option option" where
  "GetShardHash E shard =
     hash_message (be_ossl E) (wCommittee (be_proto E)) (Some (ShardToProtoCommittee (be_ossl E) shard))"

fun shard_out :: "'pt openssl \<Rightarrow> 'pt Shard \<Rightarrow> ProtoShardMember list option" where
  "shard_out B [] = Some []"
| "shard_out B (n # ns) = do {
     key \<leftarrow> PubKey_out B (fst n);
     peer \<leftarrow> Peer_out (fst (snd n));
     rest \<leftarrow> shard_out B ns;
     Some (\<lparr>psm_pubkey = Some key, psm_peerinfo = Some peer, psm_reputation = Some (ucast (snd (snd n)))\<rparr> # rest) }"

fun shards_out :: "'pt openssl \<Rightarrow> 'pt DequeOfShard \<Rightarrow> ProtoShardMember list list option" where
  "shards_out B [] = Some []"
| "shards_out B (s # ss) = do {
     shard \<leftarrow> shard_out B s;
     rest \<leftarrow> shards_out B ss;
     Some (shard # rest) }"

definition ShardingStructureToProtobuf ::
    "'pt openssl \<Rightarrow> 32 word \<Rightarrow> 'pt DequeOfShard \<Rightarrow> ProtoShardingStructure option" where
  "ShardingStructureToProtobuf B version shards =
     map_option (\<lambda>ss. \<lparr>pss_version = Some version, pss_shards = ss\<rparr>) (shards_out B shards)"

definition CheckRequiredFieldsProtoShardingStructureMember :: "ProtoShardMember \<Rightarrow> bool" where
  "CheckRequiredFieldsProtoShardingStructureMember p \<longleftrightarrow>
     psm_pubkey p \<noteq> None \<and> psm_peerinfo p \<noteq> None \<and> psm_reputation p \<noteq> None"

definition CheckRequiredFieldsProtoShardingStructure :: "ProtoShardingStructure \<Rightarrow> bool" where
  "CheckRequiredFieldsProtoShardingStructure p \<longleftrightarrow> pss_version p \<noteq> None"

text \<open>The members read before a failure stay in the deque.\<close>

fun read_shard_members :: "'pt openssl \<Rightarrow> ProtoShardMember list \<Rightarrow> 'pt Shard \<Rightarrow> 'pt Shard \<times> bool" where
  "read_shard_members B [] shard = (shard, True)"
| "read_shard_members B (p # ps) shard =
     (if \<not> CheckRequiredFieldsProtoShardingStructureMember p then (shard, False)
      else case (PubKey_in B (the (psm_pubkey p)), Peer_in (the (psm_peerinfo p))) of
             (Some key, Some peer) \<Rightarrow> read_shard_members B ps (shard @ [(key, peer, ucast (the (psm_reputation p)))])
           | _ \<Rightarrow> (shard, False))"

fun read_shards :: "'pt openssl \<Rightarrow> ProtoShardMember list list \<Rightarrow> 'pt DequeOfShard \<Rightarrow> 'pt DequeOfShard \<times> bool" where
  "read_shards B [] shards = (shards, True)"
| "read_shards B (p # ps) shards =
     (case read_shard_members B p [] of
        (shard, ok) \<Rightarrow> if \<not> ok then (shards @ [shard], False) else read_shards B ps (shards @ [shard]))"

definition ProtobufToShardingStructure ::
    "'pt openssl \<Rightarrow> ProtoShardingStructure \<Rightarrow> 32 word \<times> 'pt DequeOfShard \<Rightarrow> (32 word \<times> 'pt DequeOfShard) \<times> bool" where
  "ProtobufToShardingStructure B p old =
     (if \<not> CheckRequiredFieldsProtoShardingStructure p then (old, False)
      else case read_shards B (pss_shards p) (snd old) of (shards, ok) \<Rightarrow> ((the (pss_version p), shards), ok))"

definition GetShardingStructureHash :: "'pt block_env \<Rightarrow> 32 word \<Rightarrow> 'pt DequeOfShard \<Rightarrow> bytes option option" where
  "GetShardingStructureHash E version shards =
     hash_message (be_ossl E) (wShardingStructure (be_proto E)) (ShardingStructureToProtobuf (be_ossl E) version shards)"

text \<open>The hash of the micro block infos; with no info the destination stays as it is.\<close>

fun mbinfo_bytes :: "'pt block_env \<Rightarrow> MicroBlockInfo list \<Rightarrow> bytes \<Rightarrow> bytes option" where
  "mbinfo_bytes E [] tmp = Some tmp"
| "mbinfo_bytes E (m # ms) tmp = do {
     (tmp1, _) \<leftarrow> SerializeToArray (ToArray (wMbInfo (be_proto E)) (MbInfoToProtobuf m)) tmp (u32 (length tmp));
     mbinfo_bytes E ms tmp1 }"

definition GetMbInfoHash :: "'pt block_env \<Rightarrow> MicroBlockInfo list \<Rightarrow> bytes \<Rightarrow> bytes option" where
  "GetMbInfoHash E mbInfos dst = do {
     tmp \<leftarrow> mbinfo_bytes E mbInfos [];
     Some (if tmp = [] then dst else SHA2_Finalize (be_ossl E) (SHA2_Update SHA2_Reset tmp)) }"

definition Messenger_SetFallbackBlockWShardingStructure ::
    "'pt block_env \<Rightarrow> bytes \<Rightarrow> nat \<Rightarrow> 'pt FallbackBlock \<Rightarrow> 32 word \<Rightarrow> 'pt DequeOfShard \<Rightarrow> (bytes \<times> bool) option" where
  "Messenger_SetFallbackBlockWShardingStructure E dst offset fallbackblock version shards =
     set_message (wFallbackWSharding (be_proto E)) (do {
       block \<leftarrow> FallbackBlockToProtobuf E fallbackblock;
       sharding \<leftarrow> ShardingStructureToProtobuf (be_ossl E) version shards;
       Some (Some block, Some sharding) }) dst offset"

definition ProtobufToFallbackWSharding ::
    "'pt block_env \<Rightarrow> ProtoFallbackWSharding \<Rightarrow> 'pt FallbackBlock \<times> 32 word \<times> 'pt DequeOfShard
     \<Rightarrow> (('pt FallbackBlock \<times> 32 word \<times> 'pt DequeOfShard) \<times> bool) option" where
  "ProtobufToFallbackWSharding E p old =
     (if fst p = None \<or> snd p = None then Some (old, False)
      else do {
        (block, _) \<leftarrow> ProtobufToFallbackBlock E (the (fst p)) (fst old);
        (case ProtobufToShardingStructure (be_ossl E) (the (snd p)) (snd old) of (sharding, ok) \<Rightarrow> Some ((block, sharding), ok)) })"

definition Messenger_GetFallbackBlockWShardingStructure ::
    "'pt block_env \<Rightarrow> bytes \<Rightarrow> nat \<Rightarrow> 'pt FallbackBlock \<times> 32 word \<times> 'pt DequeOfShard
     \<Rightarrow> (('pt FallbackBlock \<times> 32 word \<times> 'pt DequeOfShard) \<times> bool) option" where
  "Messenger_GetFallbackBlockWShardingStructure E = get_message (wFallbackWSharding (be_proto E)) (ProtobufToFallbackWSharding E)"

definition FallbackBlockWShardingStructure_Serialize ::
    "'pt block_env \<Rightarrow> 'pt FallbackBlockWShardingStructure \<Rightarrow> bytes \<Rightarrow> nat \<Rightarrow> (bytes \<times> bool) option" where
  "FallbackBlockWShardingStructure_Serialize E f dst offset =
     Messenger_SetFallbackBlockWShardingStructure E dst offset (fbs_fallbackblock f) (SHARDINGSTRUCTURE_VERSION E) (fbs_shards f)"

definition FallbackBlockWShardingStructure_Deserialize ::
    "'pt block_env \<Rightarrow> 'pt FallbackBlockWShardingStructure \<Rightarrow> bytes \<Rightarrow> nat \<Rightarrow> ('pt FallbackBlockWShardingStructure \<times> bool) option" where
  "FallbackBlockWShardingStructure_Deserialize E f src offset = do {
     ((block, version, shards), ok) \<leftarrow>
       Messenger_GetFallbackBlockWShardingStructure E src offset (fbs_fallbackblock f, 0, fbs_shards f);
     Some (\<lparr>fbs_fallbackblock = block, fbs_shards = shards\<rparr>, ok \<and> version = SHARDINGSTRUCTURE_VERSION E) }"

end
