(* ===== verification/BlockCodec.thy ===== *)
theory BlockCodec
  imports Blocks
begin

text \<open>
  Blocks survive their messages: the five kinds of blocks, their headers and the sharding structure are read back as they
  were written. One locale carries the proof; each message is an interpretation that shows its two conversions to be
  inverse on well-formed objects.
\<close>

section \<open>Fields\<close>

named_theorems block_fields

lemma PubKey_out_eq [block_fields]: "PubKey_out B k = Some (fst (PubKey_Serialize B [] 0 k))"
  by (simp add: SerializableToProtobufByteArray_def)

lemma PubKey_in_out:
  assumes "openssl_points_ok B enc" "enc k"
  shows "PubKey_in B (fst (PubKey_Serialize B [] 0 k)) = Some k"
  by (simp add: ProtobufByteArrayToSerializable_def PubKey_field [OF assms])

definition peer_bytes :: "Peer \<Rightarrow> bytes" where
  "peer_bytes p = fst (the (Peer_Serialize [] 0 p))"

lemma Peer_in_out:
  assumes "Peer_fits p"
  shows "Peer_out p = Some (peer_bytes p)" "Peer_in (peer_bytes p) = Some p"
proof -
  obtain dst where dst: "Peer_Serialize [] 0 p = Some (dst, 20)" "Peer_Deserialize Peer_default dst 0 = (p, 0)"
    using Peer_roundtrip [OF assms, of 0 "[]" Peer_default] by auto
  show "Peer_out p = Some (peer_bytes p)" by (simp add: SerializableToProtobufByteArray_def peer_bytes_def dst(1))
  show "Peer_in (peer_bytes p) = Some p" by (simp add: ProtobufByteArrayToSerializable_def peer_bytes_def dst)
qed

lemma Signature_out_eq [block_fields]: "Signature_out s = Some (fst (Signature_Serialize [] 0 s))"
  by (simp add: SerializableToProtobufByteArray_def)

lemma Signature_in_out:
  assumes "Signature_fits s"
  shows "Signature_in (fst (Signature_Serialize [] 0 s)) = Some s"
  by (simp add: ProtobufByteArrayToSerializable_def Signature_roundtrip_aux(1) [OF assms, of 0])

lemma SWInfo_out_eq [block_fields]: "SWInfo_out s = Some (field_bytes (SWInfo_fields s))"
  by (simp add: SerializableToProtobufByteArray_def SWInfo_roundtrip)

lemma SWInfo_in_out [block_fields]: "SWInfo_in (field_bytes (SWInfo_fields s)) = Some s"
  by (simp add: ProtobufByteArrayToSerializable_def SWInfo_roundtrip)

lemma Number_out_eq [block_fields]:
  "NumberToProtobufByteArray n = Some (number_field_put UINT128_SIZE [] 0 (unat n))"
  by (simp add: NumberToProtobufByteArray_def Serializable_SetNumber_eq UINT128_SIZE_def)

lemma Number_in_out [block_fields]:
  "ProtobufByteArrayToNumber (number_field_put UINT128_SIZE [] 0 (unat n)) = Some n"
  by (simp add: ProtobufByteArrayToNumber_def number128_roundtrip)

lemma ucast_back [block_fields]:
  "ucast (ucast (x :: 8 word) :: 32 word) = x" "ucast (ucast (y :: 16 word) :: 32 word) = y"
  by (auto intro!: bit_word_eqI simp: bit_unsigned_iff dest: bit_imp_le_length)

lemma copy_over_same [block_fields]: "length b = length m \<Longrightarrow> copy_over m b = b"
  by (simp add: copy_over_def)

lemma hash_copy [block_fields]: "length b = 32 \<Longrightarrow> copy_over h256_zero b = b" "length b = 32 \<Longrightarrow> CopyWithSizeCheck 32 b = Some b"
  by (simp_all add: copy_over_def h256_zero_def CopyWithSizeCheck_def)

section \<open>Well-formed objects\<close>

definition node_ok :: "('pt \<Rightarrow> bool) \<Rightarrow> 'pt PairOfNode \<Rightarrow> bool" where
  "node_ok enc n \<longleftrightarrow> enc (fst n) \<and> Peer_fits (snd n)"

definition header_base_ok :: "'z BlockHeaderBase_scheme \<Rightarrow> bool" where
  "header_base_ok h \<longleftrightarrow> length (hb_committeeHash h) = 32 \<and> length (hb_prevHash h) = 32"

definition block_base_ok :: "'z BlockBase_scheme \<Rightarrow> bool" where
  "block_base_ok b \<longleftrightarrow> length (bb_blockHash b) = 32 \<and> Signature_fits (cs_CS1 (bb_cosigs b)) \<and> Signature_fits (cs_CS2 (bb_cosigs b))"

text \<open>The winners are the entries of an ordered map.\<close>

definition DSBlockHeader_ok :: "'pt openssl \<Rightarrow> ('pt \<Rightarrow> bool) \<Rightarrow> 'pt DSBlockHeader \<Rightarrow> bool" where
  "DSBlockHeader_ok B enc h \<longleftrightarrow> header_base_ok h \<and> enc (dsh_leaderPubKey h) \<and> list_all (node_ok enc) (dsh_PoWDSWinners h)
     \<and> sorted_wrt (PubKey_less B) (map fst (dsh_PoWDSWinners h)) \<and> length (dsh_shardingHash h) = 32
     \<and> length (dsh_reservedField h) = 128"

definition TxBlockHeader_ok :: "('pt \<Rightarrow> bool) \<Rightarrow> 'pt TxBlockHeader \<Rightarrow> bool" where
  "TxBlockHeader_ok enc h \<longleftrightarrow> header_base_ok h \<and> enc (txh_minerPubKey h) \<and> length (txh_stateRootHash h) = 32
     \<and> length (txh_stateDeltaHash h) = 32 \<and> length (txh_mbInfoHash h) = 32"

definition VCBlockHeader_ok :: "('pt \<Rightarrow> bool) \<Rightarrow> 'pt VCBlockHeader \<Rightarrow> bool" where
  "VCBlockHeader_ok enc h \<longleftrightarrow> header_base_ok h \<and> enc (vch_CandidateLeaderPubKey h) \<and> Peer_fits (vch_CandidateLeaderNetworkInfo h)
     \<and> list_all (node_ok enc) (vch_FaultyLeaders h)"

definition FallbackBlockHeader_ok :: "('pt \<Rightarrow> bool) \<Rightarrow> 'pt FallbackBlockHeader \<Rightarrow> bool" where
  "FallbackBlockHeader_ok enc h \<longleftrightarrow> header_base_ok h \<and> enc (fbh_leaderPubKey h) \<and> Peer_fits (fbh_leaderNetworkInfo h)
     \<and> length (fbh_stateRootHash h) = 32"

definition MicroBlockHeader_ok :: "('pt \<Rightarrow> bool) \<Rightarrow> 'pt MicroBlockHeader \<Rightarrow> bool" where
  "MicroBlockHeader_ok enc h \<longleftrightarrow> header_base_ok h \<and> enc (mbh_minerPubKey h) \<and> length (mbh_txRootHash h) = 32
     \<and> length (mbh_stateDeltaHash h) = 32 \<and> length (mbh_tranReceiptHash h) = 32"

definition MicroBlockInfo_ok :: "MicroBlockInfo \<Rightarrow> bool" where
  "MicroBlockInfo_ok m \<longleftrightarrow> length (mbi_microBlockHash m) = 32 \<and> length (mbi_txnRootHash m) = 32"

section \<open>Conversions\<close>

lemma header_base_reads:
  assumes "header_base_ok h"
  shows "read_header_base (Some (h\<lparr>hb_version := v, hb_committeeHash := c, hb_prevHash := p\<rparr>)) (Some (BlockHeaderBaseToProtobuf h)) old
    = (h, True)"
  using assms by (cases h) (simp add: read_header_base_def ProtobufToBlockHeaderBase_def BlockHeaderBaseToProtobuf_def
    CheckRequiredFieldsProtoBlockHeaderBase_def header_base_ok_def block_fields Let_def)

lemma block_base_reads:
  assumes "block_base_ok b"
  shows "\<exists>p. BlockBaseToProtobuf b = Some p
    \<and> (\<forall>h t c. ProtobufToBlockBase p (b\<lparr>bb_blockHash := h, bb_timestamp := t, bb_cosigs := c\<rparr>) = (b, True))"
proof -
  obtain s1 b1 s2 b2 where c: "bb_cosigs b = \<lparr>cs_CS1 = s1, cs_B1 = b1, cs_CS2 = s2, cs_B2 = b2\<rparr>" by (cases "bb_cosigs b")
  have "Signature_in (fst (Signature_Serialize [] 0 s1)) = Some s1" "Signature_in (fst (Signature_Serialize [] 0 s2)) = Some s2"
    using assms c by (auto simp: block_base_ok_def intro: Signature_in_out)
  then show ?thesis using assms c
    by (cases b) (simp add: BlockBaseToProtobuf_def ProtobufToBlockBase_def CheckRequiredFieldsProtoBlockBase_def
        CheckRequiredFieldsProtoBlockBaseCoSignatures_def block_base_ok_def block_fields Let_def)
qed

lemma nodes_read:
  assumes "openssl_points_ok B enc" "list_all (node_ok enc) ns"
  shows "\<exists>ps. nodes_out B ns = Some ps \<and> ProtobufToFaultyDSMembers B ps = Some ns"
  using assms(2)
proof (induction ns)
  case (Cons n ns)
  then obtain ps where ps: "nodes_out B ns = Some ps" "ProtobufToFaultyDSMembers B ps = Some ns" by auto
  have n: "enc (fst n)" "Peer_fits (snd n)" using Cons.prems by (simp_all add: node_ok_def)
  show ?case
    by (simp add: ps block_fields PubKey_in_out [OF assms(1) n(1)] Peer_in_out [OF n(2)] bytes_or_empty_def)
qed simp

lemma map_assign_last:
  "(\<And>k'. k' \<in> fst ` set xs \<Longrightarrow> lt k' k) \<Longrightarrow> map_assign lt k v xs = xs @ [(k, v)]"
  by (induction xs) auto

lemma winners_read:
  assumes "openssl_points_ok B enc" "list_all (node_ok enc) ws" "sorted_wrt (PubKey_less B) (map fst (ws0 @ ws))"
  shows "\<exists>ps. nodes_out B ws = Some ps \<and> read_winners B ps ws0 = Some (ws0 @ ws)"
  using assms(2,3)
proof (induction ws arbitrary: ws0)
  case (Cons w ws)
  have w: "enc (fst w)" "Peer_fits (snd w)" using Cons.prems by (simp_all add: node_ok_def)
  obtain ps where ps: "nodes_out B ws = Some ps" "read_winners B ps (ws0 @ [w]) = Some (ws0 @ w # ws)"
    using Cons.IH [of "ws0 @ [w]"] Cons.prems by auto
  have "map_assign (PubKey_less B) (fst w) (snd w) ws0 = ws0 @ [w]"
    using map_assign_last [of ws0 "PubKey_less B" "fst w" "snd w"] Cons.prems(2) by (auto simp: sorted_wrt_append)
  then show ?case
    by (simp add: ps block_fields PubKey_in_out [OF assms(1) w(1)] Peer_in_out [OF w(2)] CheckRequiredFieldsProtoDSBlockPowDSWinner_def)
qed simp

lemma mbinfos_read: "list_all MicroBlockInfo_ok ms \<Longrightarrow> read_mbinfos (map MbInfoToProtobuf ms) = Some ms"
  by (induction ms) (auto simp: ProtobufToMbInfo_def MbInfoToProtobuf_def CheckRequiredFieldsProtoMbInfo_def MicroBlockInfo_ok_def
      block_fields)

lemma DSBlockHeader_reads:
  assumes "openssl_points_ok (be_ossl E) enc" "length (be_memory E) = 128" "DSBlockHeader_ok (be_ossl E) enc h"
  shows "\<exists>p. DSBlockHeaderToProtobuf E h False = Some p \<and> (\<forall>old. ProtobufToDSBlockHeader E p old = Some (h, True))"
proof -
  have h: "header_base_ok h" "enc (dsh_leaderPubKey h)" "list_all (node_ok enc) (dsh_PoWDSWinners h)"
    "sorted_wrt (PubKey_less (be_ossl E)) (map fst (dsh_PoWDSWinners h))" "length (dsh_shardingHash h) = 32"
    "length (dsh_reservedField h) = 128" using assms(3) by (auto simp: DSBlockHeader_ok_def)
  obtain ps where ps: "nodes_out (be_ossl E) (dsh_PoWDSWinners h) = Some ps"
      "read_winners (be_ossl E) ps [] = Some (dsh_PoWDSWinners h)"
    using winners_read [OF assms(1) h(3), of "[]"] h(4) by auto
  have "\<lparr>hb_version = 0, hb_committeeHash = h256_zero, hb_prevHash = h256_zero, dsh_dsDifficulty = dsh_dsDifficulty h,
      dsh_difficulty = dsh_difficulty h, dsh_leaderPubKey = dsh_leaderPubKey h, dsh_blockNum = dsh_blockNum h,
      dsh_epochNum = dsh_epochNum h, dsh_gasPrice = dsh_gasPrice h, dsh_swInfo = dsh_swInfo h,
      dsh_PoWDSWinners = dsh_PoWDSWinners h, dsh_shardingHash = dsh_shardingHash h, dsh_reservedField = dsh_reservedField h\<rparr>
    = h\<lparr>hb_version := 0, hb_committeeHash := h256_zero, hb_prevHash := h256_zero\<rparr>" by simp
  note eq = this
  show ?thesis
    by (simp add: DSBlockHeaderToProtobuf_def ProtobufToDSBlockHeader_def ps block_fields h assms(2) eq
        CheckRequiredFieldsProtoDSBlockDSBlockHeader_def CheckRequiredFieldsProtoDSBlockDSBlockHashSet_def
        PubKey_in_out [OF assms(1) h(2)] header_base_reads [OF h(1)])
qed

lemma TxBlockHeader_reads:
  assumes "openssl_points_ok (be_ossl E) enc" "TxBlockHeader_ok enc h"
  shows "\<exists>p. TxBlockHeaderToProtobuf E h = Some p \<and> (\<forall>old. ProtobufToTxBlockHeader E p old = Some (h, True))"
proof -
  have h: "header_base_ok h" "enc (txh_minerPubKey h)" "length (txh_stateRootHash h) = 32" "length (txh_stateDeltaHash h) = 32"
    "length (txh_mbInfoHash h) = 32" using assms(2) by (auto simp: TxBlockHeader_ok_def)
  have eq: "\<lparr>hb_version = 0, hb_committeeHash = h256_zero, hb_prevHash = h256_zero, txh_gasLimit = txh_gasLimit h,
      txh_gasUsed = txh_gasUsed h, txh_rewards = txh_rewards h, txh_blockNum = txh_blockNum h,
      txh_stateRootHash = txh_stateRootHash h, txh_stateDeltaHash = txh_stateDeltaHash h, txh_mbInfoHash = txh_mbInfoHash h,
      txh_numTxs = txh_numTxs h, txh_minerPubKey = txh_minerPubKey h, txh_dsBlockNum = txh_dsBlockNum h\<rparr>
    = h\<lparr>hb_version := 0, hb_committeeHash := h256_zero, hb_prevHash := h256_zero\<rparr>" by simp
  show ?thesis
    by (simp add: TxBlockHeaderToProtobuf_def ProtobufToTxBlockHeader_def block_fields h eq
        CheckRequiredFieldsProtoTxBlockTxBlockHeader_def CheckRequiredFieldsProtoTxBlockTxBlockHashSet_def
        PubKey_in_out [OF assms(1) h(2)] header_base_reads [OF h(1)])
qed

lemma VCBlockHeader_reads:
  assumes "openssl_points_ok (be_ossl E) enc" "VCBlockHeader_ok enc h"
  shows "\<exists>p. VCBlockHeaderToProtobuf E h = Some p \<and> (\<forall>old. ProtobufToVCBlockHeader E p old = Some (h, True))"
proof -
  have h: "header_base_ok h" "enc (vch_CandidateLeaderPubKey h)" "Peer_fits (vch_CandidateLeaderNetworkInfo h)"
    "list_all (node_ok enc) (vch_FaultyLeaders h)" using assms(2) by (auto simp: VCBlockHeader_ok_def)
  obtain ps where ps: "nodes_out (be_ossl E) (vch_FaultyLeaders h) = Some ps"
      "ProtobufToFaultyDSMembers (be_ossl E) ps = Some (vch_FaultyLeaders h)"
    using nodes_read [OF assms(1) h(4)] by auto
  have eq: "\<lparr>hb_version = 0, hb_committeeHash = h256_zero, hb_prevHash = h256_zero,
      vch_ViewChangeDSEpochNo = vch_ViewChangeDSEpochNo h, vch_ViewChangeEpochNo = vch_ViewChangeEpochNo h,
      vch_ViewChangeState = vch_ViewChangeState h, vch_CandidateLeaderNetworkInfo = vch_CandidateLeaderNetworkInfo h,
      vch_CandidateLeaderPubKey = vch_CandidateLeaderPubKey h, vch_VCCounter = vch_VCCounter h,
      vch_FaultyLeaders = vch_FaultyLeaders h\<rparr>
    = h\<lparr>hb_version := 0, hb_committeeHash := h256_zero, hb_prevHash := h256_zero\<rparr>" by simp
  show ?thesis
    by (simp add: VCBlockHeaderToProtobuf_def ProtobufToVCBlockHeader_def FaultyLeaderToProtobuf_def ps block_fields eq
        CheckRequiredFieldsProtoVCBlockVCBlockHeader_def PubKey_in_out [OF assms(1) h(2)] Peer_in_out [OF h(3)]
        header_base_reads [OF h(1)])
qed

lemma FallbackBlockHeader_reads:
  assumes "openssl_points_ok (be_ossl E) enc" "FallbackBlockHeader_ok enc h"
  shows "\<exists>p. FallbackBlockHeaderToProtobuf E h = Some p \<and> (\<forall>old. ProtobufToFallbackBlockHeader E p old = Some (h, True))"
proof -
  have h: "header_base_ok h" "enc (fbh_leaderPubKey h)" "Peer_fits (fbh_leaderNetworkInfo h)" "length (fbh_stateRootHash h) = 32"
    using assms(2) by (auto simp: FallbackBlockHeader_ok_def)
  have eq: "\<lparr>hb_version = 0, hb_committeeHash = h256_zero, hb_prevHash = h256_zero,
      fbh_fallbackDSEpochNo = fbh_fallbackDSEpochNo h, fbh_fallbackEpochNo = fbh_fallbackEpochNo h,
      fbh_fallbackState = fbh_fallbackState h, fbh_stateRootHash = fbh_stateRootHash h,
      fbh_leaderConsensusId = fbh_leaderConsensusId h, fbh_leaderNetworkInfo = fbh_leaderNetworkInfo h,
      fbh_leaderPubKey = fbh_leaderPubKey h, fbh_shardId = fbh_shardId h\<rparr>
    = h\<lparr>hb_version := 0, hb_committeeHash := h256_zero, hb_prevHash := h256_zero\<rparr>" by simp
  show ?thesis
    by (simp add: FallbackBlockHeaderToProtobuf_def ProtobufToFallbackBlockHeader_def block_fields h eq
        CheckRequiredFieldsProtoFallbackBlockFallbackBlockHeader_def PubKey_in_out [OF assms(1) h(2)] Peer_in_out [OF h(3)]
        header_base_reads [OF h(1)])
qed

lemma MicroBlockHeader_reads:
  assumes "openssl_points_ok (be_ossl E) enc" "MicroBlockHeader_ok enc h"
  shows "\<exists>p. MicroBlockHeaderToProtobuf E h = Some p \<and> (\<forall>old. ProtobufToMicroBlockHeader E p old = Some (h, True))"
proof -
  have h: "header_base_ok h" "enc (mbh_minerPubKey h)" "length (mbh_txRootHash h) = 32" "length (mbh_stateDeltaHash h) = 32"
    "length (mbh_tranReceiptHash h) = 32" using assms(2) by (auto simp: MicroBlockHeader_ok_def)
  have eq: "\<lparr>hb_version = 0, hb_committeeHash = h256_zero, hb_prevHash = h256_zero, mbh_shardId = mbh_shardId h,
      mbh_gasLimit = mbh_gasLimit h, mbh_gasUsed = mbh_gasUsed h, mbh_rewards = mbh_rewards h, mbh_epochNum = mbh_epochNum h,
      mbh_txRootHash = mbh_txRootHash h, mbh_stateDeltaHash = mbh_stateDeltaHash h, mbh_tranReceiptHash = mbh_tranReceiptHash h,
      mbh_numTxs = mbh_numTxs h, mbh_minerPubKey = mbh_minerPubKey h, mbh_dsBlockNum = mbh_dsBlockNum h\<rparr>
    = h\<lparr>hb_version := 0, hb_committeeHash := h256_zero, hb_prevHash := h256_zero\<rparr>" by simp
  show ?thesis
    by (simp add: MicroBlockHeaderToProtobuf_def ProtobufToMicroBlockHeader_def block_fields h eq
        CheckRequiredFieldsProtoMicroBlockMicroBlockHeader_def PubKey_in_out [OF assms(1) h(2)] header_base_reads [OF h(1)])
qed

section \<open>Whole messages\<close>

text \<open>What is relied on: a message within the size limit of the protobuf runtime parses to itself.\<close>

definition wire_ok :: "'m wire \<Rightarrow> bool" where
  "wire_ok w \<longleftrightarrow> (\<forall>m. length (ToArray w m) < 2 ^ 31 \<longrightarrow> FromArray w (ToArray w m) = Some m)"

locale block_message =
  fixes w :: "'m wire"
    and to_message :: "'x \<Rightarrow> 'm option"
    and of_message :: "'m \<Rightarrow> 'x \<Rightarrow> ('x \<times> bool) option"
    and ok :: "'x \<Rightarrow> bool"
  assumes parses: "ok x \<Longrightarrow> wire_ok w"
    and converts: "ok x \<Longrightarrow> \<exists>m. to_message x = Some m \<and> (\<forall>old. of_message m old = Some (x, True))"
begin

lemma get_set:
  assumes "ok x" "set_message w (to_message x) dst (length dst) = Some (dst', True)" "length dst < length dst'"
  shows "get_message w of_message dst' (length dst) old = Some (x, True)"
proof -
  obtain m where m: "to_message x = Some m" "of_message m old = Some (x, True)" using converts [OF assms(1)] by blast
  have set: "SerializeToArray (ToArray w m) dst (length dst) = Some (dst', True)" using assms(2) m(1) by (simp add: set_message_def)
  then have "dst' = dst @ ToArray w m" by (rule SerializeToArray_at_end)
  moreover have "length (ToArray w m) < 2 ^ 31" using set by (simp add: SerializeToArray_def split: if_splits)
  ultimately show ?thesis using parses [OF assms(1)] m(2) assms(3) by (simp add: get_message_def wire_ok_def)
qed

lemma set_total: "ok x \<Longrightarrow> \<exists>dst r. set_message w (to_message x) [] 0 = Some (dst, r)"
  using converts [of x] SerializeToArray_start by (auto simp: set_message_def)

end

text \<open>The environment of the five kinds of messages.\<close>

definition block_env_ok :: "'pt block_env \<Rightarrow> ('pt \<Rightarrow> bool) \<Rightarrow> bool" where
  "block_env_ok E enc \<longleftrightarrow> openssl_points_ok (be_ossl E) enc \<and> length (be_memory E) = 128"

definition ds_header_ok :: "'pt block_env \<Rightarrow> ('pt \<Rightarrow> bool) \<Rightarrow> 'pt DSBlockHeader \<Rightarrow> bool" where
  "ds_header_ok E enc h \<longleftrightarrow> block_env_ok E enc \<and> wire_ok (wDSBlockHeader (be_proto E)) \<and> DSBlockHeader_ok (be_ossl E) enc h"

definition ds_block_ok :: "'pt block_env \<Rightarrow> ('pt \<Rightarrow> bool) \<Rightarrow> 'pt DSBlock \<Rightarrow> bool" where
  "ds_block_ok E enc b \<longleftrightarrow> block_env_ok E enc \<and> wire_ok (wDSBlock (be_proto E)) \<and> DSBlockHeader_ok (be_ossl E) enc (ds_header b)
     \<and> block_base_ok b"

definition tx_block_ok :: "'pt block_env \<Rightarrow> ('pt \<Rightarrow> bool) \<Rightarrow> 'pt TxBlock \<Rightarrow> bool" where
  "tx_block_ok E enc b \<longleftrightarrow> block_env_ok E enc \<and> wire_ok (wTxBlock (be_proto E)) \<and> TxBlockHeader_ok enc (tx_header b)
     \<and> list_all MicroBlockInfo_ok (tx_mbInfos b) \<and> block_base_ok b"

definition vc_block_ok :: "'pt block_env \<Rightarrow> ('pt \<Rightarrow> bool) \<Rightarrow> 'pt VCBlock \<Rightarrow> bool" where
  "vc_block_ok E enc b \<longleftrightarrow> block_env_ok E enc \<and> wire_ok (wVCBlock (be_proto E)) \<and> VCBlockHeader_ok enc (vc_header b)
     \<and> block_base_ok b"

definition fb_block_ok :: "'pt block_env \<Rightarrow> ('pt \<Rightarrow> bool) \<Rightarrow> 'pt FallbackBlock \<Rightarrow> bool" where
  "fb_block_ok E enc b \<longleftrightarrow> block_env_ok E enc \<and> wire_ok (wFallbackBlock (be_proto E)) \<and> FallbackBlockHeader_ok enc (fb_header b)
     \<and> block_base_ok b"

definition mb_block_ok :: "'pt block_env \<Rightarrow> ('pt \<Rightarrow> bool) \<Rightarrow> 'pt MicroBlock \<Rightarrow> bool" where
  "mb_block_ok E enc b \<longleftrightarrow> block_env_ok E enc \<and> wire_ok (wMicroBlock (be_proto E)) \<and> MicroBlockHeader_ok enc (mb_header b)
     \<and> list_all (\<lambda>h. length h = 32) (mb_tranHashes b) \<and> block_base_ok b"

lemma GetMyHash_total:
  assumes "m = Some p" "Serialize [] 0 = set_message w m [] 0"
  shows "\<exists>h. GetMyHash B Serialize = Some h"
  using SerializeToArray_start [of "ToArray w p"] assms by (auto simp: GetMyHash_def set_message_def)

lemma DSBlock_reads:
  assumes "ds_block_ok E enc b"
  shows "\<exists>m. DSBlockToProtobuf E b = Some m \<and> (\<forall>old. ProtobufToDSBlock E m old = Some (b, True))"
proof -
  obtain hp where hp: "DSBlockHeaderToProtobuf E (ds_header b) False = Some hp"
      "\<And>old. ProtobufToDSBlockHeader E hp old = Some (ds_header b, True)"
    using DSBlockHeader_reads [of E enc "ds_header b"] assms by (auto simp: ds_block_ok_def block_env_ok_def)
  obtain h where h: "GetMyHash (be_ossl E) (DSBlockHeader_Serialize E (ds_header b)) = Some h"
    using GetMyHash_total [OF hp(1), of "DSBlockHeader_Serialize E (ds_header b)" "wDSBlockHeader (be_proto E)"]
    by (auto simp: DSBlockHeader_Serialize_def Messenger_SetDSBlockHeader_def)
  obtain p where p: "BlockBaseToProtobuf b = Some p"
      "ProtobufToBlockBase p (b\<lparr>bb_blockHash := h, bb_timestamp := be_now E, bb_cosigs := CoSignatures_new 1\<rparr>) = (b, True)"
    using block_base_reads [of b] assms by (auto simp: ds_block_ok_def)
  moreover have "DSBlock_new E (ds_header b) (CoSignatures_new 1)
    = Some (b\<lparr>bb_blockHash := h, bb_timestamp := be_now E, bb_cosigs := CoSignatures_new 1\<rparr>)"
    by (simp add: DSBlock_new_def h)
  ultimately show ?thesis
    by (simp add: DSBlockToProtobuf_def ProtobufToDSBlock_def hp CheckRequiredFieldsProtoBlock_def)
qed

lemma TxBlock_reads:
  assumes "tx_block_ok E enc b"
  shows "\<exists>m. TxBlockToProtobuf E b = Some m \<and> (\<forall>old. ProtobufToTxBlock E m old = Some (b, True))"
proof -
  obtain hp where hp: "TxBlockHeaderToProtobuf E (tx_header b) = Some hp"
      "\<And>old. ProtobufToTxBlockHeader E hp old = Some (tx_header b, True)"
    using TxBlockHeader_reads [of E enc "tx_header b"] assms by (auto simp: tx_block_ok_def block_env_ok_def)
  obtain h where h: "GetMyHash (be_ossl E) (TxBlockHeader_Serialize E (tx_header b)) = Some h"
    using GetMyHash_total [OF hp(1), of "TxBlockHeader_Serialize E (tx_header b)" "wTxBlockHeader (be_proto E)"]
    by (auto simp: TxBlockHeader_Serialize_def Messenger_SetTxBlockHeader_def)
  have body: "read_mbinfos (map MbInfoToProtobuf (tx_mbInfos b)) = Some (tx_mbInfos b)"
    using assms by (simp add: tx_block_ok_def mbinfos_read)
  obtain p where p: "BlockBaseToProtobuf b = Some p"
      "ProtobufToBlockBase p (b\<lparr>bb_blockHash := h, bb_timestamp := be_now E, bb_cosigs := CoSignatures_new 1\<rparr>) = (b, True)"
    using block_base_reads [of b] assms by (auto simp: tx_block_ok_def)
  moreover have "TxBlock_new E (tx_header b) (tx_mbInfos b) (CoSignatures_new 1)
    = Some (b\<lparr>bb_blockHash := h, bb_timestamp := be_now E, bb_cosigs := CoSignatures_new 1\<rparr>)"
    by (simp add: TxBlock_new_def h)
  ultimately show ?thesis
    by (simp add: TxBlockToProtobuf_def ProtobufToTxBlock_def hp body CheckRequiredFieldsProtoBlock_def)
qed

lemma VCBlock_reads:
  assumes "vc_block_ok E enc b"
  shows "\<exists>m. VCBlockToProtobuf E b = Some m \<and> (\<forall>old. ProtobufToVCBlock E m old = Some (b, True))"
proof -
  obtain hp where hp: "VCBlockHeaderToProtobuf E (vc_header b) = Some hp"
      "\<And>old. ProtobufToVCBlockHeader E hp old = Some (vc_header b, True)"
    using VCBlockHeader_reads [of E enc "vc_header b"] assms by (auto simp: vc_block_ok_def block_env_ok_def)
  obtain h where h: "GetMyHash (be_ossl E) (VCBlockHeader_Serialize E (vc_header b)) = Some h"
    using GetMyHash_total [OF hp(1), of "VCBlockHeader_Serialize E (vc_header b)" "wVCBlockHeader (be_proto E)"]
    by (auto simp: VCBlockHeader_Serialize_def Messenger_SetVCBlockHeader_def)
  obtain p where p: "BlockBaseToProtobuf b = Some p"
      "ProtobufToBlockBase p (b\<lparr>bb_blockHash := h, bb_timestamp := be_now E, bb_cosigs := CoSignatures_new 1\<rparr>) = (b, True)"
    using block_base_reads [of b] assms by (auto simp: vc_block_ok_def)
  moreover have "VCBlock_new E (vc_header b) (CoSignatures_new 1)
    = Some (b\<lparr>bb_blockHash := h, bb_timestamp := be_now E, bb_cosigs := CoSignatures_new 1\<rparr>)"
    by (simp add: VCBlock_new_def h)
  ultimately show ?thesis
    by (simp add: VCBlockToProtobuf_def ProtobufToVCBlock_def hp CheckRequiredFieldsProtoBlock_def)
qed

lemma FallbackBlock_reads:
  assumes "fb_block_ok E enc b"
  shows "\<exists>m. FallbackBlockToProtobuf E b = Some m \<and> (\<forall>old. ProtobufToFallbackBlock E m old = Some (b, True))"
proof -
  obtain hp where hp: "FallbackBlockHeaderToProtobuf E (fb_header b) = Some hp"
      "\<And>old. ProtobufToFallbackBlockHeader E hp old = Some (fb_header b, True)"
    using FallbackBlockHeader_reads [of E enc "fb_header b"] assms by (auto simp: fb_block_ok_def block_env_ok_def)
  obtain h where h: "GetMyHash (be_ossl E) (FallbackBlockHeader_Serialize E (fb_header b)) = Some h"
    using GetMyHash_total [OF hp(1), of "FallbackBlockHeader_Serialize E (fb_header b)" "wFallbackBlockHeader (be_proto E)"]
    by (auto simp: FallbackBlockHeader_Serialize_def Messenger_SetFallbackBlockHeader_def)
  obtain p where p: "BlockBaseToProtobuf b = Some p"
      "ProtobufToBlockBase p (b\<lparr>bb_blockHash := h, bb_timestamp := be_now E, bb_cosigs := CoSignatures_new 1\<rparr>) = (b, True)"
    using block_base_reads [of b] assms by (auto simp: fb_block_ok_def)
  moreover have "FallbackBlock_new E (fb_header b) (CoSignatures_new 1)
    = Some (b\<lparr>bb_blockHash := h, bb_timestamp := be_now E, bb_cosigs := CoSignatures_new 1\<rparr>)"
    by (simp add: FallbackBlock_new_def h)
  ultimately show ?thesis
    by (simp add: FallbackBlockToProtobuf_def ProtobufToFallbackBlock_def hp CheckRequiredFieldsProtoBlock_def)
qed

lemma MicroBlock_reads:
  assumes "mb_block_ok E enc b"
  shows "\<exists>m. MicroBlockToProtobuf E b = Some m \<and> (\<forall>old. ProtobufToMicroBlock E m old = Some (b, True))"
proof -
  obtain hp where hp: "MicroBlockHeaderToProtobuf E (mb_header b) = Some hp"
      "\<And>old. ProtobufToMicroBlockHeader E hp old = Some (mb_header b, True)"
    using MicroBlockHeader_reads [of E enc "mb_header b"] assms by (auto simp: mb_block_ok_def block_env_ok_def)
  obtain h where h: "GetMyHash (be_ossl E) (MicroBlockHeader_Serialize E (mb_header b)) = Some h"
    using GetMyHash_total [OF hp(1), of "MicroBlockHeader_Serialize E (mb_header b)" "wMicroBlockHeader (be_proto E)"]
    by (auto simp: MicroBlockHeader_Serialize_def Messenger_SetMicroBlockHeader_def)
  have body: "map (copy_over h256_zero) (mb_tranHashes b) = mb_tranHashes b"
    using assms by (intro map_idI) (auto simp: mb_block_ok_def list_all_iff block_fields)
  obtain p where p: "BlockBaseToProtobuf b = Some p"
      "ProtobufToBlockBase p (b\<lparr>bb_blockHash := h, bb_timestamp := be_now E, bb_cosigs := CoSignatures_new 1\<rparr>) = (b, True)"
    using block_base_reads [of b] assms by (auto simp: mb_block_ok_def)
  moreover have "MicroBlock_new E (mb_header b) (mb_tranHashes b) (CoSignatures_new 1)
    = Some (b\<lparr>bb_blockHash := h, bb_timestamp := be_now E, bb_cosigs := CoSignatures_new 1\<rparr>)"
    by (simp add: MicroBlock_new_def h)
  ultimately show ?thesis
    by (simp add: MicroBlockToProtobuf_def ProtobufToMicroBlock_def hp body CheckRequiredFieldsProtoBlock_def)
qed

interpretation ds_header_message: block_message "wDSBlockHeader (be_proto E)" "\<lambda>h. DSBlockHeaderToProtobuf E h False"
    "ProtobufToDSBlockHeader E" "ds_header_ok E enc" for E :: "'pt block_env" and enc
  by unfold_locales (auto simp: ds_header_ok_def block_env_ok_def intro!: DSBlockHeader_reads)

interpretation ds_message: block_message "wDSBlock (be_proto E)" "DSBlockToProtobuf E" "ProtobufToDSBlock E" "ds_block_ok E enc"
  for E :: "'pt block_env" and enc
  by unfold_locales (simp_all add: ds_block_ok_def [THEN iffD1, THEN conjunct2, THEN conjunct1] DSBlock_reads)

interpretation tx_message: block_message "wTxBlock (be_proto E)" "TxBlockToProtobuf E" "ProtobufToTxBlock E" "tx_block_ok E enc"
  for E :: "'pt block_env" and enc
  by unfold_locales (simp_all add: tx_block_ok_def [THEN iffD1, THEN conjunct2, THEN conjunct1] TxBlock_reads)

interpretation vc_message: block_message "wVCBlock (be_proto E)" "VCBlockToProtobuf E" "ProtobufToVCBlock E" "vc_block_ok E enc"
  for E :: "'pt block_env" and enc
  by unfold_locales (simp_all add: vc_block_ok_def [THEN iffD1, THEN conjunct2, THEN conjunct1] VCBlock_reads)

interpretation fb_message: block_message "wFallbackBlock (be_proto E)" "FallbackBlockToProtobuf E"
    "\<lambda>result b. map_option (\<lambda>r. (fst r, True)) (ProtobufToFallbackBlock E result b)" "fb_block_ok E enc"
  for E :: "'pt block_env" and enc
proof
  show "\<exists>m. FallbackBlockToProtobuf E x = Some m
      \<and> (\<forall>old. map_option (\<lambda>r. (fst r, True)) (ProtobufToFallbackBlock E m old) = Some (x, True))" if "fb_block_ok E enc x" for x
    using FallbackBlock_reads [OF that] by auto
qed (simp add: fb_block_ok_def)

interpretation mb_message: block_message "wMicroBlock (be_proto E)" "MicroBlockToProtobuf E" "ProtobufToMicroBlock E" "mb_block_ok E enc"
  for E :: "'pt block_env" and enc
  by unfold_locales (simp_all add: mb_block_ok_def [THEN iffD1, THEN conjunct2, THEN conjunct1] MicroBlock_reads)

section \<open>A small instance\<close>

text \<open>An encoding of the directory block message that reads back what it wrote. The other messages of the instance are
  written as a single byte and never parsed.\<close>

definition enc_hbase :: "ProtoBlockHeaderBase \<Rightarrow> bytes" where
  "enc_hbase p = enc_opt enc_word (phb_version p) @ enc_opt enc_bytes (phb_committeehash p) @ enc_opt enc_bytes (phb_prevhash p)"

definition dec_hbase :: "bytes \<Rightarrow> ProtoBlockHeaderBase \<times> bytes" where
  "dec_hbase bs = (case dec_opt dec_word bs of (v, r1) \<Rightarrow> case dec_opt dec_bytes r1 of (c, r2) \<Rightarrow> case dec_opt dec_bytes r2 of (p, r3) \<Rightarrow>
     (\<lparr>phb_version = v, phb_committeehash = c, phb_prevhash = p\<rparr>, r3))"

definition enc_bbase :: "ProtoBlockBase \<Rightarrow> bytes" where
  "enc_bbase p = enc_opt enc_bytes (pbb_blockhash p)
     @ enc_opt (\<lambda>c. enc_opt enc_bytes (pcs_cs1 c) @ enc_list enc_bool (pcs_b1 c) @ enc_opt enc_bytes (pcs_cs2 c) @ enc_list enc_bool (pcs_b2 c))
         (pbb_cosigs p)
     @ enc_opt enc_word (pbb_timestamp p)"

definition dec_cosigs :: "bytes \<Rightarrow> ProtoCoSignatures \<times> bytes" where
  "dec_cosigs bs = (case dec_opt dec_bytes bs of (s1, r1) \<Rightarrow> case dec_list dec_bool r1 of (b1, r2) \<Rightarrow>
     case dec_opt dec_bytes r2 of (s2, r3) \<Rightarrow> case dec_list dec_bool r3 of (b2, r4) \<Rightarrow>
     (\<lparr>pcs_cs1 = s1, pcs_b1 = b1, pcs_cs2 = s2, pcs_b2 = b2\<rparr>, r4))"

definition dec_bbase :: "bytes \<Rightarrow> ProtoBlockBase \<times> bytes" where
  "dec_bbase bs = (case dec_opt dec_bytes bs of (h, r1) \<Rightarrow> case dec_opt dec_cosigs r1 of (c, r2) \<Rightarrow> case dec_opt dec_word r2 of (t, r3) \<Rightarrow>
     (\<lparr>pbb_blockhash = h, pbb_cosigs = c, pbb_timestamp = t\<rparr>, r3))"

definition enc_node :: "ProtoNode \<Rightarrow> bytes" where
  "enc_node n = enc_opt enc_bytes (pn_pubkey n) @ enc_opt enc_bytes (pn_peer n)"

definition dec_node :: "bytes \<Rightarrow> ProtoNode \<times> bytes" where
  "dec_node bs = (case dec_opt dec_bytes bs of (k, r1) \<Rightarrow> case dec_opt dec_bytes r1 of (p, r2) \<Rightarrow> (\<lparr>pn_pubkey = k, pn_peer = p\<rparr>, r2))"

definition enc_ds_header :: "ProtoDSBlockHeader \<Rightarrow> bytes" where
  "enc_ds_header p = enc_opt enc_hbase (pds_blockheaderbase p) @ enc_opt enc_word (pds_dsdifficulty p) @ enc_opt enc_word (pds_difficulty p)
     @ enc_opt enc_bytes (pds_leaderpubkey p) @ enc_opt enc_word (pds_blocknum p) @ enc_opt enc_word (pds_epochnum p)
     @ enc_opt enc_bytes (pds_gasprice p) @ enc_opt enc_bytes (pds_swinfo p) @ enc_list enc_node (pds_dswinners p)
     @ enc_opt (enc_pair (enc_opt enc_bytes) (enc_opt enc_bytes)) (pds_hash p)"

definition dec_ds_header :: "bytes \<Rightarrow> ProtoDSBlockHeader \<times> bytes" where
  "dec_ds_header bs = (case dec_opt dec_hbase bs of (hb, r1) \<Rightarrow> case dec_opt dec_word r1 of (d1, r2) \<Rightarrow> case dec_opt dec_word r2 of (d2, r3) \<Rightarrow>
     case dec_opt dec_bytes r3 of (l, r4) \<Rightarrow> case dec_opt dec_word r4 of (n, r5) \<Rightarrow> case dec_opt dec_word r5 of (e, r6) \<Rightarrow>
     case dec_opt dec_bytes r6 of (g, r7) \<Rightarrow> case dec_opt dec_bytes r7 of (s, r8) \<Rightarrow> case dec_list dec_node r8 of (ws, r9) \<Rightarrow>
     case dec_opt (dec_pair (dec_opt dec_bytes) (dec_opt dec_bytes)) r9 of (h, r10) \<Rightarrow>
     (\<lparr>pds_blockheaderbase = hb, pds_dsdifficulty = d1, pds_difficulty = d2, pds_leaderpubkey = l, pds_blocknum = n, pds_epochnum = e,
       pds_gasprice = g, pds_swinfo = s, pds_dswinners = ws, pds_hash = h\<rparr>, r10))"

definition enc_ds_block :: "ProtoDSBlock \<Rightarrow> bytes" where
  "enc_ds_block p = enc_opt enc_ds_header (pb_header p) @ enc_opt enc_bbase (pb_blockbase p)"

definition dec_ds_block :: "bytes \<Rightarrow> ProtoDSBlock \<times> bytes" where
  "dec_ds_block bs = (case dec_opt dec_ds_header bs of (h, r1) \<Rightarrow> case dec_opt dec_bbase r1 of (b, r2) \<Rightarrow>
     (\<lparr>pb_header = h, pb_body = (), pb_blockbase = b\<rparr>, r2))"

lemmas basic_codecs = prefix_codecD [OF opt_codec [OF word_codec]] prefix_codecD [OF opt_codec [OF bytes_codec]]
  prefix_codecD [OF list_codec [OF bool_codec]]

lemma hbase_codec: "prefix_codec enc_hbase dec_hbase"
  by (simp add: prefix_codec_def enc_hbase_def dec_hbase_def basic_codecs)

lemma bbase_codec: "prefix_codec enc_bbase dec_bbase"
proof -
  have "prefix_codec (\<lambda>c. enc_opt enc_bytes (pcs_cs1 c) @ enc_list enc_bool (pcs_b1 c) @ enc_opt enc_bytes (pcs_cs2 c)
      @ enc_list enc_bool (pcs_b2 c)) dec_cosigs"
    by (simp add: prefix_codec_def dec_cosigs_def basic_codecs)
  from prefix_codecD [OF opt_codec [OF this]] show ?thesis
    by (simp add: prefix_codec_def enc_bbase_def dec_bbase_def basic_codecs)
qed

lemma node_codec: "prefix_codec enc_node dec_node"
  by (simp add: prefix_codec_def enc_node_def dec_node_def basic_codecs)

lemma ds_header_codec: "prefix_codec enc_ds_header dec_ds_header"
  by (simp add: prefix_codec_def enc_ds_header_def dec_ds_header_def basic_codecs prefix_codecD [OF opt_codec [OF hbase_codec]]
      prefix_codecD [OF list_codec [OF node_codec]]
      prefix_codecD [OF opt_codec [OF pair_codec [OF opt_codec [OF bytes_codec] opt_codec [OF bytes_codec]]]])

lemma ds_block_codec: "prefix_codec enc_ds_block dec_ds_block"
  by (simp add: prefix_codec_def enc_ds_block_def dec_ds_block_def prefix_codecD [OF opt_codec [OF ds_header_codec]]
      prefix_codecD [OF opt_codec [OF bbase_codec]])

definition one_byte :: "'m wire" where
  "one_byte = \<lparr>ToArray = (\<lambda>_. [1]), FromArray = (\<lambda>_. None)\<rparr>"

definition toy_block_protobuf :: block_protobuf where
  "toy_block_protobuf = \<lparr>wDSBlockHeader = one_byte,
     wDSBlock = \<lparr>ToArray = enc_ds_block, FromArray = (\<lambda>bs. Some (fst (dec_ds_block bs)))\<rparr>,
     wTxBlockHeader = one_byte, wTxBlock = one_byte, wVCBlockHeader = one_byte, wVCBlock = one_byte,
     wFallbackBlockHeader = one_byte, wFallbackBlock = one_byte, wFallbackWSharding = one_byte,
     wMicroBlockHeader = one_byte, wMicroBlock = one_byte, wMbInfo = one_byte, wShardingStructure = one_byte, wCommittee = one_byte\<rparr>"

definition toy_block_env :: "int block_env" where
  "toy_block_env = \<lparr>be_ossl = toy, be_proto = toy_block_protobuf, be_now = 0, be_memory = replicate 128 0,
     SHARDINGSTRUCTURE_VERSION = 1\<rparr>"

lemma toy_ds_wire: "wire_ok (wDSBlock (be_proto toy_block_env))"
  using prefix_codecD [OF ds_block_codec, of _ "[]"] by (simp add: wire_ok_def toy_block_env_def toy_block_protobuf_def)

lemma toy_block_env_ok: "block_env_ok toy_block_env (\<lambda>p. 0 \<le> p \<and> p < 13)"
  using toy_points_ok by (simp add: block_env_ok_def toy_block_env_def)

text \<open>A directory block with two winners.\<close>

definition toy_ds_block :: "64 word \<Rightarrow> int DSBlock" where
  "toy_ds_block n = \<lparr>bb_blockHash = replicate 32 3, bb_timestamp = 5,
     bb_cosigs = \<lparr>cs_CS1 = \<lparr>m_r = 1, m_s = 2\<rparr>, cs_B1 = [True, False], cs_CS2 = \<lparr>m_r = 3, m_s = 4\<rparr>, cs_B2 = [True, True]\<rparr>,
     ds_header = (DSBlockHeader_default toy)\<lparr>dsh_leaderPubKey := 2, dsh_blockNum := n, dsh_epochNum := 0,
       dsh_PoWDSWinners := [(1, Peer_default), (4, \<lparr>m_ipAddress = 7, m_listenPortHost = 8\<rparr>)]\<rparr>\<rparr>"

lemma toy_ds_block_ok: "ds_block_ok toy_block_env (\<lambda>p. 0 \<le> p \<and> p < 13) (toy_ds_block n)"
proof -
  have "PubKey_less toy 1 4" by (simp add: PubKey_less_def PubKey_comparePreChecks_def toy_def)
  then show ?thesis using toy_ds_wire toy_block_env_ok
    by (simp add: ds_block_ok_def toy_ds_block_def DSBlockHeader_ok_def DSBlockHeader_default_def header_base_ok_def node_ok_def
        block_base_ok_def Peer_fits_def Peer_default_def h256_zero_def Signature_fits_def bn_fits_def toy_block_env_def)
qed

section \<open>Properties\<close>

text \<open>The getters on what the setters appended to a buffer.\<close>

lemma block_messages_read_back:
  "\<lbrakk>ds_block_ok E enc b1; Messenger_SetDSBlock E dst (length dst) b1 = Some (dst', True); length dst < length dst'\<rbrakk>
   \<Longrightarrow> Messenger_GetDSBlock E dst' (length dst) o1 = Some (b1, True)"
  "\<lbrakk>tx_block_ok E enc b2; Messenger_SetTxBlock E dst (length dst) b2 = Some (dst', True); length dst < length dst'\<rbrakk>
   \<Longrightarrow> Messenger_GetTxBlock E dst' (length dst) o2 = Some (b2, True)"
  "\<lbrakk>vc_block_ok E enc b3; Messenger_SetVCBlock E dst (length dst) b3 = Some (dst', True); length dst < length dst'\<rbrakk>
   \<Longrightarrow> Messenger_GetVCBlock E dst' (length dst) o3 = Some (b3, True)"
  "\<lbrakk>fb_block_ok E enc b4; Messenger_SetFallbackBlock E dst (length dst) b4 = Some (dst', True); length dst < length dst'\<rbrakk>
   \<Longrightarrow> Messenger_GetFallbackBlock E dst' (length dst) o4 = Some (b4, True)"
  "\<lbrakk>mb_block_ok E enc b5; Messenger_SetMicroBlock E dst (length dst) b5 = Some (dst', True); length dst < length dst'\<rbrakk>
   \<Longrightarrow> Messenger_GetMicroBlock E dst' (length dst) o5 = Some (b5, True)"
  unfolding Messenger_SetDSBlock_def Messenger_GetDSBlock_def Messenger_SetTxBlock_def Messenger_GetTxBlock_def
    Messenger_SetVCBlock_def Messenger_GetVCBlock_def Messenger_SetFallbackBlock_def Messenger_GetFallbackBlock_def
    Messenger_SetMicroBlock_def Messenger_GetMicroBlock_def
  by (blast intro: ds_message.get_set tx_message.get_set vc_message.get_set fb_message.get_set mb_message.get_set)+

lemma find_append: "find P (xs @ ys) = (case find P xs of None \<Rightarrow> find P ys | Some x \<Rightarrow> Some x)"
  by (induction xs) auto

lemma GetDSBlock_construct: "GetDSBlock D f n S = map_option (map_option f) (GetDSBlock D (\<lambda>s. s) n S)"
  by (cases "LevelDB_Lookup D (m_dsBlockchainDB S) (to_decimal n)") (simp_all add: GetDSBlock_def read_block_def Let_def)

text \<open>C34: directory blocks survive the database. Blocks that were serialised and stored, each with success, are read back by the
  constructor from bytes exactly as they were, co-signatures, time stamp, block hash and the ordered map of winners included: under
  every block number the last block stored there, and under the other numbers what was there before.\<close>

theorem stored_ds_blocks_read_back:
  assumes D: "leveldb_ok D" and ok: "\<forall>b \<in> set bs. ds_block_ok E enc b"
    and bodies: "list_all2 (\<lambda>b body. Messenger_SetDSBlock E [] 0 b = Some (body, True) \<and> body \<noteq> []) bs bodies"
    and put: "put_all (PutDSBlock D) (zip (map (\<lambda>b. unat (dsh_blockNum (ds_header b))) bs) bodies) S = Some S'"
  shows "GetDSBlock D (DSBlock_from_bytes E) n S'
    = (case find (\<lambda>b. unat (dsh_blockNum (ds_header b)) = n) (rev bs) of
         None \<Rightarrow> GetDSBlock D (DSBlock_from_bytes E) n S
       | Some b \<Rightarrow> Some (Some (Some b)))"
proof -
  let ?num = "\<lambda>b. unat (dsh_blockNum (ds_header b))"
  have reads: "DSBlock_from_bytes E body = Some b" if "ds_block_ok E enc b" "Messenger_SetDSBlock E [] 0 b = Some (body, True)" "body \<noteq> []" for b body
    using block_messages_read_back(1) [OF that(1), of "[]" body] that(2,3) by (simp add: DSBlock_from_bytes_def)
  have "\<forall>e \<in> set (zip (map ?num bs) bodies). snd e \<noteq> []"
    using bodies by (auto simp: in_set_zip list_all2_conv_all_nth)
  note stored = ds_blocks_read_back [OF D this put, of n]
  have "map_option (DSBlock_from_bytes E) (map_of (rev (zip (map ?num bs) bodies)) n) = map_option Some (find (\<lambda>b. ?num b = n) (rev bs))"
    using bodies ok
  proof (induction rule: list_all2_induct)
    case (Cons b bs body bodies)
    then have "DSBlock_from_bytes E body = Some b" using reads [of b body] by simp
    then show ?case using Cons by (cases "find (\<lambda>b. ?num b = n) (rev bs)") (auto simp: map_add_def find_append split: option.splits)
  qed simp
  then show ?thesis using stored
    by (auto simp: GetDSBlock_construct [of D "DSBlock_from_bytes E"] split: option.splits)
qed

text \<open>The serialised block of the instance.\<close>

lemma enc_lengths:
  "length (enc_nat n) = n + 1" "length (enc_bytes b) = 2 * length b + 1" "length (enc_word v) = unat v + 1"
  "length (enc_opt f x) = (case x of None \<Rightarrow> 1 | Some y \<Rightarrow> 1 + length (f y))"
  by (simp_all add: enc_nat_def enc_bytes_def enc_word_def enc_opt_def split: option.splits)

lemma toy_field_lengths:
  "0 \<le> k \<Longrightarrow> k < 13 \<Longrightarrow> length (fst (PubKey_Serialize toy [] 0 k)) = 33"
  "Peer_fits p \<Longrightarrow> length (peer_bytes p) = 20"
proof -
  show "length (fst (PubKey_Serialize toy [] 0 k)) = 33" if "0 \<le> k" "k < 13"
    using byte_field.put_length [OF ecpoint_field [OF toy_points_ok], of k 0 "[]"] that by (simp add: PubKey_Serialize_def)
  show "length (peer_bytes p) = 20" if "Peer_fits p"
    using Peer_roundtrip [OF that, of 0 "[]" Peer_default] by (auto simp: peer_bytes_def)
qed

lemma toy_ds_block_written:
  assumes "unat n < 100"
  shows "\<exists>m. Messenger_SetDSBlock toy_block_env [] 0 (toy_ds_block n) = Some (enc_ds_block m, True) \<and> enc_ds_block m \<noteq> []"
proof -
  let ?p = "\<lparr>m_ipAddress = 7, m_listenPortHost = 8\<rparr>"
  have peers: "Peer_fits Peer_default" "Peer_fits ?p" by (simp_all add: Peer_fits_def Peer_default_def)
  have "length (number_field_put UINT128_SIZE [] 0 v) = 16" for v by (simp add: number_field_put_def UINT128_SIZE_def)
  moreover have "length (fst (Signature_Serialize [] 0 \<lparr>m_r = 1, m_s = 2\<rparr>)) = 64" "length (fst (Signature_Serialize [] 0 \<lparr>m_r = 3, m_s = 4\<rparr>)) = 64"
    using Signature_roundtrip_aux(2) [of _ 0 "[]"] by (simp_all add: Signature_fits_def bn_fits_def)
  ultimately have "\<exists>m. DSBlockToProtobuf toy_block_env (toy_ds_block n) = Some m \<and> length (enc_ds_block m) < 2 ^ 31"
    using assms
    by (simp add: DSBlockToProtobuf_def DSBlockHeaderToProtobuf_def BlockBaseToProtobuf_def BlockHeaderBaseToProtobuf_def block_fields
        toy_block_env_def toy_ds_block_def DSBlockHeader_default_def enc_ds_block_def enc_ds_header_def enc_bbase_def enc_hbase_def
        enc_node_def enc_list_def enc_pair_def enc_bool_def enc_lengths toy_field_lengths Peer_in_out(1) peers h256_zero_def
        SWInfo_bytes_length SWInfo_SIZE_def Let_def)
  then obtain m where m: "DSBlockToProtobuf toy_block_env (toy_ds_block n) = Some m" "length (enc_ds_block m) < 2 ^ 31" by blast
  moreover have "enc_ds_block m \<noteq> []" by (simp add: enc_ds_block_def enc_opt_def split: option.splits)
  ultimately show ?thesis using SerializeToArray_succeeds [of "[]" "enc_ds_block m"]
    by (auto simp: Messenger_SetDSBlock_def set_message_def toy_block_env_def toy_block_protobuf_def)
qed

theorem stored_ds_blocks_read_back_witness:
  "\<exists>bodies S'. put_all (PutDSBlock map_db) (zip [7, 8] bodies) fresh_storage = Some S'
    \<and> GetDSBlock map_db (DSBlock_from_bytes toy_block_env) 7 S' = Some (Some (Some (toy_ds_block 7)))
    \<and> GetDSBlock map_db (DSBlock_from_bytes toy_block_env) 8 S' = Some (Some (Some (toy_ds_block 8)))"
proof -
  obtain m1 m2 where m: "Messenger_SetDSBlock toy_block_env [] 0 (toy_ds_block 7) = Some (enc_ds_block m1, True)" "enc_ds_block m1 \<noteq> []"
      "Messenger_SetDSBlock toy_block_env [] 0 (toy_ds_block 8) = Some (enc_ds_block m2, True)" "enc_ds_block m2 \<noteq> []"
    using toy_ds_block_written [of 7] toy_ds_block_written [of 8] by auto
  have fresh: "m_db (m_dsBlockchainDB fresh_storage) \<noteq> None" "m_db (m_metadataDB fresh_storage) \<noteq> None"
    by (simp_all add: fresh_storage_def fresh_db_def)
  obtain S1 where S1: "PutDSBlock map_db 7 (enc_ds_block m1) fresh_storage = Some (True, S1)"
      "m_db (m_dsBlockchainDB S1) \<noteq> None" "m_db (m_metadataDB S1) \<noteq> None"
    using map_db_PutDSBlock [OF fresh] by blast
  obtain S2 where S2: "PutDSBlock map_db 8 (enc_ds_block m2) S1 = Some (True, S2)" using map_db_PutDSBlock [OF S1(2,3)] by blast
  have num: "dsh_blockNum (ds_header (toy_ds_block n)) = n" for n by (simp add: toy_ds_block_def)
  let ?bs = "[toy_ds_block 7, toy_ds_block 8]" and ?bodies = "[enc_ds_block m1, enc_ds_block m2]"
  have put: "put_all (PutDSBlock map_db) (zip (map (\<lambda>b. unat (dsh_blockNum (ds_header b))) ?bs) ?bodies) fresh_storage = Some S2"
    using S1(1) S2 by (simp add: num)
  have "GetDSBlock map_db (DSBlock_from_bytes toy_block_env) k S2
    = (case find (\<lambda>b. unat (dsh_blockNum (ds_header b)) = k) (rev ?bs) of
         None \<Rightarrow> GetDSBlock map_db (DSBlock_from_bytes toy_block_env) k fresh_storage | Some b \<Rightarrow> Some (Some (Some b)))" for k
    by (rule stored_ds_blocks_read_back [OF map_db_ok _ _ put]) (use toy_ds_block_ok m in auto)
  from this [of 7] this [of 8] put show ?thesis by (intro exI [of _ ?bodies] exI [of _ S2]) (simp add: num)
qed

end
