(* ===== verification/Transactions.thy ===== *)
theory Transactions
  imports BlockCodec
begin

text \<open>
  Transactions (\<open>libData/AccountData/Transaction.cpp\<close>) and their messages in \<open>libMessage/Messenger.cpp\<close>. A transaction is
  its core information, the signature of the sender over the serialised core information, and the digest of the same
  octets as its identifier. Reading a transaction checks both.

  The protobuf runtime is a parameter, as for the blocks; a constructor that ignores the result of a step goes on here
  as well. \<open>None\<close> is an exception or a signing loop that has used up its draws.
\<close>

section \<open>Transactions\<close>

record 'pt Transaction =
  m_tranID :: bytes
  m_coreInfo :: "'pt TransactionCoreInfo"
  m_signature :: Signature

definition GetTranID :: "'pt Transaction \<Rightarrow> bytes" where
  "GetTranID t = m_tranID t"

definition GetSenderPubKey :: "'pt Transaction \<Rightarrow> 'pt PubKey" where
  "GetSenderPubKey t = tx_senderPubKey (m_coreInfo t)"

definition Transaction_GetNonce :: "'pt Transaction \<Rightarrow> 64 word" where
  "Transaction_GetNonce t = tx_nonce (m_coreInfo t)"

definition GetGasPrice :: "'pt Transaction \<Rightarrow> 128 word" where
  "GetGasPrice t = tx_gasPrice (m_coreInfo t)"

definition GetGasLimit :: "'pt Transaction \<Rightarrow> 64 word" where
  "GetGasLimit t = tx_gasLimit (m_coreInfo t)"

text \<open>Two transactions are compared by identifier and signature only.\<close>

definition Transaction_eq :: "'pt Transaction \<Rightarrow> 'pt Transaction \<Rightarrow> bool" where
  "Transaction_eq t tran \<longleftrightarrow> m_tranID t = m_tranID tran \<and> m_signature t = m_signature tran"

section \<open>Messages\<close>

record ProtoTransactionCoreInfo =
  ptc_version :: "32 word option"
  ptc_nonce :: "64 word option"
  ptc_toaddr :: "bytes option"
  ptc_senderpubkey :: "bytes option"
  ptc_amount :: "bytes option"
  ptc_gasprice :: "bytes option"
  ptc_gaslimit :: "64 word option"
  ptc_code :: "bytes option"
  ptc_data :: "bytes option"

record ProtoTransaction =
  pt_tranid :: "bytes option"
  pt_info :: "ProtoTransactionCoreInfo option"
  pt_signature :: "bytes option"

record tx_protobuf =
  wTransactionCoreInfo :: "ProtoTransactionCoreInfo wire"
  wTransaction :: "ProtoTransaction wire"
  wTransactionArray :: "ProtoTransaction list wire"
  wTxnFileOffset :: "32 word list wire"

definition CheckRequiredFieldsProtoTransactionCoreInfo :: "ProtoTransactionCoreInfo \<Rightarrow> bool" where
  "CheckRequiredFieldsProtoTransactionCoreInfo p \<longleftrightarrow>
     ptc_version p \<noteq> None \<and> ptc_nonce p \<noteq> None \<and> ptc_toaddr p \<noteq> None \<and> ptc_senderpubkey p \<noteq> None
     \<and> ptc_amount p \<noteq> None \<and> ptc_gasprice p \<noteq> None \<and> ptc_gaslimit p \<noteq> None"

definition CheckRequiredFieldsProtoTransaction :: "ProtoTransaction \<Rightarrow> bool" where
  "CheckRequiredFieldsProtoTransaction p \<longleftrightarrow> pt_tranid p \<noteq> None \<and> pt_info p \<noteq> None \<and> pt_signature p \<noteq> None"

text \<open>Code and data are set only when they are not empty.\<close>

definition unless_empty :: "bytes \<Rightarrow> bytes option" where
  "unless_empty b = (if b = [] then None else Some b)"

definition TransactionCoreInfoToProtobuf :: "'pt openssl \<Rightarrow> 'pt TransactionCoreInfo \<Rightarrow> ProtoTransactionCoreInfo option" where
  "TransactionCoreInfoToProtobuf B txnCoreInfo = do {
     senderpubkey \<leftarrow> PubKey_out B (tx_senderPubKey txnCoreInfo);
     amt \<leftarrow> NumberToProtobufByteArray (tx_amount txnCoreInfo);
     gasprice \<leftarrow> NumberToProtobufByteArray (tx_gasPrice txnCoreInfo);
     Some \<lparr>ptc_version = Some (tx_version txnCoreInfo), ptc_nonce = Some (tx_nonce txnCoreInfo),
           ptc_toaddr = Some (addr_bytes (tx_toAddr txnCoreInfo)), ptc_senderpubkey = Some senderpubkey,
           ptc_amount = Some amt, ptc_gasprice = Some gasprice, ptc_gaslimit = Some (tx_gasLimit txnCoreInfo),
           ptc_code = unless_empty (tx_code txnCoreInfo), ptc_data = unless_empty (tx_data txnCoreInfo)\<rparr> }"

text \<open>The reader assigns the members in this order and stops at a key that cannot be read.\<close>

definition read_optional :: "bytes option \<Rightarrow> bytes \<Rightarrow> bytes" where
  "read_optional field old = (case field of Some b \<Rightarrow> (if length b > 0 then b else old) | None \<Rightarrow> old)"

definition ProtobufToTransactionCoreInfo ::
    "'pt openssl \<Rightarrow> ProtoTransactionCoreInfo \<Rightarrow> 'pt TransactionCoreInfo \<Rightarrow> ('pt TransactionCoreInfo \<times> bool) option" where
  "ProtobufToTransactionCoreInfo B p txnCoreInfo =
     (if \<not> CheckRequiredFieldsProtoTransactionCoreInfo p then Some (txnCoreInfo, False)
      else let c1 = txnCoreInfo\<lparr>tx_version := the (ptc_version p), tx_nonce := the (ptc_nonce p),
             tx_toAddr := addr_of_bytes (copy_over (addr_bytes (tx_toAddr txnCoreInfo)) (the (ptc_toaddr p)))\<rparr>
           in case PubKey_in B (the (ptc_senderpubkey p)) of
                None \<Rightarrow> Some (c1, False)
              | Some senderPubKey \<Rightarrow> do {
                  amt \<leftarrow> ProtobufByteArrayToNumber (the (ptc_amount p));
                  gasPrice \<leftarrow> ProtobufByteArrayToNumber (the (ptc_gasprice p));
                  Some (c1\<lparr>tx_senderPubKey := senderPubKey, tx_amount := amt, tx_gasPrice := gasPrice,
                           tx_gasLimit := the (ptc_gaslimit p), tx_code := read_optional (ptc_code p) (tx_code c1),
                           tx_data := read_optional (ptc_data p) (tx_data c1)\<rparr>, True) })"

definition TransactionToProtobuf :: "'pt openssl \<Rightarrow> 'pt Transaction \<Rightarrow> ProtoTransaction option" where
  "TransactionToProtobuf B transaction = do {
     info \<leftarrow> TransactionCoreInfoToProtobuf B (m_coreInfo transaction);
     sig \<leftarrow> Signature_out (m_signature transaction);
     Some \<lparr>pt_tranid = Some (m_tranID transaction), pt_info = Some info, pt_signature = Some sig\<rparr> }"

text \<open>The members without a default initialiser start as zero here; each is assigned before it is read.\<close>

definition TransactionCoreInfo_default :: "'pt openssl \<Rightarrow> 'pt TransactionCoreInfo" where
  "TransactionCoreInfo_default B = \<lparr>tx_version = 0, tx_nonce = 0, tx_toAddr = 0, tx_senderPubKey = PubKey_default B, tx_amount = 0,
     tx_gasPrice = 0, tx_gasLimit = 0, tx_code = [], tx_data = []\<rparr>"

definition ProtobufToTransaction ::
    "'pt openssl \<Rightarrow> tx_protobuf \<Rightarrow> ProtoTransaction \<Rightarrow> 'pt Transaction \<Rightarrow> ('pt Transaction \<times> bool) option" where
  "ProtobufToTransaction B P p transaction =
     (if \<not> CheckRequiredFieldsProtoTransaction p then Some (transaction, False)
      else do {
        let tranID = copy_over h256_zero (the (pt_tranid p));
        (txnCoreInfo, ok) \<leftarrow> ProtobufToTransactionCoreInfo B (the (pt_info p)) (TransactionCoreInfo_default B);
        if \<not> ok then Some (transaction, False)
        else case Signature_in (the (pt_signature p)) of
               None \<Rightarrow> Some (transaction, False)
             | Some signature \<Rightarrow> do {
                 (txnData, written) \<leftarrow> SerializeToArray (ToArray (wTransactionCoreInfo P) (the (pt_info p))) [] 0;
                 if \<not> written then Some (transaction, False)
                 else if SHA2_Finalize B (SHA2_Update SHA2_Reset txnData) \<noteq> tranID then Some (transaction, False)
                 else do {
                   verified \<leftarrow> Schnorr_Verify B txnData signature (tx_senderPubKey txnCoreInfo);
                   Some (if \<not> verified then (transaction, False)
                         else (\<lparr>m_tranID = tranID, m_coreInfo = txnCoreInfo, m_signature = signature\<rparr>, True)) } } })"

section \<open>Setters and getters\<close>

definition Messenger_SetTransactionCoreInfo ::
    "'pt openssl \<Rightarrow> tx_protobuf \<Rightarrow> bytes \<Rightarrow> nat \<Rightarrow> 'pt TransactionCoreInfo \<Rightarrow> (bytes \<times> bool) option" where
  "Messenger_SetTransactionCoreInfo B P dst offset c =
     set_message (wTransactionCoreInfo P) (TransactionCoreInfoToProtobuf B c) dst offset"

definition Messenger_GetTransactionCoreInfo ::
    "'pt openssl \<Rightarrow> tx_protobuf \<Rightarrow> bytes \<Rightarrow> nat \<Rightarrow> 'pt TransactionCoreInfo \<Rightarrow> ('pt TransactionCoreInfo \<times> bool) option" where
  "Messenger_GetTransactionCoreInfo B P = get_message (wTransactionCoreInfo P) (ProtobufToTransactionCoreInfo B)"

definition Messenger_SetTransaction ::
    "'pt openssl \<Rightarrow> tx_protobuf \<Rightarrow> bytes \<Rightarrow> nat \<Rightarrow> 'pt Transaction \<Rightarrow> (bytes \<times> bool) option" where
  "Messenger_SetTransaction B P dst offset t = set_message (wTransaction P) (TransactionToProtobuf B t) dst offset"

definition Messenger_GetTransaction ::
    "'pt openssl \<Rightarrow> tx_protobuf \<Rightarrow> bytes \<Rightarrow> nat \<Rightarrow> 'pt Transaction \<Rightarrow> ('pt Transaction \<times> bool) option" where
  "Messenger_GetTransaction B P = get_message (wTransaction P) (ProtobufToTransaction B P)"

text \<open>Transactions read before a bad one stay in the vector.\<close>

fun TransactionArrayToProtobuf :: "'pt openssl \<Rightarrow> 'pt Transaction list \<Rightarrow> ProtoTransaction list option" where
  "TransactionArrayToProtobuf B [] = Some []"
| "TransactionArrayToProtobuf B (t # ts) = do {
     p \<leftarrow> TransactionToProtobuf B t;
     ps \<leftarrow> TransactionArrayToProtobuf B ts;
     Some (p # ps) }"

definition Transaction_default :: "'pt openssl \<Rightarrow> 'pt Transaction" where
  "Transaction_default B = \<lparr>m_tranID = h256_zero, m_coreInfo = TransactionCoreInfo_default B, m_signature = Signature_default\<rparr>"

fun ProtobufToTransactionArray ::
    "'pt openssl \<Rightarrow> tx_protobuf \<Rightarrow> ProtoTransaction list \<Rightarrow> 'pt Transaction list \<Rightarrow> ('pt Transaction list \<times> bool) option" where
  "ProtobufToTransactionArray B P [] txns = Some (txns, True)"
| "ProtobufToTransactionArray B P (p # ps) txns = do {
     (txn, ok) \<leftarrow> ProtobufToTransaction B P p (Transaction_default B);
     if \<not> ok then Some (txns, False) else ProtobufToTransactionArray B P ps (txns @ [txn]) }"

definition Messenger_SetTransactionArray ::
    "'pt openssl \<Rightarrow> tx_protobuf \<Rightarrow> bytes \<Rightarrow> nat \<Rightarrow> 'pt Transaction list \<Rightarrow> (bytes \<times> bool) option" where
  "Messenger_SetTransactionArray B P dst offset txns =
     set_message (wTransactionArray P) (TransactionArrayToProtobuf B txns) dst offset"

definition Messenger_GetTransactionArray ::
    "'pt openssl \<Rightarrow> tx_protobuf \<Rightarrow> bytes \<Rightarrow> nat \<Rightarrow> 'pt Transaction list \<Rightarrow> ('pt Transaction list \<times> bool) option" where
  "Messenger_GetTransactionArray B P = get_message (wTransactionArray P) (ProtobufToTransactionArray B P)"

definition Messenger_SetTransactionFileOffset :: "tx_protobuf \<Rightarrow> bytes \<Rightarrow> nat \<Rightarrow> 32 word list \<Rightarrow> (bytes \<times> bool) option" where
  "Messenger_SetTransactionFileOffset P dst offset txnOffsets = set_message (wTxnFileOffset P) (Some txnOffsets) dst offset"

definition Messenger_GetTransactionFileOffset ::
    "tx_protobuf \<Rightarrow> bytes \<Rightarrow> nat \<Rightarrow> 32 word list \<Rightarrow> (32 word list \<times> bool) option" where
  "Messenger_GetTransactionFileOffset P = get_message (wTxnFileOffset P) (\<lambda>result old. Some (result, True))"

section \<open>Constructors\<close>

definition SerializeCoreFields ::
    "'pt openssl \<Rightarrow> tx_protobuf \<Rightarrow> 'pt TransactionCoreInfo \<Rightarrow> bytes \<Rightarrow> nat \<Rightarrow> (bytes \<times> bool) option" where
  "SerializeCoreFields B P c dst offset = Messenger_SetTransactionCoreInfo B P dst offset c"

text \<open>A signature that could not be made leaves the default one.\<close>

definition Transaction_create ::
    "'pt openssl \<Rightarrow> tx_protobuf \<Rightarrow> int option list \<Rightarrow> PrivKey \<Rightarrow> 'pt TransactionCoreInfo \<Rightarrow> 'pt Transaction option" where
  "Transaction_create B P draws privKey c = do {
     (txnData, _) \<leftarrow> SerializeCoreFields B P c [] 0;
     let hash = SHA2_Finalize B (SHA2_Update SHA2_Reset txnData);
     if length hash \<noteq> 32 then Some \<lparr>m_tranID = h256_zero, m_coreInfo = c, m_signature = Signature_default\<rparr>
     else case Schnorr_Sign B txnData privKey (tx_senderPubKey c) draws of
            SignTrue sig \<Rightarrow> Some \<lparr>m_tranID = hash, m_coreInfo = c, m_signature = sig\<rparr>
          | SignFalse \<Rightarrow> Some \<lparr>m_tranID = hash, m_coreInfo = c, m_signature = Signature_default\<rparr>
          | _ \<Rightarrow> None }"

text \<open>The constructor for a given signature logs a signature that does not verify and keeps it.\<close>

definition Transaction_with_signature ::
    "'pt openssl \<Rightarrow> tx_protobuf \<Rightarrow> 'pt TransactionCoreInfo \<Rightarrow> Signature \<Rightarrow> 'pt Transaction option" where
  "Transaction_with_signature B P c signature = do {
     (txnData, _) \<leftarrow> SerializeCoreFields B P c [] 0;
     let hash = SHA2_Finalize B (SHA2_Update SHA2_Reset txnData);
     if length hash \<noteq> 32 then Some \<lparr>m_tranID = h256_zero, m_coreInfo = c, m_signature = signature\<rparr>
     else do {
       _ \<leftarrow> Schnorr_Verify B txnData signature (tx_senderPubKey c);
       Some \<lparr>m_tranID = hash, m_coreInfo = c, m_signature = signature\<rparr> } }"

definition VerifyTransaction :: "'pt openssl \<Rightarrow> tx_protobuf \<Rightarrow> 'pt Transaction \<Rightarrow> bool option" where
  "VerifyTransaction B P tran = do {
     (txnData, _) \<leftarrow> SerializeCoreFields B P (m_coreInfo tran) [] 0;
     Schnorr_Verify B txnData (m_signature tran) (GetSenderPubKey tran) }"

section \<open>Honest transactions\<close>

lemma addr_copy: "addr_of_bytes (copy_over (addr_bytes x) (addr_bytes a)) = a"
proof -
  have "unat a < 256 ^ 20" using unat_bound [of a] by simp
  then show ?thesis by (simp add: copy_over_def addr_bytes_def addr_of_bytes_def ACC_ADDR_SIZE_def be_val_be_bytes)
qed

lemma read_unless_empty: "read_optional (unless_empty b) [] = b"
  by (simp add: read_optional_def unless_empty_def)

lemma TransactionCoreInfo_reads:
  assumes "openssl_points_ok B enc" "enc (tx_senderPubKey c)"
  shows "\<exists>p. TransactionCoreInfoToProtobuf B c = Some p
    \<and> (\<forall>old. tx_code old = [] \<and> tx_data old = [] \<longrightarrow> ProtobufToTransactionCoreInfo B p old = Some (c, True))"
  by (simp add: TransactionCoreInfoToProtobuf_def ProtobufToTransactionCoreInfo_def CheckRequiredFieldsProtoTransactionCoreInfo_def
      block_fields PubKey_in_out [OF assms] addr_copy read_unless_empty Let_def)

lemma TransactionCoreInfoToProtobuf_total: "\<exists>p. TransactionCoreInfoToProtobuf B c = Some p"
  by (simp add: TransactionCoreInfoToProtobuf_def block_fields)

text \<open>A transaction whose identifier and signature are those of its core information.\<close>

definition tx_authentic :: "'pt openssl \<Rightarrow> tx_protobuf \<Rightarrow> 'pt Transaction \<Rightarrow> bool" where
  "tx_authentic B P t \<longleftrightarrow> Signature_fits (m_signature t) \<and> length (m_tranID t) = 32
     \<and> (\<exists>p. TransactionCoreInfoToProtobuf B (m_coreInfo t) = Some p \<and> length (ToArray (wTransactionCoreInfo P) p) < 2 ^ 31
          \<and> SHA2_Finalize B (SHA2_Update SHA2_Reset (ToArray (wTransactionCoreInfo P) p)) = m_tranID t
          \<and> Schnorr_Verify B (ToArray (wTransactionCoreInfo P) p) (m_signature t) (tx_senderPubKey (m_coreInfo t)) = Some True)"

lemma SerializeToArray_empty: "length raw < 2 ^ 31 \<Longrightarrow> SerializeToArray raw [] 0 = Some (raw, True)"
  using SerializeToArray_succeeds [of "[]" raw] by simp

lemma Transaction_reads:
  assumes "openssl_points_ok B enc" "enc (tx_senderPubKey (m_coreInfo t))" "tx_authentic B P t"
  shows "\<exists>p. TransactionToProtobuf B t = Some p \<and> (\<forall>old. ProtobufToTransaction B P p old = Some (t, True))"
proof -
  obtain p where p: "TransactionCoreInfoToProtobuf B (m_coreInfo t) = Some p" "length (ToArray (wTransactionCoreInfo P) p) < 2 ^ 31"
      "SHA2_Finalize B (SHA2_Update SHA2_Reset (ToArray (wTransactionCoreInfo P) p)) = m_tranID t"
      "Schnorr_Verify B (ToArray (wTransactionCoreInfo P) p) (m_signature t) (tx_senderPubKey (m_coreInfo t)) = Some True"
    and fits: "Signature_fits (m_signature t)" "length (m_tranID t) = 32"
    using assms(3) by (auto simp: tx_authentic_def)
  have "ProtobufToTransactionCoreInfo B p (TransactionCoreInfo_default B) = Some (m_coreInfo t, True)"
    using TransactionCoreInfo_reads [OF assms(1,2)] p(1) by (auto simp: TransactionCoreInfo_default_def)
  then show ?thesis using p
    by (simp add: TransactionToProtobuf_def ProtobufToTransaction_def CheckRequiredFieldsProtoTransaction_def block_fields fits
        Signature_in_out SerializeToArray_empty)
qed

interpretation transaction_message: block_message "wTransaction P" "TransactionToProtobuf B" "ProtobufToTransaction B P"
    "\<lambda>t. wire_ok (wTransaction P) \<and> openssl_points_ok B enc \<and> enc (tx_senderPubKey (m_coreInfo t)) \<and> tx_authentic B P t"
  for P B enc
  by unfold_locales (blast intro: Transaction_reads)+

lemma TransactionArray_reads:
  assumes "openssl_points_ok B enc" "list_all (\<lambda>t. enc (tx_senderPubKey (m_coreInfo t)) \<and> tx_authentic B P t) ts"
  shows "\<exists>ps. TransactionArrayToProtobuf B ts = Some ps \<and> (\<forall>old. ProtobufToTransactionArray B P ps old = Some (old @ ts, True))"
  using assms(2)
proof (induction ts)
  case (Cons t ts)
  then obtain p ps where "TransactionToProtobuf B t = Some p" "\<And>old. ProtobufToTransaction B P p old = Some (t, True)"
    "TransactionArrayToProtobuf B ts = Some ps" "\<And>old. ProtobufToTransactionArray B P ps old = Some (old @ ts, True)"
    using Transaction_reads [OF assms(1), of t P] by auto
  then show ?case by simp
qed simp

lemma Sign_verifies:
  assumes "openssl_ok B g" "0 < d" "d < ec_order B" "length m < 2 ^ 31"
    and "\<forall>k. Some k \<in> set draws \<longrightarrow> 0 \<le> k \<and> k < ec_order B" "Schnorr_Sign B m d (PubKey_from_PrivKey B d) draws = SignTrue sig"
  shows "Schnorr_Verify B m sig (PubKey_from_PrivKey B d) = Some True" "sig \<noteq> Signature_default"
proof -
  have pub: "PubKey_from_PrivKey B d = g d" using assms(2,3) by (simp add: PubKey_from_PrivKey_def openssl_mul_base [OF assms(1)])
  have "m \<noteq> []" "Schnorr_Sign_loop B m 0 (length m) d (g d) draws = SignTrue sig"
    using assms(4,6) by (auto simp: Schnorr_Sign_def Schnorr_Sign_range_def pub split: if_splits)
  then show v: "Schnorr_Verify B m sig (PubKey_from_PrivKey B d) = Some True"
    using Schnorr_Sign_loop_verifies [OF assms(1) _ _ _ _ assms(5)] assms(2-4) by (simp add: Schnorr_Verify_def pub)
  have "Schnorr_Verify B m Signature_default k \<noteq> Some True" for k
    by (simp add: Schnorr_Verify_def Schnorr_Verify_range_def Signature_default_def)
  then show "sig \<noteq> Signature_default" using v by blast
qed

lemma created_authentic:
  assumes B: "openssl_ok B g" and hash: "\<And>m. length (SHA256 B m) = 32"
    and key: "0 < d" "d < ec_order B" "tx_senderPubKey c = PubKey_from_PrivKey B d"
    and draws: "\<forall>k. Some k \<in> set draws \<longrightarrow> 0 \<le> k \<and> k < ec_order B"
    and create: "Transaction_create B P draws d c = Some t" "m_signature t \<noteq> Signature_default"
  shows "m_coreInfo t = c" "tx_authentic B P t" "VerifyTransaction B P t = Some True"
proof -
  obtain p where p: "TransactionCoreInfoToProtobuf B c = Some p" using TransactionCoreInfoToProtobuf_total by blast
  let ?raw = "ToArray (wTransactionCoreInfo P) p"
  note defs = SerializeCoreFields_def Messenger_SetTransactionCoreInfo_def set_message_def p
  have raw: "length ?raw < 2 ^ 31"
  proof (rule ccontr)
    assume "\<not> length ?raw < 2 ^ 31"
    then show False using create hash
      by (auto simp: Transaction_create_def defs SerializeToArray_def Schnorr_Sign_def Schnorr_Sign_range_def SHA2_Finalize_def split: if_splits)
  qed
  then have ser: "SerializeCoreFields B P c [] 0 = Some (?raw, True)" by (simp add: defs SerializeToArray_empty)
  obtain sig where sig: "Schnorr_Sign B ?raw d (PubKey_from_PrivKey B d) draws = SignTrue sig"
    and t: "t = \<lparr>m_tranID = SHA2_Finalize B (SHA2_Update SHA2_Reset ?raw), m_coreInfo = c, m_signature = sig\<rparr>"
    using create by (auto simp: Transaction_create_def ser key(3) Let_def split: if_splits sign_result.splits)
  note ver = Sign_verifies(1) [OF B key(1,2) raw draws sig]
  show "m_coreInfo t = c" by (simp add: t)
  show "tx_authentic B P t" using raw ver Schnorr_Sign_fits [OF B sig] key(3) hash by (simp add: tx_authentic_def t p SHA2_Finalize_def)
  show "VerifyTransaction B P t = Some True" using ver by (simp add: VerifyTransaction_def t ser GetSenderPubKey_def key(3))
qed

text \<open>C10: a transaction arrives as it was created. Whatever payment, deployment or call its sender puts together and signs,
  the message made of it is read back by every node as exactly that transaction: the identifier matches, the signature
  verifies over the octets the reader serialises again, and the validator accepts the signature too.\<close>

theorem created_transaction_arrives:
  assumes "openssl_ok B g" "openssl_points_ok B enc" "\<And>m. length (SHA256 B m) = 32" "wire_ok (wTransaction P)"
    and "0 < d" "d < ec_order B" "tx_senderPubKey c = PubKey_from_PrivKey B d" "enc (tx_senderPubKey c)"
    and "\<forall>k. Some k \<in> set draws \<longrightarrow> 0 \<le> k \<and> k < ec_order B"
    and "Transaction_create B P draws d c = Some t" "m_signature t \<noteq> Signature_default"
    and "Messenger_SetTransaction B P dst (length dst) t = Some (dst', True)" "length dst < length dst'"
  shows "Messenger_GetTransaction B P dst' (length dst) old = Some (t, True) \<and> m_coreInfo t = c \<and> VerifyTransaction B P t = Some True"
proof -
  note t = created_authentic [OF assms(1,3,5-7,9-11)]
  have "get_message (wTransaction P) (ProtobufToTransaction B P) dst' (length dst) old = Some (t, True)"
    by (rule transaction_message.get_set) (use assms t in \<open>auto simp: Messenger_SetTransaction_def\<close>)
  then show ?thesis using t by (simp add: Messenger_GetTransaction_def)
qed

section \<open>A small instance\<close>

definition toy32 :: "int openssl" where
  "toy32 = toy\<lparr>SHA256 := (\<lambda>bs. replicate 31 0 @ toy_digest bs)\<rparr>"

lemma toy32_ok: "openssl_ok toy32 (\<lambda>k. k mod 13)" "openssl_points_ok toy32 (\<lambda>p. 0 \<le> p \<and> p < 13)"
    "length (SHA256 toy32 m) = 32" "ec_order toy32 = 13"
  using toy_ok toy_points_ok by (simp_all add: openssl_ok_def openssl_points_ok_def toy32_def toy_def toy_digest_def)

definition enc_core :: "ProtoTransactionCoreInfo \<Rightarrow> bytes" where
  "enc_core p = enc_opt enc_word (ptc_version p) @ enc_opt enc_word (ptc_nonce p) @ enc_opt enc_bytes (ptc_toaddr p)
     @ enc_opt enc_bytes (ptc_senderpubkey p) @ enc_opt enc_bytes (ptc_amount p) @ enc_opt enc_bytes (ptc_gasprice p)
     @ enc_opt enc_word (ptc_gaslimit p) @ enc_opt enc_bytes (ptc_code p) @ enc_opt enc_bytes (ptc_data p)"

definition dec_core :: "bytes \<Rightarrow> ProtoTransactionCoreInfo \<times> bytes" where
  "dec_core bs = (case dec_opt dec_word bs of (v, r1) \<Rightarrow> case dec_opt dec_word r1 of (n, r2) \<Rightarrow> case dec_opt dec_bytes r2 of (a, r3) \<Rightarrow>
     case dec_opt dec_bytes r3 of (k, r4) \<Rightarrow> case dec_opt dec_bytes r4 of (m, r5) \<Rightarrow> case dec_opt dec_bytes r5 of (g, r6) \<Rightarrow>
     case dec_opt dec_word r6 of (l, r7) \<Rightarrow> case dec_opt dec_bytes r7 of (c, r8) \<Rightarrow> case dec_opt dec_bytes r8 of (d, r9) \<Rightarrow>
     (\<lparr>ptc_version = v, ptc_nonce = n, ptc_toaddr = a, ptc_senderpubkey = k, ptc_amount = m, ptc_gasprice = g, ptc_gaslimit = l,
       ptc_code = c, ptc_data = d\<rparr>, r9))"

definition enc_txn :: "ProtoTransaction \<Rightarrow> bytes" where
  "enc_txn p = enc_opt enc_bytes (pt_tranid p) @ enc_opt enc_core (pt_info p) @ enc_opt enc_bytes (pt_signature p)"

definition dec_txn :: "bytes \<Rightarrow> ProtoTransaction \<times> bytes" where
  "dec_txn bs = (case dec_opt dec_bytes bs of (i, r1) \<Rightarrow> case dec_opt dec_core r1 of (c, r2) \<Rightarrow> case dec_opt dec_bytes r2 of (s, r3) \<Rightarrow>
     (\<lparr>pt_tranid = i, pt_info = c, pt_signature = s\<rparr>, r3))"

lemma core_codec: "prefix_codec enc_core dec_core"
  by (simp add: prefix_codec_def enc_core_def dec_core_def basic_codecs)

lemma txn_codec: "prefix_codec enc_txn dec_txn"
  by (simp add: prefix_codec_def enc_txn_def dec_txn_def basic_codecs prefix_codecD [OF opt_codec [OF core_codec]])

definition toy_tx_protobuf :: tx_protobuf where
  "toy_tx_protobuf = \<lparr>wTransactionCoreInfo = \<lparr>ToArray = enc_core, FromArray = (\<lambda>bs. Some (fst (dec_core bs)))\<rparr>,
     wTransaction = \<lparr>ToArray = enc_txn, FromArray = (\<lambda>bs. Some (fst (dec_txn bs)))\<rparr>,
     wTransactionArray = one_byte, wTxnFileOffset = one_byte\<rparr>"

lemma toy_tx_wire: "wire_ok (wTransaction toy_tx_protobuf)"
  using prefix_codecD [OF txn_codec, of _ "[]"] by (simp add: wire_ok_def toy_tx_protobuf_def)

lemma toy32_challenge: "schnorr_challenge toy32 Q K m = schnorr_challenge toy Q K m"
  by (simp add: schnorr_challenge_def toy32_def toy_def BN_bin2bn_def SHA2_Finalize_def SHA2_Reset_def SHA2_Update_def be_val_zeros)

lemma toy32_signs:
  assumes "message \<noteq> []" "length message < 2 ^ 32"
  shows "\<exists>sig. Schnorr_Sign toy32 message 1 1 [Some 12] = SignTrue sig"
proof -
  obtain sig where "Schnorr_Sign toy message 1 1 [Some 12] = SignTrue sig" using toy_signs [OF assms] by blast
  then show ?thesis
    by (auto simp: Schnorr_Sign_def Schnorr_Sign_range_def toy32_def toy_def SHA2_Update_range_def SHA2_Finalize_def SHA2_Reset_def
        SHA2_Update_def BN_bin2bn_def be_val_zeros Let_def split: if_splits option.splits)
qed

text \<open>A payment of 100 to the address 7.\<close>

definition toy_core :: "int TransactionCoreInfo" where
  "toy_core = \<lparr>tx_version = 1, tx_nonce = 1, tx_toAddr = 7, tx_senderPubKey = 1, tx_amount = 100, tx_gasPrice = 5, tx_gasLimit = 10,
     tx_code = [], tx_data = []\<rparr>"

lemma toy_core_written:
  obtains p where "TransactionCoreInfoToProtobuf toy32 toy_core = Some p" "enc_core p \<noteq> []" "length (enc_core p) < 1000"
proof -
  have key: "length (fst (PubKey_Serialize toy32 [] 0 1)) = 33"
    using byte_field.put_length [OF ecpoint_field [OF toy32_ok(2)], of 1 0 "[]"] by (simp add: PubKey_Serialize_def)
  obtain p where p: "TransactionCoreInfoToProtobuf toy32 toy_core = Some p" using TransactionCoreInfoToProtobuf_total by blast
  have "length (number_field_put UINT128_SIZE [] 0 n) = 16" for n by (simp add: number_field_put_def UINT128_SIZE_def)
  then have "enc_core p \<noteq> [] \<and> length (enc_core p) < 1000"
    using p key by (auto simp: TransactionCoreInfoToProtobuf_def block_fields toy_core_def enc_core_def enc_opt_def enc_word_def enc_bytes_def
        enc_nat_def addr_bytes_def ACC_ADDR_SIZE_def unless_empty_def)
  then show ?thesis using that p by blast
qed

theorem created_transaction_arrives_witness:
  "\<exists>t dst. Transaction_create toy32 toy_tx_protobuf [Some 12] 1 toy_core = Some t
    \<and> Messenger_SetTransaction toy32 toy_tx_protobuf [9] 1 t = Some (dst, True)
    \<and> Messenger_GetTransaction toy32 toy_tx_protobuf dst 1 (Transaction_default toy32) = Some (t, True)
    \<and> tx_amount (m_coreInfo t) = 100"
proof -
  obtain p where p: "TransactionCoreInfoToProtobuf toy32 toy_core = Some p" "enc_core p \<noteq> []" "length (enc_core p) < 1000"
    by (rule toy_core_written)
  obtain sig where sig: "Schnorr_Sign toy32 (enc_core p) 1 1 [Some 12] = SignTrue sig" using toy32_signs [OF p(2)] p(3) by auto
  have pub: "PubKey_from_PrivKey toy32 1 = 1" by (simp add: PubKey_from_PrivKey_def openssl_mul_base [OF toy32_ok(1)] toy32_ok(4))
  note sig' = sig [unfolded arg_cong [OF pub [symmetric], of "\<lambda>k. Schnorr_Sign toy32 (enc_core p) 1 k [Some 12]"]]
  let ?h = "SHA2_Finalize toy32 (SHA2_Update SHA2_Reset (enc_core p))"
  let ?t = "\<lparr>m_tranID = ?h, m_coreInfo = toy_core, m_signature = sig\<rparr>"
  have h: "length ?h = 32" using toy32_ok(3) by (simp add: SHA2_Finalize_def)
  have ser: "SerializeCoreFields toy32 toy_tx_protobuf toy_core [] 0 = Some (enc_core p, True)"
    using p SerializeToArray_empty [of "enc_core p"]
    by (simp add: SerializeCoreFields_def Messenger_SetTransactionCoreInfo_def set_message_def toy_tx_protobuf_def)
  have create: "Transaction_create toy32 toy_tx_protobuf [Some 12] 1 toy_core = Some ?t"
    using sig h by (simp add: Transaction_create_def ser) (simp add: toy_core_def)
  have fits: "Signature_fits sig" using Schnorr_Sign_fits [OF toy32_ok(1) sig] .
  then have "length (fst (Signature_Serialize [] 0 sig)) = 64" using Signature_roundtrip_aux(2) [of sig 0 "[]"] by simp
  then obtain dst where set: "Messenger_SetTransaction toy32 toy_tx_protobuf [9] 1 ?t = Some (dst, True)" "1 < length dst"
    using SerializeToArray_succeeds [of "[9]"] p h
    by (simp add: Messenger_SetTransaction_def set_message_def TransactionToProtobuf_def block_fields toy_tx_protobuf_def enc_txn_def
        enc_opt_def enc_bytes_def enc_nat_def)
  have "sig \<noteq> Signature_default"
    using Sign_verifies(2) [OF toy32_ok(1) _ _ _ _ sig'] p(3) toy32_ok(4) by simp
  then have "Messenger_GetTransaction toy32 toy_tx_protobuf dst (length [9 :: byte]) (Transaction_default toy32) = Some (?t, True)"
    using created_transaction_arrives [OF toy32_ok(1,2,3) toy_tx_wire _ _ _ _ _ create, of "[9]" dst] set toy32_ok(4)
    by (simp add: toy_core_def pub)
  then show ?thesis using create set(1) by (intro exI [of _ ?t] exI [of _ dst]) (simp add: toy_core_def)
qed

end
