(* ===== verification/TxnPool.thy ===== *)
theory TxnPool
  imports Transactions "HOL-Library.AList" "HOL-Library.List_Lexorder"
begin

text \<open>
  The pool of pending transactions (\<open>libData/AccountData/TxnPool.h\<close>): three indexes over the same
  transactions, by hash, by gas price and hash, and by sender and nonce.

  A \<open>std::map\<close> is a list of pairs in the order of its keys, an \<open>unordered_map\<close> a list of pairs in any order.
  Of a transaction the pool reads the hash, the sender's key, the nonce and the gas price. Hashes are
  compared octet by octet, as \<open>FixedHash\<close> does.
\<close>

section \<open>Ordered maps\<close>

fun map_put :: "('pt \<Rightarrow> 'pt \<Rightarrow> bool) \<Rightarrow> 'pt \<Rightarrow> 'v \<Rightarrow> ('pt \<times> 'v) list \<Rightarrow> ('pt \<times> 'v) list" where
  "map_put lt k v [] = [(k, v)]"
| "map_put lt k v (e # m) =
     (if k = fst e then (k, v) # m else if lt k (fst e) then (k, v) # e # m else e # map_put lt k v m)"

lemma map_of_map_put [simp]: "map_of (map_put lt k v m) = (map_of m)(k \<mapsto> v)"
  by (induction m) (auto simp: fun_eq_iff)

lemma fst_map_put: "fst ` set (map_put lt k v m) = insert k (fst ` set m)"
  by (induction m) auto

lemma set_map_put: "set (map_put lt k v m) \<subseteq> insert (k, v) (set m)"
  by (induction m) auto

lemma sorted_map_put:
  assumes "\<And>a b c. lt a b \<Longrightarrow> lt b c \<Longrightarrow> lt a c" "\<And>a b. lt a b \<or> a = b \<or> lt b a"
  shows "sorted_wrt lt (map fst m) \<Longrightarrow> sorted_wrt lt (map fst (map_put lt k v m))"
proof (induction m)
  case (Cons e m)
  have "lt (fst e) k'" if "k' \<in> insert k (fst ` set m)" "k \<noteq> fst e" "\<not> lt k (fst e)" for k'
    using that Cons.prems assms(2) [of k "fst e"] by auto
  moreover have "a \<in> insert k (fst ` set m)" if "(a, b) \<in> set (map_put lt k v m)" for a b
    using that fst_map_put [of lt k v m] by (metis fst_conv image_eqI)
  ultimately show ?case using Cons assms(1) by auto
qed simp

section \<open>State\<close>

type_synonym 'pt bucket = "(bytes \<times> 'pt Transaction) list"

record 'pt TxnPool =
  HashIndex :: "(bytes \<times> 'pt Transaction) list"
  GasIndex :: "(128 word \<times> 'pt bucket) list"
  NonceIndex :: "(('pt PubKey \<times> 64 word) \<times> 'pt Transaction) list"

definition TxnPool_empty :: "'pt TxnPool" where
  "TxnPool_empty = \<lparr>HashIndex = [], GasIndex = [], NonceIndex = []\<rparr>"

definition TxnPool_clear :: "'pt TxnPool \<Rightarrow> 'pt TxnPool" where
  "TxnPool_clear p = p\<lparr>HashIndex := [], GasIndex := [], NonceIndex := []\<rparr>"

definition TxnPool_size :: "'pt TxnPool \<Rightarrow> nat" where
  "TxnPool_size p = u32 (length (HashIndex p))"

definition TxnPool_exist :: "bytes \<Rightarrow> 'pt TxnPool \<Rightarrow> bool" where
  "TxnPool_exist th p \<longleftrightarrow> map_of (HashIndex p) th \<noteq> None"

definition TxnPool_get :: "bytes \<Rightarrow> 'pt TxnPool \<Rightarrow> 'pt Transaction option" where
  "TxnPool_get th p = (if \<not> TxnPool_exist th p then None else map_of (HashIndex p) th)"

definition nonce_key :: "'pt Transaction \<Rightarrow> 'pt PubKey \<times> 64 word" where
  "nonce_key t = (GetSenderPubKey t, Transaction_GetNonce t)"

section \<open>Operations\<close>

text \<open>\<open>GasIndex[price][hash] = t\<close>, and erasing a hash from a bucket that exists.\<close>

definition gas_bucket :: "128 word \<Rightarrow> (128 word \<times> 'pt bucket) list \<Rightarrow> 'pt bucket" where
  "gas_bucket g G = (case map_of G g of None \<Rightarrow> [] | Some m \<Rightarrow> m)"

definition gas_insert :: "'pt Transaction \<Rightarrow> (128 word \<times> 'pt bucket) list \<Rightarrow> (128 word \<times> 'pt bucket) list" where
  "gas_insert t G =
     map_put (>) (GetGasPrice t) (map_put (<) (GetTranID t) t (gas_bucket (GetGasPrice t) G)) G"

definition gas_erase :: "'pt Transaction \<Rightarrow> (128 word \<times> 'pt bucket) list \<Rightarrow> (128 word \<times> 'pt bucket) list" where
  "gas_erase t G =
     (case map_of G (GetGasPrice t) of
        None \<Rightarrow> G
      | Some m \<Rightarrow> map_put (>) (GetGasPrice t) (AList.delete (GetTranID t) m) G)"

text \<open>A transaction with a nonce that is taken replaces the one in the pool when it pays more, or the same
  with a smaller hash; otherwise nothing changes and the result is still true.\<close>

definition TxnPool_insert :: "'pt Transaction \<Rightarrow> 'pt TxnPool \<Rightarrow> bool \<times> 'pt TxnPool" where
  "TxnPool_insert t p =
     (if TxnPool_exist (GetTranID t) p then (False, p)
      else case map_of (NonceIndex p) (nonce_key t) of
             Some old \<Rightarrow>
               if GetGasPrice t > GetGasPrice old \<or> (GetGasPrice t = GetGasPrice old \<and> GetTranID t < GetTranID old)
               then (True, p\<lparr>HashIndex := AList.update (GetTranID t) t (AList.delete (GetTranID old) (HashIndex p)),
                             GasIndex := gas_insert t (gas_erase old (GasIndex p)),
                             NonceIndex := AList.update (nonce_key t) t (NonceIndex p)\<rparr>)
               else (True, p)
           | None \<Rightarrow>
               (True, p\<lparr>HashIndex := AList.update (GetTranID t) t (HashIndex p),
                        GasIndex := gas_insert t (GasIndex p),
                        NonceIndex := AList.update (nonce_key t) t (NonceIndex p)\<rparr>))"

text \<open>The transaction is replaced by one of the same sender and nonce that pays more, which leaves the pool.\<close>

definition findSameNonceButHigherGas :: "'pt Transaction \<Rightarrow> 'pt TxnPool \<Rightarrow> 'pt Transaction \<times> 'pt TxnPool" where
  "findSameNonceButHigherGas t p =
     (case map_of (NonceIndex p) (nonce_key t) of
        None \<Rightarrow> (t, p)
      | Some s \<Rightarrow>
          if GetGasPrice s > GetGasPrice t
          then let m = AList.delete (GetTranID s) (gas_bucket (GetGasPrice s) (GasIndex p))
               in (s, p\<lparr>NonceIndex := AList.delete (nonce_key t) (NonceIndex p),
                        GasIndex := (if m = [] then AList.delete (GetGasPrice s) (GasIndex p)
                                     else map_put (>) (GetGasPrice s) m (GasIndex p)),
                        HashIndex := AList.delete (GetTranID s) (HashIndex p)\<rparr>)
          else (t, p))"

text \<open>The first transaction of the first bucket leaves the pool.\<close>

definition findOne :: "'pt TxnPool \<Rightarrow> 'pt Transaction option \<times> 'pt TxnPool" where
  "findOne p =
     (case GasIndex p of
        [] \<Rightarrow> (None, p)
      | (g, bucket) # rest \<Rightarrow>
          (case bucket of
             [] \<Rightarrow> (None, p)
           | (h, t) # bucket' \<Rightarrow>
               (Some t, p\<lparr>GasIndex := (if bucket' = [] then rest else (g, bucket') # rest),
                          NonceIndex := AList.delete (nonce_key t) (NonceIndex p),
                          HashIndex := AList.delete (GetTranID t) (HashIndex p)\<rparr>)))"

section \<open>Invariant\<close>

definition gas_find :: "(128 word \<times> 'pt bucket) list \<Rightarrow> 'pt Transaction \<Rightarrow> 'pt Transaction option" where
  "gas_find G t = map_of (gas_bucket (GetGasPrice t) G) (GetTranID t)"

definition gas_sorted :: "(128 word \<times> 'pt bucket) list \<Rightarrow> bool" where
  "gas_sorted G \<longleftrightarrow> sorted_wrt (>) (map fst G) \<and> (\<forall>e \<in> set G. sorted_wrt (<) (map fst (snd e)))"

text \<open>Every index files a transaction under its own key, and the three hold the same transactions.\<close>

definition in_pool :: "'pt TxnPool \<Rightarrow> 'pt Transaction \<Rightarrow> bool" where
  "in_pool p t \<longleftrightarrow> map_of (HashIndex p) (GetTranID t) = Some t"

definition filed :: "'pt TxnPool \<Rightarrow> bool" where
  "filed p \<longleftrightarrow>
     (\<forall>h t. map_of (HashIndex p) h = Some t \<longrightarrow> GetTranID t = h)
     \<and> (\<forall>k t. map_of (NonceIndex p) k = Some t \<longrightarrow> nonce_key t = k)
     \<and> (\<forall>g h t. map_of (gas_bucket g (GasIndex p)) h = Some t \<longrightarrow> GetGasPrice t = g \<and> GetTranID t = h)"

definition pool_ok :: "'pt TxnPool \<Rightarrow> bool" where
  "pool_ok p \<longleftrightarrow> filed p \<and> gas_sorted (GasIndex p)
     \<and> distinct (map fst (HashIndex p)) \<and> distinct (map fst (NonceIndex p))
     \<and> (\<forall>t. in_pool p t \<longleftrightarrow> map_of (NonceIndex p) (nonce_key t) = Some t)
     \<and> (\<forall>t. in_pool p t \<longleftrightarrow> gas_find (GasIndex p) t = Some t)"

lemma delete_map_of [simp]: "map_of (AList.delete k m) = (map_of m)(k := None)"
  by (simp add: delete_conv')

lemma update_map_of [simp]: "map_of (AList.update k v m) = (map_of m)(k \<mapsto> v)"
  by (simp add: update_conv')

lemma gas_bucket_insert:
  "map_of (gas_bucket g (gas_insert t G)) h
   = (if g = GetGasPrice t \<and> h = GetTranID t then Some t else map_of (gas_bucket g G) h)"
  by (auto simp: gas_bucket_def gas_insert_def)

lemma gas_bucket_erase:
  "map_of (gas_bucket g (gas_erase t G)) h
   = (if g = GetGasPrice t \<and> h = GetTranID t then None else map_of (gas_bucket g G) h)"
  by (auto simp: gas_bucket_def gas_erase_def split: option.splits)

lemma sorted_delete: "sorted_wrt lt (map fst m) \<Longrightarrow> sorted_wrt lt (map fst (AList.delete k m))"
  by (induction m) (auto simp: AList.delete_eq)

lemma gas_sorted_put:
  assumes "gas_sorted G" "sorted_wrt (<) (map fst m)"
  shows "gas_sorted (map_put (>) g m G)"
proof -
  have "sorted_wrt (>) (map fst (map_put (>) g m G))"
    using assms(1) by (intro sorted_map_put) (auto simp: gas_sorted_def)
  then show ?thesis using assms set_map_put [of "(>)" g m G] by (auto simp: gas_sorted_def)
qed

lemma gas_sorted_bucket: "gas_sorted G \<Longrightarrow> sorted_wrt (<) (map fst (gas_bucket g G))"
  by (fastforce simp: gas_sorted_def gas_bucket_def dest: map_of_SomeD split: option.splits)

lemma gas_sorted_insert: "gas_sorted G \<Longrightarrow> gas_sorted (gas_insert t G)"
  unfolding gas_insert_def
  by (intro gas_sorted_put sorted_map_put gas_sorted_bucket) auto

lemma gas_sorted_erase: "gas_sorted G \<Longrightarrow> gas_sorted (gas_erase t G)"
  using gas_sorted_bucket [of G "GetGasPrice t"]
  by (auto simp: gas_erase_def gas_bucket_def intro!: gas_sorted_put sorted_delete split: option.splits)

lemma pool_okD:
  assumes "pool_ok p"
  shows "gas_sorted (GasIndex p)" "distinct (map fst (HashIndex p))" "distinct (map fst (NonceIndex p))" "filed p"
    "in_pool p t \<longleftrightarrow> map_of (NonceIndex p) (nonce_key t) = Some t"
    "in_pool p t \<longleftrightarrow> gas_find (GasIndex p) t = Some t"
    "map_of (NonceIndex p) k = Some t \<Longrightarrow> nonce_key t = k"
    "map_of (gas_bucket g (GasIndex p)) h = Some t \<Longrightarrow> GetGasPrice t = g \<and> GetTranID t = h"
  using assms unfolding pool_ok_def filed_def by blast+

text \<open>Leaving and entering the pool, whatever lists the indexes become.\<close>

lemma pool_remove:
  assumes ok: "pool_ok p" and t: "in_pool p t"
    and q: "map_of (HashIndex q) = (map_of (HashIndex p))(GetTranID t := None)"
      "map_of (NonceIndex q) = (map_of (NonceIndex p))(nonce_key t := None)"
      "\<And>g h. map_of (gas_bucket g (GasIndex q)) h
         = (if g = GetGasPrice t \<and> h = GetTranID t then None else map_of (gas_bucket g (GasIndex p)) h)"
    and lists: "gas_sorted (GasIndex q)" "distinct (map fst (HashIndex q))" "distinct (map fst (NonceIndex q))"
  shows "pool_ok q \<and> (\<forall>s. in_pool q s \<longleftrightarrow> in_pool p s \<and> s \<noteq> t)"
proof -
  have iff: "in_pool q s \<longleftrightarrow> in_pool p s \<and> s \<noteq> t" for s using t q(1) by (auto simp: in_pool_def)
  note N = pool_okD(5) [OF ok] and G = pool_okD(6) [OF ok]
  have "filed q" using ok q by (auto simp: pool_ok_def filed_def)
  moreover have "in_pool q s \<longleftrightarrow> map_of (NonceIndex q) (nonce_key s) = Some s" for s
    using iff N [of s] N [of t] t q(2) by auto
  moreover have "in_pool q s \<longleftrightarrow> gas_find (GasIndex q) s = Some s" for s
    using iff G [of s] G [of t] t q(3) by (auto simp: gas_find_def)
  ultimately show ?thesis using lists iff by (simp add: pool_ok_def)
qed

lemma pool_add:
  assumes ok: "pool_ok p" and t: "map_of (HashIndex p) (GetTranID t) = None" "map_of (NonceIndex p) (nonce_key t) = None"
    and q: "map_of (HashIndex q) = (map_of (HashIndex p))(GetTranID t \<mapsto> t)"
      "map_of (NonceIndex q) = (map_of (NonceIndex p))(nonce_key t \<mapsto> t)"
      "\<And>g h. map_of (gas_bucket g (GasIndex q)) h
         = (if g = GetGasPrice t \<and> h = GetTranID t then Some t else map_of (gas_bucket g (GasIndex p)) h)"
    and lists: "gas_sorted (GasIndex q)" "distinct (map fst (HashIndex q))" "distinct (map fst (NonceIndex q))"
  shows "pool_ok q \<and> (\<forall>s. in_pool q s \<longleftrightarrow> in_pool p s \<or> s = t)"
proof -
  have iff: "in_pool q s \<longleftrightarrow> in_pool p s \<or> s = t" for s using t q(1) by (auto simp: in_pool_def)
  note N = pool_okD(5) [OF ok] and G = pool_okD(6) [OF ok]
  have "filed q" using ok q by (auto simp: pool_ok_def filed_def)
  moreover have "in_pool q s \<longleftrightarrow> map_of (NonceIndex q) (nonce_key s) = Some s" for s
    using iff N [of s] t(2) q(2) by auto
  moreover have "in_pool q s \<longleftrightarrow> gas_find (GasIndex q) s = Some s" for s
    using iff G [of s] t(1) q(3) by (auto simp: gas_find_def in_pool_def)
  ultimately show ?thesis using lists iff by (simp add: pool_ok_def)
qed

lemma TxnPool_insert_ok:
  assumes ok: "pool_ok p" and ins: "TxnPool_insert t p = (r, q)"
  shows "pool_ok q \<and> (\<forall>s. in_pool q s \<longrightarrow> in_pool p s \<or> s = t)"
proof -
  note distinct = pool_okD(2,3) [OF ok] and gas = pool_okD(1) [OF ok]
  consider "q = p" | "map_of (HashIndex p) (GetTranID t) = None" "map_of (NonceIndex p) (nonce_key t) = None"
      "q = p\<lparr>HashIndex := AList.update (GetTranID t) t (HashIndex p), GasIndex := gas_insert t (GasIndex p),
              NonceIndex := AList.update (nonce_key t) t (NonceIndex p)\<rparr>"
    | old where "map_of (HashIndex p) (GetTranID t) = None" "map_of (NonceIndex p) (nonce_key t) = Some old"
      "q = p\<lparr>HashIndex := AList.update (GetTranID t) t (AList.delete (GetTranID old) (HashIndex p)),
              GasIndex := gas_insert t (gas_erase old (GasIndex p)),
              NonceIndex := AList.update (nonce_key t) t (NonceIndex p)\<rparr>"
    using ins by (auto simp: TxnPool_insert_def TxnPool_exist_def split: if_splits option.splits)
  then show ?thesis
  proof cases
    case 1
    then show ?thesis using ok by simp
  next
    case 2
    have "pool_ok q \<and> (\<forall>s. in_pool q s \<longleftrightarrow> in_pool p s \<or> s = t)"
      by (rule pool_add [OF ok 2(1,2)])
        (use distinct gas in \<open>simp_all add: 2(3) gas_bucket_insert gas_sorted_insert distinct_update\<close>)
    then show ?thesis by blast
  next
    case (3 old)
    let ?m = "p\<lparr>HashIndex := AList.delete (GetTranID old) (HashIndex p), GasIndex := gas_erase old (GasIndex p),
      NonceIndex := AList.delete (nonce_key t) (NonceIndex p)\<rparr>"
    have key: "nonce_key old = nonce_key t" using pool_okD(7) [OF ok 3(2)] .
    then have old: "in_pool p old" using 3(2) by (simp add: pool_okD(5) [OF ok])
    have m: "pool_ok ?m \<and> (\<forall>s. in_pool ?m s \<longleftrightarrow> in_pool p s \<and> s \<noteq> old)"
      by (rule pool_remove [OF ok old])
        (use distinct gas key in \<open>simp_all add: gas_bucket_erase gas_sorted_erase distinct_delete\<close>)
    have "pool_ok q \<and> (\<forall>s. in_pool q s \<longleftrightarrow> in_pool ?m s \<or> s = t)"
      by (rule pool_add [OF conjunct1 [OF m]])
        (use distinct gas 3(1) in \<open>simp_all add: 3(3) gas_bucket_insert gas_sorted_insert gas_sorted_erase
           distinct_update distinct_delete\<close>)
    then show ?thesis using m by blast
  qed
qed

lemma gas_bucket_trim:
  assumes "sorted_wrt (>) (map fst G)"
  shows "map_of (gas_bucket g (if AList.delete h' (gas_bucket g' G) = [] then AList.delete g' G
      else map_put (>) g' (AList.delete h' (gas_bucket g' G)) G)) h
    = (if g = g' \<and> h = h' then None else map_of (gas_bucket g G) h)"
proof -
  let ?m = "AList.delete h' (gas_bucket g' G)"
  have "map_of (gas_bucket g' G) h = None" if "?m = []" "h \<noteq> h'"
    using arg_cong [OF that(1), of "\<lambda>m. map_of m h"] that(2) by simp
  then show ?thesis by (cases "?m = []") (auto simp: gas_bucket_def split: option.splits)
qed

lemma findSameNonceButHigherGas_ok:
  assumes ok: "pool_ok p" and run: "findSameNonceButHigherGas t p = (s, q)"
  shows "pool_ok q"
proof -
  note distinct = pool_okD(2,3) [OF ok] and gas = pool_okD(1) [OF ok]
  let ?m = "\<lambda>s. AList.delete (GetTranID s) (gas_bucket (GetGasPrice s) (GasIndex p))"
  consider "q = p" | "map_of (NonceIndex p) (nonce_key t) = Some s"
      "q = p\<lparr>NonceIndex := AList.delete (nonce_key t) (NonceIndex p),
              GasIndex := (if ?m s = [] then AList.delete (GetGasPrice s) (GasIndex p)
                           else map_put (>) (GetGasPrice s) (?m s) (GasIndex p)),
              HashIndex := AList.delete (GetTranID s) (HashIndex p)\<rparr>"
    using run by (auto simp: findSameNonceButHigherGas_def Let_def split: option.splits if_splits)
  then show ?thesis
  proof cases
    case 2
    have key: "nonce_key s = nonce_key t" using pool_okD(7) [OF ok 2(1)] .
    then have s: "in_pool p s" using 2(1) by (simp add: pool_okD(5) [OF ok])
    have trim: "gas_sorted (GasIndex q)"
    proof -
      have "gas_sorted (AList.delete (GetGasPrice s) (GasIndex p))"
        using gas by (auto simp: gas_sorted_def AList.delete_eq intro: sorted_delete [unfolded AList.delete_eq])
      then show ?thesis using gas_sorted_put [OF gas sorted_delete [OF gas_sorted_bucket [OF gas]]] by (simp add: 2(2))
    qed
    have "pool_ok q \<and> (\<forall>r. in_pool q r \<longleftrightarrow> in_pool p r \<and> r \<noteq> s)"
    proof (rule pool_remove [OF ok s _ _ _ trim])
      show "map_of (gas_bucket g (GasIndex q)) h
          = (if g = GetGasPrice s \<and> h = GetTranID s then None else map_of (gas_bucket g (GasIndex p)) h)" for g h
        using gas_bucket_trim [of "GasIndex p"] gas by (simp add: 2(2) gas_sorted_def)
    qed (use distinct key in \<open>simp_all add: 2(2) distinct_delete\<close>)
    then show ?thesis by blast
  qed (use ok in simp)
qed

lemma findOne_cases:
  assumes "findOne p = (r, q)"
  obtains (none) "r = None" "q = p" "\<And>g b rest. GasIndex p = (g, b) # rest \<Longrightarrow> b = []"
  | (one) g h t bucket rest where "r = Some t" "GasIndex p = (g, (h, t) # bucket) # rest"
      "q = p\<lparr>GasIndex := (if bucket = [] then rest else (g, bucket) # rest),
              NonceIndex := AList.delete (nonce_key t) (NonceIndex p),
              HashIndex := AList.delete (GetTranID t) (HashIndex p)\<rparr>"
proof (cases "GasIndex p")
  case Nil
  then show thesis using assms none by (simp add: findOne_def)
next
  case (Cons e rest)
  obtain g b where e: "e = (g, b)" by (cases e)
  show thesis
  proof (cases b)
    case Nil
    then show thesis using assms none Cons e by (simp add: findOne_def)
  next
    case (Cons x bucket)
    then show thesis using assms one [of "snd x" g "fst x" bucket rest] \<open>GasIndex p = e # rest\<close> e
      by (cases x) (simp add: findOne_def)
  qed
qed

lemma findOne_ok:
  assumes ok: "pool_ok p" and run: "findOne p = (r, q)"
  shows "pool_ok q \<and> (\<forall>s. in_pool q s \<longleftrightarrow> in_pool p s \<and> r \<noteq> Some s)
    \<and> (\<forall>t. r = Some t \<longrightarrow> in_pool p t)"
  using run
proof (cases rule: findOne_cases)
  case none
  then show ?thesis using ok by simp
next
  case (one g h t bucket rest)
  have G: "sorted_wrt (>) (map fst (GasIndex p))" "\<forall>e \<in> set (GasIndex p). sorted_wrt (<) (map fst (snd e))"
    using pool_okD(1) [OF ok] by (simp_all add: gas_sorted_def)
  have t: "GetGasPrice t = g" "GetTranID t = h"
    using pool_okD(8) [OF ok, of g h t] one(2) by (simp_all add: gas_bucket_def)
  then have "gas_find (GasIndex p) t = Some t" using one(2) by (simp add: gas_find_def gas_bucket_def)
  then have "in_pool p t" by (simp add: pool_okD(6) [OF ok])
  moreover have "pool_ok q \<and> (\<forall>s. in_pool q s \<longleftrightarrow> in_pool p s \<and> s \<noteq> t)"
  proof (rule pool_remove [OF ok \<open>in_pool p t\<close>])
    have g: "map_of rest g = None" and h: "map_of bucket h = None"
      using G one(2) by (auto simp: map_of_eq_None_iff)
    show "map_of (gas_bucket g' (GasIndex q)) h'
        = (if g' = GetGasPrice t \<and> h' = GetTranID t then None else map_of (gas_bucket g' (GasIndex p)) h')" for g' h'
      using g h by (auto simp: one(2,3) t gas_bucket_def)
    show "gas_sorted (GasIndex q)" using G by (auto simp: one(2,3) gas_sorted_def)
  qed (use pool_okD(2,3) [OF ok] in \<open>simp_all add: one(3) distinct_delete\<close>)
  ultimately show ?thesis using one(1) by auto
qed

section \<open>Properties\<close>

datatype 'pt pool_event = Insert "'pt Transaction" | HigherGas "'pt Transaction" | TakeOne | ClearAll

definition pool_handle :: "'pt pool_event \<Rightarrow> 'pt TxnPool \<Rightarrow> 'pt TxnPool option" where
  "pool_handle e p =
     Some (case e of
             Insert t \<Rightarrow> snd (TxnPool_insert t p)
           | HigherGas t \<Rightarrow> snd (findSameNonceButHigherGas t p)
           | TakeOne \<Rightarrow> snd (findOne p)
           | ClearAll \<Rightarrow> TxnPool_clear p)"

lemma TxnPool_empty_ok: "pool_ok TxnPool_empty"
  by (simp add: pool_ok_def filed_def TxnPool_empty_def gas_bucket_def gas_sorted_def in_pool_def gas_find_def)

interpretation pool: event_machine pool_ok pool_handle "\<lambda>_ _. True"
proof
  fix p :: "'a TxnPool" and e
  assume ok: "pool_ok p"
  have "pool_ok (TxnPool_clear p)"
    using TxnPool_empty_ok by (simp add: TxnPool_clear_def TxnPool_empty_def pool_ok_def filed_def in_pool_def)
  then show "\<exists>q. pool_handle e p = Some q \<and> pool_ok q"
    using TxnPool_insert_ok [OF ok surjective_pairing] findSameNonceButHigherGas_ok [OF ok surjective_pairing]
      findOne_ok [OF ok surjective_pairing]
    by (cases e) (simp_all add: pool_handle_def)
qed

text \<open>C16: after any sequence of operations on an empty pool the three indexes hold the same transactions, each
  filed under its own hash, price and nonce: a transaction is found by hash exactly if it is the one of
  its sender and nonce, and exactly if it is in the bucket of its gas price; so no two transactions of the
  pool have the same sender and nonce.\<close>

theorem pool_indexes_agree:
  "\<exists>p. run_events pool_handle es TxnPool_empty = Some p
    \<and> (\<forall>t. TxnPool_get (GetTranID t) p = Some t \<longleftrightarrow> map_of (NonceIndex p) (nonce_key t) = Some t)
    \<and> (\<forall>t. TxnPool_get (GetTranID t) p = Some t \<longleftrightarrow> map_of (gas_bucket (GetGasPrice t) (GasIndex p)) (GetTranID t) = Some t)
    \<and> (\<forall>s t. TxnPool_get (GetTranID s) p = Some s \<and> TxnPool_get (GetTranID t) p = Some t \<and> nonce_key s = nonce_key t \<longrightarrow> s = t)"
proof -
  have "admissible_run pool_handle (\<lambda>_ _. True) p es" for p
    by (induction es arbitrary: p) (simp_all split: option.split)
  then obtain p where p: "run_events pool_handle es TxnPool_empty = Some p" "pool_ok p"
    using pool.run_safe [OF TxnPool_empty_ok] by blast
  have get: "TxnPool_get (GetTranID t) p = Some t \<longleftrightarrow> in_pool p t" for t
    by (auto simp: TxnPool_get_def TxnPool_exist_def in_pool_def)
  have N: "in_pool p t \<longleftrightarrow> map_of (NonceIndex p) (nonce_key t) = Some t" for t by (rule pool_okD(5) [OF p(2)])
  have G: "in_pool p t \<longleftrightarrow> map_of (gas_bucket (GetGasPrice t) (GasIndex p)) (GetTranID t) = Some t" for t
    using pool_okD(6) [OF p(2)] by (simp add: gas_find_def)
  have unique: "s = t" if "in_pool p s \<and> in_pool p t \<and> nonce_key s = nonce_key t" for s t
  proof -
    have "map_of (NonceIndex p) (nonce_key t) = Some s" "map_of (NonceIndex p) (nonce_key t) = Some t"
      using iffD1 [OF N, of s] iffD1 [OF N, of t] that by metis+
    then show ?thesis by simp
  qed
  show ?thesis
    by (rule exI [of _ p], unfold get, intro conjI allI impI) (rule p(1), rule N, rule G, rule unique)
qed

definition toy_txn :: "byte \<Rightarrow> int \<Rightarrow> 64 word \<Rightarrow> 128 word \<Rightarrow> int Transaction" where
  "toy_txn i k n g = \<lparr>m_tranID = [i], m_coreInfo = (TransactionCoreInfo_default toy)\<lparr>tx_senderPubKey := k, tx_nonce := n, tx_gasPrice := g\<rparr>,
     m_signature = Signature_default\<rparr>"

lemma toy_txn_fields [simp]:
  "GetTranID (toy_txn i k n g) = [i]" "nonce_key (toy_txn i k n g) = (k, n)" "GetGasPrice (toy_txn i k n g) = g"
  by (simp_all add: toy_txn_def nonce_key_def GetTranID_def GetSenderPubKey_def Transaction_GetNonce_def GetGasPrice_def)

theorem pool_indexes_agree_witness:
  "\<exists>p. run_events pool_handle [Insert (toy_txn 1 7 0 5), Insert (toy_txn 2 7 0 9)] TxnPool_empty = Some p
    \<and> TxnPool_get [2] p = Some (toy_txn 2 7 0 9) \<and> map_of (NonceIndex p) (7, 0) = Some (toy_txn 2 7 0 9)"
proof -
  from pool_indexes_agree [of "[Insert (toy_txn 1 7 0 5), Insert (toy_txn 2 7 0 9)]"]
  obtain p where p: "run_events pool_handle [Insert (toy_txn 1 7 0 5), Insert (toy_txn 2 7 0 9)] TxnPool_empty = Some p"
      "\<forall>t. TxnPool_get (GetTranID t) p = Some t \<longleftrightarrow> map_of (NonceIndex p) (nonce_key t) = Some t" by blast
  have "TxnPool_get [2] p = Some (toy_txn 2 7 0 9)"
    using p(1) by (auto simp: pool_handle_def TxnPool_insert_def TxnPool_empty_def TxnPool_exist_def TxnPool_get_def
        AList.delete_eq)
  then show ?thesis using p(1) p(2) [THEN spec, of "toy_txn 2 7 0 9"] by simp
qed

text \<open>a transaction taken from the pool was in it, no transaction of the pool paid a higher price or the
  same price with a smaller hash, and exactly this transaction leaves the pool.\<close>

lemma findOne_takes_highest:
  assumes ok: "pool_ok p" and run: "findOne p = (Some t, q)"
  shows "in_pool p t \<and> (\<forall>s. in_pool q s \<longleftrightarrow> in_pool p s \<and> s \<noteq> t)
    \<and> (\<forall>s. in_pool p s \<longrightarrow> GetGasPrice s < GetGasPrice t
            \<or> (GetGasPrice s = GetGasPrice t \<and> GetTranID t \<le> GetTranID s))"
proof -
  from run obtain g h bucket rest where G: "GasIndex p = (g, (h, t) # bucket) # rest"
    by (cases rule: findOne_cases) auto
  have t: "GetGasPrice t = g" "GetTranID t = h"
    using pool_okD(8) [OF ok, of g h t] G by (simp_all add: gas_bucket_def)
  have sorted: "gas_sorted (GasIndex p)" by (rule pool_okD(1) [OF ok])
  have "GetGasPrice s < g \<or> (GetGasPrice s = g \<and> h \<le> GetTranID s)" if "in_pool p s" for s
  proof -
    have found: "map_of (gas_bucket (GetGasPrice s) (GasIndex p)) (GetTranID s) = Some s"
      using that pool_okD(6) [OF ok, of s] by (simp add: gas_find_def)
    show ?thesis
    proof (cases "GetGasPrice s = g")
      case True
      then have "GetTranID s = h \<or> GetTranID s \<in> fst ` set bucket"
        using found G by (auto simp: gas_bucket_def dest: map_of_SomeD split: if_splits) (force dest: map_of_SomeD)
      then show ?thesis using True sorted G by (auto simp: gas_sorted_def)
    next
      case False
      then have "GetGasPrice s \<in> fst ` set rest"
        using found G by (auto simp: gas_bucket_def split: option.splits) (force dest: map_of_SomeD)
      then show ?thesis using sorted G by (auto simp: gas_sorted_def)
    qed
  qed
  then show ?thesis using findOne_ok [OF ok run] t by auto
qed

text \<open>A replaced transaction leaves its bucket behind. When a sender raises the price of a transaction above
  the rest of the pool and that transaction is then taken, the empty bucket is the first one, and
  \<open>findOne\<close> reports that there is nothing although the pool still has a transaction.\<close>

lemma empty_bucket_hides_transactions:
  assumes "GetTranID a \<noteq> GetTranID b" "GetTranID c \<noteq> GetTranID a" "GetTranID c \<noteq> GetTranID b"
    and "nonce_key c = nonce_key a" "nonce_key b \<noteq> nonce_key a"
    and "GetGasPrice b < GetGasPrice a" "GetGasPrice a < GetGasPrice c"
    and p: "p = snd (TxnPool_insert c (snd (TxnPool_insert b (snd (TxnPool_insert a TxnPool_empty)))))"
  shows "\<exists>q. findOne p = (Some c, q) \<and> findOne q = (None, q) \<and> in_pool q b \<and> TxnPool_size q = 1"
proof -
  have order: "\<not> GetGasPrice a < GetGasPrice b" "GetGasPrice b \<noteq> GetGasPrice a" "\<not> GetGasPrice c < GetGasPrice a"
      "GetGasPrice c \<noteq> GetGasPrice a" "GetGasPrice b < GetGasPrice c" "\<not> GetGasPrice c < GetGasPrice b" "GetGasPrice c \<noteq> GetGasPrice b"
    using assms(6,7) by auto
  have 1: "TxnPool_insert a TxnPool_empty = (True, \<lparr>HashIndex = [(GetTranID a, a)],
      GasIndex = [(GetGasPrice a, [(GetTranID a, a)])], NonceIndex = [(nonce_key a, a)]\<rparr>)"
    by (simp add: TxnPool_insert_def TxnPool_empty_def TxnPool_exist_def gas_insert_def gas_bucket_def)
  have 2: "TxnPool_insert b (snd (TxnPool_insert a TxnPool_empty)) = (True, \<lparr>HashIndex = [(GetTranID a, a), (GetTranID b, b)],
      GasIndex = [(GetGasPrice a, [(GetTranID a, a)]), (GetGasPrice b, [(GetTranID b, b)])],
      NonceIndex = [(nonce_key a, a), (nonce_key b, b)]\<rparr>)"
    unfolding 1 using assms(1,5,6) order by (simp add: TxnPool_insert_def TxnPool_exist_def gas_insert_def gas_bucket_def)
  have 3: "p = \<lparr>HashIndex = [(GetTranID b, b), (GetTranID c, c)],
      GasIndex = [(GetGasPrice c, [(GetTranID c, c)]), (GetGasPrice a, []), (GetGasPrice b, [(GetTranID b, b)])],
      NonceIndex = [(nonce_key a, c), (nonce_key b, b)]\<rparr>"
    unfolding p 2 using assms(1-7) order
    by (simp add: TxnPool_insert_def TxnPool_exist_def gas_insert_def gas_bucket_def gas_erase_def AList.delete_eq)
  show ?thesis unfolding 3 using assms(1-7) order
    by (simp add: findOne_def in_pool_def TxnPool_size_def AList.delete_eq)
qed

end
