(* ===== verification/Sharding.thy ===== *)
theory Sharding
  imports TxnPool
begin

text \<open>
  How the directory service distributes nodes over shards: \<open>libUtils/ShardSizeCalculator.cpp\<close>, \<open>Mediator::GetShardSize\<close>,
  \<open>SortPoWSoln\<close> and \<open>ComputeSharding\<close> of \<open>libDirectoryService/DSBlockPreProcessing.cpp\<close>, and the adjustment of the difficulty in
  \<open>DirectoryService.cpp\<close>.

  Numbers keep the widths of the sources. Maps are association lists in the order of their keys; public keys are compared as
  points. \<open>None\<close> is an exception or a division by zero.
\<close>

section \<open>Configuration and state\<close>

record PoWSolution =
  pow_nonce :: "64 word"
  pow_result :: bytes
  pow_mixhash :: bytes
  pow_lookupId :: "32 word"
  pow_gasPrice :: "128 word"

type_synonym 'pt MapOfPubKeyPoW = "('pt PubKey \<times> PoWSolution) list"
type_synonym 'pt VectorOfPoWSoln = "(bytes \<times> 'pt PubKey) list"

record 'pt DirectoryService =
  m_allPoWs :: "'pt MapOfPubKeyPoW"
  m_allDSPoWs :: "'pt MapOfPubKeyPoW"
  m_allPoWConns :: "('pt PubKey \<times> Peer) list"
  m_shards :: "'pt DequeOfShard"
  m_publicKeyToshardIdMap :: "('pt PubKey \<times> 32 word) list"
  ds_mapNodeReputation :: "('pt PubKey \<times> 16 word) list"

text \<open>\<open>sh_guardShare n\<close> is the double-precision \<open>ceil (n * SHARD_GUARD_TOL)\<close> of the configured share of guards.\<close>

record 'pt shard_env =
  sh_ossl :: "'pt openssl"
  sh_LOOKUP_NODE_MODE :: bool
  COMM_SIZE :: "32 word"
  MAX_SHARD_NODE_NUM :: "32 word"
  SHARD_SIZE_TOLERANCE_LO :: "32 word"
  SHARD_SIZE_TOLERANCE_HI :: "32 word"
  sh_GUARD_MODE :: bool
  sh_guardShare :: "32 word \<Rightarrow> 32 word"
  IsNodeInShardGuardList :: "'pt PubKey \<Rightarrow> bool"
  sh_currentEpochNum :: "64 word"
  sh_lastTxBlockHash :: bytes

section \<open>Sizes of shards\<close>

definition shard_range :: "32 word list" where
  "shard_range = [0, 651, 1368, 2133, 2868, 3675, 4464, 5229, 6024, 6858, 7710, 8580, 9468, 10335, 11130, 11925, 12720, 13515,
     14364, 15390, 16200, 17010, 17820, 18768, 19584, 20400, - 1]"

definition shard_result :: "32 word list" where
  "shard_result = [0, 651, 651, 684, 711, 717, 735, 744, 747, 753, 762, 771, 780, 789, 795, 795, 795, 795, 795, 798, 810, 810, 810,
     810, 816, 816, 819]"

text \<open>\<open>upper_bound\<close> gives the first entry of the ascending table that is larger.\<close>

definition CalculateShardSize :: "32 word \<Rightarrow> 32 word" where
  "CalculateShardSize numberOfNodes =
     (if numberOfNodes \<ge> 21294 then 819
      else shard_result ! length (takeWhile (\<lambda>r. r \<le> numberOfNodes) shard_range))"

fun distribute :: "32 word \<Rightarrow> 32 word list \<Rightarrow> 32 word \<Rightarrow> 32 word list" where
  "distribute threshold_hi [] numUnshardedNodes = []"
| "distribute threshold_hi (shardCount # shardCounts) numUnshardedNodes =
     (let nodesToAdd = min (threshold_hi - shardCount) numUnshardedNodes;
          rest = numUnshardedNodes - nodesToAdd
      in (shardCount + nodesToAdd) # (if rest = 0 then shardCounts else distribute threshold_hi shardCounts rest))"

definition GenerateShardCounts :: "32 word \<Rightarrow> 32 word \<Rightarrow> 32 word \<Rightarrow> 32 word \<Rightarrow> 32 word list \<Rightarrow> 32 word list option" where
  "GenerateShardCounts shardSize shardSizeToleranceLo shardSizeToleranceHi numNodesForSharding shardCounts =
     (let shard_threshold_lo = shardSize - shardSizeToleranceLo;
          shard_threshold_hi = shardSize + shardSizeToleranceHi
      in if numNodesForSharding < shard_threshold_lo then Some shardCounts
         else if shardSize = 0 then None
         else let numOfCompleteShards = numNodesForSharding div shardSize;
                  counts = (if numOfCompleteShards = 0 then [0] else replicate (unat numOfCompleteShards) shardSize);
                  numUnshardedNodes = numNodesForSharding - numOfCompleteShards * shardSize
              in Some (if numUnshardedNodes = numNodesForSharding then counts[0 := numUnshardedNodes]
                       else if numUnshardedNodes < shard_threshold_lo \<and> shard_threshold_hi > 0
                       then distribute shard_threshold_hi counts numUnshardedNodes
                       else counts @ [numUnshardedNodes]))"

definition GetTrimmedShardCount :: "32 word \<Rightarrow> 32 word \<Rightarrow> 32 word \<Rightarrow> 32 word \<Rightarrow> 32 word option" where
  "GetTrimmedShardCount shardSize shardSizeToleranceLo shardSizeToleranceHi numNodesForSharding = do {
     shardCounts \<leftarrow> GenerateShardCounts shardSize shardSizeToleranceLo shardSizeToleranceHi numNodesForSharding [];
     Some (if shardCounts = [] then numNodesForSharding else foldl (+) 0 shardCounts) }"

definition GetShardSize :: "'pt shard_env \<Rightarrow> bool \<Rightarrow> 'pt DirectoryService \<Rightarrow> 32 word" where
  "GetShardSize E useShardStructure D =
     (if COMM_SIZE E > 0 then COMM_SIZE E
      else CalculateShardSize
        (if useShardStructure then foldl (\<lambda>n shard. n + of_nat (length shard)) 0 (m_shards D) else of_nat (length (m_allPoWs D))))"

section \<open>Sorting the solutions\<close>

definition sort_by_result :: "'pt MapOfPubKeyPoW \<Rightarrow> 'pt VectorOfPoWSoln" where
  "sort_by_result mapOfPoWs = foldl (\<lambda>m p. map_put (<) (pow_result (snd p)) (fst p) m) [] mapOfPoWs"

definition map_emplace :: "('k \<Rightarrow> 'k \<Rightarrow> bool) \<Rightarrow> 'k \<Rightarrow> 'v \<Rightarrow> ('k \<times> 'v) list \<Rightarrow> ('k \<times> 'v) list" where
  "map_emplace lt k v m = (if map_of m k = None then map_put lt k v m else m)"

text \<open>With guards, up to their share of the places is given to guards first and the rest goes to whoever is next, guards that
  found the share exhausted included.\<close>

fun pick_guards :: "('pt PubKey \<Rightarrow> bool) \<Rightarrow> nat \<Rightarrow> nat \<Rightarrow> nat \<Rightarrow> 'pt VectorOfPoWSoln \<Rightarrow> 'pt VectorOfPoWSoln \<Rightarrow> 'pt VectorOfPoWSoln
    \<Rightarrow> nat \<times> 'pt VectorOfPoWSoln \<times> 'pt VectorOfPoWSoln" where
  "pick_guards guard limit share n [] filtered shadow = (n, filtered, shadow)"
| "pick_guards guard limit share n (kv # kvs) filtered shadow =
     (if \<not> n < limit then (n, filtered, shadow)
      else if \<not> guard (snd kv) then pick_guards guard limit share n kvs filtered shadow
      else if n = share then (n, filtered, shadow)
      else pick_guards guard limit share (n + 1) kvs (map_emplace (<) (fst kv) (snd kv) filtered) (AList.delete (fst kv) shadow))"

definition trim_with_guards :: "'pt shard_env \<Rightarrow> 32 word \<Rightarrow> 'pt VectorOfPoWSoln \<Rightarrow> 'pt VectorOfPoWSoln" where
  "trim_with_guards E numNodesAfterTrim sorter =
     (let share = sh_guardShare E numNodesAfterTrim;
          nonGuard = numNodesAfterTrim - share;
          share' = (if share + nonGuard < numNodesAfterTrim then share + (numNodesAfterTrim - share - nonGuard) else share)
      in case pick_guards (IsNodeInShardGuardList E) (unat numNodesAfterTrim) (unat share') 0 sorter [] sorter of
           (n, filtered, shadow) \<Rightarrow>
             foldl (\<lambda>m kv. map_emplace (<) (fst kv) (snd kv) m) filtered (take (unat numNodesAfterTrim - n) shadow))"

definition SortPoWSoln :: "'pt shard_env \<Rightarrow> 'pt DirectoryService \<Rightarrow> 'pt MapOfPubKeyPoW \<Rightarrow> bool \<Rightarrow> 'pt VectorOfPoWSoln option" where
  "SortPoWSoln E D mapOfPoWs trimBeyondCommSize =
     (let PoWOrderSorter = sort_by_result mapOfPoWs
      in if \<not> trimBeyondCommSize then Some PoWOrderSorter
         else do {
           numNodesAfterTrim \<leftarrow> GetTrimmedShardCount (GetShardSize E False D) (SHARD_SIZE_TOLERANCE_LO E) (SHARD_SIZE_TOLERANCE_HI E)
             (of_nat (length PoWOrderSorter));
           Some (if \<not> sh_GUARD_MODE E then take (unat numNodesAfterTrim) PoWOrderSorter
                 else trim_with_guards E numNodesAfterTrim PoWOrderSorter) })"

section \<open>Filling the shards\<close>

definition sort_hash :: "'pt shard_env \<Rightarrow> bytes \<Rightarrow> bytes" where
  "sort_hash E powHash =
     (let lastBlockHash = (if sh_currentEpochNum E > 1 then sh_lastTxBlockHash E else replicate 32 0)
      in SHA2_Finalize (sh_ossl E) (SHA2_Update SHA2_Reset (lastBlockHash @ powHash)))"

definition sorted_pows :: "'pt shard_env \<Rightarrow> 'pt VectorOfPoWSoln \<Rightarrow> 'pt VectorOfPoWSoln" where
  "sorted_pows E sols = foldl (\<lambda>m kv. map_emplace (<) (sort_hash E (fst kv)) (snd kv) m) [] sols"

definition place_node :: "'pt shard_env \<Rightarrow> nat \<Rightarrow> 'pt PubKey \<Rightarrow> 'pt DirectoryService \<Rightarrow> 'pt DirectoryService option" where
  "place_node E shard_index key D = do {
     shard \<leftarrow> vec_at (m_shards D) shard_index;
     peer \<leftarrow> map_of (m_allPoWConns D) key;
     let rep = (case map_of (ds_mapNodeReputation D) key of None \<Rightarrow> 0 | Some r \<Rightarrow> r);
     Some (D\<lparr>m_shards := (m_shards D)[shard_index := shard @ [(key, peer, rep)]],
             ds_mapNodeReputation := map_emplace (PubKey_less (sh_ossl E)) key 0 (ds_mapNodeReputation D),
             m_publicKeyToshardIdMap := map_emplace (PubKey_less (sh_ossl E)) key (of_nat shard_index) (m_publicKeyToshardIdMap D)\<rparr>) }"

fun fill_shards :: "'pt shard_env \<Rightarrow> 'pt VectorOfPoWSoln \<Rightarrow> nat \<Rightarrow> 32 word list \<Rightarrow> 'pt DirectoryService \<Rightarrow> 'pt DirectoryService option" where
  "fill_shards E [] shard_index shardCounts D = Some D"
| "fill_shards E (kv # sortedPoWs) shard_index shardCounts D = do {
     here \<leftarrow> vec_at shardCounts shard_index;
     let index = (if here = 0 then shard_index + 1 else shard_index);
     if here = 0 \<and> index = length shardCounts then Some D
     else do {
       D1 \<leftarrow> place_node E index (snd kv) D;
       left \<leftarrow> vec_at shardCounts index;
       fill_shards E sortedPoWs index (shardCounts[index := left - 1]) D1 } }"

definition ComputeSharding :: "'pt shard_env \<Rightarrow> 'pt VectorOfPoWSoln \<Rightarrow> 'pt DirectoryService \<Rightarrow> 'pt DirectoryService option" where
  "ComputeSharding E sortedPoWSolns D =
     (if sh_LOOKUP_NODE_MODE E then Some D
      else do {
        let D1 = D\<lparr>m_shards := [], m_publicKeyToshardIdMap := []\<rparr>;
        let numNodesForSharding = (if length sortedPoWSolns > unat (MAX_SHARD_NODE_NUM E) then MAX_SHARD_NODE_NUM E
                                   else of_nat (length sortedPoWSolns));
        shardCounts \<leftarrow> GenerateShardCounts (GetShardSize E False D1) (SHARD_SIZE_TOLERANCE_LO E) (SHARD_SIZE_TOLERANCE_HI E)
          numNodesForSharding [];
        if shardCounts = [] then Some D1
        else fill_shards E (sorted_pows E sortedPoWSolns) 0 shardCounts (D1\<lparr>m_shards := replicate (length shardCounts) []\<rparr>) })"

section \<open>Difficulty\<close>

text \<open>The configured boundaries, and \<open>SafeMath\<close> for 64-bit signed numbers, which is a parameter: \<open>None\<close> when it refuses.\<close>

record difficulty_env =
  SafeMath_sub64 :: "int \<Rightarrow> int \<Rightarrow> int option"
  SafeMath_div64 :: "int \<Rightarrow> int \<Rightarrow> int option"
  POW_BOUNDARY_N_DIVIDED_START :: "32 word"
  POW_BOUNDARY_N_DIVIDED :: "32 word"
  EXPECTED_SHARD_NODE_NUM :: "32 word"
  NUM_DS_ELECTION :: "32 word"
  POW_DIFFICULTY :: "32 word"
  DS_POW_DIFFICULTY :: "32 word"
  POW_CHANGE_TO_ADJ_DIFF :: "32 word"
  POW_CHANGE_TO_ADJ_DS_DIFF :: "32 word"

text \<open>The step and the lower limit are narrowed to 8 bits; the sum of two 8-bit numbers fits 16 bits; the result is narrowed to 8
  bits, where a negative number wraps around.\<close>

definition max_adjust_step :: "difficulty_env \<Rightarrow> 8 word \<Rightarrow> int" where
  "max_adjust_step V currentDifficulty =
     (if ucast currentDifficulty \<ge> POW_BOUNDARY_N_DIVIDED_START V then sint (ucast (POW_BOUNDARY_N_DIVIDED V) :: 8 word) else 2)"

definition CalculateNewDifficultyCore :: "difficulty_env \<Rightarrow> 8 word \<Rightarrow> 8 word \<Rightarrow> int \<Rightarrow> int \<Rightarrow> 32 word \<Rightarrow> 8 word" where
  "CalculateNewDifficultyCore V currentDifficulty minDifficulty powSubmissions expectedNodes powChangeoAdj =
     (let lowest = (if ucast currentDifficulty \<ge> POW_BOUNDARY_N_DIVIDED_START V
                    then ucast (POW_BOUNDARY_N_DIVIDED_START V - 2) else minDifficulty);
          step = max_adjust_step V currentDifficulty;
          submissionsDiff = (case SafeMath_sub64 V powSubmissions expectedNodes of None \<Rightarrow> 0 | Some d \<Rightarrow> d);
          adjustment = (if expectedNodes > 0 \<and> expectedNodes \<noteq> powSubmissions
                        then (case SafeMath_div64 V submissionsDiff (uint powChangeoAdj) of None \<Rightarrow> 0 | Some a \<Rightarrow> a) else 0);
          restricted = (if adjustment > step then step else if adjustment < - step then - step else adjustment);
          newDifficulty = min (restricted + uint currentDifficulty) 255
      in max (word_of_int newDifficulty) lowest)"

definition CalculateNewDifficulty :: "difficulty_env \<Rightarrow> 8 word \<Rightarrow> 'pt DirectoryService \<Rightarrow> 8 word" where
  "CalculateNewDifficulty V currentDifficulty D =
     CalculateNewDifficultyCore V currentDifficulty (ucast (POW_DIFFICULTY V)) (int (length (m_allPoWs D)))
       (uint (EXPECTED_SHARD_NODE_NUM V)) (POW_CHANGE_TO_ADJ_DIFF V)"

definition CalculateNewDSDifficulty :: "difficulty_env \<Rightarrow> 8 word \<Rightarrow> 'pt DirectoryService \<Rightarrow> 8 word" where
  "CalculateNewDSDifficulty V dsDifficulty D =
     CalculateNewDifficultyCore V dsDifficulty (ucast (DS_POW_DIFFICULTY V)) (uint (of_nat (length (m_allDSPoWs D)) :: 32 word))
       (uint (NUM_DS_ELECTION V)) (POW_CHANGE_TO_ADJ_DS_DIFF V)"

definition VerifyDifficulty :: "difficulty_env \<Rightarrow> 32 word \<Rightarrow> 8 word \<times> 8 word \<Rightarrow> 8 word \<times> 8 word \<Rightarrow> 'pt DirectoryService \<Rightarrow> bool" where
  "VerifyDifficulty V DIFFICULTY_DIFF_TOL pending lastBlock D =
     (let localDS = CalculateNewDSDifficulty V (fst lastBlock) D; local = CalculateNewDifficulty V (snd lastBlock) D
      in \<not> ucast (max (fst pending) localDS - min (fst pending) localDS) > DIFFICULTY_DIFF_TOL
         \<and> \<not> ucast (max (snd pending) local - min (snd pending) local) > DIFFICULTY_DIFF_TOL)"

section \<open>The shard counts\<close>

lemma CalculateShardSize_bounds: "651 \<le> CalculateShardSize n \<and> CalculateShardSize n \<le> 819"
proof (cases "n \<ge> 21294")
  case False
  let ?k = "length (takeWhile (\<lambda>r. r \<le> n) shard_range)"
  have "0 < ?k" by (simp add: shard_range_def)
  moreover have "?k < 27"
  proof (rule ccontr)
    assume "\<not> ?k < 27"
    then have "takeWhile (\<lambda>r. r \<le> n) shard_range = shard_range"
      using takeWhile_eq_take [of "\<lambda>r. r \<le> n" shard_range] by (simp add: shard_range_def)
    then have "(- 1 :: 32 word) \<le> n" by (metis (no_types, lifting) last_in_set last.simps list.distinct(1) shard_range_def set_takeWhileD last_ConsR)
    then show False using False by (simp add: word_order.extremum_unique)
  qed
  ultimately have k: "?k - 1 < length (tl shard_result)" "Suc (?k - 1) = ?k" by (simp_all add: shard_result_def)
  have "shard_result ! ?k = tl shard_result ! (?k - 1)" using k by (simp add: nth_tl)
  then have "shard_result ! ?k \<in> set (tl shard_result)" using nth_mem [OF k(1)] by metis
  moreover have "\<forall>r \<in> set (tl shard_result). 651 \<le> r \<and> r \<le> 819" by (simp add: shard_result_def)
  ultimately show ?thesis using False by (auto simp: CalculateShardSize_def)
qed (simp add: CalculateShardSize_def)

lemma distribute_result:
  fixes hi :: "32 word"
  assumes "\<forall>c \<in> set cs. lo \<le> c \<and> c \<le> hi"
  shows "length (distribute hi cs r) = length cs \<and> (\<forall>c \<in> set (distribute hi cs r). lo \<le> c \<and> c \<le> hi)
    \<and> sum_list (map unat (distribute hi cs r)) \<le> sum_list (map unat cs) + unat r
    \<and> (sum_list (map unat (distribute hi cs r)) = sum_list (map unat cs) + unat r \<or> (\<forall>c \<in> set (distribute hi cs r). c = hi))"
  using assms
proof (induction cs arbitrary: r)
  case (Cons c cs)
  let ?a = "min (hi - c) r"
  have c: "lo \<le> c" "c \<le> hi" using Cons.prems by auto
  have a: "unat (c + ?a) = unat c + unat ?a" "unat (r - ?a) = unat r - unat ?a" "unat ?a \<le> unat r" "c + ?a \<le> hi" "c \<le> c + ?a"
    using c(2) by (simp_all add: min_def) (unat_arith+)?
  show ?case
  proof (cases "r - ?a = 0")
    case True
    then have "unat ?a = unat r" by simp
    then show ?thesis using True a c Cons.prems by (auto simp: Let_def)
  next
    case False
    then have "c + ?a = hi" by (auto simp: min_def split: if_splits)
    moreover have "\<forall>c \<in> set cs. lo \<le> c \<and> c \<le> hi" using Cons.prems by simp
    note IH = Cons.IH [OF this, of "r - ?a"]
    moreover have "unat (c + ?a) + sum_list (map unat (distribute hi cs (r - ?a))) \<le> unat c + sum_list (map unat cs) + unat r"
      using IH a(1-3) by linarith
    moreover have "unat (c + ?a) + sum_list (map unat (distribute hi cs (r - ?a))) = unat c + sum_list (map unat cs) + unat r
        \<or> (\<forall>c \<in> set (distribute hi cs (r - ?a)). c = hi)"
      using IH a(1-3) by linarith
    ultimately show ?thesis using False c by (auto simp: Let_def)
  qed
qed simp

text \<open>What the counts are for: \<open>counts_fit\<close> says that they lie between the thresholds and lose nodes only when all are full.\<close>

definition counts_fit :: "32 word \<Rightarrow> 32 word \<Rightarrow> nat \<Rightarrow> 32 word list \<Rightarrow> bool" where
  "counts_fit lo hi n counts \<longleftrightarrow>
     counts \<noteq> [] \<and> (\<forall>c \<in> set counts. lo \<le> c \<and> c \<le> hi) \<and> sum_list (map unat counts) \<le> n
     \<and> (sum_list (map unat counts) = n \<or> (\<forall>c \<in> set counts. c = hi))"

lemma tolerances:
  fixes s tlo thi :: "32 word"
  assumes "tlo < s" "unat s + unat thi < 2 ^ 32"
  shows "unat (s - tlo) = unat s - unat tlo" "unat (s + thi) = unat s + unat thi" "0 < s" "s - tlo \<le> s" "s \<le> s + thi" "0 < s - tlo"
  using assms by (simp_all add: word_le_nat_alt word_less_nat_alt unat_sub_if_size unat_word_ariths size_word.rep_eq) (auto)?

lemma GenerateShardCounts_fit:
  assumes "tlo < s" "unat s + unat thi < 2 ^ 32" "s - tlo \<le> n"
  shows "\<exists>counts. GenerateShardCounts s tlo thi n cs = Some counts \<and> counts_fit (s - tlo) (s + thi) (unat n) counts
    \<and> (n < s \<longrightarrow> counts = [n])
    \<and> (s \<le> n \<longrightarrow> unat n mod unat s < unat (s - tlo) \<longrightarrow> counts = distribute (s + thi) (replicate (unat n div unat s) s) (of_nat (unat n mod unat s)))
    \<and> (s \<le> n \<longrightarrow> unat (s - tlo) \<le> unat n mod unat s \<longrightarrow> counts = replicate (unat n div unat s) s @ [of_nat (unat n mod unat s)])"
proof -
  note t = tolerances [OF assms(1,2)]
  let ?full = "n div s" and ?rest = "n - n div s * s"
  have full: "unat ?full = unat n div unat s" by (simp add: unat_div)
  have rest: "?rest = n mod s" by (simp add: minus_div_mult_eq_mod)
  have urest: "unat (n mod s) = unat n mod unat s" by (simp add: unat_mod)
  then have mod: "(of_nat (unat n mod unat s) :: 32 word) = n mod s" unfolding urest [symmetric] by simp
  have run: "GenerateShardCounts s tlo thi n cs = Some (if ?rest = n then (if ?full = 0 then [0] else replicate (unat ?full) s)[0 := ?rest]
      else if ?rest < s - tlo \<and> s + thi > 0 then distribute (s + thi) (if ?full = 0 then [0] else replicate (unat ?full) s) ?rest
      else (if ?full = 0 then [0] else replicate (unat ?full) s) @ [?rest])"
  proof -
    have "\<not> n < s - tlo" "s \<noteq> 0" using assms(3) t(3) by auto
    then show ?thesis unfolding GenerateShardCounts_def Let_def by presburger
  qed
  show ?thesis
  proof (cases "n < s")
    case True
    then have "?full = 0" "?rest = n" by (simp_all add: word_less_nat_alt word_arith_nat_div)
    then show ?thesis using run True assms(3) t by (auto simp: counts_fit_def)
  next
    case False
    then have less: "unat s \<le> unat n" "s \<le> n" by (simp_all add: word_less_nat_alt word_le_nat_alt)
    then have "0 < unat ?full" using t(3) by (simp add: full div_greater_zero_iff word_less_nat_alt)
    moreover then have "?full \<noteq> 0" by auto
    moreover have "?rest \<noteq> n"
    proof
      assume "?rest = n"
      then have "unat n mod unat s = unat n" using urest rest by simp
      then show False using less t(3) mod_less_divisor [of "unat s" "unat n"] by (simp add: word_less_nat_alt)
    qed
    ultimately have run': "GenerateShardCounts s tlo thi n cs = Some (if n mod s < s - tlo
        then distribute (s + thi) (replicate (unat n div unat s) s) (n mod s) else replicate (unat n div unat s) s @ [n mod s])"
      using run less_le_trans [OF t(3,5)] by (simp add: rest full)
    have sum: "sum_list (map unat (replicate (unat n div unat s) s)) + unat n mod unat s = unat n"
      by (simp add: sum_list_replicate)
    have some: "0 < unat n div unat s" using \<open>0 < unat ?full\<close> full by simp
    show ?thesis
    proof (cases "n mod s < s - tlo")
      case short: True
      have "\<forall>c \<in> set (replicate (unat n div unat s) s). s - tlo \<le> c \<and> c \<le> s + thi" using t by simp
      note d = distribute_result [OF this, of "n mod s"]
      then have "distribute (s + thi) (replicate (unat n div unat s) s) (n mod s) \<noteq> []" using some by (metis length_0_conv length_replicate not_less0)
      then have "counts_fit (s - tlo) (s + thi) (unat n) (distribute (s + thi) (replicate (unat n div unat s) s) (n mod s))"
        using d sum by (auto simp: counts_fit_def urest)
      then show ?thesis using run' short False urest less mod by (auto simp: word_less_nat_alt)
    next
      case long: False
      have "n mod s < s" using t(3) by (simp add: word_mod_less_divisor)
      then have "counts_fit (s - tlo) (s + thi) (unat n) (replicate (unat n div unat s) s @ [n mod s])"
        using sum long t some by (auto simp: counts_fit_def urest)
      then show ?thesis using run' long False urest less mod by (auto simp: word_less_nat_alt)
    qed
  qed
qed

lemma unat_foldl_counts:
  assumes "sum_list (map unat counts) < 2 ^ 32"
  shows "unat (foldl (+) 0 counts :: 32 word) = sum_list (map unat counts)"
proof -
  have "unat (foldl (+) a counts :: 32 word) = unat a + sum_list (map unat counts)" if "unat a + sum_list (map unat counts) < 2 ^ 32" for a
    using that by (induction counts arbitrary: a) (simp_all add: unat_word_ariths add.assoc)
  from this [of 0] show ?thesis using assms by simp
qed

lemma unat_of_nat32: "n < 2 ^ 32 \<Longrightarrow> unat (of_nat n :: 32 word) = n"
  by (simp add: unat_of_nat)

lemma distribute_full:
  fixes s thi :: "32 word"
  assumes "unat s + unat thi < 2 ^ 32" "k * unat thi < 2 ^ 32"
  shows "distribute (s + thi) (replicate k s) (of_nat (k * unat thi)) = replicate k (s + thi)"
  using assms(2)
proof (induction k)
  case (Suc k)
  have more: "(of_nat (Suc k * unat thi) :: 32 word) - thi = of_nat (k * unat thi)" by simp
  have "unat (of_nat (Suc k * unat thi) :: 32 word) = Suc k * unat thi" by (rule unat_of_nat32 [OF Suc.prems])
  then have "thi \<le> of_nat (Suc k * unat thi)" by (simp add: word_le_nat_alt)
  then have add: "min (s + thi - s) (of_nat (Suc k * unat thi)) = thi" by (simp add: min_def)
  have "replicate k s = replicate k (s + thi)" if "(of_nat (k * unat thi) :: 32 word) = 0"
  proof -
    have "unat (of_nat (k * unat thi) :: 32 word) = k * unat thi" by (rule unat_of_nat32) (use Suc.prems in simp)
    then have "k * unat thi = 0" using that by (metis unat_0)
    then show ?thesis by (auto simp: unat_eq_0)
  qed
  moreover have "distribute (s + thi) (replicate k s) (of_nat (k * unat thi)) = replicate k (s + thi)" using Suc by simp
  ultimately show ?case unfolding replicate_Suc distribute.simps Let_def add more by simp
qed simp

lemma counts_after_trim:
  assumes "tlo < s" "unat s + unat thi < 2 ^ 32" "s - tlo \<le> n"
    and "GenerateShardCounts s tlo thi n cs = Some counts" "GetTrimmedShardCount s tlo thi n = Some m"
  shows "unat m = sum_list (map unat counts) \<and> GenerateShardCounts s tlo thi m cs' = Some counts"
proof -
  note t = tolerances [OF assms(1,2)] and r = GenerateShardCounts_fit [OF assms(1-3)]
  obtain cs0 where c0: "GenerateShardCounts s tlo thi n [] = Some cs0" "m = (if cs0 = [] then n else foldl (+) 0 cs0)"
    using assms(5) by (auto simp: GetTrimmedShardCount_def split: bind_splits)
  have any: "GenerateShardCounts s tlo thi n x = GenerateShardCounts s tlo thi n y" for x y
    using assms(3) by (simp add: GenerateShardCounts_def Let_def not_less [symmetric])
  have r: "counts_fit (s - tlo) (s + thi) (unat n) counts" "n < s \<longrightarrow> counts = [n]"
      "s \<le> n \<longrightarrow> unat n mod unat s < unat (s - tlo)
        \<longrightarrow> counts = distribute (s + thi) (replicate (unat n div unat s) s) (of_nat (unat n mod unat s))"
      "s \<le> n \<longrightarrow> unat (s - tlo) \<le> unat n mod unat s \<longrightarrow> counts = replicate (unat n div unat s) s @ [of_nat (unat n mod unat s)]"
    using r [of cs] unfolding assms(4) by simp_all
  have "cs0 = counts" using any c0(1) assms(4) by (metis option.inject)
  moreover have fit: "counts_fit (s - tlo) (s + thi) (unat n) counts" by (rule r(1))
  ultimately have m: "unat m = sum_list (map unat counts)"
    using c0(2) unat_foldl_counts [of counts] unat_bound [of n] by (simp add: counts_fit_def)
  show ?thesis
  proof (cases "sum_list (map unat counts) = unat n")
    case True
    then have "m = n" using m by (simp add: word_unat_eq_iff)
    then show ?thesis using m any assms(4) by metis
  next
    case False
    let ?k = "unat n div unat s" and ?r = "unat n mod unat s"
    have s: "0 < unat s" using t(3) by (simp add: word_less_nat_alt)
    have "\<not> n < s" using r(2) False by auto
    then have big: "s \<le> n" by simp
    have short: "?r < unat (s - tlo)"
    proof (rule ccontr)
      assume "\<not> ?r < unat (s - tlo)"
      then have "counts = replicate ?k s @ [of_nat ?r]" using r(4) big by auto
      moreover have "unat (of_nat ?r :: 32 word) = ?r" by (rule unat_of_nat32, rule le_less_trans [OF mod_less_eq_dividend]) (use unat_bound [of n] in simp)
      ultimately show False using False by (simp add: sum_list_replicate)
    qed
    then have counts: "counts = distribute (s + thi) (replicate ?k s) (of_nat ?r)" using r(3) big short by blast
    have "\<forall>c \<in> set (replicate ?k s). s - tlo \<le> c \<and> c \<le> s + thi" using t by simp
    from distribute_result [OF this, of "of_nat ?r"] counts have "length counts = ?k" by simp
    moreover have all: "\<forall>c \<in> set counts. c = s + thi" using fit False by (auto simp: counts_fit_def)
    ultimately have full: "counts = replicate ?k (s + thi)" by (metis replicate_length_same)
    then have sum: "unat m = ?k * unat s + ?k * unat thi" using m t(2) by (simp add: sum_list_replicate add_mult_distrib2)
    moreover have "unat m < unat n" using m False fit by (simp add: counts_fit_def)
    moreover have "?k * unat s + ?r = unat n" by simp
    ultimately have less: "?k * unat thi < ?r" by linarith
    have "?k * unat thi < unat s" using less mod_less_divisor [OF s, of "unat n"] by (rule less_trans)
    then have div: "unat m div unat s = ?k" "unat m mod unat s = ?k * unat thi" using sum by simp_all
    have k: "0 < ?k" using fit full by (auto simp: counts_fit_def)
    have le: "unat s \<le> unat m" using k sum by (metis mult_le_mono1 One_nat_def Suc_leI trans_le_add1 mult_1)
    then have lo: "s - tlo \<le> m" "s \<le> m" using t(4) by (simp_all add: word_le_nat_alt)
    have "GenerateShardCounts s tlo thi m cs' = Some (distribute (s + thi) (replicate ?k s) (of_nat (?k * unat thi)))"
      using GenerateShardCounts_fit [OF assms(1,2) lo(1), of cs'] lo(2) less_trans [OF less short] unfolding div by (elim exE) simp
    also have "distribute (s + thi) (replicate ?k s) (of_nat (?k * unat thi)) = counts"
      using distribute_full [OF assms(2), of ?k] full less_trans [OF less le_less_trans [OF mod_less_eq_dividend unat_bound]] by simp
    finally show ?thesis using m by simp
  qed
qed

section \<open>The shards\<close>

lemma map_emplace_keys:
  "map_of (map_emplace lt k v m) = (if map_of m k = None then (map_of m)(k \<mapsto> v) else map_of m)"
  by (simp add: map_emplace_def)

lemma sorted_pows_keys:
  assumes "inj_on (\<lambda>kv. sort_hash E (fst kv)) (set sols)"
  shows "set (map snd (sorted_pows E sols)) = snd ` set sols \<and> length (sorted_pows E sols) = card (set sols)
    \<and> sorted_wrt (<) (map fst (sorted_pows E sols))"
proof -
  define step where "step = (\<lambda>m (kv :: bytes \<times> 'a PubKey). map_emplace (<) (sort_hash E (fst kv)) (snd kv) m)"
  have "sorted_wrt (<) (map fst (foldl step m xs)) \<and> set (foldl step m xs) = set m \<union> (\<lambda>kv. (sort_hash E (fst kv), snd kv)) ` set xs"
    if "sorted_wrt (<) (map fst m)" "inj_on (\<lambda>kv. sort_hash E (fst kv)) (set xs \<union> set ys)" "set m = (\<lambda>kv. (sort_hash E (fst kv), snd kv)) ` set ys" for m xs ys
    using that
  proof (induction xs arbitrary: m ys)
    case (Cons x xs)
    let ?e = "(sort_hash E (fst x), snd x)"
    have "sorted_wrt (<) (map fst (step m x)) \<and> set (step m x) = insert ?e (set m)"
    proof (cases "map_of m (fst ?e) = None")
      case True
      then have "fst ?e \<notin> fst ` set m" by (simp add: map_of_eq_None_iff)
      then have "set (map_put (<) (fst ?e) (snd ?e) m) = insert ?e (set m)" by (induction m) auto
      moreover have "sorted_wrt (<) (map fst (map_put (<) (fst ?e) (snd ?e) m))" by (rule sorted_map_put [OF _ _ Cons.prems(1)]) auto
      ultimately show ?thesis using True by (simp add: step_def map_emplace_def)
    next
      case False
      then obtain y where y: "y \<in> set ys" "sort_hash E (fst y) = sort_hash E (fst x)"
        using Cons.prems(3) by (auto simp: map_of_eq_None_iff)
      then have "y = x" by (intro inj_onD [OF Cons.prems(2)]) auto
      then have "?e \<in> set m" using y Cons.prems(3) by auto
      then show ?thesis using False Cons.prems(1) by (auto simp: step_def map_emplace_def)
    qed
    then show ?case using Cons.IH [of "step m x" "x # ys"] Cons.prems by auto
  qed simp
  from this [of "[]" sols "[]"] assms have r: "sorted_wrt (<) (map fst (sorted_pows E sols))"
      "set (sorted_pows E sols) = (\<lambda>kv. (sort_hash E (fst kv), snd kv)) ` set sols"
    by (simp_all add: sorted_pows_def step_def)
  from r(1) have "distinct (map fst (sorted_pows E sols))" unfolding strict_sorted_iff by blast
  then have "distinct (sorted_pows E sols)" using distinct_map by blast
  then have "length (sorted_pows E sols) = card (set (sorted_pows E sols))" by (simp add: distinct_card)
  also have "\<dots> = card (set sols)" unfolding r(2)
    by (rule card_image, rule inj_onI, rule inj_onD [OF assms]) simp_all
  finally have "length (sorted_pows E sols) = card (set sols)" .
  moreover have "set (map snd (sorted_pows E sols)) = snd ` set sols" by (simp add: r(2) image_image)
  ultimately show ?thesis using r(1) by blast
qed

text \<open>The state of the filling: \<open>placed\<close> are the keys placed so far, in order; a shard and its remaining count make up its size.\<close>

definition filling :: "'pt shard_env \<Rightarrow> 32 word list \<Rightarrow> 'pt DirectoryService \<Rightarrow> 'pt PubKey list \<Rightarrow> nat \<Rightarrow> 32 word list \<Rightarrow> 'pt DirectoryService \<Rightarrow> bool" where
  "filling E counts D placed shard_index left D' \<longleftrightarrow>
     length left = length counts \<and> length (m_shards D') = length counts \<and> shard_index < length counts
     \<and> (\<forall>i < length counts. length (m_shards D' ! i) + unat (left ! i) = unat (counts ! i))
     \<and> (\<forall>i < shard_index. left ! i = 0) \<and> (\<forall>i. shard_index < i \<longrightarrow> i < length counts \<longrightarrow> m_shards D' ! i = [])
     \<and> map fst (concat (m_shards D')) = placed
     \<and> m_allPoWConns D' = m_allPoWConns D
     \<and> (\<forall>node \<in> set (concat (m_shards D')). map_of (m_allPoWConns D) (fst node) = Some (fst (snd node)))
     \<and> (\<forall>key i. map_of (m_publicKeyToshardIdMap D') key = Some i \<longleftrightarrow>
          unat i < length counts \<and> key \<in> fst ` set (m_shards D' ! unat i))"

lemma concat_update:
  assumes "i < length xs" "\<forall>j. i < j \<longrightarrow> j < length xs \<longrightarrow> xs ! j = []"
  shows "concat (xs[i := xs ! i @ [x]]) = concat xs @ [x]"
proof -
  have "\<forall>ys \<in> set (drop (Suc i) xs). ys = []" using assms(2) by (auto simp: in_set_conv_nth)
  then have rest: "concat (drop (Suc i) xs) = []" by simp
  have "concat xs = concat (take i xs @ xs ! i # drop (Suc i) xs)" using id_take_nth_drop [OF assms(1)] by metis
  then show ?thesis using rest assms(1) by (simp add: upd_conv_take_nth_drop)
qed

lemma place_node_fills:
  assumes "filling E counts D placed i left D'" "0 < left ! i" "key \<notin> set placed" "map_of (m_allPoWConns D) key \<noteq> None"
    "length counts < 2 ^ 32"
  shows "\<exists>D''. place_node E i key D' = Some D'' \<and> filling E counts D (placed @ [key]) i (left[i := left ! i - 1]) D''"
proof -
  note f = assms(1) [unfolded filling_def]
  obtain peer where peer: "map_of (m_allPoWConns D) key = Some peer" using assms(4) by auto
  define rep where "rep = (case map_of (ds_mapNodeReputation D') key of None \<Rightarrow> 0 | Some r \<Rightarrow> r)"
  let ?node = "(key, peer, rep)" and ?S = "m_shards D'"
  let ?D = "D'\<lparr>m_shards := ?S[i := ?S ! i @ [?node]],
     ds_mapNodeReputation := map_emplace (PubKey_less (sh_ossl E)) key 0 (ds_mapNodeReputation D'),
     m_publicKeyToshardIdMap := map_emplace (PubKey_less (sh_ossl E)) key (of_nat i) (m_publicKeyToshardIdMap D')\<rparr>"
  have i: "i < length ?S" "unat (of_nat i :: 32 word) = i" using f assms(5) by (simp_all add: unat_of_nat32)
  have place: "place_node E i key D' = Some ?D"
    using i f peer by (simp add: place_node_def vec_at_def rep_def Let_def)
  have cat: "concat (?S[i := ?S ! i @ [?node]]) = concat ?S @ [?node]"
    by (rule concat_update) (use f i in auto)
  have fresh: "map_of (m_publicKeyToshardIdMap D') key = None"
  proof (rule ccontr)
    assume "map_of (m_publicKeyToshardIdMap D') key \<noteq> None"
    then obtain j where "map_of (m_publicKeyToshardIdMap D') key = Some j" by blast
    then have "unat j < length counts" "key \<in> fst ` set (?S ! unat j)" using f by simp_all
    moreover have "?S ! unat j \<in> set ?S" using f \<open>unat j < length counts\<close> by simp
    ultimately have "key \<in> set (map fst (concat ?S))" by auto
    then show False using assms(3) f by simp
  qed
  have size: "length ((?S[i := ?S ! i @ [?node]]) ! j) + unat ((left[i := left ! i - 1]) ! j) = unat (counts ! j)" if "j < length counts" for j
  proof -
    have "left ! i \<noteq> 0" using assms(2) by auto
    then have "unat (left ! i - 1) = unat (left ! i) - 1" "0 < unat (left ! i)" by (rule unat_minus_one, simp add: unat_gt_0)
    then show ?thesis using f i that by (cases "j = i") auto
  qed
  have ids: "(map_of (m_publicKeyToshardIdMap ?D) k = Some j) =
      (unat j < length counts \<and> k \<in> fst ` set (m_shards ?D ! unat j))" for k and j :: "32 word"
  proof -
    have "(of_nat i = j) = (unat j = i)" using i(2) by (metis word_unat_eq_iff)
    moreover have old: "(map_of (m_publicKeyToshardIdMap D') k = Some j) = (unat j < length counts \<and> k \<in> fst ` set (?S ! unat j))" for k
      using f by blast
    moreover have "\<not> (unat j < length counts \<and> key \<in> fst ` set (?S ! unat j))" using fresh old [of key] by simp
    moreover have "i < length counts" "length ?S = length counts" using f by simp_all
    ultimately show ?thesis using fresh
      by (cases "k = key"; cases "unat j = i") (auto simp: map_emplace_keys)
  qed
  have "filling E counts D (placed @ [key]) i (left[i := left ! i - 1]) ?D"
    unfolding filling_def
    using f size ids cat peer by simp
  then show ?thesis using place by blast
qed

lemma fill_shards_fills:
  assumes "filling E counts D placed i left D'" "\<forall>c \<in> set counts. 0 < c" "distinct (placed @ map snd kvs)"
    "\<forall>key \<in> snd ` set kvs. map_of (m_allPoWConns D) key \<noteq> None" "length counts < 2 ^ 32"
  shows "\<exists>D'' i' left'. fill_shards E kvs i left D' = Some D''
    \<and> filling E counts D (placed @ take (sum_list (map unat left)) (map snd kvs)) i' left' D''
    \<and> sum_list (map unat left') = sum_list (map unat left) - length kvs"
  using assms(1,3,4)
proof (induction kvs arbitrary: placed i left D')
  case Nil
  then show ?case by auto
next
  case (Cons kv kvs)
  note f = Cons.prems(1) [unfolded filling_def]
  have i: "i < length left" using f by simp
  let ?j = "if left ! i = 0 then i + 1 else i"
  show ?case
  proof (cases "left ! i = 0 \<and> i + 1 = length left")
    case True
    have "left ! j = 0" if "j < length left" for j using f True that by (cases "j = i") auto
    then have "\<forall>c \<in> set left. c = 0" by (auto simp: in_set_conv_nth)
    then have zero: "sum_list (map unat left) = 0" by (auto simp: sum_list_eq_0_iff)
    have "fill_shards E (kv # kvs) i left D' = Some D'" using i True by (simp add: vec_at_def Let_def)
    moreover have "placed @ take (sum_list (map unat left)) (map snd (kv # kvs)) = placed"
        "sum_list (map unat left) = sum_list (map unat left) - length (kv # kvs)"
      unfolding zero by simp_all
    ultimately show ?thesis using Cons.prems(1) by metis
  next
    case False
    then have j: "?j < length left" using i by auto
    have "left ! ?j = counts ! ?j" if "left ! i = 0"
    proof -
      have "m_shards D' ! (i + 1) = []" "length (m_shards D' ! (i + 1)) + unat (left ! (i + 1)) = unat (counts ! (i + 1))"
        using f j that by auto
      then show ?thesis using that by (simp add: word_unat_eq_iff)
    qed
    moreover have "counts ! ?j \<in> set counts" using f j by simp
    ultimately have pos: "0 < left ! ?j" using assms(2) by (cases "left ! i = 0") (auto simp: word_neq_0_conv)
    have "filling E counts D placed ?j left D'"
      unfolding filling_def using f j by (auto simp: less_Suc_eq)
    note step = place_node_fills [OF this pos, of "snd kv"]
    obtain D1 where D1: "place_node E ?j (snd kv) D' = Some D1" "filling E counts D (placed @ [snd kv]) ?j (left[?j := left ! ?j - 1]) D1"
      using step Cons.prems(2,3) assms(5) by auto
    have sum: "sum_list (map unat (left[?j := left ! ?j - 1])) + 1 = sum_list (map unat left)"
    proof -
      have "unat (left ! ?j - 1) = unat (left ! ?j) - 1" "0 < unat (left ! ?j)"
        using pos by (metis unat_minus_one word_not_simps(1) less_irrefl, simp add: unat_gt_0 word_neq_0_conv)
      moreover have "unat (left ! ?j) \<le> sum_list (map unat left)" using j by (metis length_map nth_map elem_le_sum_list)
      ultimately show ?thesis using j by (simp add: map_update sum_list_update)
    qed
    let ?left = "left[?j := left ! ?j - 1]"
    obtain D'' i' left' where rest: "fill_shards E kvs ?j ?left D1 = Some D''"
        "filling E counts D ((placed @ [snd kv]) @ take (sum_list (map unat ?left)) (map snd kvs)) i' left' D''"
        "sum_list (map unat left') = sum_list (map unat ?left) - length kvs"
      using Cons.IH [OF D1(2)] Cons.prems(2,3) by auto
    have "fill_shards E (kv # kvs) i left D' = Some D''"
      using i j D1(1) False rest(1) by (auto simp: vec_at_def Let_def)
    moreover have "(placed @ [snd kv]) @ take (sum_list (map unat ?left)) (map snd kvs)
        = placed @ take (sum_list (map unat left)) (map snd (kv # kvs))"
      unfolding sum [symmetric] by simp
    moreover have "sum_list (map unat left') = sum_list (map unat left) - length (kv # kvs)"
      unfolding rest(3) sum [symmetric] by simp
    ultimately show ?thesis using rest(2) by metis
  qed
qed

section \<open>The difficulty moves in small steps\<close>

lemma difficulty_in_steps:
  assumes "0 \<le> max_adjust_step V cur" "max_adjust_step V cur \<le> uint cur"
  shows "uint cur - max_adjust_step V cur \<le> uint (CalculateNewDifficultyCore V cur lowest subs nodes adj)"
    and "ucast cur < POW_BOUNDARY_N_DIVIDED_START V \<Longrightarrow> lowest \<le> CalculateNewDifficultyCore V cur lowest subs nodes adj
      \<and> uint (CalculateNewDifficultyCore V cur lowest subs nodes adj) \<le> max (uint cur + 2) (uint lowest)"
proof -
  let ?step = "max_adjust_step V cur"
  obtain r low where r: "CalculateNewDifficultyCore V cur lowest subs nodes adj = max (word_of_int (min (r + uint cur) 255)) low"
      "- ?step \<le> r" "r \<le> ?step" "ucast cur < POW_BOUNDARY_N_DIVIDED_START V \<longrightarrow> low = lowest"
    by (rule that, unfold CalculateNewDifficultyCore_def Let_def, rule refl)
      (use assms(1) in \<open>auto simp: not_le [symmetric]\<close>)
  let ?new = "min (r + uint cur) 255"
  have "unat cur < 256" using unat_bound [of cur] by simp
  then have "int (unat cur) \<le> 255" by linarith
  then have "uint cur \<le> 255" unfolding of_nat_unat .
  then have new: "uint (word_of_int ?new :: 8 word) = ?new" "uint cur - ?step \<le> ?new" "?new \<le> uint cur + ?step"
    using r(2,3) assms by (auto simp: uint_word_of_int min_def)
  have mx: "uint (max a b :: 8 word) = max (uint a) (uint b)" for a b by (simp add: max_def word_le_def)
  show "uint cur - ?step \<le> uint (CalculateNewDifficultyCore V cur lowest subs nodes adj)"
    using new unfolding r(1) mx by linarith
  show "lowest \<le> CalculateNewDifficultyCore V cur lowest subs nodes adj
      \<and> uint (CalculateNewDifficultyCore V cur lowest subs nodes adj) \<le> max (uint cur + 2) (uint lowest)"
    if "ucast cur < POW_BOUNDARY_N_DIVIDED_START V"
  proof -
    have "low = lowest" "?step = 2" using r(4) that by (auto simp: max_adjust_step_def not_le [symmetric])
    then show ?thesis using new unfolding word_le_def r(1) mx by auto
  qed
qed

text \<open>From a difficulty of 1 with far too few submissions the sum is negative and the narrowing makes it the largest difficulty.\<close>

lemma difficulty_wraps:
  assumes "SafeMath_sub64 V 0 100 = Some (- 100)" "SafeMath_div64 V (- 100) 10 = Some (- 10)" "POW_BOUNDARY_N_DIVIDED_START V = 32"
  shows "CalculateNewDifficultyCore V 1 0 0 100 10 = 255"
proof -
  have "\<not> (32 :: 32 word) \<le> 1" by (simp add: word_le_nat_alt)
  then show ?thesis using assms by (simp add: CalculateNewDifficultyCore_def max_adjust_step_def Let_def)
qed

text \<open>A backup that saw the same submissions agrees with the difficulties its leader computes.\<close>

lemma own_difficulty_verifies:
  "VerifyDifficulty V tol (CalculateNewDSDifficulty V (fst lastBlock) D, CalculateNewDifficulty V (snd lastBlock) D) lastBlock D"
  by (simp add: VerifyDifficulty_def Let_def)

lemma counts_fit_length: "counts_fit lo hi n counts \<Longrightarrow> 0 < lo \<Longrightarrow> length counts \<le> n"
proof -
  assume fit: "counts_fit lo hi n counts" and lo: "0 < lo"
  have "\<forall>c \<in> set counts. 1 \<le> unat c"
  proof
    fix c assume "c \<in> set counts"
    then have "0 < c" using fit lo by (auto simp: counts_fit_def intro: less_le_trans)
    then show "1 \<le> unat c" by (simp add: Suc_leI word_less_nat_alt)
  qed
  then have "length counts \<le> sum_list (map unat counts)" by (induction counts) auto
  then show ?thesis using fit by (simp add: counts_fit_def)
qed

lemma fill_from_start:
  assumes "length kvs = n" "counts_fit lo hi n counts" "0 < lo" "n < 2 ^ 32" "distinct (map snd kvs)"
    "\<forall>key \<in> snd ` set kvs. map_of (m_allPoWConns D) key \<noteq> None"
    "m_shards D = replicate (length counts) []" "m_publicKeyToshardIdMap D = []"
  shows "\<exists>D'. fill_shards E kvs 0 counts D = Some D' \<and> map length (m_shards D') = map unat counts
    \<and> map fst (concat (m_shards D')) = take (sum_list (map unat counts)) (map snd kvs)
    \<and> (\<forall>node \<in> set (concat (m_shards D')). map_of (m_allPoWConns D) (fst node) = Some (fst (snd node)))
    \<and> (\<forall>key i. map_of (m_publicKeyToshardIdMap D') key = Some i \<longleftrightarrow> unat i < length counts \<and> key \<in> fst ` set (m_shards D' ! unat i))"
proof -
  have start: "filling E counts D [] 0 counts D"
    using assms(2,7,8) by (auto simp: filling_def counts_fit_def)
  have pos: "\<forall>c \<in> set counts. 0 < c" using assms(2,3) by (auto simp: counts_fit_def intro: less_le_trans)
  have len: "length counts < 2 ^ 32" using counts_fit_length [OF assms(2,3)] assms(4) by simp
  obtain D' i' left' where r: "fill_shards E kvs 0 counts D = Some D'"
      "filling E counts D (take (sum_list (map unat counts)) (map snd kvs)) i' left' D'"
      "sum_list (map unat left') = sum_list (map unat counts) - length kvs"
    using fill_shards_fills [OF start pos _ assms(6) len] assms(5) by auto
  have "sum_list (map unat left') = 0" using r(3) assms(1,2) by (simp add: counts_fit_def)
  then have zero: "\<forall>c \<in> set left'. unat c = 0" by (simp add: sum_list_eq_0_iff)
  note f = r(2) [unfolded filling_def]
  have "length (m_shards D' ! i) = unat (counts ! i)" if "i < length counts" for i
  proof -
    have "left' ! i \<in> set left'" using f that by simp
    then have "unat (left' ! i) = 0" using zero by blast
    then show ?thesis using f that by (metis add.right_neutral)
  qed
  then have "map length (m_shards D') = map unat counts" using f by (simp add: list_eq_iff_nth_eq)
  then show ?thesis using r(1) f by auto
qed

section \<open>Properties\<close>

text \<open>C29: the sizes of the shards. With a lower tolerance below the size of a shard and no overflow, enough nodes for one shard are
  always split into shards between the two tolerances; nodes are left over only when every shard is at its upper limit. The
  trimmed number that the solutions are cut to is the number of nodes placed, and splitting that number again gives the same
  shards, so nobody who survives the trimming is left out by the split.\<close>

theorem shard_counts_survive_trimming:
  assumes "tolLo < shardSize" "unat shardSize + unat tolHi < 2 ^ 32" "shardSize - tolLo \<le> n"
  shows "\<exists>counts m. GenerateShardCounts shardSize tolLo tolHi n [] = Some counts \<and> counts \<noteq> []
    \<and> (\<forall>c \<in> set counts. shardSize - tolLo \<le> c \<and> c \<le> shardSize + tolHi)
    \<and> GetTrimmedShardCount shardSize tolLo tolHi n = Some m \<and> unat m = sum_list (map unat counts) \<and> m \<le> n
    \<and> (m = n \<or> (\<forall>c \<in> set counts. c = shardSize + tolHi))
    \<and> GenerateShardCounts shardSize tolLo tolHi m [] = Some counts"
proof -
  obtain counts where c: "GenerateShardCounts shardSize tolLo tolHi n [] = Some counts"
      "counts_fit (shardSize - tolLo) (shardSize + tolHi) (unat n) counts"
    using GenerateShardCounts_fit [OF assms, of "[]"] by blast
  then obtain m where m: "GetTrimmedShardCount shardSize tolLo tolHi n = Some m" by (simp add: GetTrimmedShardCount_def)
  have "unat m = sum_list (map unat counts)" "GenerateShardCounts shardSize tolLo tolHi m [] = Some counts"
    using counts_after_trim [OF assms c(1) m] by auto
  moreover have "m \<le> n" "m = n \<or> (\<forall>c \<in> set counts. c = shardSize + tolHi)"
    using calculation(1) c(2) by (auto simp: counts_fit_def word_le_nat_alt word_unat_eq_iff)
  ultimately show ?thesis using c m unfolding counts_fit_def by (intro exI [of _ counts], intro exI [of _ m]) simp
qed

theorem shard_counts_survive_trimming_witness:
  "\<exists>counts m. GenerateShardCounts 10 3 3 16 [] = Some counts \<and> GetTrimmedShardCount 10 3 3 16 = Some m
    \<and> GenerateShardCounts 10 3 3 m [] = Some counts"
proof -
  have "(3 :: 32 word) < 10" "unat (10 :: 32 word) + unat (3 :: 32 word) < 2 ^ 32" "(10 :: 32 word) - 3 \<le> 16" by simp_all
  from shard_counts_survive_trimming [OF this] show ?thesis by auto
qed

text \<open>C9: every node has its place. Given solutions with different keys and different sort hashes, at most the configured number,
  and enough for one shard, \<open>ComputeSharding\<close> returns. The shards have exactly the computed sizes, between the two tolerances; no
  key is in two places; every entry has the address its node connected from; all nodes are placed unless every shard is at its
  upper limit; and the index from keys to shards says for each key exactly the shard it is in.\<close>

theorem sharding_places_nodes:
  assumes "\<not> sh_LOOKUP_NODE_MODE E" "inj_on (\<lambda>kv. sort_hash E (fst kv)) (set sols)" "distinct (map snd sols)"
    and "\<forall>key \<in> snd ` set sols. map_of (m_allPoWConns D) key \<noteq> None" "length sols \<le> unat (MAX_SHARD_NODE_NUM E)"
    and "SHARD_SIZE_TOLERANCE_LO E < GetShardSize E False D" "unat (GetShardSize E False D) + unat (SHARD_SIZE_TOLERANCE_HI E) < 2 ^ 32"
    and "unat (GetShardSize E False D) \<le> length sols + unat (SHARD_SIZE_TOLERANCE_LO E)"
  shows "\<exists>D' counts. ComputeSharding E sols D = Some D'
    \<and> GenerateShardCounts (GetShardSize E False D) (SHARD_SIZE_TOLERANCE_LO E) (SHARD_SIZE_TOLERANCE_HI E) (of_nat (length sols)) [] = Some counts
    \<and> map length (m_shards D') = map unat counts
    \<and> (\<forall>shard \<in> set (m_shards D'). unat (GetShardSize E False D) \<le> length shard + unat (SHARD_SIZE_TOLERANCE_LO E)
         \<and> length shard \<le> unat (GetShardSize E False D) + unat (SHARD_SIZE_TOLERANCE_HI E))
    \<and> distinct (map fst (concat (m_shards D'))) \<and> fst ` set (concat (m_shards D')) \<subseteq> snd ` set sols
    \<and> (fst ` set (concat (m_shards D')) = snd ` set sols
         \<or> (\<forall>shard \<in> set (m_shards D'). length shard = unat (GetShardSize E False D) + unat (SHARD_SIZE_TOLERANCE_HI E)))
    \<and> (\<forall>node \<in> set (concat (m_shards D')). map_of (m_allPoWConns D) (fst node) = Some (fst (snd node)))
    \<and> (\<forall>key i. map_of (m_publicKeyToshardIdMap D') key = Some i \<longleftrightarrow>
         unat i < length (m_shards D') \<and> key \<in> fst ` set (m_shards D' ! unat i))"
proof -
  let ?s = "GetShardSize E False D" and ?lo = "SHARD_SIZE_TOLERANCE_LO E" and ?hi = "SHARD_SIZE_TOLERANCE_HI E"
  let ?n = "of_nat (length sols) :: 32 word" and ?kvs = "sorted_pows E sols"
  note t = tolerances [OF assms(6,7)]
  have small: "length sols < 2 ^ 32" using assms(5) unat_bound [of "MAX_SHARD_NODE_NUM E"] by simp
  then have n: "unat ?n = length sols" by (rule unat_of_nat32)
  have "?s - ?lo \<le> ?n" using assms(8) t(1) n by (simp add: word_le_nat_alt)
  then obtain counts where c: "GenerateShardCounts ?s ?lo ?hi ?n [] = Some counts" "counts_fit (?s - ?lo) (?s + ?hi) (length sols) counts"
    using GenerateShardCounts_fit [OF assms(6,7), of ?n "[]"] n by auto
  have "card (set sols) = length sols" using assms(3) by (simp add: distinct_map distinct_card)
  then have keys: "set (map snd ?kvs) = snd ` set sols" "length ?kvs = length sols"
    using sorted_pows_keys [OF assms(2)] by simp_all
  have "card (snd ` set sols) = length sols" using assms(3) by (metis distinct_card length_map set_map)
  then have dist: "distinct (map snd ?kvs)" using keys by (metis card_distinct length_map)
  let ?D = "D\<lparr>m_shards := replicate (length counts) [], m_publicKeyToshardIdMap := []\<rparr>"
  have "snd ` set ?kvs = snd ` set sols" using keys(1) by simp
  then have "\<forall>key \<in> snd ` set ?kvs. map_of (m_allPoWConns ?D) key \<noteq> None" using assms(4) by simp
  note filled = fill_from_start [OF keys(2) c(2) t(6) small dist this, of E, simplified]
  then obtain D' where D': "fill_shards E ?kvs 0 counts ?D = Some D'" "map length (m_shards D') = map unat counts"
      "map fst (concat (m_shards D')) = take (sum_list (map unat counts)) (map snd ?kvs)"
      "\<forall>node \<in> set (concat (m_shards D')). map_of (m_allPoWConns D) (fst node) = Some (fst (snd node))"
      "\<forall>key i. map_of (m_publicKeyToshardIdMap D') key = Some i \<longleftrightarrow> unat i < length counts \<and> key \<in> fst ` set (m_shards D' ! unat i)"
    by auto
  have same: "GetShardSize E False (D\<lparr>m_shards := [], m_publicKeyToshardIdMap := []\<rparr>) = ?s" by (simp add: GetShardSize_def)
  have some: "counts \<noteq> []" using c(2) by (simp add: counts_fit_def)
  have cleared: "D\<lparr>m_shards := [], m_publicKeyToshardIdMap := [], m_shards := replicate (length counts) []\<rparr> = ?D" by simp
  have run: "ComputeSharding E sols D = Some D'"
    using assms(1,5) some D'(1) unfolding ComputeSharding_def Let_def same by (simp add: c(1) cleared not_less [symmetric])
  have sizes: "length shard \<in> unat ` set counts" if "shard \<in> set (m_shards D')" for shard
    using that D'(2) by (metis image_eqI set_map)
  have len: "length (m_shards D') = length counts" using D'(2) by (metis length_map)
  have range: "\<forall>shard \<in> set (m_shards D'). unat ?s \<le> length shard + unat ?lo \<and> length shard \<le> unat ?s + unat ?hi"
  proof
    fix shard assume "shard \<in> set (m_shards D')"
    then obtain k where "k \<in> set counts" "length shard = unat k" using sizes by auto
    then show "unat ?s \<le> length shard + unat ?lo \<and> length shard \<le> unat ?s + unat ?hi"
      using c(2) t(1,2) by (auto simp: counts_fit_def word_le_nat_alt)
  qed
  have placed: "fst ` set (concat (m_shards D')) = set (take (sum_list (map unat counts)) (map snd ?kvs))" using D'(3) by (metis set_map)
  have full: "fst ` set (concat (m_shards D')) = snd ` set sols
      \<or> (\<forall>shard \<in> set (m_shards D'). length shard = unat ?s + unat ?hi)"
  proof (cases "sum_list (map unat counts) = length sols")
    case True
    then show ?thesis using placed keys by simp
  next
    case False
    then show ?thesis using c(2) sizes t(2) by (fastforce simp: counts_fit_def)
  qed
  have "distinct (map fst (concat (m_shards D')))" "fst ` set (concat (m_shards D')) \<subseteq> snd ` set sols"
    using D'(3) dist distinct_take placed set_take_subset keys(1) by metis+
  then show ?thesis using run c(1) D' range full len by auto
qed

definition toy_shard_env :: "int shard_env" where
  "toy_shard_env = \<lparr>sh_ossl = toy, sh_LOOKUP_NODE_MODE = False, COMM_SIZE = 2, MAX_SHARD_NODE_NUM = 10, SHARD_SIZE_TOLERANCE_LO = 1,
     SHARD_SIZE_TOLERANCE_HI = 1, sh_GUARD_MODE = False, sh_guardShare = id, IsNodeInShardGuardList = (\<lambda>_. False),
     sh_currentEpochNum = 0, sh_lastTxBlockHash = []\<rparr>"

definition toy_directory :: "int DirectoryService" where
  "toy_directory = \<lparr>m_allPoWs = [], m_allDSPoWs = [], m_allPoWConns = [(4, Peer_default), (5, Peer_default), (6, Peer_default)],
     m_shards = [], m_publicKeyToshardIdMap = [], ds_mapNodeReputation = []\<rparr>"

theorem sharding_places_nodes_witness:
  "\<exists>D'. ComputeSharding toy_shard_env [([1], 4), ([2], 5), ([3], 6)] toy_directory = Some D'
    \<and> distinct (map fst (concat (m_shards D')))"
proof -
  let ?sols = "[([1], 4), ([2], 5), ([3], 6)] :: int VectorOfPoWSoln"
  have inj: "inj_on (\<lambda>kv. sort_hash toy_shard_env (fst kv)) (set ?sols)"
    by (simp add: sort_hash_def toy_shard_env_def SHA2_Finalize_def SHA2_Reset_def Let_def toy_def toy_digest_def sum_list_replicate)
  have "\<not> sh_LOOKUP_NODE_MODE toy_shard_env" "distinct (map snd ?sols)"
    "\<forall>key \<in> snd ` set ?sols. map_of (m_allPoWConns toy_directory) key \<noteq> None" "length ?sols \<le> unat (MAX_SHARD_NODE_NUM toy_shard_env)"
    "SHARD_SIZE_TOLERANCE_LO toy_shard_env < GetShardSize toy_shard_env False toy_directory"
    "unat (GetShardSize toy_shard_env False toy_directory) + unat (SHARD_SIZE_TOLERANCE_HI toy_shard_env) < 2 ^ 32"
    "unat (GetShardSize toy_shard_env False toy_directory) \<le> length ?sols + unat (SHARD_SIZE_TOLERANCE_LO toy_shard_env)"
    by (simp_all add: toy_shard_env_def toy_directory_def GetShardSize_def)
  from sharding_places_nodes [OF this(1) inj this(2-)] show ?thesis
    by (elim exE conjE, intro exI conjI) assumption+
qed

end
