(* ===== verification/Committee.thy ===== *)
theory Committee
  imports BlockCodec "HOL-Library.Multiset"
begin

text \<open>
  The composition of the committees: what a DS block, a view change and a fallback do to the list of
  members (\<open>libNode/DSBlockProcessing.cpp\<close>, \<open>ViewChangeBlockProcessing.cpp\<close>, \<open>FallbackBlockProcessing.cpp\<close>,
  \<open>libDirectoryService/DSBlockPostProcessing.cpp\<close>, \<open>ViewChangePostProcessing.cpp\<close>).

  Every member keeps the list with its own address replaced by the empty one, so the lists of two nodes
  differ. \<open>own_view\<close> is the list a node keeps for a committee, and the interface \<open>committee_follower\<close> says
  that an update of the own list is the own list of the updated committee.
\<close>

section \<open>The node and its configuration\<close>

record 'pt node_config =
  nc_ossl :: "'pt openssl"
  nc_selfPubKey :: "'pt PubKey"
  nc_selfPeer :: Peer
  nc_GUARD_MODE :: bool
  nc_NumOfDSGuard :: nat
  nc_LOOKUP_NODE_MODE :: bool

definition node_eq :: "'pt openssl \<Rightarrow> 'pt PairOfNode \<Rightarrow> 'pt PairOfNode \<Rightarrow> bool" where
  "node_eq B l r \<longleftrightarrow> PubKey_eq B (fst l) (fst r) \<and> Peer_eq (snd l) (snd r)"

text \<open>\<open>emplace\<close> at \<open>begin() + i\<close>; an iterator past the end has no behaviour.\<close>

definition insert_at :: "nat \<Rightarrow> 'a \<Rightarrow> 'a list \<Rightarrow> 'a list option" where
  "insert_at i x xs = (if i \<le> length xs then Some (take i xs @ x # drop i xs) else None)"

text \<open>\<open>erase\<close> of what \<open>find_if\<close> finds, if anything.\<close>

fun erase_first :: "('a \<Rightarrow> bool) \<Rightarrow> 'a list \<Rightarrow> 'a list" where
  "erase_first P [] = []"
| "erase_first P (x # xs) = (if P x then xs else x # erase_first P xs)"

text \<open>\<open>erase\<close> of a key of an ordered map, given as the list of its entries.\<close>

definition map_erase :: "('k \<Rightarrow> 'k \<Rightarrow> bool) \<Rightarrow> 'k \<Rightarrow> ('k \<times> 'v) list \<Rightarrow> ('k \<times> 'v) list" where
  "map_erase lt k xs = filter (\<lambda>e. lt (fst e) k \<or> lt k (fst e)) xs"

section \<open>DS blocks\<close>

text \<open>One winner of the proof of work enters, the last member leaves. The own entry has no address.\<close>

definition add_winner :: "'pt node_config \<Rightarrow> 'pt PairOfNode \<Rightarrow> 'pt DequeOfNode \<Rightarrow> 'pt DequeOfNode option" where
  "add_winner V DSPowWinner dsComm = do {
     let node = (if PubKey_eq (nc_ossl V) (nc_selfPubKey V) (fst DSPowWinner) then (nc_selfPubKey V, Peer_default) else DSPowWinner);
     dsComm1 \<leftarrow> (if \<not> nc_GUARD_MODE V then Some (node # dsComm) else insert_at (nc_NumOfDSGuard V) node dsComm);
     Some (butlast dsComm1) }"

fun add_winners :: "'pt node_config \<Rightarrow> 'pt PairOfNode list \<Rightarrow> 'pt DequeOfNode \<Rightarrow> 'pt DequeOfNode option" where
  "add_winners V [] dsComm = Some dsComm"
| "add_winners V (w # ws) dsComm = do {
     dsComm1 \<leftarrow> add_winner V w dsComm;
     add_winners V ws dsComm1 }"

definition UpdateDSCommiteeComposition :: "'pt node_config \<Rightarrow> 'pt DequeOfNode \<Rightarrow> 'pt DSBlock \<Rightarrow> 'pt DequeOfNode option" where
  "UpdateDSCommiteeComposition V dsComm dsblock = add_winners V (dsh_PoWDSWinners (ds_header dsblock)) dsComm"

fun ds_add_winners ::
    "'pt node_config \<Rightarrow> 'pt PairOfNode list \<Rightarrow> 'pt PairOfNode list \<times> 'pt DequeOfNode \<Rightarrow> ('pt PairOfNode list \<times> 'pt DequeOfNode) option" where
  "ds_add_winners V [] s = Some s"
| "ds_add_winners V (w # ws) (m_allPoWConns, m_DSCommittee) = do {
     let conns1 = map_erase (PubKey_less (nc_ossl V)) (fst w) m_allPoWConns;
     dsComm1 \<leftarrow> add_winner V w m_DSCommittee;
     ds_add_winners V ws (conns1, dsComm1) }"

definition DirectoryService_UpdateDSCommiteeComposition ::
    "'pt node_config \<Rightarrow> 'pt DSBlock CircularArray \<Rightarrow> 'pt PairOfNode list \<times> 'pt DequeOfNode
     \<Rightarrow> ('pt PairOfNode list \<times> 'pt DequeOfNode) option" where
  "DirectoryService_UpdateDSCommiteeComposition V m_dsBlockChain s =
     (if nc_LOOKUP_NODE_MODE V then Some s
      else do {
        lastBlock \<leftarrow> GetLastBlock m_dsBlockChain;
        ds_add_winners V (dsh_PoWDSWinners (ds_header lastBlock)) s })"

section \<open>View changes\<close>

text \<open>The update of a node that is not in the committee. The two searches differ only in how the pair is
  written down.\<close>

fun eject_leaders :: "'pt node_config \<Rightarrow> 'pt PairOfNode list \<Rightarrow> 'pt DequeOfNode \<Rightarrow> 'pt DequeOfNode" where
  "eject_leaders V [] dsComm = dsComm"
| "eject_leaders V (faultyLeader # ls) dsComm =
     (let B = nc_ossl V;
          sought = (if PubKey_eq B (fst faultyLeader) (nc_selfPubKey V) \<and> Peer_eq (snd faultyLeader) Peer_default
                    then (fst faultyLeader, Peer_default) else faultyLeader)
      in eject_leaders V ls (erase_first (\<lambda>n. node_eq B n sought) dsComm @ [faultyLeader]))"

definition UpdateDSCommiteeCompositionAfterVC :: "'pt node_config \<Rightarrow> 'pt VCBlock \<Rightarrow> 'pt DequeOfNode \<Rightarrow> 'pt DequeOfNode" where
  "UpdateDSCommiteeCompositionAfterVC V vcblock dsComm =
     (if nc_GUARD_MODE V then dsComm else eject_leaders V (vch_FaultyLeaders (vc_header vcblock)) dsComm)"

text \<open>The update while directory blocks are being retrieved compares the keys alone.\<close>

fun eject_keys :: "'pt openssl \<Rightarrow> 'pt PairOfNode list \<Rightarrow> 'pt DequeOfNode \<Rightarrow> 'pt DequeOfNode" where
  "eject_keys B [] dsComm = dsComm"
| "eject_keys B (faultyLeader # ls) dsComm =
     eject_keys B ls (erase_first (\<lambda>p. PubKey_eq B (fst p) (fst faultyLeader)) dsComm @ [faultyLeader])"

definition UpdateRetrieveDSCommiteeCompositionAfterVC :: "'pt node_config \<Rightarrow> 'pt VCBlock \<Rightarrow> 'pt DequeOfNode \<Rightarrow> 'pt DequeOfNode" where
  "UpdateRetrieveDSCommiteeCompositionAfterVC V vcblock dsComm =
     (if nc_GUARD_MODE V then dsComm else eject_keys (nc_ossl V) (vch_FaultyLeaders (vc_header vcblock)) dsComm)"

text \<open>The update of a member, inside \<open>ProcessViewChangeConsensusWhenDone\<close>: the own entry is recognised by
  the address of the node.\<close>

fun ds_eject_leaders :: "'pt node_config \<Rightarrow> 'pt PairOfNode list \<Rightarrow> 'pt DequeOfNode \<Rightarrow> 'pt DequeOfNode" where
  "ds_eject_leaders V [] m_DSCommittee = m_DSCommittee"
| "ds_eject_leaders V (faultyLeader # ls) m_DSCommittee =
     (let node = (if Peer_eq (snd faultyLeader) (nc_selfPeer V) then (fst faultyLeader, Peer_default) else faultyLeader)
      in ds_eject_leaders V ls (erase_first (\<lambda>n. node_eq (nc_ossl V) n node) m_DSCommittee @ [node]))"

section \<open>Fallback\<close>

text \<open>\<open>shards[shard_id]\<close> is not checked.\<close>

fun take_over :: "'pt openssl \<Rightarrow> 'pt PairOfNode \<Rightarrow> 'pt Shard \<Rightarrow> 'pt DequeOfNode \<Rightarrow> 'pt DequeOfNode" where
  "take_over B leader [] dsComm = dsComm"
| "take_over B leader ((key, peer, rep) # ns) dsComm =
     take_over B leader ns
       (if PubKey_eq B key (fst leader) \<and> Peer_eq peer (snd leader) then leader # dsComm else dsComm @ [(key, peer)])"

definition UpdateDSCommitteeAfterFallback ::
    "'pt openssl \<Rightarrow> 32 word \<Rightarrow> 'pt PubKey \<Rightarrow> Peer \<Rightarrow> 'pt DequeOfNode \<Rightarrow> 'pt DequeOfShard \<Rightarrow> 'pt DequeOfNode option" where
  "UpdateDSCommitteeAfterFallback B shard_id leaderPubKey leaderNetworkInfo dsComm shards = do {
     shard \<leftarrow> vec_at shards (unat shard_id);
     Some (take_over B (leaderPubKey, leaderNetworkInfo) shard []) }"

section \<open>The committee that all nodes share\<close>

text \<open>Winners enter behind the guards, the last one first, and as many members leave at the end.\<close>

definition enter_committee :: "nat \<Rightarrow> 'n list \<Rightarrow> 'n list \<Rightarrow> 'n list" where
  "enter_committee k ws C = take k C @ take (length C - k) (List.rev ws @ drop k C)"

text \<open>Leaders that failed go to the end, in the order in which they failed.\<close>

definition rotate_out :: "'n list \<Rightarrow> 'n list \<Rightarrow> 'n list" where
  "rotate_out ls C = fold (\<lambda>l C. remove1 l C @ [l]) ls C"

definition committee_ok :: "('pt \<Rightarrow> bool) \<Rightarrow> 'pt DequeOfNode \<Rightarrow> bool" where
  "committee_ok enc C \<longleftrightarrow> distinct (map fst C) \<and> (\<forall>n \<in> set C. enc (fst n))"

definition own_entry :: "'pt \<Rightarrow> 'pt PairOfNode \<Rightarrow> 'pt PairOfNode" where
  "own_entry key n = (if fst n = key then (fst n, Peer_default) else n)"

definition own_view :: "'pt \<Rightarrow> 'pt DequeOfNode \<Rightarrow> 'pt DequeOfNode" where
  "own_view key C = map (own_entry key) C"

definition guards_in_front :: "'pt node_config \<Rightarrow> nat" where
  "guards_in_front V = (if nc_GUARD_MODE V then nc_NumOfDSGuard V else 0)"

lemma PubKey_eq_iff:
  "openssl_points_ok B enc \<Longrightarrow> enc p \<Longrightarrow> enc q \<Longrightarrow> PubKey_eq B p q \<longleftrightarrow> p = q"
proof -
  assume P: "openssl_points_ok B enc" and "enc p" "enc q"
  then obtain v w where "EC_POINT_point2bn B p = Some v" "EC_POINT_bn2point B v = Some p"
      "EC_POINT_point2bn B q = Some w" "EC_POINT_bn2point B w = Some q"
    unfolding openssl_points_ok_def by meson
  then show "PubKey_eq B p q \<longleftrightarrow> p = q" by (auto simp: PubKey_eq_def PubKey_comparePreChecks_def)
qed

lemma node_eq_iff:
  "openssl_points_ok B enc \<Longrightarrow> enc (fst m) \<Longrightarrow> enc (fst n) \<Longrightarrow> node_eq B m n \<longleftrightarrow> m = n"
  by (simp add: node_eq_def PubKey_eq_iff Peer_eq_iff prod_eq_iff)

lemma erase_first_cong: "(\<And>x. x \<in> set xs \<Longrightarrow> P x = Q x) \<Longrightarrow> erase_first P xs = erase_first Q xs"
  by (induction xs) auto

lemma erase_first_remove1: "erase_first (\<lambda>x. x = y) xs = remove1 y xs"
  by (induction xs) auto

lemma erase_first_key:
  "distinct (map fst xs) \<Longrightarrow> y \<in> set xs \<Longrightarrow> erase_first (\<lambda>x. fst x = fst y) xs = remove1 y xs"
  by (induction xs) (auto simp: rev_image_eqI)

lemma remove1_map_inj: "inj_on f (insert y (set xs)) \<Longrightarrow> remove1 (f y) (map f xs) = map f (remove1 y xs)"
  by (induction xs) (auto simp: inj_on_def)

lemma own_entry_fst [simp]: "fst (own_entry key n) = fst n"
  by (simp add: own_entry_def)

lemma own_view_keys [simp]: "map fst (own_view key C) = map fst C"
  by (simp add: own_view_def)

lemma own_view_length [simp]: "length (own_view key C) = length C"
  by (simp add: own_view_def)

lemma own_view_outside: "key \<notin> fst ` set C \<Longrightarrow> own_view key C = C"
  by (induction C) (auto simp: own_view_def own_entry_def)

lemma committee_ok_own_view: "committee_ok enc (own_view key C) = committee_ok enc C"
  by (auto simp: committee_ok_def own_view_def comp_def)

lemma committee_ok_mset: "mset C = mset C' \<Longrightarrow> committee_ok enc C = committee_ok enc C'"
proof -
  assume eq: "mset C = mset C'"
  then have "mset (map fst C) = mset (map fst C')" by simp
  then have "distinct (map fst C) = distinct (map fst C')" by (rule mset_eq_imp_distinct_iff)
  then show ?thesis using mset_eq_setD [OF eq] by (simp add: committee_ok_def)
qed

subsection \<open>Winners\<close>

lemma take_append_take: "take m (xs @ take m ys) = take m (xs @ ys)"
  by simp

lemma enter_committee_Nil [simp]: "enter_committee k [] C = C"
  by (simp add: enter_committee_def)

lemma enter_committee_length [simp]: "length (enter_committee k ws C) = length C"
  by (simp add: enter_committee_def)

lemma enter_committee_Cons:
  "k \<le> length C \<Longrightarrow> enter_committee k (w # ws) C = enter_committee k ws (enter_committee k [w] C)"
proof -
  assume k: "k \<le> length C"
  then have "take k (enter_committee k [w] C) = take k C"
    "drop k (enter_committee k [w] C) = take (length C - k) (w # drop k C)"
    by (simp_all add: enter_committee_def)
  then show ?thesis by (simp add: enter_committee_def [of k ws] enter_committee_def [of k "w # ws"] take_append_take del: take_append)
qed

lemma enter_committee_map: "map f (enter_committee k ws C) = enter_committee k (map f ws) (map f C)"
  by (simp add: enter_committee_def take_map drop_map rev_map)

lemma butlast_insert: "k \<le> length C \<Longrightarrow> butlast (take k C @ x # drop k C) = enter_committee k [x] C"
  by (simp add: enter_committee_def butlast_append butlast_conv_take min_def)

lemma add_winner_enters:
  assumes P: "openssl_points_ok (nc_ossl V) enc" and self: "enc (nc_selfPubKey V)" and w: "enc (fst w)"
    and k: "guards_in_front V \<le> length C"
  shows "add_winner V w C = Some (enter_committee (guards_in_front V) [own_entry (nc_selfPubKey V) w] C)"
proof -
  have "(if PubKey_eq (nc_ossl V) (nc_selfPubKey V) (fst w) then (nc_selfPubKey V, Peer_default) else w)
      = own_entry (nc_selfPubKey V) w"
    using PubKey_eq_iff [OF P self w] by (auto simp: own_entry_def)
  then have "add_winner V w C = map_option butlast (insert_at (guards_in_front V) (own_entry (nc_selfPubKey V) w) C)"
    unfolding add_winner_def guards_in_front_def insert_at_def Let_def by (cases "nc_GUARD_MODE V") simp_all
  then show ?thesis using k by (simp only: insert_at_def butlast_insert option.map if_True)
qed

lemma add_winners_enter:
  assumes "openssl_points_ok (nc_ossl V) enc" "enc (nc_selfPubKey V)" "\<forall>w \<in> set ws. enc (fst w)"
    and "guards_in_front V \<le> length C"
  shows "add_winners V ws C = Some (enter_committee (guards_in_front V) (own_view (nc_selfPubKey V) ws) C)"
  using assms
proof (induction ws arbitrary: C)
  case (Cons w ws)
  then have one: "add_winner V w C = Some (enter_committee (guards_in_front V) [own_entry (nc_selfPubKey V) w] C)"
    by (intro add_winner_enters [of V enc]) auto
  have "add_winners V (w # ws) C = Some (enter_committee (guards_in_front V) (own_view (nc_selfPubKey V) ws)
      (enter_committee (guards_in_front V) [own_entry (nc_selfPubKey V) w] C))"
    using Cons by (simp add: one)
  also have "\<dots> = Some (enter_committee (guards_in_front V) (own_view (nc_selfPubKey V) (w # ws)) C)"
    unfolding own_view_def list.map by (subst (2) enter_committee_Cons [OF Cons.prems(4)]) (rule refl)
  finally show ?case .
qed (simp add: own_view_def)

text \<open>The directory service does the same to its committee and forgets the connections of the winners.\<close>

lemma ds_add_winners_eq:
  "ds_add_winners V ws (conns, C)
    = map_option (\<lambda>C'. (fold (\<lambda>w. map_erase (PubKey_less (nc_ossl V)) (fst w)) ws conns, C')) (add_winners V ws C)"
proof (induction ws arbitrary: conns C)
  case (Cons w ws)
  then show ?case by (cases "add_winner V w C") simp_all
qed simp

lemma enter_committee_ok:
  assumes "committee_ok enc C" "distinct (map fst ws)" "\<forall>w \<in> set ws. enc (fst w)" "fst ` set ws \<inter> fst ` set C = {}"
  shows "committee_ok enc (enter_committee k ws C)"
proof -
  have C: "distinct (map fst (take k C))" "distinct (map fst (drop k C))" "fst ` set (take k C) \<inter> fst ` set (drop k C) = {}"
    using assms(1) distinct_append [of "map fst (take k C)" "map fst (drop k C)"]
    by (simp_all add: committee_ok_def flip: map_append)
  have sub: "set (take k C) \<subseteq> set C" "set (drop k C) \<subseteq> set C" by (simp_all add: set_take_subset set_drop_subset)
  have "distinct (map fst (take k C @ List.rev ws @ drop k C))"
    using C sub assms(2,4) by (auto simp: rev_map [symmetric]) (metis (no_types, lifting) IntI empty_iff fst_conv image_eqI subsetD)+
  moreover have "enter_committee k ws C = take (length C) (take k C @ List.rev ws @ drop k C)"
    by (simp add: enter_committee_def min_def)
  ultimately have "distinct (map fst (enter_committee k ws C))" by (simp only: take_map [symmetric] distinct_take)
  moreover have "set (enter_committee k ws C) \<subseteq> set C \<union> set ws"
    using sub by (auto simp: enter_committee_def dest!: in_set_takeD)
  ultimately show ?thesis using assms(1,3) by (auto simp: committee_ok_def)
qed

subsection \<open>Failed leaders\<close>

lemma rotate_out_simps [simp]:
  "rotate_out [] C = C" "rotate_out (l # ls) C = rotate_out ls (remove1 l C @ [l])"
  by (simp_all add: rotate_out_def)

lemma remove1_snoc: "l \<in> set C \<Longrightarrow> mset (remove1 l C @ [l]) = mset C"
  by (induction C) auto

lemma rotate_out_mset: "set ls \<subseteq> set C \<Longrightarrow> mset (rotate_out ls C) = mset C"
proof (induction ls arbitrary: C)
  case (Cons l ls)
  have one: "mset (remove1 l C @ [l]) = mset C" using Cons.prems by (simp add: remove1_snoc)
  then have "set (remove1 l C @ [l]) = set C" by (rule mset_eq_setD)
  with Cons.IH [of "remove1 l C @ [l]"] Cons.prems one show ?case by (simp del: mset_append)
qed simp

text \<open>One leader goes to the end: the three ways in which the sources find it agree with the shared
  committee.\<close>

lemma eject_one:
  assumes P: "openssl_points_ok B enc" and C: "committee_ok enc C" and l: "l \<in> set C"
  shows "erase_first (\<lambda>n. node_eq B n l) C = remove1 l C"
    and "erase_first (\<lambda>p. PubKey_eq B (fst p) (fst l)) C = remove1 l C"
    and "erase_first (\<lambda>n. node_eq B n (own_entry key l)) (own_view key C) = own_view key (remove1 l C)"
proof -
  have enc: "\<forall>n \<in> set C. enc (fst n)" and keys: "distinct (map fst C)" using C by (simp_all add: committee_ok_def)
  have "erase_first (\<lambda>n. node_eq B n l) C = erase_first (\<lambda>n. n = l) C"
    using enc l by (intro erase_first_cong node_eq_iff [OF P]) auto
  then show "erase_first (\<lambda>n. node_eq B n l) C = remove1 l C" by (simp add: erase_first_remove1)
  have "erase_first (\<lambda>p. PubKey_eq B (fst p) (fst l)) C = erase_first (\<lambda>p. fst p = fst l) C"
    using enc l by (intro erase_first_cong PubKey_eq_iff [OF P]) auto
  then show "erase_first (\<lambda>p. PubKey_eq B (fst p) (fst l)) C = remove1 l C"
    by (simp add: erase_first_key [OF keys l])
  have "erase_first (\<lambda>n. node_eq B n (own_entry key l)) (own_view key C) = erase_first (\<lambda>n. n = own_entry key l) (own_view key C)"
    using enc l by (intro erase_first_cong node_eq_iff [OF P]) (auto simp: own_view_def)
  moreover have "inj_on (own_entry key) (insert l (set C))"
  proof (rule inj_onI)
    fix m n
    assume "m \<in> insert l (set C)" "n \<in> insert l (set C)" "own_entry key m = own_entry key n"
    moreover from this(3) have "fst m = fst n" by (metis own_entry_fst)
    ultimately show "m = n" using keys l by (auto simp: distinct_map insert_absorb dest: inj_onD)
  qed
  ultimately show "erase_first (\<lambda>n. node_eq B n (own_entry key l)) (own_view key C) = own_view key (remove1 l C)"
    by (simp add: erase_first_remove1 own_view_def remove1_map_inj)
qed

lemma rotation_step:
  assumes "committee_ok enc C" "l \<in> set C"
  shows "committee_ok enc (remove1 l C @ [l])" "set (remove1 l C @ [l]) = set C"
proof -
  have "mset (remove1 l C @ [l]) = mset C" using assms(2) by (rule remove1_snoc)
  then show "committee_ok enc (remove1 l C @ [l])" "set (remove1 l C @ [l]) = set C"
    using assms(1) committee_ok_mset mset_eq_setD by blast+
qed

lemma eject_leaders_rotate:
  assumes P: "openssl_points_ok (nc_ossl V) enc" and "committee_ok enc C" "set ls \<subseteq> set C" and self: "enc (nc_selfPubKey V)"
  shows "eject_leaders V ls C = rotate_out ls C" "eject_keys (nc_ossl V) ls C = rotate_out ls C"
  using assms(2,3)
proof (induction ls arbitrary: C)
  case (Cons l ls)
  {
    case 1
    have "(if PubKey_eq (nc_ossl V) (fst l) (nc_selfPubKey V) \<and> Peer_eq (snd l) Peer_default then (fst l, Peer_default) else l) = l"
      by (simp add: Peer_eq_iff) (metis prod.collapse)
    then show ?case using Cons.IH(1) [of "remove1 l C @ [l]"] 1 rotation_step [of enc C l] eject_one(1) [OF P, of C l]
      by (simp add: Let_def)
  next
    case 2
    then show ?case using Cons.IH(2) [of "remove1 l C @ [l]"] rotation_step [of enc C l] eject_one(2) [OF P, of C l] by simp
  }
qed simp_all

lemma ds_eject_leaders_rotate:
  assumes P: "openssl_points_ok (nc_ossl V) enc" and "committee_ok enc C" "set ls \<subseteq> set C"
    and addr: "\<forall>n \<in> set C. snd n = nc_selfPeer V \<longleftrightarrow> fst n = nc_selfPubKey V"
  shows "ds_eject_leaders V ls (own_view (nc_selfPubKey V) C) = own_view (nc_selfPubKey V) (rotate_out ls C)"
  using assms(2-4)
proof (induction ls arbitrary: C)
  case (Cons l ls)
  have "(if Peer_eq (snd l) (nc_selfPeer V) then (fst l, Peer_default) else l) = own_entry (nc_selfPubKey V) l"
    using Cons.prems by (auto simp: Peer_eq_iff own_entry_def)
  moreover have "\<forall>n \<in> set (remove1 l C @ [l]). snd n = nc_selfPeer V \<longleftrightarrow> fst n = nc_selfPubKey V"
    using Cons.prems rotation_step(2) [of enc C l] by (simp del: set_append)
  moreover have "own_view (nc_selfPubKey V) (remove1 l C @ [l]) = own_view (nc_selfPubKey V) (remove1 l C) @ [own_entry (nc_selfPubKey V) l]"
    by (simp add: own_view_def)
  ultimately show ?case using Cons.IH [of "remove1 l C @ [l]"] Cons.prems rotation_step [of enc C l] eject_one(3) [OF P, of C l]
    by (simp add: Let_def del: set_append)
qed simp

subsection \<open>Fallback\<close>

text \<open>After a fallback the committee is the shard, and the leader of the block comes first when it is in it.\<close>

lemma take_over_mset:
  assumes P: "openssl_points_ok B enc" "enc (fst leader)" and "\<forall>n \<in> set shard. enc (fst n)"
  shows "mset (take_over B leader shard C) = mset C + mset (map (\<lambda>(key, peer, rep). (key, peer)) shard)"
  using assms(3)
proof (induction shard arbitrary: C)
  case (Cons n shard)
  then show ?case using PubKey_eq_iff [OF P(1) _ P(2)] by (cases n) (auto simp: Peer_eq_iff)
qed simp

lemma take_over_head:
  "hd (take_over B leader shard C) = leader"
  if "C \<noteq> [] \<and> hd C = leader \<or> (\<exists>(key, peer, rep) \<in> set shard. PubKey_eq B key (fst leader) \<and> Peer_eq peer (snd leader))"
  using that
proof (induction shard arbitrary: C)
  case (Cons n shard)
  obtain key peer rep where n: "n = (key, peer, rep)" by (cases n)
  show ?case using Cons by (auto simp: n)
qed auto

lemma fallback_committee:
  assumes "openssl_points_ok B enc" "enc leaderPubKey" "vec_at shards (unat shard_id) = Some shard" "\<forall>n \<in> set shard. enc (fst n)"
    and "(leaderPubKey, leaderNetworkInfo, rep) \<in> set shard"
  shows "\<exists>C. UpdateDSCommitteeAfterFallback B shard_id leaderPubKey leaderNetworkInfo dsComm shards = Some C
    \<and> mset C = mset (map (\<lambda>(key, peer, rep). (key, peer)) shard) \<and> hd C = (leaderPubKey, leaderNetworkInfo)"
proof -
  have "PubKey_eq B leaderPubKey leaderPubKey" using assms(1,2) by (simp add: PubKey_eq_iff)
  then have "hd (take_over B (leaderPubKey, leaderNetworkInfo) shard []) = (leaderPubKey, leaderNetworkInfo)"
    using assms(5) by (intro take_over_head) (auto simp: Peer_eq_iff intro!: bexI [of _ "(leaderPubKey, leaderNetworkInfo, rep)"])
  then show ?thesis using assms(1-4) take_over_mset [OF assms(1), of "(leaderPubKey, leaderNetworkInfo)" shard "[]"]
    by (simp add: UpdateDSCommitteeAfterFallback_def)
qed

text \<open>A leader that is not found is appended all the same: the committee grows.\<close>

lemma unknown_leader_grows_committee:
  assumes "openssl_points_ok (nc_ossl V) enc" "committee_ok enc C" "enc (fst l)" "fst l \<notin> fst ` set C" "\<not> nc_GUARD_MODE V"
    and "vch_FaultyLeaders (vc_header vcblock) = [l]"
  shows "UpdateRetrieveDSCommiteeCompositionAfterVC V vcblock C = C @ [l]"
proof -
  have "erase_first (\<lambda>p. PubKey_eq (nc_ossl V) (fst p) (fst l)) C = erase_first (\<lambda>p. False) C"
    using assms(2-4) PubKey_eq_iff [OF assms(1)] by (intro erase_first_cong) (metis committee_ok_def image_eqI)
  moreover have "erase_first (\<lambda>p. False) C = C" by (induction C) auto
  ultimately show ?thesis using assms(5,6) by (simp add: UpdateRetrieveDSCommiteeCompositionAfterVC_def)
qed

section \<open>Every node follows the shared committee\<close>

text \<open>What changes the committee between two fallbacks: a DS block that was added to the chain, and a view
  change.\<close>

datatype 'pt committee_event =
  NewDSBlock "'pt DSBlock CircularArray" "'pt DSBlock"
| ViewChange "'pt VCBlock"

text \<open>The part of \<open>ProcessViewChangeConsensusWhenDone\<close> that changes the committee of a member.\<close>

definition ds_committee_after_vc :: "'pt node_config \<Rightarrow> 'pt VCBlock \<Rightarrow> 'pt DequeOfNode \<Rightarrow> 'pt DequeOfNode" where
  "ds_committee_after_vc V vcblock m_DSCommittee =
     (if \<not> nc_GUARD_MODE V then ds_eject_leaders V (vch_FaultyLeaders (vc_header vcblock)) m_DSCommittee else m_DSCommittee)"

definition member_step ::
    "'pt node_config \<Rightarrow> 'pt committee_event \<Rightarrow> 'pt PairOfNode list \<times> 'pt DequeOfNode \<Rightarrow> ('pt PairOfNode list \<times> 'pt DequeOfNode) option" where
  "member_step V e s = (case e of
     NewDSBlock m_dsBlockChain b \<Rightarrow> DirectoryService_UpdateDSCommiteeComposition V m_dsBlockChain s
   | ViewChange vcblock \<Rightarrow> Some (fst s, ds_committee_after_vc V vcblock (snd s)))"

definition observer_step :: "'pt node_config \<Rightarrow> 'pt committee_event \<Rightarrow> 'pt DequeOfNode \<Rightarrow> 'pt DequeOfNode option" where
  "observer_step V e C = (case e of
     NewDSBlock m_dsBlockChain b \<Rightarrow> UpdateDSCommiteeComposition V C b
   | ViewChange vcblock \<Rightarrow> Some (UpdateDSCommiteeCompositionAfterVC V vcblock C))"

definition retrieve_step :: "'pt node_config \<Rightarrow> 'pt committee_event \<Rightarrow> 'pt DequeOfNode \<Rightarrow> 'pt DequeOfNode option" where
  "retrieve_step V e C = (case e of
     NewDSBlock m_dsBlockChain b \<Rightarrow> UpdateDSCommiteeComposition V C b
   | ViewChange vcblock \<Rightarrow> Some (UpdateRetrieveDSCommiteeCompositionAfterVC V vcblock C))"

text \<open>The shared committee; \<open>G\<close> is the number of guards in guard mode.\<close>

definition guard_mode :: "'pt node_config \<Rightarrow> nat option" where
  "guard_mode V = (if nc_GUARD_MODE V then Some (nc_NumOfDSGuard V) else None)"

definition shared_step :: "nat option \<Rightarrow> 'pt committee_event \<Rightarrow> 'pt DequeOfNode \<Rightarrow> 'pt DequeOfNode" where
  "shared_step G e C = (case e of
     NewDSBlock m_dsBlockChain b \<Rightarrow> enter_committee (case G of None \<Rightarrow> 0 | Some k \<Rightarrow> k) (dsh_PoWDSWinners (ds_header b)) C
   | ViewChange vcblock \<Rightarrow> (case G of None \<Rightarrow> rotate_out (vch_FaultyLeaders (vc_header vcblock)) C | Some k \<Rightarrow> C))"

definition committee_after :: "nat option \<Rightarrow> 'pt committee_event list \<Rightarrow> 'pt DequeOfNode \<Rightarrow> 'pt DequeOfNode" where
  "committee_after G es C = fold (shared_step G) es C"

text \<open>The events the consensus lets through: the winners have keys of their own, the leaders that failed are
  members.\<close>

definition event_fits :: "('pt \<Rightarrow> bool) \<Rightarrow> 'pt DequeOfNode \<Rightarrow> 'pt committee_event \<Rightarrow> bool" where
  "event_fits enc C e = (case e of
     NewDSBlock m_dsBlockChain b \<Rightarrow>
       (let ws = dsh_PoWDSWinners (ds_header b)
        in GetLastBlock m_dsBlockChain = Some b \<and> distinct (map fst ws) \<and> (\<forall>w \<in> set ws. enc (fst w))
           \<and> fst ` set ws \<inter> fst ` set C = {})
   | ViewChange vcblock \<Rightarrow> set (vch_FaultyLeaders (vc_header vcblock)) \<subseteq> set C)"

definition event_entries :: "'pt committee_event \<Rightarrow> 'pt PairOfNode list" where
  "event_entries e = (case e of NewDSBlock m_dsBlockChain b \<Rightarrow> dsh_PoWDSWinners (ds_header b) | ViewChange vcblock \<Rightarrow> [])"

fun events_fit :: "('pt \<Rightarrow> bool) \<Rightarrow> nat option \<Rightarrow> 'pt DequeOfNode \<Rightarrow> 'pt committee_event list \<Rightarrow> bool" where
  "events_fit enc G C [] = True"
| "events_fit enc G C (e # es) = (event_fits enc C e \<and> events_fit enc G (shared_step G e C) es)"

fun run_steps :: "('e \<Rightarrow> 's \<Rightarrow> 's option) \<Rightarrow> 'e list \<Rightarrow> 's \<Rightarrow> 's option" where
  "run_steps step [] s = Some s"
| "run_steps step (e # es) s = do { s' \<leftarrow> step e s; run_steps step es s' }"

text \<open>A node that follows the shared committee: its own list is related to the committee, before and after
  every event.\<close>

locale committee_follower =
  fixes enc :: "'pt \<Rightarrow> bool" and G :: "nat option"
    and step :: "'pt committee_event \<Rightarrow> 's \<Rightarrow> 's option" and follows :: "'pt DequeOfNode \<Rightarrow> 's \<Rightarrow> bool"
    and known :: "'pt PairOfNode \<Rightarrow> bool"
  assumes simulates: "\<And>C s e. \<lbrakk>committee_ok enc C; case G of None \<Rightarrow> True | Some k \<Rightarrow> k \<le> length C;
      \<forall>n \<in> set C \<union> set (event_entries e). known n; event_fits enc C e; follows C s\<rbrakk>
      \<Longrightarrow> \<exists>s'. step e s = Some s' \<and> follows (shared_step G e C) s'"
begin

lemma shared_step_length: "event_fits enc C e \<Longrightarrow> length (shared_step G e C) = length C"
  by (auto simp: shared_step_def event_fits_def split: committee_event.splits option.splits)
    (metis rotate_out_mset size_mset)

lemma shared_step_ok: "committee_ok enc C \<Longrightarrow> event_fits enc C e \<Longrightarrow> committee_ok enc (shared_step G e C)"
  by (auto simp: shared_step_def event_fits_def Let_def intro!: enter_committee_ok split: committee_event.splits option.splits)
    (metis committee_ok_mset rotate_out_mset)

lemma shared_step_entries:
  "event_fits enc C e \<Longrightarrow> set (shared_step G e C) \<subseteq> set C \<union> set (event_entries e)"
  by (auto simp: shared_step_def event_fits_def event_entries_def Let_def enter_committee_def
      split: committee_event.splits option.splits dest!: in_set_takeD in_set_dropD)
    (metis mset_eq_setD rotate_out_mset)

lemma follows_run:
  assumes "committee_ok enc C" "case G of None \<Rightarrow> True | Some k \<Rightarrow> k \<le> length C"
    and "\<forall>n \<in> set C \<union> (\<Union>e \<in> set es. set (event_entries e)). known n" "events_fit enc G C es" "follows C s"
  shows "\<exists>s'. run_steps step es s = Some s' \<and> follows (committee_after G es C) s'"
    and "committee_ok enc (committee_after G es C)" "length (committee_after G es C) = length C"
proof -
  have "(\<exists>s'. run_steps step es s = Some s' \<and> follows (committee_after G es C) s')
      \<and> committee_ok enc (committee_after G es C) \<and> length (committee_after G es C) = length C"
    using assms
  proof (induction es arbitrary: C s)
    case (Cons e es)
    let ?C = "shared_step G e C"
    have fits: "event_fits enc C e" "events_fit enc G ?C es" using Cons.prems(4) by simp_all
    have len: "length ?C = length C" and ok: "committee_ok enc ?C"
      using shared_step_length [OF fits(1)] shared_step_ok [OF Cons.prems(1) fits(1)] by simp_all
    obtain s' where s': "step e s = Some s'" "follows ?C s'"
      using simulates [OF Cons.prems(1,2) _ fits(1) Cons.prems(5)] Cons.prems(3) by auto
    have "\<forall>n \<in> set ?C \<union> (\<Union>e \<in> set es. set (event_entries e)). known n"
      using Cons.prems(3) shared_step_entries [OF fits(1)] by auto
    moreover have "case G of None \<Rightarrow> True | Some k \<Rightarrow> k \<le> length ?C" using Cons.prems(2) by (simp only: len)
    ultimately show ?case using Cons.IH [OF ok _ _ fits(2) s'(2)] s'(1) by (simp add: len committee_after_def)
  qed (simp add: committee_after_def)
  then show "\<exists>s'. run_steps step es s = Some s' \<and> follows (committee_after G es C) s'"
    "committee_ok enc (committee_after G es C)" "length (committee_after G es C) = length C" by simp_all
qed

end

text \<open>A member of the committee, and a node outside of it, which follows or retrieves the blocks.\<close>

definition member_ok :: "('pt \<Rightarrow> bool) \<Rightarrow> 'pt node_config \<Rightarrow> bool" where
  "member_ok enc V \<longleftrightarrow> openssl_points_ok (nc_ossl V) enc \<and> enc (nc_selfPubKey V) \<and> \<not> nc_LOOKUP_NODE_MODE V"

definition observer_ok :: "('pt \<Rightarrow> bool) \<Rightarrow> 'pt node_config \<Rightarrow> bool" where
  "observer_ok enc V \<longleftrightarrow> openssl_points_ok (nc_ossl V) enc \<and> enc (nc_selfPubKey V)"

interpretation ds_member: committee_follower enc "guard_mode V" "member_step V"
    "\<lambda>C s. member_ok enc V \<and> snd s = own_view (nc_selfPubKey V) C"
    "\<lambda>n. snd n = nc_selfPeer V \<longleftrightarrow> fst n = nc_selfPubKey V"
  for enc :: "'pt \<Rightarrow> bool" and V :: "'pt node_config"
proof (unfold_locales, goal_cases)
  case (1 C s e)
  then have V: "member_ok enc V" by blast
  have P: "openssl_points_ok (nc_ossl V) enc" "enc (nc_selfPubKey V)" "\<not> nc_LOOKUP_NODE_MODE V"
    using V by (simp_all add: member_ok_def)
  show ?case
  proof (cases e)
    case (NewDSBlock chain b)
    have "guards_in_front V \<le> length C" using 1(2) by (simp add: guards_in_front_def guard_mode_def split: if_splits)
    then have "add_winners V (dsh_PoWDSWinners (ds_header b)) (snd s)
        = Some (own_view (nc_selfPubKey V) (enter_committee (guards_in_front V) (dsh_PoWDSWinners (ds_header b)) C))"
      using add_winners_enter [OF P(1,2), of "dsh_PoWDSWinners (ds_header b)" "snd s"] 1(4,5) NewDSBlock
      by (simp add: event_fits_def Let_def) (simp add: own_view_def enter_committee_map)
    moreover have "shared_step (guard_mode V) e C = enter_committee (guards_in_front V) (dsh_PoWDSWinners (ds_header b)) C"
      by (simp add: NewDSBlock shared_step_def guards_in_front_def guard_mode_def)
    ultimately show ?thesis using V 1(4) P(3) ds_add_winners_eq [of V "dsh_PoWDSWinners (ds_header b)" "fst s" "snd s"]
      by (simp add: NewDSBlock member_step_def DirectoryService_UpdateDSCommiteeComposition_def event_fits_def Let_def)
  next
    case (ViewChange vcblock)
    then show ?thesis using 1 ds_eject_leaders_rotate [OF P(1) 1(1), of "vch_FaultyLeaders (vc_header vcblock)"]
      by (simp add: member_step_def ds_committee_after_vc_def shared_step_def guard_mode_def event_fits_def event_entries_def)
  qed
qed

lemma outside_updates:
  assumes "observer_ok enc V"
  shows "\<lbrakk>case guard_mode V of None \<Rightarrow> True | Some k \<Rightarrow> k \<le> length C; event_fits enc C (NewDSBlock chain b);
      \<forall>n \<in> set (event_entries (NewDSBlock chain b)). fst n \<noteq> nc_selfPubKey V\<rbrakk>
      \<Longrightarrow> UpdateDSCommiteeComposition V C b = Some (shared_step (guard_mode V) (NewDSBlock chain b) C)"
    and "\<lbrakk>committee_ok enc C; event_fits enc C (ViewChange vcblock)\<rbrakk>
      \<Longrightarrow> UpdateDSCommiteeCompositionAfterVC V vcblock C = shared_step (guard_mode V) (ViewChange vcblock) C"
    and "\<lbrakk>committee_ok enc C; event_fits enc C (ViewChange vcblock)\<rbrakk>
      \<Longrightarrow> UpdateRetrieveDSCommiteeCompositionAfterVC V vcblock C = shared_step (guard_mode V) (ViewChange vcblock) C"
proof -
  have P: "openssl_points_ok (nc_ossl V) enc" "enc (nc_selfPubKey V)" using assms by (simp_all add: observer_ok_def)
  show "UpdateDSCommiteeComposition V C b = Some (shared_step (guard_mode V) (NewDSBlock chain b) C)"
    if "case guard_mode V of None \<Rightarrow> True | Some k \<Rightarrow> k \<le> length C" "event_fits enc C (NewDSBlock chain b)"
      "\<forall>n \<in> set (event_entries (NewDSBlock chain b)). fst n \<noteq> nc_selfPubKey V"
  proof -
    have "own_view (nc_selfPubKey V) (dsh_PoWDSWinners (ds_header b)) = dsh_PoWDSWinners (ds_header b)"
      using that(3) by (intro own_view_outside) (auto simp: event_entries_def)
    then show ?thesis using that add_winners_enter [OF P, of "dsh_PoWDSWinners (ds_header b)" C]
      by (auto simp: UpdateDSCommiteeComposition_def shared_step_def guards_in_front_def guard_mode_def event_fits_def Let_def
          split: if_splits)
  qed
  show "UpdateDSCommiteeCompositionAfterVC V vcblock C = shared_step (guard_mode V) (ViewChange vcblock) C"
    "UpdateRetrieveDSCommiteeCompositionAfterVC V vcblock C = shared_step (guard_mode V) (ViewChange vcblock) C"
    if "committee_ok enc C" "event_fits enc C (ViewChange vcblock)"
    using that eject_leaders_rotate [OF P(1) that(1) _ P(2), of "vch_FaultyLeaders (vc_header vcblock)"]
    by (simp_all add: UpdateDSCommiteeCompositionAfterVC_def UpdateRetrieveDSCommiteeCompositionAfterVC_def shared_step_def
        guard_mode_def event_fits_def)
qed

interpretation observer: committee_follower enc "guard_mode V" "observer_step V" "\<lambda>C s. observer_ok enc V \<and> s = C"
    "\<lambda>n. fst n \<noteq> nc_selfPubKey V"
  for enc :: "'pt \<Rightarrow> bool" and V :: "'pt node_config"
  by unfold_locales (auto simp: observer_step_def outside_updates split: committee_event.splits)

interpretation retriever: committee_follower enc "guard_mode V" "retrieve_step V" "\<lambda>C s. observer_ok enc V \<and> s = C"
    "\<lambda>n. fst n \<noteq> nc_selfPubKey V"
  for enc :: "'pt \<Rightarrow> bool" and V :: "'pt node_config"
  by unfold_locales (auto simp: retrieve_step_def outside_updates split: committee_event.splits)

section \<open>Properties\<close>

text \<open>C8: all nodes follow the same committee. Along any sequence of DS blocks and view changes whose winners have keys of their
  own and whose failed leaders are members, with or without guards, a member, which keeps its own entry without an address and
  recognises itself by that, always has the own view of one shared committee; a node outside that processes the blocks, and one
  that retrieves them later and compares the keys alone, have exactly that committee. It keeps its size and the keys stay
  distinct.\<close>

theorem nodes_share_committee:
  assumes V: "member_ok enc V" and W: "observer_ok enc W" and G: "guard_mode W = guard_mode V"
    and C: "committee_ok enc C" and guards: "case guard_mode V of None \<Rightarrow> True | Some k \<Rightarrow> k \<le> length C"
    and inside: "\<forall>n \<in> set C \<union> (\<Union>e \<in> set es. set (event_entries e)). snd n = nc_selfPeer V \<longleftrightarrow> fst n = nc_selfPubKey V"
    and outside: "\<forall>n \<in> set C \<union> (\<Union>e \<in> set es. set (event_entries e)). fst n \<noteq> nc_selfPubKey W"
    and fits: "events_fit enc (guard_mode V) C es"
  shows "\<exists>C'. committee_after (guard_mode V) es C = C' \<and> committee_ok enc C' \<and> length C' = length C
    \<and> map_option snd (run_steps (member_step V) es (m_allPoWConns, own_view (nc_selfPubKey V) C)) = Some (own_view (nc_selfPubKey V) C')
    \<and> run_steps (observer_step W) es C = Some C'
    \<and> run_steps (retrieve_step W) es C = Some C'"
proof -
  let ?C = "committee_after (guard_mode V) es C"
  obtain s where s: "run_steps (member_step V) es (m_allPoWConns, own_view (nc_selfPubKey V) C) = Some s"
      "snd s = own_view (nc_selfPubKey V) ?C"
    using ds_member.follows_run(1) [OF C guards inside fits, of "(m_allPoWConns, own_view (nc_selfPubKey V) C)"] V by auto
  moreover have "run_steps (observer_step W) es C = Some ?C" "run_steps (retrieve_step W) es C = Some ?C"
    using observer.follows_run(1) [of enc C W es C] retriever.follows_run(1) [of enc C W es C] C guards outside fits W
    by (auto simp: G)
  moreover have "committee_ok enc ?C" "length ?C = length C"
    using ds_member.follows_run(2,3) [OF C guards inside fits, of "(m_allPoWConns, own_view (nc_selfPubKey V) C)"] V by auto
  ultimately show ?thesis by simp
qed

definition toy_node :: "int \<Rightarrow> nat \<Rightarrow> int node_config" where
  "toy_node key ip = \<lparr>nc_ossl = toy, nc_selfPubKey = key, nc_selfPeer = \<lparr>m_ipAddress = ip, m_listenPortHost = 33\<rparr>,
     nc_GUARD_MODE = False, nc_NumOfDSGuard = 0, nc_LOOKUP_NODE_MODE = False\<rparr>"

definition toy_entry :: "int \<Rightarrow> nat \<Rightarrow> int PairOfNode" where
  "toy_entry key ip = (key, \<lparr>m_ipAddress = ip, m_listenPortHost = 33\<rparr>)"

definition toy_winner_block :: "int DSBlock" where
  "toy_winner_block = (DSBlock_default toy)\<lparr>ds_header := (DSBlockHeader_default toy)\<lparr>dsh_PoWDSWinners := [toy_entry 4 4]\<rparr>\<rparr>"

definition toy_view_change :: "int VCBlock" where
  "toy_view_change = (VCBlock_default toy)\<lparr>vc_header := (VCBlockHeader_default toy)\<lparr>vch_FaultyLeaders := [toy_entry 1 1]\<rparr>\<rparr>"

definition toy_committee :: "int DequeOfNode" where
  "toy_committee = [toy_entry 1 1, toy_entry 2 2, toy_entry 3 3]"

definition toy_events :: "int committee_event list" where
  "toy_events = [NewDSBlock \<lparr>m_array = [toy_winner_block], m_capacity = 1, m_size = 1, m_index = 0\<rparr> toy_winner_block,
     ViewChange toy_view_change]"

theorem nodes_share_committee_witness:
  "map_option snd (run_steps (member_step (toy_node 1 1)) toy_events ([], own_view 1 toy_committee))
      = Some [toy_entry 4 4, toy_entry 2 2, (1, Peer_default)]
    \<and> run_steps (observer_step (toy_node 9 9)) toy_events toy_committee = Some [toy_entry 4 4, toy_entry 2 2, toy_entry 1 1]
    \<and> run_steps (retrieve_step (toy_node 9 9)) toy_events toy_committee = Some [toy_entry 4 4, toy_entry 2 2, toy_entry 1 1]"
proof -
  let ?enc = "\<lambda>p. 0 \<le> p \<and> p < (13 :: int)"
  have ok: "member_ok ?enc (toy_node 1 1)" "observer_ok ?enc (toy_node 9 9)"
    by (simp_all add: member_ok_def observer_ok_def toy_node_def toy_points_ok)
  note defs = toy_entry_def toy_node_def toy_winner_block_def toy_view_change_def toy_committee_def toy_events_def
  have mode: "guard_mode (toy_node 9 9) = guard_mode (toy_node 1 1)" "guard_mode (toy_node 1 1) = None"
    by (simp_all add: toy_node_def guard_mode_def)
  have after: "committee_after None toy_events toy_committee = [toy_entry 4 4, toy_entry 2 2, toy_entry 1 1]"
    by (simp add: committee_after_def shared_step_def enter_committee_def defs)
  have fits: "events_fit ?enc (guard_mode (toy_node 1 1)) toy_committee toy_events"
    unfolding mode by (simp add: shared_step_def enter_committee_def event_fits_def GetLastBlock_def CircularArray_back_def vec_at_def defs)
  have C: "committee_ok ?enc toy_committee" by (simp add: committee_ok_def defs)
  have guards: "case guard_mode (toy_node 1 1) of None \<Rightarrow> True | Some k \<Rightarrow> k \<le> length toy_committee" unfolding mode by simp
  have views: "own_view 1 [toy_entry 4 4, toy_entry 2 2, toy_entry 1 1] = [toy_entry 4 4, toy_entry 2 2, (1, Peer_default)]"
    "nc_selfPubKey (toy_node 1 1) = 1" by (simp_all add: own_view_def own_entry_def defs)
  have "\<forall>n \<in> set toy_committee \<union> (\<Union>e \<in> set toy_events. set (event_entries e)).
      snd n = nc_selfPeer (toy_node 1 1) \<longleftrightarrow> fst n = nc_selfPubKey (toy_node 1 1)"
    "\<forall>n \<in> set toy_committee \<union> (\<Union>e \<in> set toy_events. set (event_entries e)). fst n \<noteq> nc_selfPubKey (toy_node 9 9)"
    by (simp_all add: defs event_entries_def)
  from nodes_share_committee [OF ok mode(1) C guards this fits, of "[]"] show ?thesis
    unfolding mode after views(2) ex_simps simp_thms views(1) by (elim exE conjE) (simp only: views(1) simp_thms)
qed

end
