(* ===== verification/Validator.thy ===== *)
theory Validator
  imports Committee
begin

text \<open>
  Checking blocks that other nodes send (\<open>libValidator/Validator.cpp\<close>) and the co-signature checks of the
  handlers in \<open>libNode\<close> and \<open>libDirectoryService\<close>.

  \<open>CheckDirBlocks\<close> walks through DS blocks, view changes and fallbacks and extends the chains of blocks and
  links while it goes; \<open>dir_fits\<close> and \<open>dir_advance\<close> say, without chains and databases, which blocks it may
  accept and what they do to the committee.
\<close>

section \<open>Co-signatures\<close>

text \<open>The keys of the members whose bits are set.\<close>

definition signer_keys :: "bool list \<Rightarrow> 'pt PubKey list \<Rightarrow> 'pt PubKey list" where
  "signer_keys B2 commKeys = map snd (filter fst (zip B2 commKeys))"

text \<open>What the second round signed: the header, the first signature and its bitmap.\<close>

definition cosig_message :: "bytes \<Rightarrow> CoSignatures \<Rightarrow> bytes option" where
  "cosig_message header cosigs =
     (let m1 = fst (Signature_Serialize header (u32 (length header)) (cs_CS1 cosigs))
      in map_option fst (SetBitVector m1 (u32 (length m1)) (cs_B1 cosigs)))"

definition verify_cosig :: "'pt openssl \<Rightarrow> bytes \<Rightarrow> CoSignatures \<Rightarrow> 'pt PubKey \<Rightarrow> bool option" where
  "verify_cosig B header cosigs aggregatedKey = do {
     message \<leftarrow> cosig_message header cosigs;
     MultiSigVerify_range B message 0 (u32 (length message)) (cs_CS2 cosigs) aggregatedKey }"

text \<open>\<open>Validator::CheckBlockCosignature\<close> ignores whether the header could be serialised.\<close>

definition CheckBlockCosignature ::
    "'pt openssl \<Rightarrow> (bytes \<Rightarrow> nat \<Rightarrow> (bytes \<times> bool) option) \<Rightarrow> CoSignatures \<Rightarrow> 'pt PubKey list \<Rightarrow> bool option" where
  "CheckBlockCosignature B Serialize cosigs commKeys =
     (let B2 = cs_B2 cosigs; keys = signer_keys B2 commKeys
      in if length commKeys \<noteq> length B2 then Some False
         else if length keys \<noteq> NumForConsensus (length B2) then Some False
         else case AggregatePubKeys B keys of
                None \<Rightarrow> Some False
              | Some aggregatedKey \<Rightarrow> do {
                  (serializedHeader, _) \<leftarrow> Serialize [] 0;
                  verify_cosig B serializedHeader cosigs aggregatedKey })"

text \<open>The handlers of the node look at that result.\<close>

definition verify_block_cosignature ::
    "'pt openssl \<Rightarrow> (bytes \<Rightarrow> nat \<Rightarrow> (bytes \<times> bool) option) \<Rightarrow> CoSignatures \<Rightarrow> 'pt PubKey list \<Rightarrow> bool option" where
  "verify_block_cosignature B Serialize cosigs commKeys =
     (let B2 = cs_B2 cosigs; keys = signer_keys B2 commKeys
      in if length commKeys \<noteq> length B2 then Some False
         else if length keys \<noteq> NumForConsensus (length B2) then Some False
         else case AggregatePubKeys B keys of
                None \<Rightarrow> Some False
              | Some aggregatedKey \<Rightarrow> do {
                  (message, ok) \<leftarrow> Serialize [] 0;
                  if \<not> ok then Some False else verify_cosig B message cosigs aggregatedKey })"

definition VerifyDSBlockCoSignature :: "'pt block_env \<Rightarrow> 'pt DequeOfNode \<Rightarrow> 'pt DSBlock \<Rightarrow> bool option" where
  "VerifyDSBlockCoSignature E m_DSCommittee dsblock =
     verify_block_cosignature (be_ossl E) (DSBlockHeader_Serialize E (ds_header dsblock)) (bb_cosigs dsblock) (map fst m_DSCommittee)"

definition VerifyVCBlockCoSignature :: "'pt block_env \<Rightarrow> 'pt DequeOfNode \<Rightarrow> 'pt VCBlock \<Rightarrow> bool option" where
  "VerifyVCBlockCoSignature E m_DSCommittee vcblock =
     verify_block_cosignature (be_ossl E) (VCBlockHeader_Serialize E (vc_header vcblock)) (bb_cosigs vcblock) (map fst m_DSCommittee)"

definition VerifyFinalBlockCoSignature :: "'pt block_env \<Rightarrow> 'pt DequeOfNode \<Rightarrow> 'pt TxBlock \<Rightarrow> bool option" where
  "VerifyFinalBlockCoSignature E m_DSCommittee txblock =
     verify_block_cosignature (be_ossl E) (TxBlockHeader_Serialize E (tx_header txblock)) (bb_cosigs txblock) (map fst m_DSCommittee)"

text \<open>\<open>m_shards[shard_id]\<close> is not checked.\<close>

definition VerifyFallbackBlockCoSignature :: "'pt block_env \<Rightarrow> 'pt DequeOfShard \<Rightarrow> 'pt FallbackBlock \<Rightarrow> bool option" where
  "VerifyFallbackBlockCoSignature E m_shards fallbackblock = do {
     shard \<leftarrow> vec_at m_shards (unat (fbh_shardId (fb_header fallbackblock)));
     verify_block_cosignature (be_ossl E) (FallbackBlockHeader_Serialize E (fb_header fallbackblock)) (bb_cosigs fallbackblock) (map fst shard) }"

text \<open>The number of the shard after the last one stands for the directory service.\<close>

definition VerifyMicroBlockCoSignature ::
    "'pt block_env \<Rightarrow> 'pt node_config \<Rightarrow> 'pt DequeOfShard \<Rightarrow> 'pt DequeOfNode \<Rightarrow> 'pt MicroBlock \<Rightarrow> 32 word \<Rightarrow> bool option" where
  "VerifyMicroBlockCoSignature E V m_shards m_DSCommittee microBlock shardId =
     (if nc_LOOKUP_NODE_MODE V then Some True
      else do {
        keys \<leftarrow> (if unat shardId = length m_shards then Some (map fst m_DSCommittee)
                 else map_option (map fst) (vec_at m_shards (unat shardId)));
        verify_block_cosignature (be_ossl E) (MicroBlockHeader_Serialize E (mb_header microBlock)) (bb_cosigs microBlock) keys })"

section \<open>Directory blocks\<close>

datatype 'pt DirBlock =
  DirDS "'pt DSBlock"
| DirVC "'pt VCBlock"
| DirFB "'pt FallbackBlockWShardingStructure"

text \<open>What the validator reads and writes of the mediator, and the storage.\<close>

record ('pt, 'd) Mediator =
  md_dsBlockChain :: "'pt DSBlock CircularArray"
  md_blocklinkchain :: "'pt BlockLinkChain"
  md_storage :: "'d BlockStorage"

record ('pt, 'd) chain_env =
  ce_blocks :: "'pt block_env"
  ce_node :: "'pt node_config"
  ce_db :: "'d leveldb"
  ce_links :: blocklink_protobuf
  ce_BLOCKLINK_VERSION :: nat

definition ds_block_class :: "'pt openssl \<Rightarrow> 'pt DSBlock block_class" where
  "ds_block_class B = \<lparr>GetBlockNum = \<lambda>b. unat (dsh_blockNum (ds_header b)), dummy_block = DSBlock_default B\<rparr>"

text \<open>The variables of the loop.\<close>

record ('pt, 'd) dir_loop = "('pt, 'd) Mediator" +
  mutable_ds_comm :: "'pt DequeOfNode"
  prevdsblocknum :: "64 word"
  totalIndex :: "64 word"
  prevShardingHash :: bytes
  prevHash :: bytes

datatype dir_step = NextBlock | BreakLoop | ReturnFalse

definition add_link ::
    "('pt, 'd) chain_env \<Rightarrow> 64 word \<Rightarrow> BlockType \<Rightarrow> bytes \<Rightarrow> ('pt, 'd) dir_loop \<Rightarrow> ('pt, 'd) dir_loop option" where
  "add_link E dsindex blocktype blkhash s = do {
     (_, c, S) \<leftarrow> AddBlockLink (ce_db E) (ce_links E) (ce_BLOCKLINK_VERSION E) (unat (totalIndex s)) (unat dsindex) blocktype blkhash
        (md_blocklinkchain s, md_storage s);
     Some (s\<lparr>md_blocklinkchain := c, md_storage := S\<rparr>) }"

definition check_ds_block :: "('pt, 'd) chain_env \<Rightarrow> 'pt DSBlock \<Rightarrow> ('pt, 'd) dir_loop \<Rightarrow> (dir_step \<times> ('pt, 'd) dir_loop) option" where
  "check_ds_block E dsblock s =
     (if dsh_blockNum (ds_header dsblock) \<noteq> prevdsblocknum s + 1 then Some (BreakLoop, s)
      else do {
        cosigned \<leftarrow> CheckBlockCosignature (be_ossl (ce_blocks E)) (DSBlockHeader_Serialize (ce_blocks E) (ds_header dsblock))
          (bb_cosigs dsblock) (map fst (mutable_ds_comm s));
        if \<not> cosigned then Some (BreakLoop, s)
        else if prevHash s \<noteq> hb_prevHash (ds_header dsblock) then Some (BreakLoop, s)
        else do {
          let s1 = s\<lparr>prevdsblocknum := prevdsblocknum s + 1, prevShardingHash := dsh_shardingHash (ds_header dsblock)\<rparr>;
          s2 \<leftarrow> add_link E (prevdsblocknum s1) BlockType_DS (bb_blockHash dsblock) s1;
          (_, chain) \<leftarrow> AddBlock (ds_block_class (be_ossl (ce_blocks E))) dsblock (md_dsBlockChain s2);
          let s3 = s2\<lparr>md_dsBlockChain := chain\<rparr>;
          (serializedDSBlock, _) \<leftarrow> Messenger_SetDSBlock (ce_blocks E) [] 0 dsblock;
          let s4 = s3\<lparr>prevHash := bb_blockHash dsblock\<rparr>;
          (stored, S) \<leftarrow> PutDSBlock (ce_db E) (unat (dsh_blockNum (ds_header dsblock))) serializedDSBlock (md_storage s4);
          let s5 = s4\<lparr>md_storage := S\<rparr>;
          if \<not> stored then Some (ReturnFalse, s5)
          else do {
            comm \<leftarrow> UpdateDSCommiteeComposition (ce_node E) (mutable_ds_comm s5) dsblock;
            let s6 = s5\<lparr>mutable_ds_comm := comm, totalIndex := totalIndex s5 + 1\<rparr>;
            (reset, S') \<leftarrow> BlockStorage_ResetDB (nc_LOOKUP_NODE_MODE (ce_node E)) (ce_db E) STATE_DELTA (md_storage s6);
            Some (if reset then NextBlock else ReturnFalse, s6\<lparr>md_storage := S'\<rparr>) } } })"

definition check_vc_block :: "('pt, 'd) chain_env \<Rightarrow> 'pt VCBlock \<Rightarrow> ('pt, 'd) dir_loop \<Rightarrow> (dir_step \<times> ('pt, 'd) dir_loop) option" where
  "check_vc_block E vcblock s =
     (if vch_ViewChangeDSEpochNo (vc_header vcblock) \<noteq> prevdsblocknum s + 1 then Some (BreakLoop, s)
      else do {
        cosigned \<leftarrow> CheckBlockCosignature (be_ossl (ce_blocks E)) (VCBlockHeader_Serialize (ce_blocks E) (vc_header vcblock))
          (bb_cosigs vcblock) (map fst (mutable_ds_comm s));
        if \<not> cosigned then Some (BreakLoop, s)
        else if prevHash s \<noteq> hb_prevHash (vc_header vcblock) then Some (BreakLoop, s)
        else do {
          let s1 = s\<lparr>mutable_ds_comm := UpdateRetrieveDSCommiteeCompositionAfterVC (ce_node E) vcblock (mutable_ds_comm s)\<rparr>;
          s2 \<leftarrow> add_link E (prevdsblocknum s1 + 1) BlockType_VC (bb_blockHash vcblock) s1;
          (vcblockserialized, _) \<leftarrow> Messenger_SetVCBlock (ce_blocks E) [] 0 vcblock;
          (stored, S) \<leftarrow> PutVCBlock (ce_db E) (bb_blockHash vcblock) vcblockserialized (md_storage s2);
          let s3 = s2\<lparr>md_storage := S\<rparr>;
          if \<not> stored then Some (ReturnFalse, s3)
          else Some (NextBlock, s3\<lparr>prevHash := bb_blockHash vcblock, totalIndex := totalIndex s3 + 1\<rparr>) } })"

text \<open>\<open>shards.at(shard_id)\<close> throws for an unknown shard, before the co-signature is checked.\<close>

definition check_fb_block ::
    "('pt, 'd) chain_env \<Rightarrow> 'pt FallbackBlockWShardingStructure \<Rightarrow> ('pt, 'd) dir_loop \<Rightarrow> (dir_step \<times> ('pt, 'd) dir_loop) option" where
  "check_fb_block E fbs s =
     (let fallbackblock = fbs_fallbackblock fbs; header = fb_header fallbackblock; shards = fbs_shards fbs
      in if fbh_fallbackDSEpochNo header \<noteq> prevdsblocknum s + 1 then Some (BreakLoop, s)
         else if prevHash s \<noteq> hb_prevHash header then Some (BreakLoop, s)
         else do {
           hashed \<leftarrow> GetShardingStructureHash (ce_blocks E) (SHARDINGSTRUCTURE_VERSION (ce_blocks E)) shards;
           if hashed \<noteq> Some (prevShardingHash s) then Some (BreakLoop, s)
           else do {
             shard \<leftarrow> vec_at shards (unat (fbh_shardId header));
             cosigned \<leftarrow> CheckBlockCosignature (be_ossl (ce_blocks E)) (FallbackBlockHeader_Serialize (ce_blocks E) header)
               (bb_cosigs fallbackblock) (map fst shard);
             if \<not> cosigned then Some (BreakLoop, s)
             else do {
               comm \<leftarrow> UpdateDSCommitteeAfterFallback (be_ossl (ce_blocks E)) (fbh_shardId header) (fbh_leaderPubKey header)
                 (fbh_leaderNetworkInfo header) (mutable_ds_comm s) shards;
               let s1 = s\<lparr>mutable_ds_comm := comm\<rparr>;
               s2 \<leftarrow> add_link E (prevdsblocknum s1 + 1) BlockType_FB (bb_blockHash fallbackblock) s1;
               (fallbackblockser, _) \<leftarrow> FallbackBlockWShardingStructure_Serialize (ce_blocks E) fbs [] 0;
               (stored, S) \<leftarrow> PutFallbackBlock (ce_db E) (bb_blockHash fallbackblock) fallbackblockser (md_storage s2);
               let s3 = s2\<lparr>md_storage := S\<rparr>;
               if \<not> stored then Some (ReturnFalse, s3)
               else Some (NextBlock, s3\<lparr>prevHash := bb_blockHash fallbackblock, totalIndex := totalIndex s3 + 1\<rparr>) } } })"

definition check_dir_block :: "('pt, 'd) chain_env \<Rightarrow> 'pt DirBlock \<Rightarrow> ('pt, 'd) dir_loop \<Rightarrow> (dir_step \<times> ('pt, 'd) dir_loop) option" where
  "check_dir_block E dirBlock s = (case dirBlock of
     DirDS dsblock \<Rightarrow> check_ds_block E dsblock s
   | DirVC vcblock \<Rightarrow> check_vc_block E vcblock s
   | DirFB fbs \<Rightarrow> check_fb_block E fbs s)"

fun check_dir_loop :: "('pt, 'd) chain_env \<Rightarrow> 'pt DirBlock list \<Rightarrow> ('pt, 'd) dir_loop \<Rightarrow> (dir_step \<times> ('pt, 'd) dir_loop) option" where
  "check_dir_loop E [] s = Some (NextBlock, s)"
| "check_dir_loop E (dirBlock # dirBlocks) s = do {
     (r, s1) \<leftarrow> check_dir_block E dirBlock s;
     if r = NextBlock then check_dir_loop E dirBlocks s1 else Some (r, s1) }"

text \<open>The result, \<open>newDSComm\<close> and the mediator; a failure of the storage returns at once and leaves \<open>newDSComm\<close> alone.\<close>

definition CheckDirBlocks ::
    "('pt, 'd) chain_env \<Rightarrow> 'pt DirBlock list \<Rightarrow> 'pt DequeOfNode \<Rightarrow> 64 word \<Rightarrow> 'pt DequeOfNode \<Rightarrow> ('pt, 'd) Mediator
     \<Rightarrow> (bool \<times> 'pt DequeOfNode \<times> ('pt, 'd) Mediator) option" where
  "CheckDirBlocks E dirBlocks initDsComm index_num newDSComm M = do {
     lastBlock \<leftarrow> GetLastBlock (md_dsBlockChain M);
     link \<leftarrow> GetLatestBlockLink (md_blocklinkchain M);
     let s = \<lparr>md_dsBlockChain = md_dsBlockChain M, md_blocklinkchain = md_blocklinkchain M, md_storage = md_storage M,
              mutable_ds_comm = initDsComm, prevdsblocknum = dsh_blockNum (ds_header lastBlock), totalIndex = index_num,
              prevShardingHash = dsh_shardingHash (ds_header lastBlock), prevHash = bl_blockhash link\<rparr>;
     (r, s') \<leftarrow> check_dir_loop E dirBlocks s;
     let M' = \<lparr>md_dsBlockChain = md_dsBlockChain s', md_blocklinkchain = md_blocklinkchain s', md_storage = md_storage s'\<rparr>;
     Some (if r = ReturnFalse then (False, newDSComm, M') else (r = NextBlock, mutable_ds_comm s', M')) }"

section \<open>Transaction blocks\<close>

datatype TxBlockValidationMsg = VALID | STALEDSINFO | INVALID

fun check_prev_hashes :: "'pt block_env \<Rightarrow> bytes \<Rightarrow> 'pt TxBlock list \<Rightarrow> TxBlockValidationMsg option" where
  "check_prev_hashes E prevBlockHash [] = Some VALID"
| "check_prev_hashes E prevBlockHash (b # bs) = do {
     myHash \<leftarrow> GetMyHash (be_ossl E) (TxBlockHeader_Serialize E (tx_header b));
     if prevBlockHash \<noteq> myHash then Some INVALID
     else check_prev_hashes E (hb_prevHash (tx_header b)) bs }"

text \<open>The blocks before the last one are visited backwards. \<open>back()\<close> of an empty vector has no behaviour.\<close>

definition CheckTxBlocks :: "'pt block_env \<Rightarrow> 'pt TxBlock list \<Rightarrow> 'pt DequeOfNode \<Rightarrow> BlockLink \<Rightarrow> TxBlockValidationMsg option" where
  "CheckTxBlocks E txBlocks dsComm latestBlockLink =
     (if bl_blocktype latestBlockLink \<noteq> BlockType_DS \<and> bl_dsindex latestBlockLink = 0 then Some INVALID
      else if txBlocks = [] then None
      else let latestDSIndex = (if bl_blocktype latestBlockLink \<noteq> BlockType_DS then bl_dsindex latestBlockLink - 1
                                else bl_dsindex latestBlockLink);
               latestTxBlock = last txBlocks; dsBlockNum = unat (txh_dsBlockNum (tx_header latestTxBlock))
           in if dsBlockNum \<noteq> latestDSIndex then Some (if latestDSIndex > dsBlockNum then INVALID else STALEDSINFO)
              else do {
                cosigned \<leftarrow> CheckBlockCosignature (be_ossl E) (TxBlockHeader_Serialize E (tx_header latestTxBlock))
                  (bb_cosigs latestTxBlock) (map fst dsComm);
                if \<not> cosigned then Some INVALID
                else check_prev_hashes E (hb_prevHash (tx_header latestTxBlock)) (List.rev (butlast txBlocks)) })"

end
