(* ===== verification/DirectoryChain.thy ===== *)
theory DirectoryChain
  imports Validator
begin

text \<open>
  What the checks of \<open>Validator\<close> guarantee: which blocks \<open>CheckDirBlocks\<close> accepts, what it then leaves in the
  chains and in the storage, and what a list of transaction blocks accepted by \<open>CheckTxBlocks\<close> is worth.
\<close>

section \<open>Co-signatures\<close>

text \<open>A header that is signed by exactly as many members as the consensus asks for, over the header extended with the
  signature and the bitmap of the first round.\<close>

definition block_cosigned :: "'pt openssl \<Rightarrow> bytes \<Rightarrow> CoSignatures \<Rightarrow> 'pt PubKey list \<Rightarrow> bool" where
  "block_cosigned B header cosigs commKeys \<longleftrightarrow>
     length (cs_B2 cosigs) = length commKeys
     \<and> length (signer_keys (cs_B2 cosigs) commKeys) = NumForConsensus (length commKeys)
     \<and> (\<exists>key message. AggregatePubKeys B (signer_keys (cs_B2 cosigs) commKeys) = Some key
          \<and> extended header (cs_CS1 cosigs) (cs_B1 cosigs) message
          \<and> MultiSigVerify B message (cs_CS2 cosigs) key = Some True)"

definition cosigs_ok :: "CoSignatures \<Rightarrow> bool" where
  "cosigs_ok c \<longleftrightarrow> Signature_fits (cs_CS1 c) \<and> length (cs_B1 c) < 2 ^ 16"

lemma extended_iff: "extended header (cs_CS1 c) (cs_B1 c) message \<longleftrightarrow> cosig_message header c = Some message"
  by (auto simp: extended_def cosig_message_def Let_def)

lemma cosig_message_total:
  assumes "cosigs_ok c" "length header < 2 ^ 31"
  shows "\<exists>message. cosig_message header c = Some message"
proof -
  let ?m1 = "fst (Signature_Serialize header (u32 (length header)) (cs_CS1 c))"
  have "u32 (length header) = length header" using assms(2) by (simp add: u32_id)
  then have len: "length ?m1 = length header + 64"
    using Signature_roundtrip_aux(2) [of "cs_CS1 c" "length header" header] assms by (simp add: cosigs_ok_def)
  moreover have "(length (cs_B1 c) + 7) div 8 < 2 ^ 16" using assms(1) unfolding cosigs_ok_def by linarith
  ultimately have "u32 (length ?m1) + 2 + (length (cs_B1 c) + 7) div 8 < 2 ^ 32" "length ?m1 < 2 ^ 32"
    using assms(2) by (simp_all add: u32_id)
  then show ?thesis using SetBitVector_result [of "cs_B1 c" "u32 (length ?m1)" ?m1] assms(1)
    by (auto simp: cosig_message_def Let_def cosigs_ok_def)
qed

lemma CheckBlockCosignature_iff:
  assumes "Serialize [] 0 = Some (header, ok)" "length header < 2 ^ 31" "cosigs_ok c"
  shows "CheckBlockCosignature B Serialize c keys = Some (block_cosigned B header c keys)"
    and "verify_block_cosignature B Serialize c keys = Some (ok \<and> block_cosigned B header c keys)"
proof -
  obtain message where message: "cosig_message header c = Some message" using cosig_message_total [OF assms(3,2)] by blast
  define r where "r key = the (MultiSigVerify_range B message 0 (u32 (length message)) (cs_CS2 c) key)" for key
  have r: "MultiSigVerify_range B message 0 (u32 (length message)) (cs_CS2 c) key = Some (r key)" for key
    using MultiSigVerify_total [of B message "cs_CS2 c" key] by (simp add: MultiSigVerify_def r_def)
  show "CheckBlockCosignature B Serialize c keys = Some (block_cosigned B header c keys)"
    using assms(1) by (auto simp: r CheckBlockCosignature_def block_cosigned_def verify_cosig_def extended_iff message Let_def
        MultiSigVerify_def split: option.splits)
  show "verify_block_cosignature B Serialize c keys = Some (ok \<and> block_cosigned B header c keys)"
    using assms(1) by (auto simp: r verify_block_cosignature_def block_cosigned_def verify_cosig_def extended_iff message Let_def
        MultiSigVerify_def split: option.splits)
qed

text \<open>A header can always be serialised, but a message above the limit of the protobuf runtime is not written.\<close>

definition header_bytes :: "(bytes \<Rightarrow> nat \<Rightarrow> (bytes \<times> bool) option) \<Rightarrow> bytes" where
  "header_bytes Serialize = (case Serialize [] 0 of None \<Rightarrow> [] | Some (header, ok) \<Rightarrow> header)"

lemma set_message_start:
  "m = Some p \<Longrightarrow> \<exists>ok. set_message w m [] 0 = Some (header_bytes (set_message w m), ok) \<and> length (header_bytes (set_message w m)) < 2 ^ 31"
proof -
  assume m: "m = Some p"
  show ?thesis
  proof (cases "length (ToArray w p) < 2 ^ 31")
    case True
    then show ?thesis using SerializeToArray_at_end [of "ToArray w p" "[]"] SerializeToArray_succeeds [of "[]" "ToArray w p"]
      by (simp add: m set_message_def header_bytes_def)
  qed (simp add: m set_message_def header_bytes_def SerializeToArray_def)
qed

lemma Peer_out_total: "\<exists>b. Peer_out p = Some b"
proof -
  have "length (number_field_put 16 [] 0 (m_ipAddress p)) = 16" by (simp add: number_field_put_def)
  then show ?thesis by (simp add: SerializableToProtobufByteArray_def Peer_Serialize_def Serializable_SetNumber_eq u32_def)
qed

lemma nodes_out_total: "\<exists>ps. nodes_out B ns = Some ps"
proof (induction ns)
  case (Cons n ns)
  then show ?case using Peer_out_total [of "snd n"] by (auto simp: PubKey_out_eq)
qed simp

lemma headers_total:
  "\<exists>p. DSBlockHeaderToProtobuf E h1 v = Some p" "\<exists>p. VCBlockHeaderToProtobuf E h2 = Some p"
  "\<exists>p. FallbackBlockHeaderToProtobuf E h3 = Some p" "\<exists>p. TxBlockHeaderToProtobuf E h4 = Some p"
  "\<exists>p. MicroBlockHeaderToProtobuf E h5 = Some p"
proof -
  obtain ws where "nodes_out (be_ossl E) (dsh_PoWDSWinners h1) = Some ws" using nodes_out_total by blast
  then show "\<exists>p. DSBlockHeaderToProtobuf E h1 v = Some p" by (simp add: DSBlockHeaderToProtobuf_def block_fields)
  obtain b ns where "Peer_out (vch_CandidateLeaderNetworkInfo h2) = Some b" "nodes_out (be_ossl E) (vch_FaultyLeaders h2) = Some ns"
    using Peer_out_total nodes_out_total by blast
  then show "\<exists>p. VCBlockHeaderToProtobuf E h2 = Some p"
    by (simp add: VCBlockHeaderToProtobuf_def FaultyLeaderToProtobuf_def block_fields)
  obtain b' where "Peer_out (fbh_leaderNetworkInfo h3) = Some b'" using Peer_out_total by blast
  then show "\<exists>p. FallbackBlockHeaderToProtobuf E h3 = Some p" by (simp add: FallbackBlockHeaderToProtobuf_def block_fields)
  show "\<exists>p. TxBlockHeaderToProtobuf E h4 = Some p" by (simp add: TxBlockHeaderToProtobuf_def block_fields)
  show "\<exists>p. MicroBlockHeaderToProtobuf E h5 = Some p" by (simp add: MicroBlockHeaderToProtobuf_def block_fields)
qed

lemma header_serialized:
  "\<exists>ok. DSBlockHeader_Serialize E h1 [] 0 = Some (header_bytes (DSBlockHeader_Serialize E h1), ok)
     \<and> length (header_bytes (DSBlockHeader_Serialize E h1)) < 2 ^ 31"
  "\<exists>ok. VCBlockHeader_Serialize E h2 [] 0 = Some (header_bytes (VCBlockHeader_Serialize E h2), ok)
     \<and> length (header_bytes (VCBlockHeader_Serialize E h2)) < 2 ^ 31"
  "\<exists>ok. FallbackBlockHeader_Serialize E h3 [] 0 = Some (header_bytes (FallbackBlockHeader_Serialize E h3), ok)
     \<and> length (header_bytes (FallbackBlockHeader_Serialize E h3)) < 2 ^ 31"
  "\<exists>ok. TxBlockHeader_Serialize E h4 [] 0 = Some (header_bytes (TxBlockHeader_Serialize E h4), ok)
     \<and> length (header_bytes (TxBlockHeader_Serialize E h4)) < 2 ^ 31"
proof -
  have "DSBlockHeader_Serialize E h1 = set_message (wDSBlockHeader (be_proto E)) (DSBlockHeaderToProtobuf E h1 False)"
    "VCBlockHeader_Serialize E h2 = set_message (wVCBlockHeader (be_proto E)) (VCBlockHeaderToProtobuf E h2)"
    "FallbackBlockHeader_Serialize E h3 = set_message (wFallbackBlockHeader (be_proto E)) (FallbackBlockHeaderToProtobuf E h3)"
    "TxBlockHeader_Serialize E h4 = set_message (wTxBlockHeader (be_proto E)) (TxBlockHeaderToProtobuf E h4)"
    by (intro ext; simp add: DSBlockHeader_Serialize_def Messenger_SetDSBlockHeader_def VCBlockHeader_Serialize_def
        Messenger_SetVCBlockHeader_def FallbackBlockHeader_Serialize_def Messenger_SetFallbackBlockHeader_def
        TxBlockHeader_Serialize_def Messenger_SetTxBlockHeader_def)+
  then show "\<exists>ok. DSBlockHeader_Serialize E h1 [] 0 = Some (header_bytes (DSBlockHeader_Serialize E h1), ok)
     \<and> length (header_bytes (DSBlockHeader_Serialize E h1)) < 2 ^ 31"
  "\<exists>ok. VCBlockHeader_Serialize E h2 [] 0 = Some (header_bytes (VCBlockHeader_Serialize E h2), ok)
     \<and> length (header_bytes (VCBlockHeader_Serialize E h2)) < 2 ^ 31"
  "\<exists>ok. FallbackBlockHeader_Serialize E h3 [] 0 = Some (header_bytes (FallbackBlockHeader_Serialize E h3), ok)
     \<and> length (header_bytes (FallbackBlockHeader_Serialize E h3)) < 2 ^ 31"
  "\<exists>ok. TxBlockHeader_Serialize E h4 [] 0 = Some (header_bytes (TxBlockHeader_Serialize E h4), ok)
     \<and> length (header_bytes (TxBlockHeader_Serialize E h4)) < 2 ^ 31"
    using set_message_start headers_total by metis+
qed

text \<open>The checks as predicates; the node and the validator agree on headers that can be written.\<close>

definition signed_by :: "'pt openssl \<Rightarrow> (bytes \<Rightarrow> nat \<Rightarrow> (bytes \<times> bool) option) \<Rightarrow> 'z BlockBase_scheme \<Rightarrow> 'pt PubKey list \<Rightarrow> bool" where
  "signed_by B Serialize b keys \<longleftrightarrow> block_cosigned B (header_bytes Serialize) (bb_cosigs b) keys"

lemma cosignature_checks:
  assumes "cosigs_ok (bb_cosigs b)"
  shows "CheckBlockCosignature B (DSBlockHeader_Serialize E h1) (bb_cosigs b) keys = Some (signed_by B (DSBlockHeader_Serialize E h1) b keys)"
    "CheckBlockCosignature B (VCBlockHeader_Serialize E h2) (bb_cosigs b) keys = Some (signed_by B (VCBlockHeader_Serialize E h2) b keys)"
    "CheckBlockCosignature B (FallbackBlockHeader_Serialize E h3) (bb_cosigs b) keys
      = Some (signed_by B (FallbackBlockHeader_Serialize E h3) b keys)"
    "CheckBlockCosignature B (TxBlockHeader_Serialize E h4) (bb_cosigs b) keys = Some (signed_by B (TxBlockHeader_Serialize E h4) b keys)"
  using header_serialized [of E] assms CheckBlockCosignature_iff(1) unfolding signed_by_def by metis+

text \<open>The handlers of the node differ from the validator only for headers that cannot be written.\<close>

lemma node_checks_agree:
  assumes "verify_block_cosignature B Serialize c keys = Some True"
  shows "CheckBlockCosignature B Serialize c keys = Some True"
  using assms by (auto simp: verify_block_cosignature_def CheckBlockCosignature_def Let_def split: if_splits option.splits bind_splits)

section \<open>The storage\<close>

text \<open>A disk on which writing and destroying succeed, and a storage whose tables are open.\<close>

definition disk_works :: "'d leveldb \<Rightarrow> bool" where
  "disk_works D \<longleftrightarrow> writes_succeed D \<and> (\<forall>d p. snd (ldb_DestroyDB D d p))"

definition storage_ready :: "'d BlockStorage \<Rightarrow> bool" where
  "storage_ready S \<longleftrightarrow> is_open (m_dsBlockchainDB S) \<and> is_open (m_metadataDB S) \<and> is_open (m_VCBlockDB S)
     \<and> is_open (m_fallbackBlockDB S) \<and> m_subdirectory (m_stateDeltaDB S) = []"

text \<open>The tables of DS blocks, view changes and fallbacks: the stored body under every key.\<close>

type_synonym dir_tables = "(bytes \<rightharpoonup> bytes) \<times> (bytes \<rightharpoonup> bytes) \<times> (bytes \<rightharpoonup> bytes)"

definition dir_tables :: "'d leveldb \<Rightarrow> 'd BlockStorage \<Rightarrow> dir_tables" where
  "dir_tables D S = (contents D (m_dsBlockchainDB S), contents D (m_VCBlockDB S), contents D (m_fallbackBlockDB S))"

lemma insert_succeeds:
  assumes "writes_succeed D" "is_open L"
  shows "\<exists>L'. LevelDB_Insert D L k v = Some (L', 0) \<and> is_open L' \<and> contents D L' = (contents D L)(k \<mapsto> v)"
proof -
  have "\<exists>L'. LevelDB_Insert D L k v = Some (L', 0) \<and> is_open L'"
    using assms by (auto simp: LevelDB_Insert_def is_open_def writes_succeed_def split: prod.splits) (metis snd_conv)
  then obtain L' where L': "LevelDB_Insert D L k v = Some (L', 0)" by blast
  have "leveldb_ok D" using assms(1) by (simp add: writes_succeed_def)
  from LevelDB_Insert_contents [OF this L' refl] L' show ?thesis by blast
qed

lemma stores_succeed:
  assumes D: "disk_works D" and S: "storage_ready S"
  shows "\<exists>S'. PutDSBlock D n body S = Some (True, S') \<and> storage_ready S' \<and> m_blockLinkDB S' = m_blockLinkDB S
      \<and> (\<forall>ds vc fb. dir_tables D S = (ds, vc, fb) \<longrightarrow> dir_tables D S' = (ds(to_decimal n \<mapsto> body), vc, fb))"
    and "\<exists>S'. PutVCBlock D h body S = Some (True, S') \<and> storage_ready S' \<and> m_blockLinkDB S' = m_blockLinkDB S
      \<and> (\<forall>ds vc fb. dir_tables D S = (ds, vc, fb) \<longrightarrow> dir_tables D S' = (ds, vc(toHex h \<mapsto> body), fb))"
    and "\<exists>S'. PutFallbackBlock D h body S = Some (True, S') \<and> storage_ready S' \<and> m_blockLinkDB S' = m_blockLinkDB S
      \<and> (\<forall>ds vc fb. dir_tables D S = (ds, vc, fb) \<longrightarrow> dir_tables D S' = (ds, vc, fb(toHex h \<mapsto> body)))"
    and "\<exists>S'. BlockStorage_ResetDB mode D STATE_DELTA S = Some (True, S') \<and> storage_ready S' \<and> m_blockLinkDB S' = m_blockLinkDB S
      \<and> dir_tables D S' = dir_tables D S"
proof -
  have w: "writes_succeed D" using D by (simp add: disk_works_def)
  note put = insert_succeeds [OF w]
  show "\<exists>S'. PutDSBlock D n body S = Some (True, S') \<and> storage_ready S' \<and> m_blockLinkDB S' = m_blockLinkDB S
      \<and> (\<forall>ds vc fb. dir_tables D S = (ds, vc, fb) \<longrightarrow> dir_tables D S' = (ds(to_decimal n \<mapsto> body), vc, fb))"
    using S put [of "m_dsBlockchainDB S" "to_decimal n" body] put [of "m_metadataDB S" "to_decimal DSINCOMPLETED" "[49]"]
    by (auto simp: PutDSBlock_def PutBlock_def PutMetadata_def storage_ready_def dir_tables_def)
  show "\<exists>S'. PutVCBlock D h body S = Some (True, S') \<and> storage_ready S' \<and> m_blockLinkDB S' = m_blockLinkDB S
      \<and> (\<forall>ds vc fb. dir_tables D S = (ds, vc, fb) \<longrightarrow> dir_tables D S' = (ds, vc(toHex h \<mapsto> body), fb))"
    using S put [of "m_VCBlockDB S" "toHex h" body] by (auto simp: PutVCBlock_def storage_ready_def dir_tables_def)
  show "\<exists>S'. PutFallbackBlock D h body S = Some (True, S') \<and> storage_ready S' \<and> m_blockLinkDB S' = m_blockLinkDB S
      \<and> (\<forall>ds vc fb. dir_tables D S = (ds, vc, fb) \<longrightarrow> dir_tables D S' = (ds, vc, fb(toHex h \<mapsto> body)))"
    using S put [of "m_fallbackBlockDB S" "toHex h" body] by (auto simp: PutFallbackBlock_def storage_ready_def dir_tables_def)
  have destroyed: "\<exists>d'. ldb_DestroyDB D d p = (d', True)" for d p
    using D unfolding disk_works_def by (metis prod.collapse)
  have "\<exists>L'. LevelDB_ResetDB mode D L = (L', True) \<and> m_subdirectory L' = []" if "m_subdirectory L = []" for L
    using that destroyed [of "m_files L" "Persistence []"] destroyed [of "m_files L" Cwd]
    by (auto simp: LevelDB_ResetDB_def ResetDBForNormalNode_def ResetDBForLookupNode_def DeleteDBForNormalNode_def
        DeleteDBForLookupNode_def reopen_empty_def split: prod.splits)
  then obtain L' where "LevelDB_ResetDB mode D (m_stateDeltaDB S) = (L', True)" "m_subdirectory L' = []"
    using S by (auto simp: storage_ready_def)
  then show "\<exists>S'. BlockStorage_ResetDB mode D STATE_DELTA S = Some (True, S') \<and> storage_ready S' \<and> m_blockLinkDB S' = m_blockLinkDB S
      \<and> dir_tables D S' = dir_tables D S"
    using S by (simp add: BlockStorage_ResetDB_def zero_counter_def storage_ready_def dir_tables_def)
qed

lemma AddBlockLink_frame:
  assumes "AddBlockLink D P ver i n t h (c, S) = Some (r, c', S')"
  shows "S' = S\<lparr>m_blockLinkDB := m_blockLinkDB S'\<rparr>"
  using assms by (auto simp: AddBlockLink_def PutBlockLink_def Let_def split: if_splits bind_splits prod.splits)

lemma storage_ready_frame:
  "storage_ready (S\<lparr>m_blockLinkDB := L\<rparr>) = storage_ready S" "dir_tables D (S\<lparr>m_blockLinkDB := L\<rparr>) = dir_tables D S"
  by (simp_all add: storage_ready_def dir_tables_def)

lemma link_rep_frame:
  "m_blockLinkDB S' = m_blockLinkDB S \<Longrightarrow> link_rep D P ver (c, S') xs = link_rep D P ver (c, S) xs"
  by (simp add: link_rep_def GetBlockLink_def)

section \<open>Directory blocks\<close>

text \<open>What a node knows while it follows the directory blocks: the committee, the number of the last DS block, the hash of the
  sharding structure and the hash of the last block.\<close>

type_synonym 'pt dir_view = "'pt DequeOfNode \<times> 64 word \<times> bytes \<times> bytes"

text \<open>The blocks that may follow. A DS block and a view change are signed by the committee in force, a fallback by the
  shard that takes over.\<close>

fun dir_fits :: "('pt, 'd) chain_env \<Rightarrow> 'pt dir_view \<Rightarrow> 'pt DirBlock \<Rightarrow> bool" where
  "dir_fits E (C, n, sharding, prev) (DirDS b) \<longleftrightarrow>
     dsh_blockNum (ds_header b) = n + 1 \<and> hb_prevHash (ds_header b) = prev
     \<and> signed_by (be_ossl (ce_blocks E)) (DSBlockHeader_Serialize (ce_blocks E) (ds_header b)) b (map fst C)"
| "dir_fits E (C, n, sharding, prev) (DirVC b) \<longleftrightarrow>
     vch_ViewChangeDSEpochNo (vc_header b) = n + 1 \<and> hb_prevHash (vc_header b) = prev
     \<and> signed_by (be_ossl (ce_blocks E)) (VCBlockHeader_Serialize (ce_blocks E) (vc_header b)) b (map fst C)"
| "dir_fits E (C, n, sharding, prev) (DirFB f) \<longleftrightarrow>
     (let b = fbs_fallbackblock f; h = fb_header b
      in fbh_fallbackDSEpochNo h = n + 1 \<and> hb_prevHash h = prev
         \<and> GetShardingStructureHash (ce_blocks E) (SHARDINGSTRUCTURE_VERSION (ce_blocks E)) (fbs_shards f) = Some (Some sharding)
         \<and> unat (fbh_shardId h) < length (fbs_shards f)
         \<and> signed_by (be_ossl (ce_blocks E)) (FallbackBlockHeader_Serialize (ce_blocks E) h) b
             (map fst (fbs_shards f ! unat (fbh_shardId h))))"

text \<open>A fallback that fits so far but names a shard its sharding structure does not have: looking up the shard throws.\<close>

fun dir_throws :: "('pt, 'd) chain_env \<Rightarrow> 'pt dir_view \<Rightarrow> 'pt DirBlock \<Rightarrow> bool" where
  "dir_throws E (C, n, sharding, prev) (DirFB f) \<longleftrightarrow>
     (let h = fb_header (fbs_fallbackblock f)
      in fbh_fallbackDSEpochNo h = n + 1 \<and> hb_prevHash h = prev
         \<and> GetShardingStructureHash (ce_blocks E) (SHARDINGSTRUCTURE_VERSION (ce_blocks E)) (fbs_shards f) = Some (Some sharding)
         \<and> length (fbs_shards f) \<le> unat (fbh_shardId h))"
| "dir_throws E v d = False"

definition dir_hash :: "'pt DirBlock \<Rightarrow> bytes" where
  "dir_hash d = (case d of DirDS b \<Rightarrow> bb_blockHash b | DirVC b \<Rightarrow> bb_blockHash b | DirFB f \<Rightarrow> bb_blockHash (fbs_fallbackblock f))"

definition dir_type :: "'pt DirBlock \<Rightarrow> BlockType" where
  "dir_type d = (case d of DirDS b \<Rightarrow> BlockType_DS | DirVC b \<Rightarrow> BlockType_VC | DirFB f \<Rightarrow> BlockType_FB)"

fun dir_advance :: "('pt, 'd) chain_env \<Rightarrow> 'pt DirBlock \<Rightarrow> 'pt dir_view \<Rightarrow> 'pt dir_view" where
  "dir_advance E (DirDS b) (C, n, sharding, prev) =
     (the (UpdateDSCommiteeComposition (ce_node E) C b), n + 1, dsh_shardingHash (ds_header b), bb_blockHash b)"
| "dir_advance E (DirVC b) (C, n, sharding, prev) =
     (UpdateRetrieveDSCommiteeCompositionAfterVC (ce_node E) b C, n, sharding, bb_blockHash b)"
| "dir_advance E (DirFB f) (C, n, sharding, prev) =
     (let b = fbs_fallbackblock f; h = fb_header b
      in (the (UpdateDSCommitteeAfterFallback (be_ossl (ce_blocks E)) (fbh_shardId h) (fbh_leaderPubKey h) (fbh_leaderNetworkInfo h)
                 C (fbs_shards f)), n, sharding, bb_blockHash b))"

definition dir_link :: "nat \<Rightarrow> nat \<Rightarrow> 'pt dir_view \<Rightarrow> 'pt DirBlock \<Rightarrow> BlockLink" where
  "dir_link ver i v d = \<lparr>bl_version = ver, bl_index = i, bl_dsindex = unat (fst (snd v) + 1), bl_blocktype = dir_type d,
     bl_blockhash = dir_hash d\<rparr>"

text \<open>The accepted prefix, whether the block behind it throws, the view after it, its links, its DS blocks and the tables it is
  stored in: a DS block under its number, the others under the hash they carry.\<close>

fun dir_accepted :: "('pt, 'd) chain_env \<Rightarrow> 'pt dir_view \<Rightarrow> 'pt DirBlock list \<Rightarrow> 'pt DirBlock list" where
  "dir_accepted E v [] = []"
| "dir_accepted E v (d # ds) = (if dir_fits E v d then d # dir_accepted E (dir_advance E d v) ds else [])"

fun dir_ends_throwing :: "('pt, 'd) chain_env \<Rightarrow> 'pt dir_view \<Rightarrow> 'pt DirBlock list \<Rightarrow> bool" where
  "dir_ends_throwing E v [] = False"
| "dir_ends_throwing E v (d # ds) = (if dir_fits E v d then dir_ends_throwing E (dir_advance E d v) ds else dir_throws E v d)"

fun dir_store :: "('pt, 'd) chain_env \<Rightarrow> 'pt DirBlock \<Rightarrow> dir_tables \<Rightarrow> dir_tables" where
  "dir_store E (DirDS b) (ds, vc, fb) =
     (ds(to_decimal (unat (dsh_blockNum (ds_header b))) \<mapsto> fst (the (Messenger_SetDSBlock (ce_blocks E) [] 0 b))), vc, fb)"
| "dir_store E (DirVC b) (ds, vc, fb) =
     (ds, vc(toHex (bb_blockHash b) \<mapsto> fst (the (Messenger_SetVCBlock (ce_blocks E) [] 0 b))), fb)"
| "dir_store E (DirFB f) (ds, vc, fb) =
     (ds, vc, fb(toHex (bb_blockHash (fbs_fallbackblock f))
        \<mapsto> fst (the (FallbackBlockWShardingStructure_Serialize (ce_blocks E) f [] 0))))"

fun dir_links :: "('pt, 'd) chain_env \<Rightarrow> nat \<Rightarrow> nat \<Rightarrow> 'pt dir_view \<Rightarrow> 'pt DirBlock list \<Rightarrow> BlockLink list" where
  "dir_links E ver i v [] = []"
| "dir_links E ver i v (d # ds) = dir_link ver i v d # dir_links E ver (i + 1) (dir_advance E d v) ds"

definition dir_after :: "('pt, 'd) chain_env \<Rightarrow> 'pt DirBlock list \<Rightarrow> 'pt dir_view \<Rightarrow> 'pt dir_view" where
  "dir_after E ds v = fold (dir_advance E) ds v"

definition dir_ds_blocks :: "'pt DirBlock list \<Rightarrow> 'pt DSBlock list" where
  "dir_ds_blocks ds = concat (map (\<lambda>d. case d of DirDS b \<Rightarrow> [b] | _ \<Rightarrow> []) ds)"

text \<open>Blocks as the readers deliver them, with bitmaps of fewer than \<open>2 ^ 16\<close> members. In guard mode the committee has room for
  the guards.\<close>

definition dir_block_ok :: "'pt DirBlock \<Rightarrow> bool" where
  "dir_block_ok d = (case d of
     DirDS b \<Rightarrow> cosigs_ok (bb_cosigs b) \<and> length (bb_blockHash b) = 32
   | DirVC b \<Rightarrow> cosigs_ok (bb_cosigs b) \<and> length (bb_blockHash b) = 32
   | DirFB f \<Rightarrow> cosigs_ok (bb_cosigs (fbs_fallbackblock f)) \<and> length (bb_blockHash (fbs_fallbackblock f)) = 32)"

fun guards_fit :: "('pt, 'd) chain_env \<Rightarrow> 'pt dir_view \<Rightarrow> 'pt DirBlock list \<Rightarrow> bool" where
  "guards_fit E v [] \<longleftrightarrow> guards_in_front (ce_node E) \<le> length (fst v)"
| "guards_fit E v (d # ds) \<longleftrightarrow> guards_in_front (ce_node E) \<le> length (fst v) \<and> guards_fit E (dir_advance E d v) ds"

text \<open>The state of the loop that represents a log of links, a log of DS blocks, a view and the stored tables.\<close>

definition dir_rep ::
    "('pt, 'd) chain_env \<Rightarrow> nat \<Rightarrow> ('pt, 'd) dir_loop \<Rightarrow> BlockLink list \<Rightarrow> 'pt DSBlock list \<Rightarrow> 'pt dir_view \<Rightarrow> dir_tables \<Rightarrow> bool" where
  "dir_rep E f s xs ys v tb \<longleftrightarrow>
     disk_works (ce_db E) \<and> storage_ready (md_storage s) \<and> ce_BLOCKLINK_VERSION E < 2 ^ 32
     \<and> link_rep (ce_db E) (ce_links E) (ce_BLOCKLINK_VERSION E) (md_blocklinkchain s, md_storage s) xs
     \<and> block_rep (ds_block_class (be_ossl (ce_blocks E))) f (md_dsBlockChain s) ys \<and> ys \<noteq> []
     \<and> v = (mutable_ds_comm s, prevdsblocknum s, prevShardingHash s, prevHash s)
     \<and> totalIndex s = of_nat (length xs) \<and> prevdsblocknum s = dsh_blockNum (ds_header (last ys))
     \<and> tb = dir_tables (ce_db E) (md_storage s)"

lemma add_winners_total: "guards_in_front V \<le> length C \<Longrightarrow> \<exists>C'. add_winners V ws C = Some C'"
proof (induction ws arbitrary: C)
  case (Cons w ws)
  then obtain C1 where "add_winner V w C = Some C1" "length C1 = length C"
    by (auto simp: add_winner_def insert_at_def guards_in_front_def Let_def split: if_splits)
  with Cons show ?case by auto
qed simp

lemma shards_out_total: "\<exists>ps. shards_out B ss = Some ps"
proof -
  have shard: "\<exists>ps. shard_out B ns = Some ps" for ns
  proof (induction ns)
    case (Cons n ns)
    then show ?case using Peer_out_total [of "fst (snd n)"] by (auto simp: PubKey_out_eq)
  qed simp
  show ?thesis
  proof (induction ss)
    case (Cons s ss)
    then show ?case using shard [of s] by auto
  qed simp
qed

lemma blocks_serialized:
  "\<exists>body ok. Messenger_SetDSBlock E [] 0 b1 = Some (body, ok)" "\<exists>body ok. Messenger_SetVCBlock E [] 0 b2 = Some (body, ok)"
  "\<exists>body ok. FallbackBlockWShardingStructure_Serialize E f [] 0 = Some (body, ok)"
proof -
  have base: "\<exists>p. BlockBaseToProtobuf b = Some p" for b :: "'z BlockBase_scheme" by (simp add: BlockBaseToProtobuf_def block_fields Let_def)
  show "\<exists>body ok. Messenger_SetDSBlock E [] 0 b1 = Some (body, ok)"
    using base [of b1] headers_total(1) [of E "ds_header b1" False] SerializeToArray_start
    by (auto simp: Messenger_SetDSBlock_def set_message_def DSBlockToProtobuf_def)
  show "\<exists>body ok. Messenger_SetVCBlock E [] 0 b2 = Some (body, ok)"
    using base [of b2] headers_total(2) [of E "vc_header b2"] SerializeToArray_start
    by (auto simp: Messenger_SetVCBlock_def set_message_def VCBlockToProtobuf_def)
  show "\<exists>body ok. FallbackBlockWShardingStructure_Serialize E f [] 0 = Some (body, ok)"
    using base [of "fbs_fallbackblock f"] headers_total(3) [of E "fb_header (fbs_fallbackblock f)"] SerializeToArray_start
      shards_out_total [of "be_ossl E" "fbs_shards f"]
    by (auto simp: FallbackBlockWShardingStructure_Serialize_def Messenger_SetFallbackBlockWShardingStructure_def set_message_def
        FallbackBlockToProtobuf_def ShardingStructureToProtobuf_def)
qed

lemma sharding_hash_total: "\<exists>hashed. GetShardingStructureHash E version shards = Some hashed"
proof -
  obtain ps where ps: "shards_out (be_ossl E) shards = Some ps" using shards_out_total by blast
  let ?p = "\<lparr>pss_version = Some version, pss_shards = ps\<rparr>"
  obtain dst ok where "SerializeToArray (ToArray (wShardingStructure (be_proto E)) ?p) [] 0 = Some (dst, ok)"
    using SerializeToArray_start by blast
  then show ?thesis by (simp add: GetShardingStructureHash_def hash_message_def set_message_def ShardingStructureToProtobuf_def ps)
qed

text \<open>A link is added behind the links of the log.\<close>

lemma add_link_appends:
  assumes rep: "link_rep (ce_db E) (ce_links E) (ce_BLOCKLINK_VERSION E) (md_blocklinkchain s, md_storage s) xs"
    and S: "storage_ready (md_storage s)" and idx: "totalIndex s = of_nat (length xs)" "length xs + BLOCKCHAIN_SIZE + 1 < 2 ^ 64"
    and fits: "ce_BLOCKLINK_VERSION E < 2 ^ 32" "t < 2 ^ 32" "length h = 32"
  shows "\<exists>c S'. add_link E n t h s = Some (s\<lparr>md_blocklinkchain := c, md_storage := S'\<rparr>) \<and> storage_ready S'
    \<and> dir_tables D S' = dir_tables D (md_storage s)
    \<and> link_rep (ce_db E) (ce_links E) (ce_BLOCKLINK_VERSION E) (c, S')
        (xs @ [\<lparr>bl_version = ce_BLOCKLINK_VERSION E, bl_index = length xs, bl_dsindex = unat n, bl_blocktype = t, bl_blockhash = h\<rparr>])"
proof -
  let ?x = "\<lparr>bl_version = ce_BLOCKLINK_VERSION E, bl_index = length xs, bl_dsindex = unat n, bl_blocktype = t, bl_blockhash = h\<rparr>"
  have i: "unat (totalIndex s) = length xs" using idx by (simp add: unat_of_nat BLOCKCHAIN_SIZE_def)
  have "unat n < 2 ^ 64" using unat_bound [of n] by simp
  then have "link_follows (ce_BLOCKLINK_VERSION E) xs ?x"
    using fits idx(2) by (simp add: link_follows_def link_fits_def BLOCKCHAIN_SIZE_def)
  from AddBlockLink_appends [OF rep this] obtain c S' where
      add: "AddBlockLink (ce_db E) (ce_links E) (ce_BLOCKLINK_VERSION E) (length xs) (unat n) t h (md_blocklinkchain s, md_storage s)
        = Some (True, c, S')"
      "link_rep (ce_db E) (ce_links E) (ce_BLOCKLINK_VERSION E) (c, S') (xs @ [?x])" by auto
  have "storage_ready S'" "dir_tables D S' = dir_tables D (md_storage s)"
    using AddBlockLink_frame [OF add(1)] S by (metis storage_ready_frame)+
  moreover have "add_link E n t h s = Some (s\<lparr>md_blocklinkchain := c, md_storage := S'\<rparr>)" using add(1) i by (simp add: add_link_def)
  ultimately show ?thesis using add(2) by blast
qed

text \<open>One pass of the loop, by the kind of block.\<close>

definition dir_step_ok :: "('pt, 'd) chain_env \<Rightarrow> nat \<Rightarrow> 'pt DirBlock \<Rightarrow> ('pt, 'd) dir_loop \<Rightarrow> BlockLink list \<Rightarrow> 'pt DSBlock list
    \<Rightarrow> 'pt dir_view \<Rightarrow> dir_tables \<Rightarrow> bool" where
  "dir_step_ok E f d s xs ys v tb \<longleftrightarrow>
     (if dir_fits E v d
      then \<exists>s'. check_dir_block E d s = Some (NextBlock, s')
             \<and> dir_rep E f s' (xs @ [dir_link (ce_BLOCKLINK_VERSION E) (length xs) v d]) (ys @ dir_ds_blocks [d]) (dir_advance E d v)
                 (dir_store E d tb)
      else check_dir_block E d s = (if dir_throws E v d then None else Some (BreakLoop, s)))"

lemma check_ds_block_ok:
  assumes rep: "dir_rep E f s xs ys v tb" and ok: "dir_block_ok (DirDS b)" and guards: "guards_in_front (ce_node E) \<le> length (fst v)"
    and room: "length xs + BLOCKCHAIN_SIZE + 1 < 2 ^ 64" "unat (prevdsblocknum s) + BLOCKCHAIN_SIZE + 1 < 2 ^ 64"
  shows "dir_step_ok E f (DirDS b) s xs ys v tb"
proof -
  have v: "v = (mutable_ds_comm s, prevdsblocknum s, prevShardingHash s, prevHash s)" and D: "disk_works (ce_db E)"
    and links: "link_rep (ce_db E) (ce_links E) (ce_BLOCKLINK_VERSION E) (md_blocklinkchain s, md_storage s) xs"
    and blocks: "block_rep (ds_block_class (be_ossl (ce_blocks E))) f (md_dsBlockChain s) ys" and ys: "ys \<noteq> []"
    and S: "storage_ready (md_storage s)" and idx: "totalIndex s = of_nat (length xs)" and ver: "ce_BLOCKLINK_VERSION E < 2 ^ 32"
    and num: "prevdsblocknum s = dsh_blockNum (ds_header (last ys))"
    using rep by (simp_all add: dir_rep_def)
  have c: "cosigs_ok (bb_cosigs b)" and h: "length (bb_blockHash b) = 32" using ok by (simp_all add: dir_block_ok_def)
  obtain tds tvc tfb where tb: "tb = (tds, tvc, tfb)" "dir_tables (ce_db E) (md_storage s) = (tds, tvc, tfb)"
    using rep by (cases tb) (auto simp: dir_rep_def)
  show ?thesis
  proof (cases "dir_fits E v (DirDS b)")
    case False
    then show ?thesis
      by (auto simp: dir_step_ok_def check_dir_block_def check_ds_block_def cosignature_checks [OF c] v)
  next
    case True
    then have fits: "dsh_blockNum (ds_header b) = prevdsblocknum s + 1" "hb_prevHash (ds_header b) = prevHash s"
      "signed_by (be_ossl (ce_blocks E)) (DSBlockHeader_Serialize (ce_blocks E) (ds_header b)) b (map fst (mutable_ds_comm s))"
      by (simp_all add: v)
    let ?s1 = "s\<lparr>prevdsblocknum := prevdsblocknum s + 1, prevShardingHash := dsh_shardingHash (ds_header b)\<rparr>"
    let ?T = "ds_block_class (be_ossl (ce_blocks E))"
    obtain c1 S1 where s2: "add_link E (prevdsblocknum ?s1) BlockType_DS (bb_blockHash b) ?s1
          = Some (?s1\<lparr>md_blocklinkchain := c1, md_storage := S1\<rparr>)" "storage_ready S1" "dir_tables (ce_db E) S1 = dir_tables (ce_db E) (md_storage s)"
        "link_rep (ce_db E) (ce_links E) (ce_BLOCKLINK_VERSION E) (c1, S1) (xs @ [dir_link (ce_BLOCKLINK_VERSION E) (length xs) v (DirDS b)])"
      using add_link_appends [of E ?s1 xs BlockType_DS "bb_blockHash b" "prevdsblocknum ?s1"] links S idx ver h room(1)
      by (fastforce simp: dir_link_def dir_type_def dir_hash_def v BlockType_DS_def)
    have "unat (prevdsblocknum s + 1) = unat (prevdsblocknum s) + 1"
      using room(2) by (simp add: unat_plus_if' BLOCKCHAIN_SIZE_def)
    then have "block_follows ?T f ys b"
      using room(2) ys fits(1) num by (simp add: block_follows_def ds_block_class_def BLOCKCHAIN_SIZE_def)
    from AddBlock_appends [OF blocks this] obtain chain where chain: "AddBlock ?T b (md_dsBlockChain s) = Some (1, chain)"
      "block_rep ?T f chain (ys @ [b])" by blast
    obtain body r where body: "Messenger_SetDSBlock (ce_blocks E) [] 0 b = Some (body, r)" using blocks_serialized(1) by blast
    obtain S2 where S2: "PutDSBlock (ce_db E) (unat (dsh_blockNum (ds_header b))) body S1 = Some (True, S2)" "storage_ready S2"
      "m_blockLinkDB S2 = m_blockLinkDB S1"
      "dir_tables (ce_db E) S2 = (tds(to_decimal (unat (dsh_blockNum (ds_header b))) \<mapsto> body), tvc, tfb)"
      using stores_succeed(1) [OF D s2(2)] s2(3) tb(2) by metis
    obtain C' where C': "UpdateDSCommiteeComposition (ce_node E) (mutable_ds_comm s) b = Some C'"
      using add_winners_total [of "ce_node E" "mutable_ds_comm s" "dsh_PoWDSWinners (ds_header b)"] guards
      by (auto simp: UpdateDSCommiteeComposition_def v)
    obtain S3 where S3: "BlockStorage_ResetDB (nc_LOOKUP_NODE_MODE (ce_node E)) (ce_db E) STATE_DELTA S2 = Some (True, S3)"
      "storage_ready S3" "m_blockLinkDB S3 = m_blockLinkDB S2" "dir_tables (ce_db E) S3 = dir_tables (ce_db E) S2"
      using stores_succeed(4) [OF D S2(2)] by blast
    have link3: "link_rep (ce_db E) (ce_links E) (ce_BLOCKLINK_VERSION E) (c1, S3)
        (xs @ [dir_link (ce_BLOCKLINK_VERSION E) (length xs) v (DirDS b)])"
      using s2(4) S2(3) S3(3) link_rep_frame [of S3 S1] by metis
    show ?thesis
      using True fits s2(1) chain body S2(1,4) C' S3 D ver idx num link3 tb
      by (simp add: dir_step_ok_def check_dir_block_def check_ds_block_def cosignature_checks [OF c] Let_def dir_rep_def dir_ds_blocks_def v)
  qed
qed

lemma check_vc_block_ok:
  assumes rep: "dir_rep E f s xs ys v tb" and ok: "dir_block_ok (DirVC b)" and room: "length xs + BLOCKCHAIN_SIZE + 1 < 2 ^ 64"
  shows "dir_step_ok E f (DirVC b) s xs ys v tb"
proof -
  have v: "v = (mutable_ds_comm s, prevdsblocknum s, prevShardingHash s, prevHash s)" and D: "disk_works (ce_db E)"
    and links: "link_rep (ce_db E) (ce_links E) (ce_BLOCKLINK_VERSION E) (md_blocklinkchain s, md_storage s) xs"
    and S: "storage_ready (md_storage s)" and idx: "totalIndex s = of_nat (length xs)" and ver: "ce_BLOCKLINK_VERSION E < 2 ^ 32"
    using rep by (simp_all add: dir_rep_def)
  have c: "cosigs_ok (bb_cosigs b)" and h: "length (bb_blockHash b) = 32" using ok by (simp_all add: dir_block_ok_def)
  obtain tds tvc tfb where tb: "tb = (tds, tvc, tfb)" "dir_tables (ce_db E) (md_storage s) = (tds, tvc, tfb)"
    using rep by (cases tb) (auto simp: dir_rep_def)
  show ?thesis
  proof (cases "dir_fits E v (DirVC b)")
    case False
    then show ?thesis
      by (auto simp: dir_step_ok_def check_dir_block_def check_vc_block_def cosignature_checks [OF c] v)
  next
    case True
    let ?s1 = "s\<lparr>mutable_ds_comm := UpdateRetrieveDSCommiteeCompositionAfterVC (ce_node E) b (mutable_ds_comm s)\<rparr>"
    obtain c1 S1 where s2: "add_link E (prevdsblocknum ?s1 + 1) BlockType_VC (bb_blockHash b) ?s1
          = Some (?s1\<lparr>md_blocklinkchain := c1, md_storage := S1\<rparr>)" "storage_ready S1" "dir_tables (ce_db E) S1 = dir_tables (ce_db E) (md_storage s)"
        "link_rep (ce_db E) (ce_links E) (ce_BLOCKLINK_VERSION E) (c1, S1) (xs @ [dir_link (ce_BLOCKLINK_VERSION E) (length xs) v (DirVC b)])"
      using add_link_appends [of E ?s1 xs BlockType_VC "bb_blockHash b" "prevdsblocknum ?s1 + 1"] links S idx ver h room
      by (fastforce simp: dir_link_def dir_type_def dir_hash_def v BlockType_VC_def)
    obtain body r where body: "Messenger_SetVCBlock (ce_blocks E) [] 0 b = Some (body, r)" using blocks_serialized(2) by blast
    obtain S2 where S2: "PutVCBlock (ce_db E) (bb_blockHash b) body S1 = Some (True, S2)" "storage_ready S2"
      "m_blockLinkDB S2 = m_blockLinkDB S1"
      "dir_tables (ce_db E) S2 = (tds, tvc(toHex (bb_blockHash b) \<mapsto> body), tfb)"
      using stores_succeed(2) [OF D s2(2)] s2(3) tb(2) by metis
    have link2: "link_rep (ce_db E) (ce_links E) (ce_BLOCKLINK_VERSION E) (c1, S2)
        (xs @ [dir_link (ce_BLOCKLINK_VERSION E) (length xs) v (DirVC b)])"
      using s2(4) S2(3) link_rep_frame [of S2 S1] by metis
    show ?thesis using True s2(1) body S2 link2 rep tb
      by (simp add: dir_step_ok_def check_dir_block_def check_vc_block_def cosignature_checks [OF c] Let_def dir_rep_def dir_ds_blocks_def v)
  qed
qed

lemma check_fb_block_ok:
  assumes rep: "dir_rep E f s xs ys v tb" and ok: "dir_block_ok (DirFB fb)" and room: "length xs + BLOCKCHAIN_SIZE + 1 < 2 ^ 64"
  shows "dir_step_ok E f (DirFB fb) s xs ys v tb"
proof -
  let ?b = "fbs_fallbackblock fb"
  let ?h = "fb_header ?b"
  have v: "v = (mutable_ds_comm s, prevdsblocknum s, prevShardingHash s, prevHash s)" and D: "disk_works (ce_db E)"
    and links: "link_rep (ce_db E) (ce_links E) (ce_BLOCKLINK_VERSION E) (md_blocklinkchain s, md_storage s) xs"
    and S: "storage_ready (md_storage s)" and idx: "totalIndex s = of_nat (length xs)" and ver: "ce_BLOCKLINK_VERSION E < 2 ^ 32"
    using rep by (simp_all add: dir_rep_def)
  have c: "cosigs_ok (bb_cosigs ?b)" and h: "length (bb_blockHash ?b) = 32"
    using ok by (simp_all add: dir_block_ok_def)
  obtain hashed where hashed: "GetShardingStructureHash (ce_blocks E) (SHARDINGSTRUCTURE_VERSION (ce_blocks E)) (fbs_shards fb) = Some hashed"
    using sharding_hash_total by blast
  obtain tds tvc tfb where tb: "tb = (tds, tvc, tfb)" "dir_tables (ce_db E) (md_storage s) = (tds, tvc, tfb)"
    using rep by (cases tb) (auto simp: dir_rep_def)
  show ?thesis
  proof (cases "dir_fits E v (DirFB fb)")
    case False
    then show ?thesis
      by (auto simp: dir_step_ok_def check_dir_block_def check_fb_block_def cosignature_checks [OF c] v Let_def hashed vec_at_def)
  next
    case True
    then have shard: "unat (fbh_shardId ?h) < length (fbs_shards fb)" by (simp add: v Let_def)
    obtain C' where C': "UpdateDSCommitteeAfterFallback (be_ossl (ce_blocks E)) (fbh_shardId ?h) (fbh_leaderPubKey ?h) (fbh_leaderNetworkInfo ?h)
        (mutable_ds_comm s) (fbs_shards fb) = Some C'" using vec_at_Some [OF shard] by (simp add: UpdateDSCommitteeAfterFallback_def)
    let ?s1 = "s\<lparr>mutable_ds_comm := C'\<rparr>"
    obtain c1 S1 where s2: "add_link E (prevdsblocknum ?s1 + 1) BlockType_FB (bb_blockHash ?b) ?s1
          = Some (?s1\<lparr>md_blocklinkchain := c1, md_storage := S1\<rparr>)" "storage_ready S1" "dir_tables (ce_db E) S1 = dir_tables (ce_db E) (md_storage s)"
        "link_rep (ce_db E) (ce_links E) (ce_BLOCKLINK_VERSION E) (c1, S1) (xs @ [dir_link (ce_BLOCKLINK_VERSION E) (length xs) v (DirFB fb)])"
      using add_link_appends [of E ?s1 xs BlockType_FB "bb_blockHash ?b" "prevdsblocknum ?s1 + 1"] links S idx ver h room
      by (fastforce simp: dir_link_def dir_type_def dir_hash_def v BlockType_FB_def)
    obtain body r where body: "FallbackBlockWShardingStructure_Serialize (ce_blocks E) fb [] 0 = Some (body, r)"
      using blocks_serialized(3) by blast
    obtain S2 where S2: "PutFallbackBlock (ce_db E) (bb_blockHash ?b) body S1 = Some (True, S2)" "storage_ready S2"
      "m_blockLinkDB S2 = m_blockLinkDB S1"
      "dir_tables (ce_db E) S2 = (tds, tvc, tfb(toHex (bb_blockHash ?b) \<mapsto> body))"
      using stores_succeed(3) [OF D s2(2)] s2(3) tb(2) by metis
    have link2: "link_rep (ce_db E) (ce_links E) (ce_BLOCKLINK_VERSION E) (c1, S2)
        (xs @ [dir_link (ce_BLOCKLINK_VERSION E) (length xs) v (DirFB fb)])"
      using s2(4) S2(3) link_rep_frame [of S2 S1] by metis
    show ?thesis using True C' s2(1) body S2 link2 rep tb
      by (simp add: dir_step_ok_def check_dir_block_def check_fb_block_def cosignature_checks [OF c] Let_def dir_rep_def dir_ds_blocks_def v
          vec_at_Some [OF shard])
  qed
qed

lemma check_dir_loop_ok:
  assumes "dir_rep E f s xs ys v tb" "list_all dir_block_ok ds" "guards_fit E v ds"
    and "length xs + length ds + BLOCKCHAIN_SIZE < 2 ^ 64" "unat (fst (snd v)) + length ds + BLOCKCHAIN_SIZE < 2 ^ 64"
  shows "if dir_ends_throwing E v ds then check_dir_loop E ds s = None
    else \<exists>s'. check_dir_loop E ds s = Some (if dir_accepted E v ds = ds then NextBlock else BreakLoop, s')
    \<and> dir_rep E f s' (xs @ dir_links E (ce_BLOCKLINK_VERSION E) (length xs) v (dir_accepted E v ds))
        (ys @ dir_ds_blocks (dir_accepted E v ds)) (dir_after E (dir_accepted E v ds) v)
        (fold (dir_store E) (dir_accepted E v ds) tb)"
  using assms
proof (induction ds arbitrary: s xs ys v tb)
  case Nil
  then show ?case by (simp add: dir_ds_blocks_def dir_after_def)
next
  case (Cons d ds)
  have num: "prevdsblocknum s = fst (snd v)" using Cons.prems(1) by (auto simp: dir_rep_def)
  have step: "dir_step_ok E f d s xs ys v tb"
    using Cons.prems check_ds_block_ok [of E f s xs ys v tb] check_vc_block_ok [of E f s xs ys v tb]
      check_fb_block_ok [of E f s xs ys v tb]
    by (cases d) (simp_all add: num)
  show ?case
  proof (cases "dir_fits E v d")
    case False
    then show ?thesis using step Cons.prems(1) by (simp add: dir_step_ok_def dir_ds_blocks_def dir_after_def)
  next
    case True
    let ?v = "dir_advance E d v"
    let ?x = "dir_link (ce_BLOCKLINK_VERSION E) (length xs) v d"
    obtain s1 where s1: "check_dir_block E d s = Some (NextBlock, s1)"
        "dir_rep E f s1 (xs @ [?x]) (ys @ dir_ds_blocks [d]) ?v (dir_store E d tb)"
      using step True by (auto simp: dir_step_ok_def)
    have "unat (fst (snd ?v)) \<le> unat (fst (snd v)) + 1"
      using Cons.prems(5) by (cases d; cases v) (simp_all add: Let_def unat_plus_if')
    then have room: "unat (fst (snd ?v)) + length ds + BLOCKCHAIN_SIZE < 2 ^ 64" using Cons.prems(5) by simp
    have "list_all dir_block_ok ds" "guards_fit E ?v ds" "length (xs @ [?x]) + length ds + BLOCKCHAIN_SIZE < 2 ^ 64"
      using Cons.prems(2-4) by simp_all
    from Cons.IH [OF s1(2) this room] show ?thesis using True s1(1)
      by (auto simp: dir_ds_blocks_def dir_after_def split: if_splits)
  qed
qed

definition dir_start :: "'pt DequeOfNode \<Rightarrow> 'pt DSBlock list \<Rightarrow> BlockLink list \<Rightarrow> 'pt dir_view" where
  "dir_start C ys xs = (C, dsh_blockNum (ds_header (last ys)), dsh_shardingHash (ds_header (last ys)), bl_blockhash (last xs))"

text \<open>The whole function, over the state the loop ends with.\<close>

lemma CheckDirBlocks_outcome:
  assumes links: "link_rep (ce_db E) (ce_links E) (ce_BLOCKLINK_VERSION E) (md_blocklinkchain M, md_storage M) xs" "xs \<noteq> []"
    and blocks: "block_rep (ds_block_class (be_ossl (ce_blocks E))) f (md_dsBlockChain M) ys" "ys \<noteq> []"
    and disk: "disk_works (ce_db E)" "storage_ready (md_storage M)" "ce_BLOCKLINK_VERSION E < 2 ^ 32"
    and ds: "list_all dir_block_ok ds" "guards_fit E (dir_start C ys xs) ds"
    and room: "length xs + length ds + BLOCKCHAIN_SIZE < 2 ^ 64"
      "unat (dsh_blockNum (ds_header (last ys))) + length ds + BLOCKCHAIN_SIZE < 2 ^ 64"
    and acc: "acc = dir_accepted E (dir_start C ys xs) ds"
  shows "if dir_ends_throwing E (dir_start C ys xs) ds then CheckDirBlocks E ds C (of_nat (length xs)) newDSComm M = None
    else \<exists>s'. CheckDirBlocks E ds C (of_nat (length xs)) newDSComm M = Some (acc = ds, fst (dir_after E acc (dir_start C ys xs)),
          \<lparr>md_dsBlockChain = md_dsBlockChain s', md_blocklinkchain = md_blocklinkchain s', md_storage = md_storage s'\<rparr>)
      \<and> dir_rep E f s' (xs @ dir_links E (ce_BLOCKLINK_VERSION E) (length xs) (dir_start C ys xs) acc) (ys @ dir_ds_blocks acc)
          (dir_after E acc (dir_start C ys xs)) (fold (dir_store E) acc (dir_tables (ce_db E) (md_storage M)))"
proof -
  let ?v = "dir_start C ys xs" and ?tb = "dir_tables (ce_db E) (md_storage M)"
  let ?s = "\<lparr>md_dsBlockChain = md_dsBlockChain M, md_blocklinkchain = md_blocklinkchain M, md_storage = md_storage M,
      mutable_ds_comm = C, prevdsblocknum = dsh_blockNum (ds_header (last ys)), totalIndex = of_nat (length xs),
      prevShardingHash = dsh_shardingHash (ds_header (last ys)), prevHash = bl_blockhash (last xs)\<rparr>"
  have last: "GetLastBlock (md_dsBlockChain M) = Some (last ys)" "GetLatestBlockLink (md_blocklinkchain M) = Some (last xs)"
    using blocks links ring_back by (auto simp: GetLastBlock_def block_rep_def GetLatestBlockLink_def link_rep_def)
  have "dir_rep E f ?s xs ys ?v ?tb" using links(1) blocks disk by (simp add: dir_rep_def dir_start_def)
  from check_dir_loop_ok [OF this ds room(1)] have loop: "if dir_ends_throwing E ?v ds then check_dir_loop E ds ?s = None
    else \<exists>s'. check_dir_loop E ds ?s = Some (if acc = ds then NextBlock else BreakLoop, s')
      \<and> dir_rep E f s' (xs @ dir_links E (ce_BLOCKLINK_VERSION E) (length xs) ?v acc) (ys @ dir_ds_blocks acc) (dir_after E acc ?v)
          (fold (dir_store E) acc ?tb)"
    unfolding acc using room(2) by (simp add: dir_start_def)
  show ?thesis
  proof (cases "dir_ends_throwing E ?v ds")
    case True
    then show ?thesis using loop last by (simp add: CheckDirBlocks_def)
  next
    case False
    then obtain s' where s': "check_dir_loop E ds ?s = Some (if acc = ds then NextBlock else BreakLoop, s')"
        "dir_rep E f s' (xs @ dir_links E (ce_BLOCKLINK_VERSION E) (length xs) ?v acc) (ys @ dir_ds_blocks acc) (dir_after E acc ?v)
          (fold (dir_store E) acc ?tb)" using loop by auto
    have "mutable_ds_comm s' = fst (dir_after E acc ?v)" using s'(2) by (auto simp: dir_rep_def)
    then have "CheckDirBlocks E ds C (of_nat (length xs)) newDSComm M = Some (acc = ds, fst (dir_after E acc ?v),
        \<lparr>md_dsBlockChain = md_dsBlockChain s', md_blocklinkchain = md_blocklinkchain s', md_storage = md_storage s'\<rparr>)"
      using s'(1) last by (simp add: CheckDirBlocks_def)
    then show ?thesis using s'(2) False by auto
  qed
qed

section \<open>Properties\<close>

text \<open>C7: checking directory blocks. On chains that hold the links \<open>xs\<close> and the DS blocks \<open>ys\<close>, with a working disk, \<open>CheckDirBlocks\<close>
  accepts exactly the longest prefix of blocks that fit: numbered one after the other, linked by their previous hashes, each
  co-signed by exactly \<open>NumForConsensus\<close> members of the committee that the blocks before it leave (a fallback by the shard that
  takes over, out of the sharding structure that the last DS block fixed). It returns true exactly when all blocks fit, hands
  back the committee after the accepted ones, extends the chain of links and the chain of DS blocks by exactly the accepted
  ones, in order, and stores exactly their serialised bodies in the tables of DS blocks, view changes and fallbacks. It leaves
  through an exception exactly if the block behind the accepted ones is a fallback whose epoch, previous hash and sharding
  structure fit and whose shard number is out of range. The blocks have 32-octet hashes and bitmaps below 2 ^ 16 bits, as the
  readers deliver them, the committee is never smaller than the number of guards in front of it, and the chains are far
  from the end of the 64-bit numbers.\<close>

theorem directory_blocks_checked:
  assumes links: "link_rep (ce_db E) (ce_links E) (ce_BLOCKLINK_VERSION E) (md_blocklinkchain M, md_storage M) xs" "xs \<noteq> []"
    and blocks: "block_rep (ds_block_class (be_ossl (ce_blocks E))) f (md_dsBlockChain M) ys" "ys \<noteq> []"
    and disk: "disk_works (ce_db E)" "storage_ready (md_storage M)" "ce_BLOCKLINK_VERSION E < 2 ^ 32"
    and ds: "list_all dir_block_ok ds" "guards_fit E (dir_start C ys xs) ds"
    and room: "length xs + length ds + BLOCKCHAIN_SIZE < 2 ^ 64"
      "unat (dsh_blockNum (ds_header (last ys))) + length ds + BLOCKCHAIN_SIZE < 2 ^ 64"
  shows "if dir_ends_throwing E (dir_start C ys xs) ds then CheckDirBlocks E ds C (of_nat (length xs)) newDSComm M = None
    else \<exists>acc M'. acc = dir_accepted E (dir_start C ys xs) ds
    \<and> CheckDirBlocks E ds C (of_nat (length xs)) newDSComm M = Some (acc = ds, fst (dir_after E acc (dir_start C ys xs)), M')
    \<and> link_rep (ce_db E) (ce_links E) (ce_BLOCKLINK_VERSION E) (md_blocklinkchain M', md_storage M')
        (xs @ dir_links E (ce_BLOCKLINK_VERSION E) (length xs) (dir_start C ys xs) acc)
    \<and> block_rep (ds_block_class (be_ossl (ce_blocks E))) f (md_dsBlockChain M') (ys @ dir_ds_blocks acc)
    \<and> dir_tables (ce_db E) (md_storage M') = fold (dir_store E) acc (dir_tables (ce_db E) (md_storage M))
    \<and> storage_ready (md_storage M')"
proof -
  note outcome = CheckDirBlocks_outcome [OF links blocks disk ds room refl, of newDSComm]
  show ?thesis
  proof (cases "dir_ends_throwing E (dir_start C ys xs) ds")
    case True
    then show ?thesis using outcome by simp
  next
    case False
    with outcome obtain s' where s': "CheckDirBlocks E ds C (of_nat (length xs)) newDSComm M
      = Some (dir_accepted E (dir_start C ys xs) ds = ds, fst (dir_after E (dir_accepted E (dir_start C ys xs) ds) (dir_start C ys xs)),
          \<lparr>md_dsBlockChain = md_dsBlockChain s', md_blocklinkchain = md_blocklinkchain s', md_storage = md_storage s'\<rparr>)"
      "dir_rep E f s' (xs @ dir_links E (ce_BLOCKLINK_VERSION E) (length xs) (dir_start C ys xs) (dir_accepted E (dir_start C ys xs) ds))
         (ys @ dir_ds_blocks (dir_accepted E (dir_start C ys xs) ds)) (dir_after E (dir_accepted E (dir_start C ys xs) ds) (dir_start C ys xs))
         (fold (dir_store E) (dir_accepted E (dir_start C ys xs) ds) (dir_tables (ce_db E) (md_storage M)))" by auto
    show ?thesis unfolding if_not_P [OF False]
      by (intro exI conjI, rule refl, rule s'(1)) (use s'(2) in \<open>simp_all add: dir_rep_def\<close>)
  qed
qed

text \<open>A committee with one member, and co-signatures of it.\<close>

definition toy_cosigs :: CoSignatures where
  "toy_cosigs = \<lparr>cs_CS1 = \<lparr>m_r = 1, m_s = 2\<rparr>, cs_B1 = [True], cs_CS2 = \<lparr>m_r = 6, m_s = 8\<rparr>, cs_B2 = [True]\<rparr>"

lemma SetBitVector_one:
  assumes "length m < 100"
  shows "SetBitVector m (length m) [True] = Some (m @ [0, 1, 128], 3)"
proof -
  have u: "u32 n = n" if "n < 200" for n using that by (simp add: u32_def)
  have three: "replicate 3 (0 :: byte) = [0, 0, 0]" by (simp add: numeral_3_eq_3)
  show ?thesis using assms
    by (simp add: SetBitVector_def GetBitVectorSerializedSize_def GetBitVectorLengthInBytes_def Let_def u vec_write_def vec_resize_def
        vec_put_def vec_at_def bit_mask_def list_update_append nth_append three)
qed

lemma toy_cosigned: "block_cosigned toy [1] toy_cosigs [1]" "cosigs_ok toy_cosigs"
proof -
  have nb: "num_bytes (Suc 0) = 1" "num_bytes 2 = 1" by (simp_all add: num_bytes.simps)
  let ?m = "1 # replicate 31 0 @ [1] @ replicate 31 0 @ [2] :: bytes"
  have "fst (Signature_Serialize [1] 1 \<lparr>m_r = 1, m_s = 2\<rparr>) = ?m"
    by (simp add: Signature_Serialize_def BIGNUMSerialize_SetNumber_def Let_def u32_def s32_def BN_num_bytes_def vec_write_def
        vec_resize_def BN_bn2bin_def nb)
  moreover have "u32 65 = 65" "u32 (Suc 0) = 1" by (simp_all add: u32_def)
  ultimately have "extended [1] \<lparr>m_r = 1, m_s = 2\<rparr> [True] (?m @ [0, 1, 128])"
    using SetBitVector_one [of ?m] by (simp add: extended_def Let_def)
  moreover have "MultiSigVerify toy (?m @ [0, 1, 128]) \<lparr>m_r = 6, m_s = 8\<rparr> 1 = Some True"
    by (simp add: MultiSigVerify_def MultiSigVerify_range_def toy_def toy_oct_def toy_digest_def u32_def Let_def SHA2_Update_range_def
        SHA2_Update_def SHA2_Reset_def SHA2_Finalize_def BN_bin2bn_def be_val_def sum_list_replicate subvec_def)
  moreover have "NumForConsensus 1 = 1" using NumForConsensus_exact [of 1] by simp
  ultimately show "block_cosigned toy [1] toy_cosigs [1]"
    by (auto simp: block_cosigned_def toy_cosigs_def signer_keys_def AggregatePubKeys_def)
  show "cosigs_ok toy_cosigs" by (simp add: cosigs_ok_def toy_cosigs_def Signature_fits_def bn_fits_def)
qed

definition toy_chain_env :: "(int, db_path \<Rightarrow> (bytes \<times> bytes) list) chain_env" where
  "toy_chain_env = \<lparr>ce_blocks = toy_block_env, ce_node = toy_node 9 9, ce_db = map_db, ce_links = toy_links, ce_BLOCKLINK_VERSION = 1\<rparr>"

definition toy_genesis :: "int DSBlock" where
  "toy_genesis = (DSBlock_default toy)\<lparr>bb_blockHash := replicate 32 1,
     ds_header := (DSBlockHeader_default toy)\<lparr>dsh_blockNum := 0\<rparr>\<rparr>"

definition toy_first_link :: BlockLink where
  "toy_first_link = \<lparr>bl_version = 1, bl_index = 0, bl_dsindex = 0, bl_blocktype = BlockType_DS, bl_blockhash = replicate 32 1\<rparr>"

definition toy_vc_block :: "int VCBlock" where
  "toy_vc_block = (VCBlock_default toy)\<lparr>bb_blockHash := replicate 32 2, bb_cosigs := toy_cosigs,
     vc_header := (VCBlockHeader_default toy)\<lparr>vch_ViewChangeDSEpochNo := 1, hb_prevHash := replicate 32 1\<rparr>\<rparr>"

lemma ds_block_class_ok: "block_class_ok (ds_block_class B)"
proof -
  have "unat (n :: 64 word) < 2 ^ 64" for n using unat_bound [of n] by simp
  then show ?thesis
    by (auto simp: block_class_ok_def ds_block_class_def DSBlock_default_def DSBlockHeader_default_def INIT_BLOCK_NUMBER_def unat_of_nat)
qed

lemma toy_env_fields:
  "ce_db toy_chain_env = map_db" "ce_links toy_chain_env = toy_links" "ce_BLOCKLINK_VERSION toy_chain_env = 1"
  "be_ossl (ce_blocks toy_chain_env) = toy" "guards_in_front (ce_node toy_chain_env) = 0"
  by (simp_all add: toy_chain_env_def toy_block_env_def guards_in_front_def toy_node_def)

lemma toy_mediator:
  obtains M :: "(int, db_path \<Rightarrow> (bytes \<times> bytes) list) Mediator"
  where "link_rep (ce_db toy_chain_env) (ce_links toy_chain_env) (ce_BLOCKLINK_VERSION toy_chain_env) (md_blocklinkchain M, md_storage M)
      [toy_first_link]" "[toy_first_link] \<noteq> []"
    "block_rep (ds_block_class (be_ossl (ce_blocks toy_chain_env))) 0 (md_dsBlockChain M) [toy_genesis]" "[toy_genesis] \<noteq> []"
    "disk_works (ce_db toy_chain_env)" "storage_ready (md_storage M)" "ce_BLOCKLINK_VERSION toy_chain_env < 2 ^ 32"
proof -
  have D: "writes_succeed map_db" using map_db_ok by (simp add: writes_succeed_def) (simp add: map_db_def)
  have op: "is_open (m_blockLinkDB fresh_storage)" "storage_ready fresh_storage"
    by (simp_all add: fresh_storage_def fresh_db_def is_open_def storage_ready_def)
  have new: "link_rep map_db toy_links 1 (BlockLinkChain_new 5 :: int BlockLinkChain, fresh_storage) []"
    using D toy_links_ok op(1) by (simp add: link_rep_def BlockLinkChain_new_def BlockLinkChain_Reset_def ring_holds_resize)
      (simp add: CircularArray_resize_def BLOCKCHAIN_SIZE_def)
  have "link_follows 1 [] toy_first_link"
    by (simp add: link_follows_def toy_first_link_def link_fits_def BlockType_DS_def BLOCKCHAIN_SIZE_def)
  from AddBlockLink_appends [OF new this] obtain c :: "int BlockLinkChain" and S where
    c: "AddBlockLink map_db toy_links 1 0 0 BlockType_DS (replicate 32 1) (BlockLinkChain_new 5, fresh_storage) = Some (True, c, S)"
      "link_rep map_db toy_links 1 (c, S) [toy_first_link]" by (auto simp: toy_first_link_def)
  have S: "storage_ready S" using AddBlockLink_frame [OF c(1)] op(2) by (metis storage_ready_frame)
  have "block_follows (ds_block_class toy) 0 [] toy_genesis"
    by (simp add: block_follows_def ds_block_class_def toy_genesis_def BLOCKCHAIN_SIZE_def)
  from AddBlock_appends [OF block_rep_new [OF ds_block_class_ok] this] obtain chain where
    "block_rep (ds_block_class toy) 0 chain [toy_genesis]" by (metis append_Nil)
  moreover have "disk_works map_db" using D by (simp add: disk_works_def) (simp add: map_db_def)
  ultimately show ?thesis
    using that [of "\<lparr>md_dsBlockChain = chain, md_blocklinkchain = c, md_storage = S\<rparr>"] c(2) S by (simp add: toy_env_fields)
qed

lemma toy_vc_fits: "dir_fits toy_chain_env (dir_start [(1, Peer_default)] [toy_genesis] [toy_first_link]) (DirVC toy_vc_block)"
proof -
  have "header_bytes (VCBlockHeader_Serialize toy_block_env h) = [1]" for h
  proof -
    obtain p where "VCBlockHeaderToProtobuf toy_block_env h = Some p" using headers_total(2) by blast
    then show ?thesis using SerializeToArray_succeeds [of "[]" "[1]"]
      by (simp add: header_bytes_def VCBlockHeader_Serialize_def Messenger_SetVCBlockHeader_def set_message_def toy_block_env_def
          toy_block_protobuf_def one_byte_def)
  qed
  then show ?thesis using toy_cosigned(1)
    by (simp add: dir_start_def toy_chain_env_def toy_vc_block_def toy_genesis_def toy_first_link_def signed_by_def) (simp add: toy_block_env_def)
qed

lemma toy_block_facts:
  "dir_block_ok (DirVC toy_vc_block)" "guards_fit toy_chain_env (dir_start C [toy_genesis] [toy_first_link]) [DirVC toy_vc_block]"
  "length [toy_first_link] + 1 + BLOCKCHAIN_SIZE < 2 ^ 64"
  "unat (dsh_blockNum (ds_header (last [toy_genesis]))) + 1 + BLOCKCHAIN_SIZE < 2 ^ 64"
  "dir_accepted toy_chain_env (dir_start [(1, Peer_default)] [toy_genesis] [toy_first_link]) [DirVC toy_vc_block] = [DirVC toy_vc_block]"
  "fst (dir_after toy_chain_env [DirVC toy_vc_block] (dir_start [(1, Peer_default)] [toy_genesis] [toy_first_link])) = [(1, Peer_default)]"
  "bl_blockhash (dir_link v i w (DirVC toy_vc_block)) = replicate 32 2"
  "\<not> dir_ends_throwing toy_chain_env (dir_start [(1, Peer_default)] [toy_genesis] [toy_first_link]) [DirVC toy_vc_block]"
  using toy_cosigned(2) toy_vc_fits
  by (simp_all add: dir_block_ok_def BLOCKCHAIN_SIZE_def toy_genesis_def toy_env_fields dir_link_def dir_hash_def)
    (simp_all add: toy_vc_block_def dir_after_def dir_start_def UpdateRetrieveDSCommiteeCompositionAfterVC_def VCBlockHeader_default_def
      toy_chain_env_def toy_node_def)

theorem directory_blocks_checked_witness:
  "\<exists>M M'. CheckDirBlocks toy_chain_env [DirVC toy_vc_block] [(1, Peer_default)] 1 [] M = Some (True, [(1, Peer_default)], M')
    \<and> map_option bl_blockhash (GetLatestBlockLink (md_blocklinkchain M')) = Some (replicate 32 2)
    \<and> fst (snd (dir_tables map_db (md_storage M'))) (toHex (replicate 32 2)) \<noteq> None"
proof (rule toy_mediator)
  fix M :: "(int, db_path \<Rightarrow> (bytes \<times> bytes) list) Mediator"
  note run = directory_blocks_checked [where E = toy_chain_env and M = M and xs = "[toy_first_link]" and f = 0 and ys = "[toy_genesis]"
      and C = "[(1, Peer_default)]" and ds = "[DirVC toy_vc_block]" and newDSComm = "[]"]
  assume "link_rep (ce_db toy_chain_env) (ce_links toy_chain_env) (ce_BLOCKLINK_VERSION toy_chain_env) (md_blocklinkchain M, md_storage M)
      [toy_first_link]" "[toy_first_link] \<noteq> []"
    "block_rep (ds_block_class (be_ossl (ce_blocks toy_chain_env))) 0 (md_dsBlockChain M) [toy_genesis]" "[toy_genesis] \<noteq> []"
    "disk_works (ce_db toy_chain_env)" "storage_ready (md_storage M)" "ce_BLOCKLINK_VERSION toy_chain_env < 2 ^ 32"
  from run [OF this] obtain M' where
    "CheckDirBlocks toy_chain_env [DirVC toy_vc_block] [(1, Peer_default)] 1 [] M = Some (True, [(1, Peer_default)], M')"
    "link_rep map_db toy_links 1 (md_blocklinkchain M', md_storage M')
      ([toy_first_link] @ dir_links toy_chain_env 1 1 (dir_start [(1, Peer_default)] [toy_genesis] [toy_first_link]) [DirVC toy_vc_block])"
    "dir_tables map_db (md_storage M') = dir_store toy_chain_env (DirVC toy_vc_block) (dir_tables map_db (md_storage M))"
    using toy_block_facts(1-4) unfolding if_not_P [OF toy_block_facts(8)] toy_block_facts(5) toy_env_fields
    by (auto simp: toy_block_facts(6))
  moreover from this(2) have "map_option bl_blockhash (GetLatestBlockLink (md_blocklinkchain M')) = Some (replicate 32 2)"
    by (auto simp: GetLatestBlockLink_def link_rep_def toy_block_facts(7) dest!: ring_back)
  moreover have "fst (snd (dir_tables map_db (md_storage M'))) (toHex (replicate 32 2)) \<noteq> None"
    using calculation(3) by (cases "dir_tables map_db (md_storage M)") (simp add: toy_vc_block_def)
  ultimately show ?thesis by blast
qed

text \<open>The hash a block carries is not part of what is signed.\<close>

definition with_hash :: "bytes \<Rightarrow> 'pt DirBlock \<Rightarrow> 'pt DirBlock" where
  "with_hash h d = (case d of
     DirDS b \<Rightarrow> DirDS (b\<lparr>bb_blockHash := h\<rparr>)
   | DirVC b \<Rightarrow> DirVC (b\<lparr>bb_blockHash := h\<rparr>)
   | DirFB f \<Rightarrow> DirFB (f\<lparr>fbs_fallbackblock := (fbs_fallbackblock f)\<lparr>bb_blockHash := h\<rparr>\<rparr>))"

lemma with_hash_simps:
  "dir_fits E v (with_hash h d) = dir_fits E v d" "dir_hash (with_hash h d) = h"
  "fst (dir_advance E (with_hash h d) v) = fst (dir_advance E d v)"
  "dir_block_ok d \<Longrightarrow> length h = 32 \<Longrightarrow> dir_block_ok (with_hash h d)"
  by (cases d; cases v; simp add: with_hash_def dir_hash_def dir_block_ok_def signed_by_def Let_def UpdateDSCommiteeComposition_def
      UpdateRetrieveDSCommiteeCompositionAfterVC_def)+

text \<open>C32: the hash a directory block carries is believed. Whenever a block is accepted, the same block with any other 32 octets as its
  hash is accepted as well, gives the same committee, and leaves these octets as the latest hash in the chain of links: the
  hash is neither covered by the co-signature nor recomputed from the header.\<close>

theorem carried_hash_is_believed:
  assumes links: "link_rep (ce_db E) (ce_links E) (ce_BLOCKLINK_VERSION E) (md_blocklinkchain M, md_storage M) xs" "xs \<noteq> []"
    and blocks: "block_rep (ds_block_class (be_ossl (ce_blocks E))) f (md_dsBlockChain M) ys" "ys \<noteq> []"
    and disk: "disk_works (ce_db E)" "storage_ready (md_storage M)" "ce_BLOCKLINK_VERSION E < 2 ^ 32"
    and d: "dir_block_ok d" "guards_fit E (dir_start C ys xs) [d]" and h: "length h = 32"
    and room: "length xs + 1 + BLOCKCHAIN_SIZE < 2 ^ 64" "unat (dsh_blockNum (ds_header (last ys))) + 1 + BLOCKCHAIN_SIZE < 2 ^ 64"
    and accepted: "CheckDirBlocks E [d] C (of_nat (length xs)) newDSComm M = Some (True, C', M1)"
  shows "\<exists>M2. CheckDirBlocks E [with_hash h d] C (of_nat (length xs)) newDSComm M = Some (True, C', M2)
    \<and> map_option bl_blockhash (GetLatestBlockLink (md_blocklinkchain M2)) = Some h"
proof -
  let ?v = "dir_start C ys xs"
  have one: "list_all dir_block_ok [e]" "guards_fit E ?v [e]" "length xs + length [e] + BLOCKCHAIN_SIZE < 2 ^ 64"
    "unat (dsh_blockNum (ds_header (last ys))) + length [e] + BLOCKCHAIN_SIZE < 2 ^ 64" if "e = d \<or> e = with_hash h d" for e
    using d h room that by (auto simp: with_hash_simps)
  have "dir_accepted E ?v [d] = [d]" "C' = fst (dir_after E [d] ?v)"
    using CheckDirBlocks_outcome [OF links blocks disk one [OF disjI1 [OF refl]] refl, of newDSComm] accepted
    by (auto split: if_splits)
  then have fits: "dir_fits E ?v d" and C': "C' = fst (dir_advance E d ?v)"
    by (auto simp: dir_after_def split: if_splits)
  have acc: "[with_hash h d] = dir_accepted E ?v [with_hash h d]" using fits by (simp add: with_hash_simps)
  have "\<not> dir_ends_throwing E ?v [with_hash h d]" using fits by (simp add: with_hash_simps)
  then obtain s2 where s2: "CheckDirBlocks E [with_hash h d] C (of_nat (length xs)) newDSComm M
      = Some ([with_hash h d] = [with_hash h d], fst (dir_after E [with_hash h d] ?v),
          \<lparr>md_dsBlockChain = md_dsBlockChain s2, md_blocklinkchain = md_blocklinkchain s2, md_storage = md_storage s2\<rparr>)"
    "dir_rep E f s2 (xs @ dir_links E (ce_BLOCKLINK_VERSION E) (length xs) ?v [with_hash h d]) (ys @ dir_ds_blocks [with_hash h d])
       (dir_after E [with_hash h d] ?v) (fold (dir_store E) [with_hash h d] (dir_tables (ce_db E) (md_storage M)))"
    using CheckDirBlocks_outcome [OF links blocks disk one [OF disjI2 [OF refl]] acc, of newDSComm] by auto
  have "map_option bl_blockhash (GetLatestBlockLink (md_blocklinkchain s2)) = Some h"
    using s2(2) by (auto simp: GetLatestBlockLink_def dir_rep_def link_rep_def dir_link_def with_hash_simps dest!: ring_back)
  moreover have "fst (dir_after E [with_hash h d] ?v) = C'" by (simp add: C' dir_after_def with_hash_simps)
  ultimately show ?thesis using s2(1) by simp
qed

theorem carried_hash_is_believed_witness:
  "\<exists>M M2. CheckDirBlocks toy_chain_env [with_hash (replicate 32 7) (DirVC toy_vc_block)] [(1, Peer_default)] 1 [] M
      = Some (True, [(1, Peer_default)], M2)
    \<and> map_option bl_blockhash (GetLatestBlockLink (md_blocklinkchain M2)) = Some (replicate 32 7)"
proof (rule toy_mediator)
  fix M :: "(int, db_path \<Rightarrow> (bytes \<times> bytes) list) Mediator"
  assume reps: "link_rep (ce_db toy_chain_env) (ce_links toy_chain_env) (ce_BLOCKLINK_VERSION toy_chain_env) (md_blocklinkchain M, md_storage M)
      [toy_first_link]" "[toy_first_link] \<noteq> []"
    "block_rep (ds_block_class (be_ossl (ce_blocks toy_chain_env))) 0 (md_dsBlockChain M) [toy_genesis]" "[toy_genesis] \<noteq> []"
    "disk_works (ce_db toy_chain_env)" "storage_ready (md_storage M)" "ce_BLOCKLINK_VERSION toy_chain_env < 2 ^ 32"
  have one: "list_all dir_block_ok [DirVC toy_vc_block]" "length [toy_first_link] + length [DirVC toy_vc_block] + BLOCKCHAIN_SIZE < 2 ^ 64"
    "unat (dsh_blockNum (ds_header (last [toy_genesis]))) + length [DirVC toy_vc_block] + BLOCKCHAIN_SIZE < 2 ^ 64"
    using toy_block_facts(1,3,4) by simp_all
  obtain M1 where "CheckDirBlocks toy_chain_env [DirVC toy_vc_block] [(1, Peer_default)] (of_nat (length [toy_first_link])) [] M
      = Some (True, [(1, Peer_default)], M1)"
    using CheckDirBlocks_outcome [OF reps one(1) toy_block_facts(2) one(2,3) toy_block_facts(5) [symmetric], of "[]"]
    unfolding if_not_P [OF toy_block_facts(8)] by (auto simp: toy_block_facts(6))
  from carried_hash_is_believed [OF reps toy_block_facts(1,2) _ toy_block_facts(3,4) this, of "replicate 32 7"] show ?thesis by auto
qed

end
