(* ===== verification/TxnProcessing.thy ===== *)
theory TxnProcessing
  imports ConsensusCommon TxnPool StateDelta
begin

text \<open>
  What a shard does with transactions: the checks of \<open>libValidator/Validator.cpp\<close>, the packets that lookup nodes forward
  (\<open>libNode/Node.cpp\<close>), and the loop of \<open>libNode/MicroBlockPreProcessing.cpp\<close> that takes transactions from the pool,
  executes them on the temporary store and puts the others back.

  One pass of the loop is a function. The passes that are available are a list: each has the flag the timer may have set
  by then and what the interpreter answers in it. A loop that has used up its passes says so; the functions of the node
  then give \<open>None\<close>, as for an exception.
\<close>

section \<open>Configuration and state\<close>

datatype Mode = IDLE | PRIMARY_DS | BACKUP_DS

record ('t, 'd, 'pt) mb_env =
  mb_store :: "('t, 'd, 'pt) as_env"
  mb_proto :: tx_protobuf
  mb_LOOKUP_NODE_MODE :: bool
  CHAIN_ID :: "16 word"
  MICROBLOCK_GAS_LIMIT :: "32 word"
  ENABLE_ACCOUNTS_POPULATING :: bool
  NUM_FINAL_BLOCK_PER_POW :: nat
  m_populatedAddresses :: "Address list"
  m_currentEpochNum :: "64 word"
  m_numShards :: "32 word"
  m_myshardId :: "32 word"
  ds_mode :: Mode
  ds_shards :: nat
  ds_gasPrice :: "128 word"

abbreviation mb_ossl :: "('t, 'd, 'pt) mb_env \<Rightarrow> 'pt openssl" where
  "mb_ossl E \<equiv> sc_ossl (as_sc (mb_store E))"

datatype PoolTxnStatus = NOT_PRESENT | PRESENT_NONCE_HIGH | PRESENT_GAS_EXCEEDED | STATUS_ERROR

type_synonym 'pt addr_nonce_map = "(Address \<times> (64 word \<times> 'pt Transaction) list) list"
type_synonym 'pt processed = "(bytes \<times> 'pt Transaction \<times> event TransactionReceipt) list"

record ('t, 'd, 'pt) Node =
  m_createdTxns :: "'pt TxnPool"
  t_createdTxns :: "'pt TxnPool"
  t_processedTransactions :: "'pt processed"
  m_processedTransactions :: "(64 word \<times> 'pt processed) list"
  m_TxnOrder :: "bytes list"
  m_expectedTranOrdering :: "bytes list"
  m_gasUsedTotal :: "64 word"
  m_txnFees :: "128 word"
  m_unconfirmedTxns :: "(bytes \<times> PoolTxnStatus) list"
  node_accounts :: "('t, 'd) AccountStore"

section \<open>Checks of the validator\<close>

definition UnpackA :: "32 word \<Rightarrow> 16 word" where
  "UnpackA x = ucast (drop_bit 16 x)"

text \<open>Operations on the permanent store, which may load an account into its cache.\<close>

definition on_primary :: "('t trie_store \<Rightarrow> 'x \<times> 't trie_store) \<Rightarrow> ('t, 'd) AccountStore \<Rightarrow> 'x \<times> ('t, 'd) AccountStore" where
  "on_primary f A = (case f (primary A) of (x, s) \<Rightarrow> (x, upd_primary (\<lambda>_. s) A))"

definition CheckCreatedTransaction ::
    "('t, 'd, 'pt) mb_env \<Rightarrow> 'd scilla_world \<Rightarrow> 'pt Transaction \<Rightarrow> event TransactionReceipt \<Rightarrow> ('t, 'd) AccountStore
     \<Rightarrow> (bool \<times> event TransactionReceipt \<times> ('t, 'd) AccountStore) option" where
  "CheckCreatedTransaction E W tx receipt A =
     (let Y = mb_store E; c = m_coreInfo tx; fromAddr = GetAddressFromPublicKey (mb_ossl E) (GetSenderPubKey tx)
      in if mb_LOOKUP_NODE_MODE E then Some (True, receipt, A)
         else if UnpackA (tx_version c) \<noteq> CHAIN_ID E then Some (False, receipt, A)
         else if fromAddr = NullAddress then Some (False, receipt, A)
         else case on_primary (IsAccountExist (trie_vt Y) fromAddr) A of (found, A1) \<Rightarrow>
           if \<not> found then Some (False, receipt, A1)
           else case on_primary (GetBalance (trie_vt Y) fromAddr) A1 of (balance, A2) \<Rightarrow>
             if balance < tx_amount c then Some (False, receipt, A2)
             else UpdateAccountsTemp Y W (unat (m_currentEpochNum E)) (unat (m_numShards E)) (ds_mode E \<noteq> IDLE) c
                    (SetEpochNum (m_currentEpochNum E) receipt) A2)"

definition CheckCreatedTransactionFromLookup ::
    "('t, 'd, 'pt) mb_env \<Rightarrow> 'pt Transaction \<Rightarrow> ('t, 'd) AccountStore \<Rightarrow> (bool \<times> ('t, 'd) AccountStore) option" where
  "CheckCreatedTransactionFromLookup E tx A =
     (let Y = mb_store E; c = m_coreInfo tx; fromAddr = GetSenderAddr (mb_ossl E) c;
          correct_shard_from = GetShardIndex fromAddr (unat (m_numShards E));
          correct_shard_to = GetShardIndex (tx_toAddr c) (unat (m_numShards E))
      in if mb_LOOKUP_NODE_MODE E then Some (True, A)
         else if UnpackA (tx_version c) \<noteq> CHAIN_ID E then Some (False, A)
         else if fromAddr = NullAddress then Some (False, A)
         else if ds_mode E = IDLE \<and> correct_shard_from \<noteq> unat (m_myshardId E) then Some (False, A)
         else if ds_mode E = IDLE \<and> GetTransactionType c = CONTRACT_CALL \<and> correct_shard_to \<noteq> correct_shard_from then Some (False, A)
         else if length (tx_code c) > MAX_CODE_SIZE_IN_BYTES Y then Some (False, A)
         else if tx_gasPrice c < ds_gasPrice E then Some (False, A)
         else do {
           verified \<leftarrow> VerifyTransaction (mb_ossl E) (mb_proto E) tx;
           if \<not> verified then Some (False, A)
           else case on_primary (IsAccountExist (trie_vt Y) fromAddr) A of (found, A1) \<Rightarrow>
             if \<not> found then Some (False, A1)
             else case on_primary (GetBalance (trie_vt Y) fromAddr) A1 of (balance, A2) \<Rightarrow>
               Some (\<not> balance < tx_amount c, A2) })"

section \<open>Transaction packets\<close>

text \<open>The loops at the end of \<open>ProcessTxnPacketFromLookupCore\<close>. Before each transaction the code asks the mediator, which other
  threads move on, whether the epoch has become vacuous: the answer before the \<open>i\<close>-th transaction is \<open>vacuous i\<close>. When it has,
  the handler returns at once; no list of checked transactions is left then, only what the checks so far put into the caches of
  the store.\<close>

fun check_txns :: "('t, 'd, 'pt) mb_env \<Rightarrow> (nat \<Rightarrow> bool) \<Rightarrow> nat \<Rightarrow> 'pt Transaction list \<Rightarrow> ('t, 'd) AccountStore
    \<Rightarrow> ('pt Transaction list option \<times> ('t, 'd) AccountStore) option" where
  "check_txns E vacuous i [] A = Some (Some [], A)"
| "check_txns E vacuous i (txn # txns) A =
     (if vacuous i then Some (None, A)
      else do {
        (ok, A1) \<leftarrow> CheckCreatedTransactionFromLookup E txn A;
        (checkedTxns, A2) \<leftarrow> check_txns E vacuous (Suc i) txns A1;
        Some (map_option (if ok then Cons txn else id) checkedTxns, A2) })"

definition insert_all :: "'pt Transaction list \<Rightarrow> 'pt TxnPool \<Rightarrow> 'pt TxnPool" where
  "insert_all txns p = foldl (\<lambda>p t. snd (TxnPool_insert t p)) p txns"

record packet_env =
  pk_NO_SYNC :: bool
  GetIsVacuousEpoch :: "nat \<Rightarrow> bool"
  PACKET_EPOCH_LATE_ALLOW :: "64 word"
  pk_dsBlockNum :: "64 word"
  pk_BROADCAST_GOSSIP_MODE :: bool
  pk_shardPeers :: "Peer list"

text \<open>The packet is passed on before its transactions are looked at, as a rumor or as a broadcast to the members of the shard
  (\<open>P2PComm::SpreadRumor\<close>, \<open>P2PComm::SendBroadcastMessage\<close>); the result says how.\<close>

datatype packet_sent = PacketRumor bytes | PacketBroadcast "Peer list" bytes

definition ProcessTxnPacketFromLookupCore ::
    "('t, 'd, 'pt) mb_env \<Rightarrow> packet_env \<Rightarrow> bytes \<Rightarrow> 64 word \<Rightarrow> 64 word \<Rightarrow> 32 word \<Rightarrow> 'pt Transaction list \<Rightarrow> ('t, 'd, 'pt) Node
     \<Rightarrow> (bool \<times> packet_sent list \<times> ('t, 'd, 'pt) Node) option" where
  "ProcessTxnPacketFromLookupCore E K message epochNum dsBlockNum shardId txns N =
     (let sent = [if pk_BROADCAST_GOSSIP_MODE K then PacketRumor message else PacketBroadcast (pk_shardPeers K) message]
      in if mb_LOOKUP_NODE_MODE E then Some (True, [], N)
      else if \<not> pk_NO_SYNC K then Some (False, [], N)
      else if epochNum + PACKET_EPOCH_LATE_ALLOW K < m_currentEpochNum E then Some (False, [], N)
      else if dsBlockNum \<noteq> pk_dsBlockNum K then Some (False, [], N)
      else if shardId \<noteq> m_myshardId E then Some (False, [], N)
      else do {
        (checkedTxns, A) \<leftarrow> check_txns E (GetIsVacuousEpoch K) 0 txns (node_accounts N);
        Some (case checkedTxns of
            None \<Rightarrow> (False, sent, N\<lparr>node_accounts := A\<rparr>)
          | Some txns1 \<Rightarrow> (True, sent, N\<lparr>node_accounts := A, m_createdTxns := insert_all txns1 (m_createdTxns N)\<rparr>)) })"

section \<open>The processing loop\<close>

record ('t, 'd, 'pt) Proc =
  p_created :: "'pt TxnPool"
  p_addrNonce :: "'pt addr_nonce_map"
  p_processed :: "'pt processed"
  p_order :: "bytes list"
  p_gasUsedTotal :: "64 word"
  p_txnFees :: "128 word"
  p_exceeded :: "'pt Transaction list"
  p_accounts :: "('t, 'd) AccountStore"

text \<open>The first address whose smallest nonce is the one expected next; an inner map is never empty.\<close>

fun findOneFromAddrNonceTxnMap :: "('t, 'd, 'pt) as_env \<Rightarrow> 'pt addr_nonce_map \<Rightarrow> ('t, 'd) AccountStore
    \<Rightarrow> (('pt Transaction \<times> 'pt addr_nonce_map) option \<times> ('t, 'd) AccountStore) option" where
  "findOneFromAddrNonceTxnMap Y [] A = Some (None, A)"
| "findOneFromAddrNonceTxnMap Y ((a, []) # rest) A = None"
| "findOneFromAddrNonceTxnMap Y ((a, (n, t) # m) # rest) A =
     (case GetNonceTemp Y a A of (k, A1) \<Rightarrow>
        if ucast n = k + 1 then Some (Some (t, if m = [] then rest else (a, m) # rest), A1)
        else do {
          (r, A2) \<leftarrow> findOneFromAddrNonceTxnMap Y rest A1;
          Some (map_option (\<lambda>(t', rest'). (t', (a, (n, t) # m) # rest')) r, A2) })"

text \<open>A transaction with a nonce that is too high waits; of two with the same nonce the one that pays more.\<close>

definition buffer_txn :: "Address \<Rightarrow> 'pt Transaction \<Rightarrow> 'pt addr_nonce_map \<Rightarrow> 'pt addr_nonce_map" where
  "buffer_txn senderAddr t M =
     (let m = (case map_of M senderAddr of None \<Rightarrow> [] | Some m \<Rightarrow> m); nonce = Transaction_GetNonce t
      in case map_of m nonce of
           Some t' \<Rightarrow> if GetGasPrice t > GetGasPrice t' then map_put (<) senderAddr (map_put (<) nonce t m) M else M
         | None \<Rightarrow> map_put (<) senderAddr (map_put (<) nonce t m) M)"

definition appendOne :: "'pt Transaction \<Rightarrow> event TransactionReceipt \<Rightarrow> ('t, 'd, 'pt) Proc \<Rightarrow> ('t, 'd, 'pt) Proc" where
  "appendOne t tr s =
     s\<lparr>p_processed := (if map_of (p_processed s) (GetTranID t) = None then p_processed s @ [(GetTranID t, t, tr)] else p_processed s),
       p_order := p_order s @ [GetTranID t]\<rparr>"

datatype ('t, 'd, 'pt) pass = GoOn "('t, 'd, 'pt) Proc" | Stop "('t, 'd, 'pt) Proc"

text \<open>After a transaction has been executed: gas, fee, and the entry of the block.\<close>

definition count_txn :: "ledger_env \<Rightarrow> 'pt Transaction \<Rightarrow> event TransactionReceipt \<Rightarrow> ('t, 'd, 'pt) Proc \<Rightarrow> ('t, 'd, 'pt) pass" where
  "count_txn L t tr s =
     (case USafe_add (SafeMath64 L) (p_gasUsedTotal s) (r_cumGas tr) (p_gasUsedTotal s) of (ok, gas) \<Rightarrow>
        let s1 = s\<lparr>p_gasUsedTotal := gas\<rparr>
        in if \<not> ok then Stop s1
           else case USafe_mul (SafeMath128 L) (ucast (r_cumGas tr)) (GetGasPrice t) 0 of (ok2, txnFee) \<Rightarrow>
             if \<not> ok2 then GoOn s1
             else case USafe_add (SafeMath128 L) (p_txnFees s1) txnFee (p_txnFees s1) of (ok3, fees) \<Rightarrow>
               let s2 = s1\<lparr>p_txnFees := fees\<rparr>
               in if \<not> ok3 then Stop s2 else GoOn (appendOne t tr s2))"

definition execute_txn :: "('t, 'd, 'pt) mb_env \<Rightarrow> 'd scilla_world \<Rightarrow> 'pt Transaction \<Rightarrow> ('t, 'd, 'pt) Proc
    \<Rightarrow> ('t, 'd, 'pt) pass option" where
  "execute_txn E W t s = do {
     (ok, tr, A) \<leftarrow> CheckCreatedTransaction E W t TransactionReceipt_new (p_accounts s);
     let s1 = s\<lparr>p_accounts := A\<rparr>;
     Some (if ok then count_txn (as_ledger (mb_store E)) t tr s1 else GoOn s1) }"

text \<open>A transaction from the waiting ones is checked against the gas limit, one from the pool is not.\<close>

definition process_waiting :: "('t, 'd, 'pt) mb_env \<Rightarrow> 'd scilla_world \<Rightarrow> 'pt Transaction \<Rightarrow> ('t, 'd, 'pt) Proc
    \<Rightarrow> ('t, 'd, 'pt) pass option" where
  "process_waiting E W t0 s =
     (case findSameNonceButHigherGas t0 (p_created s) of (t, pool) \<Rightarrow>
        let s1 = s\<lparr>p_created := pool\<rparr>
        in if p_gasUsedTotal s1 + GetGasLimit t > ucast (MICROBLOCK_GAS_LIMIT E)
           then Some (GoOn (s1\<lparr>p_exceeded := p_exceeded s1 @ [t]\<rparr>))
           else execute_txn E W t s1)"

definition process_new :: "('t, 'd, 'pt) mb_env \<Rightarrow> 'd scilla_world \<Rightarrow> 'pt Transaction \<Rightarrow> ('t, 'd, 'pt) Proc
    \<Rightarrow> ('t, 'd, 'pt) pass option" where
  "process_new E W t s =
     (let Y = mb_store E; senderAddr = GetSenderAddr (mb_ossl E) (m_coreInfo t)
      in case GetNonceTemp Y senderAddr (p_accounts s) of (k, A1) \<Rightarrow>
           let s1 = s\<lparr>p_accounts := A1\<rparr>
           in if ucast (Transaction_GetNonce t) > k + 1
              then Some (GoOn (s1\<lparr>p_addrNonce := buffer_txn senderAddr t (p_addrNonce s1)\<rparr>))
              else case GetNonceTemp Y senderAddr A1 of (k', A2) \<Rightarrow>
                let s2 = s1\<lparr>p_accounts := A2\<rparr>
                in if ucast (Transaction_GetNonce t) < k' + 1 then Some (GoOn s2) else execute_txn E W t s2)"

definition process_pass :: "('t, 'd, 'pt) mb_env \<Rightarrow> 'd scilla_world \<Rightarrow> ('t, 'd, 'pt) Proc \<Rightarrow> ('t, 'd, 'pt) pass option" where
  "process_pass E W s = do {
     (found, A1) \<leftarrow> findOneFromAddrNonceTxnMap (mb_store E) (p_addrNonce s) (p_accounts s);
     let s1 = s\<lparr>p_accounts := A1\<rparr>;
     case found of
       Some (t, M) \<Rightarrow> process_waiting E W t (s1\<lparr>p_addrNonce := M\<rparr>)
     | None \<Rightarrow> (case findOne (p_created s1) of
                 (None, pool) \<Rightarrow> Some (Stop (s1\<lparr>p_created := pool\<rparr>))
               | (Some t, pool) \<Rightarrow> process_new E W t (s1\<lparr>p_created := pool\<rparr>)) }"

text \<open>The flag is false when the passes are used up.\<close>

fun process_loop :: "('t, 'd, 'pt) mb_env \<Rightarrow> (bool \<times> 'd scilla_world) list \<Rightarrow> ('t, 'd, 'pt) Proc \<Rightarrow> (bool \<times> ('t, 'd, 'pt) Proc) option" where
  "process_loop E [] s = Some (\<not> p_gasUsedTotal s < ucast (MICROBLOCK_GAS_LIMIT E), s)"
| "process_loop E ((txnProcTimeout, W) # passes) s =
     (if \<not> p_gasUsedTotal s < ucast (MICROBLOCK_GAS_LIMIT E) \<or> txnProcTimeout then Some (True, s)
      else do {
        r \<leftarrow> process_pass E W s;
        case r of GoOn s' \<Rightarrow> process_loop E passes s' | Stop s' \<Rightarrow> Some (True, s') })"

section \<open>The node around the loop\<close>

definition populate_one :: "('t, 'd, 'pt) mb_env \<Rightarrow> ('t, 'd) AccountStore \<Rightarrow> nat \<Rightarrow> ('t, 'd) AccountStore" where
  "populate_one E A i =
     (if i mod (ds_shards E + 1) = unat (m_myshardId E)
         \<and> i mod NUM_FINAL_BLOCK_PER_POW E = unat (m_currentEpochNum E) mod NUM_FINAL_BLOCK_PER_POW E
      then snd (IncreaseBalanceTemp (mb_store E) (m_populatedAddresses E ! i) 1 A) else A)"

definition UpdateBalanceForPreGeneratedAccounts :: "('t, 'd, 'pt) mb_env \<Rightarrow> ('t, 'd) AccountStore \<Rightarrow> ('t, 'd) AccountStore" where
  "UpdateBalanceForPreGeneratedAccounts E A = foldl (populate_one E) A [0..<length (m_populatedAddresses E)]"

definition emplace_status :: "PoolTxnStatus \<Rightarrow> 'pt Transaction list \<Rightarrow> (bytes \<times> PoolTxnStatus) list \<Rightarrow> (bytes \<times> PoolTxnStatus) list" where
  "emplace_status st ts U = foldl (\<lambda>U t. if map_of U (GetTranID t) = None then U @ [(GetTranID t, st)] else U) U ts"

definition waiting_txns :: "'pt addr_nonce_map \<Rightarrow> 'pt Transaction list" where
  "waiting_txns M = concat (map (\<lambda>(a, m). map snd m) M)"

definition ReinstateMemPool :: "'pt addr_nonce_map \<Rightarrow> 'pt Transaction list \<Rightarrow> ('t, 'd, 'pt) Node \<Rightarrow> ('t, 'd, 'pt) Node" where
  "ReinstateMemPool addrNonceTxnMap gasLimitExceededTxnBuffer N =
     N\<lparr>t_createdTxns := insert_all gasLimitExceededTxnBuffer (insert_all (waiting_txns addrNonceTxnMap) (t_createdTxns N)),
       m_unconfirmedTxns := emplace_status PRESENT_GAS_EXCEEDED gasLimitExceededTxnBuffer
         (emplace_status PRESENT_NONCE_HIGH (waiting_txns addrNonceTxnMap) (m_unconfirmedTxns N))\<rparr>"

definition start_processing :: "('t, 'd, 'pt) mb_env \<Rightarrow> ('t, 'd, 'pt) Node \<Rightarrow> ('t, 'd, 'pt) Proc" where
  "start_processing E N =
     \<lparr>p_created = m_createdTxns N, p_addrNonce = [], p_processed = [], p_order = [], p_gasUsedTotal = 0, p_txnFees = 0, p_exceeded = [],
      p_accounts = (if ENABLE_ACCOUNTS_POPULATING E then UpdateBalanceForPreGeneratedAccounts E (node_accounts N) else node_accounts N)\<rparr>"

definition finish_processing :: "('t, 'd, 'pt) Proc \<Rightarrow> ('t, 'd, 'pt) Node \<Rightarrow> ('t, 'd, 'pt) Node" where
  "finish_processing s N =
     ReinstateMemPool (p_addrNonce s) (p_exceeded s)
       (N\<lparr>t_createdTxns := p_created s, t_processedTransactions := p_processed s, m_gasUsedTotal := p_gasUsedTotal s,
          m_txnFees := p_txnFees s, node_accounts := p_accounts s\<rparr>)"

definition ProcessTransactionWhenShardLeader ::
    "('t, 'd, 'pt) mb_env \<Rightarrow> (bool \<times> 'd scilla_world) list \<Rightarrow> ('t, 'd, 'pt) Node \<Rightarrow> ('t, 'd, 'pt) Node option" where
  "ProcessTransactionWhenShardLeader E passes N = do {
     (ended, s) \<leftarrow> process_loop E passes (start_processing E N);
     if \<not> ended then None else Some (finish_processing s (N\<lparr>m_TxnOrder := p_order s\<rparr>)) }"

text \<open>The backup runs the same loop for the order it expects.\<close>

definition ProcessTransactionWhenShardBackup ::
    "('t, 'd, 'pt) mb_env \<Rightarrow> (bool \<times> 'd scilla_world) list \<Rightarrow> ('t, 'd, 'pt) Node \<Rightarrow> ('t, 'd, 'pt) Node option" where
  "ProcessTransactionWhenShardBackup E passes N = do {
     (ended, s) \<leftarrow> process_loop E passes (start_processing E N);
     if \<not> ended then None else Some (finish_processing s (N\<lparr>m_expectedTranOrdering := p_order s\<rparr>)) }"

definition UpdateProcessedTransactions :: "('t, 'd, 'pt) mb_env \<Rightarrow> ('t, 'd, 'pt) Node \<Rightarrow> ('t, 'd, 'pt) Node" where
  "UpdateProcessedTransactions E N =
     N\<lparr>m_createdTxns := t_createdTxns N, t_createdTxns := TxnPool_clear (t_createdTxns N),
       m_processedTransactions := AList.update (m_currentEpochNum E) (t_processedTransactions N) (m_processedTransactions N),
       t_processedTransactions := []\<rparr>"

definition IsTxnInMemPool :: "bool \<Rightarrow> bytes \<Rightarrow> ('t, 'd, 'pt) Node \<Rightarrow> PoolTxnStatus" where
  "IsTxnInMemPool locked txhash N =
     (if \<not> locked then STATUS_ERROR
      else case map_of (m_unconfirmedTxns N) txhash of None \<Rightarrow> NOT_PRESENT | Some st \<Rightarrow> st)"

end
