(* ===== verification/MicroBlockLedger.thy ===== *)
theory MicroBlockLedger
  imports TxnProcessing
begin

text \<open>
  What the loop of a shard guarantees for the ledger: the transactions of a micro block are executed one after the other,
  each with the next nonce of its sender, and gas, fees and balances add up.
\<close>

section \<open>Reading the stores\<close>

lemma on_primary_views:
  assumes "\<And>x s. f (primary A) = (x, s) \<Longrightarrow> trie_view Y s = trie_view Y (primary A)" "on_primary f A = (x, A')"
  shows "temp_accounts Y A' = temp_accounts Y A" "perm_accounts Y A' = perm_accounts Y A"
  using assms by (auto simp: on_primary_def temp_accounts_def temp_ledger_def perm_accounts_def primary_def upd_primary_def split: prod.splits)

lemma primary_reads:
  "trie_view Y s' = trie_view Y s" if "IsAccountExist (trie_vt Y) a s = (b, s')" for Y a s b s'
  using that AccountStoreTrie_GetAccount_view [of Y a s] by (auto simp: IsAccountExist_def trie_vt_def split: prod.splits)

lemma primary_balance:
  "trie_view Y s' = trie_view Y s" if "GetBalance (trie_vt Y) a s = (b, s')" for Y a s b s'
  using that AccountStoreTrie_GetAccount_view [of Y a s] by (auto simp: GetBalance_def trie_vt_def split: prod.splits option.splits)

lemma GetNonceTemp_view:
  assumes "GetNonceTemp Y a A = (n, A')"
  shows "unat n = nonce_of (temp_accounts Y A) a" "temp_accounts Y A' = temp_accounts Y A" "perm_accounts Y A' = perm_accounts Y A"
proof -
  let ?v = "temp_accounts Y A"
  have "unat n = nonce_of ?v a \<and> temp_accounts Y A' = ?v \<and> perm_accounts Y A' = perm_accounts Y A"
  proof (cases "map_of (tmp_map (sc_store (m_accountStoreTemp A))) a")
    case None
    obtain r s where g: "AccountStoreTrie_GetAccount Y a (primary A) = (r, s)" by fastforce
    note v = AccountStoreTrie_GetAccount_view [OF g]
    have "r = ?v a" using v None by (simp add: temp_accounts_def temp_ledger_def primary_def map_add_def)
    moreover have "n = ucast (case r of None \<Rightarrow> 0 | Some acc \<Rightarrow> m_nonce acc)" "A' = upd_primary (\<lambda>_. s) A"
      using assms None g by (simp_all add: GetNonceTemp_def GetNonce_def trie_vt_def)
    moreover have "temp_accounts Y (upd_primary (\<lambda>_. s) A) = ?v" "perm_accounts Y (upd_primary (\<lambda>_. s) A) = perm_accounts Y A"
      using v by (simp_all add: temp_accounts_def temp_ledger_def perm_accounts_def primary_def upd_primary_def)
    ultimately show ?thesis by (simp add: nonce_of_def unat_ucast_up split: option.split)
  next
    case (Some acc)
    obtain r S where g: "vt_GetAccount (this_vt (temp_vt Y)) a (m_accountStoreTemp A) = (r, S)" by fastforce
    have v: "r = ?v a" "temp_ledger Y (sc_store S) = ?v"
      using temp_store.this.get_view [OF g] unfolding temp_store.tv_def by (simp_all add: temp_accounts_def)
    have "perm_accounts Y (A\<lparr>m_accountStoreTemp := S\<rparr>) = perm_accounts Y A"
      using same_parent_perm parent_frame.rel_this_get [OF g] unfolding parent_frame.rel_def by blast
    moreover have "n = ucast (case r of None \<Rightarrow> 0 | Some acc \<Rightarrow> m_nonce acc)" "A' = A\<lparr>m_accountStoreTemp := S\<rparr>"
      using assms Some g by (simp_all add: GetNonceTemp_def GetNonce_def)
    ultimately show ?thesis using v by (simp add: temp_accounts_def nonce_of_def unat_ucast_up split: option.split)
  qed
  then show "unat n = nonce_of ?v a" "temp_accounts Y A' = ?v" "perm_accounts Y A' = perm_accounts Y A" by simp_all
qed

lemma CheckCreatedTransaction_effect:
  assumes "\<not> mb_LOOKUP_NODE_MODE E" "ledger_env_ok (as_ledger (mb_store E))" "supply_fits (temp_accounts (mb_store E) A)"
    and "nonces_fit (as_ledger (mb_store E)) (temp_accounts (mb_store E) A)"
    and "GetTransactionType (m_coreInfo t) = CONTRACT_CREATION \<longrightarrow> fresh_address (as_sc (mb_store E)) (m_coreInfo t) (temp_accounts (mb_store E) A)"
    and "CheckCreatedTransaction E W t r A = Some (ok, r', A')"
  shows "tx_effect (GetSenderAddr (mb_ossl E) (m_coreInfo t)) (m_coreInfo t) ok r' (temp_accounts (mb_store E) A) (temp_accounts (mb_store E) A')
    \<and> perm_accounts (mb_store E) A' = perm_accounts (mb_store E) A"
proof -
  let ?Y = "mb_store E" and ?a = "GetAddressFromPublicKey (mb_ossl E) (GetSenderPubKey t)"
  obtain found A1 where 1: "on_primary (IsAccountExist (trie_vt ?Y) ?a) A = (found, A1)" by fastforce
  obtain balance A2 where 2: "on_primary (GetBalance (trie_vt ?Y) ?a) A1 = (balance, A2)" by fastforce
  have v1: "temp_accounts ?Y A1 = temp_accounts ?Y A" "perm_accounts ?Y A1 = perm_accounts ?Y A"
    by (rule on_primary_views [OF _ 1], erule primary_reads)+
  have v2: "temp_accounts ?Y A2 = temp_accounts ?Y A1" "perm_accounts ?Y A2 = perm_accounts ?Y A1"
    by (rule on_primary_views [OF _ 2], erule primary_balance)+
  have refused: "tx_effect s c False r' v v" for s c v by (simp add: tx_effect_def)
  consider "ok = False" "A' \<in> {A, A1, A2}"
    | "UpdateAccountsTemp ?Y W (unat (m_currentEpochNum E)) (unat (m_numShards E)) (ds_mode E \<noteq> IDLE) (m_coreInfo t)
        (SetEpochNum (m_currentEpochNum E) r) A2 = Some (ok, r', A')"
    using assms(1,6) 1 2 by (auto simp: CheckCreatedTransaction_def Let_def split: if_splits)
  then show ?thesis
  proof cases
    case 1
    then have "temp_accounts ?Y A' = temp_accounts ?Y A" "perm_accounts ?Y A' = perm_accounts ?Y A" using v1 v2 by auto
    then show ?thesis using refused 1 by simp
  next
    case 2
    then show ?thesis using UpdateAccountsTemp_effect [OF assms(2) _ _ _ 2] assms(3-5) v1 v2 by simp
  qed
qed

section \<open>Histories\<close>

abbreviation txn_sender :: "'pt openssl \<Rightarrow> 'pt Transaction \<Rightarrow> Address" where
  "txn_sender B t \<equiv> GetSenderAddr B (m_coreInfo t)"

text \<open>A ledger after a list of transactions, each executed with success and with the next nonce of its sender.\<close>

inductive executes :: "'pt openssl \<Rightarrow> ledger \<Rightarrow> ('pt Transaction \<times> event TransactionReceipt) list \<Rightarrow> ledger \<Rightarrow> bool"
  for B :: "'pt openssl" and v0 :: ledger where
  executes_none: "executes B v0 [] v0"
| executes_one: "executes B v0 hist v \<Longrightarrow> unat (Transaction_GetNonce t) = nonce_of v (txn_sender B t) + 1
    \<Longrightarrow> tx_effect (txn_sender B t) (m_coreInfo t) True r v v' \<Longrightarrow> executes B v0 (hist @ [(t, r)]) v'"

definition of_sender :: "'pt openssl \<Rightarrow> Address \<Rightarrow> ('pt Transaction \<times> 'r) list \<Rightarrow> ('pt Transaction \<times> 'r) list" where
  "of_sender B a hist = filter (\<lambda>d. txn_sender B (fst d) = a) hist"

definition fee_of :: "'pt Transaction \<times> event TransactionReceipt \<Rightarrow> nat" where
  "fee_of d = gas_cost (r_cumGas (snd d)) (m_coreInfo (fst d))"

definition gas_of :: "'pt Transaction \<times> event TransactionReceipt \<Rightarrow> nat" where
  "gas_of d = unat (r_cumGas (snd d))"

lemma of_sender_simps [simp]:
  "of_sender B a [] = []" "of_sender B a (hist @ [d]) = of_sender B a hist @ (if txn_sender B (fst d) = a then [d] else [])"
  by (simp_all add: of_sender_def)

lemma executes_money: "executes B v0 hist v \<Longrightarrow> total_balance v + sum_list (map fee_of hist) = total_balance v0"
  by (induction rule: executes.induct) (simp_all add: tx_effect_def fee_of_def)

lemma executes_nonce: "executes B v0 hist v \<Longrightarrow> nonce_of v a = nonce_of v0 a + length (of_sender B a hist)"
  by (induction rule: executes.induct) (auto simp: tx_effect_def)

lemma executes_nonces:
  "executes B v0 hist v \<Longrightarrow> map (\<lambda>d. unat (Transaction_GetNonce (fst d))) (of_sender B a hist)
     = [nonce_of v0 a + 1..<nonce_of v0 a + 1 + length (of_sender B a hist)]"
  by (induction rule: executes.induct) (simp_all add: executes_nonce)

lemma executes_gas: "executes B v0 hist v \<Longrightarrow> d \<in> set hist \<Longrightarrow> r_cumGas (snd d) \<le> GetGasLimit (fst d)"
  by (induction rule: executes.induct) (auto simp: tx_effect_def GetGasLimit_def)

text \<open>No transaction is executed twice.\<close>

lemma executes_distinct: "executes B v0 hist v \<Longrightarrow> distinct (map fst hist)"
proof (induction rule: executes.induct)
  case (executes_one hist v t r v')
  have "t \<notin> fst ` set hist"
  proof
    assume "t \<in> fst ` set hist"
    then have "unat (Transaction_GetNonce t) \<in> set (map (\<lambda>d. unat (Transaction_GetNonce (fst d))) (of_sender B (txn_sender B t) hist))"
      by (auto simp: of_sender_def)
    then show False using executes_one.hyps(2) unfolding executes_nonces [OF executes_one.hyps(1)] executes_nonce [OF executes_one.hyps(1)]
      by simp
  qed
  then show ?case using executes_one.IH by simp
qed simp

section \<open>The waiting transactions\<close>

definition map_entries :: "'pt addr_nonce_map \<Rightarrow> nat" where
  "map_entries M = sum_list (map (\<lambda>e. length (snd e)) M)"

definition waits :: "'pt openssl \<Rightarrow> 'pt Transaction set \<Rightarrow> Address \<times> (64 word \<times> 'pt Transaction) list \<Rightarrow> bool" where
  "waits B T e \<longleftrightarrow> snd e \<noteq> [] \<and> (\<forall>(n, t) \<in> set (snd e). t \<in> T \<and> n = Transaction_GetNonce t \<and> fst e = txn_sender B t)"

definition addr_map_ok :: "'pt openssl \<Rightarrow> 'pt Transaction set \<Rightarrow> 'pt addr_nonce_map \<Rightarrow> bool" where
  "addr_map_ok B T M \<longleftrightarrow> sorted_wrt (<) (map fst M) \<and> list_all (waits B T) M"

lemma ucast_next:
  fixes n :: "64 word" and k :: "128 word"
  assumes "ucast n = k + 1" "unat k < 2 ^ 64"
  shows "unat n = unat k + 1"
proof -
  have "unat (ucast n :: 128 word) = unat n" by (simp add: unat_ucast_up)
  moreover have "unat (k + 1) = unat k + 1" using assms(2) by (simp add: unat_word_ariths)
  ultimately show ?thesis using assms(1) by metis
qed

lemma nonce_of_bound: "nonce_of v a < 2 ^ 64"
proof (cases "v a")
  case (Some acc)
  then show ?thesis using unat_bound [of "m_nonce acc"] by (simp add: nonce_of_def)
qed (simp add: nonce_of_def)

text \<open>What the search gives, and that it never meets an empty inner map.\<close>

lemma findOneFromAddrNonceTxnMap_result:
  assumes "list_all (waits B T) M" "sorted_wrt (<) (map fst M)"
  shows "\<exists>r A'. findOneFromAddrNonceTxnMap Y M A = Some (r, A')
    \<and> temp_accounts Y A' = temp_accounts Y A \<and> perm_accounts Y A' = perm_accounts Y A
    \<and> (\<forall>t M'. r = Some (t, M') \<longrightarrow> t \<in> T \<and> unat (Transaction_GetNonce t) = nonce_of (temp_accounts Y A) (txn_sender B t) + 1
         \<and> list_all (waits B T) M' \<and> sorted_wrt (<) (map fst M') \<and> set (map fst M') \<subseteq> set (map fst M)
         \<and> Suc (map_entries M') = map_entries M)"
  using assms
proof (induction M arbitrary: A)
  case (Cons e M)
  obtain a m where e: "e = (a, m)" by (cases e)
  obtain n t m' where m: "m = (n, t) # m'" using Cons.prems(1) e by (cases m) (auto simp: waits_def)
  have t: "t \<in> T" "n = Transaction_GetNonce t" "a = txn_sender B t" using Cons.prems(1) by (auto simp: waits_def e m)
  obtain k A1 where k: "GetNonceTemp Y a A = (k, A1)" by fastforce
  note v = GetNonceTemp_view [OF k]
  show ?case
  proof (cases "ucast n = k + 1")
    case True
    then have "unat n = nonce_of (temp_accounts Y A) a + 1"
      using ucast_next [of n k] v(1) nonce_of_bound [of "temp_accounts Y A" a] by simp
    moreover have "waits B T (a, m')" if "m' \<noteq> []" using Cons.prems(1) that by (auto simp: waits_def e m)
    then have "list_all (waits B T) (if m' = [] then M else (a, m') # M)" using Cons.prems(1) by simp
    ultimately show ?thesis using True k v t Cons.prems(2)
      by (auto simp: e m map_entries_def split: if_splits)
  next
    case False
    obtain r A' where IH: "findOneFromAddrNonceTxnMap Y M A1 = Some (r, A')"
      "temp_accounts Y A' = temp_accounts Y A" "perm_accounts Y A' = perm_accounts Y A"
      "\<And>t M'. r = Some (t, M') \<Longrightarrow> t \<in> T \<and> unat (Transaction_GetNonce t) = nonce_of (temp_accounts Y A) (txn_sender B t) + 1
         \<and> list_all (waits B T) M' \<and> sorted_wrt (<) (map fst M') \<and> set (map fst M') \<subseteq> set (map fst M) \<and> Suc (map_entries M') = map_entries M"
      using Cons.IH [of A1] Cons.prems v by auto
    have eq: "findOneFromAddrNonceTxnMap Y (e # M) A = Some (map_option (\<lambda>(t', rest'). (t', e # rest')) r, A')"
      using False k IH(1) by (simp add: e m)
    have step: "list_all (waits B T) (e # M') \<and> sorted_wrt (<) (map fst (e # M')) \<and> set (map fst (e # M')) \<subseteq> set (map fst (e # M))
        \<and> Suc (map_entries (e # M')) = map_entries (e # M)" if "r = Some (t', M')" for t' M'
    proof -
      have "\<forall>x \<in> set (map fst M). fst e < x" using Cons.prems(2) by simp
      then have "\<forall>x \<in> set (map fst M'). fst e < x" using IH(4) [OF that] by blast
      then show ?thesis using IH(4) [OF that] Cons.prems by (auto simp: map_entries_def)
    qed
    show ?thesis
    proof (cases r)
      case (Some p)
      obtain t' M' where p: "p = (t', M')" by (cases p)
      show ?thesis using IH(2,3) IH(4) [of t' M'] step [of t' M'] eq unfolding Some p by auto
    qed (use eq IH(2,3) in simp)
  qed
qed simp

lemma map_put_entries:
  assumes "sorted_wrt (<) (map fst M)"
  shows "map_entries (map_put (<) (a :: Address) m' M) + length (case map_of M a of None \<Rightarrow> [] | Some m \<Rightarrow> m) = map_entries M + length m'"
  using assms
proof (induction M)
  case (Cons e M)
  have "map_of M a = None" if "a < fst e" using that Cons.prems by (auto simp: map_of_eq_None_iff)
  then show ?case using Cons by (auto simp: map_entries_def)
qed (simp add: map_entries_def)

lemma length_map_put: "length (map_put lt k v m) \<le> Suc (length m)"
  by (induction m) auto

lemma buffer_txn_ok:
  assumes ok: "addr_map_ok B T M" and t: "t \<in> T"
  shows "addr_map_ok B T (buffer_txn (txn_sender B t) t M)" "map_entries (buffer_txn (txn_sender B t) t M) \<le> Suc (map_entries M)"
proof -
  let ?a = "txn_sender B t" and ?n = "Transaction_GetNonce t"
  define m where "m = (case map_of M ?a of None \<Rightarrow> [] | Some m \<Rightarrow> m)"
  let ?M = "map_put (<) ?a (map_put (<) ?n t m) M"
  have "(n, t') \<in> set m \<Longrightarrow> t' \<in> T \<and> n = Transaction_GetNonce t' \<and> ?a = txn_sender B t'" for n t'
  proof -
    assume n: "(n, t') \<in> set m"
    then have "map_of M ?a = Some m" by (cases "map_of M ?a") (simp_all add: m_def)
    then have "waits B T (?a, m)" using ok by (auto simp: addr_map_ok_def list_all_iff dest: map_of_SomeD)
    then show ?thesis using n by (auto simp: waits_def)
  qed
  then have "t' \<in> T \<and> n = Transaction_GetNonce t' \<and> ?a = txn_sender B t'" if "(n, t') \<in> set (map_put (<) ?n t m)" for n t'
    using t subsetD [OF set_map_put that] by auto
  moreover have "map_put (<) ?n t m \<noteq> []" by (cases m) simp_all
  ultimately have "waits B T (?a, map_put (<) ?n t m)" by (auto simp: waits_def)
  then have "list_all (waits B T) ?M"
    using ok set_map_put [of "(<)" ?a "map_put (<) ?n t m" M] by (auto simp: addr_map_ok_def list_all_iff)
  moreover have "sorted_wrt (<) (map fst ?M)" using ok by (intro sorted_map_put) (auto simp: addr_map_ok_def)
  ultimately have put: "addr_map_ok B T ?M" by (simp add: addr_map_ok_def)
  have "map_entries ?M + length m = map_entries M + length (map_put (<) ?n t m)"
    using map_put_entries [of M ?a] ok by (simp add: addr_map_ok_def m_def)
  then have size: "map_entries ?M \<le> Suc (map_entries M)" using length_map_put [of "(<)" ?n t m] by linarith
  have "buffer_txn ?a t M \<in> {M, ?M}" by (auto simp: buffer_txn_def Let_def m_def split: option.split)
  then show "addr_map_ok B T (buffer_txn ?a t M)" "map_entries (buffer_txn ?a t M) \<le> Suc (map_entries M)"
    using put ok size by auto
qed

text \<open>The pool gives up transactions.\<close>

lemma findSameNonceButHigherGas_result:
  assumes ok: "pool_ok p" and run: "findSameNonceButHigherGas t p = (t', q)"
  shows "nonce_key t' = nonce_key t" "t' = t \<or> in_pool p t'" "in_pool q s \<Longrightarrow> in_pool p s" "length (HashIndex q) \<le> length (HashIndex p)"
proof -
  have cases: "t' = t \<and> q = p
      \<or> map_of (NonceIndex p) (nonce_key t) = Some t' \<and> HashIndex q = AList.delete (GetTranID t') (HashIndex p)"
    using run by (auto simp: findSameNonceButHigherGas_def Let_def split: option.splits if_splits)
  then show key: "nonce_key t' = nonce_key t" using pool_okD(7) [OF ok, of "nonce_key t" t'] by auto
  then show "t' = t \<or> in_pool p t'" using cases pool_okD(5) [OF ok, of t'] by auto
  show "in_pool p s" if "in_pool q s" using cases that by (auto simp: in_pool_def split: if_splits)
  show "length (HashIndex q) \<le> length (HashIndex p)" using cases by (auto simp: AList.delete_eq)
qed

lemma findOne_size:
  assumes ok: "pool_ok p" and run: "findOne p = (Some t, q)"
  shows "length (HashIndex q) < length (HashIndex p)"
proof -
  have "in_pool p t" using findOne_ok [OF ok run] by simp
  then have "GetTranID t \<in> fst ` set (HashIndex p)" by (auto simp: in_pool_def dest!: map_of_SomeD) force
  moreover have "HashIndex q = AList.delete (GetTranID t) (HashIndex p)"
    using run by (cases rule: findOne_cases) auto
  ultimately show ?thesis by (auto simp: AList.delete_eq intro: length_filter_less)
qed

section \<open>The invariant of the loop\<close>

text \<open>The transactions of the pool that processing starts with, and what is asked of them and of the ledger.\<close>

definition processing_ok :: "('t, 'd, 'pt) mb_env \<Rightarrow> 'pt Transaction set \<Rightarrow> ledger \<Rightarrow> bool" where
  "processing_ok E T v \<longleftrightarrow>
     \<not> mb_LOOKUP_NODE_MODE E \<and> ledger_env_ok (as_ledger (mb_store E)) \<and> supply_fits v
     \<and> (\<forall>a. nonce_of v a + card T + MAX_CONTRACT_DEPTH (as_ledger (mb_store E)) + 1 < 2 ^ 64)
     \<and> finite T \<and> inj_on GetTranID T \<and> (\<forall>t \<in> T. unat (GetGasLimit t) < 2 ^ 63)"

definition proc_inv :: "('t, 'd, 'pt) mb_env \<Rightarrow> 'pt Transaction set \<Rightarrow> ('t, 'd) AccountStore \<Rightarrow> ('t, 'd, 'pt) Proc
    \<Rightarrow> ('pt Transaction \<times> event TransactionReceipt) list \<Rightarrow> bool" where
  "proc_inv E T A s hist \<longleftrightarrow>
     pool_ok (p_created s) \<and> (\<forall>t. in_pool (p_created s) t \<longrightarrow> t \<in> T)
     \<and> addr_map_ok (mb_ossl E) T (p_addrNonce s) \<and> set (p_exceeded s) \<subseteq> T
     \<and> executes (mb_ossl E) (temp_accounts (mb_store E) A) hist (temp_accounts (mb_store E) (p_accounts s)) \<and> fst ` set hist \<subseteq> T
     \<and> perm_accounts (mb_store E) (p_accounts s) = perm_accounts (mb_store E) A
     \<and> p_order s = map (\<lambda>d. GetTranID (fst d)) hist \<and> p_processed s = map (\<lambda>d. (GetTranID (fst d), d)) hist
     \<and> unat (p_gasUsedTotal s) = sum_list (map gas_of hist) \<and> unat (p_txnFees s) = sum_list (map fee_of hist)
     \<and> (hist \<noteq> [] \<longrightarrow> sum_list (map gas_of (butlast hist)) < unat (MICROBLOCK_GAS_LIMIT E))"

definition deployments_ok :: "('t, 'd, 'pt) mb_env \<Rightarrow> 'pt Transaction set \<Rightarrow> ('t, 'd, 'pt) Proc \<Rightarrow> bool" where
  "deployments_ok E T s \<longleftrightarrow> (\<forall>t \<in> T. GetTransactionType (m_coreInfo t) = CONTRACT_CREATION
     \<longrightarrow> fresh_address (as_sc (mb_store E)) (m_coreInfo t) (temp_accounts (mb_store E) (p_accounts s)))"

lemma proc_inv_frame:
  assumes "proc_inv E T A s hist" "temp_accounts (mb_store E) B = temp_accounts (mb_store E) (p_accounts s)"
    "perm_accounts (mb_store E) B = perm_accounts (mb_store E) (p_accounts s)"
  shows "proc_inv E T A (s\<lparr>p_accounts := B\<rparr>) hist" "deployments_ok E T (s\<lparr>p_accounts := B\<rparr>) = deployments_ok E T s"
  using assms by (simp_all add: proc_inv_def deployments_ok_def)

lemma proc_inv_room:
  assumes "processing_ok E T (temp_accounts (mb_store E) A)" "proc_inv E T A s hist"
  shows "supply_fits (temp_accounts (mb_store E) (p_accounts s))" "nonces_fit (as_ledger (mb_store E)) (temp_accounts (mb_store E) (p_accounts s))"
proof -
  let ?v = "temp_accounts (mb_store E) (p_accounts s)" and ?start = "temp_accounts (mb_store E) A"
  have ex: "executes (mb_ossl E) ?start hist ?v" and T: "fst ` set hist \<subseteq> T" "finite T"
    using assms by (simp_all add: proc_inv_def processing_ok_def)
  show "supply_fits ?v" using executes_money [OF ex] assms(1) by (simp add: supply_fits_def processing_ok_def)
  have "length hist = card (fst ` set hist)" using distinct_card [OF executes_distinct [OF ex]] by simp
  then have "length hist \<le> card T" using card_mono [OF T(2,1)] by simp
  then have le: "nonce_of ?v a \<le> nonce_of ?start a + card T" for a
    using executes_nonce [OF ex, of a] length_filter_le [of "\<lambda>d. txn_sender (mb_ossl E) (fst d) = a" hist]
    unfolding of_sender_def by linarith
  have "nonce_of ?v a + MAX_CONTRACT_DEPTH (as_ledger (mb_store E)) + 1 < 2 ^ 64" for a
  proof -
    have "nonce_of ?start a + card T + MAX_CONTRACT_DEPTH (as_ledger (mb_store E)) + 1 < 2 ^ 64"
      using assms(1) unfolding processing_ok_def by blast
    then show ?thesis using le [of a] by linarith
  qed
  then show "nonces_fit (as_ledger (mb_store E)) ?v" by (simp add: nonces_fit_def)
qed

lemma count_txn_result:
  assumes ok: "processing_ok E T (temp_accounts (mb_store E) A)" and inv: "proc_inv E T A s hist" and t: "t \<in> T"
    and gas: "p_gasUsedTotal s < ucast (MICROBLOCK_GAS_LIMIT E)"
    and nonce: "unat (Transaction_GetNonce t) = nonce_of (temp_accounts (mb_store E) (p_accounts s)) (txn_sender (mb_ossl E) t) + 1"
    and eff: "tx_effect (txn_sender (mb_ossl E) t) (m_coreInfo t) True tr (temp_accounts (mb_store E) (p_accounts s)) (temp_accounts (mb_store E) B)"
      "perm_accounts (mb_store E) B = perm_accounts (mb_store E) (p_accounts s)"
  shows "\<exists>s'. count_txn (as_ledger (mb_store E)) t tr (s\<lparr>p_accounts := B\<rparr>) = GoOn s' \<and> proc_inv E T A s' (hist @ [(t, tr)])
    \<and> p_created s' = p_created s \<and> p_addrNonce s' = p_addrNonce s"
proof -
  let ?L = "as_ledger (mb_store E)" and ?start = "temp_accounts (mb_store E) A" and ?v = "temp_accounts (mb_store E) (p_accounts s)"
  have ex: "executes (mb_ossl E) ?start hist ?v" using inv by (simp add: proc_inv_def)
  have ex': "executes (mb_ossl E) ?start (hist @ [(t, tr)]) (temp_accounts (mb_store E) B)" by (rule executes_one [OF ex nonce eff(1)])
  have L: "usafe_ok (SafeMath64 ?L)" "usafe_ok (SafeMath128 ?L)" using ok by (simp_all add: processing_ok_def ledger_env_ok_def)
  have g: "unat (p_gasUsedTotal s) < unat (MICROBLOCK_GAS_LIMIT E)"
    using gas by (simp add: word_less_nat_alt unat_ucast_up)
  have "unat (r_cumGas tr) < 2 ^ 63"
    using executes_gas [OF ex', of "(t, tr)"] ok t unfolding processing_ok_def word_le_nat_alt by (auto intro: le_less_trans)
  then have sum: "unat (p_gasUsedTotal s) + unat (r_cumGas tr) < 2 ^ 64" using g unat_bound [of "MICROBLOCK_GAS_LIMIT E"] by simp
  have tot: "sum_list (map fee_of (hist @ [(t, tr)])) < 2 ^ 128"
    using executes_money [OF ex'] ok by (simp add: processing_ok_def supply_fits_def)
  have fees: "unat (p_txnFees s) = sum_list (map fee_of hist)" using inv by (simp add: proc_inv_def)
  define fee :: "128 word" where "fee = ucast (r_cumGas tr) * GetGasPrice t"
  have "unat (ucast (r_cumGas tr) :: 128 word) * unat (GetGasPrice t) = fee_of (t, tr)"
    by (simp add: fee_of_def gas_cost_def GetGasPrice_def unat_ucast_up)
  then have mul: "USafe_mul (SafeMath128 ?L) (ucast (r_cumGas tr)) (GetGasPrice t) 0 = (True, fee)" "unat fee = fee_of (t, tr)"
    using tot usafe_mul [OF L(2), of "ucast (r_cumGas tr)" "GetGasPrice t" 0] by (simp_all add: fee_def unat_word_ariths)
  have new: "map_of (p_processed s) (GetTranID t) = None"
  proof -
    have "t \<notin> fst ` set hist" using executes_distinct [OF ex'] by simp
    then have "GetTranID t \<notin> GetTranID ` fst ` set hist"
      using ok inv t by (auto simp: processing_ok_def proc_inv_def dest!: inj_onD)
    then show ?thesis using inv by (auto simp: proc_inv_def map_of_eq_None_iff image_image)
  qed
  have "USafe_add (SafeMath64 ?L) (p_gasUsedTotal s) (r_cumGas tr) (p_gasUsedTotal s) = (True, p_gasUsedTotal s + r_cumGas tr)"
    using usafe_add [OF L(1), of "p_gasUsedTotal s" "r_cumGas tr"] sum by simp
  moreover have "USafe_add (SafeMath128 ?L) (p_txnFees s) fee (p_txnFees s) = (True, p_txnFees s + fee)"
    using usafe_add [OF L(2), of "p_txnFees s" fee] tot fees mul(2) by simp
  ultimately have "count_txn ?L t tr (s\<lparr>p_accounts := B\<rparr>) = GoOn (appendOne t tr (s\<lparr>p_accounts := B, p_gasUsedTotal := p_gasUsedTotal s + r_cumGas tr,
      p_txnFees := p_txnFees s + fee\<rparr>))" using mul(1) by (simp add: count_txn_def)
  moreover have "unat (p_gasUsedTotal s + r_cumGas tr) = sum_list (map gas_of (hist @ [(t, tr)]))"
    "unat (p_txnFees s + fee) = sum_list (map fee_of (hist @ [(t, tr)]))"
    using sum tot fees mul(2) inv by (simp_all add: unat_word_ariths proc_inv_def gas_of_def)
  ultimately show ?thesis using inv ex' eff(2) new g t
    by (auto simp: proc_inv_def appendOne_def)
qed

section \<open>A pass\<close>

definition proc_size :: "('t, 'd, 'pt) Proc \<Rightarrow> nat" where
  "proc_size s = 2 * length (HashIndex (p_created s)) + map_entries (p_addrNonce s)"

lemma execute_txn_inv:
  assumes ok: "processing_ok E T (temp_accounts (mb_store E) A)" and inv: "proc_inv E T A s hist" and t: "t \<in> T"
    and gas: "p_gasUsedTotal s < ucast (MICROBLOCK_GAS_LIMIT E)" and depl: "deployments_ok E T s"
    and nonce: "unat (Transaction_GetNonce t) = nonce_of (temp_accounts (mb_store E) (p_accounts s)) (txn_sender (mb_ossl E) t) + 1"
    and run: "execute_txn E W t s = Some r"
  obtains s' hist' where "r = GoOn s'" "proc_inv E T A s' hist'" "p_created s' = p_created s" "p_addrNonce s' = p_addrNonce s"
proof -
  obtain accepted tr B where c: "CheckCreatedTransaction E W t TransactionReceipt_new (p_accounts s) = Some (accepted, tr, B)"
    using run by (auto simp: execute_txn_def split: bind_splits)
  have "GetTransactionType (m_coreInfo t) = CONTRACT_CREATION
      \<longrightarrow> fresh_address (as_sc (mb_store E)) (m_coreInfo t) (temp_accounts (mb_store E) (p_accounts s))"
    using depl t by (simp add: deployments_ok_def)
  note eff = CheckCreatedTransaction_effect [OF _ _ proc_inv_room [OF ok inv] this c]
  have basic: "\<not> mb_LOOKUP_NODE_MODE E" "ledger_env_ok (as_ledger (mb_store E))" using ok by (simp_all add: processing_ok_def)
  show thesis
  proof (cases accepted)
    case True
    obtain s' where s': "count_txn (as_ledger (mb_store E)) t tr (s\<lparr>p_accounts := B\<rparr>) = GoOn s'" "proc_inv E T A s' (hist @ [(t, tr)])"
      "p_created s' = p_created s" "p_addrNonce s' = p_addrNonce s"
      using count_txn_result [OF ok inv t gas nonce, of tr B] eff [OF basic] True by auto
    have "r = GoOn s'" using run c True s'(1) by (simp add: execute_txn_def)
    then show thesis using that s' by blast
  next
    case False
    then have "proc_inv E T A (s\<lparr>p_accounts := B\<rparr>) hist"
      using eff [OF basic] by (intro proc_inv_frame(1) [OF inv]) (simp_all add: tx_effect_def)
    then show thesis using that [of "s\<lparr>p_accounts := B\<rparr>" hist] run c False by (simp add: execute_txn_def)
  qed
qed

text \<open>A transaction that the pool has for the same nonce takes its place.\<close>

lemma process_waiting_inv:
  assumes ok: "processing_ok E T (temp_accounts (mb_store E) A)" and inv: "proc_inv E T A s hist" and t: "t \<in> T"
    and gas: "p_gasUsedTotal s < ucast (MICROBLOCK_GAS_LIMIT E)" and depl: "deployments_ok E T s"
    and nonce: "unat (Transaction_GetNonce t) = nonce_of (temp_accounts (mb_store E) (p_accounts s)) (txn_sender (mb_ossl E) t) + 1"
    and run: "process_waiting E W t s = Some r"
  obtains s' hist' where "r = GoOn s'" "proc_inv E T A s' hist'" "proc_size s' \<le> proc_size s"
proof -
  obtain t' pool where f: "findSameNonceButHigherGas t (p_created s) = (t', pool)" by fastforce
  have p: "pool_ok (p_created s)" and T: "\<And>u. in_pool (p_created s) u \<Longrightarrow> u \<in> T" using inv by (simp_all add: proc_inv_def)
  note res = findSameNonceButHigherGas_result [OF p f]
  let ?s = "s\<lparr>p_created := pool\<rparr>"
  have t': "t' \<in> T" "Transaction_GetNonce t' = Transaction_GetNonce t" "txn_sender (mb_ossl E) t' = txn_sender (mb_ossl E) t"
    using res(1,2) t T by (auto simp: nonce_key_def GetSenderPubKey_def GetSenderAddr_def)
  have inv': "proc_inv E T A ?s hist"
    using inv findSameNonceButHigherGas_ok [OF p f] res(3) by (simp add: proc_inv_def)
  have size: "proc_size ?s \<le> proc_size s" using res(4) by (simp add: proc_size_def)
  show thesis
  proof (cases "p_gasUsedTotal ?s + GetGasLimit t' > ucast (MICROBLOCK_GAS_LIMIT E)")
    case True
    have "proc_inv E T A (?s\<lparr>p_exceeded := p_exceeded s @ [t']\<rparr>) hist" using inv' t'(1) by (simp add: proc_inv_def)
    then show thesis using that [of "?s\<lparr>p_exceeded := p_exceeded s @ [t']\<rparr>" hist] run f True size
      by (simp add: process_waiting_def Let_def proc_size_def)
  next
    case False
    then have "execute_txn E W t' ?s = Some r" using run f by (simp add: process_waiting_def Let_def)
    moreover have "deployments_ok E T ?s" using depl by (simp add: deployments_ok_def)
    ultimately obtain s' hist' where s': "r = GoOn s'" "proc_inv E T A s' hist'" "p_created s' = pool" "p_addrNonce s' = p_addrNonce s"
      using execute_txn_inv [OF ok inv' t'(1), of W r] gas nonce t' by auto
    then show thesis using that [OF s'(1,2)] size by (simp add: proc_size_def)
  qed
qed

lemma process_new_inv:
  assumes ok: "processing_ok E T (temp_accounts (mb_store E) A)" and inv: "proc_inv E T A s hist" and t: "t \<in> T"
    and gas: "p_gasUsedTotal s < ucast (MICROBLOCK_GAS_LIMIT E)" and depl: "deployments_ok E T s"
    and run: "process_new E W t s = Some r"
  obtains s' hist' where "r = GoOn s'" "proc_inv E T A s' hist'" "proc_size s' \<le> Suc (proc_size s)"
proof -
  let ?Y = "mb_store E" and ?a = "txn_sender (mb_ossl E) t"
  obtain k A1 where k: "GetNonceTemp ?Y ?a (p_accounts s) = (k, A1)" by fastforce
  obtain k' A2 where k': "GetNonceTemp ?Y ?a A1 = (k', A2)" by fastforce
  note v1 = GetNonceTemp_view [OF k] and v2 = GetNonceTemp_view [OF k']
  have same: "k' = k" using v1 v2 by (metis word_unat_eq_iff)
  note inv1 = proc_inv_frame(1) [OF inv v1(2,3)]
  have inv2: "proc_inv E T A (s\<lparr>p_accounts := A2\<rparr>) hist" "deployments_ok E T (s\<lparr>p_accounts := A2\<rparr>)"
    using proc_inv_frame [OF inv, of A2] v1 v2 depl by simp_all
  consider "ucast (Transaction_GetNonce t) > k + 1" | "\<not> ucast (Transaction_GetNonce t) > k + 1" "ucast (Transaction_GetNonce t) < k + 1"
    | "ucast (Transaction_GetNonce t) = k + 1" by fastforce
  then show thesis
  proof cases
    case 1
    let ?M = "buffer_txn ?a t (p_addrNonce s)"
    have M: "addr_map_ok (mb_ossl E) T ?M" "map_entries ?M \<le> Suc (map_entries (p_addrNonce s))"
      using buffer_txn_ok [OF _ t, of "mb_ossl E" "p_addrNonce s"] inv by (simp_all add: proc_inv_def)
    have "proc_inv E T A (s\<lparr>p_accounts := A1, p_addrNonce := ?M\<rparr>) hist" using inv1 M(1) by (simp add: proc_inv_def)
    moreover have "r = GoOn (s\<lparr>p_accounts := A1, p_addrNonce := ?M\<rparr>)" using run k 1 by (simp add: process_new_def Let_def)
    ultimately show thesis using that M(2) by (simp add: proc_size_def)
  next
    case 2
    then have "r = GoOn (s\<lparr>p_accounts := A2\<rparr>)" using run k k' same by (simp add: process_new_def Let_def)
    then show thesis using that inv2(1) by (simp add: proc_size_def)
  next
    case 3
    have "unat (Transaction_GetNonce t) = nonce_of (temp_accounts ?Y (p_accounts (s\<lparr>p_accounts := A2\<rparr>))) ?a + 1"
      using ucast_next [OF 3] v1 v2 nonce_of_bound [of "temp_accounts ?Y (p_accounts s)" ?a] by simp
    moreover have "execute_txn E W t (s\<lparr>p_accounts := A2\<rparr>) = Some r" using run k k' same 3 by (simp add: process_new_def Let_def)
    ultimately obtain s' hist' where s': "r = GoOn s'" "proc_inv E T A s' hist'" "p_created s' = p_created s" "p_addrNonce s' = p_addrNonce s"
      using execute_txn_inv [OF ok inv2(1) t _ inv2(2), of W r] gas by auto
    then show thesis using that [OF s'(1,2)] by (simp add: proc_size_def)
  qed
qed

lemma process_pass_inv:
  assumes ok: "processing_ok E T (temp_accounts (mb_store E) A)" and inv: "proc_inv E T A s hist"
    and gas: "p_gasUsedTotal s < ucast (MICROBLOCK_GAS_LIMIT E)" and depl: "deployments_ok E T s"
    and run: "process_pass E W s = Some r"
  shows "(\<exists>s' hist'. r = GoOn s' \<and> proc_inv E T A s' hist' \<and> proc_size s' < proc_size s)
    \<or> (\<exists>s'. r = Stop s' \<and> proc_inv E T A s' hist)"
proof -
  let ?Y = "mb_store E"
  have map: "list_all (waits (mb_ossl E) T) (p_addrNonce s)" "sorted_wrt (<) (map fst (p_addrNonce s))"
    using inv by (simp_all add: proc_inv_def addr_map_ok_def)
  obtain found A1 where find: "findOneFromAddrNonceTxnMap ?Y (p_addrNonce s) (p_accounts s) = Some (found, A1)"
    "temp_accounts ?Y A1 = temp_accounts ?Y (p_accounts s)" "perm_accounts ?Y A1 = perm_accounts ?Y (p_accounts s)"
    "\<And>t M. found = Some (t, M) \<Longrightarrow> t \<in> T \<and> unat (Transaction_GetNonce t) = nonce_of (temp_accounts ?Y (p_accounts s)) (txn_sender (mb_ossl E) t) + 1
       \<and> list_all (waits (mb_ossl E) T) M \<and> sorted_wrt (<) (map fst M) \<and> Suc (map_entries M) = map_entries (p_addrNonce s)"
    using findOneFromAddrNonceTxnMap_result [OF map, of ?Y "p_accounts s"] by metis
  let ?s = "s\<lparr>p_accounts := A1\<rparr>"
  have inv1: "proc_inv E T A ?s hist" and depl1: "deployments_ok E T ?s" using proc_inv_frame [OF inv find(2,3)] depl by simp_all
  show ?thesis
  proof (cases found)
    case (Some p)
    obtain t M where p: "p = (t, M)" by (cases p)
    note w = find(4) [unfolded Some p, OF refl]
    let ?s2 = "?s\<lparr>p_addrNonce := M\<rparr>"
    have "proc_inv E T A ?s2 hist" using inv1 w by (simp add: proc_inv_def addr_map_ok_def)
    moreover have "process_waiting E W t ?s2 = Some r" using run find(1) by (simp add: process_pass_def Some p)
    moreover have "deployments_ok E T ?s2" using depl1 by (simp add: deployments_ok_def)
    ultimately obtain s' hist' where s': "r = GoOn s'" "proc_inv E T A s' hist'" "proc_size s' \<le> proc_size ?s2"
      using process_waiting_inv [OF ok, of ?s2 hist t W r] w gas find(2) by auto
    then show ?thesis using w by (auto simp: proc_size_def)
  next
    case None
    have pool: "pool_ok (p_created s)" using inv by (simp add: proc_inv_def)
    obtain taken pool where f: "findOne (p_created s) = (taken, pool)" by fastforce
    show ?thesis
    proof (cases taken)
      case None
      then have "proc_inv E T A (?s\<lparr>p_created := pool\<rparr>) hist" using inv1 findOne_ok [OF \<open>pool_ok (p_created s)\<close> f] by (simp add: proc_inv_def)
      then show ?thesis using run find(1) \<open>found = None\<close> f None by (auto simp: process_pass_def)
    next
      case (Some t)
      have q: "pool_ok pool" "\<And>u. in_pool pool u \<Longrightarrow> in_pool (p_created s) u" "in_pool (p_created s) t"
        using findOne_ok [OF \<open>pool_ok (p_created s)\<close> f] Some by auto
      let ?s2 = "?s\<lparr>p_created := pool\<rparr>"
      have "proc_inv E T A ?s2 hist" using inv1 q by (simp add: proc_inv_def)
      moreover have "t \<in> T" using inv q(3) by (simp add: proc_inv_def)
      moreover have "deployments_ok E T ?s2" using depl1 by (simp add: deployments_ok_def)
      moreover have "process_new E W t ?s2 = Some r" using run find(1) \<open>found = None\<close> f Some by (simp add: process_pass_def)
      ultimately obtain s' hist' where s': "r = GoOn s'" "proc_inv E T A s' hist'" "proc_size s' \<le> Suc (proc_size ?s2)"
        using process_new_inv [OF ok, of ?s2 hist t W r] gas by auto
      moreover have "proc_size ?s2 + 2 \<le> proc_size s"
        using findOne_size [OF \<open>pool_ok (p_created s)\<close>] f Some by (fastforce simp: proc_size_def)
      ultimately show ?thesis by auto
    qed
  qed
qed

section \<open>The loop\<close>

text \<open>At every pass the addresses that pending deployments would take are free.\<close>

fun deployments_fresh :: "('t, 'd, 'pt) mb_env \<Rightarrow> 'pt Transaction set \<Rightarrow> (bool \<times> 'd scilla_world) list \<Rightarrow> ('t, 'd, 'pt) Proc \<Rightarrow> bool" where
  "deployments_fresh E T [] s = True"
| "deployments_fresh E T ((timeout, W) # passes) s =
     (deployments_ok E T s \<and> (case process_pass E W s of Some (GoOn s') \<Rightarrow> deployments_fresh E T passes s' | _ \<Rightarrow> True))"

lemma no_deployments:
  assumes "\<forall>t \<in> T. GetTransactionType (m_coreInfo t) \<noteq> CONTRACT_CREATION"
  shows "deployments_ok E T s" "deployments_fresh E T passes s"
proof -
  show ok: "deployments_ok E T s" for s using assms by (simp add: deployments_ok_def)
  show "deployments_fresh E T passes s"
    by (induction passes arbitrary: s) (auto simp: ok split: option.split pass.split)
qed

lemma process_loop_inv:
  assumes ok: "processing_ok E T (temp_accounts (mb_store E) A)" and "proc_inv E T A s hist" "deployments_fresh E T passes s"
    and "process_loop E passes s = Some (ended, s')"
  obtains hist' where "proc_inv E T A s' hist'"
proof -
  have "\<exists>hist'. proc_inv E T A s' hist'"
    using assms(2-4)
  proof (induction passes arbitrary: s hist)
    case (Cons x passes)
    obtain timeout W where x: "x = (timeout, W)" by (cases x)
    show ?case
    proof (cases "p_gasUsedTotal s < ucast (MICROBLOCK_GAS_LIMIT E) \<and> \<not> timeout")
      case True
      then obtain r where r: "process_pass E W s = Some r" using Cons.prems(3) by (auto simp: x split: bind_splits)
      have "deployments_ok E T s" using Cons.prems(2) by (simp add: x)
      from process_pass_inv [OF ok Cons.prems(1) conjunct1 [OF True] this r]
      show ?thesis using Cons.IH Cons.prems r True by (auto simp: x)
    qed (use Cons.prems in \<open>auto simp: x\<close>)
  qed auto
  then show thesis using that by blast
qed

lemma process_loop_ends:
  assumes ok: "processing_ok E T (temp_accounts (mb_store E) A)" and "proc_inv E T A s hist" "deployments_fresh E T passes s"
    and "proc_size s < length passes" "process_loop E passes s = Some (ended, s')"
  shows "ended"
  using assms(2-5)
proof (induction passes arbitrary: s hist)
  case (Cons x passes)
  obtain timeout W where x: "x = (timeout, W)" by (cases x)
  show ?case
  proof (cases "p_gasUsedTotal s < ucast (MICROBLOCK_GAS_LIMIT E) \<and> \<not> timeout")
    case True
    then obtain r where r: "process_pass E W s = Some r" using Cons.prems(4) by (auto simp: x split: bind_splits)
    have "deployments_ok E T s" using Cons.prems(2) by (simp add: x)
    from process_pass_inv [OF ok Cons.prems(1) conjunct1 [OF True] this r]
    show ?thesis
    proof
      assume "\<exists>s' hist'. r = GoOn s' \<and> proc_inv E T A s' hist' \<and> proc_size s' < proc_size s"
      then obtain s1 hist1 where s1: "r = GoOn s1" "proc_inv E T A s1 hist1" "proc_size s1 < proc_size s" by blast
      show ?thesis using Cons.IH [OF s1(2)] Cons.prems(2-4) s1(1,3) r True by (simp add: x)
    qed (use Cons.prems(4) r True in \<open>auto simp: x\<close>)
  qed (use Cons.prems in \<open>auto simp: x\<close>)
qed simp

text \<open>Payments never throw.\<close>

lemma payment_returns:
  assumes "ledger_env_ok (as_ledger Y)" "supply_fits (temp_accounts Y A)" "nonces_fit (as_ledger Y) (temp_accounts Y A)"
    and "GetTransactionType tx \<in> {NON_CONTRACT, ContractType.ERROR}"
  shows "UpdateAccountsTemp Y W blk sh isDS tx r A \<noteq> None"
proof -
  let ?S = "(m_accountStoreTemp A)\<lparr>m_curIsDS := isDS\<rparr>" and ?T = "this_vt (temp_vt Y)" and ?a = "GetSenderAddr (sc_ossl (as_sc Y)) tx"
  obtain found S1 where S1: "vt_GetAccount ?T (tx_toAddr tx) ?S = (found, S1)" by fastforce
  have v: "temp_ledger Y (sc_store S1) = temp_accounts Y A"
    using temp_store.this.get_view [OF S1] unfolding temp_store.tv_def by (simp add: temp_accounts_def)
  have "nonce_of (temp_accounts Y A) ?a + MAX_CONTRACT_DEPTH (as_ledger Y) + 1 < 2 ^ 64" using assms(3) unfolding nonces_fit_def by blast
  then have n: "nonce_of (temp_ledger Y (sc_store S1)) ?a + 1 < 2 ^ 64" unfolding v by linarith
  have "UpdateAccounts_base ?T (as_ledger Y) (sc_ossl (as_sc Y)) tx r S1 \<noteq> None"
  proof (cases "payment_ok (as_ledger Y) ?a tx (temp_ledger Y (sc_store S1))")
    case True
    show ?thesis
      by (rule temp_store.this.payment_accepted [of "as_ledger Y" Y S1 "sc_ossl (as_sc Y)" tx r])
        (use assms(1,2) True n v in \<open>simp_all add: temp_store.tv_def\<close>)
  next
    case False
    show ?thesis
      by (rule temp_store.this.payment_rejected [of "as_ledger Y" Y S1 "sc_ossl (as_sc Y)" tx r])
        (use assms(1,2) False v in \<open>simp_all add: temp_store.tv_def\<close>)
  qed
  then show ?thesis using assms(4) S1
    by (auto simp: UpdateAccountsTemp_def UpdateAccounts_def Let_def split: option.splits prod.splits bool.splits)
qed

definition payments_only :: "'pt Transaction set \<Rightarrow> bool" where
  "payments_only T \<longleftrightarrow> (\<forall>t \<in> T. GetTransactionType (m_coreInfo t) \<in> {NON_CONTRACT, ContractType.ERROR})"

lemma execute_txn_returns:
  assumes ok: "processing_ok E T (temp_accounts (mb_store E) A)" and inv: "proc_inv E T A s hist" and t: "t \<in> T" "payments_only T"
  shows "execute_txn E W t s \<noteq> None"
proof -
  let ?Y = "mb_store E" and ?a = "GetAddressFromPublicKey (mb_ossl E) (GetSenderPubKey t)"
  obtain found A1 where 1: "on_primary (IsAccountExist (trie_vt ?Y) ?a) (p_accounts s) = (found, A1)" by fastforce
  obtain balance A2 where 2: "on_primary (GetBalance (trie_vt ?Y) ?a) A1 = (balance, A2)" by fastforce
  have "temp_accounts ?Y A2 = temp_accounts ?Y A1" by (rule on_primary_views(1) [OF _ 2], erule primary_balance)
  also have "\<dots> = temp_accounts ?Y (p_accounts s)" by (rule on_primary_views(1) [OF _ 1], erule primary_reads)
  finally have v: "temp_accounts ?Y A2 = temp_accounts ?Y (p_accounts s)" .
  have "UpdateAccountsTemp ?Y W (unat (m_currentEpochNum E)) (unat (m_numShards E)) (ds_mode E \<noteq> IDLE) (m_coreInfo t)
      (SetEpochNum (m_currentEpochNum E) TransactionReceipt_new) A2 \<noteq> None"
    by (rule payment_returns) (use ok t proc_inv_room [OF ok inv] in \<open>simp_all add: v processing_ok_def payments_only_def\<close>)
  then have "CheckCreatedTransaction E W t TransactionReceipt_new (p_accounts s) \<noteq> None"
    using ok 1 2 by (simp add: CheckCreatedTransaction_def Let_def processing_ok_def)
  then show ?thesis by (auto simp: execute_txn_def Let_def)
qed

lemma process_pass_returns:
  assumes ok: "processing_ok E T (temp_accounts (mb_store E) A)" and inv: "proc_inv E T A s hist" and T: "payments_only T"
  shows "process_pass E W s \<noteq> None"
proof -
  let ?Y = "mb_store E"
  have map: "list_all (waits (mb_ossl E) T) (p_addrNonce s)" "sorted_wrt (<) (map fst (p_addrNonce s))"
    and pool: "pool_ok (p_created s)" "\<And>t. in_pool (p_created s) t \<Longrightarrow> t \<in> T"
    using inv by (simp_all add: proc_inv_def addr_map_ok_def)
  have frame: "proc_inv E T A (s\<lparr>p_accounts := B, p_addrNonce := M, p_created := q\<rparr>) hist"
    if "temp_accounts ?Y B = temp_accounts ?Y (p_accounts s)" "perm_accounts ?Y B = perm_accounts ?Y (p_accounts s)" "pool_ok q"
      "\<And>u. in_pool q u \<Longrightarrow> in_pool (p_created s) u" "addr_map_ok (mb_ossl E) T M" for B q M
    using inv that by (simp add: proc_inv_def)
  obtain found A1 where find: "findOneFromAddrNonceTxnMap ?Y (p_addrNonce s) (p_accounts s) = Some (found, A1)"
    "temp_accounts ?Y A1 = temp_accounts ?Y (p_accounts s)" "perm_accounts ?Y A1 = perm_accounts ?Y (p_accounts s)"
    "\<And>t M. found = Some (t, M) \<Longrightarrow> t \<in> T \<and> list_all (waits (mb_ossl E) T) M \<and> sorted_wrt (<) (map fst M)"
    using findOneFromAddrNonceTxnMap_result [OF map, of ?Y "p_accounts s"] by metis
  show ?thesis
  proof (cases found)
    case (Some p)
    obtain t M where p: "p = (t, M)" by (cases p)
    obtain t' q where f: "findSameNonceButHigherGas t (p_created s) = (t', q)" by fastforce
    note res = findSameNonceButHigherGas_result [OF pool(1) f] and w = find(4) [unfolded Some p, OF refl]
    have "t' \<in> T" using res(2) w pool(2) by auto
    then have "execute_txn E W t' (s\<lparr>p_accounts := A1, p_addrNonce := M, p_created := q\<rparr>) \<noteq> None"
      using execute_txn_returns [OF ok frame] find(2,3) findSameNonceButHigherGas_ok [OF pool(1) f] res(3) w T by (simp add: addr_map_ok_def)
    then show ?thesis using find(1) f by (simp add: process_pass_def Some p process_waiting_def Let_def)
  next
    case None
    obtain taken q where f: "findOne (p_created s) = (taken, q)" by fastforce
    show ?thesis
    proof (cases taken)
      case (Some t)
      have q: "pool_ok q" "\<And>u. in_pool q u \<Longrightarrow> in_pool (p_created s) u" "t \<in> T"
        using findOne_ok [OF pool(1) f] Some pool(2) by auto
      let ?a = "txn_sender (mb_ossl E) t"
      obtain k B1 where k: "GetNonceTemp ?Y ?a A1 = (k, B1)" by fastforce
      obtain k' B2 where k': "GetNonceTemp ?Y ?a B1 = (k', B2)" by fastforce
      have "proc_inv E T A (s\<lparr>p_accounts := B2, p_addrNonce := p_addrNonce s, p_created := q\<rparr>) hist"
        by (rule frame) (use find(2,3) q(1,2) GetNonceTemp_view [OF k] GetNonceTemp_view [OF k'] map in \<open>simp_all add: addr_map_ok_def\<close>)
      moreover have "s\<lparr>p_accounts := B2, p_addrNonce := p_addrNonce s, p_created := q\<rparr> = s\<lparr>p_created := q, p_accounts := B2\<rparr>" by simp
      ultimately have "execute_txn E W t (s\<lparr>p_created := q, p_accounts := B2\<rparr>) \<noteq> None"
        using execute_txn_returns [OF ok _ q(3) T, of "s\<lparr>p_created := q, p_accounts := B2\<rparr>" hist W] by metis
      then show ?thesis using find(1) f k k' \<open>found = None\<close> Some by (simp add: process_pass_def process_new_def Let_def)
    qed (use find(1) f \<open>found = None\<close> in \<open>simp add: process_pass_def\<close>)
  qed
qed

lemma process_loop_returns:
  assumes ok: "processing_ok E T (temp_accounts (mb_store E) A)" and "proc_inv E T A s hist" and T: "payments_only T"
  shows "process_loop E passes s \<noteq> None"
  using assms(2)
proof (induction passes arbitrary: s hist)
  case (Cons x passes)
  obtain timeout W where x: "x = (timeout, W)" by (cases x)
  have depl: "deployments_ok E T s" by (rule no_deployments) (use T in \<open>auto simp: payments_only_def\<close>)
  show ?case
  proof (cases "p_gasUsedTotal s < ucast (MICROBLOCK_GAS_LIMIT E) \<and> \<not> timeout")
    case True
    obtain r where r: "process_pass E W s = Some r" using process_pass_returns [OF ok Cons.prems T, of W] by blast
    from process_pass_inv [OF ok Cons.prems conjunct1 [OF True] depl r]
    show ?thesis using Cons.IH True r by (auto simp: x)
  qed (auto simp: x)
qed simp

section \<open>Properties\<close>

definition pool_txns :: "('t, 'd, 'pt) Node \<Rightarrow> 'pt Transaction set" where
  "pool_txns N = {t. in_pool (m_createdTxns N) t}"

lemma pool_txns_facts:
  assumes "pool_ok (m_createdTxns N)"
  shows "finite (pool_txns N)" "inj_on GetTranID (pool_txns N)" "card (pool_txns N) \<le> length (HashIndex (m_createdTxns N))"
proof -
  have sub: "pool_txns N \<subseteq> set (map snd (HashIndex (m_createdTxns N)))"
  proof
    fix t assume "t \<in> pool_txns N"
    then have "(GetTranID t, t) \<in> set (HashIndex (m_createdTxns N))" by (simp add: pool_txns_def in_pool_def map_of_SomeD)
    then show "t \<in> set (map snd (HashIndex (m_createdTxns N)))" by force
  qed
  show "finite (pool_txns N)" by (rule finite_subset [OF sub]) simp
  show "card (pool_txns N) \<le> length (HashIndex (m_createdTxns N))"
    using card_mono [OF _ sub] card_length [of "map snd (HashIndex (m_createdTxns N))"] by simp
  show "inj_on GetTranID (pool_txns N)" 
  proof (rule inj_onI)
    fix t u assume "t \<in> pool_txns N" "u \<in> pool_txns N" "GetTranID t = GetTranID u"
    then have "Some t = Some u" unfolding pool_txns_def in_pool_def mem_Collect_eq by metis
    then show "t = u" by simp
  qed
qed

lemma start_inv:
  assumes "pool_ok (m_createdTxns N)" "\<not> ENABLE_ACCOUNTS_POPULATING E"
  shows "proc_inv E (pool_txns N) (node_accounts N) (start_processing E N) []"
    "proc_size (start_processing E N) = 2 * length (HashIndex (m_createdTxns N))"
  using assms by (simp_all add: proc_inv_def start_processing_def addr_map_ok_def pool_txns_def executes_none proc_size_def map_entries_def)

lemma waiting_txns_known:
  assumes "addr_map_ok B T M"
  shows "set (waiting_txns M) \<subseteq> T"
proof
  fix t assume "t \<in> set (waiting_txns M)"
  then obtain a m n where "(a, m) \<in> set M" "(n, t) \<in> set m" by (auto simp: waiting_txns_def)
  moreover from this(1) have "waits B T (a, m)" using assms by (simp add: addr_map_ok_def list_all_iff)
  ultimately show "t \<in> T" by (auto simp: waits_def)
qed

lemma insert_all_ok:
  assumes "pool_ok p" "\<And>t. in_pool p t \<Longrightarrow> t \<in> T" "set ts \<subseteq> T"
  shows "pool_ok (insert_all ts p) \<and> (\<forall>t. in_pool (insert_all ts p) t \<longrightarrow> t \<in> T)"
  using assms
proof (induction ts arbitrary: p)
  case (Cons u ts)
  obtain r q where q: "TxnPool_insert u p = (r, q)" by fastforce
  have "pool_ok q" "\<And>t. in_pool q t \<Longrightarrow> t \<in> T" using TxnPool_insert_ok [OF Cons.prems(1) q] Cons.prems by auto
  then show ?case using Cons.IH [of q] Cons.prems(3) q by (simp add: insert_all_def)
qed (simp add: insert_all_def)

text \<open>C6: a micro block is a piece of ledger history. The transactions a shard leader puts in order come from its pool and were
  executed one after the other on the temporary ledger, each sender's with consecutive nonces that start after the nonce of its
  account, so none twice; the block lists them and their receipts in this order. What the ledger holds at the end and the fees
  of the block are what it held before, the gas of the block is the gas of the receipts, and without the last transaction it is
  below the limit. The permanent ledger is as it was, and the pool keeps its indexes and gains nothing new. Contracts are
  deployed at addresses where no account exists (\<open>deployments_fresh\<close>), and the populating of accounts, a test mode, is off.\<close>

theorem microblock_is_ledger_history:
  assumes "pool_ok (m_createdTxns N)" "\<not> ENABLE_ACCOUNTS_POPULATING E"
    and "processing_ok E (pool_txns N) (temp_accounts (mb_store E) (node_accounts N))"
    and "deployments_fresh E (pool_txns N) passes (start_processing E N)"
    and "ProcessTransactionWhenShardLeader E passes N = Some N'"
  shows "\<exists>hist. executes (mb_ossl E) (temp_accounts (mb_store E) (node_accounts N)) hist (temp_accounts (mb_store E) (node_accounts N'))
    \<and> fst ` set hist \<subseteq> pool_txns N
    \<and> m_TxnOrder N' = map (\<lambda>d. GetTranID (fst d)) hist \<and> t_processedTransactions N' = map (\<lambda>d. (GetTranID (fst d), d)) hist
    \<and> (\<forall>a. map (\<lambda>d. unat (Transaction_GetNonce (fst d))) (of_sender (mb_ossl E) a hist)
         = [nonce_of (temp_accounts (mb_store E) (node_accounts N)) a + 1..<nonce_of (temp_accounts (mb_store E) (node_accounts N')) a + 1])
    \<and> total_balance (temp_accounts (mb_store E) (node_accounts N')) + unat (m_txnFees N') = total_balance (temp_accounts (mb_store E) (node_accounts N))
    \<and> unat (m_gasUsedTotal N') = sum_list (map gas_of hist)
    \<and> (hist \<noteq> [] \<longrightarrow> sum_list (map gas_of (butlast hist)) < unat (MICROBLOCK_GAS_LIMIT E))
    \<and> perm_accounts (mb_store E) (node_accounts N') = perm_accounts (mb_store E) (node_accounts N)
    \<and> pool_ok (t_createdTxns N') \<and> (\<forall>t. in_pool (t_createdTxns N') t \<longrightarrow> in_pool (m_createdTxns N) t)"
proof -
  let ?T = "pool_txns N" and ?Y = "mb_store E"
  obtain s where s: "process_loop E passes (start_processing E N) = Some (True, s)"
    and N': "N' = finish_processing s (N\<lparr>m_TxnOrder := p_order s\<rparr>)"
    using assms(5) by (auto simp: ProcessTransactionWhenShardLeader_def split: bind_splits if_splits)
  obtain hist where inv: "proc_inv E ?T (node_accounts N) s hist"
    using process_loop_inv [OF assms(3) start_inv(1) [OF assms(1,2)] assms(4) s] by blast
  have ex: "executes (mb_ossl E) (temp_accounts ?Y (node_accounts N)) hist (temp_accounts ?Y (p_accounts s))"
    using inv by (simp add: proc_inv_def)
  have "set (waiting_txns (p_addrNonce s)) \<subseteq> ?T" "set (p_exceeded s) \<subseteq> ?T"
    using inv waiting_txns_known [of "mb_ossl E" ?T] by (simp_all add: proc_inv_def)
  then have "pool_ok (t_createdTxns N') \<and> (\<forall>t. in_pool (t_createdTxns N') t \<longrightarrow> t \<in> ?T)"
    using insert_all_ok [of "p_created s" ?T "waiting_txns (p_addrNonce s)"]
      insert_all_ok [of "insert_all (waiting_txns (p_addrNonce s)) (p_created s)" ?T "p_exceeded s"] inv
    by (simp add: N' finish_processing_def ReinstateMemPool_def proc_inv_def)
  moreover have "m_TxnOrder N' = p_order s" "t_processedTransactions N' = p_processed s" "m_txnFees N' = p_txnFees s"
    "m_gasUsedTotal N' = p_gasUsedTotal s" "node_accounts N' = p_accounts s"
    by (simp_all add: N' finish_processing_def ReinstateMemPool_def)
  ultimately show ?thesis
    using inv ex executes_money [OF ex] executes_nonces [OF ex] executes_nonce [OF ex]
    by (intro exI [of _ hist]) (simp add: proc_inv_def pool_txns_def)
qed

text \<open>C30: a pool of payments is always worked off. However many payments wait, in whatever order of nonces, the loop of the shard
  leader and that of a backup end without an exception after at most two passes per transaction and one more.\<close>

theorem payments_are_processed:
  assumes "pool_ok (m_createdTxns N)" "\<not> ENABLE_ACCOUNTS_POPULATING E"
    and "processing_ok E (pool_txns N) (temp_accounts (mb_store E) (node_accounts N))" "payments_only (pool_txns N)"
    and "2 * length (HashIndex (m_createdTxns N)) < length passes"
  shows "\<exists>N' N''. ProcessTransactionWhenShardLeader E passes N = Some N' \<and> ProcessTransactionWhenShardBackup E passes N = Some N''
    \<and> m_expectedTranOrdering N'' = m_TxnOrder N'"
proof -
  note inv = start_inv [OF assms(1,2)]
  obtain ended s where s: "process_loop E passes (start_processing E N) = Some (ended, s)"
    using process_loop_returns [OF assms(3) inv(1) assms(4), of passes] by auto
  have "deployments_fresh E (pool_txns N) passes (start_processing E N)"
    by (rule no_deployments) (use assms(4) in \<open>auto simp: payments_only_def\<close>)
  then have ended using process_loop_ends [OF assms(3) inv(1) _ _ s] inv(2) assms(5) by simp
  then show ?thesis using s
    by (simp add: ProcessTransactionWhenShardLeader_def ProcessTransactionWhenShardBackup_def finish_processing_def ReinstateMemPool_def)
qed

text \<open>C33: the gas limit of a micro block is checked only for transactions that had to wait for their nonce. A transaction that could
  overrun the limit is put aside when it comes from the waiting ones; when the pool hands it out with the right nonce it is
  executed and its gas is added, whatever the limit.\<close>

theorem fresh_transaction_ignores_gas_limit:
  assumes "p_gasUsedTotal s + GetGasLimit t > ucast (MICROBLOCK_GAS_LIMIT E)" "findSameNonceButHigherGas t (p_created s) = (t, p_created s)"
    and "GetNonceTemp (mb_store E) (txn_sender (mb_ossl E) t) (p_accounts s) = (k, Aa)" "ucast (Transaction_GetNonce t) = k + 1"
    and "GetNonceTemp (mb_store E) (txn_sender (mb_ossl E) t) Aa = (k', Ab)"
    and "CheckCreatedTransaction E W t TransactionReceipt_new Ab = Some (True, tr, B)"
    and "ledger_env_ok (as_ledger (mb_store E))" "unat (p_gasUsedTotal s) + unat (r_cumGas tr) < 2 ^ 64"
    and "unat (p_txnFees s) + fee_of (t, tr) < 2 ^ 128"
  shows "process_waiting E W t s = Some (GoOn (s\<lparr>p_exceeded := p_exceeded s @ [t]\<rparr>))
    \<and> (\<exists>s'. process_new E W t s = Some (GoOn s') \<and> p_order s' = p_order s @ [GetTranID t] \<and> p_exceeded s' = p_exceeded s
         \<and> unat (p_gasUsedTotal s') = unat (p_gasUsedTotal s) + unat (r_cumGas tr))"
proof -
  let ?L = "as_ledger (mb_store E)"
  have L: "usafe_ok (SafeMath64 ?L)" "usafe_ok (SafeMath128 ?L)" using assms(7) by (simp_all add: ledger_env_ok_def)
  have same: "k' = k" using GetNonceTemp_view [OF assms(3)] GetNonceTemp_view(1) [OF assms(5)] by (metis word_unat_eq_iff)
  define fee :: "128 word" where "fee = ucast (r_cumGas tr) * GetGasPrice t"
  have "unat (ucast (r_cumGas tr) :: 128 word) * unat (GetGasPrice t) = fee_of (t, tr)"
    by (simp add: fee_of_def gas_cost_def GetGasPrice_def unat_ucast_up)
  then have mul: "USafe_mul (SafeMath128 ?L) (ucast (r_cumGas tr)) (GetGasPrice t) 0 = (True, fee)" "unat fee = fee_of (t, tr)"
    using assms(9) usafe_mul [OF L(2), of "ucast (r_cumGas tr)" "GetGasPrice t" 0] by (simp_all add: fee_def unat_word_ariths)
  have "USafe_add (SafeMath64 ?L) (p_gasUsedTotal s) (r_cumGas tr) (p_gasUsedTotal s) = (True, p_gasUsedTotal s + r_cumGas tr)"
    using usafe_add [OF L(1), of "p_gasUsedTotal s" "r_cumGas tr"] assms(8) by simp
  moreover have "USafe_add (SafeMath128 ?L) (p_txnFees s) fee (p_txnFees s) = (True, p_txnFees s + fee)"
    using usafe_add [OF L(2), of "p_txnFees s" fee] assms(9) mul(2) by simp
  ultimately have "\<exists>s'. process_new E W t s = Some (GoOn s') \<and> p_order s' = p_order s @ [GetTranID t] \<and> p_exceeded s' = p_exceeded s
      \<and> p_gasUsedTotal s' = p_gasUsedTotal s + r_cumGas tr"
    using assms(3-6) same mul(1) by (simp add: process_new_def execute_txn_def count_txn_def appendOne_def Let_def)
  moreover have "unat (p_gasUsedTotal s + r_cumGas tr) = unat (p_gasUsedTotal s) + unat (r_cumGas tr)"
    using assms(8) by (simp add: unat_word_ariths)
  moreover have "process_waiting E W t s = Some (GoOn (s\<lparr>p_exceeded := p_exceeded s @ [t]\<rparr>))"
    using assms(1,2) by (simp add: process_waiting_def Let_def)
  ultimately show ?thesis by auto
qed

section \<open>A small instance\<close>

text \<open>A shard with the payment of \<open>toy_payment\<close> in its pool; the gas limit of a block is smaller than that of the payment.\<close>

definition toy_mb_env :: "(Address \<Rightarrow> bytes, db_path \<Rightarrow> (bytes \<times> bytes) list, int) mb_env" where
  "toy_mb_env = \<lparr>mb_store = toy_ledger_env, mb_proto = toy_tx_protobuf, mb_LOOKUP_NODE_MODE = False, CHAIN_ID = 0, MICROBLOCK_GAS_LIMIT = 5,
     ENABLE_ACCOUNTS_POPULATING = False, NUM_FINAL_BLOCK_PER_POW = 1, m_populatedAddresses = [], m_currentEpochNum = 0, m_numShards = 1,
     m_myshardId = 0, ds_mode = IDLE, ds_shards = 1, ds_gasPrice = 0\<rparr>"

definition toy_payment_txn :: "int Transaction" where
  "toy_payment_txn = \<lparr>m_tranID = [1], m_coreInfo = toy_payment, m_signature = Signature_default\<rparr>"

definition toy_shard :: "(Address \<Rightarrow> bytes, db_path \<Rightarrow> (bytes \<times> bytes) list, int) Node" where
  "toy_shard = \<lparr>m_createdTxns = snd (TxnPool_insert toy_payment_txn TxnPool_empty), t_createdTxns = TxnPool_empty, t_processedTransactions = [],
     m_processedTransactions = [], m_TxnOrder = [], m_expectedTranOrdering = [], m_gasUsedTotal = 0, m_txnFees = 0, m_unconfirmedTxns = [],
     node_accounts = toy_start\<rparr>"

abbreviation toy_ledger_start :: ledger where
  "toy_ledger_start \<equiv> [33 \<mapsto> Account_new 1000 0 1]"

lemma toy_mb_fields:
  "mb_store toy_mb_env = toy_ledger_env" "sc_ossl (as_sc toy_ledger_env) = toy_lengths" "MICROBLOCK_GAS_LIMIT toy_mb_env = 5"
  "txn_sender toy_lengths toy_payment_txn = 33" "Transaction_GetNonce toy_payment_txn = 1" "GetGasLimit toy_payment_txn = 10"
  "GetTranID toy_payment_txn = [1]" "GetTransactionType (m_coreInfo toy_payment_txn) = NON_CONTRACT" "node_accounts toy_shard = toy_start"
  using toy_sender
  by (simp_all add: toy_mb_env_def toy_ledger_env_def toy_payment_txn_def Transaction_GetNonce_def GetGasLimit_def GetTranID_def toy_shard_def
      GetTransactionType_def) (simp_all add: toy_payment_def NullAddress_def)

lemma toy_ledger_views: "temp_accounts toy_ledger_env toy_start = toy_ledger_start" "perm_accounts toy_ledger_env toy_start = toy_ledger_start"
  by (auto simp: toy_views fun_eq_iff)

lemma toy_shard_pool:
  "m_createdTxns toy_shard = \<lparr>HashIndex = [([1], toy_payment_txn)], GasIndex = [(5, [([1], toy_payment_txn)])],
     NonceIndex = [((3, 1), toy_payment_txn)]\<rparr>"
  "pool_ok (m_createdTxns toy_shard)" "pool_txns toy_shard = {toy_payment_txn}"
proof -
  have fields: "GetGasPrice toy_payment_txn = 5" "nonce_key toy_payment_txn = (3, 1)"
    by (simp_all add: toy_payment_txn_def toy_payment_def GetGasPrice_def nonce_key_def GetSenderPubKey_def Transaction_GetNonce_def)
  show pool: "m_createdTxns toy_shard = \<lparr>HashIndex = [([1], toy_payment_txn)], GasIndex = [(5, [([1], toy_payment_txn)])],
     NonceIndex = [((3, 1), toy_payment_txn)]\<rparr>"
    by (simp add: toy_shard_def TxnPool_insert_def TxnPool_empty_def TxnPool_exist_def gas_insert_def gas_bucket_def toy_mb_fields fields)
  show "pool_ok (m_createdTxns toy_shard)"
    using TxnPool_insert_ok [OF TxnPool_empty_ok surjective_pairing, of toy_payment_txn] by (simp add: toy_shard_def)
  show "pool_txns toy_shard = {toy_payment_txn}"
    by (auto simp: pool_txns_def in_pool_def pool toy_mb_fields split: if_splits)
qed

lemma toy_processing_ok: "processing_ok toy_mb_env (pool_txns toy_shard) (temp_accounts (mb_store toy_mb_env) (node_accounts toy_shard))"
  "payments_only (pool_txns toy_shard)" "\<not> ENABLE_ACCOUNTS_POPULATING toy_mb_env"
proof -
  have "nonce_of toy_ledger_start a = 0" for a by (simp add: nonce_of_def Account_new_def)
  then show "processing_ok toy_mb_env (pool_txns toy_shard) (temp_accounts (mb_store toy_mb_env) (node_accounts toy_shard))"
    using toy_start_ok(1) toy_ledger_env_ok unfolding processing_ok_def toy_mb_fields toy_ledger_views toy_shard_pool(3)
    by (simp add: toy_mb_fields) (simp add: toy_mb_env_def toy_ledger_env_def toy_ledger_def)
  show "payments_only (pool_txns toy_shard)" by (simp add: payments_only_def toy_shard_pool(3) toy_mb_fields)
  show "\<not> ENABLE_ACCOUNTS_POPULATING toy_mb_env" by (simp add: toy_mb_env_def)
qed

text \<open>The payment passes the checks.\<close>

lemma toy_payment_checked:
  assumes "temp_accounts toy_ledger_env A = toy_ledger_start" "perm_accounts toy_ledger_env A = toy_ledger_start"
  shows "\<exists>tr B. CheckCreatedTransaction toy_mb_env W toy_payment_txn r A = Some (True, tr, B) \<and> r_cumGas tr = 1"
proof -
  let ?Y = toy_ledger_env
  have get: "\<exists>s'. AccountStoreTrie_GetAccount ?Y 33 s = (Some (Account_new 1000 0 1), s')" if "trie_view ?Y s = toy_ledger_start" for s
    using AccountStoreTrie_GetAccount_view [OF surjective_pairing, of ?Y 33 s] that by (metis fun_upd_same prod.collapse)
  obtain A1 where 1: "on_primary (IsAccountExist (trie_vt ?Y) 33) A = (True, A1)"
    using get [of "primary A"] assms(2) by (auto simp: on_primary_def IsAccountExist_def trie_vt_def perm_accounts_def)
  have v1: "temp_accounts ?Y A1 = temp_accounts ?Y A" "perm_accounts ?Y A1 = perm_accounts ?Y A"
    by (rule on_primary_views [OF _ 1], erule primary_reads)+
  obtain A2 where 2: "on_primary (GetBalance (trie_vt ?Y) 33) A1 = (1000, A2)"
    using get [of "primary A1"] assms(2) v1(2)
    by (auto simp: on_primary_def GetBalance_def trie_vt_def perm_accounts_def Account_new_def)
  have "temp_accounts ?Y A2 = temp_accounts ?Y A1" by (rule on_primary_views(1) [OF _ 2], erule primary_balance)
  then have v2: "temp_accounts ?Y A2 = toy_ledger_start" using v1(1) assms(1) by simp
  have a: "GetAddressFromPublicKey toy_lengths (GetSenderPubKey toy_payment_txn) = 33"
    using toy_mb_fields(4) by (simp add: GetSenderAddr_def GetSenderPubKey_def)
  have c: "UnpackA (tx_version (m_coreInfo toy_payment_txn)) = CHAIN_ID toy_mb_env" "\<not> mb_LOOKUP_NODE_MODE toy_mb_env"
    "\<not> 1000 < tx_amount (m_coreInfo toy_payment_txn)" "m_coreInfo toy_payment_txn = toy_payment"
    by (simp_all add: toy_payment_txn_def toy_payment_def UnpackA_def toy_mb_env_def)
  obtain tr B where "UpdateAccountsTemp ?Y W (unat (m_currentEpochNum toy_mb_env)) (unat (m_numShards toy_mb_env)) (ds_mode toy_mb_env \<noteq> IDLE)
      toy_payment (SetEpochNum (m_currentEpochNum toy_mb_env) r) A2 = Some (True, tr, B)" "r_cumGas tr = 1"
    using toy_payment_runs_on [OF v2] by blast
  then show ?thesis using 1 2 c by (simp add: CheckCreatedTransaction_def Let_def toy_mb_fields a NullAddress_def)
qed

lemma toy_nonce:
  assumes "temp_accounts toy_ledger_env A = toy_ledger_start" "perm_accounts toy_ledger_env A = toy_ledger_start"
  obtains A' where "GetNonceTemp toy_ledger_env 33 A = (0, A')" "temp_accounts toy_ledger_env A' = toy_ledger_start"
    "perm_accounts toy_ledger_env A' = toy_ledger_start"
proof -
  obtain k A' where k: "GetNonceTemp toy_ledger_env 33 A = (k, A')" by fastforce
  have "unat k = 0" using GetNonceTemp_view(1) [OF k] assms(1) by (simp add: nonce_of_def Account_new_def)
  then have "k = 0" by (simp add: unat_eq_zero)
  then show thesis using that k GetNonceTemp_view(2,3) [OF k] assms by simp
qed

lemma toy_ledger_env_L: "ledger_env_ok (as_ledger (mb_store toy_mb_env))"
  using toy_ledger_env_ok by (simp add: toy_mb_fields)

lemma toy_fee: "r_cumGas tr = 1 \<Longrightarrow> fee_of (toy_payment_txn, tr) = 5"
  by (simp add: fee_of_def gas_cost_def toy_payment_txn_def toy_payment_def)

text \<open>Two passes: the payment is executed, then the pool is empty.\<close>

lemma toy_shard_runs:
  obtains N' where "ProcessTransactionWhenShardLeader toy_mb_env [(False, toy_world), (False, toy_world)] toy_shard = Some N'" "m_TxnOrder N' = [[1]]"
proof -
  let ?E = toy_mb_env and ?t = toy_payment_txn and ?s = "start_processing toy_mb_env toy_shard" and ?L = "as_ledger toy_ledger_env"
  have s: "p_addrNonce ?s = []" "p_created ?s = m_createdTxns toy_shard" "p_accounts ?s = toy_start" "p_gasUsedTotal ?s = 0" "p_txnFees ?s = 0"
    "p_order ?s = []" "p_processed ?s = []"
    using toy_processing_ok(3) by (simp_all add: start_processing_def toy_mb_fields)
  obtain A1 where A1: "GetNonceTemp toy_ledger_env 33 toy_start = (0, A1)" "temp_accounts toy_ledger_env A1 = toy_ledger_start"
    "perm_accounts toy_ledger_env A1 = toy_ledger_start" using toy_nonce [OF toy_ledger_views] by blast
  obtain A2 where A2: "GetNonceTemp toy_ledger_env 33 A1 = (0, A2)" "temp_accounts toy_ledger_env A2 = toy_ledger_start"
    "perm_accounts toy_ledger_env A2 = toy_ledger_start" using toy_nonce [OF A1(2,3)] by blast
  obtain tr B where c: "CheckCreatedTransaction ?E toy_world ?t TransactionReceipt_new A2 = Some (True, tr, B)" "r_cumGas tr = 1"
    using toy_payment_checked [OF A2(2,3)] by blast
  obtain q where q: "findOne (m_createdTxns toy_shard) = (Some ?t, q)" "GasIndex q = []"
    by (simp add: toy_shard_pool(1) findOne_def)
  have money: "USafe_add (SafeMath64 ?L) 0 1 0 = (True, 1)" "\<exists>x. USafe_mul (SafeMath128 ?L) 1 (GetGasPrice ?t) 0 = (True, x)"
    "\<exists>y. USafe_add (SafeMath128 ?L) 0 x 0 = (True, y)" for x
    using unat_bound [of x]
    by (simp_all add: toy_ledger_env_def toy_ledger_def exact_usafe_def toy_payment_txn_def toy_payment_def GetGasPrice_def)
  obtain x where x: "USafe_mul (SafeMath128 ?L) 1 (GetGasPrice ?t) 0 = (True, x)" using money(2) by blast
  obtain y where y: "USafe_add (SafeMath128 ?L) 0 x 0 = (True, y)" using money(3) by blast
  obtain s' where s': "process_pass ?E toy_world ?s = Some (GoOn s')" "p_order s' = [[1]]" "p_gasUsedTotal s' = 1" "p_addrNonce s' = []" "p_created s' = q"
    using A1(1) A2(1) c q(1) money(1) x y
    by (simp add: process_pass_def process_new_def execute_txn_def count_txn_def appendOne_def toy_mb_fields s Let_def)
  have "process_pass ?E toy_world s' = Some (Stop (s'\<lparr>p_created := q\<rparr>))"
    using s'(4,5) q(2) by (simp add: process_pass_def findOne_def)
  then have "process_loop ?E [(False, toy_world), (False, toy_world)] ?s = Some (True, s'\<lparr>p_created := q\<rparr>)"
    using s'(1,3) s(4) by (simp add: toy_mb_fields word_less_nat_alt)
  then show thesis using that s'(2)
    by (simp add: ProcessTransactionWhenShardLeader_def finish_processing_def ReinstateMemPool_def)
qed

theorem microblock_is_ledger_history_witness:
  "\<exists>N' d. ProcessTransactionWhenShardLeader toy_mb_env [(False, toy_world), (False, toy_world)] toy_shard = Some N' \<and> m_TxnOrder N' = [[1]]
    \<and> t_processedTransactions N' = [([1], d)] \<and> unat (m_gasUsedTotal N') = gas_of d
    \<and> total_balance (temp_accounts toy_ledger_env (node_accounts N')) + unat (m_txnFees N') = 1000"
proof -
  obtain N' where N': "ProcessTransactionWhenShardLeader toy_mb_env [(False, toy_world), (False, toy_world)] toy_shard = Some N'" "m_TxnOrder N' = [[1]]"
    by (rule toy_shard_runs)
  have "deployments_fresh toy_mb_env (pool_txns toy_shard) [(False, toy_world), (False, toy_world)] (start_processing toy_mb_env toy_shard)"
    by (rule no_deployments) (use toy_processing_ok(2) in \<open>auto simp: payments_only_def\<close>)
  from microblock_is_ledger_history [OF toy_shard_pool(2) toy_processing_ok(3,1) this N'(1)]
  obtain hist where hist: "m_TxnOrder N' = map (\<lambda>d. GetTranID (fst d)) hist" "t_processedTransactions N' = map (\<lambda>d. (GetTranID (fst d), d)) hist"
    "total_balance (temp_accounts (mb_store toy_mb_env) (node_accounts N')) + unat (m_txnFees N')
       = total_balance (temp_accounts (mb_store toy_mb_env) (node_accounts toy_shard))"
    "unat (m_gasUsedTotal N') = sum_list (map gas_of hist)" by blast
  obtain d where d: "hist = [d]" "GetTranID (fst d) = [1]" using hist(1) N'(2) by auto
  have "total_balance toy_ledger_start = 1000" unfolding total_single by (simp add: Account_new_def)
  then show ?thesis using N' hist(2-4) unfolding d(1) toy_mb_fields toy_ledger_views by (intro exI [of _ N'] exI [of _ d]) (simp add: d(2))
qed

theorem payments_are_processed_witness:
  "\<exists>N' N''. ProcessTransactionWhenShardLeader toy_mb_env (replicate 3 (False, toy_world)) toy_shard = Some N'
    \<and> ProcessTransactionWhenShardBackup toy_mb_env (replicate 3 (False, toy_world)) toy_shard = Some N''
    \<and> m_expectedTranOrdering N'' = m_TxnOrder N'"
  by (rule payments_are_processed [OF toy_shard_pool(2) toy_processing_ok(3,1,2)]) (simp add: toy_shard_pool(1))

theorem fresh_transaction_ignores_gas_limit_witness:
  "\<exists>s s'. process_waiting toy_mb_env toy_world toy_payment_txn s = Some (GoOn (s\<lparr>p_exceeded := [toy_payment_txn]\<rparr>))
    \<and> process_new toy_mb_env toy_world toy_payment_txn s = Some (GoOn s') \<and> p_order s' = [[1]]
    \<and> unat (MICROBLOCK_GAS_LIMIT toy_mb_env) < unat (p_gasUsedTotal s) + unat (GetGasLimit toy_payment_txn)"
proof -
  define s where "s = (start_processing toy_mb_env toy_shard)\<lparr>p_created := TxnPool_empty\<rparr>"
  have f: "p_accounts s = toy_start" "p_gasUsedTotal s = 0" "p_txnFees s = 0" "p_order s = []" "p_exceeded s = []" "p_created s = TxnPool_empty"
    using toy_processing_ok(3) by (simp_all add: s_def start_processing_def toy_mb_fields)
  obtain A1 where A1: "GetNonceTemp toy_ledger_env 33 toy_start = (0, A1)" "temp_accounts toy_ledger_env A1 = toy_ledger_start"
    "perm_accounts toy_ledger_env A1 = toy_ledger_start" using toy_nonce [OF toy_ledger_views] by blast
  obtain A2 where A2: "GetNonceTemp toy_ledger_env 33 A1 = (0, A2)" "temp_accounts toy_ledger_env A2 = toy_ledger_start"
    "perm_accounts toy_ledger_env A2 = toy_ledger_start" using toy_nonce [OF A1(2,3)] by blast
  obtain tr B where c: "CheckCreatedTransaction toy_mb_env toy_world toy_payment_txn TransactionReceipt_new A2 = Some (True, tr, B)" "r_cumGas tr = 1"
    using toy_payment_checked [OF A2(2,3)] by blast
  have "findSameNonceButHigherGas toy_payment_txn (p_created s) = (toy_payment_txn, p_created s)"
    by (simp add: f findSameNonceButHigherGas_def TxnPool_empty_def)
  moreover have "p_gasUsedTotal s + GetGasLimit toy_payment_txn > ucast (MICROBLOCK_GAS_LIMIT toy_mb_env)"
    by (simp add: f toy_mb_fields word_less_nat_alt)
  ultimately have "process_waiting toy_mb_env toy_world toy_payment_txn s = Some (GoOn (s\<lparr>p_exceeded := p_exceeded s @ [toy_payment_txn]\<rparr>))
    \<and> (\<exists>s'. process_new toy_mb_env toy_world toy_payment_txn s = Some (GoOn s') \<and> p_order s' = p_order s @ [GetTranID toy_payment_txn]
         \<and> p_exceeded s' = p_exceeded s \<and> unat (p_gasUsedTotal s') = unat (p_gasUsedTotal s) + unat (r_cumGas tr))"
    by (intro fresh_transaction_ignores_gas_limit [where k = 0 and Aa = A1 and Ab = A2 and B = B and k' = 0])
      (use A1(1) A2(1) c toy_ledger_env_L toy_fee [OF c(2)] in \<open>simp_all add: f toy_mb_fields\<close>)
  then show ?thesis unfolding f toy_mb_fields by - (rule exI [of _ s], auto simp: f)
qed

section \<open>Packets\<close>






end
