(* ===== verification/Reputation.thy ===== *)
theory Reputation
  imports Prelude
begin

text \<open>
  Reputation and blacklist of network addresses (\<open>libNetwork/ReputationManager.cpp\<close>, \<open>Blacklist.cpp\<close>).

  Both classes are singletons; the state of a node has one of each. Scores are 32-bit integers, written as
  integers. \<open>SafeMath\<close> is declared in \<open>libUtils/SafeMath.h\<close>, its bodies are in a file that is not part of
  the sources: it is a parameter, and \<open>safemath_ok\<close> says that a sum or difference that fits is computed and
  reported as a success. What it leaves in the result otherwise is not assumed. The order in which the
  hash tables are walked is a parameter too.
\<close>

section \<open>Blacklist\<close>

record Blacklist =
  m_blacklistIP :: "nat set"
  m_excludedIP :: "nat set"
  m_enabled :: bool

definition Blacklist_new :: Blacklist where
  "Blacklist_new = \<lparr>m_blacklistIP = {}, m_excludedIP = {}, m_enabled = True\<rparr>"

definition Blacklist_Exist :: "nat \<Rightarrow> Blacklist \<Rightarrow> bool" where
  "Blacklist_Exist ip b \<longleftrightarrow> m_enabled b \<and> ip \<in> m_blacklistIP b \<and> ip \<notin> m_excludedIP b"

definition Blacklist_Add :: "nat \<Rightarrow> Blacklist \<Rightarrow> Blacklist" where
  "Blacklist_Add ip b =
     (if \<not> m_enabled b then b
      else if ip \<notin> m_excludedIP b then b\<lparr>m_blacklistIP := insert ip (m_blacklistIP b)\<rparr> else b)"

definition Blacklist_Remove :: "nat \<Rightarrow> Blacklist \<Rightarrow> Blacklist" where
  "Blacklist_Remove ip b = (if \<not> m_enabled b then b else b\<lparr>m_blacklistIP := m_blacklistIP b - {ip}\<rparr>)"

definition Blacklist_Clear :: "Blacklist \<Rightarrow> Blacklist" where
  "Blacklist_Clear b = b\<lparr>m_blacklistIP := {}\<rparr>"

text \<open>\<open>order\<close> is the order in which the table is walked.\<close>

fun pop_loop :: "nat list \<Rightarrow> nat \<Rightarrow> nat \<Rightarrow> nat set \<Rightarrow> nat set" where
  "pop_loop [] counter num_to_pop m = m"
| "pop_loop (ip # order) counter num_to_pop m =
     (if counter < num_to_pop then pop_loop order (counter + 1) num_to_pop (m - {ip}) else m)"

definition Blacklist_Pop :: "nat list \<Rightarrow> nat \<Rightarrow> Blacklist \<Rightarrow> Blacklist" where
  "Blacklist_Pop order num_to_pop b =
     (if \<not> m_enabled b then b else b\<lparr>m_blacklistIP := pop_loop order 0 num_to_pop (m_blacklistIP b)\<rparr>)"

definition SizeOfBlacklist :: "Blacklist \<Rightarrow> nat" where
  "SizeOfBlacklist b = u32 (card (m_blacklistIP b))"

definition Blacklist_Enable :: "bool \<Rightarrow> Blacklist \<Rightarrow> Blacklist" where
  "Blacklist_Enable enable b = (if \<not> enable then Blacklist_Clear b else b)\<lparr>m_enabled := enable\<rparr>"

definition Blacklist_Exclude :: "nat \<Rightarrow> Blacklist \<Rightarrow> bool \<times> Blacklist" where
  "Blacklist_Exclude ip b =
     (if \<not> m_enabled b then (False, b)
      else (ip \<notin> m_excludedIP b, b\<lparr>m_excludedIP := insert ip (m_excludedIP b)\<rparr>))"

definition Blacklist_RemoveExclude :: "nat \<Rightarrow> Blacklist \<Rightarrow> bool \<times> Blacklist" where
  "Blacklist_RemoveExclude ip b =
     (if \<not> m_enabled b then (False, b)
      else (ip \<in> m_excludedIP b, b\<lparr>m_excludedIP := m_excludedIP b - {ip}\<rparr>))"

section \<open>Reputation\<close>

definition UPPERREPTHRESHOLD :: int where "UPPERREPTHRESHOLD = 500"
definition REPTHRESHOLD :: int where "REPTHRESHOLD = -500"
definition GOOD :: int where "GOOD = 0"
definition BAN_MULTIPLIER :: int where "BAN_MULTIPLIER = 24"
definition AWARD_FOR_GOOD_NODES :: int where "AWARD_FOR_GOOD_NODES = 50"

lemmas score_defs = UPPERREPTHRESHOLD_def REPTHRESHOLD_def GOOD_def BAN_MULTIPLIER_def AWARD_FOR_GOOD_NODES_def

text \<open>The library: operands and the old result to success and new result.\<close>

record safemath =
  SafeMath_add :: "int \<Rightarrow> int \<Rightarrow> int \<Rightarrow> bool \<times> int"
  SafeMath_sub :: "int \<Rightarrow> int \<Rightarrow> int \<Rightarrow> bool \<times> int"

definition int32 :: "int \<Rightarrow> bool" where
  "int32 x \<longleftrightarrow> - (2 ^ 31) \<le> x \<and> x < 2 ^ 31"

definition safemath_ok :: "safemath \<Rightarrow> bool" where
  "safemath_ok M \<longleftrightarrow> (\<forall>a b r. int32 (a + b) \<longrightarrow> SafeMath_add M a b r = (True, a + b))
     \<and> (\<forall>a b r. int32 (a - b) \<longrightarrow> SafeMath_sub M a b r = (True, a - b))"

record ReputationManager =
  m_Reputations :: "nat \<rightharpoonup> int"
  blacklist :: Blacklist

definition ReputationManager_new :: ReputationManager where
  "ReputationManager_new = \<lparr>m_Reputations = Map.empty, blacklist = Blacklist_new\<rparr>"

definition AddNodeIfNotKnown :: "nat \<Rightarrow> ReputationManager \<Rightarrow> ReputationManager" where
  "AddNodeIfNotKnown ip s =
     (if m_Reputations s ip = None then s\<lparr>m_Reputations := (m_Reputations s)(ip \<mapsto> GOOD)\<rparr> else s)"

definition GetReputation :: "nat \<Rightarrow> ReputationManager \<Rightarrow> int \<times> ReputationManager" where
  "GetReputation ip s =
     (let s1 = AddNodeIfNotKnown ip s in (case m_Reputations s1 ip of None \<Rightarrow> 0 | Some v \<Rightarrow> v, s1))"

definition IsNodeBanned :: "nat \<Rightarrow> ReputationManager \<Rightarrow> bool \<times> ReputationManager" where
  "IsNodeBanned ip s = (case GetReputation ip s of (v, s1) \<Rightarrow> (v \<le> REPTHRESHOLD, s1))"

definition ReputationManager_Clear :: "ReputationManager \<Rightarrow> ReputationManager" where
  "ReputationManager_Clear s = s\<lparr>m_Reputations := Map.empty\<rparr>"

definition SetReputation :: "nat \<Rightarrow> int \<Rightarrow> ReputationManager \<Rightarrow> ReputationManager" where
  "SetReputation ip score s =
     (let s1 = AddNodeIfNotKnown ip s
      in s1\<lparr>m_Reputations := (m_Reputations s1)(ip \<mapsto> (if score > UPPERREPTHRESHOLD then UPPERREPTHRESHOLD else score))\<rparr>)"

text \<open>A score that falls to the threshold is lowered once more, by 24 awards.\<close>

definition UpdateReputation :: "safemath \<Rightarrow> nat \<Rightarrow> int \<Rightarrow> ReputationManager \<Rightarrow> ReputationManager" where
  "UpdateReputation M ip delta s =
     (case GetReputation ip s of
        (rep0, s1) \<Rightarrow>
          let rep1 = snd (SafeMath_add M rep0 delta rep0)
          in if rep1 \<le> REPTHRESHOLD
             then (case IsNodeBanned ip s1 of
                     (banned, s2) \<Rightarrow>
                       SetReputation ip
                         (if \<not> banned then snd (SafeMath_sub M rep1 (BAN_MULTIPLIER * AWARD_FOR_GOOD_NODES) rep1) else rep1) s2)
             else SetReputation ip rep1 s1)"

definition PunishNode :: "safemath \<Rightarrow> nat \<Rightarrow> int \<Rightarrow> ReputationManager \<Rightarrow> ReputationManager" where
  "PunishNode M ip penalty s =
     (let s1 = UpdateReputation M ip penalty s
      in if \<not> Blacklist_Exist ip (blacklist s1)
         then (case IsNodeBanned ip s1 of
                 (banned, s2) \<Rightarrow> if banned then s2\<lparr>blacklist := Blacklist_Add ip (blacklist s2)\<rparr> else s2)
         else s1)"

definition AwardNode :: "safemath \<Rightarrow> nat \<Rightarrow> ReputationManager \<Rightarrow> ReputationManager" where
  "AwardNode M ip s =
     (let s1 = UpdateReputation M ip AWARD_FOR_GOOD_NODES s
      in if Blacklist_Exist ip (blacklist s1)
         then (case IsNodeBanned ip s1 of
                 (banned, s2) \<Rightarrow> if \<not> banned then s2\<lparr>blacklist := Blacklist_Remove ip (blacklist s2)\<rparr> else s2)
         else s1)"

text \<open>\<open>AllKnownIPs\<close> is what \<open>GetAllKnownIP\<close> returns: the addresses in the order of the table.\<close>

definition GetAllKnownIP :: "nat list \<Rightarrow> ReputationManager \<Rightarrow> bool" where
  "GetAllKnownIP AllKnownIPs s \<longleftrightarrow> distinct AllKnownIPs \<and> (\<forall>ip. ip \<in> set AllKnownIPs \<longleftrightarrow> m_Reputations s ip \<noteq> None)"

definition AwardAllNodes :: "safemath \<Rightarrow> nat list \<Rightarrow> ReputationManager \<Rightarrow> ReputationManager" where
  "AwardAllNodes M AllKnownIPs s = fold (AwardNode M) AllKnownIPs s"

section \<open>Scores and blacklist\<close>

definition score :: "ReputationManager \<Rightarrow> nat \<Rightarrow> int" where
  "score s ip = (case m_Reputations s ip of None \<Rightarrow> GOOD | Some v \<Rightarrow> v)"

text \<open>The blacklist agrees with the score of an address: the blacklist is in force, the address is not excluded
  from it, and it is listed exactly if its score is at most the threshold.\<close>

definition agrees :: "nat \<Rightarrow> ReputationManager \<Rightarrow> bool" where
  "agrees ip s \<longleftrightarrow> m_enabled (blacklist s) \<and> ip \<notin> m_excludedIP (blacklist s)
     \<and> (ip \<in> m_blacklistIP (blacklist s) \<longleftrightarrow> score s ip \<le> REPTHRESHOLD)"

definition scores_ok :: "ReputationManager \<Rightarrow> bool" where
  "scores_ok s \<longleftrightarrow> (\<forall>ip. score s ip \<le> UPPERREPTHRESHOLD \<and> int32 (score s ip - 1200))"

lemma AddNodeIfNotKnown_score [simp]:
  "score (AddNodeIfNotKnown ip s) = score s" "blacklist (AddNodeIfNotKnown ip s) = blacklist s"
  by (auto simp: AddNodeIfNotKnown_def score_def fun_eq_iff)

lemma score_blacklist [simp]: "score (s\<lparr>blacklist := b\<rparr>) = score s"
  by (simp add: score_def fun_eq_iff)

lemma GetReputation_score [simp]: "GetReputation ip s = (score s ip, AddNodeIfNotKnown ip s)"
  by (auto simp: GetReputation_def AddNodeIfNotKnown_def score_def Let_def split: option.splits)

lemma IsNodeBanned_score [simp]: "IsNodeBanned ip s = (score s ip \<le> REPTHRESHOLD, AddNodeIfNotKnown ip s)"
  by (simp add: IsNodeBanned_def)

lemma SetReputation_score:
  "score (SetReputation ip v s) = (score s)(ip := min v UPPERREPTHRESHOLD)" "blacklist (SetReputation ip v s) = blacklist s"
  by (auto simp: SetReputation_def score_def AddNodeIfNotKnown_def Let_def fun_eq_iff)

definition updated :: "int \<Rightarrow> int \<Rightarrow> int" where
  "updated v delta =
     (if v + delta \<le> REPTHRESHOLD \<and> \<not> v \<le> REPTHRESHOLD then v + delta - 1200 else min (v + delta) UPPERREPTHRESHOLD)"

lemma UpdateReputation_score:
  assumes M: "safemath_ok M" and r: "int32 (score s ip + delta)" "int32 (score s ip + delta - 1200)"
  shows "score (UpdateReputation M ip delta s) = (score s)(ip := updated (score s ip) delta)"
    "blacklist (UpdateReputation M ip delta s) = blacklist s"
  using assms by (auto simp: UpdateReputation_def safemath_ok_def updated_def SetReputation_score score_defs Let_def fun_eq_iff)

text \<open>What a punishment and an award do, whatever the state of the blacklist.\<close>

lemma PunishNode_result:
  assumes M: "safemath_ok M" and ok: "scores_ok s" and r: "penalty \<le> 0" "int32 (score s ip + penalty - 2400)"
  shows "score (PunishNode M ip penalty s) = (score s)(ip := updated (score s ip) penalty)"
    "blacklist (PunishNode M ip penalty s)
       = (if \<not> Blacklist_Exist ip (blacklist s) \<and> updated (score s ip) penalty \<le> REPTHRESHOLD
          then Blacklist_Add ip (blacklist s) else blacklist s)"
    "scores_ok (PunishNode M ip penalty s)"
proof -
  have le: "score s ip \<le> 500" using ok by (simp add: scores_ok_def score_defs)
  have "int32 (score s ip + penalty)" "int32 (score s ip + penalty - 1200)" using r le by (simp_all add: int32_def)
  note upd = UpdateReputation_score [OF M this]
  show score: "score (PunishNode M ip penalty s) = (score s)(ip := updated (score s ip) penalty)"
    and "blacklist (PunishNode M ip penalty s)
       = (if \<not> Blacklist_Exist ip (blacklist s) \<and> updated (score s ip) penalty \<le> REPTHRESHOLD
          then Blacklist_Add ip (blacklist s) else blacklist s)"
    by (simp_all add: PunishNode_def Let_def upd)
  have "updated (score s ip) penalty \<le> 500" "int32 (updated (score s ip) penalty - 1200)"
    using le r by (auto simp: updated_def score_defs int32_def)
  then show "scores_ok (PunishNode M ip penalty s)" using ok by (simp add: scores_ok_def score UPPERREPTHRESHOLD_def)
qed

lemma AwardNode_result:
  assumes M: "safemath_ok M" and ok: "scores_ok s"
  shows "score (AwardNode M ip s) = (score s)(ip := min (score s ip + 50) 500)"
    "blacklist (AwardNode M ip s)
       = (if Blacklist_Exist ip (blacklist s) \<and> \<not> min (score s ip + 50) 500 \<le> REPTHRESHOLD
          then Blacklist_Remove ip (blacklist s) else blacklist s)"
    "scores_ok (AwardNode M ip s)"
proof -
  have le: "score s ip \<le> 500" "int32 (score s ip - 1200)" using ok by (simp_all add: scores_ok_def score_defs)
  then have "int32 (score s ip + AWARD_FOR_GOOD_NODES)" "int32 (score s ip + AWARD_FOR_GOOD_NODES - 1200)"
    by (auto simp: int32_def score_defs)
  note upd = UpdateReputation_score [OF M this]
  have new: "updated (score s ip) AWARD_FOR_GOOD_NODES = min (score s ip + 50) 500"
    by (auto simp: updated_def score_defs)
  show score: "score (AwardNode M ip s) = (score s)(ip := min (score s ip + 50) 500)"
    and "blacklist (AwardNode M ip s)
       = (if Blacklist_Exist ip (blacklist s) \<and> \<not> min (score s ip + 50) 500 \<le> REPTHRESHOLD
          then Blacklist_Remove ip (blacklist s) else blacklist s)"
    by (simp_all add: AwardNode_def Let_def upd new)
  have "int32 (min (score s ip + 50) 500 - 1200)" using le by (auto simp: int32_def min_def)
  then show "scores_ok (AwardNode M ip s)" using ok by (simp add: scores_ok_def score UPPERREPTHRESHOLD_def)
qed

lemma PunishNode_agrees:
  assumes M: "safemath_ok M" and ok: "scores_ok s" and r: "penalty \<le> 0" "int32 (score s i + penalty - 2400)"
    and ag: "agrees ip s"
  shows "agrees ip (PunishNode M i penalty s)"
proof -
  note res = PunishNode_result [OF M ok r]
  have "score s i \<le> 500" using ok by (simp add: scores_ok_def score_defs)
  then have "score s i \<le> -500 \<longrightarrow> updated (score s i) penalty \<le> -500" using r(1) by (auto simp: updated_def score_defs)
  then show ?thesis using ag by (auto simp: agrees_def res(1,2) Blacklist_Exist_def Blacklist_Add_def score_defs)
qed

lemma AwardNode_agrees:
  "safemath_ok M \<Longrightarrow> scores_ok s \<Longrightarrow> agrees ip s \<Longrightarrow> agrees ip (AwardNode M i s)"
  by (auto simp: agrees_def AwardNode_result(1,2) Blacklist_Exist_def Blacklist_Remove_def score_defs)

section \<open>Properties\<close>

text \<open>What can happen to the two singletons: every operation of either class that changes it, in any order. The
  reputation manager punishes, awards and adds nodes and is cleared; the rest of the node adds to, removes
  from, pops, clears, switches and excludes from the blacklist directly.\<close>

datatype reputation_event =
    Punish nat int | AwardAll "nat list" | AddNode nat | ClearReputations
  | ListAdd nat | ListRemove nat | ListClear | ListPop "nat list" nat | ListEnable bool
  | ListExclude nat | ListRemoveExclude nat

definition on_blacklist :: "(Blacklist \<Rightarrow> Blacklist) \<Rightarrow> ReputationManager \<Rightarrow> ReputationManager" where
  "on_blacklist f s = s\<lparr>blacklist := f (blacklist s)\<rparr>"

definition reputation_handle :: "safemath \<Rightarrow> reputation_event \<Rightarrow> ReputationManager \<Rightarrow> ReputationManager option" where
  "reputation_handle M e s =
     Some (case e of
             Punish ip penalty \<Rightarrow> PunishNode M ip penalty s
           | AwardAll ips \<Rightarrow> AwardAllNodes M ips s
           | AddNode ip \<Rightarrow> AddNodeIfNotKnown ip s
           | ClearReputations \<Rightarrow> ReputationManager_Clear s
           | ListAdd ip \<Rightarrow> on_blacklist (Blacklist_Add ip) s
           | ListRemove ip \<Rightarrow> on_blacklist (Blacklist_Remove ip) s
           | ListClear \<Rightarrow> on_blacklist Blacklist_Clear s
           | ListPop order n \<Rightarrow> on_blacklist (Blacklist_Pop order n) s
           | ListEnable b \<Rightarrow> on_blacklist (Blacklist_Enable b) s
           | ListExclude ip \<Rightarrow> on_blacklist (snd \<circ> Blacklist_Exclude ip) s
           | ListRemoveExclude ip \<Rightarrow> on_blacklist (snd \<circ> Blacklist_RemoveExclude ip) s)"

text \<open>Penalties are not positive, as in \<open>PenaltyType\<close>, and no score comes within 2400 of the smallest 32-bit
  integer; all known nodes are awarded.\<close>

fun reputation_admissible :: "ReputationManager \<Rightarrow> reputation_event \<Rightarrow> bool" where
  "reputation_admissible s (Punish ip penalty) = (penalty \<le> 0 \<and> int32 (score s ip + penalty - 2400))"
| "reputation_admissible s (AwardAll ips) = GetAllKnownIP ips s"
| "reputation_admissible s e = True"

text \<open>The events that change the entry of an address behind the back of its score, or its score without its
  entry.\<close>

fun interferes :: "nat \<Rightarrow> reputation_event \<Rightarrow> bool" where
  "interferes ip (Punish i penalty) = False"
| "interferes ip (AwardAll ips) = False"
| "interferes ip (AddNode i) = False"
| "interferes ip ClearReputations = True"
| "interferes ip (ListAdd i) = (i = ip)"
| "interferes ip (ListRemove i) = (i = ip)"
| "interferes ip ListClear = True"
| "interferes ip (ListPop order n) = (ip \<in> set (take n order))"
| "interferes ip (ListEnable b) = (\<not> b)"
| "interferes ip (ListExclude i) = (i = ip)"
| "interferes ip (ListRemoveExclude i) = False"

definition reputation_safe :: "safemath \<Rightarrow> ReputationManager \<Rightarrow> bool" where
  "reputation_safe M s \<longleftrightarrow> safemath_ok M \<and> scores_ok s"

lemma AwardAllNodes_result:
  assumes "safemath_ok M"
  shows "scores_ok s \<Longrightarrow> distinct ips \<Longrightarrow>
    scores_ok (AwardAllNodes M ips s) \<and> (agrees ip s \<longrightarrow> agrees ip (AwardAllNodes M ips s))
    \<and> (\<forall>ip. score (AwardAllNodes M ips s) ip = (if ip \<in> set ips then min (score s ip + 50) 500 else score s ip))"
proof (induction ips arbitrary: s)
  case (Cons i ips)
  note award = AwardNode_result [OF assms Cons.prems(1), of i]
  from Cons.IH [OF award(3)] show ?case
    using Cons.prems(2) AwardNode_agrees [OF assms Cons.prems(1), of ip i] by (auto simp: AwardAllNodes_def award(1))
qed (simp add: AwardAllNodes_def)

lemma pop_loop_keeps: "ip \<notin> set (take (n - c) order) \<Longrightarrow> ip \<in> pop_loop order c n m \<longleftrightarrow> ip \<in> m"
proof (induction order arbitrary: c m)
  case (Cons i order)
  show ?case
  proof (cases "c < n")
    case True
    then have "n - c = Suc (n - (c + 1))" by simp
    then show ?thesis using Cons True by simp
  qed simp
qed simp

lemma reputation_handle_safe:
  assumes "reputation_safe M s" "reputation_admissible s e"
  shows "\<exists>t. reputation_handle M e s = Some t \<and> reputation_safe M t \<and> (\<not> interferes ip e \<and> agrees ip s \<longrightarrow> agrees ip t)"
proof -
  have ok: "safemath_ok M" "scores_ok s" using assms(1) by (simp_all add: reputation_safe_def)
  have list: "scores_ok (on_blacklist f s)" for f using ok(2) by (simp add: scores_ok_def on_blacklist_def)
  have clear: "scores_ok (ReputationManager_Clear s)"
    by (simp add: scores_ok_def ReputationManager_Clear_def score_def score_defs int32_def)
  show ?thesis
  proof (cases e)
    case (Punish i penalty)
    then show ?thesis
      using assms(2) ok PunishNode_result(3) [OF ok] PunishNode_agrees [OF ok] by (simp add: reputation_handle_def reputation_safe_def)
  next
    case (AwardAll ips)
    then show ?thesis
      using assms(2) ok AwardAllNodes_result [OF ok, of ips ip]
      by (simp add: reputation_handle_def reputation_safe_def GetAllKnownIP_def)
  next
    case (ListPop order n)
    then show ?thesis
      using ok list pop_loop_keeps [of ip n 0 order "m_blacklistIP (blacklist s)"]
      by (auto simp: reputation_handle_def reputation_safe_def agrees_def on_blacklist_def Blacklist_Pop_def)
  qed (use ok list clear in \<open>auto simp: reputation_handle_def reputation_safe_def agrees_def scores_ok_def
      on_blacklist_def Blacklist_Add_def Blacklist_Remove_def Blacklist_Enable_def Blacklist_Exclude_def
      Blacklist_RemoveExclude_def\<close>)
qed

text \<open>Two machines with the same handlers: scores stay in range under all events, and the blacklist follows the
  score of an address under the events that do not interfere with it.\<close>

interpretation reputation: event_machine "reputation_safe M" "reputation_handle M" reputation_admissible for M
  by unfold_locales (use reputation_handle_safe in blast)

interpretation ban: event_machine "\<lambda>s. reputation_safe M s \<and> agrees ip s" "reputation_handle M"
  "\<lambda>s e. reputation_admissible s e \<and> \<not> interferes ip e" for M ip
  by unfold_locales (use reputation_handle_safe in blast)

lemma ban_admissible:
  "admissible_run (reputation_handle M) reputation_admissible s es \<Longrightarrow> \<forall>e \<in> set es. \<not> interferes ip e \<Longrightarrow>
   admissible_run (reputation_handle M) (\<lambda>s e. reputation_admissible s e \<and> \<not> interferes ip e) s es"
  by (induction es arbitrary: s) (auto split: option.splits)

lemma reputation_safe_new: "safemath_ok M \<Longrightarrow> reputation_safe M ReputationManager_new \<and> agrees ip ReputationManager_new"
  by (simp add: reputation_safe_def scores_ok_def agrees_def ReputationManager_new_def Blacklist_new_def score_def score_defs int32_def)

text \<open>C40: whatever operations of the reputation manager and of the blacklist are carried out, in any order, no
  score exceeds 500; and an address with whose entry no operation interfered is blacklisted exactly if its
  score is at most -500. The operations that interfere are \<open>ReputationManager::Clear\<close>, which forgets the scores and
  leaves the blacklist, and the direct uses of the blacklist: adding, removing or excluding that address,
  popping it, clearing or disabling the list. Penalties are not positive, as in \<open>PenaltyType\<close>, and no score comes
  within 2400 of the smallest 32-bit integer; all known nodes are awarded.\<close>

theorem blacklist_matches_reputation:
  assumes "safemath_ok M" "admissible_run (reputation_handle M) reputation_admissible ReputationManager_new es"
  shows "\<exists>s. run_events (reputation_handle M) es ReputationManager_new = Some s
    \<and> (\<forall>ip. fst (GetReputation ip s) \<le> UPPERREPTHRESHOLD)
    \<and> (\<forall>ip. (\<forall>e \<in> set es. \<not> interferes ip e) \<longrightarrow> (Blacklist_Exist ip (blacklist s) \<longleftrightarrow> fst (IsNodeBanned ip s)))"
proof -
  note new = reputation_safe_new [OF assms(1)]
  obtain s where s: "run_events (reputation_handle M) es ReputationManager_new = Some s" "reputation_safe M s"
    using reputation.run_safe [OF _ assms(2)] new by blast
  have "Blacklist_Exist ip (blacklist s) \<longleftrightarrow> fst (IsNodeBanned ip s)" if "\<forall>e \<in> set es. \<not> interferes ip e" for ip
    using ban.run_safe [OF new ban_admissible [OF assms(2) that]] s(1) by (auto simp: agrees_def Blacklist_Exist_def)
  then show ?thesis using s by (auto simp: reputation_safe_def scores_ok_def)
qed

definition exact_math :: safemath where
  "exact_math = \<lparr>SafeMath_add = (\<lambda>a b r. if int32 (a + b) then (True, a + b) else (False, r)),
     SafeMath_sub = (\<lambda>a b r. if int32 (a - b) then (True, a - b) else (False, r))\<rparr>"

lemma exact_math_ok: "safemath_ok exact_math"
  by (simp add: safemath_ok_def exact_math_def)

theorem blacklist_matches_reputation_witness:
  "\<exists>s. run_events (reputation_handle exact_math) [Punish 7 (-500), ListAdd 8, ListPop [8] 1] ReputationManager_new = Some s
    \<and> fst (IsNodeBanned 7 s) \<and> Blacklist_Exist 7 (blacklist s)"
proof -
  let ?es = "[Punish 7 (-500), ListAdd 8, ListPop [8] 1]"
  have adm: "admissible_run (reputation_handle exact_math) reputation_admissible ReputationManager_new ?es"
    by (simp add: reputation_handle_def int32_def ReputationManager_new_def score_def GOOD_def)
  have "score (PunishNode exact_math 7 (-500) ReputationManager_new) 7 = -1700"
    using PunishNode_result(1) [OF exact_math_ok, of ReputationManager_new "-500" 7] reputation_safe_new [OF exact_math_ok]
    by (simp add: reputation_safe_def int32_def updated_def score_defs score_def ReputationManager_new_def)
  then have "fst (IsNodeBanned 7 s)" if "run_events (reputation_handle exact_math) ?es ReputationManager_new = Some s" for s
    using that by (auto simp: reputation_handle_def on_blacklist_def score_defs)
  with blacklist_matches_reputation [OF exact_math_ok adm] show ?thesis by fastforce
qed

text \<open>A ban ends. An address in agreement with its score v that is not punished any more is still blacklisted after
  k rounds of awards to all known addresses exactly if v + 50 k is at most -500.\<close>

lemma ban_ends:
  assumes M: "reputation_safe M s" "agrees ip s" and known: "GetAllKnownIP ips s" and ip: "ip \<in> set ips"
  shows "Blacklist_Exist ip (blacklist ((AwardAllNodes M ips ^^ k) s)) \<longleftrightarrow> fst (GetReputation ip s) + 50 * int k \<le> REPTHRESHOLD"
proof -
  have d: "distinct ips" using known by (simp add: GetAllKnownIP_def)
  have "reputation_safe M ((AwardAllNodes M ips ^^ k) s) \<and> agrees ip ((AwardAllNodes M ips ^^ k) s)
      \<and> score ((AwardAllNodes M ips ^^ k) s) ip = min (score s ip + 50 * int k) 500"
  proof (induction k)
    case 0
    then show ?case using M by (simp add: reputation_safe_def scores_ok_def score_defs)
  next
    case (Suc k)
    then have "safemath_ok M" "scores_ok ((AwardAllNodes M ips ^^ k) s)" by (simp_all add: reputation_safe_def)
    from AwardAllNodes_result [OF this d, of ip] show ?case using Suc ip by (auto simp: reputation_safe_def)
  qed
  then show ?thesis by (auto simp: agrees_def Blacklist_Exist_def score_defs)
qed

end
