(* ===== verification/Rumor.thy ===== *)
theory Rumor
  imports Prelude "HOL-Library.AList"
begin

text \<open>
  Gossip: \<open>libRumorSpreading/RumorStateMachine.cpp\<close> and \<open>RumorHolder.cpp\<close>, an implementation of
  randomised rumor spreading. A rumor is \<open>NEW\<close> (state B of the paper), then \<open>KNOWN\<close> (state C), then
  \<open>OLD\<close>. The lemmas show that the counters stay in bounds whatever peers send, that no round meets a
  rumor in an unexpected state, and that every rumor is old after a bounded number of rounds.

  Unordered containers are lists in order of insertion; the order in which the C++ containers are
  traversed is not specified, and the statements do not depend on it. \<open>draw k\<close> is the \<open>k\<close>-th member
  that \<open>m_nextMemberCb\<close> or \<open>chooseRandomMember\<close> returns. A C++ \<open>int\<close> is an \<open>int\<close>: the bounds shown
  below keep the counters far from its limits.
\<close>

section \<open>Configuration and messages\<close>

record NetworkConfig =
  m_networkSize :: nat
  m_maxRoundsInB :: int
  m_maxRoundsInC :: int
  m_maxRoundsTotal :: int

text \<open>The default configuration; \<open>magicNumber\<close> is the integer computed from \<open>log(log(n))\<close> and \<open>logSize\<close>
  the one computed from \<open>log(n)\<close>.\<close>

definition NetworkConfig_default :: "int \<Rightarrow> int \<Rightarrow> nat \<Rightarrow> NetworkConfig" where
  "NetworkConfig_default magicNumber logSize numOfPeers =
     \<lparr>m_networkSize = numOfPeers, m_maxRoundsInB = max 1 magicNumber, m_maxRoundsInC = max 1 magicNumber,
      m_maxRoundsTotal = logSize\<rparr>"

definition NetworkConfig_new :: "nat \<Rightarrow> int \<Rightarrow> int \<Rightarrow> int \<Rightarrow> NetworkConfig" where
  "NetworkConfig_new networkSize maxRoundsInB maxRoundsInC maxRoundsTotal =
     \<lparr>m_networkSize = networkSize, m_maxRoundsInB = maxRoundsInB, m_maxRoundsInC = maxRoundsInC,
      m_maxRoundsTotal = maxRoundsTotal\<rparr>"

datatype MessageType = UNDEFINED | PUSH | PULL | EMPTY_PUSH | EMPTY_PULL | FORWARD | LAZY_PUSH | LAZY_PULL

record Message =
  m_type :: MessageType
  m_rumorId :: int
  msg_rounds :: int

definition Message_new :: "MessageType \<Rightarrow> int \<Rightarrow> int \<Rightarrow> Message" where
  "Message_new t rumorId rounds = \<lparr>m_type = t, m_rumorId = rumorId, msg_rounds = rounds\<rparr>"

section \<open>State machine of one rumor\<close>

datatype RumorState = UNKNOWN | NEW | KNOWN | OLD | NUM_STATES

record RumorStateMachine =
  rumor_state :: RumorState
  m_rounds :: int
  m_roundsInB :: int
  m_roundsInC :: int
  m_memberRounds :: "(int \<times> int) list"

definition isOld :: "RumorStateMachine \<Rightarrow> bool" where
  "isOld m \<longleftrightarrow> rumor_state m = OLD"

definition advanceToOld :: "RumorStateMachine \<Rightarrow> RumorStateMachine" where
  "advanceToOld m = m\<lparr>rumor_state := OLD, m_memberRounds := []\<rparr>"

definition advanceFromKnown :: "NetworkConfig \<Rightarrow> RumorStateMachine \<Rightarrow> RumorStateMachine" where
  "advanceFromKnown N m =
     (let m1 = m\<lparr>m_roundsInC := m_roundsInC m + 1, rumor_state := KNOWN\<rparr>
      in if m_rounds m1 > m_maxRoundsTotal N \<or> m_roundsInC m1 > m_maxRoundsInC N
         then advanceToOld (m1\<lparr>m_roundsInC := m_roundsInC m1 - 1, m_rounds := m_rounds m1 - 1\<rparr>)
         else m1)"

text \<open>The loop that enters silent members with round 0.\<close>

fun add_members :: "int list \<Rightarrow> (int \<times> int) list \<Rightarrow> (int \<times> int) list" where
  "add_members [] rs = rs"
| "add_members (i # is) rs = add_members is (if map_of rs i = None then rs @ [(i, 0)] else rs)"

text \<open>The loop that compares with the rounds of the others: \<open>numLess\<close>, \<open>numGreaterOrEqual\<close> and the state.\<close>

fun compare_rounds ::
    "NetworkConfig \<Rightarrow> int \<Rightarrow> (int \<times> int) list \<Rightarrow> int \<times> int \<times> RumorState \<Rightarrow> int \<times> int \<times> RumorState" where
  "compare_rounds N rounds [] acc = acc"
| "compare_rounds N rounds ((member, theirRound) # rs) (numLess, numGreaterOrEqual, st) =
     compare_rounds N rounds rs
       (if theirRound < rounds then (numLess + 1, numGreaterOrEqual, st)
        else if theirRound > m_maxRoundsInB N then (numLess, numGreaterOrEqual, KNOWN)
        else (numLess, numGreaterOrEqual + 1, st))"

definition advanceFromNew :: "NetworkConfig \<Rightarrow> int list \<Rightarrow> RumorStateMachine \<Rightarrow> RumorStateMachine" where
  "advanceFromNew N membersInRound m =
     (let m1 = m\<lparr>m_roundsInB := m_roundsInB m + 1\<rparr>
      in if m_rounds m1 > m_maxRoundsTotal N
         then advanceToOld (m1\<lparr>m_rounds := m_rounds m1 - 1\<rparr>)
         else
           case compare_rounds N (m_rounds m1) (add_members membersInRound (m_memberRounds m1))
                  (0, 0, rumor_state m1) of
             (numLess, numGreaterOrEqual, st) \<Rightarrow>
               let inB = (if numGreaterOrEqual > numLess then m_roundsInB m1 + 1 else m_roundsInB m1);
                   st' = (if inB > m_maxRoundsInB N then KNOWN else st)
               in if st' = KNOWN
                  then m1\<lparr>rumor_state := KNOWN, m_roundsInC := m_roundsInC m1 + 1, m_roundsInB := inB - 1,
                          m_memberRounds := []\<rparr>
                  else m1\<lparr>rumor_state := st', m_roundsInB := inB, m_memberRounds := []\<rparr>)"

definition RumorStateMachine_new :: RumorStateMachine where
  "RumorStateMachine_new =
     \<lparr>rumor_state = NEW, m_rounds = 0, m_roundsInB = 0, m_roundsInC = 0, m_memberRounds = []\<rparr>"

definition RumorStateMachine_received :: "NetworkConfig \<Rightarrow> int \<Rightarrow> int \<Rightarrow> RumorStateMachine" where
  "RumorStateMachine_received N fromMember theirRound =
     (let m = RumorStateMachine_new
      in if theirRound > m_maxRoundsTotal N then advanceToOld m
         else if theirRound > m_maxRoundsInB N then advanceFromKnown N m
         else m\<lparr>m_memberRounds := [(fromMember, theirRound)]\<rparr>)"

text \<open>\<open>operator[]\<close> enters a member that is not there yet with round 0.\<close>

definition rumorReceived :: "int \<Rightarrow> int \<Rightarrow> RumorStateMachine \<Rightarrow> RumorStateMachine" where
  "rumorReceived memberId theirRound m =
     (if rumor_state m = NEW then
        let rs = add_members [memberId] (m_memberRounds m)
        in if the (map_of rs memberId) < theirRound
           then m\<lparr>m_memberRounds := AList.update memberId theirRound rs\<rparr>
           else m\<lparr>m_memberRounds := rs\<rparr>
      else m)"

text \<open>\<open>None\<close> is the exception for an unexpected state.\<close>

definition RumorStateMachine_advanceRound :: "NetworkConfig \<Rightarrow> int list \<Rightarrow> RumorStateMachine \<Rightarrow> RumorStateMachine option" where
  "RumorStateMachine_advanceRound N peersInCurrentRound m =
     (let m1 = m\<lparr>m_rounds := m_rounds m + 1\<rparr>
      in case rumor_state m1 of
           NEW \<Rightarrow> Some (advanceFromNew N peersInCurrentRound m1)
         | KNOWN \<Rightarrow> Some (advanceFromKnown N m1)
         | OLD \<Rightarrow> Some m1
         | _ \<Rightarrow> None)"

section \<open>Counters of one rumor\<close>

definition machine_ok :: "NetworkConfig \<Rightarrow> RumorStateMachine \<Rightarrow> bool" where
  "machine_ok N m \<longleftrightarrow>
     rumor_state m \<in> {NEW, KNOWN, OLD}
     \<and> (rumor_state m = NEW \<longrightarrow> m_roundsInC m = 0 \<and> m_roundsInB m \<le> m_maxRoundsInB N)
     \<and> (rumor_state m \<noteq> OLD \<longrightarrow> 0 \<le> m_rounds m)
     \<and> -1 \<le> m_rounds m \<and> m_rounds m \<le> max 0 (m_maxRoundsTotal N)
     \<and> 0 \<le> m_roundsInB m \<and> m_roundsInB m \<le> m_maxRoundsInB N + 1
     \<and> 0 \<le> m_roundsInC m \<and> m_roundsInC m \<le> max 1 (m_maxRoundsInC N)"

text \<open>How many rounds a rumor can still last.\<close>

definition lifetime :: "NetworkConfig \<Rightarrow> RumorStateMachine \<Rightarrow> nat" where
  "lifetime N m =
     (case rumor_state m of
        NEW \<Rightarrow> Suc (nat (min (m_maxRoundsTotal N - m_rounds m)
                            (m_maxRoundsInB N - m_roundsInB m + max 1 (m_maxRoundsInC N))))
      | KNOWN \<Rightarrow> Suc (nat (min (m_maxRoundsTotal N - m_rounds m) (m_maxRoundsInC N - m_roundsInC m)))
      | _ \<Rightarrow> 0)"

lemma lifetime_0_iff: "machine_ok N m \<Longrightarrow> lifetime N m = 0 \<longleftrightarrow> isOld m"
  by (auto simp: machine_ok_def lifetime_def isOld_def)

lemma lifetime_bound:
  assumes "machine_ok N m" "0 \<le> m_maxRoundsInB N"
  shows "lifetime N m \<le> Suc (nat (min (m_maxRoundsTotal N) (m_maxRoundsInB N + max 1 (m_maxRoundsInC N))))"
  using assms by (auto simp: lifetime_def machine_ok_def intro!: nat_mono)

lemma compare_rounds_state: "snd (snd (compare_rounds N r rs acc)) \<in> {snd (snd acc), KNOWN}"
proof (induction rs arbitrary: acc)
  case (Cons e rs)
  obtain i j where "e = (i, j)" by (cases e)
  moreover obtain a b st where "acc = (a, b, st)" by (cases acc)
  ultimately show ?case
    using Cons.IH [of "if j < r then (a + 1, b, st) else if j > m_maxRoundsInB N then (a, b, KNOWN) else (a, b + 1, st)"]
    by (auto split: if_splits)
qed simp

lemma advanceFromKnown_ok:
  assumes "machine_ok N m" "rumor_state m \<noteq> OLD" "m' = m\<lparr>m_rounds := m_rounds m + 1\<rparr>" "rumor_state m = KNOWN"
  shows "machine_ok N (advanceFromKnown N m') \<and> lifetime N (advanceFromKnown N m') < lifetime N m"
  using assms by (auto simp: machine_ok_def lifetime_def advanceFromKnown_def advanceToOld_def Let_def)

lemma advanceFromNew_ok:
  assumes "machine_ok N m" "0 \<le> m_maxRoundsInB N" "m' = m\<lparr>m_rounds := m_rounds m + 1\<rparr>" "rumor_state m = NEW"
  shows "machine_ok N (advanceFromNew N ids m') \<and> lifetime N (advanceFromNew N ids m') < lifetime N m"
proof -
  obtain a b st where cmp: "compare_rounds N (m_rounds m + 1) (add_members ids (m_memberRounds m)) (0, 0, NEW) = (a, b, st)"
    by (metis prod_cases3)
  then have "st = NEW \<or> st = KNOWN"
    using compare_rounds_state [of N "m_rounds m + 1" "add_members ids (m_memberRounds m)" "(0, 0, NEW)"] by auto
  then show ?thesis
    using assms cmp by (auto simp: machine_ok_def lifetime_def advanceFromNew_def advanceToOld_def Let_def)
qed

lemma advanceRound_ok:
  assumes "machine_ok N m" "0 \<le> m_maxRoundsInB N" "\<not> isOld m"
  obtains m' where "RumorStateMachine_advanceRound N ids m = Some m'" "machine_ok N m'" "lifetime N m' < lifetime N m"
proof -
  have "rumor_state m = NEW \<or> rumor_state m = KNOWN" using assms by (auto simp: machine_ok_def isOld_def)
  then show ?thesis
    using that advanceFromNew_ok [OF assms(1,2) refl] advanceFromKnown_ok [OF assms(1) _ refl]
    by (auto simp: RumorStateMachine_advanceRound_def Let_def)
qed

lemma rumorReceived_ok [simp]:
  "machine_ok N (rumorReceived i r m) = machine_ok N m" "lifetime N (rumorReceived i r m) = lifetime N m"
  by (auto simp: rumorReceived_def machine_ok_def lifetime_def Let_def)

lemma RumorStateMachine_new_ok: "0 \<le> m_maxRoundsInB N \<Longrightarrow> machine_ok N RumorStateMachine_new"
  by (auto simp: machine_ok_def RumorStateMachine_new_def)

lemma RumorStateMachine_received_ok: "0 \<le> m_maxRoundsInB N \<Longrightarrow> machine_ok N (RumorStateMachine_received N i r)"
  by (auto simp: machine_ok_def RumorStateMachine_received_def RumorStateMachine_new_def advanceToOld_def
      advanceFromKnown_def Let_def)

section \<open>Holder of the rumors\<close>

datatype StatisticKey =
    NumPeers | NumMessagesReceived | Rounds | NumLazyPushMessages | NumEmptyPushMessages
  | NumLazyPullMessages | NumEmptyPullMessages

record RumorHolder =
  m_id :: int
  m_networkConfig :: NetworkConfig
  m_peers :: "int list"
  m_peersInCurrentRound :: "int list"
  m_rumors :: "(int \<times> RumorStateMachine) list"
  m_nonPriorityPeers :: "int list"
  m_statistics :: "StatisticKey \<Rightarrow> int option"
  m_maxNeighborsPerRound :: int

text \<open>The statistics are doubles that only ever hold whole numbers.\<close>

definition increaseStatValue :: "StatisticKey \<Rightarrow> int \<Rightarrow> RumorHolder \<Rightarrow> RumorHolder" where
  "increaseStatValue key v H =
     H\<lparr>m_statistics := (m_statistics H)(key \<mapsto>
          (case m_statistics H key of None \<Rightarrow> v | Some old \<Rightarrow> old + v))\<rparr>"

definition toVector :: "int list \<Rightarrow> RumorHolder \<Rightarrow> RumorHolder" where
  "toVector peers H =
     increaseStatValue NumPeers (int (sub64 (length peers) 1))
       (H\<lparr>m_peers := m_peers H @ filter (\<lambda>p. p \<noteq> m_id H) peers\<rparr>)"

definition RumorHolder_empty :: "NetworkConfig \<Rightarrow> int \<Rightarrow> int \<Rightarrow> RumorHolder" where
  "RumorHolder_empty N maxNeighbors ident =
     \<lparr>m_id = ident, m_networkConfig = N, m_peers = [], m_peersInCurrentRound = [], m_rumors = [],
      m_nonPriorityPeers = [], m_statistics = (\<lambda>_. None), m_maxNeighborsPerRound = maxNeighbors\<rparr>"

text \<open>The constructors: default configuration, given configuration, custom rounds. The last one caps its
  parameter \<open>maxNeighborsPerRound\<close> after the member has been initialised, which has no effect.\<close>

definition RumorHolder_new :: "int \<Rightarrow> int \<Rightarrow> int list \<Rightarrow> int \<Rightarrow> RumorHolder" where
  "RumorHolder_new magicNumber logSize peers ident =
     toVector peers (RumorHolder_empty (NetworkConfig_default magicNumber logSize (length peers)) 1 ident)"

definition RumorHolder_config :: "int list \<Rightarrow> NetworkConfig \<Rightarrow> int \<Rightarrow> RumorHolder" where
  "RumorHolder_config peers networkConfig ident =
     (if m_networkSize networkConfig \<noteq> length peers then RumorHolder_empty networkConfig 1 ident
      else toVector peers (RumorHolder_empty networkConfig 1 ident))"

definition RumorHolder_custom :: "int list \<Rightarrow> int \<Rightarrow> int \<Rightarrow> int \<Rightarrow> int \<Rightarrow> int \<Rightarrow> RumorHolder" where
  "RumorHolder_custom peers maxRoundsInB maxRoundsInC maxTotalRounds maxNeighborsPerRound ident =
     toVector peers
       (RumorHolder_empty (NetworkConfig_new (length peers) maxRoundsInB maxRoundsInC maxTotalRounds)
          maxNeighborsPerRound ident)"

definition rumorExists :: "RumorHolder \<Rightarrow> int \<Rightarrow> bool" where
  "rumorExists H rumorId \<longleftrightarrow> map_of (m_rumors H) rumorId \<noteq> None"

definition addRumor :: "int \<Rightarrow> RumorHolder \<Rightarrow> bool \<times> RumorHolder" where
  "addRumor rumorId H =
     (if rumorExists H rumorId then (False, H)
      else (True, H\<lparr>m_rumors := m_rumors H @ [(rumorId, RumorStateMachine_new)]\<rparr>))"

text \<open>The answer to the first push of a peer in a round.\<close>

definition pull_messages :: "RumorHolder \<Rightarrow> Message list" where
  "pull_messages H =
     map (\<lambda>(i, m). Message_new LAZY_PULL i (m_rounds m))
       (filter (\<lambda>(i, m). m_rounds m > 0 \<and> \<not> isOld m) (m_rumors H))"

definition answer_push :: "int \<Rightarrow> RumorHolder \<Rightarrow> Message list \<times> RumorHolder" where
  "answer_push fromPeer H =
     (let pulls = pull_messages H
      in if pulls = []
         then ([Message_new EMPTY_PULL (-1) 0], increaseStatValue NumEmptyPullMessages 1 H)
         else (pulls,
               let H' = increaseStatValue NumLazyPullMessages (int (length pulls)) H
               in H'\<lparr>m_nonPriorityPeers := List.insert fromPeer (m_nonPriorityPeers H')\<rparr>))"

definition take_rumor :: "Message \<Rightarrow> int \<Rightarrow> RumorHolder \<Rightarrow> RumorHolder" where
  "take_rumor message fromPeer H =
     (if m_rumorId message \<ge> 0 then
        if rumorExists H (m_rumorId message)
        then H\<lparr>m_rumors := AList.map_entry (m_rumorId message) (rumorReceived fromPeer (msg_rounds message)) (m_rumors H)\<rparr>
        else H\<lparr>m_rumors := m_rumors H @
                 [(m_rumorId message, RumorStateMachine_received (m_networkConfig H) fromPeer (msg_rounds message))]\<rparr>
      else H)"

text \<open>\<open>respond\<close> is the configuration constant \<open>SEND_RESPONSE_FOR_LAZY_PUSH\<close>.\<close>

definition receivedMessage :: "bool \<Rightarrow> Message \<Rightarrow> int \<Rightarrow> RumorHolder \<Rightarrow> (int \<times> Message list) \<times> RumorHolder" where
  "receivedMessage respond message fromPeer H =
     (let isNewPeer = (fromPeer \<notin> set (m_peersInCurrentRound H));
          H1 = increaseStatValue NumMessagesReceived 1
                 (H\<lparr>m_peersInCurrentRound := List.insert fromPeer (m_peersInCurrentRound H)\<rparr>);
          (pulls, H2) = (if isNewPeer \<and> (m_type message = LAZY_PUSH \<and> respond \<or> m_type message = EMPTY_PUSH)
                         then answer_push fromPeer H1 else ([], H1))
      in ((fromPeer, pulls), take_rumor message fromPeer H2))"

subsection \<open>A round\<close>

definition MAX_RETRY :: int where
  "MAX_RETRY = 3"

text \<open>The loop that draws members: \<open>toMembers\<close> also serves as the set \<open>tmp\<close> of members already found.\<close>

function pick_members ::
    "(nat \<Rightarrow> int) \<Rightarrow> int list \<Rightarrow> int \<Rightarrow> int \<Rightarrow> nat \<Rightarrow> int \<Rightarrow> int \<Rightarrow> int list \<Rightarrow> int \<times> int list" where
  "pick_members draw nonPriority maxNeighbors maxRetry k neighborC retryCount toMembers =
     (if neighborC < maxNeighbors \<and> retryCount < maxRetry then
        let toMember = draw k
        in if toMember \<notin> set toMembers \<and> toMember \<notin> set nonPriority
           then pick_members draw nonPriority maxNeighbors maxRetry (k + 1) (neighborC + 1) 0 (toMembers @ [toMember])
           else pick_members draw nonPriority maxNeighbors maxRetry (k + 1) neighborC (retryCount + 1) toMembers
      else (neighborC, toMembers))"
  by pat_completeness auto

termination pick_members
  by (relation "measures [\<lambda>(draw, np, maxN, maxR, k, n, r, ms). nat (maxN - n),
        \<lambda>(draw, np, maxN, maxR, k, n, r, ms). nat (maxR - r)]") (auto simp: Let_def)

fun add_nonPriority :: "int \<Rightarrow> int list \<Rightarrow> int \<Rightarrow> int list \<Rightarrow> int list" where
  "add_nonPriority maxNeighbors [] neighborC toMembers = toMembers"
| "add_nonPriority maxNeighbors (i # is) neighborC toMembers =
     (if neighborC < maxNeighbors then add_nonPriority maxNeighbors is (neighborC + 1) (toMembers @ [i])
      else toMembers)"

definition choose_members :: "(nat \<Rightarrow> int) \<Rightarrow> RumorHolder \<Rightarrow> int list" where
  "choose_members draw H =
     (let maxN = m_maxNeighborsPerRound H;
          priorityPeers = int (length (m_peers H)) - int (length (m_nonPriorityPeers H));
          np = (if priorityPeers < maxN then [] else m_nonPriorityPeers H);
          maxRetry0 = int (length (m_peers H)) - maxN;
          maxRetry = (if maxRetry0 < MAX_RETRY then MAX_RETRY else maxRetry0);
          (neighborC, toMembers) = pick_members draw np maxN maxRetry 0 0 0 []
      in if neighborC < maxN then add_nonPriority maxN np neighborC toMembers else toMembers)"

fun push_rumors ::
    "NetworkConfig \<Rightarrow> int list \<Rightarrow> (int \<times> RumorStateMachine) list
     \<Rightarrow> ((int \<times> RumorStateMachine) list \<times> Message list) option" where
  "push_rumors N ids [] = Some ([], [])"
| "push_rumors N ids ((i, m) # rs) =
     (if isOld m then do {
        (rs', msgs) \<leftarrow> push_rumors N ids rs;
        Some ((i, m) # rs', msgs) }
      else do {
        m' \<leftarrow> RumorStateMachine_advanceRound N ids m;
        (rs', msgs) \<leftarrow> push_rumors N ids rs;
        Some ((i, m') # rs', if isOld m' then msgs else Message_new LAZY_PUSH i (m_rounds m') # msgs) })"

definition RumorHolder_advanceRound ::
    "(nat \<Rightarrow> int) \<Rightarrow> RumorHolder \<Rightarrow> ((int list \<times> Message list) \<times> RumorHolder) option" where
  "RumorHolder_advanceRound draw H =
     (if m_peers H = []
      then Some (([-1], []), H\<lparr>m_nonPriorityPeers := [], m_peersInCurrentRound := []\<rparr>)
      else do {
        let H1 = increaseStatValue Rounds 1 H;
        let toMembers = choose_members draw H1;
        (rumors, pushes) \<leftarrow> push_rumors (m_networkConfig H1) (m_peersInCurrentRound H1) (m_rumors H1);
        let H2 = increaseStatValue NumLazyPushMessages (int (length pushes))
                   (H1\<lparr>m_nonPriorityPeers := [], m_rumors := rumors\<rparr>);
        let (msgs, H3) = (if pushes = []
                          then ([Message_new EMPTY_PUSH (-1) 0], increaseStatValue NumEmptyPushMessages 1 H2)
                          else (pushes, H2));
        Some ((toMembers, msgs), H3\<lparr>m_peersInCurrentRound := []\<rparr>) })"

section \<open>Which members a round addresses\<close>

declare pick_members.simps [simp del]

lemma pick_members_result:
  assumes "pick_members draw np maxN maxR k n r ms = (n', ms')"
    "distinct ms" "set ms \<inter> set np = {}" "n = int (length ms)" "n \<le> max 0 maxN"
  shows "distinct ms' \<and> set ms' \<inter> set np = {} \<and> n' = int (length ms') \<and> n' \<le> max 0 maxN
    \<and> set ms' \<subseteq> set ms \<union> range draw"
  using assms
proof (induction draw np maxN maxR k n r ms arbitrary: n' ms' rule: pick_members.induct)
  case (1 draw np maxN maxR k n r ms)
  show ?case
  proof (cases "n < maxN \<and> r < maxR")
    case False
    then have "n' = n" "ms' = ms" using 1(3) by (subst (asm) pick_members.simps, auto)+
    then show ?thesis using 1(4-) by simp
  next
    case True
    have eq: "pick_members draw np maxN maxR k n r ms =
        (if draw k \<notin> set ms \<and> draw k \<notin> set np
         then pick_members draw np maxN maxR (k + 1) (n + 1) 0 (ms @ [draw k])
         else pick_members draw np maxN maxR (k + 1) n (r + 1) ms)"
      using True by (subst pick_members.simps) (simp add: Let_def)
    show ?thesis
    proof (cases "draw k \<notin> set ms \<and> draw k \<notin> set np")
      case fresh: True
      then have "pick_members draw np maxN maxR (k + 1) (n + 1) 0 (ms @ [draw k]) = (n', ms')"
        using 1(3) eq by simp
      from 1(1) [OF True refl fresh this] show ?thesis using 1(4-) fresh True by auto
    next
      case taken: False
      then have "pick_members draw np maxN maxR (k + 1) n (r + 1) ms = (n', ms')" using 1(3) eq by auto
      from 1(2) [OF True refl taken this] show ?thesis using 1(4-) by auto
    qed
  qed
qed

lemma add_nonPriority_result:
  assumes "distinct ms" "distinct np" "set ms \<inter> set np = {}" "n = int (length ms)" "n \<le> maxN"
  shows "distinct (add_nonPriority maxN np n ms) \<and> int (length (add_nonPriority maxN np n ms)) \<le> maxN
    \<and> set (add_nonPriority maxN np n ms) \<subseteq> set ms \<union> set np"
  using assms
proof (induction np arbitrary: n ms)
  case (Cons i np)
  show ?case
  proof (cases "n < maxN")
    case True
    then show ?thesis using Cons.IH [of "ms @ [i]" "n + 1"] Cons.prems by auto
  next
    case False
    then show ?thesis using Cons.prems by auto
  qed
qed simp

section \<open>The holder's invariant\<close>

definition holder_ok :: "RumorHolder \<Rightarrow> bool" where
  "holder_ok H \<longleftrightarrow>
     0 \<le> m_maxRoundsInB (m_networkConfig H) \<and> distinct (m_nonPriorityPeers H) \<and> distinct (map fst (m_rumors H))
     \<and> (\<forall>(i, m) \<in> set (m_rumors H). machine_ok (m_networkConfig H) m)"

lemma increaseStatValue_frame [simp]:
  "m_rumors (increaseStatValue k v H) = m_rumors H" "m_peers (increaseStatValue k v H) = m_peers H"
  "m_networkConfig (increaseStatValue k v H) = m_networkConfig H" "m_id (increaseStatValue k v H) = m_id H"
  "m_peersInCurrentRound (increaseStatValue k v H) = m_peersInCurrentRound H"
  "m_nonPriorityPeers (increaseStatValue k v H) = m_nonPriorityPeers H"
  "m_maxNeighborsPerRound (increaseStatValue k v H) = m_maxNeighborsPerRound H"
  by (simp_all add: increaseStatValue_def)

lemma choose_members_result:
  assumes "distinct (m_nonPriorityPeers H)"
  shows "distinct (choose_members draw H)
    \<and> int (length (choose_members draw H)) \<le> max 0 (m_maxNeighborsPerRound H)
    \<and> set (choose_members draw H) \<subseteq> range draw \<union> set (m_nonPriorityPeers H)"
proof -
  let ?maxN = "m_maxNeighborsPerRound H"
  let ?np = "if int (length (m_peers H)) - int (length (m_nonPriorityPeers H)) < ?maxN then [] else m_nonPriorityPeers H"
  let ?R = "if int (length (m_peers H)) - ?maxN < MAX_RETRY then MAX_RETRY else int (length (m_peers H)) - ?maxN"
  obtain n ms where pick: "pick_members draw ?np ?maxN ?R 0 0 0 [] = (n, ms)" by fastforce
  from pick_members_result [OF this] have ms: "distinct ms" "set ms \<inter> set ?np = {}" "n = int (length ms)"
      "n \<le> max 0 ?maxN" "set ms \<subseteq> range draw" by auto
  have "choose_members draw H = (if n < ?maxN then add_nonPriority ?maxN ?np n ms else ms)"
    using pick by (simp add: choose_members_def Let_def)
  then show ?thesis
    using ms add_nonPriority_result [of ms ?np n ?maxN] assms by (auto split: if_splits)
qed

lemma push_rumors_ok:
  assumes "\<forall>(i, m) \<in> set rs. machine_ok N m" "0 \<le> m_maxRoundsInB N"
  shows "\<exists>rs' msgs. push_rumors N ids rs = Some (rs', msgs) \<and> map fst rs' = map fst rs
    \<and> (\<forall>(i, m) \<in> set rs'. machine_ok N m)
    \<and> (\<forall>i m. map_of rs i = Some m \<longrightarrow>
         (\<exists>m'. map_of rs' i = Some m' \<and> lifetime N m' \<le> lifetime N m - 1))"
  using assms(1)
proof (induction rs)
  case (Cons e rs)
  obtain i m where e: "e = (i, m)" by (cases e)
  have ok: "machine_ok N m" using Cons.prems e by simp
  obtain rs' msgs where rest: "push_rumors N ids rs = Some (rs', msgs)" "map fst rs' = map fst rs"
      "\<forall>(i, m) \<in> set rs'. machine_ok N m"
      "\<forall>i m. map_of rs i = Some m \<longrightarrow> (\<exists>m'. map_of rs' i = Some m' \<and> lifetime N m' \<le> lifetime N m - 1)"
    using Cons by auto
  show ?case
  proof (cases "isOld m")
    case True
    then have "lifetime N m = 0" using lifetime_0_iff [OF ok] by simp
    then show ?thesis using True rest ok e by auto
  next
    case False
    then obtain m' where "RumorStateMachine_advanceRound N ids m = Some m'" "machine_ok N m'" "lifetime N m' < lifetime N m"
      using advanceRound_ok [OF ok assms(2)] by blast
    then show ?thesis using False rest e by auto
  qed
qed simp

subsection \<open>Events\<close>

datatype rumor_event = AddRumor int | ReceivedMessage Message int | AdvanceRound "nat \<Rightarrow> int"

fun rumor_handle :: "bool \<Rightarrow> rumor_event \<Rightarrow> RumorHolder \<Rightarrow> RumorHolder option" where
  "rumor_handle respond (AddRumor i) H = Some (snd (addRumor i H))"
| "rumor_handle respond (ReceivedMessage msg fromPeer) H = Some (snd (receivedMessage respond msg fromPeer H))"
| "rumor_handle respond (AdvanceRound draw) H = map_option snd (RumorHolder_advanceRound draw H)"

fun is_round :: "rumor_event \<Rightarrow> bool" where
  "is_round (AdvanceRound draw) = True"
| "is_round e = False"

lemma addRumor_ok: "holder_ok H \<Longrightarrow> holder_ok (snd (addRumor i H))"
  by (auto simp: holder_ok_def addRumor_def rumorExists_def RumorStateMachine_new_ok map_of_eq_None_iff)

lemma take_rumor_ok:
  assumes "holder_ok H"
  shows "holder_ok (take_rumor msg fromPeer H)"
proof -
  have "machine_ok N m" if "(j, m) \<in> set (AList.map_entry i (rumorReceived a b) rs)" "\<forall>(i, m) \<in> set rs. machine_ok N m"
    for N m i j a b rs
    using that by (induction rs) (auto split: if_splits)
  then show ?thesis
    using assms
    by (auto simp: holder_ok_def take_rumor_def rumorExists_def RumorStateMachine_received_ok map_of_eq_None_iff
        distinct_map_entry)
qed

lemma answer_push_frame [simp]:
  "m_rumors (snd (answer_push i H)) = m_rumors H" "m_networkConfig (snd (answer_push i H)) = m_networkConfig H"
  "m_peers (snd (answer_push i H)) = m_peers H"
  "distinct (m_nonPriorityPeers H) \<Longrightarrow> distinct (m_nonPriorityPeers (snd (answer_push i H)))"
  by (auto simp: answer_push_def Let_def)

lemma receivedMessage_take:
  obtains H' where "snd (receivedMessage respond msg fromPeer H) = take_rumor msg fromPeer H'"
    "m_rumors H' = m_rumors H" "m_networkConfig H' = m_networkConfig H" "m_peers H' = m_peers H"
    "distinct (m_nonPriorityPeers H) \<longrightarrow> distinct (m_nonPriorityPeers H')"
proof -
  let ?H1 = "increaseStatValue NumMessagesReceived 1
      (H\<lparr>m_peersInCurrentRound := List.insert fromPeer (m_peersInCurrentRound H)\<rparr>)"
  have "snd (receivedMessage respond msg fromPeer H)
      = take_rumor msg fromPeer (if fromPeer \<notin> set (m_peersInCurrentRound H)
           \<and> (m_type msg = LAZY_PUSH \<and> respond \<or> m_type msg = EMPTY_PUSH) then snd (answer_push fromPeer ?H1) else ?H1)"
    by (auto simp: receivedMessage_def Let_def split: prod.splits)
  then show ?thesis by (rule that) auto
qed

lemma rumor_handle_safe:
  assumes "holder_ok H"
  shows "\<exists>H'. rumor_handle respond e H = Some H' \<and> holder_ok H' \<and> m_networkConfig H' = m_networkConfig H
    \<and> m_peers H' = m_peers H"
proof (cases e)
  case (AddRumor i)
  then show ?thesis using addRumor_ok [OF assms] by (simp add: addRumor_def)
next
  case (ReceivedMessage msg fromPeer)
  obtain H' where H': "snd (receivedMessage respond msg fromPeer H) = take_rumor msg fromPeer H'"
      "m_rumors H' = m_rumors H" "m_networkConfig H' = m_networkConfig H" "m_peers H' = m_peers H"
      "distinct (m_nonPriorityPeers H) \<longrightarrow> distinct (m_nonPriorityPeers H')"
    by (rule receivedMessage_take)
  then have "holder_ok H'" using assms by (simp add: holder_ok_def)
  from take_rumor_ok [OF this] show ?thesis using ReceivedMessage H' by (simp add: take_rumor_def)
next
  case (AdvanceRound draw)
  obtain rs msgs where "push_rumors (m_networkConfig H) (m_peersInCurrentRound H) (m_rumors H) = Some (rs, msgs)"
      "map fst rs = map fst (m_rumors H)" "\<forall>(i, m) \<in> set rs. machine_ok (m_networkConfig H) m"
    using push_rumors_ok [of "m_rumors H" "m_networkConfig H" "m_peersInCurrentRound H"] assms
    by (auto simp: holder_ok_def)
  then show ?thesis
    using AdvanceRound assms by (auto simp: RumorHolder_advanceRound_def holder_ok_def Let_def)
qed

text \<open>The rounds one rumor has left; \<open>0\<close> when the holder does not have it.\<close>

definition rounds_left :: "int \<Rightarrow> RumorHolder \<Rightarrow> nat" where
  "rounds_left i H = (case map_of (m_rumors H) i of None \<Rightarrow> 0 | Some m \<Rightarrow> lifetime (m_networkConfig H) m)"

definition holds :: "int \<Rightarrow> RumorHolder \<Rightarrow> bool" where
  "holds i H \<longleftrightarrow> holder_ok H \<and> m_peers H \<noteq> [] \<and> rumorExists H i"

lemma rumor_handle_step:
  assumes "holds i H" "rumor_handle respond e H = Some H'"
  shows "rumorExists H' i \<and> rounds_left i H' \<le> rounds_left i H - (if is_round e then 1 else 0)"
proof -
  obtain m where m: "map_of (m_rumors H) i = Some m" using assms(1) by (auto simp: holds_def rumorExists_def)
  show ?thesis
  proof (cases e)
    case (AddRumor j)
    then show ?thesis using assms(2) m by (auto simp: addRumor_def rumorExists_def rounds_left_def map_add_def)
  next
    case (ReceivedMessage msg fromPeer)
    obtain H1 where H1: "snd (receivedMessage respond msg fromPeer H) = take_rumor msg fromPeer H1"
        "m_rumors H1 = m_rumors H" "m_networkConfig H1 = m_networkConfig H" by (rule receivedMessage_take)
    have "H' = take_rumor msg fromPeer H1" using assms(2) ReceivedMessage H1(1) by simp
    then show ?thesis
      using H1(2,3) m ReceivedMessage
      by (auto simp: take_rumor_def rumorExists_def rounds_left_def map_add_def AList.map_of_map_entry split: option.splits)
  next
    case (AdvanceRound draw)
    have ne: "m_peers H \<noteq> []" using assms(1) by (simp add: holds_def)
    obtain rs msgs where push: "push_rumors (m_networkConfig H) (m_peersInCurrentRound H) (m_rumors H) = Some (rs, msgs)"
        "\<forall>i m. map_of (m_rumors H) i = Some m \<longrightarrow>
           (\<exists>m'. map_of rs i = Some m' \<and> lifetime (m_networkConfig H) m' \<le> lifetime (m_networkConfig H) m - 1)"
      using push_rumors_ok [of "m_rumors H" "m_networkConfig H" "m_peersInCurrentRound H"] assms(1)
      by (auto simp: holds_def holder_ok_def)
    obtain H1 where "H' = H1" "m_rumors H1 = rs" "m_networkConfig H1 = m_networkConfig H"
      using assms(2) AdvanceRound push(1) ne by (auto simp: RumorHolder_advanceRound_def Let_def split: if_splits)
    moreover obtain m' where "map_of rs i = Some m'" "lifetime (m_networkConfig H) m' \<le> lifetime (m_networkConfig H) m - 1"
      using push(2) m by blast
    ultimately show ?thesis using AdvanceRound m by (auto simp: rumorExists_def rounds_left_def)
  qed
qed

interpretation rumor: event_machine holder_ok "rumor_handle respond" "\<lambda>_ _. True" for respond
  by unfold_locales (use rumor_handle_safe in blast)

interpretation spreading: ranked_machine "holds i" "rumor_handle respond" "\<lambda>_ _. True" "rounds_left i" is_round
  for i respond
proof
  fix H e
  assume H: "holds i H"
  then obtain H' where "rumor_handle respond e H = Some H'" "holder_ok H'" "m_peers H' = m_peers H"
    using rumor_handle_safe [of H respond e] by (auto simp: holds_def)
  then show "\<exists>H'. rumor_handle respond e H = Some H' \<and> holds i H'"
    using rumor_handle_step [OF H] H by (auto simp: holds_def)
next
  fix H e H'
  assume "holds i H" "rumor_handle respond e H = Some H'"
  then show "rounds_left i H' \<le> rounds_left i H - (if is_round e then 1 else 0)"
    using rumor_handle_step by blast
qed

lemma admissible_always: "admissible_run handle (\<lambda>_ _. True) s es"
  by (induction es arbitrary: s) (auto split: option.splits)

lemma toVector_frame [simp]:
  "m_rumors (toVector ps H) = m_rumors H" "m_networkConfig (toVector ps H) = m_networkConfig H"
  "m_nonPriorityPeers (toVector ps H) = m_nonPriorityPeers H"
  by (simp_all add: toVector_def)

lemma RumorHolder_custom_ok: "0 \<le> B \<Longrightarrow> holder_ok (RumorHolder_custom peers B C T n ident)"
  by (simp add: RumorHolder_custom_def holder_ok_def RumorHolder_empty_def NetworkConfig_new_def)

lemma RumorHolder_new_ok: "holder_ok (RumorHolder_new a b peers ident)"
  by (simp add: RumorHolder_new_def holder_ok_def RumorHolder_empty_def NetworkConfig_default_def)

section \<open>Properties\<close>

text \<open>C25: a rumor does not live forever. Once a node with at least one peer holds a rumor, the rumor is old after
  more than \<open>min T (B + max 1 C)\<close> rounds, where \<open>B\<close>, \<open>C\<close> and \<open>T\<close> are the configured numbers of rounds,
  whatever messages arrive in between and whatever members are drawn; no round throws.\<close>

theorem rumor_dies_out:
  assumes ok: "holder_ok H" and peers: "m_peers H \<noteq> []" and i: "rumorExists H i"
    and rounds: "nat (min (m_maxRoundsTotal (m_networkConfig H))
        (m_maxRoundsInB (m_networkConfig H) + max 1 (m_maxRoundsInC (m_networkConfig H))))
      < length (filter is_round events)"
  shows "\<exists>H' m. run_events (rumor_handle respond) events H = Some H' \<and> map_of (m_rumors H') i = Some m \<and> isOld m"
proof -
  have h: "holds i H" using ok peers i by (simp add: holds_def)
  obtain m where m: "map_of (m_rumors H) i = Some m" using i by (auto simp: rumorExists_def)
  then have "machine_ok (m_networkConfig H) m" "0 \<le> m_maxRoundsInB (m_networkConfig H)"
    using ok by (auto simp: holder_ok_def dest: map_of_SomeD)
  from lifetime_bound [OF this] have "rounds_left i H \<le> length (filter is_round events)"
    using rounds m by (simp add: rounds_left_def)
  then obtain H' where H': "run_events (rumor_handle respond) events H = Some H'" "holds i H'" "rounds_left i H' = 0"
    using spreading.run_rank [OF h admissible_always, of respond events] by auto
  then obtain m' where m': "map_of (m_rumors H') i = Some m'" by (auto simp: holds_def rumorExists_def)
  have "machine_ok (m_networkConfig H') m'" using H'(2) m' by (auto simp: holds_def holder_ok_def dest: map_of_SomeD)
  then have "isOld m'" using H'(3) m' lifetime_0_iff by (auto simp: rounds_left_def)
  then show ?thesis using H'(1) m' by blast
qed

theorem rumor_dies_out_witness:
  "\<exists>H' m. run_events (rumor_handle True) (ReceivedMessage (Message_new LAZY_PUSH 7 1) 2 # replicate 5 (AdvanceRound int))
      (snd (addRumor 7 (RumorHolder_custom [0, 1, 2] 2 2 8 1 0))) = Some H'
    \<and> map_of (m_rumors H') 7 = Some m \<and> isOld m"
proof -
  let ?H = "snd (addRumor 7 (RumorHolder_custom [0, 1, 2] 2 2 8 1 0))"
  have "holder_ok ?H" by (rule addRumor_ok, rule RumorHolder_custom_ok) simp
  moreover have "m_peers ?H \<noteq> []" "rumorExists ?H 7" "m_networkConfig ?H = NetworkConfig_new (length [0, 1, 2 :: int]) 2 2 8"
    by (simp_all add: RumorHolder_custom_def toVector_def RumorHolder_empty_def addRumor_def rumorExists_def
        increaseStatValue_def)
  ultimately show ?thesis
    by (intro rumor_dies_out) (simp_all add: NetworkConfig_new_def)
qed

text \<open>Whatever happens to a node, no operation throws, every rumor is new, known or old, and its counters
  stay within the configured numbers of rounds (the count in state B can be one too high, the total can
  be \<open>-1\<close> for a rumor that was old when it arrived).\<close>

lemma rumor_counters_bounded:
  assumes "0 \<le> B"
  shows "\<exists>H. run_events (rumor_handle respond) events (RumorHolder_custom peers B C T n ident) = Some H
    \<and> distinct (map fst (m_rumors H))
    \<and> (\<forall>(i, m) \<in> set (m_rumors H). rumor_state m \<in> {NEW, KNOWN, OLD}
         \<and> m_rounds m \<in> {-1 .. max 0 T} \<and> m_roundsInB m \<in> {0 .. B + 1} \<and> m_roundsInC m \<in> {0 .. max 1 C})"
proof -
  let ?H = "RumorHolder_custom peers B C T n ident"
  let ?same = "\<lambda>H. holder_ok H \<and> m_networkConfig H = m_networkConfig ?H"
  have "\<exists>H. run_events (rumor_handle respond) events H0 = Some H \<and> ?same H" if "?same H0" for H0
    using that
  proof (induction events arbitrary: H0)
    case (Cons e es)
    then obtain H1 where "rumor_handle respond e H0 = Some H1" "?same H1"
      using rumor_handle_safe [of H0 respond e] by auto
    with Cons.IH show ?case by auto
  qed simp
  then obtain H where "run_events (rumor_handle respond) events ?H = Some H" "?same H"
    using RumorHolder_custom_ok [OF assms] by blast
  then show ?thesis
    by (fastforce simp: holder_ok_def machine_ok_def RumorHolder_custom_def RumorHolder_empty_def NetworkConfig_new_def)
qed

text \<open>the members a round addresses are distinct, at most the configured number, and each of them was drawn or
  is one of the peers answered in this round; the drawing loop ends for every sequence of draws.\<close>

lemma advanceRound_targets:
  assumes "holder_ok H" "m_peers H \<noteq> []" "RumorHolder_advanceRound draw H = Some ((toMembers, messages), H')"
  shows "distinct toMembers \<and> int (length toMembers) \<le> max 0 (m_maxNeighborsPerRound H)
    \<and> set toMembers \<subseteq> range draw \<union> set (m_nonPriorityPeers H) \<and> messages \<noteq> []"
proof -
  have "toMembers = choose_members draw (increaseStatValue Rounds 1 H)" "messages \<noteq> []"
    using assms(2,3) by (auto simp: RumorHolder_advanceRound_def Let_def split: bind_splits if_splits)
  then show ?thesis
    using choose_members_result [of "increaseStatValue Rounds 1 H" draw] assms(1) by (simp add: holder_ok_def)
qed

end
