(* ===== verification/RumorManager.thy ===== *)
theory RumorManager
  imports Schnorr Peer Rumor
begin

text \<open>
  The gossip manager of a node, \<open>libNetwork/RumorManager.cpp\<close>, and the part of
  \<open>libNetwork/P2PComm.cpp\<close> that feeds it. The manager gives every rumor a number, remembers the hash
  announced for it and, once it has been pushed, the message itself; it answers peers that pull a
  message and hands new messages to the dispatcher.

  \<open>boost::bimap\<close> is a list of pairs with distinct left and distinct right parts, whose \<open>insert\<close> fails if
  either part is taken. An iterator into the message bimap, as the deque of timestamps holds it, is
  the pair it points to. \<open>m_sent\<close> lists the messages handed to \<open>P2PComm::SendMessage\<close>, in order. The
  nonces for the signature of the \<open>n\<close>-th message sent are \<open>nonces n\<close>.
\<close>

section \<open>Bidirectional maps\<close>

definition bimap_left :: "('a \<times> 'b) list \<Rightarrow> 'a \<Rightarrow> 'b option" where
  "bimap_left ps a = map_of ps a"

definition bimap_right :: "('a \<times> 'b) list \<Rightarrow> 'b \<Rightarrow> 'a option" where
  "bimap_right ps b = map_of (map prod.swap ps) b"

definition bimap_insert :: "('a \<times> 'b) list \<Rightarrow> 'a \<Rightarrow> 'b \<Rightarrow> bool \<times> ('a \<times> 'b) list" where
  "bimap_insert ps a b =
     (if bimap_left ps a \<noteq> None \<or> bimap_right ps b \<noteq> None then (False, ps) else (True, ps @ [(a, b)]))"

text \<open>Public keys are compared with their \<open>operator<\<close>.\<close>

definition pubkey_bimap_insert ::
    "'pt openssl \<Rightarrow> ('pt PubKey \<times> 'b) list \<Rightarrow> 'pt PubKey \<Rightarrow> 'b \<Rightarrow> ('pt PubKey \<times> 'b) list" where
  "pubkey_bimap_insert B ps a b =
     (if (\<exists>p \<in> set ps. \<not> PubKey_less B a (fst p) \<and> \<not> PubKey_less B (fst p) a) \<or> bimap_right ps b \<noteq> None
      then ps else ps @ [(a, b)])"

definition bimap_erase_right :: "('a \<times> 'b) list \<Rightarrow> 'b \<Rightarrow> ('a \<times> 'b) list" where
  "bimap_erase_right ps b = filter (\<lambda>p. snd p \<noteq> b) ps"

section \<open>State\<close>

record 'pt gossip_env =
  gossip_ossl :: "'pt openssl"
  P2PComm_selfKey :: "PrivKey \<times> 'pt PubKey"
  SIGN_VERIFY_EMPTY_MSGTYP :: bool
  SIGN_VERIFY_NONEMPTY_MSGTYP :: bool
  SEND_RESPONSE_FOR_LAZY_PUSH :: bool
  GOSSIP_CUSTOM_ROUNDS_SETTINGS :: bool
  MAX_GOSSIP_MSG_SIZE_IN_BYTES :: nat
  MAX_ROUNDS_IN_BSTATE :: nat
  MAX_ROUNDS_IN_CSTATE :: nat
  MAX_TOTAL_ROUNDS :: nat
  MAX_NEIGHBORS_PER_ROUND :: nat
  KEEP_RAWMSG_FROM_LAST_N_ROUNDS :: nat
  ROUND_TIME_IN_MS :: nat
  ceil_log_log :: "nat \<Rightarrow> int"
  ceil_log :: "nat \<Rightarrow> int"

text \<open>\<open>m_threads\<close> lists the threads of \<open>StartRounds\<close>: whether the thread has entered its loop, and its
  local counter \<open>rounds\<close>.\<close>

record 'pt RumorManager =
  m_rumorHolder :: "RumorHolder option"
  m_peerIdPeerBimap :: "(int \<times> Peer) list"
  m_pubKeyPeerBiMap :: "('pt PubKey \<times> Peer) list"
  m_peerIdSet :: "int list"
  m_rumorIdHashBimap :: "(int \<times> bytes) list"
  m_rumorHashRawMsgBimap :: "(bytes \<times> bytes) list"
  m_hashesSubscriberMap :: "(bytes \<times> Peer list) list"
  m_selfPeer :: Peer
  m_selfKey :: "PrivKey \<times> 'pt PubKey"
  m_bufferRawMsg :: "bytes list"
  m_rumorRawMsgTimestamp :: "((bytes \<times> bytes) \<times> int) list"
  m_fullNetworkKeys :: "'pt PubKey list"
  m_rumorIdGenerator :: int
  m_continueRound :: bool
  m_rawMessageExpiryInMs :: int
  m_threads :: "(bool \<times> nat) list"
  m_sent :: "(Peer \<times> bytes) list"

definition RumorManager_new :: "'pt openssl \<Rightarrow> 'pt RumorManager" where
  "RumorManager_new B =
     \<lparr>m_rumorHolder = None, m_peerIdPeerBimap = [], m_pubKeyPeerBiMap = [], m_peerIdSet = [],
      m_rumorIdHashBimap = [], m_rumorHashRawMsgBimap = [], m_hashesSubscriberMap = [],
      m_selfPeer = Peer_default, m_selfKey = (0, PubKey_default B), m_bufferRawMsg = [],
      m_rumorRawMsgTimestamp = [], m_fullNetworkKeys = [], m_rumorIdGenerator = 0,
      m_continueRound = False, m_rawMessageExpiryInMs = 0, m_threads = [], m_sent = []\<rparr>"

text \<open>Conversions to the 32-bit \<open>int\<close> of a message.\<close>

definition s32 :: "int \<Rightarrow> int" where
  "s32 x = (x + 2 ^ 31) mod 2 ^ 32 - 2 ^ 31"

fun type_num :: "MessageType \<Rightarrow> nat" where
  "type_num UNDEFINED = 0"
| "type_num PUSH = 1"
| "type_num PULL = 2"
| "type_num EMPTY_PUSH = 3"
| "type_num EMPTY_PULL = 4"
| "type_num FORWARD = 5"
| "type_num LAZY_PUSH = 6"
| "type_num LAZY_PULL = 7"

definition convertType :: "nat \<Rightarrow> MessageType" where
  "convertType t =
     (if 0 < t \<and> t < 8
      then [UNDEFINED, PUSH, PULL, EMPTY_PUSH, EMPTY_PULL, FORWARD, LAZY_PUSH, LAZY_PULL] ! t
      else UNDEFINED)"

definition BytesToHash :: "'pt openssl \<Rightarrow> bytes \<Rightarrow> bytes" where
  "BytesToHash B vec = SHA2_Finalize B (SHA2_Update SHA2_Reset vec)"

section \<open>Signatures of gossip messages\<close>

text \<open>\<open>P2PComm::SignMessage\<close>; \<open>None\<close> is a signing loop that has used up its draws.\<close>

definition P2PComm_SignMessage :: "'pt gossip_env \<Rightarrow> int option list \<Rightarrow> bytes \<Rightarrow> Signature option" where
  "P2PComm_SignMessage E draws message =
     (case Schnorr_Sign (gossip_ossl E) message (fst (P2PComm_selfKey E)) (snd (P2PComm_selfKey E)) draws of
        SignTrue sig \<Rightarrow> Some sig
      | SignFalse \<Rightarrow> Some Signature_default
      | SignOutOfDraws \<Rightarrow> None
      | SignFault \<Rightarrow> None)"

definition P2PComm_VerifyMessage :: "'pt openssl \<Rightarrow> bytes \<Rightarrow> Signature \<Rightarrow> 'pt PubKey \<Rightarrow> bool option" where
  "P2PComm_VerifyMessage B message toverify pubKey = Schnorr_Verify B message toverify pubKey"

definition key_and_signature :: "'pt gossip_env \<Rightarrow> int option list \<Rightarrow> bytes \<Rightarrow> 'pt RumorManager \<Rightarrow> bytes option" where
  "key_and_signature E draws messageToSig M = do {
     let tmp = fst (PubKey_Serialize (gossip_ossl E) [] 0 (snd (m_selfKey M)));
     sig \<leftarrow> P2PComm_SignMessage E draws messageToSig;
     Some (fst (Signature_Serialize tmp 33 sig)) }"

definition AppendKeyAndSignature ::
    "'pt gossip_env \<Rightarrow> int option list \<Rightarrow> bytes \<Rightarrow> bytes \<Rightarrow> 'pt RumorManager \<Rightarrow> bytes option" where
  "AppendKeyAndSignature E draws result messageToSig M = do {
     tmp \<leftarrow> key_and_signature E draws messageToSig M;
     Some (result @ tmp) }"

text \<open>The key, the signature and the message of a signed gossip message: the message if the signature is the
  one of the key, and the key satisfies \<open>known\<close>.\<close>

definition open_signed :: "'pt openssl \<Rightarrow> ('pt PubKey \<Rightarrow> bool) \<Rightarrow> bytes \<Rightarrow> bytes option option" where
  "open_signed B known message =
     (case PubKey_Deserialize B (PubKey_default B) message 0 of
        (senderPubKey, res) \<Rightarrow>
          if res \<noteq> 0 then Some None
          else if \<not> known senderPubKey then Some None
          else
            (case Signature_Deserialize Signature_default message 33 of
               (toVerify, res') \<Rightarrow>
                 if res' \<noteq> 0 then Some None
                 else
                   let raw = drop 97 message
                   in do {
                     ok \<leftarrow> P2PComm_VerifyMessage B raw toVerify senderPubKey;
                     Some (if ok then Some raw else None) }))"

definition GossipVerifyMessage ::
    "'pt gossip_env \<Rightarrow> bytes \<Rightarrow> MessageType \<Rightarrow> Peer \<Rightarrow> 'pt RumorManager \<Rightarrow> bytes option option" where
  "GossipVerifyMessage E message t from M =
     (if (t = EMPTY_PUSH \<or> t = EMPTY_PULL) \<and> SIGN_VERIFY_EMPTY_MSGTYP E
         \<or> (t = LAZY_PUSH \<or> t = LAZY_PULL \<or> t = PUSH \<or> t = PULL) \<and> SIGN_VERIFY_NONEMPTY_MSGTYP E
      then open_signed (gossip_ossl E)
             (\<lambda>senderPubKey. case bimap_right (m_pubKeyPeerBiMap M) from of
                None \<Rightarrow> False | Some k \<Rightarrow> PubKey_eq (gossip_ossl E) k senderPubKey) message
      else Some (Some message))"

section \<open>Sending\<close>

text \<open>Type, round and listening port of an outgoing gossip message.\<close>

definition gossip_header :: "MessageType \<Rightarrow> nat \<Rightarrow> Peer \<Rightarrow> bytes option" where
  "gossip_header t rounds self = do {
     cmd \<leftarrow> Serializable_SetNumber [of_nat (type_num t)] 1 rounds 4;
     Serializable_SetNumber cmd 5 (m_listenPortHost self) 4 }"

definition DUMMY :: bytes where
  "DUMMY = [0x44, 0x55, 0x4D, 0x4D, 0x59]"

definition send_now :: "Peer \<Rightarrow> bytes \<Rightarrow> 'pt RumorManager \<Rightarrow> 'pt RumorManager" where
  "send_now toPeer cmd M = M\<lparr>m_sent := m_sent M @ [(toPeer, cmd)]\<rparr>"

text \<open>What follows the header: \<open>Some None\<close> when there is nothing to send. A rumor whose hash is not known any
  more gets no body but is sent all the same.\<close>

definition gossip_body ::
    "'pt gossip_env \<Rightarrow> int option list \<Rightarrow> Message \<Rightarrow> 'pt RumorManager \<Rightarrow> bytes option option" where
  "gossip_body E draws message M =
     (if m_type message = EMPTY_PUSH \<or> m_type message = EMPTY_PULL then
        if SIGN_VERIFY_EMPTY_MSGTYP E then do {
          tmp \<leftarrow> AppendKeyAndSignature E draws [] DUMMY M;
          Some (Some (tmp @ DUMMY)) }
        else Some (Some [])
      else
        (case bimap_left (m_rumorIdHashBimap M) (m_rumorId message) of
           None \<Rightarrow> Some (Some [])
         | Some hash \<Rightarrow>
             if m_type message = PUSH then
               (case bimap_left (m_rumorHashRawMsgBimap M) hash of
                  None \<Rightarrow> Some None
                | Some raw \<Rightarrow>
                    if SIGN_VERIFY_NONEMPTY_MSGTYP E then do {
                      tmp \<leftarrow> AppendKeyAndSignature E draws [] raw M;
                      Some (Some (tmp @ raw)) }
                    else Some (Some raw))
             else if m_type message = LAZY_PUSH \<or> m_type message = LAZY_PULL \<or> m_type message = PULL then
               if SIGN_VERIFY_NONEMPTY_MSGTYP E then do {
                 tmp \<leftarrow> AppendKeyAndSignature E draws [] hash M;
                 Some (Some (tmp @ hash)) }
               else Some (Some hash)
             else Some None))"

definition GossipSendMessage ::
    "'pt gossip_env \<Rightarrow> (nat \<Rightarrow> int option list) \<Rightarrow> Peer \<Rightarrow> Message \<Rightarrow> 'pt RumorManager \<Rightarrow> 'pt RumorManager option" where
  "GossipSendMessage E nonces toPeer message M = do {
     cmd \<leftarrow> gossip_header (m_type message) (nat (msg_rounds message mod 2 ^ 32)) (m_selfPeer M);
     body \<leftarrow> gossip_body E (nonces (length (m_sent M))) message M;
     case body of
       None \<Rightarrow> Some M
     | Some rest \<Rightarrow> Some (send_now toPeer (cmd @ rest) M) }"

fun GossipSendMessages ::
    "'pt gossip_env \<Rightarrow> (nat \<Rightarrow> int option list) \<Rightarrow> Peer \<Rightarrow> Message list \<Rightarrow> 'pt RumorManager \<Rightarrow> 'pt RumorManager option" where
  "GossipSendMessages E nonces toPeer [] M = Some M"
| "GossipSendMessages E nonces toPeer (k # ks) M = do {
     M' \<leftarrow> GossipSendMessage E nonces toPeer k M;
     GossipSendMessages E nonces toPeer ks M' }"

definition GenerateGossipForwardMessage ::
    "'pt gossip_env \<Rightarrow> int option list \<Rightarrow> bytes \<Rightarrow> 'pt RumorManager \<Rightarrow> bytes option" where
  "GenerateGossipForwardMessage E draws message M = do {
     cmd \<leftarrow> gossip_header FORWARD 0 (m_selfPeer M);
     tmp \<leftarrow> key_and_signature E draws message M;
     Some (cmd @ tmp @ message) }"

text \<open>The overloads for a deque and a vector of peers, and the one for a single peer, differ only in how they
  pass the receivers on.\<close>

definition SendRumorToForeignPeers ::
    "'pt gossip_env \<Rightarrow> (nat \<Rightarrow> int option list) \<Rightarrow> Peer list \<Rightarrow> bytes \<Rightarrow> 'pt RumorManager \<Rightarrow> 'pt RumorManager option" where
  "SendRumorToForeignPeers E nonces toForeignPeers message M = do {
     cmd \<leftarrow> GenerateGossipForwardMessage E (nonces (length (m_sent M))) message M;
     Some (M\<lparr>m_sent := m_sent M @ map (\<lambda>p. (p, cmd)) toForeignPeers\<rparr>) }"

definition SendRumorToForeignPeer ::
    "'pt gossip_env \<Rightarrow> (nat \<Rightarrow> int option list) \<Rightarrow> Peer \<Rightarrow> bytes \<Rightarrow> 'pt RumorManager \<Rightarrow> 'pt RumorManager option" where
  "SendRumorToForeignPeer E nonces toForeignPeer message M = do {
     cmd \<leftarrow> GenerateGossipForwardMessage E (nonces (length (m_sent M))) message M;
     Some (send_now toForeignPeer cmd M) }"

section \<open>Receiving\<close>

fun peer_insert :: "Peer \<Rightarrow> Peer list \<Rightarrow> Peer list" where
  "peer_insert p [] = [p]"
| "peer_insert p (q # qs) =
     (if Peer_less p q then p # q # qs else if Peer_less q p then q # peer_insert p qs else q # qs)"

definition subscribe :: "bytes \<Rightarrow> Peer \<Rightarrow> 'pt RumorManager \<Rightarrow> 'pt RumorManager" where
  "subscribe hash from M =
     M\<lparr>m_hashesSubscriberMap :=
         AList.update hash
           (peer_insert from (case map_of (m_hashesSubscriberMap M) hash of None \<Rightarrow> [] | Some ps \<Rightarrow> ps))
           (m_hashesSubscriberMap M)\<rparr>"

text \<open>An announced hash: number it if it is new, and ask the sender for a message that is not there. Here and in
  \<open>AddRumor_gossip\<close> the keys of \<open>m_rumorIdHashBimap\<close> are the numbers of the 64-bit generator; in the source they are
  narrowed to \<open>int\<close> (\<open>boost::bimap<int, RawBytes>\<close>), which differs only after 2 ^ 31 rumors. The narrowing on the way into
  the holder and into messages is \<open>s32\<close>.\<close>

definition lazy_received ::
    "'pt gossip_env \<Rightarrow> (nat \<Rightarrow> int option list) \<Rightarrow> bytes \<Rightarrow> Peer \<Rightarrow> 'pt RumorManager \<Rightarrow> (int \<times> 'pt RumorManager) option" where
  "lazy_received E nonces hash from M =
     (case bimap_right (m_rumorIdHashBimap M) hash of
        None \<Rightarrow> do {
          let rid = m_rumorIdGenerator M + 1;
          let M1 = M\<lparr>m_rumorIdGenerator := rid,
                     m_rumorIdHashBimap := snd (bimap_insert (m_rumorIdHashBimap M) rid hash)\<rparr>;
          M2 \<leftarrow> GossipSendMessage E nonces from (Message_new PULL (s32 rid) (-1)) M1;
          Some (rid, M2) }
      | Some rid \<Rightarrow>
          if bimap_left (m_rumorHashRawMsgBimap M) hash = None then do {
            M2 \<leftarrow> GossipSendMessage E nonces from (Message_new PULL (s32 rid) (-1)) M;
            Some (rid, M2) }
          else Some (rid, M))"

definition pull_received ::
    "'pt gossip_env \<Rightarrow> (nat \<Rightarrow> int option list) \<Rightarrow> bytes \<Rightarrow> Peer \<Rightarrow> 'pt RumorManager \<Rightarrow> 'pt RumorManager option" where
  "pull_received E nonces hash from M =
     (case bimap_left (m_rumorHashRawMsgBimap M) hash of
        Some raw \<Rightarrow>
          (case bimap_right (m_rumorIdHashBimap M) hash of
             None \<Rightarrow> Some M
           | Some rid \<Rightarrow> GossipSendMessage E nonces from (Message_new PUSH (s32 rid) (-1)) M)
      | None \<Rightarrow> Some (subscribe hash from M))"

fun push_to_subscribers ::
    "'pt gossip_env \<Rightarrow> (nat \<Rightarrow> int option list) \<Rightarrow> int \<Rightarrow> Peer \<Rightarrow> Peer list \<Rightarrow> 'pt RumorManager \<Rightarrow> 'pt RumorManager option" where
  "push_to_subscribers E nonces rid from [] M = Some M"
| "push_to_subscribers E nonces rid from (p # ps) M = do {
     M' \<leftarrow> (if Peer_eq p from then Some M else GossipSendMessage E nonces p (Message_new PUSH (s32 rid) (-1)) M);
     push_to_subscribers E nonces rid from ps M' }"

text \<open>A pushed message is kept and dispatched when its hash was announced and it is new.\<close>

definition push_received ::
    "'pt gossip_env \<Rightarrow> (nat \<Rightarrow> int option list) \<Rightarrow> int \<Rightarrow> bytes \<Rightarrow> Peer \<Rightarrow> 'pt RumorManager
     \<Rightarrow> ((bool \<times> bytes) \<times> 'pt RumorManager) option" where
  "push_received E nonces now raw from M =
     (if raw = [] then Some ((False, raw), M)
      else
        let hash = BytesToHash (gossip_ossl E) raw
        in case bimap_right (m_rumorIdHashBimap M) hash of
             None \<Rightarrow> Some ((False, []), M)
           | Some rid \<Rightarrow> do {
               let (fresh, raws) = bimap_insert (m_rumorHashRawMsgBimap M) hash raw;
               let M1 = (if fresh
                         then M\<lparr>m_rumorHashRawMsgBimap := raws,
                                m_rumorRawMsgTimestamp := m_rumorRawMsgTimestamp M @ [((hash, raw), now)]\<rparr>
                         else M);
               M2 \<leftarrow> (case map_of (m_hashesSubscriberMap M1) hash of
                       None \<Rightarrow> Some M1
                     | Some ps \<Rightarrow>
                         map_option (\<lambda>M'. M'\<lparr>m_hashesSubscriberMap := AList.delete hash (m_hashesSubscriberMap M')\<rparr>)
                           (push_to_subscribers E nonces rid from ps M1));
               Some ((fresh, raw), M2) })"

text \<open>The end of the handler: the holder counts the message and answers a push.\<close>

definition hand_to_holder ::
    "'pt gossip_env \<Rightarrow> (nat \<Rightarrow> int option list) \<Rightarrow> MessageType \<Rightarrow> int \<Rightarrow> int \<Rightarrow> int \<Rightarrow> Peer \<Rightarrow> 'pt RumorManager
     \<Rightarrow> 'pt RumorManager option" where
  "hand_to_holder E nonces t rid round peerId from M = do {
     H \<leftarrow> m_rumorHolder M;
     let ((toPeer, pulls), H') = receivedMessage (SEND_RESPONSE_FOR_LAZY_PUSH E) (Message_new t (s32 rid) round) peerId H;
     GossipSendMessages E nonces from pulls (M\<lparr>m_rumorHolder := Some H'\<rparr>) }"

definition RumorReceived ::
    "'pt gossip_env \<Rightarrow> (nat \<Rightarrow> int option list) \<Rightarrow> int \<Rightarrow> nat \<Rightarrow> int \<Rightarrow> bytes \<Rightarrow> Peer \<Rightarrow> 'pt RumorManager
     \<Rightarrow> ((bool \<times> bytes) \<times> 'pt RumorManager) option" where
  "RumorReceived E nonces now type round message from M =
     (if \<not> m_continueRound M then Some ((False, []), M)
      else
        (case bimap_right (m_peerIdPeerBimap M) from of
           None \<Rightarrow> Some ((False, []), M)
         | Some peerId \<Rightarrow>
             let t = convertType type
             in do {
               result \<leftarrow> GossipVerifyMessage E message t from M;
               case result of
                 None \<Rightarrow> Some ((False, []), M)
               | Some msg \<Rightarrow>
                   if t = EMPTY_PUSH \<or> t = EMPTY_PULL then do {
                     M1 \<leftarrow> hand_to_holder E nonces t (-1) round peerId from M;
                     Some ((False, msg), M1) }
                   else if t = LAZY_PUSH \<or> t = LAZY_PULL then do {
                     (rid, M1) \<leftarrow> lazy_received E nonces msg from M;
                     M2 \<leftarrow> hand_to_holder E nonces t rid round peerId from M1;
                     Some ((False, msg), M2) }
                   else if t = PULL then do {
                     M1 \<leftarrow> pull_received E nonces msg from M;
                     Some ((False, []), M1) }
                   else if t = PUSH then push_received E nonces now msg from M
                   else Some ((False, []), M) }))"

section \<open>Own and forwarded rumors\<close>

definition AddRumor_gossip ::
    "'pt gossip_env \<Rightarrow> int \<Rightarrow> bytes \<Rightarrow> 'pt RumorManager \<Rightarrow> (bool \<times> 'pt RumorManager) option" where
  "AddRumor_gossip E now message M =
     (if 0 < length message \<and> length message \<le> MAX_GOSSIP_MSG_SIZE_IN_BYTES E then
        let hash = BytesToHash (gossip_ossl E) message
        in if \<not> m_continueRound M
           then Some (False, M\<lparr>m_bufferRawMsg := m_bufferRawMsg M @ [message]\<rparr>)
           else if m_peerIdSet M = [] then Some (True, M)
           else
             (case bimap_right (m_rumorIdHashBimap M) hash of
                Some rid \<Rightarrow> Some (False, M)
              | None \<Rightarrow>
                  let rid = m_rumorIdGenerator M + 1;
                      (fresh, raws) = bimap_insert (m_rumorHashRawMsgBimap M) hash message;
                      M1 = M\<lparr>m_rumorIdGenerator := rid,
                             m_rumorIdHashBimap := snd (bimap_insert (m_rumorIdHashBimap M) rid hash),
                             m_rumorHashRawMsgBimap := raws\<rparr>
                  in if fresh then do {
                       H \<leftarrow> m_rumorHolder M1;
                       let (added, H') = addRumor (s32 rid) H;
                       Some (added,
                         M1\<lparr>m_rumorRawMsgTimestamp := m_rumorRawMsgTimestamp M1 @ [((hash, message), now)],
                            m_rumorHolder := Some H'\<rparr>) }
                     else Some (False, M1))
      else Some (False, M))"

definition AddForeignRumor ::
    "'pt gossip_env \<Rightarrow> int \<Rightarrow> bytes \<Rightarrow> 'pt RumorManager \<Rightarrow> (bool \<times> 'pt RumorManager) option" where
  "AddForeignRumor E now message M = do {
     result \<leftarrow> open_signed (gossip_ossl E)
        (\<lambda>senderPubKey. \<exists>k \<in> set (m_fullNetworkKeys M). PubKey_eq (gossip_ossl E) k senderPubKey) message;
     case result of
       None \<Rightarrow> Some (False, M)
     | Some raw \<Rightarrow> AddRumor_gossip E now raw M }"

fun add_buffered ::
    "'pt gossip_env \<Rightarrow> int \<Rightarrow> bytes list \<Rightarrow> 'pt RumorManager \<Rightarrow> 'pt RumorManager option" where
  "add_buffered E now [] M = Some M"
| "add_buffered E now (i # is) M = do {
     (added, M') \<leftarrow> AddRumor_gossip E now i M;
     add_buffered E now is M' }"

definition SpreadBufferedRumors :: "'pt gossip_env \<Rightarrow> int \<Rightarrow> 'pt RumorManager \<Rightarrow> 'pt RumorManager option" where
  "SpreadBufferedRumors E now M =
     (if m_continueRound M then do {
        M' \<leftarrow> add_buffered E now (m_bufferRawMsg M) M;
        Some (M'\<lparr>m_bufferRawMsg := []\<rparr>) }
      else Some M)"

section \<open>Rounds\<close>

definition StartRounds :: "'pt RumorManager \<Rightarrow> 'pt RumorManager" where
  "StartRounds M = M\<lparr>m_continueRound := True, m_threads := m_threads M @ [(False, 0)]\<rparr>"

definition StopRounds :: "'pt RumorManager \<Rightarrow> 'pt RumorManager" where
  "StopRounds M = M\<lparr>m_continueRound := False\<rparr>"

fun cleanup_loop ::
    "int \<Rightarrow> int \<Rightarrow> ((bytes \<times> bytes) \<times> int) list \<Rightarrow> (bytes \<times> bytes) list \<Rightarrow> (int \<times> bytes) list
     \<Rightarrow> ((bytes \<times> bytes) \<times> int) list \<times> (bytes \<times> bytes) list \<times> (int \<times> bytes) list" where
  "cleanup_loop now expiry [] raws ids = ([], raws, ids)"
| "cleanup_loop now expiry ((entry, time) # ts) raws ids =
     (if now - time > expiry
      then cleanup_loop now expiry ts (remove1 entry raws) (bimap_erase_right ids (fst entry))
      else ((entry, time) # ts, raws, ids))"

definition CleanUp :: "int \<Rightarrow> 'pt RumorManager \<Rightarrow> 'pt RumorManager" where
  "CleanUp now M =
     (case cleanup_loop now (m_rawMessageExpiryInMs M) (m_rumorRawMsgTimestamp M) (m_rumorHashRawMsgBimap M)
             (m_rumorIdHashBimap M) of
        (ts, raws, ids) \<Rightarrow>
          M\<lparr>m_rumorRawMsgTimestamp := ts, m_rumorHashRawMsgBimap := raws, m_rumorIdHashBimap := ids\<rparr>)"

fun send_round ::
    "'pt gossip_env \<Rightarrow> (nat \<Rightarrow> int option list) \<Rightarrow> int list \<Rightarrow> Message list \<Rightarrow> 'pt RumorManager \<Rightarrow> 'pt RumorManager option" where
  "send_round E nonces [] msgs M = Some M"
| "send_round E nonces (i # is) msgs M = do {
     M' \<leftarrow> (case bimap_left (m_peerIdPeerBimap M) i of
             None \<Rightarrow> Some M
           | Some peer \<Rightarrow> GossipSendMessages E nonces peer msgs M);
     send_round E nonces is msgs M' }"

text \<open>One pass of the thread of \<open>StartRounds\<close>, from the end of its wait to the next wait. A thread that waits
  leaves when the flag is down; a thread that has not entered its loop yet raises the flag.\<close>

definition round_pass ::
    "'pt gossip_env \<Rightarrow> (nat \<Rightarrow> int option list) \<Rightarrow> int \<Rightarrow> (nat \<Rightarrow> int) \<Rightarrow> nat \<Rightarrow> 'pt RumorManager \<Rightarrow> 'pt RumorManager option" where
  "round_pass E nonces now draw k M = do {
     (entered, rounds) \<leftarrow> vec_at (m_threads M) k;
     if entered \<and> \<not> m_continueRound M
     then Some (M\<lparr>m_threads := take k (m_threads M) @ drop (Suc k) (m_threads M)\<rparr>)
     else do {
       H \<leftarrow> m_rumorHolder M;
       ((members, msgs), H') \<leftarrow> RumorHolder_advanceRound draw H;
       M1 \<leftarrow> send_round E nonces members msgs (M\<lparr>m_continueRound := True, m_rumorHolder := Some H'\<rparr>);
       let rounds' = u32 (rounds + 1);
       if KEEP_RAWMSG_FROM_LAST_N_ROUNDS E = 0 then None
       else if rounds' mod KEEP_RAWMSG_FROM_LAST_N_ROUNDS E = 0
       then Some ((CleanUp now M1)\<lparr>m_threads := (m_threads M)[k := (True, 0)]\<rparr>)
       else Some (M1\<lparr>m_threads := (m_threads M)[k := (True, rounds')]\<rparr>) } }"

section \<open>Initialisation\<close>

fun init_peers :: "'pt openssl \<Rightarrow> int \<Rightarrow> ('pt PubKey \<times> Peer) list \<Rightarrow> 'pt RumorManager \<Rightarrow> 'pt RumorManager" where
  "init_peers B peerIdGenerator [] M = M"
| "init_peers B peerIdGenerator (p # ps) M =
     (if m_listenPortHost (snd p) \<noteq> 0 then
        let i = peerIdGenerator + 1
        in init_peers B i ps
             (M\<lparr>m_peerIdPeerBimap := snd (bimap_insert (m_peerIdPeerBimap M) i (snd p)),
                m_pubKeyPeerBiMap := pubkey_bimap_insert B (m_pubKeyPeerBiMap M) (fst p) (snd p),
                m_peerIdSet := m_peerIdSet M @ [i]\<rparr>)
      else init_peers B peerIdGenerator ps M)"

definition Initialize ::
    "'pt gossip_env \<Rightarrow> ('pt PubKey \<times> Peer) list \<Rightarrow> Peer \<Rightarrow> PrivKey \<times> 'pt PubKey \<Rightarrow> 'pt PubKey list \<Rightarrow> 'pt RumorManager
     \<Rightarrow> bool \<times> 'pt RumorManager" where
  "Initialize E peers myself myKeys fullNetworkKeys M =
     (if m_continueRound M then (False, M)
      else
        let M1 = M\<lparr>m_rumorIdGenerator := 0, m_peerIdPeerBimap := [], m_rumorIdHashBimap := [],
                   m_peerIdSet := [], m_selfPeer := myself, m_selfKey := myKeys, m_rumorHashRawMsgBimap := [],
                   m_rumorRawMsgTimestamp := [], m_fullNetworkKeys := [], m_pubKeyPeerBiMap := [],
                   m_hashesSubscriberMap := []\<rparr>;
            M2 = (init_peers (gossip_ossl E) 0 peers M1)\<lparr>m_fullNetworkKeys := fullNetworkKeys\<rparr>;
            holder = (if GOSSIP_CUSTOM_ROUNDS_SETTINGS E
                      then RumorHolder_custom (m_peerIdSet M2) (s32 (int (MAX_ROUNDS_IN_BSTATE E)))
                             (s32 (int (MAX_ROUNDS_IN_CSTATE E))) (s32 (int (MAX_TOTAL_ROUNDS E)))
                             (s32 (int (MAX_NEIGHBORS_PER_ROUND E))) 0
                      else RumorHolder_new (ceil_log_log E (length (m_peerIdSet M2)))
                             (ceil_log E (length (m_peerIdSet M2))) (m_peerIdSet M2) 0);
            expiry = (if KEEP_RAWMSG_FROM_LAST_N_ROUNDS E < MAX_TOTAL_ROUNDS E
                      then MAX_TOTAL_ROUNDS E * 3 * ROUND_TIME_IN_MS E
                      else KEEP_RAWMSG_FROM_LAST_N_ROUNDS E * ROUND_TIME_IN_MS E)
        in (True, M2\<lparr>m_rumorHolder := Some holder, m_rawMessageExpiryInMs := s32 (int (u32 expiry))\<rparr>))"

text \<open>\<open>P2PComm::InitializeRumorManager\<close>.\<close>

definition InitializeRumorManager ::
    "'pt gossip_env \<Rightarrow> int \<Rightarrow> ('pt PubKey \<times> Peer) list \<Rightarrow> Peer \<Rightarrow> 'pt PubKey list \<Rightarrow> 'pt RumorManager \<Rightarrow> 'pt RumorManager option" where
  "InitializeRumorManager E now peers self fullNetworkKeys M =
     (case Initialize E peers self (P2PComm_selfKey E) fullNetworkKeys (StopRounds M) of
        (ok, M1) \<Rightarrow>
          if ok then SpreadBufferedRumors E now (if peers \<noteq> [] then StartRounds M1 else M1) else Some M1)"

section \<open>Messages from the network\<close>

text \<open>Four bytes, most significant first, as \<open>ProcessGossipMsg\<close> adds them up.\<close>

definition read_u32 :: "bytes \<Rightarrow> nat \<Rightarrow> nat option" where
  "read_u32 message i = do {
     a \<leftarrow> vec_at message i;
     b \<leftarrow> vec_at message (i + 1);
     c \<leftarrow> vec_at message (i + 2);
     d \<leftarrow> vec_at message (i + 3);
     Some (u32 (unat a * 2 ^ 24 + unat b * 2 ^ 16 + unat c * 2 ^ 8 + unat d)) }"

definition HDR_LEN :: nat where
  "HDR_LEN = 6"

text \<open>The result lists what is handed to the dispatcher.\<close>

definition ProcessGossipMsg ::
    "'pt gossip_env \<Rightarrow> (nat \<Rightarrow> int option list) \<Rightarrow> int \<Rightarrow> bytes \<Rightarrow> Peer \<Rightarrow> 'pt RumorManager
     \<Rightarrow> ((bytes \<times> Peer) list \<times> 'pt RumorManager) option" where
  "ProcessGossipMsg E nonces now message from M = do {
     gossipMsgTyp \<leftarrow> vec_at message HDR_LEN;
     gossipMsgRound \<leftarrow> read_u32 message (HDR_LEN + 1);
     gossipSenderPort \<leftarrow> read_u32 message (HDR_LEN + 5);
     let sender = from\<lparr>m_listenPortHost := gossipSenderPort\<rparr>;
     let rumor_message = drop (HDR_LEN + 9) message;
     if unat gossipMsgTyp = type_num FORWARD then do {
       (added, M1) \<leftarrow> AddForeignRumor E now rumor_message M;
       Some (if added then [(drop 97 rumor_message, sender)] else [], M1) }
     else do {
       ((dispatch, raw), M1) \<leftarrow> RumorReceived E nonces now (unat gossipMsgTyp) (s32 (int gossipMsgRound)) rumor_message sender M;
       Some (if dispatch then [(raw, sender)] else [], M1) } }"

end
