(* ===== verification/RumorSafety.thy ===== *)
theory RumorSafety
  imports RumorManager
begin

text \<open>
  What the gossip manager guarantees: it never dereferences a missing holder or throws, the numbers,
  hashes and messages it keeps stay consistent, and a message is handed to the dispatcher at most once
  while it is kept. The theory also relates the sender's wire format to the receiver's parser.
\<close>

section \<open>Sending changes the outbox only\<close>

definition sends_only :: "'pt RumorManager \<Rightarrow> 'pt RumorManager \<Rightarrow> bool" where
  "sends_only M M' \<longleftrightarrow> (\<exists>out. M' = M\<lparr>m_sent := out\<rparr>)"

lemma sends_only_refl [simp]: "sends_only M M"
  by (auto simp: sends_only_def intro: exI [of _ "m_sent M"])

lemma sends_only_trans: "sends_only M M1 \<Longrightarrow> sends_only M1 M2 \<Longrightarrow> sends_only M M2"
  by (auto simp: sends_only_def)

definition nonces_ok :: "'pt gossip_env \<Rightarrow> (nat \<Rightarrow> int option list) \<Rightarrow> bool" where
  "nonces_ok E nonces \<longleftrightarrow>
     (\<forall>n. draws_suffice (gossip_ossl E) (fst (P2PComm_selfKey E)) (snd (P2PComm_selfKey E)) (nonces n))"

lemma P2PComm_SignMessage_total: "nonces_ok E nonces \<Longrightarrow> P2PComm_SignMessage E (nonces n) msg \<noteq> None"
  by (auto simp: P2PComm_SignMessage_def nonces_ok_def draws_suffice_def Schnorr_Sign_no_fault split: sign_result.splits)

lemma AppendKeyAndSignature_total:
  assumes "nonces_ok E nonces"
  shows "\<exists>r. AppendKeyAndSignature E (nonces n) cmd msg M = Some r"
  using P2PComm_SignMessage_total [OF assms, of n msg] by (auto simp: AppendKeyAndSignature_def key_and_signature_def Let_def)

lemma gossip_header_eq:
  "\<exists>h. gossip_header t rounds self = Some h \<and> length h = 9"
proof -
  have 1: "Serializable_SetNumber [of_nat (type_num t)] 1 rounds 4
      = Some (number_field_put 4 [of_nat (type_num t)] 1 rounds)"
    by (rule Serializable_SetNumber_eq) simp_all
  have 2: "Serializable_SetNumber (number_field_put 4 [of_nat (type_num t)] 1 rounds) 5 (m_listenPortHost self) 4
      = Some (number_field_put 4 (number_field_put 4 [of_nat (type_num t)] 1 rounds) 5 (m_listenPortHost self))"
    by (rule Serializable_SetNumber_eq) (simp_all add: number_field_put_def)
  have "gossip_header t rounds self
      = Some (number_field_put 4 (number_field_put 4 [of_nat (type_num t)] 1 rounds) 5 (m_listenPortHost self))"
    by (simp only: gossip_header_def 1 2 Option.bind_lunit)
  then show ?thesis by (simp add: number_field_put_def)
qed

lemma gossip_body_total:
  assumes "nonces_ok E nonces"
  shows "gossip_body E (nonces n) msg M \<noteq> None"
proof -
  obtain r where "\<And>m. AppendKeyAndSignature E (nonces n) [] m M = Some (r m)"
    using AppendKeyAndSignature_total [OF assms, of n "[]" _ M] by metis
  then show ?thesis by (simp add: gossip_body_def split: option.splits)
qed

lemma GossipSendMessage_result:
  assumes "nonces_ok E nonces"
  obtains M' where "GossipSendMessage E nonces p msg M = Some M'" "sends_only M M'"
proof -
  obtain h where "gossip_header (m_type msg) (nat (msg_rounds msg mod 2 ^ 32)) (m_selfPeer M) = Some h"
    using gossip_header_eq by blast
  moreover obtain b where "gossip_body E (nonces (length (m_sent M))) msg M = Some b"
    using gossip_body_total [OF assms] by blast
  ultimately show ?thesis
    using that by (cases b) (auto simp: GossipSendMessage_def send_now_def sends_only_def)
qed

lemma GossipSendMessages_result:
  assumes "nonces_ok E nonces"
  shows "\<exists>M'. GossipSendMessages E nonces p msgs M = Some M' \<and> sends_only M M'"
proof (induction msgs arbitrary: M)
  case (Cons k ks)
  obtain M1 where "GossipSendMessage E nonces p k M = Some M1" "sends_only M M1"
    using GossipSendMessage_result [OF assms] .
  with Cons [of M1] show ?case by (auto intro: sends_only_trans)
qed simp

lemma push_to_subscribers_result:
  assumes "nonces_ok E nonces"
  shows "\<exists>M'. push_to_subscribers E nonces rid from ps M = Some M' \<and> sends_only M M'"
proof (induction ps arbitrary: M)
  case (Cons p ps)
  obtain M1 where "GossipSendMessage E nonces p (Message_new PUSH (s32 rid) (-1)) M = Some M1" "sends_only M M1"
    using GossipSendMessage_result [OF assms] .
  with Cons [of M1] Cons [of M] show ?case by (auto intro: sends_only_trans)
qed simp

lemma send_round_result:
  assumes "nonces_ok E nonces"
  shows "\<exists>M'. send_round E nonces is msgs M = Some M' \<and> sends_only M M'"
proof (induction "is" arbitrary: M)
  case (Cons i "is")
  show ?case
  proof (cases "bimap_left (m_peerIdPeerBimap M) i")
    case None
    then show ?thesis using Cons [of M] by simp
  next
    case (Some p)
    obtain M1 where "GossipSendMessages E nonces p msgs M = Some M1" "sends_only M M1"
      using GossipSendMessages_result [OF assms] by blast
    with Some Cons [of M1] show ?thesis by (auto intro: sends_only_trans)
  qed
qed simp

section \<open>The manager's invariant\<close>

lemma bimap_right_None: "bimap_right ps b = None \<longleftrightarrow> b \<notin> snd ` set ps"
  by (force simp: bimap_right_def map_of_eq_None_iff image_iff)

lemma bimap_right_Some: "bimap_right ps b = Some a \<Longrightarrow> (a, b) \<in> set ps"
  by (auto simp: bimap_right_def dest!: map_of_SomeD)

lemma bimap_left_None: "bimap_left ps a = None \<longleftrightarrow> a \<notin> fst ` set ps"
  by (simp add: bimap_left_def map_of_eq_None_iff)

definition ids_ok :: "int \<Rightarrow> (int \<times> bytes) list \<Rightarrow> bool" where
  "ids_ok gen ids \<longleftrightarrow> distinct (map fst ids) \<and> distinct (map snd ids) \<and> (\<forall>(i, h) \<in> set ids. i \<le> gen)"

definition raws_ok :: "'pt openssl \<Rightarrow> (bytes \<times> bytes) list \<Rightarrow> bool" where
  "raws_ok B raws \<longleftrightarrow> distinct (map fst raws) \<and> (\<forall>(h, raw) \<in> set raws. h = BytesToHash B raw)"

text \<open>Numbers and hashes are in bijection and numbers come from the generator; a stored message is stored
  under its own hash, that hash has a number, and the timestamps follow the stored messages one to one; the
  holder exists while rounds run.\<close>

definition manager_inv :: "'pt gossip_env \<Rightarrow> 'pt RumorManager \<Rightarrow> bool" where
  "manager_inv E M \<longleftrightarrow>
     ids_ok (m_rumorIdGenerator M) (m_rumorIdHashBimap M)
     \<and> raws_ok (gossip_ossl E) (m_rumorHashRawMsgBimap M)
     \<and> map fst (m_rumorRawMsgTimestamp M) = m_rumorHashRawMsgBimap M
     \<and> fst ` set (m_rumorHashRawMsgBimap M) \<subseteq> snd ` set (m_rumorIdHashBimap M)
     \<and> (m_continueRound M \<or> m_threads M \<noteq> [] \<longrightarrow> m_rumorHolder M \<noteq> None)
     \<and> (\<forall>H. m_rumorHolder M = Some H \<longrightarrow> holder_ok H)"

lemma manager_invD:
  assumes "manager_inv E M"
  shows "ids_ok (m_rumorIdGenerator M) (m_rumorIdHashBimap M)" "raws_ok (gossip_ossl E) (m_rumorHashRawMsgBimap M)"
    "fst ` set (m_rumorHashRawMsgBimap M) \<subseteq> snd ` set (m_rumorIdHashBimap M)"
    "m_continueRound M \<or> m_threads M \<noteq> [] \<Longrightarrow> \<exists>H. m_rumorHolder M = Some H \<and> holder_ok H"
  using assms unfolding manager_inv_def by auto

lemma manager_inv_sends: "sends_only M M' \<Longrightarrow> manager_inv E M' = manager_inv E M"
  unfolding sends_only_def manager_inv_def by (elim exE) simp

lemma sends_only_fields:
  assumes "sends_only M M'"
  shows "m_rumorHashRawMsgBimap M' = m_rumorHashRawMsgBimap M" "m_rumorIdHashBimap M' = m_rumorIdHashBimap M"
    "m_rumorHolder M' = m_rumorHolder M" "m_continueRound M' = m_continueRound M" "m_peerIdSet M' = m_peerIdSet M"
    "m_threads M' = m_threads M"
  using assms by (auto simp: sends_only_def)

lemma ids_ok_insert:
  assumes "ids_ok gen ids" "bimap_right ids h = None"
  shows "bimap_insert ids (gen + 1) h = (True, ids @ [(gen + 1, h)])" "ids_ok (gen + 1) (ids @ [(gen + 1, h)])"
proof -
  have fresh: "gen + 1 \<notin> fst ` set ids" using assms(1) by (force simp: ids_ok_def)
  then show "bimap_insert ids (gen + 1) h = (True, ids @ [(gen + 1, h)])"
    using assms(2) by (simp add: bimap_insert_def bimap_left_None)
  show "ids_ok (gen + 1) (ids @ [(gen + 1, h)])"
    using assms fresh by (fastforce simp: ids_ok_def bimap_right_None)
qed

lemma raws_insert:
  assumes "raws_ok B raws"
  shows "bimap_insert raws (BytesToHash B raw) raw
    = (if BytesToHash B raw \<in> fst ` set raws then (False, raws) else (True, raws @ [(BytesToHash B raw, raw)]))"
    "BytesToHash B raw \<notin> fst ` set raws \<Longrightarrow> raws_ok B (raws @ [(BytesToHash B raw, raw)])"
proof -
  have "raw \<in> snd ` set raws \<longrightarrow> BytesToHash B raw \<in> fst ` set raws" using assms by (force simp: raws_ok_def)
  then show "bimap_insert raws (BytesToHash B raw) raw
    = (if BytesToHash B raw \<in> fst ` set raws then (False, raws) else (True, raws @ [(BytesToHash B raw, raw)]))"
    by (auto simp: bimap_insert_def bimap_left_None bimap_right_None simp del: not_None_eq)
  show "BytesToHash B raw \<notin> fst ` set raws \<Longrightarrow> raws_ok B (raws @ [(BytesToHash B raw, raw)])"
    using assms by (auto simp: raws_ok_def)
qed

text \<open>A message that was not stored before is stored, under its hash and at the end.\<close>

definition stores :: "'pt gossip_env \<Rightarrow> bytes \<Rightarrow> 'pt RumorManager \<Rightarrow> 'pt RumorManager \<Rightarrow> bool" where
  "stores E raw M M' \<longleftrightarrow>
     BytesToHash (gossip_ossl E) raw \<notin> fst ` set (m_rumorHashRawMsgBimap M)
     \<and> m_rumorHashRawMsgBimap M' = m_rumorHashRawMsgBimap M @ [(BytesToHash (gossip_ossl E) raw, raw)]"

text \<open>What no handler of a message changes.\<close>

definition same_peers :: "'pt RumorManager \<Rightarrow> 'pt RumorManager \<Rightarrow> bool" where
  "same_peers M M' \<longleftrightarrow> m_peerIdSet M' = m_peerIdSet M \<and> m_threads M' = m_threads M \<and> m_continueRound M' = m_continueRound M"

lemma same_peers_trans: "same_peers M M1 \<Longrightarrow> same_peers M1 M2 \<Longrightarrow> same_peers M M2"
  by (simp add: same_peers_def)

lemma sends_only_same_peers: "sends_only M M' \<Longrightarrow> same_peers M M'"
  by (auto simp: sends_only_def same_peers_def)

lemma lazy_received_ok:
  assumes inv: "manager_inv E M" and n: "nonces_ok E nonces"
  shows "\<exists>rid M'. lazy_received E nonces hash from M = Some (rid, M') \<and> manager_inv E M' \<and> same_peers M M'
    \<and> m_rumorHashRawMsgBimap M' = m_rumorHashRawMsgBimap M"
proof (cases "bimap_right (m_rumorIdHashBimap M) hash")
  case None
  let ?rid = "m_rumorIdGenerator M + 1"
  let ?M1 = "M\<lparr>m_rumorIdGenerator := ?rid, m_rumorIdHashBimap := m_rumorIdHashBimap M @ [(?rid, hash)]\<rparr>"
  have ins: "bimap_insert (m_rumorIdHashBimap M) ?rid hash = (True, m_rumorIdHashBimap M @ [(?rid, hash)])"
      "ids_ok ?rid (m_rumorIdHashBimap M @ [(?rid, hash)])"
    using ids_ok_insert [OF _ None] inv by (auto simp: manager_inv_def)
  have inv1: "manager_inv E ?M1" using inv ins(2) unfolding manager_inv_def by auto
  obtain M2 where M2: "GossipSendMessage E nonces from (Message_new PULL (s32 ?rid) (-1)) ?M1 = Some M2" "sends_only ?M1 M2"
    using GossipSendMessage_result [OF n] .
  then have "lazy_received E nonces hash from M = Some (?rid, M2)" by (simp add: lazy_received_def None ins(1) Let_def)
  moreover have "same_peers M ?M1" by (simp add: same_peers_def)
  ultimately show ?thesis
    using M2(2) inv1 manager_inv_sends [OF M2(2)] sends_only_fields(1) [OF M2(2)] sends_only_same_peers [OF M2(2)]
    by (auto intro: same_peers_trans)
next
  case (Some rid)
  obtain M2 where M2: "GossipSendMessage E nonces from (Message_new PULL (s32 rid) (-1)) M = Some M2" "sends_only M M2"
    using GossipSendMessage_result [OF n] .
  have "lazy_received E nonces hash from M = Some (rid, M) \<or> lazy_received E nonces hash from M = Some (rid, M2)"
    using M2(1) by (simp add: lazy_received_def Some)
  then show ?thesis
    using inv manager_inv_sends [OF M2(2)] sends_only_fields(1) [OF M2(2)] sends_only_same_peers [OF M2(2)]
      sends_only_same_peers [OF sends_only_refl, of M]
    by metis
qed

lemma pull_received_ok:
  assumes inv: "manager_inv E M" and n: "nonces_ok E nonces"
  shows "\<exists>M'. pull_received E nonces hash from M = Some M' \<and> manager_inv E M' \<and> same_peers M M'
    \<and> m_rumorHashRawMsgBimap M' = m_rumorHashRawMsgBimap M"
proof -
  have sub: "manager_inv E (subscribe hash from M)" "same_peers M (subscribe hash from M)"
      "m_rumorHashRawMsgBimap (subscribe hash from M) = m_rumorHashRawMsgBimap M"
    using inv by (simp_all add: manager_inv_def subscribe_def same_peers_def)
  have "\<exists>M'. GossipSendMessage E nonces from msg M = Some M' \<and> manager_inv E M' \<and> same_peers M M'
      \<and> m_rumorHashRawMsgBimap M' = m_rumorHashRawMsgBimap M" for msg
    using GossipSendMessage_result [OF n, of "from" msg M] inv manager_inv_sends sends_only_fields(1) sends_only_same_peers
    by metis
  then show ?thesis
    using inv sub sends_only_same_peers [OF sends_only_refl, of M]
    by (auto simp: pull_received_def split: option.splits)
qed

lemma manager_inv_store:
  assumes inv: "manager_inv E M" and id: "BytesToHash (gossip_ossl E) raw \<in> snd ` set (m_rumorIdHashBimap M)"
    and fresh: "BytesToHash (gossip_ossl E) raw \<notin> fst ` set (m_rumorHashRawMsgBimap M)"
  shows "manager_inv E (M\<lparr>m_rumorHashRawMsgBimap := m_rumorHashRawMsgBimap M @ [(BytesToHash (gossip_ossl E) raw, raw)],
    m_rumorRawMsgTimestamp := m_rumorRawMsgTimestamp M @ [((BytesToHash (gossip_ossl E) raw, raw), now)]\<rparr>)"
  using inv id raws_insert(2) [OF _ fresh] unfolding manager_inv_def by simp

lemma serve_subscribers_ok:
  assumes inv: "manager_inv E M" and n: "nonces_ok E nonces"
  obtains M' where "(case map_of (m_hashesSubscriberMap M) hash of None \<Rightarrow> Some M
        | Some ps \<Rightarrow> map_option (\<lambda>M'. M'\<lparr>m_hashesSubscriberMap := AList.delete hash (m_hashesSubscriberMap M')\<rparr>)
            (push_to_subscribers E nonces rid from ps M)) = Some M'"
    "manager_inv E M'" "m_rumorHashRawMsgBimap M' = m_rumorHashRawMsgBimap M" "same_peers M M'"
proof (cases "map_of (m_hashesSubscriberMap M) hash")
  case None
  then show ?thesis using that inv by (simp add: same_peers_def)
next
  case (Some ps)
  obtain M' where M': "push_to_subscribers E nonces rid from ps M = Some M'" "sends_only M M'"
    using push_to_subscribers_result [OF n] by blast
  let ?M2 = "M'\<lparr>m_hashesSubscriberMap := AList.delete hash (m_hashesSubscriberMap M')\<rparr>"
  have "manager_inv E ?M2" using inv manager_inv_sends [OF M'(2), of E] by (simp add: manager_inv_def)
  then show ?thesis
    using that [of ?M2] Some M' sends_only_fields [OF M'(2)] by (simp add: same_peers_def)
qed

lemma push_received_ok:
  assumes inv: "manager_inv E M" and n: "nonces_ok E nonces"
  shows "\<exists>d out M'. push_received E nonces now raw from M = Some ((d, out), M') \<and> manager_inv E M' \<and> same_peers M M'
    \<and> (if d then out = raw \<and> stores E raw M M' \<and> BytesToHash (gossip_ossl E) raw \<in> snd ` set (m_rumorIdHashBimap M)
       else m_rumorHashRawMsgBimap M' = m_rumorHashRawMsgBimap M)"
proof -
  let ?h = "BytesToHash (gossip_ossl E) raw"
  have refl: "same_peers M M" by (simp add: same_peers_def)
  note ins = raws_insert(1) [OF manager_invD(2) [OF inv], of raw]
  show ?thesis
  proof (cases "raw = [] \<or> bimap_right (m_rumorIdHashBimap M) ?h = None")
    case True
    then show ?thesis using inv refl by (auto simp: push_received_def Let_def)
  next
    case False
    then obtain rid where rid: "bimap_right (m_rumorIdHashBimap M) ?h = Some rid" and ne: "raw \<noteq> []" by auto
    then have id: "?h \<in> snd ` set (m_rumorIdHashBimap M)" using bimap_right_Some by force
    show ?thesis
    proof (cases "?h \<in> fst ` set (m_rumorHashRawMsgBimap M)")
      case True
      obtain M2 where M2: "(case map_of (m_hashesSubscriberMap M) ?h of None \<Rightarrow> Some M
          | Some ps \<Rightarrow> map_option (\<lambda>M'. M'\<lparr>m_hashesSubscriberMap := AList.delete ?h (m_hashesSubscriberMap M')\<rparr>)
              (push_to_subscribers E nonces rid from ps M)) = Some M2"
          "manager_inv E M2" "m_rumorHashRawMsgBimap M2 = m_rumorHashRawMsgBimap M" "same_peers M M2"
        by (rule serve_subscribers_ok [OF inv n])
      then have "push_received E nonces now raw from M = Some ((False, raw), M2)"
        using ne rid ins True by (simp add: push_received_def Let_def)
      then show ?thesis using M2(2-4) by simp
    next
      case fresh: False
      let ?M1 = "M\<lparr>m_rumorHashRawMsgBimap := m_rumorHashRawMsgBimap M @ [(?h, raw)],
        m_rumorRawMsgTimestamp := m_rumorRawMsgTimestamp M @ [((?h, raw), now)]\<rparr>"
      have inv1: "manager_inv E ?M1" by (rule manager_inv_store [OF inv id fresh])
      obtain M2 where M2: "(case map_of (m_hashesSubscriberMap ?M1) ?h of None \<Rightarrow> Some ?M1
          | Some ps \<Rightarrow> map_option (\<lambda>M'. M'\<lparr>m_hashesSubscriberMap := AList.delete ?h (m_hashesSubscriberMap M')\<rparr>)
              (push_to_subscribers E nonces rid from ps ?M1)) = Some M2"
          "manager_inv E M2" "m_rumorHashRawMsgBimap M2 = m_rumorHashRawMsgBimap ?M1" "same_peers ?M1 M2"
        by (rule serve_subscribers_ok [OF inv1 n])
      then have "push_received E nonces now raw from M = Some ((True, raw), M2)"
        using ne rid ins fresh by (simp add: push_received_def Let_def)
      moreover have "same_peers M M2" "stores E raw M M2"
        using M2(3,4) fresh by (simp_all add: same_peers_def stores_def)
      ultimately show ?thesis using M2(2) id by simp
    qed
  qed
qed

lemma bind_total: "x \<noteq> None \<Longrightarrow> Option.bind x (\<lambda>a. Some (f a)) \<noteq> None"
  by (cases x) simp_all

lemma open_signed_total: "open_signed B known msg \<noteq> None"
  by (simp add: open_signed_def P2PComm_VerifyMessage_def Let_def bind_total split: prod.splits del: not_None_eq)

lemma open_signed_cases: "open_signed B known msg \<in> {Some None, Some (Some (drop 97 msg))}"
  by (auto simp: open_signed_def P2PComm_VerifyMessage_def Let_def split: prod.splits if_splits bind_splits)

lemma GossipVerifyMessage_total: "GossipVerifyMessage E msg t from M \<noteq> None"
  using open_signed_total by (auto simp: GossipVerifyMessage_def)

lemma hand_to_holder_ok:
  assumes inv: "manager_inv E M" and n: "nonces_ok E nonces" and run: "m_continueRound M"
  shows "\<exists>M'. hand_to_holder E nonces t rid round peerId from M = Some M' \<and> manager_inv E M' \<and> same_peers M M'
    \<and> m_rumorHashRawMsgBimap M' = m_rumorHashRawMsgBimap M"
proof -
  obtain H where H: "m_rumorHolder M = Some H" "holder_ok H" using manager_invD(4) [OF inv] run by blast
  obtain to pulls H' where rec: "receivedMessage (SEND_RESPONSE_FOR_LAZY_PUSH E) (Message_new t (s32 rid) round) peerId H
      = ((to, pulls), H')" by (metis prod.exhaust)
  then have "holder_ok H'"
    using rumor_handle_safe [OF H(2), of "SEND_RESPONSE_FOR_LAZY_PUSH E" "ReceivedMessage (Message_new t (s32 rid) round) peerId"]
    by auto
  then have inv1: "manager_inv E (M\<lparr>m_rumorHolder := Some H'\<rparr>)" using inv unfolding manager_inv_def by simp
  obtain M' where "GossipSendMessages E nonces from pulls (M\<lparr>m_rumorHolder := Some H'\<rparr>) = Some M'"
      "sends_only (M\<lparr>m_rumorHolder := Some H'\<rparr>) M'"
    using GossipSendMessages_result [OF n] by blast
  then show ?thesis
    using inv1 H(1) rec manager_inv_sends [of "M\<lparr>m_rumorHolder := Some H'\<rparr>" M' E]
      sends_only_fields [of "M\<lparr>m_rumorHolder := Some H'\<rparr>" M']
    by (simp add: hand_to_holder_def same_peers_def)
qed

text \<open>A peer's message: the handler returns, and it asks for a dispatch exactly when it stored a message whose hash
  had been announced.\<close>

lemma RumorReceived_ok:
  assumes inv: "manager_inv E M" and n: "nonces_ok E nonces"
  shows "\<exists>d raw M'. RumorReceived E nonces now t round msg from M = Some ((d, raw), M') \<and> manager_inv E M' \<and> same_peers M M'
    \<and> (if d then stores E raw M M' \<and> BytesToHash (gossip_ossl E) raw \<in> snd ` set (m_rumorIdHashBimap M)
       else m_rumorHashRawMsgBimap M' = m_rumorHashRawMsgBimap M)"
proof -
  have refl: "same_peers M M" by (simp add: same_peers_def)
  obtain res where res: "GossipVerifyMessage E msg (convertType t) from M = Some res"
    using GossipVerifyMessage_total by blast
  show ?thesis
  proof (cases "m_continueRound M \<and> bimap_right (m_peerIdPeerBimap M) from \<noteq> None \<and> res \<noteq> None")
    case False
    then show ?thesis using inv refl res by (auto simp: RumorReceived_def Let_def split: option.splits)
  next
    case True
    then obtain peerId raw where run: "m_continueRound M" and p: "bimap_right (m_peerIdPeerBimap M) from = Some peerId"
      and raw: "res = Some raw" by blast
    note eq = RumorReceived_def run p raw Let_def
    obtain rid M1 where lazy: "lazy_received E nonces raw from M = Some (rid, M1)" "manager_inv E M1" "same_peers M M1"
        "m_rumorHashRawMsgBimap M1 = m_rumorHashRawMsgBimap M"
      using lazy_received_ok [OF inv n] by blast
    have "m_continueRound M1" using lazy(3) run by (simp add: same_peers_def)
    from hand_to_holder_ok [OF lazy(2) n this] obtain M2 where
      M2: "hand_to_holder E nonces (convertType t) rid round peerId from M1 = Some M2" "manager_inv E M2"
        "same_peers M1 M2" "m_rumorHashRawMsgBimap M2 = m_rumorHashRawMsgBimap M1" by blast
    obtain M3 where M3: "hand_to_holder E nonces (convertType t) (-1) round peerId from M = Some M3" "manager_inv E M3"
        "same_peers M M3" "m_rumorHashRawMsgBimap M3 = m_rumorHashRawMsgBimap M"
      using hand_to_holder_ok [OF inv n run] by blast
    obtain M4 where M4: "pull_received E nonces raw from M = Some M4" "manager_inv E M4" "same_peers M M4"
        "m_rumorHashRawMsgBimap M4 = m_rumorHashRawMsgBimap M"
      using pull_received_ok [OF inv n] by blast
    consider "convertType t = EMPTY_PUSH \<or> convertType t = EMPTY_PULL" | "convertType t = LAZY_PUSH \<or> convertType t = LAZY_PULL"
      | "convertType t = PULL" | "convertType t = PUSH" | "convertType t = UNDEFINED \<or> convertType t = FORWARD"
      by (cases "convertType t") simp_all
    then show ?thesis
    proof cases
      case 1
      then have "RumorReceived E nonces now t round msg from M = Some ((False, raw), M3)" using M3(1) res by (auto simp: eq)
      then show ?thesis using M3(2-4) by simp
    next
      case 2
      then have "RumorReceived E nonces now t round msg from M = Some ((False, raw), M2)"
        using lazy(1) M2(1) res by (auto simp: eq)
      then show ?thesis using M2(2,4) lazy(4) same_peers_trans [OF lazy(3) M2(3)] by simp
    next
      case 3
      then have "RumorReceived E nonces now t round msg from M = Some ((False, []), M4)" using M4(1) res by (simp add: eq)
      then show ?thesis using M4(2-4) by simp
    next
      case 4
      then have "RumorReceived E nonces now t round msg from M = push_received E nonces now raw from M" using res by (simp add: eq)
      with push_received_ok [OF inv n, of now raw "from"] show ?thesis
        by (elim exE, rule_tac x = d in exI) (auto split: if_splits)
    next
      case 5
      then have "RumorReceived E nonces now t round msg from M = Some ((False, []), M)" using res by (auto simp: eq)
      then show ?thesis using inv refl by simp
    qed
  qed
qed

lemma AddRumor_gossip_ok:
  assumes inv: "manager_inv E M"
  shows "\<exists>added M'. AddRumor_gossip E now msg M = Some (added, M') \<and> manager_inv E M' \<and> same_peers M M'
    \<and> (stores E msg M M' \<or> m_rumorHashRawMsgBimap M' = m_rumorHashRawMsgBimap M)
    \<and> (added \<and> m_peerIdSet M \<noteq> [] \<longrightarrow> stores E msg M M')"
proof -
  let ?h = "BytesToHash (gossip_ossl E) msg"
  have refl: "same_peers M M" "same_peers M (M\<lparr>m_bufferRawMsg := m_bufferRawMsg M @ [msg]\<rparr>)"
    by (simp_all add: same_peers_def)
  have buffered: "manager_inv E (M\<lparr>m_bufferRawMsg := m_bufferRawMsg M @ [msg]\<rparr>)" using inv by (simp add: manager_inv_def)
  show ?thesis
  proof (cases "0 < length msg \<and> length msg \<le> MAX_GOSSIP_MSG_SIZE_IN_BYTES E \<and> m_continueRound M
      \<and> m_peerIdSet M \<noteq> [] \<and> bimap_right (m_rumorIdHashBimap M) ?h = None")
    case False
    then show ?thesis using inv refl buffered by (auto simp: AddRumor_gossip_def Let_def split: option.splits)
  next
    case True
    then have id: "bimap_right (m_rumorIdHashBimap M) ?h = None" and run: "m_continueRound M" by simp_all
    let ?rid = "m_rumorIdGenerator M + 1"
    have fresh: "?h \<notin> fst ` set (m_rumorHashRawMsgBimap M)" using manager_invD(3) [OF inv] id by (auto simp: bimap_right_None)
    note ins = raws_insert(1) [OF manager_invD(2) [OF inv], of msg] ids_ok_insert [OF manager_invD(1) [OF inv] id]
    obtain H where H: "m_rumorHolder M = Some H" "holder_ok H" using manager_invD(4) [OF inv] run by blast
    obtain added H' where add: "addRumor (s32 ?rid) H = (added, H')" by (cases "addRumor (s32 ?rid) H")
    have H': "holder_ok H'" using addRumor_ok [OF H(2), of "s32 ?rid"] add by simp
    let ?M0 = "M\<lparr>m_rumorIdGenerator := ?rid, m_rumorIdHashBimap := m_rumorIdHashBimap M @ [(?rid, ?h)], m_rumorHolder := Some H'\<rparr>"
    have "manager_inv E ?M0" using inv ins(3) H' unfolding manager_inv_def by auto
    then have inv': "manager_inv E (?M0\<lparr>m_rumorHashRawMsgBimap := m_rumorHashRawMsgBimap ?M0 @ [(?h, msg)],
        m_rumorRawMsgTimestamp := m_rumorRawMsgTimestamp ?M0 @ [((?h, msg), now)]\<rparr>)" (is "manager_inv E ?M'")
      by (rule manager_inv_store) (use fresh in simp_all)
    have "AddRumor_gossip E now msg M = Some (added, ?M')"
      using True ins fresh H(1) add by (simp add: AddRumor_gossip_def Let_def)
    moreover have "same_peers M ?M'" "stores E msg M ?M'" using fresh by (simp_all add: same_peers_def stores_def)
    ultimately show ?thesis using inv' by blast
  qed
qed

lemma AddForeignRumor_ok:
  assumes inv: "manager_inv E M"
  shows "\<exists>added M'. AddForeignRumor E now msg M = Some (added, M') \<and> manager_inv E M' \<and> same_peers M M'
    \<and> (stores E (drop 97 msg) M M' \<or> m_rumorHashRawMsgBimap M' = m_rumorHashRawMsgBimap M)
    \<and> (added \<and> m_peerIdSet M \<noteq> [] \<longrightarrow> stores E (drop 97 msg) M M')"
proof -
  let ?open = "open_signed (gossip_ossl E)
      (\<lambda>senderPubKey. \<exists>k \<in> set (m_fullNetworkKeys M). PubKey_eq (gossip_ossl E) k senderPubKey) msg"
  have "?open = Some None \<or> ?open = Some (Some (drop 97 msg))"
    using open_signed_cases by blast
  then show ?thesis
    using AddRumor_gossip_ok [OF inv, of now "drop 97 msg"] inv
    by (auto simp: AddForeignRumor_def same_peers_def)
qed

section \<open>Cleaning up\<close>

lemma cleanup_loop_ok:
  assumes "cleanup_loop now expiry ts raws ids = (ts', raws', ids')" "map fst ts = raws" "raws_ok B raws" "ids_ok gen ids"
    "fst ` set raws \<subseteq> snd ` set ids"
  shows "map fst ts' = raws' \<and> raws_ok B raws' \<and> ids_ok gen ids' \<and> fst ` set raws' \<subseteq> snd ` set ids'"
  using assms
proof (induction ts arbitrary: raws ids)
  case (Cons e ts)
  obtain h raw time where e: "e = ((h, raw), time)" by (metis prod.exhaust)
  show ?case
  proof (cases "now - time > expiry")
    case False
    then show ?thesis using Cons.prems e by auto
  next
    case True
    have raws: "raws = (h, raw) # map fst ts" using Cons.prems(2) e by simp
    have "cleanup_loop now expiry ts (map fst ts) (bimap_erase_right ids h) = (ts', raws', ids')"
      using Cons.prems(1) e True raws by simp
    moreover have "raws_ok B (map fst ts)" using Cons.prems(3) raws by (simp add: raws_ok_def)
    moreover have "ids_ok gen (bimap_erase_right ids h)"
      using Cons.prems(4) by (auto simp: ids_ok_def bimap_erase_right_def distinct_map_filter)
    moreover have "fst ` set (map fst ts) \<subseteq> snd ` set (bimap_erase_right ids h)"
    proof
      fix x
      assume x: "x \<in> fst ` set (map fst ts)"
      then have "x \<noteq> h" using Cons.prems(3) raws by (force simp: raws_ok_def)
      moreover have "x \<in> snd ` set ids" using Cons.prems(5) raws x by auto
      ultimately show "x \<in> snd ` set (bimap_erase_right ids h)" by (auto simp: bimap_erase_right_def)
    qed
    ultimately show ?thesis using Cons.IH by blast
  qed
qed simp

lemma CleanUp_ok:
  assumes "manager_inv E M"
  shows "manager_inv E (CleanUp now M)" "same_peers M (CleanUp now M)" "m_rumorHolder (CleanUp now M) = m_rumorHolder M"
proof -
  obtain ts raws ids where loop: "cleanup_loop now (m_rawMessageExpiryInMs M) (m_rumorRawMsgTimestamp M)
      (m_rumorHashRawMsgBimap M) (m_rumorIdHashBimap M) = (ts, raws, ids)" by (metis prod_cases3)
  then have "CleanUp now M = M\<lparr>m_rumorRawMsgTimestamp := ts, m_rumorHashRawMsgBimap := raws, m_rumorIdHashBimap := ids\<rparr>"
    by (simp add: CleanUp_def)
  moreover have "map fst ts = raws \<and> raws_ok (gossip_ossl E) raws \<and> ids_ok (m_rumorIdGenerator M) ids
      \<and> fst ` set raws \<subseteq> snd ` set ids"
    using cleanup_loop_ok [OF loop] assms unfolding manager_inv_def by blast
  ultimately show "manager_inv E (CleanUp now M)" "same_peers M (CleanUp now M)" "m_rumorHolder (CleanUp now M) = m_rumorHolder M"
    using assms unfolding manager_inv_def by (simp_all add: same_peers_def)
qed

text \<open>A message none of whose timestamps is older than the limit survives.\<close>

lemma cleanup_loop_keeps:
  assumes "cleanup_loop now expiry ts raws ids = (ts', raws', ids')" "map fst ts = raws"
    "\<forall>t. (entry, t) \<in> set ts \<longrightarrow> now - t \<le> expiry" "entry \<in> set raws"
  shows "entry \<in> set raws'"
  using assms
proof (induction ts arbitrary: raws ids)
  case (Cons e ts)
  obtain h time where e: "e = (h, time)" by (cases e)
  show ?case
  proof (cases "now - time > expiry")
    case False
    then show ?thesis using Cons.prems e by auto
  next
    case True
    have raws: "raws = h # map fst ts" using Cons.prems(2) e by simp
    have "entry \<noteq> h" using Cons.prems(3) e True by auto
    moreover have "cleanup_loop now expiry ts (map fst ts) (bimap_erase_right ids (fst h)) = (ts', raws', ids')"
      using Cons.prems(1) e True raws by simp
    ultimately show ?thesis using Cons.IH Cons.prems(3,4) raws by simp
  qed
qed simp

lemma CleanUp_keeps:
  assumes "manager_inv E M" "\<forall>t. (entry, t) \<in> set (m_rumorRawMsgTimestamp M) \<longrightarrow> now - t \<le> m_rawMessageExpiryInMs M"
    "entry \<in> set (m_rumorHashRawMsgBimap M)"
  shows "entry \<in> set (m_rumorHashRawMsgBimap (CleanUp now M))"
proof -
  obtain ts raws ids where loop: "cleanup_loop now (m_rawMessageExpiryInMs M) (m_rumorRawMsgTimestamp M)
      (m_rumorHashRawMsgBimap M) (m_rumorIdHashBimap M) = (ts, raws, ids)" by (metis prod_cases3)
  from cleanup_loop_keeps [OF this] show ?thesis using assms loop by (simp add: CleanUp_def manager_inv_def)
qed

section \<open>Rounds and initialisation\<close>

definition env_ok :: "'pt gossip_env \<Rightarrow> bool" where
  "env_ok E \<longleftrightarrow> KEEP_RAWMSG_FROM_LAST_N_ROUNDS E \<noteq> 0 \<and> MAX_ROUNDS_IN_BSTATE E < 2 ^ 31"

lemma manager_inv_threads:
  assumes "manager_inv E M" "m_rumorHolder M = Some H"
  shows "manager_inv E (M\<lparr>m_threads := ts\<rparr>)" "manager_inv E (M\<lparr>m_continueRound := b\<rparr>)"
    "manager_inv E (M\<lparr>m_continueRound := b, m_threads := ts\<rparr>)"
  using assms by (simp_all add: manager_inv_def)

lemma round_pass_ok:
  assumes inv: "manager_inv E M" and n: "nonces_ok E nonces" and env: "env_ok E" and k: "k < length (m_threads M)"
  shows "\<exists>M'. round_pass E nonces now draw k M = Some M' \<and> manager_inv E M'"
proof -
  obtain entered rounds where th: "m_threads M ! k = (entered, rounds)" by (cases "m_threads M ! k")
  have "m_threads M \<noteq> []" using k by auto
  then obtain H where H: "m_rumorHolder M = Some H" "holder_ok H" using manager_invD(4) [OF inv] by blast
  show ?thesis
  proof (cases "entered \<and> \<not> m_continueRound M")
    case True
    then show ?thesis
      using k th manager_inv_threads(1) [OF inv H(1)] by (simp add: round_pass_def vec_at_def)
  next
    case False
    obtain members msgs H' where adv: "RumorHolder_advanceRound draw H = Some ((members, msgs), H')" and H': "holder_ok H'"
      using rumor_handle_safe [OF H(2), of False "AdvanceRound draw"] by auto
    let ?M1 = "M\<lparr>m_continueRound := True, m_rumorHolder := Some H'\<rparr>"
    have inv1: "manager_inv E ?M1" using inv H' unfolding manager_inv_def by simp
    obtain M2 where M2: "send_round E nonces members msgs ?M1 = Some M2" "sends_only ?M1 M2"
      using send_round_result [OF n] by blast
    then have inv2: "manager_inv E M2" "m_rumorHolder M2 = Some H'"
      using inv1 manager_inv_sends [OF M2(2)] sends_only_fields(3) [OF M2(2)] by simp_all
    have inv3: "manager_inv E (M2\<lparr>m_threads := ts\<rparr>)" "manager_inv E ((CleanUp now M2)\<lparr>m_threads := ts\<rparr>)" for ts
      using manager_inv_threads(1) [OF inv2] manager_inv_threads(1) [OF CleanUp_ok(1) [OF inv2(1)]]
        CleanUp_ok(3) [OF inv2(1)] inv2(2) by simp_all
    have keep: "KEEP_RAWMSG_FROM_LAST_N_ROUNDS E \<noteq> 0" using env by (simp add: env_ok_def)
    have "round_pass E nonces now draw k M
        = (if u32 (rounds + 1) mod KEEP_RAWMSG_FROM_LAST_N_ROUNDS E = 0
           then Some ((CleanUp now M2)\<lparr>m_threads := (m_threads M)[k := (True, 0)]\<rparr>)
           else Some (M2\<lparr>m_threads := (m_threads M)[k := (True, u32 (rounds + 1))]\<rparr>))"
      unfolding round_pass_def using k th False H(1) adv M2(1) keep by (auto simp: vec_at_def Let_def)
    then show ?thesis using inv3 by simp
  qed
qed

lemma round_pass_keeps:
  assumes inv: "manager_inv E M" and n: "nonces_ok E nonces" and run: "round_pass E nonces now draw k M = Some M'"
    and young: "\<forall>t. (entry, t) \<in> set (m_rumorRawMsgTimestamp M) \<longrightarrow> now - t \<le> m_rawMessageExpiryInMs M"
    and stored: "entry \<in> set (m_rumorHashRawMsgBimap M)"
  shows "entry \<in> set (m_rumorHashRawMsgBimap M')"
proof -
  obtain entered rounds where th: "vec_at (m_threads M) k = Some (entered, rounds)"
    using run by (auto simp: round_pass_def split: bind_splits)
  show ?thesis
  proof (cases "entered \<and> \<not> m_continueRound M")
    case True
    then show ?thesis using run th stored by (auto simp: round_pass_def)
  next
    case False
    then obtain H members msgs H' M2 where H: "m_rumorHolder M = Some H"
        "RumorHolder_advanceRound draw H = Some ((members, msgs), H')"
        "send_round E nonces members msgs (M\<lparr>m_continueRound := True, m_rumorHolder := Some H'\<rparr>) = Some M2"
      using run th by (auto simp: round_pass_def split: bind_splits)
    obtain out where M2: "M2 = M\<lparr>m_continueRound := True, m_rumorHolder := Some H', m_sent := out\<rparr>"
      using send_round_result [OF n, of members msgs "M\<lparr>m_continueRound := True, m_rumorHolder := Some H'\<rparr>"] H(3)
      by (auto simp: sends_only_def)
    let ?M = "\<lambda>M1. m_rumorHashRawMsgBimap M' = m_rumorHashRawMsgBimap M1"
    have "?M M2 \<or> ?M (CleanUp now M2)"
      using run th False H by (auto simp: round_pass_def Let_def split: if_splits)
    moreover have "m_rumorHashRawMsgBimap (CleanUp now M2) = m_rumorHashRawMsgBimap (CleanUp now M)"
      by (simp add: CleanUp_def M2 split: prod.splits)
    ultimately show ?thesis using CleanUp_keeps [OF inv young stored] stored by (auto simp: M2)
  qed
qed

lemma round_pass_peers:
  assumes "nonces_ok E nonces" "round_pass E nonces now draw k M = Some M'"
  shows "m_peerIdSet M' = m_peerIdSet M"
proof -
  have "m_peerIdSet M2 = m_peerIdSet M1" if "send_round E nonces is msgs M1 = Some M2" for "is" msgs M1 M2
    using send_round_result [OF assms(1), of "is" msgs M1] that by (auto simp: sends_only_def)
  then show ?thesis
    using assms(2) by (auto simp: round_pass_def Let_def CleanUp_def split: bind_splits if_splits prod.splits)
qed

lemma init_peers_frame:
  "\<exists>a b c. init_peers B i ps M = M\<lparr>m_peerIdPeerBimap := a, m_pubKeyPeerBiMap := b, m_peerIdSet := c\<rparr>"
proof (induction ps arbitrary: i M)
  case Nil
  show ?case
    by (intro exI [of _ "m_peerIdPeerBimap M"] exI [of _ "m_pubKeyPeerBiMap M"] exI [of _ "m_peerIdSet M"]) simp
next
  case (Cons p ps)
  show ?case
  proof (cases "m_listenPortHost (snd p) \<noteq> 0")
    case True
    let ?M = "M\<lparr>m_peerIdPeerBimap := snd (bimap_insert (m_peerIdPeerBimap M) (i + 1) (snd p)),
        m_pubKeyPeerBiMap := pubkey_bimap_insert B (m_pubKeyPeerBiMap M) (fst p) (snd p),
        m_peerIdSet := m_peerIdSet M @ [i + 1]\<rparr>"
    have "init_peers B i (p # ps) M = init_peers B (i + 1) ps ?M" using True by (simp add: Let_def)
    moreover obtain a b c where "init_peers B (i + 1) ps ?M
        = ?M\<lparr>m_peerIdPeerBimap := a, m_pubKeyPeerBiMap := b, m_peerIdSet := c\<rparr>" using Cons.IH by blast
    ultimately show ?thesis by auto
  next
    case False
    then show ?thesis using Cons.IH [of i M] by simp
  qed
qed

lemma Initialize_ok:
  assumes "manager_inv E M" "env_ok E" "Initialize E peers self key keys M = (ok, M')"
  shows "manager_inv E M' \<and> (ok \<longrightarrow> m_rumorHolder M' \<noteq> None)"
proof (cases "m_continueRound M")
  case True
  then show ?thesis using assms by (simp add: Initialize_def)
next
  case False
  have b: "s32 (int (MAX_ROUNDS_IN_BSTATE E)) = int (MAX_ROUNDS_IN_BSTATE E)"
    using assms(2) by (simp add: env_ok_def s32_def)
  let ?M1 = "M\<lparr>m_rumorIdGenerator := 0, m_peerIdPeerBimap := [], m_rumorIdHashBimap := [],
       m_peerIdSet := [], m_selfPeer := self, m_selfKey := key, m_rumorHashRawMsgBimap := [],
       m_rumorRawMsgTimestamp := [], m_fullNetworkKeys := [], m_pubKeyPeerBiMap := [], m_hashesSubscriberMap := []\<rparr>"
  obtain a c d where ip: "init_peers (gossip_ossl E) 0 peers ?M1
      = ?M1\<lparr>m_peerIdPeerBimap := a, m_pubKeyPeerBiMap := c, m_peerIdSet := d\<rparr>" using init_peers_frame by blast
  have "manager_inv E (X\<lparr>m_rumorHolder := Some H, m_rawMessageExpiryInMs := e\<rparr>)"
    if "holder_ok H" "X = ?M1\<lparr>m_peerIdPeerBimap := a, m_pubKeyPeerBiMap := c, m_peerIdSet := d, m_fullNetworkKeys := keys\<rparr>"
    for X H e
    using that by (simp add: manager_inv_def ids_ok_def raws_ok_def)
  moreover have "holder_ok (RumorHolder_custom ps (s32 (int (MAX_ROUNDS_IN_BSTATE E))) C T m i)"
      "holder_ok (RumorHolder_new x y ps i)" for ps C T m i x y
    by (simp_all add: b RumorHolder_custom_ok RumorHolder_new_ok)
  ultimately show ?thesis using assms(3) False unfolding Initialize_def Let_def ip by auto
qed

lemma add_buffered_ok: "manager_inv E M \<Longrightarrow> \<exists>M'. add_buffered E now ms M = Some M' \<and> manager_inv E M'"
proof (induction ms arbitrary: M)
  case (Cons m ms)
  then obtain added M1 where "AddRumor_gossip E now m M = Some (added, M1)" "manager_inv E M1"
    using AddRumor_gossip_ok by blast
  with Cons.IH show ?case by auto
qed simp

lemma InitializeRumorManager_ok:
  assumes inv: "manager_inv E M" and env: "env_ok E"
  shows "\<exists>M'. InitializeRumorManager E now peers self keys M = Some M' \<and> manager_inv E M'"
proof -
  have "manager_inv E (StopRounds M)" using inv by (simp add: manager_inv_def StopRounds_def)
  moreover obtain ok M1 where init: "Initialize E peers self (P2PComm_selfKey E) keys (StopRounds M) = (ok, M1)" by fastforce
  ultimately have inv1: "manager_inv E M1" "ok \<longrightarrow> m_rumorHolder M1 \<noteq> None" using Initialize_ok [OF _ env] by blast+
  show ?thesis
  proof (cases ok)
    case False
    then show ?thesis using init inv1 by (simp add: InitializeRumorManager_def)
  next
    case True
    let ?M2 = "if peers \<noteq> [] then StartRounds M1 else M1"
    have "manager_inv E ?M2" using inv1 True by (auto simp: manager_inv_def StartRounds_def)
    then obtain M3 where "add_buffered E now (m_bufferRawMsg ?M2) ?M2 = Some M3" "manager_inv E M3"
      using add_buffered_ok by blast
    then have "\<exists>M'. SpreadBufferedRumors E now ?M2 = Some M' \<and> manager_inv E M'"
      using \<open>manager_inv E ?M2\<close> by (simp add: SpreadBufferedRumors_def manager_inv_def)
    then show ?thesis using init True by (simp add: InitializeRumorManager_def)
  qed
qed

section \<open>Events\<close>

lemma read_u32_total: "i + 3 < length msg \<Longrightarrow> \<exists>v. read_u32 msg i = Some v"
  by (simp add: read_u32_def vec_at_def)

text \<open>A gossip message from the network: what is dispatched has just been stored.\<close>

lemma ProcessGossipMsg_ok:
  assumes inv: "manager_inv E M" and n: "nonces_ok E nonces" and len: "15 \<le> length msg"
  shows "\<exists>out M'. ProcessGossipMsg E nonces now msg from M = Some (out, M') \<and> manager_inv E M' \<and> same_peers M M'
    \<and> (if out = [] then \<exists>raw. stores E raw M M' \<or> m_rumorHashRawMsgBimap M' = m_rumorHashRawMsgBimap M
       else \<exists>raw p. out = [(raw, p)] \<and> (m_peerIdSet M \<noteq> [] \<longrightarrow> stores E raw M M'))"
proof -
  obtain t where t: "vec_at msg HDR_LEN = Some t" using len by (simp add: vec_at_def HDR_LEN_def)
  obtain r where r: "read_u32 msg (HDR_LEN + 1) = Some r"
    using read_u32_total [of "HDR_LEN + 1" msg] len by (auto simp: HDR_LEN_def)
  obtain q where q: "read_u32 msg (HDR_LEN + 5) = Some q"
    using read_u32_total [of "HDR_LEN + 5" msg] len by (auto simp: HDR_LEN_def)
  let ?p = "from\<lparr>m_listenPortHost := q\<rparr>" and ?m = "drop (HDR_LEN + 9) msg"
  obtain added M1 where fwd: "AddForeignRumor E now ?m M = Some (added, M1)" "manager_inv E M1" "same_peers M M1"
      "stores E (drop 97 ?m) M M1 \<or> m_rumorHashRawMsgBimap M1 = m_rumorHashRawMsgBimap M"
      "added \<and> m_peerIdSet M \<noteq> [] \<longrightarrow> stores E (drop 97 ?m) M M1"
    using AddForeignRumor_ok [OF inv] by blast
  obtain d raw M2 where rec: "RumorReceived E nonces now (unat t) (s32 (int r)) ?m ?p M = Some ((d, raw), M2)"
      "manager_inv E M2" "same_peers M M2"
      "if d then stores E raw M M2 \<and> BytesToHash (gossip_ossl E) raw \<in> snd ` set (m_rumorIdHashBimap M)
       else m_rumorHashRawMsgBimap M2 = m_rumorHashRawMsgBimap M"
    using RumorReceived_ok [OF inv n] by blast
  show ?thesis
  proof (cases "unat t = type_num FORWARD")
    case True
    then have "ProcessGossipMsg E nonces now msg from M = Some (if added then [(drop 97 ?m, ?p)] else [], M1)"
      unfolding ProcessGossipMsg_def t r q using fwd(1) by (simp add: Let_def)
    then show ?thesis using fwd(2-5) by auto
  next
    case False
    then have "ProcessGossipMsg E nonces now msg from M = Some (if d then [(raw, ?p)] else [], M2)"
      unfolding ProcessGossipMsg_def t r q using rec(1) by (simp add: Let_def)
    then show ?thesis using rec(2-4) by (auto split: if_splits)
  qed
qed

text \<open>The state of a run: what has been dispatched so far, and the manager.\<close>

datatype 'pt gossip_event =
    FromNetwork "nat \<Rightarrow> int option list" int bytes Peer
  | OwnRumor int bytes
  | RoundPass "nat \<Rightarrow> int option list" int "nat \<Rightarrow> int" nat
  | Reinitialise int "('pt PubKey \<times> Peer) list" Peer "'pt PubKey list"

fun gossip_handle ::
    "'pt gossip_env \<Rightarrow> 'pt gossip_event \<Rightarrow> (bytes \<times> Peer) list \<times> 'pt RumorManager
     \<Rightarrow> ((bytes \<times> Peer) list \<times> 'pt RumorManager) option" where
  "gossip_handle E (FromNetwork nonces now msg from) (log, M) =
     map_option (\<lambda>(out, M'). (log @ out, M')) (ProcessGossipMsg E nonces now msg from M)"
| "gossip_handle E (OwnRumor now msg) (log, M) =
     map_option (\<lambda>(added, M'). (log, M')) (AddRumor_gossip E now msg M)"
| "gossip_handle E (RoundPass nonces now draw k) (log, M) =
     map_option (\<lambda>M'. (log, M')) (round_pass E nonces now draw k M)"
| "gossip_handle E (Reinitialise now peers self keys) (log, M) =
     map_option (\<lambda>M'. (log, M')) (InitializeRumorManager E now peers self keys M)"

text \<open>Admissible: the network layer passes on messages that have the gossip header, the nonces last, and a
  round is run by a thread that exists.\<close>

fun gossip_admissible :: "'pt gossip_env \<Rightarrow> (bytes \<times> Peer) list \<times> 'pt RumorManager \<Rightarrow> 'pt gossip_event \<Rightarrow> bool" where
  "gossip_admissible E s (FromNetwork nonces now msg from) \<longleftrightarrow> nonces_ok E nonces \<and> 15 \<le> length msg"
| "gossip_admissible E s (OwnRumor now msg) \<longleftrightarrow> True"
| "gossip_admissible E s (RoundPass nonces now draw k) \<longleftrightarrow> nonces_ok E nonces \<and> k < length (m_threads (snd s))"
| "gossip_admissible E s (Reinitialise now peers self keys) \<longleftrightarrow> True"

definition gossip_safe :: "'pt gossip_env \<Rightarrow> (bytes \<times> Peer) list \<times> 'pt RumorManager \<Rightarrow> bool" where
  "gossip_safe E s \<longleftrightarrow> env_ok E \<and> manager_inv E (snd s)"

interpretation gossip: event_machine "gossip_safe E" "gossip_handle E" "gossip_admissible E" for E :: "'pt gossip_env"
proof
  fix s :: "(bytes \<times> Peer) list \<times> 'pt RumorManager" and e
  assume safe: "gossip_safe E s" and adm: "gossip_admissible E s e"
  obtain log M where s: "s = (log, M)" by (cases s)
  have inv: "manager_inv E M" and env: "env_ok E" using safe s by (simp_all add: gossip_safe_def)
  show "\<exists>t. gossip_handle E e s = Some t \<and> gossip_safe E t"
  proof (cases e)
    case (FromNetwork nonces now msg "from")
    then obtain out M' where "ProcessGossipMsg E nonces now msg from M = Some (out, M')" "manager_inv E M'"
      using ProcessGossipMsg_ok [OF inv] adm by fastforce
    then show ?thesis using FromNetwork s env by (simp add: gossip_safe_def)
  next
    case (OwnRumor now msg)
    then show ?thesis using AddRumor_gossip_ok [OF inv, of now msg] s env by (auto simp: gossip_safe_def)
  next
    case (RoundPass nonces now draw k)
    then show ?thesis using round_pass_ok [OF inv _ env, of nonces k now draw] s env adm by (auto simp: gossip_safe_def)
  next
    case (Reinitialise now peers self keys)
    then show ?thesis using InitializeRumorManager_ok [OF inv env, of now peers self keys] s env by (auto simp: gossip_safe_def)
  qed
qed

lemma RumorManager_new_inv: "manager_inv E (RumorManager_new B)"
  by (simp add: manager_inv_def RumorManager_new_def ids_ok_def raws_ok_def)

text \<open>As long as a message does not expire, it is stored once it has been dispatched, and dispatched once.\<close>

definition times_dispatched :: "bytes \<Rightarrow> (bytes \<times> Peer) list \<Rightarrow> nat" where
  "times_dispatched raw log = length (filter (\<lambda>p. fst p = raw) log)"

lemma times_dispatched_simps [simp]:
  "times_dispatched raw [] = 0"
  "times_dispatched raw (log @ log') = times_dispatched raw log + times_dispatched raw log'"
  "times_dispatched raw [p] = (if fst p = raw then 1 else 0)"
  by (simp_all add: times_dispatched_def)

definition dispatched_stored :: "'pt gossip_env \<Rightarrow> bytes \<Rightarrow> (bytes \<times> Peer) list \<times> 'pt RumorManager \<Rightarrow> bool" where
  "dispatched_stored E raw s \<longleftrightarrow>
     manager_inv E (snd s) \<and> env_ok E \<and> m_peerIdSet (snd s) \<noteq> [] \<and> times_dispatched raw (fst s) \<le> 1
     \<and> (0 < times_dispatched raw (fst s) \<longrightarrow> raw \<in> snd ` set (m_rumorHashRawMsgBimap (snd s)))"

text \<open>A message expires in a round that starts when its timestamp is older than \<open>m_rawMessageExpiryInMs\<close>; a
  re-initialisation forgets all messages.\<close>

fun keeps_message :: "bytes \<Rightarrow> (bytes \<times> Peer) list \<times> 'pt RumorManager \<Rightarrow> 'pt gossip_event \<Rightarrow> bool" where
  "keeps_message raw s (FromNetwork nonces now msg from) = True"
| "keeps_message raw s (OwnRumor now msg) = True"
| "keeps_message raw s (RoundPass nonces now draw k) =
     (\<forall>((hash, raw'), time) \<in> set (m_rumorRawMsgTimestamp (snd s)).
        raw' = raw \<longrightarrow> now - time \<le> m_rawMessageExpiryInMs (snd s))"
| "keeps_message raw s (Reinitialise now peers self keys) = False"

lemma stores_fresh:
  assumes "manager_inv E M" "stores E raw M M'"
  shows "raw \<notin> snd ` set (m_rumorHashRawMsgBimap M)"
  using manager_invD(2) [OF assms(1)] assms(2) by (force simp: stores_def raws_ok_def)

lemma stores_grows:
  assumes "\<exists>raw. stores E raw M M' \<or> m_rumorHashRawMsgBimap M' = m_rumorHashRawMsgBimap M"
  shows "snd ` set (m_rumorHashRawMsgBimap M) \<subseteq> snd ` set (m_rumorHashRawMsgBimap M')"
  using assms by (auto simp: stores_def)

interpretation dispatch: event_machine "dispatched_stored E raw" "gossip_handle E"
  "\<lambda>s e. gossip_admissible E s e \<and> keeps_message raw s e" for E :: "'pt gossip_env" and raw
proof
  fix s :: "(bytes \<times> Peer) list \<times> 'pt RumorManager" and e
  assume ds: "dispatched_stored E raw s" and adm: "gossip_admissible E s e \<and> keeps_message raw s e"
  obtain log M where s: "s = (log, M)" by (cases s)
  have inv: "manager_inv E M" and env: "env_ok E" and ne: "m_peerIdSet M \<noteq> []" and log: "times_dispatched raw log \<le> 1"
      "0 < times_dispatched raw log \<longrightarrow> raw \<in> snd ` set (m_rumorHashRawMsgBimap M)"
    using ds s by (simp_all add: dispatched_stored_def)
  show "\<exists>t. gossip_handle E e s = Some t \<and> dispatched_stored E raw t"
  proof (cases e)
    case (FromNetwork nonces now msg "from")
    then have "nonces_ok E nonces" "15 \<le> length msg" using adm by simp_all
    from ProcessGossipMsg_ok [OF inv this, of now "from"] obtain out M' where
      run: "ProcessGossipMsg E nonces now msg from M = Some (out, M')" and inv': "manager_inv E M'" "same_peers M M'"
      and out: "if out = [] then \<exists>raw. stores E raw M M' \<or> m_rumorHashRawMsgBimap M' = m_rumorHashRawMsgBimap M
         else \<exists>raw p. out = [(raw, p)] \<and> (m_peerIdSet M \<noteq> [] \<longrightarrow> stores E raw M M')" by blast
    have ne': "m_peerIdSet M' \<noteq> []" using inv'(2) ne by (simp add: same_peers_def)
    have "times_dispatched raw (log @ out) \<le> 1
        \<and> (0 < times_dispatched raw (log @ out) \<longrightarrow> raw \<in> snd ` set (m_rumorHashRawMsgBimap M'))"
    proof (cases "out = []")
      case True
      then show ?thesis using out log stores_grows [of E M M'] by auto
    next
      case False
      then obtain new p where o: "out = [(new, p)]" "stores E new M M'" using out ne by auto
      have "new \<notin> snd ` set (m_rumorHashRawMsgBimap M)" by (rule stores_fresh [OF inv o(2)])
      moreover have "new \<in> snd ` set (m_rumorHashRawMsgBimap M')" using o(2) by (simp add: stores_def)
      ultimately show ?thesis using o stores_grows [of E M M'] log by (auto simp: subset_iff)
    qed
    then show ?thesis
      using FromNetwork s run inv'(1) ne' env by (simp add: dispatched_stored_def)
  next
    case (OwnRumor now msg)
    from AddRumor_gossip_ok [OF inv, of now msg] obtain added M' where
      run: "AddRumor_gossip E now msg M = Some (added, M')" "manager_inv E M'" "same_peers M M'"
        "stores E msg M M' \<or> m_rumorHashRawMsgBimap M' = m_rumorHashRawMsgBimap M" by blast
    then show ?thesis
      using OwnRumor s ne env log stores_grows [of E M M'] by (auto simp: dispatched_stored_def same_peers_def)
  next
    case (RoundPass nonces now draw k)
    then have adm': "nonces_ok E nonces" "k < length (m_threads M)"
        "\<forall>((hash, raw'), time) \<in> set (m_rumorRawMsgTimestamp M). raw' = raw \<longrightarrow> now - time \<le> m_rawMessageExpiryInMs M"
      using adm s by simp_all
    obtain M' where run: "round_pass E nonces now draw k M = Some M'" and inv': "manager_inv E M'"
      using round_pass_ok [OF inv adm'(1) env adm'(2)] by blast
    have "raw \<in> snd ` set (m_rumorHashRawMsgBimap M')" if stored: "raw \<in> snd ` set (m_rumorHashRawMsgBimap M)"
    proof -
      obtain h where h: "(h, raw) \<in> set (m_rumorHashRawMsgBimap M)" using stored by force
      have "\<forall>t. ((h, raw), t) \<in> set (m_rumorRawMsgTimestamp M) \<longrightarrow> now - t \<le> m_rawMessageExpiryInMs M"
        using adm'(3) by auto
      from round_pass_keeps [OF inv adm'(1) run this h] show ?thesis by force
    qed
    then show ?thesis
      using RoundPass s run inv' env ne log round_pass_peers [OF adm'(1) run] by (simp add: dispatched_stored_def)
  qed (use adm in simp_all)
qed

section \<open>A small network\<close>

definition toy_gossip :: "int gossip_env" where
  "toy_gossip = \<lparr>gossip_ossl = toy, P2PComm_selfKey = (1, 1), SIGN_VERIFY_EMPTY_MSGTYP = False,
     SIGN_VERIFY_NONEMPTY_MSGTYP = False, SEND_RESPONSE_FOR_LAZY_PUSH = True, GOSSIP_CUSTOM_ROUNDS_SETTINGS = True,
     MAX_GOSSIP_MSG_SIZE_IN_BYTES = 100, MAX_ROUNDS_IN_BSTATE = 2, MAX_ROUNDS_IN_CSTATE = 2, MAX_TOTAL_ROUNDS = 6,
     MAX_NEIGHBORS_PER_ROUND = 1, KEEP_RAWMSG_FROM_LAST_N_ROUNDS = 10, ROUND_TIME_IN_MS = 500,
     ceil_log_log = (\<lambda>n. 1), ceil_log = (\<lambda>n. 2)\<rparr>"

definition toy_peer :: Peer where
  "toy_peer = \<lparr>m_ipAddress = 7, m_listenPortHost = 9\<rparr>"

text \<open>A manager with one peer that has announced the hash of the message \<open>[5, 6]\<close>.\<close>

definition toy_manager :: "int RumorManager" where
  "toy_manager = (RumorManager_new toy)\<lparr>m_rumorHolder := Some (RumorHolder_custom [1] 2 2 6 1 0),
     m_peerIdPeerBimap := [(1, toy_peer)], m_peerIdSet := [1], m_rumorIdHashBimap := [(1, BytesToHash toy [5, 6])],
     m_rumorIdGenerator := 1, m_continueRound := True, m_threads := [(True, 0)]\<rparr>"

lemma toy_manager_inv: "manager_inv toy_gossip toy_manager" "m_peerIdSet toy_manager \<noteq> []"
  using RumorHolder_custom_ok [of 2 "[1]" 2 6 1 0]
  by (simp_all add: manager_inv_def toy_manager_def RumorManager_new_def ids_ok_def raws_ok_def)

definition toy_nonces :: "nat \<Rightarrow> int option list" where
  "toy_nonces n = [None]"

lemma toy_gossip_ok: "env_ok toy_gossip" "nonces_ok toy_gossip toy_nonces"
  by (simp_all add: env_ok_def toy_gossip_def nonces_ok_def toy_nonces_def failing_source_suffices)

text \<open>The network message that pushes \<open>[5, 6]\<close>.\<close>

definition toy_push :: bytes where
  "toy_push = [0, 0, 0, 0, 0, 0] @ [1] @ [0, 0, 0, 1] @ [0, 0, 0, 9] @ [5, 6]"

lemma toy_push_dispatched:
  "ProcessGossipMsg toy_gossip toy_nonces 0 toy_push \<lparr>m_ipAddress = 7, m_listenPortHost = 0\<rparr> toy_manager
     = Some ([([5, 6], toy_peer)], toy_manager\<lparr>m_rumorHashRawMsgBimap := [(BytesToHash toy [5, 6], [5, 6])],
          m_rumorRawMsgTimestamp := [((BytesToHash toy [5, 6], [5, 6]), 0)]\<rparr>)"
proof -
  have push: "push_received toy_gossip toy_nonces 0 [5, 6] toy_peer toy_manager
      = Some ((True, [5, 6]), toy_manager\<lparr>m_rumorHashRawMsgBimap := [(BytesToHash toy [5, 6], [5, 6])],
          m_rumorRawMsgTimestamp := [((BytesToHash toy [5, 6], [5, 6]), 0)]\<rparr>)"
    by (simp add: push_received_def toy_manager_def RumorManager_new_def toy_gossip_def Let_def bimap_right_def
        bimap_left_def bimap_insert_def)
  have facts: "m_continueRound toy_manager" "bimap_right (m_peerIdPeerBimap toy_manager) toy_peer = Some 1"
      "\<not> SIGN_VERIFY_NONEMPTY_MSGTYP toy_gossip"
    by (simp_all add: toy_manager_def toy_gossip_def bimap_right_def)
  have "RumorReceived toy_gossip toy_nonces 0 1 (s32 (int 1)) [5, 6] toy_peer toy_manager
      = push_received toy_gossip toy_nonces 0 [5, 6] toy_peer toy_manager"
    using facts by (simp add: RumorReceived_def GossipVerifyMessage_def convertType_def Let_def)
  then show ?thesis
    using push unfolding toy_push_def
    by (simp add: ProcessGossipMsg_def read_u32_def vec_at_def HDR_LEN_def Let_def toy_peer_def)
qed

section \<open>Wire format\<close>

lemma be_bytes_4: "be_bytes 4 v = [of_nat (v div 2 ^ 24), of_nat (v div 2 ^ 16), of_nat (v div 2 ^ 8), of_nat v]"
proof -
  have "be_bytes (Suc (Suc (Suc (Suc 0)))) v = [of_nat (v div 2 ^ 24), of_nat (v div 2 ^ 16), of_nat (v div 2 ^ 8), of_nat v]"
    by simp
  moreover have "Suc (Suc (Suc (Suc 0))) = 4" by simp
  ultimately show ?thesis by metis
qed

lemma gossip_header_bytes: "gossip_header t rounds self = Some (of_nat (type_num t) # be_bytes 4 rounds @ be_bytes 4 (m_listenPortHost self))"
proof -
  let ?t = "of_nat (type_num t) :: byte"
  have put: "number_field_put 4 dst (length dst) v = dst @ be_bytes 4 v" for dst :: bytes and v
    by (simp add: number_field_put_def vec_resize_def vec_write_def)
  have "Serializable_SetNumber [?t] 1 rounds 4 = Some (?t # be_bytes 4 rounds)"
    using Serializable_SetNumber_eq [of 1 "[?t]" 4 rounds] put [of "[?t]" rounds] by simp
  moreover have "Serializable_SetNumber (?t # be_bytes 4 rounds) 5 (m_listenPortHost self) 4
      = Some (?t # be_bytes 4 rounds @ be_bytes 4 (m_listenPortHost self))"
    using Serializable_SetNumber_eq [of 5 "?t # be_bytes 4 rounds" 4 "m_listenPortHost self"]
      put [of "?t # be_bytes 4 rounds" "m_listenPortHost self"] by simp
  ultimately show ?thesis by (simp add: gossip_header_def)
qed

lemma read_u32_written:
  assumes "v < 2 ^ 32" "i = length pre"
  shows "read_u32 (pre @ be_bytes 4 v @ post) i = Some v"
proof -
  have "be_val (be_bytes 4 v) = v" using assms(1) by (subst be_val_be_bytes) simp_all
  then have "unat (of_nat (v div 2 ^ 24) :: byte) * 2 ^ 24 + unat (of_nat (v div 2 ^ 16) :: byte) * 2 ^ 16
      + unat (of_nat (v div 2 ^ 8) :: byte) * 2 ^ 8 + unat (of_nat v :: byte) = v"
    by (simp add: be_bytes_4 be_val_def algebra_simps)
  then show ?thesis
    using assms by (simp add: read_u32_def be_bytes_4 vec_at_def nth_append)
qed

section \<open>Properties\<close>

text \<open>C26: whatever messages, rounds and re-initialisations a node goes through, in any order, the gossip manager
  never throws or dereferences a missing holder; numbers and hashes stay in bijection, a stored message is
  stored under its own hash, which has a number, and the timestamps follow the stored messages one to one.\<close>

theorem gossip_session_safe:
  assumes "env_ok E" "admissible_run (gossip_handle E) (gossip_admissible E) ([], RumorManager_new B) events"
  shows "\<exists>log M. run_events (gossip_handle E) events ([], RumorManager_new B) = Some (log, M)
    \<and> distinct (map fst (m_rumorIdHashBimap M)) \<and> distinct (map snd (m_rumorIdHashBimap M))
    \<and> (\<forall>(hash, raw) \<in> set (m_rumorHashRawMsgBimap M).
         hash = BytesToHash (gossip_ossl E) raw \<and> hash \<in> snd ` set (m_rumorIdHashBimap M))
    \<and> map fst (m_rumorRawMsgTimestamp M) = m_rumorHashRawMsgBimap M"
proof -
  have "gossip_safe E ([], RumorManager_new B)" using assms(1) RumorManager_new_inv by (simp add: gossip_safe_def)
  from gossip.run_safe [OF this assms(2)] obtain log M where
    run: "run_events (gossip_handle E) events ([], RumorManager_new B) = Some (log, M)" and inv: "manager_inv E M"
    by (auto simp: gossip_safe_def)
  have "\<forall>(hash, raw) \<in> set (m_rumorHashRawMsgBimap M).
      hash = BytesToHash (gossip_ossl E) raw \<and> hash \<in> snd ` set (m_rumorIdHashBimap M)"
    using manager_invD(2,3) [OF inv] by (force simp: raws_ok_def)
  moreover have "map fst (m_rumorRawMsgTimestamp M) = m_rumorHashRawMsgBimap M" using inv by (simp add: manager_inv_def)
  ultimately show ?thesis using run manager_invD(1) [OF inv] by (auto simp: ids_ok_def)
qed

theorem gossip_session_safe_witness:
  "\<exists>log M. run_events (gossip_handle toy_gossip) [Reinitialise 0 [(1, toy_peer)] Peer_default [], OwnRumor 1 [5, 6]]
      ([], RumorManager_new toy) = Some (log, M)
    \<and> map fst (m_rumorRawMsgTimestamp M) = m_rumorHashRawMsgBimap M"
proof -
  have "admissible_run (gossip_handle toy_gossip) (gossip_admissible toy_gossip) ([], RumorManager_new toy)
      [Reinitialise 0 [(1, toy_peer)] Peer_default [], OwnRumor 1 [5, 6]]"
    by (simp split: option.splits)
  from gossip_session_safe [OF toy_gossip_ok(1) this] show ?thesis by blast
qed

text \<open>C14: a node with gossip peers hands a message to the dispatcher at most once until the message expires, and
  then it has it stored: however often and through whichever peers the message arrives, forwarded or pushed,
  and whatever other messages and gossip rounds come in between, in any order. The message expires when a
  round starts later than \<open>m_rawMessageExpiryInMs\<close> after the time it was stored, and a re-initialisation of the
  manager forgets it; the events up to then are covered. \<open>KEEP_RAWMSG_FROM_LAST_N_ROUNDS\<close>, by which the rounds are
  counted, is not zero; a message has at least the 15 octets of the header that the caller has read.\<close>

theorem gossip_dispatch_once:
  assumes "manager_inv E M" "env_ok E" "m_peerIdSet M \<noteq> []"
    and "admissible_run (gossip_handle E) (\<lambda>s e. gossip_admissible E s e \<and> keeps_message raw s e) ([], M) events"
  shows "\<exists>log M'. run_events (gossip_handle E) events ([], M) = Some (log, M') \<and> times_dispatched raw log \<le> 1
    \<and> (0 < times_dispatched raw log \<longrightarrow> raw \<in> snd ` set (m_rumorHashRawMsgBimap M'))"
proof -
  have "dispatched_stored E raw ([], M)" using assms(1-3) by (simp add: dispatched_stored_def)
  from dispatch.run_safe [OF this assms(4)] show ?thesis by (fastforce simp: dispatched_stored_def)
qed

theorem gossip_dispatch_once_witness:
  "\<exists>M1 log M'. ProcessGossipMsg toy_gossip toy_nonces 0 toy_push \<lparr>m_ipAddress = 7, m_listenPortHost = 0\<rparr> toy_manager
      = Some ([([5, 6], toy_peer)], M1)
    \<and> run_events (gossip_handle toy_gossip)
        [FromNetwork toy_nonces 0 toy_push \<lparr>m_ipAddress = 7, m_listenPortHost = 0\<rparr>, RoundPass toy_nonces 0 (\<lambda>n. 0) 0,
         FromNetwork toy_nonces 1 toy_push \<lparr>m_ipAddress = 7, m_listenPortHost = 0\<rparr>]
        ([], toy_manager) = Some (log, M') \<and> times_dispatched [5, 6] log \<le> 1"
proof -
  let ?e = "\<lambda>now. FromNetwork toy_nonces now toy_push \<lparr>m_ipAddress = 7, m_listenPortHost = 0\<rparr>"
  let ?ok = "\<lambda>s e. gossip_admissible toy_gossip s e \<and> keeps_message [5, 6] s e"
  have "?ok s (?e now)" for s now using toy_gossip_ok(2) by (simp add: toy_push_def)
  moreover have "?ok (log, toy_manager\<lparr>m_rumorHashRawMsgBimap := raws, m_rumorRawMsgTimestamp := [((h, [5, 6]), 0)]\<rparr>)
      (RoundPass toy_nonces 0 (\<lambda>n. 0) 0)" for log raws h
    using toy_gossip_ok(2) by (simp add: toy_manager_def RumorManager_new_def)
  ultimately have "admissible_run (gossip_handle toy_gossip) ?ok ([], toy_manager)
      [?e 0, RoundPass toy_nonces 0 (\<lambda>n. 0) 0, ?e 1]"
    by (simp add: toy_push_dispatched split: option.splits)
  from gossip_dispatch_once [OF toy_manager_inv(1) toy_gossip_ok(1) toy_manager_inv(2) this] toy_push_dispatched
  show ?thesis by blast
qed

text \<open>the receiver parses what the sender writes. For every type but \<open>FORWARD\<close>, the header of a gossip message
  behind the six bytes of the network header makes the receiver call \<open>RumorReceived\<close> with the sender's type,
  round and listening port and with the rest of the message.\<close>

lemma gossip_wire_roundtrip:
  assumes "gossip_header t rounds self = Some cmd" "length hdr = 6" "rounds < 2 ^ 31" "m_listenPortHost self < 2 ^ 32" "t \<noteq> FORWARD"
  shows "ProcessGossipMsg E nonces now (hdr @ cmd @ body) from M =
    map_option (\<lambda>((d, raw), M'). (if d then [(raw, from\<lparr>m_listenPortHost := m_listenPortHost self\<rparr>)] else [], M'))
      (RumorReceived E nonces now (type_num t) (int rounds) body (from\<lparr>m_listenPortHost := m_listenPortHost self\<rparr>) M)
    \<and> convertType (type_num t) = t"
proof -
  let ?t = "of_nat (type_num t) :: byte" and ?q = "m_listenPortHost self"
  let ?msg = "hdr @ cmd @ body"
  have cmd: "cmd = ?t # be_bytes 4 rounds @ be_bytes 4 ?q" using assms(1) by (simp add: gossip_header_bytes)
  have t: "unat ?t = type_num t" "type_num t \<noteq> type_num FORWARD" "convertType (type_num t) = t"
    using assms(5) by (cases t; simp add: convertType_def)+
  have "vec_at ?msg HDR_LEN = Some ?t" using assms(2) cmd by (simp add: vec_at_def nth_append HDR_LEN_def)
  moreover have "read_u32 ?msg (HDR_LEN + 1) = Some rounds"
    using read_u32_written [of rounds "HDR_LEN + 1" "hdr @ [?t]" "be_bytes 4 ?q @ body"] assms(2,3) cmd by (simp add: HDR_LEN_def)
  moreover have "read_u32 ?msg (HDR_LEN + 5) = Some ?q"
    using read_u32_written [of ?q "HDR_LEN + 5" "hdr @ ?t # be_bytes 4 rounds" body] assms(2,4) cmd by (simp add: HDR_LEN_def)
  moreover have "drop (HDR_LEN + 9) ?msg = body" using assms(2) cmd by (simp add: HDR_LEN_def)
  moreover have "s32 (int rounds) = int rounds" using assms(3) by (simp add: s32_def)
  ultimately show ?thesis
    using t unfolding ProcessGossipMsg_def
    by (cases "RumorReceived E nonces now (type_num t) (int rounds) body (from\<lparr>m_listenPortHost := ?q\<rparr>) M")
       (auto simp: Let_def split: prod.splits)
qed

text \<open>A stop request can be lost. A thread started by \<open>StartRounds\<close> raises \<open>m_continueRound\<close> when it enters its
  loop, so a \<open>StopRounds\<close> that comes after the start but before the thread's first pass is undone by that pass,
  and the thread goes on.\<close>

lemma stop_before_first_pass_is_lost:
  assumes inv: "manager_inv E M" and holder: "m_rumorHolder M \<noteq> None" and env: "env_ok E" and n: "nonces_ok E nonces"
  shows "\<exists>M' r. round_pass E nonces now draw (length (m_threads M)) (StopRounds (StartRounds M)) = Some M'
    \<and> m_continueRound M' \<and> m_threads M' = m_threads M @ [(True, r)]"
proof -
  let ?M = "StopRounds (StartRounds M)" and ?k = "length (m_threads M)"
  obtain H where H: "m_rumorHolder M = Some H" "holder_ok H" using inv holder unfolding manager_inv_def by auto
  obtain members msgs H' where adv: "RumorHolder_advanceRound draw H = Some ((members, msgs), H')"
    using rumor_handle_safe [OF H(2), of False "AdvanceRound draw"] by auto
  obtain M2 where M2: "send_round E nonces members msgs (?M\<lparr>m_continueRound := True, m_rumorHolder := Some H'\<rparr>) = Some M2"
      "sends_only (?M\<lparr>m_continueRound := True, m_rumorHolder := Some H'\<rparr>) M2"
    using send_round_result [OF n] by blast
  have at: "vec_at (m_threads M @ [(False, 0)]) ?k = Some (False, 0)" "m_rumorHolder ?M = Some H" "m_threads ?M = m_threads M @ [(False, 0)]"
    using H(1) by (simp_all add: StopRounds_def StartRounds_def vec_at_def)
  have "m_continueRound M2" using sends_only_fields(4) [OF M2(2)] by simp
  moreover have "m_continueRound (CleanUp now M2) = m_continueRound M2" by (simp add: CleanUp_def split: prod.splits)
  moreover have "KEEP_RAWMSG_FROM_LAST_N_ROUNDS E \<noteq> 0" using env by (simp add: env_ok_def)
  ultimately show ?thesis
    unfolding round_pass_def at Let_def using adv M2(1) by auto
qed

end
