(* ===== verification/ConsensusLeader.thy ===== *)
theory ConsensusLeader
  imports ConsensusCommon
begin

text \<open>
  The leader of a consensus session, \<open>libConsensus/ConsensusLeader.cpp\<close>. The leader collects
  commits, splits the committers into subsets, sends one challenge per subset, collects responses
  and publishes the first collective signature that is complete; then it does the same again over
  the message extended with that signature.

  Arguments that stand for nondeterminism: \<open>rand\<close> holds the two uses of \<open>random_shuffle\<close> and the
  nonces drawn for signatures and commit secrets. The thread that waits for the commit window is
  counted by the ghost field \<open>m_windows\<close>; its body is the event \<open>CommitWindowClosed\<close>.
\<close>

section \<open>State\<close>

datatype LeaderAction =
    SEND_ANNOUNCEMENT | PROCESS_COMMIT | PROCESS_RESPONSE | PROCESS_FINALCOMMIT
  | PROCESS_FINALRESPONSE | PROCESS_COMMITFAILURE

record 'pt ConsensusSubset =
  commitMap :: "bool list"
  commitPointMap :: "'pt CommitPoint list"
  commitPoints :: "'pt CommitPoint list"
  responseCounter :: nat
  challenge :: Challenge
  responseDataMap :: "Response list"
  responseMap :: "bool list"
  responseData :: "Response list"
  collectiveSig :: Signature
  subset_state :: State

record 'pt ConsensusLeader = "'pt ConsensusCommon" +
  m_numForConsensus :: nat
  m_numForConsensusFailure :: nat
  m_DS :: bool
  m_numOfSubsets :: nat
  m_commitCounter :: nat
  m_sufficientCommitsReceived :: bool
  m_sufficientCommitsNumForSubsets :: nat
  m_commitMap :: "bool list"
  m_commitPointMap :: "'pt CommitPoint list"
  m_commitPoints :: "'pt CommitPoint list"
  m_commitRedundantCounter :: nat
  m_commitRedundantMap :: "bool list"
  m_commitRedundantPointMap :: "'pt CommitPoint list"
  m_commitFailureCounter :: nat
  m_commitFailureMap :: "(nat \<times> bytes) list"
  m_consensusSubsets :: "'pt ConsensusSubset list"
  m_numSubsetsRunning :: nat
  m_windows :: nat

record rand =
  shuffle :: "nat \<Rightarrow> nat list \<Rightarrow> nat list"
  peer_shuffle :: "Peer list \<Rightarrow> Peer list"
  draws :: "int option list"

section \<open>State checks\<close>

definition LEADER_ACTIONS_FOR_STATE :: "(State \<times> LeaderAction) list" where
  "LEADER_ACTIONS_FOR_STATE =
     [(INITIAL, SEND_ANNOUNCEMENT), (INITIAL, PROCESS_COMMITFAILURE),
      (ANNOUNCE_DONE, PROCESS_COMMIT), (ANNOUNCE_DONE, PROCESS_COMMITFAILURE),
      (CHALLENGE_DONE, PROCESS_RESPONSE), (CHALLENGE_DONE, PROCESS_COMMITFAILURE),
      (COLLECTIVESIG_DONE, PROCESS_FINALCOMMIT), (COLLECTIVESIG_DONE, PROCESS_COMMITFAILURE),
      (FINALCHALLENGE_DONE, PROCESS_FINALRESPONSE), (FINALCHALLENGE_DONE, PROCESS_COMMITFAILURE),
      (DONE, PROCESS_COMMITFAILURE)]"

definition Leader_CheckState :: "('pt, 'z) ConsensusCommon_scheme \<Rightarrow> LeaderAction \<Rightarrow> bool" where
  "Leader_CheckState L action \<longleftrightarrow> (m_state L, action) \<in> set LEADER_ACTIONS_FOR_STATE"

definition SUBSET_ACTIONS_FOR_STATE :: "(State \<times> LeaderAction) list" where
  "SUBSET_ACTIONS_FOR_STATE =
     [(CHALLENGE_DONE, PROCESS_RESPONSE), (FINALCHALLENGE_DONE, PROCESS_FINALRESPONSE)]"

definition CheckStateSubset :: "'pt ConsensusLeader \<Rightarrow> nat \<Rightarrow> LeaderAction \<Rightarrow> bool option" where
  "CheckStateSubset L subsetID action = do {
     sub \<leftarrow> vec_at (m_consensusSubsets L) subsetID;
     Some ((subset_state sub, action) \<in> set SUBSET_ACTIONS_FOR_STATE) }"

definition subset_set_state :: "State \<Rightarrow> 'pt ConsensusSubset \<Rightarrow> 'pt ConsensusSubset" where
  "subset_set_state newState sub =
     (if newState = INITIAL \<or> newState > subset_state sub
      then sub\<lparr>subset_state := newState\<rparr> else sub)"

definition SetStateSubset :: "nat \<Rightarrow> State \<Rightarrow> 'pt ConsensusLeader \<Rightarrow> 'pt ConsensusLeader option" where
  "SetStateSubset subsetID newState L = do {
     sub \<leftarrow> vec_at (m_consensusSubsets L) subsetID;
     Some (L\<lparr>m_consensusSubsets := (m_consensusSubsets L)[subsetID := subset_set_state newState sub]\<rparr>) }"

section \<open>Subsets\<close>

definition subset_init :: "'pt openssl \<Rightarrow> nat \<Rightarrow> State \<Rightarrow> 'pt ConsensusSubset" where
  "subset_init B n st =
     \<lparr>commitMap = replicate n False, commitPointMap = replicate n (CommitPoint_default B),
      commitPoints = [], responseCounter = 0, challenge = Challenge_default,
      responseDataMap = replicate n Response_default, responseMap = replicate n False,
      responseData = [], collectiveSig = Signature_default, subset_state = st\<rparr>"

text \<open>The three statements that put a committer into a subset.\<close>

definition subset_add ::
    "'pt CommitPoint list \<Rightarrow> nat \<Rightarrow> 'pt ConsensusSubset \<Rightarrow> 'pt ConsensusSubset option" where
  "subset_add pointMap index sub = do {
     cp \<leftarrow> vec_at pointMap index;
     cpm \<leftarrow> vec_put (commitPointMap sub) index (CommitPoint_copy cp);
     cm \<leftarrow> vec_put (commitMap sub) index True;
     Some (sub\<lparr>commitPointMap := cpm, commitPoints := commitPoints sub @ [CommitPoint_copy cp],
                  commitMap := cm\<rparr>) }"

text \<open>The first subset of a DS consensus in guard mode: guards first, then the others.\<close>

fun guard_loop ::
    "'pt CommitPoint list \<Rightarrow> nat \<Rightarrow> nat \<Rightarrow> 'pt ConsensusSubset \<Rightarrow> nat \<Rightarrow> nat list \<Rightarrow> nat list
     \<Rightarrow> ('pt ConsensusSubset \<times> nat \<times> nat list) option" where
  "guard_loop pointMap guards num sub subsetPeers nondsguardIndexes [] =
     Some (sub, subsetPeers, nondsguardIndexes)"
| "guard_loop pointMap guards num sub subsetPeers nondsguardIndexes (index # rest) =
     (if index < guards then do {
        sub' \<leftarrow> subset_add pointMap index sub;
        let subsetPeers' = u32 (subsetPeers + 1)
        in if subsetPeers' = num then Some (sub', subsetPeers', nondsguardIndexes)
           else guard_loop pointMap guards num sub' subsetPeers' nondsguardIndexes rest }
      else guard_loop pointMap guards num sub subsetPeers (nondsguardIndexes @ [index]) rest)"

fun nonguard_loop ::
    "'pt CommitPoint list \<Rightarrow> nat \<Rightarrow> 'pt ConsensusSubset \<Rightarrow> nat \<Rightarrow> nat list
     \<Rightarrow> 'pt ConsensusSubset option" where
  "nonguard_loop pointMap num sub subsetPeers [] = Some sub"
| "nonguard_loop pointMap num sub subsetPeers (index # rest) = do {
     sub' \<leftarrow> subset_add pointMap index sub;
     if u32 (subsetPeers + 1) \<ge> num then Some sub'
     else nonguard_loop pointMap num sub' (u32 (subsetPeers + 1)) rest }"

text \<open>Every other subset: the first \<open>m_numForConsensus - 1\<close> peers of the shuffled list.\<close>

fun fill_loop ::
    "'pt CommitPoint list \<Rightarrow> nat list \<Rightarrow> nat \<Rightarrow> nat \<Rightarrow> 'pt ConsensusSubset \<Rightarrow> 'pt ConsensusSubset option" where
  "fill_loop pointMap peers j 0 sub = Some sub"
| "fill_loop pointMap peers j (Suc r) sub = do {
     index \<leftarrow> vec_at peers j;
     sub' \<leftarrow> subset_add pointMap index sub;
     fill_loop pointMap peers (j + 1) r sub' }"

definition make_subset ::
    "'pt env \<Rightarrow> 'pt ConsensusLeader \<Rightarrow> nat \<Rightarrow> nat list \<Rightarrow> 'pt ConsensusSubset option" where
  "make_subset E L i peersWhoCommitted = do {
     sub \<leftarrow> subset_add (m_commitPointMap L) (m_myID L)
                 (subset_init (ossl E) (length (m_committee L)) (m_state L));
     if m_DS L \<and> GUARD_MODE E \<and> i = 0 then do {
       (sub', subsetPeers, nondsguardIndexes) \<leftarrow>
          guard_loop (m_commitPointMap L) (NumOfDSGuard E) (m_numForConsensus L) sub 1 [] peersWhoCommitted;
       if subsetPeers < m_numForConsensus L
       then nonguard_loop (m_commitPointMap L) (m_numForConsensus L) sub' subsetPeers nondsguardIndexes
       else Some sub' }
     else fill_loop (m_commitPointMap L) peersWhoCommitted 0 (sub32 (m_numForConsensus L) 1) sub }"

fun subset_loop ::
    "'pt env \<Rightarrow> 'pt ConsensusLeader \<Rightarrow> (nat \<Rightarrow> nat list \<Rightarrow> nat list) \<Rightarrow> nat \<Rightarrow> nat \<Rightarrow> nat list
     \<Rightarrow> 'pt ConsensusSubset list option" where
  "subset_loop E L shuf i 0 peers = Some []"
| "subset_loop E L shuf i (Suc r) peers = do {
     sub \<leftarrow> make_subset E L i peers;
     rest \<leftarrow> subset_loop E L shuf (i + 1) r (shuf i peers);
     Some (sub # rest) }"

definition peers_who_committed :: "'pt ConsensusLeader \<Rightarrow> nat list" where
  "peers_who_committed L =
     filter (\<lambda>index. m_commitMap L ! index \<and> index \<noteq> m_myID L) [0..<length (m_commitMap L)]"

definition GenerateConsensusSubsets ::
    "'pt env \<Rightarrow> rand \<Rightarrow> 'pt ConsensusLeader \<Rightarrow> 'pt ConsensusLeader option" where
  "GenerateConsensusSubsets E rnd L = do {
     let peersWhoCommitted = peers_who_committed L;
     let numSubsets = (if length peersWhoCommitted \<le> m_numForConsensus L then 1 else m_numOfSubsets L);
     subsets \<leftarrow> subset_loop E L (shuffle rnd) 0 numSubsets peersWhoCommitted;
     Some (L\<lparr>m_consensusSubsets := subsets, m_commitPointMap := [], m_commitPoints := [],
             m_commitMap := []\<rparr>) }"

section \<open>Challenge\<close>

text \<open>The loop of \<open>GenerateChallengeMessage\<close>; a failing subset ends it with the challenges of the
  earlier subsets already stored.\<close>

fun challenge_loop ::
    "'pt openssl \<Rightarrow> 'pt DequeOfNode \<Rightarrow> bytes \<Rightarrow> 'pt ConsensusSubset list
     \<Rightarrow> (bool \<times> 'pt ConsensusSubset list \<times> 'pt ChallengeSubsetInfo list) option" where
  "challenge_loop B committee message [] = Some (True, [], [])"
| "challenge_loop B committee message (sub # rest) =
     (let aggregatedCommit = CommitPoint_assign (CommitPoint_default B) (AggregateCommits B (commitPoints sub))
      in if \<not> finit aggregatedCommit then Some (False, sub # rest, [])
         else do {
           aggregatedKey \<leftarrow> AggregateKeys B committee (commitMap sub);
           c \<leftarrow> GetChallenge B message aggregatedCommit aggregatedKey;
           let sub' = sub\<lparr>challenge := Challenge_assign (challenge sub) c\<rparr>;
           let c' = Challenge_assign Challenge_default (challenge sub');
           if \<not> finit (challenge sub') \<or> \<not> finit c' then Some (False, sub' # rest, [])
           else do {
             (ok, rest', sis) \<leftarrow> challenge_loop B committee message rest;
             Some (ok, sub' # rest',
                   \<lparr>si_aggregatedCommit = aggregatedCommit, si_aggregatedKey = aggregatedKey,
                    si_challenge = c'\<rparr> # sis) } })"

definition GenerateChallengeMessage ::
    "'pt env \<Rightarrow> rand \<Rightarrow> bytes \<Rightarrow> nat \<Rightarrow> 'pt ConsensusLeader
     \<Rightarrow> (bool \<times> bytes \<times> 'pt ConsensusLeader) option" where
  "GenerateChallengeMessage E rnd chal offset L = do {
     (ok, subsets, subsetInfo) \<leftarrow>
        challenge_loop (ossl E) (m_committee L) (m_messageToCosign L) (m_consensusSubsets L);
     let L' = L\<lparr>m_consensusSubsets := subsets\<rparr>;
     if \<not> ok then Some (False, chal, L')
     else do {
       (chal', ok') \<leftarrow> SetConsensusChallenge (ossl E) (pb E) chal offset (m_consensusID L) (m_blockNumber L)
                          (m_blockHash L) (m_myID L) subsetInfo (myKey (ossl E) L) (draws rnd);
       Some (ok', chal', L') } }"

text \<open>The leader's own response to the challenge of a subset.\<close>

definition leader_responds ::
    "'pt openssl \<Rightarrow> 'pt ConsensusLeader \<Rightarrow> 'pt ConsensusSubset \<Rightarrow> 'pt ConsensusSubset option" where
  "leader_responds B L sub = do {
     let sub' = subset_set_state (m_state L) sub;
     secret \<leftarrow> m_commitSecret L;
     let r = Response_from B secret (challenge sub') (m_myPrivKey L);
     rdm \<leftarrow> vec_put (responseDataMap sub') (m_myID L) (Response_assign Response_default r);
     rm \<leftarrow> vec_put (responseMap sub') (m_myID L) True;
     Some (sub'\<lparr>responseData := responseData sub' @ [Response_copy r], responseDataMap := rdm,
                   responseMap := rm, responseCounter := 1\<rparr>) }"

fun respond_all ::
    "'pt openssl \<Rightarrow> 'pt ConsensusLeader \<Rightarrow> 'pt ConsensusSubset list \<Rightarrow> 'pt ConsensusSubset list option" where
  "respond_all B L [] = Some []"
| "respond_all B L (sub # rest) = do {
     sub' \<leftarrow> leader_responds B L sub;
     rest' \<leftarrow> respond_all B L rest;
     Some (sub' # rest') }"

text \<open>The peers that belong to at least one subset.\<close>

fun in_some_subset :: "'pt ConsensusSubset list \<Rightarrow> nat \<Rightarrow> bool option" where
  "in_some_subset [] i = Some False"
| "in_some_subset (sub # rest) i = do {
     b \<leftarrow> vec_at (commitMap sub) i;
     if b then Some True else in_some_subset rest i }"

fun challenge_peers ::
    "'pt ConsensusSubset list \<Rightarrow> nat \<Rightarrow> 'pt DequeOfNode \<Rightarrow> Peer list option" where
  "challenge_peers subsets i [] = Some []"
| "challenge_peers subsets i (node # rest) = do {
     b \<leftarrow> in_some_subset subsets i;
     peers \<leftarrow> challenge_peers subsets (i + 1) rest;
     Some (if b then snd node # peers else peers) }"

text \<open>\<open>StartConsensusSubsets\<close> once the state and the message type are chosen.\<close>

definition start_subsets ::
    "'pt env \<Rightarrow> rand \<Rightarrow> State \<Rightarrow> ConsensusMessageType \<Rightarrow> 'pt ConsensusLeader \<Rightarrow> (bool \<times> 'pt ConsensusLeader) option" where
  "start_subsets E rnd newState type L = do {
     let L1 = L\<lparr>m_state := newState, m_numSubsetsRunning := length (m_consensusSubsets L)\<rparr>;
     (ok, chal, L2) \<leftarrow> GenerateChallengeMessage E rnd (message_header L type) 3 L1;
     if \<not> ok then Some (False, L2\<lparr>m_state := ERROR\<rparr>)
     else do {
       subsets \<leftarrow> respond_all (ossl E) L2 (m_consensusSubsets L2);
       peerInfo \<leftarrow> challenge_peers subsets 0 (m_committee L2);
       Some (True, emit (SendMessage (peer_shuffle rnd peerInfo) chal)
                     (L2\<lparr>m_consensusSubsets := subsets\<rparr>)) } }"

definition StartConsensusSubsets ::
    "'pt env \<Rightarrow> rand \<Rightarrow> 'pt ConsensusLeader \<Rightarrow> (bool \<times> 'pt ConsensusLeader) option" where
  "StartConsensusSubsets E rnd L =
     (if m_state L = ANNOUNCE_DONE then start_subsets E rnd CHALLENGE_DONE CHALLENGE L
      else if m_state L = COLLECTIVESIG_DONE then start_subsets E rnd FINALCHALLENGE_DONE FINALCHALLENGE L
      else Some (False, L))"

section \<open>Commit\<close>

text \<open>The update of the state for a commit that has passed all checks, and what follows it.\<close>

definition record_commit ::
    "nat \<Rightarrow> 'pt CommitPoint \<Rightarrow> 'pt ConsensusLeader \<Rightarrow> 'pt ConsensusLeader option" where
  "record_commit backupID cp L = do {
     pm \<leftarrow> vec_put (m_commitPointMap L) backupID (CommitPoint_copy cp);
     cm \<leftarrow> vec_put (m_commitMap L) backupID True;
     let L1 = L\<lparr>m_commitPoints := m_commitPoints L @ [CommitPoint_copy cp], m_commitPointMap := pm,
                m_commitMap := cm, m_commitCounter := u32 (m_commitCounter L + 1)\<rparr>;
     if m_commitCounter L1 > m_numForConsensus L1 then do {
       rpm \<leftarrow> vec_put (m_commitRedundantPointMap L1) backupID (CommitPoint_copy cp);
       rm \<leftarrow> vec_put (m_commitRedundantMap L1) backupID True;
       Some (L1\<lparr>m_commitRedundantPointMap := rpm, m_commitRedundantMap := rm,
                m_commitRedundantCounter := u32 (m_commitRedundantCounter L1 + 1)\<rparr>) }
     else Some L1 }"

definition accept_commit ::
    "'pt env \<Rightarrow> rand \<Rightarrow> nat \<Rightarrow> 'pt CommitPoint \<Rightarrow> 'pt ConsensusLeader \<Rightarrow> (bool \<times> 'pt ConsensusLeader) option" where
  "accept_commit E rnd backupID cp L = do {
     L2 \<leftarrow> record_commit backupID cp L;
     if m_numOfSubsets L2 > 1
     then Some (True, if m_commitCounter L2 = m_sufficientCommitsNumForSubsets L2
                      then L2\<lparr>m_sufficientCommitsReceived := True\<rparr> else L2)
     else if m_commitCounter L2 = m_numForConsensus L2 then do {
       L3 \<leftarrow> GenerateConsensusSubsets E rnd L2;
       (ok, L4) \<leftarrow> StartConsensusSubsets E rnd L3;
       Some (True, L4) }
     else Some (True, L2) }"

text \<open>The checks of a commit against the backup's entry and its own hash.\<close>

definition commit_acceptable ::
    "'pt openssl \<Rightarrow> nat \<Rightarrow> 'pt CommitPoint option \<Rightarrow> CommitPointHash option \<Rightarrow> Peer \<Rightarrow> 'pt ConsensusLeader
     \<Rightarrow> bool option" where
  "commit_acceptable B backupID commitPoint commitPointHash from L = do {
     node \<leftarrow> vec_at (m_committee L) backupID;
     if m_ipAddress (snd node) \<noteq> m_ipAddress from then Some False
     else do {
       committed \<leftarrow> vec_at (m_commitMap L) backupID;
       if committed then Some False
       else if \<not> Initialized commitPoint then Some False
       else if \<not> Initialized commitPointHash then Some False
       else Some (CommitPointHash_eq (CommitPointHash_from_point B (the commitPoint)) (the commitPointHash)) } }"

definition ProcessMessageCommitCore ::
    "'pt env \<Rightarrow> rand \<Rightarrow> bytes \<Rightarrow> nat \<Rightarrow> LeaderAction \<Rightarrow> Peer \<Rightarrow> 'pt ConsensusLeader
     \<Rightarrow> (bool \<times> 'pt ConsensusLeader) option" where
  "ProcessMessageCommitCore E rnd commit offset action from L =
     (if \<not> Leader_CheckState L action then Some (False, L)
      else do {
        r \<leftarrow> GetConsensusCommit (ossl E) (pb E) commit offset (m_consensusID L) (m_blockNumber L)
               (m_blockHash L) (m_committee L);
        case r of
          None \<Rightarrow> Some (False, L)
        | Some (backupID, commitPoint, commitPointHash) \<Rightarrow> do {
            ok \<leftarrow> commit_acceptable (ossl E) backupID commitPoint commitPointHash from L;
            if \<not> ok then Some (False, L)
            else if \<not> Leader_CheckState L action then Some (False, L)
            else accept_commit E rnd backupID (the commitPoint) L } })"

definition ProcessMessageCommit ::
    "'pt env \<Rightarrow> rand \<Rightarrow> bytes \<Rightarrow> nat \<Rightarrow> Peer \<Rightarrow> 'pt ConsensusLeader \<Rightarrow> (bool \<times> 'pt ConsensusLeader) option" where
  "ProcessMessageCommit E rnd commit offset from L =
     ProcessMessageCommitCore E rnd commit offset PROCESS_COMMIT from L"

definition ProcessMessageFinalCommit ::
    "'pt env \<Rightarrow> rand \<Rightarrow> bytes \<Rightarrow> nat \<Rightarrow> Peer \<Rightarrow> 'pt ConsensusLeader \<Rightarrow> (bool \<times> 'pt ConsensusLeader) option" where
  "ProcessMessageFinalCommit E rnd finalcommit offset from L =
     ProcessMessageCommitCore E rnd finalcommit offset PROCESS_FINALCOMMIT from L"

text \<open>The body of the thread that waits for the commit window, once the wait is over.\<close>

definition CommitWindowClosed :: "'pt env \<Rightarrow> rand \<Rightarrow> 'pt ConsensusLeader \<Rightarrow> 'pt ConsensusLeader option" where
  "CommitWindowClosed E rnd L =
     (let L' = L\<lparr>m_windows := m_windows L - 1\<rparr>
      in if m_commitCounter L' < m_numForConsensus L' then Some (L'\<lparr>m_state := ERROR\<rparr>)
         else do {
           L1 \<leftarrow> GenerateConsensusSubsets E rnd L';
           (ok, L2) \<leftarrow> StartConsensusSubsets E rnd L1;
           Some L2 })"

definition start_window :: "'pt ConsensusLeader \<Rightarrow> 'pt ConsensusLeader" where
  "start_window L =
     emit StartCommitWindow (L\<lparr>m_sufficientCommitsReceived := False, m_windows := m_windows L + 1\<rparr>)"

section \<open>Commit failure\<close>

text \<open>Enough failures: reset the session and tell the committee.\<close>

definition fail_consensus ::
    "'pt env \<Rightarrow> rand \<Rightarrow> 'pt ConsensusLeader \<Rightarrow> (bool \<times> 'pt ConsensusLeader) option" where
  "fail_consensus E rnd L = do {
     let L2 = L\<lparr>m_state := INITIAL\<rparr>;
     (failmsg, ok) \<leftarrow> SetConsensusConsensusFailure (ossl E) (pb E)
        (message_header L2 CONSENSUSFAILURE) 3 (m_consensusID L2) (m_blockNumber L2)
        (m_blockHash L2) (m_myID L2) (myKey (ossl E) L2) (draws rnd);
     if \<not> ok then Some (False, L2)
     else Some (True, emit (ShardCommitFailureHandler (m_commitFailureMap L2))
                        (emit (SendMessage (map snd (m_committee L2)) failmsg) L2)) }"

definition record_failure :: "nat \<Rightarrow> bytes \<Rightarrow> Peer \<Rightarrow> 'pt ConsensusLeader \<Rightarrow> 'pt ConsensusLeader" where
  "record_failure backupID errorMsg from L =
     emit (NodeCommitFailureHandler errorMsg from)
       (L\<lparr>m_commitFailureCounter := u32 (m_commitFailureCounter L + 1),
          m_commitFailureMap := m_commitFailureMap L @ [(backupID, errorMsg)]\<rparr>)"

definition ProcessMessageCommitFailure ::
    "'pt env \<Rightarrow> rand \<Rightarrow> bytes \<Rightarrow> nat \<Rightarrow> Peer \<Rightarrow> 'pt ConsensusLeader \<Rightarrow> (bool \<times> 'pt ConsensusLeader) option" where
  "ProcessMessageCommitFailure E rnd msg offset from L =
     (if \<not> Leader_CheckState L PROCESS_COMMITFAILURE then Some (False, L)
      else do {
        r \<leftarrow> GetConsensusCommitFailure (ossl E) (pb E) msg offset (m_consensusID L) (m_blockNumber L)
               (m_blockHash L) (m_committee L);
        case r of
          None \<Rightarrow> Some (False, L)
        | Some (backupID, errorMsg) \<Rightarrow>
            if map_of (m_commitFailureMap L) backupID \<noteq> None then Some (False, L)
            else
              let L1 = record_failure backupID errorMsg from L
              in if m_commitFailureCounter L1 = m_numForConsensusFailure L1 then fail_consensus E rnd L1
                 else Some (True, L1) })"

section \<open>Collective signature\<close>

definition put_subset :: "nat \<Rightarrow> 'pt ConsensusSubset \<Rightarrow> 'pt ConsensusLeader \<Rightarrow> 'pt ConsensusLeader" where
  "put_subset subsetID sub L =
     L\<lparr>m_consensusSubsets := (m_consensusSubsets L)[subsetID := sub]\<rparr>"

definition GenerateCollectiveSigMessage ::
    "'pt env \<Rightarrow> rand \<Rightarrow> bytes \<Rightarrow> nat \<Rightarrow> nat \<Rightarrow> 'pt ConsensusLeader
     \<Rightarrow> (bool \<times> bytes \<times> 'pt ConsensusLeader) option" where
  "GenerateCollectiveSigMessage E rnd collectivesig offset subsetID L = do {
     sub \<leftarrow> vec_at (m_consensusSubsets L) subsetID;
     let aggregated_response = AggregateResponses (ossl E) (responseData sub);
     if \<not> finit aggregated_response then do {
       L' \<leftarrow> SetStateSubset subsetID ERROR L;
       Some (False, collectivesig, L') }
     else do {
       aggregated_key \<leftarrow> AggregateKeys (ossl E) (m_committee L) (responseMap sub);
       let sig = AggregateSign (challenge sub) aggregated_response;
       let L1 = put_subset subsetID (sub\<lparr>collectiveSig := sig\<rparr>) L;
       verified \<leftarrow> MultiSigVerify (ossl E) (m_messageToCosign L1) sig aggregated_key;
       if \<not> verified then do {
         L' \<leftarrow> SetStateSubset subsetID ERROR L1;
         Some (False, collectivesig, L') }
       else do {
         (msg, ok) \<leftarrow> SetConsensusCollectiveSig (ossl E) (pb E) collectivesig offset (m_consensusID L1)
                        (m_blockNumber L1) (m_blockHash L1) (m_myID L1) sig (responseMap sub)
                        (myKey (ossl E) L1) (draws rnd);
         if \<not> ok then Some (False, msg, L1)
         else Some (True, msg, L1\<lparr>m_collectiveSig := sig\<rparr>) } } }"

definition SubsetEnded :: "nat \<Rightarrow> 'pt ConsensusLeader \<Rightarrow> 'pt ConsensusLeader option" where
  "SubsetEnded subsetID L = do {
     sub \<leftarrow> vec_at (m_consensusSubsets L) subsetID;
     if subset_state sub = COLLECTIVESIG_DONE \<or> subset_state sub = DONE
     then Some (L\<lparr>m_consensusSubsets :=
                    (map (subset_set_state INITIAL) (m_consensusSubsets L))[subsetID := sub],
                  m_state := subset_state sub\<rparr>)
     else
       let running = sub32 (m_numSubsetsRunning L) 1
       in Some (if running = 0 then L\<lparr>m_numSubsetsRunning := running, m_state := ERROR\<rparr>
                else L\<lparr>m_numSubsetsRunning := running\<rparr>) }"

text \<open>The bookkeeping of a finished first round: extend the message to co-sign with the collective
  signature and its bitmap, keep both, and prepare the second round.\<close>

definition finish_first_round :: "'pt env \<Rightarrow> 'pt ConsensusSubset \<Rightarrow> 'pt ConsensusLeader \<Rightarrow> 'pt ConsensusLeader option" where
  "finish_first_round E sub L = do {
     let msg1 = fst (Signature_Serialize (m_messageToCosign L) (u32 (length (m_messageToCosign L)))
                       (collectiveSig sub));
     (msg2, sz) \<leftarrow> SetBitVector msg1 (u32 (length msg1)) (responseMap sub);
     point \<leftarrow> m_commitPoint L;
     let n = length (m_committee L);
     pm \<leftarrow> vec_put (vec_resize (CommitPoint_default (ossl E)) n (m_commitPointMap L)) (m_myID L)
             (CommitPoint_copy point);
     cm \<leftarrow> vec_put (replicate n False) (m_myID L) True;
     Some (L\<lparr>m_messageToCosign := msg2, m_CS1 := collectiveSig sub, m_B1 := responseMap sub,
             m_commitMap := cm, m_commitPoints := [CommitPoint_copy point], m_commitPointMap := pm,
             m_commitCounter := 1, m_commitFailureCounter := 0, m_commitFailureMap := [],
             m_commitRedundantCounter := 0,
             m_commitRedundantMap := replicate (length (m_commitRedundantMap L)) False\<rparr>) }"

definition finish_second_round :: "'pt ConsensusSubset \<Rightarrow> 'pt ConsensusLeader \<Rightarrow> 'pt ConsensusLeader" where
  "finish_second_round sub L = L\<lparr>m_CS2 := collectiveSig sub, m_B2 := responseMap sub\<rparr>"

text \<open>Sufficient responses: build, verify and publish the collective signature.\<close>

definition complete_subset ::
    "'pt env \<Rightarrow> rand \<Rightarrow> nat \<Rightarrow> LeaderAction \<Rightarrow> ConsensusMessageType \<Rightarrow> State \<Rightarrow> 'pt ConsensusLeader
     \<Rightarrow> (bool \<times> 'pt ConsensusLeader) option" where
  "complete_subset E rnd subsetID action returnmsgtype nextstate L = do {
     (ok, msg, L1) \<leftarrow> GenerateCollectiveSigMessage E rnd (message_header L returnmsgtype) 3 subsetID L;
     if \<not> ok then Some (False, L1)
     else do {
       L2 \<leftarrow> SetStateSubset subsetID nextstate L1;
       sub \<leftarrow> vec_at (m_consensusSubsets L2) subsetID;
       let L3 = L2\<lparr>m_state := nextstate\<rparr>;
       L4 \<leftarrow> (if action = PROCESS_RESPONSE then finish_first_round E sub L3
              else Some (finish_second_round sub L3));
       L5 \<leftarrow> SubsetEnded subsetID L4;
       let L6 = (if BROADCAST_GOSSIP_MODE E then emit (SpreadRumor msg) L5
                 else emit (SendMessage (map snd (m_committee L5)) msg) L5);
       Some (True, if m_state L6 = COLLECTIVESIG_DONE \<and> m_numOfSubsets L6 > 1 then start_window L6 else L6) } }"

section \<open>Response\<close>

definition accept_response :: "nat \<Rightarrow> Response \<Rightarrow> 'pt ConsensusSubset \<Rightarrow> 'pt ConsensusSubset option" where
  "accept_response backupID r sub = do {
     rdm \<leftarrow> vec_put (responseDataMap sub) backupID (Response_copy r);
     rm \<leftarrow> vec_put (responseMap sub) backupID True;
     Some (sub\<lparr>responseData := responseData sub @ [Response_copy r], responseDataMap := rdm,
                  responseMap := rm, responseCounter := u32 (responseCounter sub + 1)\<rparr>) }"

text \<open>The checks of one entry of the response message before the state is updated.\<close>

definition response_acceptable ::
    "'pt openssl \<Rightarrow> nat \<Rightarrow> LeaderAction \<Rightarrow> nat \<Rightarrow> Response \<Rightarrow> 'pt ConsensusLeader \<Rightarrow> bool option" where
  "response_acceptable B backupID action subsetID r L = do {
     ok \<leftarrow> CheckStateSubset L subsetID action;
     if \<not> ok then Some False
     else do {
       sub \<leftarrow> vec_at (m_consensusSubsets L) subsetID;
       if backupID \<ge> length (responseDataMap sub) then Some False
       else do {
         committed \<leftarrow> vec_at (commitMap sub) backupID;
         if \<not> committed then Some False
         else do {
           responded \<leftarrow> vec_at (responseMap sub) backupID;
           if responded then Some False
           else do {
             cp \<leftarrow> vec_at (commitPointMap sub) backupID;
             Some (VerifyResponse B (Some r) (challenge sub)
                     (fst (GetCommitteeMember B L backupID)) cp) } } } } }"

fun response_loop ::
    "'pt env \<Rightarrow> rand \<Rightarrow> nat \<Rightarrow> LeaderAction \<Rightarrow> ConsensusMessageType \<Rightarrow> State \<Rightarrow> nat \<Rightarrow> Response list
     \<Rightarrow> 'pt ConsensusLeader \<Rightarrow> (bool \<times> 'pt ConsensusLeader) option" where
  "response_loop E rnd backupID action returnmsgtype nextstate subsetID [] L = Some (True, L)"
| "response_loop E rnd backupID action returnmsgtype nextstate subsetID (r # rs) L = do {
     ok \<leftarrow> response_acceptable (ossl E) backupID action subsetID r L;
     if \<not> ok then response_loop E rnd backupID action returnmsgtype nextstate (subsetID + 1) rs L
     else if \<not> Leader_CheckState L action then Some (False, L)
     else do {
       again \<leftarrow> CheckStateSubset L subsetID action;
       if \<not> again then Some (False, L)
       else do {
         sub \<leftarrow> vec_at (m_consensusSubsets L) subsetID;
         sub' \<leftarrow> accept_response backupID r sub;
         let L1 = put_subset subsetID sub' L;
         if responseCounter sub' = m_numForConsensus L1
         then complete_subset E rnd subsetID action returnmsgtype nextstate L1
         else response_loop E rnd backupID action returnmsgtype nextstate (subsetID + 1) rs L1 } } }"

definition ProcessMessageResponseCore ::
    "'pt env \<Rightarrow> rand \<Rightarrow> bytes \<Rightarrow> nat \<Rightarrow> LeaderAction \<Rightarrow> ConsensusMessageType \<Rightarrow> State \<Rightarrow> Peer
     \<Rightarrow> 'pt ConsensusLeader \<Rightarrow> (bool \<times> 'pt ConsensusLeader) option" where
  "ProcessMessageResponseCore E rnd response offset action returnmsgtype nextstate from L =
     (if \<not> Leader_CheckState L action then Some (False, L)
      else do {
        r \<leftarrow> GetConsensusResponse (ossl E) (pb E) response offset (m_consensusID L) (m_blockNumber L)
               (m_blockHash L) (m_committee L);
        case r of
          None \<Rightarrow> Some (False, L)
        | Some (backupID, subsetInfo) \<Rightarrow> do {
            node \<leftarrow> vec_at (m_committee L) backupID;
            if m_ipAddress (snd node) \<noteq> m_ipAddress from then Some (False, L)
            else if length subsetInfo > length (m_consensusSubsets L) then Some (False, L)
            else response_loop E rnd backupID action returnmsgtype nextstate 0 subsetInfo L } })"

definition ProcessMessageResponse ::
    "'pt env \<Rightarrow> rand \<Rightarrow> bytes \<Rightarrow> nat \<Rightarrow> Peer \<Rightarrow> 'pt ConsensusLeader \<Rightarrow> (bool \<times> 'pt ConsensusLeader) option" where
  "ProcessMessageResponse E rnd response offset from L =
     ProcessMessageResponseCore E rnd response offset PROCESS_RESPONSE COLLECTIVESIG COLLECTIVESIG_DONE from L"

definition ProcessMessageFinalResponse ::
    "'pt env \<Rightarrow> rand \<Rightarrow> bytes \<Rightarrow> nat \<Rightarrow> Peer \<Rightarrow> 'pt ConsensusLeader \<Rightarrow> (bool \<times> 'pt ConsensusLeader) option" where
  "ProcessMessageFinalResponse E rnd finalresponse offset from L =
     ProcessMessageResponseCore E rnd finalresponse offset PROCESS_FINALRESPONSE FINALCOLLECTIVESIG DONE from L"

section \<open>Session\<close>

definition ConsensusLeader_new ::
    "'pt env \<Rightarrow> int option list \<Rightarrow> nat \<Rightarrow> nat \<Rightarrow> bytes \<Rightarrow> nat \<Rightarrow> PrivKey \<Rightarrow> 'pt DequeOfNode \<Rightarrow> byte \<Rightarrow> byte
     \<Rightarrow> bool \<Rightarrow> 'pt ConsensusLeader option" where
  "ConsensusLeader_new E secretDraws consensus_id block_number block_hash node_id privkey committee
       class_byte ins_byte isDS = do {
     let n = length committee;
     let num = NumForConsensus n;
     secret \<leftarrow> CommitSecret_generate 0 secretDraws;
     let point = CommitPoint_from_secret (ossl E) secret;
     cm \<leftarrow> vec_put (replicate n False) node_id True;
     pm \<leftarrow> vec_put (replicate n (CommitPoint_copy (CommitPoint_default (ossl E)))) node_id (CommitPoint_copy point);
     Some \<lparr>m_state = INITIAL, m_consensusErrorCode = NO_ERROR, m_consensusID = consensus_id,
           m_blockNumber = block_number, m_blockHash = block_hash, m_myID = node_id,
           m_myPrivKey = privkey, m_committee = committee, m_messageToCosign = [],
           m_classByte = class_byte, m_insByte = ins_byte, m_collectiveSig = Signature_default,
           m_responseMap = replicate n False, m_CS1 = Signature_default, m_B1 = [],
           m_CS2 = Signature_default, m_B2 = [], m_commitSecret = Some secret,
           m_commitPoint = Some point, m_outbox = [],
           m_numForConsensus = num, m_numForConsensusFailure = u32 (sub64 n num), m_DS = isDS,
           m_numOfSubsets = (if isDS then DS_NUM_CONSENSUS_SUBSETS E else SHARD_NUM_CONSENSUS_SUBSETS E),
           m_commitCounter = 1, m_sufficientCommitsReceived = False,
           m_sufficientCommitsNumForSubsets = u32 ((n * COMMIT_TOLERANCE_PERCENT E + 99) div 100),
           m_commitMap = cm, m_commitPointMap = pm, m_commitPoints = [CommitPoint_copy point],
           m_commitRedundantCounter = 0, m_commitRedundantMap = replicate n False,
           m_commitRedundantPointMap = replicate n (CommitPoint_copy (CommitPoint_default (ossl E))),
           m_commitFailureCounter = 0, m_commitFailureMap = [], m_consensusSubsets = [],
           m_numSubsetsRunning = 0, m_windows = 0\<rparr> }"

text \<open>The announcement generator is supplied by the caller; it returns whether it succeeded, the
  announcement and the message to co-sign.\<close>

type_synonym 'pt announcement_generator =
  "bytes \<Rightarrow> nat \<Rightarrow> nat \<Rightarrow> nat \<Rightarrow> bytes \<Rightarrow> nat \<Rightarrow> 'pt PairOfKey \<Rightarrow> bytes \<Rightarrow> bool \<times> bytes \<times> bytes"

definition StartConsensus ::
    "'pt env \<Rightarrow> 'pt announcement_generator \<Rightarrow> bool \<Rightarrow> 'pt ConsensusLeader \<Rightarrow> bool \<times> 'pt ConsensusLeader" where
  "StartConsensus E announcementGeneratorFunc useGossipProto L =
     (if \<not> Leader_CheckState L SEND_ANNOUNCEMENT then (False, L)
      else
        (case announcementGeneratorFunc (message_header L ANNOUNCE) 3 (m_consensusID L) (m_blockNumber L)
                (m_blockHash L) (m_myID L) (myKey (ossl E) L) (m_messageToCosign L) of
           (ok, announcement, toCosign) \<Rightarrow>
             let L1 = L\<lparr>m_messageToCosign := toCosign\<rparr>
             in if \<not> ok then (False, L1)
                else
                  let L2 = L1\<lparr>m_state := ANNOUNCE_DONE, m_commitRedundantCounter := 0,
                              m_commitFailureCounter := 0\<rparr>;
                      L3 = (if useGossipProto then emit (SpreadRumor announcement) L2
                            else emit (SendMessage (map snd (m_committee L2)) announcement) L2)
                  in (True, if m_numOfSubsets L3 > 1 then start_window L3 else L3)))"

definition Leader_ProcessMessage ::
    "'pt env \<Rightarrow> rand \<Rightarrow> bytes \<Rightarrow> nat \<Rightarrow> Peer \<Rightarrow> 'pt ConsensusLeader \<Rightarrow> (bool \<times> 'pt ConsensusLeader) option" where
  "Leader_ProcessMessage E rnd message offset from L = do {
     t \<leftarrow> vec_at message offset;
     if t = type_byte COMMIT then ProcessMessageCommit E rnd message (offset + 1) from L
     else if t = type_byte COMMITFAILURE then ProcessMessageCommitFailure E rnd message (offset + 1) from L
     else if t = type_byte RESPONSE then ProcessMessageResponse E rnd message (offset + 1) from L
     else if t = type_byte FINALCOMMIT then ProcessMessageFinalCommit E rnd message (offset + 1) from L
     else if t = type_byte FINALRESPONSE then ProcessMessageFinalResponse E rnd message (offset + 1) from L
     else Some (False, L) }"

end
