(* ===== verification/LeaderInvariant.thy ===== *)
theory LeaderInvariant
  imports ConsensusLeader "HOL-Library.Multiset"
begin

text \<open>
  The invariant of the leader. The first part shows that every subset \<open>GenerateConsensusSubsets\<close>
  builds has exactly \<open>NumForConsensus\<close> members, all of whom committed; the second states the
  invariant of a session and shows that building and starting the subsets establishes it.
\<close>

section \<open>Subsets under construction\<close>

definition members :: "'pt ConsensusSubset \<Rightarrow> nat set" where
  "members sub = {i. i < length (commitMap sub) \<and> commitMap sub ! i}"

text \<open>A subset with members \<open>S\<close> that has no responses yet.\<close>

definition subset_partial :: "nat \<Rightarrow> nat set \<Rightarrow> 'pt ConsensusSubset \<Rightarrow> bool" where
  "subset_partial n S sub \<longleftrightarrow>
     length (commitMap sub) = n \<and> length (commitPointMap sub) = n
     \<and> length (responseDataMap sub) = n \<and> responseMap sub = replicate n False
     \<and> responseData sub = [] \<and> responseCounter sub = 0
     \<and> members sub = S \<and> length (commitPoints sub) = card S"

lemma members_bounded: "members sub \<subseteq> {..<length (commitMap sub)}" "finite (members sub)"
  by (auto simp: members_def intro: finite_subset [of _ "{..<length (commitMap sub)}"])

lemma popcount_members: "popcount (commitMap sub) = card (members sub)"
  by (simp add: popcount_card members_def)

lemma subset_init_partial: "subset_partial n {} (subset_init B n st)"
  by (auto simp: subset_partial_def subset_init_def members_def)

lemma subset_add_partial:
  assumes "subset_partial n S sub" "length pm = n" "index < n" "index \<notin> S"
  shows "\<exists>sub'. subset_add pm index sub = Some sub' \<and> subset_partial n (insert index S) sub'
    \<and> subset_state sub' = subset_state sub"
proof -
  have fin: "finite S" using assms(1) members_bounded(2) by (auto simp: subset_partial_def)
  have "members (sub\<lparr>commitPointMap := a, commitPoints := b, commitMap := (commitMap sub)[index := True]\<rparr>)
      = insert index S" for a b
    using assms by (auto simp: subset_partial_def members_def nth_list_update)
  then show ?thesis
    using assms fin by (simp add: subset_add_def vec_at_def vec_put_def subset_partial_def)
qed

lemma fill_loop_partial:
  assumes "subset_partial n S sub" "length pm = n" "set peers \<subseteq> {..<n}" "distinct peers"
    "set (drop j peers) \<inter> S = {}" "j + r \<le> length peers"
  shows "\<exists>sub'. fill_loop pm peers j r sub = Some sub'
    \<and> subset_partial n (S \<union> set (take r (drop j peers))) sub'"
  using assms
proof (induction r arbitrary: j S sub)
  case (Suc r)
  then have j: "j < length peers" by simp
  have drop: "drop j peers = peers ! j # drop (j + 1) peers" using j by (simp add: Cons_nth_drop_Suc)
  have "peers ! j < n" "peers ! j \<notin> S" using Suc.prems j drop by (auto simp: subset_iff)
  then obtain sub1 where sub1: "subset_add pm (peers ! j) sub = Some sub1"
      "subset_partial n (insert (peers ! j) S) sub1"
    using subset_add_partial [OF Suc.prems(1,2)] by blast
  have "distinct (peers ! j # drop (j + 1) peers)" using Suc.prems(4) drop distinct_drop by metis
  then have disj: "set (drop (j + 1) peers) \<inter> insert (peers ! j) S = {}" using Suc.prems(5) drop by auto
  obtain sub2 where "fill_loop pm peers (j + 1) r sub1 = Some sub2"
      "subset_partial n (insert (peers ! j) S \<union> set (take r (drop (j + 1) peers))) sub2"
    using Suc.IH [OF sub1(2) Suc.prems(2,3,4) disj] Suc.prems(6) by auto
  then show ?case using j sub1(1) drop by (simp add: vec_at_def)
qed simp

lemma nonguard_loop_partial:
  assumes "subset_partial n S sub" "length pm = n" "set idxs \<subseteq> {..<n}" "distinct idxs"
    "set idxs \<inter> S = {}" "cnt = card S" "cnt < num" "num < 2 ^ 32"
  shows "\<exists>sub' T. nonguard_loop pm num sub cnt idxs = Some sub' \<and> T \<subseteq> set idxs
    \<and> subset_partial n (S \<union> T) sub' \<and> card (S \<union> T) = min num (cnt + length idxs)"
  using assms
proof (induction idxs arbitrary: S sub cnt)
  case Nil
  then show ?case by auto
next
  case (Cons i idxs)
  obtain sub1 where sub1: "subset_add pm i sub = Some sub1" "subset_partial n (insert i S) sub1"
    using subset_add_partial [OF Cons.prems(1,2), of i] Cons.prems by auto
  have fin: "finite S" using Cons.prems(1) members_bounded(2) by (auto simp: subset_partial_def)
  have card: "card (insert i S) = cnt + 1" using Cons.prems fin by auto
  have wrap: "u32 (cnt + 1) = cnt + 1" using Cons.prems by simp
  show ?case
  proof (cases "cnt + 1 \<ge> num")
    case True
    then show ?thesis
      using sub1 card Cons.prems wrap by (intro exI [of _ sub1] exI [of _ "{i}"]) auto
  next
    case False
    then obtain sub2 T where "nonguard_loop pm num sub1 (cnt + 1) idxs = Some sub2" "T \<subseteq> set idxs"
        "subset_partial n (insert i S \<union> T) sub2"
        "card (insert i S \<union> T) = min num (cnt + 1 + length idxs)"
      using Cons.IH [OF sub1(2), of "cnt + 1"] Cons.prems card by auto
    then show ?thesis
      using sub1(1) wrap False by (intro exI [of _ sub2] exI [of _ "insert i T"]) auto
  qed
qed

lemma guard_loop_partial:
  assumes "subset_partial n S sub" "length pm = n" "set idxs \<subseteq> {..<n}" "distinct (ng @ idxs)"
    "set idxs \<inter> S = {}" "cnt = card S" "cnt < num \<or> idxs = []" "cnt \<le> num" "num < 2 ^ 32"
  shows "\<exists>sub' T ng'. guard_loop pm g num sub cnt ng idxs = Some (sub', card (S \<union> T), ng')
    \<and> T \<subseteq> set idxs \<and> subset_partial n (S \<union> T) sub' \<and> card (S \<union> T) \<le> num
    \<and> (card (S \<union> T) < num \<longrightarrow> distinct ng' \<and> set ng' = set ng \<union> (set idxs - T))"
  using assms
proof (induction idxs arbitrary: S sub cnt ng)
  case Nil
  then show ?case by auto
next
  case (Cons i idxs)
  have fin: "finite S" using Cons.prems(1) members_bounded(2) by (auto simp: subset_partial_def)
  show ?case
  proof (cases "i < g")
    case guard: True
    obtain sub1 where sub1: "subset_add pm i sub = Some sub1" "subset_partial n (insert i S) sub1"
      using subset_add_partial [OF Cons.prems(1,2), of i] Cons.prems by auto
    have card: "card (insert i S) = cnt + 1" using Cons.prems fin by auto
    have wrap: "u32 (cnt + 1) = cnt + 1" using Cons.prems by simp
    show ?thesis
    proof (cases "cnt + 1 = num")
      case True
      then show ?thesis
        using sub1 card guard wrap by (intro exI [of _ sub1] exI [of _ "{i}"] exI [of _ ng]) auto
    next
      case False
      then have "cnt + 1 < num" using Cons.prems by auto
      then obtain sub2 T ng' where "guard_loop pm g num sub1 (cnt + 1) ng idxs
            = Some (sub2, card (insert i S \<union> T), ng')" "T \<subseteq> set idxs"
          "subset_partial n (insert i S \<union> T) sub2" "card (insert i S \<union> T) \<le> num"
          "card (insert i S \<union> T) < num \<longrightarrow> distinct ng' \<and> set ng' = set ng \<union> (set idxs - T)"
        using Cons.IH [OF sub1(2), of ng "cnt + 1"] Cons.prems card by auto
      then show ?thesis
        using sub1(1) wrap False guard Cons.prems(4)
        by (intro exI [of _ sub2] exI [of _ "insert i T"] exI [of _ ng']) auto
    qed
  next
    case nonguard: False
    then obtain sub2 T ng' where "guard_loop pm g num sub cnt (ng @ [i]) idxs
          = Some (sub2, card (S \<union> T), ng')" "T \<subseteq> set idxs"
        "subset_partial n (S \<union> T) sub2" "card (S \<union> T) \<le> num"
        "card (S \<union> T) < num \<longrightarrow> distinct ng' \<and> set ng' = set (ng @ [i]) \<union> (set idxs - T)"
      using Cons.IH [OF Cons.prems(1,2), of "ng @ [i]" cnt] Cons.prems by auto
    then show ?thesis
      using nonguard Cons.prems(4) by (intro exI [of _ sub2] exI [of _ T] exI [of _ ng']) auto
  qed
qed

text \<open>A finished subset: the leader and \<open>num - 1\<close> of the peers, no responses yet.\<close>

definition subset_fresh :: "nat \<Rightarrow> nat \<Rightarrow> nat \<Rightarrow> nat set \<Rightarrow> 'pt ConsensusSubset \<Rightarrow> bool" where
  "subset_fresh n num me allowed sub \<longleftrightarrow>
     (\<exists>S. subset_partial n S sub \<and> card S = num \<and> me \<in> S \<and> S \<subseteq> allowed)"

lemma make_subset_fresh:
  assumes L: "n = length (m_committee L)" "num = m_numForConsensus L" "me = m_myID L"
      "length (m_commitPointMap L) = n" "me < n"
    and peers: "set peers \<subseteq> {..<n}" "distinct peers" "me \<notin> set peers"
    and enough: "num \<le> length peers + 1" "0 < num" "num < 2 ^ 32" "num = 1 \<longrightarrow> peers = []"
  shows "\<exists>sub. make_subset E L i peers = Some sub \<and> subset_fresh n num me (insert me (set peers)) sub"
proof -
  let ?pm = "m_commitPointMap L"
  obtain sub0 where sub0: "subset_add ?pm me (subset_init (ossl E) n (m_state L)) = Some sub0"
      "subset_partial n {me} sub0"
    using subset_add_partial [OF subset_init_partial L(4,5)] by blast
  show ?thesis
  proof (cases "m_DS L \<and> GUARD_MODE E \<and> i = 0")
    case guarded: True
    obtain sub1 T ng where sub1: "guard_loop ?pm (NumOfDSGuard E) num sub0 1 [] peers
          = Some (sub1, card ({me} \<union> T), ng)" "T \<subseteq> set peers" "subset_partial n ({me} \<union> T) sub1"
        "card ({me} \<union> T) \<le> num"
        "card ({me} \<union> T) < num \<longrightarrow> distinct ng \<and> set ng = set [] \<union> (set peers - T)"
    proof -
      have pre: "distinct ([] @ peers)" "set peers \<inter> {me} = {}" "1 = card {me}" "1 < num \<or> peers = []"
          "1 \<le> num" using peers enough by auto
      from guard_loop_partial [OF sub0(2) L(4) peers(1) pre enough(3), of "NumOfDSGuard E"] that
      show ?thesis by blast
    qed
    show ?thesis
    proof (cases "card ({me} \<union> T) < num")
      case True
      have fin: "finite ({me} \<union> T)" using sub1(2) by (meson finite_UnI finite.emptyI finite.insertI finite_set finite_subset)
      have "card ({me} \<union> T) + length ng = card (insert me (set peers))"
      proof -
        have "length ng = card (set peers - T)" using sub1(5) True distinct_card by fastforce
        moreover have "card (({me} \<union> T) \<union> (set peers - T)) = card ({me} \<union> T) + card (set peers - T)"
          by (rule card_Un_disjoint) (use fin peers in auto)
        moreover have "({me} \<union> T) \<union> (set peers - T) = insert me (set peers)" using sub1(2) by auto
        ultimately show ?thesis by simp
      qed
      also have "\<dots> = length peers + 1" using peers by (simp add: distinct_card)
      finally have total: "card ({me} \<union> T) + length ng = length peers + 1" .
      obtain sub2 U where "nonguard_loop ?pm num sub1 (card ({me} \<union> T)) ng = Some sub2" "U \<subseteq> set ng"
          "subset_partial n (({me} \<union> T) \<union> U) sub2"
          "card (({me} \<union> T) \<union> U) = min num (card ({me} \<union> T) + length ng)"
      proof -
        have ng: "distinct ng" "set ng = set peers - T" using sub1(5) True by auto
        then have pre: "set ng \<subseteq> {..<n}" "set ng \<inter> ({me} \<union> T) = {}" using peers by auto
        from nonguard_loop_partial [OF sub1(3) L(4) pre(1) ng(1) pre(2) refl True enough(3)] that
        show ?thesis by blast
      qed
      moreover have "({me} \<union> T) \<union> U \<subseteq> insert me (set peers)"
        using sub1(2,5) True calculation(2) by auto
      ultimately show ?thesis
        using sub0(1) sub1(1) True guarded L total enough
        by (auto simp: make_subset_def subset_fresh_def)
    next
      case False
      then have "card ({me} \<union> T) = num" using sub1(4) by simp
      then show ?thesis
        using sub0(1) sub1 False guarded L by (auto simp: make_subset_def subset_fresh_def)
    qed
  next
    case False
    have r: "sub32 num 1 = num - 1" using enough by (simp add: sub32_le)
    obtain sub1 where "fill_loop ?pm peers 0 (num - 1) sub0 = Some sub1"
        "subset_partial n ({me} \<union> set (take (num - 1) peers)) sub1"
    proof -
      have pre: "set (drop 0 peers) \<inter> {me} = {}" "0 + (num - 1) \<le> length peers"
        using peers enough by auto
      from fill_loop_partial [OF sub0(2) L(4) peers(1,2) pre] that show ?thesis by auto
    qed
    moreover have "card ({me} \<union> set (take (num - 1) peers)) = num"
    proof -
      have "card (set (take (num - 1) peers)) = num - 1"
        using peers(2) enough by (simp add: distinct_card)
      moreover have "me \<notin> set (take (num - 1) peers)" using peers(3) by (meson in_set_takeD)
      ultimately show ?thesis using enough by simp
    qed
    moreover have "{me} \<union> set (take (num - 1) peers) \<subseteq> insert me (set peers)"
      using set_take_subset by fastforce
    ultimately show ?thesis
      using sub0(1) False L r by (auto simp: make_subset_def subset_fresh_def)
  qed
qed

definition rand_ok :: "rand \<Rightarrow> bool" where
  "rand_ok rnd \<longleftrightarrow> (\<forall>i xs. mset (shuffle rnd i xs) = mset xs)"

lemma rand_ok_shuffle:
  assumes "\<forall>i xs. mset (shuf i xs) = mset (xs :: nat list)"
  shows "set (shuf i xs) = set xs" "distinct (shuf i xs) = distinct xs" "length (shuf i xs) = length xs"
proof -
  have m: "mset (shuf i xs) = mset xs" using assms by blast
  then show "set (shuf i xs) = set xs" by (metis set_mset_mset)
  show "distinct (shuf i xs) = distinct xs" using m by (rule mset_eq_imp_distinct_iff)
  show "length (shuf i xs) = length xs" using m by (rule mset_eq_length)
qed

lemma subset_loop_fresh:
  assumes L: "n = length (m_committee L)" "num = m_numForConsensus L" "me = m_myID L"
      "length (m_commitPointMap L) = n" "me < n"
    and peers: "set peers \<subseteq> {..<n}" "distinct peers" "me \<notin> set peers"
    and enough: "num \<le> length peers + 1" "0 < num" "num < 2 ^ 32" "num = 1 \<longrightarrow> peers = []"
    and shuf: "\<forall>i xs. mset (shuf i xs) = mset xs"
  shows "\<exists>subs. subset_loop E L shuf i r peers = Some subs \<and> length subs = r
    \<and> (\<forall>sub \<in> set subs. subset_fresh n num me (insert me (set peers)) sub)"
  using peers enough
proof (induction r arbitrary: i peers)
  case (Suc r)
  note sh = rand_ok_shuffle [OF shuf, of i peers]
  obtain sub where sub: "make_subset E L i peers = Some sub"
      "subset_fresh n num me (insert me (set peers)) sub"
    using make_subset_fresh [OF L Suc.prems] by blast
  have "num = 1 \<longrightarrow> shuf i peers = []" using Suc.prems(7) sh(3) by auto
  then obtain subs where "subset_loop E L shuf (i + 1) r (shuf i peers) = Some subs" "length subs = r"
      "\<forall>sub \<in> set subs. subset_fresh n num me (insert me (set peers)) sub"
    using Suc.IH [of "shuf i peers" "i + 1"] Suc.prems sh by auto
  then show ?case using sub by simp
qed simp

section \<open>The invariant\<close>

text \<open>A subset of a running session: maps of committee size, exactly \<open>num\<close> members among them the
  leader, responses only from members and counted correctly.\<close>

definition subset_wf :: "nat \<Rightarrow> nat \<Rightarrow> nat \<Rightarrow> 'pt ConsensusSubset \<Rightarrow> bool" where
  "subset_wf n num me sub \<longleftrightarrow>
     length (commitMap sub) = n \<and> length (commitPointMap sub) = n
     \<and> length (responseDataMap sub) = n \<and> length (responseMap sub) = n
     \<and> card (members sub) = num \<and> me \<in> members sub
     \<and> (\<forall>i < n. responseMap sub ! i \<longrightarrow> i \<in> members sub)
     \<and> responseCounter sub = popcount (responseMap sub)
     \<and> length (responseData sub) = popcount (responseMap sub)"

text \<open>The commit maps while commits are being collected.\<close>

definition collecting :: "'pt ConsensusLeader \<Rightarrow> bool" where
  "collecting L \<longleftrightarrow>
     length (m_commitMap L) = length (m_committee L) \<and> length (m_commitPointMap L) = length (m_committee L)
     \<and> m_commitMap L ! m_myID L \<and> m_commitCounter L = popcount (m_commitMap L)"

text \<open>A collective signature over a message by exactly \<open>num\<close> members of the committee.\<close>

definition cosigned ::
    "'pt openssl \<Rightarrow> 'pt DequeOfNode \<Rightarrow> nat \<Rightarrow> bytes \<Rightarrow> Signature \<Rightarrow> bool list \<Rightarrow> bool" where
  "cosigned B committee num message sig bits \<longleftrightarrow>
     length bits = length committee \<and> popcount bits = num
     \<and> (\<exists>key. AggregateKeys B committee bits = Some key \<and> MultiSigVerify B message sig key = Some True)"

definition leader_static :: "'pt ConsensusLeader \<Rightarrow> bool" where
  "leader_static L \<longleftrightarrow>
     m_myID L < length (m_committee L) \<and> length (m_committee L) < 2 ^ 16
     \<and> m_numForConsensus L = NumForConsensus (length (m_committee L))
     \<and> m_commitSecret L \<noteq> None \<and> m_commitPoint L \<noteq> None
     \<and> length (m_commitRedundantMap L) = length (m_committee L)
     \<and> length (m_commitRedundantPointMap L) = length (m_committee L)"

definition leader_windows :: "'pt ConsensusLeader \<Rightarrow> bool" where
  "leader_windows L \<longleftrightarrow>
     m_windows L \<le> 1 \<and> (0 < m_windows L \<longrightarrow> 1 < m_numOfSubsets L \<and> collecting L)
     \<and> (m_state L \<in> {CHALLENGE_DONE, FINALCHALLENGE_DONE} \<longrightarrow> m_windows L = 0)
     \<and> (m_state L \<in> {ANNOUNCE_DONE, COLLECTIVESIG_DONE} \<longrightarrow> collecting L)"

definition leader_subsets :: "'pt ConsensusLeader \<Rightarrow> bool" where
  "leader_subsets L \<longleftrightarrow>
     (\<forall>sub \<in> set (m_consensusSubsets L).
        subset_wf (length (m_committee L)) (m_numForConsensus L) (m_myID L) sub)"

definition leader_message :: "'pt env \<Rightarrow> 'pt ConsensusLeader \<Rightarrow> bool" where
  "leader_message E L \<longleftrightarrow>
     (m_state L \<in> {ANNOUNCE_DONE, CHALLENGE_DONE} \<longrightarrow> length (m_messageToCosign L) < 2 ^ 31)
     \<and> (m_state L \<in> {COLLECTIVESIG_DONE, FINALCHALLENGE_DONE, DONE} \<longrightarrow>
          (\<exists>base. cosigned (ossl E) (m_committee L) (m_numForConsensus L) base (m_CS1 L) (m_B1 L)
             \<and> extended base (m_CS1 L) (m_B1 L) (m_messageToCosign L)))
     \<and> (m_state L = DONE \<longrightarrow>
          cosigned (ossl E) (m_committee L) (m_numForConsensus L) (m_messageToCosign L) (m_CS2 L) (m_B2 L))"

definition leader_inv :: "'pt env \<Rightarrow> 'pt ConsensusLeader \<Rightarrow> bool" where
  "leader_inv E L \<longleftrightarrow> leader_static L \<and> leader_windows L \<and> leader_subsets L \<and> leader_message E L"

lemmas leader_inv_defs = leader_inv_def leader_windows_def leader_subsets_def
  leader_message_def

text \<open>Fields the parts of the invariant do not mention.\<close>

lemma collecting_frame [simp]:
  "collecting (L\<lparr>m_state := v0\<rparr>) = collecting L"
  "collecting (L\<lparr>m_messageToCosign := v1\<rparr>) = collecting L"
  "collecting (L\<lparr>m_collectiveSig := v2\<rparr>) = collecting L"
  "collecting (L\<lparr>m_CS1 := v3\<rparr>) = collecting L"
  "collecting (L\<lparr>m_B1 := v4\<rparr>) = collecting L"
  "collecting (L\<lparr>m_CS2 := v5\<rparr>) = collecting L"
  "collecting (L\<lparr>m_B2 := v6\<rparr>) = collecting L"
  "collecting (L\<lparr>m_outbox := v7\<rparr>) = collecting L"
  "collecting (L\<lparr>m_sufficientCommitsReceived := v8\<rparr>) = collecting L"
  "collecting (L\<lparr>m_commitPoints := v9\<rparr>) = collecting L"
  "collecting (L\<lparr>m_commitRedundantCounter := v10\<rparr>) = collecting L"
  "collecting (L\<lparr>m_commitFailureCounter := v11\<rparr>) = collecting L"
  "collecting (L\<lparr>m_commitFailureMap := v12\<rparr>) = collecting L"
  "collecting (L\<lparr>m_consensusSubsets := v13\<rparr>) = collecting L"
  "collecting (L\<lparr>m_numSubsetsRunning := v14\<rparr>) = collecting L"
  "collecting (L\<lparr>m_windows := v15\<rparr>) = collecting L"
  "collecting (L\<lparr>m_commitRedundantMap := v16\<rparr>) = collecting L"
  "collecting (L\<lparr>m_commitRedundantPointMap := v17\<rparr>) = collecting L"
  by (simp_all add: collecting_def)

lemma leader_static_frame [simp]:
  "leader_static (L\<lparr>m_state := v0\<rparr>) = leader_static L"
  "leader_static (L\<lparr>m_messageToCosign := v1\<rparr>) = leader_static L"
  "leader_static (L\<lparr>m_collectiveSig := v2\<rparr>) = leader_static L"
  "leader_static (L\<lparr>m_CS1 := v3\<rparr>) = leader_static L"
  "leader_static (L\<lparr>m_B1 := v4\<rparr>) = leader_static L"
  "leader_static (L\<lparr>m_CS2 := v5\<rparr>) = leader_static L"
  "leader_static (L\<lparr>m_B2 := v6\<rparr>) = leader_static L"
  "leader_static (L\<lparr>m_outbox := v7\<rparr>) = leader_static L"
  "leader_static (L\<lparr>m_sufficientCommitsReceived := v8\<rparr>) = leader_static L"
  "leader_static (L\<lparr>m_commitPoints := v9\<rparr>) = leader_static L"
  "leader_static (L\<lparr>m_commitRedundantCounter := v10\<rparr>) = leader_static L"
  "leader_static (L\<lparr>m_commitFailureCounter := v11\<rparr>) = leader_static L"
  "leader_static (L\<lparr>m_commitFailureMap := v12\<rparr>) = leader_static L"
  "leader_static (L\<lparr>m_consensusSubsets := v13\<rparr>) = leader_static L"
  "leader_static (L\<lparr>m_numSubsetsRunning := v14\<rparr>) = leader_static L"
  "leader_static (L\<lparr>m_windows := v15\<rparr>) = leader_static L"
  "leader_static (L\<lparr>m_commitMap := v16\<rparr>) = leader_static L"
  "leader_static (L\<lparr>m_commitPointMap := v17\<rparr>) = leader_static L"
  "leader_static (L\<lparr>m_commitCounter := v18\<rparr>) = leader_static L"
  by (simp_all add: leader_static_def)

lemma leader_inv_frame [simp]:
  "leader_inv E (L\<lparr>m_sufficientCommitsReceived := v0\<rparr>) = leader_inv E L"
  "leader_inv E (L\<lparr>m_commitFailureCounter := v1\<rparr>) = leader_inv E L"
  "leader_inv E (L\<lparr>m_commitFailureMap := v2\<rparr>) = leader_inv E L"
  "leader_inv E (L\<lparr>m_collectiveSig := v3\<rparr>) = leader_inv E L"
  "leader_inv E (L\<lparr>m_numSubsetsRunning := v4\<rparr>) = leader_inv E L"
  "leader_inv E (L\<lparr>m_outbox := v5\<rparr>) = leader_inv E L"
  "leader_inv E (L\<lparr>m_commitPoints := v6\<rparr>) = leader_inv E L"
  "leader_inv E (L\<lparr>m_commitRedundantCounter := v7\<rparr>) = leader_inv E L"
  by (simp_all add: leader_inv_defs)

lemma leader_inv_emit [simp]: "leader_inv E (emit out L) = leader_inv E L"
  by (simp add: emit_def)

lemma subset_fresh_wf: "subset_fresh n num me allowed sub \<Longrightarrow> subset_wf n num me sub"
  by (auto simp: subset_fresh_def subset_partial_def subset_wf_def)

lemma collecting_peers:
  assumes "collecting L" "m_myID L < length (m_committee L)"
  shows "length (peers_who_committed L) + 1 = m_commitCounter L"
    and "set (peers_who_committed L) \<subseteq> {..<length (m_committee L)}" "distinct (peers_who_committed L)"
    and "insert (m_myID L) (set (peers_who_committed L)) = {i. i < length (m_commitMap L) \<and> m_commitMap L ! i}"
    and "m_myID L \<notin> set (peers_who_committed L)"
proof -
  let ?P = "peers_who_committed L" and ?me = "m_myID L" and ?M = "m_commitMap L"
  have len: "length ?M = length (m_committee L)" and me: "?M ! ?me"
    and cnt: "m_commitCounter L = popcount ?M"
    using assms by (auto simp: collecting_def)
  show dist: "distinct ?P" by (simp add: peers_who_committed_def)
  show "set ?P \<subseteq> {..<length (m_committee L)}" using len by (auto simp: peers_who_committed_def)
  show ins: "insert ?me (set ?P) = {i. i < length ?M \<and> ?M ! i}"
    using assms(2) len me by (auto simp: peers_who_committed_def)
  show me_notin: "?me \<notin> set ?P" by (simp add: peers_who_committed_def)
  have "card (insert ?me (set ?P)) = length ?P + 1"
    using dist me_notin by (simp add: distinct_card)
  then show "length ?P + 1 = m_commitCounter L" using ins cnt by (simp add: popcount_card)
qed

lemma leader_num:
  assumes "leader_static L"
  shows "0 < m_numForConsensus L" "m_numForConsensus L < 2 ^ 32"
    "m_numForConsensus L \<le> length (m_committee L)"
    "m_numForConsensus L = 1 \<longleftrightarrow> length (m_committee L) = 1"
proof -
  let ?n = "length (m_committee L)"
  have n: "0 < ?n" "?n < 2 ^ 32" and num: "m_numForConsensus L = NumForConsensus ?n"
    using assms by (auto simp: leader_static_def)
  show "0 < m_numForConsensus L" using NumForConsensus_pos [OF n] num by simp
  show le: "m_numForConsensus L \<le> ?n" using NumForConsensus_le(1) [OF n(2)] num by simp
  then show "m_numForConsensus L < 2 ^ 32" using n by simp
  show "m_numForConsensus L = 1 \<longleftrightarrow> ?n = 1"
    using NumForConsensus_ge_2 [of ?n] n num le NumForConsensus_pos [OF n] by fastforce
qed

text \<open>What \<open>GenerateConsensusSubsets\<close> produces.\<close>

lemma GenerateConsensusSubsets_fresh:
  assumes st: "leader_static L" and col: "collecting L" and rnd: "rand_ok rnd"
    and enough: "m_numForConsensus L \<le> m_commitCounter L"
  shows "\<exists>subs. GenerateConsensusSubsets E rnd L
      = Some (L\<lparr>m_consensusSubsets := subs, m_commitPointMap := [], m_commitPoints := [], m_commitMap := []\<rparr>)
    \<and> length subs = (if length (peers_who_committed L) \<le> m_numForConsensus L then 1 else m_numOfSubsets L)
    \<and> (\<forall>sub \<in> set subs. subset_fresh (length (m_committee L)) (m_numForConsensus L) (m_myID L)
          {i. i < length (m_commitMap L) \<and> m_commitMap L ! i} sub)"
proof -
  let ?n = "length (m_committee L)" and ?num = "m_numForConsensus L" and ?P = "peers_who_committed L"
  let ?r = "if length ?P \<le> ?num then 1 else m_numOfSubsets L"
  have me: "m_myID L < ?n" using st by (simp add: leader_static_def)
  have pm: "length (m_commitPointMap L) = ?n" using col by (simp add: collecting_def)
  note peers = collecting_peers [OF col me] and num = leader_num [OF st]
  have one: "?num = 1 \<longrightarrow> ?P = []"
  proof
    assume "?num = 1"
    then have "set ?P \<subseteq> {..<1}" "m_myID L = 0" using num(4) peers(2) me by auto
    moreover have "{..<1 :: nat} = {0}" by auto
    ultimately show "?P = []" using peers(5) by (cases ?P) auto
  qed
  have "?num \<le> length ?P + 1" using enough peers(1) by simp
  from subset_loop_fresh [OF refl refl refl pm me peers(2,3,5) this num(1,2) one
      rnd [unfolded rand_ok_def], of E 0 ?r]
  obtain subs where subs: "subset_loop E L (shuffle rnd) 0 ?r ?P = Some subs" "length subs = ?r"
      "\<forall>sub \<in> set subs. subset_fresh ?n ?num (m_myID L) {i. i < length (m_commitMap L) \<and> m_commitMap L ! i} sub"
    unfolding peers(4) by blast
  have "GenerateConsensusSubsets E rnd L
      = Some (L\<lparr>m_consensusSubsets := subs, m_commitPointMap := [], m_commitPoints := [], m_commitMap := []\<rparr>)"
    unfolding GenerateConsensusSubsets_def Let_def subs(1) by simp
  with subs(2,3) show ?thesis by blast
qed

section \<open>Starting the subsets\<close>

lemma subset_fresh_challenge:
  "subset_fresh n num me A (sub\<lparr>challenge := c\<rparr>) = subset_fresh n num me A sub"
  by (simp add: subset_fresh_def subset_partial_def members_def)

lemma subset_fresh_set_state:
  "subset_fresh n num me A (subset_set_state st sub) = subset_fresh n num me A sub"
  by (simp add: subset_fresh_def subset_partial_def members_def subset_set_state_def)

text \<open>The flags that \<open>GenerateChallengeMessage\<close> tests were set by the assignments just before, so the
  loop never reports failure.\<close>

lemma challenge_loop_fresh:
  assumes "\<forall>sub \<in> set subs. subset_fresh (length committee) num me A sub"
  shows "\<exists>subs' sis. challenge_loop B committee message subs = Some (True, subs', sis)
    \<and> length subs' = length subs
    \<and> (\<forall>sub \<in> set subs'. subset_fresh (length committee) num me A sub)"
  using assms
proof (induction subs)
  case (Cons sub subs)
  have "length (commitMap sub) = length committee"
    using Cons.prems by (auto simp: subset_fresh_def subset_partial_def)
  then obtain key where key: "AggregateKeys B committee (commitMap sub) = Some key"
    using AggregateKeys_total [of "commitMap sub" committee B] by auto
  obtain c where c: "GetChallenge B message
      (CommitPoint_assign (CommitPoint_default B) (AggregateCommits B (commitPoints sub))) key = Some c"
    using GetChallenge_total [of B message] by blast
  obtain subs' sis where "challenge_loop B committee message subs = Some (True, subs', sis)"
      "length subs' = length subs" "\<forall>sub \<in> set subs'. subset_fresh (length committee) num me A sub"
    using Cons by auto
  then show ?case
    using key c Cons.prems
    by (simp add: Let_def CommitPoint_assign_def Challenge_assign_def copied_def subset_fresh_challenge)
qed simp

lemma leader_responds_wf:
  assumes "subset_fresh (length (m_committee L)) num (m_myID L) A sub" "m_commitSecret L \<noteq> None"
    "m_myID L < length (m_committee L)"
  shows "\<exists>sub'. leader_responds B L sub = Some sub'
    \<and> subset_wf (length (m_committee L)) num (m_myID L) sub'"
proof -
  let ?n = "length (m_committee L)" and ?me = "m_myID L"
  let ?sub = "subset_set_state (m_state L) sub"
  obtain secret where secret: "m_commitSecret L = Some secret" using assms(2) by auto
  obtain S where S: "subset_partial ?n S ?sub" "card S = num" "?me \<in> S"
    using subset_fresh_set_state [of ?n num ?me A "m_state L" sub] assms(1)
    by (auto simp: subset_fresh_def)
  have pop: "popcount ((replicate ?n False)[?me := True]) = 1"
    using assms(3) popcount_list_update_True [of ?me "replicate ?n False"] by simp
  have only: "(replicate ?n False)[?me := True] ! i \<longrightarrow> i = ?me" if "i < ?n" for i
    using that by (cases "i = ?me") simp_all
  show ?thesis
    using S assms(3) secret pop only
    by (auto simp: leader_responds_def Let_def vec_put_def subset_wf_def subset_partial_def members_def)
qed

lemma respond_all_wf:
  assumes "\<forall>sub \<in> set subs. subset_fresh (length (m_committee L)) num (m_myID L) A sub"
    "m_commitSecret L \<noteq> None" "m_myID L < length (m_committee L)"
  shows "\<exists>subs'. respond_all B L subs = Some subs' \<and> length subs' = length subs
    \<and> (\<forall>sub \<in> set subs'. subset_wf (length (m_committee L)) num (m_myID L) sub)"
  using assms(1)
proof (induction subs)
  case (Cons sub subs)
  obtain sub' where "leader_responds B L sub = Some sub'"
      "subset_wf (length (m_committee L)) num (m_myID L) sub'"
    using leader_responds_wf [OF _ assms(2,3)] Cons.prems by (meson list.set_intros(1))
  moreover obtain subs' where "respond_all B L subs = Some subs'" "length subs' = length subs"
      "\<forall>sub \<in> set subs'. subset_wf (length (m_committee L)) num (m_myID L) sub"
    using Cons by auto
  ultimately show ?case by simp
qed simp

lemma in_some_subset_total:
  "\<forall>sub \<in> set subs. length (commitMap sub) = n \<Longrightarrow> i < n \<Longrightarrow> in_some_subset subs i \<noteq> None"
  by (induction subs) (auto simp: vec_at_def)

lemma challenge_peers_total:
  "\<forall>sub \<in> set subs. length (commitMap sub) = n \<Longrightarrow> i + length nodes = n \<Longrightarrow>
   challenge_peers subs i nodes \<noteq> None"
proof (induction nodes arbitrary: i)
  case (Cons node nodes)
  obtain b where "in_some_subset subs i = Some b"
    using in_some_subset_total [OF Cons.prems(1), of i] Cons.prems(2) by auto
  moreover obtain ps where "challenge_peers subs (i + 1) nodes = Some ps"
    using Cons.IH [OF Cons.prems(1), of "i + 1"] Cons.prems(2) by auto
  ultimately show ?case by simp
qed simp

definition leader_draws_ok :: "'pt env \<Rightarrow> rand \<Rightarrow> ('pt, 'z) ConsensusCommon_scheme \<Rightarrow> bool" where
  "leader_draws_ok E rnd L \<longleftrightarrow> draws_suffice (ossl E) (fst (myKey (ossl E) L)) (snd (myKey (ossl E) L)) (draws rnd)"

lemma leader_draws_ok_frame:
  "m_committee L' = m_committee L \<Longrightarrow> m_myID L' = m_myID L \<Longrightarrow> m_myPrivKey L' = m_myPrivKey L
   \<Longrightarrow> leader_draws_ok E rnd L' = leader_draws_ok E rnd L"
  by (simp add: leader_draws_ok_def myKey_def GetCommitteeMember_def)

text \<open>Everything of the leader but the state, the subsets, the counter of running subsets and the
  outbox stays as it was.\<close>

definition starts_from :: "'pt ConsensusLeader \<Rightarrow> 'pt ConsensusLeader \<Rightarrow> bool" where
  "starts_from L L' \<longleftrightarrow>
     L = L'\<lparr>m_state := m_state L, m_consensusSubsets := m_consensusSubsets L,
           m_numSubsetsRunning := m_numSubsetsRunning L, m_outbox := m_outbox L\<rparr>"

lemma starts_from_fields:
  assumes "starts_from L L'"
  shows "m_committee L' = m_committee L" "m_myID L' = m_myID L" "m_numForConsensus L' = m_numForConsensus L"
    "m_windows L' = m_windows L" "m_numOfSubsets L' = m_numOfSubsets L"
    "m_messageToCosign L' = m_messageToCosign L" "m_CS1 L' = m_CS1 L" "m_B1 L' = m_B1 L"
    "m_CS2 L' = m_CS2 L" "m_B2 L' = m_B2 L" "leader_static L' = leader_static L"
    "m_myPrivKey L' = m_myPrivKey L"
  using assms by (cases L; cases L'; simp add: starts_from_def leader_static_def)+

lemma start_subsets_result:
  assumes fresh: "\<forall>sub \<in> set (m_consensusSubsets L).
      subset_fresh (length (m_committee L)) (m_numForConsensus L) (m_myID L) A sub"
    and static: "leader_static L" and draws: "leader_draws_ok E rnd L"
  shows "\<exists>ok L'. start_subsets E rnd st t L = Some (ok, L')
    \<and> starts_from L L' \<and> leader_subsets L' \<and> m_state L' = (if ok then st else ERROR)"
proof -
  let ?n = "length (m_committee L)"
  let ?L1 = "L\<lparr>m_state := st, m_numSubsetsRunning := length (m_consensusSubsets L)\<rparr>"
  obtain subs sis where subs: "challenge_loop (ossl E) (m_committee L) (m_messageToCosign L)
        (m_consensusSubsets L) = Some (True, subs, sis)"
      "\<forall>sub \<in> set subs. subset_fresh ?n (m_numForConsensus L) (m_myID L) A sub"
    using challenge_loop_fresh [OF fresh] by blast
  have key: "myKey (ossl E) ?L1 = myKey (ossl E) L"
    by (simp add: myKey_def GetCommitteeMember_def)
  obtain chal ok where set: "SetConsensusChallenge (ossl E) (pb E) (message_header L t) 3 (m_consensusID L)
      (m_blockNumber L) (m_blockHash L) (m_myID L) sis (myKey (ossl E) L) (draws rnd) = Some (chal, ok)"
    using sign_and_serialize_total [OF draws [unfolded leader_draws_ok_def], of "message_header L t" 3]
    unfolding SetConsensusChallenge_def by fastforce
  let ?L2 = "?L1\<lparr>m_consensusSubsets := subs\<rparr>"
  have gen: "GenerateChallengeMessage E rnd (message_header L t) 3 ?L1 = Some (ok, chal, ?L2)"
    using subs(1) set key by (simp add: GenerateChallengeMessage_def Let_def)
  show ?thesis
  proof (cases ok)
    case False
    then show ?thesis
      using gen subs(2) by (auto simp: start_subsets_def starts_from_def leader_subsets_def intro: subset_fresh_wf)
  next
    case True
    have "m_commitSecret ?L2 \<noteq> None" "m_myID ?L2 < length (m_committee ?L2)"
      using static by (simp_all add: leader_static_def)
    then obtain subs' where subs': "respond_all (ossl E) ?L2 subs = Some subs'"
        "\<forall>sub \<in> set subs'. subset_wf ?n (m_numForConsensus L) (m_myID L) sub"
      using respond_all_wf [of subs ?L2 "m_numForConsensus L" A "ossl E"] subs(2) by auto
    then obtain ps where "challenge_peers subs' 0 (m_committee L) = Some ps"
      using challenge_peers_total [of subs' ?n 0 "m_committee L"] by (auto simp: subset_wf_def)
    then show ?thesis
      using gen subs' True by (auto simp: start_subsets_def starts_from_def leader_subsets_def emit_def)
  qed
qed

lemma StartConsensusSubsets_result:
  assumes fresh: "\<forall>sub \<in> set (m_consensusSubsets L).
      subset_fresh (length (m_committee L)) (m_numForConsensus L) (m_myID L) A sub"
    and static: "leader_static L" and draws: "leader_draws_ok E rnd L"
  shows "\<exists>ok L'. StartConsensusSubsets E rnd L = Some (ok, L') \<and> starts_from L L' \<and> leader_subsets L'
    \<and> m_state L' = (if m_state L = ANNOUNCE_DONE then if ok then CHALLENGE_DONE else ERROR
        else if m_state L = COLLECTIVESIG_DONE then if ok then FINALCHALLENGE_DONE else ERROR
        else m_state L)"
proof -
  have "starts_from L L" by (simp add: starts_from_def)
  moreover have "leader_subsets L" using fresh by (auto simp: leader_subsets_def intro: subset_fresh_wf)
  ultimately show ?thesis
    using start_subsets_result [OF assms, of CHALLENGE_DONE CHALLENGE]
      start_subsets_result [OF assms, of FINALCHALLENGE_DONE FINALCHALLENGE]
    unfolding StartConsensusSubsets_def by auto
qed

lemma generate_and_start:
  assumes static: "leader_static L" and col: "collecting L" and rnd: "rand_ok rnd"
    and draws: "leader_draws_ok E rnd L" and enough: "m_numForConsensus L \<le> m_commitCounter L"
    and win: "m_windows L = 0" and msg: "leader_message E L"
  shows "\<exists>L1 ok L'. GenerateConsensusSubsets E rnd L = Some L1
    \<and> StartConsensusSubsets E rnd L1 = Some (ok, L') \<and> leader_inv E L'"
proof -
  let ?A = "{i. i < length (m_commitMap L) \<and> m_commitMap L ! i}"
  obtain subs where gen: "GenerateConsensusSubsets E rnd L
      = Some (L\<lparr>m_consensusSubsets := subs, m_commitPointMap := [], m_commitPoints := [], m_commitMap := []\<rparr>)"
      (is "_ = Some ?L1")
    and fresh: "\<forall>sub \<in> set subs. subset_fresh (length (m_committee L)) (m_numForConsensus L) (m_myID L) ?A sub"
    using GenerateConsensusSubsets_fresh [OF static col rnd enough] by blast
  have pre: "\<forall>sub \<in> set (m_consensusSubsets ?L1).
      subset_fresh (length (m_committee ?L1)) (m_numForConsensus ?L1) (m_myID ?L1) ?A sub"
    "leader_static ?L1" "leader_draws_ok E rnd ?L1"
    using fresh static draws
    by (simp_all add: leader_static_def leader_draws_ok_def myKey_def GetCommitteeMember_def)
  obtain ok L' where start: "StartConsensusSubsets E rnd ?L1 = Some (ok, L')" "starts_from ?L1 L'"
      "leader_subsets L'"
      "m_state L' = (if m_state ?L1 = ANNOUNCE_DONE then if ok then CHALLENGE_DONE else ERROR
        else if m_state ?L1 = COLLECTIVESIG_DONE then if ok then FINALCHALLENGE_DONE else ERROR
        else m_state ?L1)"
    using StartConsensusSubsets_result [OF pre] by blast
  note same = starts_from_fields [OF start(2)]
  have "leader_windows L'" using start(4) same win by (auto simp: leader_windows_def split: if_splits)
  moreover have "leader_message E L'"
    using msg start(4) same by (auto simp: leader_message_def split: if_splits)
  moreover have "leader_static L'" using same pre(2) by simp
  ultimately have "leader_inv E L'" using start(3) by (simp add: leader_inv_def)
  then show ?thesis using gen start(1) by blast
qed

end
