(* ===== verification/LeaderExample.thy ===== *)
theory LeaderExample
  imports ConsensusLeader
begin

text \<open>
  A session of a leader with one backup, on the small group and the small wire format: both members have the key 1 and the commit
  secret 12, and the leader gets from the announcement to \<open>DONE\<close> with four messages of the backup. It shows that what is proved of
  finished sessions is not empty. The secret 12 works in every round, since a digest of the small group is between 1 and 11.
\<close>

section \<open>Signing\<close>

lemma Schnorr_Sign_loop_more:
  "Schnorr_Sign_loop B message offset sz d pub ks = SignTrue sig
   \<Longrightarrow> Schnorr_Sign_loop B message offset sz d pub (ks @ ks') = SignTrue sig"
proof (induction ks)
  case (Cons k ks)
  then show ?case by (cases k) (auto simp: Let_def split: option.splits if_splits)
qed simp

lemma sign_and_serialize_more:
  assumes "sign_and_serialize B p dst offset info key ks = Some (dst', True)"
  shows "sign_and_serialize B p dst offset info key (ks @ ks') = Some (dst', True)"
proof -
  obtain sig where sig: "Schnorr_Sign B (InfoToArray p info) (fst key) (snd key) ks = SignTrue sig"
    using assms by (auto simp: sign_and_serialize_def split: sign_result.splits)
  then have "Schnorr_Sign B (InfoToArray p info) (fst key) (snd key) (ks @ ks') = SignTrue sig"
    by (auto simp: Schnorr_Sign_def Schnorr_Sign_range_def Schnorr_Sign_loop_more split: if_splits)
  then show ?thesis using assms sig by (simp add: sign_and_serialize_def)
qed

lemma sign_and_serialize_appends:
  assumes "sign_and_serialize B p dst (length dst) info key ks = Some (dst', True)"
  shows "\<exists>raw. dst' = dst @ raw"
  using assms SerializeToArray_at_end by (auto simp: sign_and_serialize_def split: sign_result.splits)

section \<open>Messages of the backup\<close>

lemma toy_commit_arrives:
  "\<exists>raw. GetConsensusCommit toy toy_protobufs ([0, 0, t] @ raw) 3 7 8 [9] [(1, Peer_default), (1, Peer_default)]
     = Some (Some (1, Some \<lparr>fval = 12, finit = True\<rparr>, Some \<lparr>fval = h mod 13, finit = True\<rparr>))"
proof -
  let ?cp = "\<lparr>fval = 12, finit = True\<rparr> :: int CommitPoint" and ?cph = "\<lparr>fval = h mod 13, finit = True\<rparr> :: CommitPointHash"
  have h: "bn_fits 32 (h mod 13)"
    using pos_mod_bound [of 13 h] pos_mod_sign [of 13 h] by (simp add: bn_fits_def)
  obtain dst' where dst': "SetConsensusCommit toy toy_protobufs [0, 0, t] (length [0, 0, t]) 7 8 [9] 1
      ?cp ?cph (1, 1 mod 13) [Some 12] = Some (dst', True)" "length dst' < 2 ^ 31"
    using toy_commit_serializes [of "[0, 0, t]" 1 12 "h mod 13"] h by auto
  have "GetConsensusCommit toy toy_protobufs dst' (length [0, 0, t]) 7 8 [9] [(1, Peer_default), (1, Peer_default)]
     = Some (Some (1, Some ?cp, Some ?cph))"
    by (rule ConsensusCommit_written [OF toy_ok toy_points_ok toy_protobufs_ok(1) _ _ _ _ _ _ _ _ _ _ dst'])
       (use h in \<open>simp_all add: toy_def\<close>)
  moreover obtain raw where "dst' = [0, 0, t] @ raw"
    using sign_and_serialize_appends [OF dst'(1) [unfolded SetConsensusCommit_def]] by blast
  ultimately show ?thesis by (auto simp: eval_nat_numeral)
qed

lemma toy_response_arrives:
  assumes "0 \<le> r" "r < 13"
  shows "\<exists>raw. GetConsensusResponse toy toy_protobufs ([0, 0, t] @ raw) 3 7 8 [9] [(1, Peer_default), (1, Peer_default)]
     = Some (Some (1, [\<lparr>fval = r, finit = True\<rparr>]))"
proof -
  let ?r = "\<lparr>fval = r, finit = True\<rparr>"
  have fits: "bn_fits 32 r" using assms by (simp add: bn_fits_def)
  let ?info = "\<lparr>consensusid = 7, blocknumber = 8, blockhash = [9], memberid = 1,
     payload = map (\<lambda>r. fst (Response_Serialize [] 0 r)) [?r]\<rparr>"
  have "length (fst (Response_Serialize [] 0 ?r)) = 32"
    using bn32.put_length [of r 0 "[]"] fits by (simp add: Response_Serialize_def scalar_Serialize_def)
  then have "length (toy_info (enc_list enc_bytes) ?info) + length [0, 0, t] < 2 ^ 30"
    by (simp add: toy_info_def enc_bytes_def enc_nat_def enc_list_def)
  from toy_sign_and_serialize [OF this, of "dec_list dec_bytes"]
  obtain dst' where dst': "SetConsensusResponse toy toy_protobufs [0, 0, t] (length [0, 0, t]) 7 8 [9] 1
      [?r] (1, 1 mod 13) [Some 12] = Some (dst', True)" "length dst' < 2 ^ 31"
    by (auto simp: SetConsensusResponse_def toy_protobufs_def)
  have "GetConsensusResponse toy toy_protobufs dst' (length [0, 0, t]) 7 8 [9] [(1, Peer_default), (1, Peer_default)]
     = Some (Some (1, [?r]))"
    by (rule ConsensusResponse_written [OF toy_ok toy_protobufs_ok(3) _ _ _ _ _ _ _ dst'])
       (use fits in \<open>simp_all add: toy_def\<close>)
  moreover obtain raw where "dst' = [0, 0, t] @ raw"
    using sign_and_serialize_appends [OF dst'(1) [unfolded SetConsensusResponse_def]] by blast
  ultimately show ?thesis by (auto simp: eval_nat_numeral)
qed

section \<open>Messages of the leader\<close>

lemma toy_challenge_leaves:
  assumes "0 \<le> c" "c < 13" "length dst < 1000"
  shows "\<exists>dst'. SetConsensusChallenge toy toy_protobufs dst (length dst) 7 8 [9] 0
      [\<lparr>si_aggregatedCommit = \<lparr>fval = 11, finit = True\<rparr>, si_aggregatedKey = 2, si_challenge = \<lparr>fval = c, finit = True\<rparr>\<rparr>]
      (1, 1) [Some 12, None] = Some (dst', True)"
proof -
  let ?si = "\<lparr>si_aggregatedCommit = \<lparr>fval = 11, finit = True\<rparr>, si_aggregatedKey = 2, si_challenge = \<lparr>fval = c, finit = True\<rparr>\<rparr> :: int ChallengeSubsetInfo"
  let ?f = "enc_list (enc_pair enc_bytes (enc_pair enc_bytes enc_bytes))"
  let ?info = "\<lparr>consensusid = 7, blocknumber = 8, blockhash = [9], memberid = 0,
     payload = map (\<lambda>si. (fst (CommitPoint_Serialize toy [] 0 (si_aggregatedCommit si)),
        fst (PubKey_Serialize toy [] 0 (si_aggregatedKey si)), fst (Challenge_Serialize [] 0 (si_challenge si)))) [?si]\<rparr>"
  have "length (ECPOINTSerialize_SetNumber toy [] 0 33 p) = 33" if "0 \<le> p" "p < 13" for p
    using byte_field.put_length [OF ecpoint_field [OF toy_points_ok], of p 0 "[]"] that by simp
  moreover have "length (BIGNUMSerialize_SetNumber [] 0 32 c) = 32"
    using bn32.put_length [of c 0 "[]"] assms by (simp add: bn_fits_def)
  ultimately have "length (toy_info ?f ?info) + length dst < 2 ^ 30"
    using assms(3) by (simp add: toy_info_def enc_bytes_def enc_nat_def enc_list_def enc_pair_def CommitPoint_Serialize_def
        PubKey_Serialize_def Challenge_Serialize_def scalar_Serialize_def)
  from toy_sign_and_serialize [OF this, of "dec_list (dec_pair dec_bytes (dec_pair dec_bytes dec_bytes))"]
  obtain dst' where "sign_and_serialize toy (ConsensusChallenge toy_protobufs) dst (length dst) ?info (1, 1) [Some 12] = Some (dst', True)"
    by (auto simp: toy_protobufs_def)
  from sign_and_serialize_more [OF this, of "[None]"] show ?thesis by (auto simp: SetConsensusChallenge_def)
qed

lemma toy_collectivesig_leaves:
  assumes "Signature_fits sig" "length bits < 100" "length dst < 1000"
  shows "\<exists>dst'. SetConsensusCollectiveSig toy toy_protobufs dst (length dst) 7 8 [9] 0 sig bits (1, 1) [Some 12, None] = Some (dst', True)"
  using toy_collectivesig_serializes [OF assms] sign_and_serialize_more [where ks' = "[None]"]
  unfolding SetConsensusCollectiveSig_def by fastforce

section \<open>A round of the session\<close>

definition toy_rand :: rand where
  "toy_rand = \<lparr>shuffle = (\<lambda>i xs. xs), peer_shuffle = (\<lambda>xs. xs), draws = [Some 12, None]\<rparr>"

abbreviation toy_point :: "int flagged" where
  "toy_point \<equiv> \<lparr>fval = 12, finit = True\<rparr>"

definition toy_c :: "bytes \<Rightarrow> int" where
  "toy_c m = multisig_challenge toy 11 2 m"

lemma toy_c_range: "1 \<le> toy_c m \<and> toy_c m \<le> 11"
proof -
  let ?s = "sum_list (map unat (0x11 # EC_POINT_point2oct toy 11 @ EC_POINT_point2oct toy 2 @ m)) mod 11"
  have "?s < 11" by simp
  moreover have "toy_c m = int (?s + 1) mod 13"
    by (simp only: toy_c_def multisig_challenge_def BN_bin2bn_def) (simp add: toy_def toy_digest_val)
  ultimately show ?thesis by (simp add: zmod_trivial_iff)
qed

definition toy_session :: "int ConsensusLeader \<Rightarrow> bool" where
  "toy_session L \<longleftrightarrow> m_consensusID L = 7 \<and> m_blockNumber L = 8 \<and> m_blockHash L = [9] \<and> m_myID L = 0 \<and> m_myPrivKey L = 1
     \<and> m_committee L = [(1, Peer_default), (1, Peer_default)] \<and> m_commitSecret L = Some toy_point \<and> m_commitPoint L = Some toy_point
     \<and> m_numForConsensus L = 2 \<and> m_numOfSubsets L = 1"

definition toy_ready :: "State \<Rightarrow> int ConsensusLeader \<Rightarrow> bool" where
  "toy_ready st L \<longleftrightarrow> toy_session L \<and> m_state L = st \<and> m_messageToCosign L \<noteq> [] \<and> length (m_messageToCosign L) < 1000
     \<and> m_commitMap L = [True, False] \<and> (\<exists>q. m_commitPointMap L = [toy_point, q]) \<and> m_commitPoints L = [toy_point] \<and> m_commitCounter L = 1"

definition toy_subset :: "State \<Rightarrow> bytes \<Rightarrow> int ConsensusSubset" where
  "toy_subset st m = (let r = \<lparr>fval = 12 - toy_c m, finit = True\<rparr>
     in \<lparr>commitMap = [True, True], commitPointMap = [toy_point, toy_point], commitPoints = [toy_point, toy_point], responseCounter = 1,
         challenge = \<lparr>fval = toy_c m, finit = True\<rparr>, responseDataMap = [r, Response_default], responseMap = [True, False],
         responseData = [r], collectiveSig = Signature_default, subset_state = st\<rparr>)"

definition toy_challenged :: "State \<Rightarrow> int ConsensusLeader \<Rightarrow> bool" where
  "toy_challenged st L \<longleftrightarrow> toy_session L \<and> m_state L = st \<and> m_messageToCosign L \<noteq> [] \<and> length (m_messageToCosign L) < 1000
     \<and> m_commitPointMap L = [] \<and> m_consensusSubsets L = [toy_subset st (m_messageToCosign L)]"

lemma toy_aggregates:
  "AggregateKeys toy [(1, Peer_default), (1, Peer_default)] [True, True] = Some 2"
  "AggregateCommits toy [toy_point, toy_point] = \<lparr>fval = 11, finit = True\<rparr>"
  by (simp_all add: AggregateKeys_def AggregatePubKeys_def AggregateCommits_def MultiSig_AggregateCommits_def CommitPoint_copy_def copied_def toy_def)

lemma toy_challenge:
  assumes "m \<noteq> []" "length m < 1000"
  shows "GetChallenge toy m \<lparr>fval = 11, finit = True\<rparr> 2 = Some \<lparr>fval = toy_c m, finit = True\<rparr>"
  using Challenge_from_value [OF toy_ok, of 11 2 m] assms by (simp add: GetChallenge_def toy_c_def) (simp add: toy_def)

lemma toy_challenge_starts:
  assumes L: "toy_session L" "m_messageToCosign L \<noteq> []" "length (m_messageToCosign L) < 1000"
    "m_commitPointMap L = []" "m_state L < st"
    and sub: "m_consensusSubsets L = [(subset_init toy 2 (m_state L))\<lparr>commitPointMap := [toy_point, toy_point],
        commitPoints := [toy_point, toy_point], commitMap := [True, True]\<rparr>]"
  shows "\<exists>L'. start_subsets toy_env toy_rand st t L = Some (True, L') \<and> toy_challenged st L'
    \<and> m_messageToCosign L' = m_messageToCosign L"
proof -
  let ?c = "toy_c (m_messageToCosign L)"
  have c: "0 \<le> ?c" "?c < 13" "?c mod 13 = ?c" "(12 - ?c) mod 13 = 12 - ?c" "(12 - ?c mod 13) mod 13 = 12 - ?c" using toy_c_range [of "m_messageToCosign L"] by (simp_all add: mod_pos_pos_trivial)
  obtain chal where chal: "SetConsensusChallenge toy toy_protobufs (message_header L t) (length (message_header L t)) 7 8 [9] 0
      [\<lparr>si_aggregatedCommit = \<lparr>fval = 11, finit = True\<rparr>, si_aggregatedKey = 2, si_challenge = \<lparr>fval = ?c, finit = True\<rparr>\<rparr>]
      (1, 1) [Some 12, None] = Some (chal, True)"
    using toy_challenge_leaves [OF c(1,2), of "message_header L t"] by auto
  have resp: "Response_from toy toy_point \<lparr>fval = ?c, finit = True\<rparr> 1 = \<lparr>fval = 12 - ?c, finit = True\<rparr>"
    using Response_from_value [OF toy_ok, of toy_point "\<lparr>fval = ?c, finit = True\<rparr>" 1] c by (simp add: toy_def)
  show ?thesis
    using L c chal toy_challenge [OF L(2,3)]
    by (auto simp: start_subsets_def GenerateChallengeMessage_def sub subset_init_def toy_env_def toy_session_def toy_aggregates
        toy_challenged_def toy_subset_def CommitPoint_assign_def Challenge_assign_def copied_def myKey_def GetCommitteeMember_def toy_rand_def
        leader_responds_def subset_set_state_def resp vec_put_def vec_at_def emit_def Let_def Response_assign_def Response_copy_def numeral_2_eq_2)
qed

lemma toy_commit_step:
  assumes L: "toy_ready st L" and st: "st = ANNOUNCE_DONE \<and> st' = CHALLENGE_DONE \<and> t = COMMIT
      \<or> st = COLLECTIVESIG_DONE \<and> st' = FINALCHALLENGE_DONE \<and> t = FINALCOMMIT"
  shows "\<exists>raw L'. Leader_ProcessMessage toy_env toy_rand ([0, 0, type_byte t] @ raw) 2 Peer_default L = Some (True, L') \<and> toy_challenged st' L'
    \<and> m_messageToCosign L' = m_messageToCosign L"
proof -
  let ?h = "fval (CommitPointHash_from_point toy toy_point)"
  have h: "CommitPointHash_from_point toy toy_point = \<lparr>fval = ?h mod 13, finit = True\<rparr>"
    by (simp add: CommitPointHash_from_point_def CommitPointHash_Set_def toy_eval SHA2_Update_def)
  then have finite_h: "finit (CommitPointHash_from_point toy toy_point)" by (metis flagged.select_convs(2))
  obtain raw where raw: "GetConsensusCommit toy toy_protobufs ([0, 0, type_byte t] @ raw) 3 7 8 [9] (m_committee L)
      = Some (Some (1, Some toy_point, Some (CommitPointHash_from_point toy toy_point)))"
    using toy_commit_arrives [of "type_byte t" ?h] L h by (auto simp: toy_ready_def toy_session_def)
  obtain q where L': "toy_session L" "m_state L = st" "m_commitMap L = [True, False]" "m_commitPointMap L = [toy_point, q]"
      "m_commitPoints L = [toy_point]" "m_commitCounter L = 1" using L by (auto simp: toy_ready_def)
  let ?L1 = "L\<lparr>m_commitPoints := [toy_point, toy_point], m_commitPointMap := [toy_point, toy_point], m_commitMap := [True, True], m_commitCounter := 2\<rparr>"
  have rec: "record_commit (Suc 0) toy_point L = Some ?L1"
    using L' by (simp add: record_commit_def vec_put_def CommitPoint_copy_def copied_def toy_session_def Let_def)
  let ?sub = "(subset_init toy 2 st)\<lparr>commitPointMap := [toy_point, toy_point],
        commitPoints := [toy_point, toy_point], commitMap := [True, True]\<rparr>"
  let ?L2 = "?L1\<lparr>m_consensusSubsets := [?sub], m_commitPointMap := [], m_commitPoints := [], m_commitMap := []\<rparr>"
  have two: "replicate 2 x = [x, x]" "sub32 2 1 = Suc 0" for x :: 'x by (simp add: numeral_2_eq_2) (simp add: sub32_def)
  have gen: "GenerateConsensusSubsets toy_env toy_rand ?L1 = Some ?L2"
    using L' by (simp add: GenerateConsensusSubsets_def peers_who_committed_def make_subset_def subset_add_def vec_at_def vec_put_def
        subset_init_def toy_session_def toy_env_def two [simplified] CommitPoint_copy_def copied_def Let_def)
  have "\<exists>L'. start_subsets toy_env toy_rand st' t' ?L2 = Some (True, L') \<and> toy_challenged st' L'
      \<and> m_messageToCosign L' = m_messageToCosign ?L2" for t'
    by (rule toy_challenge_starts) (use L L' st in \<open>auto simp: toy_ready_def toy_session_def less_State_def\<close>)
  then obtain L'' where "StartConsensusSubsets toy_env toy_rand ?L2 = Some (True, L'')"
      and L'': "toy_challenged st' L''" "m_messageToCosign L'' = m_messageToCosign L"
    using L'(2) st by (fastforce simp: StartConsensusSubsets_def)
  then have acc: "accept_commit toy_env toy_rand 1 toy_point L = Some (True, L'')"
    using L'(1) by (simp add: accept_commit_def rec gen) (simp add: toy_session_def)
  have ok: "commit_acceptable toy 1 (Some toy_point) (Some (CommitPointHash_from_point toy toy_point)) Peer_default L = Some True"
    using L' finite_h by (simp add: commit_acceptable_def vec_at_def toy_session_def Initialized_def CommitPointHash_eq_def scalar_eq_def)
  have env: "ossl toy_env = toy" "pb toy_env = toy_protobufs" by (simp_all add: toy_env_def)
  have core: "ProcessMessageCommitCore toy_env toy_rand ([0, 0, type_byte t] @ raw) (2 + 1) action Peer_default L = Some (True, L'')"
    if "Leader_CheckState L action" for action
    using raw ok acc that L'(1) by (simp add: ProcessMessageCommitCore_def env toy_session_def)
  have "vec_at ([0, 0, type_byte t] @ raw) 2 = Some (type_byte t)" by (simp add: vec_at_def)
  then have "Leader_ProcessMessage toy_env toy_rand ([0, 0, type_byte t] @ raw) 2 Peer_default L = Some (True, L'')"
    using st core [of PROCESS_COMMIT] core [of PROCESS_FINALCOMMIT] L'(2)
    unfolding Leader_ProcessMessage_def ProcessMessageCommit_def ProcessMessageFinalCommit_def
    by (elim disjE) (simp_all add: Leader_CheckState_def LEADER_ACTIONS_FOR_STATE_def)
  then show ?thesis using L'' by blast
qed

definition toy_cosig :: "bytes \<Rightarrow> Signature" where
  "toy_cosig m = \<lparr>m_r = toy_c m, m_s = (11 - 2 * toy_c m) mod 13\<rparr>"

lemma toy_cosig_verifies:
  assumes "m \<noteq> []" "length m < 1000"
  shows "MultiSigVerify toy m (toy_cosig m) 2 = Some True"
proof -
  let ?c = "toy_c m"
  let ?s = "(11 - 2 * ?c) mod 13"
  have c: "1 \<le> ?c" "?c \<le> 11" using toy_c_range [of m] by auto
  have q: "(?s + ?c * 2) mod 13 = 11" using mod_add_left_eq [of "11 - 2 * ?c" 13 "?c * 2"] by (simp add: algebra_simps)
  have s: "0 < ?s" "?s < 13" using c by presburger+
  have v: "multisig_challenge toy 11 2 m = ?c" "ec_order toy = 13" by (simp_all add: toy_c_def) (simp add: toy_def)
  have "MultiSigVerify toy m \<lparr>m_r = ?c, m_s = ?s\<rparr> (2 mod 13) = Some True"
    by (rule iffD2 [OF MultiSigVerify_iff [OF toy_ok]]) (use assms c in \<open>simp_all add: q s v\<close>)
  then show ?thesis by (simp add: toy_cosig_def)
qed

lemma toy_cosig_built:
  "AggregateSign \<lparr>fval = toy_c m, finit = True\<rparr>
     (AggregateResponses toy [\<lparr>fval = 12 - toy_c m, finit = True\<rparr>, \<lparr>fval = 12 - toy_c m, finit = True\<rparr>]) = toy_cosig m"
  "finit (AggregateResponses toy [\<lparr>fval = 12 - toy_c m, finit = True\<rparr>, \<lparr>fval = 12 - toy_c m, finit = True\<rparr>])"
proof -
  let ?c = "toy_c m"
  have "(12 - ?c + (12 - ?c)) mod 13 = (11 - 2 * ?c) mod 13" using mod_add_self2 [of "11 - 2 * ?c" 13] by (simp add: algebra_simps)
  then have "AggregateResponses toy [\<lparr>fval = 12 - ?c, finit = True\<rparr>, \<lparr>fval = 12 - ?c, finit = True\<rparr>] = \<lparr>fval = (11 - 2 * ?c) mod 13, finit = True\<rparr>"
    by (simp add: AggregateResponses_def MultiSig_AggregateResponses_def Response_copy_def copied_def toy_def)
  then show "AggregateSign \<lparr>fval = ?c, finit = True\<rparr>
       (AggregateResponses toy [\<lparr>fval = 12 - ?c, finit = True\<rparr>, \<lparr>fval = 12 - ?c, finit = True\<rparr>]) = toy_cosig m"
    "finit (AggregateResponses toy [\<lparr>fval = 12 - ?c, finit = True\<rparr>, \<lparr>fval = 12 - ?c, finit = True\<rparr>])"
    by (simp_all add: AggregateSign_def MultiSig_AggregateSign_def toy_cosig_def)
qed

definition toy_answered :: "State \<Rightarrow> bytes \<Rightarrow> int ConsensusSubset" where
  "toy_answered st m = (let r = \<lparr>fval = 12 - toy_c m, finit = True\<rparr>
     in (toy_subset st m)\<lparr>responseData := [r, r], responseDataMap := [r, r], responseMap := [True, True], responseCounter := 2\<rparr>)"

lemma toy_collects:
  assumes L: "toy_session L" "m_messageToCosign L \<noteq> []" "length (m_messageToCosign L) < 1000"
    and sub: "m_consensusSubsets L = [toy_answered st (m_messageToCosign L)]"
  shows "\<exists>msg. GenerateCollectiveSigMessage toy_env toy_rand (message_header L t) 3 0 L
    = Some (True, msg, L\<lparr>m_consensusSubsets := [(toy_answered st (m_messageToCosign L))\<lparr>collectiveSig := toy_cosig (m_messageToCosign L)\<rparr>],
        m_collectiveSig := toy_cosig (m_messageToCosign L)\<rparr>)"
proof -
  let ?sig = "toy_cosig (m_messageToCosign L)"
  note ver = toy_cosig_verifies [OF L(2,3)]
  obtain msg where "SetConsensusCollectiveSig toy toy_protobufs (message_header L t) (length (message_header L t)) 7 8 [9] 0 ?sig
      [True, True] (1, 1) [Some 12, None] = Some (msg, True)"
    using toy_collectivesig_leaves [OF MultiSigVerify_fits [OF toy_ok ver], of "[True, True]" "message_header L t"] by auto
  then show ?thesis
    using L(1) ver toy_cosig_built [of "m_messageToCosign L"] toy_aggregates(1)
    by (simp add: GenerateCollectiveSigMessage_def put_subset_def vec_at_def toy_env_def toy_session_def toy_rand_def myKey_def
        GetCommitteeMember_def sub toy_answered_def toy_subset_def Let_def)
qed

lemma toy_first_round_ends:
  assumes m: "length (m_messageToCosign L) < 900" "m_messageToCosign L \<noteq> []" and sig: "Signature_fits (collectiveSig sub)"
    and L: "toy_session L" "m_commitPointMap L = []" "responseMap sub = [True, True]"
  shows "\<exists>L'. finish_first_round toy_env sub L = Some L' \<and> toy_ready (m_state L) L' \<and> m_consensusSubsets L' = m_consensusSubsets L
    \<and> m_state L' = m_state L"
proof -
  let ?m = "m_messageToCosign L"
  let ?m1 = "fst (Signature_Serialize ?m (u32 (length ?m)) (collectiveSig sub))"
  have len: "length ?m1 = length ?m + 64"
    using Signature_roundtrip_aux(2) [OF sig, of "u32 (length ?m)" ?m] m(1) by simp
  obtain m2 sz where m2: "SetBitVector ?m1 (u32 (length ?m1)) [True, True] = Some (m2, sz)" "length m2 = length ?m1 + 3"
    using SetBitVector_result [of "[True, True]" "u32 (length ?m1)" ?m1] len m(1) by auto
  then show ?thesis
    using len m L by (auto simp: finish_first_round_def toy_session_def toy_ready_def vec_put_def vec_resize_def CommitPoint_copy_def copied_def
        numeral_2_eq_2 Let_def)
qed

text \<open>The state after a response: the second round begins after the first, and the session is done after the second.\<close>

definition toy_after :: "State \<Rightarrow> int ConsensusLeader \<Rightarrow> bool" where
  "toy_after st L \<longleftrightarrow> (if st = CHALLENGE_DONE then toy_ready COLLECTIVESIG_DONE L else m_state L = DONE)"

definition toy_round :: "LeaderAction \<Rightarrow> State \<Rightarrow> State \<Rightarrow> bool" where
  "toy_round action st st' \<longleftrightarrow> action = PROCESS_RESPONSE \<and> st = CHALLENGE_DONE \<and> st' = COLLECTIVESIG_DONE
     \<or> action = PROCESS_FINALRESPONSE \<and> st = FINALCHALLENGE_DONE \<and> st' = DONE"

lemma toy_completes:
  assumes act: "toy_round action st st'" and L: "toy_session L" "m_messageToCosign L \<noteq> []" "length (m_messageToCosign L) < 1000"
      "st = CHALLENGE_DONE \<longrightarrow> length (m_messageToCosign L) < 900" "m_commitPointMap L = []"
    and sub: "m_consensusSubsets L = [toy_answered st (m_messageToCosign L)]"
  shows "\<exists>L'. complete_subset toy_env toy_rand 0 action t st' L = Some (True, L') \<and> toy_after st L'"
proof -
  let ?sig = "toy_cosig (m_messageToCosign L)"
  let ?sub2 = "(toy_answered st (m_messageToCosign L))\<lparr>collectiveSig := ?sig\<rparr>"
  let ?L2 = "L\<lparr>m_consensusSubsets := [?sub2], m_collectiveSig := ?sig\<rparr>"
  let ?sub3 = "?sub2\<lparr>subset_state := st'\<rparr>"
  let ?L3 = "L\<lparr>m_consensusSubsets := [?sub3], m_collectiveSig := ?sig, m_state := st'\<rparr>"
  obtain msg where msg: "GenerateCollectiveSigMessage toy_env toy_rand (message_header L t) 3 0 L = Some (True, msg, ?L2)"
    using toy_collects [OF L(1-3) sub] by blast
  have upd: "SetStateSubset 0 st' ?L2 = Some (L\<lparr>m_consensusSubsets := [?sub3], m_collectiveSig := ?sig\<rparr>)"
    using act by (auto simp: toy_round_def SetStateSubset_def vec_at_def subset_set_state_def less_State_def toy_answered_def toy_subset_def Let_def)
  have fits: "Signature_fits ?sig" by (rule MultiSigVerify_fits [OF toy_ok toy_cosig_verifies [OF L(2,3)]])
  have L4: "\<exists>L4. finish_first_round toy_env ?sub3 ?L3 = Some L4 \<and> toy_ready st' L4 \<and> m_consensusSubsets L4 = [?sub3] \<and> m_state L4 = st'"
    if "st = CHALLENGE_DONE" using that toy_first_round_ends [of ?L3 ?sub3] L fits by (auto simp: toy_session_def toy_answered_def Let_def)
  have env: "\<not> BROADCAST_GOSSIP_MODE toy_env" by (simp add: toy_env_def)
  show ?thesis
    using act L4 L(1) msg upd
    by (auto simp: toy_round_def toy_after_def complete_subset_def vec_at_def Let_def finish_second_round_def SubsetEnded_def env emit_def
        toy_ready_def toy_session_def)
qed

lemma toy_response_accepted:
  assumes act: "toy_round action st st'" and L: "toy_challenged st L"
  defines "r \<equiv> \<lparr>fval = 12 - toy_c (m_messageToCosign L), finit = True\<rparr>"
  shows "response_loop toy_env toy_rand 1 action t st' 0 [r] L
    = complete_subset toy_env toy_rand 0 action t st' (L\<lparr>m_consensusSubsets := [toy_answered st (m_messageToCosign L)]\<rparr>)"
    "Leader_CheckState L action"
proof -
  let ?c = "toy_c (m_messageToCosign L)"
  have S: "toy_session L" "m_state L = st" "m_consensusSubsets L = [toy_subset st (m_messageToCosign L)]"
    using L by (simp_all add: toy_challenged_def)
  have "1 \<le> ?c" "?c \<le> 11" using toy_c_range [of "m_messageToCosign L"] by auto
  then have ver: "VerifyResponse toy (Some r) \<lparr>fval = ?c, finit = True\<rparr> 1 toy_point" by (simp add: VerifyResponse_def r_def toy_def)
  have acc: "response_acceptable toy 1 action 0 r L = Some True" "CheckStateSubset L 0 action = Some True"
    using act S ver by (auto simp: toy_round_def response_acceptable_def CheckStateSubset_def SUBSET_ACTIONS_FOR_STATE_def vec_at_def
        GetCommitteeMember_def toy_session_def toy_subset_def Let_def)
  show st: "Leader_CheckState L action"
    using act S(2) by (auto simp: toy_round_def Leader_CheckState_def LEADER_ACTIONS_FOR_STATE_def)
  have put: "accept_response 1 r (toy_subset st (m_messageToCosign L)) = Some (toy_answered st (m_messageToCosign L))"
    by (simp add: accept_response_def vec_put_def Response_copy_def copied_def toy_subset_def toy_answered_def r_def Let_def)
  have env: "ossl toy_env = toy" by (simp add: toy_env_def)
  have "responseCounter (toy_answered st m) = 2" for m by (simp add: toy_answered_def Let_def)
  then show "response_loop toy_env toy_rand 1 action t st' 0 [r] L
    = complete_subset toy_env toy_rand 0 action t st' (L\<lparr>m_consensusSubsets := [toy_answered st (m_messageToCosign L)]\<rparr>)"
    using acc put S st by (simp add: env vec_at_def put_subset_def toy_session_def Let_def)
qed

lemma toy_response_step:
  assumes L: "toy_challenged st L" "st = CHALLENGE_DONE \<longrightarrow> length (m_messageToCosign L) < 900"
    and st: "st = CHALLENGE_DONE \<and> t = RESPONSE \<or> st = FINALCHALLENGE_DONE \<and> t = FINALRESPONSE"
  shows "\<exists>raw L'. Leader_ProcessMessage toy_env toy_rand ([0, 0, type_byte t] @ raw) 2 Peer_default L = Some (True, L') \<and> toy_after st L'"
proof -
  let ?m = "m_messageToCosign L"
  have env: "ossl toy_env = toy" "pb toy_env = toy_protobufs" by (simp_all add: toy_env_def)
  obtain raw where raw: "GetConsensusResponse toy toy_protobufs ([0, 0, type_byte t] @ raw) 3 7 8 [9] [(1, Peer_default), (1, Peer_default)]
      = Some (Some (1, [\<lparr>fval = 12 - toy_c ?m, finit = True\<rparr>]))"
    using toy_response_arrives [of "12 - toy_c ?m" "type_byte t"] toy_c_range [of ?m] by auto
  have core: "\<exists>L'. ProcessMessageResponseCore toy_env toy_rand ([0, 0, type_byte t] @ raw) (2 + 1) action t' st' Peer_default L = Some (True, L')
      \<and> toy_after st L'" if act: "toy_round action st st'" for action t' st'
  proof -
    have "\<exists>L'. complete_subset toy_env toy_rand 0 action t' st' (L\<lparr>m_consensusSubsets := [toy_answered st ?m]\<rparr>) = Some (True, L') \<and> toy_after st L'"
      by (rule toy_completes [OF act]) (use L in \<open>simp_all add: toy_challenged_def toy_session_def\<close>)
    moreover have "ProcessMessageResponseCore toy_env toy_rand ([0, 0, type_byte t] @ raw) (2 + 1) action t' st' Peer_default L
        = response_loop toy_env toy_rand 1 action t' st' 0 [\<lparr>fval = 12 - toy_c ?m, finit = True\<rparr>] L"
      using raw toy_response_accepted(2) [OF act L(1)] L(1)
      by (simp add: ProcessMessageResponseCore_def env toy_session_def toy_challenged_def vec_at_def del: response_loop.simps)
    ultimately show ?thesis using toy_response_accepted(1) [OF act L(1), of t'] by simp
  qed
  have "vec_at ([0, 0, type_byte t] @ raw) 2 = Some (type_byte t)" by (simp add: vec_at_def)
  then show ?thesis
    using st core [of PROCESS_RESPONSE COLLECTIVESIG_DONE COLLECTIVESIG] core [of PROCESS_FINALRESPONSE DONE FINALCOLLECTIVESIG]
    unfolding Leader_ProcessMessage_def ProcessMessageResponse_def ProcessMessageFinalResponse_def
    by (intro exI [of _ raw], elim disjE) (simp_all add: toy_round_def)
qed

section \<open>The session\<close>

text \<open>A leader that has announced gets through both rounds with the four messages of its backup.\<close>

lemma toy_session_finishes:
  assumes L: "toy_ready ANNOUNCE_DONE L" "length (m_messageToCosign L) < 900"
  obtains raw1 raw2 raw3 raw4 L1 L2 L3 L4 where
    "Leader_ProcessMessage toy_env toy_rand ([0, 0, type_byte COMMIT] @ raw1) 2 Peer_default L = Some (True, L1)"
    "Leader_ProcessMessage toy_env toy_rand ([0, 0, type_byte RESPONSE] @ raw2) 2 Peer_default L1 = Some (True, L2)"
    "Leader_ProcessMessage toy_env toy_rand ([0, 0, type_byte FINALCOMMIT] @ raw3) 2 Peer_default L2 = Some (True, L3)"
    "Leader_ProcessMessage toy_env toy_rand ([0, 0, type_byte FINALRESPONSE] @ raw4) 2 Peer_default L3 = Some (True, L4)"
    "m_state L4 = DONE"
proof -
  obtain raw1 L1 where 1: "Leader_ProcessMessage toy_env toy_rand ([0, 0, type_byte COMMIT] @ raw1) 2 Peer_default L = Some (True, L1)"
      "toy_challenged CHALLENGE_DONE L1" "m_messageToCosign L1 = m_messageToCosign L"
    using toy_commit_step [OF L(1), of CHALLENGE_DONE COMMIT] by auto
  obtain raw2 L2 where 2: "Leader_ProcessMessage toy_env toy_rand ([0, 0, type_byte RESPONSE] @ raw2) 2 Peer_default L1 = Some (True, L2)"
      "toy_ready COLLECTIVESIG_DONE L2"
    using toy_response_step [OF 1(2), of RESPONSE] L(2) 1(3) by (auto simp: toy_after_def)
  obtain raw3 L3 where 3: "Leader_ProcessMessage toy_env toy_rand ([0, 0, type_byte FINALCOMMIT] @ raw3) 2 Peer_default L2 = Some (True, L3)"
      "toy_challenged FINALCHALLENGE_DONE L3"
    using toy_commit_step [OF 2(2), of FINALCHALLENGE_DONE FINALCOMMIT] by auto
  obtain raw4 L4 where "Leader_ProcessMessage toy_env toy_rand ([0, 0, type_byte FINALRESPONSE] @ raw4) 2 Peer_default L3 = Some (True, L4)"
      "m_state L4 = DONE"
    using toy_response_step [OF 3(2), of FINALRESPONSE] by (auto simp: toy_after_def)
  then show ?thesis using 1(1) 2(1) 3(1) that by blast
qed

end
