(* ===== verification/LeaderSafety.thy ===== *)
theory LeaderSafety
  imports LeaderInvariant LeaderExample
begin

text \<open>
  What the leader guarantees. Every handler keeps the leader's invariant and never leaves through
  an exception; the session-level guarantees are read off the invariant.
\<close>

section \<open>Handlers keep the invariant\<close>

lemma collecting_accept:
  assumes "collecting L" "backupID < length (m_committee L)" "\<not> m_commitMap L ! backupID"
    "length (m_committee L) < 2 ^ 16"
  shows "u32 (m_commitCounter L + 1) = popcount ((m_commitMap L)[backupID := True])"
    "popcount ((m_commitMap L)[backupID := True]) \<le> length (m_committee L)"
proof -
  have len: "length (m_commitMap L) = length (m_committee L)" and c: "m_commitCounter L = popcount (m_commitMap L)"
    using assms(1) by (auto simp: collecting_def)
  show le: "popcount ((m_commitMap L)[backupID := True]) \<le> length (m_committee L)"
    using popcount_le_length [of "(m_commitMap L)[backupID := True]"] len by simp
  have "popcount ((m_commitMap L)[backupID := True]) = m_commitCounter L + 1"
    using popcount_list_update_True [of backupID "m_commitMap L"] assms(2,3) len c by simp
  then show "u32 (m_commitCounter L + 1) = popcount ((m_commitMap L)[backupID := True])"
    using le assms(4) by simp
qed

lemma record_commit_safe:
  assumes inv: "leader_inv E L" and col: "collecting L"
    and id: "backupID < length (m_committee L)" "\<not> m_commitMap L ! backupID"
  shows "\<exists>L'. record_commit backupID cp L = Some L' \<and> leader_inv E L' \<and> collecting L'
    \<and> m_windows L' = m_windows L \<and> m_numOfSubsets L' = m_numOfSubsets L
    \<and> (leader_draws_ok E rnd L \<longrightarrow> leader_draws_ok E rnd L')"
proof -
  have static: "leader_static L" and win: "leader_windows L" and subs: "leader_subsets L"
    and msg: "leader_message E L" using inv by (auto simp: leader_inv_def)
  let ?n = "length (m_committee L)" and ?cm = "(m_commitMap L)[backupID := True]"
  let ?pm = "(m_commitPointMap L)[backupID := CommitPoint_copy cp]"
  have n: "?n < 2 ^ 16" and me: "m_myID L < ?n" using static by (auto simp: leader_static_def)
  have lens: "length (m_commitMap L) = ?n" "length (m_commitPointMap L) = ?n"
      "length (m_commitRedundantMap L) = ?n" "length (m_commitRedundantPointMap L) = ?n"
      "m_commitMap L ! m_myID L" using col static by (auto simp: collecting_def leader_static_def)
  define L1 where "L1 = L\<lparr>m_commitPoints := m_commitPoints L @ [CommitPoint_copy cp], m_commitPointMap := ?pm,
      m_commitMap := ?cm, m_commitCounter := u32 (m_commitCounter L + 1)\<rparr>"
  define L2 where "L2 = (if m_commitCounter L1 > m_numForConsensus L1
      then L1\<lparr>m_commitRedundantPointMap := (m_commitRedundantPointMap L)[backupID := CommitPoint_copy cp],
              m_commitRedundantMap := (m_commitRedundantMap L)[backupID := True],
              m_commitRedundantCounter := u32 (m_commitRedundantCounter L + 1)\<rparr> else L1)"
  have red: "m_commitRedundantPointMap L1 = m_commitRedundantPointMap L"
      "m_commitRedundantMap L1 = m_commitRedundantMap L"
      "m_commitRedundantCounter L1 = m_commitRedundantCounter L" by (simp_all add: L1_def)
  have run: "record_commit backupID cp L = Some L2"
    using lens id by (simp add: record_commit_def vec_put_def Let_def L1_def L2_def)
  have "collecting L1"
    using lens me id collecting_accept(1) [OF col id n]
    by (auto simp: collecting_def L1_def nth_list_update)
  then have col2: "collecting L2" by (simp add: L2_def)
  have static2: "leader_static L2" using static by (auto simp: L2_def L1_def leader_static_def)
  have same: "m_windows L2 = m_windows L" "m_state L2 = m_state L" "m_numOfSubsets L2 = m_numOfSubsets L"
      "m_consensusSubsets L2 = m_consensusSubsets L" "m_committee L2 = m_committee L" "m_myID L2 = m_myID L"
      "m_numForConsensus L2 = m_numForConsensus L" "m_messageToCosign L2 = m_messageToCosign L"
      "m_CS1 L2 = m_CS1 L" "m_B1 L2 = m_B1 L" "m_CS2 L2 = m_CS2 L" "m_B2 L2 = m_B2 L"
      "m_myPrivKey L2 = m_myPrivKey L"
    by (simp_all add: L2_def L1_def)
  have "leader_inv E L2"
    using win subs msg col2 static2 same
    by (simp add: leader_inv_defs)
  then show ?thesis
    using run col2 same by (auto simp: leader_draws_ok_def myKey_def GetCommitteeMember_def)
qed

lemma accept_commit_safe:
  assumes inv: "leader_inv E L" and rnd: "rand_ok rnd" and draws: "leader_draws_ok E rnd L"
    and st: "m_state L \<in> {ANNOUNCE_DONE, COLLECTIVESIG_DONE}"
    and id: "backupID < length (m_committee L)" "\<not> m_commitMap L ! backupID"
  shows "\<exists>L'. accept_commit E rnd backupID cp L = Some (True, L') \<and> leader_inv E L'"
proof -
  have win: "leader_windows L" and col: "collecting L"
    using inv st by (auto simp: leader_inv_def leader_windows_def)
  obtain L2 where L2: "record_commit backupID cp L = Some L2" "leader_inv E L2" "collecting L2"
      "m_windows L2 = m_windows L" "m_numOfSubsets L2 = m_numOfSubsets L" "leader_draws_ok E rnd L2"
    using record_commit_safe [OF inv col id, of cp rnd] draws by blast
  show ?thesis
  proof (cases "m_numOfSubsets L2 > 1 \<or> m_commitCounter L2 \<noteq> m_numForConsensus L2")
    case True
    then show ?thesis using L2(1,2) by (auto simp: accept_commit_def)
  next
    case False
    then have "m_windows L2 = 0" using win L2 by (auto simp: leader_windows_def)
    then obtain L3 ok L4 where "GenerateConsensusSubsets E rnd L2 = Some L3"
        "StartConsensusSubsets E rnd L3 = Some (ok, L4)" "leader_inv E L4"
      using generate_and_start [of L2 rnd E] L2 rnd False by (auto simp: leader_inv_def)
    then show ?thesis using L2(1) False by (simp add: accept_commit_def)
  qed
qed

lemma Leader_CheckState_iff:
  "Leader_CheckState L PROCESS_COMMIT \<longleftrightarrow> m_state L = ANNOUNCE_DONE"
  "Leader_CheckState L PROCESS_FINALCOMMIT \<longleftrightarrow> m_state L = COLLECTIVESIG_DONE"
  "Leader_CheckState L PROCESS_RESPONSE \<longleftrightarrow> m_state L = CHALLENGE_DONE"
  "Leader_CheckState L PROCESS_FINALRESPONSE \<longleftrightarrow> m_state L = FINALCHALLENGE_DONE"
  "Leader_CheckState L SEND_ANNOUNCEMENT \<longleftrightarrow> m_state L = INITIAL"
  "Leader_CheckState L PROCESS_COMMITFAILURE \<longleftrightarrow>
     m_state L \<in> {INITIAL, ANNOUNCE_DONE, CHALLENGE_DONE, COLLECTIVESIG_DONE, FINALCHALLENGE_DONE, DONE}"
  by (auto simp: Leader_CheckState_def LEADER_ACTIONS_FOR_STATE_def)

lemma ProcessMessageCommitCore_safe:
  assumes inv: "leader_inv E L" and rnd: "rand_ok rnd" and draws: "leader_draws_ok E rnd L"
    and action: "action \<in> {PROCESS_COMMIT, PROCESS_FINALCOMMIT}"
  shows "\<exists>ok L'. ProcessMessageCommitCore E rnd msg offset action from L = Some (ok, L') \<and> leader_inv E L'"
proof (cases "Leader_CheckState L action")
  case False
  then show ?thesis using inv by (simp add: ProcessMessageCommitCore_def)
next
  case True
  then have st: "m_state L \<in> {ANNOUNCE_DONE, COLLECTIVESIG_DONE}"
    using action by (auto simp: Leader_CheckState_iff)
  let ?get = "GetConsensusCommit (ossl E) (pb E) msg offset (m_consensusID L) (m_blockNumber L)
     (m_blockHash L) (m_committee L)"
  obtain r where r: "?get = Some r" using GetConsensusCommit_total by blast
  show ?thesis
  proof (cases r)
    case None
    then show ?thesis using r inv True by (simp add: ProcessMessageCommitCore_def)
  next
    case (Some x)
    obtain backupID cp cph where x: "x = (backupID, cp, cph)" by (cases x)
    have id: "backupID < length (m_committee L)"
      using r Some x by (auto elim: GetConsensusCommit_SomeE)
    have len: "length (m_commitMap L) = length (m_committee L)"
      using inv st by (auto simp: leader_inv_def leader_windows_def collecting_def)
    have "\<exists>ok. commit_acceptable (ossl E) backupID cp cph from L = Some ok
        \<and> (ok \<longrightarrow> \<not> m_commitMap L ! backupID)"
      using id len by (simp add: commit_acceptable_def vec_at_def)
    then obtain ok where ok: "commit_acceptable (ossl E) backupID cp cph from L = Some ok"
        "ok \<longrightarrow> \<not> m_commitMap L ! backupID" by blast
    show ?thesis
    proof (cases ok)
      case False
      then show ?thesis using r Some x ok inv True by (simp add: ProcessMessageCommitCore_def)
    next
      case acc: True
      obtain L' where "accept_commit E rnd backupID (the cp) L = Some (True, L')" "leader_inv E L'"
        using accept_commit_safe [OF inv rnd draws st id] ok(2) acc by blast
      then show ?thesis using r Some x ok acc True by (auto simp: ProcessMessageCommitCore_def)
    qed
  qed
qed

lemma CommitWindowClosed_safe:
  assumes inv: "leader_inv E L" and rnd: "rand_ok rnd" and draws: "leader_draws_ok E rnd L"
    and win: "0 < m_windows L"
  shows "\<exists>L'. CommitWindowClosed E rnd L = Some L' \<and> leader_inv E L'"
proof -
  let ?L = "L\<lparr>m_windows := m_windows L - 1\<rparr>"
  have static: "leader_static ?L" and col: "collecting ?L" and msg: "leader_message E ?L"
    and zero: "m_windows ?L = 0" and subs: "leader_subsets ?L"
    using inv win by (auto simp: leader_inv_defs)
  have draws': "leader_draws_ok E rnd ?L"
    using draws by (subst leader_draws_ok_frame [of _ L]) simp_all
  show ?thesis
  proof (cases "m_commitCounter L < m_numForConsensus L")
    case True
    have "leader_inv E (?L\<lparr>m_state := ERROR\<rparr>)"
      using static subs zero by (simp add: leader_inv_defs)
    then show ?thesis using True by (simp add: CommitWindowClosed_def Let_def)
  next
    case False
    then obtain L1 ok L' where "GenerateConsensusSubsets E rnd ?L = Some L1"
        "StartConsensusSubsets E rnd L1 = Some (ok, L')" "leader_inv E L'"
      using generate_and_start [OF static col rnd draws' _ zero msg] by auto
    then show ?thesis using False by (simp add: CommitWindowClosed_def Let_def)
  qed
qed

lemma leader_inv_reset: "leader_inv E L \<Longrightarrow> leader_inv E (L\<lparr>m_state := INITIAL\<rparr>)"
  by (auto simp: leader_inv_defs)

lemma fail_consensus_safe:
  assumes inv: "leader_inv E L" and draws: "leader_draws_ok E rnd L"
  shows "\<exists>ok L'. fail_consensus E rnd L = Some (ok, L') \<and> leader_inv E L'"
proof -
  let ?L = "L\<lparr>m_state := INITIAL\<rparr>"
  have "leader_draws_ok E rnd ?L" using draws by (subst leader_draws_ok_frame [of _ L]) simp_all
  then have "SetConsensusConsensusFailure (ossl E) (pb E) (message_header ?L CONSENSUSFAILURE) 3
      (m_consensusID ?L) (m_blockNumber ?L) (m_blockHash ?L) (m_myID ?L) (myKey (ossl E) ?L) (draws rnd) \<noteq> None"
    unfolding SetConsensusConsensusFailure_def
    by (intro sign_and_serialize_total) (simp_all add: leader_draws_ok_def)
  then show ?thesis
    using leader_inv_reset [OF inv] by (auto simp: fail_consensus_def Let_def)
qed

lemma ProcessMessageCommitFailure_safe:
  assumes inv: "leader_inv E L" and draws: "leader_draws_ok E rnd L"
  shows "\<exists>ok L'. ProcessMessageCommitFailure E rnd msg offset from L = Some (ok, L') \<and> leader_inv E L'"
proof -
  obtain r where r: "GetConsensusCommitFailure (ossl E) (pb E) msg offset (m_consensusID L) (m_blockNumber L)
     (m_blockHash L) (m_committee L) = Some r" using GetConsensusCommitFailure_total by blast
  have rec: "leader_inv E (record_failure id err from L)" "leader_draws_ok E rnd (record_failure id err from L)"
    for id err
    using inv draws
    by (simp add: record_failure_def,
        subst leader_draws_ok_frame [of _ L]) (simp_all add: record_failure_def emit_def)
  show ?thesis
    using r inv rec fail_consensus_safe [OF rec]
    by (auto simp: ProcessMessageCommitFailure_def Let_def split: option.splits)
qed

section \<open>Responses\<close>

lemma subset_wf_frame [simp]:
  "subset_wf n num me (sub\<lparr>subset_state := st\<rparr>) = subset_wf n num me sub"
  "subset_wf n num me (sub\<lparr>collectiveSig := sig\<rparr>) = subset_wf n num me sub"
  "subset_wf n num me (subset_set_state st sub) = subset_wf n num me sub"
  by (simp_all add: subset_wf_def members_def subset_set_state_def)

lemma leader_subsets_put:
  "leader_subsets L \<Longrightarrow> subset_wf (length (m_committee L)) (m_numForConsensus L) (m_myID L) sub
   \<Longrightarrow> leader_subsets (put_subset i sub L)"
  by (auto simp: leader_subsets_def put_subset_def dest: set_update_subset_insert [THEN subsetD])

lemma leader_inv_put:
  assumes "leader_inv E L" "subset_wf (length (m_committee L)) (m_numForConsensus L) (m_myID L) sub"
  shows "leader_inv E (put_subset i sub L)"
proof -
  have "leader_subsets (put_subset i sub L)"
    using assms by (auto simp: leader_inv_def intro: leader_subsets_put)
  then show ?thesis
    using assms(1) by (simp add: leader_inv_def) (simp add: put_subset_def leader_windows_def leader_message_def)
qed

lemma accept_response_wf:
  assumes wf: "subset_wf n num me sub" and bid: "bid < n" "commitMap sub ! bid" "\<not> responseMap sub ! bid"
    and n: "n < 2 ^ 16"
  shows "\<exists>sub'. accept_response bid r sub = Some sub' \<and> subset_wf n num me sub'
    \<and> subset_state sub' = subset_state sub"
proof -
  have len: "length (responseMap sub) = n" "length (responseDataMap sub) = n"
    and cnt: "responseCounter sub = popcount (responseMap sub)"
    using wf by (auto simp: subset_wf_def)
  have pop: "popcount ((responseMap sub)[bid := True]) = popcount (responseMap sub) + 1"
    using popcount_list_update_True [of bid "responseMap sub"] bid len by simp
  have "popcount ((responseMap sub)[bid := True]) \<le> n"
    using popcount_le_length [of "(responseMap sub)[bid := True]"] len by simp
  then have wrap: "u32 (responseCounter sub + 1) = popcount ((responseMap sub)[bid := True])"
    using pop cnt n by simp
  have mem: "bid \<in> members sub" using wf bid by (simp add: subset_wf_def members_def)
  show ?thesis
    using wf bid len wrap pop mem
    by (auto simp: accept_response_def vec_put_def subset_wf_def nth_list_update members_def)
qed

text \<open>When \<open>GenerateCollectiveSigMessage\<close> succeeds, the signature it publishes has been verified
  against the aggregated key of the members that responded.\<close>

lemma GenerateCollectiveSigMessage_result:
  assumes inv: "leader_inv E L" and draws: "leader_draws_ok E rnd L"
    and i: "i < length (m_consensusSubsets L)" and sub: "sub = m_consensusSubsets L ! i"
  shows "\<exists>ok msg L'. GenerateCollectiveSigMessage E rnd (message_header L t) 3 i L = Some (ok, msg, L')
    \<and> leader_inv E L'
    \<and> (ok \<longrightarrow> (\<exists>sig key. L' = (put_subset i (sub\<lparr>collectiveSig := sig\<rparr>) L)\<lparr>m_collectiveSig := sig\<rparr>
         \<and> AggregateKeys (ossl E) (m_committee L) (responseMap sub) = Some key
         \<and> MultiSigVerify (ossl E) (m_messageToCosign L) sig key = Some True))"
proof -
  let ?n = "length (m_committee L)"
  have wf: "subset_wf ?n (m_numForConsensus L) (m_myID L) sub"
    using inv i sub by (auto simp: leader_inv_def leader_subsets_def)
  have err: "\<exists>L''. SetStateSubset i ERROR L' = Some L'' \<and> leader_inv E L''"
    if "leader_inv E L'" "i < length (m_consensusSubsets L')" for L'
  proof -
    have "subset_wf (length (m_committee L')) (m_numForConsensus L') (m_myID L') (m_consensusSubsets L' ! i)"
      using that by (auto simp: leader_inv_def leader_subsets_def)
    then show ?thesis
      using leader_inv_put [OF that(1), of "subset_set_state ERROR (m_consensusSubsets L' ! i)" i] that(2)
      by (simp add: SetStateSubset_def vec_at_def put_subset_def)
  qed
  let ?ar = "AggregateResponses (ossl E) (responseData sub)"
  let ?sig = "AggregateSign (challenge sub) ?ar"
  let ?L1 = "put_subset i (sub\<lparr>collectiveSig := ?sig\<rparr>) L"
  have inv1: "leader_inv E ?L1" by (rule leader_inv_put [OF inv]) (use wf in simp)
  have i1: "i < length (m_consensusSubsets ?L1)" using i by (simp add: put_subset_def)
  obtain key where key: "AggregateKeys (ossl E) (m_committee L) (responseMap sub) = Some key"
    using AggregateKeys_total [of "responseMap sub" "m_committee L" "ossl E"] wf
    by (auto simp: subset_wf_def)
  obtain v where v: "MultiSigVerify (ossl E) (m_messageToCosign L) ?sig key = Some v"
    using MultiSigVerify_total [of "ossl E" "m_messageToCosign L" ?sig key] by auto
  have fields: "m_messageToCosign ?L1 = m_messageToCosign L" "m_committee ?L1 = m_committee L"
    by (simp_all add: put_subset_def)
  have "leader_draws_ok E rnd ?L1"
    using draws by (subst leader_draws_ok_frame [of _ L]) (simp_all add: put_subset_def)
  then obtain msg ok where msg: "SetConsensusCollectiveSig (ossl E) (pb E) (message_header L t) 3
      (m_consensusID ?L1) (m_blockNumber ?L1) (m_blockHash ?L1) (m_myID ?L1) ?sig (responseMap sub)
      (myKey (ossl E) ?L1) (draws rnd) = Some (msg, ok)"
    using sign_and_serialize_total [of "ossl E" "myKey (ossl E) ?L1" "draws rnd"
        "message_header L t" 3]
    unfolding SetConsensusCollectiveSig_def leader_draws_ok_def by fastforce
  have at: "vec_at (m_consensusSubsets L) i = Some sub" using i sub by (simp add: vec_at_def)
  note run = GenerateCollectiveSigMessage_def Let_def at key fields v msg
  consider "\<not> finit ?ar" | "finit ?ar" "\<not> v" | "finit ?ar" v "\<not> ok" | "finit ?ar" v ok by blast
  then show ?thesis
  proof cases
    case 1
    then show ?thesis using err [OF inv i] by (auto simp: run)
  next
    case 2
    then show ?thesis using err [OF inv1 i1] by (auto simp: run)
  next
    case 3
    then show ?thesis using inv1 by (auto simp: run)
  next
    case 4
    then have "GenerateCollectiveSigMessage E rnd (message_header L t) 3 i L
        = Some (True, msg, ?L1\<lparr>m_collectiveSig := ?sig\<rparr>)" by (simp add: run)
    moreover have "leader_inv E (?L1\<lparr>m_collectiveSig := ?sig\<rparr>)" using inv1 by simp
    moreover have "MultiSigVerify (ossl E) (m_messageToCosign L) ?sig key = Some True" using v 4(2) by simp
    ultimately show ?thesis using key by blast
  qed
qed

text \<open>The first round ends: the message grows by the signature and its bitmap, and the maps are ready
  for the second round's commits.\<close>

lemma finish_first_round_safe:
  assumes static: "leader_static L" and fits: "Signature_fits (collectiveSig sub)"
    and small: "length (m_messageToCosign L) < 2 ^ 31"
    and bits: "length (responseMap sub) = length (m_committee L)"
  shows "\<exists>L' msg. finish_first_round E sub L = Some L'
    \<and> extended (m_messageToCosign L) (collectiveSig sub) (responseMap sub) msg
    \<and> leader_static L' \<and> collecting L' \<and> m_messageToCosign L' = msg
    \<and> m_CS1 L' = collectiveSig sub \<and> m_B1 L' = responseMap sub
    \<and> m_windows L' = m_windows L \<and> m_numOfSubsets L' = m_numOfSubsets L
    \<and> m_consensusSubsets L' = m_consensusSubsets L \<and> m_committee L' = m_committee L
    \<and> m_numForConsensus L' = m_numForConsensus L \<and> m_myID L' = m_myID L \<and> m_state L' = m_state L"
proof -
  let ?n = "length (m_committee L)" and ?m = "m_messageToCosign L"
  let ?m1 = "fst (Signature_Serialize ?m (u32 (length ?m)) (collectiveSig sub))"
  have n: "?n < 65536" "m_myID L < ?n" using static by (auto simp: leader_static_def)
  obtain point where point: "m_commitPoint L = Some point" using static by (auto simp: leader_static_def)
  obtain msg sz where msg: "SetBitVector ?m1 (u32 (length ?m1)) (responseMap sub) = Some (msg, sz)"
    and ext: "extended ?m (collectiveSig sub) (responseMap sub) msg"
    using extend_message [OF fits small, of "responseMap sub"] bits n by auto
  have pop: "popcount ((replicate ?n False)[m_myID L := True]) = 1"
    using n popcount_list_update_True [of "m_myID L" "replicate ?n False"] by simp
  show ?thesis
    using msg ext point n pop static
    by (auto simp: finish_first_round_def Let_def vec_put_def leader_static_def collecting_def)
qed

lemma SubsetEnded_success:
  assumes "i < length (m_consensusSubsets L)" "subset_state (m_consensusSubsets L ! i) = st"
    "st \<in> {COLLECTIVESIG_DONE, DONE}" "leader_subsets L" "m_state L = st"
  shows "\<exists>subs. SubsetEnded i L = Some (L\<lparr>m_consensusSubsets := subs\<rparr>)
    \<and> leader_subsets (L\<lparr>m_consensusSubsets := subs\<rparr>)"
proof -
  let ?subs = "(map (subset_set_state INITIAL) (m_consensusSubsets L))[i := m_consensusSubsets L ! i]"
  have "SubsetEnded i L = Some (L\<lparr>m_consensusSubsets := ?subs\<rparr>)"
    using assms by (auto simp: SubsetEnded_def vec_at_def)
  moreover have "leader_subsets (L\<lparr>m_consensusSubsets := ?subs\<rparr>)"
    using assms(1,4) by (auto simp: leader_subsets_def dest!: set_update_subset_insert [THEN subsetD])
  ultimately show ?thesis by blast
qed

lemma cosigned_intro:
  assumes "subset_wf (length committee) num me sub" "responseCounter sub = num"
    "AggregateKeys B committee (responseMap sub) = Some key" "MultiSigVerify B message sig key = Some True"
  shows "cosigned B committee num message sig (responseMap sub)"
  using assms by (auto simp: cosigned_def subset_wf_def)

text \<open>The steps of \<open>complete_subset\<close> up to the round's bookkeeping.\<close>

definition completed :: "nat \<Rightarrow> 'pt ConsensusSubset \<Rightarrow> Signature \<Rightarrow> State \<Rightarrow> 'pt ConsensusLeader \<Rightarrow> 'pt ConsensusLeader" where
  "completed i sub sig st L =
     (put_subset i (sub\<lparr>collectiveSig := sig, subset_state := st\<rparr>)
        (L\<lparr>m_collectiveSig := sig\<rparr>))\<lparr>m_state := st\<rparr>"

lemma completed_fields [simp]:
  "m_state (completed i sub sig st L) = st" "m_committee (completed i sub sig st L) = m_committee L"
  "m_messageToCosign (completed i sub sig st L) = m_messageToCosign L"
  "m_windows (completed i sub sig st L) = m_windows L" "m_myID (completed i sub sig st L) = m_myID L"
  "m_numForConsensus (completed i sub sig st L) = m_numForConsensus L"
  "m_numOfSubsets (completed i sub sig st L) = m_numOfSubsets L"
  "m_CS1 (completed i sub sig st L) = m_CS1 L" "m_B1 (completed i sub sig st L) = m_B1 L"
  "m_consensusSubsets (completed i sub sig st L)
     = (m_consensusSubsets L)[i := sub\<lparr>collectiveSig := sig, subset_state := st\<rparr>]"
  "leader_static (completed i sub sig st L) = leader_static L"
  by (simp_all add: completed_def put_subset_def)

lemma completed_subsets:
  assumes "leader_subsets L" "i < length (m_consensusSubsets L)" "sub = m_consensusSubsets L ! i"
  shows "leader_subsets (completed i sub sig st L)"
proof -
  have "subset_wf (length (m_committee L)) (m_numForConsensus L) (m_myID L)
      (sub\<lparr>collectiveSig := sig, subset_state := st\<rparr>)"
    using assms by (simp add: leader_subsets_def)
  then show ?thesis
    using assms(1) by (auto simp: leader_subsets_def dest!: set_update_subset_insert [THEN subsetD])
qed

definition publish :: "'pt env \<Rightarrow> bytes \<Rightarrow> 'pt ConsensusLeader \<Rightarrow> 'pt ConsensusLeader" where
  "publish E msg L =
     (let L' = (if BROADCAST_GOSSIP_MODE E then emit (SpreadRumor msg) L
                else emit (SendMessage (map snd (m_committee L)) msg) L)
      in if m_state L' = COLLECTIVESIG_DONE \<and> m_numOfSubsets L' > 1 then start_window L' else L')"

lemma complete_subset_steps:
  assumes gen: "GenerateCollectiveSigMessage E rnd (message_header L t) 3 i L
      = Some (True, msg, (put_subset i (sub\<lparr>collectiveSig := sig\<rparr>) L)\<lparr>m_collectiveSig := sig\<rparr>)"
    and i: "i < length (m_consensusSubsets L)" and st: "subset_state sub < st"
  shows "complete_subset E rnd i action t st L = do {
     let sub' = sub\<lparr>collectiveSig := sig, subset_state := st\<rparr>;
     let L3 = completed i sub sig st L;
     L4 \<leftarrow> (if action = PROCESS_RESPONSE then finish_first_round E sub' L3
            else Some (finish_second_round sub' L3));
     L5 \<leftarrow> SubsetEnded i L4;
     Some (True, publish E msg L5) }"
  using i st
  by (simp add: complete_subset_def gen SetStateSubset_def vec_at_def put_subset_def subset_set_state_def
      completed_def publish_def Let_def)

lemma publish_inv:
  assumes "leader_inv E L" "m_state L = COLLECTIVESIG_DONE \<longrightarrow> m_windows L = 0"
  shows "leader_inv E (publish E msg L)"
proof -
  have "leader_inv E (start_window L')" if "leader_inv E L'" "m_windows L' = 0" "m_numOfSubsets L' > 1"
      "m_state L' = COLLECTIVESIG_DONE" for L' :: "'a ConsensusLeader"
    using that by (auto simp: start_window_def emit_def leader_inv_defs)
  then show ?thesis using assms by (auto simp: publish_def Let_def emit_def)
qed

text \<open>Either the signature could not be produced, or it verifies and the round's bookkeeping runs.\<close>

lemma complete_subset_cases:
  assumes inv: "leader_inv E L" and draws: "leader_draws_ok E rnd L"
    and i: "i < length (m_consensusSubsets L)" and sub: "sub = m_consensusSubsets L ! i"
    and st: "subset_state sub < st"
  obtains (failed) L1 where "complete_subset E rnd i action t st L = Some (False, L1)" "leader_inv E L1"
  | (signed) sig key msg where
      "AggregateKeys (ossl E) (m_committee L) (responseMap sub) = Some key"
      "MultiSigVerify (ossl E) (m_messageToCosign L) sig key = Some True"
      "complete_subset E rnd i action t st L = do {
         let sub' = sub\<lparr>collectiveSig := sig, subset_state := st\<rparr>;
         let L3 = completed i sub sig st L;
         L4 \<leftarrow> (if action = PROCESS_RESPONSE then finish_first_round E sub' L3
                else Some (finish_second_round sub' L3));
         L5 \<leftarrow> SubsetEnded i L4;
         Some (True, publish E msg L5) }"
proof -
  obtain ok msg L1 where gen: "GenerateCollectiveSigMessage E rnd (message_header L t) 3 i L = Some (ok, msg, L1)"
      "leader_inv E L1"
    and won: "ok \<longrightarrow> (\<exists>sig key. L1 = (put_subset i (sub\<lparr>collectiveSig := sig\<rparr>) L)\<lparr>m_collectiveSig := sig\<rparr>
         \<and> AggregateKeys (ossl E) (m_committee L) (responseMap sub) = Some key
         \<and> MultiSigVerify (ossl E) (m_messageToCosign L) sig key = Some True)"
    using GenerateCollectiveSigMessage_result [OF inv draws i sub] by blast
  show ?thesis
  proof (cases ok)
    case False
    then show ?thesis using gen by (intro failed [of L1]) (simp_all add: complete_subset_def)
  next
    case True
    then obtain sig key where won: "L1 = (put_subset i (sub\<lparr>collectiveSig := sig\<rparr>) L)\<lparr>m_collectiveSig := sig\<rparr>"
        "AggregateKeys (ossl E) (m_committee L) (responseMap sub) = Some key"
        "MultiSigVerify (ossl E) (m_messageToCosign L) sig key = Some True" using won by blast
    have "GenerateCollectiveSigMessage E rnd (message_header L t) 3 i L
        = Some (True, msg, (put_subset i (sub\<lparr>collectiveSig := sig\<rparr>) L)\<lparr>m_collectiveSig := sig\<rparr>)"
      using gen(1) won(1) True by simp
    from signed [OF won(2,3) complete_subset_steps [OF this i st]] show ?thesis .
  qed
qed

lemma complete_first_safe:
  assumes inv: "leader_inv E L" and draws: "leader_draws_ok E rnd L" and B: "openssl_ok (ossl E) g"
    and i: "i < length (m_consensusSubsets L)" and sub: "sub = m_consensusSubsets L ! i"
    and st: "m_state L = CHALLENGE_DONE" "subset_state sub = CHALLENGE_DONE"
    and full: "responseCounter sub = m_numForConsensus L"
  shows "\<exists>ok L'. complete_subset E rnd i PROCESS_RESPONSE t COLLECTIVESIG_DONE L = Some (ok, L') \<and> leader_inv E L'"
proof -
  have less: "subset_state sub < COLLECTIVESIG_DONE" using st by (simp add: less_State_def)
  show ?thesis
  proof (cases rule: complete_subset_cases [OF inv draws i sub less, of PROCESS_RESPONSE t, case_names failed signed])
    case (failed L1)
    then show ?thesis by simp
  next
    case (signed sig key msg)
    let ?sub = "sub\<lparr>collectiveSig := sig, subset_state := COLLECTIVESIG_DONE\<rparr>"
    let ?L3 = "completed i sub sig COLLECTIVESIG_DONE L"
    have parts: "leader_static L" "leader_subsets L" "m_windows L = 0" "length (m_messageToCosign L) < 2 ^ 31"
      using inv st by (auto simp: leader_inv_defs)
    have wf: "subset_wf (length (m_committee L)) (m_numForConsensus L) (m_myID L) sub"
      using parts(2) i sub by (auto simp: leader_subsets_def)
    have "length (responseMap ?sub) = length (m_committee ?L3)" using wf by (simp add: subset_wf_def)
    then obtain L4 m where L4: "finish_first_round E ?sub ?L3 = Some L4"
        "extended (m_messageToCosign L) sig (responseMap sub) m" "leader_static L4" "collecting L4"
        "m_messageToCosign L4 = m" "m_CS1 L4 = sig" "m_B1 L4 = responseMap sub" "m_windows L4 = 0"
        "m_consensusSubsets L4 = m_consensusSubsets ?L3" "m_committee L4 = m_committee L"
        "m_numForConsensus L4 = m_numForConsensus L" "m_myID L4 = m_myID L" "m_state L4 = COLLECTIVESIG_DONE"
      using finish_first_round_safe [of ?L3 ?sub E] parts MultiSigVerify_fits [OF B signed(2)] by auto
    have "leader_subsets L4"
      using completed_subsets [OF parts(2) i sub, of sig COLLECTIVESIG_DONE] L4
      by (simp add: leader_subsets_def)
    then obtain subs where subs: "SubsetEnded i L4 = Some (L4\<lparr>m_consensusSubsets := subs\<rparr>)"
        "leader_subsets (L4\<lparr>m_consensusSubsets := subs\<rparr>)"
      using SubsetEnded_success [of i L4 COLLECTIVESIG_DONE] L4(9,13) i by auto
    have "leader_message E (L4\<lparr>m_consensusSubsets := subs\<rparr>)"
      using L4 cosigned_intro [OF wf full signed(1,2)] by (auto simp: leader_message_def)
    then have "leader_inv E (L4\<lparr>m_consensusSubsets := subs\<rparr>)"
      using subs(2) L4 by (simp add: leader_inv_def leader_windows_def)
    then have "leader_inv E (publish E msg (L4\<lparr>m_consensusSubsets := subs\<rparr>))"
      by (rule publish_inv) (use L4(8) in simp)
    then show ?thesis using signed(3) L4(1) subs(1) by (auto simp: Let_def)
  qed
qed

lemma complete_second_safe:
  assumes inv: "leader_inv E L" and draws: "leader_draws_ok E rnd L"
    and i: "i < length (m_consensusSubsets L)" and sub: "sub = m_consensusSubsets L ! i"
    and st: "m_state L = FINALCHALLENGE_DONE" "subset_state sub = FINALCHALLENGE_DONE"
    and full: "responseCounter sub = m_numForConsensus L"
  shows "\<exists>ok L'. complete_subset E rnd i PROCESS_FINALRESPONSE t DONE L = Some (ok, L') \<and> leader_inv E L'"
proof -
  have less: "subset_state sub < DONE" using st by (simp add: less_State_def)
  show ?thesis
  proof (cases rule: complete_subset_cases [OF inv draws i sub less, of PROCESS_FINALRESPONSE t, case_names failed signed])
    case (failed L1)
    then show ?thesis by simp
  next
    case (signed sig key msg)
    let ?sub = "sub\<lparr>collectiveSig := sig, subset_state := DONE\<rparr>"
    let ?L4 = "finish_second_round ?sub (completed i sub sig DONE L)"
    have parts: "leader_static L" "leader_subsets L" "m_windows L = 0" and msg: "leader_message E L"
      using inv st by (auto simp: leader_inv_defs)
    have wf: "subset_wf (length (m_committee L)) (m_numForConsensus L) (m_myID L) sub"
      using parts(2) i sub by (auto simp: leader_subsets_def)
    have "leader_subsets ?L4"
      using completed_subsets [OF parts(2) i sub, of sig DONE]
      by (simp add: leader_subsets_def finish_second_round_def)
    then obtain subs where subs: "SubsetEnded i ?L4 = Some (?L4\<lparr>m_consensusSubsets := subs\<rparr>)"
        "leader_subsets (?L4\<lparr>m_consensusSubsets := subs\<rparr>)"
      using SubsetEnded_success [of i ?L4 DONE] i by (auto simp: finish_second_round_def)
    have "leader_message E (?L4\<lparr>m_consensusSubsets := subs\<rparr>)"
      using msg st cosigned_intro [OF wf full signed(1,2)]
      by (auto simp: leader_message_def finish_second_round_def)
    then have "leader_inv E (?L4\<lparr>m_consensusSubsets := subs\<rparr>)"
      using subs(2) parts by (simp add: leader_inv_def leader_windows_def finish_second_round_def)
    then have "leader_inv E (publish E msg (?L4\<lparr>m_consensusSubsets := subs\<rparr>))"
      by (rule publish_inv) (simp add: finish_second_round_def)
    then show ?thesis using signed(3) subs(1) by (auto simp: Let_def)
  qed
qed

lemma response_acceptable_result:
  assumes inv: "leader_inv E L" and i: "i < length (m_consensusSubsets L)"
    and sub: "sub = m_consensusSubsets L ! i"
  shows "\<exists>ok. response_acceptable B bid action i r L = Some ok
    \<and> (ok \<longrightarrow> CheckStateSubset L i action = Some True \<and> bid < length (m_committee L)
         \<and> commitMap sub ! bid \<and> \<not> responseMap sub ! bid)"
proof -
  have "subset_wf (length (m_committee L)) (m_numForConsensus L) (m_myID L) sub"
    using inv i sub by (auto simp: leader_inv_def leader_subsets_def)
  then have len: "length (commitMap sub) = length (m_committee L)" "length (commitPointMap sub) = length (m_committee L)"
      "length (responseDataMap sub) = length (m_committee L)" "length (responseMap sub) = length (m_committee L)"
    by (auto simp: subset_wf_def)
  have at: "vec_at (m_consensusSubsets L) i = Some sub" using i sub by (simp add: vec_at_def)
  obtain ok where ok: "CheckStateSubset L i action = Some ok" using at by (simp add: CheckStateSubset_def)
  show ?thesis
  proof (cases "bid < length (m_committee L)")
    case True
    then show ?thesis
      by (cases ok; cases "commitMap sub ! bid"; cases "responseMap sub ! bid")
        (auto simp: response_acceptable_def at ok vec_at_Some len)
  next
    case False
    then show ?thesis by (cases ok) (auto simp: response_acceptable_def at ok len)
  qed
qed

text \<open>The two rounds the response handler serves.\<close>

definition response_round :: "LeaderAction \<Rightarrow> State \<Rightarrow> bool" where
  "response_round action nextstate \<longleftrightarrow>
     (action, nextstate) \<in> {(PROCESS_RESPONSE, COLLECTIVESIG_DONE), (PROCESS_FINALRESPONSE, DONE)}"

lemma complete_subset_safe:
  assumes inv: "leader_inv E L" and draws: "leader_draws_ok E rnd L" and B: "openssl_ok (ossl E) g"
    and i: "i < length (m_consensusSubsets L)"
    and check: "Leader_CheckState L action" "CheckStateSubset L i action = Some True"
    and round: "response_round action nextstate"
    and full: "responseCounter (m_consensusSubsets L ! i) = m_numForConsensus L"
  shows "\<exists>ok L'. complete_subset E rnd i action t nextstate L = Some (ok, L') \<and> leader_inv E L'"
  using round unfolding response_round_def
proof (elim insertE, goal_cases)
  case 1
  then show ?case
    using complete_first_safe [OF inv draws B i refl _ _ full, of t] check i
    by (auto simp: Leader_CheckState_iff CheckStateSubset_def SUBSET_ACTIONS_FOR_STATE_def vec_at_def)
next
  case 2
  then show ?case
    using complete_second_safe [OF inv draws i refl _ _ full, of t] check i
    by (auto simp: Leader_CheckState_iff CheckStateSubset_def SUBSET_ACTIONS_FOR_STATE_def vec_at_def)
qed simp

lemma response_loop_safe:
  assumes "leader_inv E L" "leader_draws_ok E rnd L" and B: "openssl_ok (ossl E) g"
    and "i + length rs \<le> length (m_consensusSubsets L)" and round: "response_round action nextstate"
  shows "\<exists>ok L'. response_loop E rnd bid action t nextstate i rs L = Some (ok, L') \<and> leader_inv E L'"
  using assms(1,2,4)
proof (induction rs arbitrary: i L)
  case (Cons r rs)
  let ?sub = "m_consensusSubsets L ! i"
  have i: "i < length (m_consensusSubsets L)" using Cons.prems(3) by simp
  obtain ok where ok: "response_acceptable (ossl E) bid action i r L = Some ok"
    and acc: "ok \<longrightarrow> CheckStateSubset L i action = Some True \<and> bid < length (m_committee L)
         \<and> commitMap ?sub ! bid \<and> \<not> responseMap ?sub ! bid"
    using response_acceptable_result [OF Cons.prems(1) i refl] by blast
  show ?case
  proof (cases "ok \<and> Leader_CheckState L action")
    case False
    then show ?thesis
      using ok Cons.IH [OF Cons.prems(1,2), of "i + 1"] Cons.prems by (cases ok) auto
  next
    case True
    have wf: "subset_wf (length (m_committee L)) (m_numForConsensus L) (m_myID L) ?sub"
      using Cons.prems(1) i by (auto simp: leader_inv_def leader_subsets_def)
    have n: "length (m_committee L) < 2 ^ 16" using Cons.prems(1) by (auto simp: leader_inv_def leader_static_def)
    obtain sub' where sub': "accept_response bid r ?sub = Some sub'"
        "subset_wf (length (m_committee L)) (m_numForConsensus L) (m_myID L) sub'"
        "subset_state sub' = subset_state ?sub"
      using accept_response_wf [OF wf _ _ _ n, of bid r] acc True by auto
    let ?L = "put_subset i sub' L"
    have inv': "leader_inv E ?L" by (rule leader_inv_put [OF Cons.prems(1) sub'(2)])
    have draws': "leader_draws_ok E rnd ?L"
      using Cons.prems(2) by (subst leader_draws_ok_frame [of _ L]) (simp_all add: put_subset_def)
    have len': "length (m_consensusSubsets ?L) = length (m_consensusSubsets L)" by (simp add: put_subset_def)
    have check: "Leader_CheckState ?L action" "CheckStateSubset ?L i action = Some True"
      using True acc i sub'(3) by (auto simp: Leader_CheckState_def CheckStateSubset_def vec_at_def put_subset_def)
    have at: "m_consensusSubsets ?L ! i = sub'" using i by (simp add: put_subset_def)
    have step: "response_loop E rnd bid action t nextstate i (r # rs) L
        = (if responseCounter sub' = m_numForConsensus ?L then complete_subset E rnd i action t nextstate ?L
           else response_loop E rnd bid action t nextstate (i + 1) rs ?L)"
      using ok True acc i sub'(1) by (simp add: vec_at_def Let_def)
    show ?thesis
    proof (cases "responseCounter sub' = m_numForConsensus ?L")
      case full: True
      then show ?thesis
        using complete_subset_safe [OF inv' draws' B _ check round, of t] step i at len' by simp
    next
      case False
      then show ?thesis using Cons.IH [OF inv' draws', of "i + 1"] Cons.prems(3) step len' by simp
    qed
  qed
qed auto

text \<open>A response field shorter than a scalar crashes the reader.\<close>

definition response_cut_short :: "'pt env \<Rightarrow> bytes \<Rightarrow> nat \<Rightarrow> 'pt ConsensusLeader \<Rightarrow> bool" where
  "response_cut_short E msg offset L \<longleftrightarrow>
     (case open_consensus_message (ConsensusResponse (pb E)) msg offset (m_consensusID L) (m_blockNumber L)
             (m_blockHash L) of
        None \<Rightarrow> False
      | Some m \<Rightarrow> u16 (memberid (consensusinfo m)) < length (m_committee L)
          \<and> (\<exists>e \<in> set (payload (consensusinfo m)). length e < 32))"

lemma GetConsensusResponse_None:
  "GetConsensusResponse (ossl E) (pb E) msg offset (m_consensusID L) (m_blockNumber L) (m_blockHash L)
    (m_committee L) = None \<longleftrightarrow> response_cut_short E msg offset L"
  by (auto simp: GetConsensusResponse_def response_cut_short_def Let_def read_response_subsets_None [symmetric]
      split: option.splits)

lemma ProcessMessageResponseCore_safe:
  assumes inv: "leader_inv E L" and draws: "leader_draws_ok E rnd L" and B: "openssl_ok (ossl E) g"
    and long: "Leader_CheckState L action \<longrightarrow> \<not> response_cut_short E msg offset L"
    and round: "response_round action nextstate"
  shows "\<exists>ok L'. ProcessMessageResponseCore E rnd msg offset action t nextstate from L = Some (ok, L')
    \<and> leader_inv E L'"
proof (cases "Leader_CheckState L action")
  case False
  then show ?thesis using inv by (simp add: ProcessMessageResponseCore_def)
next
  case state: True
  let ?get = "GetConsensusResponse (ossl E) (pb E) msg offset (m_consensusID L) (m_blockNumber L)
     (m_blockHash L) (m_committee L)"
  obtain r where r: "?get = Some r" using GetConsensusResponse_None long state by blast
  note run = ProcessMessageResponseCore_def r
  show ?thesis
  proof (cases r)
    case None
    then show ?thesis using inv by (auto simp: run)
  next
    case (Some x)
    obtain bid rs where x: "x = (bid, rs)" by (cases x)
    have bid: "bid < length (m_committee L)" using r Some x by (auto elim: GetConsensusResponse_SomeE)
    show ?thesis
    proof (cases "Leader_CheckState L action \<and> m_ipAddress (snd (m_committee L ! bid)) = m_ipAddress from
        \<and> length rs \<le> length (m_consensusSubsets L)")
      case True
      then show ?thesis
        using response_loop_safe [OF inv draws B _ round, of 0 rs bid t] bid
        by (auto simp: run Some x vec_at_Some)
    next
      case False
      then show ?thesis using inv bid by (auto simp: run Some x vec_at_Some)
    qed
  qed
qed

section \<open>Session events\<close>

text \<open>The announcement's message to co-sign must be shorter than two gigabytes, and no commit window of
  an earlier attempt may still be open.\<close>

definition announcement_ok :: "'pt env \<Rightarrow> 'pt announcement_generator \<Rightarrow> 'pt ConsensusLeader \<Rightarrow> bool" where
  "announcement_ok E gen L \<longleftrightarrow>
     length (snd (snd (gen (message_header L ANNOUNCE) 3 (m_consensusID L) (m_blockNumber L) (m_blockHash L)
       (m_myID L) (myKey (ossl E) L) (m_messageToCosign L)))) < 2 ^ 31"

lemma StartConsensus_safe:
  assumes inv: "leader_inv E L" and small: "announcement_ok E gen L"
    and ready: "m_state L = INITIAL \<longrightarrow> collecting L \<and> m_windows L = 0"
  shows "leader_inv E (snd (StartConsensus E gen gossip L))"
proof (cases "m_state L = INITIAL")
  case False
  then show ?thesis using inv by (simp add: StartConsensus_def Leader_CheckState_iff)
next
  case True
  obtain ok ann m where gen: "gen (message_header L ANNOUNCE) 3 (m_consensusID L) (m_blockNumber L) (m_blockHash L)
       (m_myID L) (myKey (ossl E) L) (m_messageToCosign L) = (ok, ann, m)" by (metis prod_cases3)
  have m: "length m < 2 ^ 31" using small gen by (simp add: announcement_ok_def)
  have parts: "leader_static L" "leader_subsets L" "collecting L" "m_windows L = 0"
    using inv ready True by (auto simp: leader_inv_def)
  let ?L = "L\<lparr>m_messageToCosign := m, m_state := ANNOUNCE_DONE, m_commitRedundantCounter := 0,
      m_commitFailureCounter := 0\<rparr>"
  have fresh: "leader_inv E (L\<lparr>m_messageToCosign := m\<rparr>)" using parts True by (simp add: leader_inv_defs)
  have base: "leader_inv E ?L" "collecting ?L" "m_windows ?L = 0"
    using parts m by (simp_all add: leader_inv_defs)
  have window: "leader_inv E (start_window L')"
    if "leader_inv E L'" "collecting L'" "m_windows L' = 0" "1 < m_numOfSubsets L'" "m_state L' = ANNOUNCE_DONE"
    for L' :: "'a ConsensusLeader"
    using that by (auto simp: start_window_def emit_def leader_inv_defs)
  show ?thesis
    using fresh base window [of "emit out ?L" for out]
    by (auto simp: StartConsensus_def Leader_CheckState_iff True gen Let_def emit_def)
qed

text \<open>What can happen to a leader: its own thread starts the session, a message arrives, a commit window
  closes.\<close>

datatype 'pt leader_event =
    Start "'pt announcement_generator" bool
  | Receive rand bytes nat Peer
  | WindowClosed rand

fun leader_handle :: "'pt env \<Rightarrow> 'pt leader_event \<Rightarrow> 'pt ConsensusLeader \<Rightarrow> 'pt ConsensusLeader option" where
  "leader_handle E (Start gen gossip) L = Some (snd (StartConsensus E gen gossip L))"
| "leader_handle E (Receive rnd msg offset from) L = map_option snd (Leader_ProcessMessage E rnd msg offset from L)"
| "leader_handle E (WindowClosed rnd) L = CommitWindowClosed E rnd L"

text \<open>What is asked of the environment: a session is started on fresh commit maps; messages are not
  empty; shuffles are permutations and the random source does not dry up.\<close>

fun leader_admissible :: "'pt env \<Rightarrow> 'pt ConsensusLeader \<Rightarrow> 'pt leader_event \<Rightarrow> bool" where
  "leader_admissible E L (Start gen gossip) =
     (announcement_ok E gen L \<and> (m_state L = INITIAL \<longrightarrow> collecting L \<and> m_windows L = 0))"
| "leader_admissible E L (Receive rnd msg offset from) =
     (offset < length msg \<and> rand_ok rnd \<and> leader_draws_ok E rnd L)"
| "leader_admissible E L (WindowClosed rnd) =
     (0 < m_windows L \<and> rand_ok rnd \<and> leader_draws_ok E rnd L)"

text \<open>The one event that leaves through an exception: a response, or a final response, that the leader waits
  for, of this session and with the number of a committee member, one of whose fields is cut short.\<close>

fun leader_crashes :: "'pt env \<Rightarrow> 'pt ConsensusLeader \<Rightarrow> 'pt leader_event \<Rightarrow> bool" where
  "leader_crashes E L (Receive rnd msg offset from) =
     ((msg ! offset = type_byte RESPONSE \<and> m_state L = CHALLENGE_DONE
       \<or> msg ! offset = type_byte FINALRESPONSE \<and> m_state L = FINALCHALLENGE_DONE)
      \<and> response_cut_short E msg (offset + 1) L)"
| "leader_crashes E L e = False"

definition leader_safe :: "'pt env \<Rightarrow> 'pt ConsensusLeader \<Rightarrow> bool" where
  "leader_safe E L \<longleftrightarrow> leader_inv E L \<and> (\<exists>g. openssl_ok (ossl E) g)"

lemma Leader_ProcessMessage_safe:
  assumes inv: "leader_inv E L" and B: "openssl_ok (ossl E) g"
    and adm: "leader_admissible E L (Receive rnd msg offset from)"
    and long: "\<not> leader_crashes E L (Receive rnd msg offset from)"
  shows "\<exists>ok L'. Leader_ProcessMessage E rnd msg offset from L = Some (ok, L') \<and> leader_inv E L'"
proof -
  have rnd: "rand_ok rnd" and draws: "leader_draws_ok E rnd L" and off: "offset < length msg"
    using adm by auto
  note commit = ProcessMessageCommitCore_safe [OF inv rnd draws, of _ msg "offset + 1" "from"]
  note response = ProcessMessageResponseCore_safe [OF inv draws B, where msg = msg and offset = "offset + 1"]
  show ?thesis
    using commit [of PROCESS_COMMIT] commit [of PROCESS_FINALCOMMIT]
      response [of PROCESS_RESPONSE COLLECTIVESIG_DONE COLLECTIVESIG "from"]
      response [of PROCESS_FINALRESPONSE DONE FINALCOLLECTIVESIG "from"]
      ProcessMessageCommitFailure_safe [OF inv draws, of msg "offset + 1" "from"] inv off long
    by (auto simp: Leader_ProcessMessage_def vec_at_Some ProcessMessageCommit_def ProcessMessageFinalCommit_def
        ProcessMessageResponse_def ProcessMessageFinalResponse_def response_round_def Leader_CheckState_iff)
qed

lemma Leader_ProcessMessage_crash:
  assumes "offset < length msg" "leader_crashes E L (Receive rnd msg offset from)"
  shows "Leader_ProcessMessage E rnd msg offset from L = None"
proof -
  have "ProcessMessageResponseCore E rnd msg (offset + 1) action t nextstate from L = None"
    if "Leader_CheckState L action" for action t nextstate
    using assms(2) that GetConsensusResponse_None [of E msg "offset + 1" L] by (auto simp: ProcessMessageResponseCore_def)
  then show ?thesis
    using assms by (auto simp: Leader_ProcessMessage_def vec_at_Some ProcessMessageResponse_def
        ProcessMessageFinalResponse_def Leader_CheckState_iff)
qed

lemma leader_handle_result:
  assumes inv: "leader_inv E L" and g: "openssl_ok (ossl E) g" and adm: "leader_admissible E L e"
  shows "if leader_crashes E L e then leader_handle E e L = None
     else \<exists>L'. leader_handle E e L = Some L' \<and> leader_inv E L'"
proof (cases e)
  case (Start gen gossip)
  then show ?thesis using StartConsensus_safe [OF inv] adm by simp
next
  case (Receive rnd msg offset sender)
  show ?thesis
  proof (cases "leader_crashes E L e")
    case True
    then have "Leader_ProcessMessage E rnd msg offset sender L = None"
      using adm unfolding Receive by (intro Leader_ProcessMessage_crash) simp_all
    then show ?thesis using True Receive by simp
  next
    case False
    then obtain ok L' where "Leader_ProcessMessage E rnd msg offset sender L = Some (ok, L')" "leader_inv E L'"
      using Leader_ProcessMessage_safe [OF inv g, of rnd msg offset sender] adm unfolding Receive by blast
    then show ?thesis using False Receive by simp
  qed
next
  case (WindowClosed rnd)
  then show ?thesis using CommitWindowClosed_safe [OF inv] adm by simp
qed

interpretation leader: crashing_machine "leader_safe E" "leader_handle E" "leader_admissible E" "leader_crashes E"
  for E :: "'pt env"
proof
  fix L L' and e :: "'pt leader_event"
  assume safe: "leader_safe E L" and adm: "leader_admissible E L e"
  then obtain g where g: "leader_inv E L" "openssl_ok (ossl E) g" by (auto simp: leader_safe_def)
  note result = leader_handle_result [OF g adm]
  show "leader_handle E e L = None \<longleftrightarrow> leader_crashes E L e" using result by (auto split: if_split_asm)
  assume "leader_handle E e L = Some L'"
  then have "leader_inv E L'" using result by (auto split: if_split_asm)
  then show "leader_safe E L'" using g(2) by (auto simp: leader_safe_def)
qed

lemma ConsensusLeader_new_result:
  assumes new: "ConsensusLeader_new E secretDraws cid bn bh me sk committee cb ib isDS = Some L"
    and n: "length committee < 2 ^ 16"
  shows "leader_inv E L" "collecting L" "m_state L = INITIAL" "m_windows L = 0" "m_committee L = committee"
    "m_numForConsensus L = NumForConsensus (length committee)"
proof -
  have me: "me < length committee" using new
    by (auto simp: ConsensusLeader_new_def Let_def vec_put_def split: bind_splits if_splits)
  have pop: "popcount ((replicate (length committee) False)[me := True]) = 1"
    using me popcount_list_update_True [of me "replicate (length committee) False"] by simp
  show "collecting L" "m_state L = INITIAL" "m_windows L = 0" "m_committee L = committee"
      "m_numForConsensus L = NumForConsensus (length committee)"
    using new me pop
    by (auto simp: ConsensusLeader_new_def Let_def vec_put_def collecting_def split: bind_splits if_splits)
  moreover have "leader_static L" "m_consensusSubsets L = []"
    using new me n
    by (auto simp: ConsensusLeader_new_def Let_def vec_put_def leader_static_def split: bind_splits if_splits)
  ultimately show "leader_inv E L" by (simp add: leader_inv_defs)
qed

section \<open>A small session\<close>

lemma toy_rand_ok: "rand_ok toy_rand" "leader_draws_ok E toy_rand L"
proof -
  show "rand_ok toy_rand" by (simp add: rand_ok_def toy_rand_def)
  have "None \<in> set (draws toy_rand)" by (simp add: toy_rand_def)
  then show "leader_draws_ok E toy_rand L"
    by (simp add: failing_source_suffices leader_draws_ok_def)
qed

lemma toy_leader_new:
  "me < length committee \<Longrightarrow> \<exists>L. ConsensusLeader_new toy_env [Some 5] cid bn bh me sk committee cb ib isDS = Some L"
  by (simp add: ConsensusLeader_new_def Let_def vec_put_def)

section \<open>Properties\<close>

text \<open>C1: whatever messages arrive, a leader session leaves through an exception exactly if it meets, while it
  waits for responses, a response message of this session with the number of a committee member one of
  whose response fields is shorter than 32 bytes. Otherwise it runs, and when it is done it holds a
  collective signature over the announced message by exactly \<open>NumForConsensus\<close> members of the committee, and
  a second one, again by exactly that many, over that message extended with the first signature and its
  bitmap. This covers every sequence of starts, messages and window ends, in any order, with one or
  several subsets; the conditions are those of \<open>leader_admissible\<close> and that the announced message is shorter than
  2 GB. The witness runs a session through both rounds until it is done.\<close>

theorem leader_session_safe:
  assumes "openssl_ok (ossl E) g" "length committee < 2 ^ 16"
    and "ConsensusLeader_new E secretDraws cid bn bh me sk committee cb ib isDS = Some L0"
    and "admissible_run (leader_handle E) (leader_admissible E) L0 events"
  shows "(run_events (leader_handle E) events L0 = None
      \<longleftrightarrow> (\<exists>pre rnd msg offset from post L. events = pre @ Receive rnd msg offset from # post
           \<and> run_events (leader_handle E) pre L0 = Some L \<and> leader_crashes E L (Receive rnd msg offset from)))
    \<and> (\<forall>L. run_events (leader_handle E) events L0 = Some L \<and> m_state L = DONE \<longrightarrow>
        (\<exists>message. cosigned (ossl E) (m_committee L) (m_numForConsensus L) message (m_CS1 L) (m_B1 L)
           \<and> extended message (m_CS1 L) (m_B1 L) (m_messageToCosign L))
        \<and> cosigned (ossl E) (m_committee L) (m_numForConsensus L) (m_messageToCosign L) (m_CS2 L) (m_B2 L)
        \<and> m_numForConsensus L = NumForConsensus (length (m_committee L)))"
proof -
  have safe: "leader_safe E L0"
    using ConsensusLeader_new_result(1) [OF assms(3,2)] assms(1) by (auto simp: leader_safe_def)
  have crash: "leader_crashes E L e \<longleftrightarrow> (\<exists>rnd msg offset from. e = Receive rnd msg offset from
      \<and> leader_crashes E L (Receive rnd msg offset from))" for L e by (cases e) simp_all
  have "run_events (leader_handle E) events L0 = None
      \<longleftrightarrow> (\<exists>pre rnd msg offset from post L. events = pre @ Receive rnd msg offset from # post
           \<and> run_events (leader_handle E) pre L0 = Some L \<and> leader_crashes E L (Receive rnd msg offset from))"
    unfolding leader.run_crashes [OF safe assms(4)] using crash by metis
  moreover have "(\<exists>message. cosigned (ossl E) (m_committee L) (m_numForConsensus L) message (m_CS1 L) (m_B1 L)
         \<and> extended message (m_CS1 L) (m_B1 L) (m_messageToCosign L))
      \<and> cosigned (ossl E) (m_committee L) (m_numForConsensus L) (m_messageToCosign L) (m_CS2 L) (m_B2 L)
      \<and> m_numForConsensus L = NumForConsensus (length (m_committee L))"
    if "run_events (leader_handle E) events L0 = Some L" "m_state L = DONE" for L
    using leader.run_keeps [OF safe assms(4) that(1)] that(2)
    by (auto simp: leader_safe_def leader_inv_def leader_message_def leader_static_def)
  ultimately show ?thesis by blast
qed

theorem leader_session_safe_witness:
  "\<exists>L0 L raw1 raw2 raw3 raw4.
      ConsensusLeader_new toy_env [Some 12] 7 8 [9] 0 1 [(1, Peer_default), (1, Peer_default)] 0 0 True = Some L0
    \<and> run_events (leader_handle toy_env)
        [Start (\<lambda>_ _ _ _ _ _ _ _. (True, [1], [2, 3])) False, Receive toy_rand ([0, 0, type_byte COMMIT] @ raw1) 2 Peer_default,
         Receive toy_rand ([0, 0, type_byte RESPONSE] @ raw2) 2 Peer_default,
         Receive toy_rand ([0, 0, type_byte FINALCOMMIT] @ raw3) 2 Peer_default,
         Receive toy_rand ([0, 0, type_byte FINALRESPONSE] @ raw4) 2 Peer_default] L0 = Some L
    \<and> m_state L = DONE \<and> cosigned toy (m_committee L) (NumForConsensus (length (m_committee L))) (m_messageToCosign L) (m_CS2 L) (m_B2 L)"
proof -
  let ?C = "[(1, Peer_default), (1, Peer_default)]" and ?gen = "\<lambda>_ _ _ _ _ _ _ _. (True, [1], [2, 3])"
  obtain L0 where L0: "ConsensusLeader_new toy_env [Some 12] 7 8 [9] 0 1 ?C 0 0 True = Some L0"
    by (simp add: ConsensusLeader_new_def Let_def vec_put_def)
  note facts = ConsensusLeader_new_result [OF L0, simplified]
  have two: "NumForConsensus 2 = 2" using NumForConsensus_between [of 2 1 334] by simp
  let ?L = "snd (StartConsensus toy_env ?gen False L0)"
  have "toy_ready ANNOUNCE_DONE ?L" "length (m_messageToCosign ?L) < 900"
    using L0 two by (auto simp: ConsensusLeader_new_def StartConsensus_def Leader_CheckState_iff Let_def vec_put_def emit_def
        toy_ready_def toy_session_def toy_env_def CommitPoint_from_secret_def CommitPoint_Set_def CommitPoint_copy_def copied_def toy_def
        numeral_2_eq_2 split: bind_splits)
  then obtain raw1 raw2 raw3 raw4 L1 L2 L3 L4 where run:
      "Leader_ProcessMessage toy_env toy_rand ([0, 0, type_byte COMMIT] @ raw1) 2 Peer_default ?L = Some (True, L1)"
      "Leader_ProcessMessage toy_env toy_rand ([0, 0, type_byte RESPONSE] @ raw2) 2 Peer_default L1 = Some (True, L2)"
      "Leader_ProcessMessage toy_env toy_rand ([0, 0, type_byte FINALCOMMIT] @ raw3) 2 Peer_default L2 = Some (True, L3)"
      "Leader_ProcessMessage toy_env toy_rand ([0, 0, type_byte FINALRESPONSE] @ raw4) 2 Peer_default L3 = Some (True, L4)"
      "m_state L4 = DONE"
    by (rule toy_session_finishes)
  let ?es = "[Start ?gen False, Receive toy_rand ([0, 0, type_byte COMMIT] @ raw1) 2 Peer_default,
         Receive toy_rand ([0, 0, type_byte RESPONSE] @ raw2) 2 Peer_default,
         Receive toy_rand ([0, 0, type_byte FINALCOMMIT] @ raw3) 2 Peer_default,
         Receive toy_rand ([0, 0, type_byte FINALRESPONSE] @ raw4) 2 Peer_default]"
  have adm: "admissible_run (leader_handle toy_env) (leader_admissible toy_env) L0 ?es"
    using facts run by (simp add: announcement_ok_def toy_rand_ok)
  have fin: "run_events (leader_handle toy_env) ?es L0 = Some L4" using run by simp
  have "cosigned (ossl toy_env) (m_committee L4) (m_numForConsensus L4) (m_messageToCosign L4) (m_CS2 L4) (m_B2 L4)
      \<and> m_numForConsensus L4 = NumForConsensus (length (m_committee L4))"
    using leader_session_safe [OF _ _ L0 adm, of "\<lambda>k. k mod 13"] fin run(5) toy_ok by (auto simp: toy_env_def)
  then have "cosigned toy (m_committee L4) (NumForConsensus (length (m_committee L4))) (m_messageToCosign L4) (m_CS2 L4) (m_B2 L4)"
    by (auto simp: toy_env_def)
  then show ?thesis using L0 fin run(5) by blast
qed

text \<open>C27: every subset the leader challenges has exactly \<open>NumForConsensus\<close> members, the leader among
  them, and only members whose commits were accepted; there is one subset when the committers are
  too few for more, and \<open>m_numOfSubsets\<close> otherwise.\<close>

theorem GenerateConsensusSubsets_members:
  assumes "leader_inv E L" "collecting L" "rand_ok rnd" "m_numForConsensus L \<le> m_commitCounter L"
  shows "\<exists>L'. GenerateConsensusSubsets E rnd L = Some L'
    \<and> length (m_consensusSubsets L')
        = (if length (peers_who_committed L) \<le> m_numForConsensus L then 1 else m_numOfSubsets L)
    \<and> (\<forall>sub \<in> set (m_consensusSubsets L').
         card (members sub) = NumForConsensus (length (m_committee L)) \<and> m_myID L \<in> members sub
         \<and> (\<forall>i \<in> members sub. i < length (m_commitMap L) \<and> m_commitMap L ! i))"
proof -
  have static: "leader_static L" using assms(1) by (simp add: leader_inv_def)
  from GenerateConsensusSubsets_fresh [OF static assms(2,3,4), of E] show ?thesis
    using static by (fastforce simp: subset_fresh_def subset_partial_def leader_static_def)
qed

theorem GenerateConsensusSubsets_members_witness:
  "\<exists>L L'. m_commitMap L = [True, False, True, True] \<and> m_numForConsensus L = 3
    \<and> GenerateConsensusSubsets toy_env toy_rand L = Some L' \<and> length (m_consensusSubsets L') = 1
    \<and> (\<forall>sub \<in> set (m_consensusSubsets L'). members sub = {0, 2, 3})"
proof -
  let ?committee = "[(1, Peer_default), (2, Peer_default), (3, Peer_default), (4, Peer_default)]"
  have "NumForConsensus 4 = 3" using NumForConsensus_between [of 4 2 668] by simp
  then have three: "NumForConsensus (Suc (Suc (Suc (Suc 0)))) = 3" by (simp add: numeral_eq_Suc)
  have four: "4 = Suc (Suc (Suc (Suc 0)))" by simp
  obtain L0 where L0: "ConsensusLeader_new toy_env [Some 5] 7 8 [9] 0 1 ?committee 0 0 False = Some L0"
    using toy_leader_new [of 0 ?committee 7 8 "[9]" 1 0 0 False] by auto
  note facts = ConsensusLeader_new_result [OF L0]
  have id: "m_myID L0 = 0" using L0 by (auto simp: ConsensusLeader_new_def Let_def split: bind_splits)
  let ?L = "L0\<lparr>m_commitMap := [True, False, True, True], m_commitCounter := 3\<rparr>"
  have inv: "leader_inv toy_env ?L" using facts by (simp add: leader_inv_defs)
  have col: "collecting ?L" using facts id by (simp add: collecting_def)
  have peers: "length (peers_who_committed ?L) = 2"
    using collecting_peers(1) [OF col] facts id by simp
  from GenerateConsensusSubsets_members [OF inv col toy_rand_ok(1)]
  obtain L' where L': "GenerateConsensusSubsets toy_env toy_rand ?L = Some L'" "length (m_consensusSubsets L') = 1"
      "\<forall>sub \<in> set (m_consensusSubsets L'). card (members sub) = 3
         \<and> (\<forall>i \<in> members sub. i < 4 \<and> [True, False, True, True] ! i)"
    using facts three peers unfolding four by auto
  have set: "{i. i < 4 \<and> [True, False, True, True] ! i} = {0, 2, 3 :: nat}"
    by (auto simp: less_Suc_eq numeral_eq_Suc)
  have "\<forall>sub \<in> set (m_consensusSubsets L'). members sub \<subseteq> {i. i < 4 \<and> [True, False, True, True] ! i}
      \<and> card (members sub) = card {0, 2, 3 :: nat}"
    using L'(3) by (auto simp: subset_iff)
  then have "\<forall>sub \<in> set (m_consensusSubsets L'). members sub \<subseteq> {0, 2, 3} \<and> card (members sub) = card {0, 2, 3 :: nat}"
    by (simp only: set)
  then have "\<forall>sub \<in> set (m_consensusSubsets L'). members sub = {0, 2, 3}"
    by (metis card_subset_eq finite.emptyI finite.insertI)
  then show ?thesis using L'(1,2) facts three by (intro exI [of _ ?L] exI [of _ L']) simp
qed

text \<open>C28: the leader accepts a commit only from a member whose key signed a commit message of this
  session, whose network address is the one on record, who has not committed before, and whose
  commit point matches the hash sent with it; accepting it records that member's commit point or,
  when it completes the threshold, starts the challenge.\<close>

theorem commit_accepted_authentic:
  assumes "ProcessMessageCommit E rnd msg offset from L = Some (True, L')"
  shows "m_state L = ANNOUNCE_DONE
    \<and> (\<exists>backupID cp cph m.
        authentic (ossl E) (ConsensusCommit (pb E)) msg offset (m_consensusID L) (m_blockNumber L)
          (m_blockHash L) (fst (m_committee L ! backupID)) m
        \<and> backupID < length (m_committee L) \<and> u16 (memberid (consensusinfo m)) = backupID
        \<and> m_ipAddress (snd (m_committee L ! backupID)) = m_ipAddress from
        \<and> vec_at (m_commitMap L) backupID = Some False
        \<and> Initialized (Some cp) \<and> CommitPointHash_eq (CommitPointHash_from_point (ossl E) cp) cph
        \<and> accept_commit E rnd backupID cp L = Some (True, L'))"
proof -
  let ?get = "GetConsensusCommit (ossl E) (pb E) msg offset (m_consensusID L) (m_blockNumber L)
     (m_blockHash L) (m_committee L)"
  have st: "Leader_CheckState L PROCESS_COMMIT"
    using assms by (auto simp: ProcessMessageCommit_def ProcessMessageCommitCore_def split: if_splits)
  obtain bid cp cph where get: "?get = Some (Some (bid, cp, cph))"
    and ok: "commit_acceptable (ossl E) bid cp cph from L = Some True"
    and acc: "accept_commit E rnd bid (the cp) L = Some (True, L')"
    using assms st
    by (auto simp: ProcessMessageCommit_def ProcessMessageCommitCore_def
        split: bind_splits option.splits if_splits)
  obtain m where m: "authentic (ossl E) (ConsensusCommit (pb E)) msg offset (m_consensusID L) (m_blockNumber L)
        (m_blockHash L) (fst (m_committee L ! bid)) m" "bid < length (m_committee L)"
      "bid = u16 (memberid (consensusinfo m))"
    using get by (elim GetConsensusCommit_SomeE)
  obtain p h where ph: "cp = Some p" "cph = Some h"
    using ok by (auto simp: commit_acceptable_def Initialized_def split: bind_splits if_splits option.splits)
  have "m_ipAddress (snd (m_committee L ! bid)) = m_ipAddress from" "vec_at (m_commitMap L) bid = Some False"
      "Initialized (Some p)" "CommitPointHash_eq (CommitPointHash_from_point (ossl E) p) h"
    using ok ph m(2) by (auto simp: commit_acceptable_def vec_at_Some split: bind_splits if_splits)
  then show ?thesis using st m acc ph by (auto simp: Leader_CheckState_iff)
qed

theorem commit_accepted_authentic_witness:
  "\<exists>(L :: int ConsensusLeader) msg m. m_committee L = [(1, Peer_default), (1, Peer_default)]
    \<and> authentic toy (ConsensusCommit toy_protobufs) msg 3 7 8 [9] 1 m \<and> u16 (memberid (consensusinfo m)) = 1
    \<and> vec_at (m_commitMap L) 1 = Some False"
proof -
  let ?committee = "[(1, Peer_default), (1, Peer_default)]"
  obtain L0 where L0: "ConsensusLeader_new toy_env [Some 5] 7 8 [9] 0 1 ?committee 0 0 False = Some L0"
    using toy_leader_new [of 0 ?committee 7 8 "[9]" 1 0 0 False] by auto
  let ?L = "L0\<lparr>m_state := ANNOUNCE_DONE\<rparr>"
  obtain msg where msg: "GetConsensusCommit toy toy_protobufs msg 3 7 8 [9] ?committee
     = Some (Some (1, Some \<lparr>fval = 5, finit = True\<rparr>, Some \<lparr>fval = 5, finit = True\<rparr>))"
    using toy_commit_message [of 1 ?committee 5 5] by (auto simp: bn_fits_def)
  have fields: "m_committee L0 = ?committee" "m_consensusID L0 = 7" "m_blockNumber L0 = 8" "m_blockHash L0 = [9]"
      "m_numOfSubsets L0 = 2" "m_commitMap L0 = [True, False]" "length (m_commitPointMap L0) = 2"
      "length (m_commitRedundantMap L0) = 2" "length (m_commitRedundantPointMap L0) = 2"
    using L0 by (auto simp: ConsensusLeader_new_def Let_def toy_env_def vec_put_def split: bind_splits)
  have "commit_acceptable toy 1 (Some \<lparr>fval = 5, finit = True\<rparr>) (Some \<lparr>fval = 5, finit = True\<rparr>) Peer_default ?L
      = Some True"
    using fields
    by (simp add: commit_acceptable_def vec_at_def Initialized_def CommitPointHash_eq_def scalar_eq_def
        CommitPointHash_from_point_def CommitPointHash_Set_def toy_eval SHA2_Update_def)
  then have "\<exists>L'. ProcessMessageCommit toy_env toy_rand msg 3 Peer_default ?L = Some (True, L')"
    using msg fields
    by (auto simp: ProcessMessageCommit_def ProcessMessageCommitCore_def Leader_CheckState_iff toy_env_def
        accept_commit_def record_commit_def vec_put_def Let_def)
  then obtain L' where run: "ProcessMessageCommit toy_env toy_rand msg 3 Peer_default ?L = Some (True, L')" by blast
  obtain bid m where "authentic toy (ConsensusCommit toy_protobufs) msg 3 7 8 [9] (fst (?committee ! bid)) m"
      "bid < 2" "u16 (memberid (consensusinfo m)) = bid" "vec_at (m_commitMap L0) bid = Some False"
    using commit_accepted_authentic [OF run] fields by (auto simp: toy_env_def)
  moreover have "bid = 1" using calculation(2,4) fields by (auto simp: vec_at_def less_2_cases_iff)
  ultimately show ?thesis using fields by (intro exI [of _ L0] exI [of _ msg] exI [of _ m]) simp
qed

text \<open>A subset whose collective signature cannot be built or does not verify ends the handler before
  \<open>SubsetEnded\<close>: the session stays in its challenge state and the count of running subsets is left as it
  was, so the error state that \<open>SubsetEnded\<close> sets once all subsets have failed is not reached this
  way.\<close>

lemma failed_subset_keeps_running:
  assumes "complete_subset E rnd i action t nextstate L = Some (False, L')"
  shows "m_state L' = m_state L \<and> m_numSubsetsRunning L' = m_numSubsetsRunning L"
  using assms
  by (auto simp: complete_subset_def GenerateCollectiveSigMessage_def SetStateSubset_def put_subset_def Let_def
      split: bind_splits if_splits)

end
