(* ===== verification/ConsensusBackup.thy ===== *)
theory ConsensusBackup
  imports ConsensusCommon
begin

text \<open>
  A backup of a consensus session, \<open>libConsensus/ConsensusBackup.cpp\<close>. A backup validates the
  leader's announcement, commits, answers challenges with responses, and accepts collective
  signatures that verify over the message it holds.

  The validator of the announcement is supplied by the caller and is a parameter. \<open>backup_rand\<close>
  holds the nonces drawn for a fresh commit secret and for signatures.
\<close>

section \<open>State\<close>

datatype BackupAction =
    PROCESS_ANNOUNCE | PROCESS_CHALLENGE | PROCESS_COLLECTIVESIG | PROCESS_FINALCHALLENGE
  | PROCESS_FINALCOLLECTIVESIG

record 'pt ConsensusBackup = "'pt ConsensusCommon" +
  m_leaderID :: nat

record backup_rand =
  secret_draws :: "int option list"
  sign_draws :: "int option list"

text \<open>Arguments: message, offset, consensus id, block number, block hash, leader id, leader key, the
  message to co-sign so far. Result: success, the error message, the message to co-sign.\<close>

type_synonym 'pt MsgContentValidator =
  "bytes \<Rightarrow> nat \<Rightarrow> nat \<Rightarrow> nat \<Rightarrow> bytes \<Rightarrow> nat \<Rightarrow> 'pt PubKey \<Rightarrow> bytes \<Rightarrow> bool \<times> bytes \<times> bytes"

definition BACKUP_ACTIONS_FOR_STATE :: "(State \<times> BackupAction) list" where
  "BACKUP_ACTIONS_FOR_STATE =
     [(INITIAL, PROCESS_ANNOUNCE),
      (COMMIT_DONE, PROCESS_CHALLENGE), (COMMIT_DONE, PROCESS_COLLECTIVESIG),
      (COMMIT_DONE, PROCESS_FINALCOLLECTIVESIG),
      (RESPONSE_DONE, PROCESS_CHALLENGE), (RESPONSE_DONE, PROCESS_COLLECTIVESIG),
      (RESPONSE_DONE, PROCESS_FINALCOLLECTIVESIG),
      (FINALCOMMIT_DONE, PROCESS_FINALCHALLENGE), (FINALCOMMIT_DONE, PROCESS_FINALCOLLECTIVESIG),
      (FINALRESPONSE_DONE, PROCESS_FINALCHALLENGE), (FINALRESPONSE_DONE, PROCESS_FINALCOLLECTIVESIG)]"

definition Backup_CheckState :: "'pt ConsensusBackup \<Rightarrow> BackupAction \<Rightarrow> bool" where
  "Backup_CheckState s action \<longleftrightarrow> (m_state s, action) \<in> set BACKUP_ACTIONS_FOR_STATE"

definition leaderKey :: "'pt openssl \<Rightarrow> 'pt ConsensusBackup \<Rightarrow> 'pt PubKey" where
  "leaderKey B s = fst (GetCommitteeMember B s (m_leaderID s))"

definition send_to_leader :: "'pt openssl \<Rightarrow> bytes \<Rightarrow> 'pt ConsensusBackup \<Rightarrow> 'pt ConsensusBackup" where
  "send_to_leader B msg s = emit (SendMessage [snd (GetCommitteeMember B s (m_leaderID s))] msg) s"

section \<open>Announcement\<close>

definition GenerateCommitFailureMessage ::
    "'pt env \<Rightarrow> backup_rand \<Rightarrow> bytes \<Rightarrow> nat \<Rightarrow> bytes \<Rightarrow> 'pt ConsensusBackup \<Rightarrow> (bytes \<times> bool) option" where
  "GenerateCommitFailureMessage E rnd commitFailure offset errorMsg s =
     SetConsensusCommitFailure (ossl E) (pb E) commitFailure offset (m_consensusID s) (m_blockNumber s)
       (m_blockHash s) (m_myID s) errorMsg (myKey (ossl E) s) (sign_draws rnd)"

definition GenerateCommitMessage ::
    "'pt env \<Rightarrow> backup_rand \<Rightarrow> bytes \<Rightarrow> nat \<Rightarrow> 'pt ConsensusBackup
     \<Rightarrow> (bool \<times> bytes \<times> 'pt ConsensusBackup) option" where
  "GenerateCommitMessage E rnd commit offset s = do {
     secret \<leftarrow> CommitSecret_generate 0 (secret_draws rnd);
     let point = CommitPoint_from_secret (ossl E) secret;
     let s' = s\<lparr>m_commitSecret := Some secret, m_commitPoint := Some point\<rparr>;
     (msg, ok) \<leftarrow> SetConsensusCommit (ossl E) (pb E) commit offset (m_consensusID s') (m_blockNumber s')
        (m_blockHash s') (m_myID s') point (CommitPointHash_from_point (ossl E) point)
        (myKey (ossl E) s') (sign_draws rnd);
     Some (ok, msg, s') }"

definition ProcessMessageAnnounce ::
    "'pt env \<Rightarrow> backup_rand \<Rightarrow> 'pt MsgContentValidator \<Rightarrow> bytes \<Rightarrow> nat \<Rightarrow> 'pt ConsensusBackup
     \<Rightarrow> (bool \<times> 'pt ConsensusBackup) option" where
  "ProcessMessageAnnounce E rnd msgContentValidator announcement offset s =
     (if \<not> Backup_CheckState s PROCESS_ANNOUNCE then Some (False, s)
      else
        (case msgContentValidator announcement offset (m_consensusID s) (m_blockNumber s) (m_blockHash s)
                (m_leaderID s) (leaderKey (ossl E) s) (m_messageToCosign s) of
           (valid, errorMsg, toCosign) \<Rightarrow>
             let s1 = s\<lparr>m_messageToCosign := toCosign\<rparr>
             in if \<not> valid then
                  (if errorMsg \<noteq> [] then do {
                     (msg, result) \<leftarrow>
                        GenerateCommitFailureMessage E rnd (message_header s1 COMMITFAILURE) 3 errorMsg s1;
                     if result
                     then Some (True, send_to_leader (ossl E) msg (s1\<lparr>m_state := ERROR\<rparr>))
                     else Some (False, s1) }
                   else Some (False, s1))
                else do {
                  (result, msg, s2) \<leftarrow> GenerateCommitMessage E rnd (message_header s1 COMMIT) 3 s1;
                  if result then Some (True, send_to_leader (ossl E) msg (s2\<lparr>m_state := COMMIT_DONE\<rparr>))
                  else Some (False, s2) }))"

definition ProcessMessageConsensusFailure ::
    "'pt env \<Rightarrow> bytes \<Rightarrow> nat \<Rightarrow> 'pt ConsensusBackup \<Rightarrow> (bool \<times> 'pt ConsensusBackup) option" where
  "ProcessMessageConsensusFailure E announcement offset s = do {
     ok \<leftarrow> GetConsensusConsensusFailure (ossl E) (pb E) announcement offset (m_consensusID s)
             (m_blockNumber s) (m_blockHash s) (m_leaderID s) (leaderKey (ossl E) s);
     if \<not> ok then Some (False, s) else Some (True, s\<lparr>m_state := INITIAL\<rparr>) }"

section \<open>Challenge\<close>

text \<open>The loop over the subsets of a challenge: \<open>Some None\<close> is a failed check, which puts the session
  into the error state; \<open>None\<close> is the dereference of a commit secret that was never drawn.\<close>

fun respond_loop ::
    "'pt openssl \<Rightarrow> 'pt ConsensusBackup \<Rightarrow> 'pt ChallengeSubsetInfo list \<Rightarrow> Response list option option" where
  "respond_loop B s [] = Some (Some [])"
| "respond_loop B s (si # rest) =
     (if \<not> finit (si_aggregatedCommit si) then Some None
      else if \<not> finit (si_challenge si) then Some None
      else do {
        challenge_verif \<leftarrow> GetChallenge B (m_messageToCosign s) (si_aggregatedCommit si) (si_aggregatedKey si);
        if \<not> Challenge_eq challenge_verif (si_challenge si) then Some None
        else do {
          secret \<leftarrow> m_commitSecret s;
          let rsi = Response_assign Response_default (Response_from B secret (si_challenge si) (m_myPrivKey s));
          responses \<leftarrow> respond_loop B s rest;
          Some (map_option (\<lambda>rs. Response_copy rsi # rs) responses) } })"

definition GenerateResponseMessage ::
    "'pt env \<Rightarrow> backup_rand \<Rightarrow> bytes \<Rightarrow> nat \<Rightarrow> Response list \<Rightarrow> 'pt ConsensusBackup \<Rightarrow> (bytes \<times> bool) option" where
  "GenerateResponseMessage E rnd response offset subsetInfo s =
     SetConsensusResponse (ossl E) (pb E) response offset (m_consensusID s) (m_blockNumber s)
       (m_blockHash s) (m_myID s) subsetInfo (myKey (ossl E) s) (sign_draws rnd)"

definition ProcessMessageChallengeCore ::
    "'pt env \<Rightarrow> backup_rand \<Rightarrow> bytes \<Rightarrow> nat \<Rightarrow> BackupAction \<Rightarrow> ConsensusMessageType \<Rightarrow> State
     \<Rightarrow> 'pt ConsensusBackup \<Rightarrow> (bool \<times> 'pt ConsensusBackup) option" where
  "ProcessMessageChallengeCore E rnd chal offset action returnmsgtype nextstate s =
     (if \<not> Backup_CheckState s action then Some (False, s)
      else do {
        r \<leftarrow> GetConsensusChallenge (ossl E) (pb E) chal offset (m_consensusID s) (m_blockNumber s)
               (m_blockHash s) (m_leaderID s) (leaderKey (ossl E) s);
        case r of
          None \<Rightarrow> Some (False, s)
        | Some challengeSubsetInfo \<Rightarrow> do {
            responses \<leftarrow> respond_loop (ossl E) s challengeSubsetInfo;
            case responses of
              None \<Rightarrow> Some (False, s\<lparr>m_state := ERROR\<rparr>)
            | Some responseSubsetInfo \<Rightarrow> do {
                (msg, ok) \<leftarrow> GenerateResponseMessage E rnd (message_header s returnmsgtype) 3
                               responseSubsetInfo s;
                if ok then Some (True, send_to_leader (ossl E) msg (s\<lparr>m_state := nextstate\<rparr>))
                else Some (False, s) } } })"

definition ProcessMessageChallenge ::
    "'pt env \<Rightarrow> backup_rand \<Rightarrow> bytes \<Rightarrow> nat \<Rightarrow> 'pt ConsensusBackup \<Rightarrow> (bool \<times> 'pt ConsensusBackup) option" where
  "ProcessMessageChallenge E rnd chal offset s =
     ProcessMessageChallengeCore E rnd chal offset PROCESS_CHALLENGE RESPONSE RESPONSE_DONE s"

definition ProcessMessageFinalChallenge ::
    "'pt env \<Rightarrow> backup_rand \<Rightarrow> bytes \<Rightarrow> nat \<Rightarrow> 'pt ConsensusBackup \<Rightarrow> (bool \<times> 'pt ConsensusBackup) option" where
  "ProcessMessageFinalChallenge E rnd chal offset s =
     ProcessMessageChallengeCore E rnd chal offset PROCESS_FINALCHALLENGE FINALRESPONSE FINALRESPONSE_DONE s"

section \<open>Collective signature\<close>

text \<open>What follows a verified first-round signature: extend the message, commit again.\<close>

definition begin_second_round ::
    "'pt env \<Rightarrow> backup_rand \<Rightarrow> State \<Rightarrow> 'pt ConsensusBackup \<Rightarrow> (bool \<times> 'pt ConsensusBackup) option" where
  "begin_second_round E rnd nextstate s = do {
     let msg1 = fst (Signature_Serialize (m_messageToCosign s) (u32 (length (m_messageToCosign s)))
                       (m_collectiveSig s));
     (msg2, sz) \<leftarrow> SetBitVector msg1 (u32 (length msg1)) (m_responseMap s);
     let s1 = s\<lparr>m_messageToCosign := msg2\<rparr>;
     (result, finalcommit, s2) \<leftarrow> GenerateCommitMessage E rnd (message_header s1 FINALCOMMIT) 3 s1;
     if result
     then Some (True, send_to_leader (ossl E) finalcommit
                        (s2\<lparr>m_state := nextstate, m_CS1 := m_collectiveSig s2, m_B1 := m_responseMap s2\<rparr>))
     else Some (False, s2) }"

definition ProcessMessageCollectiveSigCore ::
    "'pt env \<Rightarrow> backup_rand \<Rightarrow> bytes \<Rightarrow> nat \<Rightarrow> BackupAction \<Rightarrow> State \<Rightarrow> 'pt ConsensusBackup
     \<Rightarrow> (bool \<times> 'pt ConsensusBackup) option" where
  "ProcessMessageCollectiveSigCore E rnd collectivesig offset action nextstate s =
     (if \<not> Backup_CheckState s action then Some (False, s)
      else do {
        let s1 = s\<lparr>m_responseMap := []\<rparr>;
        (ok, bitmap, sig) \<leftarrow> GetConsensusCollectiveSig (ossl E) (pb E) collectivesig offset
            (m_consensusID s1) (m_blockNumber s1) (m_blockHash s1) (m_leaderID s1) (m_responseMap s1)
            (m_collectiveSig s1) (leaderKey (ossl E) s1);
        let s2 = s1\<lparr>m_responseMap := bitmap, m_collectiveSig := sig\<rparr>;
        if \<not> ok then Some (False, s2)
        else do {
          aggregated_key \<leftarrow> AggregateKeys (ossl E) (m_committee s2) (m_responseMap s2);
          verified \<leftarrow> MultiSigVerify (ossl E) (m_messageToCosign s2) (m_collectiveSig s2) aggregated_key;
          if \<not> verified then Some (False, s2\<lparr>m_state := ERROR\<rparr>)
          else if action = PROCESS_COLLECTIVESIG then begin_second_round E rnd nextstate s2
          else Some (True, s2\<lparr>m_CS2 := m_collectiveSig s2, m_B2 := m_responseMap s2, m_state := nextstate\<rparr>) } })"

definition ProcessMessageCollectiveSig ::
    "'pt env \<Rightarrow> backup_rand \<Rightarrow> bytes \<Rightarrow> nat \<Rightarrow> 'pt ConsensusBackup \<Rightarrow> (bool \<times> 'pt ConsensusBackup) option" where
  "ProcessMessageCollectiveSig E rnd collectivesig offset s =
     ProcessMessageCollectiveSigCore E rnd collectivesig offset PROCESS_COLLECTIVESIG FINALCOMMIT_DONE s"

definition ProcessMessageFinalCollectiveSig ::
    "'pt env \<Rightarrow> backup_rand \<Rightarrow> bytes \<Rightarrow> nat \<Rightarrow> 'pt ConsensusBackup \<Rightarrow> (bool \<times> 'pt ConsensusBackup) option" where
  "ProcessMessageFinalCollectiveSig E rnd finalcollectivesig offset s =
     ProcessMessageCollectiveSigCore E rnd finalcollectivesig offset PROCESS_FINALCOLLECTIVESIG DONE s"

section \<open>Session\<close>

definition ConsensusBackup_new ::
    "nat \<Rightarrow> nat \<Rightarrow> bytes \<Rightarrow> nat \<Rightarrow> nat \<Rightarrow> PrivKey \<Rightarrow> 'pt DequeOfNode \<Rightarrow> byte \<Rightarrow> byte \<Rightarrow> 'pt ConsensusBackup" where
  "ConsensusBackup_new consensus_id block_number block_hash node_id leader_id privkey committee
       class_byte ins_byte =
     \<lparr>m_state = INITIAL, m_consensusErrorCode = NO_ERROR, m_consensusID = consensus_id,
      m_blockNumber = block_number, m_blockHash = block_hash, m_myID = node_id,
      m_myPrivKey = privkey, m_committee = committee, m_messageToCosign = [],
      m_classByte = class_byte, m_insByte = ins_byte, m_collectiveSig = Signature_default,
      m_responseMap = replicate (length committee) False, m_CS1 = Signature_default, m_B1 = [],
      m_CS2 = Signature_default, m_B2 = [], m_commitSecret = None, m_commitPoint = None,
      m_outbox = [], m_leaderID = leader_id\<rparr>"

definition Backup_ProcessMessage ::
    "'pt env \<Rightarrow> backup_rand \<Rightarrow> 'pt MsgContentValidator \<Rightarrow> bytes \<Rightarrow> nat \<Rightarrow> 'pt ConsensusBackup
     \<Rightarrow> (bool \<times> 'pt ConsensusBackup) option" where
  "Backup_ProcessMessage E rnd validator message offset s = do {
     t \<leftarrow> vec_at message offset;
     if t = type_byte ANNOUNCE then ProcessMessageAnnounce E rnd validator message (offset + 1) s
     else if t = type_byte CONSENSUSFAILURE then ProcessMessageConsensusFailure E message (offset + 1) s
     else if t = type_byte CHALLENGE then ProcessMessageChallenge E rnd message (offset + 1) s
     else if t = type_byte COLLECTIVESIG then ProcessMessageCollectiveSig E rnd message (offset + 1) s
     else if t = type_byte FINALCHALLENGE then ProcessMessageFinalChallenge E rnd message (offset + 1) s
     else if t = type_byte FINALCOLLECTIVESIG
     then ProcessMessageFinalCollectiveSig E rnd message (offset + 1) s
     else Some (False, s) }"

end
