(* ===== verification/BackupSafety.thy ===== *)
theory BackupSafety
  imports ConsensusBackup
begin

text \<open>
  What a backup guarantees: it never leaves a handler through an exception on readable messages, and
  the signatures it keeps verify over the message it holds. The theory also states what the handlers
  do not check.
\<close>

section \<open>The invariant\<close>

definition verified_by :: "'pt openssl \<Rightarrow> 'pt DequeOfNode \<Rightarrow> bytes \<Rightarrow> Signature \<Rightarrow> bool list \<Rightarrow> bool" where
  "verified_by B committee message sig bits \<longleftrightarrow>
     (\<exists>key. AggregateKeys B committee bits = Some key \<and> MultiSigVerify B message sig key = Some True)"

definition backup_inv :: "'pt env \<Rightarrow> 'pt ConsensusBackup \<Rightarrow> bool" where
  "backup_inv E s \<longleftrightarrow>
     length (m_committee s) < 2 ^ 16
     \<and> (m_state s \<in> {COMMIT_DONE, RESPONSE_DONE, FINALCOMMIT_DONE, FINALRESPONSE_DONE}
          \<longrightarrow> m_commitSecret s \<noteq> None)
     \<and> (m_state s \<in> {FINALCOMMIT_DONE, FINALRESPONSE_DONE} \<longrightarrow>
          (\<exists>base. verified_by (ossl E) (m_committee s) base (m_CS1 s) (m_B1 s)
             \<and> extended base (m_CS1 s) (m_B1 s) (m_messageToCosign s)))
     \<and> (m_state s = DONE \<longrightarrow>
          verified_by (ossl E) (m_committee s) (m_messageToCosign s) (m_CS2 s) (m_B2 s))"

lemma backup_inv_frame [simp]:
  "backup_inv E (s\<lparr>m_outbox := ob\<rparr>) = backup_inv E s"
  "backup_inv E (s\<lparr>m_responseMap := rm\<rparr>) = backup_inv E s"
  "backup_inv E (s\<lparr>m_collectiveSig := sig\<rparr>) = backup_inv E s"
  "backup_inv E (send_to_leader B msg s) = backup_inv E s"
  by (simp_all add: backup_inv_def send_to_leader_def emit_def)

lemma backup_inv_reset:
  "backup_inv E s \<Longrightarrow> backup_inv E (s\<lparr>m_state := ERROR\<rparr>)"
  "backup_inv E s \<Longrightarrow> backup_inv E (s\<lparr>m_state := INITIAL\<rparr>)"
  by (simp_all add: backup_inv_def)

lemma backup_inv_answer:
  assumes "backup_inv E s"
    and "m_state s \<in> {COMMIT_DONE, RESPONSE_DONE} \<and> nextstate = RESPONSE_DONE
      \<or> m_state s \<in> {FINALCOMMIT_DONE, FINALRESPONSE_DONE} \<and> nextstate = FINALRESPONSE_DONE"
  shows "backup_inv E (s\<lparr>m_state := nextstate\<rparr>)"
  using assms by (elim disjE conjE) (simp_all add: backup_inv_def, (elim disjE; simp)+)

text \<open>The random source lasts for a signature and a commit secret.\<close>

definition backup_draws_ok :: "'pt env \<Rightarrow> backup_rand \<Rightarrow> 'pt ConsensusBackup \<Rightarrow> bool" where
  "backup_draws_ok E rnd s \<longleftrightarrow>
     draws_suffice (ossl E) (fst (myKey (ossl E) s)) (snd (myKey (ossl E) s)) (sign_draws rnd)
     \<and> CommitSecret_generate 0 (secret_draws rnd) \<noteq> None"

lemma myKey_frame:
  "m_committee s' = m_committee s \<Longrightarrow> m_myID s' = m_myID s \<Longrightarrow> m_myPrivKey s' = m_myPrivKey s
   \<Longrightarrow> myKey B s' = myKey B s"
  by (simp add: myKey_def GetCommitteeMember_def)

lemma Backup_CheckState_iff:
  "Backup_CheckState s PROCESS_ANNOUNCE \<longleftrightarrow> m_state s = INITIAL"
  "Backup_CheckState s PROCESS_CHALLENGE \<longleftrightarrow> m_state s \<in> {COMMIT_DONE, RESPONSE_DONE}"
  "Backup_CheckState s PROCESS_COLLECTIVESIG \<longleftrightarrow> m_state s \<in> {COMMIT_DONE, RESPONSE_DONE}"
  "Backup_CheckState s PROCESS_FINALCHALLENGE \<longleftrightarrow> m_state s \<in> {FINALCOMMIT_DONE, FINALRESPONSE_DONE}"
  "Backup_CheckState s PROCESS_FINALCOLLECTIVESIG \<longleftrightarrow>
     m_state s \<in> {COMMIT_DONE, RESPONSE_DONE, FINALCOMMIT_DONE, FINALRESPONSE_DONE}"
  by (auto simp: Backup_CheckState_def BACKUP_ACTIONS_FOR_STATE_def)

section \<open>Handlers keep the invariant\<close>

lemma GenerateCommitMessage_result:
  assumes "backup_draws_ok E rnd s"
  shows "\<exists>ok msg secret point. GenerateCommitMessage E rnd (message_header s t) 3 s
    = Some (ok, msg, s\<lparr>m_commitSecret := Some secret, m_commitPoint := Some point\<rparr>)"
proof -
  obtain secret where secret: "CommitSecret_generate 0 (secret_draws rnd) = Some secret"
    using assms by (auto simp: backup_draws_ok_def)
  let ?point = "CommitPoint_from_secret (ossl E) secret"
  let ?s = "s\<lparr>m_commitSecret := Some secret, m_commitPoint := Some ?point\<rparr>"
  have "myKey (ossl E) ?s = myKey (ossl E) s" by (rule myKey_frame) simp_all
  then have "SetConsensusCommit (ossl E) (pb E) (message_header s t) 3 (m_consensusID ?s) (m_blockNumber ?s)
      (m_blockHash ?s) (m_myID ?s) ?point (CommitPointHash_from_point (ossl E) ?point) (myKey (ossl E) ?s)
      (sign_draws rnd) \<noteq> None"
    unfolding SetConsensusCommit_def
    by (intro sign_and_serialize_total) (use assms in \<open>simp_all add: backup_draws_ok_def\<close>)
  then obtain msg ok where "GenerateCommitMessage E rnd (message_header s t) 3 s = Some (ok, msg, ?s)"
    by (auto simp: GenerateCommitMessage_def secret Let_def)
  then show ?thesis by blast
qed

lemma ProcessMessageAnnounce_safe:
  assumes inv: "backup_inv E s" and draws: "backup_draws_ok E rnd s"
  shows "\<exists>ok s'. ProcessMessageAnnounce E rnd validator msg offset s = Some (ok, s') \<and> backup_inv E s'"
proof (cases "m_state s = INITIAL")
  case False
  then show ?thesis using inv by (auto simp: ProcessMessageAnnounce_def Backup_CheckState_iff)
next
  case init: True
  obtain valid err m where v: "validator msg offset (m_consensusID s) (m_blockNumber s) (m_blockHash s) (m_leaderID s)
       (leaderKey (ossl E) s) (m_messageToCosign s) = (valid, err, m)" by (metis prod_cases3)
  let ?s = "s\<lparr>m_messageToCosign := m\<rparr>"
  have key: "myKey (ossl E) ?s = myKey (ossl E) s" by (rule myKey_frame) simp_all
  have inv1: "backup_inv E ?s" "backup_inv E (?s\<lparr>m_state := ERROR\<rparr>)" using inv init by (simp_all add: backup_inv_def)
  have draws1: "backup_draws_ok E rnd ?s" using draws key by (simp add: backup_draws_ok_def)
  have "GenerateCommitFailureMessage E rnd (message_header ?s COMMITFAILURE) 3 err ?s \<noteq> None"
    unfolding GenerateCommitFailureMessage_def SetConsensusCommitFailure_def
    by (intro sign_and_serialize_total) (use draws1 in \<open>simp_all add: backup_draws_ok_def\<close>)
  moreover obtain ok cm secret point where "GenerateCommitMessage E rnd (message_header ?s COMMIT) 3 ?s
      = Some (ok, cm, ?s\<lparr>m_commitSecret := Some secret, m_commitPoint := Some point\<rparr>)"
    using GenerateCommitMessage_result [OF draws1] by blast
  moreover have "backup_inv E (?s\<lparr>m_commitSecret := Some secret, m_commitPoint := Some point\<rparr>)"
      "backup_inv E (?s\<lparr>m_commitSecret := Some secret, m_commitPoint := Some point, m_state := COMMIT_DONE\<rparr>)"
    using inv init by (simp_all add: backup_inv_def)
  ultimately show ?thesis
    using inv1 init by (cases valid; cases "err = []"; cases ok)
      (auto simp: ProcessMessageAnnounce_def Backup_CheckState_iff v Let_def)
qed

lemma ProcessMessageConsensusFailure_safe:
  assumes "backup_inv E s"
  shows "\<exists>ok s'. ProcessMessageConsensusFailure E msg offset s = Some (ok, s') \<and> backup_inv E s'"
proof -
  obtain ok where "GetConsensusConsensusFailure (ossl E) (pb E) msg offset (m_consensusID s)
             (m_blockNumber s) (m_blockHash s) (m_leaderID s) (leaderKey (ossl E) s) = Some ok"
    using GetConsensusConsensusFailure_total [of "ossl E" "pb E" msg offset] by blast
  then show ?thesis
    using assms backup_inv_reset(2) [OF assms] by (cases ok) (auto simp: ProcessMessageConsensusFailure_def)
qed

text \<open>Every entry of the challenge message holds a readable commit point and challenge; the bitmap of a
  collective signature is no longer than the committee.\<close>

definition challenge_readable :: "'pt env \<Rightarrow> bytes \<Rightarrow> nat \<Rightarrow> 'pt ConsensusBackup \<Rightarrow> bool" where
  "challenge_readable E msg offset s \<longleftrightarrow>
     (case open_consensus_message (ConsensusChallenge (pb E)) msg offset (m_consensusID s) (m_blockNumber s)
             (m_blockHash s) of
        None \<Rightarrow> True
      | Some m \<Rightarrow> \<forall>(cp, key, c) \<in> set (payload (consensusinfo m)).
          fst (CommitPoint_Deserialize (ossl E) cp 0) \<noteq> None \<and> fst (Challenge_Deserialize c 0) \<noteq> None)"

definition bitmap_fits :: "'pt env \<Rightarrow> bytes \<Rightarrow> nat \<Rightarrow> 'pt ConsensusBackup \<Rightarrow> bool" where
  "bitmap_fits E msg offset s \<longleftrightarrow>
     (case open_consensus_message (ConsensusCollectiveSig (pb E)) msg offset (m_consensusID s) (m_blockNumber s)
             (m_blockHash s) of
        None \<Rightarrow> True
      | Some m \<Rightarrow> length (snd (payload (consensusinfo m))) \<le> length (m_committee s))"

lemma read_challenge_subsets_returns:
  "\<forall>(cp, key, c) \<in> set es. fst (CommitPoint_Deserialize B cp 0) \<noteq> None \<and> fst (Challenge_Deserialize c 0) \<noteq> None
   \<Longrightarrow> read_challenge_subsets B es \<noteq> None"
proof (induction es)
  case (Cons e es)
  obtain cp key c where e: "e = (cp, key, c)" by (cases e)
  have "read_challenge_subset B e \<noteq> None"
    using Cons.prems by (auto simp: e read_challenge_subset_def split: prod.splits)
  then show ?case using Cons by (auto split: option.splits)
qed simp

lemma GetConsensusChallenge_returns:
  assumes "challenge_readable E msg offset s"
  shows "GetConsensusChallenge (ossl E) (pb E) msg offset (m_consensusID s) (m_blockNumber s)
    (m_blockHash s) leaderID key \<noteq> None"
proof -
  have "read_challenge_subsets (ossl E) (payload (consensusinfo m)) \<noteq> None"
    if "open_consensus_message (ConsensusChallenge (pb E)) msg offset (m_consensusID s) (m_blockNumber s)
        (m_blockHash s) = Some m" for m
    using assms that by (intro read_challenge_subsets_returns) (simp add: challenge_readable_def)
  then show ?thesis
    by (auto simp: GetConsensusChallenge_def simp del: not_None_eq split: option.splits)
qed

lemma respond_loop_returns:
  "m_commitSecret s \<noteq> None \<Longrightarrow> respond_loop B s sis \<noteq> None"
proof (induction sis)
  case (Cons si sis)
  obtain c where "GetChallenge B (m_messageToCosign s) (si_aggregatedCommit si) (si_aggregatedKey si) = Some c"
    using GetChallenge_total [of B "m_messageToCosign s"] by blast
  then show ?case using Cons by (auto simp: Let_def)
qed simp

lemma ProcessMessageChallengeCore_safe:
  assumes inv: "backup_inv E s" and draws: "backup_draws_ok E rnd s" and read: "challenge_readable E msg offset s"
    and round: "(action, nextstate) \<in> {(PROCESS_CHALLENGE, RESPONSE_DONE), (PROCESS_FINALCHALLENGE, FINALRESPONSE_DONE)}"
  shows "\<exists>ok s'. ProcessMessageChallengeCore E rnd msg offset action t nextstate s = Some (ok, s')
    \<and> backup_inv E s'"
proof (cases "Backup_CheckState s action")
  case False
  then show ?thesis using inv by (auto simp: ProcessMessageChallengeCore_def)
next
  case check: True
  then have st: "m_state s \<in> {COMMIT_DONE, RESPONSE_DONE} \<and> nextstate = RESPONSE_DONE
      \<or> m_state s \<in> {FINALCOMMIT_DONE, FINALRESPONSE_DONE} \<and> nextstate = FINALRESPONSE_DONE"
    using round by (auto simp: Backup_CheckState_iff)
  have "m_commitSecret s \<noteq> None" using inv st unfolding backup_inv_def by blast
  have next_inv: "backup_inv E (s\<lparr>m_state := nextstate\<rparr>)" by (rule backup_inv_answer [OF inv st])
  obtain r where r: "GetConsensusChallenge (ossl E) (pb E) msg offset (m_consensusID s) (m_blockNumber s)
      (m_blockHash s) (m_leaderID s) (leaderKey (ossl E) s) = Some r"
    using GetConsensusChallenge_returns [OF read] by blast
  show ?thesis
  proof (cases r)
    case None
    then show ?thesis using inv check r by (auto simp: ProcessMessageChallengeCore_def)
  next
    case (Some sis)
    obtain rs where rs: "respond_loop (ossl E) s sis = Some rs"
      using respond_loop_returns [OF \<open>m_commitSecret s \<noteq> None\<close>] by blast
    show ?thesis
    proof (cases rs)
      case None
      then show ?thesis using backup_inv_reset(1) [OF inv] check r Some rs by (auto simp: ProcessMessageChallengeCore_def)
    next
      case responses: (Some xs)
      have "GenerateResponseMessage E rnd (message_header s t) 3 xs s \<noteq> None"
        unfolding GenerateResponseMessage_def SetConsensusResponse_def
        by (intro sign_and_serialize_total) (use draws in \<open>simp_all add: backup_draws_ok_def\<close>)
      then obtain m ok where gen: "GenerateResponseMessage E rnd (message_header s t) 3 xs s = Some (m, ok)" by auto
      then show ?thesis
        using inv next_inv check r Some rs responses by (cases ok) (auto simp: ProcessMessageChallengeCore_def)
    qed
  qed
qed

lemma GetConsensusCollectiveSig_bitmap:
  assumes "bitmap_fits E msg offset s"
    and "GetConsensusCollectiveSig (ossl E) (pb E) msg offset (m_consensusID s) (m_blockNumber s) (m_blockHash s)
      leaderID [] sig0 key = Some (True, bits, sig)"
  shows "length bits \<le> length (m_committee s)"
  using assms
  by (auto simp: GetConsensusCollectiveSig_def bitmap_fits_def split: option.splits prod.splits if_splits)

text \<open>The signature held so far does not influence what is read.\<close>

lemma GetConsensusCollectiveSig_replaces:
  assumes "GetConsensusCollectiveSig B P msg offset cid bn bh leaderID bitmap sig0 key = Some (True, bits, sig)"
  shows "GetConsensusCollectiveSig B P msg offset cid bn bh leaderID bitmap sig1 key = Some (True, bits, sig)"
  using assms
  by (auto simp: GetConsensusCollectiveSig_def Signature_Deserialize_def split: option.splits prod.splits if_splits)

lemma begin_second_round_safe:
  assumes inv: "backup_inv E s" and draws: "backup_draws_ok E rnd s" and B: "openssl_ok (ossl E) g"
    and st: "m_state s \<in> {COMMIT_DONE, RESPONSE_DONE}"
    and small: "length (m_messageToCosign s) < 2 ^ 31"
    and bits: "length (m_responseMap s) \<le> length (m_committee s)"
    and ok: "AggregateKeys (ossl E) (m_committee s) (m_responseMap s) = Some key"
      "MultiSigVerify (ossl E) (m_messageToCosign s) (m_collectiveSig s) key = Some True"
  shows "\<exists>ok s'. begin_second_round E rnd FINALCOMMIT_DONE s = Some (ok, s') \<and> backup_inv E s'"
proof -
  let ?m = "m_messageToCosign s"
  let ?m1 = "fst (Signature_Serialize ?m (u32 (length ?m)) (m_collectiveSig s))"
  have n: "length (m_committee s) < 2 ^ 16" using inv by (simp add: backup_inv_def)
  obtain msg sz where msg: "SetBitVector ?m1 (u32 (length ?m1)) (m_responseMap s) = Some (msg, sz)"
    and ext: "extended ?m (m_collectiveSig s) (m_responseMap s) msg"
    using extend_message [OF MultiSigVerify_fits [OF B ok(2)] small, of "m_responseMap s"] bits n by auto
  let ?s = "s\<lparr>m_messageToCosign := msg\<rparr>"
  have "myKey (ossl E) ?s = myKey (ossl E) s" by (rule myKey_frame) simp_all
  then have "backup_draws_ok E rnd ?s" using draws by (simp add: backup_draws_ok_def)
  from GenerateCommitMessage_result [OF this, of FINALCOMMIT] obtain res cm secret point where
    gen: "GenerateCommitMessage E rnd (message_header ?s FINALCOMMIT) 3 ?s
      = Some (res, cm, ?s\<lparr>m_commitSecret := Some secret, m_commitPoint := Some point\<rparr>)" by blast
  let ?s2 = "?s\<lparr>m_commitSecret := Some secret, m_commitPoint := Some point\<rparr>"
  have ver: "verified_by (ossl E) (m_committee s) ?m (m_collectiveSig s) (m_responseMap s)"
    using ok by (auto simp: verified_by_def)
  show ?thesis
  proof (cases res)
    case True
    have "backup_inv E (?s2\<lparr>m_state := FINALCOMMIT_DONE, m_CS1 := m_collectiveSig s, m_B1 := m_responseMap s\<rparr>)"
      using n ver ext by (auto simp: backup_inv_def)
    then show ?thesis using msg gen True by (auto simp: begin_second_round_def Let_def)
  next
    case False
    have "backup_inv E ?s2" using inv st by (auto simp: backup_inv_def)
    then show ?thesis using msg gen False by (auto simp: begin_second_round_def Let_def)
  qed
qed

lemma ProcessMessageCollectiveSigCore_safe:
  assumes inv: "backup_inv E s" and draws: "backup_draws_ok E rnd s" and B: "openssl_ok (ossl E) g"
    and small: "length (m_messageToCosign s) < 2 ^ 31" and fits: "bitmap_fits E msg offset s"
    and round: "(action, nextstate) \<in> {(PROCESS_COLLECTIVESIG, FINALCOMMIT_DONE), (PROCESS_FINALCOLLECTIVESIG, DONE)}"
  shows "\<exists>ok s'. ProcessMessageCollectiveSigCore E rnd msg offset action nextstate s = Some (ok, s')
    \<and> backup_inv E s'"
proof (cases "Backup_CheckState s action")
  case False
  then show ?thesis using inv by (auto simp: ProcessMessageCollectiveSigCore_def)
next
  case check: True
  have lk: "leaderKey (ossl E) (s\<lparr>m_responseMap := []\<rparr>) = leaderKey (ossl E) s"
    by (simp add: leaderKey_def GetCommitteeMember_def)
  obtain ok bits sig where get: "GetConsensusCollectiveSig (ossl E) (pb E) msg offset (m_consensusID s)
      (m_blockNumber s) (m_blockHash s) (m_leaderID s) [] (m_collectiveSig s) (leaderKey (ossl E) s) = Some (ok, bits, sig)"
    using GetConsensusCollectiveSig_total [of "ossl E" "pb E" msg offset] by (metis not_None_eq prod_cases3)
  let ?s = "s\<lparr>m_responseMap := bits, m_collectiveSig := sig\<rparr>"
  have inv': "backup_inv E ?s" using inv by simp
  have draws': "backup_draws_ok E rnd ?s"
    using draws myKey_frame [of ?s s] by (simp add: backup_draws_ok_def)
  note run = ProcessMessageCollectiveSigCore_def check Let_def lk get
  show ?thesis
  proof (cases ok)
    case False
    then show ?thesis using inv' by (auto simp: run)
  next
    case ok: True
    then have len: "length bits \<le> length (m_committee s)"
      using GetConsensusCollectiveSig_bitmap [OF fits, of "m_leaderID s" "m_collectiveSig s" "leaderKey (ossl E) s" bits sig]
        get by simp
    obtain key where key: "AggregateKeys (ossl E) (m_committee s) bits = Some key"
      using AggregateKeys_total [OF len] by blast
    obtain v where v: "MultiSigVerify (ossl E) (m_messageToCosign s) sig key = Some v"
      using MultiSigVerify_total [of "ossl E" "m_messageToCosign s" sig key] by auto
    show ?thesis
    proof (cases v)
      case False
      then show ?thesis using backup_inv_reset(1) [OF inv'] ok key v by (auto simp: run)
    next
      case ver: True
      show ?thesis
      proof (cases "action = PROCESS_COLLECTIVESIG")
        case True
        have "\<exists>ok s'. begin_second_round E rnd FINALCOMMIT_DONE ?s = Some (ok, s') \<and> backup_inv E s'"
          by (rule begin_second_round_safe [OF inv' draws' B])
             (use check True small len key v ver in \<open>auto simp: Backup_CheckState_iff\<close>)
        then show ?thesis using ok key v ver True round check by (auto simp: run)
      next
        case False
        have "backup_inv E (?s\<lparr>m_CS2 := sig, m_B2 := bits, m_state := DONE\<rparr>)"
          using inv key v ver by (auto simp: backup_inv_def verified_by_def)
        then show ?thesis using ok key v ver False round check by (auto simp: run)
      qed
    qed
  qed
qed

section \<open>Session events\<close>

datatype 'pt backup_event = BackupReceive backup_rand "'pt MsgContentValidator" bytes nat

fun backup_handle :: "'pt env \<Rightarrow> 'pt backup_event \<Rightarrow> 'pt ConsensusBackup \<Rightarrow> 'pt ConsensusBackup option" where
  "backup_handle E (BackupReceive rnd validator msg offset) s =
     map_option snd (Backup_ProcessMessage E rnd validator msg offset s)"

fun backup_admissible :: "'pt env \<Rightarrow> 'pt ConsensusBackup \<Rightarrow> 'pt backup_event \<Rightarrow> bool" where
  "backup_admissible E s (BackupReceive rnd validator msg offset) =
     (offset < length msg \<and> backup_draws_ok E rnd s \<and> length (m_messageToCosign s) < 2 ^ 31
      \<and> challenge_readable E msg (offset + 1) s \<and> bitmap_fits E msg (offset + 1) s)"

definition backup_safe :: "'pt env \<Rightarrow> 'pt ConsensusBackup \<Rightarrow> bool" where
  "backup_safe E s \<longleftrightarrow> backup_inv E s \<and> (\<exists>g. openssl_ok (ossl E) g)"

lemma Backup_ProcessMessage_safe:
  assumes inv: "backup_inv E s" and B: "openssl_ok (ossl E) g"
    and adm: "backup_admissible E s (BackupReceive rnd validator msg offset)"
  shows "\<exists>ok s'. Backup_ProcessMessage E rnd validator msg offset s = Some (ok, s') \<and> backup_inv E s'"
proof -
  have draws: "backup_draws_ok E rnd s" and small: "length (m_messageToCosign s) < 2 ^ 31"
    and read: "challenge_readable E msg (offset + 1) s" and fits: "bitmap_fits E msg (offset + 1) s"
    and off: "offset < length msg"
    using adm by auto
  note chal = ProcessMessageChallengeCore_safe [OF inv draws read]
  note sig = ProcessMessageCollectiveSigCore_safe [OF inv draws B small fits]
  show ?thesis
    using chal [of PROCESS_CHALLENGE RESPONSE_DONE RESPONSE]
      chal [of PROCESS_FINALCHALLENGE FINALRESPONSE_DONE FINALRESPONSE]
      sig [of PROCESS_COLLECTIVESIG FINALCOMMIT_DONE] sig [of PROCESS_FINALCOLLECTIVESIG DONE]
      ProcessMessageAnnounce_safe [OF inv draws, of validator msg "offset + 1"]
      ProcessMessageConsensusFailure_safe [OF inv, of msg "offset + 1"] inv off
    by (auto simp: Backup_ProcessMessage_def vec_at_Some ProcessMessageChallenge_def ProcessMessageFinalChallenge_def
        ProcessMessageCollectiveSig_def ProcessMessageFinalCollectiveSig_def)
qed

interpretation backup: event_machine "backup_safe E" "backup_handle E" "backup_admissible E"
  for E :: "'pt env"
proof
  fix s and e :: "'pt backup_event"
  assume safe: "backup_safe E s" and adm: "backup_admissible E s e"
  then obtain g where inv: "backup_inv E s" and g: "openssl_ok (ossl E) g" by (auto simp: backup_safe_def)
  obtain rnd validator msg offset where e: "e = BackupReceive rnd validator msg offset" by (cases e)
  then show "\<exists>t. backup_handle E e s = Some t \<and> backup_safe E t"
    using Backup_ProcessMessage_safe [OF inv g] adm g by (force simp: backup_safe_def)
qed

lemma ConsensusBackup_new_inv:
  "length committee < 2 ^ 16 \<Longrightarrow> backup_inv E (ConsensusBackup_new cid bn bh me leader sk committee cb ib)"
  by (simp add: ConsensusBackup_new_def backup_inv_def)

section \<open>A small session\<close>

definition toy_backup_rand :: backup_rand where
  "toy_backup_rand = \<lparr>secret_draws = [Some 5], sign_draws = [Some 12, None]\<rparr>"

definition toy_signing_rand :: backup_rand where
  "toy_signing_rand = \<lparr>secret_draws = [Some 5], sign_draws = [Some 12]\<rparr>"

lemma toy_backup_rand_ok: "backup_draws_ok E toy_backup_rand s"
  by (simp add: backup_draws_ok_def toy_backup_rand_def failing_source_suffices)

text \<open>A leader and a backup with the key 1 and a third member with the key 5.\<close>

definition toy_backup :: "State \<Rightarrow> int ConsensusBackup" where
  "toy_backup st =
     (ConsensusBackup_new 7 8 [9] 1 0 1 [(1, Peer_default), (1, Peer_default), (5, Peer_default)] 0 0)
       \<lparr>m_state := st, m_messageToCosign := [1, 2, 3], m_commitSecret := Some \<lparr>fval = 5, finit = True\<rparr>\<rparr>"

lemma toy_backup_facts:
  "m_state (toy_backup st) = st" "m_consensusID (toy_backup st) = 7" "m_blockNumber (toy_backup st) = 8"
  "m_blockHash (toy_backup st) = [9]" "m_leaderID (toy_backup st) = 0" "leaderKey toy (toy_backup st) = 1"
  "m_committee (toy_backup st) = [(1, Peer_default), (1, Peer_default), (5, Peer_default)]"
  "m_messageToCosign (toy_backup st) = [1, 2, 3]" "ossl toy_env = toy" "pb toy_env = toy_protobufs"
  by (simp_all add: toy_backup_def ConsensusBackup_new_def leaderKey_def GetCommitteeMember_def toy_env_def)

lemma toy_backup_verifies:
  "verified_by toy [(1, Peer_default), (1, Peer_default), (5, Peer_default)] [1, 2, 3] \<lparr>m_r = 4, m_s = 5\<rparr>
     [False, False, True]"
  by (simp add: verified_by_def AggregateKeys_def AggregatePubKeys_def MultiSigVerify_def MultiSigVerify_range_def
      toy_eval SHA2_Update_def)

lemma toy_backup_second_round:
  "\<exists>s'. begin_second_round toy_env toy_signing_rand FINALCOMMIT_DONE
     ((toy_backup COMMIT_DONE)\<lparr>m_responseMap := [False, False, True], m_collectiveSig := \<lparr>m_r = 4, m_s = 5\<rparr>\<rparr>)
     = Some (True, s')"
proof -
  let ?s = "(toy_backup COMMIT_DONE)\<lparr>m_responseMap := [False, False, True], m_collectiveSig := \<lparr>m_r = 4, m_s = 5\<rparr>\<rparr>"
  have fits: "Signature_fits \<lparr>m_r = 4, m_s = 5\<rparr>" by (simp add: Signature_fits_def bn_fits_def)
  have me: "m_myID (toy_backup COMMIT_DONE) = 1" "m_myPrivKey (toy_backup COMMIT_DONE) = 1"
    by (simp_all add: toy_backup_def ConsensusBackup_new_def)
  obtain m2 sz where m2: "SetBitVector (fst (Signature_Serialize [1, 2, 3] (u32 (length [1, 2, 3 :: byte])) (m_collectiveSig ?s)))
      (u32 (length (fst (Signature_Serialize [1, 2, 3] (u32 (length [1, 2, 3 :: byte])) (m_collectiveSig ?s)))))
      [False, False, True] = Some (m2, sz)"
    using extend_message [OF fits, of "[1, 2, 3]" "[False, False, True]"] by auto
  let ?s1 = "?s\<lparr>m_messageToCosign := m2\<rparr>"
  let ?hdr = "message_header ?s1 FINALCOMMIT"
  let ?h = "CommitPointHash_from_point toy \<lparr>fval = 5, finit = True\<rparr>"
  have h: "?h = \<lparr>fval = 5, finit = True\<rparr>"
    by (simp add: CommitPointHash_from_point_def CommitPointHash_Set_def toy_eval SHA2_Update_def)
  have mul: "EC_POINT_mul toy 5 None = Some 5" by (simp add: toy_def)
  obtain msg where "SetConsensusCommit toy toy_protobufs ?hdr 3 7 8 [9] 1 \<lparr>fval = 5, finit = True\<rparr>
      \<lparr>fval = 5, finit = True\<rparr> (1, 1) [Some 12] = Some (msg, True)"
    using toy_commit_serializes [of ?hdr 1 5 5] by (auto simp: bn_fits_def)
  then show ?thesis
    using m2 h me mul
    by (simp add: begin_second_round_def GenerateCommitMessage_def Let_def toy_backup_facts toy_signing_rand_def
        myKey_def GetCommitteeMember_def CommitPoint_from_secret_def CommitPoint_Set_def)
qed

section \<open>Properties\<close>

text \<open>C2: a backup session runs without leaving through an exception on readable messages in any order,
  and when it is done the signature it keeps verifies over the message it holds, under the
  aggregated key of the committee members of the bitmap it keeps. In the states of the second round
  the same holds of the first signature, and the message is the first one extended with it.\<close>

theorem backup_session_safe:
  assumes "openssl_ok (ossl E) g" "length committee < 2 ^ 16"
    and "admissible_run (backup_handle E) (backup_admissible E)
      (ConsensusBackup_new cid bn bh me leader sk committee cb ib) events"
  shows "\<exists>s. run_events (backup_handle E) events (ConsensusBackup_new cid bn bh me leader sk committee cb ib) = Some s
    \<and> (m_state s = DONE \<longrightarrow>
        verified_by (ossl E) (m_committee s) (m_messageToCosign s) (m_CS2 s) (m_B2 s))
    \<and> (m_state s = FINALCOMMIT_DONE \<or> m_state s = FINALRESPONSE_DONE \<longrightarrow>
        (\<exists>base. verified_by (ossl E) (m_committee s) base (m_CS1 s) (m_B1 s)
           \<and> extended base (m_CS1 s) (m_B1 s) (m_messageToCosign s)))"
proof -
  let ?s0 = "ConsensusBackup_new cid bn bh me leader sk committee cb ib"
  have "backup_safe E ?s0"
    using ConsensusBackup_new_inv [OF assms(2)] assms(1) by (auto simp: backup_safe_def)
  from backup.run_safe [OF this assms(3)] show ?thesis
    by (auto simp: backup_safe_def backup_inv_def)
qed

theorem backup_session_safe_witness:
  "\<exists>s. run_events (backup_handle toy_env)
     [BackupReceive toy_backup_rand (\<lambda>_ _ _ _ _ _ _ _. (True, [], [1, 2])) [2] 0,
      BackupReceive toy_backup_rand (\<lambda>_ _ _ _ _ _ _ _. (True, [], [1, 2])) [0] 0]
     (ConsensusBackup_new 7 8 [9] 1 0 1 [(1, Peer_default), (1, Peer_default)] 0 0) = Some s"
proof -
  let ?v = "\<lambda>_ _ _ _ _ _ _ _. (True, [], [1, 2]) :: bool \<times> bytes \<times> bytes"
  let ?s0 = "ConsensusBackup_new 7 8 [9] 1 0 1 [(1, Peer_default), (1, Peer_default)] 0 0 :: int ConsensusBackup"
  have first: "backup_handle toy_env (BackupReceive toy_backup_rand ?v [2] 0) ?s0 = Some ?s0"
    by (simp add: Backup_ProcessMessage_def vec_at_def ProcessMessageChallenge_def ProcessMessageChallengeCore_def
        Backup_CheckState_iff ConsensusBackup_new_def)
  have adm: "backup_admissible toy_env ?s0 (BackupReceive toy_backup_rand ?v [b] 0)" for b
    by (simp add: toy_backup_rand_ok challenge_readable_def bitmap_fits_def open_consensus_message_def
        ConsensusBackup_new_def)
  have "admissible_run (backup_handle toy_env) (backup_admissible toy_env) ?s0
     [BackupReceive toy_backup_rand ?v [2] 0, BackupReceive toy_backup_rand ?v [0] 0]"
    by (simp only: admissible_run.simps first adm option.case) (simp split: option.split)
  from backup_session_safe [OF _ _ this] show ?thesis using toy_ok by (auto simp: toy_env_def)
qed

text \<open>C37: a challenge message with two subsets and different challenges makes the backup send two responses
  from which its private key follows. The backup has one commit secret, answers every subset with
  it, and does not check that the challenges are equal.\<close>

theorem challenge_subsets_leak_key:
  assumes B: "openssl_ok B g" and key: "0 \<le> m_myPrivKey s" "m_myPrivKey s < ec_order B"
    and secret: "m_commitSecret s = Some secret" "finit secret"
    and loop: "respond_loop B s [si1, si2] = Some (Some [r1, r2])"
    and differ: "coprime ((fval (si_challenge si2) - fval (si_challenge si1)) mod ec_order B) (ec_order B)"
  shows "recover_key (ec_order B) (fval (si_challenge si1)) (fval r1) (fval (si_challenge si2)) (fval r2)
    = m_myPrivKey s"
proof -
  have resp: "finit (si_challenge si1)" "finit (si_challenge si2)"
      "fval r1 = fval (Response_from B secret (si_challenge si1) (m_myPrivKey s))"
      "fval r2 = fval (Response_from B secret (si_challenge si2) (m_myPrivKey s))"
    using loop secret
    by (auto simp: Let_def Response_copy_def Response_assign_def copied_def split: if_splits bind_splits)
  show ?thesis
    by (rule recover_key_correct [OF _ key differ])
       (use B resp in \<open>simp_all add: openssl_ok_def Response_from_value [OF B secret(2)]\<close>)
qed

theorem challenge_subsets_leak_key_witness:
  "\<exists>(s :: int ConsensusBackup) si1 si2 r1 r2. respond_loop toy s [si1, si2] = Some (Some [r1, r2])
     \<and> recover_key 13 (fval (si_challenge si1)) (fval r1) (fval (si_challenge si2)) (fval r2) = 2
     \<and> m_myPrivKey s = 2"
proof -
  let ?s = "(ConsensusBackup_new 7 8 [9] 1 0 2 [] 0 0)\<lparr>m_messageToCosign := [1, 2, 3],
      m_commitSecret := Some \<lparr>fval = 5, finit = True\<rparr>\<rparr> :: int ConsensusBackup"
  let ?si1 = "\<lparr>si_aggregatedCommit = \<lparr>fval = 12, finit = True\<rparr>, si_aggregatedKey = 5,
      si_challenge = \<lparr>fval = 4, finit = True\<rparr>\<rparr> :: int ChallengeSubsetInfo"
  let ?si2 = "\<lparr>si_aggregatedCommit = \<lparr>fval = 11, finit = True\<rparr>, si_aggregatedKey = 5,
      si_challenge = \<lparr>fval = 3, finit = True\<rparr>\<rparr> :: int ChallengeSubsetInfo"
  have "respond_loop toy ?s [?si1, ?si2] = Some (Some [\<lparr>fval = 10, finit = True\<rparr>, \<lparr>fval = 12, finit = True\<rparr>])"
    by (simp add: GetChallenge_def Challenge_from_def Challenge_Set_def Challenge_eq_def scalar_eq_def toy_eval
        ConsensusBackup_new_def Response_from_def Response_Set_def Response_default_def Response_assign_def
        Response_copy_def copied_def)
  moreover have "coprime (12 :: int) 13" using coprime_diff_one_left [of "13 :: int"] by simp
  ultimately have "recover_key (ec_order toy) (fval (si_challenge ?si1)) 10 (fval (si_challenge ?si2)) 12 = m_myPrivKey ?s"
    using challenge_subsets_leak_key [OF toy_ok, of ?s "\<lparr>fval = 5, finit = True\<rparr>" ?si1 ?si2
        "\<lparr>fval = 10, finit = True\<rparr>" "\<lparr>fval = 12, finit = True\<rparr>"]
    by (simp add: toy_def ConsensusBackup_new_def)
  then show ?thesis
    using \<open>respond_loop toy ?s [?si1, ?si2] = _\<close>
    by (intro exI [of _ ?s] exI [of _ ?si1] exI [of _ ?si2] exI [of _ "\<lparr>fval = 10, finit = True\<rparr>"]
        exI [of _ "\<lparr>fval = 12, finit = True\<rparr>"]) (simp add: toy_def ConsensusBackup_new_def)
qed

text \<open>A backup accepts a final collective signature exactly when the leader's message is authentic and the
  signature verifies under the aggregated key of whatever members its bitmap selects. Nothing
  compares the number of set bits with the threshold, so a signature by one member is accepted.\<close>

lemma final_collectivesig_accepted_iff:
  assumes check: "Backup_CheckState s PROCESS_FINALCOLLECTIVESIG"
    and get: "GetConsensusCollectiveSig (ossl E) (pb E) msg offset (m_consensusID s) (m_blockNumber s)
      (m_blockHash s) (m_leaderID s) [] (m_collectiveSig s) (leaderKey (ossl E) s) = Some (ok, bits, sig)"
    and len: "length bits \<le> length (m_committee s)"
  shows "(\<exists>s'. ProcessMessageFinalCollectiveSig E rnd msg offset s = Some (True, s'))
     \<longleftrightarrow> ok \<and> verified_by (ossl E) (m_committee s) (m_messageToCosign s) sig bits"
proof -
  have lk: "leaderKey (ossl E) (s\<lparr>m_responseMap := []\<rparr>) = leaderKey (ossl E) s"
    by (simp add: leaderKey_def GetCommitteeMember_def)
  obtain key where key: "AggregateKeys (ossl E) (m_committee s) bits = Some key"
    using AggregateKeys_total [OF len] by blast
  obtain v where v: "MultiSigVerify (ossl E) (m_messageToCosign s) sig key = Some v"
    using MultiSigVerify_total [of "ossl E" "m_messageToCosign s" sig key] by auto
  show ?thesis
    by (cases ok; cases v)
       (use check key v get in \<open>simp_all add: ProcessMessageFinalCollectiveSig_def ProcessMessageCollectiveSigCore_def
         lk verified_by_def Let_def\<close>)
qed

text \<open>C38: the type byte of a consensus message is not signed. The first-round collective-signature message,
  sent again with the type of the final one, passes every check of authenticity in the second
  round, and anyone who saw it can send it. What decides is whether the first signature happens to verify
  over the extended message: if not, the backup enters the error state.\<close>

theorem replayed_collectivesig_is_authentic:
  assumes first: "ProcessMessageCollectiveSig E rnd msg offset s = Some (True, s')"
    and len: "length (m_B1 s') \<le> length (m_committee s')"
  shows "\<exists>key v s''. AggregateKeys (ossl E) (m_committee s') (m_B1 s') = Some key
    \<and> MultiSigVerify (ossl E) (m_messageToCosign s') (m_CS1 s') key = Some v
    \<and> ProcessMessageFinalCollectiveSig E rnd' msg offset s' = Some (v, s'')
    \<and> m_state s'' = (if v then DONE else ERROR)"
proof -
  have lk: "leaderKey (ossl E) (x\<lparr>m_responseMap := []\<rparr>) = leaderKey (ossl E) x" for x :: "'a ConsensusBackup"
    by (simp add: leaderKey_def GetCommitteeMember_def)
  obtain bits sig where get: "GetConsensusCollectiveSig (ossl E) (pb E) msg offset (m_consensusID s) (m_blockNumber s)
      (m_blockHash s) (m_leaderID s) [] (m_collectiveSig s) (leaderKey (ossl E) s) = Some (True, bits, sig)"
    and second: "begin_second_round E rnd FINALCOMMIT_DONE (s\<lparr>m_responseMap := bits, m_collectiveSig := sig\<rparr>) = Some (True, s')"
    using first
    by (auto simp: ProcessMessageCollectiveSig_def ProcessMessageCollectiveSigCore_def Let_def lk
        split: if_splits bind_splits)
  have same: "m_consensusID s' = m_consensusID s" "m_blockNumber s' = m_blockNumber s"
      "m_blockHash s' = m_blockHash s" "m_leaderID s' = m_leaderID s" "m_committee s' = m_committee s"
      "m_state s' = FINALCOMMIT_DONE" "m_collectiveSig s' = sig" "m_CS1 s' = sig" "m_B1 s' = bits"
    using second
    by (auto simp: begin_second_round_def GenerateCommitMessage_def send_to_leader_def emit_def Let_def
        split: if_splits bind_splits)
  have lk': "leaderKey (ossl E) s' = leaderKey (ossl E) s"
    using same by (simp add: leaderKey_def GetCommitteeMember_def)
  have again: "GetConsensusCollectiveSig (ossl E) (pb E) msg offset (m_consensusID s') (m_blockNumber s')
      (m_blockHash s') (m_leaderID s') [] (m_collectiveSig s') (leaderKey (ossl E) s') = Some (True, bits, sig)"
    using GetConsensusCollectiveSig_replaces [OF get] same lk' by simp
  obtain key where key: "AggregateKeys (ossl E) (m_committee s') bits = Some key"
    using AggregateKeys_total [of bits "m_committee s'" "ossl E"] len same by auto
  obtain v where v: "MultiSigVerify (ossl E) (m_messageToCosign s') sig key = Some v"
    using MultiSigVerify_total [of "ossl E" "m_messageToCosign s'" sig key] by auto
  have "\<exists>s''. ProcessMessageFinalCollectiveSig E rnd' msg offset s' = Some (v, s'')
      \<and> m_state s'' = (if v then DONE else ERROR)"
    using same(6) key v again
    by (simp add: ProcessMessageFinalCollectiveSig_def ProcessMessageCollectiveSigCore_def Let_def lk
        Backup_CheckState_iff)
  then show ?thesis using key v same by auto
qed

theorem replayed_collectivesig_is_authentic_witness:
  "\<exists>msg s s' v s''. ProcessMessageCollectiveSig toy_env toy_signing_rand msg 3 s = Some (True, s')
     \<and> m_state s' = FINALCOMMIT_DONE
     \<and> ProcessMessageFinalCollectiveSig toy_env toy_signing_rand msg 3 s' = Some (v, s'')
     \<and> m_state s'' = (if v then DONE else ERROR)"
proof -
  let ?s = "toy_backup COMMIT_DONE" and ?sig = "\<lparr>m_r = 4, m_s = 5\<rparr>" and ?bits = "[False, False, True]"
  let ?s2 = "?s\<lparr>m_responseMap := ?bits, m_collectiveSig := ?sig\<rparr>"
  obtain msg where msg: "GetConsensusCollectiveSig toy toy_protobufs msg 3 7 8 [9] 0 [] old 1 = Some (True, ?bits, ?sig)" for old
    using toy_collectivesig_message [of ?sig ?bits] by (auto simp: Signature_fits_def bn_fits_def)
  have lk: "leaderKey toy (?s\<lparr>m_responseMap := []\<rparr>) = 1"
    by (simp add: leaderKey_def GetCommitteeMember_def toy_backup_facts)
  obtain s' where second: "begin_second_round toy_env toy_signing_rand FINALCOMMIT_DONE ?s2 = Some (True, s')"
    using toy_backup_second_round by blast
  then have facts: "m_B1 s' = ?bits" "length (m_committee s') = 3" "m_state s' = FINALCOMMIT_DONE"
    by (auto simp: begin_second_round_def GenerateCommitMessage_def send_to_leader_def emit_def Let_def
        toy_backup_facts split: if_splits bind_splits)
  have run: "ProcessMessageCollectiveSig toy_env toy_signing_rand msg 3 ?s = Some (True, s')"
    using second msg toy_backup_verifies lk
    by (auto simp: ProcessMessageCollectiveSig_def ProcessMessageCollectiveSigCore_def Backup_CheckState_iff
        toy_backup_facts Let_def verified_by_def)
  obtain v s'' where "ProcessMessageFinalCollectiveSig toy_env toy_signing_rand msg 3 s' = Some (v, s'')"
      "m_state s'' = (if v then DONE else ERROR)"
    using replayed_collectivesig_is_authentic [OF run, of toy_signing_rand] facts by auto
  then show ?thesis using run facts(3) by blast
qed

end
