(* ===== verification/Spec2Isabelle.thy ===== *)
theory Spec2Isabelle
  imports Coinbase Sharding DirectoryChain MicroBlockLedger Chain Reputation RumorSafety LeaderSafety BackupSafety
begin

text \<open>
  Verification of the core of the Zilliqa node in \<open>src/cw\<close>.

  \<^bold>\<open>The program.\<close> A node takes part in rounds of consensus on blocks. A leader announces a block, the
  members of its committee commit, the leader answers with challenges, the members respond, and the
  leader aggregates the responses into one EC-Schnorr multi-signature. This is done twice: the second
  round signs the announcement extended with the first signature and its bitmap. Messages travel as
  protobuf records signed by their sender, directly or by gossip: a node pushes a message to random
  peers in rounds until it is old, and hands every message it receives to the dispatcher. Pending
  transactions wait in a pool, finished blocks are kept in memory and in databases, and peers that
  misbehave lose reputation until they are blacklisted. Transactions are executed on a temporary copy of
  the accounts: payments, deployments of contracts and calls of contracts, which an external interpreter
  runs. The difference to the permanent accounts, the state delta, is sent to the other nodes, which
  apply it, and at the end of an epoch the signers of the blocks are paid from the coinbase account. A
  shard takes transactions from packets of lookup nodes into its pool, executes them in the order of their
  nonces and records them in a micro block. DS blocks, view changes and fallbacks change the committee of
  the directory service; every node follows them, and a node that was away checks and replays them.

  \<^bold>\<open>Theories and sources.\<close>
  \<^item> \<open>Prelude\<close>: C++ integer widths (\<open>u16\<close>, \<open>u32\<close>, \<open>u64\<close>), vectors with their out-of-range behaviour, the
    interfaces \<open>byte_field\<close>, \<open>two_fields\<close>, \<open>crashing_machine\<close>, \<open>event_machine\<close> and \<open>ranked_machine\<close>.
  \<^item> \<open>ByteCodec\<close>: \<open>common/Serializable.h\<close>, \<open>libCrypto/BIGNUMSerialize.cpp\<close>.
  \<^item> \<open>BitVector\<close>: \<open>libUtils/BitVector.cpp\<close>.
  \<^item> \<open>OpenSSL\<close>: the OpenSSL functions the sources call, as a record that every definition takes as an
    argument; \<open>libCrypto/Sha2.h\<close>, \<open>libCrypto/ECPOINTSerialize.cpp\<close>.
  \<^item> \<open>Schnorr\<close>: \<open>libCrypto/PrivKey.cpp\<close>, \<open>PubKey.cpp\<close>, \<open>Signature.cpp\<close>, \<open>Schnorr.cpp\<close>.
  \<^item> \<open>MultiSig\<close>: \<open>libCrypto/MultiSig.cpp\<close>.
  \<^item> \<open>Peer\<close>: \<open>libNetwork/Peer.cpp\<close>.
  \<^item> \<open>Messenger\<close>: the consensus messages of \<open>libMessage/Messenger.cpp\<close>.
  \<^item> \<open>Quorum\<close>: \<open>ConsensusCommon::NumForConsensus\<close>, with its double-precision arithmetic.
  \<^item> \<open>ConsensusCommon\<close>, \<open>ConsensusLeader\<close>, \<open>ConsensusBackup\<close>: the classes of \<open>libConsensus\<close>, one record
    per class (the roles extend the base record) and one definition per handler.
    \<open>LeaderInvariant\<close>, \<open>LeaderSafety\<close> and \<open>BackupSafety\<close> hold their invariants and guarantees; \<open>LeaderExample\<close> runs a
    session on a small instance until it is done.
  \<^item> \<open>Rumor\<close>: the state machine and the holder of \<open>libRumorSpreading\<close>. \<open>RumorManager\<close>:
    \<open>libNetwork/RumorManager.cpp\<close> and the gossip entry points of \<open>P2PComm.cpp\<close>. \<open>RumorSafety\<close>: their guarantees.
  \<^item> \<open>LevelDB\<close>: \<open>depends/libDatabase/LevelDB.cpp\<close> over the LevelDB library, a parameter. \<open>BlockStorage\<close>:
    \<open>libPersistence/BlockStorage.cpp\<close>, one record with one database per table, and
    \<open>Retriever::CleanExtraTxBodies\<close>; the interface \<open>keyed_store\<close> of its tables.
  \<^item> \<open>Chain\<close>: \<open>libData/DataStructures/CircularArray.h\<close>, \<open>libData/BlockChainData/BlockChain.h\<close> and
    \<open>BlockLinkChain.cpp\<close>; the interface \<open>log_chain\<close> that both chains implement.
  \<^item> \<open>SWInfo\<close>: \<open>libUtils/SWInfo.cpp\<close>. \<open>Blocks\<close>: the five kinds of blocks of \<open>libData/BlockData\<close> with their headers,
    their messages, the sharding structure and the hashes of committees in \<open>Messenger.cpp\<close>. \<open>BlockCodec\<close>: their
    round trips, over the interface \<open>block_message\<close>.
  \<^item> \<open>Committee\<close>: the updates of the DS committee after a DS block, a view change and a fallback, in \<open>libNode\<close>
    (\<open>DSBlockProcessing.cpp\<close>, \<open>ViewChangeBlockProcessing.cpp\<close>, \<open>FallbackBlockProcessing.cpp\<close>) and \<open>libDirectoryService\<close>
    (\<open>DSBlockPostProcessing.cpp\<close>, \<open>ViewChangePostProcessing.cpp\<close>); the interface \<open>committee_follower\<close>, whose three
    instances are a member, an observer and a node that catches up. \<open>Validator\<close>: the co-signature checks,
    \<open>CheckDirBlocks\<close> and \<open>CheckTxBlocks\<close> of \<open>libValidator/Validator.cpp\<close> and those of the node and the directory service.
    \<open>DirectoryChain\<close>: what \<open>CheckDirBlocks\<close> accepts.
  \<^item> \<open>Sharding\<close>: \<open>libUtils/ShardSizeCalculator.cpp\<close>, \<open>SortPoWSoln\<close> and \<open>ComputeSharding\<close> of
    \<open>libDirectoryService/DSBlockPreProcessing.cpp\<close>, the difficulties of \<open>DirectoryService.cpp\<close>.
  \<^item> \<open>Transactions\<close>: \<open>libData/AccountData/Transaction.cpp\<close> and its messages. \<open>TxnPool\<close>: \<open>TxnPool.h\<close>.
    \<open>TxnProcessing\<close>: the transaction checks of the validator, packets of transactions (\<open>libNode/Node.cpp\<close>) and the
    processing loops of \<open>libNode/MicroBlockPreProcessing.cpp\<close>, one definition per branch of the loop.
    \<open>MicroBlockLedger\<close>: their guarantees.
  \<^item> \<open>Reputation\<close>: \<open>libNetwork/ReputationManager.cpp\<close>, \<open>Blacklist.cpp\<close>.
  \<^item> \<open>Account\<close>: \<open>libData/AccountData/Account.cpp\<close>, the types of transactions and receipts.
    \<open>AccountStoreBase\<close>: \<open>AccountStoreBase.tpp\<close> over the virtual \<open>GetAccount\<close> of a store; the interface
    \<open>account_store\<close>, a store that behaves as a map. \<open>ContractStorage\<close>: \<open>libPersistence/ContractStorage.cpp\<close>.
    \<open>AccountStoreSC\<close>: \<open>AccountStoreSC.tpp\<close> and \<open>AccountStoreAtomic.tpp\<close>; what the interpreter answers is an argument.
    \<open>AccountSafety\<close> (interface \<open>contract_store\<close>) and \<open>AccountFrame\<close> (interface \<open>store_relation\<close>): what executing a
    transaction does to the money and what it leaves alone, for every store.
  \<^item> \<open>AccountStore\<close>: \<open>AccountStoreTrie.tpp\<close>, \<open>AccountStoreTemp.cpp\<close>, \<open>AccountStore.cpp\<close> and the account messages of
    \<open>Messenger.cpp\<close>, over the Merkle trie, a parameter. \<open>StateDelta\<close>: their guarantees.
  \<^item> \<open>Coinbase\<close>: \<open>libDirectoryService/Coinbase.cpp\<close>.

  \<^bold>\<open>What is shown.\<close>
  \<^item> Codecs: what is written is read back and bytes outside the field are kept, for numbers, big
    numbers, bitmaps, keys, signatures, peers and the consensus messages; the sizes at which the
    arithmetic of the sources wraps are stated.
  \<^item> Signatures: signing returns once a usable nonce is drawn, a signature verifies, verification
    accepts exactly the signatures that satisfy the Schnorr equation, aggregated responses give a
    multi-signature that verifies under the aggregated key.
  \<^item> Threshold: \<open>NumForConsensus\<close> lies between two thirds and the whole committee and two quorums
    intersect.
  \<^item> Leader: over any sequence of admissible events (messages in any order, the commit window closing)
    a handler leaves through an exception exactly on a response of the session one of whose fields is cut short, and in
    the states after a round the published signature verifies over the message under the members of its bitmap.
  \<^item> Backup: the same for the signatures a backup keeps; in addition what the handlers do not check.
  \<^item> Leader and backups (this theory): a backup in the leader's session that receives what the leader
    publishes ends the round with the leader's message, signature and bitmap. The co-signatures of a finished session
    pass the checks of every node that knows the committee.
  \<^item> Gossip: no operation throws, the books of the manager stay consistent, a message is dispatched at
    most once until a round expires it or the manager is set up again, a rumor is old after a bounded number of rounds, and the receiver
    parses the header the sender writes.
  \<^item> Storage and chains: tables behave as maps, a DS committee is read back, the block chain is a log
    with a window of 50 blocks, the chain of links is a list; and inputs for which they are not.
  \<^item> Blocks: every kind of block is read back from its bytes, and DS blocks from the database.
  \<^item> Committees: members, observers and nodes that catch up agree on the committee; \<open>CheckDirBlocks\<close> accepts, links
    and stores exactly the longest prefix of blocks that fit the committee of their moment, and throws exactly on a
    fallback with a shard number out of range; and that it trusts the hash a block carries.
  \<^item> Sharding: shard sizes stay between the tolerances, trimming and splitting agree, and the shards are a partition
    of the nodes that the index describes; difficulties move in bounded steps.
  \<^item> Transactions: what is created and signed arrives unchanged. Only checked transactions enter the pool from a
    packet. A micro block is a history of the ledger with consecutive nonces, its fees are the money that left the
    ledger, and pools of payments are worked off in a bounded number of passes; and how the gas limit is missed.
  \<^item> Pool: its indexes agree after any operations, and the transaction taken pays most; and how an
    empty bucket hides the rest.
  \<^item> Reputation: an address whose entry is not changed directly is blacklisted exactly if its score is at the threshold or
    below, and a ban ends.
  \<^item> Contract storage: states are read back, a commit changes no read.
  \<^item> Accounts: an epoch of transactions and rewards, with deployments at unused addresses, conserves money up to the fees
    and leaves the permanent accounts alone; chains of contract calls end; a state delta that a node with the same permanent
    accounts accepts gives it the balances, nonces, code hashes and sent storage roots of the sender, and one without
    contract accounts is accepted; a revertible commit can be taken back.
  \<^item> Rewards: signatures are recorded once, and the payments stay within the budget.

  \<^bold>\<open>Hypotheses.\<close> \<open>openssl_ok\<close> (the group laws and conversions OpenSSL documents), \<open>protobuf_ok\<close> and
  \<open>blocklink_protobuf_ok\<close> (a serialised message parses to itself), \<open>leveldb_ok\<close> (a successful write changes one
  key), \<open>safemath_ok\<close> and \<open>usafe_ok\<close> (results that fit are exact, others are refused), \<open>trie_ok\<close> (an insertion
  or removal changes one key), \<open>account_protobuf_ok\<close> (a delta is read back), \<open>wire_ok\<close> (so is a
  block message), \<open>fresh_address\<close> (no account exists at the address of a new contract; without it a deployment that fails
  erases that account from the temporary store), \<open>nonces_fit\<close> (no nonce can wrap around), \<open>supply_fits\<close> (all balances together
  are below \<open>2 ^ 128\<close>), \<open>block_class_ok\<close> (the number of the default block) and, for
  events, that enough random numbers are drawn for a signing loop (\<open>draws_suffice\<close>) and that messages are
  readable. \<open>disk_works\<close> (writes to the database succeed) is assumed where blocks are replayed, and
  \<open>processing_ok\<close> collects what the processing loop relies on: different transactions have different identifiers,
  nonces and gas limits stay below the largest numbers, and the hypotheses above. Random draws are lists that the loops consume; a list that is used up is reported as such
  and \<open>draws_suffice\<close> says how much is enough. The members a gossip round draws, the clock, the nonces
  and the logarithms of the default configuration are arguments. Every hypothesis is met by a concrete
  instance which the witnesses use: the group of integers modulo 13 for OpenSSL, a prefix code and a
  fixed-width code for protobuf, lists of pairs for LevelDB.

  \<^bold>\<open>Loops.\<close> Loops over containers are structural recursions. The loop of \<open>GetDSCommittee\<close> ends at the first
  free key and is a partial function; that it returns is part of the round trip. The chain of contract
  calls takes one unit of fuel per level of the bounded depth; \<open>contract_calls_end\<close> shows that more fuel
  changes nothing. The processing loop of a shard takes its passes from a list, each with the timer's flag and
  what the interpreter answers; \<open>payments_are_processed\<close> gives the number of passes that is enough. The search for a free index of a contract state ends at the first free one and is a
  partial function.

  \<^bold>\<open>Concurrency.\<close> Handlers are serialised by mutexes in the sources and are single steps here. The thread
  that waits for the commit window is an event of its own, which may occur at any point where the
  source can be waiting; the thread of \<open>StartRounds\<close> is one event per pass. A run of the interpreter in its
  thread is one step with its result; the timeout is part of the result.

  \<^bold>\<open>Not modelled.\<close> Sockets and files, the remaining message families of \<open>Messenger\<close>, the tables of shard
  structures and temporary states, rebuilding the trie from them, the JSON views of contract states, the
  threads and timers of the node and of the directory service around the operations above, the composition of
  micro blocks and final blocks, proof of work, the lookup node, the servers and the
  smart-contract interpreter, and the vendored libraries.
\<close>

section \<open>The leader and its backups agree\<close>

text \<open>A backup that holds the leader's view of the session.\<close>

definition same_session :: "'pt ConsensusLeader \<Rightarrow> 'pt ConsensusBackup \<Rightarrow> bool" where
  "same_session L s \<longleftrightarrow>
     m_consensusID s = m_consensusID L \<and> m_blockNumber s = m_blockNumber L \<and> m_blockHash s = m_blockHash L
     \<and> m_committee s = m_committee L \<and> m_messageToCosign s = m_messageToCosign L
     \<and> m_leaderID s = m_myID L"

text \<open>A leader that is in the committee under the public key of its private key, with nonces in range.\<close>

definition signing_leader :: "'pt openssl \<Rightarrow> (int \<Rightarrow> 'pt) \<Rightarrow> rand \<Rightarrow> 'pt ConsensusLeader \<Rightarrow> bool" where
  "signing_leader B g rnd L \<longleftrightarrow>
     0 < m_myPrivKey L \<and> m_myPrivKey L < ec_order B
     \<and> fst (GetCommitteeMember B L (m_myID L)) = g (m_myPrivKey L)
     \<and> (\<forall>k. Some k \<in> set (draws rnd) \<longrightarrow> 0 \<le> k \<and> k < ec_order B)"

definition published :: "'pt env \<Rightarrow> bytes \<Rightarrow> 'pt ConsensusLeader \<Rightarrow> effect" where
  "published E msg L =
     (if BROADCAST_GOSSIP_MODE E then SpreadRumor msg else SendMessage (map snd (m_committee L)) msg)"

lemma GenerateCollectiveSigMessage_read:
  assumes B: "openssl_ok (ossl E) g" and P: "protobuf_ok (ConsensusCollectiveSig (pb E))"
    and key: "signing_leader (ossl E) g rnd L"
    and gen: "GenerateCollectiveSigMessage E rnd (message_header L t) 3 i L = Some (True, msg, L1)"
  obtains sub sig agg where "vec_at (m_consensusSubsets L) i = Some sub"
    "L1 = (put_subset i (sub\<lparr>collectiveSig := sig\<rparr>) L)\<lparr>m_collectiveSig := sig\<rparr>"
    "AggregateKeys (ossl E) (m_committee L) (responseMap sub) = Some agg"
    "MultiSigVerify (ossl E) (m_messageToCosign L) sig agg = Some True"
    "vec_at msg 2 = Some (type_byte t)"
    "\<And>old. length msg < 2 ^ 31 \<Longrightarrow> GetConsensusCollectiveSig (ossl E) (pb E) msg 3 (m_consensusID L) (m_blockNumber L)
       (m_blockHash L) (m_myID L) [] old (g (m_myPrivKey L)) = Some (True, responseMap sub, sig)"
proof -
  obtain sub where sub: "vec_at (m_consensusSubsets L) i = Some sub"
    using gen by (auto simp: GenerateCollectiveSigMessage_def split: bind_splits)
  let ?sig = "AggregateSign (challenge sub) (AggregateResponses (ossl E) (responseData sub))"
  let ?L1 = "put_subset i (sub\<lparr>collectiveSig := ?sig\<rparr>) L"
  have same: "m_consensusID ?L1 = m_consensusID L" "m_blockNumber ?L1 = m_blockNumber L" "m_myID ?L1 = m_myID L"
      "m_blockHash ?L1 = m_blockHash L" "m_messageToCosign ?L1 = m_messageToCosign L" "myKey (ossl E) ?L1 = myKey (ossl E) L"
    by (simp_all add: put_subset_def myKey_def GetCommitteeMember_def)
  have mine: "myKey (ossl E) L = (m_myPrivKey L, g (m_myPrivKey L))"
    using key by (simp add: signing_leader_def myKey_def)
  obtain agg where agg: "AggregateKeys (ossl E) (m_committee L) (responseMap sub) = Some agg"
      "MultiSigVerify (ossl E) (m_messageToCosign L) ?sig agg = Some True"
      "L1 = ?L1\<lparr>m_collectiveSig := ?sig\<rparr>"
    and set: "SetConsensusCollectiveSig (ossl E) (pb E) (message_header L t) 3 (m_consensusID L) (m_blockNumber L)
      (m_blockHash L) (m_myID L) ?sig (responseMap sub) (myKey (ossl E) L) (draws rnd) = Some (msg, True)"
    using gen by (auto simp: GenerateCollectiveSigMessage_def sub same Let_def split: bind_splits if_splits)
  have hdr: "length (message_header L t) = 3" by (simp add: message_header_def)
  have "\<exists>rest. msg = message_header L t @ rest"
    using set SerializeToArray_at_end [of _ "message_header L t" msg] hdr
    by (auto simp: SetConsensusCollectiveSig_def sign_and_serialize_def split: sign_result.splits)
  then have "vec_at msg 2 = Some (type_byte t)" by (auto simp: message_header_def vec_at_def)
  moreover have "GetConsensusCollectiveSig (ossl E) (pb E) msg 3 (m_consensusID L) (m_blockNumber L)
       (m_blockHash L) (m_myID L) [] old (g (m_myPrivKey L)) = Some (True, responseMap sub, ?sig)"
    if "length msg < 2 ^ 31" for old
    using ConsensusCollectiveSig_written [OF B P _ _ _ MultiSigVerify_fits [OF B agg(2)] set [unfolded mine, folded hdr] that]
      key hdr by (simp add: signing_leader_def)
  ultimately show ?thesis using that [OF sub agg(3,1,2)] by blast
qed

lemma SubsetEnded_frame:
  assumes "SubsetEnded i L = Some L'"
  shows "m_outbox L' = m_outbox L" "m_CS1 L' = m_CS1 L" "m_B1 L' = m_B1 L" "m_CS2 L' = m_CS2 L"
    "m_B2 L' = m_B2 L" "m_messageToCosign L' = m_messageToCosign L" "m_committee L' = m_committee L"
  using assms by (auto simp: SubsetEnded_def Let_def split: bind_splits if_splits)

lemma publish_frame:
  "\<exists>rest. m_outbox (publish E msg L) = m_outbox L @ published E msg L # rest"
  "m_CS1 (publish E msg L) = m_CS1 L" "m_B1 (publish E msg L) = m_B1 L" "m_CS2 (publish E msg L) = m_CS2 L"
  "m_B2 (publish E msg L) = m_B2 L" "m_messageToCosign (publish E msg L) = m_messageToCosign L"
  by (auto simp: publish_def published_def start_window_def emit_def Let_def)

text \<open>A completed subset: what was published and what the round's bookkeeping started from.\<close>

lemma complete_subset_published:
  assumes B: "openssl_ok (ossl E) g" and P: "protobuf_ok (ConsensusCollectiveSig (pb E))"
    and key: "signing_leader (ossl E) g rnd L"
    and run: "complete_subset E rnd i action t st L = Some (True, L')"
  obtains msg rest sub sig agg L3 L4 where
    "m_outbox L' = m_outbox L @ published E msg L # rest"
    "AggregateKeys (ossl E) (m_committee L) (responseMap sub) = Some agg"
    "MultiSigVerify (ossl E) (m_messageToCosign L) sig agg = Some True"
    "vec_at msg 2 = Some (type_byte t)"
    "\<And>old. length msg < 2 ^ 31 \<Longrightarrow> GetConsensusCollectiveSig (ossl E) (pb E) msg 3 (m_consensusID L) (m_blockNumber L)
       (m_blockHash L) (m_myID L) [] old (g (m_myPrivKey L)) = Some (True, responseMap sub, sig)"
    "collectiveSig sub = sig" "m_messageToCosign L3 = m_messageToCosign L"
    "(if action = PROCESS_RESPONSE then finish_first_round E sub L3 else Some (finish_second_round sub L3)) = Some L4"
    "m_CS1 L' = m_CS1 L4" "m_B1 L' = m_B1 L4" "m_CS2 L' = m_CS2 L4" "m_B2 L' = m_B2 L4"
    "m_messageToCosign L' = m_messageToCosign L4"
proof -
  obtain msg L1 where gen: "GenerateCollectiveSigMessage E rnd (message_header L t) 3 i L = Some (True, msg, L1)"
    using run by (auto simp: complete_subset_def split: bind_splits if_splits)
  obtain sub sig agg where g: "vec_at (m_consensusSubsets L) i = Some sub"
    "L1 = (put_subset i (sub\<lparr>collectiveSig := sig\<rparr>) L)\<lparr>m_collectiveSig := sig\<rparr>"
    "AggregateKeys (ossl E) (m_committee L) (responseMap sub) = Some agg"
    "MultiSigVerify (ossl E) (m_messageToCosign L) sig agg = Some True"
    "vec_at msg 2 = Some (type_byte t)"
    "\<And>old. length msg < 2 ^ 31 \<Longrightarrow> GetConsensusCollectiveSig (ossl E) (pb E) msg 3 (m_consensusID L) (m_blockNumber L)
       (m_blockHash L) (m_myID L) [] old (g (m_myPrivKey L)) = Some (True, responseMap sub, sig)"
    using GenerateCollectiveSigMessage_read [OF B P key gen] by metis
  have i: "i < length (m_consensusSubsets L)" using g(1) by (auto simp: vec_at_def split: if_splits)
  let ?sub = "subset_set_state st (sub\<lparr>collectiveSig := sig\<rparr>)"
  let ?L3 = "(put_subset i ?sub L1)\<lparr>m_state := st\<rparr>"
  have set: "SetStateSubset i st L1 = Some (put_subset i ?sub L1)"
      "vec_at (m_consensusSubsets (put_subset i ?sub L1)) i = Some ?sub"
    using i by (simp_all add: g(2) SetStateSubset_def vec_at_def put_subset_def)
  have eq: "complete_subset E rnd i action t st L = do {
      L4 \<leftarrow> (if action = PROCESS_RESPONSE then finish_first_round E ?sub ?L3 else Some (finish_second_round ?sub ?L3));
      L5 \<leftarrow> SubsetEnded i L4;
      Some (True, publish E msg L5) }"
    by (simp add: complete_subset_def gen set publish_def Let_def)
  obtain L4 L5 where steps:
      "(if action = PROCESS_RESPONSE then finish_first_round E ?sub ?L3 else Some (finish_second_round ?sub ?L3)) = Some L4"
      "SubsetEnded i L4 = Some L5" "L' = publish E msg L5"
    using run [unfolded eq] by (auto split: bind_splits)
  have L4: "m_outbox L4 = m_outbox L" "m_committee L4 = m_committee L"
    using steps(1) by (auto simp: finish_first_round_def finish_second_round_def Let_def g(2) put_subset_def
        split: if_splits bind_splits prod.splits)
  note ended = SubsetEnded_frame [OF steps(2)]
  have "published E msg L5 = published E msg L" using ended L4 by (simp add: published_def)
  then obtain rest where "m_outbox L' = m_outbox L @ published E msg L # rest"
    using publish_frame(1) [of E msg L5] steps(3) ended L4 by auto
  moreover have "responseMap ?sub = responseMap sub" "collectiveSig ?sub = sig"
      "m_messageToCosign ?L3 = m_messageToCosign L"
    by (simp_all add: subset_set_state_def g(2) put_subset_def)
  ultimately show ?thesis
    using that [of msg rest ?sub agg sig ?L3 L4] g(3-6) steps(1,3) ended
    by (simp add: publish_frame)
qed

text \<open>What a backup of the same session makes of the published message.\<close>

lemma backup_reads_published:
  assumes same: "same_session L s" and key: "signing_leader (ossl E) g rnd L"
    and check: "Backup_CheckState s action"
    and get: "\<And>old. GetConsensusCollectiveSig (ossl E) (pb E) msg 3 (m_consensusID L) (m_blockNumber L)
       (m_blockHash L) (m_myID L) [] old (g (m_myPrivKey L)) = Some (True, bits, sig)"
    and agg: "AggregateKeys (ossl E) (m_committee L) bits = Some agg"
    and ver: "MultiSigVerify (ossl E) (m_messageToCosign L) sig agg = Some True"
  shows "ProcessMessageCollectiveSigCore E rnd' msg 3 action st s =
    (let s2 = s\<lparr>m_responseMap := bits, m_collectiveSig := sig\<rparr>
     in if action = PROCESS_COLLECTIVESIG then begin_second_round E rnd' st s2
        else Some (True, s2\<lparr>m_CS2 := sig, m_B2 := bits, m_state := st\<rparr>))"
proof -
  have lk: "leaderKey (ossl E) (s\<lparr>m_responseMap := []\<rparr>) = g (m_myPrivKey L)"
    using same key by (simp add: same_session_def signing_leader_def leaderKey_def GetCommitteeMember_def split: if_splits)
  have eqs: "m_consensusID s = m_consensusID L" "m_blockNumber s = m_blockNumber L" "m_blockHash s = m_blockHash L"
     "m_committee s = m_committee L" "m_messageToCosign s = m_messageToCosign L" "m_leaderID s = m_myID L"
    using same by (simp_all add: same_session_def)
  show ?thesis by (simp add: ProcessMessageCollectiveSigCore_def check Let_def lk eqs get agg ver)
qed

section \<open>A small session\<close>

text \<open>The leader of the session of \<open>toy_backup\<close>, with one subset whose third member has responded.\<close>

definition toy_leader :: "State \<Rightarrow> int ConsensusLeader" where
  "toy_leader st =
     (the (ConsensusLeader_new toy_env [Some 5] 7 8 [9] 0 1 [(1, Peer_default), (1, Peer_default), (5, Peer_default)] 0 0 False))
       \<lparr>m_state := st, m_messageToCosign := [1, 2, 3],
        m_consensusSubsets := [(subset_init toy 3 st)\<lparr>challenge := \<lparr>fval = 4, finit = True\<rparr>,
          responseData := [\<lparr>fval = 5, finit = True\<rparr>], responseMap := [False, False, True]\<rparr>]\<rparr>"

definition toy_leader_rand :: rand where
  "toy_leader_rand = toy_rand\<lparr>draws := [Some 12]\<rparr>"

lemma toy_leader_signing: "signing_leader toy (\<lambda>k. k mod 13) toy_leader_rand (toy_leader st)"
  by (auto simp: signing_leader_def toy_leader_def toy_leader_rand_def ConsensusLeader_new_def Let_def vec_put_def
      GetCommitteeMember_def toy_def)

lemma toy_same_session: "same_session (toy_leader st) (toy_backup st')"
  by (simp add: same_session_def toy_leader_def toy_backup_facts ConsensusLeader_new_def Let_def vec_put_def)

lemma toy_leader_outbox: "m_outbox (toy_leader st) = []"
  by (simp add: toy_leader_def ConsensusLeader_new_def Let_def vec_put_def)

text \<open>The signature \<open>(4, 5)\<close> is formed and verifies, so the leader has a message to publish.\<close>

lemma toy_leader_collectivesig:
  "\<exists>msg L1. GenerateCollectiveSigMessage toy_env toy_leader_rand (message_header (toy_leader st) t) 3 0 (toy_leader st)
     = Some (True, msg, L1) \<and> length msg < 2 ^ 31"
proof -
  let ?hdr = "message_header (toy_leader st) t"
  have "length ?hdr = 3" by (simp add: message_header_def)
  then obtain msg where msg: "SetConsensusCollectiveSig toy toy_protobufs ?hdr 3 7 8 [9] 0 \<lparr>m_r = 4, m_s = 5\<rparr>
      [False, False, True] (1, 1) [Some 12] = Some (msg, True)" "length msg < 2 ^ 31"
    using toy_collectivesig_serializes [of "\<lparr>m_r = 4, m_s = 5\<rparr>" "[False, False, True]" ?hdr]
    by (auto simp: Signature_fits_def bn_fits_def)
  obtain key where "AggregateKeys toy [(1, Peer_default), (1, Peer_default), (5, Peer_default)] [False, False, True] = Some key"
      "MultiSigVerify toy [1, 2, 3] \<lparr>m_r = 4, m_s = 5\<rparr> key = Some True"
    using toy_backup_verifies by (auto simp: verified_by_def)
  moreover have "AggregateResponses toy [\<lparr>fval = 5, finit = True\<rparr>] = \<lparr>fval = 5, finit = True\<rparr>"
      "AggregateSign \<lparr>fval = 4, finit = True\<rparr> \<lparr>fval = 5, finit = True\<rparr> = \<lparr>m_r = 4, m_s = 5\<rparr>"
    by (simp_all add: AggregateResponses_def MultiSig_AggregateResponses_def Response_copy_def copied_def
        AggregateSign_def MultiSig_AggregateSign_def)
  ultimately show ?thesis
    using msg
    by (simp add: GenerateCollectiveSigMessage_def toy_leader_def ConsensusLeader_new_def Let_def vec_put_def vec_at_def
        put_subset_def toy_env_def myKey_def GetCommitteeMember_def toy_leader_rand_def)
qed

lemma toy_leader_completes:
  assumes "action = PROCESS_RESPONSE \<and> st = CHALLENGE_DONE \<and> st' = COLLECTIVESIG_DONE
    \<or> action = PROCESS_FINALRESPONSE \<and> st = FINALCHALLENGE_DONE \<and> st' = DONE"
  shows "\<exists>msg rest L'. complete_subset toy_env toy_leader_rand 0 action t st' (toy_leader st) = Some (True, L')
    \<and> m_outbox L' = published toy_env msg (toy_leader st) # rest \<and> length msg < 2 ^ 31"
proof -
  obtain msg L1 where gen: "GenerateCollectiveSigMessage toy_env toy_leader_rand (message_header (toy_leader st) t) 3 0
      (toy_leader st) = Some (True, msg, L1)" "length msg < 2 ^ 31"
    using toy_leader_collectivesig by blast
  obtain sub sig agg where L1: "vec_at (m_consensusSubsets (toy_leader st)) 0 = Some sub"
    "L1 = (put_subset 0 (sub\<lparr>collectiveSig := sig\<rparr>) (toy_leader st))\<lparr>m_collectiveSig := sig\<rparr>"
    "MultiSigVerify toy (m_messageToCosign (toy_leader st)) sig agg = Some True"
    using GenerateCollectiveSigMessage_read [of toy_env "\<lambda>k. k mod 13" toy_leader_rand "toy_leader st" t 0 msg L1]
      toy_ok toy_protobufs_ok(4) toy_leader_signing gen(1) by (metis toy_backup_facts(9,10))
  have sub: "m_consensusSubsets (toy_leader st) = [sub]" "responseMap sub = [False, False, True]" "subset_state sub = st"
    using L1(1) by (auto simp: toy_leader_def vec_at_def subset_init_def)
  have fields: "m_messageToCosign (toy_leader st) = [1, 2, 3]" "m_myID (toy_leader st) = 0"
      "length (m_committee (toy_leader st)) = 3" "\<exists>p. m_commitPoint (toy_leader st) = Some p"
    by (simp_all add: toy_leader_def ConsensusLeader_new_def Let_def vec_put_def)
  have fits: "Signature_fits sig" by (rule MultiSigVerify_fits [OF toy_ok L1(3)])
  obtain m2 sz where m2: "SetBitVector (fst (Signature_Serialize [1, 2, 3] (u32 (length [1, 2, 3 :: byte])) sig))
      (u32 (length (fst (Signature_Serialize [1, 2, 3] (u32 (length [1, 2, 3 :: byte])) sig)))) [False, False, True] = Some (m2, sz)"
    using extend_message [OF fits, of "[1, 2, 3]" "[False, False, True]"] by auto
  have less: "subset_state sub < st'" using assms sub(3) by (auto simp: less_State_def)
  note eq = complete_subset_steps [OF gen(1) [unfolded L1(2)], of st' action]
  show ?thesis
    using assms eq sub less fields m2 gen(2)
    by (auto simp: toy_leader_outbox finish_first_round_def finish_second_round_def completed_def put_subset_def SubsetEnded_def vec_at_def vec_put_def
        publish_def published_def emit_def start_window_def Let_def)
qed

section \<open>Properties\<close>

text \<open>C3: the leader and its backups agree at the end. When a leader completes the second round, it publishes
  one message, and every backup of the same session that is waiting for it accepts that message, finishes,
  and holds the leader's final signature and bitmap over the same message.\<close>

theorem final_round_agreement:
  assumes B: "openssl_ok (ossl E) g" and P: "protobuf_ok (ConsensusCollectiveSig (pb E))"
    and key: "signing_leader (ossl E) g rnd L"
    and run: "complete_subset E rnd i PROCESS_FINALRESPONSE FINALCOLLECTIVESIG DONE L = Some (True, L')"
  shows "\<exists>msg rest. m_outbox L' = m_outbox L @ published E msg L # rest
    \<and> (length msg < 2 ^ 31 \<longrightarrow>
        (\<forall>s rnd' validator. same_session L s \<and> Backup_CheckState s PROCESS_FINALCOLLECTIVESIG \<longrightarrow>
          (\<exists>s'. Backup_ProcessMessage E rnd' validator msg 2 s = Some (True, s') \<and> m_state s' = DONE
             \<and> m_CS2 s' = m_CS2 L' \<and> m_B2 s' = m_B2 L' \<and> m_messageToCosign s' = m_messageToCosign L')))"
proof -
  obtain msg rest sub sig agg L3 L4 where pub: "m_outbox L' = m_outbox L @ published E msg L # rest"
    and ver: "AggregateKeys (ossl E) (m_committee L) (responseMap sub) = Some agg"
      "MultiSigVerify (ossl E) (m_messageToCosign L) sig agg = Some True"
    and type: "vec_at msg 2 = Some (type_byte FINALCOLLECTIVESIG)"
    and get: "\<And>old. length msg < 2 ^ 31 \<Longrightarrow> GetConsensusCollectiveSig (ossl E) (pb E) msg 3 (m_consensusID L)
       (m_blockNumber L) (m_blockHash L) (m_myID L) [] old (g (m_myPrivKey L)) = Some (True, responseMap sub, sig)"
    and L4: "collectiveSig sub = sig" "m_messageToCosign L3 = m_messageToCosign L"
      "(if PROCESS_FINALRESPONSE = PROCESS_RESPONSE then finish_first_round E sub L3
        else Some (finish_second_round sub L3)) = Some L4"
    and L': "m_CS2 L' = m_CS2 L4" "m_B2 L' = m_B2 L4" "m_messageToCosign L' = m_messageToCosign L4"
    using complete_subset_published [OF B P key run] by metis
  have held: "m_CS2 L' = sig" "m_B2 L' = responseMap sub" "m_messageToCosign L' = m_messageToCosign L"
    using L4 L' by (auto simp: finish_second_round_def)
  have "Backup_ProcessMessage E rnd' validator msg 2 s
      = Some (True, s\<lparr>m_responseMap := responseMap sub, m_collectiveSig := sig, m_CS2 := sig,
                      m_B2 := responseMap sub, m_state := DONE\<rparr>)"
    if "length msg < 2 ^ 31" "same_session L s" "Backup_CheckState s PROCESS_FINALCOLLECTIVESIG" for s rnd' validator
    using type backup_reads_published [OF that(2) key that(3) get [OF that(1)] ver, of rnd' DONE]
    by (simp add: Backup_ProcessMessage_def ProcessMessageFinalCollectiveSig_def)
  then show ?thesis
    using pub held by (intro exI [of _ msg] exI [of _ rest]) (auto simp: same_session_def)
qed

theorem final_round_agreement_witness:
  "\<exists>L' msg rest s'. complete_subset toy_env toy_leader_rand 0 PROCESS_FINALRESPONSE FINALCOLLECTIVESIG DONE
      (toy_leader FINALCHALLENGE_DONE) = Some (True, L')
    \<and> m_outbox L' = published toy_env msg (toy_leader FINALCHALLENGE_DONE) # rest
    \<and> Backup_ProcessMessage toy_env toy_backup_rand (\<lambda>_ _ _ _ _ _ _ _. (True, [], [])) msg 2 (toy_backup FINALCOMMIT_DONE)
        = Some (True, s')
    \<and> m_state s' = DONE \<and> m_CS2 s' = m_CS2 L'"
proof -
  obtain msg rest L' where run: "complete_subset toy_env toy_leader_rand 0 PROCESS_FINALRESPONSE FINALCOLLECTIVESIG DONE
      (toy_leader FINALCHALLENGE_DONE) = Some (True, L')"
    and out: "m_outbox L' = published toy_env msg (toy_leader FINALCHALLENGE_DONE) # rest" "length msg < 2 ^ 31"
    using toy_leader_completes [of PROCESS_FINALRESPONSE FINALCHALLENGE_DONE DONE FINALCOLLECTIVESIG] by blast
  have hyps: "openssl_ok (ossl toy_env) (\<lambda>k. k mod 13)" "protobuf_ok (ConsensusCollectiveSig (pb toy_env))"
      "signing_leader (ossl toy_env) (\<lambda>k. k mod 13) toy_leader_rand (toy_leader FINALCHALLENGE_DONE)"
    by (simp_all add: toy_backup_facts toy_ok toy_protobufs_ok toy_leader_signing)
  have check: "Backup_CheckState (toy_backup FINALCOMMIT_DONE) PROCESS_FINALCOLLECTIVESIG"
    by (simp add: Backup_CheckState_iff toy_backup_facts)
  obtain msg' rest' where agree: "m_outbox L' = m_outbox (toy_leader FINALCHALLENGE_DONE)
        @ published toy_env msg' (toy_leader FINALCHALLENGE_DONE) # rest'"
    "length msg' < 2 ^ 31 \<longrightarrow> (\<exists>s'. Backup_ProcessMessage toy_env toy_backup_rand (\<lambda>_ _ _ _ _ _ _ _. (True, [], [])) msg' 2
        (toy_backup FINALCOMMIT_DONE) = Some (True, s') \<and> m_state s' = DONE \<and> m_CS2 s' = m_CS2 L')"
    using final_round_agreement [OF hyps run] toy_same_session check by blast
  have "msg' = msg" using agree(1) out(1) by (simp add: toy_leader_outbox published_def toy_env_def)
  then show ?thesis using run out agree(2) by blast
qed

text \<open>C24: the leader and its backups enter the second round with the same message to co-sign. The first-round
  message of the leader makes every waiting backup of the session extend its message exactly as the
  leader did; when the backup's commit can be sent, it keeps the leader's first signature and bitmap.\<close>

theorem first_round_agreement:
  assumes B: "openssl_ok (ossl E) g" and P: "protobuf_ok (ConsensusCollectiveSig (pb E))"
    and key: "signing_leader (ossl E) g rnd L"
    and run: "complete_subset E rnd i PROCESS_RESPONSE COLLECTIVESIG COLLECTIVESIG_DONE L = Some (True, L')"
  shows "\<exists>msg rest. m_outbox L' = m_outbox L @ published E msg L # rest
    \<and> (length msg < 2 ^ 31 \<longrightarrow>
        (\<forall>s rnd' validator. same_session L s \<and> Backup_CheckState s PROCESS_COLLECTIVESIG
            \<and> backup_draws_ok E rnd' s \<longrightarrow>
          (\<exists>sent s'. Backup_ProcessMessage E rnd' validator msg 2 s = Some (sent, s')
             \<and> m_messageToCosign s' = m_messageToCosign L'
             \<and> (sent \<longrightarrow> m_state s' = FINALCOMMIT_DONE \<and> m_CS1 s' = m_CS1 L' \<and> m_B1 s' = m_B1 L'))))"
proof -
  obtain msg rest sub sig agg L3 L4 where pub: "m_outbox L' = m_outbox L @ published E msg L # rest"
    and ver: "AggregateKeys (ossl E) (m_committee L) (responseMap sub) = Some agg"
      "MultiSigVerify (ossl E) (m_messageToCosign L) sig agg = Some True"
    and type: "vec_at msg 2 = Some (type_byte COLLECTIVESIG)"
    and get: "\<And>old. length msg < 2 ^ 31 \<Longrightarrow> GetConsensusCollectiveSig (ossl E) (pb E) msg 3 (m_consensusID L)
       (m_blockNumber L) (m_blockHash L) (m_myID L) [] old (g (m_myPrivKey L)) = Some (True, responseMap sub, sig)"
    and L4: "collectiveSig sub = sig" "m_messageToCosign L3 = m_messageToCosign L"
      "(if PROCESS_RESPONSE = PROCESS_RESPONSE then finish_first_round E sub L3
        else Some (finish_second_round sub L3)) = Some L4"
    and L': "m_CS1 L' = m_CS1 L4" "m_B1 L' = m_B1 L4" "m_messageToCosign L' = m_messageToCosign L4"
    using complete_subset_published [OF B P key run] by metis
  let ?m1 = "fst (Signature_Serialize (m_messageToCosign L) (u32 (length (m_messageToCosign L))) sig)"
  obtain m2 sz where m2: "SetBitVector ?m1 (u32 (length ?m1)) (responseMap sub) = Some (m2, sz)"
    and held: "m_CS1 L' = sig" "m_B1 L' = responseMap sub" "m_messageToCosign L' = m2"
    using L4 L' by (auto simp: finish_first_round_def Let_def split: bind_splits)
  have "\<exists>sent s'. Backup_ProcessMessage E rnd' validator msg 2 s = Some (sent, s') \<and> m_messageToCosign s' = m2
      \<and> (sent \<longrightarrow> m_state s' = FINALCOMMIT_DONE \<and> m_CS1 s' = sig \<and> m_B1 s' = responseMap sub)"
    if "length msg < 2 ^ 31" "same_session L s" "Backup_CheckState s PROCESS_COLLECTIVESIG" "backup_draws_ok E rnd' s"
    for s rnd' validator
  proof -
    let ?s = "s\<lparr>m_responseMap := responseMap sub, m_collectiveSig := sig, m_messageToCosign := m2\<rparr>"
    have "myKey (ossl E) ?s = myKey (ossl E) s" by (rule myKey_frame) simp_all
    then have "backup_draws_ok E rnd' ?s" using that(4) by (simp add: backup_draws_ok_def)
    from GenerateCommitMessage_result [OF this, of FINALCOMMIT] obtain sent cm secret point where
      gen: "GenerateCommitMessage E rnd' (message_header ?s FINALCOMMIT) 3 ?s
        = Some (sent, cm, ?s\<lparr>m_commitSecret := Some secret, m_commitPoint := Some point\<rparr>)" by blast
    have "Backup_ProcessMessage E rnd' validator msg 2 s
        = begin_second_round E rnd' FINALCOMMIT_DONE (s\<lparr>m_responseMap := responseMap sub, m_collectiveSig := sig\<rparr>)"
      using type backup_reads_published [OF that(2) key that(3) get [OF that(1)] ver, of rnd' FINALCOMMIT_DONE]
      by (simp add: Backup_ProcessMessage_def ProcessMessageCollectiveSig_def)
    then show ?thesis
      using m2 gen that(2) by (cases sent)
        (auto simp: begin_second_round_def Let_def same_session_def send_to_leader_def emit_def)
  qed
  then show ?thesis using pub held by (intro exI [of _ msg] exI [of _ rest]) auto
qed

theorem first_round_agreement_witness:
  "\<exists>L' msg rest sent s'. complete_subset toy_env toy_leader_rand 0 PROCESS_RESPONSE COLLECTIVESIG COLLECTIVESIG_DONE
      (toy_leader CHALLENGE_DONE) = Some (True, L')
    \<and> m_outbox L' = published toy_env msg (toy_leader CHALLENGE_DONE) # rest
    \<and> Backup_ProcessMessage toy_env toy_backup_rand (\<lambda>_ _ _ _ _ _ _ _. (True, [], [])) msg 2 (toy_backup COMMIT_DONE)
        = Some (sent, s')
    \<and> m_messageToCosign s' = m_messageToCosign L'"
proof -
  obtain msg rest L' where run: "complete_subset toy_env toy_leader_rand 0 PROCESS_RESPONSE COLLECTIVESIG COLLECTIVESIG_DONE
      (toy_leader CHALLENGE_DONE) = Some (True, L')"
    and out: "m_outbox L' = published toy_env msg (toy_leader CHALLENGE_DONE) # rest" "length msg < 2 ^ 31"
    using toy_leader_completes [of PROCESS_RESPONSE CHALLENGE_DONE COLLECTIVESIG_DONE COLLECTIVESIG] by blast
  have hyps: "openssl_ok (ossl toy_env) (\<lambda>k. k mod 13)" "protobuf_ok (ConsensusCollectiveSig (pb toy_env))"
      "signing_leader (ossl toy_env) (\<lambda>k. k mod 13) toy_leader_rand (toy_leader CHALLENGE_DONE)"
    by (simp_all add: toy_backup_facts toy_ok toy_protobufs_ok toy_leader_signing)
  have check: "Backup_CheckState (toy_backup COMMIT_DONE) PROCESS_COLLECTIVESIG"
    by (simp add: Backup_CheckState_iff toy_backup_facts)
  obtain msg' rest' where agree: "m_outbox L' = m_outbox (toy_leader CHALLENGE_DONE)
        @ published toy_env msg' (toy_leader CHALLENGE_DONE) # rest'"
    "length msg' < 2 ^ 31 \<longrightarrow> (\<exists>sent s'. Backup_ProcessMessage toy_env toy_backup_rand (\<lambda>_ _ _ _ _ _ _ _. (True, [], [])) msg' 2
        (toy_backup COMMIT_DONE) = Some (sent, s') \<and> m_messageToCosign s' = m_messageToCosign L')"
    using first_round_agreement [OF hyps run] toy_same_session check toy_backup_rand_ok by blast
  have "msg' = msg" using agree(1) out(1) by (simp add: toy_leader_outbox published_def toy_env_def)
  then show ?thesis using run out agree(2) by blast
qed

section \<open>Blocks that a finished session certifies\<close>

lemma popcount_signers:
  assumes "length bits = length committee"
  shows "length (signer_keys bits (map fst committee)) = popcount bits"
    "select_keys bits committee = Some (signer_keys bits (map fst committee))"
proof -
  show "length (signer_keys bits (map fst committee)) = popcount bits"
    using assms by (induction bits committee rule: list_induct2) (auto simp: signer_keys_def popcount_def)
  show "select_keys bits committee = Some (signer_keys bits (map fst committee))"
    using assms by (induction bits committee rule: list_induct2) (auto simp: signer_keys_def)
qed

lemma signers_of_keys:
  assumes "length bits = length committee" "map fst committee = map g ks"
  obtains ds where "signer_keys bits (map fst committee) = map g ds"
proof
  show "signer_keys bits (map fst committee) = map g (map snd (filter fst (zip bits ks)))"
    unfolding assms(2) signer_keys_def by (induction bits ks rule: list_induct2') auto
qed

text \<open>C4: a finished session certifies its block. When the leader of a committee is done and what its session announced is the
  header of a block, the co-signatures it puts into the block pass the check of every node that knows the committee: that of
  the validator, and that of the handlers of the node, which also ask that the header could be serialised.\<close>

theorem finished_session_certifies_block:
  assumes "openssl_ok (ossl E) g" "leader_inv E L" "m_state L = DONE" "map fst (m_committee L) = map g ks"
    and "Serialize [] 0 = Some (header, ok)" "length header < 2 ^ 31"
    and "extended header (m_CS1 L) (m_B1 L) (m_messageToCosign L)"
  shows "CheckBlockCosignature (ossl E) Serialize (bb_cosigs (SetCoSignatures L b)) (map fst (m_committee L)) = Some True
    \<and> verify_block_cosignature (ossl E) Serialize (bb_cosigs (SetCoSignatures L b)) (map fst (m_committee L)) = Some ok"
proof -
  let ?C = "m_committee L" and ?c = "bb_cosigs (SetCoSignatures L b)"
  have static: "0 < length ?C" "length ?C < 2 ^ 16" "m_numForConsensus L = NumForConsensus (length ?C)"
    using assms(2) by (auto simp: leader_inv_def leader_static_def)
  obtain base where first: "cosigned (ossl E) ?C (m_numForConsensus L) base (m_CS1 L) (m_B1 L)"
    using assms(2,3) by (auto simp: leader_inv_def leader_message_def)
  have second: "cosigned (ossl E) ?C (m_numForConsensus L) (m_messageToCosign L) (m_CS2 L) (m_B2 L)"
    using assms(2,3) by (auto simp: leader_inv_def leader_message_def)
  have fits: "cosigs_ok ?c"
    using first static(2) MultiSigVerify_fits [OF assms(1)] by (auto simp: cosigs_ok_def SetCoSignatures_def cosigned_def)
  have bits: "length (m_B2 L) = length ?C" using second by (simp add: cosigned_def)
  obtain ds where ds: "signer_keys (m_B2 L) (map fst ?C) = map g ds" by (rule signers_of_keys [OF bits assms(4)])
  have many: "length (signer_keys (m_B2 L) (map fst ?C)) = NumForConsensus (length ?C)"
    using popcount_signers(1) [OF bits] second static(3) by (simp add: cosigned_def)
  have "0 < NumForConsensus (length ?C)" by (rule NumForConsensus_pos) (use static in auto)
  then have "ds \<noteq> []" using many ds by auto
  then have "AggregatePubKeys (ossl E) (signer_keys (m_B2 L) (map fst ?C)) = Some (g (sum_list ds))"
    by (simp add: ds AggregatePubKeys_g [OF assms(1)])
  then have "block_cosigned (ossl E) header ?c (map fst ?C)"
    using second many bits assms(7) popcount_signers(2) [OF bits]
    by (auto simp: block_cosigned_def SetCoSignatures_def cosigned_def AggregateKeys_def)
  then show ?thesis by (simp add: CheckBlockCosignature_iff [where Serialize = Serialize, OF assms(5,6) fits])
qed

lemma toy_verifies:
  "MultiSigVerify toy [1] \<lparr>m_r = 6, m_s = 8\<rparr> 1 = Some True"
  "MultiSigVerify toy ((1 # replicate 31 0 @ [6] @ replicate 31 0 @ [8]) @ [0, 1, 128]) \<lparr>m_r = 6, m_s = 8\<rparr> 1 = Some True"
  by (simp_all add: MultiSigVerify_def MultiSigVerify_range_def toy_def toy_oct_def toy_digest_def u32_def Let_def SHA2_Update_range_def
        SHA2_Update_def SHA2_Reset_def SHA2_Finalize_def BN_bin2bn_def be_val_def sum_list_replicate subvec_def)

lemma toy_extended: "extended [1] \<lparr>m_r = 6, m_s = 8\<rparr> [True] ((1 # replicate 31 0 @ [6] @ replicate 31 0 @ [8]) @ [0, 1, 128])"
proof -
  have nb: "num_bytes 6 = 1" "num_bytes 8 = 1" by (simp_all add: num_bytes.simps)
  let ?m = "1 # replicate 31 0 @ [6] @ replicate 31 0 @ [8] :: bytes"
  have "fst (Signature_Serialize [1] 1 \<lparr>m_r = 6, m_s = 8\<rparr>) = ?m"
    by (simp add: Signature_Serialize_def BIGNUMSerialize_SetNumber_def Let_def u32_def ByteCodec.s32_def BN_num_bytes_def vec_write_def
        vec_resize_def BN_bn2bin_def nb)
  moreover have "u32 65 = 65" "u32 (Suc 0) = 1" by (simp_all add: u32_def)
  ultimately show ?thesis using SetBitVector_one [of ?m] by (simp add: extended_def Let_def)
qed

theorem finished_session_certifies_block_witness:
  "\<exists>L :: int ConsensusLeader. m_state L = DONE
    \<and> CheckBlockCosignature toy (\<lambda>_ _. Some ([1], True)) (bb_cosigs (SetCoSignatures L (DSBlock_default toy))) [1] = Some True"
proof -
  obtain L0 where L0: "ConsensusLeader_new toy_env [Some 5] 7 8 [9] 0 1 [(1, Peer_default)] 0 0 False = Some L0"
    using toy_leader_new by blast
  let ?sig = "\<lparr>m_r = 6, m_s = 8\<rparr>" and ?m = "(1 # replicate 31 0 @ [6] @ replicate 31 0 @ [8]) @ [0, 1, 128]"
  let ?L = "L0\<lparr>m_state := DONE, m_CS1 := ?sig, m_B1 := [True], m_CS2 := ?sig, m_B2 := [True], m_messageToCosign := ?m\<rparr>"
  have toy: "ossl toy_env = toy" by (simp add: toy_env_def)
  note facts = ConsensusLeader_new_result [OF L0]
  have C: "m_committee L0 = [(1, Peer_default)]" "m_windows L0 = 0" 
    using L0 by (auto simp: ConsensusLeader_new_def Let_def split: bind_splits)
  have one: "NumForConsensus (Suc 0) = 1" using NumForConsensus_exact [of 1] by simp
  have inv0: "leader_inv toy_env L0" using facts by simp
  then have num: "m_numForConsensus L0 = 1" by (simp add: leader_inv_def leader_static_def C one)
  have cos: "cosigned toy (m_committee L0) 1 [1] ?sig [True]" "cosigned toy (m_committee L0) 1 ?m ?sig [True]"
    using toy_verifies by (auto simp: cosigned_def C AggregateKeys_def AggregatePubKeys_def popcount_def)
  have inv: "leader_inv toy_env ?L"
    using inv0 num cos toy_extended by (auto simp: leader_inv_def leader_static_def leader_windows_def leader_subsets_def
        leader_message_def toy C)
  have "CheckBlockCosignature toy (\<lambda>_ _. Some ([1], True)) (bb_cosigs (SetCoSignatures ?L (DSBlock_default toy))) (map fst (m_committee ?L)) = Some True"
    using finished_session_certifies_block [OF _ inv, of "\<lambda>k. k mod 13" "[1]" "\<lambda>_ _. Some ([1], True)" "[1]" True "DSBlock_default toy"]
      toy_ok toy_extended by (simp add: toy C)
  then show ?thesis by (intro exI [of _ ?L]) (simp add: C)
qed

end
